(* ===== verification/Prelude.thy ===== *)
theory Prelude
  imports Complex_Main "HOL-Library.Multiset"
begin

text \<open>
  Shared vocabulary of the development: the reading of Python values the models use
  (floats as exact reals, nullable columns and \<open>dict.get\<close> results as options, ASCII
  strings), Python's \<open>round\<close>, \<open>or\<close>, stable sorts and string methods, and the generic
  lemmas the component theories share. The facts of the collection \<open>money_simps\<close> are the
  sign and bound laws that almost every component proof needs.
\<close>

named_theorems money_simps "sign and bound laws of the numeric helpers"

section \<open>Nullable values\<close>

type_synonym fopt = "real option"
type_synonym usd = real

text \<open>
  \<open>_to_float(v, default)\<close>: \<open>None\<close> stands for an absent key, a SQL NULL and any value that
  Python's \<open>float\<close> rejects; the code treats the three alike.
\<close>

definition to_float :: "fopt \<Rightarrow> real \<Rightarrow> real" where
  "to_float v d = (case v of None \<Rightarrow> d | Some x \<Rightarrow> x)"

lemma to_float_simps [simp]: "to_float None d = d" "to_float (Some x) d = x"
  by (simp_all add: to_float_def)

text \<open>\<open>int(v or 0)\<close> and \<open>str(v or "")\<close>.\<close>

definition int_or_zero :: "int option \<Rightarrow> int" where
  "int_or_zero v = (case v of None \<Rightarrow> 0 | Some i \<Rightarrow> i)"

lemma int_or_zero_simps [simp]: "int_or_zero None = 0" "int_or_zero (Some i) = i"
  by (simp_all add: int_or_zero_def)

definition str_or_empty :: "string option \<Rightarrow> string" where
  "str_or_empty v = (case v of None \<Rightarrow> '''' | Some s \<Rightarrow> s)"

lemma str_or_empty_simps [simp]: "str_or_empty None = ''''" "str_or_empty (Some s) = s"
  by (simp_all add: str_or_empty_def)

text \<open>\<open>int(v or d)\<close>: NULL and 0 give the default.\<close>

definition int_or :: "int \<Rightarrow> int option \<Rightarrow> int" where
  "int_or d v = (case v of None \<Rightarrow> d | Some i \<Rightarrow> if i = 0 then d else i)"

lemma int_or_simps [simp]: "int_or d None = d" "int_or d (Some 0) = d" "i \<noteq> 0 \<Longrightarrow> int_or d (Some i) = i"
  by (simp_all add: int_or_def)

text \<open>Python's \<open>a or b\<close> on nullable numbers and strings: the first operand if it is truthy.\<close>

definition py_or_num :: "'a::zero option \<Rightarrow> 'a option \<Rightarrow> 'a option" where
  "py_or_num a b = (case a of Some x \<Rightarrow> if x \<noteq> 0 then a else b | None \<Rightarrow> b)"

definition py_or_str :: "string option \<Rightarrow> string option \<Rightarrow> string option" where
  "py_or_str a b = (case a of Some s \<Rightarrow> if s \<noteq> [] then a else b | None \<Rightarrow> b)"

lemma py_or_num_simps [simp]:
  "py_or_num None b = b" "x \<noteq> 0 \<Longrightarrow> py_or_num (Some x) b = Some x" "py_or_num (Some 0) b = b"
  by (simp_all add: py_or_num_def)

lemma py_or_str_simps [simp]:
  "py_or_str None b = b" "s \<noteq> [] \<Longrightarrow> py_or_str (Some s) b = Some s" "py_or_str (Some []) b = b"
  by (simp_all add: py_or_str_def)

text \<open>\<open>max(0.0, x)\<close>, the clamp the code puts on every amount.\<close>

definition pos_part :: "real \<Rightarrow> real" where
  "pos_part x = max 0 x"

lemma pos_part_nonneg [simp, money_simps]: "0 \<le> pos_part x"
  by (simp add: pos_part_def)

lemma pos_part_id [simp]: "0 \<le> x \<Longrightarrow> pos_part x = x"
  by (simp add: pos_part_def)

lemma pos_part_neg [simp]: "x \<le> 0 \<Longrightarrow> pos_part x = 0"
  by (simp add: pos_part_def)

lemma pos_part_ge: "x \<le> pos_part x"
  by (simp add: pos_part_def)

lemma pos_part_pos_iff [simp]: "0 < pos_part x \<longleftrightarrow> 0 < x" "pos_part x \<le> 0 \<longleftrightarrow> x \<le> 0"
  by (auto simp: pos_part_def)

lemma pos_part_mono: "x \<le> y \<Longrightarrow> pos_part x \<le> pos_part y"
  by (auto simp: pos_part_def)

definition clampr :: "real \<Rightarrow> real \<Rightarrow> real \<Rightarrow> real" where
  "clampr v lo hi = max lo (min hi v)"

lemma clampr_bounds [money_simps]: "lo \<le> clampr v lo hi" "lo \<le> hi \<Longrightarrow> clampr v lo hi \<le> hi"
  by (auto simp: clampr_def)

lemma clampr_id: "lo \<le> v \<Longrightarrow> v \<le> hi \<Longrightarrow> clampr v lo hi = v"
  by (simp add: clampr_def)

section \<open>Python's round\<close>

text \<open>
  \<open>round(x, n)\<close> rounds half to even. On exact reals this is the nearest multiple of
  \<open>10 ^ -n\<close>, ties to the even multiple.
\<close>

definition round_half_even :: "real \<Rightarrow> int" where
  "round_half_even x =
     (let f = \<lfloor>x\<rfloor>; d = x - of_int f in
      if d < 1 / 2 then f else if d > 1 / 2 then f + 1 else if even f then f else f + 1)"

definition py_round :: "real \<Rightarrow> nat \<Rightarrow> real" where
  "py_round x n = of_int (round_half_even (x * 10 ^ n)) / 10 ^ n"

text \<open>\<open>int(x)\<close> on a float truncates towards zero.\<close>

definition py_trunc :: "real \<Rightarrow> int" where
  "py_trunc x = (if 0 \<le> x then \<lfloor>x\<rfloor> else \<lceil>x\<rceil>)"

lemma round_half_even_error: "\<bar>of_int (round_half_even x) - x\<bar> \<le> 1 / 2"
proof -
  define f d where "f = \<lfloor>x\<rfloor>" and "d = x - of_int f"
  then have "0 \<le> d" "d < 1" "x = of_int f + d" by linarith+
  moreover have "round_half_even x = (if d < 1 / 2 then f else if d > 1 / 2 then f + 1 else if even f then f else f + 1)"
    by (simp add: round_half_even_def f_def d_def Let_def)
  ultimately show ?thesis by auto
qed

lemma round_half_even_of_int [simp]: "round_half_even (of_int k) = k"
  by (simp add: round_half_even_def)

lemma round_half_even_mono:
  assumes "x \<le> y" shows "round_half_even x \<le> round_half_even y"
proof (cases "\<lfloor>x\<rfloor> = \<lfloor>y\<rfloor>")
  case True
  with assms show ?thesis by (auto simp: round_half_even_def Let_def)
next
  case False
  with assms have lt: "\<lfloor>x\<rfloor> + 1 \<le> \<lfloor>y\<rfloor>" using floor_mono[OF assms] by linarith
  have "round_half_even x \<le> \<lfloor>x\<rfloor> + 1" "\<lfloor>y\<rfloor> \<le> round_half_even y"
    by (auto simp: round_half_even_def Let_def)
  with lt show ?thesis by linarith
qed

lemma round_half_even_zero [simp]: "round_half_even 0 = 0"
  using round_half_even_of_int[of 0] by simp

lemma py_round_zero [simp]: "py_round 0 n = 0"
  by (simp add: py_round_def)

lemma py_round_mono: "x \<le> y \<Longrightarrow> py_round x n \<le> py_round y n"
  by (simp add: py_round_def divide_right_mono round_half_even_mono)

lemma py_round_nonneg [money_simps]: "0 \<le> x \<Longrightarrow> 0 \<le> py_round x n"
  using py_round_mono[of 0 x n] by simp

lemma py_round_nonpos: "x \<le> 0 \<Longrightarrow> py_round x n \<le> 0"
  using py_round_mono[of x 0 n] by simp

lemma py_round_error: "\<bar>py_round x n - x\<bar> \<le> 1 / (2 * 10 ^ n)"
proof -
  let ?p = "10 ^ n :: real"
  have "py_round x n - x = (of_int (round_half_even (x * ?p)) - x * ?p) / ?p"
    by (simp add: py_round_def diff_divide_distrib)
  also have "\<bar>\<dots>\<bar> = \<bar>of_int (round_half_even (x * ?p)) - x * ?p\<bar> / ?p"
    by (simp add: abs_divide)
  also have "\<dots> \<le> (1 / 2) / ?p"
    by (intro divide_right_mono round_half_even_error) simp
  finally show ?thesis by simp
qed

lemma py_round_of_int [simp]: "py_round (of_int k) n = of_int k"
proof -
  have "of_int k * 10 ^ n = (of_int (k * 10 ^ n) :: real)" by simp
  then have "round_half_even (of_int k * 10 ^ n) = k * 10 ^ n" by (metis round_half_even_of_int)
  then show ?thesis by (simp add: py_round_def)
qed

lemma py_round_numeral [simp]: "py_round (numeral k) n = numeral k" "py_round (- numeral k) n = - numeral k" "py_round 1 n = 1"
  using py_round_of_int[of "numeral k" n] py_round_of_int[of "- numeral k" n] py_round_of_int[of 1 n] by simp_all

lemma py_round_idem [simp]: "py_round (py_round x n) n = py_round x n"
  by (simp add: py_round_def)

section \<open>Strings\<close>

text \<open>
  The strings the models work on (symbols, ids, codes) are ASCII; \<open>upper\<close>, \<open>lower\<close> and
  \<open>strip\<close> are Python's methods on that alphabet.
\<close>

definition char_upper :: "char \<Rightarrow> char" where
  "char_upper c = (let n = of_char c :: nat in if 97 \<le> n \<and> n \<le> 122 then char_of (n - 32) else c)"

definition char_lower :: "char \<Rightarrow> char" where
  "char_lower c = (let n = of_char c :: nat in if 65 \<le> n \<and> n \<le> 90 then char_of (n + 32) else c)"

definition py_upper :: "string \<Rightarrow> string" where
  "py_upper s = map char_upper s"

definition py_lower :: "string \<Rightarrow> string" where
  "py_lower s = map char_lower s"

definition is_space :: "char \<Rightarrow> bool" where
  "is_space c = (let n = of_char c :: nat in n = 32 \<or> (9 \<le> n \<and> n \<le> 13) \<or> (28 \<le> n \<and> n \<le> 31))"

definition py_strip :: "string \<Rightarrow> string" where
  "py_strip s = rev (dropWhile is_space (rev (dropWhile is_space s)))"

lemma char_upper_code:
  "of_char (char_upper c) = (let n = of_char c :: nat in if 97 \<le> n \<and> n \<le> 122 then n - 32 else n)"
proof (cases "97 \<le> (of_char c :: nat) \<and> (of_char c :: nat) \<le> 122")
  case True
  then have "(of_char c - 32 :: nat) mod 256 = of_char c - 32" by (intro mod_less) linarith
  then show ?thesis using True by (simp add: char_upper_def Let_def)
qed (auto simp: char_upper_def Let_def)

lemma char_upper_idem [simp]: "char_upper (char_upper c) = char_upper c"
proof -
  have "(of_char (char_upper (char_upper c)) :: nat) = of_char (char_upper c)"
    unfolding char_upper_code[of "char_upper c"] unfolding char_upper_code by (auto simp: Let_def)
  then show ?thesis unfolding of_char_eq_iff .
qed

lemma py_upper_idem [simp]: "py_upper (py_upper x) = py_upper x"
  by (simp add: py_upper_def)

text \<open>\<open>s.split(c, 1)\<close>: the text before the first \<open>c\<close>, and what follows it.\<close>

definition split_head :: "char \<Rightarrow> string \<Rightarrow> string" where
  "split_head c s = takeWhile (\<lambda>x. x \<noteq> c) s"

definition split_tail :: "char \<Rightarrow> string \<Rightarrow> string" where
  "split_tail c s = drop 1 (dropWhile (\<lambda>x. x \<noteq> c) s)"

definition py_replace_char :: "char \<Rightarrow> string \<Rightarrow> string" where
  "py_replace_char c s = filter (\<lambda>x. x \<noteq> c) s"

lemma split_head_notin [simp]: "c \<notin> set (split_head c s)"
  unfolding split_head_def by (auto dest: set_takeWhileD)

lemma split_head_id [simp]: "c \<notin> set s \<Longrightarrow> split_head c s = s"
  unfolding split_head_def by (induction s) auto

lemma split_parts: "c \<in> set s \<Longrightarrow> split_head c s @ c # split_tail c s = s"
  unfolding split_head_def split_tail_def
  by (induction s) auto

text \<open>Decimal rendering of integers, \<open>str(n)\<close>.\<close>

fun digits_of :: "nat \<Rightarrow> string" where
  "digits_of n = (if n < 10 then [char_of (48 + n)] else digits_of (n div 10) @ [char_of (48 + n mod 10)])"

declare digits_of.simps [simp del]

definition str_of_int :: "int \<Rightarrow> string" where
  "str_of_int i = (if i < 0 then CHR ''-'' # digits_of (nat (- i)) else digits_of (nat i))"

definition is_digit_char :: "char \<Rightarrow> bool" where
  "is_digit_char c = (let n = of_char c :: nat in 48 \<le> n \<and> n \<le> 57)"

definition digits_value :: "string \<Rightarrow> nat" where
  "digits_value s = foldl (\<lambda>acc c. 10 * acc + (of_char c - 48)) 0 s"

lemma of_char_digit: "d < 10 \<Longrightarrow> of_char (char_of (48 + d) :: char) = (48 + d :: nat)"
  by simp

lemma digits_of_digits: "c \<in> set (digits_of n) \<Longrightarrow> is_digit_char c"
proof (induction n rule: digits_of.induct)
  case (1 n)
  show ?case
  proof (cases "n < 10")
    case True
    with "1.prems" show ?thesis
      by (simp add: digits_of.simps[of n] is_digit_char_def Let_def)
  next
    case False
    with "1.prems" consider "c \<in> set (digits_of (n div 10))" | "c = char_of (48 + n mod 10)"
      by (auto simp: digits_of.simps[of n])
    then show ?thesis
    proof cases
      case 1
      with False "1.IH" show ?thesis by simp
    next
      case 2
      have "n mod 10 < 10" by simp
      with 2 show ?thesis by (simp add: is_digit_char_def Let_def)
    qed
  qed
qed

lemma digits_value_digits_of [simp]: "digits_value (digits_of n) = n"
proof (induction n rule: digits_of.induct)
  case (1 n)
  show ?case
  proof (cases "n < 10")
    case True
    then show ?thesis by (simp add: digits_of.simps[of n] digits_value_def)
  next
    case False
    have "n mod 10 < 10" by simp
    with False "1.IH" show ?thesis
      by (simp add: digits_of.simps[of n] digits_value_def)
  qed
qed

lemma digits_of_inj: "digits_of m = digits_of n \<longleftrightarrow> m = n"
  by (metis digits_value_digits_of)

lemma digits_of_nonempty [simp]: "digits_of n \<noteq> []"
  by (subst digits_of.simps) simp

lemma not_digit_notin: "\<not> is_digit_char c \<Longrightarrow> c \<notin> set (digits_of n)"
  using digits_of_digits by blast

lemma str_of_int_inj: "str_of_int i = str_of_int j \<longleftrightarrow> i = j"
proof
  assume eq: "str_of_int i = str_of_int j"
  have minus: "CHR ''-'' \<notin> set (digits_of n)" for n
    by (rule not_digit_notin) (simp add: is_digit_char_def)
  show "i = j"
  proof (cases "i < 0"; cases "j < 0")
    assume "i < 0" "\<not> j < 0"
    with eq have "CHR ''-'' \<in> set (digits_of (nat j))"
      by (metis list.set_intros(1) str_of_int_def)
    with minus show ?thesis by blast
  next
    assume "\<not> i < 0" "j < 0"
    with eq have "CHR ''-'' \<in> set (digits_of (nat i))"
      by (metis list.set_intros(1) str_of_int_def)
    with minus show ?thesis by blast
  qed (use eq in \<open>auto simp: str_of_int_def digits_of_inj\<close>)
qed simp

lemma str_of_int_chars: "c \<in> set (str_of_int i) \<Longrightarrow> is_digit_char c \<or> c = CHR ''-''"
  by (auto simp: str_of_int_def dest: digits_of_digits split: if_splits)

section \<open>Stable sorts and lists\<close>

text \<open>
  \<open>sort(key=k, reverse=True)\<close> is stable: equal keys keep their order. Sorting by the
  negated key is the same list.
\<close>

definition sort_desc :: "('a \<Rightarrow> real) \<Rightarrow> 'a list \<Rightarrow> 'a list" where
  "sort_desc k xs = sort_key (\<lambda>x. - k x) xs"

lemma mset_sort_desc [simp]: "mset (sort_desc k xs) = mset xs"
  by (simp add: sort_desc_def)

lemma set_sort_desc [simp]: "set (sort_desc k xs) = set xs"
  by (simp add: sort_desc_def)

lemma length_sort_desc [simp]: "length (sort_desc k xs) = length xs"
  by (simp add: sort_desc_def)

lemma distinct_map_sort_desc: "distinct (map f (sort_desc k xs)) = distinct (map f xs)"
proof -
  have "mset (map f (sort_desc k xs)) = mset (map f xs)" by simp
  then show ?thesis by (metis mset_eq_imp_distinct_iff)
qed

lemma sort_desc_sorted: "sorted (map (\<lambda>x. - k x) (sort_desc k xs))"
  by (simp add: sort_desc_def)

lemma sum_list_sort_desc [simp]:
  "sum_list (map f (sort_desc k xs)) = sum_list (map (f :: 'a \<Rightarrow> real) xs)"
  by (metis mset_map mset_sort_desc sum_mset_sum_list)

text \<open>A query \<open>filter(...).first()\<close>.\<close>

definition first_where :: "('a \<Rightarrow> bool) \<Rightarrow> 'a list \<Rightarrow> 'a option" where
  "first_where P xs = List.find P xs"

lemma first_where_Some: "first_where P xs = Some x \<Longrightarrow> x \<in> set xs \<and> P x"
  unfolding first_where_def by (auto simp: find_Some_iff)

lemma first_where_None: "first_where P xs = None \<longleftrightarrow> (\<forall>x \<in> set xs. \<not> P x)"
  unfolding first_where_def by (auto simp: find_None_iff)

lemma first_where_simps [simp]:
  "first_where P [] = None" "first_where P (x # xs) = (if P x then Some x else first_where P xs)"
  by (simp_all add: first_where_def)

lemma sum_list_nonneg_map: "(\<And>x. x \<in> set xs \<Longrightarrow> 0 \<le> f x) \<Longrightarrow> 0 \<le> sum_list (map f (xs :: 'a list) :: real list)"
  by (induction xs) auto

lemma sum_list_filter_le:
  "(\<And>x. x \<in> set xs \<Longrightarrow> 0 \<le> f x) \<Longrightarrow>
   sum_list (map f (filter P xs)) \<le> (sum_list (map f xs) :: real)"
proof (induction xs)
  case (Cons a xs)
  then have "0 \<le> f a" "sum_list (map f (filter P xs)) \<le> sum_list (map f xs)" by auto
  then show ?case by auto
qed simp

lemma sum_list_partition:
  "sum_list (map f (filter P xs)) + sum_list (map f (filter (\<lambda>x. \<not> P x) xs)) = (sum_list (map f xs) :: real)"
  by (induction xs) auto

text \<open>Loops as folds: an invariant of the body is an invariant of the loop.\<close>

lemma foldl_invariant:
  assumes "P s" and "\<And>s x. x \<in> set xs \<Longrightarrow> P s \<Longrightarrow> P (f s x)"
  shows "P (foldl f s xs)"
  using assms by (induction xs arbitrary: s) auto

lemma foldl_count:
  assumes "\<And>s x. g (f s x) = Suc (g s)"
  shows "g (foldl f s xs) = g s + length xs"
  using assms by (induction xs arbitrary: s) auto

lemma foldl_frame:
  assumes "\<And>s x. g (f s x) = g s"
  shows "g (foldl f s xs) = g s"
  using assms by (induction xs arbitrary: s) auto

lemma notin_image_neq: "k \<notin> f ` S \<Longrightarrow> x \<in> S \<Longrightarrow> f x \<noteq> k"
  by auto

text \<open>Updating the one row with a given key leaves the other rows of a keyed list alone.\<close>

lemma map_update_other:
  "k \<notin> f ` set xs \<Longrightarrow> map (\<lambda>r. if f r = k then g r else r) xs = xs"
  by (rule map_idI) auto

lemma map_update_hit:
  "x \<in> set (map (\<lambda>r. if k r = i then f r else r) xs) \<Longrightarrow> k x = i \<Longrightarrow> (\<And>y. k (f y) = k y) \<Longrightarrow>
   \<exists>y \<in> set xs. k y = i \<and> x = f y"
  by auto

section \<open>Numbers in texts\<close>

text \<open>Digits filled up with zeros, and the text \<open>f"{x:.nf}"\<close> of a number.\<close>

definition pad_digits :: "nat \<Rightarrow> string \<Rightarrow> string" where
  "pad_digits n s = replicate (n - length s) (CHR ''0'') @ s"

lemma pad_digits_value: "digits_value (pad_digits n (digits_of m)) = m"
proof -
  have "digits_value (replicate k (CHR ''0'') @ s) = digits_value s" for k s
    by (induction k) (simp_all add: digits_value_def)
  then show ?thesis by (simp add: pad_digits_def)
qed

definition fixed_text :: "nat \<Rightarrow> real \<Rightarrow> string" where
  "fixed_text n x =
     (let u = nat \<bar>round_half_even (x * 10 ^ n)\<bar> in
      (if x < 0 then ''-'' else []) @ digits_of (u div 10 ^ n)
        @ (if n = 0 then [] else ''.'' @ pad_digits n (digits_of (u mod 10 ^ n))))"

lemma fixed_text_chars: "c \<in> set (fixed_text n x) \<Longrightarrow> is_digit_char c \<or> c = CHR ''-'' \<or> c = CHR ''.''"
  using digits_of_digits by (auto simp: fixed_text_def pad_digits_def is_digit_char_def Let_def split: if_splits)

section \<open>Texts cut at a separator\<close>

lemma split_at_first:
  assumes "xs @ c # ys = xs' @ c # ys'" "c \<notin> set xs" "c \<notin> set xs'" shows "xs = xs' \<and> ys = ys'"
  using assms by (induction xs arbitrary: xs') (auto simp: Cons_eq_append_conv append_eq_Cons_conv)

lemma split_at_last:
  assumes "xs @ c # ys = xs' @ c # ys'" "c \<notin> set ys" "c \<notin> set ys'" shows "xs = xs' \<and> ys = ys'"
  using assms by (induction xs arbitrary: xs') (auto simp: Cons_eq_append_conv append_eq_Cons_conv)

lemma bar_not_in_number: "CHR ''|'' \<notin> set (str_of_int i)"
  by (auto dest!: str_of_int_chars simp: is_digit_char_def)

end
