(* ===== verification/RowTypes.thy ===== *)
theory RowTypes
  imports Prelude
begin

text \<open>
  The dictionaries that travel between the stages of the spot-basis engine, one record per
  kind of row. A field is an option where a producer may leave the key out or put \<open>None\<close>
  there; the readers then see the default they pass to \<open>dict.get\<close>. Nested
  \<open>strict_components\<close> entries are flattened (\<open>None\<close> when the dictionary or its key is
  missing).
\<close>

text \<open>A row of the opportunity scan (\<open>_collect_symbol_rows\<close>).\<close>

record scan_row =
  sr_row_id :: "string option"
  sr_symbol :: "string option"
  sr_perp_ex :: "int option"
  sr_spot_ex :: "int option"
  sr_perp_name :: "string option"
  sr_spot_name :: "string option"
  sr_basis_abs_usd :: fopt
  sr_basis_pct :: fopt
  sr_fee_round_trip_pct :: fopt
  sr_e24 :: fopt
  sr_confidence :: fopt
  sr_capacity :: fopt
  sr_score :: fopt
  sr_hold_days :: fopt
  sr_leg_risk :: fopt
  sr_impact_pct :: fopt
  sr_target_notional :: fopt

text \<open>A held pair (\<open>_active_spot_hedge_holds\<close>).\<close>

record hold =
  hd_strategy_id :: "int option"
  hd_symbol :: "string option"
  hd_perp_ex :: "int option"
  hd_spot_ex :: "int option"
  hd_pair_notional :: fopt
  hd_row_id :: "string option"

text \<open>A row of the current portfolio (\<open>_build_current_state\<close>); every key is always present.\<close>

record current_row =
  cr_strategy_id :: int
  cr_row_id :: string
  cr_symbol :: string
  cr_perp_ex :: int
  cr_spot_ex :: int
  cr_perp_name :: "string option"
  cr_spot_name :: "string option"
  cr_notional :: usd
  cr_e24 :: real
  cr_confidence :: real
  cr_score :: real
  cr_expected_pnl_day :: usd
  cr_fee_pct :: real
  cr_hold_days :: real
  cr_leg_risk :: real
  cr_matched :: bool

record current_state =
  cs_rows :: "current_row list"
  cs_pairs :: nat
  cs_notional :: usd
  cs_expected_pnl_day :: usd
  cs_unmatched :: nat

text \<open>A row of the target portfolio (\<open>_build_target_state\<close>).\<close>

record target_row =
  tr_row_id :: string
  tr_symbol :: string
  tr_perp_ex :: int
  tr_spot_ex :: int
  tr_perp_name :: "string option"
  tr_spot_name :: "string option"
  tr_notional :: usd
  tr_e24 :: real
  tr_confidence :: real
  tr_capacity :: real
  tr_score :: real
  tr_expected_pnl_day :: usd
  tr_fee_pct :: real
  tr_hold_days :: real
  tr_leg_risk :: real

text \<open>
  An item of an open plan, a close plan, a repair plan, a failure list or a retry payload.
  These dictionaries share their keys and are passed from one list to the other, so one
  record models them all.
\<close>

record plan_item =
  pi_strategy_id :: "int option"
  pi_row_id :: "string option"
  pi_symbol :: "string option"
  pi_long_ex :: "int option"
  pi_short_ex :: "int option"
  pi_long_name :: "string option"
  pi_short_name :: "string option"
  pi_size_usd :: fopt
  pi_score :: fopt
  pi_e24 :: fopt
  pi_open_fee :: fopt
  pi_close_fee :: fopt
  pi_open_or_close_fee :: fopt
  pi_hedge_ratio :: fopt
  pi_hold_days :: fopt
  pi_leg_risk :: fopt
  pi_action :: "string option"
  pi_reduce_base :: fopt
  pi_reduce_notional :: fopt
  pi_reason_codes :: "string list"
  pi_reason :: "string option"
  pi_error :: "string option"

definition empty_item :: plan_item where
  "empty_item =
     \<lparr>pi_strategy_id = None, pi_row_id = None, pi_symbol = None, pi_long_ex = None,
      pi_short_ex = None, pi_long_name = None, pi_short_name = None, pi_size_usd = None,
      pi_score = None, pi_e24 = None, pi_open_fee = None, pi_close_fee = None,
      pi_open_or_close_fee = None, pi_hedge_ratio = None, pi_hold_days = None,
      pi_leg_risk = None, pi_action = None, pi_reduce_base = None, pi_reduce_notional = None,
      pi_reason_codes = [], pi_reason = None, pi_error = None\<rparr>"

lemma empty_item_sels [simp]:
  "pi_strategy_id empty_item = None" "pi_row_id empty_item = None" "pi_symbol empty_item = None"
  "pi_long_ex empty_item = None" "pi_short_ex empty_item = None" "pi_long_name empty_item = None"
  "pi_short_name empty_item = None" "pi_size_usd empty_item = None" "pi_score empty_item = None"
  "pi_e24 empty_item = None" "pi_open_fee empty_item = None" "pi_close_fee empty_item = None"
  "pi_open_or_close_fee empty_item = None" "pi_hedge_ratio empty_item = None"
  "pi_hold_days empty_item = None" "pi_leg_risk empty_item = None" "pi_action empty_item = None"
  "pi_reduce_base empty_item = None" "pi_reduce_notional empty_item = None"
  "pi_reason_codes empty_item = []" "pi_reason empty_item = None" "pi_error empty_item = None"
  by (simp_all add: empty_item_def)

text \<open>\<open>int(x.get("strategy_id") or 0)\<close> and the clamped size \<open>max(0.0, _to_float(size_usd))\<close>.\<close>

abbreviation item_sid :: "plan_item \<Rightarrow> int" where
  "item_sid p \<equiv> int_or_zero (pi_strategy_id p)"

abbreviation item_size :: "plan_item \<Rightarrow> real" where
  "item_size p \<equiv> pos_part (to_float (pi_size_usd p) 0)"

text \<open>The navigation data that comes with a scan.\<close>

record nav_meta =
  nm_used_usd :: fopt
  nm_total_usd :: fopt
  nm_is_stale :: bool

text \<open>
  The configuration row \<open>SpotBasisAutoConfig\<close>. Every numeric column is nullable.
\<close>

record auto_cfg =
  cfg_is_enabled :: bool
  cfg_dry_run :: bool
  cfg_refresh_interval_secs :: "int option"
  cfg_enter_score_threshold :: fopt
  cfg_switch_min_advantage :: fopt
  cfg_switch_confirm_rounds :: "int option"
  cfg_entry_conf_min :: fopt
  cfg_hold_conf_min :: fopt
  cfg_max_total_utilization_pct :: fopt
  cfg_target_utilization_pct :: fopt
  cfg_max_open_pairs :: "int option"
  cfg_min_pair_notional_usd :: fopt
  cfg_max_pair_notional_usd :: fopt
  cfg_reserve_floor_pct :: fopt
  cfg_fee_buffer_pct :: fopt
  cfg_slippage_buffer_pct :: fopt
  cfg_margin_buffer_pct :: fopt
  cfg_min_capacity_pct :: fopt
  cfg_max_impact_pct :: fopt
  cfg_rebalance_min_relative_adv_pct :: fopt
  cfg_rebalance_min_absolute_adv_usd_day :: fopt
  cfg_execution_retry_max_rounds :: "int option"
  cfg_execution_retry_backoff_secs :: "int option"
  cfg_delta_epsilon_abs_usd :: fopt
  cfg_delta_epsilon_nav_pct :: fopt
  cfg_repair_timeout_secs :: "int option"
  cfg_repair_retry_rounds :: "int option"
  cfg_circuit_breaker_on_repair_fail :: bool
  cfg_data_stale_threshold_seconds :: "int option"
  cfg_api_fail_circuit_count :: "int option"
  cfg_basis_shock_exit_z :: fopt
  cfg_portfolio_dd_soft_pct :: fopt
  cfg_portfolio_dd_hard_pct :: fopt
  cfg_drawdown_peak_nav_usdt :: fopt
  cfg_drawdown_peak_reset_at :: fopt

text \<open>The column defaults of \<open>SpotBasisAutoConfig\<close>, a fresh configuration.\<close>

definition default_cfg :: auto_cfg where
  "default_cfg =
     \<lparr>cfg_is_enabled = False, cfg_dry_run = True, cfg_refresh_interval_secs = Some 10,
      cfg_enter_score_threshold = Some 15, cfg_switch_min_advantage = Some 5,
      cfg_switch_confirm_rounds = Some 3, cfg_entry_conf_min = Some (55 / 100),
      cfg_hold_conf_min = Some (45 / 100), cfg_max_total_utilization_pct = Some 75,
      cfg_target_utilization_pct = Some 60, cfg_max_open_pairs = Some 5,
      cfg_min_pair_notional_usd = Some 300, cfg_max_pair_notional_usd = Some 3000,
      cfg_reserve_floor_pct = Some 2, cfg_fee_buffer_pct = Some (1 / 2),
      cfg_slippage_buffer_pct = Some (1 / 2), cfg_margin_buffer_pct = Some 1,
      cfg_min_capacity_pct = Some 12, cfg_max_impact_pct = Some (3 / 10),
      cfg_rebalance_min_relative_adv_pct = Some 5,
      cfg_rebalance_min_absolute_adv_usd_day = Some (1 / 2),
      cfg_execution_retry_max_rounds = Some 2, cfg_execution_retry_backoff_secs = Some 8,
      cfg_delta_epsilon_abs_usd = Some 5, cfg_delta_epsilon_nav_pct = Some (1 / 100),
      cfg_repair_timeout_secs = Some 20, cfg_repair_retry_rounds = Some 2,
      cfg_circuit_breaker_on_repair_fail = True,
      cfg_data_stale_threshold_seconds = Some 20, cfg_api_fail_circuit_count = Some 5,
      cfg_basis_shock_exit_z = Some 4, cfg_portfolio_dd_soft_pct = Some (- 2),
      cfg_portfolio_dd_hard_pct = Some (- 4), cfg_drawdown_peak_nav_usdt = Some 0,
      cfg_drawdown_peak_reset_at = None\<rparr>"

text \<open>\<open>_cfg_int\<close> and \<open>_cfg_float\<close>: a column value, or the default when it is NULL.\<close>

definition cfg_int :: "int option \<Rightarrow> int \<Rightarrow> int" where
  "cfg_int raw d = (case raw of None \<Rightarrow> d | Some i \<Rightarrow> i)"

definition cfg_float :: "fopt \<Rightarrow> real \<Rightarrow> real" where
  "cfg_float raw d = (case raw of None \<Rightarrow> d | Some x \<Rightarrow> x)"

lemma cfg_int_simps [simp]: "cfg_int None d = d" "cfg_int (Some i) d = i"
  by (simp_all add: cfg_int_def)

lemma cfg_float_simps [simp]: "cfg_float None d = d" "cfg_float (Some x) d = x"
  by (simp_all add: cfg_float_def)

section \<open>Symbols and row identity\<close>

text \<open>\<open>_normalize_symbol_key\<close>: \<open>btc/usdt\<close> becomes \<open>BTC/USDT:USDT\<close>.\<close>

definition normalize_symbol_key :: "string option \<Rightarrow> string" where
  "normalize_symbol_key v =
     (let symbol = py_replace_char (CHR '' '') (py_upper (py_strip (str_or_empty v))) in
      if symbol = [] then []
      else if CHR '':'' \<notin> set symbol \<and> CHR ''/'' \<in> set symbol then
        (let base = split_head (CHR ''/'') symbol;
             quote = split_head (CHR '':'') (split_tail (CHR ''/'') symbol)
         in if base \<noteq> [] \<and> quote \<noteq> [] then base @ ''/'' @ quote @ '':'' @ quote else symbol)
      else symbol)"

definition build_row_id :: "string option \<Rightarrow> int option \<Rightarrow> int option \<Rightarrow> string" where
  "build_row_id symbol perp_ex spot_ex =
     normalize_symbol_key symbol @ ''|'' @ str_of_int (int_or_zero perp_ex) @ ''|''
       @ str_of_int (int_or_zero spot_ex)"

text \<open>
  \<open>{str(r.get("row_id") or ""): r for r in rows}\<close>: a later row with the same id replaces an
  earlier one.
\<close>

definition rows_by_id :: "scan_row list \<Rightarrow> string \<Rightarrow> scan_row option" where
  "rows_by_id rows k = first_where (\<lambda>r. str_or_empty (sr_row_id r) = k) (rev rows)"

text \<open>\<open>_match_current_switch_row\<close>: by row id, else by exchanges and normalised symbol.\<close>

definition match_current_switch_row :: "hold \<Rightarrow> scan_row list \<Rightarrow> (string \<Rightarrow> scan_row option) \<Rightarrow> scan_row option" where
  "match_current_switch_row h rows by_id =
     (case by_id (str_or_empty (hd_row_id h)) of
        Some r \<Rightarrow> Some r
      | None \<Rightarrow>
          first_where
            (\<lambda>r. int_or_zero (sr_perp_ex r) = int_or_zero (hd_perp_ex h)
               \<and> int_or_zero (sr_spot_ex r) = int_or_zero (hd_spot_ex h)
               \<and> normalize_symbol_key (sr_symbol r) = normalize_symbol_key (hd_symbol h))
            rows)"

text \<open>\<open>_spot_symbol_from_perp_symbol\<close>: drop the settlement suffix.\<close>

definition spot_symbol_from_perp_symbol :: "string option \<Rightarrow> string" where
  "spot_symbol_from_perp_symbol s = split_head (CHR '':'') (py_upper (py_strip (str_or_empty s)))"

lemma match_current_switch_row_in:
  "match_current_switch_row h rows (rows_by_id rows) = Some r \<Longrightarrow> r \<in> set rows"
  by (auto simp: match_current_switch_row_def rows_by_id_def dest!: first_where_Some split: option.splits)

lemma rows_by_id_Some: "rows_by_id rows k = Some r \<Longrightarrow> r \<in> set rows \<and> str_or_empty (sr_row_id r) = k"
  by (auto simp: rows_by_id_def dest!: first_where_Some)

section \<open>Fee, horizon and leg-risk readings of a row\<close>

definition safe_half_fee_pct :: "fopt \<Rightarrow> real \<Rightarrow> real" where
  "safe_half_fee_pct fee_round_trip fallback_pct =
     (let f = pos_part (to_float fee_round_trip 0) in
      if f > 0 then f / 2 else pos_part fallback_pct)"

definition safe_hold_days :: "fopt \<Rightarrow> real \<Rightarrow> real" where
  "safe_hold_days hold_days fallback_days =
     (let h = to_float hold_days fallback_days;
          h' = if h \<le> 0 then fallback_days else h
      in max 1 (min 14 h'))"

definition safe_leg_risk_pct_day :: "fopt \<Rightarrow> real" where
  "safe_leg_risk_pct_day leg_risk = pos_part (to_float leg_risk 0)"

lemma safe_half_fee_pct_nonneg [money_simps]: "0 \<le> safe_half_fee_pct f d"
  by (simp add: safe_half_fee_pct_def Let_def)

lemma safe_hold_days_bounds [money_simps]: "1 \<le> safe_hold_days h d" "safe_hold_days h d \<le> 14"
  by (auto simp: safe_hold_days_def Let_def)

lemma safe_leg_risk_nonneg [money_simps]: "0 \<le> safe_leg_risk_pct_day l"
  by (simp add: safe_leg_risk_pct_day_def)

end
