(* ===== verification/PortfolioPreview.thy ===== *)
theory PortfolioPreview
  imports RowTypes "HOL-Library.Product_Lexorder" "HOL-Library.List_Lexorder" "HOL-Library.Char_ord"
begin

text \<open>
  The open-portfolio optimiser, \<open>_build_open_portfolio_preview\<close> of
  \<open>backend/core/spot_basis_runtime/decision_preview.py\<close>: it turns the configuration and the
  net asset value into a budget, filters the scanned rows, and gives notional to the
  candidates in score order until the budget, the pair count or the accounts are exhausted.
  The account snapshot (\<open>_load_exchange_capital_snapshot\<close>, a cached read of the exchanges)
  is an argument, the empty list where the code has no database.
\<close>

section \<open>Parameters and budget\<close>

record preview_params =
  pp_entry_score_min :: real
  pp_entry_conf_min :: real
  pp_max_open_pairs :: int
  pp_max_total_utilization :: real
  pp_reserve_dynamic :: real
  pp_hard_utilization :: real
  pp_target_utilization :: real
  pp_min_pair :: real
  pp_max_pair :: real
  pp_min_capacity :: real
  pp_max_impact :: real

definition perp_leverage :: real where
  "perp_leverage = max 1 2"

definition perp_margin_coeff :: real where
  "perp_margin_coeff = 1 / perp_leverage"

definition preview_params_of :: "auto_cfg \<Rightarrow> preview_params" where
  "preview_params_of cfg =
     (let max_total = clampr (to_float (cfg_max_total_utilization_pct cfg) 100) 1 100;
          target = clampr (to_float (cfg_target_utilization_pct cfg) max_total) 1 100;
          reserve_floor = clampr (to_float (cfg_reserve_floor_pct cfg) 2) 0 30;
          fee_buffer = clampr (to_float (cfg_fee_buffer_pct cfg) (1 / 2)) 0 30;
          slippage_buffer = clampr (to_float (cfg_slippage_buffer_pct cfg) (1 / 2)) 0 30;
          margin_buffer = clampr (to_float (cfg_margin_buffer_pct cfg) 1) 0 30;
          reserve_dynamic = max reserve_floor (fee_buffer + slippage_buffer + margin_buffer);
          hard = clampr (min max_total (100 - reserve_dynamic)) 0 100;
          min_pair = max 1 (to_float (cfg_min_pair_notional_usd cfg) 300)
      in \<lparr>pp_entry_score_min = to_float (cfg_enter_score_threshold cfg) 0,
          pp_entry_conf_min = to_float (cfg_entry_conf_min cfg) 0,
          pp_max_open_pairs = max 1 (int_or 5 (cfg_max_open_pairs cfg)),
          pp_max_total_utilization = max_total,
          pp_reserve_dynamic = reserve_dynamic,
          pp_hard_utilization = hard,
          pp_target_utilization = clampr (min target hard) 0 100,
          pp_min_pair = min_pair,
          pp_max_pair = max min_pair (to_float (cfg_max_pair_notional_usd cfg) 3000),
          pp_min_capacity = clampr (to_float (cfg_min_capacity_pct cfg) 12 / 100) 0 1,
          pp_max_impact = max (1 / 100) (to_float (cfg_max_impact_pct cfg) (30 / 100))\<rparr>)"

definition nav_used :: "nav_meta \<Rightarrow> real" where
  "nav_used nav = pos_part (to_float (nm_used_usd nav) 0)"

definition target_budget :: "preview_params \<Rightarrow> nav_meta \<Rightarrow> real" where
  "target_budget p nav = nav_used nav * pp_target_utilization p / 100"

section \<open>Account capacity\<close>

text \<open>A row of the account snapshot, and what the preview keeps of it per exchange.\<close>

record capital_row =
  cp_exchange_id :: "int option"
  cp_unified :: bool
  cp_total :: fopt
  cp_spot_available :: fopt
  cp_spot :: fopt
  cp_futures_available :: fopt
  cp_futures :: fopt

datatype account_cap = Unified real | Split real real

definition account_cap_of :: "real \<Rightarrow> capital_row \<Rightarrow> account_cap" where
  "account_cap_of reserve_ratio row =
     (let total = pos_part (to_float (cp_total row) 0);
          spot_base = pos_part (to_float (cp_spot_available row) (to_float (cp_spot row) 0));
          perp_base = pos_part (to_float (cp_futures_available row) (to_float (cp_futures row) 0))
      in if cp_unified row
         then Unified (min total (if perp_base > 0 then perp_base else total) * reserve_ratio)
         else Split (spot_base * reserve_ratio) (perp_base * reserve_ratio))"

text \<open>The dictionary \<open>account_caps\<close>, newest entry first.\<close>

definition account_caps :: "preview_params \<Rightarrow> capital_row list \<Rightarrow> (int \<times> account_cap) list" where
  "account_caps p rows =
     rev (map (\<lambda>row. (int_or_zero (cp_exchange_id row),
                      account_cap_of (clampr (1 - pp_reserve_dynamic p / 100) 0 1) row))
            (filter (\<lambda>row. int_or_zero (cp_exchange_id row) > 0) rows))"

record usage =
  us_unified :: "int \<Rightarrow> real"
  us_spot :: "int \<Rightarrow> real"
  us_perp :: "int \<Rightarrow> real"

definition no_usage :: usage where
  "no_usage = \<lparr>us_unified = (\<lambda>_. 0), us_spot = (\<lambda>_. 0), us_perp = (\<lambda>_. 0)\<rparr>"

definition is_unified :: "(int \<times> account_cap) list \<Rightarrow> int \<Rightarrow> bool" where
  "is_unified caps ex = (case map_of caps ex of Some (Unified _) \<Rightarrow> True | _ \<Rightarrow> False)"

definition use_spot :: "(int \<times> account_cap) list \<Rightarrow> int \<Rightarrow> real \<Rightarrow> usage \<Rightarrow> usage" where
  "use_spot caps ex n u =
     (if ex \<le> 0 then u
      else if is_unified caps ex then u\<lparr>us_unified := (us_unified u)(ex := us_unified u ex + n)\<rparr>
      else u\<lparr>us_spot := (us_spot u)(ex := us_spot u ex + n)\<rparr>)"

definition use_perp :: "(int \<times> account_cap) list \<Rightarrow> int \<Rightarrow> real \<Rightarrow> usage \<Rightarrow> usage" where
  "use_perp caps ex need u =
     (if ex \<le> 0 then u
      else if is_unified caps ex then u\<lparr>us_unified := (us_unified u)(ex := us_unified u ex + need)\<rparr>
      else u\<lparr>us_perp := (us_perp u)(ex := us_perp u ex + need)\<rparr>)"

definition apply_usage :: "(int \<times> account_cap) list \<Rightarrow> int \<Rightarrow> int \<Rightarrow> real \<Rightarrow> usage \<Rightarrow> usage" where
  "apply_usage caps spot_ex perp_ex notional u =
     (let n = pos_part notional in
      if n \<le> 0 then u
      else use_perp caps perp_ex (n * perp_margin_coeff) (use_spot caps spot_ex n u))"

definition leg_headroom :: "(int \<times> account_cap) list \<Rightarrow> usage \<Rightarrow> int \<Rightarrow> bool \<Rightarrow> real" where
  "leg_headroom caps u ex is_spot =
     (if ex \<le> 0 then 0
      else case map_of caps ex of
        None \<Rightarrow> 0
      | Some (Unified cap) \<Rightarrow>
          (let coeff = (if is_spot then 1 else perp_margin_coeff)
           in if coeff > 0 then pos_part (cap - us_unified u ex) / coeff else 0)
      | Some (Split spot perp) \<Rightarrow>
          if is_spot then pos_part (spot - us_spot u ex)
          else if perp_margin_coeff > 0 then pos_part (perp - us_perp u ex) / perp_margin_coeff else 0)"

text \<open>\<open>None\<close> is the infinite headroom of a run without account snapshot.\<close>

definition pair_headroom :: "(int \<times> account_cap) list \<Rightarrow> usage \<Rightarrow> int \<Rightarrow> int \<Rightarrow> real option" where
  "pair_headroom caps u spot_ex perp_ex =
     (if caps = [] then None
      else Some (min (leg_headroom caps u spot_ex True) (leg_headroom caps u perp_ex False)))"

section \<open>Candidate filter\<close>

record brief =
  bf_row_id :: string
  bf_symbol :: string
  bf_perp_ex :: int
  bf_spot_ex :: int
  bf_perp_name :: "string option"
  bf_spot_name :: "string option"
  bf_score :: real
  bf_e24 :: real
  bf_confidence :: real
  bf_capacity :: real
  bf_impact :: real
  bf_basis_abs :: real
  bf_basis_pct :: real
  bf_hint :: real

definition brief_of :: "preview_params \<Rightarrow> scan_row \<Rightarrow> brief" where
  "brief_of p r =
     \<lparr>bf_row_id = str_or_empty (sr_row_id r),
      bf_symbol = normalize_symbol_key (sr_symbol r),
      bf_perp_ex = int_or_zero (sr_perp_ex r),
      bf_spot_ex = int_or_zero (sr_spot_ex r),
      bf_perp_name = sr_perp_name r,
      bf_spot_name = sr_spot_name r,
      bf_score = py_round (to_float (sr_score r) (- 1000000000)) 6,
      bf_e24 = py_round (to_float (sr_e24 r) 0) 6,
      bf_confidence = py_round (to_float (sr_confidence r) 0) 6,
      bf_capacity = py_round (to_float (sr_capacity r) 0) 6,
      bf_impact = py_round (to_float (sr_impact_pct r) 0) 6,
      bf_basis_abs = py_round (to_float (sr_basis_abs_usd r) 0) 8,
      bf_basis_pct = py_round (to_float (sr_basis_pct r) 0) 6,
      bf_hint = py_round (clampr (to_float (sr_target_notional r) (pp_min_pair p)) (pp_min_pair p) (pp_max_pair p)) 2\<rparr>"

definition reject_reasons :: "preview_params \<Rightarrow> nav_meta \<Rightarrow> (int \<times> account_cap) list \<Rightarrow> string list \<Rightarrow> scan_row \<Rightarrow> string list" where
  "reject_reasons p nav caps current_ids r =
     (if str_or_empty (sr_row_id r) \<in> set current_ids then [''already_in_current_portfolio''] else []) @
     (if nm_is_stale nav \<or> nav_used nav \<le> 0 then [''nav_or_data_stale_no_new_entries''] else []) @
     (if to_float (sr_score r) (- 1000000000) < pp_entry_score_min p then [''score_below_entry_threshold''] else []) @
     (if to_float (sr_confidence r) 0 < pp_entry_conf_min p then [''confidence_below_entry_threshold''] else []) @
     (if to_float (sr_e24 r) 0 \<le> 0 then [''e24_net_non_positive''] else []) @
     (if to_float (sr_basis_abs_usd r) 0 \<le> 0 \<or> to_float (sr_basis_pct r) 0 \<le> 0 then [''basis_non_positive''] else []) @
     (if to_float (sr_capacity r) 0 < pp_min_capacity p then [''capacity_below_minimum''] else []) @
     (if to_float (sr_impact_pct r) 0 > pp_max_impact p then [''impact_above_limit''] else []) @
     (if caps \<noteq> [] \<and> (map_of caps (int_or_zero (sr_spot_ex r)) = None
                       \<or> map_of caps (int_or_zero (sr_perp_ex r)) = None)
      then [''missing_exchange_account_snapshot''] else [])"

section \<open>Selection\<close>

record selected_row =
  sl_row_id :: string
  sl_symbol :: string
  sl_perp_ex :: int
  sl_spot_ex :: int
  sl_perp_name :: "string option"
  sl_spot_name :: "string option"
  sl_notional :: usd
  sl_gross_notional :: usd
  sl_score :: real
  sl_e24 :: real
  sl_confidence :: real
  sl_capacity :: real
  sl_impact :: real
  sl_expected_pnl_day :: usd

record select_state =
  ss_selected :: "selected_row list"
  ss_rejected :: "(brief \<times> string list) list"
  ss_alloc :: usd
  ss_exp_pnl :: usd
  ss_usage :: usage

definition selected_row_of :: "brief \<Rightarrow> real \<Rightarrow> selected_row" where
  "selected_row_of r alloc =
     \<lparr>sl_row_id = bf_row_id r, sl_symbol = normalize_symbol_key (Some (bf_symbol r)),
      sl_perp_ex = bf_perp_ex r, sl_spot_ex = bf_spot_ex r,
      sl_perp_name = bf_perp_name r, sl_spot_name = bf_spot_name r,
      sl_notional = py_round alloc 2, sl_gross_notional = py_round (alloc * 2) 2,
      sl_score = py_round (bf_score r) 6, sl_e24 = py_round (bf_e24 r) 6,
      sl_confidence = py_round (bf_confidence r) 6, sl_capacity = py_round (bf_capacity r) 6,
      sl_impact = py_round (bf_impact r) 6,
      sl_expected_pnl_day = py_round (alloc * bf_e24 r / 100) 4\<rparr>"

definition min_opt :: "real \<Rightarrow> real option \<Rightarrow> real" where
  "min_opt x h = (case h of None \<Rightarrow> x | Some y \<Rightarrow> min x y)"

text \<open>The largest notional the next candidate may get, and what it gets.\<close>

definition dyn_max :: "preview_params \<Rightarrow> (int \<times> account_cap) list \<Rightarrow> real \<Rightarrow> select_state \<Rightarrow> brief \<Rightarrow> real" where
  "dyn_max p caps available st r =
     min_opt (min (pp_max_pair p) (available - ss_alloc st))
       (pair_headroom caps (ss_usage st) (bf_spot_ex r) (bf_perp_ex r))"

definition take_row :: "preview_params \<Rightarrow> (int \<times> account_cap) list \<Rightarrow> real \<Rightarrow> brief \<Rightarrow> select_state \<Rightarrow> select_state" where
  "take_row p caps available r st =
     (let dm = dyn_max p caps available st r in
      if dm < pp_min_pair p then
        st\<lparr>ss_rejected := ss_rejected st @ [(r, [''budget_or_account_headroom_below_min_pair_notional''])]\<rparr>
      else
        let alloc = clampr (bf_hint r) (pp_min_pair p) dm in
        st\<lparr>ss_selected := ss_selected st @ [selected_row_of r alloc],
           ss_alloc := ss_alloc st + alloc,
           ss_exp_pnl := ss_exp_pnl st + alloc * bf_e24 r / 100,
           ss_usage := apply_usage caps (bf_spot_ex r) (bf_perp_ex r) alloc (ss_usage st)\<rparr>)"

fun select_rows :: "preview_params \<Rightarrow> (int \<times> account_cap) list \<Rightarrow> real \<Rightarrow> int \<Rightarrow> brief list \<Rightarrow> select_state \<Rightarrow> select_state" where
  "select_rows p caps available desired [] st = st"
| "select_rows p caps available desired (r # rs) st =
     (if int (length (ss_selected st)) \<ge> desired then st
      else if available - ss_alloc st < pp_min_pair p then st
      else select_rows p caps available desired rs (take_row p caps available r st))"

section \<open>The preview\<close>

record preview =
  pv_params :: preview_params
  pv_current_pairs :: int
  pv_eligible :: int
  pv_feasible_pairs :: int
  pv_desired_pairs :: int
  pv_reason_codes :: "string list"
  pv_target_budget :: usd
  pv_current_notional :: usd
  pv_available :: usd
  pv_selected :: "selected_row list"
  pv_selected_notional :: usd
  pv_gross_notional :: usd
  pv_expected_pnl_day :: usd
  pv_usage_unified :: "int \<Rightarrow> usd"
  pv_usage_spot :: "int \<Rightarrow> usd"
  pv_usage_perp :: "int \<Rightarrow> usd"
  pv_margin_usage :: usd
  pv_rejected :: "(brief \<times> string list) list"
  pv_hit_summary :: "(string \<times> int) list"
  pv_caps :: "(int \<times> account_cap) list"

definition hold_notional :: "hold \<Rightarrow> real" where
  "hold_notional h = pos_part (to_float (hd_pair_notional h) 0)"

text \<open>The loop over the current holds: their notional and the usage they cause.\<close>

definition hold_usage :: "(int \<times> account_cap) list \<Rightarrow> hold list \<Rightarrow> real \<times> usage" where
  "hold_usage caps holds =
     foldl (\<lambda>(acc, u) h.
         let n = hold_notional h in
         if n \<le> 0 then (acc, u)
         else (acc + n, apply_usage caps (int_or_zero (hd_spot_ex h)) (int_or_zero (hd_perp_ex h)) n u))
       (0, no_usage) holds"

definition bump_code :: "(string \<times> int) list \<Rightarrow> string \<Rightarrow> (string \<times> int) list" where
  "bump_code counts code =
     (case map_of counts code of
        None \<Rightarrow> counts @ [(code, 1)]
      | Some _ \<Rightarrow> map (\<lambda>(c, k). if c = code then (c, k + 1) else (c, k)) counts)"

definition hit_summary :: "(brief \<times> string list) list \<Rightarrow> (string \<times> int) list" where
  "hit_summary rejected =
     sort_key (\<lambda>(code, k). (- k, code)) (foldl bump_code [] (concat (map snd rejected)))"

definition eligible_of :: "preview_params \<Rightarrow> nav_meta \<Rightarrow> (int \<times> account_cap) list \<Rightarrow> string list \<Rightarrow> scan_row list \<Rightarrow> brief list" where
  "eligible_of p nav caps current_ids rows =
     map (brief_of p) (filter (\<lambda>r. reject_reasons p nav caps current_ids r = []) rows)"

definition filter_rejected :: "preview_params \<Rightarrow> nav_meta \<Rightarrow> (int \<times> account_cap) list \<Rightarrow> string list \<Rightarrow> scan_row list \<Rightarrow> (brief \<times> string list) list" where
  "filter_rejected p nav caps current_ids rows =
     map (\<lambda>r. (brief_of p r, reject_reasons p nav caps current_ids r))
       (filter (\<lambda>r. reject_reasons p nav caps current_ids r \<noteq> []) rows)"

definition feasible_pairs :: "preview_params \<Rightarrow> real \<Rightarrow> int \<Rightarrow> int \<Rightarrow> int" where
  "feasible_pairs p budget current eligible =
     max current (min (pp_max_open_pairs p) (min (current + eligible) \<lfloor>budget / max 1 (pp_min_pair p)\<rfloor>))"

definition rank_rows :: "brief list \<Rightarrow> brief list" where
  "rank_rows rows = sort_key (\<lambda>r. (- bf_score r, - bf_e24 r)) rows"

definition build_preview :: "scan_row list \<Rightarrow> hold list \<Rightarrow> auto_cfg \<Rightarrow> nav_meta \<Rightarrow> capital_row list \<Rightarrow> preview" where
  "build_preview open_rows holds cfg nav capital =
     (let p = preview_params_of cfg;
          caps = account_caps p capital;
          budget = target_budget p nav;
          current_ids = map (\<lambda>h. str_or_empty (hd_row_id h)) holds;
          (current_notional, usage0) = hold_usage caps holds;
          available = pos_part (budget - current_notional);
          eligible = eligible_of p nav caps current_ids open_rows;
          current = int (length holds);
          feasible = feasible_pairs p budget current (int (length eligible));
          desired = max 0 (feasible - current);
          st = select_rows p caps available desired (rank_rows eligible)
                 \<lparr>ss_selected = [], ss_rejected = filter_rejected p nav caps current_ids open_rows,
                  ss_alloc = 0, ss_exp_pnl = 0, ss_usage = usage0\<rparr>;
          selected_ids = map sl_row_id (ss_selected st);
          rejected = ss_rejected st @
            map (\<lambda>r. (r, [''not_selected_by_portfolio_optimizer'']))
              (filter (\<lambda>r. bf_row_id r \<notin> set selected_ids) eligible)
      in \<lparr>pv_params = p,
          pv_current_pairs = current,
          pv_eligible = int (length eligible),
          pv_feasible_pairs = feasible,
          pv_desired_pairs = desired,
          pv_reason_codes =
            (if feasible < pp_max_open_pairs p then [''auto_downgrade_pairs_by_budget_or_candidates''] else []) @
            (if available < pp_min_pair p then [''available_budget_below_min_pair_notional''] else []) @
            (if int (length (ss_selected st)) < desired then [''selected_below_desired_due_caps_or_budget''] else []),
          pv_target_budget = py_round budget 2,
          pv_current_notional = py_round current_notional 2,
          pv_available = py_round (pos_part (available - ss_alloc st)) 2,
          pv_selected = ss_selected st,
          pv_selected_notional = py_round (ss_alloc st) 2,
          pv_gross_notional = py_round (ss_alloc st * 2) 2,
          pv_expected_pnl_day = py_round (ss_exp_pnl st) 4,
          pv_usage_unified = (\<lambda>ex. py_round (us_unified (ss_usage st) ex) 4),
          pv_usage_spot = (\<lambda>ex. py_round (us_spot (ss_usage st) ex) 4),
          pv_usage_perp = (\<lambda>ex. py_round (us_perp (ss_usage st) ex) 4),
          pv_margin_usage = py_round ((current_notional + ss_alloc st) * perp_margin_coeff) 2,
          pv_rejected = rejected,
          pv_hit_summary = hit_summary rejected,
          pv_caps = caps\<rparr>)"

section \<open>The parameters\<close>

lemma perp_margin_coeff_half [simp]: "perp_margin_coeff = 1 / 2"
  by (simp add: perp_margin_coeff_def perp_leverage_def)

lemma preview_params_bounds [money_simps]:
  "1 \<le> pp_min_pair (preview_params_of cfg)"
  "pp_min_pair (preview_params_of cfg) \<le> pp_max_pair (preview_params_of cfg)"
  "1 \<le> pp_max_open_pairs (preview_params_of cfg)"
  "0 \<le> pp_target_utilization (preview_params_of cfg)"
  by (simp_all add: preview_params_of_def Let_def clampr_bounds)

lemma clampr_min_le: "0 \<le> h \<Longrightarrow> clampr (min t h) 0 b \<le> h"
  by (auto simp: clampr_def)

lemma pp_target_below_reserve:
  "pp_target_utilization (preview_params_of cfg) \<le> 100 - pp_reserve_dynamic (preview_params_of cfg)"
proof -
  let ?p = "preview_params_of cfg"
  have b: "clampr x 0 30 \<le> 30" for x by (simp add: clampr_def)
  have r: "pp_reserve_dynamic ?p \<le> 90"
    using b[of "to_float (cfg_reserve_floor_pct cfg) 2"] b[of "to_float (cfg_fee_buffer_pct cfg) (1 / 2)"]
      b[of "to_float (cfg_slippage_buffer_pct cfg) (1 / 2)"] b[of "to_float (cfg_margin_buffer_pct cfg) 1"]
    by (simp add: preview_params_of_def Let_def)
  have "\<exists>t m. pp_target_utilization ?p = clampr (min t (pp_hard_utilization ?p)) 0 100
      \<and> pp_hard_utilization ?p = clampr (min m (100 - pp_reserve_dynamic ?p)) 0 100"
    by (simp add: preview_params_of_def Let_def) blast
  then obtain t m where t: "pp_target_utilization ?p = clampr (min t (pp_hard_utilization ?p)) 0 100"
    and m: "pp_hard_utilization ?p = clampr (min m (100 - pp_reserve_dynamic ?p)) 0 100" by blast
  have "0 \<le> pp_hard_utilization ?p" unfolding m by (rule clampr_bounds)
  then have "pp_target_utilization ?p \<le> pp_hard_utilization ?p" unfolding t by (rule clampr_min_le)
  also have "\<dots> \<le> 100 - pp_reserve_dynamic ?p" unfolding m using r by (intro clampr_min_le) simp
  finally show ?thesis .
qed

lemma nav_used_nonneg [simp]: "0 \<le> nav_used nav"
  by (simp add: nav_used_def)

lemma target_budget_bound:
  "target_budget (preview_params_of cfg) nav
   \<le> nav_used nav * (1 - pp_reserve_dynamic (preview_params_of cfg) / 100)"
proof -
  have "nav_used nav * pp_target_utilization (preview_params_of cfg)
      \<le> nav_used nav * (100 - pp_reserve_dynamic (preview_params_of cfg))"
    by (intro mult_left_mono pp_target_below_reserve) simp
  then show ?thesis by (simp add: target_budget_def field_simps)
qed

section \<open>The selection loop\<close>

text \<open>What every selection state satisfies.\<close>

definition select_ok :: "preview_params \<Rightarrow> real \<Rightarrow> int \<Rightarrow> select_state \<Rightarrow> bool" where
  "select_ok p available desired st \<longleftrightarrow>
     int (length (ss_selected st)) \<le> max 0 desired
     \<and> 0 \<le> ss_alloc st \<and> ss_alloc st \<le> available
     \<and> \<bar>sum_list (map sl_notional (ss_selected st)) - ss_alloc st\<bar> \<le> length (ss_selected st) / 200
     \<and> list_all (\<lambda>x. py_round (pp_min_pair p) 2 \<le> sl_notional x \<and> sl_notional x \<le> py_round (pp_max_pair p) 2) (ss_selected st)"

lemma dyn_max_le: "dyn_max p caps available st r \<le> pp_max_pair p" "dyn_max p caps available st r \<le> available - ss_alloc st"
  by (auto simp: dyn_max_def min_opt_def split: option.splits)

lemma selected_notional_le:
  "pp_min_pair p \<le> dm \<Longrightarrow> dm \<le> pp_max_pair p \<Longrightarrow>
   py_round (pp_min_pair p) 2 \<le> sl_notional (selected_row_of r (clampr h (pp_min_pair p) dm))
   \<and> sl_notional (selected_row_of r (clampr h (pp_min_pair p) dm)) \<le> py_round (pp_max_pair p) 2"
  by (auto simp: selected_row_of_def clampr_def intro!: py_round_mono)

lemma round_sum_step:
  assumes "\<bar>s - (a :: real)\<bar> \<le> n / 200"
  shows "\<bar>(s + py_round x 2) - (a + x)\<bar> \<le> (1 + n) / 200"
proof -
  have r: "\<bar>py_round x 2 - x\<bar> \<le> 1 / 200" using py_round_error[of x 2] by simp
  have eq: "s + py_round x 2 - (a + x) = (s - a) + (py_round x 2 - x)" by simp
  show ?thesis
    unfolding eq add_divide_distrib
    using assms r abs_triangle_ineq[of "s - a" "py_round x 2 - x"] by linarith
qed

lemma take_row_cases:
  obtains (skip) "dyn_max p caps available st r < pp_min_pair p" "ss_selected (take_row p caps available r st) = ss_selected st"
      "ss_alloc (take_row p caps available r st) = ss_alloc st" "ss_usage (take_row p caps available r st) = ss_usage st"
  | (take) x where "pp_min_pair p \<le> x" "x \<le> dyn_max p caps available st r"
      "x = clampr (bf_hint r) (pp_min_pair p) (dyn_max p caps available st r)"
      "ss_selected (take_row p caps available r st) = ss_selected st @ [selected_row_of r x]"
      "ss_alloc (take_row p caps available r st) = ss_alloc st + x"
      "ss_usage (take_row p caps available r st) = apply_usage caps (bf_spot_ex r) (bf_perp_ex r) x (ss_usage st)"
proof (cases "dyn_max p caps available st r < pp_min_pair p")
  case True
  then show ?thesis by (intro skip) (simp_all add: take_row_def Let_def)
next
  case False
  show ?thesis
    by (rule take[OF _ _ refl]) (use False in \<open>simp_all add: take_row_def Let_def clampr_def\<close>)
qed

lemma take_row_ok:
  assumes "select_ok p available desired st" "int (length (ss_selected st)) < desired" "1 \<le> pp_min_pair p"
  shows "select_ok p available desired (take_row p caps available r st)"
proof (cases rule: take_row_cases[of p caps available st r])
  case skip
  then show ?thesis using assms(1) by (simp add: select_ok_def)
next
  case (take x)
  have "x \<le> available - ss_alloc st" using take(2) dyn_max_le(2)[of p caps available st r] by linarith
  moreover have "py_round (pp_min_pair p) 2 \<le> sl_notional (selected_row_of r x) \<and> sl_notional (selected_row_of r x) \<le> py_round (pp_max_pair p) 2"
    unfolding take(3) using take(1,2) dyn_max_le(1) by (intro selected_notional_le) (auto intro: order_trans)
  moreover have "\<bar>(sum_list (map sl_notional (ss_selected st)) + py_round x 2) - (ss_alloc st + x)\<bar> \<le> (1 + real (length (ss_selected st))) / 200"
    using assms(1) by (intro round_sum_step) (simp add: select_ok_def)
  ultimately show ?thesis
    using assms take by (simp add: select_ok_def selected_row_of_def)
qed

lemma select_rows_ok:
  assumes "select_ok p available desired st" "1 \<le> pp_min_pair p"
  shows "select_ok p available desired (select_rows p caps available desired rs st)"
  using assms by (induction rs arbitrary: st) (simp_all add: take_row_ok)

text \<open>Every selected row comes from a candidate.\<close>

lemma select_rows_from:
  "list_all (\<lambda>x. list_ex (\<lambda>b. sl_row_id x = bf_row_id b) bs) (ss_selected st) \<Longrightarrow> set rs \<subseteq> set bs \<Longrightarrow>
   list_all (\<lambda>x. list_ex (\<lambda>b. sl_row_id x = bf_row_id b) bs) (ss_selected (select_rows p caps available desired rs st))"
proof (induction rs arbitrary: st)
  case (Cons r rs)
  have "list_all (\<lambda>x. list_ex (\<lambda>b. sl_row_id x = bf_row_id b) bs) (ss_selected (take_row p caps available r st))"
    by (cases rule: take_row_cases[of p caps available st r])
      (use Cons.prems in \<open>auto simp: selected_row_of_def list_ex_iff\<close>)
  then show ?case using Cons by simp
qed simp

section \<open>Account usage\<close>

text \<open>No account is used beyond its capacity.\<close>

definition within_caps :: "(int \<times> account_cap) list \<Rightarrow> usage \<Rightarrow> int \<Rightarrow> bool" where
  "within_caps caps u ex =
     (case map_of caps ex of
        None \<Rightarrow> True
      | Some (Unified cap) \<Rightarrow> us_unified u ex \<le> cap
      | Some (Split spot perp) \<Rightarrow> us_spot u ex \<le> spot \<and> us_perp u ex \<le> perp)"

lemma apply_usage_pos:
  "0 < x \<Longrightarrow> apply_usage caps se pe x u = use_perp caps pe (x / 2) (use_spot caps se x u)"
  by (simp add: apply_usage_def Let_def)

lemma use_spot_within:
  assumes "within_caps caps u ex" "0 < x" "x \<le> leg_headroom caps u se True"
  shows "within_caps caps (use_spot caps se x u) ex"
  using assms
  by (cases "map_of caps se")
    (auto simp: within_caps_def use_spot_def is_unified_def leg_headroom_def pos_part_def Let_def
      split: option.splits account_cap.splits if_splits)

lemma use_perp_within:
  assumes "within_caps caps u ex" "0 < x" "x \<le> leg_headroom caps u pe False"
  shows "within_caps caps (use_perp caps pe (x / 2) u) ex"
  using assms
  by (cases "map_of caps pe")
    (auto simp: within_caps_def use_perp_def is_unified_def leg_headroom_def pos_part_def Let_def
      split: option.splits account_cap.splits if_splits)

lemma leg_headroom_after_spot:
  "se \<noteq> pe \<Longrightarrow> leg_headroom caps (use_spot caps se x u) pe False = leg_headroom caps u pe False"
  by (auto simp: leg_headroom_def use_spot_def Let_def split: option.splits account_cap.splits)

lemma take_row_within:
  assumes "within_caps caps (ss_usage st) ex" "bf_spot_ex r \<noteq> bf_perp_ex r" "1 \<le> pp_min_pair p" "caps \<noteq> []"
  shows "within_caps caps (ss_usage (take_row p caps available r st)) ex"
proof (cases rule: take_row_cases[of p caps available st r])
  case skip
  then show ?thesis using assms(1) by simp
next
  case (take x)
  have "dyn_max p caps available st r \<le> leg_headroom caps (ss_usage st) (bf_spot_ex r) True"
    "dyn_max p caps available st r \<le> leg_headroom caps (ss_usage st) (bf_perp_ex r) False"
    using assms(4) by (simp_all add: dyn_max_def pair_headroom_def min_opt_def)
  then have "0 < x" "x \<le> leg_headroom caps (ss_usage st) (bf_spot_ex r) True"
    "x \<le> leg_headroom caps (ss_usage st) (bf_perp_ex r) False"
    using take(1,2) assms(3) by linarith+
  then show ?thesis
    using assms(1,2) take(6)
    by (simp add: apply_usage_pos use_perp_within use_spot_within leg_headroom_after_spot)
qed

lemma select_rows_within:
  assumes "within_caps caps (ss_usage st) ex" "\<And>r. r \<in> set rs \<Longrightarrow> bf_spot_ex r \<noteq> bf_perp_ex r" "1 \<le> pp_min_pair p"
    "caps \<noteq> []"
  shows "within_caps caps (ss_usage (select_rows p caps available desired rs st)) ex"
  using assms by (induction rs arbitrary: st) (simp_all add: take_row_within)

lemma account_caps_nonneg:
  "map_of (account_caps p rows) ex = Some c \<Longrightarrow> (case c of Unified cap \<Rightarrow> 0 \<le> cap | Split s q \<Rightarrow> 0 \<le> s \<and> 0 \<le> q)"
proof -
  assume "map_of (account_caps p rows) ex = Some c"
  then have "(ex, c) \<in> set (account_caps p rows)" by (rule map_of_SomeD)
  then show ?thesis
    by (auto simp: account_caps_def account_cap_of_def Let_def clampr_def split: account_cap.splits if_splits)
qed

lemma no_usage_within: "within_caps (account_caps p rows) no_usage ex"
  using account_caps_nonneg[of p rows ex]
  by (auto simp: within_caps_def no_usage_def split: option.splits account_cap.splits)

section \<open>The whole preview\<close>

lemma hold_usage_total:
  "fst (foldl (\<lambda>(acc, u) h.
         let n = hold_notional h in
         if n \<le> 0 then (acc, u)
         else (acc + n, apply_usage caps (int_or_zero (hd_spot_ex h)) (int_or_zero (hd_perp_ex h)) n u))
       s holds) = fst s + sum_list (map hold_notional holds)"
proof (induction holds arbitrary: s)
  case (Cons h hs)
  then show ?case
    using pos_part_nonneg[of "to_float (hd_pair_notional h) 0"]
    by (cases s) (auto simp: Let_def hold_notional_def)
qed simp

lemma hold_usage_fst [simp]: "fst (hold_usage caps holds) = sum_list (map hold_notional holds)"
  using hold_usage_total[of caps "(0, no_usage)" holds] by (simp add: hold_usage_def)

lemma hold_usage_Nil [simp]: "hold_usage caps [] = (0, no_usage)"
  by (simp add: hold_usage_def)

lemma set_rank_rows [simp]: "set (rank_rows bs) = set bs"
  by (simp add: rank_rows_def)

text \<open>The preview reads everything it selects from one run of the selection loop.\<close>

definition preview_run :: "scan_row list \<Rightarrow> hold list \<Rightarrow> auto_cfg \<Rightarrow> nav_meta \<Rightarrow> capital_row list \<Rightarrow> select_state" where
  "preview_run open_rows holds cfg nav capital =
     (let p = preview_params_of cfg;
          caps = account_caps p capital;
          current_ids = map (\<lambda>h. str_or_empty (hd_row_id h)) holds;
          available = pos_part (target_budget p nav - fst (hold_usage caps holds));
          eligible = eligible_of p nav caps current_ids open_rows;
          current = int (length holds)
      in select_rows p caps available
           (max 0 (feasible_pairs p (target_budget p nav) current (int (length eligible)) - current))
           (rank_rows eligible)
           \<lparr>ss_selected = [], ss_rejected = filter_rejected p nav caps current_ids open_rows,
            ss_alloc = 0, ss_exp_pnl = 0, ss_usage = snd (hold_usage caps holds)\<rparr>)"

lemma build_preview_run:
  "pv_selected (build_preview rows holds cfg nav capital) = ss_selected (preview_run rows holds cfg nav capital)"
  "pv_params (build_preview rows holds cfg nav capital) = preview_params_of cfg"
  "pv_caps (build_preview rows holds cfg nav capital) = account_caps (preview_params_of cfg) capital"
  "pv_usage_unified (build_preview rows holds cfg nav capital) ex = py_round (us_unified (ss_usage (preview_run rows holds cfg nav capital)) ex) 4"
  "pv_usage_spot (build_preview rows holds cfg nav capital) ex = py_round (us_spot (ss_usage (preview_run rows holds cfg nav capital)) ex) 4"
  "pv_usage_perp (build_preview rows holds cfg nav capital) ex = py_round (us_perp (ss_usage (preview_run rows holds cfg nav capital)) ex) 4"
  by (simp_all add: build_preview_def preview_run_def Let_def case_prod_unfold)

lemma preview_run_ok:
  "select_ok (preview_params_of cfg)
     (pos_part (target_budget (preview_params_of cfg) nav - sum_list (map hold_notional holds)))
     (max 0 (pp_max_open_pairs (preview_params_of cfg) - int (length holds)))
     (preview_run rows holds cfg nav capital)"
proof -
  let ?p = "preview_params_of cfg"
  have weaken: "select_ok p a d st \<Longrightarrow> d \<le> max 0 d' \<Longrightarrow> select_ok p a d' st" for p a d d' st
    by (auto simp: select_ok_def)
  have le: "feasible_pairs ?p b c e - c \<le> max 0 (pp_max_open_pairs ?p - c)" for b c e
    by (auto simp: feasible_pairs_def)
  show ?thesis
    unfolding preview_run_def Let_def hold_usage_fst
    by (rule weaken[OF select_rows_ok])
      (use le in \<open>auto simp: select_ok_def money_simps max.coboundedI2\<close>)
qed

text \<open>
  C18: the preview never exceeds its limits: at most the configured number of pairs, every
  pair's notional between the configured minimum and maximum, and, whenever it selects
  anything, held and selected notional together fit in the net asset value less the dynamic
  reserve (up to the half cent that rounding adds per selected pair).
\<close>

theorem preview_within_budget:
  "int (length (pv_selected (build_preview rows holds cfg nav capital)))
     \<le> max 0 (pp_max_open_pairs (preview_params_of cfg) - int (length holds))
   \<and> (pv_selected (build_preview rows holds cfg nav capital) = []
      \<or> sum_list (map hold_notional holds) + sum_list (map sl_notional (pv_selected (build_preview rows holds cfg nav capital)))
        \<le> nav_used nav * (1 - pp_reserve_dynamic (preview_params_of cfg) / 100)
          + length (pv_selected (build_preview rows holds cfg nav capital)) / 200)
   \<and> list_all (\<lambda>x. py_round (pp_min_pair (preview_params_of cfg)) 2 \<le> sl_notional x
                 \<and> sl_notional x \<le> py_round (pp_max_pair (preview_params_of cfg)) 2)
       (pv_selected (build_preview rows holds cfg nav capital))"
proof -
  let ?p = "preview_params_of cfg" and ?st = "preview_run rows holds cfg nav capital"
  let ?a = "target_budget ?p nav - sum_list (map hold_notional holds)"
  note ok = preview_run_ok[of cfg nav holds rows capital, unfolded select_ok_def]
  have "sum_list (map hold_notional holds) + sum_list (map sl_notional (ss_selected ?st))
      \<le> nav_used nav * (1 - pp_reserve_dynamic ?p / 100) + length (ss_selected ?st) / 200"
    if ne: "ss_selected ?st \<noteq> []"
  proof -
    from ne ok obtain x where "x \<in> set (ss_selected ?st)" by (meson hd_in_set)
    have "0 < ?a"
    proof (rule ccontr)
      assume "\<not> 0 < ?a"
      then have "pos_part ?a = 0" by simp
      moreover have "ss_selected ?st = []" if "pos_part ?a = 0"
        unfolding preview_run_def Let_def hold_usage_fst that
        by (cases "rank_rows (eligible_of ?p nav (account_caps ?p capital) (map (\<lambda>h. str_or_empty (hd_row_id h)) holds) rows)")
          (use preview_params_bounds(1)[of cfg] in auto)
      ultimately show False using ne by blast
    qed
    then have "pos_part ?a = ?a" by simp
    moreover have "ss_alloc ?st \<le> pos_part ?a"
      "sum_list (map sl_notional (ss_selected ?st)) - ss_alloc ?st \<le> length (ss_selected ?st) / 200"
      using ok by (blast dest: abs_le_D1)+
    ultimately show ?thesis
      using target_budget_bound[of cfg nav] by linarith
  qed
  then show ?thesis using ok by (auto simp: build_preview_run)
qed

lemma preview_run_from:
  "list_all (\<lambda>x. list_ex (\<lambda>b. sl_row_id x = bf_row_id b)
       (eligible_of (preview_params_of cfg) nav (account_caps (preview_params_of cfg) capital)
          (map (\<lambda>h. str_or_empty (hd_row_id h)) holds) rows))
     (ss_selected (preview_run rows holds cfg nav capital))"
  unfolding preview_run_def Let_def by (rule select_rows_from) simp_all

lemma reject_reasons_empty:
  "reject_reasons p nav caps ids r = [] \<longleftrightarrow>
     str_or_empty (sr_row_id r) \<notin> set ids \<and> \<not> nm_is_stale nav \<and> 0 < nav_used nav
     \<and> pp_entry_score_min p \<le> to_float (sr_score r) (- 1000000000)
     \<and> pp_entry_conf_min p \<le> to_float (sr_confidence r) 0
     \<and> 0 < to_float (sr_e24 r) 0 \<and> 0 < to_float (sr_basis_abs_usd r) 0 \<and> 0 < to_float (sr_basis_pct r) 0
     \<and> pp_min_capacity p \<le> to_float (sr_capacity r) 0 \<and> to_float (sr_impact_pct r) 0 \<le> pp_max_impact p
     \<and> (caps = [] \<or> map_of caps (int_or_zero (sr_spot_ex r)) \<noteq> None \<and> map_of caps (int_or_zero (sr_perp_ex r)) \<noteq> None)"
  by (simp add: reject_reasons_def not_less not_le del: not_None_eq)

text \<open>
  What the preview selects has passed the entry filter: the row's identifier belongs to
  a scanned row with no reject reason, so the portfolio does not hold it yet, the data is not
  stale, its score and confidence reach the thresholds, its net carry and its basis are
  positive, and the capacity and impact limits hold.
\<close>

theorem preview_selects_eligible:
  "list_all (\<lambda>x. list_ex (\<lambda>r. sl_row_id x = str_or_empty (sr_row_id r)
        \<and> str_or_empty (sr_row_id r) \<notin> (\<lambda>h. str_or_empty (hd_row_id h)) ` set holds
        \<and> \<not> nm_is_stale nav
        \<and> pp_entry_score_min (preview_params_of cfg) \<le> to_float (sr_score r) (- 1000000000)
        \<and> pp_entry_conf_min (preview_params_of cfg) \<le> to_float (sr_confidence r) 0
        \<and> 0 < to_float (sr_e24 r) 0 \<and> 0 < to_float (sr_basis_abs_usd r) 0 \<and> 0 < to_float (sr_basis_pct r) 0
        \<and> pp_min_capacity (preview_params_of cfg) \<le> to_float (sr_capacity r) 0
        \<and> to_float (sr_impact_pct r) 0 \<le> pp_max_impact (preview_params_of cfg)) rows)
     (pv_selected (build_preview rows holds cfg nav capital))"
proof -
  have "\<exists>r \<in> set rows. sl_row_id x = str_or_empty (sr_row_id r)
       \<and> reject_reasons (preview_params_of cfg) nav (account_caps (preview_params_of cfg) capital)
            (map (\<lambda>h. str_or_empty (hd_row_id h)) holds) r = []"
    if "x \<in> set (pv_selected (build_preview rows holds cfg nav capital))" for x
    using that preview_run_from[of cfg nav capital holds rows]
    by (auto simp: build_preview_run list_all_iff list_ex_iff eligible_of_def brief_of_def)
  then show ?thesis
    unfolding list_all_iff list_ex_iff reject_reasons_empty set_map by (meson order_refl)
qed

text \<open>
  With an account snapshot and an empty portfolio, the plan never uses an account beyond
  its capacity, as long as no candidate has both legs on one exchange.
\<close>

theorem preview_account_limits:
  assumes "\<And>r. r \<in> set rows \<Longrightarrow> int_or_zero (sr_spot_ex r) \<noteq> int_or_zero (sr_perp_ex r)"
    and "pv_caps (build_preview rows [] cfg nav capital) \<noteq> []"
  shows "case map_of (pv_caps (build_preview rows [] cfg nav capital)) ex of
      None \<Rightarrow> True
    | Some (Unified cap) \<Rightarrow> pv_usage_unified (build_preview rows [] cfg nav capital) ex \<le> py_round cap 4
    | Some (Split spot perp) \<Rightarrow>
        pv_usage_spot (build_preview rows [] cfg nav capital) ex \<le> py_round spot 4
        \<and> pv_usage_perp (build_preview rows [] cfg nav capital) ex \<le> py_round perp 4"
proof -
  let ?p = "preview_params_of cfg"
  have "within_caps (account_caps ?p capital) (ss_usage (preview_run rows [] cfg nav capital)) ex"
    unfolding preview_run_def Let_def
    by (rule select_rows_within)
      (use assms in \<open>auto simp: no_usage_within money_simps eligible_of_def brief_of_def build_preview_run\<close>)
  then show ?thesis
    by (auto simp: build_preview_run within_caps_def py_round_mono split: option.splits account_cap.splits)
qed

section \<open>Sample runs\<close>

definition sample_row :: "int \<Rightarrow> int \<Rightarrow> scan_row" where
  "sample_row spot perp =
     \<lparr>sr_row_id = Some ''r'', sr_symbol = Some ''BTC/USDT'', sr_perp_ex = Some perp, sr_spot_ex = Some spot,
      sr_perp_name = None, sr_spot_name = None, sr_basis_abs_usd = Some 1, sr_basis_pct = Some 1,
      sr_fee_round_trip_pct = Some 0, sr_e24 = Some 1, sr_confidence = Some 1, sr_capacity = Some 1,
      sr_score = Some 50, sr_hold_days = None, sr_leg_risk = None, sr_impact_pct = Some 0,
      sr_target_notional = Some 3000\<rparr>"

definition sample_nav :: nav_meta where
  "sample_nav = \<lparr>nm_used_usd = Some 10000, nm_total_usd = Some 10000, nm_is_stale = False\<rparr>"

definition sample_capital :: "int \<Rightarrow> real \<Rightarrow> capital_row" where
  "sample_capital ex amount =
     \<lparr>cp_exchange_id = Some ex, cp_unified = True, cp_total = Some amount, cp_spot_available = Some amount,
      cp_spot = Some amount, cp_futures_available = Some amount, cp_futures = Some amount\<rparr>"

lemma default_params:
  "preview_params_of default_cfg =
     \<lparr>pp_entry_score_min = 15, pp_entry_conf_min = 55 / 100, pp_max_open_pairs = 5,
      pp_max_total_utilization = 75, pp_reserve_dynamic = 2, pp_hard_utilization = 75,
      pp_target_utilization = 60, pp_min_pair = 300, pp_max_pair = 3000,
      pp_min_capacity = 12 / 100, pp_max_impact = 30 / 100\<rparr>"
  by (simp add: preview_params_of_def default_cfg_def clampr_def Let_def)

lemma sample_caps:
  "account_caps (preview_params_of default_cfg) [sample_capital 1 1000] = [(1, Unified 980)]"
  by (simp add: account_caps_def sample_capital_def default_params account_cap_of_def clampr_def)

lemma sample_run:
  "ss_usage (preview_run [sample_row 1 1] [] default_cfg sample_nav [sample_capital 1 1000])
   = \<lparr>us_unified = (\<lambda>_. 0)(1 := 1470), us_spot = (\<lambda>_. 0), us_perp = (\<lambda>_. 0)\<rparr>"
  unfolding preview_run_def Let_def sample_caps
  by (simp add: default_params eligible_of_def reject_reasons_empty rank_rows_def feasible_pairs_def target_budget_def
      sample_nav_def nav_used_def sample_row_def brief_of_def clampr_def take_row_def dyn_max_def min_opt_def
      pair_headroom_def leg_headroom_def no_usage_def apply_usage_def use_spot_def use_perp_def is_unified_def Let_def)


lemma sample_caps2:
  "account_caps (preview_params_of default_cfg) [sample_capital 1 1000, sample_capital 3 1000] = [(3, Unified 980), (1, Unified 980)]"
  by (simp add: account_caps_def sample_capital_def default_params account_cap_of_def clampr_def)

theorem preview_account_limits_witness:
  "pv_usage_unified (build_preview [sample_row 3 1] [] default_cfg sample_nav [sample_capital 1 1000, sample_capital 3 1000]) 1 \<le> 980"
proof -
  have "map_of (pv_caps (build_preview [sample_row 3 1] [] default_cfg sample_nav [sample_capital 1 1000, sample_capital 3 1000])) 1 = Some (Unified 980)"
    by (simp add: build_preview_run sample_caps2)
  then show ?thesis
    using preview_account_limits[of "[sample_row 3 1]" default_cfg sample_nav "[sample_capital 1 1000, sample_capital 3 1000]" 1]
    by (simp add: build_preview_run sample_caps2 sample_row_def)
qed

end
