(* ===== verification/TargetState.thy ===== *)
theory TargetState
  imports PortfolioPreview
begin

text \<open>
  The current and the target portfolio of a cycle and the choice of the held pairs that stay
  (\<open>backend/core/spot_basis_auto_engine/target_state.py\<close>).
\<close>

section \<open>Current state\<close>

text \<open>The scanned row that prices a hold: by row identifier, else by exchanges and symbol.\<close>

definition matched_row :: "hold \<Rightarrow> scan_row list \<Rightarrow> scan_row option" where
  "matched_row h open_rows =
     (case rows_by_id open_rows (str_or_empty (hd_row_id h)) of
        Some r \<Rightarrow> Some r
      | None \<Rightarrow> match_current_switch_row h open_rows (rows_by_id open_rows))"

definition current_row_of :: "scan_row list \<Rightarrow> hold \<Rightarrow> current_row" where
  "current_row_of open_rows h =
     (let notional = pos_part (to_float (hd_pair_notional h) 0) in
      case matched_row h open_rows of
        Some m \<Rightarrow>
          \<lparr>cr_strategy_id = int_or_zero (hd_strategy_id h),
           cr_row_id = str_or_empty (py_or_str (sr_row_id m) (Some (str_or_empty (hd_row_id h)))),
           cr_symbol = normalize_symbol_key (py_or_str (sr_symbol m) (hd_symbol h)),
           cr_perp_ex = int_or_zero (py_or_num (sr_perp_ex m) (hd_perp_ex h)),
           cr_spot_ex = int_or_zero (py_or_num (sr_spot_ex m) (hd_spot_ex h)),
           cr_perp_name = sr_perp_name m, cr_spot_name = sr_spot_name m,
           cr_notional = py_round notional 2,
           cr_e24 = py_round (to_float (sr_e24 m) 0) 6,
           cr_confidence = py_round (to_float (sr_confidence m) 0) 6,
           cr_score = py_round (to_float (sr_score m) 0) 6,
           cr_expected_pnl_day = py_round (notional * to_float (sr_e24 m) 0 / 100) 6,
           cr_fee_pct = py_round (safe_half_fee_pct (sr_fee_round_trip_pct m) (8 / 100)) 6,
           cr_hold_days = py_round (safe_hold_days (sr_hold_days m) 2) 4,
           cr_leg_risk = py_round (safe_leg_risk_pct_day (sr_leg_risk m)) 6,
           cr_matched = True\<rparr>
      | None \<Rightarrow>
          \<lparr>cr_strategy_id = int_or_zero (hd_strategy_id h),
           cr_row_id = str_or_empty (hd_row_id h),
           cr_symbol = normalize_symbol_key (hd_symbol h),
           cr_perp_ex = int_or_zero (hd_perp_ex h), cr_spot_ex = int_or_zero (hd_spot_ex h),
           cr_perp_name = None, cr_spot_name = None,
           cr_notional = py_round notional 2, cr_e24 = py_round 0 6, cr_confidence = py_round 0 6,
           cr_score = py_round 0 6, cr_expected_pnl_day = py_round (notional * 0 / 100) 6,
           cr_fee_pct = py_round (8 / 100) 6, cr_hold_days = py_round 2 4, cr_leg_risk = py_round 0 6,
           cr_matched = False\<rparr>)"

definition expected_of_hold :: "scan_row list \<Rightarrow> hold \<Rightarrow> real" where
  "expected_of_hold open_rows h =
     (case matched_row h open_rows of
        Some m \<Rightarrow> pos_part (to_float (hd_pair_notional h) 0) * to_float (sr_e24 m) 0 / 100
      | None \<Rightarrow> pos_part (to_float (hd_pair_notional h) 0) * 0 / 100)"

definition build_current_state :: "hold list \<Rightarrow> scan_row list \<Rightarrow> current_state" where
  "build_current_state holds open_rows =
     \<lparr>cs_rows = map (current_row_of open_rows) holds,
      cs_pairs = length holds,
      cs_notional = py_round (sum_list (map (\<lambda>h. pos_part (to_float (hd_pair_notional h) 0)) holds)) 2,
      cs_expected_pnl_day = py_round (sum_list (map (expected_of_hold open_rows) holds)) 6,
      cs_unmatched = length (filter (\<lambda>h. matched_row h open_rows = None) holds)\<rparr>"

section \<open>Target state\<close>

record target_state =
  ts_preview :: preview
  ts_rows :: "target_row list"
  ts_pairs :: nat
  ts_notional :: usd
  ts_expected_pnl_day :: usd

definition src_field :: "scan_row option \<Rightarrow> (scan_row \<Rightarrow> 'a option) \<Rightarrow> 'a option" where
  "src_field src f = (case src of None \<Rightarrow> None | Some r \<Rightarrow> f r)"

text \<open>
  A selected item carries no fee, horizon or leg-risk key, so without a source row the three
  readings see a missing key.
\<close>

definition target_row_of :: "scan_row list \<Rightarrow> selected_row \<Rightarrow> target_row" where
  "target_row_of open_rows item =
     (let src = rows_by_id open_rows (sl_row_id item);
          notional = pos_part (sl_notional item);
          e24 = sl_e24 item
      in \<lparr>tr_row_id = sl_row_id item,
          tr_symbol = normalize_symbol_key (py_or_str (Some (sl_symbol item)) (src_field src sr_symbol)),
          tr_perp_ex = int_or_zero (py_or_num (Some (sl_perp_ex item)) (src_field src sr_perp_ex)),
          tr_spot_ex = int_or_zero (py_or_num (Some (sl_spot_ex item)) (src_field src sr_spot_ex)),
          tr_perp_name = py_or_str (sl_perp_name item) (src_field src sr_perp_name),
          tr_spot_name = py_or_str (sl_spot_name item) (src_field src sr_spot_name),
          tr_notional = py_round notional 2,
          tr_e24 = py_round e24 6,
          tr_confidence = py_round (sl_confidence item) 6,
          tr_capacity = py_round (sl_capacity item) 6,
          tr_score = py_round (sl_score item) 6,
          tr_expected_pnl_day = py_round (notional * e24 / 100) 6,
          tr_fee_pct = py_round (safe_half_fee_pct (src_field src sr_fee_round_trip_pct) (8 / 100)) 6,
          tr_hold_days = py_round (safe_hold_days (src_field src sr_hold_days) 2) 4,
          tr_leg_risk = py_round (safe_leg_risk_pct_day (src_field src sr_leg_risk)) 6\<rparr>)"

definition build_target_state :: "scan_row list \<Rightarrow> auto_cfg \<Rightarrow> nav_meta \<Rightarrow> capital_row list \<Rightarrow> target_state" where
  "build_target_state open_rows cfg nav capital =
     (let preview = build_preview open_rows [] cfg nav capital;
          items = pv_selected preview
      in \<lparr>ts_preview = preview,
          ts_rows = map (target_row_of open_rows) items,
          ts_pairs = length items,
          ts_notional = py_round (sum_list (map (\<lambda>i. pos_part (sl_notional i)) items)) 2,
          ts_expected_pnl_day = py_round (sum_list (map (\<lambda>i. pos_part (sl_notional i) * sl_e24 i / 100) items)) 6\<rparr>)"

section \<open>Which held pairs stay\<close>

text \<open>
  \<open>_pick_keep_subset_for_row\<close>. The code enumerates the masks \<open>0 .. 2 ^ n - 1\<close>; a mask is
  a number here too, and \<open>bit mask i\<close> tells whether row \<open>i\<close> stays.
\<close>

definition pick_tol :: "real \<Rightarrow> real" where
  "pick_tol target = max 10 (min 40 (target * (8 / 100)))"

definition row_size :: "current_row \<Rightarrow> real" where
  "row_size r = pos_part (cr_notional r)"

definition mask_sum :: "real list \<Rightarrow> nat \<Rightarrow> real" where
  "mask_sum sizes msk = sum_list (map snd (filter (\<lambda>(i, _). bit msk i) (List.enumerate 0 sizes)))"

definition keep_cost :: "real \<Rightarrow> real \<Rightarrow> real \<Rightarrow> real \<Rightarrow> real" where
  "keep_cost total_size target tol keep_sum =
     (let close_sum = total_size - keep_sum;
          open_gap = pos_part (target - keep_sum);
          overshoot = pos_part (keep_sum - target);
          cost = close_sum + open_gap + overshoot * (12 / 10)
      in if overshoot > tol then cost + (overshoot - tol) * 4 else cost)"

text \<open>The best mask so far: \<open>(best_mask, best_cost, best_keep_sum)\<close>, an infinite cost being \<open>None\<close>.\<close>

type_synonym best = "nat \<times> real option \<times> real"

definition better :: "real \<Rightarrow> real \<Rightarrow> best \<Rightarrow> bool" where
  "better cost keep_sum b =
     (case b of
        (_, None, _) \<Rightarrow> True
      | (_, Some best_cost, best_keep_sum) \<Rightarrow>
          cost < best_cost - 1 / 10 ^ 9
          \<or> (\<bar>cost - best_cost\<bar> \<le> 1 / 10 ^ 9 \<and> keep_sum > best_keep_sum))"

definition try_mask :: "real list \<Rightarrow> real \<Rightarrow> real \<Rightarrow> best \<Rightarrow> nat \<Rightarrow> best" where
  "try_mask sizes target tol b msk =
     (let keep_sum = mask_sum sizes msk;
          cost = keep_cost (sum_list sizes) target tol keep_sum
      in if better cost keep_sum b then (msk, Some cost, keep_sum) else b)"

definition best_mask :: "real list \<Rightarrow> real \<Rightarrow> nat" where
  "best_mask sizes target =
     fst (foldl (try_mask sizes target (pick_tol target)) (0, None, - 1) [0..<2 ^ length sizes])"

definition rows_where :: "(nat \<Rightarrow> bool) \<Rightarrow> 'a list \<Rightarrow> 'a list" where
  "rows_where K rows = map snd (filter (\<lambda>(i, _). K i) (List.enumerate 0 rows))"

definition pick_small :: "current_row list \<Rightarrow> real \<Rightarrow> current_row list \<times> current_row list \<times> real" where
  "pick_small rows target =
     (let msk = best_mask (map row_size rows) target;
          keep = rows_where (bit msk) rows
      in (keep, rows_where (\<lambda>i. \<not> bit msk i) rows, sum_list (map row_size keep)))"

text \<open>The greedy choice for more than 14 rows.\<close>

definition greedy_step :: "real \<Rightarrow> nat list \<times> real \<Rightarrow> nat \<times> current_row \<Rightarrow> nat list \<times> real" where
  "greedy_step limit s x =
     (let size = row_size (snd x) in
      if size \<le> 0 then s
      else if snd s + size \<le> limit then (fst s @ [fst x], snd s + size) else s)"

definition min_key_first :: "('a \<Rightarrow> real) \<Rightarrow> 'a list \<Rightarrow> 'a" where
  "min_key_first k xs = foldl (\<lambda>m x. if k x < k m then x else m) (hd xs) (tl xs)"

definition pick_large :: "current_row list \<Rightarrow> real \<Rightarrow> current_row list \<times> current_row list \<times> real" where
  "pick_large rows target =
     (let limit = target + pick_tol target;
          indexed = sort_desc (\<lambda>x. row_size (snd x)) (List.enumerate 0 rows);
          (idx, s) = foldl (greedy_step limit) ([], 0) indexed;
          smallest = min_key_first (\<lambda>x. row_size (snd x)) indexed;
          (idx', s') = (if idx = [] \<and> row_size (snd smallest) \<le> limit
                        then ([fst smallest], row_size (snd smallest)) else (idx, s))
      in (rows_where (\<lambda>i. i \<in> set idx') rows, rows_where (\<lambda>i. i \<notin> set idx') rows, s'))"

definition pick_keep_subset_for_row :: "current_row list \<Rightarrow> real \<Rightarrow> current_row list \<times> current_row list \<times> real" where
  "pick_keep_subset_for_row rows target_notional =
     (let target = pos_part target_notional in
      if rows = [] then ([], [], 0)
      else if target \<le> 0 then ([], rows, 0)
      else if sum_list (map row_size rows) \<le> 0 then ([], rows, 0)
      else if length rows \<le> 14 then pick_small rows target
      else pick_large rows target)"

section \<open>Lemmas on the choice\<close>

lemma row_size_nonneg [simp]: "0 \<le> row_size r"
  by (simp add: row_size_def)

lemma rows_where_mset:
  "mset (rows_where K rows) + mset (rows_where (\<lambda>i. \<not> K i) rows) = mset rows"
proof -
  have "mset (map snd (filter (\<lambda>(i, _). K i) e)) + mset (map snd (filter (\<lambda>(i, _). \<not> K i) e)) = mset (map snd e)"
    for e :: "(nat \<times> 'a) list"
    by (induction e) auto
  then show ?thesis unfolding rows_where_def by (metis map_snd_enumerate)
qed

lemma rows_where_sum:
  "sum_list (map f (rows_where K rows)) =
   (\<Sum>x \<leftarrow> filter (\<lambda>x. K (fst x)) (List.enumerate 0 rows). f (snd x))"
  by (simp add: rows_where_def comp_def case_prod_unfold)

lemma mask_sum_rows:
  "mask_sum (map f rows) msk = sum_list (map f (rows_where (bit msk) rows))"
proof -
  have "List.enumerate n (map f rows) = map (\<lambda>(i, x). (i, f x)) (List.enumerate n rows)" for n
    by (induction rows arbitrary: n) auto
  then show ?thesis
    by (simp add: mask_sum_def rows_where_def filter_map comp_def case_prod_unfold)
qed

text \<open>The enumeration keeps a mask whose cost no tried mask undercuts by more than the drift of the tie rule.\<close>

definition best_so_far :: "real list \<Rightarrow> real \<Rightarrow> nat \<Rightarrow> best \<Rightarrow> bool" where
  "best_so_far sizes target j b =
     (let cost = (\<lambda>m. keep_cost (sum_list sizes) target (pick_tol target) (mask_sum sizes m)) in
      case b of (m, c, ks) \<Rightarrow>
        (c = None \<longleftrightarrow> j = 0) \<and> (\<forall>c'. c = Some c' \<longrightarrow> c' = cost m \<and> (\<forall>m' < j. c' \<le> cost m' + real j / 10 ^ 9)))"

lemma try_mask_best:
  assumes "best_so_far sizes target j b"
  shows "best_so_far sizes target (Suc j) (try_mask sizes target (pick_tol target) b j)"
proof -
  let ?cost = "\<lambda>m. keep_cost (sum_list sizes) target (pick_tol target) (mask_sum sizes m)"
  obtain m c ks where b: "b = (m, c, ks)" by (cases b)
  show ?thesis
  proof (cases c)
    case None
    with assms have "j = 0" by (simp add: best_so_far_def b Let_def)
    then show ?thesis using None by (simp add: b try_mask_def better_def best_so_far_def Let_def)
  next
    case (Some c')
    with assms have c': "c' = ?cost m" "\<forall>m' < j. c' \<le> ?cost m' + real j / 10 ^ 9"
      unfolding best_so_far_def b Let_def by auto
    have step: "real (Suc j) / 10 ^ 9 = real j / 10 ^ 9 + 1 / 10 ^ 9"
      by (simp add: add_divide_distrib)
    show ?thesis
    proof (cases "better (?cost j) (mask_sum sizes j) b")
      case True
      then have "?cost j \<le> c' + 1 / 10 ^ 9"
        unfolding better_def b Some abs_le_iff by (simp, linarith)
      moreover have "\<forall>m' < j. ?cost j \<le> ?cost m' + real (Suc j) / 10 ^ 9"
        using c'(2) calculation unfolding step by force
      ultimately show ?thesis
        using True by (auto simp: b Some try_mask_def best_so_far_def Let_def less_Suc_eq)
    next
      case False
      then have "c' \<le> ?cost j + 1 / 10 ^ 9"
        unfolding better_def b Some abs_le_iff by (simp add: not_less)
      moreover have "0 \<le> real j / 10 ^ 9" by simp
      ultimately have "\<forall>m' < Suc j. c' \<le> ?cost m' + real (Suc j) / 10 ^ 9"
        using c'(2) unfolding step less_Suc_eq by force
      then show ?thesis
        using False c'(1) by (auto simp: b Some try_mask_def best_so_far_def Let_def)
    qed
  qed
qed

lemma foldl_try_mask:
  "best_so_far sizes target k (foldl (try_mask sizes target (pick_tol target)) (0, None, - 1) [0..<k])"
  by (induction k) (simp_all add: try_mask_best, simp add: best_so_far_def)

lemma best_mask_optimal:
  assumes "m < 2 ^ length sizes"
  shows "keep_cost (sum_list sizes) target (pick_tol target) (mask_sum sizes (best_mask sizes target))
    \<le> keep_cost (sum_list sizes) target (pick_tol target) (mask_sum sizes m) + 2 ^ length sizes / 10 ^ 9"
proof -
  let ?b = "foldl (try_mask sizes target (pick_tol target)) (0, None, - 1) [0..<2 ^ length sizes]"
  obtain bm c ks where b: "?b = (bm, c, ks)" by (metis prod.exhaust)
  have inv: "best_so_far sizes target (2 ^ length sizes) (bm, c, ks)"
    using foldl_try_mask[of sizes target "2 ^ length sizes"] b by simp
  then obtain c' where "c = Some c'" by (cases c) (auto simp: best_so_far_def Let_def)
  then show ?thesis
    using inv assms b unfolding best_so_far_def Let_def best_mask_def by auto
qed

text \<open>The greedy choice: the kept indices are distinct rows whose sizes add up to the running sum.\<close>

definition greedy_ok :: "real \<Rightarrow> (nat \<times> current_row) list \<Rightarrow> nat list \<times> real \<Rightarrow> bool" where
  "greedy_ok limit seen s \<longleftrightarrow>
     (\<exists>kept. set kept \<subseteq> set seen \<and> distinct kept \<and> fst s = map fst kept
       \<and> snd s = (\<Sum>x \<leftarrow> kept. row_size (snd x))) \<and> (0 \<le> limit \<longrightarrow> snd s \<le> limit)"

lemma greedy_step_ok:
  assumes "greedy_ok limit seen s" "x \<notin> set seen"
  shows "greedy_ok limit (x # seen) (greedy_step limit s x)"
proof -
  from assms obtain kept where k: "set kept \<subseteq> set seen" "distinct kept" "fst s = map fst kept"
    "snd s = (\<Sum>x \<leftarrow> kept. row_size (snd x))" and lim: "0 \<le> limit \<longrightarrow> snd s \<le> limit"
    by (auto simp: greedy_ok_def)
  show ?thesis
  proof (cases "row_size (snd x) \<le> 0 \<or> snd s + row_size (snd x) > limit")
    case True
    then have "greedy_step limit s x = s" by (auto simp: greedy_step_def Let_def)
    then show ?thesis using k lim by (auto simp: greedy_ok_def)
  next
    case False
    then have "greedy_step limit s x = (fst s @ [fst x], snd s + row_size (snd x))"
      by (auto simp: greedy_step_def Let_def)
    moreover have "set (kept @ [x]) \<subseteq> set (x # seen)" "distinct (kept @ [x])" using k assms(2) by auto
    ultimately show ?thesis
      using k False unfolding greedy_ok_def
      by (intro conjI exI[of _ "kept @ [x]"]) auto
  qed
qed

lemma greedy_loop_ok:
  "distinct xs \<Longrightarrow> set xs \<inter> set seen = {} \<Longrightarrow> greedy_ok limit seen s \<Longrightarrow>
   greedy_ok limit (rev xs @ seen) (foldl (greedy_step limit) s xs)"
proof (induction xs arbitrary: s seen)
  case (Cons x xs)
  then have "greedy_ok limit (x # seen) (greedy_step limit s x)" by (intro greedy_step_ok) auto
  with Cons.IH[of "x # seen" "greedy_step limit s x"] Cons.prems show ?case by auto
qed simp

lemma kept_sum:
  assumes "set kept \<subseteq> set (List.enumerate 0 rows)" "distinct kept"
  shows "sum_list (map row_size (rows_where (\<lambda>i. i \<in> set (map fst kept)) rows)) = (\<Sum>x \<leftarrow> kept. row_size (snd x))"
proof -
  let ?e = "List.enumerate 0 rows"
  have d: "distinct ?e" "inj_on fst (set ?e)"
    using distinct_enumerate[of 0 rows] distinct_map[of fst ?e] by simp_all
  have "set (filter (\<lambda>x. fst x \<in> set (map fst kept)) ?e) = set kept"
    using assms(1) d(2) by (auto simp: inj_on_def)
  then show ?thesis
    unfolding rows_where_sum using d(1) assms(2)
    by (simp add: sum_list_distinct_conv_sum_set distinct_filter)
qed

lemma min_key_first_in: "xs \<noteq> [] \<Longrightarrow> min_key_first k xs \<in> set xs"
proof -
  have "foldl (\<lambda>m x. if k x < k m then x else m) a ys \<in> set (a # ys)" for a ys
    by (induction ys arbitrary: a) auto
  then show "xs \<noteq> [] \<Longrightarrow> min_key_first k xs \<in> set xs"
    unfolding min_key_first_def by (cases xs) auto
qed

lemma pick_large_facts:
  assumes "rows \<noteq> []" "0 < target" "pick_large rows target = (keep, close, s)"
  shows "mset keep + mset close = mset rows" "s = sum_list (map row_size keep)" "s \<le> target + pick_tol target"
proof -
  let ?lim = "target + pick_tol target" and ?e = "List.enumerate 0 rows"
  let ?ix = "sort_desc (\<lambda>x. row_size (snd x)) ?e"
  let ?small = "min_key_first (\<lambda>x. row_size (snd x)) ?ix"
  obtain idx a where g: "foldl (greedy_step ?lim) ([], 0) ?ix = (idx, a)" by (metis prod.exhaust)
  have lim: "0 \<le> ?lim" using assms(2) by (simp add: pick_tol_def)
  have d: "distinct ?e" by (meson distinct_enumerate distinct_map)
  have "distinct ?ix" using d by (metis distinct_map_sort_desc map_ident)
  moreover have "greedy_ok ?lim [] ([], 0)" by (simp add: greedy_ok_def)
  ultimately have "greedy_ok ?lim (rev ?ix) (idx, a)"
    using greedy_loop_ok[of ?ix "[]" ?lim "([], 0)"] g by simp
  then obtain kept where k: "set kept \<subseteq> set ?e" "distinct kept" "idx = map fst kept"
    "a = (\<Sum>x \<leftarrow> kept. row_size (snd x))" and a: "a \<le> ?lim"
    using lim by (auto simp: greedy_ok_def)
  define kept' where "kept' = (if idx = [] \<and> row_size (snd ?small) \<le> ?lim then [?small] else kept)"
  have "?ix \<noteq> []" using assms(1) by (metis length_0_conv length_enumerate length_sort_desc)
  then have small: "?small \<in> set ?e" using min_key_first_in by fastforce
  have res: "keep = rows_where (\<lambda>i. i \<in> set (map fst kept')) rows"
    "close = rows_where (\<lambda>i. i \<notin> set (map fst kept')) rows"
    "s = (\<Sum>x \<leftarrow> kept'. row_size (snd x))"
    using assms(3) k(3,4) unfolding pick_large_def Let_def g kept'_def by (auto split: if_splits)
  show "mset keep + mset close = mset rows" unfolding res by (rule rows_where_mset)
  have "set kept' \<subseteq> set ?e" "distinct kept'" using k small by (auto simp: kept'_def)
  from kept_sum[OF this] show "s = sum_list (map row_size keep)" unfolding res by simp
  show "s \<le> ?lim" using res(3) k(4) a by (auto simp: kept'_def split: if_splits)
qed

section \<open>Properties\<close>

lemma pick_keep_splits:
  "case pick_keep_subset_for_row rows target_notional of
     (keep, close, s) \<Rightarrow> mset keep + mset close = mset rows \<and> s = sum_list (map row_size keep)"
proof -
  have small: "mset (rows_where (bit m) rows) + mset (rows_where (\<lambda>i. \<not> bit m i) rows) = mset rows" for m :: nat
    by (rule rows_where_mset)
  have large: "case pick_large rows (pos_part target_notional) of
     (keep, close, s) \<Rightarrow> mset keep + mset close = mset rows \<and> s = sum_list (map row_size keep)"
    if "rows \<noteq> []" "0 < pos_part target_notional"
    using pick_large_facts(1,2)[OF that] by (auto split: prod.split)
  show ?thesis
    using small large unfolding pick_keep_subset_for_row_def pick_small_def Let_def by auto
qed

text \<open>
  The choice of the pairs that stay splits the held pairs of a row: every pair is kept
  or closed, none is lost or duplicated, and the reported kept notional is the sum of the
  kept pairs.
\<close>

theorem pick_keep_partition:
  "case pick_keep_subset_for_row rows target_notional of
     (keep, close, s) \<Rightarrow> mset keep + mset close = mset rows \<and> s = sum_list (map row_size keep)"
  by (rule pick_keep_splits)

lemma mask_of:
  fixes K :: "nat \<Rightarrow> bool"
  obtains m :: nat where "m < 2 ^ n" "\<And>i. i < n \<Longrightarrow> bit m i = K i"
proof
  let ?m = "horner_sum of_bool 2 (map K [0..<n]) :: nat"
  have "(horner_sum of_bool 2 bs :: nat) < 2 ^ length bs" for bs :: "bool list"
    by (induction bs) (auto simp: of_bool_def)
  from this[of "map K [0..<n]"] show "?m < 2 ^ n" by simp
  show "bit ?m i = K i" if "i < n" for i
    using that by (simp add: bit_horner_sum_bit_iff)
qed

lemma rows_where_cong:
  "(\<And>i. i < length rows \<Longrightarrow> K i = L i) \<Longrightarrow> rows_where K rows = rows_where L rows"
  unfolding rows_where_def by (auto intro!: arg_cong[where f = "map snd"] filter_cong simp: in_set_enumerate_eq)

text \<open>
  C17: for up to 14 held pairs the choice is optimal: no other subset of the pairs has a
  turnover cost lower by more than the drift of the code's comparison tolerance (one 1e-9
  per enumerated subset).
\<close>

theorem pick_keep_optimal:
  assumes "rows \<noteq> []" "length rows \<le> 14" "0 < target" "0 < sum_list (map row_size rows)"
    and "pick_keep_subset_for_row rows target = (keep, close, s)"
  shows "keep_cost (sum_list (map row_size rows)) target (pick_tol target) s
    \<le> keep_cost (sum_list (map row_size rows)) target (pick_tol target) (sum_list (map row_size (rows_where K rows)))
      + 2 ^ length rows / 10 ^ 9"
proof -
  have p: "pick_small rows target = (keep, close, s)"
    using assms by (simp add: pick_keep_subset_for_row_def)
  then have s: "s = mask_sum (map row_size rows) (best_mask (map row_size rows) target)"
    by (auto simp: pick_small_def Let_def mask_sum_rows)
  obtain m :: nat where m: "m < 2 ^ length rows" "\<And>i. i < length rows \<Longrightarrow> bit m i = K i"
    using mask_of[of "length rows" K] by blast
  have "rows_where K rows = rows_where (bit m) rows" using m(2) by (intro rows_where_cong) simp
  then have K: "sum_list (map row_size (rows_where K rows)) = mask_sum (map row_size rows) m"
    by (simp add: mask_sum_rows)
  show ?thesis unfolding s K using best_mask_optimal[of m "map row_size rows" target] m(1) by simp
qed

text \<open>
  For more than 14 held pairs the greedy choice never keeps more than the target and its
  tolerance, which is at most 40 USD.
\<close>

theorem pick_keep_greedy_bound:
  assumes "14 < length rows" "pick_keep_subset_for_row rows target_notional = (keep, close, s)"
  shows "s \<le> pos_part target_notional + 40"
proof (cases "pos_part target_notional \<le> 0 \<or> sum_list (map row_size rows) \<le> 0")
  case True
  then have "s = 0" using assms by (auto simp: pick_keep_subset_for_row_def Let_def split: if_splits)
  then show ?thesis using pos_part_nonneg[of target_notional] by linarith
next
  case False
  then have "pick_large rows (pos_part target_notional) = (keep, close, s)" "0 < pos_part target_notional"
    using assms by (auto simp: pick_keep_subset_for_row_def Let_def split: if_splits)
  then have "s \<le> pos_part target_notional + pick_tol (pos_part target_notional)"
    using pick_large_facts(3)[of rows "pos_part target_notional"] assms(1) by fastforce
  moreover have "pick_tol (pos_part target_notional) \<le> 40" by (simp add: pick_tol_def)
  ultimately show ?thesis by linarith
qed

section \<open>Sample rows\<close>

definition sample_current :: "int \<Rightarrow> string \<Rightarrow> real \<Rightarrow> current_row" where
  "sample_current sid rid notional =
     \<lparr>cr_strategy_id = sid, cr_row_id = rid, cr_symbol = ''BTC/USDT:USDT'', cr_perp_ex = 1, cr_spot_ex = 2,
      cr_perp_name = None, cr_spot_name = None, cr_notional = notional, cr_e24 = 0, cr_confidence = 0,
      cr_score = 0, cr_expected_pnl_day = 0, cr_fee_pct = 0, cr_hold_days = 2, cr_leg_risk = 0, cr_matched = True\<rparr>"

lemma sample_current_sels [simp]:
  "row_size (sample_current sid rid n) = pos_part n" "cr_notional (sample_current sid rid n) = n"
  "cr_strategy_id (sample_current sid rid n) = sid" "cr_row_id (sample_current sid rid n) = rid"
  by (simp_all add: row_size_def sample_current_def)

theorem pick_keep_optimal_witness:
  "\<exists>keep close s. pick_keep_subset_for_row [sample_current 1 ''r'' 300, sample_current 2 ''r'' 500] 500 = (keep, close, s)
     \<and> keep_cost 800 500 40 s \<le> 300 + 4 / 10 ^ 9"
proof -
  let ?rows = "[sample_current 1 ''r'' 300, sample_current 2 ''r'' 500]"
  obtain keep close s where p: "pick_keep_subset_for_row ?rows 500 = (keep, close, s)" by (metis prod.exhaust)
  from pick_keep_optimal[OF _ _ _ _ p, of "\<lambda>i. i = 1"]
  have "keep_cost 800 500 40 s \<le> 300 + 4 / 10 ^ 9"
    by (simp add: rows_where_def keep_cost_def pick_tol_def)
  with p show ?thesis by blast
qed

theorem pick_keep_greedy_bound_witness:
  "\<exists>keep close s. pick_keep_subset_for_row (map (\<lambda>i. sample_current i ''r'' 100) [1..20]) 500 = (keep, close, s) \<and> s \<le> 540"
proof -
  obtain keep close s where p: "pick_keep_subset_for_row (map (\<lambda>i. sample_current i ''r'' 100) [1..20]) 500 = (keep, close, s)"
    by (metis prod.exhaust)
  with pick_keep_greedy_bound[OF _ p] show ?thesis by simp
qed

end
