(* ===== verification/DeltaPlan.thy ===== *)
theory DeltaPlan
  imports TargetState
begin

text \<open>
  The rebalance plan that takes the current portfolio to the target
  (\<open>backend/core/spot_basis_auto_engine/delta_plan.py\<close>): which held pairs stay, which are
  closed, what is opened, and whether the expected advantage clears the deadband.
\<close>

section \<open>Buckets of held pairs\<close>

type_synonym buckets = "(string \<times> current_row list) list"

text \<open>\<open>current_by_row.setdefault(row_id, []).append(row)\<close> and \<open>pop(row_id, [])\<close>; the order is the insertion order.\<close>

definition bucket_add :: "buckets \<Rightarrow> current_row \<Rightarrow> buckets" where
  "bucket_add bs row =
     (case map_of bs (cr_row_id row) of
        None \<Rightarrow> bs @ [(cr_row_id row, [row])]
      | Some _ \<Rightarrow> map (\<lambda>(k, l). if k = cr_row_id row then (k, l @ [row]) else (k, l)) bs)"

definition current_buckets :: "current_row list \<Rightarrow> buckets" where
  "current_buckets rows =
     map (\<lambda>(k, l). (k, sort_desc cr_notional l)) (foldl bucket_add [] rows)"

definition bucket_of :: "buckets \<Rightarrow> string \<Rightarrow> current_row list" where
  "bucket_of bs k = (case map_of bs k of None \<Rightarrow> [] | Some l \<Rightarrow> l)"

definition bucket_pop :: "buckets \<Rightarrow> string \<Rightarrow> buckets" where
  "bucket_pop bs k = filter (\<lambda>b. fst b \<noteq> k) bs"

section \<open>Plan items\<close>

definition close_item_of :: "string \<Rightarrow> current_row \<Rightarrow> plan_item" where
  "close_item_of reason cur =
     empty_item\<lparr>pi_strategy_id := Some (cr_strategy_id cur), pi_row_id := Some (cr_row_id cur),
       pi_symbol := Some (cr_symbol cur), pi_long_ex := Some (cr_spot_ex cur), pi_short_ex := Some (cr_perp_ex cur),
       pi_long_name := cr_spot_name cur, pi_short_name := cr_perp_name cur,
       pi_size_usd := Some (py_round (row_size cur) 2), pi_e24 := Some (py_round (cr_e24 cur) 6),
       pi_close_fee := Some (py_round (cr_fee_pct cur) 6), pi_hold_days := Some (py_round (cr_hold_days cur) 4),
       pi_leg_risk := Some (py_round (cr_leg_risk cur) 6), pi_reason_codes := [reason]\<rparr>"

definition close_items :: "string \<Rightarrow> current_row list \<Rightarrow> plan_item list" where
  "close_items reason rows = map (close_item_of reason) (filter (\<lambda>r. row_size r > 0) rows)"

definition open_item_of :: "target_row \<Rightarrow> real \<Rightarrow> bool \<Rightarrow> plan_item" where
  "open_item_of t gap kept =
     empty_item\<lparr>pi_row_id := Some (tr_row_id t), pi_symbol := Some (tr_symbol t),
       pi_long_ex := Some (tr_spot_ex t), pi_short_ex := Some (tr_perp_ex t),
       pi_long_name := tr_spot_name t, pi_short_name := tr_perp_name t,
       pi_size_usd := Some (py_round gap 2), pi_score := Some (py_round (tr_score t) 6),
       pi_e24 := Some (py_round (tr_e24 t) 6), pi_open_fee := Some (py_round (pos_part (tr_fee_pct t)) 6),
       pi_hedge_ratio := Some 1, pi_hold_days := Some (py_round (max 1 (tr_hold_days t)) 4),
       pi_leg_risk := Some (py_round (pos_part (tr_leg_risk t)) 6),
       pi_reason_codes := [if kept then ''top_up_to_target_same_row'' else ''new_target_row'']\<rparr>"

record keep_row =
  kr_row_id :: string
  kr_symbol :: string
  kr_target :: usd
  kr_kept :: usd
  kr_gap :: usd
  kr_kept_pairs :: nat
  kr_kept_ids :: "int list"
  kr_e24 :: real
  kr_confidence :: real
  kr_capacity :: real
  kr_score :: real

definition keep_row_of :: "target_row \<Rightarrow> real \<Rightarrow> current_row list \<Rightarrow> real \<Rightarrow> keep_row" where
  "keep_row_of t target keep keep_sum =
     \<lparr>kr_row_id = tr_row_id t, kr_symbol = tr_symbol t, kr_target = py_round target 2,
      kr_kept = py_round keep_sum 2, kr_gap = py_round (target - keep_sum) 2,
      kr_kept_pairs = length keep, kr_kept_ids = map cr_strategy_id keep,
      kr_e24 = py_round (tr_e24 t) 6, kr_confidence = py_round (tr_confidence t) 6,
      kr_capacity = py_round (tr_capacity t) 6, kr_score = py_round (tr_score t) 6\<rparr>"

section \<open>The loop over the target rows\<close>

record delta_state =
  dl_buckets :: buckets
  dl_keep :: "keep_row list"
  dl_open :: "plan_item list"
  dl_close :: "plan_item list"
  dl_gap_total :: usd
  dl_reasons :: "string list"

definition min_top_up :: "auto_cfg \<Rightarrow> real" where
  "min_top_up cfg = max 10 (max 1 (to_float (cfg_min_pair_notional_usd cfg) 300) * (5 / 100))"

definition delta_step :: "real \<Rightarrow> delta_state \<Rightarrow> target_row \<Rightarrow> delta_state" where
  "delta_step top_up st t =
     (let target = pos_part (tr_notional t) in
      if tr_row_id t = [] \<or> target \<le> 0 then st
      else
        (case pick_keep_subset_for_row (bucket_of (dl_buckets st) (tr_row_id t)) target of
           (keep, close, keep_sum) \<Rightarrow>
             (let gap = target - keep_sum in
              st\<lparr>dl_buckets := bucket_pop (dl_buckets st) (tr_row_id t),
                 dl_close := dl_close st @ close_items ''excess_over_target_same_row'' close,
                 dl_gap_total := dl_gap_total st + \<bar>gap\<bar>,
                 dl_open := dl_open st @ (if gap > top_up then [open_item_of t gap (keep \<noteq> [])] else []),
                 dl_reasons := dl_reasons st @
                   (if gap \<le> top_up \<and> gap > 0 then [''gap_below_min_top_up_notional''] else []),
                 dl_keep := dl_keep st @ [keep_row_of t target keep keep_sum]\<rparr>)))"

definition delta_loop :: "auto_cfg \<Rightarrow> current_row list \<Rightarrow> target_row list \<Rightarrow> delta_state" where
  "delta_loop cfg current_rows target_rows =
     foldl (delta_step (min_top_up cfg))
       \<lparr>dl_buckets = current_buckets current_rows, dl_keep = [], dl_open = [], dl_close = [],
        dl_gap_total = 0, dl_reasons = []\<rparr> target_rows"

text \<open>What is left in the buckets is closed.\<close>

definition delta_close_plan :: "delta_state \<Rightarrow> plan_item list" where
  "delta_close_plan st =
     dl_close st @ concat (map (\<lambda>b. close_items ''not_in_target_portfolio'' (snd b)) (dl_buckets st))"

section \<open>Advantage, cost and deadband\<close>

abbreviation opt_pos :: "fopt \<Rightarrow> real" where
  "opt_pos v \<equiv> pos_part (to_float v 0)"

definition keep_expected :: "keep_row list \<Rightarrow> real" where
  "keep_expected rows = sum_list (map (\<lambda>r. pos_part (kr_kept r) * kr_e24 r / 100) rows)"

definition open_expected :: "plan_item list \<Rightarrow> real" where
  "open_expected items = sum_list (map (\<lambda>o'. item_size o' * to_float (pi_e24 o') 0 / 100) items)"

definition one_time_fee :: "plan_item list \<Rightarrow> plan_item list \<Rightarrow> real" where
  "one_time_fee open_plan close_plan =
     sum_list (map (\<lambda>c. item_size c * opt_pos (pi_close_fee c) / 100) close_plan)
     + sum_list (map (\<lambda>o'. item_size o' * opt_pos (pi_open_fee o') / 100) open_plan)"

definition hold_days_for_cost :: "plan_item list \<Rightarrow> real" where
  "hold_days_for_cost items =
     (let weight = sum_list (map item_size items);
          weighted = sum_list (map (\<lambda>i. item_size i * max 1 (to_float (pi_hold_days i) 2)) items)
      in max 1 (min 14 (if weight > 0 then weighted / weight else 2)))"

definition operation_risk :: "plan_item list \<Rightarrow> real" where
  "operation_risk items = sum_list (map (\<lambda>i. item_size i * opt_pos (pi_leg_risk i) / 100) items)"

definition switch_cost :: "plan_item list \<Rightarrow> plan_item list \<Rightarrow> real" where
  "switch_cost open_plan close_plan =
     one_time_fee open_plan close_plan / hold_days_for_cost (open_plan @ close_plan)
     + operation_risk (open_plan @ close_plan)"

text \<open>\<open>meets_rel\<close> and the relative advantage it is read from.\<close>

definition rel_advantage :: "real \<Rightarrow> real \<Rightarrow> real" where
  "rel_advantage adv current_expected =
     (if \<bar>current_expected\<bar> > 1 / 10 ^ 9 then adv / \<bar>current_expected\<bar> * 100
      else if adv > 0 then 100 else if adv < 0 then - 100 else 0)"

definition meets_relative :: "real \<Rightarrow> real \<Rightarrow> real \<Rightarrow> real \<Rightarrow> bool" where
  "meets_relative adv current_expected rel_threshold abs_threshold =
     (if \<bar>current_expected\<bar> > 1 / 10 ^ 9 then rel_advantage adv current_expected \<ge> rel_threshold
      else adv \<ge> abs_threshold)"

section \<open>Fingerprint\<close>

text \<open>
  The text of a non-negative float rounded to two digits (\<open>300.0\<close>, \<open>12.5\<close>, \<open>7.25\<close>), as the
  f-string of the fingerprint prints it below 1e16.
\<close>

definition repr_cents :: "real \<Rightarrow> string" where
  "repr_cents x =
     (let c = nat (round_half_even (x * 100)) in
      digits_of (c div 100) @ ''.'' @
      (if c mod 10 = 0 then digits_of (c mod 100 div 10)
       else digits_of (c mod 100 div 10) @ digits_of (c mod 10)))"

fun join_comma :: "string list \<Rightarrow> string" where
  "join_comma [] = ''''"
| "join_comma [x] = x"
| "join_comma (x # xs) = x @ '','' @ join_comma xs"

definition fingerprint_of :: "plan_item list \<Rightarrow> plan_item list \<Rightarrow> string" where
  "fingerprint_of open_plan close_plan =
     (if open_plan = [] \<and> close_plan = [] then ''''
      else ''o:'' @ join_comma (sort (map (\<lambda>x. str_or_empty (pi_row_id x) @ '':'' @ repr_cents (item_size x)) open_plan))
        @ ''|c:'' @ join_comma (sort (map (\<lambda>x. str_of_int (item_sid x)) close_plan)))"

section \<open>The plan\<close>

record delta_plan =
  dp_open :: "plan_item list"
  dp_close :: "plan_item list"
  dp_keep :: "keep_row list"
  dp_resize_gap :: usd
  dp_current_expected :: usd
  dp_projected_expected :: usd
  dp_gross_delta :: usd
  dp_fee_one_time :: usd
  dp_fee_amortized :: usd
  dp_operation_risk :: usd
  dp_switch_cost :: usd
  dp_adv :: usd
  dp_adv_rel :: real
  dp_rel_required :: real
  dp_abs_required :: real
  dp_meets_rel :: bool
  dp_meets_abs :: bool
  dp_raw_signal :: bool
  dp_has_delta :: bool
  dp_fingerprint :: string
  dp_reason_codes :: "string list"

definition rel_required :: "auto_cfg \<Rightarrow> real" where
  "rel_required cfg = pos_part (to_float (cfg_rebalance_min_relative_adv_pct cfg) 5)"

definition abs_required :: "auto_cfg \<Rightarrow> real" where
  "abs_required cfg = pos_part (to_float (cfg_rebalance_min_absolute_adv_usd_day cfg) (1 / 2))"

definition build_rebalance_delta_plan :: "current_state \<Rightarrow> target_row list \<Rightarrow> auto_cfg \<Rightarrow> delta_plan" where
  "build_rebalance_delta_plan current target_rows cfg =
     (let st = delta_loop cfg (cs_rows current) target_rows;
          open_plan = dl_open st;
          close_plan = delta_close_plan st;
          current_expected = cs_expected_pnl_day current;
          projected = keep_expected (dl_keep st) + open_expected open_plan;
          gross = projected - current_expected;
          fee = one_time_fee open_plan close_plan;
          days = hold_days_for_cost (open_plan @ close_plan);
          risk = operation_risk (open_plan @ close_plan);
          cost = switch_cost open_plan close_plan;
          adv = gross - cost;
          meets_rel = meets_relative adv current_expected (rel_required cfg) (abs_required cfg);
          meets_abs = (adv \<ge> abs_required cfg);
          has_delta = (length open_plan + length close_plan > 0)
      in \<lparr>dp_open = open_plan, dp_close = close_plan, dp_keep = dl_keep st,
          dp_resize_gap = py_round (dl_gap_total st) 2,
          dp_current_expected = py_round current_expected 6,
          dp_projected_expected = py_round projected 6,
          dp_gross_delta = py_round gross 6,
          dp_fee_one_time = py_round fee 6,
          dp_fee_amortized = py_round (fee / days) 6,
          dp_operation_risk = py_round risk 6,
          dp_switch_cost = py_round cost 6,
          dp_adv = py_round adv 6,
          dp_adv_rel = py_round (rel_advantage adv current_expected) 6,
          dp_rel_required = py_round (rel_required cfg) 6,
          dp_abs_required = py_round (abs_required cfg) 6,
          dp_meets_rel = meets_rel, dp_meets_abs = meets_abs,
          dp_raw_signal = (has_delta \<and> meets_abs \<and> meets_rel),
          dp_has_delta = has_delta,
          dp_fingerprint = fingerprint_of open_plan close_plan,
          dp_reason_codes = dl_reasons st
            @ (if has_delta then [] else [''no_delta_plan''])
            @ (if has_delta \<and> \<not> meets_abs then [''adv_below_abs_deadband''] else [])
            @ (if has_delta \<and> \<not> meets_rel then [''adv_below_rel_deadband''] else [])\<rparr>)"

section \<open>The buckets hold the current rows\<close>

definition bucket_rows :: "buckets \<Rightarrow> current_row multiset" where
  "bucket_rows bs = sum_list (map (\<lambda>b. mset (snd b)) bs)"

lemma bucket_rows_simps [simp]:
  "bucket_rows [] = {#}" "bucket_rows (b # bs) = mset (snd b) + bucket_rows bs"
  "bucket_rows (as @ bs) = bucket_rows as + bucket_rows bs"
  by (simp_all add: bucket_rows_def)

lemma bucket_update_rows:
  "distinct (map fst bs) \<Longrightarrow> k \<in> fst ` set bs \<Longrightarrow>
   bucket_rows (map (\<lambda>(k', l). if k' = k then (k', l @ [row]) else (k', l)) bs) = add_mset row (bucket_rows bs)"
proof (induction bs)
  case (Cons b bs)
  show ?case
  proof (cases "fst b = k")
    case True
    then have "k \<notin> fst ` set bs" using Cons.prems(1) by (auto simp: image_iff)
    then have "map (\<lambda>(k', l). if k' = k then (k', l @ [row]) else (k', l)) bs = bs"
      by (intro map_idI) (auto simp: image_iff)
    then show ?thesis using True by (cases b) simp
  next
    case False
    then show ?thesis using Cons by (cases b) auto
  qed
qed simp

lemma bucket_add_facts:
  assumes "distinct (map fst bs)"
  shows "distinct (map fst (bucket_add bs row))" "bucket_rows (bucket_add bs row) = add_mset row (bucket_rows bs)"
proof -
  have k: "map fst (map (\<lambda>(k, l). if k = cr_row_id row then (k, l @ [row]) else (k, l)) bs) = map fst bs"
    by (induction bs) auto
  show "distinct (map fst (bucket_add bs row))"
    using assms by (auto simp add: bucket_add_def map_of_eq_None_iff k simp del: map_map map_eq_conv split: option.split)
  show "bucket_rows (bucket_add bs row) = add_mset row (bucket_rows bs)"
  proof (cases "map_of bs (cr_row_id row)")
    case (Some l)
    then have "cr_row_id row \<in> fst ` set bs" by (metis map_of_eq_None_iff option.distinct(1))
    with Some show ?thesis using bucket_update_rows[OF assms] by (simp add: bucket_add_def)
  qed (simp add: bucket_add_def)
qed

lemma foldl_bucket_add:
  "distinct (map fst bs) \<Longrightarrow>
   distinct (map fst (foldl bucket_add bs rows)) \<and> bucket_rows (foldl bucket_add bs rows) = bucket_rows bs + mset rows"
  by (induction rows arbitrary: bs) (simp_all add: bucket_add_facts)

lemma current_buckets_facts:
  "distinct (map fst (current_buckets rows))" "bucket_rows (current_buckets rows) = mset rows"
proof -
  have s: "bucket_rows (map (\<lambda>(k, l). (k, sort_desc cr_notional l)) bs) = bucket_rows bs"
    "map fst (map (\<lambda>(k, l). (k, sort_desc cr_notional l)) bs) = map fst bs" for bs
    by (induction bs) auto
  show "distinct (map fst (current_buckets rows))" "bucket_rows (current_buckets rows) = mset rows"
    using foldl_bucket_add[of "[]" rows] by (simp_all only: current_buckets_def s) simp_all
qed

lemma bucket_pop_rows:
  "distinct (map fst bs) \<Longrightarrow> mset (bucket_of bs k) + bucket_rows (bucket_pop bs k) = bucket_rows bs"
proof (induction bs)
  case (Cons b bs)
  show ?case
  proof (cases "fst b = k")
    case True
    then have "map_of bs k = None" using Cons.prems by (auto simp: map_of_eq_None_iff)
    moreover have "bucket_pop bs k = bs"
      using True Cons.prems by (auto simp: bucket_pop_def image_iff intro!: filter_True)
    ultimately show ?thesis using True by (cases b) (simp add: bucket_of_def bucket_pop_def)
  next
    case False
    then show ?thesis using Cons by (cases b) (simp add: bucket_of_def bucket_pop_def ac_simps)
  qed
qed (simp add: bucket_of_def bucket_pop_def)

lemma bucket_pop_distinct: "distinct (map fst bs) \<Longrightarrow> distinct (map fst (bucket_pop bs k))"
  unfolding bucket_pop_def by (rule distinct_map_filter)

section \<open>Every held pair is kept or closed\<close>

definition kept_ids :: "keep_row list \<Rightarrow> int multiset" where
  "kept_ids rows = mset (concat (map kr_kept_ids rows))"

definition delta_ids :: "delta_state \<Rightarrow> int multiset" where
  "delta_ids st = kept_ids (dl_keep st) + mset (map item_sid (dl_close st))
     + image_mset cr_strategy_id (bucket_rows (dl_buckets st))"

definition delta_ok :: "delta_state \<Rightarrow> bool" where
  "delta_ok st \<longleftrightarrow> distinct (map fst (dl_buckets st)) \<and> (\<forall>r \<in># bucket_rows (dl_buckets st). 0 < row_size r)"

lemma close_items_ids:
  "(\<And>r. r \<in> set rows \<Longrightarrow> 0 < row_size r) \<Longrightarrow> map item_sid (close_items reason rows) = map cr_strategy_id rows"
  unfolding close_items_def by (induction rows) (auto simp: close_item_of_def)

lemma delta_step_cases:
  obtains (skip) "delta_step u st t = st"
  | (work) keep close s where
      "pick_keep_subset_for_row (bucket_of (dl_buckets st) (tr_row_id t)) (pos_part (tr_notional t)) = (keep, close, s)"
      "dl_buckets (delta_step u st t) = bucket_pop (dl_buckets st) (tr_row_id t)"
      "dl_close (delta_step u st t) = dl_close st @ close_items ''excess_over_target_same_row'' close"
      "dl_keep (delta_step u st t) = dl_keep st @ [keep_row_of t (pos_part (tr_notional t)) keep s]"
proof (cases "tr_row_id t = [] \<or> pos_part (tr_notional t) \<le> 0")
  case True
  then show ?thesis by (intro skip) (simp add: delta_step_def)
next
  case False
  define target where "target = pos_part (tr_notional t)"
  obtain keep close s where p: "pick_keep_subset_for_row (bucket_of (dl_buckets st) (tr_row_id t)) target = (keep, close, s)"
    by (metis prod.exhaust)
  with False show ?thesis
    unfolding target_def[symmetric] by (intro work[unfolded target_def[symmetric], OF p])
      (simp_all add: delta_step_def target_def[symmetric] Let_def)
qed

lemma delta_step_ids:
  assumes "delta_ok st"
  shows "delta_ok (delta_step top_up st t)" "delta_ids (delta_step top_up st t) = delta_ids st"
proof -
  let ?b = "bucket_of (dl_buckets st) (tr_row_id t)" and ?rest = "bucket_pop (dl_buckets st) (tr_row_id t)"
  have "delta_ok (delta_step top_up st t) \<and> delta_ids (delta_step top_up st t) = delta_ids st"
  proof (cases rule: delta_step_cases[of top_up st t])
  case skip
  with assms show ?thesis by simp
  next
  case (work keep close s)
  note p = work(1)
  have part: "mset keep + mset close = mset ?b"
    using pick_keep_splits[of ?b "pos_part (tr_notional t)"] p by simp
  have split: "mset ?b + bucket_rows ?rest = bucket_rows (dl_buckets st)"
    using assms by (intro bucket_pop_rows) (simp add: delta_ok_def)
  have pos: "\<forall>r \<in># mset keep + mset close + bucket_rows ?rest. 0 < row_size r"
    using assms part split by (simp add: delta_ok_def)
  then have ids: "map item_sid (close_items c close) = map cr_strategy_id close" for c
    by (intro close_items_ids) auto
  have ok: "delta_ok (delta_step top_up st t)"
    using assms pos work by (auto simp: delta_ok_def bucket_pop_distinct)
  have "image_mset cr_strategy_id (bucket_rows (dl_buckets st))
    = mset (map cr_strategy_id keep) + mset (map cr_strategy_id close) + image_mset cr_strategy_id (bucket_rows ?rest)"
    unfolding split[symmetric] part[symmetric] by simp
  then have "delta_ids (delta_step top_up st t) = delta_ids st"
    using work ids by (simp add: delta_ids_def kept_ids_def keep_row_of_def ac_simps)
  with ok show ?thesis ..
  qed
  then show "delta_ok (delta_step top_up st t)" "delta_ids (delta_step top_up st t) = delta_ids st" by blast+
qed

lemma delta_loop_ids:
  "delta_ok st \<Longrightarrow> delta_ok (foldl (delta_step u) st ts) \<and> delta_ids (foldl (delta_step u) st ts) = delta_ids st"
  by (induction ts arbitrary: st) (simp_all add: delta_step_ids)

lemma left_over_ids:
  "\<forall>r \<in># bucket_rows bs. 0 < row_size r \<Longrightarrow>
   mset (map item_sid (concat (map (\<lambda>b. close_items c (snd b)) bs))) = image_mset cr_strategy_id (bucket_rows bs)"
proof (induction bs)
  case (Cons b bs)
  have "map item_sid (close_items c (snd b)) = map cr_strategy_id (snd b)"
    using Cons.prems by (intro close_items_ids) auto
  then have "mset (map item_sid (close_items c (snd b))) = image_mset cr_strategy_id (mset (snd b))"
    by (simp del: mset_map add: mset_map[symmetric])
  with Cons show ?case by simp
qed simp

text \<open>
  The rebalance plan accounts for every held pair exactly once. When every held pair has
  a positive notional, the strategies named as kept and the strategies in the close plan
  together are exactly the strategies held (as multisets).
\<close>

theorem delta_plan_conserves_pairs:
  assumes "\<And>r. r \<in> set (cs_rows current) \<Longrightarrow> 0 < cr_notional r"
  shows "mset (concat (map kr_kept_ids (dp_keep (build_rebalance_delta_plan current target_rows cfg))))
       + mset (map item_sid (dp_close (build_rebalance_delta_plan current target_rows cfg)))
     = mset (map cr_strategy_id (cs_rows current))"
proof -
  let ?rows = "cs_rows current"
  let ?s0 = "\<lparr>dl_buckets = current_buckets ?rows, dl_keep = [], dl_open = [], dl_close = [],
        dl_gap_total = 0, dl_reasons = []\<rparr>"
  let ?st = "delta_loop cfg ?rows target_rows"
  have ok: "delta_ok ?s0"
    using assms by (simp add: delta_ok_def current_buckets_facts row_size_def)
  have "delta_ids ?s0 = mset (map cr_strategy_id ?rows)"
    by (simp add: delta_ids_def kept_ids_def current_buckets_facts)
  then have ids: "delta_ok ?st" "delta_ids ?st = mset (map cr_strategy_id ?rows)"
    using delta_loop_ids[OF ok] by (simp_all add: delta_loop_def)
  have "mset (map item_sid (delta_close_plan ?st))
    = mset (map item_sid (dl_close ?st)) + image_mset cr_strategy_id (bucket_rows (dl_buckets ?st))"
    using left_over_ids[of "dl_buckets ?st"] ids(1) by (simp add: delta_close_plan_def delta_ok_def)
  then show ?thesis
    using ids(2) by (simp add: build_rebalance_delta_plan_def Let_def delta_ids_def kept_ids_def ac_simps)
qed

theorem delta_plan_conserves_pairs_witness:
  "mset (concat (map kr_kept_ids (dp_keep (build_rebalance_delta_plan
       (\<lparr>cs_rows = [sample_current 4 ''a'' 300, sample_current 9 ''b'' 200], cs_pairs = 2, cs_notional = 500,
         cs_expected_pnl_day = 0, cs_unmatched = 0\<rparr>) [] default_cfg))))
     + mset (map item_sid (dp_close (build_rebalance_delta_plan
       (\<lparr>cs_rows = [sample_current 4 ''a'' 300, sample_current 9 ''b'' 200], cs_pairs = 2, cs_notional = 500,
         cs_expected_pnl_day = 0, cs_unmatched = 0\<rparr>) [] default_cfg))) = {#4, 9#}"
proof -
  let ?c = "\<lparr>cs_rows = [sample_current 4 ''a'' 300, sample_current 9 ''b'' 200], cs_pairs = 2, cs_notional = 500,
         cs_expected_pnl_day = 0, cs_unmatched = 0\<rparr>"
  have pos: "\<And>r. r \<in> set (cs_rows ?c) \<Longrightarrow> 0 < cr_notional r" by auto
  show ?thesis
    using delta_plan_conserves_pairs[where current = ?c and target_rows = "[]" and cfg = default_cfg, OF pos]
    by (simp del: mset_map)
qed

section \<open>The deadband\<close>

lemma item_weights_nonneg: "0 \<le> one_time_fee os cs" "0 \<le> operation_risk is"
  unfolding one_time_fee_def operation_risk_def
  by (intro add_nonneg_nonneg sum_list_nonneg_map; simp)+

lemma hold_days_bounds: "1 \<le> hold_days_for_cost is" "hold_days_for_cost is \<le> 14"
  by (simp_all add: hold_days_for_cost_def Let_def)

lemma switch_cost_bounds:
  "0 \<le> switch_cost os cs" "one_time_fee os cs / 14 \<le> switch_cost os cs"
proof -
  have h: "1 \<le> hold_days_for_cost (os @ cs)" "hold_days_for_cost (os @ cs) \<le> 14" by (rule hold_days_bounds)+
  have "one_time_fee os cs / 14 \<le> one_time_fee os cs / hold_days_for_cost (os @ cs)"
    using h item_weights_nonneg(1) by (intro divide_left_mono) auto
  then show "one_time_fee os cs / 14 \<le> switch_cost os cs"
    using item_weights_nonneg(2)[of "os @ cs"] by (simp add: switch_cost_def)
  then show "0 \<le> switch_cost os cs" using item_weights_nonneg(1)[of os cs] by linarith
qed

text \<open>
  A rebalance is signalled only when it pays: there is something to do, the projected
  income is at least the current income plus the required absolute advantage plus one
  fourteenth of the one-time fees of the whole switch.
\<close>

theorem delta_signal_pays:
  assumes "dp_raw_signal (build_rebalance_delta_plan current target_rows cfg)"
  shows "dp_open (build_rebalance_delta_plan current target_rows cfg) @ dp_close (build_rebalance_delta_plan current target_rows cfg) \<noteq> []
    \<and> cs_expected_pnl_day current + abs_required cfg
        + one_time_fee (dp_open (build_rebalance_delta_plan current target_rows cfg))
            (dp_close (build_rebalance_delta_plan current target_rows cfg)) / 14
      \<le> keep_expected (dp_keep (build_rebalance_delta_plan current target_rows cfg))
        + open_expected (dp_open (build_rebalance_delta_plan current target_rows cfg))"
  using assms switch_cost_bounds(2)[of "dp_open (build_rebalance_delta_plan current target_rows cfg)"
      "dp_close (build_rebalance_delta_plan current target_rows cfg)"]
  by (auto simp: build_rebalance_delta_plan_def Let_def)

definition sample_target :: "string \<Rightarrow> real \<Rightarrow> target_row" where
  "sample_target rid notional =
     \<lparr>tr_row_id = rid, tr_symbol = ''BTC/USDT:USDT'', tr_perp_ex = 1, tr_spot_ex = 2, tr_perp_name = None,
      tr_spot_name = None, tr_notional = notional, tr_e24 = 1, tr_confidence = 1, tr_capacity = 1, tr_score = 50,
      tr_expected_pnl_day = 0, tr_fee_pct = 0, tr_hold_days = 2, tr_leg_risk = 0\<rparr>"

definition empty_state :: current_state where
  "empty_state = \<lparr>cs_rows = [], cs_pairs = 0, cs_notional = 0, cs_expected_pnl_day = 0, cs_unmatched = 0\<rparr>"

lemma sample_plan:
  "dl_open (delta_loop default_cfg [] [sample_target ''a'' 1000]) = [open_item_of (sample_target ''a'' 1000) 1000 False]"
  "dl_keep (delta_loop default_cfg [] [sample_target ''a'' 1000]) = [keep_row_of (sample_target ''a'' 1000) 1000 [] 0]"
  "delta_close_plan (delta_loop default_cfg [] [sample_target ''a'' 1000]) = []"
  by (simp_all add: delta_loop_def delta_step_def current_buckets_def bucket_of_def bucket_pop_def min_top_up_def
      default_cfg_def pick_keep_subset_for_row_def delta_close_plan_def close_items_def sample_target_def Let_def)

theorem delta_signal_pays_witness:
  "dp_raw_signal (build_rebalance_delta_plan empty_state [sample_target ''a'' 1000] default_cfg)
   \<and> abs_required default_cfg \<le> open_expected (dp_open (build_rebalance_delta_plan empty_state [sample_target ''a'' 1000] default_cfg))"
proof -
  let ?p = "build_rebalance_delta_plan empty_state [sample_target ''a'' 1000] default_cfg"
  have d: "dp_open ?p = [open_item_of (sample_target ''a'' 1000) 1000 False]" "dp_close ?p = []"
    "dp_keep ?p = [keep_row_of (sample_target ''a'' 1000) 1000 [] 0]"
    using sample_plan by (simp_all add: build_rebalance_delta_plan_def empty_state_def Let_def)
  have s: "dp_raw_signal ?p"
    using sample_plan
    by (simp add: build_rebalance_delta_plan_def empty_state_def Let_def keep_expected_def keep_row_of_def
        open_expected_def open_item_of_def switch_cost_def one_time_fee_def operation_risk_def hold_days_for_cost_def
        meets_relative_def abs_required_def sample_target_def default_cfg_def)
  have "cs_expected_pnl_day empty_state = 0" by (simp add: empty_state_def)
  with delta_signal_pays[OF s, unfolded d] s show ?thesis
    unfolding d by (simp add: one_time_fee_def keep_expected_def keep_row_of_def open_item_of_def sample_target_def)
qed

end
