(* ===== verification/Machines.thy ===== *)
theory Machines
  imports Prelude
begin

text \<open>
  Interfaces shared by the stateful components: a machine is a step function over events
  with an invariant that its provider promises to keep. Clients get the invariant of every
  run from it. The components interpret these locales on their own step functions.
\<close>

locale machine =
  fixes init :: 's
    and step :: "'s \<Rightarrow> 'e \<Rightarrow> 's"
    and inv :: "'s \<Rightarrow> bool"
  assumes init_inv: "inv init"
    and step_inv: "inv s \<Longrightarrow> inv (step s e)"
begin

lemma run_inv: "inv s \<Longrightarrow> inv (foldl step s es)"
  by (induction es arbitrary: s) (auto intro: step_inv)

lemma reachable_inv: "inv (foldl step init es)"
  by (rule run_inv [OF init_inv])

lemma prefix_inv: "inv (foldl step init (take n es))"
  by (rule reachable_inv)

end

text \<open>
  A machine with a quantity that every event outside a given class leaves alone or lowers:
  the quantity at the end of a run is bounded by the one at its start.
\<close>

locale draining_machine = machine init step inv
  for init :: 's and step :: "'s \<Rightarrow> 'e \<Rightarrow> 's" and inv :: "'s \<Rightarrow> bool" +
  fixes quiet :: "'e \<Rightarrow> bool"
    and level :: "'s \<Rightarrow> nat"
  assumes quiet_level: "inv s \<Longrightarrow> quiet e \<Longrightarrow> level (step s e) \<le> level s"
begin

lemma quiet_run_level: "inv s \<Longrightarrow> (\<And>e. e \<in> set es \<Longrightarrow> quiet e) \<Longrightarrow> level (foldl step s es) \<le> level s"
proof (induction es arbitrary: s)
  case (Cons e es)
  have "level (foldl step (step s e) es) \<le> level (step s e)"
    using Cons.prems by (intro Cons.IH) (auto intro: step_inv)
  also have "\<dots> \<le> level s"
    using Cons.prems by (intro quiet_level) auto
  finally show ?case by simp
qed simp

end

end
