(* ===== verification/ConfirmRounds.thy ===== *)
theory ConfirmRounds
  imports RowTypes Machines
begin

text \<open>
  The two confirmation counters: a portfolio rebalance is executed only after the same plan
  has been signalled in several cycles (\<open>_apply_rebalance_confirm_rounds\<close>, one global entry),
  a pair switch only after the same path has been signalled several times
  (\<open>_apply_switch_confirm_rounds\<close>, one entry per strategy). Both forget after 30 minutes.
\<close>

section \<open>Rebalance confirmation\<close>

record confirm_state =
  cf_fingerprint :: string
  cf_count :: int
  cf_updated :: real

definition confirm_ttl :: real where
  "confirm_ttl = 30 * 60"

definition confirm_init :: confirm_state where
  "confirm_init = \<lparr>cf_fingerprint = '''', cf_count = 0, cf_updated = 0\<rparr>"

definition cleanup_rebalance_confirm_cache :: "real \<Rightarrow> confirm_state \<Rightarrow> confirm_state" where
  "cleanup_rebalance_confirm_cache now st =
     (if cf_updated st \<le> 0 then st
      else if now - cf_updated st > confirm_ttl then confirm_init else st)"

definition apply_rebalance_confirm_rounds ::
    "bool \<Rightarrow> string \<Rightarrow> int \<Rightarrow> real \<Rightarrow> confirm_state \<Rightarrow> (bool \<times> int) \<times> confirm_state" where
  "apply_rebalance_confirm_rounds raw_signal fingerprint rounds_required now st =
     (let st1 = cleanup_rebalance_confirm_cache now st;
          required = max 1 (if rounds_required = 0 then 1 else rounds_required)
      in if \<not> raw_signal \<or> fingerprint = []
         then ((False, 0), \<lparr>cf_fingerprint = '''', cf_count = 0, cf_updated = now\<rparr>)
         else
           let count = (if cf_fingerprint st1 = fingerprint then cf_count st1 + 1 else 1)
           in ((count \<ge> required, count), \<lparr>cf_fingerprint = fingerprint, cf_count = count, cf_updated = now\<rparr>))"

text \<open>
  The specification reads the history of the calls, newest first: how many calls in a row, up
  to the last one, signalled the same plan without a pause longer than the memory.
\<close>

record confirm_call =
  cc_now :: real
  cc_signal :: bool
  cc_fingerprint :: string

definition effective_call :: "confirm_call \<Rightarrow> bool" where
  "effective_call c \<longleftrightarrow> cc_signal c \<and> cc_fingerprint c \<noteq> []"

fun confirm_streak :: "confirm_call list \<Rightarrow> int" where
  "confirm_streak [] = 0"
| "confirm_streak [c] = (if effective_call c then 1 else 0)"
| "confirm_streak (c # c' # cs) =
     (if \<not> effective_call c then 0
      else if effective_call c' \<and> cc_fingerprint c' = cc_fingerprint c
              \<and> (cc_now c' \<le> 0 \<or> cc_now c - cc_now c' \<le> confirm_ttl)
      then confirm_streak (c' # cs) + 1 else 1)"

definition confirm_call_step :: "confirm_state \<times> confirm_call list \<Rightarrow> confirm_call \<Rightarrow> confirm_state \<times> confirm_call list" where
  "confirm_call_step s c =
     (snd (apply_rebalance_confirm_rounds (cc_signal c) (cc_fingerprint c) 1 (cc_now c) (fst s)), c # snd s)"

definition confirm_inv :: "confirm_state \<times> confirm_call list \<Rightarrow> bool" where
  "confirm_inv s \<longleftrightarrow>
     cf_count (fst s) = confirm_streak (snd s)
     \<and> (case snd s of
          [] \<Rightarrow> fst s = confirm_init
        | c # _ \<Rightarrow> cf_updated (fst s) = cc_now c
            \<and> cf_fingerprint (fst s) = (if effective_call c then cc_fingerprint c else ''''))"

lemma confirm_state_rounds:
  "snd (apply_rebalance_confirm_rounds raw fp k now st) = snd (apply_rebalance_confirm_rounds raw fp 1 now st)"
  "snd (fst (apply_rebalance_confirm_rounds raw fp k now st)) = cf_count (snd (apply_rebalance_confirm_rounds raw fp 1 now st))"
  "fst (fst (apply_rebalance_confirm_rounds raw fp k now st))
     \<longleftrightarrow> raw \<and> fp \<noteq> [] \<and> max 1 k \<le> cf_count (snd (apply_rebalance_confirm_rounds raw fp 1 now st))"
  by (auto simp: apply_rebalance_confirm_rounds_def Let_def)

lemma confirm_step_inv: "confirm_inv s \<Longrightarrow> confirm_inv (confirm_call_step s c)"
proof (cases "snd s")
  case Nil
  then show "confirm_inv s \<Longrightarrow> confirm_inv (confirm_call_step s c)"
    by (auto simp: confirm_inv_def confirm_call_step_def apply_rebalance_confirm_rounds_def
        cleanup_rebalance_confirm_cache_def confirm_init_def effective_call_def Let_def)
next
  case (Cons c' cs)
  assume inv: "confirm_inv s"
  let ?st = "fst s"
  have st: "cf_count ?st = confirm_streak (c' # cs)" "cf_updated ?st = cc_now c'"
    "cf_fingerprint ?st = (if effective_call c' then cc_fingerprint c' else '''')"
    using inv Cons by (auto simp: confirm_inv_def)
  show "confirm_inv (confirm_call_step s c)"
  proof (cases "effective_call c")
    case False
    then show ?thesis using Cons
      by (auto simp: confirm_inv_def confirm_call_step_def apply_rebalance_confirm_rounds_def effective_call_def Let_def)
  next
    case True
    let ?fresh = "cc_now c' \<le> 0 \<or> cc_now c - cc_now c' \<le> confirm_ttl"
    have clean: "cleanup_rebalance_confirm_cache (cc_now c) ?st = (if ?fresh then ?st else confirm_init)"
      using st(2) by (auto simp: cleanup_rebalance_confirm_cache_def)
    have "cc_fingerprint c \<noteq> []" "cc_signal c" using True by (auto simp: effective_call_def)
    then show ?thesis
      using Cons st(1,3) True clean
      by (auto simp: confirm_inv_def confirm_call_step_def apply_rebalance_confirm_rounds_def confirm_init_def Let_def)
  qed
qed

lemma confirm_init_inv: "confirm_inv (confirm_init, [])"
  by (simp add: confirm_inv_def confirm_init_def)

interpretation confirm: machine "(confirm_init, [])" confirm_call_step confirm_inv
  by unfold_locales (simp_all only: confirm_init_inv confirm_step_inv)

text \<open>The state after a history of calls, oldest first.\<close>

definition confirm_after :: "confirm_call list \<Rightarrow> confirm_state" where
  "confirm_after cs =
     foldl (\<lambda>st c. snd (apply_rebalance_confirm_rounds (cc_signal c) (cc_fingerprint c) 1 (cc_now c) st)) confirm_init cs"

lemma confirm_run: "foldl confirm_call_step (confirm_init, []) cs = (confirm_after cs, rev cs)"
proof -
  have "foldl confirm_call_step (st, h) cs
    = (foldl (\<lambda>st c. snd (apply_rebalance_confirm_rounds (cc_signal c) (cc_fingerprint c) 1 (cc_now c) st)) st cs, rev cs @ h)"
    for st h
    by (induction cs arbitrary: st h) (simp_all add: confirm_call_step_def)
  then show ?thesis by (simp add: confirm_after_def)
qed

text \<open>
  The rebalance confirmation is exact. After any history of calls, the next call
  confirms if and only if it and the calls right before it signalled the same plan, without
  a pause of more than 30 minutes, at least as often as required.
\<close>

theorem rebalance_confirm_exact:
  "fst (apply_rebalance_confirm_rounds raw fp required now (confirm_after cs))
   = (raw \<and> fp \<noteq> [] \<and> max 1 required \<le> confirm_streak (\<lparr>cc_now = now, cc_signal = raw, cc_fingerprint = fp\<rparr> # rev cs),
      confirm_streak (\<lparr>cc_now = now, cc_signal = raw, cc_fingerprint = fp\<rparr> # rev cs))"
proof -
  let ?c = "\<lparr>cc_now = now, cc_signal = raw, cc_fingerprint = fp\<rparr>"
  have "confirm_inv (confirm_call_step (confirm_after cs, rev cs) ?c)"
    using confirm.reachable_inv[of cs] confirm_run[of cs] by (simp add: confirm_step_inv)
  then have "cf_count (snd (apply_rebalance_confirm_rounds raw fp 1 now (confirm_after cs))) = confirm_streak (?c # rev cs)"
    by (simp add: confirm_inv_def confirm_call_step_def)
  then show ?thesis
    by (intro prod_eqI) (simp_all only: fst_conv snd_conv confirm_state_rounds(2,3))
qed

section \<open>Switch confirmation\<close>

record switch_entry =
  sw_current :: string
  sw_target :: "string option"
  sw_count :: int
  sw_updated :: real

type_synonym switch_cache = "int \<rightharpoonup> switch_entry"

definition cleanup_switch_confirm_cache :: "real \<Rightarrow> switch_cache \<Rightarrow> switch_cache" where
  "cleanup_switch_confirm_cache now cache =
     (\<lambda>sid. case cache sid of
        None \<Rightarrow> None
      | Some e \<Rightarrow> if now - sw_updated e > confirm_ttl then None else Some e)"

record switch_call =
  wc_sid :: int
  wc_current :: string
  wc_target :: "string option"
  wc_signal :: bool

definition apply_switch_confirm_rounds :: "switch_call \<Rightarrow> int \<Rightarrow> real \<Rightarrow> switch_cache \<Rightarrow> (bool \<times> int) \<times> switch_cache" where
  "apply_switch_confirm_rounds c rounds now cache =
     (let required = max 1 (if rounds = 0 then 1 else rounds);
          cache1 = cleanup_switch_confirm_cache now cache
      in if \<not> wc_signal c \<or> str_or_empty (wc_target c) = []
         then ((False, 0), cache1(wc_sid c \<mapsto>
                 \<lparr>sw_current = wc_current c, sw_target = wc_target c, sw_count = 0, sw_updated = now\<rparr>))
         else
           let (prev_current, prev_target, prev_count) =
                 (case cache1 (wc_sid c) of
                    None \<Rightarrow> ('''', '''', 0)
                  | Some e \<Rightarrow> (sw_current e, str_or_empty (sw_target e), sw_count e));
               same_path = (prev_current = wc_current c \<and> prev_target = str_or_empty (wc_target c));
               count = (if same_path then prev_count + 1 else 1)
           in ((count \<ge> required, count), cache1(wc_sid c \<mapsto>
                 \<lparr>sw_current = wc_current c, sw_target = wc_target c, sw_count = count, sw_updated = now\<rparr>)))"

text \<open>The calls for a strategy, newest first, that in a row signal the given path.\<close>

definition on_path :: "string \<Rightarrow> string \<Rightarrow> switch_call \<Rightarrow> bool" where
  "on_path current target c \<longleftrightarrow>
     wc_signal c \<and> target \<noteq> [] \<and> wc_current c = current \<and> str_or_empty (wc_target c) = target"

definition path_streak :: "int \<Rightarrow> string \<Rightarrow> string \<Rightarrow> switch_call list \<Rightarrow> nat" where
  "path_streak sid current target cs =
     length (takeWhile (on_path current target) (filter (\<lambda>c. wc_sid c = sid) cs))"

definition switch_step :: "switch_cache \<times> switch_call list \<Rightarrow> switch_call \<times> real \<Rightarrow> switch_cache \<times> switch_call list" where
  "switch_step s e = (snd (apply_switch_confirm_rounds (fst e) 1 (snd e) (fst s)), fst e # snd s)"

definition switch_inv :: "switch_cache \<times> switch_call list \<Rightarrow> bool" where
  "switch_inv s \<longleftrightarrow> (\<forall>sid e. fst s sid = Some e \<longrightarrow>
     sw_count e \<le> int (path_streak sid (sw_current e) (str_or_empty (sw_target e)) (snd s)))"

lemma cleanup_switch_sub: "cleanup_switch_confirm_cache now cache sid = Some e \<Longrightarrow> cache sid = Some e"
  by (auto simp: cleanup_switch_confirm_cache_def split: option.splits if_splits)

lemma path_streak_Cons:
  "path_streak sid cur tgt (c # cs) =
     (if wc_sid c \<noteq> sid then path_streak sid cur tgt cs
      else if on_path cur tgt c then Suc (path_streak sid cur tgt cs) else 0)"
  by (simp add: path_streak_def)

lemma switch_count:
  assumes "switch_inv (cache, h)"
  shows "snd (fst (apply_switch_confirm_rounds c k now cache))
    \<le> int (path_streak (wc_sid c) (wc_current c) (str_or_empty (wc_target c)) (c # h))"
proof (cases "wc_signal c \<and> str_or_empty (wc_target c) \<noteq> []")
  case False
  then show ?thesis by (auto simp: apply_switch_confirm_rounds_def Let_def)
next
  case True
  then have path: "on_path (wc_current c) (str_or_empty (wc_target c)) c" by (simp add: on_path_def)
  show ?thesis
  proof (cases "cleanup_switch_confirm_cache now cache (wc_sid c)")
    case None
    with True path show ?thesis by (auto simp: apply_switch_confirm_rounds_def Let_def path_streak_Cons)
  next
    case (Some e)
    then have "sw_count e \<le> int (path_streak (wc_sid c) (sw_current e) (str_or_empty (sw_target e)) h)"
      using assms cleanup_switch_sub by (auto simp: switch_inv_def)
    with True path Some show ?thesis
      by (auto simp: apply_switch_confirm_rounds_def Let_def path_streak_Cons)
  qed
qed

lemma switch_cache_after:
  "snd (apply_switch_confirm_rounds c k now cache) =
     (cleanup_switch_confirm_cache now cache)(wc_sid c \<mapsto>
        \<lparr>sw_current = wc_current c, sw_target = wc_target c,
         sw_count = snd (fst (apply_switch_confirm_rounds c k now cache)), sw_updated = now\<rparr>)"
  by (simp add: apply_switch_confirm_rounds_def Let_def split: prod.split)

lemma switch_step_inv: "switch_inv s \<Longrightarrow> switch_inv (switch_step s e)"
proof -
  assume inv: "switch_inv s"
  obtain cache h where s: "s = (cache, h)" by (cases s)
  obtain c now where e: "e = (c, now)" by (cases e)
  show ?thesis
    unfolding switch_inv_def
  proof (intro allI impI)
    fix sid x assume x: "fst (switch_step s e) sid = Some x"
    show "sw_count x \<le> int (path_streak sid (sw_current x) (str_or_empty (sw_target x)) (snd (switch_step s e)))"
    proof (cases "sid = wc_sid c")
      case True
      then show ?thesis
        using x switch_count[of cache h c 1 now] inv
        by (auto simp: switch_step_def s e switch_cache_after)
    next
      case False
      then have "cache sid = Some x"
        using x cleanup_switch_sub by (simp add: switch_step_def s e switch_cache_after)
      with inv False show ?thesis by (auto simp: switch_inv_def s e switch_step_def path_streak_Cons)
    qed
  qed
qed

lemma switch_init_inv: "switch_inv (Map.empty, [])"
  by (simp add: switch_inv_def)

interpretation switch: machine "(Map.empty, [])" switch_step switch_inv
  by unfold_locales (simp_all only: switch_init_inv switch_step_inv)

definition switch_after :: "(switch_call \<times> real) list \<Rightarrow> switch_cache" where
  "switch_after es = foldl (\<lambda>cache e. snd (apply_switch_confirm_rounds (fst e) 1 (snd e) cache)) Map.empty es"

lemma switch_run: "foldl switch_step (Map.empty, []) es = (switch_after es, rev (map fst es))"
proof -
  have "foldl switch_step (cache, h) es
    = (foldl (\<lambda>cache e. snd (apply_switch_confirm_rounds (fst e) 1 (snd e) cache)) cache es, rev (map fst es) @ h)"
    for cache h
    by (induction es arbitrary: cache h) (simp_all add: switch_step_def)
  then show ?thesis by (simp add: switch_after_def)
qed

text \<open>
  A switch is never confirmed early. Whatever happened to this and to other strategies
  before, a confirmed call is at least the required-th in an uninterrupted row of calls for
  its strategy that signal the same current row and the same target row.
\<close>

theorem switch_confirm_needs_streak:
  assumes "fst (fst (apply_switch_confirm_rounds c rounds now (switch_after es)))"
  shows "max 1 rounds \<le> int (path_streak (wc_sid c) (wc_current c) (str_or_empty (wc_target c)) (c # rev (map fst es)))"
proof -
  have "switch_inv (switch_after es, rev (map fst es))"
    using switch.reachable_inv[of es] by (simp add: switch_run)
  note le = switch_count[OF this, of c rounds now]
  have "max 1 rounds \<le> snd (fst (apply_switch_confirm_rounds c rounds now (switch_after es)))"
    using assms by (auto simp: apply_switch_confirm_rounds_def Let_def split: if_splits prod.splits)
  with le show ?thesis by linarith
qed

definition sample_call :: switch_call where
  "sample_call = \<lparr>wc_sid = 4, wc_current = ''a'', wc_target = Some ''b'', wc_signal = True\<rparr>"

theorem switch_confirm_needs_streak_witness:
  "fst (fst (apply_switch_confirm_rounds sample_call 2 20 (switch_after [(sample_call, 10)])))
   \<and> 2 \<le> int (path_streak 4 ''a'' ''b'' [sample_call, sample_call])"
proof -
  have "fst (fst (apply_switch_confirm_rounds sample_call 2 20 (switch_after [(sample_call, 10)])))"
    by (simp add: sample_call_def switch_after_def apply_switch_confirm_rounds_def cleanup_switch_confirm_cache_def
        confirm_ttl_def Let_def)
  from switch_confirm_needs_streak[OF this] this show ?thesis by (simp add: sample_call_def)
qed

end
