(* ===== verification/Database.thy ===== *)
theory Database
  imports RowTypes
begin

text \<open>
  The ORM rows the engine reads and writes (\<open>models/database/base.py\<close>) and the SQLAlchemy
  session they live in. A session holds the objects as the program sees them, the rows the
  SQL connection sees (the last flush), and the rows of the last commit, to which
  \<open>rollback\<close> returns. A query filters on the SQL rows and hands out the objects: with
  \<open>autoflush\<close> off, as \<open>SessionLocal\<close> is configured, pending attribute changes are not seen
  by the filters of later queries. A row is created with the next free id. Times are UTC
  seconds.
\<close>

record exchange_row =
  ex_id :: int
  ex_name :: string
  ex_display_name :: "string option"
  ex_is_unified :: "bool option"

record strategy_row =
  st_id :: int
  st_type :: "string option"
  st_symbol :: "string option"
  st_long_ex :: "int option"
  st_short_ex :: "int option"
  st_initial_margin :: fopt
  st_status :: "string option"
  st_close_reason :: string
  st_entry_e24 :: fopt
  st_entry_open_fee :: fopt
  st_entry_spot_base :: fopt
  st_entry_perp_base :: fopt
  st_entry_delta_base :: fopt
  st_closed_at :: fopt

record position_row =
  ps_id :: int
  ps_strategy_id :: "int option"
  ps_exchange_id :: "int option"
  ps_symbol :: "string option"
  ps_side :: "string option"
  ps_type :: "string option"
  ps_size :: fopt
  ps_entry_price :: fopt
  ps_current_price :: fopt
  ps_unrealized :: fopt
  ps_status :: "string option"
  ps_closed_at :: fopt

record trade_log =
  tl_strategy_id :: int
  tl_position_id :: "int option"
  tl_action :: string
  tl_exchange :: string
  tl_symbol :: "string option"
  tl_side :: string
  tl_price :: fopt
  tl_size :: fopt
  tl_reason :: string

record tables =
  tb_strategies :: "strategy_row list"
  tb_positions :: "position_row list"
  tb_logs :: "trade_log list"

record session =
  se_autoflush :: bool
  se_exchanges :: "exchange_row list"
  se_committed :: tables
  se_db :: tables
  se_obj :: tables

text \<open>A session opened on the given tables; \<open>SessionLocal()\<close> has \<open>autoflush=False\<close>.\<close>

definition open_session :: "bool \<Rightarrow> exchange_row list \<Rightarrow> tables \<Rightarrow> session" where
  "open_session af exs t =
     \<lparr>se_autoflush = af, se_exchanges = exs, se_committed = t, se_db = t, se_obj = t\<rparr>"

definition session_local_autoflush :: bool where
  "session_local_autoflush = False"

definition db_flush :: "session \<Rightarrow> session" where
  "db_flush s = s\<lparr>se_db := se_obj s\<rparr>"

definition db_commit :: "session \<Rightarrow> session" where
  "db_commit s = s\<lparr>se_db := se_obj s, se_committed := se_obj s\<rparr>"

definition db_rollback :: "session \<Rightarrow> session" where
  "db_rollback s = s\<lparr>se_db := se_committed s, se_obj := se_committed s\<rparr>"

text \<open>What the filters of the next query see.\<close>

definition sql_view :: "session \<Rightarrow> tables" where
  "sql_view s = (if se_autoflush s then se_obj s else se_db s)"

definition obj_position :: "session \<Rightarrow> position_row \<Rightarrow> position_row" where
  "obj_position s row = (case first_where (\<lambda>p. ps_id p = ps_id row) (tb_positions (se_obj s)) of
     Some p \<Rightarrow> p | None \<Rightarrow> row)"

definition obj_strategy :: "session \<Rightarrow> strategy_row \<Rightarrow> strategy_row" where
  "obj_strategy s row = (case first_where (\<lambda>p. st_id p = st_id row) (tb_strategies (se_obj s)) of
     Some p \<Rightarrow> p | None \<Rightarrow> row)"

definition query_positions :: "(position_row \<Rightarrow> bool) \<Rightarrow> session \<Rightarrow> position_row list" where
  "query_positions P s = map (obj_position s) (filter P (tb_positions (sql_view s)))"

definition count_positions :: "(position_row \<Rightarrow> bool) \<Rightarrow> session \<Rightarrow> nat" where
  "count_positions P s = length (filter P (tb_positions (sql_view s)))"

definition query_strategy :: "int \<Rightarrow> session \<Rightarrow> strategy_row option" where
  "query_strategy sid s =
     map_option (obj_strategy s) (first_where (\<lambda>r. st_id r = sid) (tb_strategies (sql_view s)))"

definition query_exchange :: "int \<Rightarrow> session \<Rightarrow> exchange_row option" where
  "query_exchange eid s = first_where (\<lambda>e. ex_id e = eid) (se_exchanges s)"

text \<open>Attribute assignment on an object, \<open>db.add\<close>.\<close>

definition set_strategy :: "int \<Rightarrow> (strategy_row \<Rightarrow> strategy_row) \<Rightarrow> session \<Rightarrow> session" where
  "set_strategy sid f s =
     s\<lparr>se_obj := (se_obj s)\<lparr>tb_strategies :=
        map (\<lambda>r. if st_id r = sid then f r else r) (tb_strategies (se_obj s))\<rparr>\<rparr>"

definition set_position :: "int \<Rightarrow> (position_row \<Rightarrow> position_row) \<Rightarrow> session \<Rightarrow> session" where
  "set_position pid f s =
     s\<lparr>se_obj := (se_obj s)\<lparr>tb_positions :=
        map (\<lambda>r. if ps_id r = pid then f r else r) (tb_positions (se_obj s))\<rparr>\<rparr>"

definition add_strategy :: "strategy_row \<Rightarrow> session \<Rightarrow> session" where
  "add_strategy r s = s\<lparr>se_obj := (se_obj s)\<lparr>tb_strategies := tb_strategies (se_obj s) @ [r]\<rparr>\<rparr>"

definition add_position :: "position_row \<Rightarrow> session \<Rightarrow> session" where
  "add_position r s = s\<lparr>se_obj := (se_obj s)\<lparr>tb_positions := tb_positions (se_obj s) @ [r]\<rparr>\<rparr>"

definition add_log :: "trade_log \<Rightarrow> session \<Rightarrow> session" where
  "add_log r s = s\<lparr>se_obj := (se_obj s)\<lparr>tb_logs := tb_logs (se_obj s) @ [r]\<rparr>\<rparr>"

definition next_id :: "int list \<Rightarrow> int" where
  "next_id ids = foldr max ids 0 + 1"

definition next_strategy_id :: "session \<Rightarrow> int" where
  "next_strategy_id s = next_id (map st_id (tb_strategies (se_obj s)))"

definition next_position_id :: "session \<Rightarrow> int" where
  "next_position_id s = next_id (map ps_id (tb_positions (se_obj s)))"

text \<open>The filter \<open>Position.strategy_id == sid, Position.status == "open"\<close>.\<close>

definition is_open_of :: "int \<Rightarrow> position_row \<Rightarrow> bool" where
  "is_open_of sid p \<longleftrightarrow> ps_strategy_id p = Some sid \<and> ps_status p = Some ''open''"

definition open_positions_of :: "int \<Rightarrow> session \<Rightarrow> position_row list" where
  "open_positions_of sid s = query_positions (is_open_of sid) s"

section \<open>Laws of the session\<close>

named_theorems session_simps "what each session operation leaves of the others' views"

lemma db_commit_views [session_simps]:
  "se_obj (db_commit s) = se_obj s" "se_db (db_commit s) = se_obj s"
  "se_committed (db_commit s) = se_obj s" "se_autoflush (db_commit s) = se_autoflush s"
  "se_exchanges (db_commit s) = se_exchanges s" "sql_view (db_commit s) = se_obj s"
  by (simp_all add: db_commit_def sql_view_def)

lemma db_flush_views [session_simps]:
  "se_obj (db_flush s) = se_obj s" "se_db (db_flush s) = se_obj s"
  "se_committed (db_flush s) = se_committed s" "se_autoflush (db_flush s) = se_autoflush s"
  "se_exchanges (db_flush s) = se_exchanges s" "sql_view (db_flush s) = se_obj s"
  by (simp_all add: db_flush_def sql_view_def)

lemma db_rollback_views [session_simps]:
  "se_obj (db_rollback s) = se_committed s" "se_db (db_rollback s) = se_committed s"
  "se_committed (db_rollback s) = se_committed s" "se_autoflush (db_rollback s) = se_autoflush s"
  "se_exchanges (db_rollback s) = se_exchanges s" "sql_view (db_rollback s) = se_committed s"
  by (simp_all add: db_rollback_def sql_view_def)

lemma set_strategy_views [session_simps]:
  "tb_positions (se_obj (set_strategy sid f s)) = tb_positions (se_obj s)"
  "tb_logs (se_obj (set_strategy sid f s)) = tb_logs (se_obj s)"
  "se_db (set_strategy sid f s) = se_db s" "se_committed (set_strategy sid f s) = se_committed s"
  "se_autoflush (set_strategy sid f s) = se_autoflush s"
  "se_exchanges (set_strategy sid f s) = se_exchanges s"
  by (simp_all add: set_strategy_def)

lemma set_position_views [session_simps]:
  "tb_strategies (se_obj (set_position pid g s)) = tb_strategies (se_obj s)"
  "tb_logs (se_obj (set_position pid g s)) = tb_logs (se_obj s)"
  "tb_positions (se_obj (set_position pid g s))
     = map (\<lambda>r. if ps_id r = pid then g r else r) (tb_positions (se_obj s))"
  "se_db (set_position pid g s) = se_db s" "se_committed (set_position pid g s) = se_committed s"
  "se_autoflush (set_position pid g s) = se_autoflush s"
  "se_exchanges (set_position pid g s) = se_exchanges s"
  by (simp_all add: set_position_def)

lemma add_log_views [session_simps]:
  "tb_strategies (se_obj (add_log l s)) = tb_strategies (se_obj s)"
  "tb_positions (se_obj (add_log l s)) = tb_positions (se_obj s)"
  "tb_logs (se_obj (add_log l s)) = tb_logs (se_obj s) @ [l]"
  "se_db (add_log l s) = se_db s" "se_committed (add_log l s) = se_committed s"
  "se_autoflush (add_log l s) = se_autoflush s" "se_exchanges (add_log l s) = se_exchanges s"
  by (simp_all add: add_log_def)

lemma add_position_views [session_simps]:
  "tb_strategies (se_obj (add_position r s)) = tb_strategies (se_obj s)"
  "tb_positions (se_obj (add_position r s)) = tb_positions (se_obj s) @ [r]"
  "tb_logs (se_obj (add_position r s)) = tb_logs (se_obj s)"
  "se_db (add_position r s) = se_db s" "se_committed (add_position r s) = se_committed s"
  "se_autoflush (add_position r s) = se_autoflush s"
  "se_exchanges (add_position r s) = se_exchanges s"
  by (simp_all add: add_position_def)

lemma add_strategy_views [session_simps]:
  "tb_strategies (se_obj (add_strategy r s)) = tb_strategies (se_obj s) @ [r]"
  "tb_positions (se_obj (add_strategy r s)) = tb_positions (se_obj s)"
  "tb_logs (se_obj (add_strategy r s)) = tb_logs (se_obj s)"
  "se_db (add_strategy r s) = se_db s" "se_committed (add_strategy r s) = se_committed s"
  "se_autoflush (add_strategy r s) = se_autoflush s"
  "se_exchanges (add_strategy r s) = se_exchanges s"
  by (simp_all add: add_strategy_def)

text \<open>Ids identify rows; a new row gets a fresh id.\<close>

definition ids_ok :: "tables \<Rightarrow> bool" where
  "ids_ok t \<longleftrightarrow> distinct (map ps_id (tb_positions t)) \<and> distinct (map st_id (tb_strategies t))"

lemma next_id_fresh: "i \<in> set ids \<Longrightarrow> i < next_id ids"
proof -
  assume "i \<in> set ids"
  then have "i \<le> foldr max ids 0" by (induction ids) auto
  then show ?thesis by (simp add: next_id_def)
qed

lemma next_id_notin: "next_id ids \<notin> set ids"
  using next_id_fresh by blast

lemma next_position_id_notin: "next_position_id s \<notin> ps_id ` set (tb_positions (se_obj s))"
  using next_id_notin[of "map ps_id (tb_positions (se_obj s))"] by (simp add: next_position_id_def)

lemma next_strategy_id_notin: "next_strategy_id s \<notin> st_id ` set (tb_strategies (se_obj s))"
  using next_id_notin[of "map st_id (tb_strategies (se_obj s))"] by (simp add: next_strategy_id_def)

lemma first_where_id:
  "distinct (map k xs) \<Longrightarrow> x \<in> set xs \<Longrightarrow> first_where (\<lambda>y. k y = k x) xs = Some x"
proof (induction xs)
  case (Cons a xs)
  show ?case
  proof (cases "a = x")
    case False
    with Cons.prems have "k a \<noteq> k x" "x \<in> set xs" by auto
    with Cons show ?thesis by simp
  qed simp
qed simp

lemma obj_position_id:
  "distinct (map ps_id (tb_positions (se_obj s))) \<Longrightarrow> p \<in> set (tb_positions (se_obj s)) \<Longrightarrow>
   obj_position s p = p"
  by (simp add: obj_position_def first_where_id)

text \<open>
  When everything is flushed (right after a commit, or with autoflush on) a query returns
  the matching objects.
\<close>

lemma query_positions_flushed:
  assumes "ids_ok (se_obj s)" and "sql_view s = se_obj s"
  shows "query_positions P s = filter P (tb_positions (se_obj s))"
  using assms unfolding query_positions_def ids_ok_def
  by (auto intro!: map_idI simp: obj_position_id)

end
