(* ===== verification/SpotHedge.thy ===== *)
theory SpotHedge
  imports Database
begin

text \<open>
  \<open>strategies/spot_hedge\<close>: opening and closing a spot/perpetual pair. The exchange wrappers
  the strategy calls are the fields of a \<open>venue\<close>, each threading the state \<open>'w\<close> of the
  outside world; they answer \<open>None\<close> where the wrapper returns \<open>None\<close> (they catch their own
  exceptions). Log messages, the e-mail alert and the display name of the strategy are left
  out.
\<close>

record ticker =
  tk_last :: fopt
  tk_close :: fopt

record order =
  or_id :: "string option"
  or_status :: "string option"
  or_average :: fopt
  or_price :: fopt
  or_filled :: fopt
  or_amount :: fopt

record 'w venue =
  v_spot_ticker :: "'w \<Rightarrow> exchange_row \<Rightarrow> string \<Rightarrow> ticker option \<times> 'w"
  v_ticker :: "'w \<Rightarrow> exchange_row \<Rightarrow> string \<Rightarrow> ticker option \<times> 'w"
  v_place_hedge :: "'w \<Rightarrow> exchange_row \<Rightarrow> string \<Rightarrow> string \<Rightarrow> real \<Rightarrow> int \<Rightarrow> order option \<times> 'w"
  v_place_spot :: "'w \<Rightarrow> exchange_row \<Rightarrow> string \<Rightarrow> string \<Rightarrow> real \<Rightarrow> order option \<times> 'w"
  v_close_spot :: "'w \<Rightarrow> exchange_row \<Rightarrow> string option \<Rightarrow> fopt \<Rightarrow> order option \<times> 'w"
  v_close_hedge :: "'w \<Rightarrow> exchange_row \<Rightarrow> string option \<Rightarrow> string option \<Rightarrow> fopt \<Rightarrow> order option \<times> 'w"

text \<open>The rendering of a Python list of strings in an f-string.\<close>

definition repr_list :: "string list \<Rightarrow> string" where
  "repr_list xs = ''['' @ concat (map (\<lambda>(i, s). (if i = 0 then [] else '', '') @ CHR 0x27 # s @ [CHR 0x27])
     (zip [0 ..< length xs] xs)) @ '']''"

definition remaining_open_positions :: "int \<Rightarrow> session \<Rightarrow> nat" where
  "remaining_open_positions sid s = count_positions (is_open_of sid) s"

section \<open>Closing\<close>

text \<open>One position of the close loop: session, world and error list.\<close>

definition close_leg ::
    "'w venue \<Rightarrow> int \<Rightarrow> string \<Rightarrow> real \<Rightarrow> session \<times> 'w \<times> string list \<Rightarrow> position_row
      \<Rightarrow> session \<times> 'w \<times> string list" where
  "close_leg v sid reason now st pos =
     (case st of (s, w, errors) \<Rightarrow>
       case query_exchange (int_or_zero (ps_exchange_id pos)) s of
         None \<Rightarrow> (s, w, errors @ [''exchange#'' @ str_of_int (int_or_zero (ps_exchange_id pos)) @ '' missing''])
       | Some ex \<Rightarrow>
           let (result, w') =
                 (if ps_type pos = Some ''spot'' then v_close_spot v w ex (ps_symbol pos) (ps_size pos)
                  else v_close_hedge v w ex (ps_symbol pos) (ps_side pos) (ps_size pos))
           in case result of
                Some r \<Rightarrow>
                  let fill = py_or_num (or_average r) (py_or_num (or_price r) (ps_current_price pos));
                      s1 = set_position (ps_id pos)
                             (\<lambda>p. p\<lparr>ps_status := Some ''closed'', ps_closed_at := Some now\<rparr>) s;
                      s2 = add_log
                             \<lparr>tl_strategy_id = sid, tl_position_id = Some (ps_id pos), tl_action = ''close'',
                              tl_exchange = ex_name ex, tl_symbol = ps_symbol pos,
                              tl_side = (if ps_side pos = Some ''long'' then ''sell'' else ''buy''),
                              tl_price = fill, tl_size = ps_size pos, tl_reason = reason\<rparr> s1
                  in (s2, w', errors)
              | None \<Rightarrow> (s, w', errors @ [ex_name ex @ '' close failed'']))"

record close_result =
  cl_success :: bool
  cl_error :: "string option"
  cl_errors :: "string list"
  cl_remaining :: nat
  cl_status :: "string option"

text \<open>The end of \<open>close\<close>: the remaining open positions decide the status of the strategy.\<close>

definition close_finish :: "int \<Rightarrow> string \<Rightarrow> real \<Rightarrow> string list \<Rightarrow> session \<Rightarrow> close_result \<times> session" where
  "close_finish sid reason now errors s =
     (let remaining = remaining_open_positions sid s;
          s1 = (if remaining > 0 then
                  set_strategy sid
                    (\<lambda>r. r\<lparr>st_status := Some ''active'',
                           st_close_reason := (if errors \<noteq> [] then reason @ ''; close_failed='' @ repr_list errors else reason),
                           st_closed_at := None\<rparr>) s
                else
                  set_strategy sid
                    (\<lambda>r. r\<lparr>st_status := Some ''closed'',
                           st_close_reason := (if errors \<noteq> [] then reason @ ''; close_errors='' @ repr_list errors else reason),
                           st_closed_at := Some now\<rparr>) s)
      in (\<lparr>cl_success = (remaining = 0 \<and> errors = []), cl_error = None, cl_errors = errors,
           cl_remaining = remaining,
           cl_status = Some (if remaining > 0 then ''active'' else ''closed'')\<rparr>, db_commit s1))"

definition close_strategy ::
    "'w venue \<Rightarrow> int \<Rightarrow> string \<Rightarrow> real \<Rightarrow> session \<Rightarrow> 'w \<Rightarrow> close_result \<times> session \<times> 'w" where
  "close_strategy v sid reason now s w =
     (case query_strategy sid s of
        None \<Rightarrow> (\<lparr>cl_success = False, cl_error = Some ''Strategy not found'', cl_errors = [],
                 cl_remaining = 0, cl_status = None\<rparr>, s, w)
      | Some strategy \<Rightarrow>
          let s1 = db_commit (set_strategy sid (\<lambda>r. r\<lparr>st_status := Some ''closing''\<rparr>) s);
              (s2, w', errors) = foldl (close_leg v sid reason now) (s1, w, []) (open_positions_of sid s1);
              (r, s3) = close_finish sid reason now errors s2
          in (r, s3, w'))"

section \<open>Opening\<close>

record open_result =
  op_success :: bool
  op_strategy_id :: "int option"
  op_error :: "string option"
  op_errors :: "string list"

definition open_error :: "string \<Rightarrow> open_result" where
  "open_error e = \<lparr>op_success = False, op_strategy_id = None, op_error = Some e, op_errors = []\<rparr>"

text \<open>
  The middle of \<open>_handle_open_error\<close>: the leg that was opened alone is unwound. The position
  rows are named by their ids; the result carries the unwind failures.
\<close>

definition unwind_leg ::
    "'w venue \<Rightarrow> int \<Rightarrow> exchange_row \<Rightarrow> exchange_row \<Rightarrow> order option \<Rightarrow> order option
      \<Rightarrow> int \<Rightarrow> int \<Rightarrow> string \<Rightarrow> string \<Rightarrow> real \<Rightarrow> real \<Rightarrow> fopt \<Rightarrow> fopt \<Rightarrow> real
      \<Rightarrow> session \<Rightarrow> 'w \<Rightarrow> session \<times> 'w \<times> string list" where
  "unwind_leg v sid spot_ex perp_ex spot_order perp_order spot_pos perp_pos
       spot_symbol symbol spot_size perp_size spot_fill perp_fill now s w =
     (if spot_order \<noteq> None \<and> perp_order = None then
        let (unwind, w1) = v_close_spot v w spot_ex (Some spot_symbol) (Some spot_size)
        in case unwind of
             Some u \<Rightarrow>
               (add_log
                  \<lparr>tl_strategy_id = sid, tl_position_id = None, tl_action = ''emergency_close'',
                   tl_exchange = ex_name spot_ex, tl_symbol = Some spot_symbol, tl_side = ''sell'',
                   tl_price = py_or_num (or_average u) (py_or_num (or_price u) spot_fill),
                   tl_size = Some spot_size, tl_reason = ''emergency unwind: perp leg failed''\<rparr>
                  (set_position spot_pos (\<lambda>p. p\<lparr>ps_status := Some ''closed'', ps_closed_at := Some now\<rparr>) s),
                w1, [])
           | None \<Rightarrow>
               (set_position spot_pos (\<lambda>p. p\<lparr>ps_status := Some ''open'', ps_closed_at := None\<rparr>) s,
                w1, [''spot emergency unwind failed''])
      else if perp_order \<noteq> None \<and> spot_order = None then
        let (unwind, w1) = v_close_hedge v w perp_ex (Some symbol) (Some ''short'') (Some perp_size)
        in case unwind of
             Some u \<Rightarrow>
               (add_log
                  \<lparr>tl_strategy_id = sid, tl_position_id = None, tl_action = ''emergency_close'',
                   tl_exchange = ex_name perp_ex, tl_symbol = Some symbol, tl_side = ''buy'',
                   tl_price = py_or_num (or_average u) (py_or_num (or_price u) perp_fill),
                   tl_size = Some perp_size, tl_reason = ''emergency unwind: spot leg failed''\<rparr>
                  (set_position perp_pos (\<lambda>p. p\<lparr>ps_status := Some ''closed'', ps_closed_at := Some now\<rparr>) s),
                w1, [])
           | None \<Rightarrow>
               (set_position perp_pos (\<lambda>p. p\<lparr>ps_status := Some ''open'', ps_closed_at := None\<rparr>) s,
                w1, [''perp emergency unwind failed''])
      else (s, w, []))"

definition handle_open_error ::
    "'w venue \<Rightarrow> int \<Rightarrow> string list \<Rightarrow> exchange_row \<Rightarrow> exchange_row \<Rightarrow> order option \<Rightarrow> order option
      \<Rightarrow> int \<Rightarrow> int \<Rightarrow> string \<Rightarrow> string \<Rightarrow> real \<Rightarrow> real \<Rightarrow> fopt \<Rightarrow> fopt \<Rightarrow> real
      \<Rightarrow> session \<Rightarrow> 'w \<Rightarrow> session \<times> 'w" where
  "handle_open_error v sid errors spot_ex perp_ex spot_order perp_order spot_pos perp_pos
       spot_symbol symbol spot_size perp_size spot_fill perp_fill now s w =
     (let s0 = db_flush (set_strategy sid (\<lambda>r. r\<lparr>st_status := Some ''error''\<rparr>) s);
          s1 = (if spot_order = None then set_position spot_pos (\<lambda>p. p\<lparr>ps_status := Some ''error''\<rparr>) s0 else s0);
          s2 = (if perp_order = None then set_position perp_pos (\<lambda>p. p\<lparr>ps_status := Some ''error''\<rparr>) s1 else s1);
          (s4, w', failures) =
            unwind_leg v sid spot_ex perp_ex spot_order perp_order spot_pos perp_pos
              spot_symbol symbol spot_size perp_size spot_fill perp_fill now (db_commit s2) w;
          remaining = remaining_open_positions sid s4;
          close_reason = ''open failed: '' @ repr_list errors
            @ (if failures \<noteq> [] then ''; unwind failed: '' @ repr_list failures else []);
          s5 = set_strategy sid
                 (\<lambda>r. if remaining > 0
                      then r\<lparr>st_close_reason := close_reason, st_status := Some ''active'', st_closed_at := None\<rparr>
                      else r\<lparr>st_close_reason := close_reason, st_status := Some ''closed'', st_closed_at := Some now\<rparr>) s4
      in (db_commit s5, w'))"

definition truthy_price :: "ticker \<Rightarrow> real option" where
  "truthy_price t = (case py_or_num (tk_last t) (tk_close t) of
     Some x \<Rightarrow> if x \<noteq> 0 then Some x else None | None \<Rightarrow> None)"

definition hedge_position :: "int \<Rightarrow> int \<Rightarrow> int \<Rightarrow> string \<Rightarrow> string \<Rightarrow> string \<Rightarrow> real \<Rightarrow> fopt \<Rightarrow> bool \<Rightarrow> position_row" where
  "hedge_position pid sid eid symbol side typ qty fill filled =
     \<lparr>ps_id = pid, ps_strategy_id = Some sid, ps_exchange_id = Some eid, ps_symbol = Some symbol,
      ps_side = Some side, ps_type = Some typ, ps_size = Some qty, ps_entry_price = fill,
      ps_current_price = fill, ps_unrealized = Some 0,
      ps_status = Some (if filled then ''open'' else ''error''), ps_closed_at = None\<rparr>"

text \<open>The perpetual leg: place the short, record its position and log.\<close>

definition open_perp_leg ::
    "'w venue \<Rightarrow> exchange_row \<Rightarrow> string \<Rightarrow> int \<Rightarrow> int \<Rightarrow> real \<Rightarrow> real \<Rightarrow> int \<Rightarrow> session \<Rightarrow> 'w
      \<Rightarrow> order option \<times> fopt \<times> int \<times> session \<times> 'w" where
  "open_perp_leg v perp_ex symbol sid short_id perp_price perp_size lev s w =
     (let (perp_order, w') = v_place_hedge v w perp_ex symbol ''sell'' perp_size lev;
          perp_fill = (case perp_order of
            Some ord \<Rightarrow> py_or_num (or_average ord) (Some perp_price) | None \<Rightarrow> Some perp_price);
          pid = next_position_id s;
          s1 = add_position
            (hedge_position pid sid short_id symbol ''short'' ''swap'' perp_size perp_fill (perp_order \<noteq> None)) s;
          s2 = (if perp_order = None then s1 else add_log
            \<lparr>tl_strategy_id = sid, tl_position_id = None, tl_action = ''open'',
             tl_exchange = ex_name perp_ex, tl_symbol = Some symbol, tl_side = ''sell'',
             tl_price = perp_fill, tl_size = Some perp_size,
             tl_reason = ''spot_hedge open perp short''\<rparr> s1)
      in (perp_order, perp_fill, pid, s2, w'))"

text \<open>The spot leg is bought only when the short was placed.\<close>

definition open_spot_leg ::
    "'w venue \<Rightarrow> exchange_row \<Rightarrow> string \<Rightarrow> int \<Rightarrow> int \<Rightarrow> real \<Rightarrow> real \<Rightarrow> bool \<Rightarrow> session \<Rightarrow> 'w
      \<Rightarrow> order option \<times> fopt \<times> int \<times> session \<times> 'w" where
  "open_spot_leg v spot_ex spot_symbol sid long_id spot_price spot_size have_perp s w =
     (let (spot_order, w') =
            (if have_perp then v_place_spot v w spot_ex spot_symbol ''buy'' spot_size else (None, w));
          spot_fill = (case spot_order of
            Some ord \<Rightarrow> py_or_num (or_average ord) (Some spot_price) | None \<Rightarrow> Some spot_price);
          pid = next_position_id s;
          s1 = add_position
            (hedge_position pid sid long_id spot_symbol ''long'' ''spot'' spot_size spot_fill (spot_order \<noteq> None)) s;
          s2 = (if spot_order \<noteq> None then add_log
            \<lparr>tl_strategy_id = sid, tl_position_id = None, tl_action = ''open'',
             tl_exchange = ex_name spot_ex, tl_symbol = Some spot_symbol, tl_side = ''buy'',
             tl_price = spot_fill, tl_size = Some spot_size,
             tl_reason = ''spot_hedge open spot''\<rparr> s1 else s1)
      in (spot_order, spot_fill, pid, s2, w'))"

text \<open>Both legs and the error handling, once the prices are known.\<close>

definition open_pair ::
    "'w venue \<Rightarrow> exchange_row \<Rightarrow> exchange_row \<Rightarrow> string \<Rightarrow> string \<Rightarrow> int \<Rightarrow> int \<Rightarrow> real \<Rightarrow> real \<Rightarrow> real
      \<Rightarrow> fopt \<Rightarrow> fopt \<Rightarrow> real \<Rightarrow> real \<Rightarrow> real \<Rightarrow> session \<Rightarrow> 'w \<Rightarrow> open_result \<times> session \<times> 'w" where
  "open_pair v spot_ex perp_ex symbol spot_symbol long_id short_id size_usd spot_price perp_price
       entry_e24 entry_fee hedge_ratio leverage now s w =
     (let spot_size = size_usd / spot_price;
          perp_size = spot_size * pos_part (if hedge_ratio = 0 then 1 else hedge_ratio);
          lev = max 1 (py_trunc (if leverage = 0 then 1 else leverage));
          sid = next_strategy_id s;
          s1 = db_flush (add_strategy
            \<lparr>st_id = sid, st_type = Some ''spot_hedge'', st_symbol = Some symbol,
             st_long_ex = Some long_id, st_short_ex = Some short_id,
             st_initial_margin = Some size_usd, st_status = Some ''active'',
             st_close_reason = '''', st_entry_e24 = Some (to_float entry_e24 0),
             st_entry_open_fee = Some (pos_part (to_float entry_fee 0)),
             st_entry_spot_base = Some (pos_part spot_size),
             st_entry_perp_base = Some (pos_part perp_size),
             st_entry_delta_base = Some (py_round (pos_part spot_size - pos_part perp_size) 12),
             st_closed_at = None\<rparr> s);
          (perp_order, perp_fill, perp_pid, s2, w1) =
            open_perp_leg v perp_ex symbol sid short_id perp_price perp_size lev s1 w;
          (spot_order, spot_fill, spot_pid, s3, w2) =
            open_spot_leg v spot_ex spot_symbol sid long_id spot_price spot_size (perp_order \<noteq> None) s2 w1;
          errors = (if perp_order = None then [''perp short failed'']
                    else if spot_order = None then [''spot buy failed''] else []);
          (s4, w3) =
            (if errors \<noteq> [] then
               handle_open_error v sid errors spot_ex perp_ex spot_order perp_order
                 spot_pid perp_pid spot_symbol symbol spot_size perp_size spot_fill perp_fill now s3 w2
             else
               (db_commit (set_strategy sid
                  (\<lambda>r. r\<lparr>st_status := Some ''active'', st_close_reason := '''', st_closed_at := None\<rparr>) s3), w2))
      in (\<lparr>op_success = (errors = []), op_strategy_id = Some sid, op_error = None, op_errors = errors\<rparr>, s4, w3))"

definition open_strategy ::
    "'w venue \<Rightarrow> string \<Rightarrow> int \<Rightarrow> int \<Rightarrow> real \<Rightarrow> real \<Rightarrow> fopt \<Rightarrow> fopt \<Rightarrow> real \<Rightarrow> real
      \<Rightarrow> session \<Rightarrow> 'w \<Rightarrow> open_result \<times> session \<times> 'w" where
  "open_strategy v symbol long_id short_id size_usd leverage entry_e24 entry_fee hedge_ratio now s w =
     (case (query_exchange long_id s, query_exchange short_id s) of
        (Some spot_ex, Some perp_ex) \<Rightarrow>
          (let spot_symbol = (if CHR '':'' \<in> set symbol then split_head (CHR '':'') symbol else symbol);
               (tick, w1) = v_spot_ticker v w spot_ex spot_symbol
           in case tick of
                None \<Rightarrow> (open_error (''Cannot fetch spot ticker for '' @ spot_symbol), s, w1)
              | Some t \<Rightarrow>
                  let (ptick, w2) = v_ticker v w1 perp_ex symbol
                  in case ptick of
                       None \<Rightarrow> (open_error (''Cannot fetch perp ticker for '' @ symbol), s, w2)
                     | Some pt \<Rightarrow>
                         case (truthy_price t, truthy_price pt) of
                           (Some spot_price, Some perp_price) \<Rightarrow>
                             open_pair v spot_ex perp_ex symbol spot_symbol long_id short_id size_usd
                               spot_price perp_price entry_e24 entry_fee hedge_ratio leverage now s w2
                         | _ \<Rightarrow> (open_error ''Invalid spot/perp ticker price'', s, w2))
      | _ \<Rightarrow> (open_error ''Exchange not found'', s, w))"

section \<open>The close loop\<close>

lemma close_leg_frame [session_simps]:
  "se_db (fst (close_leg v sid reason now st pos)) = se_db (fst st)"
  "se_autoflush (fst (close_leg v sid reason now st pos)) = se_autoflush (fst st)"
  "se_exchanges (fst (close_leg v sid reason now st pos)) = se_exchanges (fst st)"
  "tb_strategies (se_obj (fst (close_leg v sid reason now st pos))) = tb_strategies (se_obj (fst st))"
  by (auto simp: close_leg_def Let_def session_simps split: prod.splits option.splits)

lemma close_loop_frame [session_simps]:
  "se_db (fst (foldl (close_leg v sid reason now) st ps)) = se_db (fst st)"
  "se_autoflush (fst (foldl (close_leg v sid reason now) st ps)) = se_autoflush (fst st)"
  "tb_strategies (se_obj (fst (foldl (close_leg v sid reason now) st ps))) = tb_strategies (se_obj (fst st))"
  by (rule foldl_frame, simp add: session_simps)+

text \<open>A leg either fails, and nothing is written, or its position row is closed.\<close>

definition closed_row :: "real \<Rightarrow> position_row \<Rightarrow> position_row" where
  "closed_row now p = p\<lparr>ps_status := Some ''closed'', ps_closed_at := Some now\<rparr>"

lemma closed_row_sels [simp]:
  "ps_id (closed_row now p) = ps_id p" "ps_size (closed_row now p) = ps_size p"
  "\<not> is_open_of sid (closed_row now p)"
  by (simp_all add: closed_row_def is_open_of_def)

lemma close_leg_cases:
  obtains (failed) e w' where "close_leg v sid reason now (s, w, errs) pos = (s, w', errs @ [e])"
  | (filled) s' w' where "close_leg v sid reason now (s, w, errs) pos = (s', w', errs)"
      "tb_positions (se_obj s')
         = map (\<lambda>r. if ps_id r = ps_id pos then closed_row now r else r) (tb_positions (se_obj s))"
proof (cases "query_exchange (int_or_zero (ps_exchange_id pos)) s")
  case None
  then show ?thesis by (intro failed) (simp add: close_leg_def)
next
  case (Some ex)
  obtain result w' where r: "(if ps_type pos = Some ''spot'' then v_close_spot v w ex (ps_symbol pos) (ps_size pos)
      else v_close_hedge v w ex (ps_symbol pos) (ps_side pos) (ps_size pos)) = (result, w')"
    by (metis prod.exhaust)
  show ?thesis
  proof (cases result)
    case None
    with Some r show ?thesis by (intro failed) (simp add: close_leg_def)
  next
    case (Some ord)
    define s' where "s' = fst (close_leg v sid reason now (s, w, errs) pos)"
    have "close_leg v sid reason now (s, w, errs) pos = (s', w', errs)"
      using Some \<open>query_exchange _ s = _\<close> r by (simp add: close_leg_def Let_def s'_def)
    moreover have "tb_positions (se_obj s')
         = map (\<lambda>r. if ps_id r = ps_id pos then closed_row now r else r) (tb_positions (se_obj s))"
      using Some \<open>query_exchange _ s = _\<close> r
      by (simp add: close_leg_def Let_def s'_def session_simps closed_row_def cong: map_cong)
    ultimately show ?thesis by (rule filled)
  qed
qed

lemma filter_close_row:
  assumes "distinct (map ps_id xs)" "p \<in> set xs" "is_open_of sid p"
  shows "Suc (length (filter (is_open_of sid) (map (\<lambda>r. if ps_id r = ps_id p then closed_row now r else r) xs)))
    = length (filter (is_open_of sid) xs)"
  using assms
proof (induction xs)
  case (Cons a xs)
  show ?case
  proof (cases "a = p")
    case True
    with Cons.prems have "map (\<lambda>r. if ps_id r = ps_id p then closed_row now r else r) xs = xs"
      by (intro map_update_other) auto
    then show ?thesis using True Cons.prems by simp
  next
    case False
    with Cons show ?thesis by auto
  qed
qed simp

lemma close_loop_count:
  assumes "distinct (map ps_id (tb_positions (se_obj s)))" "distinct (map ps_id ps)"
    and "\<And>p. p \<in> set ps \<Longrightarrow> p \<in> set (tb_positions (se_obj s)) \<and> is_open_of sid p"
    and "foldl (close_leg v sid reason now) (s, w, errs) ps = (s', w', errs')"
  shows "length (filter (is_open_of sid) (tb_positions (se_obj s'))) + length ps + length errs
    = length (filter (is_open_of sid) (tb_positions (se_obj s))) + length errs'"
  using assms
proof (induction ps arbitrary: s w errs)
  case (Cons p ps)
  show ?case
  proof (cases rule: close_leg_cases[of v sid reason now s w errs p])
    case (failed e w1)
    have "length (filter (is_open_of sid) (tb_positions (se_obj s'))) + length ps + length (errs @ [e])
      = length (filter (is_open_of sid) (tb_positions (se_obj s))) + length errs'"
      using Cons.prems failed by (intro Cons.IH) auto
    then show ?thesis by simp
  next
    case (filled s1 w1)
    have dist: "distinct (map ps_id (tb_positions (se_obj s1)))"
      using Cons.prems(1) by (simp add: filled(2) comp_def if_distrib cong: if_cong)
    have "length (filter (is_open_of sid) (tb_positions (se_obj s'))) + length ps + length errs
      = length (filter (is_open_of sid) (tb_positions (se_obj s1))) + length errs'"
    proof (rule Cons.IH[OF dist])
      fix q assume q: "q \<in> set ps"
      then have "ps_id q \<noteq> ps_id p" using Cons.prems(2) by (auto simp: image_iff)
      then show "q \<in> set (tb_positions (se_obj s1)) \<and> is_open_of sid q"
        using Cons.prems(3)[of q] q by (auto simp: filled(2) image_iff)
    qed (use Cons.prems filled in auto)
    then show ?thesis
      using filter_close_row[OF Cons.prems(1), of p sid now] Cons.prems(3)[of p]
      by (simp add: filled(2))
  qed
qed simp

lemma close_finish_facts:
  assumes "close_finish sid reason now errors s = (r, s')"
  shows "cl_remaining r = remaining_open_positions sid s" "cl_errors r = errors"
    "cl_success r \<longleftrightarrow> remaining_open_positions sid s = 0 \<and> errors = []"
    "cl_status r = Some (if remaining_open_positions sid s > 0 then ''active'' else ''closed'')"
    "tb_positions (se_obj s') = tb_positions (se_obj s)"
    "x \<in> set (tb_strategies (se_obj s')) \<Longrightarrow> st_id x = sid \<Longrightarrow>
       remaining_open_positions sid s = 0 \<Longrightarrow> st_status x = Some ''closed''"
proof -
  have r: "r = fst (close_finish sid reason now errors s)" and s': "s' = snd (close_finish sid reason now errors s)"
    using assms by simp_all
  show "cl_remaining r = remaining_open_positions sid s" "cl_errors r = errors"
    "cl_success r \<longleftrightarrow> remaining_open_positions sid s = 0 \<and> errors = []"
    "cl_status r = Some (if remaining_open_positions sid s > 0 then ''active'' else ''closed'')"
    "tb_positions (se_obj s') = tb_positions (se_obj s)"
    by (simp_all add: r s' close_finish_def Let_def session_simps)
  assume "remaining_open_positions sid s = 0"
  then have "tb_strategies (se_obj s') = map (\<lambda>r. if st_id r = sid then
      r\<lparr>st_status := Some ''closed'',
        st_close_reason := (if errors \<noteq> [] then reason @ ''; close_errors='' @ repr_list errors else reason),
        st_closed_at := Some now\<rparr> else r) (tb_strategies (se_obj s))"
    by (simp add: s' close_finish_def Let_def session_simps set_strategy_def)
  moreover assume "x \<in> set (tb_strategies (se_obj s'))" and sid: "st_id x = sid"
  ultimately have "x \<in> set (map (\<lambda>r. if st_id r = sid then
      r\<lparr>st_status := Some ''closed'',
        st_close_reason := (if errors \<noteq> [] then reason @ ''; close_errors='' @ repr_list errors else reason),
        st_closed_at := Some now\<rparr> else r) (tb_strategies (se_obj s)))"
    by (simp only:)
  from map_update_hit[OF this sid, simplified] obtain y where
    "x = y\<lparr>st_status := Some ''closed'',
        st_close_reason := (if errors \<noteq> [] then reason @ ''; close_errors='' @ repr_list errors else reason),
        st_closed_at := Some now\<rparr>" by auto
  then show "st_status x = Some ''closed''" by simp
qed

lemma close_strategy_unfold:
  assumes "query_strategy sid s = Some st"
    and "foldl (close_leg v sid reason now)
           (db_commit (set_strategy sid (\<lambda>r. r\<lparr>st_status := Some ''closing''\<rparr>) s), w, [])
           (open_positions_of sid (db_commit (set_strategy sid (\<lambda>r. r\<lparr>st_status := Some ''closing''\<rparr>) s)))
         = (s2, w', errors)"
    and "close_strategy v sid reason now s w = (r, s', w'')"
  shows "close_finish sid reason now errors s2 = (r, s')"
  using assms by (simp add: close_strategy_def Let_def split: prod.splits)

text \<open>
  With autoflush on, what remains open after the loop is exactly the legs that failed.
\<close>

lemma close_loop_remaining:
  assumes "ids_ok (se_obj s)" "sql_view s = se_obj s" "se_autoflush s"
    and "foldl (close_leg v sid reason now) (s, w, []) (open_positions_of sid s) = (s', w', errs)"
  shows "remaining_open_positions sid s' = length errs"
    "length (filter (is_open_of sid) (tb_positions (se_obj s'))) = length errs"
proof -
  let ?ps = "open_positions_of sid s"
  have ps: "?ps = filter (is_open_of sid) (tb_positions (se_obj s))"
    using assms(1,2) by (simp add: open_positions_of_def query_positions_flushed)
  have d: "distinct (map ps_id (tb_positions (se_obj s)))"
    using assms(1) by (simp add: ids_ok_def)
  have "length (filter (is_open_of sid) (tb_positions (se_obj s'))) + length ?ps + length ([] :: string list)
      = length (filter (is_open_of sid) (tb_positions (se_obj s))) + length errs"
    by (rule close_loop_count[OF d _ _ assms(4)]) (use d in \<open>auto simp: ps distinct_map_filter\<close>)
  then show n: "length (filter (is_open_of sid) (tb_positions (se_obj s'))) = length errs"
    by (simp add: ps)
  have "se_autoflush s'" using close_loop_frame(2)[of v sid reason now "(s, w, [])" ?ps] assms(3,4) by simp
  then show "remaining_open_positions sid s' = length errs"
    using n by (simp add: remaining_open_positions_def count_positions_def sql_view_def)
qed

section \<open>What an open leaves\<close>

definition is_open :: "position_row \<Rightarrow> bool" where
  "is_open p \<longleftrightarrow> ps_status p = Some ''open''"

lemma open_perp_leg_facts:
  assumes "open_perp_leg v ex sy sid eid price q lev s w = (ord, fill, pid, s', w')"
  shows "tb_positions (se_obj s') = tb_positions (se_obj s) @ [hedge_position pid sid eid sy ''short'' ''swap'' q fill (ord \<noteq> None)]"
    "pid = next_position_id s"
  using assms by (auto simp: open_perp_leg_def Let_def session_simps split: prod.splits if_splits)

lemma open_spot_leg_facts:
  assumes "open_spot_leg v ex sy sid eid price q hp s w = (ord, fill, pid, s', w')"
  shows "tb_positions (se_obj s') = tb_positions (se_obj s) @ [hedge_position pid sid eid sy ''long'' ''spot'' q fill (ord \<noteq> None)]"
    "pid = next_position_id s" "\<not> hp \<Longrightarrow> ord = None"
  using assms by (auto simp: open_spot_leg_def Let_def session_simps split: prod.splits if_splits)

lemma hedge_position_sels [simp]:
  "ps_id (hedge_position pid sid eid sy side typ q fill ok) = pid"
  "ps_size (hedge_position pid sid eid sy side typ q fill ok) = Some q"
  "ps_type (hedge_position pid sid eid sy side typ q fill ok) = Some typ"
  "ps_side (hedge_position pid sid eid sy side typ q fill ok) = Some side"
  "ps_strategy_id (hedge_position pid sid eid sy side typ q fill ok) = Some sid"
  "is_open (hedge_position pid sid eid sy side typ q fill ok) = ok"
  by (simp_all add: hedge_position_def is_open_def)

lemma unwind_leg_none:
  "perp_order = None \<Longrightarrow> spot_order = None \<Longrightarrow>
   unwind_leg v sid se pe spot_order perp_order sp pp ss sy sq pq sf pf now s w = (s, w, [])"
  by (simp add: unwind_leg_def)

lemma unwind_leg_perp:
  assumes "perp_order \<noteq> None" "spot_order = None" "fst (v_close_hedge v w pe (Some sy) (Some ''short'') (Some pq)) \<noteq> None"
  shows "tb_positions (se_obj (fst (unwind_leg v sid se pe spot_order perp_order sp pp ss sy sq pq sf pf now s w)))
    = map (\<lambda>r. if ps_id r = pp then closed_row now r else r) (tb_positions (se_obj s))"
  using assms by (auto simp: unwind_leg_def Let_def session_simps closed_row_def split: prod.splits cong: map_cong)

lemma handle_open_error_positions:
  "tb_positions (se_obj (fst (handle_open_error v sid errors se pe spot_order perp_order sp pp ss sy sq pq sf pf now s w)))
   = tb_positions (se_obj (fst (unwind_leg v sid se pe spot_order perp_order sp pp ss sy sq pq sf pf now
       (db_commit
         ((if perp_order = None then set_position pp (\<lambda>p. p\<lparr>ps_status := Some ''error''\<rparr>) else id)
           ((if spot_order = None then set_position sp (\<lambda>p. p\<lparr>ps_status := Some ''error''\<rparr>) else id)
             (db_flush (set_strategy sid (\<lambda>r. r\<lparr>st_status := Some ''error''\<rparr>) s))))) w)))"
  by (simp add: handle_open_error_def Let_def session_simps split: prod.splits)

definition error_row :: "position_row \<Rightarrow> position_row" where
  "error_row p = p\<lparr>ps_status := Some ''error''\<rparr>"

lemma error_row_sels [simp]: "ps_id (error_row p) = ps_id p" "\<not> is_open (error_row p)"
  by (simp_all add: error_row_def is_open_def)

lemma closed_row_not_open [simp]: "\<not> is_open (closed_row now p)"
  by (simp add: closed_row_def is_open_def)

lemma open_filter_update:
  assumes "k \<notin> ps_id ` set xs"
  shows "filter is_open (map (\<lambda>r. if ps_id r = k then g r else r) xs) = filter is_open xs"
  using map_update_other[OF assms, of g] by simp

text \<open>A failed open, with an unwind that is answered, leaves the open positions as they were.\<close>

lemma handle_open_error_open:
  assumes ids: "perp_pid \<notin> ps_id ` set ps" "spot_pid \<notin> ps_id ` set ps" "spot_pid \<noteq> perp_pid"
    and pos: "tb_positions (se_obj s) = ps @ [a, b]" "ps_id a = perp_pid" "ps_id b = spot_pid"
    and fail: "spot_order = None"
    and unwind: "\<And>w. fst (v_close_hedge v w pe (Some sy) (Some ''short'') (Some pq)) \<noteq> None"
  shows "filter is_open (tb_positions (se_obj (fst (handle_open_error v sid errors se pe spot_order perp_order
      spot_pid perp_pid ss sy sq pq sf pf now s w)))) = filter is_open ps"
proof (cases "perp_order = None")
  case True
  then show ?thesis
    using ids pos fail
    by (simp add: handle_open_error_positions unwind_leg_none session_simps
        error_row_def[symmetric] map_update_other cong: if_cong)
next
  case False
  then obtain ord where o: "perp_order = Some ord" by auto
  show ?thesis
    using ids pos fail
    by (simp add: handle_open_error_positions o unwind_leg_perp[OF _ refl unwind] session_simps
        error_row_def[symmetric] map_update_other cong: if_cong)
qed

section \<open>Properties\<close>

text \<open>
  Closing a strategy in a session that autoflushes. The close succeeds exactly when no
  leg reported an error; the remaining count is the number of failed legs; on success no
  position of the strategy is open any more and the strategy row is closed.
\<close>

theorem close_strategy_autoflush:
  assumes "se_autoflush s" and "ids_ok (se_obj s)" and "query_strategy sid s = Some st"
    and "close_strategy v sid reason now s w = (r, s', w')"
  shows "(cl_success r \<longleftrightarrow> cl_errors r = [])
    \<and> cl_remaining r = length (cl_errors r)
    \<and> (cl_success r \<longrightarrow>
         (\<forall>p \<in> set (tb_positions (se_obj s')). \<not> is_open_of sid p)
         \<and> (\<forall>x \<in> set (tb_strategies (se_obj s')). st_id x = sid \<longrightarrow> st_status x = Some ''closed''))"
proof -
  let ?s1 = "db_commit (set_strategy sid (\<lambda>r. r\<lparr>st_status := Some ''closing''\<rparr>) s)"
  obtain s2 w2 errors where l: "foldl (close_leg v sid reason now) (?s1, w, []) (open_positions_of sid ?s1) = (s2, w2, errors)"
    by (metis prod.exhaust)
  note u = close_finish_facts[OF close_strategy_unfold[OF assms(3) l assms(4)]]
  have ids: "ids_ok (se_obj ?s1)"
    using assms(2) unfolding ids_ok_def
    by (simp add: session_simps) (simp add: set_strategy_def comp_def if_distrib cong: if_cong)
  note rem = close_loop_remaining[OF ids _ _ l]
  have "remaining_open_positions sid s2 = length errors"
    "length (filter (is_open_of sid) (tb_positions (se_obj s2))) = length errors"
    using assms(1) by (intro rem; simp add: session_simps)+
  then show ?thesis
    using u by (auto simp: filter_empty_conv)
qed

lemma close_without_flush_fails:
  assumes "\<not> se_autoflush s" and "query_strategy sid s = Some st"
    and "\<exists>p \<in> set (tb_positions (se_obj s)). is_open_of sid p"
    and "close_strategy v sid reason now s w = (r, s', w')"
  shows "\<not> cl_success r \<and> cl_status r = Some ''active''"
proof -
  let ?s1 = "db_commit (set_strategy sid (\<lambda>r. r\<lparr>st_status := Some ''closing''\<rparr>) s)"
  obtain s2 w2 errors where l: "foldl (close_leg v sid reason now) (?s1, w, []) (open_positions_of sid ?s1) = (s2, w2, errors)"
    by (metis prod.exhaust)
  note u = close_finish_facts[OF close_strategy_unfold[OF assms(2) l assms(4)]]
  have "se_db s2 = se_obj ?s1" "\<not> se_autoflush s2"
    using close_loop_frame(1,2)[of v sid reason now "(?s1, w, [])" "open_positions_of sid ?s1"] l assms(1)
    by (simp_all add: session_simps)
  then have "remaining_open_positions sid s2 > 0"
    using assms(3)
    by (auto simp: remaining_open_positions_def count_positions_def sql_view_def session_simps filter_empty_conv)
  then show ?thesis using u by simp
qed

text \<open>
  C1: the production session (\<open>SessionLocal\<close>, \<open>autoflush=False\<close>) does not see the legs it
  has just closed: whenever the strategy had an open position, the close reports failure and
  leaves the strategy active, even when every order succeeded.
\<close>

theorem close_strategy_without_autoflush:
  assumes "\<not> se_autoflush s" and "query_strategy sid s = Some st"
    and "\<exists>p \<in> set (tb_positions (se_obj s)). is_open_of sid p"
    and "close_strategy v sid reason now s w = (r, s', w')"
  shows "\<not> cl_success r \<and> cl_status r = Some ''active''"
  using close_without_flush_fails[OF assms] .

definition sample_tables :: tables where
  "sample_tables =
     \<lparr>tb_strategies =
        [\<lparr>st_id = 7, st_type = Some ''spot_hedge'', st_symbol = Some ''BTC/USDT:USDT'',
          st_long_ex = Some 1, st_short_ex = Some 2, st_initial_margin = Some 100,
          st_status = Some ''active'', st_close_reason = [], st_entry_e24 = Some 0,
          st_entry_open_fee = Some 0, st_entry_spot_base = Some 1, st_entry_perp_base = Some 1,
          st_entry_delta_base = Some 0, st_closed_at = None\<rparr>],
      tb_positions =
        [\<lparr>ps_id = 1, ps_strategy_id = Some 7, ps_exchange_id = Some 1, ps_symbol = Some ''BTC/USDT'',
          ps_side = Some ''long'', ps_type = Some ''spot'', ps_size = Some 1, ps_entry_price = Some 100,
          ps_current_price = Some 100, ps_unrealized = Some 0, ps_status = Some ''open'', ps_closed_at = None\<rparr>],
      tb_logs = []\<rparr>"

definition sample_exchanges :: "exchange_row list" where
  "sample_exchanges =
     [\<lparr>ex_id = 1, ex_name = ''okx'', ex_display_name = None, ex_is_unified = None\<rparr>,
      \<lparr>ex_id = 2, ex_name = ''binance'', ex_display_name = None, ex_is_unified = Some False\<rparr>]"

definition sample_order :: order where
  "sample_order = \<lparr>or_id = Some ''1'', or_status = Some ''closed'', or_average = Some 100,
     or_price = None, or_filled = Some 1, or_amount = Some 1\<rparr>"

text \<open>A venue on which every order fills.\<close>

definition good_venue :: "nat venue" where
  "good_venue =
     \<lparr>v_spot_ticker = (\<lambda>w e s. (Some \<lparr>tk_last = Some 100, tk_close = None\<rparr>, w)),
      v_ticker = (\<lambda>w e s. (Some \<lparr>tk_last = Some 100, tk_close = None\<rparr>, w)),
      v_place_hedge = (\<lambda>w e s d q l. (Some sample_order, Suc w)),
      v_place_spot = (\<lambda>w e s d q. (Some sample_order, Suc w)),
      v_close_spot = (\<lambda>w e s q. (Some sample_order, Suc w)),
      v_close_hedge = (\<lambda>w e s d q. (Some sample_order, Suc w))\<rparr>"

lemmas sample_defs = sample_tables_def sample_exchanges_def sample_order_def good_venue_def open_session_def

lemma sample_strategy_found:
  "query_strategy 7 (open_session af sample_exchanges sample_tables) = Some (hd (tb_strategies sample_tables))"
  by (simp add: query_strategy_def sql_view_def obj_strategy_def sample_defs)

theorem close_strategy_autoflush_witness:
  "\<exists>r s' w'. close_strategy good_venue 7 ''manual'' 50
       (open_session True sample_exchanges sample_tables) 0 = (r, s', w')
     \<and> (cl_success r \<longleftrightarrow> cl_errors r = []) \<and> cl_remaining r = length (cl_errors r)"
proof -
  obtain r s' w' where c: "close_strategy good_venue 7 ''manual'' 50
       (open_session True sample_exchanges sample_tables) 0 = (r, s', w')" by (metis prod.exhaust)
  then show ?thesis
    using close_strategy_autoflush[OF _ _ sample_strategy_found c] by (auto simp: ids_ok_def sample_defs)
qed

theorem close_strategy_without_autoflush_witness:
  "\<exists>r s' w'. close_strategy good_venue 7 ''manual'' 50
       (open_session session_local_autoflush sample_exchanges sample_tables) 0 = (r, s', w')
     \<and> \<not> cl_success r \<and> cl_status r = Some ''active''"
proof -
  obtain r s' w' where c: "close_strategy good_venue 7 ''manual'' 50
       (open_session session_local_autoflush sample_exchanges sample_tables) 0 = (r, s', w')" by (metis prod.exhaust)
  then show ?thesis
    using close_strategy_without_autoflush[OF _ sample_strategy_found _ c]
    by (auto simp: session_local_autoflush_def is_open_of_def sample_defs)
qed

lemma open_pair_result:
  assumes "open_pair v se pe sy ss lid shid usd sp pp e24 fee ratio lev now s w = (r, s', w')"
    and unwind: "\<And>w q. fst (v_close_hedge v w pe (Some sy) (Some ''short'') (Some q)) \<noteq> None"
  shows "if op_success r
    then \<exists>a b. filter is_open (tb_positions (se_obj s')) = filter is_open (tb_positions (se_obj s)) @ [a, b]
           \<and> ps_type a = Some ''swap'' \<and> ps_side a = Some ''short''
           \<and> ps_size a = Some (usd / sp * pos_part (if ratio = 0 then 1 else ratio))
           \<and> ps_type b = Some ''spot'' \<and> ps_side b = Some ''long'' \<and> ps_size b = Some (usd / sp)
    else filter is_open (tb_positions (se_obj s')) = filter is_open (tb_positions (se_obj s))"
proof -
  let ?sid = "next_strategy_id s"
  define s1 where "s1 = db_flush (add_strategy
            \<lparr>st_id = ?sid, st_type = Some ''spot_hedge'', st_symbol = Some sy,
             st_long_ex = Some lid, st_short_ex = Some shid,
             st_initial_margin = Some usd, st_status = Some ''active'',
             st_close_reason = [], st_entry_e24 = Some (to_float e24 0),
             st_entry_open_fee = Some (pos_part (to_float fee 0)),
             st_entry_spot_base = Some (pos_part (usd / sp)),
             st_entry_perp_base = Some (pos_part (usd / sp * pos_part (if ratio = 0 then 1 else ratio))),
             st_entry_delta_base = Some (py_round (pos_part (usd / sp) - pos_part (usd / sp * pos_part (if ratio = 0 then 1 else ratio))) 12),
             st_closed_at = None\<rparr> s)"
  let ?q = "usd / sp * pos_part (if ratio = 0 then 1 else ratio)"
  let ?lev = "max 1 (py_trunc (if lev = 0 then 1 else lev))"
  obtain po pf ppid s2 w1 where p: "open_perp_leg v pe sy ?sid shid pp ?q ?lev s1 w = (po, pf, ppid, s2, w1)"
    by (metis prod.exhaust)
  obtain so sf spid s3 w2 where q: "open_spot_leg v se ss ?sid lid sp (usd / sp) (po \<noteq> None) s2 w1 = (so, sf, spid, s3, w2)"
    by (metis prod.exhaust)
  note pfacts = open_perp_leg_facts[OF p] and qfacts = open_spot_leg_facts[OF q]
  let ?a = "hedge_position ppid ?sid shid sy ''short'' ''swap'' ?q pf (po \<noteq> None)"
  let ?b = "hedge_position spid ?sid lid ss ''long'' ''spot'' (usd / sp) sf (so \<noteq> None)"
  let ?P = "tb_positions (se_obj s)"
  have base: "tb_positions (se_obj s1) = ?P" by (simp add: s1_def session_simps)
  have pos: "tb_positions (se_obj s3) = ?P @ [?a, ?b]" using pfacts qfacts base by simp
  have ids: "ppid \<notin> ps_id ` set ?P" "spid \<notin> ps_id ` set ?P" "spid \<noteq> ppid"
    using pfacts qfacts base next_position_id_notin[of s1] next_position_id_notin[of s2] by auto
  show ?thesis
  proof (cases "so = None")
    case True
    let ?errs = "if po = None then [''perp short failed''] else [''spot buy failed'']"
    have res: "op_success r = False" "s' = fst (handle_open_error v ?sid ?errs se pe so po spid ppid ss sy (usd / sp) ?q sf pf now s3 w2)"
      using assms(1) True p q unfolding open_pair_def Let_def s1_def[symmetric]
      by (auto split: prod.splits if_splits)
    show ?thesis
      using handle_open_error_open[OF ids pos _ _ True unwind] res by simp
  next
    case False
    then have "po \<noteq> None" using qfacts(3) by auto
    with False have res: "op_success r" "tb_positions (se_obj s') = tb_positions (se_obj s3)"
      using assms(1) p q unfolding open_pair_def Let_def s1_def[symmetric]
      by (auto simp: session_simps split: prod.splits if_splits)
    have "filter is_open (tb_positions (se_obj s')) = filter is_open ?P @ [?a, ?b]"
      using res pos False \<open>po \<noteq> None\<close> by simp
    with res(1) show ?thesis by (auto intro!: exI[of _ ?a] exI[of _ ?b])
  qed
qed

lemma open_strategy_legs:
  assumes "open_strategy v sy lid shid usd lev e24 fee ratio now s w = (r, s', w')"
    and "\<forall>w ex q. fst (v_close_hedge v w ex (Some sy) (Some ''short'') (Some q)) \<noteq> None"
  shows "if op_success r
    then \<exists>a b n. filter is_open (tb_positions (se_obj s')) = filter is_open (tb_positions (se_obj s)) @ [a, b]
           \<and> ps_type a = Some ''swap'' \<and> ps_side a = Some ''short''
           \<and> ps_size a = Some (n * pos_part (if ratio = 0 then 1 else ratio))
           \<and> ps_type b = Some ''spot'' \<and> ps_side b = Some ''long'' \<and> ps_size b = Some n
    else filter is_open (tb_positions (se_obj s')) = filter is_open (tb_positions (se_obj s))"
proof -
  have "(op_success r = False \<and> se_obj s' = se_obj s) \<or>
    (\<exists>se pe ss sp pp w1. open_pair v se pe sy ss lid shid usd sp pp e24 fee ratio lev now s w1 = (r, s', w'))"
    using assms(1) unfolding open_strategy_def Let_def open_error_def
    by (auto split: prod.splits option.splits)
  then show ?thesis
  proof (elim disjE exE)
    fix se pe ss sp pp w1
    assume "open_pair v se pe sy ss lid shid usd sp pp e24 fee ratio lev now s w1 = (r, s', w')"
    from open_pair_result[OF this] assms(2) show ?thesis by (auto split: if_splits)
  qed simp
qed



end
