(* ===== verification/Legs.thy ===== *)
theory Legs
  imports SpotHedge
begin

text \<open>
  The legs of an open strategy as the engine measures and adjusts them
  (\<open>profit_metrics.py\<close> and \<open>risk_reduce.py\<close> of \<open>core/spot_basis_auto_engine\<close>): sizes and
  prices from the position rows, the live short position from the exchange, the spread
  profit, the reduction of position rows after a partial order, and the base quantity an
  order has filled.
\<close>

section \<open>Reading the legs\<close>

definition lower_is :: "string option \<Rightarrow> string \<Rightarrow> bool" where
  "lower_is v s \<longleftrightarrow> py_lower (str_or_empty v) = s"

definition row_qty :: "position_row \<Rightarrow> real" where
  "row_qty p = pos_part (to_float (ps_size p) 0)"

definition row_price :: "position_row \<Rightarrow> real" where
  "row_price p = to_float (py_or_num (ps_current_price p) (ps_entry_price p)) 0"

definition estimate_spot_base_from_db :: "int \<Rightarrow> session \<Rightarrow> fopt \<times> string option" where
  "estimate_spot_base_from_db sid s =
     (if sid \<le> 0 then (None, Some ''invalid_strategy_id'')
      else
        let rows = query_positions (\<lambda>p. is_open_of sid p \<and> ps_type p = Some ''spot'') s
        in if rows = [] then (None, Some ''spot_position_missing'')
           else (Some (pos_part (sum_list (map row_qty (filter (\<lambda>p. \<not> row_qty p \<le> 0) rows)))), None))"

text \<open>
  What the exchange answers to a position read: no instance, an exception with its text, or
  the contract size of the market and the positions.
\<close>

record live_position =
  lv_symbol :: "string option"
  lv_side :: "string option"
  lv_contracts :: fopt

datatype perp_read = NoInstance | ReadError string | LivePositions fopt "live_position list"

definition live_qty :: "string \<Rightarrow> real \<Rightarrow> live_position \<Rightarrow> real" where
  "live_qty perp_symbol contract_size p =
     (if str_or_empty (lv_symbol p) \<noteq> perp_symbol then 0
      else if py_lower (str_or_empty (lv_side p)) \<notin> {''short'', ''sell''} then 0
      else
        let qty = to_float (lv_contracts p) 0 * max (1 / 10 ^ 9) contract_size;
            qty' = (if qty \<le> 0 then \<bar>to_float (lv_contracts p) 0\<bar> else qty)
        in pos_part qty')"

definition fetch_live_perp_short_base :: "(exchange_row \<Rightarrow> string \<Rightarrow> perp_read) \<Rightarrow> exchange_row option \<Rightarrow> string \<Rightarrow> fopt \<times> string option" where
  "fetch_live_perp_short_base read ex perp_symbol =
     (case ex of
        None \<Rightarrow> (None, Some ''invalid_perp_context'')
      | Some e \<Rightarrow>
          if perp_symbol = [] then (None, Some ''invalid_perp_context'')
          else (case read e perp_symbol of
              NoInstance \<Rightarrow> (None, Some ''perp_instance_missing'')
            | ReadError msg \<Rightarrow> (None, Some (''perp_fetch_error:'' @ msg))
            | LivePositions contract_size ps \<Rightarrow>
                (Some (pos_part (sum_list (map (live_qty perp_symbol (to_float contract_size 1)) ps))), None)))"

record leg_snapshot =
  lg_spot_rows :: "position_row list"
  lg_perp_rows :: "position_row list"
  lg_spot_size :: real
  lg_perp_size :: real
  lg_spot_price :: real
  lg_perp_price :: real

definition agg_size :: "position_row list \<Rightarrow> real" where
  "agg_size rows = sum_list (map row_qty (filter (\<lambda>p. \<not> row_qty p \<le> 0) rows))"

definition agg_notional :: "position_row list \<Rightarrow> real" where
  "agg_notional rows =
     sum_list (map (\<lambda>p. row_qty p * pos_part (row_price p)) (filter (\<lambda>p. \<not> row_qty p \<le> 0) rows))"

definition avg_price :: "position_row list \<Rightarrow> real" where
  "avg_price rows = (if agg_size rows > 0 then agg_notional rows / agg_size rows else 0)"

definition get_open_leg_snapshot :: "int \<Rightarrow> session \<Rightarrow> leg_snapshot" where
  "get_open_leg_snapshot sid s =
     (let rows = open_positions_of sid s;
          spot_rows = filter (\<lambda>p. lower_is (ps_type p) ''spot'') rows;
          perp_rows = filter (\<lambda>p. \<not> lower_is (ps_type p) ''spot'' \<and> lower_is (ps_side p) ''short'') rows
      in \<lparr>lg_spot_rows = spot_rows, lg_perp_rows = perp_rows,
          lg_spot_size = agg_size spot_rows, lg_perp_size = agg_size perp_rows,
          lg_spot_price = avg_price spot_rows, lg_perp_price = avg_price perp_rows\<rparr>)"

text \<open>Result: the percentage, the profit in USD, the pair notional, the error.\<close>

definition calc_spread_pnl_pct :: "strategy_row \<Rightarrow> position_row list \<Rightarrow> real \<Rightarrow> fopt \<times> usd \<times> usd \<times> string option" where
  "calc_spread_pnl_pct strategy positions fallback =
     (if positions = [] then (None, 0, 0, Some ''no_open_positions'')
      else
        let pnl = sum_list (map (\<lambda>p. to_float (ps_unrealized p) 0) positions);
            pair0 = max 0 (max fallback (to_float (st_initial_margin strategy) 0));
            leg = (\<lambda>P. sum_list (map (\<lambda>p. row_qty p * pos_part (row_price p)) (filter P positions)));
            spot_notional = leg (\<lambda>p. lower_is (ps_type p) ''spot'');
            perp_notional = leg (\<lambda>p. \<not> lower_is (ps_type p) ''spot'');
            pair = (if pair0 \<le> 0 then pos_part (min spot_notional perp_notional) else pair0)
        in if pair \<le> 0 then (None, pnl, 0, Some ''pair_notional_missing'')
           else (Some (pnl / max (1 / 10 ^ 9) pair * 100), pnl, pair, None))"

section \<open>Adjusting the legs\<close>

text \<open>The strategy row after its legs changed.\<close>

definition sync_strategy_after_leg_adjust :: "real \<Rightarrow> int \<Rightarrow> session \<Rightarrow> session" where
  "sync_strategy_after_leg_adjust now sid s =
     (let leg = get_open_leg_snapshot sid s;
          spot_notional = pos_part (lg_spot_price leg * lg_spot_size leg);
          perp_notional = pos_part (lg_perp_price leg * lg_perp_size leg);
          margin = py_round (pos_part (min spot_notional perp_notional)) 6;
          has_open = (lg_spot_rows leg \<noteq> [] \<or> lg_perp_rows leg \<noteq> [])
      in set_strategy sid
           (\<lambda>r. if has_open
                then r\<lparr>st_initial_margin := Some margin, st_status := Some ''active'', st_closed_at := None\<rparr>
                else r\<lparr>st_initial_margin := Some margin, st_status := Some ''closed'', st_closed_at := Some now\<rparr>) s)"

text \<open>What a reduction by \<open>dec\<close> makes of a position row.\<close>

definition reduced_row :: "real \<Rightarrow> real \<Rightarrow> position_row \<Rightarrow> position_row" where
  "reduced_row now dec p =
     (let size = pos_part (row_qty p - dec) in
      if size \<le> 1 / 10 ^ 10
      then p\<lparr>ps_size := Some 0, ps_status := Some ''closed'', ps_closed_at := Some now\<rparr>
      else p\<lparr>ps_size := Some size\<rparr>)"

fun reduce_loop :: "real \<Rightarrow> position_row list \<Rightarrow> real \<Rightarrow> (int \<times> real) list \<Rightarrow> session \<Rightarrow> (int \<times> real) list \<times> session" where
  "reduce_loop now [] left touched s = (touched, s)"
| "reduce_loop now (p # ps) left touched s =
     (if left \<le> 1 / 10 ^ 12 then (touched, s)
      else if row_qty p \<le> 0 then reduce_loop now ps left touched s
      else
        let dec = min (row_qty p) left
        in reduce_loop now ps (left - dec) (touched @ [(ps_id p, dec)])
             (set_position (ps_id p) (reduced_row now dec) s))"

definition apply_reduce_on_positions :: "real \<Rightarrow> position_row list \<Rightarrow> real \<Rightarrow> session \<Rightarrow> (int \<times> real) list \<times> session" where
  "apply_reduce_on_positions now positions reduce_base s =
     (if pos_part reduce_base \<le> 0 then ([], s)
      else reduce_loop now (sort_desc row_qty positions) (pos_part reduce_base) [] s)"

text \<open>
  \<open>_extract_order_filled_base\<close>. The contract size of the market is \<open>None\<close> where the exchange
  or its instance is missing or the read raises; \<open>Some None\<close> where the market has no contract size.
\<close>

definition fill_candidates :: "real \<Rightarrow> fopt option \<Rightarrow> real list" where
  "fill_candidates raw contract_size =
     (case contract_size of
        None \<Rightarrow> [raw]
      | Some cs \<Rightarrow> [raw, raw * max (1 / 10 ^ 9) (to_float cs 1)])"

definition nearest :: "real \<Rightarrow> real list \<Rightarrow> real" where
  "nearest req xs = foldl (\<lambda>m x. if \<bar>x - req\<bar> < \<bar>m - req\<bar> then x else m) (hd xs) (tl xs)"

definition extract_order_filled_base :: "fopt option \<Rightarrow> order option \<Rightarrow> real \<Rightarrow> bool \<Rightarrow> real" where
  "extract_order_filled_base contract_size ord requested is_spot =
     (let req = pos_part requested in
      if req \<le> 0 then 0
      else case ord of
        None \<Rightarrow> 0
      | Some ord \<Rightarrow>
          if lower_is (or_status ord) ''already_closed'' \<or> lower_is (or_id ord) ''virtual_already_closed'' then req
          else
            let filled = pos_part (to_float (or_filled ord) 0);
                amount = pos_part (to_float (or_amount ord) 0);
                raw = (if filled > 0 then filled else amount)
            in if raw \<le> 0 then 0
               else if is_spot then pos_part (min req raw)
               else pos_part (min req (nearest req (fill_candidates raw contract_size))))"

section \<open>Lemmas\<close>

lemma row_qty_nonneg [simp, money_simps]: "0 \<le> row_qty p"
  by (simp add: row_qty_def)

lemma agg_size_all: "agg_size rows = sum_list (map row_qty rows)"
proof (induction rows)
  case (Cons p rows)
  then show ?case using row_qty_nonneg[of p] by (auto simp: agg_size_def simp del: row_qty_nonneg)
qed (simp add: agg_size_def)

lemma agg_size_nonneg [simp, money_simps]: "0 \<le> agg_size rows"
  unfolding agg_size_all by (rule sum_list_nonneg_map) simp

lemma agg_notional_nonneg [simp, money_simps]: "0 \<le> agg_notional rows"
  unfolding agg_notional_def by (rule sum_list_nonneg_map) simp

lemma avg_price_nonneg [simp, money_simps]: "0 \<le> avg_price rows"
  by (simp add: avg_price_def)

lemma avg_price_size: "avg_price rows * agg_size rows = agg_notional rows \<or> agg_size rows = 0"
  using agg_size_nonneg[of rows] unfolding avg_price_def
  by (cases "agg_size rows = 0") (simp_all add: order_less_le)

lemma get_open_leg_snapshot_sels [simp]:
  "lg_spot_size (get_open_leg_snapshot sid s) = agg_size (lg_spot_rows (get_open_leg_snapshot sid s))"
  "lg_perp_size (get_open_leg_snapshot sid s) = agg_size (lg_perp_rows (get_open_leg_snapshot sid s))"
  "lg_spot_price (get_open_leg_snapshot sid s) = avg_price (lg_spot_rows (get_open_leg_snapshot sid s))"
  "lg_perp_price (get_open_leg_snapshot sid s) = avg_price (lg_perp_rows (get_open_leg_snapshot sid s))"
  by (simp_all add: get_open_leg_snapshot_def Let_def)

lemma nearest_in: "xs \<noteq> [] \<Longrightarrow> nearest req xs \<in> set xs"
proof -
  have "foldl (\<lambda>m x. if \<bar>x - req\<bar> < \<bar>m - req\<bar> then x else m) a ys \<in> set (a # ys)" for a ys
    by (induction ys arbitrary: a) auto
  then show "xs \<noteq> [] \<Longrightarrow> nearest req xs \<in> set xs" unfolding nearest_def by (cases xs) auto
qed


text \<open>The decrements of a reduction.\<close>

abbreviation dec_sum :: "(int \<times> real) list \<Rightarrow> real" where
  "dec_sum touched \<equiv> sum_list (map snd touched)"

lemma reduce_loop_touched:
  assumes "0 \<le> left"
  shows "dec_sum (fst (reduce_loop now ps left tc s)) \<le> dec_sum tc + min left (agg_size ps)
    \<and> dec_sum tc + min left (agg_size ps) - 1 / 10 ^ 12 \<le> dec_sum (fst (reduce_loop now ps left tc s))"
  using assms
proof (induction ps arbitrary: left tc s)
  case (Cons p ps)
  have cons: "agg_size (p # ps) = row_qty p + agg_size ps" by (simp add: agg_size_all)
  consider "left \<le> 1 / 10 ^ 12" | "\<not> left \<le> 1 / 10 ^ 12" "row_qty p \<le> 0" | "\<not> left \<le> 1 / 10 ^ 12" "0 < row_qty p"
    by linarith
  then show ?case
  proof cases
    case 1
    then show ?thesis using Cons.prems agg_size_nonneg[of "p # ps"] by (auto simp: min_def)
  next
    case 2
    then have "row_qty p = 0" by (intro antisym) auto
    with 2 Cons.IH[OF Cons.prems] show ?thesis unfolding cons by simp
  next
    case 3
    let ?d = "min (row_qty p) left"
    have "0 \<le> left - ?d" by simp
    note ih = Cons.IH[OF this, of "tc @ [(ps_id p, ?d)]" "set_position (ps_id p) (reduced_row now ?d) s"]
    have "min (left - ?d) (agg_size ps) + ?d = min left (agg_size (p # ps))"
      unfolding cons using agg_size_nonneg[of ps] by (auto simp: min_def simp del: agg_size_nonneg)
    with ih 3 show ?thesis by (simp add: Let_def)
  qed
qed (simp add: agg_size_all)

lemma sum_update_row:
  assumes "distinct (map ps_id xs)" "p \<in> set xs"
  shows "sum_list (map row_qty (map (\<lambda>r. if ps_id r = ps_id p then f r else r) xs))
    = sum_list (map row_qty xs) - row_qty p + row_qty (f p)"
  using assms
proof (induction xs)
  case (Cons x xs)
  show ?case
  proof (cases "x = p")
    case True
    with Cons.prems have "ps_id p \<notin> ps_id ` set xs" by auto
    then show ?thesis using True by (simp add: map_update_other)
  next
    case False
    with Cons.prems have "ps_id x \<noteq> ps_id p" "p \<in> set xs" by auto
    then show ?thesis using Cons by simp
  qed
qed simp

lemma reduced_row_sels [simp]:
  "ps_id (reduced_row now dec p) = ps_id p" "ps_strategy_id (reduced_row now dec p) = ps_strategy_id p"
  by (simp_all add: reduced_row_def Let_def)

lemma reduced_row_qty:
  assumes "0 \<le> dec" "dec \<le> row_qty p"
  shows "0 \<le> row_qty p - dec - row_qty (reduced_row now dec p)"
    "row_qty p - dec - row_qty (reduced_row now dec p) \<le> 1 / 10 ^ 10"
  using assms by (auto simp: reduced_row_def Let_def row_qty_def)

lemma reduce_loop_session:
  assumes "distinct (map ps_id (tb_positions (se_obj s)))" "distinct (map ps_id ps)"
    "set ps \<subseteq> set (tb_positions (se_obj s))" "0 \<le> left"
    and "reduce_loop now ps left tc s = (tc', s')"
  shows "0 \<le> agg_size (tb_positions (se_obj s)) - (dec_sum tc' - dec_sum tc) - agg_size (tb_positions (se_obj s'))
    \<and> agg_size (tb_positions (se_obj s)) - (dec_sum tc' - dec_sum tc) - agg_size (tb_positions (se_obj s'))
        \<le> (real (length tc') - real (length tc)) / 10 ^ 10"
  using assms
proof (induction ps arbitrary: left tc s)
  case (Cons p ps)
  show ?case
  proof (cases "left \<le> 1 / 10 ^ 12 \<or> row_qty p \<le> 0")
    case True
    then show ?thesis using Cons.prems Cons.IH[of s left tc] by (auto split: if_splits)
  next
    case False
    let ?d = "min (row_qty p) left" and ?rows = "tb_positions (se_obj s)"
    let ?s1 = "set_position (ps_id p) (reduced_row now (min (row_qty p) left)) s"
    have run: "reduce_loop now ps (left - ?d) (tc @ [(ps_id p, ?d)]) ?s1 = (tc', s')"
      using False Cons.prems(5) by (simp add: Let_def)
    have rows: "tb_positions (se_obj ?s1) = map (\<lambda>r. if ps_id r = ps_id p then reduced_row now ?d r else r) ?rows"
      by (simp add: session_simps)
    have ids: "map ps_id (tb_positions (se_obj ?s1)) = map ps_id ?rows"
      unfolding rows by simp
    have sub: "set ps \<subseteq> set (tb_positions (se_obj ?s1))"
      using Cons.prems(2,3) unfolding rows by (force simp: image_iff)
    have "0 \<le> left - ?d" by simp
    note ih = Cons.IH[OF _ _ sub this run]
    have "agg_size (tb_positions (se_obj ?s1)) = agg_size ?rows - row_qty p + row_qty (reduced_row now ?d p)"
      unfolding agg_size_all rows using Cons.prems(1,3) by (intro sum_update_row) auto
    moreover have "0 \<le> row_qty p - ?d - row_qty (reduced_row now ?d p)"
      "row_qty p - ?d - row_qty (reduced_row now ?d p) \<le> 1 / 10 ^ 10"
      using False Cons.prems(4) by (intro reduced_row_qty; simp)+
    moreover have "(real (length tc') - real (length (tc @ [(ps_id p, ?d)]))) / 10 ^ 10 + 1 / 10 ^ 10
        = (real (length tc') - real (length tc)) / 10 ^ 10"
      by (simp add: field_simps)
    moreover have "distinct (map ps_id (tb_positions (se_obj ?s1)))" "distinct (map ps_id ps)"
      using Cons.prems(1,2) ids by simp_all
    moreover have "dec_sum (tc @ [(ps_id p, ?d)]) = dec_sum tc + ?d" by simp
    ultimately show ?thesis using ih by linarith
  qed
qed simp

section \<open>Properties\<close>

text \<open>
  A reduction takes the requested quantity from the position rows, as far as they hold
  it (up to the 1e-12 the loop leaves): the reported decrements add up to it, and the total
  size of all rows falls by exactly what is reported, less the dust below 1e-10 that the code
  drops from each row it empties.
\<close>

theorem apply_reduce_conserves:
  assumes "ids_ok (se_obj s)" "set positions \<subseteq> set (tb_positions (se_obj s))" "distinct (map ps_id positions)"
    and "apply_reduce_on_positions now positions reduce_base s = (touched, s')"
  shows "dec_sum touched \<le> min (pos_part reduce_base) (agg_size positions)
    \<and> min (pos_part reduce_base) (agg_size positions) - 1 / 10 ^ 12 \<le> dec_sum touched
    \<and> agg_size (tb_positions (se_obj s')) \<le> agg_size (tb_positions (se_obj s)) - dec_sum touched
    \<and> agg_size (tb_positions (se_obj s)) - dec_sum touched - real (length touched) / 10 ^ 10
        \<le> agg_size (tb_positions (se_obj s'))"
proof (cases "pos_part reduce_base \<le> 0")
  case True
  then have "touched = []" "s' = s" using assms(4) by (auto simp: apply_reduce_on_positions_def)
  then show ?thesis using True by (simp add: min_def)
next
  case False
  let ?ps = "sort_desc row_qty positions"
  have run: "reduce_loop now ?ps (pos_part reduce_base) [] s = (touched, s')"
    using False assms(4) by (simp add: apply_reduce_on_positions_def)
  have size: "agg_size ?ps = agg_size positions" by (simp add: agg_size_all)
  have "set ?ps \<subseteq> set (tb_positions (se_obj s))" "distinct (map ps_id ?ps)"
    using assms(2,3) by (simp_all add: distinct_map_sort_desc)
  with reduce_loop_session[OF _ _ _ _ run] reduce_loop_touched[of "pos_part reduce_base" now ?ps "[]" s] run
  show ?thesis using assms(1) by (auto simp: ids_ok_def size)
qed

text \<open>
  The base quantity read from an order is never negative and never more than was asked
  for; an order that the exchange reports as already closed counts as completely filled.
\<close>

theorem extract_order_filled_base_bounds:
  "0 \<le> extract_order_filled_base cs ord requested is_spot
   \<and> extract_order_filled_base cs ord requested is_spot \<le> pos_part requested
   \<and> extract_order_filled_base cs (Some \<lparr>or_id = i, or_status = Some ''already_closed'', or_average = a,
        or_price = p, or_filled = f, or_amount = m\<rparr>) requested is_spot = pos_part requested"
proof -
  have "py_lower ''already_closed'' = ''already_closed''"
    by (simp add: py_lower_def char_lower_def)
  moreover have "pos_part (min (pos_part requested) x) \<le> pos_part requested" for x
    by (simp add: pos_part_def)
  ultimately show ?thesis
    by (auto simp: extract_order_filled_base_def lower_is_def Let_def split: option.splits)
qed

theorem apply_reduce_conserves_witness:
  "\<exists>touched s'. apply_reduce_on_positions 50 (tb_positions sample_tables) (1 / 2) (open_session False sample_exchanges sample_tables) = (touched, s')
     \<and> 1 / 2 - 1 / 10 ^ 12 \<le> dec_sum touched \<and> agg_size (tb_positions (se_obj s')) \<le> 1 - dec_sum touched"
proof -
  let ?s = "open_session False sample_exchanges sample_tables"
  obtain touched s' where r: "apply_reduce_on_positions 50 (tb_positions sample_tables) (1 / 2) ?s = (touched, s')"
    by (metis prod.exhaust)
  have o: "se_obj ?s = sample_tables" "ids_ok sample_tables" "agg_size (tb_positions sample_tables) = 1"
    "distinct (map ps_id (tb_positions sample_tables))"
    by (simp_all add: open_session_def ids_ok_def sample_tables_def agg_size_all row_qty_def)
  then show ?thesis
    using apply_reduce_conserves[of ?s "tb_positions sample_tables" 50 "1 / 2" touched s'] r by auto
qed

end
