(* ===== verification/MismatchGuard.thy ===== *)
theory MismatchGuard
  imports Legs Machines
begin

text \<open>
  The hedge-mismatch guard (\<open>_build_hedge_mismatch_close_plan\<close> of
  \<open>core/spot_basis_auto_engine/mismatch_guard.py\<close>): it compares the spot quantity in the
  database with the live short of every held pair, remembers in \<open>_HEDGE_MISMATCH_STATE\<close> since
  when and for how many cycles they differ, and plans the reduction of the larger leg once the
  difference has lasted. What the exchanges answer during the scan (\<open>read\<close> for the positions,
  \<open>tick\<close> for the ticker) is an argument. The diagnostic numbers the code repeats in the plan
  items are kept in the scan entry only.
\<close>

section \<open>State and parameters\<close>

record mm_state =
  mm_first_seen :: real
  mm_last_seen :: real
  mm_rounds :: int
  mm_mismatch :: real
  mm_abnormal_first :: real

record mm_params =
  mp_epsilon_usd :: real
  mp_timeout :: int
  mp_rounds :: int

definition abnormal_guard_secs :: real where
  "abnormal_guard_secs = 3"

definition mm_params_of :: "auto_cfg \<Rightarrow> nav_meta \<Rightarrow> mm_params" where
  "mm_params_of cfg nav =
     (let eps_abs = pos_part (cfg_float (cfg_delta_epsilon_abs_usd cfg) 5);
          eps_pct = pos_part (cfg_float (cfg_delta_epsilon_nav_pct cfg) (1 / 100));
          nav_used = pos_part (to_float (nm_used_usd nav) 0);
          nav_total = max nav_used (to_float (nm_total_usd nav) 0)
      in \<lparr>mp_epsilon_usd = max eps_abs (nav_total * eps_pct / 100),
          mp_timeout = max 1 (cfg_int (cfg_repair_timeout_secs cfg) 20),
          mp_rounds = max 1 (cfg_int (cfg_repair_retry_rounds cfg) 2)\<rparr>)"

text \<open>What the guard reads about one held pair.\<close>

record mm_input =
  mi_sid :: int
  mi_row_id :: string
  mi_symbol :: string
  mi_hold_notional :: usd
  mi_leg :: leg_snapshot
  mi_spot_base :: fopt
  mi_spot_error :: "string option"
  mi_perp_base :: fopt
  mi_perp_error :: "string option"
  mi_ref_price :: real

definition mm_status_ok :: "strategy_row \<Rightarrow> bool" where
  "mm_status_ok st \<longleftrightarrow> py_lower (str_or_empty (st_status st)) \<in> {''active'', ''closing'', ''error''}"

definition mm_ref_price :: "(exchange_row \<Rightarrow> string \<Rightarrow> ticker option) \<Rightarrow> exchange_row option \<Rightarrow> string \<Rightarrow> real \<Rightarrow> real \<Rightarrow> real" where
  "mm_ref_price tick perp_ex perp_symbol spot_px perp_px =
     (let ref = max 0 (max spot_px perp_px) in
      if ref > 0 then ref
      else case perp_ex of
        None \<Rightarrow> ref
      | Some e \<Rightarrow>
          if perp_symbol = [] then ref
          else (case tick e perp_symbol of
              None \<Rightarrow> pos_part (to_float None 0)
            | Some t \<Rightarrow> pos_part (to_float (py_or_num (tk_last t) (tk_close t)) 0)))"

definition mm_input_of ::
    "(exchange_row \<Rightarrow> string \<Rightarrow> perp_read) \<Rightarrow> (exchange_row \<Rightarrow> string \<Rightarrow> ticker option)
      \<Rightarrow> session \<Rightarrow> hold \<Rightarrow> mm_input option" where
  "mm_input_of read tick s h =
     (let sid = int_or_zero (hd_strategy_id h) in
      if sid \<le> 0 then None
      else case query_strategy sid s of
        None \<Rightarrow> None
      | Some st \<Rightarrow>
          if \<not> mm_status_ok st then None
          else
            let perp_ex = query_exchange (int_or_zero (st_short_ex st)) s;
                symbol = str_or_empty (py_or_str (st_symbol st) (hd_symbol h));
                leg = get_open_leg_snapshot sid s;
                (spot_base, spot_err) = estimate_spot_base_from_db sid s;
                (perp_base, perp_err) = fetch_live_perp_short_base read perp_ex symbol
            in Some \<lparr>mi_sid = sid, mi_row_id = str_or_empty (hd_row_id h), mi_symbol = symbol,
                 mi_hold_notional = pos_part (to_float (hd_pair_notional h) 0), mi_leg = leg,
                 mi_spot_base = spot_base, mi_spot_error = spot_err,
                 mi_perp_base = perp_base, mi_perp_error = perp_err,
                 mi_ref_price = mm_ref_price tick perp_ex symbol (pos_part (lg_spot_price leg)) (pos_part (lg_perp_price leg))\<rparr>)"

section \<open>One pair\<close>

datatype mm_status = DataUnavailable | WithinEpsilon | MismatchPending | AbnormalGuard
  | TriggeredFallback | TriggeredRepair string

record mm_scan =
  sc_sid :: int
  sc_row_id :: string
  sc_symbol :: string
  sc_spot_base :: fopt
  sc_perp_base :: fopt
  sc_spot_size :: real
  sc_perp_size :: real
  sc_spot_price :: fopt
  sc_perp_price :: fopt
  sc_epsilon_base :: real
  sc_spot_error :: "string option"
  sc_perp_error :: "string option"
  sc_status :: mm_status
  sc_mismatch_base :: fopt
  sc_mismatch_usd :: fopt
  sc_rounds :: "int option"
  sc_age_secs :: "int option"
  sc_should_repair :: "bool option"
  sc_abnormal :: "bool option"
  sc_action :: "string option"
  sc_reduce_base :: fopt
  sc_reduce_usd :: fopt

definition mm_epsilon_base :: "mm_params \<Rightarrow> mm_input \<Rightarrow> real" where
  "mm_epsilon_base p i = mp_epsilon_usd p / max 1 (mi_ref_price i)"

definition mm_base_scan :: "mm_params \<Rightarrow> mm_input \<Rightarrow> mm_scan" where
  "mm_base_scan p i =
     \<lparr>sc_sid = mi_sid i, sc_row_id = mi_row_id i, sc_symbol = mi_symbol i,
      sc_spot_base = map_option (\<lambda>q. py_round (pos_part q) 10) (mi_spot_base i),
      sc_perp_base = map_option (\<lambda>q. py_round (pos_part q) 10) (mi_perp_base i),
      sc_spot_size = py_round (pos_part (lg_spot_size (mi_leg i))) 8,
      sc_perp_size = py_round (pos_part (lg_perp_size (mi_leg i))) 8,
      sc_spot_price = (if lg_spot_price (mi_leg i) > 0 then Some (py_round (lg_spot_price (mi_leg i)) 10) else None),
      sc_perp_price = (if lg_perp_price (mi_leg i) > 0 then Some (py_round (lg_perp_price (mi_leg i)) 10) else None),
      sc_epsilon_base = py_round (pos_part (mm_epsilon_base p i)) 10,
      sc_spot_error = mi_spot_error i, sc_perp_error = mi_perp_error i,
      sc_status = DataUnavailable, sc_mismatch_base = None, sc_mismatch_usd = None, sc_rounds = None,
      sc_age_secs = None, sc_should_repair = None, sc_abnormal = None, sc_action = None,
      sc_reduce_base = None, sc_reduce_usd = None\<rparr>"

text \<open>The new entry of \<open>_HEDGE_MISMATCH_STATE\<close>.\<close>

definition mm_track :: "real \<Rightarrow> real \<Rightarrow> bool \<Rightarrow> mm_state option \<Rightarrow> mm_state" where
  "mm_track now mismatch abnormal prev =
     (let prev_seen = (case prev of None \<Rightarrow> 0 | Some m \<Rightarrow> mm_first_seen m);
          prev_rounds = (case prev of None \<Rightarrow> 0 | Some m \<Rightarrow> mm_rounds m);
          prev_abnormal = (case prev of None \<Rightarrow> 0 | Some m \<Rightarrow> mm_abnormal_first m)
      in \<lparr>mm_first_seen = (if prev_seen > 0 then prev_seen else now), mm_last_seen = now,
          mm_rounds = prev_rounds + 1, mm_mismatch = mismatch,
          mm_abnormal_first = (if abnormal then (if prev_abnormal > 0 then prev_abnormal else now) else 0)\<rparr>)"

record mm_decision =
  md_action :: string
  md_reduce_base :: real
  md_reduce_usd :: real
  md_reasons :: "string list"

definition mm_leg_decision :: "real \<Rightarrow> real \<Rightarrow> real \<Rightarrow> real \<Rightarrow> string \<Rightarrow> string \<Rightarrow> mm_decision" where
  "mm_leg_decision diff leg_size px ref_price action missing =
     (if leg_size > 0 then
        let rb = min leg_size diff
        in \<lparr>md_action = (if rb > 0 then action else ''fallback_close''), md_reduce_base = rb,
            md_reduce_usd = rb * pos_part (if px > 0 then px else ref_price),
            md_reasons = [''delta_mismatch_breach_epsilon'']\<rparr>
      else \<lparr>md_action = ''fallback_close'', md_reduce_base = diff, md_reduce_usd = 0,
            md_reasons = [''delta_mismatch_breach_epsilon'', missing]\<rparr>)"

definition mm_decide :: "mm_input \<Rightarrow> real \<Rightarrow> real \<Rightarrow> mm_decision" where
  "mm_decide i spot_v perp_v =
     (let diff = pos_part \<bar>spot_v - perp_v\<bar>; leg = mi_leg i in
      if spot_v > perp_v
      then mm_leg_decision diff (pos_part (lg_spot_size leg)) (pos_part (lg_spot_price leg)) (mi_ref_price i)
             ''reduce_spot'' ''spot_leg_snapshot_missing''
      else mm_leg_decision diff (pos_part (lg_perp_size leg)) (pos_part (lg_perp_price leg)) (mi_ref_price i)
             ''reduce_perp'' ''perp_leg_snapshot_missing'')"

definition full_spot_reduce :: "mm_input \<Rightarrow> mm_decision \<Rightarrow> bool" where
  "full_spot_reduce i d \<longleftrightarrow>
     md_action d = ''reduce_spot'' \<and> pos_part (lg_spot_size (mi_leg i)) > 0
     \<and> md_reduce_base d \<ge> pos_part (lg_spot_size (mi_leg i)) * (999 / 1000)"

definition mm_repair_item :: "mm_input \<Rightarrow> mm_decision \<Rightarrow> plan_item" where
  "mm_repair_item i d =
     empty_item\<lparr>pi_strategy_id := Some (mi_sid i), pi_row_id := Some (mi_row_id i), pi_symbol := Some (mi_symbol i),
       pi_action := Some (md_action d), pi_reduce_notional := Some (py_round (md_reduce_usd d) 4),
       pi_reduce_base := Some (py_round (pos_part (md_reduce_base d)) 10),
       pi_reason_codes := md_reasons d @ [md_action d @ ''_by_mismatch'']\<rparr>"

definition mm_fallback_item :: "mm_input \<Rightarrow> mm_decision \<Rightarrow> plan_item" where
  "mm_fallback_item i d =
     empty_item\<lparr>pi_strategy_id := Some (mi_sid i), pi_row_id := Some (mi_row_id i), pi_symbol := Some (mi_symbol i),
       pi_size_usd := Some (py_round (mi_hold_notional i) 2),
       pi_reason_codes := md_reasons d @ [''fallback_close_due_missing_leg_snapshot'']\<rparr>"

record mm_output =
  mo_state :: "int \<rightharpoonup> mm_state"
  mo_repair :: "plan_item list"
  mo_fallback :: "plan_item list"
  mo_scanned :: "mm_scan list"

text \<open>The part of the loop body after both quantities are known to differ by more than epsilon.\<close>

definition mm_mismatched :: "mm_params \<Rightarrow> real \<Rightarrow> mm_input \<Rightarrow> real \<Rightarrow> real \<Rightarrow> mm_scan \<Rightarrow> mm_output \<Rightarrow> mm_output" where
  "mm_mismatched p now i spot_v perp_v scan out =
     (let mismatch = \<bar>spot_v - perp_v\<bar>;
          abnormal = (perp_v \<le> 0 \<and> pos_part (lg_perp_size (mi_leg i)) > 0);
          st = mm_track now mismatch abnormal (mo_state out (mi_sid i));
          age = pos_part (now - mm_first_seen st);
          abnormal_age = (if mm_abnormal_first st > 0 then pos_part (now - mm_abnormal_first st) else 0);
          should_repair = (mm_rounds st \<ge> mp_rounds p \<or> age \<ge> of_int (mp_timeout p));
          d = mm_decide i spot_v perp_v;
          out1 = out\<lparr>mo_state := (mo_state out)(mi_sid i \<mapsto> st)\<rparr>;
          scan1 = scan\<lparr>sc_status := MismatchPending, sc_rounds := Some (mm_rounds st),
                    sc_age_secs := Some (py_trunc age), sc_should_repair := Some should_repair,
                    sc_abnormal := Some abnormal\<rparr>;
          scan2 = scan1\<lparr>sc_action := Some (md_action d),
                    sc_reduce_usd := Some (py_round (md_reduce_usd d) 4),
                    sc_reduce_base := Some (py_round (pos_part (md_reduce_base d)) 10)\<rparr>
      in if \<not> should_repair then out1\<lparr>mo_scanned := mo_scanned out @ [scan1]\<rparr>
         else if full_spot_reduce i d \<and> abnormal \<and> abnormal_age < abnormal_guard_secs then
           out1\<lparr>mo_scanned := mo_scanned out @
             [scan2\<lparr>sc_status := AbnormalGuard, sc_should_repair := Some False\<rparr>]\<rparr>
         else if md_action d = ''fallback_close'' then
           out1\<lparr>mo_fallback := mo_fallback out @ [mm_fallback_item i d],
                mo_scanned := mo_scanned out @ [scan1\<lparr>sc_status := TriggeredFallback\<rparr>]\<rparr>
         else
           out1\<lparr>mo_repair := mo_repair out @ [mm_repair_item i d],
                mo_scanned := mo_scanned out @ [scan2\<lparr>sc_status := TriggeredRepair (md_action d)\<rparr>]\<rparr>)"

definition mm_one :: "mm_params \<Rightarrow> real \<Rightarrow> mm_input \<Rightarrow> mm_output \<Rightarrow> mm_output" where
  "mm_one p now i out =
     (let scan = mm_base_scan p i in
      case (mi_spot_base i, mi_perp_base i) of
        (Some spot, Some perp) \<Rightarrow>
          (let spot_v = pos_part spot; perp_v = pos_part perp;
               mismatch = \<bar>spot_v - perp_v\<bar>;
               scan' = scan\<lparr>sc_mismatch_base := Some (py_round mismatch 10),
                        sc_mismatch_usd := Some (py_round (mismatch * pos_part (mi_ref_price i)) 6)\<rparr>
           in if mismatch \<le> mm_epsilon_base p i
              then out\<lparr>mo_state := (mo_state out)(mi_sid i := None),
                       mo_scanned := mo_scanned out @ [scan'\<lparr>sc_status := WithinEpsilon\<rparr>]\<rparr>
              else mm_mismatched p now i spot_v perp_v scan' out)
      | _ \<Rightarrow> out\<lparr>mo_scanned := mo_scanned out @ [scan\<lparr>sc_status := DataUnavailable\<rparr>]\<rparr>)"

section \<open>The guard\<close>

definition mm_active_ids :: "hold list \<Rightarrow> int list" where
  "mm_active_ids holds = filter (\<lambda>sid. sid > 0) (map (\<lambda>h. int_or_zero (hd_strategy_id h)) holds)"

definition build_hedge_mismatch_close_plan ::
    "(exchange_row \<Rightarrow> string \<Rightarrow> perp_read) \<Rightarrow> (exchange_row \<Rightarrow> string \<Rightarrow> ticker option)
      \<Rightarrow> session \<Rightarrow> auto_cfg \<Rightarrow> real \<Rightarrow> hold list \<Rightarrow> nav_meta \<Rightarrow> (int \<rightharpoonup> mm_state) \<Rightarrow> mm_output" where
  "build_hedge_mismatch_close_plan read tick s cfg now holds nav state =
     (let out = foldl (\<lambda>out h. case mm_input_of read tick s h of
                          None \<Rightarrow> out
                        | Some i \<Rightarrow> mm_one (mm_params_of cfg nav) now i out)
                  \<lparr>mo_state = state, mo_repair = [], mo_fallback = [], mo_scanned = []\<rparr> holds
      in out\<lparr>mo_state := (\<lambda>sid. if sid \<in> set (mm_active_ids holds) then mo_state out sid else None)\<rparr>)"

section \<open>What one pair contributes\<close>

definition is_mismatch_scan :: "mm_scan \<Rightarrow> bool" where
  "is_mismatch_scan x \<longleftrightarrow> sc_status x \<noteq> DataUnavailable \<and> sc_status x \<noteq> WithinEpsilon"

text \<open>The uninterrupted mismatch scans of a pair at the end of the log; unreadable scans do not count.\<close>

definition streak :: "int \<Rightarrow> mm_scan list \<Rightarrow> nat" where
  "streak sid entries =
     length (takeWhile is_mismatch_scan (rev (filter (\<lambda>x. sc_sid x = sid \<and> sc_status x \<noteq> DataUnavailable) entries)))"

lemma streak_append:
  "streak sid (entries @ [x]) =
     (if sc_sid x \<noteq> sid \<or> sc_status x = DataUnavailable then streak sid entries
      else if is_mismatch_scan x then Suc (streak sid entries) else 0)"
  by (simp add: streak_def)

definition mm_level :: "(int \<rightharpoonup> mm_state) \<Rightarrow> int \<Rightarrow> int" where
  "mm_level m sid = (case m sid of None \<Rightarrow> 0 | Some st \<Rightarrow> mm_rounds st)"

lemma mm_base_scan_sels [simp]:
  "sc_sid (mm_base_scan p i) = mi_sid i" "sc_status (mm_base_scan p i) = DataUnavailable"
  by (simp_all add: mm_base_scan_def)

lemma mm_track_rounds [simp]:
  "mm_rounds (mm_track now m a prev) = (case prev of None \<Rightarrow> 0 | Some st \<Rightarrow> mm_rounds st) + 1"
  by (simp add: mm_track_def Let_def)

abbreviation mm_abnormal :: "mm_input \<Rightarrow> real \<Rightarrow> bool" where
  "mm_abnormal i pv \<equiv> pv \<le> 0 \<and> pos_part (lg_perp_size (mi_leg i)) > 0"

abbreviation mm_next :: "mm_input \<Rightarrow> real \<Rightarrow> real \<Rightarrow> real \<Rightarrow> mm_output \<Rightarrow> mm_state" where
  "mm_next i now sv pv out \<equiv> mm_track now \<bar>sv - pv\<bar> (mm_abnormal i pv) (mo_state out (mi_sid i))"

lemma mm_mismatched_scan:
  assumes "sc_sid scan = mi_sid i"
  shows "\<exists>x. mo_scanned (mm_mismatched p now i sv pv scan out) = mo_scanned out @ [x]
    \<and> sc_sid x = mi_sid i \<and> sc_status x \<noteq> DataUnavailable \<and> is_mismatch_scan x"
  unfolding mm_mismatched_def Let_def using assms by (simp add: is_mismatch_scan_def)

lemma mm_mismatched_state:
  "mo_state (mm_mismatched p now i sv pv scan out) = (mo_state out)(mi_sid i \<mapsto> mm_next i now sv pv out)"
  unfolding mm_mismatched_def Let_def by simp

text \<open>When the mismatched part adds to a plan, and what it adds.\<close>

lemma mm_mismatched_due:
  assumes "mo_repair (mm_mismatched p now i sv pv scan out) \<noteq> mo_repair out
    \<or> mo_fallback (mm_mismatched p now i sv pv scan out) \<noteq> mo_fallback out"
  shows "mp_rounds p \<le> mm_rounds (mm_next i now sv pv out)
    \<or> of_int (mp_timeout p) \<le> pos_part (now - mm_first_seen (mm_next i now sv pv out))"
  using assms unfolding mm_mismatched_def Let_def by (simp split: if_splits)

lemma mm_mismatched_repair:
  assumes "mo_repair (mm_mismatched p now i sv pv scan out) \<noteq> mo_repair out"
  shows "mo_repair (mm_mismatched p now i sv pv scan out) = mo_repair out @ [mm_repair_item i (mm_decide i sv pv)]"
    "md_action (mm_decide i sv pv) \<noteq> ''fallback_close''"
    "\<not> (full_spot_reduce i (mm_decide i sv pv) \<and> mm_abnormal i pv
       \<and> (if mm_abnormal_first (mm_next i now sv pv out) > 0
          then pos_part (now - mm_abnormal_first (mm_next i now sv pv out)) else 0) < abnormal_guard_secs)"
  using assms unfolding mm_mismatched_def Let_def by (auto split: if_splits)

lemma mm_one_cases:
  obtains (unavailable) x where "mm_one p now i out = out\<lparr>mo_scanned := mo_scanned out @ [x]\<rparr>"
      "sc_status x = DataUnavailable"
  | (within) x where "mm_one p now i out = out\<lparr>mo_state := (mo_state out)(mi_sid i := None), mo_scanned := mo_scanned out @ [x]\<rparr>"
      "sc_sid x = mi_sid i" "sc_status x = WithinEpsilon"
  | (mismatch) spot perp scan where "mi_spot_base i = Some spot" "mi_perp_base i = Some perp"
      "mm_epsilon_base p i < \<bar>pos_part spot - pos_part perp\<bar>" "sc_sid scan = mi_sid i"
      "mm_one p now i out = mm_mismatched p now i (pos_part spot) (pos_part perp) scan out"
proof (cases "mi_spot_base i = None \<or> mi_perp_base i = None")
  case True
  then show ?thesis
    by (intro unavailable[of "(mm_base_scan p i)\<lparr>sc_status := DataUnavailable\<rparr>"])
      (auto simp: mm_one_def Let_def split: option.splits)
next
  case False
  then obtain spot perp where q: "mi_spot_base i = Some spot" "mi_perp_base i = Some perp" by auto
  let ?scan = "(mm_base_scan p i)\<lparr>sc_mismatch_base := Some (py_round \<bar>pos_part spot - pos_part perp\<bar> 10),
      sc_mismatch_usd := Some (py_round (\<bar>pos_part spot - pos_part perp\<bar> * pos_part (mi_ref_price i)) 6)\<rparr>"
  show ?thesis
  proof (cases "\<bar>pos_part spot - pos_part perp\<bar> \<le> mm_epsilon_base p i")
    case True
    with q show ?thesis by (intro within[of "?scan\<lparr>sc_status := WithinEpsilon\<rparr>"]) (simp_all add: mm_one_def Let_def)
  next
    case False
    with q show ?thesis by (intro mismatch[of spot perp ?scan]) (simp_all add: mm_one_def Let_def)
  qed
qed

section \<open>The guard as a machine\<close>

definition mm_init :: mm_output where
  "mm_init = \<lparr>mo_state = Map.empty, mo_repair = [], mo_fallback = [], mo_scanned = []\<rparr>"

definition mm_event :: "mm_params \<Rightarrow> mm_output \<Rightarrow> real \<times> mm_input \<Rightarrow> mm_output" where
  "mm_event p out e = mm_one p (fst e) (snd e) out"

definition mm_inv :: "mm_output \<Rightarrow> bool" where
  "mm_inv out \<longleftrightarrow> (\<forall>sid. mm_level (mo_state out) sid = int (streak sid (mo_scanned out)))"

lemma mm_one_inv: "mm_inv out \<Longrightarrow> mm_inv (mm_one p now i out)"
proof -
  assume inv: "mm_inv out"
  show ?thesis
  proof (cases rule: mm_one_cases[of p now i out])
    case (unavailable x)
    with inv show ?thesis by (simp add: mm_inv_def streak_append)
  next
    case (within x)
    with inv show ?thesis by (simp add: mm_inv_def streak_append is_mismatch_scan_def mm_level_def)
  next
    case (mismatch spot perp scan)
    from mm_mismatched_scan[OF mismatch(4), of p now "pos_part spot" "pos_part perp" out]
    obtain x where "mo_scanned (mm_one p now i out) = mo_scanned out @ [x]" "sc_sid x = mi_sid i"
      "sc_status x \<noteq> DataUnavailable" "is_mismatch_scan x"
      unfolding mismatch(5) by blast
    moreover have "mm_level (mo_state out) (mi_sid i) + 1
        = mm_rounds (mm_next i now (pos_part spot) (pos_part perp) out)"
      by (simp add: mm_level_def)
    ultimately show ?thesis
      using inv unfolding mm_inv_def mismatch(5) mm_mismatched_state
      by (simp add: streak_append mm_level_def)
  qed
qed

lemma mm_init_inv: "mm_inv mm_init"
  by (simp add: mm_inv_def mm_init_def mm_level_def streak_def)

interpretation mm: machine mm_init "mm_event p" mm_inv for p
  by unfold_locales (simp_all only: mm_event_def mm_one_inv mm_init_inv)

definition mm_history :: "mm_params \<Rightarrow> (real \<times> mm_input) list \<Rightarrow> mm_output" where
  "mm_history p es = foldl (mm_event p) mm_init es"

section \<open>Properties\<close>

lemma mm_history_streak:
  "mm_level (mo_state (mm_history p es)) sid = int (streak sid (mo_scanned (mm_history p es)))"
  using mm.reachable_inv[of p es] by (simp add: mm_history_def mm_inv_def)

text \<open>
  The round counter of the guard is exact. After any sequence of scans, the counter
  stored for a pair is the number of uninterrupted mismatch scans of that pair at the end of
  the log, and it is zero when the pair was last seen hedged.
\<close>

theorem mismatch_rounds_are_consecutive:
  "mm_level (mo_state (mm_history p es)) sid = int (streak sid (mo_scanned (mm_history p es)))"
  by (rule mm_history_streak)

text \<open>
  No hasty repair. When a scan adds a repair or a fallback close, the pair's quantities
  differ by more than epsilon, and the mismatch has been seen in as many uninterrupted scans
  as required or has lasted the timeout.
\<close>

theorem mismatch_repair_is_patient:
  assumes "mo_repair (mm_one p now i (mm_history p es)) \<noteq> mo_repair (mm_history p es)
    \<or> mo_fallback (mm_one p now i (mm_history p es)) \<noteq> mo_fallback (mm_history p es)"
  shows "\<exists>spot perp st. mi_spot_base i = Some spot \<and> mi_perp_base i = Some perp
    \<and> mm_epsilon_base p i < \<bar>pos_part spot - pos_part perp\<bar>
    \<and> mo_state (mm_one p now i (mm_history p es)) (mi_sid i) = Some st
    \<and> (mp_rounds p \<le> int (streak (mi_sid i) (mo_scanned (mm_one p now i (mm_history p es))))
       \<or> of_int (mp_timeout p) \<le> pos_part (now - mm_first_seen st))"
proof (cases rule: mm_one_cases[of p now i "mm_history p es"])
  case (mismatch spot perp scan)
  let ?out = "mm_one p now i (mm_history p es)"
  have "mm_level (mo_state ?out) (mi_sid i) = int (streak (mi_sid i) (mo_scanned ?out))"
    using mm_history_streak[of p "es @ [(now, i)]"] by (simp add: mm_history_def mm_event_def)
  moreover define st where "st = mm_next i now (pos_part spot) (pos_part perp) (mm_history p es)"
  moreover have st: "mo_state ?out (mi_sid i) = Some st"
    unfolding mismatch(5) mm_mismatched_state st_def by simp
  moreover have "mp_rounds p \<le> mm_rounds st \<or> of_int (mp_timeout p) \<le> pos_part (now - mm_first_seen st)"
    using mm_mismatched_due assms unfolding mismatch(5) st_def by blast
  ultimately show ?thesis using mismatch(1-3) by (auto simp: mm_level_def)
qed (use assms in auto)

lemma mm_leg_decision_bounds:
  assumes "md_action (mm_leg_decision diff leg px ref a m) \<noteq> ''fallback_close''"
  shows "0 < leg" "md_reduce_base (mm_leg_decision diff leg px ref a m) = min leg diff"
    "0 < min leg diff" "md_action (mm_leg_decision diff leg px ref a m) = a"
  using assms by (auto simp: mm_leg_decision_def Let_def split: if_splits)

text \<open>
  A planned repair reduces the larger leg, by a positive amount that exceeds neither the
  difference of the two legs nor the size of the leg in the database, so after it the legs
  are closer and never cross.
\<close>

theorem mismatch_repair_reduces_larger_leg:
  assumes "mo_repair (mm_one p now i out) \<noteq> mo_repair out"
  shows "\<exists>spot perp d. mi_spot_base i = Some spot \<and> mi_perp_base i = Some perp
    \<and> mo_repair (mm_one p now i out) = mo_repair out @ [mm_repair_item i d]
    \<and> 0 < md_reduce_base d \<and> md_reduce_base d \<le> \<bar>pos_part spot - pos_part perp\<bar>
    \<and> (if pos_part perp < pos_part spot
       then md_action d = ''reduce_spot'' \<and> md_reduce_base d \<le> pos_part (lg_spot_size (mi_leg i))
       else md_action d = ''reduce_perp'' \<and> md_reduce_base d \<le> pos_part (lg_perp_size (mi_leg i)))"
proof (cases rule: mm_one_cases[of p now i out])
  case (mismatch spot perp scan)
  let ?d = "mm_decide i (pos_part spot) (pos_part perp)"
  note r = mm_mismatched_repair[OF assms[unfolded mismatch(5)]]
  have "0 < md_reduce_base ?d \<and> md_reduce_base ?d \<le> \<bar>pos_part spot - pos_part perp\<bar>
    \<and> (if pos_part perp < pos_part spot
       then md_action ?d = ''reduce_spot'' \<and> md_reduce_base ?d \<le> pos_part (lg_spot_size (mi_leg i))
       else md_action ?d = ''reduce_perp'' \<and> md_reduce_base ?d \<le> pos_part (lg_perp_size (mi_leg i)))"
  proof (cases "pos_part perp < pos_part spot")
    case True
    then have d: "?d = mm_leg_decision (pos_part \<bar>pos_part spot - pos_part perp\<bar>) (pos_part (lg_spot_size (mi_leg i)))
        (pos_part (lg_spot_price (mi_leg i))) (mi_ref_price i) ''reduce_spot'' ''spot_leg_snapshot_missing''"
      by (simp only: mm_decide_def Let_def if_True)
    note b = mm_leg_decision_bounds[OF r(2)[unfolded d]]
    show ?thesis using True b(3) by (simp only: d b(2,4) if_True) simp
  next
    case False
    then have d: "?d = mm_leg_decision (pos_part \<bar>pos_part spot - pos_part perp\<bar>) (pos_part (lg_perp_size (mi_leg i)))
        (pos_part (lg_perp_price (mi_leg i))) (mi_ref_price i) ''reduce_perp'' ''perp_leg_snapshot_missing''"
      by (simp only: mm_decide_def Let_def if_False)
    note b = mm_leg_decision_bounds[OF r(2)[unfolded d]]
    show ?thesis using False b(3) by (simp only: d b(2,4) if_False) simp
  qed
  with r(1) mismatch(1,2,5) show ?thesis by auto
qed (use assms in auto)

text \<open>
  The guard against a broken position read: while the exchange reports no short although
  the database holds one, and this has been so for less than the guard time, no repair sells
  the whole spot leg.
\<close>

theorem mismatch_abnormal_read_guard:
  assumes "mi_perp_base i = Some perp" "perp \<le> 0" "0 < lg_perp_size (mi_leg i)"
    and "case mo_state out (mi_sid i) of None \<Rightarrow> True
      | Some m \<Rightarrow> mm_abnormal_first m \<le> 0 \<or> now - mm_abnormal_first m < abnormal_guard_secs"
    and "mo_repair (mm_one p now i out) = mo_repair out @ [item]"
  shows "\<exists>d. item = mm_repair_item i d \<and> \<not> full_spot_reduce i d"
proof (cases rule: mm_one_cases[of p now i out])
  case (mismatch spot perp' scan)
  have p: "pos_part perp' = 0" "0 < pos_part (lg_perp_size (mi_leg i))"
    using assms(1-3) mismatch(2) by auto
  define st where "st = mm_next i now (pos_part spot) (pos_part perp') out"
  have "(if mm_abnormal_first st > 0 then pos_part (now - mm_abnormal_first st) else 0) < abnormal_guard_secs"
    using assms(4) p
    by (auto simp: st_def mm_track_def Let_def abnormal_guard_secs_def pos_part_def split: option.splits)
  moreover have "mo_repair (mm_mismatched p now i (pos_part spot) (pos_part perp') scan out) \<noteq> mo_repair out"
    using assms(5) mismatch(5) by simp
  note r = mm_mismatched_repair[OF this]
  ultimately have "\<not> full_spot_reduce i (mm_decide i (pos_part spot) (pos_part perp'))"
    using p unfolding st_def by auto
  moreover have "item = mm_repair_item i (mm_decide i (pos_part spot) (pos_part perp'))"
    using r(1) assms(5) mismatch(5) by simp
  ultimately show ?thesis by blast
qed (use assms in auto)

section \<open>Sample runs\<close>

definition sample_params :: mm_params where
  "sample_params = \<lparr>mp_epsilon_usd = 5, mp_timeout = 20, mp_rounds = 2\<rparr>"

definition sample_input :: "real \<Rightarrow> real \<Rightarrow> mm_input" where
  "sample_input spot perp =
     \<lparr>mi_sid = 7, mi_row_id = ''r'', mi_symbol = ''BTC/USDT:USDT'', mi_hold_notional = 200,
      mi_leg = \<lparr>lg_spot_rows = [], lg_perp_rows = [], lg_spot_size = 2, lg_perp_size = 2, lg_spot_price = 100, lg_perp_price = 100\<rparr>,
      mi_spot_base = Some spot, mi_spot_error = None, mi_perp_base = Some perp, mi_perp_error = None, mi_ref_price = 100\<rparr>"

lemmas mm_run_defs = mm_event_def mm_one_def mm_mismatched_def mm_track_def mm_decide_def mm_leg_decision_def
  full_spot_reduce_def mm_epsilon_base_def mm_init_def sample_params_def sample_input_def abnormal_guard_secs_def Let_def

text \<open>Two scans, 10 seconds apart, that find one base unit too much spot.\<close>

lemma sample_second_scan:
  "mo_repair (mm_history sample_params [(10, sample_input 2 1)]) = []"
  "mo_repair (mm_one sample_params 20 (sample_input 2 1) (mm_history sample_params [(10, sample_input 2 1)])) \<noteq> []"
  by (simp_all add: mm_history_def mm_run_defs)

theorem mismatch_repair_is_patient_witness:
  "2 \<le> int (streak 7 (mo_scanned (mm_one sample_params 20 (sample_input 2 1) (mm_history sample_params [(10, sample_input 2 1)]))))
   \<or> (\<exists>st. mo_state (mm_one sample_params 20 (sample_input 2 1) (mm_history sample_params [(10, sample_input 2 1)])) 7 = Some st
        \<and> 20 \<le> pos_part (20 - mm_first_seen st))"
proof -
  have "mi_sid (sample_input 2 1) = 7" "mp_rounds sample_params = 2" "mp_timeout sample_params = 20"
    by (simp_all add: sample_input_def sample_params_def)
  with mismatch_repair_is_patient[of sample_params 20 "sample_input 2 1" "[(10, sample_input 2 1)]"] sample_second_scan
  show ?thesis by auto
qed

theorem mismatch_repair_reduces_larger_leg_witness:
  "\<exists>d. mo_repair (mm_one sample_params 20 (sample_input 2 1) (mm_history sample_params [(10, sample_input 2 1)]))
       = [mm_repair_item (sample_input 2 1) d]
     \<and> md_action d = ''reduce_spot'' \<and> 0 < md_reduce_base d \<and> md_reduce_base d \<le> 1"
proof -
  have "mi_spot_base (sample_input 2 1) = Some 2" "mi_perp_base (sample_input 2 1) = Some 1"
    by (simp_all add: sample_input_def)
  with mismatch_repair_reduces_larger_leg[of sample_params 20 "sample_input 2 1" "mm_history sample_params [(10, sample_input 2 1)]"]
    sample_second_scan
  show ?thesis by auto
qed

text \<open>The exchange reports no short; after four seconds the whole spot leg may go, a part of it before.\<close>

definition partial_input :: mm_input where
  "partial_input = (sample_input 1 0)"

lemma sample_partial_repair:
  "mo_repair (mm_one sample_params 12 partial_input (mm_history sample_params [(10, partial_input)]))
   = mo_repair (mm_history sample_params [(10, partial_input)]) @ [mm_repair_item partial_input (mm_decide partial_input 1 0)]"
  by (simp add: mm_history_def partial_input_def mm_run_defs)

theorem mismatch_abnormal_read_guard_witness:
  "\<exists>d. mm_repair_item partial_input (mm_decide partial_input 1 0) = mm_repair_item partial_input d
     \<and> \<not> full_spot_reduce partial_input d"
proof (rule mismatch_abnormal_read_guard[OF _ _ _ _ sample_partial_repair])
  show "mi_perp_base partial_input = Some 0" "(0::real) \<le> 0" "0 < lg_perp_size (mi_leg partial_input)"
    by (simp_all add: partial_input_def sample_input_def)
  show "case mo_state (mm_history sample_params [(10, partial_input)]) (mi_sid partial_input) of None \<Rightarrow> True
      | Some m \<Rightarrow> mm_abnormal_first m \<le> 0 \<or> 12 - mm_abnormal_first m < abnormal_guard_secs"
    by (simp add: mm_history_def partial_input_def mm_run_defs)
qed

end
