(* ===== verification/CycleContext.thy ===== *)
theory CycleContext
  imports RowTypes Machines MismatchGuard
begin

text \<open>
  The shared state of the cycles (\<open>core/spot_basis_auto_engine/cycle_context.py\<close>): the summary
  log, the streak of failed cycles that trips the circuit breaker, the failure events of a
  cycle, and the lock file that keeps two workers from running a cycle at once.
\<close>

section \<open>Summaries\<close>

text \<open>\<open>{"ok": True, "ts": now, **summary}\<close>: a summary may override \<open>ok\<close>.\<close>

record 'a log_item =
  li_ok :: bool
  li_ts :: int
  li_summary :: 'a

record 'a summary_log =
  sg_last :: "'a log_item option"
  sg_buffer :: "'a log_item list"

definition cycle_log_maxlen :: nat where
  "cycle_log_maxlen = 400"

definition set_last_summary :: "real \<Rightarrow> bool option \<Rightarrow> 'a \<Rightarrow> 'a summary_log \<Rightarrow> 'a summary_log" where
  "set_last_summary now ok_override summary st =
     (let item = \<lparr>li_ok = (case ok_override of None \<Rightarrow> True | Some b \<Rightarrow> b), li_ts = py_trunc now, li_summary = summary\<rparr>
      in \<lparr>sg_last = Some item, sg_buffer = take cycle_log_maxlen (item # sg_buffer st)\<rparr>)"

definition get_cycle_logs :: "int \<Rightarrow> 'a summary_log \<Rightarrow> 'a log_item list" where
  "get_cycle_logs limit st =
     (let cap = max 1 (min 500 (if limit = 0 then 200 else limit)) in take (nat cap) (sg_buffer st))"

definition empty_log :: "'a summary_log" where
  "empty_log = \<lparr>sg_last = None, sg_buffer = []\<rparr>"

lemma take_Cons_take: "take n (x # take n xs) = take n (x # xs)"
  by (cases n) (simp_all add: min_def)

lemma log_buffer_history:
  "sg_buffer (foldl (\<lambda>st (now, ok, x). set_last_summary now ok x st) empty_log es)
   = take cycle_log_maxlen (rev (map (\<lambda>(now, ok, x).
        \<lparr>li_ok = (case ok of None \<Rightarrow> True | Some b \<Rightarrow> b), li_ts = py_trunc now, li_summary = x\<rparr>) es))"
proof (induction es rule: rev_induct)
  case (snoc e es)
  then show ?case
    by (cases e) (simp add: set_last_summary_def Let_def take_Cons_take)
qed (simp add: empty_log_def)

section \<open>The failure streak\<close>

text \<open>
  \<open>_API_FAIL_STREAK_STATE\<close> has two bindings. \<open>_record_api_fail_streak\<close> rebinds the name in the
  module \<open>cycle_context\<close>; the name the package re-exports (\<open>ae._API_FAIL_STREAK_STATE\<close>, read by
  the exception handler of the cycle) keeps the dictionary of import time, whose count is 0.
\<close>

record fail_streak =
  fk_count :: real
  fk_updated :: real

record fail_bindings =
  fb_context :: fail_streak
  fb_package :: fail_streak

definition fail_init :: fail_bindings where
  "fail_init = \<lparr>fb_context = \<lparr>fk_count = 0, fk_updated = 0\<rparr>, fb_package = \<lparr>fk_count = 0, fk_updated = 0\<rparr>\<rparr>"

definition record_api_fail_streak :: "bool \<Rightarrow> real \<Rightarrow> fail_bindings \<Rightarrow> int \<times> fail_bindings" where
  "record_api_fail_streak cycle_failed now fb =
     (let prev = py_trunc (fk_count (fb_context fb));
          count = (if cycle_failed then prev + 1 else 0)
      in (count, fb\<lparr>fb_context := \<lparr>fk_count = of_int count, fk_updated = now\<rparr>\<rparr>))"

definition streak_read_in_handler :: "fail_bindings \<Rightarrow> int" where
  "streak_read_in_handler fb = py_trunc (fk_count (fb_package fb))"

definition trailing_failures :: "bool list \<Rightarrow> nat" where
  "trailing_failures cycles = length (takeWhile (\<lambda>b. b) (rev cycles))"

definition fail_run :: "(bool \<times> real) list \<Rightarrow> fail_bindings" where
  "fail_run es = foldl (\<lambda>fb e. snd (record_api_fail_streak (fst e) (snd e) fb)) fail_init es"

lemma py_trunc_of_int [simp]: "py_trunc (of_int k) = k"
  by (simp add: py_trunc_def)

lemma fail_run_state:
  "fk_count (fb_context (fail_run es)) = of_int (int (trailing_failures (map fst es)))
   \<and> fb_package (fail_run es) = fb_package fail_init"
proof (induction es rule: rev_induct)
  case (snoc e es)
  have "py_trunc (real (trailing_failures (map fst es))) = int (trailing_failures (map fst es))"
    using py_trunc_of_int[of "int (trailing_failures (map fst es))"] by simp
  with snoc show ?case
    by (cases e) (simp add: fail_run_def record_api_fail_streak_def trailing_failures_def Let_def)
qed (simp add: fail_run_def fail_init_def trailing_failures_def)

section \<open>Failure events\<close>

record scan_errors =
  rf_errors :: "string list"
  rf_error :: "string option"
  rf_error_count :: int

definition push_event :: "string \<Rightarrow> string \<Rightarrow> string list \<Rightarrow> string list" where
  "push_event prefix raw events =
     (let txt = py_strip raw in
      if txt = [] then events
      else
        let key = prefix @ '':'' @ take 220 txt
        in if key \<in> set events then events else events @ [key])"

fun push_scanned :: "mm_scan list \<Rightarrow> string list \<Rightarrow> string list" where
  "push_scanned [] events = events"
| "push_scanned (one # rest) events =
     (let events1 = push_event ''mismatch_spot'' (str_or_empty (sc_spot_error one)) events;
          events2 = push_event ''mismatch_perp'' (str_or_empty (sc_perp_error one)) events1
      in if length events2 \<ge> 12 then events2 else push_scanned rest events2)"

definition collect_api_fail_events :: "scan_errors \<Rightarrow> mm_scan list \<Rightarrow> string list" where
  "collect_api_fail_events refresh scanned =
     (let e1 = foldl (\<lambda>ev err. push_event ''refresh'' err ev) [] (take 8 (rf_errors refresh));
          e2 = (if py_strip (str_or_empty (rf_error refresh)) \<noteq> []
                then push_event ''refresh'' (py_strip (str_or_empty (rf_error refresh))) e1 else e1);
          e3 = (if rf_error_count refresh > 0 \<and> rf_errors refresh = []
                then push_event ''refresh_error_count'' (str_of_int (rf_error_count refresh)) e2 else e2)
      in push_scanned (take 40 scanned) e3)"

definition blank :: "string \<Rightarrow> bool" where
  "blank s \<longleftrightarrow> py_strip s = []"

lemma push_event_blank: "blank raw \<Longrightarrow> push_event prefix raw events = events"
  by (simp add: push_event_def blank_def)

lemma push_event_grows: "set events \<subseteq> set (push_event prefix raw events)"
  "\<not> blank raw \<Longrightarrow> push_event prefix raw events \<noteq> []"
  by (auto simp: push_event_def blank_def Let_def)

lemma push_event_distinct: "distinct events \<Longrightarrow> distinct (push_event prefix raw events)"
  by (simp add: push_event_def Let_def)

lemma push_event_length: "length (push_event prefix raw events) \<le> Suc (length events)"
  by (simp add: push_event_def Let_def)

lemma push_event_Nil: "push_event prefix raw events = [] \<longleftrightarrow> blank raw \<and> events = []"
  by (auto simp: push_event_def blank_def Let_def)

lemma push_scanned_Nil:
  "push_scanned xs events = [] \<longleftrightarrow>
     events = [] \<and> (\<forall>x \<in> set xs. blank (str_or_empty (sc_spot_error x)) \<and> blank (str_or_empty (sc_perp_error x)))"
proof (induction xs arbitrary: events)
  case (Cons x xs)
  show ?case
  proof (cases "length (push_event ''mismatch_perp'' (str_or_empty (sc_perp_error x))
      (push_event ''mismatch_spot'' (str_or_empty (sc_spot_error x)) events)) \<ge> 12")
    case True
    then have "push_event ''mismatch_perp'' (str_or_empty (sc_perp_error x))
      (push_event ''mismatch_spot'' (str_or_empty (sc_spot_error x)) events) \<noteq> []" by auto
    with True show ?thesis by (auto simp: push_event_Nil)
  next
    case False
    with Cons show ?thesis by (auto simp: push_event_Nil)
  qed
qed simp

lemma push_refresh_Nil:
  "foldl (\<lambda>ev err. push_event prefix err ev) events errs = [] \<longleftrightarrow> events = [] \<and> (\<forall>e \<in> set errs. blank e)"
  by (induction errs arbitrary: events) (auto simp: push_event_Nil)

lemma push_refresh_distinct:
  "distinct events \<Longrightarrow> distinct (foldl (\<lambda>ev err. push_event prefix err ev) events errs)"
  by (induction errs arbitrary: events) (simp_all add: push_event_distinct)

lemma push_refresh_length:
  "length (foldl (\<lambda>ev err. push_event prefix err ev) events errs) \<le> length events + length errs"
proof (induction errs arbitrary: events)
  case (Cons e errs)
  show ?case
    using Cons[of "push_event prefix e events"] push_event_length[of prefix e events] by simp
qed simp

lemma push_scanned_facts:
  "distinct events \<Longrightarrow> length events \<le> 11 \<Longrightarrow>
   distinct (push_scanned xs events) \<and> length (push_scanned xs events) \<le> 13"
proof (induction xs arbitrary: events)
  case (Cons x xs)
  let ?e1 = "push_event ''mismatch_spot'' (str_or_empty (sc_spot_error x)) events"
  let ?e2 = "push_event ''mismatch_perp'' (str_or_empty (sc_perp_error x)) ?e1"
  have "distinct ?e2" using Cons.prems(1) by (intro push_event_distinct)
  moreover have "length ?e2 \<le> 13"
    using push_event_length[of "''mismatch_perp''" "str_or_empty (sc_perp_error x)" ?e1]
      push_event_length[of "''mismatch_spot''" "str_or_empty (sc_spot_error x)" events] Cons.prems(2) by linarith
  ultimately show ?case using Cons.IH[of ?e2] by (simp add: Let_def)
qed simp

section \<open>The lock file\<close>

text \<open>
  The cycle lock of several workers as an interleaving of their system calls. The file is
  \<open>Some (creator, mtime)\<close>; a worker is at one of the points of \<open>_acquire_cycle_file_lock\<close> and
  \<open>_release_cycle_file_lock\<close>. A crash leaves the file behind.
\<close>

datatype lock_pc = Outside | Trying nat | Checking nat | Removing nat | Holding | Releasing | Refused string

record lock_state =
  lk_file :: "(nat \<times> real) option"
  lk_pc :: "nat \<Rightarrow> lock_pc"

definition lock_stale_secs :: real where
  "lock_stale_secs = 180"

definition lock_init :: lock_state where
  "lock_init = \<lparr>lk_file = None, lk_pc = (\<lambda>_. Outside)\<rparr>"

definition goto :: "nat \<Rightarrow> lock_pc \<Rightarrow> lock_state \<Rightarrow> lock_state" where
  "goto p pc s = s\<lparr>lk_pc := (lk_pc s)(p := pc)\<rparr>"

inductive lock_step :: "lock_state \<Rightarrow> lock_state \<Rightarrow> bool" where
  start: "lk_pc s p = Outside \<or> (\<exists>r. lk_pc s p = Refused r) \<Longrightarrow> lock_step s (goto p (Trying 0) s)"
| create: "lk_pc s p = Trying k \<Longrightarrow> k < 2 \<Longrightarrow> lk_file s = None \<Longrightarrow>
    lock_step s ((goto p Holding s)\<lparr>lk_file := Some (p, now)\<rparr>)"
| exists: "lk_pc s p = Trying k \<Longrightarrow> k < 2 \<Longrightarrow> lk_file s = Some f \<Longrightarrow> lock_step s (goto p (Checking k) s)"
| exhausted: "lk_pc s p = Trying k \<Longrightarrow> 2 \<le> k \<Longrightarrow> lock_step s (goto p (Refused ''lock_busy'') s)"
| stat_gone: "lk_pc s p = Checking k \<Longrightarrow> lk_file s = None \<Longrightarrow> lock_step s (goto p (Refused ''lock_busy'') s)"
| stat_fresh: "lk_pc s p = Checking k \<Longrightarrow> lk_file s = Some (q, m) \<Longrightarrow> pos_part (now - m) \<le> lock_stale_secs \<Longrightarrow>
    lock_step s (goto p (Refused ''lock_busy'') s)"
| stat_stale: "lk_pc s p = Checking k \<Longrightarrow> lk_file s = Some (q, m) \<Longrightarrow> lock_stale_secs < pos_part (now - m) \<Longrightarrow>
    lock_step s (goto p (Removing k) s)"
| remove: "lk_pc s p = Removing k \<Longrightarrow> lk_file s = Some f \<Longrightarrow>
    lock_step s ((goto p (Trying (Suc k)) s)\<lparr>lk_file := None\<rparr>)"
| remove_gone: "lk_pc s p = Removing k \<Longrightarrow> lk_file s = None \<Longrightarrow>
    lock_step s (goto p (Refused ''lock_stale_remove_failed'') s)"
| release: "lk_pc s p = Holding \<Longrightarrow> lock_step s (goto p Releasing s)"
| unlink: "lk_pc s p = Releasing \<Longrightarrow> lock_step s ((goto p Outside s)\<lparr>lk_file := None\<rparr>)"
| crash: "lk_pc s p = Holding \<Longrightarrow> lock_step s (goto p Outside s)"

inductive_cases lock_stepE: "lock_step s s'"

text \<open>The states a run reaches while a condition holds of every state of it.\<close>

inductive lock_reach :: "(lock_state \<Rightarrow> bool) \<Rightarrow> lock_state \<Rightarrow> bool" for C where
  init: "C lock_init \<Longrightarrow> lock_reach C lock_init"
| step: "lock_reach C s \<Longrightarrow> lock_step s s' \<Longrightarrow> C s' \<Longrightarrow> lock_reach C s'"

definition in_cycle :: "lock_state \<Rightarrow> nat \<Rightarrow> bool" where
  "in_cycle s p \<longleftrightarrow> lk_pc s p = Holding \<or> lk_pc s p = Releasing"

definition no_removal :: "lock_state \<Rightarrow> bool" where
  "no_removal s \<longleftrightarrow> (\<forall>p k. lk_pc s p \<noteq> Removing k)"

definition lock_owner_ok :: "lock_state \<Rightarrow> bool" where
  "lock_owner_ok s \<longleftrightarrow> (\<forall>p. in_cycle s p \<longrightarrow> (\<exists>m. lk_file s = Some (p, m)))"

lemma goto_sels [simp]: "lk_file (goto p pc s) = lk_file s" "lk_pc (goto p pc s) = (lk_pc s)(p := pc)"
  by (simp_all add: goto_def)

lemma lock_step_owner:
  assumes "lock_step s s'" "lock_owner_ok s" "no_removal s"
  shows "lock_owner_ok s'"
  using assms
proof cases
  case (unlink p)
  then have "\<not> in_cycle s q" if "q \<noteq> p" for q
    using assms(2) that unfolding lock_owner_ok_def in_cycle_def by (metis option.inject prod.inject)
  then show ?thesis using unlink by (auto simp: lock_owner_ok_def in_cycle_def)
qed (auto simp: lock_owner_ok_def in_cycle_def no_removal_def)

lemma lock_reach_owner: "lock_reach no_removal s \<Longrightarrow> lock_owner_ok s \<and> no_removal s"
proof (induction rule: lock_reach.induct)
  case init
  then show ?case by (simp add: lock_owner_ok_def in_cycle_def lock_init_def)
next
  case (step s s')
  then show ?case using lock_step_owner by blast
qed

section \<open>Properties\<close>

text \<open>
  The failure streak counts the failed cycles since the last good one, but the exception
  handler of the cycle never sees it: the binding it reads stays at 0 whatever was recorded,
  so an exception after the streak was recorded cannot trip the circuit breaker.
\<close>

theorem fail_streak_two_bindings:
  "fst (record_api_fail_streak failed now (fail_run es)) = int (trailing_failures (map fst es @ [failed]))
   \<and> streak_read_in_handler (snd (record_api_fail_streak failed now (fail_run es))) = 0"
proof -
  have "py_trunc (real (trailing_failures (map fst es))) = int (trailing_failures (map fst es))"
    using py_trunc_of_int[of "int (trailing_failures (map fst es))"] by simp
  then show ?thesis
    using fail_run_state[of es]
    by (simp add: record_api_fail_streak_def streak_read_in_handler_def fail_init_def trailing_failures_def py_trunc_def Let_def)
qed

lemma set_dropWhile_sub: "set (dropWhile P xs) \<subseteq> set xs"
  by (induction xs) auto

lemma dropWhile_keeps: "c \<in> set xs \<Longrightarrow> \<not> P c \<Longrightarrow> c \<in> set (dropWhile P xs)"
  by (induction xs) auto

lemma py_strip_set:
  "set (py_strip s) \<subseteq> set s"
  "c \<in> set s \<Longrightarrow> \<not> is_space c \<Longrightarrow> c \<in> set (py_strip s)"
proof -
  show "set (py_strip s) \<subseteq> set s"
    unfolding py_strip_def set_rev by (metis set_dropWhile_sub set_rev subset_trans)
  show "c \<in> set s \<Longrightarrow> \<not> is_space c \<Longrightarrow> c \<in> set (py_strip s)"
    unfolding py_strip_def set_rev by (intro dropWhile_keeps) (simp_all add: dropWhile_keeps)
qed

lemma py_strip_Nil: "py_strip s = [] \<longleftrightarrow> list_all is_space s"
proof
  assume "py_strip s = []"
  then show "list_all is_space s" using py_strip_set(2)[of _ s] by (auto simp: list_all_iff)
next
  assume "list_all is_space s"
  then have d: "dropWhile is_space s = []" unfolding dropWhile_eq_Nil_conv list_all_iff .
  show "py_strip s = []" unfolding py_strip_def d by simp
qed

lemma blank_strip [simp]: "py_strip (py_strip s) = [] \<longleftrightarrow> py_strip s = []"
proof -
  have "list_all is_space (py_strip s) \<longleftrightarrow> list_all is_space s"
    unfolding list_all_iff using py_strip_set(1)[of s] py_strip_set(2)[of _ s] by blast
  then show ?thesis by (simp add: py_strip_Nil)
qed

lemma number_not_blank: "\<not> blank (str_of_int i)"
proof -
  obtain c cs where c: "str_of_int i = c # cs"
    by (cases "str_of_int i") (auto simp: str_of_int_def split: if_splits)
  then have "is_digit_char c \<or> c = CHR ''-''" using str_of_int_chars[of c i] by simp
  then have "\<not> is_space c" by (auto simp: is_digit_char_def is_space_def Let_def)
  with c show ?thesis by (simp add: blank_def py_strip_Nil)
qed

text \<open>
  A cycle counts as failed exactly when something went wrong: the event list is empty if
  and only if the first eight refresh errors, the refresh error and the errors of the first
  forty mismatch scans are all blank and there is no mere error count. The list has no
  duplicates and at most 13 entries.
\<close>

theorem fail_events_complete:
  "(collect_api_fail_events refresh scanned = [] \<longleftrightarrow>
      list_all blank (take 8 (rf_errors refresh)) \<and> blank (str_or_empty (rf_error refresh))
      \<and> \<not> (0 < rf_error_count refresh \<and> rf_errors refresh = [])
      \<and> list_all (\<lambda>x. blank (str_or_empty (sc_spot_error x)) \<and> blank (str_or_empty (sc_perp_error x))) (take 40 scanned))
   \<and> distinct (collect_api_fail_events refresh scanned)
   \<and> length (collect_api_fail_events refresh scanned) \<le> 13"
proof -
  let ?e1 = "foldl (\<lambda>ev err. push_event ''refresh'' err ev) [] (take 8 (rf_errors refresh))"
  let ?err = "py_strip (str_or_empty (rf_error refresh))"
  define e2 where "e2 = (if ?err \<noteq> [] then push_event ''refresh'' ?err ?e1 else ?e1)"
  define e3 where "e3 = (if rf_error_count refresh > 0 \<and> rf_errors refresh = []
    then push_event ''refresh_error_count'' (str_of_int (rf_error_count refresh)) e2 else e2)"
  have run: "collect_api_fail_events refresh scanned = push_scanned (take 40 scanned) e3"
    by (simp add: collect_api_fail_events_def Let_def e2_def e3_def)
  have "length ?e1 \<le> 8" "distinct ?e1"
    using push_refresh_length[of "''refresh''" "[]" "take 8 (rf_errors refresh)"]
      push_refresh_distinct[of "[]" "''refresh''" "take 8 (rf_errors refresh)"] by auto
  then have "length e2 \<le> 9" "distinct e2"
    using push_event_length[of "''refresh''" ?err ?e1] by (auto simp: push_event_distinct e2_def)
  then have "length e3 \<le> 11" "distinct e3"
    using push_event_length[of "''refresh_error_count''" "str_of_int (rf_error_count refresh)" e2]
    by (auto simp: push_event_distinct e3_def)
  then have facts: "distinct (collect_api_fail_events refresh scanned)" "length (collect_api_fail_events refresh scanned) \<le> 13"
    unfolding run using push_scanned_facts by blast+
  have "e2 = [] \<longleftrightarrow> list_all blank (take 8 (rf_errors refresh)) \<and> blank (str_or_empty (rf_error refresh))"
    by (auto simp: e2_def push_event_Nil push_refresh_Nil list_all_iff blank_def)
  then have "e3 = [] \<longleftrightarrow> list_all blank (take 8 (rf_errors refresh)) \<and> blank (str_or_empty (rf_error refresh))
      \<and> \<not> (0 < rf_error_count refresh \<and> rf_errors refresh = [])"
    by (auto simp: e3_def push_event_Nil number_not_blank)
  then show ?thesis
    using facts by (simp add: run push_scanned_Nil list_all_iff)
qed

text \<open>
  As long as no worker finds a lock file older than 180 seconds, the lock file excludes:
  however the system calls interleave and whoever crashes, at most one worker is inside a
  cycle.
\<close>

theorem lock_excludes_without_stale:
  assumes "lock_reach no_removal s" "in_cycle s p" "in_cycle s q"
  shows "p = q"
proof -
  have "lock_owner_ok s" using lock_reach_owner[OF assms(1)] by blast
  then obtain m n where "lk_file s = Some (p, m)" "lk_file s = Some (q, n)"
    using assms(2,3) unfolding lock_owner_ok_def by blast
  then show ?thesis by simp
qed

lemma sample_lock_run:
  "lock_reach no_removal ((goto 3 Holding (goto 3 (Trying 0) lock_init))\<lparr>lk_file := Some (3, 5)\<rparr>)"
proof -
  let ?s1 = "goto 3 (Trying 0) lock_init"
  let ?s2 = "(goto 3 Holding ?s1)\<lparr>lk_file := Some (3, 5)\<rparr>"
  have "lock_reach no_removal lock_init" by (rule lock_reach.init) (simp add: no_removal_def lock_init_def)
  moreover have "lock_step lock_init ?s1" by (rule lock_step.start) (simp add: lock_init_def)
  ultimately have "lock_reach no_removal ?s1"
    by (rule lock_reach.step) (simp add: no_removal_def lock_init_def)
  moreover have "lock_step ?s1 ?s2" by (rule lock_step.create[where k = 0]) (simp_all add: lock_init_def)
  ultimately show ?thesis
    by (rule lock_reach.step) (simp add: no_removal_def lock_init_def)
qed

theorem lock_excludes_without_stale_witness:
  "{q. in_cycle ((goto 3 Holding (goto 3 (Trying 0) lock_init))\<lparr>lk_file := Some (3, 5)\<rparr>) q} = {3}"
proof -
  have "in_cycle ((goto 3 Holding (goto 3 (Trying 0) lock_init))\<lparr>lk_file := Some (3, 5)\<rparr>) 3"
    by (simp add: in_cycle_def)
  then show ?thesis using lock_excludes_without_stale[OF sample_lock_run] by blast
qed

text \<open>The steps of one worker, for the sample run below.\<close>

lemma lock_reach_goto:
  "lock_reach (\<lambda>_. True) s \<Longrightarrow> lock_step s s' \<Longrightarrow> lock_reach (\<lambda>_. True) s'"
  by (rule lock_reach.step) simp_all

text \<open>
  The lock is lost when it is stale. After a worker crashed inside a cycle and left its
  file, two workers can both judge the file stale; the slower one then removes the fresh file
  of the faster one, and both run a cycle at the same time.
\<close>

theorem lock_lost_after_crash:
  "\<exists>s. lock_reach (\<lambda>_. True) s \<and> in_cycle s 1 \<and> in_cycle s 2"
proof -
  define a where "a = (goto 0 Holding (goto 0 (Trying 0) lock_init))\<lparr>lk_file := Some (0, 0)\<rparr>"
  define b where "b = goto 2 (Trying 0) (goto 1 (Trying 0) (goto 0 Outside a))"
  define c where "c = goto 2 (Checking 0) (goto 1 (Checking 0) b)"
  define d where "d = goto 2 (Removing 0) (goto 1 (Removing 0) c)"
  define e where "e = (goto 1 Holding ((goto 1 (Trying 1) d)\<lparr>lk_file := None\<rparr>))\<lparr>lk_file := Some (1, 200)\<rparr>"
  define f where "f = (goto 2 Holding ((goto 2 (Trying 1) e)\<lparr>lk_file := None\<rparr>))\<lparr>lk_file := Some (2, 201)\<rparr>"
  note defs = a_def b_def c_def d_def e_def f_def lock_init_def
  have "lock_reach (\<lambda>_. True) lock_init" by (rule lock_reach.init) simp
  then have "lock_reach (\<lambda>_. True) (goto 0 (Trying 0) lock_init)"
    by (rule lock_reach_goto) (rule lock_step.start, simp add: lock_init_def)
  then have "lock_reach (\<lambda>_. True) a" unfolding a_def
    by (rule lock_reach_goto) (rule lock_step.create[where k = 0]; simp add: lock_init_def)
  then have "lock_reach (\<lambda>_. True) (goto 0 Outside a)"
    by (rule lock_reach_goto) (rule lock_step.crash, simp add: a_def)
  then have "lock_reach (\<lambda>_. True) (goto 1 (Trying 0) (goto 0 Outside a))"
    by (rule lock_reach_goto) (rule lock_step.start, simp add: a_def lock_init_def)
  then have "lock_reach (\<lambda>_. True) b" unfolding b_def
    by (rule lock_reach_goto) (rule lock_step.start, simp add: a_def lock_init_def)
  then have "lock_reach (\<lambda>_. True) (goto 1 (Checking 0) b)"
    by (rule lock_reach_goto) (rule lock_step.exists[where k = 0]; simp add: a_def b_def)
  then have "lock_reach (\<lambda>_. True) c" unfolding c_def
    by (rule lock_reach_goto) (rule lock_step.exists[where k = 0]; simp add: a_def b_def)
  then have "lock_reach (\<lambda>_. True) (goto 1 (Removing 0) c)"
    by (rule lock_reach_goto)
      (rule lock_step.stat_stale[where q = 0 and m = 0 and now = 200]; simp add: a_def b_def c_def lock_stale_secs_def)
  then have "lock_reach (\<lambda>_. True) d" unfolding d_def
    by (rule lock_reach_goto)
      (rule lock_step.stat_stale[where q = 0 and m = 0 and now = 200]; simp add: a_def b_def c_def lock_stale_secs_def)
  then have "lock_reach (\<lambda>_. True) ((goto 1 (Trying 1) d)\<lparr>lk_file := None\<rparr>)"
    by (rule lock_reach_goto) (use lock_step.remove[of d 1 0 "(0, 0)"] in \<open>simp add: a_def b_def c_def d_def\<close>)
  then have "lock_reach (\<lambda>_. True) e" unfolding e_def
    by (rule lock_reach_goto) (rule lock_step.create[where k = 1]; simp)
  then have "lock_reach (\<lambda>_. True) ((goto 2 (Trying 1) e)\<lparr>lk_file := None\<rparr>)"
    by (rule lock_reach_goto) (use lock_step.remove[of e 2 0 "(1, 200)"] in \<open>simp add: e_def d_def\<close>)
  then have "lock_reach (\<lambda>_. True) f" unfolding f_def
    by (rule lock_reach_goto) (rule lock_step.create[where k = 1]; simp)
  moreover have "in_cycle f 1" "in_cycle f 2" by (simp_all add: in_cycle_def defs)
  ultimately show ?thesis by blast
qed

end
