(* ===== verification/RiskGuards.thy ===== *)
theory RiskGuards
  imports TargetState Legs
begin

text \<open>
  The reports a cycle consults before it rebalances: portfolio drawdown
  (\<open>drawdown_guard.py\<close>), forced and risk-reducing close plans and the basis shock exit
  (\<open>close_plan.py\<close>, \<open>risk_reduce.py\<close>), the profit lock (\<open>profit_lock.py\<close>), and the fee and
  capacity gates of a rebalance (\<open>rebalance_capacity.py\<close>). The tables of equity and market
  snapshots and the taker fee of an exchange (\<open>_resolve_taker_fee\<close>, a cached read of the
  exchange) are arguments.
\<close>

section \<open>Portfolio drawdown\<close>

record equity_row =
  eq_total :: fopt
  eq_time :: real

datatype peak_source = Manual | Window | Current

record drawdown_report =
  dr_available :: bool
  dr_reason :: string
  dr_current_nav :: usd
  dr_peak_nav :: usd
  dr_manual_peak :: usd
  dr_window_peak :: usd
  dr_source :: "peak_source option"
  dr_pct :: fopt
  dr_window_hours :: int
  dr_count :: nat

text \<open>\<open>order_by(timestamp.desc()).first()\<close> and the largest total in the window.\<close>

definition latest_equity :: "equity_row list \<Rightarrow> equity_row option" where
  "latest_equity rows = (case sort_desc eq_time rows of [] \<Rightarrow> None | r # _ \<Rightarrow> Some r)"

definition window_peak :: "real \<Rightarrow> equity_row list \<Rightarrow> real" where
  "window_peak cutoff rows =
     (case sort_desc (\<lambda>r. to_float (eq_total r) 0) (filter (\<lambda>r. eq_time r \<ge> cutoff) rows) of
        [] \<Rightarrow> 0 | r # _ \<Rightarrow> to_float (eq_total r) 0)"

definition current_nav :: "nav_meta \<Rightarrow> equity_row list \<Rightarrow> real" where
  "current_nav nav rows =
     (let nav0 = max 0 (max (to_float (nm_total_usd nav) 0) (to_float (nm_used_usd nav) 0)) in
      case latest_equity rows of None \<Rightarrow> nav0 | Some r \<Rightarrow> max nav0 (to_float (eq_total r) 0))"

definition build_portfolio_drawdown_report :: "equity_row list \<Rightarrow> nav_meta \<Rightarrow> int \<Rightarrow> auto_cfg \<Rightarrow> real \<Rightarrow> drawdown_report" where
  "build_portfolio_drawdown_report rows nav lookback_hours cfg now =
     (let cur = current_nav nav rows;
          window_h = max 1 (if lookback_hours = 0 then 1 else lookback_hours)
      in if cur \<le> 0 then
           \<lparr>dr_available = False, dr_reason = ''current_nav_unavailable'', dr_current_nav = 0, dr_peak_nav = 0,
            dr_manual_peak = 0, dr_window_peak = 0, dr_source = None, dr_pct = None,
            dr_window_hours = window_h, dr_count = 0\<rparr>
         else
           let cutoff = now - of_int window_h * 3600;
               manual = pos_part (to_float (cfg_drawdown_peak_nav_usdt cfg) 0);
               eff = (case cfg_drawdown_peak_reset_at cfg of
                        None \<Rightarrow> cutoff | Some t \<Rightarrow> if t > cutoff then t else cutoff);
               win = window_peak eff rows;
               peak = max cur (max win manual)
           in if peak \<le> 0 then
                \<lparr>dr_available = False, dr_reason = ''peak_nav_unavailable'', dr_current_nav = py_round cur 6,
                 dr_peak_nav = 0, dr_manual_peak = py_round manual 6, dr_window_peak = py_round win 6,
                 dr_source = None, dr_pct = None, dr_window_hours = window_h, dr_count = 0\<rparr>
              else
                \<lparr>dr_available = True, dr_reason = ''ok'', dr_current_nav = py_round cur 6,
                 dr_peak_nav = py_round peak 6, dr_manual_peak = py_round manual 6,
                 dr_window_peak = py_round win 6,
                 dr_source = Some (if manual > 0 \<and> peak \<ge> max cur win then Manual
                                   else if win > 0 then Window else Current),
                 dr_pct = Some (py_round ((cur / peak - 1) * 100) 6),
                 dr_window_hours = window_h,
                 dr_count = length (filter (\<lambda>r. eq_time r \<ge> eff) rows)\<rparr>)"

section \<open>Forced and risk-reducing closes\<close>

definition close_of_row :: "string list \<Rightarrow> current_row \<Rightarrow> plan_item" where
  "close_of_row reasons cur =
     empty_item\<lparr>pi_strategy_id := Some (cr_strategy_id cur), pi_row_id := Some (cr_row_id cur),
       pi_symbol := Some (cr_symbol cur), pi_size_usd := Some (py_round (row_size cur) 2),
       pi_reason_codes := reasons\<rparr>"

fun force_close_rows :: "string \<Rightarrow> int list \<Rightarrow> current_row list \<Rightarrow> plan_item list" where
  "force_close_rows reason seen [] = []"
| "force_close_rows reason seen (cur # rest) =
     (let sid = cr_strategy_id cur in
      if sid \<le> 0 \<or> sid \<in> set seen then force_close_rows reason seen rest
      else if row_size cur \<le> 0 then force_close_rows reason (sid # seen) rest
      else close_of_row [reason] cur # force_close_rows reason (sid # seen) rest)"

definition build_force_close_all_plan :: "current_state \<Rightarrow> string \<Rightarrow> plan_item list" where
  "build_force_close_all_plan current reason = force_close_rows reason [] (cs_rows current)"

definition risk_reasons :: "real \<Rightarrow> current_row \<Rightarrow> string list" where
  "risk_reasons hold_conf_min cur =
     (if \<not> cr_matched cur then [''unmatched_under_stale_data'']
      else if cr_e24 cur \<le> 0 \<and> cr_confidence cur < pos_part hold_conf_min
      then [''negative_expectation_and_confidence_breach''] else [])"

definition build_risk_reduce_close_plan :: "current_state \<Rightarrow> real \<Rightarrow> plan_item list" where
  "build_risk_reduce_close_plan current hold_conf_min =
     map (\<lambda>cur. close_of_row (risk_reasons hold_conf_min cur) cur)
       (filter (\<lambda>cur. risk_reasons hold_conf_min cur \<noteq> []) (cs_rows current))"

section \<open>Basis shock\<close>

record market_row =
  mk_exchange :: int
  mk_symbol :: string
  mk_type :: string
  mk_bucket :: "int option"
  mk_close :: fopt

datatype basis_stats = StatsError string | Stats real real nat

definition snapshot_prices :: "int \<Rightarrow> string \<Rightarrow> string \<Rightarrow> nat \<Rightarrow> market_row list \<Rightarrow> market_row list" where
  "snapshot_prices ex sym' typ limit rows =
     take limit (sort_desc (\<lambda>r. of_int (int_or_zero (mk_bucket r)))
       (filter (\<lambda>r. mk_exchange r = ex \<and> mk_symbol r = py_upper sym' \<and> mk_type r = typ) rows))"

text \<open>\<open>{row[0]: price for row in rows if ...}\<close>, as pairs with the last entry first.\<close>

definition price_map :: "market_row list \<Rightarrow> (int \<times> real) list" where
  "price_map rows =
     rev (concat (map (\<lambda>r. case mk_bucket r of
                         None \<Rightarrow> []
                       | Some t \<Rightarrow> if to_float (mk_close r) 0 > 0 then [(t, to_float (mk_close r) 0)] else []) rows))"

definition common_buckets :: "nat \<Rightarrow> (int \<times> real) list \<Rightarrow> (int \<times> real) list \<Rightarrow> int list" where
  "common_buckets cap perp spot =
     (let ts = sort (filter (\<lambda>t. t \<in> fst ` set spot) (remdups (map fst perp)))
      in if length ts > cap then drop (length ts - cap) ts else ts)"

definition basis_value :: "(int \<times> real) list \<Rightarrow> (int \<times> real) list \<Rightarrow> int \<Rightarrow> real list" where
  "basis_value perp spot t =
     (let p = to_float (map_of perp t) 0; s = to_float (map_of spot t) 0
      in if p \<le> 0 \<or> s \<le> 0 then [] else [(p - s) / s * 100])"

definition mean_of :: "real list \<Rightarrow> real" where
  "mean_of xs = sum_list xs / length xs"

definition variance_of :: "real list \<Rightarrow> real" where
  "variance_of xs = sum_list (map (\<lambda>x. (x - mean_of xs)\<^sup>2) xs) / max 1 (real (length xs))"

definition load_basis_shock_stats :: "market_row list \<Rightarrow> int \<Rightarrow> int \<Rightarrow> string \<Rightarrow> string \<Rightarrow> nat \<Rightarrow> basis_stats" where
  "load_basis_shock_stats rows perp_ex spot_ex perp_symbol spot_symbol lookback =
     (if perp_ex \<le> 0 \<or> spot_ex \<le> 0 \<or> perp_symbol = [] \<or> spot_symbol = [] then StatsError ''invalid_basis_context''
      else
        let cap = max 40 (if lookback = 0 then 192 else lookback);
            limit = max (cap * 3) (cap + 40);
            perp_rows = snapshot_prices perp_ex perp_symbol ''perp'' limit rows;
            spot_rows = snapshot_prices spot_ex spot_symbol ''spot'' limit rows
        in if perp_rows = [] \<or> spot_rows = [] then StatsError ''basis_snapshot_missing''
           else
             let perp = price_map perp_rows; spot = price_map spot_rows;
                 all_ts = common_buckets (length perp) perp spot;
                 ts = common_buckets cap perp spot
             in if length all_ts < 20 then StatsError ''basis_snapshot_overlap_insufficient''
                else
                  let vals = concat (map (basis_value perp spot) ts)
                  in if length vals < 20 then StatsError ''basis_series_too_short''
                     else
                       let mean = mean_of vals; std = sqrt (max (variance_of vals) 0)
                       in if std \<le> 1 / 10 ^ 9 then StatsError ''basis_std_too_small''
                          else Stats (py_round mean 8) (py_round std 8) (length vals))"

datatype shock_status = ShockSkipNoBasis | ShockSkipNoStats string | ShockHold | ShockTriggered

record shock_scan =
  sk_sid :: int
  sk_row_id :: string
  sk_symbol :: "string option"
  sk_status :: shock_status
  sk_source :: string
  sk_current_basis :: fopt
  sk_mean :: fopt
  sk_std :: fopt
  sk_z :: fopt
  sk_obs :: nat
  sk_pair_notional :: fopt

text \<open>The current basis of a pair and where it comes from.\<close>

definition current_basis :: "leg_snapshot \<Rightarrow> scan_row option \<Rightarrow> (real \<times> string) option" where
  "current_basis leg matched =
     (let spot_px = pos_part (lg_spot_price leg); perp_px = pos_part (lg_perp_price leg) in
      if spot_px > 0 \<and> perp_px > 0 then Some ((perp_px - spot_px) / spot_px * 100, ''live_position_prices'')
      else
        let row_basis = (case matched of None \<Rightarrow> 0 | Some r \<Rightarrow> to_float (sr_basis_pct r) 0)
        in if row_basis \<noteq> 0 then Some (row_basis, ''scan_basis_pct'') else None)"

definition shock_pair_notional :: "leg_snapshot \<Rightarrow> hold \<Rightarrow> strategy_row \<Rightarrow> real" where
  "shock_pair_notional leg h st =
     (let spot_n = pos_part (lg_spot_size leg * pos_part (lg_spot_price leg));
          perp_n = pos_part (lg_perp_size leg * pos_part (lg_perp_price leg));
          pair = (if spot_n > 0 \<and> perp_n > 0 then min spot_n perp_n else 0)
      in max 0 (max pair (max (to_float (hd_pair_notional h) 0) (to_float (st_initial_margin st) 0))))"

definition shock_status_ok :: "strategy_row \<Rightarrow> bool" where
  "shock_status_ok st \<longleftrightarrow> py_lower (str_or_empty (st_status st)) \<in> {''active'', ''closing'', ''error''}"

definition shock_one ::
    "market_row list \<Rightarrow> real \<Rightarrow> scan_row list \<Rightarrow> session \<Rightarrow> hold \<Rightarrow> strategy_row \<Rightarrow> shock_scan \<times> plan_item list" where
  "shock_one market threshold open_rows s h st =
     (let sid = int_or_zero (hd_strategy_id h);
          leg = get_open_leg_snapshot sid s;
          scan = \<lparr>sk_sid = sid, sk_row_id = str_or_empty (hd_row_id h), sk_symbol = st_symbol st,
                  sk_status = ShockSkipNoBasis, sk_source = '''', sk_current_basis = None, sk_mean = None,
                  sk_std = None, sk_z = None, sk_obs = 0, sk_pair_notional = None\<rparr>
      in case current_basis leg (matched_row h open_rows) of
           None \<Rightarrow> (scan, [])
         | Some (basis, source) \<Rightarrow>
             let perp_symbol = py_upper (str_or_empty (py_or_str (st_symbol st) (hd_symbol h)));
                 scan1 = scan\<lparr>sk_source := source, sk_current_basis := Some (py_round basis 8)\<rparr>
             in (case load_basis_shock_stats market (int_or_zero (st_short_ex st)) (int_or_zero (st_long_ex st))
                        perp_symbol (spot_symbol_from_perp_symbol (Some perp_symbol)) 192 of
                   StatsError e \<Rightarrow> (scan1\<lparr>sk_status := ShockSkipNoStats e\<rparr>, [])
                 | Stats mean std obs \<Rightarrow>
                     let z = (basis - mean) / max (1 / 10 ^ 9) std;
                         triggered = (\<bar>z\<bar> \<ge> threshold);
                         notional = shock_pair_notional leg h st
                     in (scan1\<lparr>sk_status := (if triggered then ShockTriggered else ShockHold),
                           sk_mean := Some (py_round mean 8), sk_std := Some (py_round (max (1 / 10 ^ 9) std) 8),
                           sk_z := Some (py_round z 8), sk_obs := obs,
                           sk_pair_notional := Some (py_round (pos_part notional) 6)\<rparr>,
                         if triggered then
                           [empty_item\<lparr>pi_strategy_id := Some sid, pi_row_id := Some (str_or_empty (hd_row_id h)),
                              pi_symbol := st_symbol st, pi_size_usd := Some (py_round (pos_part notional) 2),
                              pi_reason_codes := [''basis_shock_exit'', ''basis_z_exceeds_threshold'']\<rparr>]
                         else [])))"

record shock_report =
  sp_enabled :: bool
  sp_threshold :: real
  sp_close_plan :: "plan_item list"
  sp_scanned :: "shock_scan list"

text \<open>Each strategy is looked at once; holds without an active strategy are skipped.\<close>

fun shock_loop ::
    "market_row list \<Rightarrow> real \<Rightarrow> scan_row list \<Rightarrow> session \<Rightarrow> int list \<Rightarrow> hold list \<Rightarrow> (shock_scan \<times> plan_item list) list" where
  "shock_loop market threshold open_rows s seen [] = []"
| "shock_loop market threshold open_rows s seen (h # hs) =
     (let sid = int_or_zero (hd_strategy_id h) in
      if sid \<le> 0 \<or> sid \<in> set seen then shock_loop market threshold open_rows s seen hs
      else case query_strategy sid s of
        None \<Rightarrow> shock_loop market threshold open_rows s (sid # seen) hs
      | Some st \<Rightarrow>
          if \<not> shock_status_ok st then shock_loop market threshold open_rows s (sid # seen) hs
          else shock_one market threshold open_rows s h st # shock_loop market threshold open_rows s (sid # seen) hs)"

definition build_basis_shock_close_plan :: "market_row list \<Rightarrow> session \<Rightarrow> auto_cfg \<Rightarrow> hold list \<Rightarrow> scan_row list \<Rightarrow> shock_report" where
  "build_basis_shock_close_plan market s cfg holds open_rows =
     (let threshold = pos_part (cfg_float (cfg_basis_shock_exit_z cfg) 0) in
      if threshold \<le> 0 then \<lparr>sp_enabled = False, sp_threshold = 0, sp_close_plan = [], sp_scanned = []\<rparr>
      else
        let out = shock_loop market threshold open_rows s [] holds
        in \<lparr>sp_enabled = True, sp_threshold = py_round threshold 6,
            sp_close_plan = concat (map snd out), sp_scanned = map fst out\<rparr>)"

section \<open>Profit lock\<close>

type_synonym fee_source = "exchange_row option \<Rightarrow> string \<Rightarrow> string \<Rightarrow> fopt"

text \<open>The two taker fees of closing a pair, in percent.\<close>

definition close_fee_pct :: "fee_source \<Rightarrow> session \<Rightarrow> strategy_row \<Rightarrow> string \<Rightarrow> real" where
  "close_fee_pct fee s st perp_symbol =
     (let perp_ex = query_exchange (int_or_zero (st_short_ex st)) s;
          spot_ex = query_exchange (int_or_zero (st_long_ex st)) s;
          spot_symbol = split_head (CHR '':'') perp_symbol
      in (pos_part (to_float (fee perp_ex ''swap'' perp_symbol) 0)
          + pos_part (to_float (fee spot_ex ''spot'' spot_symbol) 0)) * 100)"

definition rows_of :: "int \<Rightarrow> current_row list \<Rightarrow> current_row list" where
  "rows_of sid rows = filter (\<lambda>r. cr_strategy_id r = sid) rows"

definition held_notional :: "int \<Rightarrow> current_row list \<Rightarrow> real" where
  "held_notional sid rows = sum_list (map row_size (rows_of sid rows))"

text \<open>The notional-weighted average of a field over the rows of a strategy, 0 without notional.\<close>

definition held_average :: "(current_row \<Rightarrow> real) \<Rightarrow> int \<Rightarrow> current_row list \<Rightarrow> real" where
  "held_average f sid rows =
     (if pos_part (held_notional sid rows) > 0
      then sum_list (map (\<lambda>r. row_size r * f r) (rows_of sid rows)) / pos_part (held_notional sid rows) else 0)"

definition first_row_id :: "int \<Rightarrow> current_row list \<Rightarrow> string" where
  "first_row_id sid rows =
     (case filter (\<lambda>rid. rid \<noteq> []) (map cr_row_id (rows_of sid rows)) of [] \<Rightarrow> '''' | rid # _ \<Rightarrow> rid)"

record lock_scan =
  lc_sid :: int
  lc_row_id :: string
  lc_symbol :: "string option"
  lc_error :: "string option"
  lc_triggered :: bool
  lc_spread_pct :: real
  lc_spread_usd :: usd
  lc_pair_notional :: usd
  lc_entry_fee :: real
  lc_close_fee :: real
  lc_entry_e24 :: real
  lc_current_e24 :: real
  lc_threshold :: real
  lc_metric :: real

definition lock_skip :: "int \<Rightarrow> strategy_row \<Rightarrow> string option \<Rightarrow> lock_scan" where
  "lock_skip sid st err =
     \<lparr>lc_sid = sid, lc_row_id = '''', lc_symbol = st_symbol st, lc_error = err, lc_triggered = False,
      lc_spread_pct = 0, lc_spread_usd = 0, lc_pair_notional = 0, lc_entry_fee = 0, lc_close_fee = 0,
      lc_entry_e24 = 0, lc_current_e24 = 0, lc_threshold = 0, lc_metric = 0\<rparr>"

definition lock_entry_fee :: "strategy_row \<Rightarrow> real \<Rightarrow> real \<Rightarrow> real" where
  "lock_entry_fee st hint close_fee =
     (let raw = pos_part (to_float (st_entry_open_fee st) 0)
      in if raw > 0 then raw else if hint > 0 then hint else close_fee)"

definition lock_entry_e24 :: "strategy_row \<Rightarrow> real \<Rightarrow> real" where
  "lock_entry_e24 st current =
     (let e = to_float (st_entry_e24 st) current in if \<bar>e\<bar> \<le> 1 / 10 ^ 12 then current else e)"

definition lock_one :: "fee_source \<Rightarrow> session \<Rightarrow> current_row list \<Rightarrow> hold \<Rightarrow> strategy_row \<Rightarrow> lock_scan \<times> plan_item list" where
  "lock_one fee s rows h st =
     (let sid = int_or_zero (hd_strategy_id h) in
      case calc_spread_pnl_pct st (open_positions_of sid s) (to_float (hd_pair_notional h) 0) of
        (None, _, _, err) \<Rightarrow> (lock_skip sid st err, [])
      | (Some spread, usd, pair, _) \<Rightarrow>
          let current_e24 = held_average cr_e24 sid rows;
              cfee = close_fee_pct fee s st (str_or_empty (py_or_str (st_symbol st) (hd_symbol h)));
              efee = lock_entry_fee st (held_average cr_fee_pct sid rows) cfee;
              entry_e24 = lock_entry_e24 st current_e24;
              threshold = max entry_e24 current_e24;
              metric = spread - efee - cfee;
              triggered = (metric \<ge> threshold);
              row_id = str_or_empty (py_or_str (hd_row_id h) (Some (first_row_id sid rows)))
          in (\<lparr>lc_sid = sid, lc_row_id = row_id, lc_symbol = st_symbol st, lc_error = None,
               lc_triggered = triggered, lc_spread_pct = py_round spread 6, lc_spread_usd = py_round usd 6,
               lc_pair_notional = py_round pair 6, lc_entry_fee = py_round efee 6, lc_close_fee = py_round cfee 6,
               lc_entry_e24 = py_round entry_e24 6, lc_current_e24 = py_round current_e24 6,
               lc_threshold = py_round threshold 6, lc_metric = py_round metric 6\<rparr>,
              if triggered then
                [empty_item\<lparr>pi_strategy_id := Some sid, pi_row_id := Some row_id, pi_symbol := st_symbol st,
                   pi_size_usd := Some (py_round (pos_part pair) 2),
                   pi_reason_codes := [''lock_spread_excess_profit'', ''lock_metric_pct_ge_threshold_pct'']\<rparr>]
              else []))"

fun lock_loop :: "fee_source \<Rightarrow> session \<Rightarrow> current_row list \<Rightarrow> int list \<Rightarrow> hold list \<Rightarrow> (lock_scan \<times> plan_item list) list" where
  "lock_loop fee s rows seen [] = []"
| "lock_loop fee s rows seen (h # hs) =
     (let sid = int_or_zero (hd_strategy_id h) in
      if sid \<le> 0 \<or> sid \<in> set seen then lock_loop fee s rows seen hs
      else case query_strategy sid s of
        None \<Rightarrow> lock_loop fee s rows (sid # seen) hs
      | Some st \<Rightarrow>
          if \<not> shock_status_ok st then lock_loop fee s rows (sid # seen) hs
          else lock_one fee s rows h st # lock_loop fee s rows (sid # seen) hs)"

definition build_profit_lock_close_plan :: "fee_source \<Rightarrow> session \<Rightarrow> hold list \<Rightarrow> current_state \<Rightarrow> plan_item list \<times> lock_scan list" where
  "build_profit_lock_close_plan fee s holds current =
     (let out = lock_loop fee s (cs_rows current) [] holds in (concat (map snd out), map fst out))"

section \<open>Gates of a rebalance\<close>

record cover_item =
  ci_sid :: int
  ci_row_id :: string
  ci_error :: "string option"
  ci_covered :: bool
  ci_spread_pct :: real
  ci_spread_usd :: usd
  ci_pair_notional :: usd
  ci_entry_fee :: real
  ci_close_fee :: real
  ci_required :: real

definition cover_blocked :: "int \<Rightarrow> string \<Rightarrow> string \<Rightarrow> cover_item" where
  "cover_blocked sid row_id err =
     \<lparr>ci_sid = sid, ci_row_id = row_id, ci_error = Some err, ci_covered = False, ci_spread_pct = 0,
      ci_spread_usd = 0, ci_pair_notional = 0, ci_entry_fee = 0, ci_close_fee = 0, ci_required = 0\<rparr>"

definition cover_entry_fee :: "strategy_row \<Rightarrow> plan_item \<Rightarrow> real \<Rightarrow> real" where
  "cover_entry_fee st one cfee =
     (let raw = pos_part (to_float (st_entry_open_fee st) 0)
      in if raw > 0 then raw else pos_part (to_float (pi_close_fee one) cfee))"

definition cover_one :: "fee_source \<Rightarrow> session \<Rightarrow> plan_item \<Rightarrow> cover_item" where
  "cover_one fee s one =
     (let sid = item_sid one in
      if sid \<le> 0 then cover_blocked sid '''' ''invalid_strategy_id''
      else case query_strategy sid s of
        None \<Rightarrow> cover_blocked sid '''' ''strategy_not_found''
      | Some st \<Rightarrow>
          (case calc_spread_pnl_pct st (open_positions_of sid s)
                  (max 0 (max (to_float (pi_size_usd one) 0) (to_float (st_initial_margin st) 0))) of
             (None, _, _, err) \<Rightarrow>
               cover_blocked sid (str_or_empty (pi_row_id one))
                 (str_or_empty (py_or_str err (Some ''spread_metric_unavailable'')))
           | (Some spread, usd, pair, _) \<Rightarrow>
               let cfee = close_fee_pct fee s st (str_or_empty (py_or_str (st_symbol st) (pi_symbol one)));
                   efee = cover_entry_fee st one cfee
               in \<lparr>ci_sid = sid, ci_row_id = str_or_empty (pi_row_id one), ci_error = None,
                   ci_covered = (spread \<ge> efee + cfee), ci_spread_pct = py_round spread 6,
                   ci_spread_usd = py_round usd 6, ci_pair_notional = py_round pair 6,
                   ci_entry_fee = py_round efee 6, ci_close_fee = py_round cfee 6,
                   ci_required = py_round (efee + cfee) 6\<rparr>))"

record cover_report =
  co_required :: bool
  co_checked :: nat
  co_blocked :: nat
  co_all_covered :: bool
  co_items :: "cover_item list"

definition build_rebalance_fee_coverage_report :: "fee_source \<Rightarrow> session \<Rightarrow> plan_item list \<Rightarrow> cover_report" where
  "build_rebalance_fee_coverage_report fee s close_plan =
     (let items = map (cover_one fee s) close_plan;
          blocked = filter (\<lambda>x. \<not> ci_covered x) items
      in \<lparr>co_required = (close_plan \<noteq> []), co_checked = length items, co_blocked = length blocked,
          co_all_covered = (if close_plan \<noteq> [] then items \<noteq> [] \<and> blocked = [] else True), co_items = items\<rparr>)"

record capacity_report =
  ca_checked :: bool
  ca_allow :: bool
  ca_reason :: string
  ca_current_pairs :: int
  ca_selected :: int
  ca_desired :: int
  ca_available :: usd
  ca_min_pair :: usd
  ca_constraints :: bool

text \<open>The preview is total in the model, so the code's exception branch has no counterpart here.\<close>

definition build_rebalance_capacity_report ::
    "scan_row list \<Rightarrow> hold list \<Rightarrow> auto_cfg \<Rightarrow> nav_meta \<Rightarrow> capital_row list \<Rightarrow> capacity_report" where
  "build_rebalance_capacity_report open_rows holds cfg nav capital =
     (let default_min = max 1 (to_float (cfg_min_pair_notional_usd cfg) 300) in
      if holds = [] then
        \<lparr>ca_checked = False, ca_allow = True, ca_reason = ''no_current_holds'', ca_current_pairs = 0,
         ca_selected = 0, ca_desired = 0, ca_available = 0, ca_min_pair = py_round default_min 6, ca_constraints = False\<rparr>
      else
        let pv = build_preview open_rows holds cfg nav capital;
            sel = int (length (pv_selected pv));
            available = pos_part (pv_available pv);
            min_pair = max 1 (py_round (pp_min_pair (pv_params pv)) 2);
            not_exhausted = (sel > 0 \<and> available + 1 / 10 ^ 9 \<ge> min_pair)
        in \<lparr>ca_checked = True, ca_allow = (\<not> not_exhausted),
            ca_reason = (if \<not> not_exhausted then ''capacity_exhausted_or_no_feasible_new_entries'' else ''capacity_still_available''),
            ca_current_pairs = pv_current_pairs pv, ca_selected = sel, ca_desired = pv_desired_pairs pv,
            ca_available = py_round available 6, ca_min_pair = py_round min_pair 6,
            ca_constraints = (pv_caps pv \<noteq> [])\<rparr>)"

section \<open>Properties\<close>

text \<open>
  An available drawdown report is sound: the peak is at least the current value and both
  are positive, and the reported drawdown lies between -100 and 0 percent, so a positive
  threshold configured by mistake would stop every cycle, a negative one none without a loss.
\<close>

theorem drawdown_report_bounds:
  assumes "dr_available (build_portfolio_drawdown_report rows nav hours cfg now)"
  shows "\<exists>d. dr_pct (build_portfolio_drawdown_report rows nav hours cfg now) = Some d \<and> - 100 \<le> d \<and> d \<le> 0
    \<and> dr_current_nav (build_portfolio_drawdown_report rows nav hours cfg now)
        \<le> dr_peak_nav (build_portfolio_drawdown_report rows nav hours cfg now)
    \<and> (d = 0 \<or> dr_source (build_portfolio_drawdown_report rows nav hours cfg now) \<noteq> Some Current)"
proof -
  have round: "- 100 \<le> py_round ((c / p - 1) * 100) 6 \<and> py_round ((c / p - 1) * 100) 6 \<le> 0"
    if "0 < c" "c \<le> p" for c p :: real
  proof -
    have "- 100 \<le> (c / p - 1) * 100" "(c / p - 1) * 100 \<le> 0" using that by (simp_all add: field_simps)
    from py_round_mono[OF this(1), of 6] py_round_mono[OF this(2), of 6] show ?thesis by simp
  qed
  let ?c = "current_nav nav rows"
  have cur: "0 < ?c"
    using assms by (auto simp: build_portfolio_drawdown_report_def Let_def split: if_splits)
  define win where "win = window_peak (case cfg_drawdown_peak_reset_at cfg of
      None \<Rightarrow> now - of_int (max 1 (if hours = 0 then 1 else hours)) * 3600
    | Some t \<Rightarrow> if t > now - of_int (max 1 (if hours = 0 then 1 else hours)) * 3600 then t
        else now - of_int (max 1 (if hours = 0 then 1 else hours)) * 3600) rows"
  define manual where "manual = pos_part (to_float (cfg_drawdown_peak_nav_usdt cfg) 0)"
  define peak where "peak = max ?c (max win manual)"
  have p: "?c \<le> peak" "0 < peak" using cur by (simp_all add: peak_def)
  have rep: "dr_pct (build_portfolio_drawdown_report rows nav hours cfg now) = Some (py_round ((?c / peak - 1) * 100) 6)"
    "dr_current_nav (build_portfolio_drawdown_report rows nav hours cfg now) = py_round ?c 6"
    "dr_peak_nav (build_portfolio_drawdown_report rows nav hours cfg now) = py_round peak 6"
    "dr_source (build_portfolio_drawdown_report rows nav hours cfg now)
       = Some (if manual > 0 \<and> peak \<ge> max ?c win then Manual else if win > 0 then Window else Current)"
    using cur p by (simp_all add: build_portfolio_drawdown_report_def Let_def win_def[symmetric] manual_def[symmetric] peak_def[symmetric])
  have "peak = ?c" if "\<not> (manual > 0 \<and> peak \<ge> max ?c win)" "\<not> win > 0"
    using that cur by (auto simp: peak_def manual_def pos_part_def max_def split: if_splits)
  then have "py_round ((?c / peak - 1) * 100) 6 = 0 \<or> dr_source (build_portfolio_drawdown_report rows nav hours cfg now) \<noteq> Some Current"
    unfolding rep using cur by auto
  then show ?thesis
    using round[OF cur p(1)] py_round_mono[OF p(1), of 6] unfolding rep by blast
qed

theorem drawdown_report_bounds_witness:
  "\<exists>d. dr_pct (build_portfolio_drawdown_report [\<lparr>eq_total = Some 20000, eq_time = 50\<rparr>, \<lparr>eq_total = Some 9000, eq_time = 90\<rparr>]
         sample_nav 168 default_cfg 100) = Some d \<and> - 100 \<le> d \<and> d \<le> 0"
proof -
  have "dr_available (build_portfolio_drawdown_report [\<lparr>eq_total = Some 20000, eq_time = 50\<rparr>, \<lparr>eq_total = Some 9000, eq_time = 90\<rparr>]
         sample_nav 168 default_cfg 100)"
    by (simp add: build_portfolio_drawdown_report_def current_nav_def latest_equity_def sort_desc_def sample_nav_def
        default_cfg_def window_peak_def Let_def)
  from drawdown_report_bounds[OF this] show ?thesis by blast
qed

lemma close_of_row_sid [simp]: "item_sid (close_of_row rs cur) = cr_strategy_id cur"
  by (simp add: close_of_row_def)

lemma force_close_rows_ids:
  "distinct (map item_sid (force_close_rows reason seen rows))
   \<and> set (map item_sid (force_close_rows reason seen rows)) \<inter> set seen = {}"
proof (induction rows arbitrary: seen)
  case (Cons cur rows)
  from Cons[of seen] Cons[of "cr_strategy_id cur # seen"] show ?case by (auto simp: Let_def)
qed simp

lemma force_close_rows_all:
  "distinct (map cr_strategy_id rows) \<Longrightarrow> set (map cr_strategy_id rows) \<inter> set seen = {} \<Longrightarrow>
   map item_sid (force_close_rows reason seen rows)
     = map cr_strategy_id (filter (\<lambda>r. 0 < cr_strategy_id r \<and> 0 < row_size r) rows)"
  by (induction rows arbitrary: seen) (auto simp: Let_def)

text \<open>
  The hard stop closes everything once. No strategy is named twice in the forced close
  plan, and when every held strategy has one row the plan names exactly the strategies with a
  positive notional, in order.
\<close>

theorem force_close_all_complete:
  assumes "distinct (map cr_strategy_id (cs_rows current))"
  shows "map item_sid (build_force_close_all_plan current reason)
      = map cr_strategy_id (filter (\<lambda>r. 0 < cr_strategy_id r \<and> 0 < row_size r) (cs_rows current))
    \<and> distinct (map item_sid (build_force_close_all_plan current reason))"
  using force_close_rows_all[OF assms, of "[]" reason] force_close_rows_ids[of reason "[]" "cs_rows current"]
  by (simp add: build_force_close_all_plan_def)

theorem force_close_all_complete_witness:
  "map item_sid (build_force_close_all_plan
      \<lparr>cs_rows = [sample_current 4 ''a'' 300, sample_current 9 ''b'' 0, sample_current 6 ''c'' 100], cs_pairs = 3,
       cs_notional = 400, cs_expected_pnl_day = 0, cs_unmatched = 0\<rparr> ''stop'') = [4, 6]"
  using force_close_all_complete[of "\<lparr>cs_rows = [sample_current 4 ''a'' 300, sample_current 9 ''b'' 0, sample_current 6 ''c'' 100], cs_pairs = 3,
       cs_notional = 400, cs_expected_pnl_day = 0, cs_unmatched = 0\<rparr>" "''stop''"] by simp

text \<open>What one profit-lock scan yields.\<close>

definition lock_ok :: "(lock_scan \<times> plan_item list) \<Rightarrow> bool" where
  "lock_ok x \<longleftrightarrow>
     map item_sid (snd x) = (if lc_triggered (fst x) then [lc_sid (fst x)] else [])
     \<and> (lc_triggered (fst x) \<longrightarrow> lc_threshold (fst x) \<le> lc_metric (fst x) \<and> lc_current_e24 (fst x) \<le> lc_threshold (fst x)
          \<and> lc_entry_e24 (fst x) \<le> lc_threshold (fst x))"

lemma lock_one_ok: "lock_ok (lock_one fee s rows h st) \<and> lc_sid (fst (lock_one fee s rows h st)) = int_or_zero (hd_strategy_id h)"
proof -
  obtain spread usd pair err where c:
    "calc_spread_pnl_pct st (open_positions_of (int_or_zero (hd_strategy_id h)) s) (to_float (hd_pair_notional h) 0) = (spread, usd, pair, err)"
    by (metis prod.exhaust)
  show ?thesis
  proof (cases spread)
    case None
    then show ?thesis by (simp add: lock_one_def c lock_ok_def lock_skip_def Let_def)
  next
    case (Some x)
    then show ?thesis by (simp add: lock_one_def c lock_ok_def Let_def py_round_mono)
  qed
qed

lemma lock_loop_ok:
  "list_all lock_ok (lock_loop fee s rows seen hs)
   \<and> distinct (map (lc_sid \<circ> fst) (lock_loop fee s rows seen hs))
   \<and> lc_sid ` fst ` set (lock_loop fee s rows seen hs) \<inter> set seen = {}"
proof (induction hs arbitrary: seen)
  case (Cons h hs)
  let ?sid = "int_or_zero (hd_strategy_id h)"
  note ih = Cons[of seen] Cons[of "?sid # seen"]
  show ?case
  proof (cases "?sid \<le> 0 \<or> ?sid \<in> set seen \<or> query_strategy ?sid s = None")
    case True
    then have "lock_loop fee s rows seen (h # hs) = lock_loop fee s rows seen hs
      \<or> lock_loop fee s rows seen (h # hs) = lock_loop fee s rows (?sid # seen) hs"
      by (auto simp: Let_def)
    then show ?thesis
    proof
      assume e: "lock_loop fee s rows seen (h # hs) = lock_loop fee s rows seen hs"
      show ?thesis unfolding e by (rule ih(1))
    next
      assume e: "lock_loop fee s rows seen (h # hs) = lock_loop fee s rows (?sid # seen) hs"
      show ?thesis unfolding e using ih(2) by simp
    qed
  next
    case False
    then obtain st where "query_strategy ?sid s = Some st" by auto
    with False show ?thesis using ih lock_one_ok[of fee s rows h st] by (auto simp: Let_def image_iff)
  qed
qed simp

lemma lock_items: "list_all lock_ok xs \<Longrightarrow> map item_sid (concat (map snd xs)) = map lc_sid (filter lc_triggered (map fst xs))"
  by (induction xs) (auto simp: lock_ok_def)

text \<open>
  The profit lock is consistent: the strategies it closes are exactly the scanned ones
  marked as triggered, none twice; and a triggered one has a spread profit, net of its entry
  and its estimated exit fees, of at least its entry carry and at least its current carry.
\<close>

theorem profit_lock_consistent:
  "map item_sid (fst (build_profit_lock_close_plan fee s holds current))
     = map lc_sid (filter lc_triggered (snd (build_profit_lock_close_plan fee s holds current)))
   \<and> distinct (map lc_sid (snd (build_profit_lock_close_plan fee s holds current)))
   \<and> list_all (\<lambda>x. lc_entry_e24 x \<le> lc_metric x \<and> lc_current_e24 x \<le> lc_metric x)
       (filter lc_triggered (snd (build_profit_lock_close_plan fee s holds current)))"
proof -
  let ?out = "lock_loop fee s (cs_rows current) [] holds"
  have ok: "list_all lock_ok ?out" "distinct (map (lc_sid \<circ> fst) ?out)"
    using lock_loop_ok[of fee s "cs_rows current" "[]" holds] by auto
  have "list_all (\<lambda>x. lc_entry_e24 x \<le> lc_metric x \<and> lc_current_e24 x \<le> lc_metric x) (filter lc_triggered (map fst ?out))"
    using ok(1) by (force simp: list_all_iff lock_ok_def)
  then show ?thesis
    using lock_items[OF ok(1)] ok(2) by (simp add: build_profit_lock_close_plan_def Let_def)
qed

lemma cover_one_covered:
  assumes "ci_covered (cover_one fee s one)"
  shows "\<exists>st spread usd pair. query_strategy (item_sid one) s = Some st
    \<and> calc_spread_pnl_pct st (open_positions_of (item_sid one) s)
        (max 0 (max (to_float (pi_size_usd one) 0) (to_float (st_initial_margin st) 0))) = (Some spread, usd, pair, None)
    \<and> close_fee_pct fee s st (str_or_empty (py_or_str (st_symbol st) (pi_symbol one))) \<le> spread"
proof -
  have nn: "0 \<le> cover_entry_fee st one c" for st c by (simp add: cover_entry_fee_def Let_def)
  from assms have sid: "\<not> item_sid one \<le> 0" by (auto simp: cover_one_def cover_blocked_def Let_def)
  with assms obtain st where st: "query_strategy (item_sid one) s = Some st"
    by (cases "query_strategy (item_sid one) s") (auto simp: cover_one_def cover_blocked_def Let_def)
  let ?calc = "calc_spread_pnl_pct st (open_positions_of (item_sid one) s)
        (max 0 (max (to_float (pi_size_usd one) 0) (to_float (st_initial_margin st) 0)))"
  obtain sp usd pair err where c: "?calc = (sp, usd, pair, err)" by (metis prod.exhaust)
  obtain spread where sp: "sp = Some spread"
    using assms sid st c by (cases sp) (auto simp: cover_one_def cover_blocked_def Let_def)
  have "err = None" using c sp by (auto simp: calc_spread_pnl_pct_def Let_def split: if_splits)
  moreover have "close_fee_pct fee s st (str_or_empty (py_or_str (st_symbol st) (pi_symbol one))) \<le> spread"
    using assms sid st c sp nn[of st "close_fee_pct fee s st (str_or_empty (py_or_str (st_symbol st) (pi_symbol one)))"]
    by (simp add: cover_one_def Let_def)
  ultimately show ?thesis using st c sp by blast
qed

text \<open>
  The fee gate is sound: when the report says that all closes are covered, every strategy
  of the close plan exists, has a spread profit, and that profit pays at least the fees of
  closing it.
\<close>

theorem fee_coverage_sound:
  assumes "co_all_covered (build_rebalance_fee_coverage_report fee s close_plan)" "one \<in> set close_plan"
  shows "\<exists>st spread usd pair. query_strategy (item_sid one) s = Some st
    \<and> calc_spread_pnl_pct st (open_positions_of (item_sid one) s)
        (max 0 (max (to_float (pi_size_usd one) 0) (to_float (st_initial_margin st) 0))) = (Some spread, usd, pair, None)
    \<and> close_fee_pct fee s st (str_or_empty (py_or_str (st_symbol st) (pi_symbol one))) \<le> spread"
proof -
  have "close_plan \<noteq> []" using assms(2) by auto
  then have "filter (\<lambda>x. \<not> ci_covered x) (map (cover_one fee s) close_plan) = []"
    using assms(1) by (simp add: build_rebalance_fee_coverage_report_def Let_def)
  then have "ci_covered (cover_one fee s one)" using assms(2) by (auto simp: filter_empty_conv)
  then show ?thesis by (rule cover_one_covered)
qed

definition profit_session :: session where
  "profit_session = open_session False sample_exchanges
     (sample_tables\<lparr>tb_positions := map (\<lambda>p. p\<lparr>ps_unrealized := Some 10\<rparr>) (tb_positions sample_tables)\<rparr>)"

lemma profit_session_strategy: "query_strategy 7 profit_session = Some (hd (tb_strategies sample_tables))"
  by (simp add: profit_session_def query_strategy_def sql_view_def obj_strategy_def sample_defs)

lemma profit_session_positions:
  "open_positions_of 7 profit_session = map (\<lambda>p. p\<lparr>ps_unrealized := Some 10\<rparr>) (tb_positions sample_tables)"
  by (simp add: profit_session_def open_positions_of_def query_positions_def sql_view_def obj_position_def
      is_open_of_def sample_defs)

theorem fee_coverage_sound_witness:
  "\<exists>st spread usd pair. query_strategy 7 profit_session = Some st
    \<and> calc_spread_pnl_pct st (open_positions_of 7 profit_session) 100 = (Some spread, usd, pair, None) \<and> spread = 10"
proof -
  let ?plan = "[empty_item\<lparr>pi_strategy_id := Some 7, pi_size_usd := Some 100\<rparr>]"
  let ?fee = "\<lambda>_ _ _. Some (1 / 1000)"
  have calc: "calc_spread_pnl_pct (hd (tb_strategies sample_tables)) (open_positions_of 7 profit_session) 100
      = (Some 10, 10, 100, None)"
    unfolding profit_session_positions by (simp add: calc_spread_pnl_pct_def sample_tables_def)
  have margin: "st_initial_margin (hd (tb_strategies sample_tables)) = Some 100"
    "st_entry_open_fee (hd (tb_strategies sample_tables)) = Some 0"
    by (simp_all add: sample_tables_def)
  have "co_all_covered (build_rebalance_fee_coverage_report ?fee profit_session ?plan)"
    using calc margin
    by (simp add: build_rebalance_fee_coverage_report_def cover_one_def profit_session_strategy close_fee_pct_def
        cover_entry_fee_def Let_def)
  from fee_coverage_sound[OF this, of "empty_item\<lparr>pi_strategy_id := Some 7, pi_size_usd := Some 100\<rparr>"]
  show ?thesis using calc margin by (auto simp: profit_session_strategy)
qed

end
