(* ===== verification/OpenExecutor.thy ===== *)
theory OpenExecutor
  imports SpotHedge
begin

text \<open>
  Execution of an open plan (\<open>core/spot_basis_auto_engine/open_executor.py\<close>) and the account
  mode of an exchange (\<open>core/exchange_profile.py\<close>): every item is capped by the pair limit and
  by the balances of its two accounts, which are read once per exchange and then reduced by
  what the plan has used. Balance reads are an argument that threads the world; the exchange
  cache of the code is not modelled, the rows of the session do not change during the loop.
\<close>

section \<open>Account mode\<close>

definition default_unified_exchanges :: "string list" where
  "default_unified_exchanges =
     [''okx'', ''bybit'', ''bitget'', ''kucoin'', ''gate'', ''gateio'', ''woo'', ''woofipro'']"

definition default_is_unified_account :: "string \<Rightarrow> bool" where
  "default_is_unified_account name \<longleftrightarrow> py_lower name \<in> set default_unified_exchanges"

definition resolve_is_unified_account :: "exchange_row option \<Rightarrow> bool" where
  "resolve_is_unified_account ex =
     (case ex of
        None \<Rightarrow> False
      | Some e \<Rightarrow> (case ex_is_unified e of Some b \<Rightarrow> b | None \<Rightarrow> default_is_unified_account (ex_name e)))"

section \<open>Balances\<close>

record info_row =
  in_available :: fopt
  in_cross_available :: fopt
  in_cross_margin :: fopt
  in_available_balance :: fopt

record balance =
  bl_usdt_free :: fopt
  bl_info :: "info_row list"

text \<open>No instance (or no balance), an exception with its text, or a balance.\<close>

datatype balance_read = NoBalance | BalanceError string | Balance balance

definition info_candidate :: "info_row \<Rightarrow> real" where
  "info_candidate r =
     to_float (py_or_num (in_available r) (py_or_num (in_cross_available r)
       (py_or_num (in_cross_margin r) (py_or_num (in_available_balance r) (Some 0))))) 0"

definition extract_available_usdt :: "balance option \<Rightarrow> real" where
  "extract_available_usdt bal =
     (case bal of
        None \<Rightarrow> 0
      | Some b \<Rightarrow>
          let free = pos_part (to_float (bl_usdt_free b) 0) in
          if free > 0 then free
          else pos_part (foldl (\<lambda>best r. if info_candidate r > best then info_candidate r else best) 0 (bl_info b)))"

record 'w open_env =
  oe_venue :: "'w venue"
  oe_perp_balance :: "'w \<Rightarrow> exchange_row \<Rightarrow> balance_read \<times> 'w"
  oe_spot_balance :: "'w \<Rightarrow> exchange_row \<Rightarrow> balance_read \<times> 'w"

definition auto_perp_leverage :: real where
  "auto_perp_leverage = 2"

section \<open>Caches of one run\<close>

record open_caches =
  oc_perp :: "int \<rightharpoonup> real"
  oc_spot :: "int \<rightharpoonup> real"
  oc_unified :: "int \<rightharpoonup> bool"
  oc_ratio :: "(int \<times> int \<times> string) \<rightharpoonup> real"

definition empty_caches :: open_caches where
  "empty_caches = \<lparr>oc_perp = Map.empty, oc_spot = Map.empty, oc_unified = Map.empty, oc_ratio = Map.empty\<rparr>"

definition ticker_price :: "ticker option \<Rightarrow> real" where
  "ticker_price t = (case t of None \<Rightarrow> pos_part 0 | Some t \<Rightarrow> pos_part (to_float (py_or_num (tk_last t) (tk_close t)) 0))"

definition estimate_perp_to_spot_ratio ::
    "'w open_env \<Rightarrow> plan_item \<Rightarrow> exchange_row \<Rightarrow> exchange_row \<Rightarrow> open_caches \<Rightarrow> 'w \<Rightarrow> real \<times> open_caches \<times> 'w" where
  "estimate_perp_to_spot_ratio env plan long_ex short_ex c w =
     (let symbol = py_strip (str_or_empty (pi_symbol plan));
          key = (ex_id long_ex, ex_id short_ex, symbol)
      in case oc_ratio c key of
           Some r \<Rightarrow> (max (1 / 100) r, c, w)
         | None \<Rightarrow>
             let (spot_tk, w1) = v_spot_ticker (oe_venue env) w long_ex (split_head (CHR '':'') symbol);
                 (perp_tk, w2) = v_ticker (oe_venue env) w1 short_ex symbol;
                 spot_px = ticker_price spot_tk; perp_px = ticker_price perp_tk;
                 ratio = max (1 / 100) (if spot_px > 0 \<and> perp_px > 0 then perp_px / spot_px else 1)
             in (ratio, c\<lparr>oc_ratio := (oc_ratio c)(key \<mapsto> ratio)\<rparr>, w2))"

record cap_info =
  cp_reason :: string
  cp_ratio :: fopt
  cp_perp_available :: fopt
  cp_spot_available :: fopt
  cp_max_by_perp :: fopt
  cp_max_by_spot :: fopt
  cp_max_final :: fopt

definition cap_reason :: "string \<Rightarrow> cap_info" where
  "cap_reason r = \<lparr>cp_reason = r, cp_ratio = None, cp_perp_available = None, cp_spot_available = None,
     cp_max_by_perp = None, cp_max_by_spot = None, cp_max_final = None\<rparr>"

text \<open>The available margin of the perpetual account: cached, or read and cached; an error is not cached.\<close>

definition perp_available ::
    "'w open_env \<Rightarrow> exchange_row \<Rightarrow> int \<Rightarrow> open_caches \<Rightarrow> 'w \<Rightarrow> (string + real) \<times> open_caches \<times> 'w" where
  "perp_available env ex eid c w =
     (case oc_perp c eid of
        Some a \<Rightarrow> (Inr (pos_part a), c, w)
      | None \<Rightarrow>
          (case oe_perp_balance env w ex of
             (BalanceError e, w') \<Rightarrow> (Inl (''perp_balance_fetch_failed:'' @ e), c, w')
           | (NoBalance, w') \<Rightarrow> (Inr 0, c\<lparr>oc_perp := (oc_perp c)(eid \<mapsto> 0)\<rparr>, w')
           | (Balance b, w') \<Rightarrow>
               let a = extract_available_usdt (Some b)
               in (Inr a, c\<lparr>oc_perp := (oc_perp c)(eid \<mapsto> pos_part a)\<rparr>, w')))"

definition spot_available ::
    "'w open_env \<Rightarrow> exchange_row \<Rightarrow> int \<Rightarrow> open_caches \<Rightarrow> 'w \<Rightarrow> (string + real) \<times> open_caches \<times> 'w" where
  "spot_available env ex eid c w =
     (case oc_spot c eid of
        Some a \<Rightarrow> (Inr (pos_part a), c, w)
      | None \<Rightarrow>
          (case oe_spot_balance env w ex of
             (BalanceError e, w') \<Rightarrow> (Inl (''spot_balance_fetch_failed:'' @ e), c, w')
           | (NoBalance, w') \<Rightarrow> (Inr 0, c\<lparr>oc_spot := (oc_spot c)(eid \<mapsto> 0)\<rparr>, w')
           | (Balance b, w') \<Rightarrow>
               let a = extract_available_usdt (Some b)
               in (Inr a, c\<lparr>oc_spot := (oc_spot c)(eid \<mapsto> pos_part a)\<rparr>, w')))"

section \<open>Capping one item\<close>

definition open_lev :: real where
  "open_lev = max 1 auto_perp_leverage"

text \<open>The spot side of the cap, once the perpetual account is known to have margin.\<close>

definition cap_spot_side ::
    "'w open_env \<Rightarrow> exchange_row \<Rightarrow> int \<Rightarrow> int \<Rightarrow> real \<Rightarrow> real \<Rightarrow> real \<Rightarrow> exchange_row \<Rightarrow> cap_info \<Rightarrow> open_caches \<Rightarrow> 'w
      \<Rightarrow> (real \<times> cap_info) \<times> open_caches \<times> 'w" where
  "cap_spot_side env long_ex long_id short_id requested ratio perp_avail short_ex info c w =
     (let max_by_perp = perp_avail * open_lev * (98 / 100) / max (1 / 100) ratio;
          info1 = info\<lparr>cp_max_by_perp := Some (py_round max_by_perp 6)\<rparr>;
          c1 = (case oc_unified c short_id of
                  Some _ \<Rightarrow> c
                | None \<Rightarrow> c\<lparr>oc_unified := (oc_unified c)(short_id \<mapsto> resolve_is_unified_account (Some short_ex))\<rparr>);
          unified = (long_id = short_id \<and> oc_unified c1 short_id = Some True)
      in if unified then
           let max_final = perp_avail / (1 + ratio / open_lev) * (98 / 100);
               info2 = info1\<lparr>cp_max_by_spot := Some (py_round perp_avail 6),
                             cp_spot_available := Some (py_round perp_avail 6),
                             cp_max_final := Some (py_round max_final 6)\<rparr>
           in (if max_final \<le> 0 then (0, info2\<lparr>cp_reason := ''available_cap_zero''\<rparr>)
               else (min requested max_final, info2), c1, w)
         else
           (case spot_available env long_ex long_id c1 w of
              (Inl e, c2, w') \<Rightarrow> ((requested, info1\<lparr>cp_reason := e\<rparr>), c2, w')
            | (Inr spot_avail, c2, w') \<Rightarrow>
                let info2 = info1\<lparr>cp_spot_available := Some (py_round spot_avail 6)\<rparr> in
                if spot_avail \<le> 0 then ((0, info2\<lparr>cp_reason := ''spot_available_zero''\<rparr>), c2, w')
                else
                  let max_final = min max_by_perp (spot_avail * (98 / 100));
                      info3 = info2\<lparr>cp_max_by_spot := Some (py_round spot_avail 6),
                                    cp_max_final := Some (py_round max_final 6)\<rparr>
                  in (if max_final \<le> 0 then (0, info3\<lparr>cp_reason := ''available_cap_zero''\<rparr>)
                      else (min requested max_final, info3), c2, w')))"

definition cap_open_size ::
    "'w open_env \<Rightarrow> session \<Rightarrow> plan_item \<Rightarrow> real \<Rightarrow> open_caches \<Rightarrow> 'w \<Rightarrow> (real \<times> cap_info) \<times> open_caches \<times> 'w" where
  "cap_open_size env s plan requested c w =
     (let long_id = int_or_zero (pi_long_ex plan); short_id = int_or_zero (pi_short_ex plan) in
      if requested \<le> 0 then ((0, cap_reason ''invalid_size''), c, w)
      else if long_id \<le> 0 \<or> short_id \<le> 0 then ((requested, cap_reason ''missing_exchange_id''), c, w)
      else case (query_exchange long_id s, query_exchange short_id s) of
        (Some long_ex, Some short_ex) \<Rightarrow>
          (case estimate_perp_to_spot_ratio env plan long_ex short_ex c w of
             (ratio, c1, w1) \<Rightarrow>
               let info = (cap_reason ''ok'')\<lparr>cp_ratio := Some (py_round ratio 8)\<rparr> in
               (case perp_available env short_ex short_id c1 w1 of
                  (Inl e, c2, w2) \<Rightarrow> ((requested, cap_reason e), c2, w2)
                | (Inr avail, c2, w2) \<Rightarrow>
                    let info1 = info\<lparr>cp_perp_available := Some (py_round avail 6)\<rparr> in
                    if avail \<le> 0 then ((0, info1\<lparr>cp_reason := ''perp_available_zero''\<rparr>), c2, w2)
                    else cap_spot_side env long_ex long_id short_id requested ratio avail short_ex info1 c2 w2))
      | _ \<Rightarrow> ((requested, cap_reason ''exchange_not_found''), c, w))"

section \<open>Consuming the balances\<close>

definition cache_of :: "(int \<rightharpoonup> real) \<Rightarrow> int \<Rightarrow> real" where
  "cache_of m k = to_float (m k) 0"

definition consume_available :: "plan_item \<Rightarrow> real \<Rightarrow> cap_info \<Rightarrow> open_caches \<Rightarrow> open_caches" where
  "consume_available plan executed info c =
     (let n = pos_part executed;
          ratio = max (1 / 100) (to_float (cp_ratio info) 1);
          long_id = int_or_zero (pi_long_ex plan); short_id = int_or_zero (pi_short_ex plan)
      in if n \<le> 0 \<or> long_id \<le> 0 \<or> short_id \<le> 0 then c
         else if long_id = short_id \<and> oc_unified c short_id = Some True then
           let remain = pos_part (cache_of (oc_perp c) short_id - (n + n * ratio / open_lev))
           in c\<lparr>oc_perp := (oc_perp c)(short_id \<mapsto> remain), oc_spot := (oc_spot c)(long_id \<mapsto> remain)\<rparr>
         else
           let c1 = (if oc_perp c short_id = None then c
                     else c\<lparr>oc_perp := (oc_perp c)(short_id \<mapsto> pos_part (cache_of (oc_perp c) short_id - n * ratio / open_lev))\<rparr>)
           in (if oc_spot c1 long_id = None then c1
               else c1\<lparr>oc_spot := (oc_spot c1)(long_id \<mapsto> pos_part (cache_of (oc_spot c1) long_id - n))\<rparr>))"

section \<open>The loop\<close>

record 'w exec_state =
  xs_session :: session
  xs_world :: 'w
  xs_caches :: open_caches
  xs_opened :: "plan_item list"
  xs_failed :: "plan_item list"
  xs_skipped :: "plan_item list"

definition max_pair_notional :: "auto_cfg \<Rightarrow> real" where
  "max_pair_notional cfg =
     max 1 (cfg_float (cfg_max_pair_notional_usd cfg) (max 1 (cfg_float (cfg_min_pair_notional_usd cfg) 300 * 10)))"

definition failed_item :: "plan_item \<Rightarrow> real \<Rightarrow> string \<Rightarrow> plan_item" where
  "failed_item plan size_usd err =
     empty_item\<lparr>pi_row_id := Some (str_or_empty (pi_row_id plan)), pi_symbol := pi_symbol plan,
       pi_long_ex := Some (int_or_zero (pi_long_ex plan)), pi_short_ex := Some (int_or_zero (pi_short_ex plan)),
       pi_size_usd := Some (py_round size_usd 2), pi_error := Some err\<rparr>"

definition open_error_text :: "open_result \<Rightarrow> string" where
  "open_error_text r =
     str_or_empty (py_or_str (op_error r)
       (if op_errors r \<noteq> [] then Some (repr_list (op_errors r)) else Some ''open_failed''))"

text \<open>\<open>strat.open\<close> raises on an item without symbol or exchanges; the text of that exception is not modelled.\<close>

definition exec_open :: "'w open_env \<Rightarrow> real \<Rightarrow> plan_item \<Rightarrow> real \<Rightarrow> cap_info \<Rightarrow> 'w exec_state \<Rightarrow> 'w exec_state" where
  "exec_open env now plan size_usd info x =
     (case (pi_symbol plan, pi_long_ex plan, pi_short_ex plan) of
        (Some symbol, Some long_id, Some short_id) \<Rightarrow>
          (let ratio0 = pos_part (to_float (pi_hedge_ratio plan) 1);
               ratio = (if ratio0 = 0 then 1 else ratio0);
               (ret, s', w') = open_strategy (oe_venue env) symbol long_id short_id size_usd auto_perp_leverage
                 (Some (to_float (pi_e24 plan) 0))
                 (Some (pos_part (to_float (pi_open_fee plan) (to_float (pi_open_or_close_fee plan) 0))))
                 ratio now (xs_session x) (xs_world x);
               x1 = x\<lparr>xs_session := s', xs_world := w'\<rparr>
           in if op_success ret then
                x1\<lparr>xs_caches := consume_available plan size_usd info (xs_caches x),
                   xs_opened := xs_opened x @ [empty_item\<lparr>pi_row_id := Some (str_or_empty (pi_row_id plan)),
                     pi_symbol := pi_symbol plan, pi_size_usd := Some (py_round size_usd 2),
                     pi_strategy_id := op_strategy_id ret\<rparr>]\<rparr>
              else x1\<lparr>xs_failed := xs_failed x @ [failed_item plan size_usd (open_error_text ret)]\<rparr>)
      | _ \<Rightarrow> x\<lparr>xs_failed := xs_failed x @ [failed_item plan size_usd ''invalid_plan_item'']\<rparr>)"

definition exec_one :: "'w open_env \<Rightarrow> auto_cfg \<Rightarrow> real \<Rightarrow> 'w exec_state \<Rightarrow> plan_item \<Rightarrow> 'w exec_state" where
  "exec_one env cfg now x plan =
     (let raw = item_size plan;
          limit = max_pair_notional cfg;
          pair_capped = (raw > limit + 1 / 10 ^ 9);
          requested = min raw limit
      in if requested \<le> 0 then x\<lparr>xs_skipped := xs_skipped x @ [plan\<lparr>pi_reason := Some ''invalid_size''\<rparr>]\<rparr>
         else
           (case cap_open_size env (xs_session x) plan requested (xs_caches x) (xs_world x) of
              ((size_usd, info), c', w') \<Rightarrow>
                let x1 = x\<lparr>xs_caches := c', xs_world := w'\<rparr> in
                if size_usd \<le> 0 then
                  x1\<lparr>xs_skipped := xs_skipped x @ [plan\<lparr>pi_reason := Some ''insufficient_available_margin''\<rparr>]\<rparr>
                else if size_usd < 5 then
                  x1\<lparr>xs_skipped := xs_skipped x @ [plan\<lparr>pi_reason := Some
                     (if pair_capped then ''size_below_min_exec_after_pair_cap''
                      else ''size_below_min_exec_after_margin_cap'')\<rparr>]\<rparr>
                else exec_open env now plan size_usd info x1))"

definition execute_open_plan :: "'w open_env \<Rightarrow> auto_cfg \<Rightarrow> real \<Rightarrow> session \<Rightarrow> 'w \<Rightarrow> plan_item list \<Rightarrow> 'w exec_state" where
  "execute_open_plan env cfg now s w plan =
     foldl (exec_one env cfg now)
       \<lparr>xs_session = s, xs_world = w, xs_caches = empty_caches, xs_opened = [], xs_failed = [], xs_skipped = []\<rparr> plan"

section \<open>Lemmas\<close>

lemma open_lev_2 [simp]: "open_lev = 2"
  by (simp add: open_lev_def auto_perp_leverage_def)

lemma cap_spot_side_le: "0 < requested \<Longrightarrow> fst (fst (cap_spot_side env le li si requested ratio pa se info c w)) \<le> requested"
  by (auto simp: cap_spot_side_def Let_def split: prod.splits sum.splits)

lemma cap_open_size_le: "0 < requested \<Longrightarrow> fst (fst (cap_open_size env s plan requested c w)) \<le> requested"
  using cap_spot_side_le by (auto simp: cap_open_size_def Let_def split: option.splits prod.splits sum.splits)

lemma extract_available_nonneg [simp, money_simps]: "0 \<le> extract_available_usdt b"
  by (simp add: extract_available_usdt_def Let_def split: option.splits)

definition caches_ok :: "open_caches \<Rightarrow> bool" where
  "caches_ok c \<longleftrightarrow> (\<forall>k a. oc_perp c k = Some a \<longrightarrow> 0 \<le> a) \<and> (\<forall>k a. oc_spot c k = Some a \<longrightarrow> 0 \<le> a)
     \<and> (\<forall>k r. oc_ratio c k = Some r \<longrightarrow> 1 / 100 \<le> r)"

lemma empty_caches_ok [simp]: "caches_ok empty_caches"
  by (simp add: caches_ok_def empty_caches_def)

lemma perp_available_facts:
  assumes "caches_ok c" "perp_available env ex k c w = (Inr a, c', w')"
  shows "0 \<le> a" "oc_perp c' k = Some a" "oc_spot c' = oc_spot c" "oc_unified c' = oc_unified c" "caches_ok c'"
  using assms
  by (auto simp: perp_available_def caches_ok_def Let_def split: option.splits prod.splits balance_read.splits if_splits)

lemma spot_available_facts:
  assumes "caches_ok c" "spot_available env ex k c w = (Inr a, c', w')"
  shows "0 \<le> a" "oc_spot c' k = Some a" "oc_perp c' = oc_perp c" "oc_unified c' = oc_unified c" "caches_ok c'"
  using assms
  by (auto simp: spot_available_def caches_ok_def Let_def split: option.splits prod.splits balance_read.splits if_splits)

lemma ratio_shape:
  assumes "caches_ok c" "estimate_perp_to_spot_ratio env plan le se c w = (r, c', w')"
  obtains "1 / 100 \<le> r" "c' = c" | k where "1 / 100 \<le> r" "c' = c\<lparr>oc_ratio := (oc_ratio c)(k \<mapsto> r)\<rparr>"
  using assms that max.cobounded1[of "1 / 100 :: real"]
  unfolding estimate_perp_to_spot_ratio_def Let_def by (auto split: option.splits prod.splits)

lemma ratio_facts:
  assumes "caches_ok c" "estimate_perp_to_spot_ratio env plan le se c w = (r, c', w')"
  shows "1 / 100 \<le> r" "caches_ok c'" "oc_perp c' = oc_perp c" "oc_spot c' = oc_spot c" "oc_unified c' = oc_unified c"
  using assms(1) by (cases rule: ratio_shape[OF assms]; auto simp: caches_ok_def)+

text \<open>The ratio a cap reports is rounded to eight digits; two percent of slack cover the rounding.\<close>

lemma rounded_ratio:
  assumes "1 / 100 \<le> r"
  shows "0 < max (1 / 100) (py_round r 8)" "max (1 / 100) (py_round r 8) * (98 / 100) \<le> r"
proof -
  have "py_round r 8 \<le> r + 1 / (2 * 10 ^ 8)" using py_round_error[of r 8] by linarith
  moreover have "(r + 1 / (2 * 10 ^ 8)) * (98 / 100) \<le> r" "1 / 100 * (98 / 100) \<le> r" using assms by simp_all
  ultimately show "max (1 / 100) (py_round r 8) * (98 / 100) \<le> r" by (auto simp: max_def)
qed simp

lemma perp_need_covered:
  assumes "1 / 100 \<le> r" "0 < n" "n \<le> a * 2 * (98 / 100) / max (1 / 100) r"
  shows "n * max (1 / 100) (py_round r 8) / 2 \<le> a"
proof -
  let ?q = "max (1 / 100) (py_round r 8)"
  have "n * r \<le> a * 2 * (98 / 100)" using assms by (simp add: max_def field_simps split: if_splits)
  moreover have "n * (?q * (98 / 100)) \<le> n * r"
    using rounded_ratio(2)[OF assms(1)] assms(2) by (intro mult_left_mono) auto
  ultimately show ?thesis by simp
qed

lemma unified_need_covered:
  assumes "1 / 100 \<le> r" "0 < n" "n \<le> a / (1 + r / 2) * (98 / 100)"
  shows "n + n * max (1 / 100) (py_round r 8) / 2 \<le> a"
proof -
  let ?q = "max (1 / 100) (py_round r 8)"
  have "n * (1 + r / 2) \<le> a * (98 / 100)" using assms by (simp add: field_simps)
  moreover have "n * (?q * (98 / 100)) \<le> n * r"
    using rounded_ratio(2)[OF assms(1)] assms(2) by (intro mult_left_mono) auto
  moreover define X Y where "X = n * ?q" and "Y = n * r"
  ultimately have "n + Y / 2 \<le> a * (98 / 100)" "X * (98 / 100) \<le> Y" by (simp_all add: algebra_simps)
  then have "n + X / 2 \<le> a" using assms(2) by linarith
  then show ?thesis by (simp add: X_def)
qed

text \<open>What a cap with reason ''ok'' guarantees about the caches it leaves.\<close>

definition covered_by :: "plan_item \<Rightarrow> real \<Rightarrow> cap_info \<Rightarrow> open_caches \<Rightarrow> bool" where
  "covered_by plan n info c \<longleftrightarrow>
     (let long_id = int_or_zero (pi_long_ex plan); short_id = int_or_zero (pi_short_ex plan);
          ratio = max (1 / 100) (to_float (cp_ratio info) 1)
      in 0 < long_id \<and> 0 < short_id \<and> oc_perp c short_id \<noteq> None \<and>
         (if long_id = short_id \<and> oc_unified c short_id = Some True
          then n + n * ratio / open_lev \<le> cache_of (oc_perp c) short_id
          else oc_spot c long_id \<noteq> None \<and> n * ratio / open_lev \<le> cache_of (oc_perp c) short_id
             \<and> n \<le> cache_of (oc_spot c) long_id))"

lemma cap_spot_side_covered:
  assumes "caches_ok c" "oc_perp c short_id = Some pa" "1 / 100 \<le> r" "cp_ratio info = Some (py_round r 8)"
    and "cap_spot_side env le long_id short_id req r pa se info c w = ((n, info'), c', w')"
    and "cp_reason info' = ''ok''" "cp_reason info = ''ok''" "0 < n"
    and "int_or_zero (pi_long_ex plan) = long_id" "int_or_zero (pi_short_ex plan) = short_id" "0 < long_id" "0 < short_id"
  shows "covered_by plan n info' c'"
proof -
  define c1 where "c1 = (case oc_unified c short_id of Some _ \<Rightarrow> c
     | None \<Rightarrow> c\<lparr>oc_unified := (oc_unified c)(short_id \<mapsto> resolve_is_unified_account (Some se))\<rparr>)"
  have c1: "caches_ok c1" "oc_perp c1 = oc_perp c"
    using assms(1) by (auto simp: c1_def caches_ok_def split: option.splits)
  show ?thesis
  proof (cases "long_id = short_id \<and> oc_unified c1 short_id = Some True")
    case True
    then have n: "n \<le> pa / (1 + r / 2) * (98 / 100)" "c' = c1" "cp_ratio info' = Some (py_round r 8)"
      using assms(4-8) unfolding cap_spot_side_def Let_def c1_def[symmetric] by (auto split: if_splits)
    then show ?thesis
      using True unified_need_covered[OF assms(3,8) n(1)] assms(2,9-12) c1
      by (simp add: covered_by_def cache_of_def Let_def)
  next
    case False
    obtain res c2 w2 where sp: "spot_available env le long_id c1 w = (res, c2, w2)" by (metis prod.exhaust)
    show ?thesis
    proof (cases res)
      case (Inl e)
      then have "cp_reason info' = e" "\<exists>x. e = ''spot_balance_fetch_failed:'' @ x"
        using assms(5) False sp unfolding cap_spot_side_def Let_def c1_def[symmetric]
        by (auto simp: spot_available_def Let_def split: option.splits prod.splits balance_read.splits)
      then show ?thesis using assms(6) by auto
    next
      case (Inr sa)
      note f = spot_available_facts[OF c1(1) sp[unfolded Inr]]
      have n: "n \<le> pa * 2 * (98 / 100) / max (1 / 100) r" "n \<le> sa * (98 / 100)" "c' = c2" "cp_ratio info' = Some (py_round r 8)"
        using assms(4-8) False sp Inr unfolding cap_spot_side_def Let_def c1_def[symmetric]
        by (auto split: if_splits)
      have "n \<le> sa" using n(2) f(1) by simp
      then show ?thesis
        using False perp_need_covered[OF assms(3,8) n(1)] assms(2,9-12) c1 f n(3,4)
        by (auto simp: covered_by_def cache_of_def Let_def)
    qed
  qed
qed

lemma cap_open_size_covered:
  assumes "caches_ok c" "cap_open_size env s plan req c w = ((n, info), c', w')" "cp_reason info = ''ok''" "0 < n"
  shows "covered_by plan n info c'"
proof -
  let ?li = "int_or_zero (pi_long_ex plan)" and ?si = "int_or_zero (pi_short_ex plan)"
  have req: "\<not> req \<le> 0" and ids: "\<not> (?li \<le> 0 \<or> ?si \<le> 0)"
    using assms(2-4) by (auto simp: cap_open_size_def cap_reason_def Let_def split: if_splits)
  have "query_exchange ?li s \<noteq> None \<and> query_exchange ?si s \<noteq> None"
    using assms(2,3) req ids by (auto simp: cap_open_size_def cap_reason_def Let_def split: option.splits)
  then obtain le se where ex: "query_exchange ?li s = Some le" "query_exchange ?si s = Some se" by auto
  obtain r c1 w1 where ratio: "estimate_perp_to_spot_ratio env plan le se c w = (r, c1, w1)" by (metis prod.exhaust)
  note rf = ratio_facts[OF assms(1) ratio]
  obtain res c2 w2 where perp: "perp_available env se ?si c1 w1 = (res, c2, w2)" by (metis prod.exhaust)
  show ?thesis
  proof (cases res)
    case (Inl e)
    then have "cp_reason info = e" "\<exists>x. e = ''perp_balance_fetch_failed:'' @ x"
      using assms(2) req ids ex ratio perp
      by (auto simp: cap_open_size_def cap_reason_def perp_available_def Let_def
          split: option.splits prod.splits balance_read.splits)
    then show ?thesis using assms(3) by auto
  next
    case (Inr a)
    let ?info = "(cap_reason ''ok'')\<lparr>cp_ratio := Some (py_round r 8), cp_perp_available := Some (py_round a 6)\<rparr>"
    note pf = perp_available_facts[OF rf(2) perp[unfolded Inr]]
    have side: "cap_spot_side env le ?li ?si req r a se ?info c2 w2 = ((n, info), c', w')"
      using assms(2-4) req ids ex ratio perp Inr by (auto simp: cap_open_size_def Let_def split: if_splits)
    show ?thesis
      by (rule cap_spot_side_covered[OF pf(5,2) rf(1) _ side assms(3) _ assms(4) refl refl])
        (use ids in \<open>auto simp: cap_reason_def\<close>)
  qed
qed

text \<open>One item of the plan keeps the account of what happened to it.\<close>

definition exec_sizes_ok :: "auto_cfg \<Rightarrow> plan_item list \<Rightarrow> bool" where
  "exec_sizes_ok cfg items \<longleftrightarrow>
     list_all (\<lambda>i. 5 \<le> to_float (pi_size_usd i) 0 \<and> to_float (pi_size_usd i) 0 \<le> py_round (max_pair_notional cfg) 2) items"

abbreviation open_count :: "session \<Rightarrow> nat" where
  "open_count s \<equiv> length (filter is_open (tb_positions (se_obj s)))"

definition unwinds_answered :: "'w venue \<Rightarrow> bool" where
  "unwinds_answered v \<longleftrightarrow> (\<forall>w ex sy q. fst (v_close_hedge v w ex (Some sy) (Some ''short'') (Some q)) \<noteq> None)"

definition exec_count :: "'w exec_state \<Rightarrow> nat" where
  "exec_count x = length (xs_opened x) + length (xs_failed x) + length (xs_skipped x)"

lemma exec_open_facts:
  assumes "exec_open env now plan n info x = x'" "5 \<le> n" "n \<le> limit"
  shows "exec_count x' = Suc (exec_count x)"
    "\<exists>new. xs_opened x' = xs_opened x @ new \<and> list_all (\<lambda>i. 5 \<le> to_float (pi_size_usd i) 0 \<and> to_float (pi_size_usd i) 0 \<le> py_round limit 2) new
       \<and> (unwinds_answered (oe_venue env) \<longrightarrow> open_count (xs_session x') = open_count (xs_session x) + 2 * length new)"
proof -
  have round: "5 \<le> py_round n 2 \<and> py_round n 2 \<le> py_round limit 2"
    using py_round_mono[OF assms(2), of 2] py_round_mono[OF assms(3), of 2] by simp
  have "exec_count x' = Suc (exec_count x) \<and> (\<exists>new. xs_opened x' = xs_opened x @ new
      \<and> list_all (\<lambda>i. 5 \<le> to_float (pi_size_usd i) 0 \<and> to_float (pi_size_usd i) 0 \<le> py_round limit 2) new
      \<and> (unwinds_answered (oe_venue env) \<longrightarrow> open_count (xs_session x') = open_count (xs_session x) + 2 * length new))"
  proof (cases "pi_symbol plan = None \<or> pi_long_ex plan = None \<or> pi_short_ex plan = None")
    case True
    then have "x' = x\<lparr>xs_failed := xs_failed x @ [failed_item plan n ''invalid_plan_item'']\<rparr>"
      using assms(1) by (auto simp: exec_open_def split: option.splits)
    then show ?thesis by (simp add: exec_count_def)
  next
    case False
    then obtain sy li si where f: "pi_symbol plan = Some sy" "pi_long_ex plan = Some li" "pi_short_ex plan = Some si" by auto
    define ratio where "ratio = (if pos_part (to_float (pi_hedge_ratio plan) 1) = 0 then 1 else pos_part (to_float (pi_hedge_ratio plan) 1))"
    obtain ret s' w' where o: "open_strategy (oe_venue env) sy li si n auto_perp_leverage (Some (to_float (pi_e24 plan) 0))
        (Some (pos_part (to_float (pi_open_fee plan) (to_float (pi_open_or_close_fee plan) 0)))) ratio now (xs_session x) (xs_world x)
        = (ret, s', w')" by (metis prod.exhaust)
    have legs: "open_count s' = open_count (xs_session x) + (if op_success ret then 2 else 0)" if "unwinds_answered (oe_venue env)"
      using open_strategy_legs[OF o] that by (auto simp: unwinds_answered_def split: if_splits)
    have x': "x' = (if op_success ret
        then x\<lparr>xs_session := s', xs_world := w', xs_caches := consume_available plan n info (xs_caches x),
               xs_opened := xs_opened x @ [empty_item\<lparr>pi_row_id := Some (str_or_empty (pi_row_id plan)),
                 pi_symbol := pi_symbol plan, pi_size_usd := Some (py_round n 2), pi_strategy_id := op_strategy_id ret\<rparr>]\<rparr>
        else x\<lparr>xs_session := s', xs_world := w', xs_failed := xs_failed x @ [failed_item plan n (open_error_text ret)]\<rparr>)"
      using assms(1) f o by (simp add: exec_open_def Let_def ratio_def)
    show ?thesis
      using round legs unfolding x' by (simp add: exec_count_def)
  qed
  then show "exec_count x' = Suc (exec_count x)"
    "\<exists>new. xs_opened x' = xs_opened x @ new \<and> list_all (\<lambda>i. 5 \<le> to_float (pi_size_usd i) 0 \<and> to_float (pi_size_usd i) 0 \<le> py_round limit 2) new
       \<and> (unwinds_answered (oe_venue env) \<longrightarrow> open_count (xs_session x') = open_count (xs_session x) + 2 * length new)"
    by blast+
qed

lemma exec_one_facts:
  "exec_count (exec_one env cfg now x plan) = Suc (exec_count x)
   \<and> (\<exists>new. xs_opened (exec_one env cfg now x plan) = xs_opened x @ new \<and> exec_sizes_ok cfg new
       \<and> (unwinds_answered (oe_venue env) \<longrightarrow>
          open_count (xs_session (exec_one env cfg now x plan)) = open_count (xs_session x) + 2 * length new))"
proof -
  let ?req = "min (item_size plan) (max_pair_notional cfg)"
  obtain n info c' w' where cap: "cap_open_size env (xs_session x) plan ?req (xs_caches x) (xs_world x) = ((n, info), c', w')"
    by (metis prod.exhaust)
  show ?thesis
  proof (cases "?req \<le> 0 \<or> n < 5")
    case True
    have skip: "exec_one env cfg now x plan
        = x\<lparr>xs_caches := xs_caches x, xs_world := xs_world x, xs_skipped := xs_skipped x @ [plan\<lparr>pi_reason := Some ''invalid_size''\<rparr>]\<rparr>"
      if "?req \<le> 0"
      using that by (simp add: exec_one_def Let_def)
    have small: "\<exists>sk. exec_one env cfg now x plan = x\<lparr>xs_caches := c', xs_world := w', xs_skipped := xs_skipped x @ [sk]\<rparr>"
      if "\<not> ?req \<le> 0" "n < 5"
      using that cap by (cases "n \<le> 0") (auto simp: exec_one_def Let_def)
    from True have "\<exists>c w sk. exec_one env cfg now x plan = x\<lparr>xs_caches := c, xs_world := w, xs_skipped := xs_skipped x @ [sk]\<rparr>"
      using skip small by (cases "?req \<le> 0") blast+
    then show ?thesis by (auto simp: exec_count_def exec_sizes_ok_def)
  next
    case False
    have "fst (fst (cap_open_size env (xs_session x) plan ?req (xs_caches x) (xs_world x))) \<le> ?req"
      by (rule cap_open_size_le) (use False in linarith)
    then have "n \<le> ?req" unfolding cap by (simp only: fst_conv)
    then have n: "5 \<le> n" "n \<le> max_pair_notional cfg" using False by auto
    have "exec_one env cfg now x plan = exec_open env now plan n info (x\<lparr>xs_caches := c', xs_world := w'\<rparr>)"
      using False n(1) cap by (simp add: exec_one_def Let_def)
    from exec_open_facts[OF this[symmetric] n] show ?thesis by (simp add: exec_count_def exec_sizes_ok_def)
  qed
qed

lemma exec_loop_facts:
  "exec_count (foldl (exec_one env cfg now) x plan) = exec_count x + length plan
   \<and> (\<exists>new. xs_opened (foldl (exec_one env cfg now) x plan) = xs_opened x @ new \<and> exec_sizes_ok cfg new
       \<and> (unwinds_answered (oe_venue env) \<longrightarrow>
          open_count (xs_session (foldl (exec_one env cfg now) x plan)) = open_count (xs_session x) + 2 * length new))"
proof (induction plan rule: rev_induct)
  case (snoc p plan)
  let ?y = "foldl (exec_one env cfg now) x plan"
  from snoc exec_one_facts[of env cfg now ?y p] obtain a b where
    "exec_count ?y = exec_count x + length plan" "xs_opened ?y = xs_opened x @ a" "exec_sizes_ok cfg a"
    "unwinds_answered (oe_venue env) \<longrightarrow> open_count (xs_session ?y) = open_count (xs_session x) + 2 * length a"
    "exec_count (exec_one env cfg now ?y p) = Suc (exec_count ?y)"
    "xs_opened (exec_one env cfg now ?y p) = xs_opened ?y @ b" "exec_sizes_ok cfg b"
    "unwinds_answered (oe_venue env) \<longrightarrow>
      open_count (xs_session (exec_one env cfg now ?y p)) = open_count (xs_session ?y) + 2 * length b"
    by blast
  then show ?case by (auto simp: exec_sizes_ok_def intro!: exI[of _ "a @ b"])
qed (simp add: exec_sizes_ok_def)

section \<open>Properties\<close>

text \<open>
  An accepted size is covered by the balances. When the cap succeeds with a positive
  size, charging the pair to the caches subtracts its margin need from the perpetual account
  and its notional from the spot account (both from the one account of a unified exchange)
  exactly, and leaves no account below zero.
\<close>

theorem capped_size_is_covered:
  assumes "caches_ok c" "cap_open_size env s plan requested c w = ((n, info), c', w')"
    and "cp_reason info = ''ok''" "0 < n"
  shows "let long_id = int_or_zero (pi_long_ex plan); short_id = int_or_zero (pi_short_ex plan);
      need = n * max (1 / 100) (to_float (cp_ratio info) 1) / open_lev;
      c'' = consume_available plan n info c'
    in if long_id = short_id \<and> oc_unified c' short_id = Some True
       then cache_of (oc_perp c'') short_id = cache_of (oc_perp c') short_id - (n + need)
          \<and> 0 \<le> cache_of (oc_perp c'') short_id
       else cache_of (oc_perp c'') short_id = cache_of (oc_perp c') short_id - need
          \<and> 0 \<le> cache_of (oc_perp c'') short_id
          \<and> cache_of (oc_spot c'') long_id = cache_of (oc_spot c') long_id - n
          \<and> 0 \<le> cache_of (oc_spot c'') long_id"
proof -
  let ?li = "int_or_zero (pi_long_ex plan)" and ?si = "int_or_zero (pi_short_ex plan)"
  note cov = cap_open_size_covered[OF assms]
  show ?thesis
  proof (cases "?li = ?si \<and> oc_unified c' ?si = Some True")
    case True
    with cov assms(4) show ?thesis
      by (simp add: covered_by_def consume_available_def cache_of_def Let_def)
  next
    case False
    with cov obtain a b where ab: "oc_perp c' ?si = Some a" "oc_spot c' ?li = Some b" "0 < ?li" "0 < ?si"
      "n * max (1 / 100) (to_float (cp_ratio info) 1) / open_lev \<le> a" "n \<le> b"
      by (auto simp: covered_by_def cache_of_def Let_def)
    with False assms(4) show ?thesis
      by (auto simp: consume_available_def Let_def cache_of_def)
  qed
qed

text \<open>
  The open executor accounts for every item and leaves no naked leg: each item of the
  plan is opened, failed or skipped; every opened size is at least 5 USD and within the pair
  limit; and if emergency closes are answered, the number of open positions in the database
  grows by exactly two per opened pair.
\<close>

theorem execute_open_plan_accounts:
  assumes "unwinds_answered (oe_venue env)"
  shows "exec_count (execute_open_plan env cfg now s w plan) = length plan
    \<and> exec_sizes_ok cfg (xs_opened (execute_open_plan env cfg now s w plan))
    \<and> open_count (xs_session (execute_open_plan env cfg now s w plan))
      = open_count s + 2 * length (xs_opened (execute_open_plan env cfg now s w plan))"
  using assms exec_loop_facts[of env cfg now
      "\<lparr>xs_session = s, xs_world = w, xs_caches = empty_caches, xs_opened = [], xs_failed = [], xs_skipped = []\<rparr>" plan]
  by (auto simp: execute_open_plan_def exec_count_def)

section \<open>Sample runs\<close>

definition sample_env :: "nat open_env" where
  "sample_env = \<lparr>oe_venue = good_venue,
     oe_perp_balance = (\<lambda>w ex. (Balance \<lparr>bl_usdt_free = Some 100, bl_info = []\<rparr>, w)),
     oe_spot_balance = (\<lambda>w ex. (Balance \<lparr>bl_usdt_free = Some 100, bl_info = []\<rparr>, w))\<rparr>"

definition sample_plan_item :: plan_item where
  "sample_plan_item = empty_item\<lparr>pi_symbol := Some ''BTC/USDT:USDT'', pi_long_ex := Some 1, pi_short_ex := Some 2,
     pi_size_usd := Some 50\<rparr>"

lemma sample_unwinds: "unwinds_answered (oe_venue sample_env)"
  by (simp add: unwinds_answered_def sample_env_def good_venue_def)

theorem execute_open_plan_accounts_witness:
  "exec_count (execute_open_plan sample_env default_cfg 50 (open_session False sample_exchanges sample_tables) 0 [sample_plan_item]) = 1"
  using execute_open_plan_accounts[OF sample_unwinds, of default_cfg 50 "open_session False sample_exchanges sample_tables" 0 "[sample_plan_item]"]
  by simp

lemma sample_cap:
  "\<exists>info c' w'. cap_open_size sample_env (open_session False sample_exchanges sample_tables) sample_plan_item 50 empty_caches 0
     = ((50, info), c', w') \<and> cp_reason info = ''ok''"
proof -
  have ex: "query_exchange 1 (open_session False sample_exchanges sample_tables) = Some (hd sample_exchanges)"
    "query_exchange 2 (open_session False sample_exchanges sample_tables) = Some (sample_exchanges ! 1)"
    by (simp_all add: query_exchange_def open_session_def sample_exchanges_def)
  show ?thesis
    by (simp add: cap_open_size_def cap_spot_side_def estimate_perp_to_spot_ratio_def perp_available_def spot_available_def
        sample_plan_item_def ex empty_caches_def sample_env_def good_venue_def extract_available_usdt_def cap_reason_def
        ticker_price_def Let_def)
qed

theorem capped_size_is_covered_witness:
  "\<exists>info c'. cp_reason info = ''ok''
     \<and> 0 \<le> cache_of (oc_perp (consume_available sample_plan_item 50 info c')) 2"
proof -
  obtain info c' w' where cap: "cap_open_size sample_env (open_session False sample_exchanges sample_tables) sample_plan_item 50 empty_caches 0
     = ((50, info), c', w')" "cp_reason info = ''ok''" using sample_cap by blast
  have "int_or_zero (pi_long_ex sample_plan_item) = 1" "int_or_zero (pi_short_ex sample_plan_item) = 2"
    by (simp_all add: sample_plan_item_def)
  then show ?thesis
    using capped_size_is_covered[OF empty_caches_ok cap] cap(2) by (auto simp: Let_def)
qed

end
