(* ===== verification/RetryQueue.thy ===== *)
theory RetryQueue
  imports RowTypes Machines
begin

text \<open>
  \<open>core/spot_basis_auto_engine/retry_queue.py\<close>: the queue of failed plan items. The module
  global \<open>_RETRY_QUEUE\<close> is the list \<open>q\<close> threaded through the functions. The executors the
  queue calls (\<open>_execute_close_plan\<close>, \<open>_execute_open_plan\<close>) are arguments that thread the
  world they act on (database and exchanges), of any type.
\<close>

record retry_record =
  rq_key :: string
  rq_kind :: string
  rq_payload :: plan_item
  rq_round :: int
  rq_max_rounds :: int
  rq_next_ts :: real
  rq_last_error :: "string option"
  rq_updated_at :: real
  rq_created_at :: real

type_synonym retry_queue = "retry_record list"

definition retry_queue_max_items :: nat where
  "retry_queue_max_items = 200"

definition retry_key :: "string \<Rightarrow> plan_item \<Rightarrow> string" where
  "retry_key kind payload =
     (if kind = ''close'' then ''close:'' @ str_of_int (item_sid payload)
      else ''open:'' @ str_or_empty (pi_row_id payload) @ '':''
             @ str_of_int (int_or_zero (pi_long_ex payload)) @ '':''
             @ str_of_int (int_or_zero (pi_short_ex payload)))"

definition compact_retry_payload :: "string \<Rightarrow> plan_item \<Rightarrow> plan_item" where
  "compact_retry_payload kind payload =
     (if kind = ''close'' then
        empty_item\<lparr>pi_strategy_id := Some (item_sid payload),
          pi_row_id := Some (str_or_empty (pi_row_id payload)),
          pi_symbol := pi_symbol payload,
          pi_size_usd := Some (py_round (item_size payload) 2)\<rparr>
      else
        empty_item\<lparr>pi_row_id := Some (str_or_empty (pi_row_id payload)),
          pi_symbol := pi_symbol payload,
          pi_long_ex := Some (int_or_zero (pi_long_ex payload)),
          pi_short_ex := Some (int_or_zero (pi_short_ex payload)),
          pi_size_usd := Some (py_round (item_size payload) 2)\<rparr>)"

definition trim_retry_queue_if_needed :: "retry_queue \<Rightarrow> retry_queue" where
  "trim_retry_queue_if_needed q =
     (if length q \<le> retry_queue_max_items then q
      else take retry_queue_max_items (sort_desc rq_updated_at q))"

text \<open>\<open>{key: idx for idx, x in enumerate(queue)}\<close>.\<close>

fun key_index :: "nat \<Rightarrow> retry_queue \<Rightarrow> (string \<rightharpoonup> nat) \<Rightarrow> (string \<rightharpoonup> nat)" where
  "key_index i [] m = m"
| "key_index i (x # xs) m = key_index (Suc i) xs (m(rq_key x \<mapsto> i))"

text \<open>The body of the loop of \<open>_enqueue_retry_items\<close>: queue, key index and counter.\<close>

definition enqueue_one ::
    "string \<Rightarrow> real \<Rightarrow> int \<Rightarrow> int \<Rightarrow> retry_queue \<times> (string \<rightharpoonup> nat) \<times> nat \<Rightarrow> plan_item
      \<Rightarrow> retry_queue \<times> (string \<rightharpoonup> nat) \<times> nat" where
  "enqueue_one kind now_ts max_rounds backoff st item =
     (case st of (q, idx, added) \<Rightarrow>
       let payload = compact_retry_payload kind item;
           key = retry_key kind payload
       in if key = ''close:0'' \<or> key = ''open::0:0'' then (q, idx, added)
          else
            let rec =
              \<lparr>rq_key = key, rq_kind = kind, rq_payload = payload, rq_round = 0,
               rq_max_rounds = max_rounds, rq_next_ts = now_ts + of_int backoff,
               rq_last_error = pi_error item, rq_updated_at = now_ts, rq_created_at = now_ts\<rparr>
            in case idx key of
                 Some i \<Rightarrow>
                   let old = q ! i
                   in (q[i := rec\<lparr>rq_created_at := rq_created_at old, rq_round := rq_round old\<rparr>],
                       idx, added)
               | None \<Rightarrow> (q @ [rec], idx(key \<mapsto> length q), added + 1))"

definition enqueue_retry_items ::
    "string \<Rightarrow> plan_item list \<Rightarrow> real \<Rightarrow> int \<Rightarrow> int \<Rightarrow> retry_queue \<Rightarrow> retry_queue \<times> nat" where
  "enqueue_retry_items kind items now_ts max_rounds backoff_secs q =
     (if max_rounds \<le> 0 then (q, 0)
      else
        let backoff = max 1 (if backoff_secs = 0 then 1 else backoff_secs);
            (q', idx', added) =
              foldl (enqueue_one kind now_ts max_rounds backoff) (q, key_index 0 q Map.empty, 0) items
        in (trim_retry_queue_if_needed q', added))"

record queue_item_view =
  qv_key :: string
  qv_kind :: string
  qv_round :: int
  qv_max_rounds :: int
  qv_next_ts :: int
  qv_payload :: plan_item
  qv_last_error :: "string option"

definition queue_snapshot :: "retry_queue \<Rightarrow> nat \<times> queue_item_view list" where
  "queue_snapshot q =
     (length q,
      map (\<lambda>x. \<lparr>qv_key = rq_key x, qv_kind = rq_kind x, qv_round = rq_round x,
                qv_max_rounds = rq_max_rounds x, qv_next_ts = py_trunc (rq_next_ts x),
                qv_payload = rq_payload x, qv_last_error = rq_last_error x\<rparr>)
          (take 20 q))"

section \<open>Processing the due items\<close>

type_synonym 'w close_exec = "'w \<Rightarrow> plan_item list \<Rightarrow> string \<Rightarrow> (plan_item list \<times> plan_item list) \<times> 'w"
type_synonym 'w open_exec =
  "'w \<Rightarrow> plan_item list \<Rightarrow> (plan_item list \<times> plan_item list \<times> plan_item list) \<times> 'w"

datatype retry_result =
    DropInvalidItem
  | Success
  | DropMaxRoundsExceeded int "string option"
  | FailRequeued int int "string option"

record retry_outcome =
  ro_retried :: nat
  ro_succeeded :: nat
  ro_failed :: nat
  ro_dropped :: nat
  ro_success_keys :: "string list"
  ro_dropped_keys :: "string list"
  ro_details :: "(string \<times> string \<times> retry_result) list"

definition empty_outcome :: retry_outcome where
  "empty_outcome = \<lparr>ro_retried = 0, ro_succeeded = 0, ro_failed = 0, ro_dropped = 0,
     ro_success_keys = [], ro_dropped_keys = [], ro_details = []\<rparr>"

text \<open>The error text of a failed attempt: \<open>failed[0].error\<close>, else \<open>skipped[0].reason\<close>.\<close>

definition close_attempt ::
    "'w close_exec \<Rightarrow> 'w \<Rightarrow> plan_item \<Rightarrow> (bool \<times> string option) \<times> 'w" where
  "close_attempt exec_close w payload =
     (case exec_close w [payload] ''spot_basis_auto_retry_close_leg'' of ((done_items, close_failed), w') \<Rightarrow>
        ((done_items \<noteq> [] \<and> close_failed = [],
          case close_failed of [] \<Rightarrow> None | f # _ \<Rightarrow> pi_error f), w'))"

definition open_attempt ::
    "'w open_exec \<Rightarrow> 'w \<Rightarrow> plan_item \<Rightarrow> (bool \<times> string option) \<times> 'w" where
  "open_attempt exec_open w payload =
     (case exec_open w [payload] of ((opened, open_failed, open_skipped), w') \<Rightarrow>
        ((opened \<noteq> [] \<and> open_failed = [],
          case open_failed of
            f # _ \<Rightarrow> pi_error f
          | [] \<Rightarrow> (case open_skipped of s # _ \<Rightarrow> pi_reason s | [] \<Rightarrow> None)), w'))"

definition attempt ::
    "'w close_exec \<Rightarrow> 'w open_exec \<Rightarrow> 'w \<Rightarrow> retry_record \<Rightarrow> (bool \<times> string option) \<times> 'w" where
  "attempt exec_close exec_open w item =
     (if rq_kind item = ''close'' then close_attempt exec_close w (rq_payload item)
      else open_attempt exec_open w (rq_payload item))"

text \<open>The first queue entry with the key is rescheduled.\<close>

fun requeue :: "string \<Rightarrow> int \<Rightarrow> real \<Rightarrow> real \<Rightarrow> string option \<Rightarrow> retry_queue \<Rightarrow> retry_queue" where
  "requeue key rnd next_ts now_ts err [] = []"
| "requeue key rnd next_ts now_ts err (x # xs) =
     (if rq_key x = key then
        x\<lparr>rq_round := rnd, rq_next_ts := next_ts, rq_updated_at := now_ts, rq_last_error := err\<rparr> # xs
      else x # requeue key rnd next_ts now_ts err xs)"

definition invalid_retry_item :: "retry_record \<Rightarrow> bool" where
  "invalid_retry_item item \<longleftrightarrow> rq_key item = [] \<or> rq_kind item \<notin> {''open'', ''close''}"

text \<open>One due item: the body of the loop of \<open>_process_due_retries\<close>.\<close>

definition retry_one ::
    "'w close_exec \<Rightarrow> 'w open_exec \<Rightarrow> real \<Rightarrow> int \<Rightarrow> int
      \<Rightarrow> retry_queue \<times> retry_outcome \<times> 'w \<Rightarrow> retry_record \<Rightarrow> retry_queue \<times> retry_outcome \<times> 'w" where
  "retry_one xc xo now_ts backoff max_rounds st item =
     (case st of (q, out, w) \<Rightarrow>
       if invalid_retry_item item then
         (q, out\<lparr>ro_dropped := ro_dropped out + 1,
                 ro_dropped_keys := ro_dropped_keys out @ [rq_key item],
                 ro_details := ro_details out @ [(rq_key item, rq_kind item, DropInvalidItem)]\<rparr>, w)
       else
         case attempt xc xo w item of ((ok, err), w') \<Rightarrow>
           let out1 = out\<lparr>ro_retried := ro_retried out + 1\<rparr> in
           if ok then
             (q, out1\<lparr>ro_succeeded := ro_succeeded out + 1,
                      ro_success_keys := ro_success_keys out @ [rq_key item],
                      ro_details := ro_details out @ [(rq_key item, rq_kind item, Success)]\<rparr>, w')
           else
             let out2 = out1\<lparr>ro_failed := ro_failed out + 1\<rparr>;
                 round_now = rq_round item + 1
             in if round_now > max_rounds then
                  (q, out2\<lparr>ro_dropped := ro_dropped out + 1,
                           ro_dropped_keys := ro_dropped_keys out @ [rq_key item],
                           ro_details := ro_details out
                             @ [(rq_key item, rq_kind item, DropMaxRoundsExceeded round_now err)]\<rparr>, w')
                else
                  (requeue (rq_key item) round_now (now_ts + of_int backoff) now_ts err q,
                   out2\<lparr>ro_details := ro_details out
                          @ [(rq_key item, rq_kind item,
                              FailRequeued round_now (py_trunc (now_ts + of_int backoff)) err)]\<rparr>, w'))"

definition retry_loop ::
    "'w close_exec \<Rightarrow> 'w open_exec \<Rightarrow> real \<Rightarrow> int \<Rightarrow> int \<Rightarrow> retry_record list
      \<Rightarrow> retry_queue \<times> retry_outcome \<times> 'w \<Rightarrow> retry_queue \<times> retry_outcome \<times> 'w" where
  "retry_loop xc xo now_ts backoff max_rounds items st =
     foldl (retry_one xc xo now_ts backoff max_rounds) st items"

record retry_report =
  rr_due_count :: nat
  rr_outcome :: retry_outcome
  rr_remaining :: nat

definition due_items :: "real \<Rightarrow> retry_queue \<Rightarrow> retry_record list" where
  "due_items now_ts q = take 30 (filter (\<lambda>x. rq_next_ts x \<le> now_ts) q)"

definition process_due_retries ::
    "'w close_exec \<Rightarrow> 'w open_exec \<Rightarrow> auto_cfg \<Rightarrow> real \<Rightarrow> retry_queue \<Rightarrow> 'w
      \<Rightarrow> retry_report \<times> retry_queue \<times> 'w" where
  "process_due_retries xc xo cfg now_ts q w =
     (let backoff = max 1 (cfg_int (cfg_execution_retry_backoff_secs cfg) 8);
          max_rounds = max 0 (cfg_int (cfg_execution_retry_max_rounds cfg) 2);
          due = due_items now_ts q
      in if due = [] then
           (\<lparr>rr_due_count = 0, rr_outcome = empty_outcome, rr_remaining = length q\<rparr>, q, w)
         else
           case retry_loop xc xo now_ts backoff max_rounds due (q, empty_outcome, w) of
             (q1, out, w') \<Rightarrow>
               let gone = ro_success_keys out @ ro_dropped_keys out;
                   q2 = (if gone \<noteq> [] then filter (\<lambda>x. rq_key x \<notin> set gone) q1 else q1)
               in (\<lparr>rr_due_count = length due, rr_outcome = out, rr_remaining = length q2\<rparr>, q2, w'))"

section \<open>The queue invariant\<close>

definition queue_keys :: "retry_queue \<Rightarrow> string list" where
  "queue_keys q = map rq_key q"

definition retry_inv :: "retry_queue \<Rightarrow> bool" where
  "retry_inv q \<longleftrightarrow> distinct (queue_keys q) \<and> length q \<le> retry_queue_max_items"

lemma retry_inv_Nil [simp]: "retry_inv []"
  by (simp add: retry_inv_def queue_keys_def)

lemma key_index_notin: "k \<notin> set (queue_keys q) \<Longrightarrow> key_index i q m k = m k"
  by (induction q arbitrary: i m) (auto simp: queue_keys_def)

lemma key_index_nth:
  "distinct (queue_keys q) \<Longrightarrow> n < length q \<Longrightarrow> key_index i q m (rq_key (q ! n)) = Some (i + n)"
proof (induction q arbitrary: i m n)
  case (Cons x xs)
  show ?case
  proof (cases n)
    case 0
    have "rq_key x \<notin> set (queue_keys xs)" using Cons.prems(1) by (simp add: queue_keys_def)
    then show ?thesis using 0 by (simp add: key_index_notin)
  next
    case (Suc n')
    have "key_index (Suc i) xs (m(rq_key x \<mapsto> i)) (rq_key (xs ! n')) = Some (Suc i + n')"
      using Cons.prems Suc by (intro Cons.IH) (auto simp: queue_keys_def)
    then show ?thesis using Suc by simp
  qed
qed simp

text \<open>The index names the position of every key, as the code's dictionary does.\<close>

definition index_ok :: "retry_queue \<Rightarrow> (string \<rightharpoonup> nat) \<Rightarrow> bool" where
  "index_ok q idx \<longleftrightarrow>
     distinct (queue_keys q) \<and> dom idx = set (queue_keys q)
     \<and> (\<forall>k i. idx k = Some i \<longrightarrow> i < length q \<and> rq_key (q ! i) = k)"

lemma index_ok_init: "distinct (queue_keys q) \<Longrightarrow> index_ok q (key_index 0 q Map.empty)"
proof -
  assume d: "distinct (queue_keys q)"
  have some: "key_index 0 q Map.empty k = Some i \<Longrightarrow> i < length q \<and> rq_key (q ! i) = k" for k i
  proof -
    assume k: "key_index 0 q Map.empty k = Some i"
    then have "k \<in> set (queue_keys q)"
      using key_index_notin[of k q 0 Map.empty] by fastforce
    then obtain n where n: "n < length q" "k = rq_key (q ! n)"
      by (auto simp: queue_keys_def in_set_conv_nth)
    with key_index_nth[OF d n(1), of 0 Map.empty] k show ?thesis by simp
  qed
  moreover have "dom (key_index 0 q Map.empty) = set (queue_keys q)"
  proof
    show "dom (key_index 0 q Map.empty) \<subseteq> set (queue_keys q)"
      using key_index_notin[of _ q 0 Map.empty] by fastforce
    show "set (queue_keys q) \<subseteq> dom (key_index 0 q Map.empty)"
    proof
      fix k assume "k \<in> set (queue_keys q)"
      then obtain n where "n < length q" "k = rq_key (q ! n)"
        by (auto simp: queue_keys_def in_set_conv_nth)
      then show "k \<in> dom (key_index 0 q Map.empty)"
        using key_index_nth[OF d, of n 0 Map.empty] by auto
    qed
  qed
  ultimately show ?thesis using d by (auto simp: index_ok_def)
qed

lemma queue_keys_update:
  "i < length q \<Longrightarrow> rq_key r = rq_key (q ! i) \<Longrightarrow> queue_keys (q[i := r]) = queue_keys q"
  by (simp add: queue_keys_def map_update list_update_same_conv)

lemma index_ok_update:
  "index_ok q idx \<Longrightarrow> idx k = Some i \<Longrightarrow> rq_key r = k \<Longrightarrow> index_ok (q[i := r]) idx"
proof -
  assume ok: "index_ok q idx" and k: "idx k = Some i" and r: "rq_key r = k"
  then have i: "i < length q" "rq_key (q ! i) = k" by (auto simp: index_ok_def)
  then have "queue_keys (q[i := r]) = queue_keys q" using r by (intro queue_keys_update) auto
  moreover have "rq_key (q[i := r] ! j) = rq_key (q ! j)" for j
    using i r by (cases "j = i") auto
  ultimately show ?thesis using ok by (auto simp: index_ok_def)
qed

lemma index_ok_append:
  assumes "index_ok q idx" "idx (rq_key r) = None"
  shows "index_ok (q @ [r]) (idx(rq_key r \<mapsto> length q))"
  using assms by (auto simp: index_ok_def queue_keys_def nth_append less_Suc_eq)

definition enqueue_inv :: "retry_queue \<times> (string \<rightharpoonup> nat) \<times> nat \<Rightarrow> bool" where
  "enqueue_inv st \<longleftrightarrow> (case st of (q, idx, added) \<Rightarrow> index_ok q idx)"

lemma enqueue_one_inv:
  "enqueue_inv st \<Longrightarrow> enqueue_inv (enqueue_one kind now_ts mr b st item)"
  unfolding enqueue_inv_def enqueue_one_def
  by (auto simp: Let_def split: prod.splits option.splits intro!: index_ok_update)
     (metis index_ok_append retry_record.select_convs(1))

text \<open>The loop of \<open>_enqueue_retry_items\<close> is a machine over the items it reads.\<close>

lemma foldl_enqueue_inv:
  "enqueue_inv st \<Longrightarrow> enqueue_inv (foldl (enqueue_one kind now_ts mr b) st items)"
  by (rule foldl_invariant) (auto intro: enqueue_one_inv)

lemma enqueue_one_length:
  "enqueue_inv st \<Longrightarrow> length (fst (enqueue_one kind now_ts mr b st item)) + snd (snd st)
     = length (fst st) + snd (snd (enqueue_one kind now_ts mr b st item))"
  by (auto simp: enqueue_one_def Let_def split: prod.splits option.splits)

lemma foldl_enqueue_length:
  "enqueue_inv st \<Longrightarrow> length (fst (foldl (enqueue_one kind now_ts mr b) st items)) + snd (snd st)
     = length (fst st) + snd (snd (foldl (enqueue_one kind now_ts mr b) st items))"
proof (induction items arbitrary: st)
  case (Cons a items)
  from Cons.IH[OF enqueue_one_inv[OF Cons.prems]] enqueue_one_length[OF Cons.prems]
  show ?case by (smt (verit) foldl_Cons add.assoc add.commute add_left_cancel)
qed simp

lemma trim_length: "length (trim_retry_queue_if_needed q) \<le> retry_queue_max_items"
  by (simp add: trim_retry_queue_if_needed_def)

lemma trim_keys_subset: "set (trim_retry_queue_if_needed q) \<subseteq> set q"
  by (auto simp: trim_retry_queue_if_needed_def dest: in_set_takeD)

lemma trim_distinct: "distinct (queue_keys q) \<Longrightarrow> distinct (queue_keys (trim_retry_queue_if_needed q))"
  by (auto simp: trim_retry_queue_if_needed_def queue_keys_def take_map[symmetric]
           intro: distinct_take simp: distinct_map_sort_desc)

lemma enqueue_retry_items_inv:
  assumes "retry_inv q"
  shows "retry_inv (fst (enqueue_retry_items kind items now_ts mr b q))"
proof (cases "mr \<le> 0")
  case True
  then show ?thesis using assms by (simp add: enqueue_retry_items_def)
next
  case False
  let ?b = "max 1 (if b = 0 then 1 else b)"
  let ?st = "foldl (enqueue_one kind now_ts mr ?b) (q, key_index 0 q Map.empty, 0) items"
  have "enqueue_inv (q, key_index 0 q Map.empty, 0)"
    using assms by (simp add: enqueue_inv_def index_ok_init retry_inv_def)
  then have "enqueue_inv ?st" by (rule foldl_enqueue_inv)
  then have "distinct (queue_keys (fst ?st))"
    by (auto simp: enqueue_inv_def index_ok_def split: prod.splits)
  then show ?thesis using False
    by (simp add: enqueue_retry_items_def Let_def split_beta retry_inv_def trim_length trim_distinct)
qed

text \<open>
  The number \<open>_enqueue_retry_items\<close> returns is the growth of the queue before the cut to
  200 entries.
\<close>

lemma enqueue_retry_items_growth:
  assumes "retry_inv q" "0 < mr"
  shows "length (fst (enqueue_retry_items kind items now_ts mr b q))
    = min retry_queue_max_items (length q + snd (enqueue_retry_items kind items now_ts mr b q))"
proof -
  let ?b = "max 1 (if b = 0 then 1 else b)"
  let ?st = "foldl (enqueue_one kind now_ts mr ?b) (q, key_index 0 q Map.empty, 0) items"
  have "enqueue_inv (q, key_index 0 q Map.empty, 0)"
    using assms by (simp add: enqueue_inv_def index_ok_init retry_inv_def)
  from foldl_enqueue_length[OF this, of kind now_ts mr ?b items]
  have "length (fst ?st) = length q + snd (snd ?st)" by simp
  then show ?thesis using assms(2)
    by (simp add: enqueue_retry_items_def Let_def split_beta trim_retry_queue_if_needed_def)
qed

section \<open>What processing does to the queue\<close>

lemma requeue_keys [simp]: "queue_keys (requeue k rnd nt now_ts err q) = queue_keys q"
  by (induction q) (auto simp: queue_keys_def)

lemma requeue_length [simp]: "length (requeue k rnd nt now_ts err q) = length q"
  by (induction q) auto

lemma retry_one_keys: "queue_keys (fst (retry_one xc xo now_ts b mr st item)) = queue_keys (fst st)"
  by (auto simp: retry_one_def Let_def split: prod.splits)

lemma retry_loop_keys:
  "queue_keys (fst (retry_loop xc xo now_ts b mr items st)) = queue_keys (fst st)"
  unfolding retry_loop_def by (rule foldl_frame) (rule retry_one_keys)

text \<open>The counters of the report: every due item is retried or dropped as invalid.\<close>

definition outcome_ok :: "retry_outcome \<Rightarrow> bool" where
  "outcome_ok out \<longleftrightarrow>
     ro_retried out = ro_succeeded out + ro_failed out
     \<and> ro_succeeded out = length (ro_success_keys out)
     \<and> ro_dropped out = length (ro_dropped_keys out)
     \<and> length (ro_details out) \<le> ro_retried out + ro_dropped out
     \<and> ro_retried out \<le> length (ro_details out)"

lemma outcome_ok_empty: "outcome_ok empty_outcome"
  by (simp add: outcome_ok_def empty_outcome_def)

lemma retry_one_outcome:
  "outcome_ok (fst (snd st)) \<Longrightarrow> outcome_ok (fst (snd (retry_one xc xo now_ts b mr st item)))"
  by (auto simp: retry_one_def Let_def outcome_ok_def split: prod.splits)

lemma retry_one_details:
  "length (ro_details (fst (snd (retry_one xc xo now_ts b mr st item))))
     = Suc (length (ro_details (fst (snd st))))"
  by (auto simp: retry_one_def Let_def split: prod.splits)

lemma retry_loop_outcome:
  assumes "outcome_ok (fst (snd st))"
  shows "outcome_ok (fst (snd (retry_loop xc xo now_ts b mr items st)))"
  unfolding retry_loop_def using assms by (rule foldl_invariant) (rule retry_one_outcome)

lemma retry_loop_details:
  "length (ro_details (fst (snd (retry_loop xc xo now_ts b mr items st))))
     = length (ro_details (fst (snd st))) + length items"
  unfolding retry_loop_def
  using foldl_count[where g = "\<lambda>st. length (ro_details (fst (snd st)))"
      and f = "retry_one xc xo now_ts b mr", OF retry_one_details] .

lemma retry_inv_filter: "retry_inv q \<Longrightarrow> retry_inv (filter P q)"
  by (auto simp: retry_inv_def queue_keys_def distinct_map_filter intro: order_trans[OF length_filter_le])

lemma retry_inv_keys: "queue_keys q' = queue_keys q \<Longrightarrow> retry_inv q' = retry_inv q"
  unfolding retry_inv_def queue_keys_def by (metis length_map)

text \<open>The result of \<open>_process_due_retries\<close> in one equation, without the early returns.\<close>

definition loop_result ::
    "'w close_exec \<Rightarrow> 'w open_exec \<Rightarrow> auto_cfg \<Rightarrow> real \<Rightarrow> retry_queue \<Rightarrow> 'w
      \<Rightarrow> retry_queue \<times> retry_outcome \<times> 'w" where
  "loop_result xc xo cfg now_ts q w =
     retry_loop xc xo now_ts (max 1 (cfg_int (cfg_execution_retry_backoff_secs cfg) 8))
       (max 0 (cfg_int (cfg_execution_retry_max_rounds cfg) 2)) (due_items now_ts q)
       (q, empty_outcome, w)"

lemma process_unfold:
  assumes "loop_result xc xo cfg now_ts q w = (q1, out, w')"
  shows "process_due_retries xc xo cfg now_ts q w =
    (let q2 = filter (\<lambda>x. rq_key x \<notin> set (ro_success_keys out @ ro_dropped_keys out)) q1
     in (\<lparr>rr_due_count = length (due_items now_ts q), rr_outcome = out, rr_remaining = length q2\<rparr>, q2, w'))"
proof (cases "due_items now_ts q = []")
  case True
  with assms have "q1 = q" "out = empty_outcome" "w' = w"
    by (auto simp: loop_result_def retry_loop_def)
  then show ?thesis using True by (simp add: process_due_retries_def empty_outcome_def)
next
  case False
  then show ?thesis using assms
    by (simp add: process_due_retries_def loop_result_def Let_def)
qed

lemma process_inv:
  assumes "retry_inv q"
  shows "retry_inv (fst (snd (process_due_retries xc xo cfg now_ts q w)))"
proof -
  obtain q1 out w' where l: "loop_result xc xo cfg now_ts q w = (q1, out, w')" by (metis prod.exhaust)
  have "queue_keys q1 = queue_keys q"
    using retry_loop_keys[of xc xo now_ts _ _ "due_items now_ts q" "(q, empty_outcome, w)"] l
    by (metis fst_conv loop_result_def)
  then have "retry_inv q1" using assms retry_inv_keys by blast
  then show ?thesis by (simp add: process_unfold[OF l] Let_def retry_inv_filter)
qed

section \<open>Entry by entry\<close>

lemma requeue_map:
  "distinct (queue_keys q) \<Longrightarrow>
   requeue k rnd nt now_ts err q =
     map (\<lambda>x. if rq_key x = k
              then x\<lparr>rq_round := rnd, rq_next_ts := nt, rq_updated_at := now_ts, rq_last_error := err\<rparr>
              else x) q"
proof (induction q)
  case (Cons x xs)
  show ?case
  proof (cases "rq_key x = k")
    case True
    with Cons.prems have "\<And>y. y \<in> set xs \<Longrightarrow> rq_key y \<noteq> k"
      by (metis distinct.simps(2) image_eqI list.set_map list.simps(9) queue_keys_def)
    then have "map (\<lambda>x. if rq_key x = k
              then x\<lparr>rq_round := rnd, rq_next_ts := nt, rq_updated_at := now_ts, rq_last_error := err\<rparr>
              else x) xs = xs" by (intro map_idI) auto
    then show ?thesis using True by simp
  next
    case False
    with Cons show ?thesis by (simp add: queue_keys_def)
  qed
qed simp

text \<open>
  How an entry \<open>y\<close> of the queue relates to the same position after the loop has handled the
  items \<open>P\<close>: untouched when not handled; otherwise it is to be removed, or it failed with
  rounds to spare and is rescheduled.
\<close>

definition rescheduled :: "real \<Rightarrow> int \<Rightarrow> int \<Rightarrow> retry_record \<Rightarrow> retry_record \<Rightarrow> bool" where
  "rescheduled now_ts b mr y x \<longleftrightarrow>
     \<not> invalid_retry_item y \<and> rq_round y + 1 \<le> mr
     \<and> (\<exists>err. x = y\<lparr>rq_round := rq_round y + 1, rq_next_ts := now_ts + of_int b,
                    rq_updated_at := now_ts, rq_last_error := err\<rparr>)"

definition entry_rel ::
    "real \<Rightarrow> int \<Rightarrow> int \<Rightarrow> retry_record list \<Rightarrow> string set \<Rightarrow> retry_record \<Rightarrow> retry_record \<Rightarrow> bool" where
  "entry_rel now_ts b mr P gone y x \<longleftrightarrow>
     rq_key x = rq_key y
     \<and> (if y \<in> set P then rq_key y \<in> gone \<or> rescheduled now_ts b mr y x
        else x = y \<and> rq_key y \<notin> gone)"

definition gone_keys :: "retry_outcome \<Rightarrow> string set" where
  "gone_keys out = set (ro_success_keys out @ ro_dropped_keys out)"

lemma key_inj: "distinct (queue_keys q) \<Longrightarrow> x \<in> set q \<Longrightarrow> y \<in> set q \<Longrightarrow> rq_key x = rq_key y \<Longrightarrow> x = y"
  by (auto simp: queue_keys_def distinct_map dest: inj_onD)

lemma gone_step:
  assumes rel: "list_all2 (entry_rel now_ts b mr P gone) q q1"
    and d: "distinct (queue_keys q)" and y: "y \<in> set q"
  shows "list_all2 (entry_rel now_ts b mr (P @ [y]) (insert (rq_key y) gone)) q q1"
proof (rule list.rel_mono_strong[OF rel])
  fix z x assume z: "z \<in> set q" and r: "entry_rel now_ts b mr P gone z x"
  show "entry_rel now_ts b mr (P @ [y]) (insert (rq_key y) gone) z x"
    using r key_inj[OF d z y] by (auto simp: entry_rel_def)
qed

lemma requeue_step:
  assumes rel: "list_all2 (entry_rel now_ts b mr P gone) q q1"
    and d: "distinct (queue_keys q)" and y: "y \<in> set q" "y \<notin> set P"
    and ok: "\<not> invalid_retry_item y" "rq_round y + 1 \<le> mr"
  shows "list_all2 (entry_rel now_ts b mr (P @ [y]) gone) q
    (requeue (rq_key y) (rq_round y + 1) (now_ts + of_int b) now_ts err q1)"
proof -
  have "queue_keys q1 = queue_keys q"
    unfolding queue_keys_def using rel
    by (induction rule: list_all2_induct) (auto simp: entry_rel_def)
  with d have d1: "distinct (queue_keys q1)" by simp
  show ?thesis
    unfolding requeue_map[OF d1] list_all2_map2
  proof (rule list.rel_mono_strong[OF rel])
    fix z x assume z: "z \<in> set q" and r: "entry_rel now_ts b mr P gone z x"
    show "entry_rel now_ts b mr (P @ [y]) gone z
      (if rq_key x = rq_key y
       then x\<lparr>rq_round := rq_round y + 1, rq_next_ts := now_ts + of_int b, rq_updated_at := now_ts,
              rq_last_error := err\<rparr> else x)"
      using r key_inj[OF d z y(1)] y(2) ok
      by (auto simp: entry_rel_def rescheduled_def)
  qed
qed

lemma retry_one_rel:
  assumes rel: "list_all2 (entry_rel now_ts b mr P (gone_keys (fst (snd st)))) q (fst st)"
    and d: "distinct (queue_keys q)" and y: "y \<in> set q" "y \<notin> set P"
  shows "list_all2 (entry_rel now_ts b mr (P @ [y])
    (gone_keys (fst (snd (retry_one xc xo now_ts b mr st y))))) q (fst (retry_one xc xo now_ts b mr st y))"
proof -
  obtain q1 out w where st: "st = (q1, out, w)" by (metis prod.exhaust)
  obtain ok err w' where a: "attempt xc xo w y = ((ok, err), w')" by (metis prod.exhaust)
  have ins: "gone_keys (out\<lparr>ro_dropped := n, ro_dropped_keys := ro_dropped_keys out @ [k], ro_details := ds\<rparr>)
      = insert k (gone_keys out)"
    "gone_keys (out\<lparr>ro_retried := r, ro_succeeded := n, ro_success_keys := ro_success_keys out @ [k], ro_details := ds\<rparr>)
      = insert k (gone_keys out)"
    "gone_keys (out\<lparr>ro_retried := r, ro_failed := f, ro_dropped := n, ro_dropped_keys := ro_dropped_keys out @ [k], ro_details := ds\<rparr>)
      = insert k (gone_keys out)"
    "gone_keys (out\<lparr>ro_retried := r, ro_failed := f, ro_details := ds\<rparr>) = gone_keys out"
    for n k ds r f by (auto simp: gone_keys_def)
  consider "invalid_retry_item y" | "\<not> invalid_retry_item y" "ok"
    | "\<not> invalid_retry_item y" "\<not> ok" "rq_round y + 1 > mr"
    | "\<not> invalid_retry_item y" "\<not> ok" "rq_round y + 1 \<le> mr" by linarith
  then show ?thesis
    using gone_step[OF rel d y(1)] requeue_step[OF rel d y]
    by cases (simp_all add: st a retry_one_def Let_def ins)
qed

lemma retry_loop_rel:
  assumes d: "distinct (queue_keys q)"
  shows "set P \<subseteq> set q \<Longrightarrow> distinct P \<Longrightarrow>
    list_all2 (entry_rel now_ts b mr P
      (gone_keys (fst (snd (retry_loop xc xo now_ts b mr P (q, empty_outcome, w)))))) q
      (fst (retry_loop xc xo now_ts b mr P (q, empty_outcome, w)))"
proof (induction P rule: rev_induct)
  case Nil
  show ?case
    by (simp add: retry_loop_def gone_keys_def empty_outcome_def entry_rel_def list_all2_same)
next
  case (snoc y P)
  then show ?case
    unfolding retry_loop_def foldl_append foldl.simps
    by (intro retry_one_rel d) (auto simp: retry_loop_def)
qed

lemma due_items_sub: "set (due_items now_ts q) \<subseteq> set q"
  by (auto simp: due_items_def dest: in_set_takeD)

lemma due_items_distinct: "distinct (queue_keys q) \<Longrightarrow> distinct (due_items now_ts q)"
  by (auto simp: due_items_def queue_keys_def distinct_map)

text \<open>
  Every entry that processing leaves in the queue either was not handled and is unchanged,
  or was due, failed and is rescheduled with one more round.
\<close>

lemma process_entries:
  assumes "retry_inv q" and x: "x \<in> set (fst (snd (process_due_retries xc xo cfg now_ts q w)))"
  shows "\<exists>y \<in> set q. (y \<notin> set (due_items now_ts q) \<and> x = y)
    \<or> (y \<in> set (due_items now_ts q)
       \<and> rescheduled now_ts (max 1 (cfg_int (cfg_execution_retry_backoff_secs cfg) 8))
           (max 0 (cfg_int (cfg_execution_retry_max_rounds cfg) 2)) y x)"
proof -
  obtain q1 out w' where l: "loop_result xc xo cfg now_ts q w = (q1, out, w')" by (metis prod.exhaust)
  have d: "distinct (queue_keys q)" using assms(1) by (simp add: retry_inv_def)
  have rel: "list_all2 (entry_rel now_ts (max 1 (cfg_int (cfg_execution_retry_backoff_secs cfg) 8))
      (max 0 (cfg_int (cfg_execution_retry_max_rounds cfg) 2)) (due_items now_ts q) (gone_keys out)) q q1"
    using retry_loop_rel[OF d due_items_sub due_items_distinct[OF d]] l
    unfolding loop_result_def by (metis fst_conv snd_conv)
  from x have "x \<in> set q1" and ng: "rq_key x \<notin> gone_keys out"
    by (auto simp: process_unfold[OF l] Let_def gone_keys_def)
  then obtain y where "y \<in> set q" "entry_rel now_ts (max 1 (cfg_int (cfg_execution_retry_backoff_secs cfg) 8))
      (max 0 (cfg_int (cfg_execution_retry_max_rounds cfg) 2)) (due_items now_ts q) (gone_keys out) y x"
    using rel by (metis in_set_conv_nth list_all2_conv_all_nth)
  then show ?thesis using ng by (auto simp: entry_rel_def split: if_splits)
qed

section \<open>The queue drains\<close>

text \<open>Repeated processing at the given times, as successive cycles do.\<close>

definition process_at ::
    "'w close_exec \<Rightarrow> 'w open_exec \<Rightarrow> auto_cfg \<Rightarrow> retry_queue \<times> 'w \<Rightarrow> real \<Rightarrow> retry_queue \<times> 'w" where
  "process_at xc xo cfg st now_ts = snd (process_due_retries xc xo cfg now_ts (fst st) (snd st))"

lemma all_due:
  "length q \<le> 30 \<Longrightarrow> \<forall>x \<in> set q. rq_next_ts x \<le> t \<Longrightarrow> due_items t q = q"
  by (simp add: due_items_def)

lemma process_length: "length (fst (snd (process_due_retries xc xo cfg now_ts q w))) \<le> length q"
proof -
  obtain q1 out w' where l: "loop_result xc xo cfg now_ts q w = (q1, out, w')" by (metis prod.exhaust)
  have "queue_keys q1 = queue_keys q"
    using retry_loop_keys[of xc xo now_ts _ _ "due_items now_ts q" "(q, empty_outcome, w)"] l
    by (metis fst_conv loop_result_def)
  then have "length q1 = length q" unfolding queue_keys_def by (metis length_map)
  then show ?thesis by (metis process_unfold[OF l] Let_def fst_conv snd_conv length_filter_le)
qed

lemma drain_step:
  assumes "retry_inv q" "length q \<le> 30"
    and due: "\<forall>x \<in> set q. rq_next_ts x \<le> t \<and> k \<le> rq_round x"
    and p: "process_at xc xo cfg (q, w) t = (q', w')"
  shows "retry_inv q' \<and> length q' \<le> 30
    \<and> (\<forall>x \<in> set q'. rq_next_ts x = t + of_int (max 1 (cfg_int (cfg_execution_retry_backoff_secs cfg) 8))
         \<and> k + 1 \<le> rq_round x \<and> rq_round x \<le> max 0 (cfg_int (cfg_execution_retry_max_rounds cfg) 2))"
proof -
  have q': "q' = fst (snd (process_due_retries xc xo cfg t q w))"
    using p by (simp add: process_at_def)
  have all: "due_items t q = q" using assms(2) due by (intro all_due) auto
  have "retry_inv q'" unfolding q' by (rule process_inv[OF assms(1)])
  moreover have "length q' \<le> 30"
    using process_length[of xc xo cfg t q w] assms(2) by (simp add: q')
  ultimately show ?thesis
    using process_entries[OF assms(1), of _ xc xo cfg t w] due
    unfolding q' all by (fastforce simp: rescheduled_def)
qed

text \<open>
  Rounds never run past the limit, so \<open>max_rounds + 1\<close> passes over due items empty the
  queue whatever the executors answer.
\<close>

lemma drain_rounds:
  assumes "retry_inv q" "length q \<le> 30"
    and "\<forall>x \<in> set q. rq_next_ts x \<le> t \<and> k \<le> rq_round x"
    and "\<forall>i < length ts. (t # ts) ! i + of_int (max 1 (cfg_int (cfg_execution_retry_backoff_secs cfg) 8)) \<le> ts ! i"
    and "max 0 (cfg_int (cfg_execution_retry_max_rounds cfg) 2) < k + 1 + int (length ts)"
  shows "fst (foldl (process_at xc xo cfg) (q, w) (t # ts)) = []"
  using assms
proof (induction ts arbitrary: q w t k)
  case Nil
  obtain q' w' where p: "process_at xc xo cfg (q, w) t = (q', w')" by (metis prod.exhaust)
  have "x \<notin> set q'" for x
    using drain_step[OF Nil.prems(1-3) p] Nil.prems(5) by force
  then have "q' = []" by (metis list.set_intros(1) neq_Nil_conv)
  then show ?case using p by simp
next
  case (Cons t2 ts)
  obtain q' w' where p: "process_at xc xo cfg (q, w) t = (q', w')" by (metis prod.exhaust)
  note st = drain_step[OF Cons.prems(1-3) p]
  have t2: "t + of_int (max 1 (cfg_int (cfg_execution_retry_backoff_secs cfg) 8)) \<le> t2"
    using Cons.prems(4) by (auto dest: spec[of _ 0])
  have "fst (foldl (process_at xc xo cfg) (q', w') (t2 # ts)) = []"
  proof (rule Cons.IH[where k = "k + 1"])
    show "retry_inv q'" "length q' \<le> 30" using st by auto
    show "\<forall>x\<in>set q'. rq_next_ts x \<le> t2 \<and> k + 1 \<le> rq_round x" using st t2 by fastforce
    show "\<forall>i<length ts. (t2 # ts) ! i + of_int (max 1 (cfg_int (cfg_execution_retry_backoff_secs cfg) 8)) \<le> ts ! i"
      using Cons.prems(4) by (metis Suc_less_eq length_Cons nth_Cons_Suc)
    show "max 0 (cfg_int (cfg_execution_retry_max_rounds cfg) 2) < k + 1 + 1 + int (length ts)"
      using Cons.prems(5) by simp
  qed
  then show ?case using p by simp
qed

section \<open>The queue as a machine\<close>

text \<open>
  The operations the cycle performs on the queue, as events; the queue with the world the
  executors act on is an instance of the machine interface.
\<close>

datatype retry_event =
    Enqueue string "plan_item list" real int int
  | ProcessDue auto_cfg real

definition retry_step ::
    "'w close_exec \<Rightarrow> 'w open_exec \<Rightarrow> retry_queue \<times> 'w \<Rightarrow> retry_event \<Rightarrow> retry_queue \<times> 'w" where
  "retry_step xc xo st e =
     (case e of
        Enqueue kind items now_ts mr b \<Rightarrow> (fst (enqueue_retry_items kind items now_ts mr b (fst st)), snd st)
      | ProcessDue cfg now_ts \<Rightarrow> process_at xc xo cfg st now_ts)"

definition is_process :: "retry_event \<Rightarrow> bool" where
  "is_process e = (case e of ProcessDue cfg now_ts \<Rightarrow> True | Enqueue k i n m b \<Rightarrow> False)"

lemma retry_step_inv: "retry_inv (fst st) \<Longrightarrow> retry_inv (fst (retry_step xc xo st e))"
  by (cases e) (simp_all add: retry_step_def process_at_def enqueue_retry_items_inv process_inv)

interpretation retry: draining_machine "([], w0)" "retry_step xc xo" "\<lambda>st. retry_inv (fst st)"
    is_process "\<lambda>st. length (fst st)"
  for w0 :: 'w and xc :: "'w close_exec" and xo :: "'w open_exec"
proof unfold_locales
  show "retry_inv (fst ([], w0))" by simp
next
  fix st :: "retry_queue \<times> 'w" and e
  show "retry_inv (fst st) \<Longrightarrow> retry_inv (fst (retry_step xc xo st e))" by (rule retry_step_inv)
next
  fix st :: "retry_queue \<times> 'w" and e
  show "is_process e \<Longrightarrow> length (fst (retry_step xc xo st e)) \<le> length (fst st)"
    by (cases e) (simp_all add: is_process_def retry_step_def process_at_def process_length)
qed

section \<open>Properties\<close>

text \<open>
  However enqueues and retry passes interleave, starting from the empty queue of the
  module, the queue holds each key once (one entry per strategy to close and per row and
  exchange pair to open) and never more than 200 entries.
\<close>

theorem retry_queue_reachable:
  "distinct (map rq_key (fst (foldl (retry_step xc xo) ([], w) es)))
   \<and> length (fst (foldl (retry_step xc xo) ([], w) es)) \<le> 200"
  using retry.reachable_inv[of xc xo w es]
  by (simp add: retry_inv_def queue_keys_def retry_queue_max_items_def)


definition sample_retry :: retry_record where
  "sample_retry =
     \<lparr>rq_key = ''close:7'', rq_kind = ''close'', rq_payload = empty_item\<lparr>pi_strategy_id := Some 7\<rparr>,
      rq_round = 0, rq_max_rounds = 2, rq_next_ts = 8, rq_last_error = None,
      rq_updated_at = 0, rq_created_at = 0\<rparr>"


text \<open>
  The retry report adds up. Every due item is either attempted or dropped as invalid,
  attempts are successes or failures, there is one detail line per due item, and the reported
  remainder is the length of the queue that is left.
\<close>

theorem retry_report_adds_up:
  "(case process_due_retries xc xo cfg now_ts q w of (r, q', w') \<Rightarrow>
      rr_due_count r = length (ro_details (rr_outcome r))
      \<and> ro_retried (rr_outcome r) = ro_succeeded (rr_outcome r) + ro_failed (rr_outcome r)
      \<and> rr_due_count r \<le> ro_retried (rr_outcome r) + ro_dropped (rr_outcome r)
      \<and> rr_due_count r \<le> 30
      \<and> rr_remaining r = length q')"
proof -
  obtain q1 out w' where l: "loop_result xc xo cfg now_ts q w = (q1, out, w')" by (metis prod.exhaust)
  let ?st = "(q, empty_outcome, w)"
  have ok: "outcome_ok out"
    using retry_loop_outcome[of ?st] outcome_ok_empty l unfolding loop_result_def
    by (metis fst_conv snd_conv)
  have n: "length (ro_details out) = length (due_items now_ts q)"
    using retry_loop_details[of xc xo now_ts _ _ "due_items now_ts q" ?st] l
    unfolding loop_result_def by (metis add_0 empty_outcome_def fst_conv list.size(3) retry_outcome.select_convs(7) snd_conv)
  show ?thesis
    using ok n by (simp add: process_unfold[OF l] Let_def outcome_ok_def) (simp add: due_items_def)
qed

end
