(* ===== verification/Orchestrator.thy ===== *)
theory Orchestrator
  imports Legs OpenExecutor RetryQueue
begin

text \<open>
  Execution of close and repair plans (\<open>core/spot_basis_auto_engine/orchestrator.py\<close>): a close
  plan closes whole strategies, a repair plan reduces one leg of a strategy by a market order
  and books the reduction, rolling back when anything is missing. The contract size of a
  market (\<open>contract\<close>, read from the exchange) is an argument.
\<close>

section \<open>Close plans\<close>

definition closed_item :: "plan_item \<Rightarrow> plan_item" where
  "closed_item plan = empty_item\<lparr>pi_strategy_id := Some (item_sid plan), pi_row_id := pi_row_id plan, pi_symbol := pi_symbol plan\<rparr>"

definition close_failed_item :: "plan_item \<Rightarrow> string \<Rightarrow> plan_item" where
  "close_failed_item plan err =
     (closed_item plan)\<lparr>pi_size_usd := Some (py_round (item_size plan) 2), pi_error := Some err\<rparr>"

definition close_error_text :: "close_result \<Rightarrow> string" where
  "close_error_text r =
     str_or_empty (py_or_str (cl_error r)
       (if cl_errors r \<noteq> [] then Some (repr_list (cl_errors r)) else Some ''close_failed''))"

record 'w close_run =
  cn_session :: session
  cn_world :: 'w
  cn_closed :: "plan_item list"
  cn_failed :: "plan_item list"

definition close_plan_step :: "'w venue \<Rightarrow> string \<Rightarrow> real \<Rightarrow> 'w close_run \<Rightarrow> plan_item \<Rightarrow> 'w close_run" where
  "close_plan_step v reason now x plan =
     (let sid = item_sid plan in
      if sid \<le> 0 then x\<lparr>cn_failed := cn_failed x @ [plan\<lparr>pi_error := Some ''invalid_strategy_id''\<rparr>]\<rparr>
      else
        case close_strategy v sid reason now (cn_session x) (cn_world x) of
          (ret, s', w') \<Rightarrow>
            let x1 = x\<lparr>cn_session := s', cn_world := w'\<rparr> in
            if cl_success ret then x1\<lparr>cn_closed := cn_closed x @ [closed_item plan]\<rparr>
            else x1\<lparr>cn_failed := cn_failed x @ [close_failed_item plan (close_error_text ret)]\<rparr>)"

definition execute_close_plan :: "'w venue \<Rightarrow> string \<Rightarrow> real \<Rightarrow> session \<Rightarrow> 'w \<Rightarrow> plan_item list \<Rightarrow> 'w close_run" where
  "execute_close_plan v reason now s w plan =
     foldl (close_plan_step v reason now) \<lparr>cn_session = s, cn_world = w, cn_closed = [], cn_failed = []\<rparr> plan"

text \<open>The executors as the retry queue calls them; the world they thread is the session and the exchanges.\<close>

definition close_executor :: "'w venue \<Rightarrow> real \<Rightarrow> (session \<times> 'w) close_exec" where
  "close_executor v now = (\<lambda>(s, w) plan reason.
     let x = execute_close_plan v reason now s w plan
     in ((cn_closed x, cn_failed x), (cn_session x, cn_world x)))"

definition open_executor :: "'w open_env \<Rightarrow> auto_cfg \<Rightarrow> real \<Rightarrow> (session \<times> 'w) open_exec" where
  "open_executor env cfg now = (\<lambda>(s, w) plan.
     let x = execute_open_plan env cfg now s w plan
     in ((xs_opened x, xs_failed x, xs_skipped x), (xs_session x, xs_world x)))"

section \<open>Repair plans\<close>

record 'w repair_run =
  rn_session :: session
  rn_world :: 'w
  rn_repaired :: "plan_item list"
  rn_failed :: "plan_item list"
  rn_fallback :: "plan_item list"
  rn_seen :: "int list"

definition repair_fallback :: "plan_item \<Rightarrow> string option \<Rightarrow> string \<Rightarrow> plan_item" where
  "repair_fallback item symbol code =
     empty_item\<lparr>pi_strategy_id := Some (item_sid item), pi_row_id := Some (str_or_empty (pi_row_id item)),
       pi_symbol := symbol, pi_size_usd := Some (py_round (pos_part (to_float (pi_reduce_notional item) 0)) 2),
       pi_reason_codes := pi_reason_codes item @ [code]\<rparr>"

definition add_fallback :: "int \<Rightarrow> plan_item \<Rightarrow> 'w repair_run \<Rightarrow> 'w repair_run" where
  "add_fallback sid one x =
     (if sid \<in> set (rn_seen x) then x
      else x\<lparr>rn_seen := sid # rn_seen x, rn_fallback := rn_fallback x @ [one]\<rparr>)"

text \<open>
  The body of the \<open>try\<close> block for one leg. \<open>Inl\<close> is the text of the exception; the world has
  moved in either case. The order, its fill and the booking are the code's, for both legs.
\<close>

definition repair_leg ::
    "'w venue \<Rightarrow> (exchange_row \<Rightarrow> string \<Rightarrow> fopt option) \<Rightarrow> real \<Rightarrow> int \<Rightarrow> bool \<Rightarrow> plan_item \<Rightarrow> string \<Rightarrow> real
      \<Rightarrow> exchange_row option \<Rightarrow> position_row list \<Rightarrow> real \<Rightarrow> session \<Rightarrow> 'w \<Rightarrow> (string + plan_item \<times> session) \<times> 'w" where
  "repair_leg v contract now sid is_spot item symbol req ex rows reducible s w =
     (let leg = (if is_spot then ''spot'' else ''perp'');
          order_symbol = (if is_spot then split_head (CHR '':'') symbol else symbol)
      in case ex of
           None \<Rightarrow> (Inl (leg @ ''_leg_unavailable''), w)
         | Some e \<Rightarrow>
             if rows = [] then (Inl (leg @ ''_leg_unavailable''), w)
             else
               let reduce_base = min req (pos_part reducible) in
               if reduce_base \<le> 0 then (Inl (leg @ ''_leg_size_zero''), w)
               else
                 case (if is_spot then v_close_spot v w e (Some order_symbol) (Some reduce_base)
                       else v_close_hedge v w e (Some order_symbol) (Some ''short'') (Some reduce_base)) of
                   (None, w') \<Rightarrow> (Inl (leg @ ''_reduce_order_failed''), w')
                 | (Some ret, w') \<Rightarrow>
                     let actual = extract_order_filled_base (contract e order_symbol) (Some ret) reduce_base is_spot in
                     if actual \<le> 0 then (Inl (leg @ ''_reduce_filled_zero''), w')
                     else
                       let (touched, s1) = apply_reduce_on_positions now rows actual s;
                           fill = to_float (py_or_num (or_average ret) (or_price ret)) (row_price (hd rows));
                           reduced = sum_list (map snd touched);
                           s2 = add_log
                             \<lparr>tl_strategy_id = sid, tl_position_id = None, tl_action = ''repair_reduce'',
                              tl_exchange = ex_name e, tl_symbol = Some order_symbol,
                              tl_side = (if is_spot then ''sell'' else ''buy''), tl_price = Some fill,
                              tl_size = Some (pos_part reduced),
                              tl_reason = ''spot_basis_auto delta mismatch proportional reduce '' @ leg\<rparr> s1;
                           s3 = db_commit (sync_strategy_after_leg_adjust now sid s2)
                       in (Inr (empty_item\<lparr>pi_strategy_id := Some sid, pi_row_id := Some (str_or_empty (pi_row_id item)),
                             pi_symbol := Some symbol, pi_action := Some (if is_spot then ''reduce_spot'' else ''reduce_perp''),
                             pi_reduce_base := Some (py_round (pos_part reduced) 10),
                             pi_reduce_notional := Some (py_round (pos_part (reduced * fill)) 4)\<rparr>, s3), w'))"

definition repair_action :: "plan_item \<Rightarrow> string" where
  "repair_action item = py_lower (py_strip (str_or_empty (pi_action item)))"

definition repair_status_ok :: "strategy_row \<Rightarrow> bool" where
  "repair_status_ok st \<longleftrightarrow> py_lower (str_or_empty (st_status st)) \<in> {''active'', ''closing'', ''error''}"

definition repair_step ::
    "'w venue \<Rightarrow> (exchange_row \<Rightarrow> string \<Rightarrow> fopt option) \<Rightarrow> real \<Rightarrow> 'w repair_run \<Rightarrow> plan_item \<Rightarrow> 'w repair_run" where
  "repair_step v contract now x item =
     (let sid = item_sid item; action = repair_action item; req = pos_part (to_float (pi_reduce_base item) 0);
          s = rn_session x
      in if sid \<le> 0 \<or> action \<notin> {''reduce_spot'', ''reduce_perp''} \<or> req \<le> 0 then
           let x1 = x\<lparr>rn_failed := rn_failed x @ [item\<lparr>pi_error := Some ''invalid_repair_item''\<rparr>]\<rparr>
           in if sid > 0 then add_fallback sid (repair_fallback item (pi_symbol item) ''fallback_close_invalid_repair_item'') x1
              else x1
         else
           case query_strategy sid s of
             None \<Rightarrow> x\<lparr>rn_failed := rn_failed x @ [item\<lparr>pi_error := Some ''strategy_not_active''\<rparr>]\<rparr>
           | Some st \<Rightarrow>
               if \<not> repair_status_ok st then x\<lparr>rn_failed := rn_failed x @ [item\<lparr>pi_error := Some ''strategy_not_active''\<rparr>]\<rparr>
               else
                 let leg = get_open_leg_snapshot sid s;
                     spot_ex = query_exchange (int_or_zero (st_long_ex st)) s;
                     perp_ex = query_exchange (int_or_zero (st_short_ex st)) s;
                     symbol = str_or_empty (py_or_str (st_symbol st) (pi_symbol item));
                     (res, w') =
                       (if action = ''reduce_spot''
                        then repair_leg v contract now sid True item symbol req spot_ex (lg_spot_rows leg) (lg_spot_size leg) s (rn_world x)
                        else repair_leg v contract now sid False item symbol req perp_ex (lg_perp_rows leg) (lg_perp_size leg) s (rn_world x))
                 in (case res of
                       Inr (done_item, s') \<Rightarrow> x\<lparr>rn_session := s', rn_world := w', rn_repaired := rn_repaired x @ [done_item]\<rparr>
                     | Inl err \<Rightarrow>
                         add_fallback sid (repair_fallback item (Some symbol) ''fallback_close_after_reduce_failed'')
                           (x\<lparr>rn_session := db_rollback s, rn_world := w',
                              rn_failed := rn_failed x @ [item\<lparr>pi_error := Some err\<rparr>]\<rparr>)))"

definition execute_mismatch_repair_plan ::
    "'w venue \<Rightarrow> (exchange_row \<Rightarrow> string \<Rightarrow> fopt option) \<Rightarrow> real \<Rightarrow> session \<Rightarrow> 'w \<Rightarrow> plan_item list \<Rightarrow> 'w repair_run" where
  "execute_mismatch_repair_plan v contract now s w plan =
     foldl (repair_step v contract now)
       \<lparr>rn_session = s, rn_world = w, rn_repaired = [], rn_failed = [], rn_fallback = [], rn_seen = []\<rparr> plan"

section \<open>What a close leaves alone\<close>

lemma close_loop_keeps:
  assumes "p \<in> set (tb_positions (se_obj s))" "ps_id p \<notin> ps_id ` set ps"
  shows "p \<in> set (tb_positions (se_obj (fst (foldl (close_leg v sid reason now) (s, w, errs) ps))))"
proof -
  have "p \<in> set (tb_positions (se_obj (fst (foldl (close_leg v sid reason now) st ps))))"
    if "p \<in> set (tb_positions (se_obj (fst st)))" for st
    using that assms(2)
  proof (induction ps arbitrary: st)
    case (Cons q ps)
    obtain s w errs where st: "st = (s, w, errs)" by (cases st)
    have "p \<in> set (tb_positions (se_obj (fst (close_leg v sid reason now st q))))"
      by (cases rule: close_leg_cases[of v sid reason now s w errs q])
        (use Cons.prems st in \<open>auto simp: image_iff\<close>)
    with Cons show ?case by simp
  qed simp
  from this[of "(s, w, errs)"] assms(1) show ?thesis by simp
qed


lemma close_leg_ids:
  "map ps_id (tb_positions (se_obj (fst (close_leg v sid reason now st q)))) = map ps_id (tb_positions (se_obj (fst st)))"
proof -
  obtain s w errs where st: "st = (s, w, errs)" by (cases st)
  show ?thesis unfolding st
    by (cases rule: close_leg_cases[of v sid reason now s w errs q])
      (auto simp: comp_def if_distrib cong: if_cong)
qed

lemma close_loop_ids:
  "map ps_id (tb_positions (se_obj (fst (foldl (close_leg v sid reason now) st ps))))
   = map ps_id (tb_positions (se_obj (fst st)))"
  by (rule foldl_frame) (rule close_leg_ids)

lemma set_strategy_ids:
  assumes "\<And>r. st_id (f r) = st_id r"
  shows "map st_id (tb_strategies (se_obj (set_strategy sid f s))) = map st_id (tb_strategies (se_obj s))"
  using assms by (simp add: set_strategy_def comp_def if_distrib cong: if_cong)

lemma ids_ok_cong:
  "map ps_id (tb_positions t) = map ps_id (tb_positions u) \<Longrightarrow> map st_id (tb_strategies t) = map st_id (tb_strategies u) \<Longrightarrow>
   ids_ok t = ids_ok u"
  by (simp add: ids_ok_def)

lemma close_finish_keeps:
  "tb_positions (se_obj (snd (close_finish sid reason now errors s))) = tb_positions (se_obj s)"
  "map st_id (tb_strategies (se_obj (snd (close_finish sid reason now errors s)))) = map st_id (tb_strategies (se_obj s))"
  "se_autoflush (snd (close_finish sid reason now errors s)) = se_autoflush s"
  by (simp_all add: close_finish_def Let_def session_simps set_strategy_ids)

text \<open>A close touches the positions of its own strategy only.\<close>

lemma close_strategy_keeps:
  assumes "close_strategy v sid reason now s w = (r, s', w')" "ids_ok (se_obj s)"
  shows "se_autoflush s' = se_autoflush s" "ids_ok (se_obj s')"
    "\<And>p. p \<in> set (tb_positions (se_obj s)) \<Longrightarrow> ps_strategy_id p \<noteq> Some sid \<Longrightarrow> p \<in> set (tb_positions (se_obj s'))"
proof -
  let ?s1 = "db_commit (set_strategy sid (\<lambda>r. r\<lparr>st_status := Some ''closing''\<rparr>) s)"
  have pos1: "tb_positions (se_obj ?s1) = tb_positions (se_obj s)" by (simp add: session_simps)
  have ids1: "ids_ok (se_obj ?s1)" "map st_id (tb_strategies (se_obj ?s1)) = map st_id (tb_strategies (se_obj s))"
    using assms(2) by (simp_all add: ids_ok_def session_simps set_strategy_ids)
  let ?ps = "open_positions_of sid ?s1"
  obtain s2 w2 errors where l: "foldl (close_leg v sid reason now) (?s1, w, []) ?ps = (s2, w2, errors)"
    by (metis prod.exhaust)
  have ps: "?ps = filter (is_open_of sid) (tb_positions (se_obj s))"
    unfolding open_positions_of_def using query_positions_flushed[OF ids1(1)] pos1 by (simp add: session_simps)
  have frame: "map ps_id (tb_positions (se_obj s2)) = map ps_id (tb_positions (se_obj s))"
    "tb_strategies (se_obj s2) = tb_strategies (se_obj ?s1)" "se_autoflush s2 = se_autoflush s"
    using close_loop_ids[of v sid reason now "(?s1, w, [])" ?ps] close_loop_frame(2,3)[of v sid reason now "(?s1, w, [])" ?ps]
    by (simp_all add: l pos1 session_simps)
  consider "query_strategy sid s = None" "s' = s"
    | st where "query_strategy sid s = Some st" "s' = snd (close_finish sid reason now errors s2)"
    using assms(1) close_strategy_unfold[OF _ l assms(1)]
    by (cases "query_strategy sid s") (auto simp: close_strategy_def)
  note cases = this
  have keep: "p \<in> set (tb_positions (se_obj s2))" if p: "p \<in> set (tb_positions (se_obj s))" "ps_strategy_id p \<noteq> Some sid" for p
  proof -
    have "ps_id p \<notin> ps_id ` set ?ps"
      using p assms(2) by (auto simp: ps ids_ok_def is_open_of_def distinct_map dest: inj_onD)
    then show ?thesis using close_loop_keeps[of p ?s1 ?ps v sid reason now w "[]"] p by (simp add: pos1 l)
  qed
  show "se_autoflush s' = se_autoflush s" by (cases rule: cases) (simp_all add: close_finish_keeps frame)
  show "ids_ok (se_obj s')"
    by (cases rule: cases)
      (use assms(2) ids1 ids_ok_cong[of "se_obj s'" "se_obj s"] in \<open>simp_all add: close_finish_keeps frame\<close>)
  show "p \<in> set (tb_positions (se_obj s'))" if "p \<in> set (tb_positions (se_obj s))" "ps_strategy_id p \<noteq> Some sid" for p
    by (cases rule: cases) (use that keep[OF that] in \<open>simp_all add: close_finish_keeps\<close>)
qed

section \<open>The close plan\<close>

definition plan_open :: "session \<Rightarrow> plan_item list \<Rightarrow> bool" where
  "plan_open s plan \<longleftrightarrow> (\<forall>item \<in> set plan. \<exists>p \<in> set (tb_positions (se_obj s)). is_open_of (item_sid item) p)"

lemma close_plan_step_count:
  "length (cn_closed (close_plan_step v reason now x plan)) + length (cn_failed (close_plan_step v reason now x plan))
   = Suc (length (cn_closed x) + length (cn_failed x))"
  by (auto simp: close_plan_step_def Let_def split: prod.splits)

lemma close_plan_step_keeps:
  assumes "ids_ok (se_obj (cn_session x))" "\<not> se_autoflush (cn_session x)" "plan_open (cn_session x) (item # plan)"
    "item_sid item \<notin> item_sid ` set plan"
  shows "ids_ok (se_obj (cn_session (close_plan_step v reason now x item)))
    \<and> \<not> se_autoflush (cn_session (close_plan_step v reason now x item))
    \<and> plan_open (cn_session (close_plan_step v reason now x item)) plan
    \<and> cn_closed (close_plan_step v reason now x item) = cn_closed x"
proof (cases "item_sid item \<le> 0")
  case True
  then show ?thesis using assms by (simp add: close_plan_step_def plan_open_def)
next
  case False
  obtain ret s' w' where c: "close_strategy v (item_sid item) reason now (cn_session x) (cn_world x) = (ret, s', w')"
    by (metis prod.exhaust)
  note k = close_strategy_keeps[OF c assms(1)]
  have "\<not> cl_success ret"
  proof (cases "query_strategy (item_sid item) (cn_session x)")
    case None
    then show ?thesis using c by (auto simp: close_strategy_def)
  next
    case (Some st)
    then show ?thesis using close_without_flush_fails[OF assms(2) Some _ c] assms(3) by (auto simp: plan_open_def)
  qed
  moreover have "plan_open s' plan" unfolding plan_open_def
  proof
    fix i assume i: "i \<in> set plan"
    then obtain p where p: "p \<in> set (tb_positions (se_obj (cn_session x)))" "is_open_of (item_sid i) p"
      using assms(3) by (auto simp: plan_open_def)
    have "item_sid i \<noteq> item_sid item" using i assms(4) by (metis image_eqI)
    with p have "ps_strategy_id p \<noteq> Some (item_sid item)" by (simp add: is_open_of_def)
    with k(3) p show "\<exists>p \<in> set (tb_positions (se_obj s')). is_open_of (item_sid i) p" by blast
  qed
  ultimately show ?thesis using False c k(1,2) assms(2) by (simp add: close_plan_step_def Let_def)
qed

lemma close_plan_run_fails:
  assumes "ids_ok (se_obj (cn_session x))" "\<not> se_autoflush (cn_session x)" "plan_open (cn_session x) plan"
    "distinct (map item_sid plan)"
  shows "cn_closed (foldl (close_plan_step v reason now) x plan) = cn_closed x"
  using assms
proof (induction plan arbitrary: x)
  case (Cons item plan)
  note k = close_plan_step_keeps[OF Cons.prems(1-3), of v reason now]
  then show ?case using Cons.IH[of "close_plan_step v reason now x item"] Cons.prems(4) by simp
qed simp

lemma close_plan_partition:
  "length (cn_closed (execute_close_plan v reason now s w plan)) + length (cn_failed (execute_close_plan v reason now s w plan))
   = length plan"
  unfolding execute_close_plan_def
  using foldl_count[of "\<lambda>x. length (cn_closed x) + length (cn_failed x)" "close_plan_step v reason now",
      OF close_plan_step_count] by simp



section \<open>The repair plan\<close>

text \<open>Nothing is pending: the objects, the SQL rows and the committed rows agree.\<close>

definition clean :: "session \<Rightarrow> bool" where
  "clean s \<longleftrightarrow> se_db s = se_obj s \<and> se_committed s = se_obj s"

lemma clean_simps [simp]: "clean (db_commit s)" "clean (db_rollback s)"
  by (simp_all add: clean_def session_simps)

lemma reduce_loop_frame:
  "tb_logs (se_obj (snd (reduce_loop now ps left tc s))) = tb_logs (se_obj s)"
  "tb_strategies (se_obj (snd (reduce_loop now ps left tc s))) = tb_strategies (se_obj s)"
  by (induction ps arbitrary: left tc s) (auto simp: session_simps Let_def)

lemma apply_reduce_frame:
  "tb_logs (se_obj (snd (apply_reduce_on_positions now rows b s))) = tb_logs (se_obj s)"
  by (simp add: apply_reduce_on_positions_def reduce_loop_frame)

lemma sync_logs: "tb_logs (se_obj (sync_strategy_after_leg_adjust now sid s)) = tb_logs (se_obj s)"
  by (simp add: sync_strategy_after_leg_adjust_def Let_def session_simps)

lemma apply_reduce_pair:
  "apply_reduce_on_positions now rows b s = (t, s') \<Longrightarrow> tb_logs (se_obj s') = tb_logs (se_obj s)"
  using apply_reduce_frame[of now rows b s] by simp

lemma repair_leg_done:
  assumes "repair_leg v contract now sid sp item sy req ex rows red s w = (Inr (it, s'), w')"
  shows "clean s' \<and> length (tb_logs (se_obj s')) = Suc (length (tb_logs (se_obj s))) \<and> item_sid it = sid"
  using assms unfolding repair_leg_def Let_def
  by (auto simp: session_simps sync_logs dest: apply_reduce_pair split: option.splits if_splits prod.splits)

definition repair_ok :: "nat \<Rightarrow> 'w repair_run \<Rightarrow> bool" where
  "repair_ok n x \<longleftrightarrow> clean (rn_session x)
     \<and> length (tb_logs (se_obj (rn_session x))) = n + length (rn_repaired x)
     \<and> distinct (map item_sid (rn_fallback x)) \<and> set (rn_seen x) = item_sid ` set (rn_fallback x)"

lemma clean_rollback: "clean s \<Longrightarrow> db_rollback s = s"
  by (simp add: clean_def db_rollback_def)

lemma repair_ok_frame:
  assumes "repair_ok n x"
  shows "repair_ok n (x\<lparr>rn_failed := f\<rparr>)" "repair_ok n (x\<lparr>rn_world := w, rn_failed := f\<rparr>)"
    "item_sid one = sid \<Longrightarrow> repair_ok n (add_fallback sid one x)"
  using assms by (auto simp: repair_ok_def add_fallback_def)

lemma add_fallback_sels [simp]:
  "rn_failed (add_fallback sid one x) = rn_failed x" "rn_repaired (add_fallback sid one x) = rn_repaired x"
  by (simp_all add: add_fallback_def)

lemma repair_fallback_sid [simp]: "item_sid (repair_fallback item sy code) = item_sid item"
  by (simp add: repair_fallback_def)

lemma repair_step_count:
  "length (rn_repaired (repair_step v contract now x item)) + length (rn_failed (repair_step v contract now x item))
   = Suc (length (rn_repaired x) + length (rn_failed x))"
  by (auto simp: repair_step_def Let_def split: prod.splits option.splits sum.splits)

lemma repair_step_ok:
  assumes "repair_ok n x"
  shows "repair_ok n (repair_step v contract now x item)"
proof -
  let ?s = "rn_session x"
  note cl = clean_rollback[of ?s]
  have c: "clean ?s" using assms by (simp add: repair_ok_def)
  have inl: "repair_ok n (add_fallback (item_sid item) (repair_fallback item sy code)
      (x\<lparr>rn_session := db_rollback ?s, rn_world := w', rn_failed := f\<rparr>))" for sy code w' f
    using assms cl[OF c] by (auto simp: repair_ok_def add_fallback_def)
  have inr: "repair_ok n (x\<lparr>rn_session := s', rn_world := w', rn_repaired := rn_repaired x @ [it]\<rparr>)"
    if "repair_leg v contract now sid sp i sy req ex rows red ?s w = (Inr (it, s'), w')" for s' w' it sid sp i sy req ex rows red w
    using repair_leg_done[OF that] assms by (auto simp: repair_ok_def)
  show ?thesis
    unfolding repair_step_def Let_def
    using assms inl inr
    by (auto simp: repair_ok_frame split: prod.splits option.splits sum.splits)
qed



end
