(* ===== verification/OpenCycle.thy ===== *)
theory OpenCycle
  imports DeltaPlan ConfirmRounds CycleContext RiskGuards Orchestrator
begin

text \<open>
  The cycle (\<open>run_spot_basis_auto_open_cycle\<close> of \<open>core/spot_basis_auto_engine/open_cycle.py\<close>):
  guards in a fixed order, each of which may end the cycle, then the rebalance. A stage of the
  cycle is an action on the engine's state that goes on with a value, stops the cycle with a
  summary (\<open>return _done(...)\<close>), or raises. What the engine reads from outside (the scan, the
  exchanges, stored prices, the clock) is a field of the environment; so is the text of an
  exception that a call may raise at each point of the cycle. Timestamps that the executors
  write are the cycle's start time. Reports nested in the summaries are left out.
\<close>

section \<open>State, environment, actions\<close>

record summary =
  sm_ok :: bool
  sm_status :: string
  sm_mode :: "string option"
  sm_dry_run :: "bool option"
  sm_reason :: "string option"
  sm_error :: "string option"
  sm_plan_pairs :: nat
  sm_plan_notional :: real
  sm_repaired :: nat
  sm_repair_failed :: nat
  sm_done :: nat
  sm_close_failed :: nat
  sm_opened :: nat
  sm_open_failed :: nat
  sm_open_skipped :: nat
  sm_retry_close :: nat
  sm_retry_open :: nat
  sm_streak :: "int option"
  sm_breaker :: bool

definition status_only :: "string \<Rightarrow> summary" where
  "status_only st =
     \<lparr>sm_ok = True, sm_status = st, sm_mode = None, sm_dry_run = None, sm_reason = None, sm_error = None,
      sm_plan_pairs = 0, sm_plan_notional = 0, sm_repaired = 0, sm_repair_failed = 0, sm_done = 0,
      sm_close_failed = 0, sm_opened = 0, sm_open_failed = 0, sm_open_skipped = 0,
      sm_retry_close = 0, sm_retry_open = 0, sm_streak = None, sm_breaker = False\<rparr>"

definition mode_summary :: "string \<Rightarrow> string \<Rightarrow> bool \<Rightarrow> summary" where
  "mode_summary st mode dry = (status_only st)\<lparr>sm_mode := Some mode, sm_dry_run := Some dry\<rparr>"

record 'w cycle =
  cy_session :: session
  cy_world :: 'w
  cy_cfg :: "auto_cfg option"
  cy_last_ts :: real
  cy_queue :: retry_queue
  cy_mm :: "int \<rightharpoonup> mm_state"
  cy_confirm :: confirm_state
  cy_fail :: fail_bindings
  cy_recorded :: bool
  cy_log :: "summary summary_log"

record scan_result =
  sn_rows :: "scan_row list"
  sn_nav :: nav_meta
  sn_errors :: scan_errors

datatype cycle_point =
    AtConfig | AtRetries | AtScan | AtHolds | AtMismatch | AtRepair | AtProfitLock | AtDrawdown
  | AtBasisShock | AtRiskReduce | AtTarget | AtGates | AtExecute

record 'w cycle_env =
  ce_open :: "'w open_env"
  ce_contract :: "exchange_row \<Rightarrow> string \<Rightarrow> fopt option"
  ce_read :: "'w \<Rightarrow> exchange_row \<Rightarrow> string \<Rightarrow> perp_read"
  ce_tick :: "'w \<Rightarrow> exchange_row \<Rightarrow> string \<Rightarrow> ticker option"
  ce_fee :: fee_source
  ce_scan :: "'w \<Rightarrow> scan_result \<times> 'w"
  ce_rescan_error :: "'w \<Rightarrow> string option"
  ce_collect :: "'w \<Rightarrow> string option \<times> 'w"
  ce_reconcile :: "session \<Rightarrow> 'w \<Rightarrow> session \<times> 'w"
  ce_equity :: "'w \<Rightarrow> equity_row list"
  ce_market :: "'w \<Rightarrow> market_row list"
  ce_capital :: "'w \<Rightarrow> capital_row list"
  ce_clock :: "'w \<Rightarrow> real"
  ce_raises :: "cycle_point \<Rightarrow> 'w \<Rightarrow> string option"

datatype 'a flow = Go 'a | Stop summary | Raised string

type_synonym ('w, 'a) act = "'w cycle \<Rightarrow> 'a flow \<times> 'w cycle"

definition then_do :: "('w, 'a) act \<Rightarrow> ('a \<Rightarrow> ('w, 'b) act) \<Rightarrow> ('w, 'b) act" where
  "then_do m f = (\<lambda>y. case m y of (Go a, y') \<Rightarrow> f a y' | (Stop s, y') \<Rightarrow> (Stop s, y') | (Raised e, y') \<Rightarrow> (Raised e, y'))"

definition go :: "'a \<Rightarrow> ('w, 'a) act" where
  "go a = (\<lambda>y. (Go a, y))"

definition stop :: "summary \<Rightarrow> ('w, 'a) act" where
  "stop s = (\<lambda>y. (Stop s, y))"

definition check_point :: "'w cycle_env \<Rightarrow> cycle_point \<Rightarrow> ('w, unit) act" where
  "check_point env p = (\<lambda>y. case ce_raises env p (cy_world y) of None \<Rightarrow> (Go (), y) | Some e \<Rightarrow> (Raised e, y))"

section \<open>The held pairs\<close>

text \<open>\<open>_active_spot_hedge_holds\<close>: a join of strategies and open positions, each strategy once.\<close>

definition hold_status :: "strategy_row \<Rightarrow> bool" where
  "hold_status r \<longleftrightarrow> st_type r = Some ''spot_hedge'' \<and> st_status r \<in> {Some ''active'', Some ''closing'', Some ''error''}"

definition has_open_position :: "session \<Rightarrow> int \<Rightarrow> bool" where
  "has_open_position s sid \<longleftrightarrow> count_positions (is_open_of sid) s > 0"

definition hold_of :: "strategy_row \<Rightarrow> hold" where
  "hold_of r =
     \<lparr>hd_strategy_id = Some (st_id r), hd_symbol = Some (normalize_symbol_key (st_symbol r)),
      hd_perp_ex = Some (int_or_zero (st_short_ex r)), hd_spot_ex = Some (int_or_zero (st_long_ex r)),
      hd_pair_notional = Some (py_round (pos_part (to_float (st_initial_margin r) 0)) 2),
      hd_row_id = Some (build_row_id (st_symbol r) (st_short_ex r) (st_long_ex r))\<rparr>"

definition active_spot_hedge_holds :: "session \<Rightarrow> hold list" where
  "active_spot_hedge_holds s =
     map (hold_of \<circ> obj_strategy s)
       (filter (\<lambda>r. hold_status r \<and> has_open_position s (st_id r)) (tb_strategies (sql_view s)))"

section \<open>Helpers of the cycle\<close>

definition plan_notional :: "plan_item list \<Rightarrow> real" where
  "plan_notional plan = py_round (sum_list (map (\<lambda>x. to_float (pi_size_usd x) 0) plan)) 2"

definition retry_max_rounds :: "auto_cfg \<Rightarrow> int" where
  "retry_max_rounds cfg = max 0 (cfg_int (cfg_execution_retry_max_rounds cfg) 2)"

definition retry_backoff :: "auto_cfg \<Rightarrow> int" where
  "retry_backoff cfg = max 1 (cfg_int (cfg_execution_retry_backoff_secs cfg) 8)"

definition enqueue_act :: "string \<Rightarrow> auto_cfg \<Rightarrow> real \<Rightarrow> plan_item list \<Rightarrow> ('w, nat) act" where
  "enqueue_act kind cfg now items = (\<lambda>y.
     let (q, added) = enqueue_retry_items kind items now (retry_max_rounds cfg) (retry_backoff cfg) (cy_queue y)
     in (Go added, y\<lparr>cy_queue := q\<rparr>))"

definition close_act :: "'w cycle_env \<Rightarrow> string \<Rightarrow> real \<Rightarrow> plan_item list \<Rightarrow> ('w, plan_item list \<times> plan_item list) act" where
  "close_act env reason now plan = (\<lambda>y.
     let x = execute_close_plan (oe_venue (ce_open env)) reason now (cy_session y) (cy_world y) plan
     in (Go (cn_closed x, cn_failed x), y\<lparr>cy_session := cn_session x, cy_world := cn_world x\<rparr>))"

text \<open>\<open>_exec_close_with_retry\<close>: closed, failed, number of queued retries.\<close>

definition exec_close_with_retry ::
    "'w cycle_env \<Rightarrow> auto_cfg \<Rightarrow> real \<Rightarrow> plan_item list \<Rightarrow> string \<Rightarrow> ('w, plan_item list \<times> plan_item list \<times> nat) act" where
  "exec_close_with_retry env cfg now plan reason =
     then_do (close_act env reason now plan) (\<lambda>(done_items, failed).
       then_do (enqueue_act ''close'' cfg now failed) (\<lambda>added. go (done_items, failed, added)))"

definition disable_act :: "auto_cfg \<Rightarrow> ('w, unit) act" where
  "disable_act cfg = (\<lambda>y. (Go (), y\<lparr>cy_cfg := Some (cfg\<lparr>cfg_is_enabled := False\<rparr>), cy_session := db_commit (cy_session y)\<rparr>))"

definition close_summary :: "summary \<Rightarrow> plan_item list \<Rightarrow> plan_item list \<times> plan_item list \<times> nat \<Rightarrow> summary" where
  "close_summary s plan res =
     (case res of (done_items, failed, added) \<Rightarrow>
       s\<lparr>sm_plan_pairs := length plan, sm_plan_notional := plan_notional plan,
         sm_done := length done_items, sm_close_failed := length failed, sm_retry_close := added\<rparr>)"

text \<open>
  What four guards share: with a close plan, report it in a dry run, else execute it with
  retries, and stop the cycle.
\<close>

definition close_and_stop ::
    "'w cycle_env \<Rightarrow> auto_cfg \<Rightarrow> real \<Rightarrow> string \<Rightarrow> string \<Rightarrow> string \<Rightarrow> string \<Rightarrow> plan_item list \<Rightarrow> ('w, 'a) act" where
  "close_and_stop env cfg now dry_status run_status mode reason plan =
     (if cfg_dry_run cfg then
        stop ((mode_summary dry_status mode True)\<lparr>sm_plan_pairs := length plan, sm_plan_notional := plan_notional plan\<rparr>)
      else
        then_do (check_point env AtExecute) (\<lambda>_.
          then_do (exec_close_with_retry env cfg now plan reason)
            (\<lambda>res. stop (close_summary (mode_summary run_status mode False) plan res))))"

section \<open>The guards\<close>

definition load_cfg :: "'w cycle_env \<Rightarrow> ('w, auto_cfg) act" where
  "load_cfg env = then_do (check_point env AtConfig) (\<lambda>_ y.
     case cy_cfg y of
       Some cfg \<Rightarrow> (Go cfg, y)
     | None \<Rightarrow> (Go default_cfg, y\<lparr>cy_cfg := Some default_cfg, cy_session := db_commit (cy_session y)\<rparr>))"

definition interval_secs :: "auto_cfg \<Rightarrow> int" where
  "interval_secs cfg = max 3 (int_or 10 (cfg_refresh_interval_secs cfg))"

definition start_stage :: "'w cycle_env \<Rightarrow> auto_cfg \<Rightarrow> bool \<Rightarrow> real \<Rightarrow> ('w, unit) act" where
  "start_stage env cfg force now = (\<lambda>y.
     if \<not> force \<and> now - cy_last_ts y < of_int (interval_secs cfg) then (Stop (status_only ''throttled''), y)
     else
       let y1 = y\<lparr>cy_last_ts := now\<rparr> in
       if \<not> cfg_is_enabled cfg then (Stop (status_only ''disabled''), y1)
       else
         let (s', w') = ce_reconcile env (cy_session y1) (cy_world y1)
         in (Go (), y1\<lparr>cy_session := s', cy_world := w'\<rparr>))"

definition retry_stage :: "'w cycle_env \<Rightarrow> auto_cfg \<Rightarrow> real \<Rightarrow> ('w, unit) act" where
  "retry_stage env cfg now =
     (if cfg_dry_run cfg then go ()
      else then_do (check_point env AtRetries) (\<lambda>_ y.
        case process_due_retries (close_executor (oe_venue (ce_open env)) now) (open_executor (ce_open env) cfg now)
               cfg now (cy_queue y) (cy_session y, cy_world y) of
          (rep, q, (s', w')) \<Rightarrow>
            let y1 = y\<lparr>cy_queue := q, cy_session := s', cy_world := w'\<rparr>
            in if rr_due_count rep > 0 then (Stop (mode_summary ''retry_executed'' ''retry_only'' False), y1)
               else (Go (), y1)))"

definition scan_act :: "'w cycle_env \<Rightarrow> ('w, scan_result) act" where
  "scan_act env = then_do (check_point env AtScan) (\<lambda>_ y.
     case ce_scan env (cy_world y) of (r, w') \<Rightarrow> (Go r, y\<lparr>cy_world := w'\<rparr>))"

definition holds_act :: "'w cycle_env \<Rightarrow> ('w, hold list) act" where
  "holds_act env = then_do (check_point env AtHolds) (\<lambda>_ y. (Go (active_spot_hedge_holds (cy_session y)), y))"

definition mismatch_act :: "'w cycle_env \<Rightarrow> auto_cfg \<Rightarrow> hold list \<Rightarrow> nav_meta \<Rightarrow> ('w, mm_output) act" where
  "mismatch_act env cfg holds nav = then_do (check_point env AtMismatch) (\<lambda>_ y.
     let w = cy_world y;
         out = build_hedge_mismatch_close_plan (ce_read env w) (ce_tick env w) (cy_session y) cfg
                 (ce_clock env w) holds nav (cy_mm y)
     in (Go out, y\<lparr>cy_mm := mo_state out\<rparr>))"

definition api_threshold :: "auto_cfg \<Rightarrow> int" where
  "api_threshold cfg = max 1 (cfg_int (cfg_api_fail_circuit_count cfg) 5)"

definition record_act :: "'w cycle_env \<Rightarrow> bool \<Rightarrow> ('w, int) act" where
  "record_act env failed = (\<lambda>y.
     let (n, fb) = record_api_fail_streak failed (ce_clock env (cy_world y)) (cy_fail y)
     in (Go n, y\<lparr>cy_fail := fb, cy_recorded := True\<rparr>))"

definition api_guard_stage :: "'w cycle_env \<Rightarrow> auto_cfg \<Rightarrow> scan_errors \<Rightarrow> mm_scan list \<Rightarrow> ('w, unit) act" where
  "api_guard_stage env cfg errs scanned =
     (let failed = (collect_api_fail_events errs scanned \<noteq> []) in
      then_do (record_act env failed) (\<lambda>n.
        if failed \<and> n \<ge> api_threshold cfg then
          then_do (disable_act cfg) (\<lambda>_.
            stop ((mode_summary ''api_fail_circuit_breaker'' ''risk_guard_api_fail'' (cfg_dry_run cfg))\<lparr>sm_streak := Some n\<rparr>))
        else go ()))"

text \<open>The fallback closes of a repair: each valid strategy once, in order.\<close>

fun dedupe_plan :: "int list \<Rightarrow> plan_item list \<Rightarrow> plan_item list" where
  "dedupe_plan seen [] = []"
| "dedupe_plan seen (one # rest) =
     (if item_sid one > 0 \<and> item_sid one \<notin> set seen then one # dedupe_plan (item_sid one # seen) rest
      else dedupe_plan seen rest)"

definition repair_act :: "'w cycle_env \<Rightarrow> real \<Rightarrow> plan_item list \<Rightarrow> ('w, plan_item list \<times> plan_item list \<times> plan_item list) act" where
  "repair_act env now plan = then_do (check_point env AtRepair) (\<lambda>_ y.
     let x = execute_mismatch_repair_plan (oe_venue (ce_open env)) (ce_contract env) now (cy_session y) (cy_world y) plan
     in (Go (rn_repaired x, rn_failed x, rn_fallback x), y\<lparr>cy_session := rn_session x, cy_world := rn_world x\<rparr>))"

definition repair_stage :: "'w cycle_env \<Rightarrow> auto_cfg \<Rightarrow> real \<Rightarrow> mm_output \<Rightarrow> ('w, unit) act" where
  "repair_stage env cfg now mm =
     (if mo_repair mm = [] \<and> mo_fallback mm = [] then go ()
      else if cfg_dry_run cfg then
        stop ((mode_summary ''hedge_repair_dry_run'' ''hedge_repair_only'' True)
          \<lparr>sm_plan_pairs := length (mo_repair mm) + length (mo_fallback mm)\<rparr>)
      else
        then_do (repair_act env now (mo_repair mm)) (\<lambda>(repaired, repair_failed, exec_fallback).
          let plan = dedupe_plan [] (mo_fallback mm @ exec_fallback) in
          then_do (if plan = [] then go ([], [], 0)
                   else exec_close_with_retry env cfg now plan ''spot_basis_auto_delta_repair_fallback_close'')
            (\<lambda>(done_items, close_failed, added).
              let circuit = (cfg_circuit_breaker_on_repair_fail cfg \<and> (repair_failed \<noteq> [] \<or> close_failed \<noteq> []))
              in then_do (if circuit then disable_act cfg else go ()) (\<lambda>_.
                   stop ((status_only (if circuit then ''hedge_repair_circuit_breaker'' else ''hedge_repair_executed''))
                     \<lparr>sm_mode := Some ''hedge_repair_only'', sm_repaired := length repaired,
                      sm_repair_failed := length repair_failed, sm_done := length done_items,
                      sm_close_failed := length close_failed, sm_retry_close := added\<rparr>)))))"

text \<open>A stale net asset value is refreshed once; a failed refresh leaves the first scan in place.\<close>

definition nav_refresh_stage :: "'w cycle_env \<Rightarrow> scan_result \<Rightarrow> ('w, scan_result) act" where
  "nav_refresh_stage env scan =
     (if \<not> nm_is_stale (sn_nav scan) then go scan
      else (\<lambda>y. case ce_collect env (cy_world y) of
          (Some err, w1) \<Rightarrow> (Go scan, y\<lparr>cy_world := w1\<rparr>)
        | (None, w1) \<Rightarrow>
            (case ce_rescan_error env w1 of
               Some err \<Rightarrow> (Go scan, y\<lparr>cy_world := w1\<rparr>)
             | None \<Rightarrow> (case ce_scan env w1 of (r, w2) \<Rightarrow> (Go r, y\<lparr>cy_world := w2\<rparr>)))))"

definition profit_lock_stage :: "'w cycle_env \<Rightarrow> auto_cfg \<Rightarrow> real \<Rightarrow> hold list \<Rightarrow> current_state \<Rightarrow> ('w, unit) act" where
  "profit_lock_stage env cfg now holds current =
     then_do (check_point env AtProfitLock) (\<lambda>_ y.
       let plan = fst (build_profit_lock_close_plan (ce_fee env) (cy_session y) holds current)
       in if plan = [] then (Go (), y)
          else close_and_stop env cfg now ''profit_lock_dry_run'' ''profit_lock_executed'' ''profit_lock_exit''
                 ''spot_basis_auto_lock_spread_excess'' plan y)"

definition dd_hard :: "auto_cfg \<Rightarrow> real" where
  "dd_hard cfg = cfg_float (cfg_portfolio_dd_hard_pct cfg) (- 4)"

definition dd_soft :: "auto_cfg \<Rightarrow> real" where
  "dd_soft cfg = (let soft = cfg_float (cfg_portfolio_dd_soft_pct cfg) (- 2) in if soft < dd_hard cfg then dd_hard cfg else soft)"

definition dd_breach :: "drawdown_report \<Rightarrow> real \<Rightarrow> bool" where
  "dd_breach r threshold \<longleftrightarrow> dr_available r \<and> (case dr_pct r of None \<Rightarrow> False | Some p \<Rightarrow> p \<le> threshold)"

definition hold_conf_min :: "auto_cfg \<Rightarrow> real" where
  "hold_conf_min cfg = to_float (cfg_hold_conf_min cfg) (45 / 100)"

definition hard_stop :: "'w cycle_env \<Rightarrow> auto_cfg \<Rightarrow> real \<Rightarrow> current_state \<Rightarrow> ('w, unit) act" where
  "hard_stop env cfg now current =
     (let plan = build_force_close_all_plan current ''portfolio_drawdown_hard_stop'' in
      if \<not> cfg_dry_run cfg \<and> plan = [] then stop (mode_summary ''risk_guard_hard_no_positions'' ''risk_guard_hard'' False)
      else close_and_stop env cfg now ''risk_guard_hard_dry_run'' ''risk_guard_hard_executed'' ''risk_guard_hard''
             ''spot_basis_auto_risk_hard_drawdown'' plan)"

definition risk_reduce_stop ::
    "'w cycle_env \<Rightarrow> auto_cfg \<Rightarrow> real \<Rightarrow> current_state \<Rightarrow> string \<Rightarrow> string \<Rightarrow> string \<Rightarrow> string \<Rightarrow> string \<Rightarrow> ('w, unit) act" where
  "risk_reduce_stop env cfg now current none_status dry_status run_status mode reason =
     then_do (check_point env AtRiskReduce) (\<lambda>_.
       let plan = build_risk_reduce_close_plan current (hold_conf_min cfg) in
       if plan = [] then stop (mode_summary none_status mode (cfg_dry_run cfg))
       else close_and_stop env cfg now dry_status run_status mode reason plan)"

definition drawdown_stage :: "'w cycle_env \<Rightarrow> auto_cfg \<Rightarrow> real \<Rightarrow> nav_meta \<Rightarrow> current_state \<Rightarrow> ('w, unit) act" where
  "drawdown_stage env cfg now nav current =
     then_do (check_point env AtDrawdown) (\<lambda>_ y.
       let rep = build_portfolio_drawdown_report (ce_equity env (cy_world y)) nav (24 * 7) cfg (ce_clock env (cy_world y))
       in if dd_breach rep (dd_hard cfg) then hard_stop env cfg now current y
          else if dd_breach rep (dd_soft cfg) then
            risk_reduce_stop env cfg now current ''risk_guard_soft_blocked_no_close'' ''risk_guard_soft_dry_run''
              ''risk_guard_soft_executed'' ''risk_guard_soft'' ''spot_basis_auto_risk_soft_drawdown'' y
          else (Go (), y))"

definition basis_shock_stage :: "'w cycle_env \<Rightarrow> auto_cfg \<Rightarrow> real \<Rightarrow> hold list \<Rightarrow> scan_row list \<Rightarrow> ('w, unit) act" where
  "basis_shock_stage env cfg now holds rows =
     then_do (check_point env AtBasisShock) (\<lambda>_ y.
       let plan = sp_close_plan (build_basis_shock_close_plan (ce_market env (cy_world y)) (cy_session y) cfg holds rows)
       in if plan = [] then (Go (), y)
          else close_and_stop env cfg now ''basis_shock_dry_run'' ''basis_shock_executed'' ''basis_shock_exit''
                 ''spot_basis_auto_basis_shock_exit'' plan y)"

definition stale_stage :: "'w cycle_env \<Rightarrow> auto_cfg \<Rightarrow> real \<Rightarrow> nav_meta \<Rightarrow> current_state \<Rightarrow> ('w, unit) act" where
  "stale_stage env cfg now nav current =
     (if nm_is_stale nav then
        risk_reduce_stop env cfg now current ''risk_reduce_no_action'' ''risk_reduce_dry_run'' ''risk_reduce_executed''
          ''risk_reduce_only'' ''spot_basis_auto_risk_reduce_stale_data''
      else go ())"

section \<open>The rebalance\<close>

record gates =
  gt_confirmed :: bool
  gt_count :: int
  gt_fee :: bool
  gt_capacity :: bool

definition confirm_act :: "'w cycle_env \<Rightarrow> auto_cfg \<Rightarrow> delta_plan \<Rightarrow> ('w, bool \<times> int) act" where
  "confirm_act env cfg dp = (\<lambda>y.
     let (res, st) = apply_rebalance_confirm_rounds (dp_raw_signal dp) (dp_fingerprint dp)
           (max 1 (int_or 1 (cfg_switch_confirm_rounds cfg))) (ce_clock env (cy_world y)) (cy_confirm y)
     in (Go res, y\<lparr>cy_confirm := st\<rparr>))"

definition gates_act :: "'w cycle_env \<Rightarrow> auto_cfg \<Rightarrow> scan_result \<Rightarrow> hold list \<Rightarrow> delta_plan \<Rightarrow> ('w, gates) act" where
  "gates_act env cfg scan holds dp =
     then_do (confirm_act env cfg dp) (\<lambda>(confirmed, count).
       then_do (check_point env AtGates) (\<lambda>_ y.
         let fee = co_all_covered (build_rebalance_fee_coverage_report (ce_fee env) (cy_session y) (dp_close dp));
             capacity = (if dp_raw_signal dp \<and> dp_close dp \<noteq> []
               then ca_allow (build_rebalance_capacity_report (sn_rows scan) holds cfg (sn_nav scan) (ce_capital env (cy_world y)))
               else True)
         in (Go \<lparr>gt_confirmed = confirmed, gt_count = count, gt_fee = fee, gt_capacity = capacity\<rparr>, y)))"

definition execute_allowed :: "delta_plan \<Rightarrow> gates \<Rightarrow> bool" where
  "execute_allowed dp g \<longleftrightarrow> dp_raw_signal dp \<and> gt_confirmed g \<and> gt_fee g \<and> gt_capacity g"

definition decision_reason :: "delta_plan \<Rightarrow> gates \<Rightarrow> string" where
  "decision_reason dp g =
     (if \<not> dp_has_delta dp then ''no_delta_plan''
      else if \<not> dp_meets_abs dp then ''adv_below_abs_deadband''
      else if \<not> dp_meets_rel dp then ''adv_below_rel_deadband''
      else if dp_raw_signal dp \<and> \<not> gt_confirmed g then ''wait_confirm_rounds''
      else if dp_raw_signal dp \<and> gt_confirmed g \<and> \<not> gt_fee g then ''rebalance_fee_coverage_blocked''
      else if dp_raw_signal dp \<and> gt_confirmed g \<and> gt_fee g \<and> \<not> gt_capacity g
      then ''rebalance_capacity_not_exhausted_blocked''
      else ''rebalance_allowed'')"

definition blocked_status :: "string \<Rightarrow> string" where
  "blocked_status reason =
     (if reason = ''wait_confirm_rounds'' then ''rebalance_wait_confirm''
      else if reason = ''rebalance_fee_coverage_blocked'' then ''rebalance_fee_coverage_blocked''
      else if reason = ''rebalance_capacity_not_exhausted_blocked'' then ''rebalance_capacity_not_exhausted_blocked''
      else ''rebalance_deadband_blocked'')"

definition open_act :: "'w cycle_env \<Rightarrow> auto_cfg \<Rightarrow> real \<Rightarrow> plan_item list \<Rightarrow> plan_item list
      \<Rightarrow> ('w, plan_item list \<times> plan_item list \<times> plan_item list) act" where
  "open_act env cfg now close_failed plan = (\<lambda>y.
     if close_failed \<noteq> [] then (Go ([], [], map (\<lambda>x. x\<lparr>pi_reason := Some ''close_phase_failed''\<rparr>) plan), y)
     else
       let x = execute_open_plan (ce_open env) cfg now (cy_session y) (cy_world y) plan
       in (Go (xs_opened x, xs_failed x, xs_skipped x), y\<lparr>cy_session := xs_session x, cy_world := xs_world x\<rparr>))"

definition execute_rebalance :: "'w cycle_env \<Rightarrow> auto_cfg \<Rightarrow> real \<Rightarrow> delta_plan \<Rightarrow> summary \<Rightarrow> ('w, summary) act" where
  "execute_rebalance env cfg now dp base =
     then_do (check_point env AtExecute) (\<lambda>_.
       then_do (close_act env ''spot_basis_auto_portfolio_rebalance'' now (dp_close dp)) (\<lambda>(done_items, close_failed).
         then_do (open_act env cfg now close_failed (dp_open dp)) (\<lambda>(opened, open_failed, open_skipped).
           then_do (enqueue_act ''close'' cfg now close_failed) (\<lambda>rc.
             then_do (enqueue_act ''open'' cfg now open_failed) (\<lambda>ro.
               go (base\<lparr>sm_status := ''executed'', sm_done := length done_items, sm_close_failed := length close_failed,
                 sm_opened := length opened, sm_open_failed := length open_failed, sm_open_skipped := length open_skipped,
                 sm_retry_close := rc, sm_retry_open := ro\<rparr>))))))"

definition rebalance_base :: "auto_cfg \<Rightarrow> delta_plan \<Rightarrow> gates \<Rightarrow> summary" where
  "rebalance_base cfg dp g =
     (mode_summary [] ''portfolio_rebalance'' (cfg_dry_run cfg))
       \<lparr>sm_reason := Some (decision_reason dp g), sm_plan_pairs := length (dp_open dp) + length (dp_close dp)\<rparr>"

definition rebalance_decide :: "'w cycle_env \<Rightarrow> auto_cfg \<Rightarrow> real \<Rightarrow> delta_plan \<Rightarrow> gates \<Rightarrow> ('w, summary) act" where
  "rebalance_decide env cfg now dp g =
     (let base = rebalance_base cfg dp g in
      if \<not> dp_has_delta dp then go (base\<lparr>sm_status := ''no_delta_to_rebalance''\<rparr>)
      else if \<not> execute_allowed dp g then go (base\<lparr>sm_status := blocked_status (decision_reason dp g)\<rparr>)
      else if cfg_dry_run cfg then go (base\<lparr>sm_status := ''dry_run_plan''\<rparr>)
      else execute_rebalance env cfg now dp base)"

definition rebalance_stage :: "'w cycle_env \<Rightarrow> auto_cfg \<Rightarrow> real \<Rightarrow> scan_result \<Rightarrow> hold list \<Rightarrow> current_state \<Rightarrow> ('w, summary) act" where
  "rebalance_stage env cfg now scan holds current =
     then_do (check_point env AtTarget) (\<lambda>_ y.
       let target = build_target_state (sn_rows scan) cfg (sn_nav scan) (ce_capital env (cy_world y));
           dp = build_rebalance_delta_plan current (ts_rows target) cfg
       in then_do (gates_act env cfg scan holds dp) (rebalance_decide env cfg now dp) y)"

section \<open>The cycle\<close>

definition cycle_body :: "'w cycle_env \<Rightarrow> bool \<Rightarrow> real \<Rightarrow> auto_cfg \<Rightarrow> ('w, summary) act" where
  "cycle_body env force now cfg =
     then_do (start_stage env cfg force now) (\<lambda>_.
     then_do (retry_stage env cfg now) (\<lambda>_.
     then_do (scan_act env) (\<lambda>scan0.
     then_do (holds_act env) (\<lambda>holds.
     then_do (mismatch_act env cfg holds (sn_nav scan0)) (\<lambda>mm.
     then_do (api_guard_stage env cfg (sn_errors scan0) (mo_scanned mm)) (\<lambda>_.
     then_do (repair_stage env cfg now mm) (\<lambda>_.
     then_do (nav_refresh_stage env scan0) (\<lambda>scan.
       let current = build_current_state holds (sn_rows scan) in
     then_do (profit_lock_stage env cfg now holds current) (\<lambda>_.
     then_do (drawdown_stage env cfg now (sn_nav scan) current) (\<lambda>_.
     then_do (basis_shock_stage env cfg now holds (sn_rows scan)) (\<lambda>_.
     then_do (stale_stage env cfg now (sn_nav scan) current) (\<lambda>_.
       rebalance_stage env cfg now scan holds current))))))))))))"

definition finish :: "'w cycle_env \<Rightarrow> summary \<Rightarrow> 'w cycle \<Rightarrow> summary \<times> 'w cycle" where
  "finish env s y =
     (s, y\<lparr>cy_log := set_last_summary (ce_clock env (cy_world y)) (Some (sm_ok s)) s (cy_log y), cy_session := db_rollback (cy_session y)\<rparr>)"

text \<open>The \<open>except\<close> block; the configuration is absent when loading it raised.\<close>

definition handle_exception :: "'w cycle_env \<Rightarrow> auto_cfg option \<Rightarrow> string \<Rightarrow> 'w cycle \<Rightarrow> summary \<times> 'w cycle" where
  "handle_exception env cfg e y =
     (let threshold = (case cfg of None \<Rightarrow> 5 | Some c \<Rightarrow> api_threshold c);
          (n, fb) = (if cy_recorded y then (streak_read_in_handler (cy_fail y), cy_fail y)
                     else record_api_fail_streak True (ce_clock env (cy_world y)) (cy_fail y));
          y1 = y\<lparr>cy_fail := fb\<rparr>;
          trip = (cfg \<noteq> None \<and> n \<ge> threshold);
          y2 = (case cfg of Some c \<Rightarrow> if trip then snd (disable_act c y1) else y1 | None \<Rightarrow> y1)
      in finish env ((status_only ''error'')\<lparr>sm_ok := False, sm_error := Some e, sm_streak := Some n, sm_breaker := trip\<rparr>) y2)"

text \<open>
  \<open>lock\<close> is the refusal of \<open>_acquire_cycle_file_lock\<close>, if it refused. A session is opened on
  the committed tables; closing it drops what is pending.
\<close>

definition run_open_cycle :: "'w cycle_env \<Rightarrow> bool \<Rightarrow> string option \<Rightarrow> 'w cycle \<Rightarrow> summary \<times> 'w cycle" where
  "run_open_cycle env force lock y =
     (if lock \<noteq> None then
        (let s = (status_only ''lock_held_by_other_worker'')\<lparr>sm_reason := lock\<rparr>
         in (s, y\<lparr>cy_log := set_last_summary (ce_clock env (cy_world y)) (Some (sm_ok s)) s (cy_log y)\<rparr>))
      else
        let now = ce_clock env (cy_world y);
            y0 = y\<lparr>cy_session := open_session session_local_autoflush (se_exchanges (cy_session y)) (se_committed (cy_session y)),
                   cy_recorded := False\<rparr>
        in case load_cfg env y0 of
             (Go cfg, y1) \<Rightarrow>
               (case cycle_body env force now cfg y1 of
                  (Go s, y2) \<Rightarrow> finish env s y2
                | (Stop s, y2) \<Rightarrow> finish env s y2
                | (Raised e, y2) \<Rightarrow> handle_exception env (Some cfg) e y2)
           | (Stop s, y1) \<Rightarrow> finish env s y1
           | (Raised e, y1) \<Rightarrow> handle_exception env None e y1)"

end
