(* ===== verification/CycleLaws.thy ===== *)
theory CycleLaws
  imports OpenCycle Machines
begin

text \<open>
  What a cycle promises. The stages are reasoned about with triples: \<open>valid P m Q S E\<close> says
  that from a state in \<open>P\<close> the action \<open>m\<close> goes on in \<open>Q\<close>, stops in \<open>S\<close> or raises in \<open>E\<close>.
  From them come the invariant of the engine's state, the dry run that never touches an
  exchange, the gates of an executed rebalance, and the circuit breakers.
\<close>

section \<open>Triples for actions\<close>

definition valid ::
    "('w cycle \<Rightarrow> bool) \<Rightarrow> ('w, 'a) act \<Rightarrow> ('a \<Rightarrow> 'w cycle \<Rightarrow> bool) \<Rightarrow> (summary \<Rightarrow> 'w cycle \<Rightarrow> bool)
      \<Rightarrow> (string \<Rightarrow> 'w cycle \<Rightarrow> bool) \<Rightarrow> bool" where
  "valid P m Q S E \<longleftrightarrow> (\<forall>y. P y \<longrightarrow>
     (case m y of (Go a, y') \<Rightarrow> Q a y' | (Stop s, y') \<Rightarrow> S s y' | (Raised e, y') \<Rightarrow> E e y'))"

lemma valid_then_do:
  assumes "valid P m Q S E" and "\<And>a. valid (Q a) (f a) R S E"
  shows "valid P (then_do m f) R S E"
  unfolding valid_def
proof (intro allI impI)
  fix y assume y: "P y"
  obtain r y' where m: "m y = (r, y')" by (cases "m y")
  then show "case then_do m f y of (Go a, y') \<Rightarrow> R a y' | (Stop s, y') \<Rightarrow> S s y' | (Raised e, y') \<Rightarrow> E e y'"
  proof (cases r)
    case (Go a)
    then have "Q a y'" using assms(1) y m by (force simp: valid_def)
    with assms(2)[of a] show ?thesis using m Go by (force simp: valid_def then_do_def)
  qed (use assms(1) y m in \<open>force simp: valid_def then_do_def\<close>)+
qed

lemma valid_mono: "valid P m Q S E \<Longrightarrow> (\<And>s y. S s y \<Longrightarrow> S' s y) \<Longrightarrow> valid P m Q S' E"
  unfolding valid_def by (fastforce split: prod.splits flow.splits)

lemma valid_go: "(\<And>y. P y \<Longrightarrow> Q a y) \<Longrightarrow> valid P (go a) Q S E"
  by (simp add: valid_def go_def)

lemma valid_stop: "(\<And>y. P y \<Longrightarrow> S s y) \<Longrightarrow> valid P (stop s) Q S E"
  by (simp add: valid_def stop_def)

lemma valid_check_point: "(\<And>y e. P y \<Longrightarrow> E e y) \<Longrightarrow> valid P (check_point env p) (\<lambda>_. P) S E"
  by (auto simp: valid_def check_point_def split: option.splits)

lemma valid_if: "(b \<Longrightarrow> valid P m Q S E) \<Longrightarrow> (\<not> b \<Longrightarrow> valid P m' Q S E) \<Longrightarrow> valid P (if b then m else m') Q S E"
  by simp

lemma valid_fun_if:
  "valid (\<lambda>y. P y \<and> b y) m Q S E \<Longrightarrow> valid (\<lambda>y. P y \<and> \<not> b y) m' Q S E \<Longrightarrow> valid P (\<lambda>y. if b y then m y else m' y) Q S E"
  by (auto simp: valid_def)

text \<open>A state predicate that an action keeps however it ends.\<close>

definition keeps :: "('w cycle \<Rightarrow> bool) \<Rightarrow> ('w, 'a) act \<Rightarrow> bool" where
  "keeps I m \<longleftrightarrow> (\<forall>y. I y \<longrightarrow> I (snd (m y)))"

lemma keeps_then_do: "keeps I m \<Longrightarrow> (\<And>a. keeps I (f a)) \<Longrightarrow> keeps I (then_do m f)"
proof (unfold keeps_def, intro allI impI)
  fix y assume "\<forall>y. I y \<longrightarrow> I (snd (m y))" "\<And>a. \<forall>y. I y \<longrightarrow> I (snd (f a y))" "I y"
  then show "I (snd (then_do m f y))"
    by (cases "m y", cases "fst (m y)") (auto simp: then_do_def dest: spec[of _ y])
qed

lemma keeps_point:
  "(\<And>y. I y \<Longrightarrow> I (snd (f y))) \<Longrightarrow> keeps I (then_do (check_point env p) (\<lambda>_. f))"
  by (auto simp: keeps_def then_do_def check_point_def split: option.splits)

lemma keeps_basic [simp]: "keeps I (go a)" "keeps I (stop s)" "keeps I (check_point env p)"
  by (auto simp: keeps_def go_def stop_def check_point_def split: option.splits)

lemma keeps_if [intro]: "(b \<Longrightarrow> keeps I m) \<Longrightarrow> (\<not> b \<Longrightarrow> keeps I m') \<Longrightarrow> keeps I (if b then m else m')"
  by simp

lemma keepsI: "(\<And>y. I y \<Longrightarrow> I (snd (m y))) \<Longrightarrow> keeps I m"
  by (simp add: keeps_def)

lemma keepsD: "keeps I m \<Longrightarrow> I y \<Longrightarrow> I (snd (m y))"
  by (simp add: keeps_def)

section \<open>The invariant of the engine\<close>

definition engine_inv :: "'w cycle \<Rightarrow> bool" where
  "engine_inv y \<longleftrightarrow> retry_inv (cy_queue y) \<and> fb_package (cy_fail y) = fb_package fail_init
     \<and> length (sg_buffer (cy_log y)) \<le> cycle_log_maxlen"

lemma engine_inv_frame [simp]:
  "engine_inv (y\<lparr>cy_session := s\<rparr>) = engine_inv y" "engine_inv (y\<lparr>cy_world := w\<rparr>) = engine_inv y"
  "engine_inv (y\<lparr>cy_cfg := c\<rparr>) = engine_inv y" "engine_inv (y\<lparr>cy_last_ts := t\<rparr>) = engine_inv y"
  "engine_inv (y\<lparr>cy_mm := m\<rparr>) = engine_inv y" "engine_inv (y\<lparr>cy_confirm := cf\<rparr>) = engine_inv y"
  "engine_inv (y\<lparr>cy_recorded := b\<rparr>) = engine_inv y"
  by (simp_all add: engine_inv_def)

lemma engine_inv_queue: "engine_inv y \<Longrightarrow> retry_inv q \<Longrightarrow> engine_inv (y\<lparr>cy_queue := q\<rparr>)"
  by (simp add: engine_inv_def)

lemma engine_inv_fail: "engine_inv y \<Longrightarrow> fb_package fb = fb_package (cy_fail y) \<Longrightarrow> engine_inv (y\<lparr>cy_fail := fb\<rparr>)"
  by (simp add: engine_inv_def)

lemma record_keeps_package: "fb_package (snd (record_api_fail_streak b t fb)) = fb_package fb"
  by (simp add: record_api_fail_streak_def Let_def)

named_theorems keeps_intros "stages that keep the invariant of the engine"

lemma keeps_enqueue [keeps_intros]: "keeps engine_inv (enqueue_act kind cfg now items)"
  using enqueue_retry_items_inv
  by (auto simp: enqueue_act_def intro!: keepsI engine_inv_queue split: prod.splits)
    (metis engine_inv_def fst_conv)

lemma keeps_close [keeps_intros]: "keeps engine_inv (close_act env reason now plan)"
  by (auto simp: close_act_def Let_def intro!: keepsI)

lemma keeps_disable [keeps_intros]: "keeps engine_inv (disable_act cfg)"
  by (auto simp: disable_act_def intro!: keepsI)

lemma keeps_close_retry [keeps_intros]: "keeps engine_inv (exec_close_with_retry env cfg now plan reason)"
  unfolding exec_close_with_retry_def by (auto intro!: keeps_then_do keeps_intros)

lemma keeps_close_and_stop [keeps_intros]:
  "keeps engine_inv (close_and_stop env cfg now st1 st2 mode reason plan)"
  unfolding close_and_stop_def by (auto intro!: keeps_then_do keeps_intros)

lemma keeps_load [keeps_intros]: "keeps engine_inv (load_cfg env)"
  unfolding load_cfg_def by (rule keeps_point) (auto split: option.splits)

lemma keeps_start [keeps_intros]: "keeps engine_inv (start_stage env cfg force now)"
  unfolding start_stage_def by (auto intro!: keepsI simp: Let_def split: prod.splits)

lemma keeps_retry [keeps_intros]: "keeps engine_inv (retry_stage env cfg now)"
proof -
  have "retry_inv q' \<Longrightarrow> process_due_retries xc xo cfg now q' w = (rep, q, w') \<Longrightarrow> retry_inv q"
    for xc :: "(session \<times> 'a) close_exec" and xo q' w rep q w'
    using process_inv[of q' xc xo cfg now w] by simp
  then show ?thesis
    unfolding retry_stage_def
    by (intro keeps_if keeps_basic keeps_point) (auto simp: engine_inv_def Let_def split: prod.splits)
qed

lemma keeps_reads [keeps_intros]:
  "keeps engine_inv (scan_act env)" "keeps engine_inv (holds_act env)" "keeps engine_inv (mismatch_act env cfg holds nav)"
  "keeps engine_inv (nav_refresh_stage env scan)" "keeps engine_inv (confirm_act env cfg dp)"
  unfolding scan_act_def holds_act_def mismatch_act_def nav_refresh_stage_def confirm_act_def
  by (intro keeps_if keeps_basic keeps_point; auto simp: Let_def split: prod.splits)+
    (auto intro!: keepsI simp: Let_def split: prod.splits option.splits)

lemma keeps_record [keeps_intros]: "keeps engine_inv (record_act env failed)"
  using record_keeps_package
  by (auto simp: record_act_def intro!: keepsI engine_inv_fail split: prod.splits) (metis snd_conv)

lemma keeps_api_guard [keeps_intros]: "keeps engine_inv (api_guard_stage env cfg errs scanned)"
  unfolding api_guard_stage_def Let_def by (auto intro!: keeps_then_do keeps_intros)

lemma keeps_repair [keeps_intros]: "keeps engine_inv (repair_stage env cfg now mm)"
proof -
  have "keeps engine_inv (repair_act env now plan)" for plan
    unfolding repair_act_def by (rule keeps_point) (simp add: Let_def)
  then show ?thesis
    unfolding repair_stage_def Let_def by (auto intro!: keeps_then_do keeps_intros)
qed

lemma keeps_fun_if:
  "keeps I m \<Longrightarrow> keeps I m' \<Longrightarrow> keeps I (\<lambda>y. if b y then m y else m' y)"
  by (auto simp: keeps_def)

lemma keeps_at: "(\<And>z. keeps I (f z)) \<Longrightarrow> keeps I (\<lambda>y. f y y)"
  by (auto simp: keeps_def)

lemma keeps_risk_reduce [keeps_intros]:
  "keeps engine_inv (risk_reduce_stop env cfg now current st1 st2 st3 mode reason)"
  unfolding risk_reduce_stop_def Let_def by (auto intro!: keeps_then_do keeps_intros)

lemma keeps_hard [keeps_intros]: "keeps engine_inv (hard_stop env cfg now current)"
  unfolding hard_stop_def Let_def by (auto intro!: keeps_intros)

lemma keeps_guards [keeps_intros]:
  "keeps engine_inv (profit_lock_stage env cfg now holds current)"
  "keeps engine_inv (drawdown_stage env cfg now nav current)"
  "keeps engine_inv (basis_shock_stage env cfg now holds rows)"
  "keeps engine_inv (stale_stage env cfg now nav current)"
  unfolding profit_lock_stage_def drawdown_stage_def basis_shock_stage_def stale_stage_def Let_def
  by (intro keeps_if keeps_basic keeps_point keeps_risk_reduce;
      auto intro: keepsD[OF keeps_close_and_stop] keepsD[OF keeps_hard] keepsD[OF keeps_risk_reduce])+

lemma keeps_gates [keeps_intros]: "keeps engine_inv (gates_act env cfg scan holds dp)"
  unfolding gates_act_def 
  by (rule keeps_then_do[OF keeps_reads(5)]) (auto intro!: keeps_point simp: Let_def split: prod.splits)

lemma keeps_open [keeps_intros]: "keeps engine_inv (open_act env cfg now failed plan)"
  unfolding open_act_def by (auto intro!: keepsI simp: Let_def)

lemma keeps_execute [keeps_intros]: "keeps engine_inv (execute_rebalance env cfg now dp base)"
  unfolding execute_rebalance_def by (auto intro!: keeps_then_do keeps_intros)

lemma keeps_decide [keeps_intros]: "keeps engine_inv (rebalance_decide env cfg now dp g)"
  unfolding rebalance_decide_def Let_def by (intro keeps_if keeps_basic keeps_execute)

lemma keeps_rebalance [keeps_intros]: "keeps engine_inv (rebalance_stage env cfg now scan holds current)"
  unfolding rebalance_stage_def Let_def
  by (rule keeps_point, rule keepsD[OF keeps_then_do[OF keeps_gates keeps_decide]])

lemma keeps_body [keeps_intros]: "keeps engine_inv (cycle_body env force now cfg)"
  unfolding cycle_body_def Let_def by (intro keeps_then_do keeps_intros)

definition cycle_inv :: "'w cycle \<Rightarrow> bool" where
  "cycle_inv y \<longleftrightarrow> engine_inv y \<and> clean (cy_session y)"

lemma finish_inv: "engine_inv y \<Longrightarrow> cycle_inv (snd (finish env s y))"
  by (simp add: finish_def cycle_inv_def engine_inv_def set_last_summary_def Let_def)

lemma handler_inv: "engine_inv y \<Longrightarrow> cycle_inv (snd (handle_exception env cfg e y))"
  unfolding handle_exception_def Let_def
  by (auto intro!: finish_inv engine_inv_fail keepsD[OF keeps_disable] simp: record_keeps_package
      split: prod.splits option.splits if_splits) (metis record_keeps_package snd_conv)+

lemma run_open_cycle_inv: "cycle_inv y \<Longrightarrow> cycle_inv (snd (run_open_cycle env force lock y))"
proof (cases "lock = None")
  case False
  then show "cycle_inv y \<Longrightarrow> ?thesis"
    by (simp add: run_open_cycle_def Let_def cycle_inv_def engine_inv_def set_last_summary_def)
next
  case True
  let ?y0 = "y\<lparr>cy_session := open_session session_local_autoflush (se_exchanges (cy_session y)) (se_committed (cy_session y)),
      cy_recorded := False\<rparr>"
  let ?now = "ce_clock env (cy_world y)"
  assume "cycle_inv y"
  then have y0: "engine_inv ?y0" by (simp add: cycle_inv_def)
  obtain r y1 where l: "load_cfg env ?y0 = (r, y1)" by (cases "load_cfg env ?y0")
  have y1: "engine_inv y1" using keepsD[OF keeps_load y0, of env] l by simp
  show ?thesis
  proof (cases r)
    case (Go cfg)
    obtain r2 y2 where b: "cycle_body env force ?now cfg y1 = (r2, y2)" by (cases "cycle_body env force ?now cfg y1")
    have "engine_inv y2" using keepsD[OF keeps_body y1, of env force ?now cfg] b by simp
    then show ?thesis
      using True l Go b by (cases r2) (simp_all add: run_open_cycle_def Let_def finish_inv handler_inv)
  qed (use True l y1 in \<open>simp_all add: run_open_cycle_def Let_def finish_inv handler_inv\<close>)
qed

text \<open>The engine as a machine: every event is one call of the cycle, in any environment.\<close>

definition cycle_init :: "exchange_row list \<Rightarrow> tables \<Rightarrow> auto_cfg option \<Rightarrow> 'w \<Rightarrow> 'w cycle" where
  "cycle_init exs t cfg w =
     \<lparr>cy_session = open_session session_local_autoflush exs t, cy_world = w, cy_cfg = cfg, cy_last_ts = 0,
      cy_queue = [], cy_mm = Map.empty, cy_confirm = confirm_init, cy_fail = fail_init, cy_recorded = False,
      cy_log = empty_log\<rparr>"

definition cycle_step :: "'w cycle \<Rightarrow> 'w cycle_env \<times> bool \<times> string option \<Rightarrow> 'w cycle" where
  "cycle_step y e = snd (run_open_cycle (fst e) (fst (snd e)) (snd (snd e)) y)"

definition cycle_run :: "exchange_row list \<Rightarrow> tables \<Rightarrow> auto_cfg option \<Rightarrow> 'w
      \<Rightarrow> ('w cycle_env \<times> bool \<times> string option) list \<Rightarrow> 'w cycle" where
  "cycle_run exs t cfg w es = foldl cycle_step (cycle_init exs t cfg w) es"

lemma cycle_init_inv: "cycle_inv (cycle_init exs t cfg w)"
  by (simp add: cycle_inv_def cycle_init_def engine_inv_def clean_def open_session_def empty_log_def)

interpretation cyc: machine "cycle_init exs t cfg w" cycle_step cycle_inv
  for exs t cfg and w :: 'w
  by unfold_locales (auto simp: cycle_step_def cycle_init_inv run_open_cycle_inv)

lemma cycle_run_inv: "cycle_inv (cycle_run exs t cfg w es)"
  unfolding cycle_run_def by (rule cyc.reachable_inv)

section \<open>Where a summary comes from\<close>

definition quiet_statuses :: "string list" where
  "quiet_statuses =
     [''throttled'', ''disabled'', ''retry_executed'', ''hedge_repair_dry_run'',
      ''hedge_repair_executed'', ''profit_lock_dry_run'', ''profit_lock_executed'',
      ''risk_guard_hard_dry_run'', ''risk_guard_hard_no_positions'', ''risk_guard_hard_executed'',
      ''risk_guard_soft_blocked_no_close'', ''risk_guard_soft_dry_run'', ''risk_guard_soft_executed'',
      ''basis_shock_dry_run'', ''basis_shock_executed'', ''risk_reduce_no_action'', ''risk_reduce_dry_run'',
      ''risk_reduce_executed'']"

definition quiet_summary :: "summary \<Rightarrow> bool" where
  "quiet_summary s \<longleftrightarrow> sm_status s \<in> set quiet_statuses \<and> sm_error s = None \<and> \<not> sm_breaker s"

text \<open>The two guards that trip a circuit breaker switch the engine off.\<close>

definition switched_off :: "'w cycle \<Rightarrow> bool" where
  "switched_off y \<longleftrightarrow> (case cy_cfg y of None \<Rightarrow> False | Some c \<Rightarrow> \<not> cfg_is_enabled c)"

definition guard_post :: "summary \<Rightarrow> 'w cycle \<Rightarrow> bool" where
  "guard_post s y \<longleftrightarrow> quiet_summary s
     \<or> sm_status s \<in> {''api_fail_circuit_breaker'', ''hedge_repair_circuit_breaker''} \<and> sm_error s = None \<and> switched_off y"

lemma quiet_summaryI: "sm_status s \<in> set quiet_statuses \<Longrightarrow> sm_error s = None \<Longrightarrow> \<not> sm_breaker s \<Longrightarrow> quiet_summary s"
  by (simp add: quiet_summary_def)

abbreviation stops :: "(summary \<Rightarrow> bool) \<Rightarrow> ('w, 'a) act \<Rightarrow> bool" where
  "stops P m \<equiv> valid (\<lambda>_. True) m (\<lambda>_ _. True) (\<lambda>s _. P s) (\<lambda>_ _. True)"

lemma stops_then_do: "stops P m \<Longrightarrow> (\<And>a. stops P (f a)) \<Longrightarrow> stops P (then_do m f)"
  by (rule valid_then_do)

lemma stops_I: "(\<And>y s y'. m y = (Stop s, y') \<Longrightarrow> P s) \<Longrightarrow> stops P m"
  by (auto simp: valid_def split: prod.splits flow.splits)

lemma stops_D: "stops P m \<Longrightarrow> m y = (Stop s, y') \<Longrightarrow> P s"
  by (auto simp: valid_def dest: spec[of _ y])

lemma stops_basic [simp]: "stops P (go a)" "stops P (check_point env p)" "P s \<Longrightarrow> stops P (stop s)"
  by (auto simp: valid_def go_def check_point_def stop_def split: option.splits)

lemma summary_sels [simp]:
  "sm_status (status_only st) = st" "sm_error (status_only st) = None"
  "sm_status (mode_summary st m d) = st" "sm_error (mode_summary st m d) = None"
  "sm_dry_run (mode_summary st m d) = Some d" "sm_reason (mode_summary st m d) = None"
  "sm_status (close_summary s plan res) = sm_status s" "sm_error (close_summary s plan res) = sm_error s"
  "sm_ok (status_only st) = True" "\<not> sm_breaker (status_only st)" "\<not> sm_breaker (mode_summary st m d)"
  "sm_breaker (close_summary s plan res) = sm_breaker s"
  by (simp_all add: status_only_def mode_summary_def close_summary_def split: prod.splits)

named_theorems stops_intros "stages that stop with a guard's summary"

lemma stops_plain [stops_intros]:
  "stops P (scan_act env)" "stops P (holds_act env)" "stops P (mismatch_act env cfg holds nav)"
  "stops P (nav_refresh_stage env scan)" "stops P (record_act env failed)" "stops P (disable_act cfg)"
  "stops P (enqueue_act kind cfg now items)" "stops P (close_act env reason now plan)"
  "stops P (repair_act env now plan)" "stops P (confirm_act env cfg dp)" "stops P (open_act env cfg now items plan)"
  unfolding scan_act_def holds_act_def mismatch_act_def nav_refresh_stage_def record_act_def disable_act_def
    enqueue_act_def close_act_def repair_act_def confirm_act_def open_act_def
  by (auto intro!: stops_I simp: then_do_def check_point_def Let_def go_def split: prod.splits option.splits if_splits)

lemma stops_close_retry [stops_intros]: "stops P (exec_close_with_retry env cfg now plan reason)"
  unfolding exec_close_with_retry_def by (auto intro!: stops_then_do stops_intros)

lemma stops_close_and_stop:
  assumes "st1 \<in> set quiet_statuses" "st2 \<in> set quiet_statuses"
  shows "stops quiet_summary (close_and_stop env cfg now st1 st2 mode reason plan)"
  unfolding close_and_stop_def
  by (auto intro!: stops_then_do stops_intros simp: quiet_summary_def assms)

lemma stops_start [stops_intros]: "stops quiet_summary (start_stage env cfg force now)"
  by (rule stops_I) (auto simp: start_stage_def quiet_summary_def quiet_statuses_def Let_def split: prod.splits if_splits)

lemma stops_retry [stops_intros]: "stops quiet_summary (retry_stage env cfg now)"
  unfolding retry_stage_def
  by (intro valid_if stops_basic stops_then_do stops_I)
    (auto simp: quiet_summary_def quiet_statuses_def Let_def split: prod.splits if_splits)

lemma guard_post_quiet: "stops quiet_summary m \<Longrightarrow> valid (\<lambda>_. True) m (\<lambda>_ _. True) guard_post (\<lambda>_ _. True)"
  by (auto simp: valid_def guard_post_def split: prod.splits flow.splits)

lemma disable_switches_off: "valid (\<lambda>_. True) (disable_act cfg) (\<lambda>_. switched_off) S E"
  by (simp add: valid_def disable_act_def switched_off_def)

lemma guard_api: "valid (\<lambda>_. True) (api_guard_stage env cfg errs scanned) (\<lambda>_ _. True) guard_post (\<lambda>_ _. True)"
  unfolding api_guard_stage_def Let_def
  by (intro valid_then_do[OF guard_post_quiet[OF stops_plain(5)]] valid_if valid_then_do[OF disable_switches_off]
      valid_go valid_stop) (simp_all add: guard_post_def)

lemma guard_repair: "valid (\<lambda>_. True) (repair_stage env cfg now mm) (\<lambda>_ _. True) guard_post (\<lambda>_ _. True)"
proof -
  have final: "valid (\<lambda>_. True) (then_do (if circuit then disable_act cfg else go ()) (\<lambda>_.
      stop ((status_only (if circuit then ''hedge_repair_circuit_breaker'' else ''hedge_repair_executed''))
                     \<lparr>sm_mode := a, sm_repaired := b, sm_repair_failed := c, sm_done := d, sm_close_failed := e, sm_retry_close := f\<rparr>)))
      (\<lambda>_ _. True) guard_post (\<lambda>_ _. True)" for circuit a b c d e f
    by (cases circuit; rule valid_then_do, (simp, rule disable_switches_off | simp, rule valid_go, rule TrueI), rule valid_stop)
      (simp_all add: guard_post_def quiet_summary_def quiet_statuses_def)
  have close: "valid (\<lambda>_. True) (if b then go ([], [], 0) else exec_close_with_retry env cfg now plan reason)
      (\<lambda>_ _. True) guard_post (\<lambda>_ _. True)" for b plan reason
    by (intro guard_post_quiet valid_if stops_basic stops_close_retry)
  have dry: "valid (\<lambda>_. True) (stop ((mode_summary ''hedge_repair_dry_run'' ''hedge_repair_only'' True)\<lparr>sm_plan_pairs := n\<rparr>))
      (\<lambda>_ _. True) guard_post (\<lambda>_ _. True)" for n
    by (rule valid_stop) (simp add: guard_post_def quiet_summary_def quiet_statuses_def)
  show ?thesis
    unfolding repair_stage_def Let_def
    by (intro valid_if valid_go TrueI dry valid_then_do[OF guard_post_quiet[OF stops_plain(9)]], simp only: split_paired_all prod.case)
      (rule valid_then_do[OF close], simp only: split_paired_all prod.case, rule final)
qed

lemma stops_risk_reduce:
  assumes "st0 \<in> set quiet_statuses" "st1 \<in> set quiet_statuses" "st2 \<in> set quiet_statuses"
  shows "stops quiet_summary (risk_reduce_stop env cfg now current st0 st1 st2 mode reason)"
  unfolding risk_reduce_stop_def Let_def
  by (auto intro!: stops_then_do stops_close_and_stop stops_basic(3) quiet_summaryI simp: assms)

lemma stops_point:
  assumes "\<And>y s y'. f y = (Stop s, y') \<Longrightarrow> P s"
  shows "stops P (then_do (check_point env p) (\<lambda>_. f))"
  by (intro stops_then_do stops_basic stops_I) (rule assms)

lemma stops_guards [stops_intros]:
  "stops quiet_summary (profit_lock_stage env cfg now holds current)"
  "stops quiet_summary (drawdown_stage env cfg now nav current)"
  "stops quiet_summary (basis_shock_stage env cfg now holds rows)"
  "stops quiet_summary (stale_stage env cfg now nav current)"
proof -
  note close = stops_D[OF stops_close_and_stop] and reduce = stops_D[OF stops_risk_reduce]
  have hard: "stops quiet_summary (hard_stop env cfg now current)"
    unfolding hard_stop_def Let_def
    by (auto intro!: stops_close_and_stop stops_basic(3) quiet_summaryI) (simp_all add: quiet_statuses_def)
  show "stops quiet_summary (profit_lock_stage env cfg now holds current)"
    "stops quiet_summary (basis_shock_stage env cfg now holds rows)"
    unfolding profit_lock_stage_def basis_shock_stage_def Let_def
    by (rule stops_point; auto split: if_splits dest!: close[rotated 2] simp: quiet_statuses_def)+
  show "stops quiet_summary (drawdown_stage env cfg now nav current)"
    unfolding drawdown_stage_def Let_def
    by (rule stops_point; auto split: if_splits dest!: reduce[rotated 3] stops_D[OF hard] simp: quiet_statuses_def)
  show "stops quiet_summary (stale_stage env cfg now nav current)"
    unfolding stale_stage_def by (auto intro!: stops_risk_reduce simp: quiet_statuses_def)
qed

definition rebalance_statuses :: "string list" where
  "rebalance_statuses =
     [''no_delta_to_rebalance'', ''rebalance_wait_confirm'', ''rebalance_fee_coverage_blocked'',
      ''rebalance_capacity_not_exhausted_blocked'', ''rebalance_deadband_blocked'', ''dry_run_plan'', ''executed'']"

text \<open>What an executed rebalance reports: the gates were open, and a failed close stops the opens.\<close>

definition executed_ok :: "summary \<Rightarrow> bool" where
  "executed_ok s \<longleftrightarrow> (sm_status s = ''executed'' \<longrightarrow>
     sm_reason s = Some ''rebalance_allowed'' \<and> sm_dry_run s = Some False
     \<and> (0 < sm_close_failed s \<longrightarrow> sm_opened s = 0 \<and> sm_open_failed s = 0))"

definition rebalance_summary :: "summary \<Rightarrow> bool" where
  "rebalance_summary s \<longleftrightarrow> sm_status s \<in> set rebalance_statuses \<and> sm_error s = None \<and> \<not> sm_breaker s \<and> executed_ok s"

lemma rebalance_base_sels [simp]:
  "sm_error (rebalance_base cfg dp g) = None" "\<not> sm_breaker (rebalance_base cfg dp g)" "sm_reason (rebalance_base cfg dp g) = Some (decision_reason dp g)"
  "sm_dry_run (rebalance_base cfg dp g) = Some (cfg_dry_run cfg)"
  by (simp_all add: rebalance_base_def)

lemma execute_rebalance_Go:
  assumes "execute_rebalance env cfg now dp base y = (Go s, y')"
  shows "sm_status s = ''executed''" "sm_error s = sm_error base" "sm_breaker s = sm_breaker base" "sm_reason s = sm_reason base"
    "sm_dry_run s = sm_dry_run base" "0 < sm_close_failed s \<Longrightarrow> sm_opened s = 0 \<and> sm_open_failed s = 0"
  using assms
  by (auto simp: execute_rebalance_def then_do_def check_point_def close_act_def open_act_def enqueue_act_def go_def Let_def
      split: option.splits prod.splits if_splits)

lemma execute_rebalance_stops: "stops P (execute_rebalance env cfg now dp base)"
  unfolding execute_rebalance_def by (auto intro!: stops_then_do stops_intros)

lemma delta_plan_signal:
  "dp_raw_signal (build_rebalance_delta_plan current rows cfg) \<longleftrightarrow>
     dp_has_delta (build_rebalance_delta_plan current rows cfg) \<and> dp_meets_abs (build_rebalance_delta_plan current rows cfg)
     \<and> dp_meets_rel (build_rebalance_delta_plan current rows cfg)"
  by (auto simp: build_rebalance_delta_plan_def Let_def)

lemma decision_allowed:
  "dp_raw_signal dp = (dp_has_delta dp \<and> dp_meets_abs dp \<and> dp_meets_rel dp) \<Longrightarrow> execute_allowed dp g \<Longrightarrow>
   decision_reason dp g = ''rebalance_allowed''"
  by (simp add: execute_allowed_def decision_reason_def)

lemma rebalance_decide_Go:
  assumes "rebalance_decide env cfg now dp g y = (Go s, y')"
    and "dp_raw_signal dp = (dp_has_delta dp \<and> dp_meets_abs dp \<and> dp_meets_rel dp)"
  shows "rebalance_summary s"
proof (cases "dp_has_delta dp \<and> execute_allowed dp g \<and> \<not> cfg_dry_run cfg")
  case True
  then have x: "execute_rebalance env cfg now dp (rebalance_base cfg dp g) y = (Go s, y')"
    using assms(1) by (simp add: rebalance_decide_def Let_def)
  show ?thesis
    using execute_rebalance_Go[OF x] True decision_allowed[OF assms(2)]
    by (auto simp: rebalance_summary_def executed_ok_def rebalance_statuses_def)
next
  case False
  then show ?thesis
    using assms(1)
    by (auto simp: rebalance_decide_def Let_def go_def rebalance_summary_def executed_ok_def rebalance_statuses_def
        blocked_status_def split: if_splits)
qed

lemma rebalance_stage_outcome:
  "valid (\<lambda>_. True) (rebalance_stage env cfg now scan holds current) (\<lambda>s _. rebalance_summary s) (\<lambda>s _. quiet_summary s) (\<lambda>_ _. True)"
proof -
  have gates: "stops P (gates_act env cfg scan holds dp)" for P dp
    unfolding gates_act_def Let_def
    by (rule stops_then_do[OF stops_plain(10)]) (auto intro!: stops_point split: prod.splits)
  have decide: "valid (\<lambda>_. True) (rebalance_decide env cfg now dp g) (\<lambda>s _. rebalance_summary s) (\<lambda>s _. quiet_summary s) (\<lambda>_ _. True)"
    if "dp_raw_signal dp = (dp_has_delta dp \<and> dp_meets_abs dp \<and> dp_meets_rel dp)" for dp g
  proof -
    have "stops quiet_summary (rebalance_decide env cfg now dp g)"
      unfolding rebalance_decide_def Let_def by (intro valid_if stops_basic execute_rebalance_stops)
    then show ?thesis using rebalance_decide_Go[OF _ that]
      by (auto simp: valid_def split: prod.splits flow.splits)
  qed
  have "valid (\<lambda>_. True) (then_do (gates_act env cfg scan holds dp) (rebalance_decide env cfg now dp))
      (\<lambda>s _. rebalance_summary s) (\<lambda>s _. quiet_summary s) (\<lambda>_ _. True)"
    if "dp_raw_signal dp = (dp_has_delta dp \<and> dp_meets_abs dp \<and> dp_meets_rel dp)" for dp
    by (rule valid_then_do[OF gates decide[OF that]])
  then show ?thesis
    unfolding rebalance_stage_def Let_def
    by (intro valid_then_do[OF stops_basic(2)]) (use delta_plan_signal in \<open>auto simp: valid_def\<close>)
qed

lemma guard_rebalance:
  "valid (\<lambda>_. True) (rebalance_stage env cfg now scan holds current) (\<lambda>s _. rebalance_summary s) guard_post (\<lambda>_ _. True)"
  by (rule valid_mono[OF rebalance_stage_outcome]) (simp add: guard_post_def)

lemma cycle_body_outcome:
  "valid (\<lambda>_. True) (cycle_body env force now cfg) (\<lambda>s _. rebalance_summary s) guard_post (\<lambda>_ _. True)"
  unfolding cycle_body_def Let_def
  by (intro valid_then_do[where Q = "\<lambda>_ _. True"] guard_api guard_repair guard_rebalance guard_post_quiet stops_intros)

text \<open>Every summary comes from a guard, from the rebalance, from the lock or from the handler.\<close>

lemma run_summary_cases:
  obtains (locked) "lock \<noteq> None" "sm_status (fst (run_open_cycle env force lock y)) = ''lock_held_by_other_worker''"
      "sm_error (fst (run_open_cycle env force lock y)) = None" "\<not> sm_breaker (fst (run_open_cycle env force lock y))"
  | (guard) "lock = None" "guard_post (fst (run_open_cycle env force lock y)) (snd (run_open_cycle env force lock y))"
  | (rebalance) "lock = None" "rebalance_summary (fst (run_open_cycle env force lock y))"
  | (raised) cfg e y' where "lock = None" "run_open_cycle env force lock y = handle_exception env cfg e y'"
      "cycle_inv y \<Longrightarrow> engine_inv y'"
proof (cases "lock = None")
  case False
  then show ?thesis by (intro locked) (simp_all add: run_open_cycle_def Let_def)
next
  case True
  let ?y0 = "y\<lparr>cy_session := open_session session_local_autoflush (se_exchanges (cy_session y)) (se_committed (cy_session y)),
      cy_recorded := False\<rparr>"
  let ?now = "ce_clock env (cy_world y)"
  obtain r y1 where l: "load_cfg env ?y0 = (r, y1)" by (cases "load_cfg env ?y0")
  have i1: "engine_inv y1" if "cycle_inv y"
    using keepsD[OF keeps_load, of ?y0 env] l that by (simp add: cycle_inv_def)
  show ?thesis
  proof (cases r)
    case (Go cfg)
    obtain r2 y2 where b: "cycle_body env force ?now cfg y1 = (r2, y2)" by (cases "cycle_body env force ?now cfg y1")
    have i2: "engine_inv y2" if "cycle_inv y"
      using keepsD[OF keeps_body i1[OF that], of env force ?now cfg] b by simp
    have "case r2 of Go s \<Rightarrow> rebalance_summary s | Stop s \<Rightarrow> guard_post s y2 | Raised e \<Rightarrow> True"
      using cycle_body_outcome[of env force ?now cfg] b by (auto simp: valid_def dest!: spec[of _ y1] split: flow.splits)
    then show ?thesis
      using True l Go b i2
      by (cases r2) (auto intro: guard rebalance raised simp: run_open_cycle_def Let_def finish_def guard_post_def switched_off_def)
  next
    case (Stop s)
    then show ?thesis using l by (auto simp: load_cfg_def then_do_def check_point_def split: option.splits)
  next
    case (Raised e)
    show ?thesis by (rule raised[of None e y1]) (use True l Raised i1 in \<open>simp_all add: run_open_cycle_def Let_def\<close>)
  qed
qed

section \<open>Dry runs\<close>

text \<open>The environment with other exchanges to trade on.\<close>

definition with_exchanges :: "'w open_env \<Rightarrow> (exchange_row \<Rightarrow> string \<Rightarrow> fopt option) \<Rightarrow> 'w cycle_env \<Rightarrow> 'w cycle_env" where
  "with_exchanges o' c env = env\<lparr>ce_open := o', ce_contract := c\<rparr>"

lemma with_exchanges_sels [simp]:
  "ce_read (with_exchanges o' c env) = ce_read env" "ce_tick (with_exchanges o' c env) = ce_tick env"
  "ce_fee (with_exchanges o' c env) = ce_fee env" "ce_scan (with_exchanges o' c env) = ce_scan env"
  "ce_rescan_error (with_exchanges o' c env) = ce_rescan_error env" "ce_collect (with_exchanges o' c env) = ce_collect env"
  "ce_reconcile (with_exchanges o' c env) = ce_reconcile env" "ce_equity (with_exchanges o' c env) = ce_equity env"
  "ce_market (with_exchanges o' c env) = ce_market env" "ce_capital (with_exchanges o' c env) = ce_capital env"
  "ce_clock (with_exchanges o' c env) = ce_clock env" "ce_raises (with_exchanges o' c env) = ce_raises env"
  by (simp_all add: with_exchanges_def)

lemma dry_stages:
  assumes "cfg_dry_run cfg"
  shows "close_and_stop (with_exchanges o' c env) cfg now st1 st2 m r plan = close_and_stop env cfg now st1 st2 m r plan"
    "repair_stage (with_exchanges o' c env) cfg now mm = repair_stage env cfg now mm"
    "retry_stage (with_exchanges o' c env) cfg now = retry_stage env cfg now"
    "rebalance_decide (with_exchanges o' c env) cfg now dp g = rebalance_decide env cfg now dp g"
  using assms by (simp_all add: close_and_stop_def repair_stage_def retry_stage_def rebalance_decide_def Let_def)

lemma blind_stages:
  "check_point (with_exchanges o' c env) p = check_point env p"
  "load_cfg (with_exchanges o' c env) = load_cfg env"
  "start_stage (with_exchanges o' c env) cfg force now = start_stage env cfg force now"
  "scan_act (with_exchanges o' c env) = scan_act env" "holds_act (with_exchanges o' c env) = holds_act env"
  "mismatch_act (with_exchanges o' c env) cfg holds nav = mismatch_act env cfg holds nav"
  "api_guard_stage (with_exchanges o' c env) cfg errs scanned = api_guard_stage env cfg errs scanned"
  "nav_refresh_stage (with_exchanges o' c env) scan = nav_refresh_stage env scan"
  "gates_act (with_exchanges o' c env) cfg scan holds dp = gates_act env cfg scan holds dp"
  "finish (with_exchanges o' c env) s y = finish env s y"
  "handle_exception (with_exchanges o' c env) cf e y = handle_exception env cf e y"
  by (simp_all only: check_point_def load_cfg_def start_stage_def scan_act_def holds_act_def mismatch_act_def
      api_guard_stage_def record_act_def nav_refresh_stage_def gates_act_def confirm_act_def finish_def handle_exception_def
      Let_def with_exchanges_sels)

lemma dry_guards:
  assumes "cfg_dry_run cfg"
  shows "profit_lock_stage (with_exchanges o' c env) cfg now holds current = profit_lock_stage env cfg now holds current"
    "drawdown_stage (with_exchanges o' c env) cfg now nav current = drawdown_stage env cfg now nav current"
    "basis_shock_stage (with_exchanges o' c env) cfg now holds rows = basis_shock_stage env cfg now holds rows"
    "stale_stage (with_exchanges o' c env) cfg now nav current = stale_stage env cfg now nav current"
    "rebalance_stage (with_exchanges o' c env) cfg now scan holds current = rebalance_stage env cfg now scan holds current"
proof -
  note stages = dry_stages[OF assms] blind_stages
  have reduce: "risk_reduce_stop (with_exchanges o' c env) cfg now current st0 st1 st2 m r
      = risk_reduce_stop env cfg now current st0 st1 st2 m r" for st0 st1 st2 m r
    by (simp add: risk_reduce_stop_def stages Let_def cong: if_cong)
  have hard: "hard_stop (with_exchanges o' c env) cfg now current = hard_stop env cfg now current"
    by (simp add: hard_stop_def stages Let_def cong: if_cong)
  have decide: "rebalance_decide (with_exchanges o' c env) cfg now dp = rebalance_decide env cfg now dp" for dp
    by (rule ext) (rule stages)
  show "profit_lock_stage (with_exchanges o' c env) cfg now holds current = profit_lock_stage env cfg now holds current"
    by (simp add: profit_lock_stage_def stages Let_def cong: if_cong)
  show "drawdown_stage (with_exchanges o' c env) cfg now nav current = drawdown_stage env cfg now nav current"
    by (simp add: drawdown_stage_def stages reduce hard Let_def cong: if_cong)
  show "basis_shock_stage (with_exchanges o' c env) cfg now holds rows = basis_shock_stage env cfg now holds rows"
    by (simp add: basis_shock_stage_def stages Let_def cong: if_cong)
  show "stale_stage (with_exchanges o' c env) cfg now nav current = stale_stage env cfg now nav current"
    by (simp add: stale_stage_def reduce Let_def cong: if_cong)
  show "rebalance_stage (with_exchanges o' c env) cfg now scan holds current = rebalance_stage env cfg now scan holds current"
    by (simp add: rebalance_stage_def stages decide Let_def cong: if_cong)
qed

lemma dry_body:
  "cfg_dry_run cfg \<Longrightarrow> cycle_body (with_exchanges o' c env) force now cfg = cycle_body env force now cfg"
  by (simp add: cycle_body_def blind_stages dry_stages dry_guards Let_def cong: if_cong)

text \<open>The retry queue in a dry run.\<close>

lemma dry_queue:
  fixes q :: retry_queue
  assumes "cfg_dry_run cfg"
  shows "keeps (\<lambda>y. cy_queue y = q) (cycle_body env force now cfg)"
proof -
  let ?I = "\<lambda>y. cy_queue y = q"
  have close: "keeps ?I (close_and_stop env cfg now st1 st2 m r plan)" for st1 st2 m r plan
    using assms by (simp add: close_and_stop_def)
  have reduce: "keeps ?I (risk_reduce_stop env cfg now current st0 st1 st2 m r)" for current st0 st1 st2 m r
    unfolding risk_reduce_stop_def Let_def by (intro keeps_then_do keeps_basic keeps_if close)
  have hard: "keeps ?I (hard_stop env cfg now current)" for current
    unfolding hard_stop_def Let_def by (intro keeps_basic keeps_if close)
  have reads: "keeps ?I (start_stage env cfg force now)" "keeps ?I (retry_stage env cfg now)"
    "keeps ?I (scan_act env)" "keeps ?I (holds_act env)" "\<And>holds nav. keeps ?I (mismatch_act env cfg holds nav)"
    "\<And>scan. keeps ?I (nav_refresh_stage env scan)" "\<And>dp. keeps ?I (confirm_act env cfg dp)"
    "\<And>b. keeps ?I (record_act env b)" "keeps ?I (disable_act cfg)" "\<And>mm. keeps ?I (repair_stage env cfg now mm)"
    unfolding start_stage_def retry_stage_def scan_act_def holds_act_def mismatch_act_def nav_refresh_stage_def
      confirm_act_def record_act_def disable_act_def repair_stage_def
    using assms
    by (auto intro!: keepsI simp: then_do_def check_point_def go_def stop_def Let_def split: prod.splits option.splits)
  have guard: "keeps ?I (api_guard_stage env cfg errs scanned)" for errs scanned
    unfolding api_guard_stage_def Let_def by (intro keeps_then_do keeps_if keeps_basic reads)
  have stages: "keeps ?I (profit_lock_stage env cfg now holds current)" "keeps ?I (drawdown_stage env cfg now nav current)"
    "keeps ?I (basis_shock_stage env cfg now holds rows)" "keeps ?I (stale_stage env cfg now nav current)"
    for holds current nav rows
    unfolding profit_lock_stage_def drawdown_stage_def basis_shock_stage_def stale_stage_def Let_def
    by (intro keeps_if keeps_basic keeps_point reduce; auto simp: keepsD[OF close] keepsD[OF hard] keepsD[OF reduce])+
  have gates: "keeps ?I (gates_act env cfg scan holds dp)" for scan holds dp
    unfolding gates_act_def
    by (rule keeps_then_do[OF reads(7)]) (auto intro!: keeps_point simp: Let_def split: prod.splits)
  have decide: "keeps ?I (rebalance_decide env cfg now dp g)" for dp g
    using assms by (simp add: rebalance_decide_def Let_def)
  have "keeps ?I (rebalance_stage env cfg now scan holds current)" for scan holds current
    unfolding rebalance_stage_def Let_def
    by (rule keeps_point) (rule keepsD[OF keeps_then_do[OF gates decide]])
  then show ?thesis
    unfolding cycle_body_def Let_def by (intro keeps_then_do reads guard stages)
qed

section \<open>Properties\<close>

text \<open>An environment in which nothing is scanned and nothing is held; it may raise at one point.\<close>

definition idle_env :: "cycle_point option \<Rightarrow> nat cycle_env" where
  "idle_env p =
     \<lparr>ce_open = sample_env, ce_contract = (\<lambda>e s. None), ce_read = (\<lambda>w e s. NoInstance), ce_tick = (\<lambda>w e s. None),
      ce_fee = (\<lambda>e m s. None),
      ce_scan = (\<lambda>w. (\<lparr>sn_rows = [], sn_nav = \<lparr>nm_used_usd = Some 1000, nm_total_usd = Some 1000, nm_is_stale = False\<rparr>,
         sn_errors = \<lparr>rf_errors = [], rf_error = None, rf_error_count = 0\<rparr>\<rparr>, w)),
      ce_rescan_error = (\<lambda>w. None), ce_collect = (\<lambda>w. (None, w)), ce_reconcile = (\<lambda>s w. (s, w)),
      ce_equity = (\<lambda>w. []), ce_market = (\<lambda>w. []), ce_capital = (\<lambda>w. []), ce_clock = (\<lambda>w. 100),
      ce_raises = (\<lambda>q w. if Some q = p then Some ''connection lost'' else None)\<rparr>"

definition enabled_cfg :: "bool \<Rightarrow> auto_cfg" where
  "enabled_cfg dry = default_cfg\<lparr>cfg_is_enabled := True, cfg_dry_run := dry\<rparr>"

definition no_tables :: tables where
  "no_tables = \<lparr>tb_strategies = [], tb_positions = [], tb_logs = []\<rparr>"

text \<open>
  C2: the state of the engine survives every history. However cycles follow each other, in
  any environment, with any exceptions and lock refusals: the retry queue holds no key twice
  and at most 200 items, nothing is left uncommitted in the session, and the log keeps at
  most 400 summaries.
\<close>

theorem cycle_state_sound:
  "distinct (queue_keys (cy_queue (cycle_run exs t cfg w es))) \<and> length (cy_queue (cycle_run exs t cfg w es)) \<le> 200
   \<and> clean (cy_session (cycle_run exs t cfg w es)) \<and> length (sg_buffer (cy_log (cycle_run exs t cfg w es))) \<le> 400"
  using cycle_run_inv[of exs t cfg w es]
  by (simp add: cycle_inv_def engine_inv_def retry_inv_def retry_queue_max_items_def cycle_log_maxlen_def)

text \<open>
  C3: a dry run never trades. Whatever the exchanges would answer to orders, the cycle's
  summary and the engine's next state are the same, because no order function is consulted;
  and the retry queue is left alone.
\<close>

theorem dry_run_never_trades:
  assumes "case cy_cfg y of None \<Rightarrow> True | Some cfg \<Rightarrow> cfg_dry_run cfg"
  shows "run_open_cycle (with_exchanges o' c env) force lock y = run_open_cycle env force lock y
    \<and> cy_queue (snd (run_open_cycle env force lock y)) = cy_queue y"
proof (cases "lock = None")
  case False
  then show ?thesis by (simp add: run_open_cycle_def Let_def)
next
  case True
  let ?y0 = "y\<lparr>cy_session := open_session session_local_autoflush (se_exchanges (cy_session y)) (se_committed (cy_session y)),
      cy_recorded := False\<rparr>"
  let ?now = "ce_clock env (cy_world y)"
  have queue: "cy_queue (snd (finish env s z)) = cy_queue z" "cy_queue (snd (handle_exception env cf e z)) = cy_queue z" for s z cf e
    by (auto simp: finish_def handle_exception_def disable_act_def Let_def split: prod.splits option.splits)
  have "keeps (\<lambda>z. cy_queue z = cy_queue y) (load_cfg env)"
    unfolding load_cfg_def by (rule keeps_point) (simp split: option.splits)
  then have lq: "cy_queue (snd (load_cfg env ?y0)) = cy_queue y" by (rule keepsD) simp
  have dry: "cfg_dry_run cfg" if "load_cfg env ?y0 = (Go cfg, y1)" for cfg y1
    using that assms by (auto simp: load_cfg_def then_do_def check_point_def default_cfg_def split: option.splits)
  obtain r y1 where l: "load_cfg env ?y0 = (r, y1)" by (cases "load_cfg env ?y0")
  show ?thesis
  proof (cases r)
    case (Go cfg)
    have "cfg_dry_run cfg" using dry l Go by simp
    note body = dry_body[OF this] keepsD[OF dry_queue[OF this], of y1 "cy_queue y" env force ?now]
    have "cy_queue (snd (cycle_body env force ?now cfg y1)) = cy_queue y" using body(2) lq l by simp
    then show ?thesis
      using True l Go
      by (auto simp: run_open_cycle_def Let_def blind_stages body(1) queue split: prod.splits flow.splits)
  qed (use True l lq in \<open>simp_all add: run_open_cycle_def Let_def blind_stages queue\<close>)
qed

theorem dry_run_never_trades_witness:
  "run_open_cycle (with_exchanges sample_env (\<lambda>e s. Some (Some 10)) (idle_env None)) True None
       (cycle_init [] no_tables (Some (enabled_cfg True)) 0)
   = run_open_cycle (idle_env None) True None (cycle_init [] no_tables (Some (enabled_cfg True)) 0)"
  using dry_run_never_trades[of "cycle_init [] no_tables (Some (enabled_cfg True)) (0::nat)" sample_env "\<lambda>e s. Some (Some 10)"
      "idle_env None" True None]
  by (simp add: cycle_init_def enabled_cfg_def)


text \<open>
  C11: an exception late in a cycle never trips the circuit breaker. In every reachable state
  of the engine, when a cycle raises after it has recorded its own outcome, the handler reads
  a streak of 0, whatever the streak is, and leaves the engine on.
\<close>

theorem late_exception_never_trips:
  assumes "run_open_cycle env force lock (cycle_run exs t cfg w es) = (s, y')"
    and "sm_error s \<noteq> None" and "cy_recorded y'"
  shows "sm_status s = ''error'' \<and> sm_streak s = Some 0 \<and> \<not> sm_breaker s"
proof (cases rule: run_summary_cases[of lock env force "cycle_run exs t cfg w es"])
  case (raised cf e z)
  have inv: "fb_package (cy_fail z) = fb_package fail_init"
    using raised(3)[OF cycle_run_inv] by (simp add: engine_inv_def)
  have h: "handle_exception env cf e z = (s, y')" using raised(2) assms(1) by simp
  have rec: "cy_recorded z" using h assms(3)
    by (auto simp: handle_exception_def finish_def disable_act_def Let_def split: prod.splits option.splits if_splits)
  have "streak_read_in_handler (cy_fail z) = 0" by (simp add: streak_read_in_handler_def inv fail_init_def py_trunc_def)
  then show ?thesis using h rec
    by (auto simp: handle_exception_def finish_def status_only_def api_threshold_def Let_def split: option.splits)
qed (use assms in \<open>auto simp: guard_post_def quiet_summary_def rebalance_summary_def\<close>)

lemma idle_late_error:
  "\<exists>s y'. run_open_cycle (idle_env (Some AtProfitLock)) True None (cycle_run [] no_tables (Some (enabled_cfg False)) 0 []) = (s, y')
     \<and> sm_error s \<noteq> None \<and> cy_recorded y'"
  by (simp add: run_open_cycle_def cycle_run_def cycle_init_def load_cfg_def then_do_def check_point_def idle_env_def
      cycle_body_def start_stage_def retry_stage_def enabled_cfg_def default_cfg_def process_due_retries_def due_items_def
      scan_act_def holds_act_def active_spot_hedge_holds_def sql_view_def open_session_def no_tables_def
      mismatch_act_def build_hedge_mismatch_close_plan_def api_guard_stage_def collect_api_fail_events_def py_strip_def
      record_act_def record_api_fail_streak_def go_def repair_stage_def nav_refresh_stage_def profit_lock_stage_def
      handle_exception_def finish_def status_only_def disable_act_def Let_def split: prod.splits)

theorem late_exception_never_trips_witness:
  "\<exists>s y'. run_open_cycle (idle_env (Some AtProfitLock)) True None (cycle_run [] no_tables (Some (enabled_cfg False)) 0 []) = (s, y')
     \<and> sm_status s = ''error'' \<and> sm_streak s = Some 0 \<and> \<not> sm_breaker s"
  using idle_late_error late_exception_never_trips
    [of "idle_env (Some AtProfitLock)" True None "[]" no_tables "Some (enabled_cfg False)" "0::nat" "[]"]
  by blast

text \<open>
  A tripped circuit breaker switches the engine off: when a summary says that a breaker
  tripped, the configuration row that the next cycle loads is disabled.
\<close>

theorem tripped_breaker_disables:
  assumes "run_open_cycle env force lock y = (s, y')"
    and "sm_status s \<in> {''api_fail_circuit_breaker'', ''hedge_repair_circuit_breaker''} \<or> sm_breaker s"
  shows "\<exists>cfg. cy_cfg y' = Some cfg \<and> \<not> cfg_is_enabled cfg"
proof (cases rule: run_summary_cases[of lock env force y])
  case guard
  then show ?thesis using assms
    by (auto simp: guard_post_def quiet_summary_def quiet_statuses_def switched_off_def split: option.splits)
next
  case (raised cf e z)
  then have h: "handle_exception env cf e z = (s, y')" using assms(1) by simp
  then have "sm_breaker s" using assms(2)
    by (auto simp: handle_exception_def finish_def Let_def split: prod.splits)
  then show ?thesis using h
    by (auto simp: handle_exception_def finish_def disable_act_def Let_def split: prod.splits option.splits if_splits)
qed (use assms in \<open>auto simp: rebalance_summary_def rebalance_statuses_def\<close>)

text \<open>One early exception with a threshold of one failed cycle.\<close>

definition fragile_cfg :: auto_cfg where
  "fragile_cfg = (enabled_cfg False)\<lparr>cfg_api_fail_circuit_count := Some 1\<rparr>"

lemma idle_early_error:
  "\<exists>s y'. run_open_cycle (idle_env (Some AtScan)) True None (cycle_init [] no_tables (Some fragile_cfg) 0) = (s, y') \<and> sm_breaker s"
  by (simp add: run_open_cycle_def cycle_init_def load_cfg_def then_do_def check_point_def idle_env_def fragile_cfg_def
      cycle_body_def start_stage_def retry_stage_def enabled_cfg_def default_cfg_def process_due_retries_def due_items_def
      scan_act_def handle_exception_def finish_def status_only_def disable_act_def record_api_fail_streak_def fail_init_def
      py_trunc_def api_threshold_def Let_def)

theorem tripped_breaker_disables_witness:
  "\<exists>s y'. run_open_cycle (idle_env (Some AtScan)) True None (cycle_init [] no_tables (Some fragile_cfg) 0) = (s, y')
     \<and> (\<exists>cfg. cy_cfg y' = Some cfg \<and> \<not> cfg_is_enabled cfg)"
  using idle_early_error tripped_breaker_disables
    [of "idle_env (Some AtScan)" True None "cycle_init [] no_tables (Some fragile_cfg) (0::nat)"]
  by blast

text \<open>
  A disabled engine is inert. Its cycles report that they were refused, throttled or
  disabled (or that the configuration could not be loaded); they commit nothing, leave the
  retry queue, the configuration and the outside world alone.
\<close>

theorem disabled_engine_is_inert:
  assumes "cy_cfg y = Some cfg" and "\<not> cfg_is_enabled cfg"
    and "run_open_cycle env force lock y = (s, y')"
  shows "sm_status s \<in> {''lock_held_by_other_worker'', ''throttled'', ''disabled'', ''error''}
    \<and> cy_world y' = cy_world y \<and> cy_queue y' = cy_queue y \<and> cy_cfg y' = cy_cfg y
    \<and> se_committed (cy_session y') = se_committed (cy_session y)"
proof -
  have load: "load_cfg env z = (Go cfg, z) \<or> (\<exists>e. load_cfg env z = (Raised e, z))" if "cy_cfg z = Some cfg" for z
    using that by (auto simp: load_cfg_def then_do_def check_point_def split: option.splits)
  have body: "cycle_body env force now cfg z = (Stop (status_only ''throttled''), z)
      \<or> cycle_body env force now cfg z = (Stop (status_only ''disabled''), z\<lparr>cy_last_ts := now\<rparr>)" for now z
    using assms(2) by (simp add: cycle_body_def start_stage_def then_do_def Let_def)
  let ?y0 = "y\<lparr>cy_session := open_session session_local_autoflush (se_exchanges (cy_session y)) (se_committed (cy_session y)),
      cy_recorded := False\<rparr>"
  have l: "load_cfg env ?y0 = (Go cfg, ?y0) \<or> (\<exists>e. load_cfg env ?y0 = (Raised e, ?y0))"
    by (rule load) (simp add: assms(1))
  show ?thesis
  proof (cases "lock = None")
    case False
    then show ?thesis using assms(3) by (auto simp: run_open_cycle_def Let_def)
  next
    case True
    from l show ?thesis
    proof
      assume "load_cfg env ?y0 = (Go cfg, ?y0)"
      with True assms(1,3) body[of "ce_clock env (cy_world y)" ?y0] show ?thesis
        by (auto simp: run_open_cycle_def Let_def finish_def open_session_def session_simps)
    next
      assume "\<exists>e. load_cfg env ?y0 = (Raised e, ?y0)"
      with True assms(1,3) show ?thesis
        by (auto simp: run_open_cycle_def Let_def finish_def handle_exception_def open_session_def session_simps split: prod.splits)
    qed
  qed
qed

theorem disabled_engine_is_inert_witness:
  "\<exists>s y'. run_open_cycle (idle_env None) True None (cycle_init [] no_tables (Some default_cfg) 0) = (s, y')
     \<and> cy_world y' = 0 \<and> cy_queue y' = []"
proof -
  let ?y = "cycle_init [] no_tables (Some default_cfg) (0::nat)"
  obtain s y' where r: "run_open_cycle (idle_env None) True None ?y = (s, y')" by (cases "run_open_cycle (idle_env None) True None ?y")
  have "cy_cfg ?y = Some default_cfg" "\<not> cfg_is_enabled default_cfg" by (simp_all add: cycle_init_def default_cfg_def)
  from disabled_engine_is_inert[OF this r] r show ?thesis by (auto simp: cycle_init_def)
qed

end
