(* ===== verification/TtlCache.thy ===== *)
theory TtlCache
  imports Prelude
begin

text \<open>
  The module-level caches of the runtime (\<open>_FUNDING_STABILITY_CACHE\<close>, \<open>_TAKER_FEE_CACHE\<close>) map a
  key to a value and the time it was stored. A look-up that finds an entry older than the time
  to live removes it and misses. The locale states what such a cache promises: it behaves like
  a log of the writes, read through the time to live.
\<close>

section \<open>The operations\<close>

type_synonym ('k, 'v) ttl_store = "'k \<Rightarrow> ('v \<times> real) option"

definition ttl_get :: "real \<Rightarrow> real \<Rightarrow> 'k \<Rightarrow> ('k, 'v) ttl_store \<Rightarrow> 'v option \<times> ('k, 'v) ttl_store" where
  "ttl_get ttl now k c =
     (case c k of
        None \<Rightarrow> (None, c)
      | Some (v, ts) \<Rightarrow> if now - ts > ttl then (None, c(k := None)) else (Some v, c))"

definition ttl_put :: "real \<Rightarrow> 'k \<Rightarrow> 'v \<Rightarrow> ('k, 'v) ttl_store \<Rightarrow> ('k, 'v) ttl_store" where
  "ttl_put now k v c = c(k \<mapsto> (v, now))"

definition ttl_drop :: "'k \<Rightarrow> ('k, 'v) ttl_store \<Rightarrow> ('k, 'v) ttl_store" where
  "ttl_drop k c = c(k := None)"

section \<open>The contract: a log of writes\<close>

text \<open>What a stored entry still answers at a time.\<close>

definition fresh :: "real \<Rightarrow> real \<Rightarrow> ('v \<times> real) option \<Rightarrow> 'v option" where
  "fresh ttl now e = (case e of None \<Rightarrow> None | Some (v, ts) \<Rightarrow> if now - ts > ttl then None else Some v)"

lemma fresh_simps [simp]:
  "fresh ttl now None = None"
  "fresh ttl now (Some (v, ts)) = (if now - ts > ttl then None else Some v)"
  by (simp_all add: fresh_def)

datatype ('k, 'v) cache_op = Look real 'k | Store real 'k 'v | Forget real 'k

fun op_time :: "('k, 'v) cache_op \<Rightarrow> real" where
  "op_time (Look t k) = t"
| "op_time (Store t k v) = t"
| "op_time (Forget t k) = t"

fun log_step :: "('k \<Rightarrow> ('v \<times> real) option) \<Rightarrow> ('k, 'v) cache_op \<Rightarrow> 'k \<Rightarrow> ('v \<times> real) option" where
  "log_step l (Look t k) = l"
| "log_step l (Store t k v) = l(k \<mapsto> (v, t))"
| "log_step l (Forget t k) = l(k := None)"

definition write_log :: "('k, 'v) cache_op list \<Rightarrow> 'k \<Rightarrow> ('v \<times> real) option" where
  "write_log ops = foldl log_step (\<lambda>_. None) ops"

text \<open>A look-up, a write or a removal on a cache with the given operations.\<close>

fun cache_step ::
    "(real \<Rightarrow> 'k \<Rightarrow> 'c \<Rightarrow> 'v option \<times> 'c) \<Rightarrow> (real \<Rightarrow> 'k \<Rightarrow> 'v \<Rightarrow> 'c \<Rightarrow> 'c) \<Rightarrow> ('k \<Rightarrow> 'c \<Rightarrow> 'c)
      \<Rightarrow> 'c \<Rightarrow> ('k, 'v) cache_op \<Rightarrow> 'c" where
  "cache_step get put forget c (Look t k) = snd (get t k c)"
| "cache_step get put forget c (Store t k v) = put t k v c"
| "cache_step get put forget c (Forget t k) = forget k c"

text \<open>Two views answer alike from a time on.\<close>

definition agrees :: "real \<Rightarrow> real \<Rightarrow> ('k \<Rightarrow> ('v \<times> real) option) \<Rightarrow> ('k \<Rightarrow> ('v \<times> real) option) \<Rightarrow> bool" where
  "agrees ttl t c l \<longleftrightarrow> (\<forall>k now. t \<le> now \<longrightarrow> fresh ttl now (c k) = fresh ttl now (l k))"

lemma fresh_None_later: "fresh ttl t e = None \<Longrightarrow> t \<le> t' \<Longrightarrow> fresh ttl t' e = None"
  by (cases e) (auto split: if_splits)

locale timed_cache =
  fixes get :: "real \<Rightarrow> 'k \<Rightarrow> 'c \<Rightarrow> 'v option \<times> 'c"
    and put :: "real \<Rightarrow> 'k \<Rightarrow> 'v \<Rightarrow> 'c \<Rightarrow> 'c"
    and forget :: "'k \<Rightarrow> 'c \<Rightarrow> 'c"
    and view :: "'c \<Rightarrow> 'k \<Rightarrow> ('v \<times> real) option"
    and init :: 'c
    and ttl :: real
  assumes view_init: "view init k = None"
    and get_fst: "fst (get now k c) = fresh ttl now (view c k)"
    and get_snd: "view (snd (get now k c)) k' =
      (if k' = k \<and> fresh ttl now (view c k) = None then None else view c k')"
    and put_view: "view (put now k v c) = (view c)(k \<mapsto> (v, now))"
    and forget_view: "view (forget k c) = (view c)(k := None)"
begin

lemma step_agrees: "agrees ttl t (view c) l \<Longrightarrow> t \<le> op_time e \<Longrightarrow>
   agrees ttl (op_time e) (view (cache_step get put forget c e)) (log_step l e)"
proof (cases e)
  case (Look t' k)
  assume a: "agrees ttl t (view c) l" and le: "t \<le> op_time e"
  have "fresh ttl now (view (snd (get t' k c)) k') = fresh ttl now (l k')" if "t' \<le> now" for k' now
  proof (cases "k' = k \<and> fresh ttl t' (view c k) = None")
    case True
    then have "fresh ttl t' (l k') = None" using a le Look by (simp add: agrees_def)
    with True that show ?thesis by (simp add: get_snd fresh_None_later)
  next
    case False
    then have "view (snd (get t' k c)) k' = view c k'" by (auto simp: get_snd)
    with a le Look that show ?thesis by (simp add: agrees_def)
  qed
  with Look show ?thesis by (simp add: agrees_def)
qed (auto simp: agrees_def put_view forget_view)

lemma run_agrees:
  "agrees ttl t (view c) l \<Longrightarrow> sorted (t # map op_time es) \<Longrightarrow>
   agrees ttl (last (t # map op_time es)) (view (foldl (cache_step get put forget) c es)) (foldl log_step l es)"
proof (induction es arbitrary: t c l)
  case (Cons e es)
  then have "agrees ttl (op_time e) (view (cache_step get put forget c e)) (log_step l e)" by (intro step_agrees) auto
  from Cons.IH[OF this] Cons.prems(2) show ?case by simp
qed simp

lemma refines_log:
  assumes "sorted (map op_time es @ [now])"
  shows "fst (get now k (foldl (cache_step get put forget) init es)) = fresh ttl now (write_log es k)"
proof (cases es)
  case Nil
  then show ?thesis by (simp add: get_fst view_init write_log_def)
next
  case (Cons e es')
  have "agrees ttl (op_time e) (view init) (\<lambda>_. None)" by (simp add: agrees_def view_init)
  then have "agrees ttl (last (op_time e # map op_time es)) (view (foldl (cache_step get put forget) init es)) (write_log es)"
    unfolding write_log_def by (rule run_agrees) (use assms Cons in \<open>auto simp: sorted_append\<close>)
  moreover have "last (op_time e # map op_time es) \<le> now"
    using assms Cons last_in_set[of "map op_time es"] by (force simp: sorted_append)
  ultimately show ?thesis by (simp add: get_fst agrees_def)
qed

lemma hit_after_store: "now - t \<le> ttl \<Longrightarrow> fst (get now k (put t k v c)) = Some v"
  by (simp add: get_fst put_view)

lemma miss_after_expiry: "ttl < now - t \<Longrightarrow> fst (get now k (put t k v c)) = None"
  by (simp add: get_fst put_view)

end

lemma ttl_timed_cache: "timed_cache (ttl_get ttl) ttl_put ttl_drop (\<lambda>c. c) (\<lambda>_. None) ttl"
proof (unfold_locales, goal_cases)
  case (2 now k c)
  show ?case by (auto simp: ttl_get_def fresh_def split: option.splits)
next
  case (3 now k c k')
  show ?case by (auto simp: ttl_get_def fresh_def split: option.splits)
qed (simp_all add: ttl_put_def ttl_drop_def)

end
