(* ===== verification/FundingStats.thy ===== *)
theory FundingStats
  imports RowTypes TtlCache "HOL-Library.AList"
begin

text \<open>
  Statistics of a leg's funding rate (\<open>core/spot_basis_runtime/funding_stats.py\<close>, with
  \<open>_percentile\<close> of \<open>history_logic.py\<close> and the 15-minute buckets of \<open>capital_snapshot.py\<close>): robust
  location and spread, the sign statistics, the base confidence, the bucketed history of the
  last three days with its forward fill, and the cache of the results. \<open>sqrt\<close> and \<open>exp\<close> are
  the exact functions; a rate is a real, so the NaN tests of the code hold of every rate.
\<close>

section \<open>Order statistics\<close>

definition percentile :: "real list \<Rightarrow> real \<Rightarrow> real" where
  "percentile xs q =
     (if xs = [] then 0
      else if length xs = 1 then xs ! 0
      else
        let pos = clampr q 0 1 * real (length xs - 1);
            lo = nat (py_trunc pos);
            hi = min (lo + 1) (length xs - 1);
            frac = pos - real lo
        in xs ! lo * (1 - frac) + xs ! hi * frac)"

definition median :: "real list \<Rightarrow> real" where
  "median vals =
     (if vals = [] then 0
      else
        let s = sort vals; n = length s; mid = n div 2
        in if n mod 2 = 1 then s ! mid else (s ! (mid - 1) + s ! mid) / 2)"

definition winsorize :: "real list \<Rightarrow> real \<Rightarrow> real \<Rightarrow> real list" where
  "winsorize vals lower_q upper_q =
     (if vals = [] then []
      else
        let s = sort vals; a = percentile s lower_q; b = percentile s upper_q;
            (lo, hi) = (if b < a then (b, a) else (a, b))
        in map (\<lambda>v. clampr v lo hi) vals)"

definition ewma_step :: "real \<Rightarrow> real \<times> real \<Rightarrow> real \<Rightarrow> real \<times> real" where
  "ewma_step alpha st v =
     (case st of (mean, var) \<Rightarrow>
       (alpha * v + (1 - alpha) * mean, alpha * (v - mean)\<^sup>2 + (1 - alpha) * var))"

definition ewma_mean_std :: "real list \<Rightarrow> real \<Rightarrow> real \<times> real" where
  "ewma_mean_std vals alpha =
     (case vals of
        [] \<Rightarrow> (0, 0)
      | v # rest \<Rightarrow>
          if rest = [] then (v, 0)
          else (case foldl (ewma_step alpha) (v, 0) rest of (mean, var) \<Rightarrow> (mean, sqrt (max var 0))))"

definition mad :: "real list \<Rightarrow> real \<Rightarrow> real" where
  "mad vals center = (if vals = [] then 0 else median (map (\<lambda>v. \<bar>v - center\<bar>) vals))"

section \<open>Stability of a series\<close>

text \<open>The sign changes of a series: zeros are skipped.\<close>

definition sign_of :: "real \<Rightarrow> int" where
  "sign_of v = (if v > 0 then 1 else if v < 0 then - 1 else 0)"

definition flip_step :: "nat \<times> nat \<times> int option \<Rightarrow> int \<Rightarrow> nat \<times> nat \<times> int option" where
  "flip_step st sg =
     (case st of (changes, pairs, prev) \<Rightarrow>
       if sg = 0 then (changes, pairs, prev)
       else (case prev of
           None \<Rightarrow> (changes, pairs, Some sg)
         | Some p \<Rightarrow> (if sg \<noteq> p then changes + 1 else changes, pairs + 1, Some sg)))"

definition flip_rate_of :: "real list \<Rightarrow> real" where
  "flip_rate_of vals =
     (case foldl flip_step (0, 0, None) (map sign_of vals) of (changes, pairs, prev) \<Rightarrow>
       if pairs > 0 then real changes / real pairs else 0)"

record funding_stats =
  fs_n_obs :: int
  fs_n_fill :: nat
  fs_fill_ratio :: real
  fs_mu :: real
  fs_mu_ewma :: real
  fs_sigma :: real
  fs_sigma_robust :: real
  fs_q10 :: real
  fs_p_pos :: real
  fs_flip_rate :: real
  fs_confidence_base :: real

definition no_funding_stats :: funding_stats where
  "no_funding_stats =
     \<lparr>fs_n_obs = 0, fs_n_fill = 0, fs_fill_ratio = 0, fs_mu = 0, fs_mu_ewma = 0, fs_sigma = 0,
      fs_sigma_robust = 0, fs_q10 = 0, fs_p_pos = 1 / 2, fs_flip_rate = 1 / 2, fs_confidence_base = 1 / 10\<rparr>"

definition usable_rate :: "real \<Rightarrow> bool" where
  "usable_rate v \<longleftrightarrow> \<bar>v\<bar> < 10 ^ 6"

definition sample_confidence :: "real \<Rightarrow> real" where
  "sample_confidence n = clampr (1 - exp (- n / 48)) 0 1"

definition confidence_base :: "real \<Rightarrow> real \<Rightarrow> real \<Rightarrow> real \<Rightarrow> real \<Rightarrow> real" where
  "confidence_base n p_pos flip_rate mu_ewma sigma_robust =
     clampr (10 / 100 + 22 / 100 * sample_confidence n
         + 26 / 100 * clampr ((p_pos - 45 / 100) / (55 / 100)) 0 1
         + 20 / 100 * clampr (1 - flip_rate / (55 / 100)) 0 1
         + 22 / 100 * clampr ((mu_ewma - 6 / 10 * sigma_robust + 1 / 100) / (18 / 100)) 0 1)
       (5 / 100) 1"

definition pick_sigma :: "real \<Rightarrow> real \<Rightarrow> real \<Rightarrow> real" where
  "pick_sigma sigma_mad sigma_ewma sigma =
     max 0 (if sigma_mad > 1 / 10 ^ 9 then sigma_mad else if sigma_ewma > 1 / 10 ^ 9 then sigma_ewma else sigma)"

definition compute_funding_stability :: "real list \<Rightarrow> int option \<Rightarrow> funding_stats" where
  "compute_funding_stability series n_obs =
     (let clean = filter usable_rate series; n_fill = length clean in
      if n_fill = 0 then no_funding_stats
      else
        let n_obs_eff = (case n_obs of None \<Rightarrow> int n_fill | Some n \<Rightarrow> max 0 (min n (int n_fill)));
            win = winsorize clean (1 / 10) (9 / 10);
            mu = sum_list clean / real n_fill;
            (mu_ewma, sigma_ewma) = ewma_mean_std win (22 / 100);
            sigma_mad = 14826 / 10000 * mad win (median win);
            sigma = sqrt (max (sum_list (map (\<lambda>v. (v - mu)\<^sup>2) clean) / real (max 1 n_fill)) 0);
            sigma_robust = pick_sigma sigma_mad sigma_ewma sigma;
            p_pos = real (length (filter (\<lambda>v. v > 0) clean)) / real n_fill;
            flip_rate = flip_rate_of clean
        in \<lparr>fs_n_obs = n_obs_eff, fs_n_fill = n_fill,
            fs_fill_ratio = (if n_obs_eff > 0 then py_round (real n_fill / of_int (max 1 n_obs_eff)) 6 else 0),
            fs_mu = py_round mu 6, fs_mu_ewma = py_round mu_ewma 6, fs_sigma = py_round sigma 6,
            fs_sigma_robust = py_round sigma_robust 6, fs_q10 = py_round (percentile (sort clean) (1 / 10)) 6,
            fs_p_pos = py_round p_pos 6, fs_flip_rate = py_round flip_rate 6,
            fs_confidence_base = py_round (confidence_base (of_int n_obs_eff) p_pos flip_rate mu_ewma sigma_robust) 6\<rparr>)"

section \<open>The history of a leg\<close>

text \<open>A row of \<open>funding_rates\<close>; times in UTC seconds, absent for NULL.\<close>

record funding_row =
  fr_exchange :: "int option"
  fr_symbol :: "string option"
  fr_rate :: fopt
  fr_time :: fopt

definition bucket_secs :: int where
  "bucket_secs = 15 * 60"

definition bucket_15m :: "real \<Rightarrow> int" where
  "bucket_15m t = (let sec = py_trunc t in sec - sec mod bucket_secs)"

definition of_leg :: "int \<Rightarrow> string \<Rightarrow> funding_row \<Rightarrow> bool" where
  "of_leg ex symbol r \<longleftrightarrow> fr_exchange r = Some ex \<and> fr_symbol r = Some symbol"

definition row_time :: "funding_row \<Rightarrow> real" where
  "row_time r = to_float (fr_time r) 0"

definition row_rate_pct :: "funding_row \<Rightarrow> real" where
  "row_rate_pct r = to_float (fr_rate r) 0 * 100"

definition window_rows :: "funding_row list \<Rightarrow> int \<Rightarrow> string \<Rightarrow> real \<Rightarrow> real \<Rightarrow> funding_row list" where
  "window_rows db ex symbol since now =
     sort_key row_time
       (filter (\<lambda>r. of_leg ex symbol r \<and> fr_time r \<noteq> None \<and> since \<le> row_time r \<and> row_time r \<le> now) db)"

definition previous_row :: "funding_row list \<Rightarrow> int \<Rightarrow> string \<Rightarrow> real \<Rightarrow> funding_row option" where
  "previous_row db ex symbol since =
     (case sort_desc row_time (filter (\<lambda>r. of_leg ex symbol r \<and> fr_time r \<noteq> None \<and> row_time r < since) db) of
        [] \<Rightarrow> None | r # _ \<Rightarrow> Some r)"

text \<open>\<open>by_bucket\<close>: the last row of a bucket wins; the keys keep the order of insertion.\<close>

definition by_bucket :: "funding_row list \<Rightarrow> (int \<times> real) list" where
  "by_bucket rows = foldl (\<lambda>m r. AList.update (bucket_15m (row_time r)) (row_rate_pct r) m) [] rows"

definition observed_rates :: "(int \<times> real) list \<Rightarrow> real list" where
  "observed_rates m = map (\<lambda>k. the (map_of m k)) (sort (map fst m))"

text \<open>The loop \<open>while b <= end_bucket\<close> of the forward fill.\<close>

function fill_loop :: "(int \<times> real) list \<Rightarrow> int \<Rightarrow> int \<Rightarrow> fopt \<Rightarrow> real list" where
  "fill_loop m b e cur =
     (if b > e then []
      else
        let cur' = (case map_of m b of Some r \<Rightarrow> Some r | None \<Rightarrow> cur)
        in (case cur' of Some r \<Rightarrow> if usable_rate r then [r] else [] | None \<Rightarrow> [])
           @ fill_loop m (b + bucket_secs) e cur')"
  by pat_completeness auto
termination by (relation "measure (\<lambda>(m, b, e, cur). nat (e + 1 - b))") (auto simp: bucket_secs_def)

declare fill_loop.simps [simp del]

text \<open>The rate the fill starts from: the row before the window if it is fresh, else the first bucket, else the current rate.\<close>

definition seed_rate :: "fopt \<Rightarrow> (int \<times> real) list \<Rightarrow> real \<Rightarrow> real" where
  "seed_rate fresh_prev m fallback =
     (case fresh_prev of
        Some r \<Rightarrow> r
      | None \<Rightarrow> if m = [] then fallback else the (map_of m (Min (set (map fst m)))))"

record leg_stats =
  ls_obs :: funding_stats
  ls_fill :: funding_stats
  ls_fill_enabled :: bool
  ls_seed_fresh :: bool
  ls_seed_gap :: fopt

definition window_days :: real where "window_days = 3"
definition fill_min_obs :: nat where "fill_min_obs = 8"
definition seed_max_age :: real where "seed_max_age = 24 * 3600"

definition filled_rates :: "(int \<times> real) list \<Rightarrow> real list \<Rightarrow> fopt \<Rightarrow> real \<Rightarrow> real \<Rightarrow> real \<Rightarrow> real list" where
  "filled_rates m observed fresh_prev since now fallback =
     (let filled =
        (if length observed \<ge> fill_min_obs then
           fill_loop m (bucket_15m since) (bucket_15m now) (Some (seed_rate fresh_prev m fallback))
         else if observed = [] then
           (case fresh_prev of Some r \<Rightarrow> if usable_rate r then [r] else [] | None \<Rightarrow> [])
         else observed)
      in if filled = [] then [fallback] else filled)"

definition leg_funding_stats :: "funding_row list \<Rightarrow> real \<Rightarrow> int \<Rightarrow> string \<Rightarrow> real \<Rightarrow> leg_stats" where
  "leg_funding_stats db now ex symbol fallback =
     (let since = now - window_days * 86400;
          prev = previous_row db ex symbol since;
          gap = map_option (\<lambda>r. pos_part (since - row_time r)) prev;
          prev_fresh = (case gap of None \<Rightarrow> False | Some g \<Rightarrow> g \<le> seed_max_age);
          fresh_prev = (if prev_fresh then map_option row_rate_pct prev else None);
          m = by_bucket (window_rows db ex symbol since now);
          observed = observed_rates m;
          n_obs = int (length observed)
      in \<lparr>ls_obs = compute_funding_stability observed (Some n_obs),
          ls_fill = compute_funding_stability (filled_rates m observed fresh_prev since now fallback) (Some n_obs),
          ls_fill_enabled = (length observed \<ge> fill_min_obs),
          ls_seed_fresh = prev_fresh,
          ls_seed_gap = map_option (\<lambda>g. py_round g 3) gap\<rparr>)"

section \<open>The cache\<close>

type_synonym stability_cache = "(int \<times> string, leg_stats) ttl_store"

definition funding_ttl :: real where "funding_ttl = 120"

definition get_cached_funding_stability :: "real \<Rightarrow> int \<times> string \<Rightarrow> stability_cache \<Rightarrow> leg_stats option \<times> stability_cache" where
  "get_cached_funding_stability now leg c = ttl_get funding_ttl now leg c"

definition set_cached_funding_stability :: "real \<Rightarrow> int \<times> string \<Rightarrow> leg_stats \<Rightarrow> stability_cache \<Rightarrow> stability_cache" where
  "set_cached_funding_stability now leg stats c = ttl_put now leg stats c"

definition load_funding_stability ::
    "funding_row list \<Rightarrow> real \<Rightarrow> int \<Rightarrow> string \<Rightarrow> real \<Rightarrow> stability_cache \<Rightarrow> leg_stats \<times> stability_cache" where
  "load_funding_stability db now ex symbol fallback c =
     (case get_cached_funding_stability now (ex, symbol) c of
        (Some st, c') \<Rightarrow> (st, c')
      | (None, c') \<Rightarrow>
          let st = leg_funding_stats db now ex symbol fallback
          in (st, set_cached_funding_stability now (ex, symbol) st c'))"

text \<open>
  \<open>_invalidate_funding_stability_cache_for_leg\<close> (\<open>fee_symbols.py\<close>): new history drops the
  cached statistics under every spelling of the symbol.
\<close>

definition invalidate_leg :: "int \<Rightarrow> string option \<Rightarrow> stability_cache \<Rightarrow> stability_cache" where
  "invalidate_leg ex symbol c =
     (let sym_text = py_strip (str_or_empty symbol) in
      if sym_text = [] then c
      else foldl (\<lambda>c k. if k = [] then c else ttl_drop (ex, k) c) c
             [sym_text, py_upper sym_text, normalize_symbol_key (Some sym_text)])"

section \<open>Order statistics stay within the data\<close>

lemma clampr_unit: "0 \<le> clampr v 0 1" "clampr v 0 1 \<le> 1"
  by (simp_all add: clampr_def)

lemma clampr_unit_mono: "v \<le> w \<Longrightarrow> clampr v 0 1 \<le> clampr w 0 1"
  by (auto simp: clampr_def)

lemma clampr_between: "a \<le> lo \<Longrightarrow> lo \<le> hi \<Longrightarrow> hi \<le> b \<Longrightarrow> a \<le> clampr v lo hi \<and> clampr v lo hi \<le> b"
  by (auto simp: clampr_def)

lemma unit_position: "0 \<le> clampr q 0 1 * real n" "clampr q 0 1 * real n \<le> real n"
  using clampr_unit[of q] by (simp_all add: mult_left_le_one_le)

lemma sort_nonempty: "xs \<noteq> [] \<Longrightarrow> sort xs \<noteq> []"
  by (metis set_empty set_sort)

lemma convex_between:
  fixes a b :: real
  assumes "a \<le> b" "0 \<le> f" "f \<le> 1"
  shows "a \<le> a * (1 - f) + b * f" "a * (1 - f) + b * f \<le> b"
proof -
  have "a * (1 - f) + b * f = a + (b - a) * f" by (simp add: algebra_simps)
  moreover have "0 \<le> (b - a) * f" "(b - a) * f \<le> b - a"
    using assms by (simp_all add: mult_left_le)
  ultimately show "a \<le> a * (1 - f) + b * f" "a * (1 - f) + b * f \<le> b" by linarith+
qed

text \<open>The interpolation between neighbours, at a position.\<close>

definition interpolate :: "real list \<Rightarrow> real \<Rightarrow> real" where
  "interpolate xs pos =
     (let lo = nat \<lfloor>pos\<rfloor>; frac = pos - real lo
      in xs ! lo * (1 - frac) + xs ! min (lo + 1) (length xs - 1) * frac)"

lemma percentile_interpolate:
  "length xs \<ge> 2 \<Longrightarrow> percentile xs q = interpolate xs (clampr q 0 1 * real (length xs - 1))"
  using unit_position(1)[of q "length xs - 1"]
  by (auto simp: percentile_def interpolate_def Let_def py_trunc_def)

lemma floor_position:
  assumes "0 \<le> pos" "pos \<le> real n"
  shows "nat \<lfloor>pos\<rfloor> \<le> n" "0 \<le> pos - real (nat \<lfloor>pos\<rfloor>)" "pos - real (nat \<lfloor>pos\<rfloor>) \<le> 1"
    "pos < real (nat \<lfloor>pos\<rfloor>) + 1"
  using assms by (auto simp: of_nat_nat le_floor_iff nat_le_iff floor_le_iff) linarith+

lemma interpolate_segment:
  assumes "sorted xs" "length xs \<ge> 2" "0 \<le> pos" "pos \<le> real (length xs - 1)"
  shows "xs ! nat \<lfloor>pos\<rfloor> \<le> interpolate xs pos"
    "interpolate xs pos \<le> xs ! min (nat \<lfloor>pos\<rfloor> + 1) (length xs - 1)"
proof -
  note fp = floor_position[OF assms(3,4)]
  have le: "xs ! nat \<lfloor>pos\<rfloor> \<le> xs ! min (nat \<lfloor>pos\<rfloor> + 1) (length xs - 1)"
    using assms(1,2) fp(1) by (intro sorted_nth_mono) auto
  show "xs ! nat \<lfloor>pos\<rfloor> \<le> interpolate xs pos"
    "interpolate xs pos \<le> xs ! min (nat \<lfloor>pos\<rfloor> + 1) (length xs - 1)"
    unfolding interpolate_def Let_def using convex_between[OF le fp(2,3)] by simp_all
qed

lemma interpolate_mono:
  assumes "sorted xs" "length xs \<ge> 2" "0 \<le> p" "p \<le> p'" "p' \<le> real (length xs - 1)"
  shows "interpolate xs p \<le> interpolate xs p'"
proof (cases "nat \<lfloor>p\<rfloor> = nat \<lfloor>p'\<rfloor>")
  case True
  let ?a = "xs ! nat \<lfloor>p\<rfloor>" and ?b = "xs ! min (nat \<lfloor>p\<rfloor> + 1) (length xs - 1)"
  have "?a \<le> ?b" using assms floor_position(1)[of p "length xs - 1"] by (intro sorted_nth_mono) auto
  then have "(?b - ?a) * (p - real (nat \<lfloor>p\<rfloor>)) \<le> (?b - ?a) * (p' - real (nat \<lfloor>p\<rfloor>))"
    using assms(4) by (intro mult_left_mono) auto
  then show ?thesis by (simp add: interpolate_def Let_def True algebra_simps)
next
  case False
  have "nat \<lfloor>p\<rfloor> \<le> nat \<lfloor>p'\<rfloor>" using assms(4) by (intro nat_mono floor_mono)
  with False have lt: "nat \<lfloor>p\<rfloor> + 1 \<le> nat \<lfloor>p'\<rfloor>" by simp
  have up: "nat \<lfloor>p'\<rfloor> \<le> length xs - 1" using assms by (intro floor_position(1)) auto
  have "interpolate xs p \<le> xs ! min (nat \<lfloor>p\<rfloor> + 1) (length xs - 1)"
    using assms by (intro interpolate_segment(2)) auto
  also have "\<dots> \<le> xs ! nat \<lfloor>p'\<rfloor>"
    using lt up assms(1,2) by (intro sorted_nth_mono) auto
  also have "\<dots> \<le> interpolate xs p'"
    using assms by (intro interpolate_segment(1)) auto
  finally show ?thesis .
qed

lemma percentile_mono:
  assumes "sorted xs" "q \<le> q'" shows "percentile xs q \<le> percentile xs q'"
proof (cases "length xs \<ge> 2")
  case True
  have "interpolate xs (clampr q 0 1 * real (length xs - 1)) \<le> interpolate xs (clampr q' 0 1 * real (length xs - 1))"
    using assms True unit_position(1)[of q "length xs - 1"] unit_position(2)[of q' "length xs - 1"]
    by (intro interpolate_mono mult_right_mono clampr_unit_mono of_nat_0_le_iff)
  with True show ?thesis by (simp add: percentile_interpolate)
next
  case False
  then have "xs = [] \<or> length xs = 1" by (cases xs) (auto simp: Suc_le_eq)
  then show ?thesis by (auto simp: percentile_def)
qed

lemma percentile_between:
  assumes "sorted xs" "xs \<noteq> []" "\<And>x. x \<in> set xs \<Longrightarrow> a \<le> x \<and> x \<le> b"
  shows "a \<le> percentile xs q \<and> percentile xs q \<le> b"
proof (cases "length xs \<ge> 2")
  case True
  let ?p = "clampr q 0 1 * real (length xs - 1)"
  note p = unit_position[of q "length xs - 1"]
  have "nat \<lfloor>?p\<rfloor> < length xs" "min (nat \<lfloor>?p\<rfloor> + 1) (length xs - 1) < length xs"
    using floor_position(1)[OF p] True by auto
  with interpolate_segment[OF assms(1) True p] assms(3) nth_mem show ?thesis
    unfolding percentile_interpolate[OF True] by (meson order_trans)
next
  case False
  with assms(2) obtain x where "xs = [x]" by (cases xs; cases "tl xs") auto
  with assms(3) show ?thesis by (simp add: percentile_def)
qed

lemma median_between:
  assumes "vals \<noteq> []" "\<And>x. x \<in> set vals \<Longrightarrow> a \<le> x \<and> x \<le> b"
  shows "a \<le> median vals \<and> median vals \<le> b"
proof -
  let ?s = "sort vals"
  have s: "a \<le> ?s ! i \<and> ?s ! i \<le> b" if "i < length vals" for i
    using assms(2) that nth_mem[of i ?s] by simp
  have "0 < length vals" using assms(1) by simp
  then have "length vals div 2 < length vals" "length vals div 2 - 1 < length vals" by linarith+
  with s[of "length vals div 2"] s[of "length vals div 2 - 1"] assms(1) show ?thesis
    by (auto simp: median_def Let_def)
qed

lemma winsorize_no_swap:
  "vals \<noteq> [] \<Longrightarrow> p \<le> q \<Longrightarrow>
   winsorize vals p q = map (\<lambda>v. clampr v (percentile (sort vals) p) (percentile (sort vals) q)) vals"
  using percentile_mono[of "sort vals" p q] by (simp add: winsorize_def Let_def)

lemma winsorize_between:
  assumes "p \<le> q" "\<And>x. x \<in> set vals \<Longrightarrow> a \<le> x \<and> x \<le> b" "y \<in> set (winsorize vals p q)"
  shows "a \<le> y \<and> y \<le> b"
proof -
  have ne: "vals \<noteq> []" using assms(3) by (auto simp: winsorize_def)
  have "a \<le> percentile (sort vals) r \<and> percentile (sort vals) r \<le> b" for r
    using ne assms(2) by (intro percentile_between) (auto simp: sort_nonempty)
  moreover have "percentile (sort vals) p \<le> percentile (sort vals) q"
    using assms(1) by (intro percentile_mono) auto
  moreover obtain v where "y = clampr v (percentile (sort vals) p) (percentile (sort vals) q)"
    using assms(1,3) ne by (auto simp: winsorize_no_swap)
  ultimately show ?thesis using clampr_between[of a "percentile (sort vals) p" "percentile (sort vals) q" b v] by metis
qed

lemma winsorize_Nil [simp]: "winsorize vals p q = [] \<longleftrightarrow> vals = []"
  by (simp add: winsorize_def Let_def split: prod.split)

section \<open>Bounds of the statistics\<close>

lemma ewma_between:
  assumes "0 \<le> al" "al \<le> 1" "\<And>v. v \<in> set vs \<Longrightarrow> a \<le> v \<and> v \<le> b" "a \<le> m" "m \<le> b"
  shows "a \<le> fst (foldl (ewma_step al) (m, s) vs) \<and> fst (foldl (ewma_step al) (m, s) vs) \<le> b"
  using assms(3-5)
proof (induction vs arbitrary: m s)
  case (Cons v vs)
  let ?m = "al * v + (1 - al) * m"
  have v: "a \<le> v" "v \<le> b" using Cons.prems(1) by auto
  have "?m - a = al * (v - a) + (1 - al) * (m - a)" "b - ?m = al * (b - v) + (1 - al) * (b - m)"
    by (simp_all add: algebra_simps)
  then have "0 \<le> ?m - a" "0 \<le> b - ?m" using assms(1,2) v Cons.prems(2,3) by simp_all
  then have "a \<le> ?m" "?m \<le> b" by linarith+
  with Cons.IH[of ?m "al * (v - m)\<^sup>2 + (1 - al) * s"] Cons.prems(1) show ?case by (simp add: ewma_step_def)
qed simp

lemma ewma_mean_between:
  assumes "0 \<le> al" "al \<le> 1" "vs \<noteq> []" "\<And>v. v \<in> set vs \<Longrightarrow> a \<le> v \<and> v \<le> b"
  shows "a \<le> fst (ewma_mean_std vs al) \<and> fst (ewma_mean_std vs al) \<le> b"
proof (cases vs)
  case (Cons v rest)
  from assms(4) Cons have "\<And>w. w \<in> set rest \<Longrightarrow> a \<le> w \<and> w \<le> b" "a \<le> v" "v \<le> b" by auto
  then have "a \<le> fst (foldl (ewma_step al) (v, 0) rest) \<and> fst (foldl (ewma_step al) (v, 0) rest) \<le> b"
    by (intro ewma_between[OF assms(1,2)]) auto
  with \<open>a \<le> v\<close> \<open>v \<le> b\<close> show ?thesis
    by (cases "foldl (ewma_step al) (v, 0) rest") (auto simp: ewma_mean_std_def Cons)
qed (use assms(3) in simp)

lemma sum_list_between:
  fixes xs :: "real list"
  assumes "\<And>x. x \<in> set xs \<Longrightarrow> a \<le> x \<and> x \<le> b"
  shows "real (length xs) * a \<le> sum_list xs \<and> sum_list xs \<le> real (length xs) * b"
  using assms by (induction xs) (force simp: algebra_simps)+

lemma mean_between:
  fixes xs :: "real list"
  assumes "xs \<noteq> []" "\<And>x. x \<in> set xs \<Longrightarrow> a \<le> x \<and> x \<le> b"
  shows "a \<le> sum_list xs / real (length xs) \<and> sum_list xs / real (length xs) \<le> b"
  using sum_list_between[OF assms(2)] assms(1)
  by (auto simp: field_simps)

text \<open>Every transition is counted once, every change is a transition.\<close>

lemma flip_step_counts:
  "changes \<le> pairs \<Longrightarrow> flip_step (changes, pairs, p) sg = (c', n', p') \<Longrightarrow> c' \<le> n'"
  by (auto simp: flip_step_def split: if_splits option.splits)

lemma flip_counts:
  "changes \<le> pairs \<Longrightarrow> foldl flip_step (changes, pairs, p) sgs = (c', n', p') \<Longrightarrow> c' \<le> n'"
proof (induction sgs arbitrary: changes pairs p)
  case (Cons sg sgs)
  obtain c1 n1 p1 where s: "flip_step (changes, pairs, p) sg = (c1, n1, p1)" by (cases "flip_step (changes, pairs, p) sg")
  with Cons show ?case using flip_step_counts[OF Cons.prems(1) s] by simp
qed simp

lemma flip_rate_unit: "0 \<le> flip_rate_of vals \<and> flip_rate_of vals \<le> 1"
  using flip_counts[of 0 0 None "map sign_of vals"]
  by (auto simp: flip_rate_of_def field_simps split: prod.splits)

lemma confidence_base_bounds: "1 / 20 \<le> confidence_base n p f m s \<and> confidence_base n p f m s \<le> 1"
  unfolding confidence_base_def by (auto simp: clampr_def)

lemma pick_sigma_nonneg: "0 \<le> pick_sigma a b c"
  by (simp add: pick_sigma_def)

lemma py_round_unit: "0 \<le> x \<Longrightarrow> x \<le> 1 \<Longrightarrow> 0 \<le> py_round x n \<and> py_round x n \<le> 1"
  using py_round_mono[of 0 x n] py_round_mono[of x 1 n] by simp

lemma py_round_twentieth: "py_round (1 / 20) 6 = 1 / 20"
proof -
  have "(1 / 20 :: real) * 10 ^ 6 = of_int 50000" by simp
  then have "round_half_even (1 / 20 * 10 ^ 6) = 50000" by (metis round_half_even_of_int)
  then show ?thesis by (simp add: py_round_def)
qed

lemma confidence_round_bounds:
  "1 / 20 \<le> py_round (confidence_base n p f m s) 6" "py_round (confidence_base n p f m s) 6 \<le> 1"
  using confidence_base_bounds[of n p f m s] py_round_mono[of "1 / 20" _ 6] py_round_mono[of _ 1 6]
  by (force simp: py_round_twentieth)+

lemma filter_ratio_unit: "xs \<noteq> [] \<Longrightarrow> 0 \<le> real (length (filter P xs)) / real (length xs) \<and> real (length (filter P xs)) / real (length xs) \<le> 1"
  by (simp add: divide_le_eq_1)

text \<open>The fields of the report, one by one, for a series with a usable rate.\<close>

lemma stability_fields:
  fixes n_obs :: "int option"
  assumes "filter usable_rate series \<noteq> []"
  defines "clean \<equiv> filter usable_rate series"
  defines "st \<equiv> compute_funding_stability series n_obs"
  shows "fs_n_fill st = length clean"
    "fs_n_obs st = (case n_obs of None \<Rightarrow> int (length clean) | Some n \<Rightarrow> max 0 (min n (int (length clean))))"
    "fs_mu st = py_round (sum_list clean / real (length clean)) 6"
    "fs_mu_ewma st = py_round (fst (ewma_mean_std (winsorize clean (1 / 10) (9 / 10)) (22 / 100))) 6"
    "fs_q10 st = py_round (percentile (sort clean) (1 / 10)) 6"
    "fs_p_pos st = py_round (real (length (filter (\<lambda>v. v > 0) clean)) / real (length clean)) 6"
    "fs_flip_rate st = py_round (flip_rate_of clean) 6"
    "\<exists>v \<ge> 0. fs_sigma st = py_round (sqrt v) 6"
    "\<exists>a b c. fs_sigma_robust st = py_round (pick_sigma a b c) 6"
    "1 / 20 \<le> fs_confidence_base st \<and> fs_confidence_base st \<le> 1"
proof -
  note d = assms(1) st_def clean_def compute_funding_stability_def Let_def
  show "fs_n_fill st = length clean"
    "fs_n_obs st = (case n_obs of None \<Rightarrow> int (length clean) | Some n \<Rightarrow> max 0 (min n (int (length clean))))"
    "fs_mu st = py_round (sum_list clean / real (length clean)) 6"
    "fs_mu_ewma st = py_round (fst (ewma_mean_std (winsorize clean (1 / 10) (9 / 10)) (22 / 100))) 6"
    "fs_q10 st = py_round (percentile (sort clean) (1 / 10)) 6"
    "fs_p_pos st = py_round (real (length (filter (\<lambda>v. v > 0) clean)) / real (length clean)) 6"
    "fs_flip_rate st = py_round (flip_rate_of clean) 6"
    by (simp_all add: d split: prod.split option.split)
  show "\<exists>v \<ge> 0. fs_sigma st = py_round (sqrt v) 6"
    by (rule exI[of _ "max (sum_list (map (\<lambda>v. (v - sum_list clean / real (length clean))\<^sup>2) clean) / real (max 1 (length clean))) 0"])
      (simp add: d split: prod.split)
  show "\<exists>a b c. fs_sigma_robust st = py_round (pick_sigma a b c) 6"
    by (cases "ewma_mean_std (winsorize clean (1 / 10) (9 / 10)) (22 / 100)") (auto simp: d)
  obtain m s where ms: "ewma_mean_std (winsorize (filter usable_rate series) (1 / 10) (9 / 10)) (22 / 100) = (m, s)"
    by (cases "ewma_mean_std (winsorize (filter usable_rate series) (1 / 10) (9 / 10)) (22 / 100)")
  show "1 / 20 \<le> fs_confidence_base st \<and> fs_confidence_base st \<le> 1"
    unfolding st_def compute_funding_stability_def Let_def ms using assms(1) confidence_round_bounds by simp
qed

lemma no_usable_stats: "filter usable_rate series = [] \<Longrightarrow> compute_funding_stability series n_obs = no_funding_stats"
  by (simp add: compute_funding_stability_def)

text \<open>
  The statistics of a leg are sane. For every series with a usable rate, rates between
  \<open>lo\<close> and \<open>hi\<close>: the mean, the exponentially weighted mean and the lower decile lie between the
  rounded \<open>lo\<close> and \<open>hi\<close>, the shares lie in the unit interval, the spreads are not negative, the
  base confidence lies between 0.05 and 1, and at most as many observations are reported as
  rates were usable.
\<close>

theorem funding_statistics_sane:
  assumes "filter usable_rate series \<noteq> []"
    and "\<And>v. v \<in> set (filter usable_rate series) \<Longrightarrow> lo \<le> v \<and> v \<le> hi"
  shows "let st = compute_funding_stability series n_obs; inside = (\<lambda>x. py_round lo 6 \<le> x \<and> x \<le> py_round hi 6) in
    inside (fs_mu st) \<and> inside (fs_mu_ewma st) \<and> inside (fs_q10 st)
    \<and> 0 \<le> fs_p_pos st \<and> fs_p_pos st \<le> 1 \<and> 0 \<le> fs_flip_rate st \<and> fs_flip_rate st \<le> 1
    \<and> 0 \<le> fs_sigma st \<and> 0 \<le> fs_sigma_robust st
    \<and> 1 / 20 \<le> fs_confidence_base st \<and> fs_confidence_base st \<le> 1
    \<and> 0 \<le> fs_n_obs st \<and> fs_n_obs st \<le> int (fs_n_fill st)
    \<and> fs_n_fill st = length (filter usable_rate series)"
proof -
  let ?clean = "filter usable_rate series"
  let ?st = "compute_funding_stability series n_obs"
  note f = stability_fields[OF assms(1), of n_obs]
  have win: "v \<in> set (winsorize ?clean (1 / 10) (9 / 10)) \<Longrightarrow> lo \<le> v \<and> v \<le> hi" for v
    by (rule winsorize_between[of "1 / 10" "9 / 10" ?clean lo hi]) (use assms(2) in auto)
  have "lo \<le> fst (ewma_mean_std (winsorize ?clean (1 / 10) (9 / 10)) (22 / 100))
      \<and> fst (ewma_mean_std (winsorize ?clean (1 / 10) (9 / 10)) (22 / 100)) \<le> hi"
    using win assms(1) by (intro ewma_mean_between) auto
  moreover have "lo \<le> percentile (sort ?clean) (1 / 10) \<and> percentile (sort ?clean) (1 / 10) \<le> hi"
    using assms by (intro percentile_between) (auto simp: sort_nonempty)
  moreover have "lo \<le> sum_list ?clean / real (length ?clean) \<and> sum_list ?clean / real (length ?clean) \<le> hi"
    using assms by (intro mean_between)
  ultimately have inside: "py_round lo 6 \<le> fs_mu ?st \<and> fs_mu ?st \<le> py_round hi 6"
    "py_round lo 6 \<le> fs_mu_ewma ?st \<and> fs_mu_ewma ?st \<le> py_round hi 6"
    "py_round lo 6 \<le> fs_q10 ?st \<and> fs_q10 ?st \<le> py_round hi 6"
    unfolding f(3-5) by (blast intro: py_round_mono)+
  have shares: "0 \<le> fs_p_pos ?st \<and> fs_p_pos ?st \<le> 1" "0 \<le> fs_flip_rate ?st \<and> fs_flip_rate ?st \<le> 1"
    unfolding f(6,7) using filter_ratio_unit[OF assms(1), of "\<lambda>v. v > 0"] flip_rate_unit[of ?clean]
    by (simp_all only: py_round_unit)
  have spreads: "0 \<le> fs_sigma ?st" "0 \<le> fs_sigma_robust ?st"
    using f(8,9) by (auto simp: py_round_nonneg pick_sigma_nonneg)
  have conf: "1 / 20 \<le> fs_confidence_base ?st \<and> fs_confidence_base ?st \<le> 1" by (rule f(10))
  have "0 \<le> fs_n_obs ?st" "fs_n_obs ?st \<le> int (fs_n_fill ?st)"
    unfolding f(1,2) by (auto split: option.split)
  with inside shares spreads conf f(1) show ?thesis by (simp add: Let_def)
qed

theorem funding_statistics_sane_witness:
  "let st = compute_funding_stability [1, 2, - 1, 10 ^ 7] (Some 3) in
    - 1 \<le> fs_mu st \<and> fs_mu st \<le> 2 \<and> fs_confidence_base st \<le> 1 \<and> fs_n_fill st = 3"
proof -
  have s: "filter usable_rate [1, 2, - 1, 10 ^ 7] = [1, 2, - 1]" by (simp add: usable_rate_def)
  have "filter usable_rate [1, 2, - 1, 10 ^ 7] \<noteq> []" unfolding s by simp
  moreover have "\<And>v. v \<in> set (filter usable_rate [1, 2, - 1, 10 ^ 7]) \<Longrightarrow> - 1 \<le> v \<and> v \<le> 2" unfolding s by auto
  ultimately show ?thesis
    using funding_statistics_sane[of "[1, 2, - 1, 10 ^ 7]" "- 1" 2 "Some 3"]
      py_round_of_int[of "- 1" 6] unfolding s by (simp add: Let_def)
qed

section \<open>The forward fill\<close>

text \<open>The buckets of a window, and what was last known at a bucket.\<close>

definition buckets :: "int \<Rightarrow> int \<Rightarrow> int list" where
  "buckets b e = map (\<lambda>i. b + bucket_secs * int i) [0..<nat ((e - b) div bucket_secs + 1)]"

definition last_known :: "(int \<times> real) list \<Rightarrow> real \<Rightarrow> int \<Rightarrow> int \<Rightarrow> real" where
  "last_known m seed start x =
     (let ks = {k \<in> fst ` set m. start \<le> k \<and> k \<le> x} in if ks = {} then seed else the (map_of m (Max ks)))"

lemma buckets_Nil [simp]: "e < b \<Longrightarrow> buckets b e = []"
proof -
  assume "e < b"
  then have "(e - b) div bucket_secs < 0" by (simp add: bucket_secs_def)
  then show ?thesis by (simp add: buckets_def)
qed

lemma buckets_Cons: "b \<le> e \<Longrightarrow> buckets b e = b # buckets (b + bucket_secs) e"
proof -
  assume "b \<le> e"
  then have "0 \<le> (e - b) div bucket_secs" by (simp add: bucket_secs_def pos_imp_zdiv_nonneg_iff)
  moreover have "(e - (b + bucket_secs)) div bucket_secs + 1 = (e - b) div bucket_secs"
    by (simp add: bucket_secs_def)
  ultimately have "nat ((e - b) div bucket_secs + 1) = Suc (nat ((e - (b + bucket_secs)) div bucket_secs + 1))" by simp
  then show ?thesis by (simp add: buckets_def upt_conv_Cons map_Suc_upt[symmetric] algebra_simps del: upt_Suc)
qed

lemma aligned_gap: "bucket_secs dvd k \<Longrightarrow> bucket_secs dvd b \<Longrightarrow> k \<le> b + bucket_secs - 1 \<Longrightarrow> k \<le> (b :: int)"
  by (auto simp: bucket_secs_def elim!: dvdE)

lemma last_known_hit:
  assumes "map_of m b = Some r" "start \<le> b" shows "last_known m seed start b = r"
proof -
  let ?ks = "{k \<in> fst ` set m. start \<le> k \<and> k \<le> b}"
  have "b \<in> ?ks" using assms map_of_SomeD by force
  moreover from this have "Max ?ks = b" by (intro Max_eqI) auto
  ultimately show ?thesis using assms(1) by (auto simp: last_known_def Let_def)
qed

lemma last_known_cong:
  assumes "\<And>k. k \<in> fst ` set m \<Longrightarrow> start \<le> k \<Longrightarrow> k \<le> x \<longleftrightarrow> k \<le> y"
  shows "last_known m seed start x = last_known m seed start y"
proof -
  have "{k \<in> fst ` set m. start \<le> k \<and> k \<le> x} = {k \<in> fst ` set m. start \<le> k \<and> k \<le> y}" using assms by blast
  then show ?thesis by (simp only: last_known_def)
qed

lemma last_known_usable:
  assumes "\<And>k r. map_of m k = Some r \<Longrightarrow> usable_rate r" "usable_rate seed"
  shows "usable_rate (last_known m seed start x)"
proof (cases "{k \<in> fst ` set m. start \<le> k \<and> k \<le> x} = {}")
  case False
  then have "Max {k \<in> fst ` set m. start \<le> k \<and> k \<le> x} \<in> fst ` set m"
    using Max_in[of "{k \<in> fst ` set m. start \<le> k \<and> k \<le> x}"] by auto
  then obtain r where "map_of m (Max {k \<in> fst ` set m. start \<le> k \<and> k \<le> x}) = Some r"
    by (metis map_of_eq_None_iff not_None_eq)
  with assms(1) False show ?thesis by (auto simp: last_known_def Let_def)
qed (use assms(2) in \<open>simp add: last_known_def\<close>)

lemma fill_loop_last_known:
  assumes "\<And>k. k \<in> fst ` set m \<Longrightarrow> bucket_secs dvd k"
    and "\<And>k r. map_of m k = Some r \<Longrightarrow> usable_rate r" "usable_rate seed"
  shows "bucket_secs dvd b \<Longrightarrow> start \<le> b \<Longrightarrow> cur = Some (last_known m seed start (b - 1)) \<Longrightarrow>
    fill_loop m b e cur = map (last_known m seed start) (buckets b e)"
  using assms
proof (induction m b e cur rule: fill_loop.induct)
  case (1 m b e cur)
  show ?case
  proof (cases "b > e")
    case True
    then show ?thesis by (simp add: fill_loop.simps[of m b])
  next
    case False
    define cur' where "cur' = (case map_of m b of Some r \<Rightarrow> Some r | None \<Rightarrow> cur)"
    have here: "cur' = Some (last_known m seed start b)"
    proof (cases "map_of m b")
      case None
      then have "b \<notin> fst ` set m" by (simp add: map_of_eq_None_iff)
      then have "last_known m seed start (b - 1) = last_known m seed start b"
        by (intro last_known_cong) (metis zle_diff1_eq order_le_less)
      with None "1.prems"(3) show ?thesis by (simp add: cur'_def)
    next
      case (Some r)
      with last_known_hit[OF Some "1.prems"(2)] show ?thesis by (simp add: cur'_def)
    qed
    have "last_known m seed start b = last_known m seed start (b + bucket_secs - 1)"
      using aligned_gap[OF _ "1.prems"(1)] "1.prems"(4)
      by (intro last_known_cong) (auto simp: bucket_secs_def)
    then have next_cur: "cur' = Some (last_known m seed start (b + bucket_secs - 1))" using here by simp
    have rest: "fill_loop m (b + bucket_secs) e cur' = map (last_known m seed start) (buckets (b + bucket_secs) e)"
      using "1.prems"(1,2,4-6) False next_cur
      by (intro "1.IH"[OF _ cur'_def]) (auto simp: bucket_secs_def)
    have "usable_rate (last_known m seed start b)" using "1.prems"(5,6) by (rule last_known_usable)
    with rest here False show ?thesis
      by (simp add: fill_loop.simps[of m b] buckets_Cons cur'_def[symmetric] Let_def)
  qed
qed

lemma py_trunc_mono: "x \<le> y \<Longrightarrow> py_trunc x \<le> py_trunc y"
proof -
  assume "x \<le> y"
  moreover have "\<lceil>x\<rceil> \<le> \<lfloor>y\<rfloor>" if "x < 0" "0 \<le> y"
  proof -
    from that have "\<lceil>x\<rceil> \<le> 0" "0 \<le> \<lfloor>y\<rfloor>" by simp_all
    then show ?thesis by linarith
  qed
  ultimately show ?thesis by (auto simp: py_trunc_def intro: floor_mono ceiling_mono)
qed

lemma bucket_dvd [simp]: "bucket_secs dvd bucket_15m t"
  by (simp add: bucket_15m_def Let_def bucket_secs_def)

lemma bucket_mono: "s \<le> t \<Longrightarrow> bucket_15m s \<le> bucket_15m t"
proof -
  have q: "bucket_15m x = bucket_secs * (py_trunc x div bucket_secs)" for x
    by (simp add: bucket_15m_def Let_def minus_mod_eq_mult_div)
  assume "s \<le> t"
  then have "py_trunc s div bucket_secs \<le> py_trunc t div bucket_secs"
    by (intro zdiv_mono1 py_trunc_mono) (simp_all add: bucket_secs_def)
  then show ?thesis unfolding q by (simp add: bucket_secs_def)
qed

lemma by_bucket_keys: "fst ` set (by_bucket rows) = (\<lambda>r. bucket_15m (row_time r)) ` set rows"
proof -
  have "fst ` set (foldl (\<lambda>m r. AList.update (bucket_15m (row_time r)) (row_rate_pct r) m) m rows)
      = fst ` set m \<union> (\<lambda>r. bucket_15m (row_time r)) ` set rows" for m
    by (induction rows arbitrary: m) (auto simp: dom_update)
  then show ?thesis by (simp add: by_bucket_def)
qed

lemma by_bucket_rates: "map_of (by_bucket rows) k = Some v \<Longrightarrow> v \<in> row_rate_pct ` set rows"
proof -
  have "map_of (foldl (\<lambda>m r. AList.update (bucket_15m (row_time r)) (row_rate_pct r) m) m rows) k = Some v \<Longrightarrow>
      v \<in> row_rate_pct ` set rows \<or> map_of m k = Some v" for m
    by (induction rows arbitrary: m) (fastforce simp: update_conv' split: if_splits)+
  from this[of "[]"] show "map_of (by_bucket rows) k = Some v \<Longrightarrow> v \<in> row_rate_pct ` set rows"
    by (simp add: by_bucket_def)
qed

lemma observed_rates_length: "length (observed_rates m) = length m"
  by (simp add: observed_rates_def)

lemma last_known_before: "last_known m seed start (start - 1) = seed"
proof -
  have none: "{k \<in> fst ` set m. start \<le> k \<and> k \<le> start - 1} = {}" by auto
  show ?thesis unfolding last_known_def none by simp
qed

text \<open>
  C26: the forward fill reports the last observation. When enough buckets of the window were
  observed, the filled series has one rate for every bucket from the first to the last of the
  window, and each is the rate of the latest observed bucket up to it, or the seed before the
  first observation (for rates the filter does not reject).
\<close>

theorem forward_fill_is_last_observation:
  assumes "fill_min_obs \<le> length (by_bucket rows)"
    and "\<And>r. r \<in> set rows \<Longrightarrow> usable_rate (row_rate_pct r)"
    and "usable_rate (seed_rate prev (by_bucket rows) fallback)" "since \<le> now"
  shows "filled_rates (by_bucket rows) (observed_rates (by_bucket rows)) prev since now fallback
    = map (last_known (by_bucket rows) (seed_rate prev (by_bucket rows) fallback) (bucket_15m since))
        (buckets (bucket_15m since) (bucket_15m now))"
proof -
  let ?m = "by_bucket rows" and ?s = "seed_rate prev (by_bucket rows) fallback" and ?b = "bucket_15m since"
  have "fill_loop ?m ?b (bucket_15m now) (Some ?s) = map (last_known ?m ?s ?b) (buckets ?b (bucket_15m now))"
  proof (rule fill_loop_last_known)
    show "\<And>k. k \<in> fst ` set ?m \<Longrightarrow> bucket_secs dvd k" by (auto simp: by_bucket_keys)
    show "\<And>k r. map_of ?m k = Some r \<Longrightarrow> usable_rate r" using assms(2) by_bucket_rates by blast
    show "Some ?s = Some (last_known ?m ?s ?b (?b - 1))" by (simp add: last_known_before)
  qed (use assms in auto)
  moreover have "buckets ?b (bucket_15m now) \<noteq> []"
    using bucket_mono[OF assms(4)] by (simp add: buckets_Cons)
  ultimately show ?thesis using assms(1) by (simp add: filled_rates_def observed_rates_length)
qed

definition quarter_rows :: "funding_row list" where
  "quarter_rows = map (\<lambda>t. \<lparr>fr_exchange = Some 1, fr_symbol = Some ''A'', fr_rate = Some t, fr_time = Some (900 * t)\<rparr>)
     [0, 1, 2, 3, 5, 6, 7, 8]"

lemma quarter_buckets:
  "by_bucket quarter_rows = [(0, 0), (900, 100), (1800, 200), (2700, 300), (4500, 500), (5400, 600), (6300, 700), (7200, 800)]"
  by (simp add: by_bucket_def quarter_rows_def bucket_15m_def py_trunc_def bucket_secs_def row_time_def row_rate_pct_def)

theorem forward_fill_is_last_observation_witness:
  "last_known (by_bucket quarter_rows) 7 0 3600 = 300
   \<and> filled_rates (by_bucket quarter_rows) (observed_rates (by_bucket quarter_rows)) (Some 7) 0 8100 0
    = map (last_known (by_bucket quarter_rows) 7 0) (buckets 0 8100)"
proof -
  have b: "bucket_15m 0 = 0" "bucket_15m 8100 = 8100" by (simp_all add: bucket_15m_def py_trunc_def bucket_secs_def)
  have "fill_min_obs \<le> length (by_bucket quarter_rows)" by (simp add: quarter_buckets fill_min_obs_def)
  moreover have "\<And>r. r \<in> set quarter_rows \<Longrightarrow> usable_rate (row_rate_pct r)"
    by (auto simp: quarter_rows_def usable_rate_def row_rate_pct_def)
  moreover have "usable_rate (seed_rate (Some 7) (by_bucket quarter_rows) 0)"
    by (simp add: seed_rate_def usable_rate_def)
  ultimately have "filled_rates (by_bucket quarter_rows) (observed_rates (by_bucket quarter_rows)) (Some 7) 0 8100 0
      = map (last_known (by_bucket quarter_rows) (seed_rate (Some 7) (by_bucket quarter_rows) 0) (bucket_15m 0))
          (buckets (bucket_15m 0) (bucket_15m 8100))"
    by (rule forward_fill_is_last_observation) auto
  then have "filled_rates (by_bucket quarter_rows) (observed_rates (by_bucket quarter_rows)) (Some 7) 0 8100 0
      = map (last_known (by_bucket quarter_rows) 7 0) (buckets 0 8100)"
    unfolding b by (simp add: seed_rate_def)
  moreover have "last_known (by_bucket quarter_rows) 7 0 3600 = 300"
  proof -
    have "last_known (by_bucket quarter_rows) 7 0 3600 = last_known (by_bucket quarter_rows) 7 0 2700"
      by (rule last_known_cong) (auto simp: quarter_buckets)
    also have "\<dots> = 300" by (rule last_known_hit) (simp_all add: quarter_buckets)
    finally show ?thesis .
  qed
  ultimately show ?thesis by simp
qed

section \<open>The cache keeps its contract\<close>

interpretation stability: timed_cache get_cached_funding_stability set_cached_funding_stability ttl_drop "\<lambda>c. c" "\<lambda>_. None" funding_ttl
proof -
  have e: "get_cached_funding_stability = ttl_get funding_ttl" "set_cached_funding_stability = ttl_put"
    by (intro ext, simp add: get_cached_funding_stability_def set_cached_funding_stability_def)+
  show "timed_cache get_cached_funding_stability set_cached_funding_stability ttl_drop (\<lambda>c. c) (\<lambda>_. None) funding_ttl"
    unfolding e by (rule ttl_timed_cache)
qed

text \<open>
  C27: the statistics cache refines a log of writes. After any time-ordered sequence of
  look-ups, writes and removals, a look-up answers what was last written for the leg, unless
  it was removed since or is older than 120 seconds; the entries that expired look-ups remove
  are never missed.
\<close>

theorem funding_cache_refines_log:
  assumes "sorted (map op_time ops @ [now])"
  shows "fst (get_cached_funding_stability now leg
      (foldl (cache_step get_cached_funding_stability set_cached_funding_stability ttl_drop) (\<lambda>_. None) ops))
    = fresh funding_ttl now (write_log ops leg)"
  by (rule stability.refines_log[OF assms])

definition flat_stats :: "bool \<Rightarrow> leg_stats" where
  "flat_stats filled = \<lparr>ls_obs = no_funding_stats, ls_fill = no_funding_stats, ls_fill_enabled = filled,
     ls_seed_fresh = False, ls_seed_gap = None\<rparr>"

theorem funding_cache_refines_log_witness:
  "fst (get_cached_funding_stability 130 (1, ''A'')
      (foldl (cache_step get_cached_funding_stability set_cached_funding_stability ttl_drop) (\<lambda>_. None)
        [Store 0 (1, ''A'') (flat_stats False), Look 125 (1, ''A''), Store 126 (1, ''A'') (flat_stats True)])) = Some (flat_stats True)"
proof -
  have "sorted (map op_time [Store 0 (1, ''A'') (flat_stats False), Look 125 (1, ''A''), Store 126 (1, ''A'') (flat_stats True)] @ [130])"
    by simp
  from funding_cache_refines_log[OF this, of "(1, ''A'')"] show ?thesis
    by (simp add: write_log_def funding_ttl_def)
qed

lemma load_miss:
  "fst (get_cached_funding_stability now (ex, s) c) = None \<Longrightarrow>
   load_funding_stability db now ex s fallback c =
     (leg_funding_stats db now ex s fallback,
      set_cached_funding_stability now (ex, s) (leg_funding_stats db now ex s fallback)
        (snd (get_cached_funding_stability now (ex, s) c)))"
  by (cases "get_cached_funding_stability now (ex, s) c") (simp add: load_funding_stability_def Let_def)

lemma load_hit:
  "fst (get_cached_funding_stability now (ex, s) c) = Some st \<Longrightarrow>
   load_funding_stability db now ex s fallback c = (st, snd (get_cached_funding_stability now (ex, s) c))"
  by (cases "get_cached_funding_stability now (ex, s) c") (simp add: load_funding_stability_def)

lemma invalidate_leg_misses:
  assumes "py_strip (str_or_empty symbol) \<noteq> []" "s \<in> {py_strip (str_or_empty symbol), py_upper (py_strip (str_or_empty symbol)),
      normalize_symbol_key (Some (py_strip (str_or_empty symbol)))}" "s \<noteq> []"
  shows "invalidate_leg ex symbol c (ex, s) = None"
  using assms by (auto simp: invalidate_leg_def Let_def ttl_drop_def)

text \<open>
  What a load computed is what the next loads of the leg answer. After a miss, every load
  within 120 seconds returns the same statistics and leaves the cache alone, whatever rows and
  fallback it is given; a load under any spelling of the symbol after new history of the leg
  was stored computes the statistics from the rows again.
\<close>

theorem load_funding_stability_roundtrip:
  assumes "fst (get_cached_funding_stability now (ex, s) c) = None" "later - now \<le> funding_ttl"
  shows "let c' = snd (load_funding_stability db now ex s fallback c) in
    load_funding_stability db' later ex s fallback' c' = (leg_funding_stats db now ex s fallback, c')
    \<and> (s = py_strip s \<and> s \<noteq> [] \<longrightarrow>
         fst (load_funding_stability db' later ex s fallback' (invalidate_leg ex (Some s) c'))
           = leg_funding_stats db' later ex s fallback')"
proof -
  let ?st = "leg_funding_stats db now ex s fallback"
  define c' where "c' = snd (load_funding_stability db now ex s fallback c)"
  have "c' (ex, s) = Some (?st, now)"
    by (simp add: c'_def load_miss[OF assms(1)] set_cached_funding_stability_def ttl_put_def)
  then have "get_cached_funding_stability later (ex, s) c' = (Some ?st, c')"
    using assms(2) by (simp add: get_cached_funding_stability_def ttl_get_def)
  then have again: "load_funding_stability db' later ex s fallback' c' = (?st, c')"
    by (simp add: load_hit)
  have "fst (get_cached_funding_stability later (ex, s) (invalidate_leg ex (Some s) c')) = None"
    if "s = py_strip s" "s \<noteq> []"
    using invalidate_leg_misses[of "Some s" s ex c'] that
    by (simp add: get_cached_funding_stability_def ttl_get_def)
  with again show ?thesis by (simp add: Let_def c'_def[symmetric] load_miss)
qed

theorem load_funding_stability_roundtrip_witness:
  "fst (load_funding_stability [] 60 1 ''A'' 9 (snd (load_funding_stability quarter_rows 0 1 ''A'' 5 (\<lambda>_. None))))
    = leg_funding_stats quarter_rows 0 1 ''A'' 5"
proof -
  have "fst (get_cached_funding_stability 0 (1, ''A'') (\<lambda>_. None)) = None"
    by (simp add: get_cached_funding_stability_def ttl_get_def)
  moreover have "(60 :: real) - 0 \<le> funding_ttl" by (simp add: funding_ttl_def)
  ultimately show ?thesis
    using load_funding_stability_roundtrip[of 0 1 "''A''" "\<lambda>_. None" 60 quarter_rows 5 "[]" 9]
    by (simp add: Let_def)
qed

end
