(* ===== verification/Scoring.thy ===== *)
theory Scoring
  imports FundingStats
begin

text \<open>
  The strict score of a candidate pair (\<open>_strict_metrics_for_row\<close> of
  \<open>core/spot_basis_runtime/scoring_config.py\<close>): the expected net return of a day after fees and
  penalties, the confidence in it, the capacity of the market, and their product. The funding
  statistics are the ones \<open>load_funding_stability\<close> returns, so the keys \<open>*_obs\<close> are present.
\<close>

section \<open>Inputs\<close>

text \<open>A perpetual leg of a symbol (\<open>_build_perp_symbol_entries\<close>).\<close>

record perp_entry =
  pe_exchange :: int
  pe_name :: string
  pe_spot_symbol :: string
  pe_price :: real
  pe_rate_pct :: real
  pe_annualized_pct :: real
  pe_periods :: real
  pe_interval_hours :: fopt
  pe_periods_inferred :: bool
  pe_next_funding :: fopt
  pe_secs_to_funding :: "int option"
  pe_volume :: real

text \<open>What the scan adds for a spot leg before it is scored.\<close>

record spot_quote =
  sq_exchange :: int
  sq_name :: string
  sq_price :: real
  sq_volume :: real
  sq_basis_abs :: real
  sq_basis_pct :: real
  sq_fee_pct :: real
  sq_cycle_net_pct :: real

text \<open>\<open>_normalize_action_mode\<close> (\<open>capital_snapshot.py\<close>).\<close>

definition normalize_action_mode :: "string option \<Rightarrow> string" where
  "normalize_action_mode v =
     (let mode = py_lower (py_strip (case py_or_str v (Some ''open'') of None \<Rightarrow> [] | Some s \<Rightarrow> s))
      in if mode = ''switch'' then ''switch'' else ''open'')"

section \<open>The terms of the score\<close>

definition obs_count :: "funding_stats \<Rightarrow> int" where
  "obs_count st = max 0 (fs_n_obs st)"

definition obs_sigma :: "funding_stats \<Rightarrow> real" where
  "obs_sigma st = pos_part (fs_sigma_robust st)"

definition expected_cycle_pct :: "funding_stats \<Rightarrow> real \<Rightarrow> real" where
  "expected_cycle_pct st funding_pred =
     (if obs_count st > 0
      then fs_mu_ewma st * clampr (1 - exp (- of_int (obs_count st) / 48)) (10 / 100) 1
      else funding_pred)"

definition hold_days_of :: "funding_stats \<Rightarrow> real" where
  "hold_days_of st = clampr (12 / 10 + 4 * clampr (fs_confidence_base st) (5 / 100) 1) 1 7"

definition fee_per_day :: "funding_stats \<Rightarrow> real \<Rightarrow> real" where
  "fee_per_day st fee = pos_part fee / hold_days_of st"

definition leg_risk_per_day :: "funding_stats \<Rightarrow> real \<Rightarrow> real" where
  "leg_risk_per_day st fee = 20 / 100 * fee_per_day st fee + 15 / 100 * obs_sigma st"

text \<open>\<open>max_unhedged_secs\<close> is the constant 0, so the funding lost while unhedged is 0.\<close>

definition funding_loss_per_day :: "string \<Rightarrow> funding_stats \<Rightarrow> perp_entry \<Rightarrow> real" where
  "funding_loss_per_day mode st p =
     (let interval = (let h = to_float (pe_interval_hours p) 8 in if h = 0 then 8 else h);
          max_unhedged_secs = 0;
          cycle_secs = max 1 (interval * 3600)
      in if mode = ''switch''
         then pos_part (expected_cycle_pct st (pe_rate_pct p)) * clampr (max_unhedged_secs / cycle_secs) 0 1
         else 0)"

definition switch_cost_per_day :: "string \<Rightarrow> funding_stats \<Rightarrow> perp_entry \<Rightarrow> real \<Rightarrow> real" where
  "switch_cost_per_day mode st p fee =
     (if mode = ''switch'' then funding_loss_per_day mode st p + 0 + leg_risk_per_day st fee else 0)"

definition basis_penalty :: "funding_stats \<Rightarrow> real \<Rightarrow> real" where
  "basis_penalty st basis_pct = pos_part (\<bar>basis_pct\<bar> - 25 / 100 - 1 / 2 * obs_sigma st) * (18 / 100)"

definition min_volume :: "perp_entry \<Rightarrow> real \<Rightarrow> real" where
  "min_volume p spot_volume = max 1 (min (pe_volume p) spot_volume)"

definition pair_min :: "auto_cfg \<Rightarrow> real" where
  "pair_min cfg = max 1 (to_float (cfg_min_pair_notional_usd cfg) 300)"

definition pair_max :: "auto_cfg \<Rightarrow> real" where
  "pair_max cfg = max (pair_min cfg) (to_float (cfg_max_pair_notional_usd cfg) 3000)"

definition target_notional :: "auto_cfg \<Rightarrow> real \<Rightarrow> real \<Rightarrow> real" where
  "target_notional cfg nav min_vol =
     (let util = clampr (to_float (cfg_target_utilization_pct cfg) 60) 1 100;
          pairs = max 1 (cfg_int (cfg_max_open_pairs cfg) 5);
          from_nav = (if nav > 0 then nav * util / 100 / of_int pairs else 0);
          base = max (pair_min cfg) from_nav;
          base' = (if base \<le> 0 then max 500 (min_vol * (5 / 10000)) else base)
      in clampr (min base' (min_vol * (2 / 1000))) (pair_min cfg) (pair_max cfg))"

definition impact_of :: "real \<Rightarrow> real \<Rightarrow> real" where
  "impact_of target min_vol = clampr (target / min_vol * 100 * (125 / 100)) 0 (50 / 100)"

definition instability_penalty :: "funding_stats \<Rightarrow> real \<Rightarrow> real" where
  "instability_penalty st periods =
     pos_part (obs_sigma st - max (2 / 100) (\<bar>fs_mu_ewma st\<bar> * (8 / 10))) * periods * (40 / 100)"

definition stale_penalty :: "perp_entry \<Rightarrow> real" where
  "stale_penalty p = (if pe_secs_to_funding p = None then 3 / 100 else 0)"

definition inferred_penalty :: "perp_entry \<Rightarrow> real" where
  "inferred_penalty p = (if pe_periods_inferred p then 2 / 100 else 0)"

definition nav_penalty :: "bool \<Rightarrow> real" where
  "nav_penalty nav_is_stale = (if nav_is_stale then 2 / 100 else 0)"

definition periods_of :: "perp_entry \<Rightarrow> real" where
  "periods_of p = max 1 (pe_periods p)"

definition risk_penalty :: "funding_stats \<Rightarrow> perp_entry \<Rightarrow> real \<Rightarrow> real \<Rightarrow> bool \<Rightarrow> real" where
  "risk_penalty st p basis_pct impact nav_is_stale =
     basis_penalty st basis_pct + impact * (60 / 100) + instability_penalty st (periods_of p)
     + stale_penalty p + inferred_penalty p + nav_penalty nav_is_stale"

definition confidence_of :: "funding_stats \<Rightarrow> real \<Rightarrow> real \<Rightarrow> real" where
  "confidence_of st expected basis_pct =
     clampr
       (clampr (8 / 100
           + 20 / 100 * sample_confidence (of_int (obs_count st))
           + 22 / 100 * clampr ((clampr (fs_p_pos st) 0 1 - 45 / 100) / (55 / 100)) 0 1
           + 18 / 100 * clampr (1 - clampr (fs_flip_rate st) 0 1 / (55 / 100)) 0 1
           + 22 / 100 * clampr ((expected - 65 / 100 * obs_sigma st + 1 / 100) / (18 / 100)) 0 1
           + 10 / 100 * clampr ((fs_q10 st + 2 / 100) / (10 / 100)) 0 1)
         (1 / 100) 1
        * clampr (1 - pos_part (\<bar>basis_pct\<bar> - 18 / 10) / 3) 0 1)
       (1 / 100) 1"

definition capacity_of :: "real \<Rightarrow> real \<Rightarrow> real \<Rightarrow> real \<Rightarrow> real" where
  "capacity_of target min_vol impact basis_pct =
     clampr
       (60 / 100 * clampr (min_vol / max 1 target / 300) 0 1
        + 30 / 100 * clampr (1 - impact / (50 / 100)) 0 1
        + 10 / 100 * clampr (1 - \<bar>basis_pct\<bar> / 6) 0 1)
       (1 / 100) 1"

section \<open>The score\<close>

record strict =
  sx_e24 :: real
  sx_confidence :: real
  sx_capacity :: real
  sx_score :: real
  sx_gross :: real
  sx_fee_day :: real
  sx_switch_cost :: real
  sx_risk_penalty :: real
  sx_funding_loss :: real
  sx_leg_risk :: real
  sx_impact :: real
  sx_target_notional :: real
  sx_mode :: string
  sx_hold_days :: real

definition strict_metrics_for_row ::
    "perp_entry \<Rightarrow> spot_quote \<Rightarrow> string \<Rightarrow> leg_stats \<Rightarrow> auto_cfg \<Rightarrow> real \<Rightarrow> bool \<Rightarrow> strict" where
  "strict_metrics_for_row p q action_mode stats cfg nav nav_is_stale =
     (let st = ls_obs stats;
          mode = normalize_action_mode (Some action_mode);
          fee = sq_fee_pct q; basis = sq_basis_pct q;
          expected = expected_cycle_pct st (pe_rate_pct p);
          gross = expected * periods_of p;
          min_vol = min_volume p (sq_volume q);
          target = target_notional cfg nav min_vol;
          impact = impact_of target min_vol;
          switch_cost = switch_cost_per_day mode st p fee;
          risk = risk_penalty st p basis impact nav_is_stale;
          e24 = gross - fee_per_day st fee - switch_cost - risk;
          confidence = confidence_of st expected basis;
          capacity = capacity_of target min_vol impact basis
      in \<lparr>sx_e24 = py_round e24 6, sx_confidence = py_round confidence 6, sx_capacity = py_round capacity 6,
          sx_score = py_round (e24 * confidence * capacity) 6,
          sx_gross = py_round gross 6, sx_fee_day = py_round (fee_per_day st fee) 6,
          sx_switch_cost = py_round switch_cost 6, sx_risk_penalty = py_round risk 6,
          sx_funding_loss = py_round (funding_loss_per_day mode st p) 6,
          sx_leg_risk = py_round (leg_risk_per_day st fee) 6, sx_impact = py_round impact 6,
          sx_target_notional = py_round target 2, sx_mode = mode, sx_hold_days = py_round (hold_days_of st) 4\<rparr>)"

lemma strict_fields:
  fixes p q mode stats cfg nav stale
  defines "st \<equiv> ls_obs stats"
  defines "r \<equiv> strict_metrics_for_row p q mode stats cfg nav stale"
  defines "m \<equiv> normalize_action_mode (Some mode)"
  defines "vol \<equiv> min_volume p (sq_volume q)"
  defines "gross \<equiv> expected_cycle_pct st (pe_rate_pct p) * periods_of p"
  defines "target \<equiv> target_notional cfg nav vol"
  defines "e24 \<equiv> gross - fee_per_day st (sq_fee_pct q) - switch_cost_per_day m st p (sq_fee_pct q)
    - risk_penalty st p (sq_basis_pct q) (impact_of target vol) stale"
  defines "conf \<equiv> confidence_of st (expected_cycle_pct st (pe_rate_pct p)) (sq_basis_pct q)"
  defines "cap \<equiv> capacity_of target vol (impact_of target vol) (sq_basis_pct q)"
  shows "sx_e24 r = py_round e24 6" "sx_confidence r = py_round conf 6" "sx_capacity r = py_round cap 6"
    "sx_score r = py_round (e24 * conf * cap) 6" "sx_gross r = py_round gross 6"
    "sx_fee_day r = py_round (fee_per_day st (sq_fee_pct q)) 6"
    "sx_switch_cost r = py_round (switch_cost_per_day m st p (sq_fee_pct q)) 6"
    "sx_risk_penalty r = py_round (risk_penalty st p (sq_basis_pct q) (impact_of target vol) stale) 6"
    "sx_funding_loss r = py_round (funding_loss_per_day m st p) 6"
    "sx_leg_risk r = py_round (leg_risk_per_day st (sq_fee_pct q)) 6"
    "sx_impact r = py_round (impact_of target vol) 6" "sx_target_notional r = py_round target 2"
    "sx_mode r = m" "sx_hold_days r = py_round (hold_days_of st) 4"
  by (simp_all add: assms strict_metrics_for_row_def Let_def)

section \<open>Signs and bounds of the terms\<close>

lemma strict_hold_days_bounds: "1 \<le> hold_days_of st" "hold_days_of st \<le> 7"
  by (simp_all add: hold_days_of_def clampr_def)

lemma fee_per_day_nonneg [money_simps]: "0 \<le> fee_per_day st fee"
  using strict_hold_days_bounds(1)[of st] by (simp add: fee_per_day_def)

lemma obs_sigma_nonneg [money_simps]: "0 \<le> obs_sigma st"
  by (simp add: obs_sigma_def)

lemma leg_risk_nonneg [money_simps]: "0 \<le> leg_risk_per_day st fee"
  by (simp add: leg_risk_per_day_def money_simps)

lemma funding_loss_zero [simp]: "funding_loss_per_day mode st p = 0"
  by (simp add: funding_loss_per_day_def clampr_def Let_def)

lemma switch_cost_nonneg [money_simps]: "0 \<le> switch_cost_per_day mode st p fee"
  by (simp add: switch_cost_per_day_def money_simps)

lemma pair_limits [money_simps]: "1 \<le> pair_min cfg" "pair_min cfg \<le> pair_max cfg"
  by (simp_all add: pair_min_def pair_max_def)

lemma target_notional_bounds: "pair_min cfg \<le> target_notional cfg nav vol" "target_notional cfg nav vol \<le> pair_max cfg"
  using clampr_between[of "pair_min cfg" "pair_min cfg" "pair_max cfg" "pair_max cfg"] pair_limits[of cfg]
  by (simp_all add: target_notional_def Let_def)

lemma impact_bounds: "0 \<le> impact_of target vol" "impact_of target vol \<le> 1 / 2"
  by (simp_all add: impact_of_def clampr_def)

lemma periods_ge [money_simps]: "1 \<le> periods_of p"
  by (simp add: periods_of_def)

lemma basis_penalty_nonneg [money_simps]: "0 \<le> basis_penalty st b"
  by (simp add: basis_penalty_def)

lemma instability_penalty_nonneg [money_simps]: "0 \<le> n \<Longrightarrow> 0 \<le> instability_penalty st n"
  by (simp add: instability_penalty_def)

lemma flag_penalties_nonneg [money_simps]: "0 \<le> stale_penalty p" "0 \<le> inferred_penalty p" "0 \<le> nav_penalty b"
  by (simp_all add: stale_penalty_def inferred_penalty_def nav_penalty_def)

lemma risk_penalty_nonneg [money_simps]: "0 \<le> impact \<Longrightarrow> 0 \<le> risk_penalty st p b impact stale"
  unfolding risk_penalty_def using periods_ge[of p]
  by (intro add_nonneg_nonneg mult_nonneg_nonneg basis_penalty_nonneg instability_penalty_nonneg flag_penalties_nonneg) auto

lemma confidence_bounds: "1 / 100 \<le> confidence_of st e b" "confidence_of st e b \<le> 1"
  unfolding confidence_of_def by (rule clampr_bounds, simp?)+

lemma capacity_bounds: "1 / 100 \<le> capacity_of t v i b" "capacity_of t v i b \<le> 1"
  unfolding capacity_of_def by (rule clampr_bounds, simp?)+

lemma py_round_hundredth: "py_round (1 / 100) 6 = 1 / 100"
proof -
  have "(1 / 100 :: real) * 10 ^ 6 = of_int 10000" by simp
  then have "round_half_even (1 / 100 * 10 ^ 6) = 10000" by (metis round_half_even_of_int)
  then show ?thesis by (simp add: py_round_def)
qed

lemma weight_bounds:
  "0 < confidence_of st e b * capacity_of t v i b" "confidence_of st e b * capacity_of t v i b \<le> 1"
  using confidence_bounds[of st e b] capacity_bounds[of t v i b]
  by (simp_all add: mult_le_one)

text \<open>
  The strict score is a damped net return. Confidence and capacity lie between 0.01 and 1,
  no cost or penalty is negative, so the net return never exceeds the gross return, and the
  score has the sign of the net return and at most its size. The assumed holding time lies
  between one and seven days and the notional the score is computed for between the pair
  limits.
\<close>

theorem strict_score_is_damped:
  "let r = strict_metrics_for_row p q mode stats cfg nav stale in
    1 / 100 \<le> sx_confidence r \<and> sx_confidence r \<le> 1 \<and> 1 / 100 \<le> sx_capacity r \<and> sx_capacity r \<le> 1
    \<and> 0 \<le> sx_fee_day r \<and> 0 \<le> sx_switch_cost r \<and> 0 \<le> sx_risk_penalty r \<and> 0 \<le> sx_leg_risk r
    \<and> sx_e24 r \<le> sx_gross r
    \<and> min 0 (sx_e24 r) \<le> sx_score r \<and> sx_score r \<le> max 0 (sx_e24 r)
    \<and> 1 \<le> sx_hold_days r \<and> sx_hold_days r \<le> 7
    \<and> py_round (pair_min cfg) 2 \<le> sx_target_notional r \<and> sx_target_notional r \<le> py_round (pair_max cfg) 2"
proof -
  define st vol where "st = ls_obs stats" and "vol = min_volume p (sq_volume q)"
  define target where "target = target_notional cfg nav vol"
  define w where "w = confidence_of st (expected_cycle_pct st (pe_rate_pct p)) (sq_basis_pct q)
    * capacity_of target vol (impact_of target vol) (sq_basis_pct q)"
  define gross where "gross = expected_cycle_pct st (pe_rate_pct p) * periods_of p"
  define e where "e = gross - fee_per_day st (sq_fee_pct q)
      - switch_cost_per_day (normalize_action_mode (Some mode)) st p (sq_fee_pct q)
      - risk_penalty st p (sq_basis_pct q) (impact_of target vol) stale"
  note f = strict_fields[of p q mode stats cfg nav stale, folded st_def vol_def, folded target_def,
      folded gross_def, folded e_def]
  have w: "0 < w" "w \<le> 1" unfolding w_def by (rule weight_bounds)+
  have score: "sx_score (strict_metrics_for_row p q mode stats cfg nav stale) = py_round (e * w) 6"
    unfolding f(4) w_def by (simp add: mult.assoc)
  have ew: "min 0 e \<le> e * w" "e * w \<le> max 0 e"
  proof -
    show "min 0 e \<le> e * w"
      using w by (cases "0 \<le> e") (auto simp: min_def mult_le_cancel_left1)
    show "e * w \<le> max 0 e"
      using w by (cases "0 \<le> e") (auto simp: max_def mult_le_cancel_left2 mult_nonpos_nonneg)
  qed
  have r: "py_round (min 0 e) 6 = min 0 (py_round e 6)" "py_round (max 0 e) 6 = max 0 (py_round e 6)"
    using py_round_mono[of 0 e 6] py_round_mono[of e 0 6] by (auto simp: min_def max_def)
  have "e \<le> gross"
    using fee_per_day_nonneg[of st "sq_fee_pct q"] risk_penalty_nonneg[OF impact_bounds(1)[of target vol], of st p "sq_basis_pct q" stale]
      switch_cost_nonneg[of "normalize_action_mode (Some mode)" st p "sq_fee_pct q"]
    unfolding e_def by linarith
  then have net: "py_round e 6 \<le> py_round gross 6" by (rule py_round_mono)
  have hold: "1 \<le> py_round (hold_days_of st) 4" "py_round (hold_days_of st) 4 \<le> 7"
    using py_round_mono[OF strict_hold_days_bounds(1)[of st], of 4] py_round_mono[OF strict_hold_days_bounds(2)[of st], of 4] by simp_all
  have conf: "1 / 100 \<le> py_round (confidence_of st x b) 6" "py_round (confidence_of st x b) 6 \<le> 1" for x b
    using py_round_mono[OF confidence_bounds(1)[of st x b], of 6] py_round_mono[OF confidence_bounds(2)[of st x b], of 6]
    by (simp_all add: py_round_hundredth)
  have cap: "1 / 100 \<le> py_round (capacity_of a b c d) 6" "py_round (capacity_of a b c d) 6 \<le> 1" for a b c d
    using py_round_mono[OF capacity_bounds(1)[of a b c d], of 6] py_round_mono[OF capacity_bounds(2)[of a b c d], of 6]
    by (simp_all add: py_round_hundredth)
  have tgt: "py_round (pair_min cfg) 2 \<le> py_round target 2" "py_round target 2 \<le> py_round (pair_max cfg) 2"
    unfolding target_def by (intro py_round_mono target_notional_bounds)+
  show ?thesis
    unfolding Let_def f(1-3) score f(5-12) f(14) r[symmetric]
    using conf cap net hold tgt py_round_mono[OF ew(1), of 6] py_round_mono[OF ew(2), of 6] impact_bounds(1)
    by (simp add: money_simps)
qed

lemma net_antimono:
  assumes "a \<le> b" "0 < w" shows "py_round a 6 \<le> py_round b 6 \<and> py_round (a * w) 6 \<le> py_round (b * w) 6"
  using assms by (auto intro!: py_round_mono mult_right_mono)

lemma fee_per_day_mono: "fee \<le> fee' \<Longrightarrow> fee_per_day st fee \<le> fee_per_day st fee'"
  using strict_hold_days_bounds(1)[of st] by (auto simp: fee_per_day_def intro: divide_right_mono pos_part_mono)

lemma switch_cost_mono:
  "fee \<le> fee' \<Longrightarrow> m = m' \<or> m = ''open'' \<Longrightarrow> switch_cost_per_day m st p fee \<le> switch_cost_per_day m' st p fee'"
  using fee_per_day_mono[of fee fee' st] leg_risk_nonneg[of st fee']
  by (auto simp: switch_cost_per_day_def leg_risk_per_day_def)

text \<open>
  A dearer or a switched pair never scores better. Raising the round-trip fee of a pair,
  or scoring it as the target of a switch instead of an open, never raises its net return or
  its score.
\<close>

theorem strict_score_antitone:
  assumes "sq_fee_pct q \<le> fee'"
    and "normalize_action_mode (Some mode) = normalize_action_mode (Some mode')
      \<or> normalize_action_mode (Some mode) = ''open''"
  shows "sx_e24 (strict_metrics_for_row p (q\<lparr>sq_fee_pct := fee'\<rparr>) mode' stats cfg nav stale)
      \<le> sx_e24 (strict_metrics_for_row p q mode stats cfg nav stale)
    \<and> sx_score (strict_metrics_for_row p (q\<lparr>sq_fee_pct := fee'\<rparr>) mode' stats cfg nav stale)
      \<le> sx_score (strict_metrics_for_row p q mode stats cfg nav stale)"
proof -
  define st vol where "st = ls_obs stats" and "vol = min_volume p (sq_volume q)"
  define target where "target = target_notional cfg nav vol"
  let ?w = "confidence_of st (expected_cycle_pct st (pe_rate_pct p)) (sq_basis_pct q)
    * capacity_of target vol (impact_of target vol) (sq_basis_pct q)"
  have w: "0 < ?w" by (rule weight_bounds)
  note f = strict_fields[of p q mode stats cfg nav stale, folded st_def vol_def, folded target_def]
  note g = strict_fields[of p "q\<lparr>sq_fee_pct := fee'\<rparr>" mode' stats cfg nav stale, simplified,
      folded st_def vol_def, folded target_def]
  show ?thesis
    unfolding f(1,4) g(1,4) mult.assoc
    using net_antimono[OF _ w] fee_per_day_mono[OF assms(1), of st] switch_cost_mono[OF assms, of st p]
    by force
qed

text \<open>
  The capacity cap does not hold for thin markets. The notional is first capped at 0.2
  percent of the daily volume, but then raised to the configured minimum; whenever the cap is
  below the minimum, the score is computed for the minimum, however thin the market is.
\<close>

theorem capacity_cap_overridden:
  assumes "min_volume p (sq_volume q) * (2 / 1000) \<le> pair_min cfg"
  shows "sx_target_notional (strict_metrics_for_row p q mode stats cfg nav stale) = py_round (pair_min cfg) 2"
proof -
  have "clampr (min b (min_volume p (sq_volume q) * (2 / 1000))) (pair_min cfg) (pair_max cfg) = pair_min cfg" for b
    using assms pair_limits(2)[of cfg] by (auto simp: clampr_def)
  then show ?thesis by (simp add: strict_fields target_notional_def Let_def)
qed

section \<open>A thin market\<close>

definition thin_perp :: perp_entry where
  "thin_perp = \<lparr>pe_exchange = 1, pe_name = ''A'', pe_spot_symbol = ''X/USDT'', pe_price = 10, pe_rate_pct = 1,
     pe_annualized_pct = 1000, pe_periods = 3, pe_interval_hours = Some 8, pe_periods_inferred = False,
     pe_next_funding = None, pe_secs_to_funding = Some 60, pe_volume = 1000\<rparr>"

definition thin_quote :: spot_quote where
  "thin_quote = \<lparr>sq_exchange = 2, sq_name = ''B'', sq_price = 9, sq_volume = 1000, sq_basis_abs = 1,
     sq_basis_pct = 11, sq_fee_pct = 1 / 10, sq_cycle_net_pct = 9 / 10\<rparr>"

definition no_leg_stats :: leg_stats where
  "no_leg_stats = \<lparr>ls_obs = no_funding_stats, ls_fill = no_funding_stats, ls_fill_enabled = False,
     ls_seed_fresh = False, ls_seed_gap = None\<rparr>"

theorem strict_score_antitone_witness:
  "sx_score (strict_metrics_for_row thin_perp (thin_quote\<lparr>sq_fee_pct := 1\<rparr>) ''switch'' no_leg_stats default_cfg 0 False)
    \<le> sx_score (strict_metrics_for_row thin_perp thin_quote ''open'' no_leg_stats default_cfg 0 False)"
proof -
  have "sq_fee_pct thin_quote \<le> 1" by (simp add: thin_quote_def)
  moreover have "normalize_action_mode (Some ''open'') = normalize_action_mode (Some ''switch'')
      \<or> normalize_action_mode (Some ''open'') = ''open''" by code_simp
  ultimately show ?thesis
    using strict_score_antitone[of thin_quote 1 "''open''" "''switch''" thin_perp no_leg_stats default_cfg 0 False] by blast
qed

theorem capacity_cap_overridden_witness:
  "sx_target_notional (strict_metrics_for_row thin_perp thin_quote ''open'' no_leg_stats default_cfg 0 False) = 300
   \<and> min_volume thin_perp (sq_volume thin_quote) * (2 / 1000) = 2"
proof -
  have "min_volume thin_perp (sq_volume thin_quote) * (2 / 1000) \<le> pair_min default_cfg"
    by (simp add: min_volume_def thin_perp_def thin_quote_def pair_min_def default_cfg_def)
  from capacity_cap_overridden[OF this] show ?thesis
    by (simp add: min_volume_def thin_perp_def thin_quote_def pair_min_def default_cfg_def)
qed

end
