(* ===== verification/TakerFee.thy ===== *)
theory TakerFee
  imports Database TtlCache
begin

text \<open>
  Taker fees and symbols (\<open>core/spot_basis_runtime/fee_symbols.py\<close>, with the VIP-0 table of
  \<open>core/exchange_manager/registry.py\<close>): the symbol a fee is asked for, the fee an exchange
  client reports, the fallback table, the five-minute cache per exchange and market type, and
  the matching of symbol queries. A client is given by its market table and its answer to
  \<open>fetch_trading_fee\<close> (\<open>None\<close> when it raises or has no taker fee); the temporary time-out is
  left out.
\<close>

section \<open>The fallback table\<close>

definition starts_with :: "string \<Rightarrow> string \<Rightarrow> bool" where
  "starts_with s p \<longleftrightarrow> take (length p) s = p"

definition vip0_taker_fees :: "(string \<times> real) list" where
  "vip0_taker_fees =
     [(''binance'', 5 / 10000), (''okx'', 5 / 10000), (''bybit'', 55 / 100000), (''bitget'', 6 / 10000),
      (''gateio'', 75 / 100000), (''gate'', 75 / 100000), (''huobi'', 4 / 10000), (''htx'', 4 / 10000),
      (''mexc'', 2 / 10000), (''kucoin'', 6 / 10000), (''cryptocom'', 75 / 100000)]"

definition get_vip0_taker_fee :: "string option \<Rightarrow> real" where
  "get_vip0_taker_fee raw =
     (let name = py_strip (py_lower (str_or_empty raw)) in
      case map_of vip0_taker_fees name of
        Some fee \<Rightarrow> fee
      | None \<Rightarrow>
          (case first_where (\<lambda>kf. starts_with name (fst kf) \<or> starts_with (fst kf) name) vip0_taker_fees of
             Some kf \<Rightarrow> snd kf
           | None \<Rightarrow> 5 / 10000))"

section \<open>The fee of a client\<close>

record market =
  mk_swap :: bool
  mk_spot :: bool
  mk_taker :: fopt

record fee_client =
  fc_markets :: "(string \<times> market) list"
  fc_has_trading_fee :: bool
  fc_trading_fee :: "string \<Rightarrow> fopt"

definition is_market :: "string \<Rightarrow> market \<Rightarrow> bool" where
  "is_market market_type m \<longleftrightarrow> (market_type = ''swap'' \<and> mk_swap m) \<or> (market_type = ''spot'' \<and> mk_spot m)"

definition fee_candidates :: "string \<Rightarrow> string \<Rightarrow> string list" where
  "fee_candidates market_type hint =
     (if hint = [] then [] else hint # (if CHR '':'' \<in> set hint then [split_head (CHR '':'') hint] else []))
     @ (if market_type = ''swap'' then [''BTC/USDT:USDT'', ''ETH/USDT:USDT''] else [''BTC/USDT'', ''ETH/USDT''])"

fun pick_candidate :: "(string \<times> market) list \<Rightarrow> string \<Rightarrow> string list \<Rightarrow> string list \<Rightarrow> string option" where
  "pick_candidate markets market_type seen [] = None"
| "pick_candidate markets market_type seen (s # rest) =
     (if s = [] \<or> s \<in> set seen then pick_candidate markets market_type seen rest
      else (case map_of markets s of
          None \<Rightarrow> Some s
        | Some m \<Rightarrow> if is_market market_type m then Some s
                    else pick_candidate markets market_type (s # seen) rest))"

definition pick_fee_symbol :: "(string \<times> market) list \<Rightarrow> string \<Rightarrow> string \<Rightarrow> string option" where
  "pick_fee_symbol markets market_type hint =
     (let candidates = fee_candidates market_type hint in
      case pick_candidate markets market_type [] candidates of
        Some s \<Rightarrow> Some s
      | None \<Rightarrow>
          (case first_where (\<lambda>sm. is_market market_type (snd sm)) markets of
             Some sm \<Rightarrow> Some (fst sm)
           | None \<Rightarrow> (case candidates of [] \<Rightarrow> None | s # _ \<Rightarrow> Some s)))"

definition positive_fee :: "fopt \<Rightarrow> fopt" where
  "positive_fee v = (if to_float v 0 > 0 then Some (to_float v 0) else None)"

definition fetch_taker_fee_from_api :: "fee_client option \<Rightarrow> string \<Rightarrow> string \<Rightarrow> fopt" where
  "fetch_taker_fee_from_api client market_type hint =
     (case client of
        None \<Rightarrow> None
      | Some c \<Rightarrow>
          (case pick_fee_symbol (fc_markets c) market_type hint of
             None \<Rightarrow> None
           | Some s \<Rightarrow>
               if s = [] then None
               else (case (if fc_has_trading_fee c then positive_fee (fc_trading_fee c s) else None) of
                   Some fee \<Rightarrow> Some fee
                 | None \<Rightarrow> (case map_of (fc_markets c) s of
                     None \<Rightarrow> None | Some m \<Rightarrow> positive_fee (mk_taker m)))))"

section \<open>Resolution with the cache\<close>

type_synonym fee_cache = "(int \<times> string, real) ttl_store"

definition fee_ttl :: real where "fee_ttl = 300"

definition get_cached_taker_fee :: "real \<Rightarrow> int \<times> string \<Rightarrow> fee_cache \<Rightarrow> real option \<times> fee_cache" where
  "get_cached_taker_fee now k c = ttl_get fee_ttl now k c"

definition set_cached_taker_fee :: "real \<Rightarrow> int \<times> string \<Rightarrow> real \<Rightarrow> fee_cache \<Rightarrow> fee_cache" where
  "set_cached_taker_fee now k fee c = ttl_put now k fee c"

text \<open>\<open>meta\<close> is the name in the exchange's metadata, absent when there is none.\<close>

definition fallback_fee :: "exchange_row option \<Rightarrow> string option \<Rightarrow> real" where
  "fallback_fee obj meta =
     get_vip0_taker_fee (case meta of Some n \<Rightarrow> Some n | None \<Rightarrow> (case obj of Some x \<Rightarrow> Some (ex_name x) | None \<Rightarrow> Some []))"

definition resolve_taker_fee ::
    "(exchange_row \<Rightarrow> string \<Rightarrow> fee_client option) \<Rightarrow> real \<Rightarrow> exchange_row option \<Rightarrow> string option \<Rightarrow> string \<Rightarrow> string
      \<Rightarrow> fee_cache \<Rightarrow> real \<times> fee_cache" where
  "resolve_taker_fee client now obj meta market_type hint c =
     (case obj of
        None \<Rightarrow> (fallback_fee obj meta, c)
      | Some x \<Rightarrow>
          (case get_cached_taker_fee now (ex_id x, market_type) c of
             (Some fee, c') \<Rightarrow> (fee, c')
           | (None, c') \<Rightarrow>
               let value = (case fetch_taker_fee_from_api (client x market_type) market_type hint of
                     Some fee \<Rightarrow> if fee > 0 then fee else fallback_fee obj meta
                   | None \<Rightarrow> fallback_fee obj meta)
               in (value, set_cached_taker_fee now (ex_id x, market_type) value c')))"

section \<open>Symbol queries\<close>

definition spot_symbol_of :: "string \<Rightarrow> string" where
  "spot_symbol_of s = (if CHR '':'' \<in> set s then split_head (CHR '':'') s else s)"

text \<open>The full-width separators the code also replaces are not ASCII.\<close>

definition normalize_symbol_query :: "string \<Rightarrow> string" where
  "normalize_symbol_query v =
     map (\<lambda>c. if c = CHR 0x5C then CHR ''/'' else c) (py_replace_char (CHR '' '') (py_strip (py_upper v)))"

definition symbol_match :: "string \<Rightarrow> string \<Rightarrow> bool" where
  "symbol_match perp_symbol query =
     (let q = normalize_symbol_query query; s = normalize_symbol_query perp_symbol in
      if q = [] then True
      else if CHR ''/'' \<in> set q then s = q \<or> normalize_symbol_query (spot_symbol_of s) = q
      else
        let q' = (if CHR '':'' \<in> set q then py_strip (split_head (CHR '':'') q) else q)
        in if CHR '':'' \<in> set q \<and> q' = [] then True
           else starts_with (split_head (CHR ''/'') s) q')"

section \<open>Fees are positive and cached per exchange\<close>

lemma vip0_positive: "0 < get_vip0_taker_fee name"
proof -
  have pos: "kf \<in> set vip0_taker_fees \<Longrightarrow> 0 < snd kf" for kf by (auto simp: vip0_taker_fees_def)
  show ?thesis
    unfolding get_vip0_taker_fee_def Let_def
    using pos by (fastforce split: option.splits dest!: map_of_SomeD first_where_Some)
qed

lemma positive_fee_pos: "positive_fee v = Some fee \<Longrightarrow> 0 < fee"
  by (auto simp: positive_fee_def split: if_splits)

definition positive_cache :: "fee_cache \<Rightarrow> bool" where
  "positive_cache c \<longleftrightarrow> (\<forall>k fee t. c k = Some (fee, t) \<longrightarrow> 0 < fee)"

lemma cached_fee_positive:
  "positive_cache c \<Longrightarrow> get_cached_taker_fee now k c = (r, c') \<Longrightarrow>
   positive_cache c' \<and> (\<forall>fee. r = Some fee \<longrightarrow> 0 < fee)"
  by (cases k) (fastforce simp: positive_cache_def get_cached_taker_fee_def ttl_get_def split: option.splits if_splits prod.splits)

lemma set_fee_positive: "positive_cache c \<Longrightarrow> 0 < fee \<Longrightarrow> positive_cache (set_cached_taker_fee now k fee c)"
  by (auto simp: positive_cache_def set_cached_taker_fee_def ttl_put_def)

lemma resolve_positive:
  assumes "positive_cache c"
  shows "0 < fst (resolve_taker_fee client now obj meta mt hint c)
    \<and> positive_cache (snd (resolve_taker_fee client now obj meta mt hint c))"
proof (cases obj)
  case None
  with assms show ?thesis by (simp add: resolve_taker_fee_def fallback_fee_def vip0_positive)
next
  case (Some x)
  obtain r c' where g: "get_cached_taker_fee now (ex_id x, mt) c = (r, c')" by fastforce
  note pc = cached_fee_positive[OF assms g]
  show ?thesis
  proof (cases r)
    case None
    with Some g pc show ?thesis
      by (auto simp: resolve_taker_fee_def Let_def fallback_fee_def vip0_positive intro!: set_fee_positive split: option.split)
  next
    case (Some fee)
    with \<open>obj = Some x\<close> g pc show ?thesis by (simp add: resolve_taker_fee_def)
  qed
qed

interpretation taker_fees: timed_cache get_cached_taker_fee set_cached_taker_fee ttl_drop "\<lambda>c. c" "\<lambda>_. None" fee_ttl
proof -
  have e: "get_cached_taker_fee = ttl_get fee_ttl" "set_cached_taker_fee = ttl_put"
    by (intro ext, simp add: get_cached_taker_fee_def set_cached_taker_fee_def)+
  show "timed_cache get_cached_taker_fee set_cached_taker_fee ttl_drop (\<lambda>c. c) (\<lambda>_. None) fee_ttl"
    unfolding e by (rule ttl_timed_cache)
qed

section \<open>Matching a query\<close>

lemma normalize_query_no_space: "CHR '' '' \<notin> set (normalize_symbol_query v)"
  by (auto simp: normalize_symbol_query_def py_replace_char_def)

text \<open>
  A query that is itself a pair matches only that pair, as a perpetual or as its spot form; an
  empty query matches everything.
\<close>

lemma pair_query_exact:
  "CHR ''/'' \<in> set (normalize_symbol_query q) \<Longrightarrow>
   symbol_match s q \<longleftrightarrow> normalize_symbol_query s = normalize_symbol_query q
     \<or> normalize_symbol_query (spot_symbol_of (normalize_symbol_query s)) = normalize_symbol_query q"
  by (auto simp: symbol_match_def Let_def)

lemma empty_query: "normalize_symbol_query q = [] \<Longrightarrow> symbol_match s q"
  by (simp add: symbol_match_def)

lemma base_query_prefix:
  "CHR ''/'' \<notin> set (normalize_symbol_query q) \<Longrightarrow> CHR '':'' \<notin> set (normalize_symbol_query q) \<Longrightarrow>
   symbol_match s q \<longleftrightarrow> starts_with (split_head (CHR ''/'') (normalize_symbol_query s)) (normalize_symbol_query q)"
  by (auto simp: symbol_match_def starts_with_def Let_def)

lemma symbol_match_examples:
  "symbol_match ''BTC/USDT:USDT'' ''btc/usdt''" "symbol_match ''NG/USDT:USDT'' ''ng:usdt''"
  "\<not> symbol_match ''ENG/USDT:USDT'' ''ng''" "symbol_match ''NGX/USDT:USDT'' ''ng''"
  by code_simp+

text \<open>
  Every fee the engine works with is positive, and one answer serves all symbols of an
  exchange. From a cache of positive fees the resolved fee is positive and the cache stays so,
  whatever the client reports; and a second question for the same exchange and market type
  within five minutes gets the same fee, for any symbol, without asking the client.
\<close>

theorem resolved_fee_positive_and_shared:
  assumes "positive_cache c" "get_cached_taker_fee now (ex_id x, mt) c = (None, c0)" "later - now \<le> fee_ttl"
  shows "let (fee, c') = resolve_taker_fee client now (Some x) meta mt hint c in
    0 < fee \<and> positive_cache c' \<and> resolve_taker_fee client' later (Some x) meta' mt hint' c' = (fee, c')"
proof -
  obtain fee c' where r: "resolve_taker_fee client now (Some x) meta mt hint c = (fee, c')" by fastforce
  from r assms(2) have "c' = set_cached_taker_fee now (ex_id x, mt) fee c0"
    by (auto simp: resolve_taker_fee_def Let_def)
  then have "get_cached_taker_fee later (ex_id x, mt) c' = (Some fee, c')"
    using assms(3) by (simp add: get_cached_taker_fee_def set_cached_taker_fee_def ttl_get_def ttl_put_def)
  with resolve_positive[OF assms(1), of client now "Some x" meta mt hint] r show ?thesis
    by (simp add: resolve_taker_fee_def)
qed

definition fee_exchange :: exchange_row where
  "fee_exchange = \<lparr>ex_id = 7, ex_name = ''Bybit'', ex_display_name = None, ex_is_unified = None\<rparr>"

lemma fee_exchange_name: "ex_name fee_exchange = ''Bybit''"
  by (simp add: fee_exchange_def)

theorem resolved_fee_positive_and_shared_witness:
  "let (fee, c') = resolve_taker_fee (\<lambda>_ _. None) 0 (Some fee_exchange) None ''swap'' ''X'' (\<lambda>_. None) in
    fee = 55 / 100000 \<and> resolve_taker_fee (\<lambda>_ _. None) 100 (Some fee_exchange) None ''swap'' ''Y'' c' = (fee, c')"
proof -
  have "positive_cache (\<lambda>_. None)" by (simp add: positive_cache_def)
  moreover have g: "get_cached_taker_fee 0 (ex_id fee_exchange, ''swap'') (\<lambda>_. None) = (None, \<lambda>_. None)"
    by (simp add: get_cached_taker_fee_def ttl_get_def)
  moreover have "100 - (0 :: real) \<le> fee_ttl" by (simp add: fee_ttl_def)
  ultimately have "let (fee, c') = resolve_taker_fee (\<lambda>_ _. None) 0 (Some fee_exchange) None ''swap'' ''X'' (\<lambda>_. None) in
    0 < fee \<and> positive_cache c' \<and> resolve_taker_fee (\<lambda>_ _. None) 100 (Some fee_exchange) None ''swap'' ''Y'' c' = (fee, c')"
    by (rule resolved_fee_positive_and_shared)
  moreover have "py_strip (py_lower (str_or_empty (Some ''Bybit''))) = ''bybit''" by code_simp
  then have "get_vip0_taker_fee (Some ''Bybit'') = 55 / 100000"
    unfolding get_vip0_taker_fee_def Let_def by (simp add: vip0_taker_fees_def)
  then have "fst (resolve_taker_fee (\<lambda>_ _. None) 0 (Some fee_exchange) None ''swap'' ''X'' (\<lambda>_. None)) = 55 / 100000"
    by (simp add: resolve_taker_fee_def g fetch_taker_fee_from_api_def fallback_fee_def fee_exchange_name Let_def)
  moreover obtain fee c' where "resolve_taker_fee (\<lambda>_ _. None) 0 (Some fee_exchange) None ''swap'' ''X'' (\<lambda>_. None) = (fee, c')"
    by fastforce
  ultimately show ?thesis by (simp only: Let_def prod.case fst_conv)
qed

end
