(* ===== verification/Candidates.thy ===== *)
theory Candidates
  imports Scoring TakerFee "HOL-Library.Product_Lexorder"
begin

text \<open>
  The rows of a symbol (\<open>_collect_symbol_rows\<close> of \<open>core/spot_basis_runtime/candidate_rows.py\<close>)
  and the perpetual legs they are built from (\<open>_build_perp_symbol_entries\<close> of
  \<open>funding_history_io.py\<close>). The market-data caches of the collector are the fields of
  \<open>market_data\<close>, dictionaries that are iterated as association lists in their order. The loops
  thread the two caches of the runtime. The rate map of a row, which only the user interface
  shows, is left out.
\<close>

section \<open>Market data\<close>

record funding_quote =
  fq_rate :: fopt
  fq_mark_price :: fopt
  fq_interval_hours :: fopt
  fq_next :: fopt

record exchange_meta =
  em_name :: "string option"
  em_display :: "string option"

record market_data =
  md_funding :: "(int \<times> (string \<times> funding_quote) list) list"
  md_perp_price :: "int \<Rightarrow> string \<Rightarrow> fopt"
  md_perp_volume :: "int \<Rightarrow> string \<Rightarrow> fopt"
  md_spot_price :: "(int \<times> (string \<Rightarrow> fopt)) list"
  md_spot_volume :: "int \<Rightarrow> string \<Rightarrow> fopt"
  md_meta :: "int \<Rightarrow> exchange_meta option"
  md_exchanges :: "int \<Rightarrow> exchange_row option"

definition display_of :: "int \<Rightarrow> exchange_meta option \<Rightarrow> string" where
  "display_of i meta =
     (case (case meta of None \<Rightarrow> None | Some m \<Rightarrow> py_or_str (em_display m) (py_or_str (em_name m) None)) of
        Some n \<Rightarrow> n | None \<Rightarrow> ''EX#'' @ str_of_int i)"

section \<open>Perpetual legs\<close>

text \<open>A whole number of settlements a day, within a quarter (\<open>_normalize_interval_hours\<close>).\<close>

definition whole_periods :: "real \<Rightarrow> int option" where
  "whole_periods hours =
     (if hours \<le> 0 then None
      else
        let periods = 24 / hours; rounded = round_half_even periods
        in if 1 \<le> rounded \<and> rounded \<le> 24 \<and> \<bar>periods - of_int rounded\<bar> \<le> 1 / 4 then Some rounded else None)"

definition normalize_interval_hours :: "fopt \<Rightarrow> fopt" where
  "normalize_interval_hours v =
     (let hours = to_float v 0 in case whole_periods hours of None \<Rightarrow> None | Some _ \<Rightarrow> Some hours)"

definition funding_periods_per_day :: "fopt \<Rightarrow> real" where
  "funding_periods_per_day interval_hours =
     (case whole_periods (to_float interval_hours 0) of None \<Rightarrow> 3 | Some n \<Rightarrow> of_int n)"

definition secs_to_funding :: "real \<Rightarrow> fopt \<Rightarrow> int option" where
  "secs_to_funding now v = map_option (\<lambda>t. max 0 (py_trunc (t - now))) v"

definition perp_entry_of :: "market_data \<Rightarrow> real \<Rightarrow> int \<Rightarrow> exchange_meta \<Rightarrow> string \<Rightarrow> funding_quote \<Rightarrow> perp_entry option" where
  "perp_entry_of md now ex meta perp_symbol data =
     (let rate_pct = to_float (fq_rate data) 0 * 100 in
      if rate_pct \<le> 0 then None
      else
        let fast = to_float (md_perp_price md ex perp_symbol) 0;
            price = (if fast \<le> 0 then to_float (fq_mark_price data) 0 else fast);
            interval = normalize_interval_hours (fq_interval_hours data);
            periods = funding_periods_per_day interval
        in Some \<lparr>pe_exchange = ex, pe_name = display_of ex (Some meta), pe_spot_symbol = spot_symbol_of perp_symbol,
             pe_price = price, pe_rate_pct = py_round rate_pct 6, pe_annualized_pct = py_round (rate_pct * periods * 365) 2,
             pe_periods = periods, pe_interval_hours = interval, pe_periods_inferred = (interval = None),
             pe_next_funding = fq_next data, pe_secs_to_funding = secs_to_funding now (fq_next data),
             pe_volume = to_float (md_perp_volume md ex perp_symbol) 0\<rparr>)"

text \<open>\<open>setdefault(symbol, []).append(entry)\<close>.\<close>

fun add_entry :: "string \<Rightarrow> perp_entry \<Rightarrow> (string \<times> perp_entry list) list \<Rightarrow> (string \<times> perp_entry list) list" where
  "add_entry s e [] = [(s, [e])]"
| "add_entry s e ((k, es) # m) = (if k = s then (k, es @ [e]) # m else (k, es) # add_entry s e m)"

definition exchange_entries ::
    "market_data \<Rightarrow> real \<Rightarrow> string \<Rightarrow> (string \<times> perp_entry list) list \<Rightarrow> int \<times> (string \<times> funding_quote) list
      \<Rightarrow> (string \<times> perp_entry list) list" where
  "exchange_entries md now symbol_like m x =
     (case x of (ex, symbols) \<Rightarrow>
        case md_meta md ex of
          None \<Rightarrow> m
        | Some meta \<Rightarrow>
            foldl (\<lambda>m (s, data).
                if \<not> symbol_match s symbol_like then m
                else (case perp_entry_of md now ex meta s data of None \<Rightarrow> m | Some e \<Rightarrow> add_entry s e m))
              m symbols)"

definition build_perp_symbol_entries :: "market_data \<Rightarrow> real \<Rightarrow> string \<Rightarrow> (string \<times> perp_entry list) list" where
  "build_perp_symbol_entries md now symbol_like = foldl (exchange_entries md now symbol_like) [] (md_funding md)"

section \<open>Spot legs\<close>

record scan_filter =
  sf_mode :: string
  sf_min_rate :: real
  sf_min_perp_volume :: real
  sf_min_spot_volume :: real
  sf_min_basis_pct :: real
  sf_perp_ids :: "int list"
  sf_spot_ids :: "int list"
  sf_cross :: bool

record scan_env =
  sv_now :: real
  sv_market :: market_data
  sv_funding_db :: "funding_row list"
  sv_client :: "exchange_row \<Rightarrow> string \<Rightarrow> fee_client option"
  sv_cfg :: auto_cfg
  sv_nav :: real
  sv_nav_stale :: bool

record scan_caches =
  sc_stats :: stability_cache
  sc_fees :: fee_cache

definition allowed_id :: "int list \<Rightarrow> int \<Rightarrow> bool" where
  "allowed_id ids i \<longleftrightarrow> ids = [] \<or> i \<in> set ids"

definition perp_eligible :: "scan_filter \<Rightarrow> perp_entry \<Rightarrow> bool" where
  "perp_eligible flt p \<longleftrightarrow>
     allowed_id (sf_perp_ids flt) (pe_exchange p) \<and> sf_min_rate flt \<le> pe_rate_pct p
     \<and> sf_min_perp_volume flt \<le> pe_volume p \<and> 0 < pe_price p"

definition spot_eligible :: "scan_filter \<Rightarrow> perp_entry \<Rightarrow> int \<Rightarrow> real \<Rightarrow> real \<Rightarrow> bool" where
  "spot_eligible flt p spot_ex price volume \<longleftrightarrow>
     \<not> (sf_cross flt \<and> spot_ex = pe_exchange p) \<and> allowed_id (sf_spot_ids flt) spot_ex \<and> 0 < price
     \<and> sf_min_spot_volume flt \<le> volume \<and> 0 < pe_price p - price
     \<and> sf_min_basis_pct flt \<le> (pe_price p - price) / price * 100"

text \<open>The name the fee table is asked for: the metadata's, or the one of the entry.\<close>

definition perp_fee :: "scan_env \<Rightarrow> string \<Rightarrow> perp_entry \<Rightarrow> fee_cache \<Rightarrow> real \<times> fee_cache" where
  "perp_fee env symbol p fees =
     resolve_taker_fee (sv_client env) (sv_now env) (md_exchanges (sv_market env) (pe_exchange p))
       (Some (case md_meta (sv_market env) (pe_exchange p) of Some m \<Rightarrow> str_or_empty (em_name m) | None \<Rightarrow> pe_name p))
       ''swap'' symbol fees"

definition spot_fee :: "scan_env \<Rightarrow> perp_entry \<Rightarrow> int \<Rightarrow> fee_cache \<Rightarrow> real \<times> fee_cache" where
  "spot_fee env p spot_ex fees =
     resolve_taker_fee (sv_client env) (sv_now env) (md_exchanges (sv_market env) spot_ex)
       (map_option (\<lambda>m. str_or_empty (em_name m)) (md_meta (sv_market env) spot_ex))
       ''spot'' (pe_spot_symbol p) fees"

definition quote_of :: "scan_env \<Rightarrow> perp_entry \<Rightarrow> int \<Rightarrow> real \<Rightarrow> real \<Rightarrow> real \<Rightarrow> spot_quote" where
  "quote_of env p spot_ex price volume fee_pct =
     \<lparr>sq_exchange = spot_ex, sq_name = display_of spot_ex (md_meta (sv_market env) spot_ex),
      sq_price = price, sq_volume = volume, sq_basis_abs = py_round (pe_price p - price) 8,
      sq_basis_pct = py_round ((pe_price p - price) / price * 100) 4, sq_fee_pct = py_round fee_pct 4,
      sq_cycle_net_pct = py_round (pe_rate_pct p - fee_pct) 4\<rparr>"

text \<open>Whether a scored spot leg replaces the best one so far.\<close>

definition same_exchange :: "int \<Rightarrow> spot_quote \<times> strict \<Rightarrow> bool" where
  "same_exchange perp_ex x \<longleftrightarrow> int_or (- 1) (Some (sq_exchange (fst x))) = perp_ex"

definition replaces :: "int \<Rightarrow> spot_quote \<times> strict \<Rightarrow> spot_quote \<times> strict \<Rightarrow> bool" where
  "replaces perp_ex best one \<longleftrightarrow>
     sx_score (snd one) > sx_score (snd best)
     \<or> (\<bar>sx_score (snd one) - sx_score (snd best)\<bar> < 1 / 10 ^ 9
        \<and> ((same_exchange perp_ex one \<and> \<not> same_exchange perp_ex best)
           \<or> (same_exchange perp_ex one = same_exchange perp_ex best
              \<and> \<bar>sq_basis_pct (fst one)\<bar> < \<bar>sq_basis_pct (fst best)\<bar>)))"

definition keep_better :: "int \<Rightarrow> (spot_quote \<times> strict) option \<Rightarrow> spot_quote \<times> strict \<Rightarrow> (spot_quote \<times> strict) option" where
  "keep_better perp_ex best one =
     (case best of None \<Rightarrow> Some one | Some b \<Rightarrow> if replaces perp_ex b one then Some one else Some b)"

text \<open>The scored leg of a spot exchange, if it passes the gates.\<close>

definition scored_spot ::
    "scan_env \<Rightarrow> scan_filter \<Rightarrow> string \<Rightarrow> leg_stats \<Rightarrow> perp_entry \<Rightarrow> fee_cache \<Rightarrow> int \<times> (string \<Rightarrow> fopt)
      \<Rightarrow> (spot_quote \<times> strict) option \<times> fee_cache" where
  "scored_spot env flt symbol stats p fees x =
     (case x of (spot_ex, prices) \<Rightarrow>
       let price = to_float (prices (pe_spot_symbol p)) 0;
           volume = to_float (md_spot_volume (sv_market env) spot_ex (pe_spot_symbol p)) 0
       in if \<not> spot_eligible flt p spot_ex price volume then (None, fees)
          else
            let (fp, fees1) = perp_fee env symbol p fees;
                (fs, fees2) = spot_fee env p spot_ex fees1;
                q = quote_of env p spot_ex price volume ((fp + fs) * 2 * 100)
            in (Some (q, strict_metrics_for_row p q (sf_mode flt) stats (sv_cfg env) (sv_nav env) (sv_nav_stale env)), fees2))"

definition spot_step ::
    "scan_env \<Rightarrow> scan_filter \<Rightarrow> string \<Rightarrow> leg_stats \<Rightarrow> perp_entry \<Rightarrow> (spot_quote \<times> strict) option \<times> fee_cache
      \<Rightarrow> int \<times> (string \<Rightarrow> fopt) \<Rightarrow> (spot_quote \<times> strict) option \<times> fee_cache" where
  "spot_step env flt symbol stats p st x =
     (case st of (best, fees) \<Rightarrow>
       case scored_spot env flt symbol stats p fees x of
         (None, fees') \<Rightarrow> (best, fees')
       | (Some one, fees') \<Rightarrow> (keep_better (pe_exchange p) best one, fees'))"

definition best_spot ::
    "scan_env \<Rightarrow> scan_filter \<Rightarrow> string \<Rightarrow> leg_stats \<Rightarrow> perp_entry \<Rightarrow> fee_cache \<Rightarrow> (spot_quote \<times> strict) option \<times> fee_cache" where
  "best_spot env flt symbol stats p fees =
     foldl (spot_step env flt symbol stats p) (None, fees) (md_spot_price (sv_market env))"

section \<open>Candidates and rows\<close>

record candidate =
  cd_perp :: perp_entry
  cd_spot :: spot_quote
  cd_strict :: strict
  cd_score :: real

definition candidate_step ::
    "scan_env \<Rightarrow> scan_filter \<Rightarrow> string \<Rightarrow> candidate list \<times> scan_caches \<Rightarrow> perp_entry \<Rightarrow> candidate list \<times> scan_caches" where
  "candidate_step env flt symbol st p =
     (case st of (cands, c) \<Rightarrow>
       if \<not> perp_eligible flt p then (cands, c)
       else
         let (stats, cache) = load_funding_stability (sv_funding_db env) (sv_now env) (pe_exchange p) symbol
               (pe_rate_pct p) (sc_stats c);
             (best, fees) = best_spot env flt symbol stats p (sc_fees c);
             c' = \<lparr>sc_stats = cache, sc_fees = fees\<rparr>
         in (case best of
               None \<Rightarrow> (cands, c')
             | Some (q, x) \<Rightarrow>
                 (cands @ [\<lparr>cd_perp = p, cd_spot = q, cd_strict = x,
                    cd_score = py_round (pe_annualized_pct p * (75 / 100) - \<bar>sq_basis_pct q\<bar> * 6) 4\<rparr>], c')))"

text \<open>\<open>by_perp\<close>: the candidate with the best strict score of a perpetual exchange.\<close>

definition by_perp_step :: "(int \<times> candidate) list \<Rightarrow> candidate \<Rightarrow> (int \<times> candidate) list" where
  "by_perp_step m c =
     (case map_of m (pe_exchange (cd_perp c)) of
        None \<Rightarrow> AList.update (pe_exchange (cd_perp c)) c m
      | Some prev \<Rightarrow>
          if sx_score (cd_strict c) > sx_score (cd_strict prev) then AList.update (pe_exchange (cd_perp c)) c m else m)"

definition best_by_perp :: "candidate list \<Rightarrow> candidate list" where
  "best_by_perp cands = map snd (foldl by_perp_step [] cands)"

text \<open>A row, with the two keys that only the sort uses.\<close>

record opportunity =
  op_row :: scan_row
  op_annualized :: real
  op_legacy_score :: real

definition row_of_candidate :: "string \<Rightarrow> candidate \<Rightarrow> opportunity" where
  "row_of_candidate symbol c =
     (let p = cd_perp c; q = cd_spot c; x = cd_strict c in
      \<lparr>op_row =
         \<lparr>sr_row_id = Some (build_row_id (Some symbol) (Some (pe_exchange p)) (Some (sq_exchange q))),
          sr_symbol = Some (normalize_symbol_key (Some symbol)),
          sr_perp_ex = Some (pe_exchange p), sr_spot_ex = Some (sq_exchange q),
          sr_perp_name = Some (pe_name p), sr_spot_name = Some (sq_name q),
          sr_basis_abs_usd = Some (sq_basis_abs q), sr_basis_pct = Some (sq_basis_pct q),
          sr_fee_round_trip_pct = Some (sq_fee_pct q), sr_e24 = Some (sx_e24 x),
          sr_confidence = Some (sx_confidence x), sr_capacity = Some (sx_capacity x), sr_score = Some (sx_score x),
          sr_hold_days = Some (sx_hold_days x), sr_leg_risk = Some (sx_leg_risk x),
          sr_impact_pct = Some (sx_impact x), sr_target_notional = Some (sx_target_notional x)\<rparr>,
       op_annualized = py_round (pe_annualized_pct p) 2, op_legacy_score = cd_score c\<rparr>)"

definition collect_symbol_rows ::
    "scan_env \<Rightarrow> scan_filter \<Rightarrow> string \<Rightarrow> perp_entry list \<Rightarrow> scan_caches \<Rightarrow> opportunity list \<times> scan_caches" where
  "collect_symbol_rows env flt symbol entries c =
     (case foldl (candidate_step env flt symbol) ([], c) entries of
        (cands, c') \<Rightarrow> (map (row_of_candidate symbol) (best_by_perp cands), c'))"

section \<open>The best spot leg is the maximum of a key\<close>

definition spot_key :: "int \<Rightarrow> spot_quote \<times> strict \<Rightarrow> real \<times> bool \<times> real" where
  "spot_key perp_ex x = (sx_score (snd x), same_exchange perp_ex x, - \<bar>sq_basis_pct (fst x)\<bar>)"

definition rounded_score :: "spot_quote \<times> strict \<Rightarrow> bool" where
  "rounded_score x \<longleftrightarrow> sx_score (snd x) \<in> range (\<lambda>v. py_round v 6)"

lemma rounded_close_eq:
  assumes "a \<in> range (\<lambda>v. py_round v 6)" "b \<in> range (\<lambda>v. py_round v 6)" "\<bar>a - b\<bar> < 1 / 10 ^ 9"
  shows "a = b"
proof -
  from assms(1,2) obtain m n where ab: "a = of_int m / 10 ^ 6" "b = of_int n / 10 ^ 6"
    unfolding py_round_def by blast
  have "\<bar>of_int (m - n) :: real\<bar> = \<bar>a - b\<bar> * 10 ^ 6" by (simp add: ab field_simps)
  also have "\<dots> < 1" using assms(3) by simp
  finally have "\<bar>of_int (m - n) :: real\<bar> < of_int 1" by simp
  then have "m = n" by (simp flip: of_int_abs)
  then show ?thesis by (simp add: ab)
qed

lemma replaces_key:
  assumes "rounded_score a" "rounded_score b"
  shows "replaces perp_ex a b \<longleftrightarrow> spot_key perp_ex a < spot_key perp_ex b"
  using rounded_close_eq[of "sx_score (snd b)" "sx_score (snd a)"] assms
  by (cases "sx_score (snd b) = sx_score (snd a)")
    (auto simp: replaces_def spot_key_def rounded_score_def less_prod_def)

lemma keep_better_simps:
  "keep_better e None x = Some x" "keep_better e (Some b) x = Some (if replaces e b x then x else b)"
  by (simp_all add: keep_better_def)

lemma keep_better_fold:
  assumes "foldl (keep_better perp_ex) (Some b) xs = r" "rounded_score b" "\<And>x. x \<in> set xs \<Longrightarrow> rounded_score x"
  shows "\<exists>m. r = Some m \<and> m \<in> insert b (set xs) \<and> (\<forall>x \<in> insert b (set xs). spot_key perp_ex x \<le> spot_key perp_ex m)"
  using assms
proof (induction xs arbitrary: b)
  case (Cons x xs)
  let ?b = "if replaces perp_ex b x then x else b"
  have "foldl (keep_better perp_ex) (Some ?b) xs = r" using Cons.prems(1) by (simp add: keep_better_simps)
  moreover have "rounded_score ?b" using Cons.prems(2,3) by auto
  ultimately obtain m where m: "r = Some m" "m \<in> insert ?b (set xs)"
    "\<forall>y \<in> insert ?b (set xs). spot_key perp_ex y \<le> spot_key perp_ex m"
    using Cons.IH Cons.prems(3) by (metis list.set_intros(2))
  have "spot_key perp_ex b \<le> spot_key perp_ex ?b \<and> spot_key perp_ex x \<le> spot_key perp_ex ?b"
    using replaces_key[of b x perp_ex] Cons.prems(2,3) by auto
  with m show ?case by (auto split: if_splits intro: order_trans)
qed auto

text \<open>The legs that pass the gates, scored in the order of the loop.\<close>

fun scored_list ::
    "scan_env \<Rightarrow> scan_filter \<Rightarrow> string \<Rightarrow> leg_stats \<Rightarrow> perp_entry \<Rightarrow> fee_cache \<Rightarrow> (int \<times> (string \<Rightarrow> fopt)) list
      \<Rightarrow> (spot_quote \<times> strict) list \<times> fee_cache" where
  "scored_list env flt symbol stats p fees [] = ([], fees)"
| "scored_list env flt symbol stats p fees (x # xs) =
     (case scored_spot env flt symbol stats p fees x of
        (r, fees1) \<Rightarrow>
          (case scored_list env flt symbol stats p fees1 xs of
             (rest, fees2) \<Rightarrow> ((case r of None \<Rightarrow> rest | Some one \<Rightarrow> one # rest), fees2)))"

lemma spot_fold_scored:
  "foldl (spot_step env flt symbol stats p) (best, fees) xs =
     (foldl (keep_better (pe_exchange p)) best (fst (scored_list env flt symbol stats p fees xs)),
      snd (scored_list env flt symbol stats p fees xs))"
  by (induction xs arbitrary: best fees) (auto simp: spot_step_def split: prod.splits option.splits)

lemma scored_spot_gates:
  assumes "scored_spot env flt symbol stats p fees (ex, prices) = (Some (q, x), fees')"
  defines "price \<equiv> to_float (prices (pe_spot_symbol p)) 0"
    and "volume \<equiv> to_float (md_spot_volume (sv_market env) ex (pe_spot_symbol p)) 0"
  shows "spot_eligible flt p ex price volume \<and> (\<exists>fee. q = quote_of env p ex price volume fee)
    \<and> x = strict_metrics_for_row p q (sf_mode flt) stats (sv_cfg env) (sv_nav env) (sv_nav_stale env)"
  using assms by (auto simp: scored_spot_def Let_def split: if_splits prod.splits)

lemma scored_list_mem:
  "one \<in> set (fst (scored_list env flt symbol stats p fees xs)) \<Longrightarrow>
   \<exists>x \<in> set xs. \<exists>f f'. scored_spot env flt symbol stats p f x = (Some one, f')"
proof (induction xs arbitrary: fees)
  case (Cons a xs)
  obtain r f1 where s: "scored_spot env flt symbol stats p fees a = (r, f1)" by fastforce
  with Cons.prems have "r = Some one \<or> one \<in> set (fst (scored_list env flt symbol stats p f1 xs))"
    by (auto split: prod.splits option.splits)
  with s Cons.IH[of f1] show ?case by auto
qed simp

lemma strict_rounded: "rounded_score (q, strict_metrics_for_row p q' mode stats cfg nav stale)"
  by (auto simp: rounded_score_def strict_fields)

lemma scored_list_rounded: "one \<in> set (fst (scored_list env flt symbol stats p fees xs)) \<Longrightarrow> rounded_score one"
  by (cases one) (auto dest!: scored_list_mem scored_spot_gates simp: strict_rounded)

lemma best_spot_maximal:
  "let scored = fst (scored_list env flt symbol stats p fees (md_spot_price (sv_market env))) in
    case fst (best_spot env flt symbol stats p fees) of
      None \<Rightarrow> scored = []
    | Some m \<Rightarrow> m \<in> set scored \<and> (\<forall>x \<in> set scored. spot_key (pe_exchange p) x \<le> spot_key (pe_exchange p) m)"
proof -
  let ?l = "fst (scored_list env flt symbol stats p fees (md_spot_price (sv_market env)))"
  have b: "fst (best_spot env flt symbol stats p fees) = foldl (keep_better (pe_exchange p)) None ?l"
    by (simp add: best_spot_def spot_fold_scored)
  show ?thesis
  proof (cases ?l)
    case (Cons x xs)
    have "\<exists>m. foldl (keep_better (pe_exchange p)) (Some x) xs = Some m \<and> m \<in> insert x (set xs)
        \<and> (\<forall>y \<in> insert x (set xs). spot_key (pe_exchange p) y \<le> spot_key (pe_exchange p) m)"
      by (rule keep_better_fold[OF refl]) (metis Cons list.set_intros scored_list_rounded)+
    with Cons show ?thesis by (auto simp: Let_def b keep_better_def)
  qed (simp add: Let_def b)
qed

text \<open>
  The spot leg of a perpetual leg is the best one. Of the spot exchanges that pass the
  gates, the loop keeps one with the largest strict score; among equal scores one on the
  perpetual exchange itself, and then one with the smallest basis. It keeps none only when no
  exchange passes.
\<close>

theorem best_spot_is_maximal:
  "let passing = set (fst (scored_list env flt symbol stats p fees (md_spot_price (sv_market env))));
       key = (\<lambda>x. (sx_score (snd x), same_exchange (pe_exchange p) x, - \<bar>sq_basis_pct (fst x)\<bar>))
   in case fst (best_spot env flt symbol stats p fees) of
        None \<Rightarrow> passing = {}
      | Some m \<Rightarrow> m \<in> passing \<and> key m = Max (key ` passing)"
proof (cases "fst (best_spot env flt symbol stats p fees)")
  case None
  with best_spot_maximal[of env flt symbol stats p fees] show ?thesis by (simp add: Let_def)
next
  case (Some m)
  let ?S = "set (fst (scored_list env flt symbol stats p fees (md_spot_price (sv_market env))))"
  have m: "m \<in> ?S" "\<And>x. x \<in> ?S \<Longrightarrow> spot_key (pe_exchange p) x \<le> spot_key (pe_exchange p) m"
    using best_spot_maximal[of env flt symbol stats p fees] Some by (auto simp: Let_def)
  then have "Max (spot_key (pe_exchange p) ` ?S) = spot_key (pe_exchange p) m"
    by (intro Max_eqI) auto
  with m(1) Some show ?thesis by (simp add: Let_def spot_key_def[abs_def])
qed

section \<open>The rows of a symbol\<close>

lemma best_spot_from: "fst (best_spot env flt symbol stats p fees) = Some m \<Longrightarrow>
    m \<in> set (fst (scored_list env flt symbol stats p fees (md_spot_price (sv_market env))))"
  using best_spot_maximal[of env flt symbol stats p fees] by (simp add: Let_def)

text \<open>What the scan guarantees of a candidate.\<close>

definition sound_candidate :: "scan_env \<Rightarrow> scan_filter \<Rightarrow> perp_entry list \<Rightarrow> candidate \<Rightarrow> bool" where
  "sound_candidate env flt entries c \<longleftrightarrow>
     cd_perp c \<in> set entries \<and> perp_eligible flt (cd_perp c)
     \<and> (\<exists>prices. (sq_exchange (cd_spot c), prices) \<in> set (md_spot_price (sv_market env))
          \<and> sq_price (cd_spot c) = to_float (prices (pe_spot_symbol (cd_perp c))) 0)
     \<and> spot_eligible flt (cd_perp c) (sq_exchange (cd_spot c)) (sq_price (cd_spot c)) (sq_volume (cd_spot c))
     \<and> sq_basis_pct (cd_spot c) = py_round ((pe_price (cd_perp c) - sq_price (cd_spot c)) / sq_price (cd_spot c) * 100) 4
     \<and> (\<exists>stats. cd_strict c = strict_metrics_for_row (cd_perp c) (cd_spot c) (sf_mode flt) stats
          (sv_cfg env) (sv_nav env) (sv_nav_stale env))"

lemma best_spot_sound:
  assumes "fst (best_spot env flt symbol stats p fees) = Some (q, x)" "p \<in> set entries" "perp_eligible flt p"
  shows "sound_candidate env flt entries \<lparr>cd_perp = p, cd_spot = q, cd_strict = x, cd_score = s\<rparr>"
proof -
  obtain ex prices f f' where m: "(ex, prices) \<in> set (md_spot_price (sv_market env))"
    "scored_spot env flt symbol stats p f (ex, prices) = (Some (q, x), f')"
    using scored_list_mem[OF best_spot_from[OF assms(1)]] by auto
  from scored_spot_gates[OF m(2)] m(1) assms(2,3) show ?thesis
    by (auto simp: sound_candidate_def quote_of_def)
qed

lemma candidate_step_sound:
  assumes "candidate_step env flt symbol (cands, c) p = (cands', c')" "p \<in> set entries"
    "\<forall>d \<in> set cands. sound_candidate env flt entries d"
  shows "\<forall>d \<in> set cands'. sound_candidate env flt entries d"
proof (cases "perp_eligible flt p")
  case True
  obtain stats cache where ls: "load_funding_stability (sv_funding_db env) (sv_now env) (pe_exchange p) symbol
      (pe_rate_pct p) (sc_stats c) = (stats, cache)" by fastforce
  obtain best fees where bs: "best_spot env flt symbol stats p (sc_fees c) = (best, fees)" by fastforce
  have sound: "sound_candidate env flt entries \<lparr>cd_perp = p, cd_spot = q, cd_strict = x, cd_score = s\<rparr>"
    if "best = Some (q, x)" for q x s
    using best_spot_sound[OF _ assms(2) True, of env symbol stats "sc_fees c" q x] bs that by simp
  show ?thesis
    using assms(1,3) True sound by (auto simp: candidate_step_def ls bs Let_def split: option.splits)
next
  case False
  with assms show ?thesis by (simp add: candidate_step_def)
qed

lemma candidates_sound:
  "foldl (candidate_step env flt symbol) (cands, c) ps = (cands', c') \<Longrightarrow> set ps \<subseteq> set entries \<Longrightarrow>
   \<forall>d \<in> set cands. sound_candidate env flt entries d \<Longrightarrow> \<forall>d \<in> set cands'. sound_candidate env flt entries d"
proof (induction ps arbitrary: cands c)
  case (Cons p ps)
  obtain cands1 c1 where s: "candidate_step env flt symbol (cands, c) p = (cands1, c1)" by fastforce
  show ?case
  proof (rule Cons.IH)
    show "foldl (candidate_step env flt symbol) (cands1, c1) ps = (cands', c')" using Cons.prems(1) s by simp
    show "\<forall>d \<in> set cands1. sound_candidate env flt entries d"
      by (rule candidate_step_sound[OF s _ Cons.prems(3)]) (use Cons.prems(2) in simp)
  qed (use Cons.prems(2) in simp)
qed simp

lemma by_perp_invariant:
  assumes "distinct (map fst m)" "\<forall>(k, c) \<in> set m. k = pe_exchange (cd_perp c) \<and> c \<in> S" "d \<in> S"
  shows "distinct (map fst (by_perp_step m d)) \<and> (\<forall>(k, c) \<in> set (by_perp_step m d). k = pe_exchange (cd_perp c) \<and> c \<in> S)"
proof -
  have "distinct (map fst (AList.update k c m))" for k c using assms(1) by (rule distinct_update)
  moreover have "\<forall>(k, c) \<in> set (AList.update (pe_exchange (cd_perp d)) d m). k = pe_exchange (cd_perp c) \<and> c \<in> S"
    using assms(2,3)
  proof (induction m)
    case (Cons a m)
    then show ?case by (cases a) auto
  qed simp
  ultimately show ?thesis using assms(1,2) by (simp add: by_perp_step_def split: option.split)
qed

lemma best_by_perp_props:
  "distinct (map (\<lambda>c. pe_exchange (cd_perp c)) (best_by_perp cands)) \<and> set (best_by_perp cands) \<subseteq> set cands"
proof -
  have inv: "distinct (map fst (foldl by_perp_step m ds)) \<and>
      (\<forall>(k, c) \<in> set (foldl by_perp_step m ds). k = pe_exchange (cd_perp c) \<and> c \<in> set cands)"
    if "distinct (map fst m)" "\<forall>(k, c) \<in> set m. k = pe_exchange (cd_perp c) \<and> c \<in> set cands" "set ds \<subseteq> set cands" for m ds
    using that
  proof (induction ds arbitrary: m)
    case (Cons d ds)
    have "d \<in> set cands" "set ds \<subseteq> set cands" using Cons.prems(3) by auto
    then have "distinct (map fst (by_perp_step m d))"
      "\<forall>(k, c) \<in> set (by_perp_step m d). k = pe_exchange (cd_perp c) \<and> c \<in> set cands"
      using by_perp_invariant[OF Cons.prems(1,2), of d] by blast+
    from Cons.IH[OF this \<open>set ds \<subseteq> set cands\<close>] show ?case unfolding foldl_Cons .
  qed simp
  let ?m = "foldl by_perp_step [] cands"
  have i: "distinct (map fst ?m)" "\<forall>(k, c) \<in> set ?m. k = pe_exchange (cd_perp c) \<and> c \<in> set cands"
    using inv[of "[]" cands] by auto
  have keys: "map (\<lambda>c. pe_exchange (cd_perp c)) (best_by_perp cands) = map fst ?m"
    using i(2) by (auto simp: best_by_perp_def)
  have "set (best_by_perp cands) \<subseteq> set cands"
    using i(2) by (auto simp: best_by_perp_def)
  with i(1) show ?thesis unfolding keys by blast
qed

lemma collected_candidate:
  assumes "collect_symbol_rows env flt symbol entries c = (rows, c')" "op \<in> set rows"
  shows "\<exists>d. sound_candidate env flt entries d \<and> op = row_of_candidate symbol d"
proof -
  obtain cands where f: "foldl (candidate_step env flt symbol) ([], c) entries = (cands, c')"
    and r: "rows = map (row_of_candidate symbol) (best_by_perp cands)"
    using assms(1) by (auto simp: collect_symbol_rows_def split: prod.splits)
  have "\<forall>d \<in> set cands. sound_candidate env flt entries d" by (rule candidates_sound[OF f]) auto
  with r assms(2) best_by_perp_props[of cands] show ?thesis by auto
qed

lemma collected_distinct:
  "distinct (map (\<lambda>op. sr_perp_ex (op_row op)) (fst (collect_symbol_rows env flt symbol entries c)))"
proof -
  have "distinct (map (\<lambda>op. sr_perp_ex (op_row op)) (map (row_of_candidate symbol) (best_by_perp cands)))" for cands
    using best_by_perp_props[of cands]
    by (simp add: row_of_candidate_def Let_def comp_def distinct_map) (auto simp: inj_on_def)
  then show ?thesis by (simp add: collect_symbol_rows_def split: prod.splits)
qed

text \<open>
  The scan reports only pairs that passed its gates. Every row of a symbol belongs to a
  perpetual leg that passes the rate, volume and price gates and to a spot price that is below
  the perpetual price by at least the configured basis, on allowed exchanges, and on different
  ones when that is required; its figures are the strict metrics of exactly that pair; and no
  perpetual exchange has two rows.
\<close>

theorem symbol_rows_passed_gates:
  "(\<forall>op \<in> set (fst (collect_symbol_rows env flt symbol entries c)). \<exists>d.
      sound_candidate env flt entries d
      \<and> sr_perp_ex (op_row op) = Some (pe_exchange (cd_perp d)) \<and> sr_spot_ex (op_row op) = Some (sq_exchange (cd_spot d))
      \<and> sq_price (cd_spot d) < pe_price (cd_perp d)
      \<and> (sf_cross flt \<longrightarrow> sr_perp_ex (op_row op) \<noteq> sr_spot_ex (op_row op))
      \<and> sr_score (op_row op) = Some (sx_score (cd_strict d)) \<and> sr_e24 (op_row op) = Some (sx_e24 (cd_strict d)))
   \<and> distinct (map (\<lambda>op. sr_perp_ex (op_row op)) (fst (collect_symbol_rows env flt symbol entries c)))"
proof (intro conjI ballI)
  fix op assume "op \<in> set (fst (collect_symbol_rows env flt symbol entries c))"
  then obtain d where d: "sound_candidate env flt entries d" "op = row_of_candidate symbol d"
    using collected_candidate[OF surjective_pairing] by blast
  then show "\<exists>d. sound_candidate env flt entries d
      \<and> sr_perp_ex (op_row op) = Some (pe_exchange (cd_perp d)) \<and> sr_spot_ex (op_row op) = Some (sq_exchange (cd_spot d))
      \<and> sq_price (cd_spot d) < pe_price (cd_perp d)
      \<and> (sf_cross flt \<longrightarrow> sr_perp_ex (op_row op) \<noteq> sr_spot_ex (op_row op))
      \<and> sr_score (op_row op) = Some (sx_score (cd_strict d)) \<and> sr_e24 (op_row op) = Some (sx_e24 (cd_strict d))"
    by (intro exI[of _ d]) (auto simp: row_of_candidate_def Let_def sound_candidate_def spot_eligible_def)
qed (rule collected_distinct)

end
