(* ===== verification/FundingHistory.thy ===== *)
theory FundingHistory
  imports Candidates
begin

text \<open>
  The refresh of the stored funding history (\<open>funding_history_io.py\<close> and
  \<open>funding_history_refresh.py\<close> of \<open>core/spot_basis_runtime\<close>): which legs are refreshed, the
  paged download from the exchange, the parsing and bucketing of the points, the insertion of
  the new ones, and the loop over the legs with its refresh cache and its report. What the
  exchange answers to a page request is an argument; so are the two parsers of the standard
  library the code uses on texts (\<open>datetime.fromisoformat\<close>, \<open>float\<close>). Progress reports are
  left out, the counters are the ones of the final report.
\<close>

section \<open>Which legs\<close>

definition normalize_history_symbol :: "string option \<Rightarrow> string" where
  "normalize_history_symbol s =
     (let n = normalize_symbol_key s in if n \<noteq> [] then n else py_upper (py_strip (str_or_empty s)))"

type_synonym leg = "int \<times> string"

definition leg_rank :: "perp_entry \<Rightarrow> real" where
  "leg_rank e = pe_annualized_pct e + clampr (pe_volume e / 100000000) 0 5"

definition rank_leg :: "string \<Rightarrow> (leg \<times> real) list \<Rightarrow> perp_entry \<Rightarrow> (leg \<times> real) list" where
  "rank_leg symbol m e =
     (if pe_exchange e \<le> 0 then m
      else case map_of m (pe_exchange e, symbol) of
          None \<Rightarrow> AList.update (pe_exchange e, symbol) (leg_rank e) m
        | Some prev \<Rightarrow> if leg_rank e > prev then AList.update (pe_exchange e, symbol) (leg_rank e) m else m)"

definition rank_symbol :: "(leg \<times> real) list \<Rightarrow> string \<times> perp_entry list \<Rightarrow> (leg \<times> real) list" where
  "rank_symbol m it =
     (let s = normalize_history_symbol (Some (fst it)) in if s = [] then m else foldl (rank_leg s) m (snd it))"

definition max_refresh_legs :: nat where "max_refresh_legs = 5000"

definition build_funding_refresh_targets :: "(string \<times> perp_entry list) list \<Rightarrow> nat \<Rightarrow> (leg \<times> real) list" where
  "build_funding_refresh_targets items max_legs =
     (let ranked = sort_desc snd (foldl rank_symbol [] items)
      in if max_legs = 0 then ranked else take (max 1 (min max_refresh_legs max_legs)) ranked)"

section \<open>Points of a page\<close>

datatype raw_value = RNum real | RText string | RTime real

record parsers =
  pr_float :: "string \<Rightarrow> real option"
  pr_iso :: "string \<Rightarrow> real option"

text \<open>A point: its fields and those of its \<open>info\<close> dictionary.\<close>

record raw_point =
  rp_field :: "string \<Rightarrow> raw_value option"
  rp_info :: "string \<Rightarrow> raw_value option"

text \<open>\<open>float(v)\<close>; \<open>None\<close> where it raises or the value is not there.\<close>

definition number_of :: "parsers \<Rightarrow> raw_value option \<Rightarrow> real option" where
  "number_of pr v = (case v of Some (RNum x) \<Rightarrow> Some x | Some (RText t) \<Rightarrow> pr_float pr t | _ \<Rightarrow> None)"

text \<open>Seconds or milliseconds since the epoch; the last representable date is in the year 9999.\<close>

definition epoch_secs :: "real \<Rightarrow> real option" where
  "epoch_secs raw =
     (if raw \<le> 0 then None
      else let secs = (if raw > 10000000000 then raw / 1000 else raw) in if secs < 253402300800 then Some secs else None)"

definition all_digits :: "string \<Rightarrow> bool" where
  "all_digits s \<longleftrightarrow> s \<noteq> [] \<and> list_all is_digit_char s"

definition parse_any_datetime :: "parsers \<Rightarrow> raw_value option \<Rightarrow> real option" where
  "parse_any_datetime pr v =
     (case v of
        None \<Rightarrow> None
      | Some (RTime t) \<Rightarrow> Some t
      | Some (RNum x) \<Rightarrow> epoch_secs x
      | Some (RText s) \<Rightarrow>
          (let text = py_strip s in
           if text = [] then None
           else if all_digits text then epoch_secs (real (digits_value text))
           else pr_iso pr text))"

text \<open>The first key whose value is there; the first key whose value is a date.\<close>

fun first_present :: "(string \<Rightarrow> raw_value option) \<Rightarrow> string list \<Rightarrow> raw_value option" where
  "first_present f [] = None"
| "first_present f (k # ks) = (case f k of Some v \<Rightarrow> Some v | None \<Rightarrow> first_present f ks)"

fun first_date :: "parsers \<Rightarrow> (string \<Rightarrow> raw_value option) \<Rightarrow> string list \<Rightarrow> real option" where
  "first_date pr f [] = None"
| "first_date pr f (k # ks) = (case parse_any_datetime pr (f k) of Some t \<Rightarrow> Some t | None \<Rightarrow> first_date pr f ks)"

definition or_else :: "'a option \<Rightarrow> 'a option \<Rightarrow> 'a option" where
  "or_else a b = (case a of Some x \<Rightarrow> Some x | None \<Rightarrow> b)"

definition point_rate :: "parsers \<Rightarrow> raw_point \<Rightarrow> real option" where
  "point_rate pr p =
     number_of pr (or_else (first_present (rp_field p) [''fundingRate'', ''rate''])
       (first_present (rp_info p) [''fundingRate'', ''funding_rate'', ''lastFundingRate'']))"

definition point_time :: "parsers \<Rightarrow> raw_point \<Rightarrow> real option" where
  "point_time pr p =
     or_else (first_date pr (rp_field p) [''timestamp'', ''datetime''])
       (first_date pr (rp_info p) [''fundingTime'', ''funding_time'', ''time'', ''ts'', ''timestamp'', ''settleTime''])"

definition point_next :: "parsers \<Rightarrow> raw_point \<Rightarrow> real option" where
  "point_next pr p =
     or_else (first_date pr (rp_field p) [''nextFundingTimestamp'', ''nextFundingDatetime''])
       (first_date pr (rp_info p) [''nextFundingTime'', ''nextFundingTimestamp'', ''next_funding_time''])"

text \<open>What the loop body makes of a point: its time and rate, if it has usable ones.\<close>

definition usable_point :: "parsers \<Rightarrow> raw_point \<Rightarrow> (real \<times> real) option" where
  "usable_point pr p =
     (case point_rate pr p of
        None \<Rightarrow> None
      | Some rate \<Rightarrow>
          if \<bar>rate\<bar> \<ge> 5 then None
          else (case point_time pr p of None \<Rightarrow> None | Some t \<Rightarrow> Some (t, rate)))"

section \<open>The download\<close>

record history_record =
  hr_time :: real
  hr_rate :: real
  hr_next :: fopt

definition millis :: "real \<Rightarrow> int" where
  "millis t = py_trunc (t * 1000)"

definition bucket_ms :: int where
  "bucket_ms = bucket_secs * 1000"

definition in_download_window :: "int \<Rightarrow> int \<Rightarrow> real \<Rightarrow> bool" where
  "in_download_window since_ms until_ms t \<longleftrightarrow> since_ms - bucket_ms \<le> millis t \<and> millis t \<le> until_ms + bucket_ms"

definition keep_latest :: "history_record \<Rightarrow> (int \<times> history_record) list \<Rightarrow> (int \<times> history_record) list" where
  "keep_latest r m =
     (case map_of m (bucket_15m (hr_time r)) of
        None \<Rightarrow> AList.update (bucket_15m (hr_time r)) r m
      | Some prev \<Rightarrow> if hr_time r > hr_time prev then AList.update (bucket_15m (hr_time r)) r m else m)"

definition point_step ::
    "parsers \<Rightarrow> int \<Rightarrow> int \<Rightarrow> int \<times> (int \<times> history_record) list \<Rightarrow> raw_point \<Rightarrow> int \<times> (int \<times> history_record) list" where
  "point_step pr since_ms until_ms st p =
     (case st of (page_max, m) \<Rightarrow>
       case usable_point pr p of
         None \<Rightarrow> (page_max, m)
       | Some (t, rate) \<Rightarrow>
           let page_max' = max page_max (millis t)
           in if \<not> in_download_window since_ms until_ms t then (page_max', m)
              else (page_max', keep_latest \<lparr>hr_time = t, hr_rate = rate, hr_next = point_next pr p\<rparr> m))"

definition page_limit :: nat where "page_limit = 200"
definition max_pages :: nat where "max_pages = 20"

datatype page = Page "raw_point list" | PageError string

text \<open>
  The loop: at most \<open>n\<close> more pages. The result is an error that the client raised, or the
  bucketed records and the number of requests.
\<close>

fun fetch_pages ::
    "parsers \<Rightarrow> (int \<Rightarrow> page) \<Rightarrow> int \<Rightarrow> int \<Rightarrow> nat \<Rightarrow> int \<Rightarrow> nat \<Rightarrow> (int \<times> history_record) list
      \<Rightarrow> string + (int \<times> history_record) list \<times> nat" where
  "fetch_pages pr client since_ms until_ms 0 cursor pages m = Inr (m, pages)"
| "fetch_pages pr client since_ms until_ms (Suc n) cursor pages m =
     (if cursor > until_ms then Inr (m, pages)
      else case client cursor of
          PageError e \<Rightarrow> Inl e
        | Page pts \<Rightarrow>
            if pts = [] then Inr (m, pages + 1)
            else (case foldl (point_step pr since_ms until_ms) (cursor, m) pts of
                (page_max, m') \<Rightarrow>
                  if length pts < page_limit \<or> page_max \<le> cursor then Inr (m', pages + 1)
                  else fetch_pages pr client since_ms until_ms n (page_max + 1) (pages + 1) m'))"

datatype fetched = Unsupported | FetchError string | Fetched "history_record list" nat | Raises string

record history_client =
  hc_supported :: bool
  hc_page :: "string \<Rightarrow> int \<Rightarrow> page"

definition fetch_exchange_funding_history ::
    "parsers \<Rightarrow> history_client option \<Rightarrow> string \<Rightarrow> int \<Rightarrow> int \<Rightarrow> fetched" where
  "fetch_exchange_funding_history pr client symbol since_ms until_ms =
     (case client of
        None \<Rightarrow> FetchError ''ccxt_instance_unavailable''
      | Some c \<Rightarrow>
          if \<not> hc_supported c then Unsupported
          else (case fetch_pages pr (hc_page c symbol) since_ms until_ms max_pages (max 0 since_ms) 0 [] of
              Inl e \<Rightarrow> Raises e
            | Inr (m, pages) \<Rightarrow> Fetched (sort_key hr_time (map snd m)) pages))"

section \<open>Insertion\<close>

definition insert_step :: "leg \<Rightarrow> int list \<times> funding_row list \<Rightarrow> history_record \<Rightarrow> int list \<times> funding_row list" where
  "insert_step leg st r =
     (case st of (existing, new_rows) \<Rightarrow>
       let b = bucket_15m (hr_time r) in
       if b \<in> set existing then (existing, new_rows)
       else (b # existing,
             new_rows @ [\<lparr>fr_exchange = Some (fst leg), fr_symbol = Some (snd leg), fr_rate = Some (hr_rate r),
               fr_time = Some (hr_time r)\<rparr>]))"

definition existing_buckets :: "funding_row list \<Rightarrow> leg \<Rightarrow> real \<Rightarrow> real \<Rightarrow> int list" where
  "existing_buckets db leg since until =
     map (\<lambda>r. bucket_15m (row_time r))
       (filter (\<lambda>r. of_leg (fst leg) (snd leg) r \<and> fr_time r \<noteq> None \<and> since \<le> row_time r \<and> row_time r \<le> until) db)"

text \<open>The rows to insert; the table is extended by them.\<close>

definition rows_to_insert :: "funding_row list \<Rightarrow> leg \<Rightarrow> history_record list \<Rightarrow> real \<Rightarrow> real \<Rightarrow> funding_row list" where
  "rows_to_insert db leg records since until =
     (if snd leg = [] then [] else snd (foldl (insert_step leg) (existing_buckets db leg since until, []) records))"

section \<open>The loop over the legs\<close>

record refresh_report =
  rs_requested :: nat
  rs_processed :: nat
  rs_attempted :: nat
  rs_refreshed :: nat
  rs_skipped :: nat
  rs_unsupported :: nat
  rs_fetched :: nat
  rs_inserted :: nat
  rs_errors :: "string list"

record refresh_state =
  rt_cache :: "(leg \<times> real) list"
  rt_db :: "funding_row list"
  rt_stats :: stability_cache
  rt_report :: refresh_report

record refresh_env =
  re_parsers :: parsers
  re_client :: "int \<Rightarrow> history_client option"
  re_exchange :: "int \<Rightarrow> exchange_row option"
  re_now :: real

definition no_report :: refresh_report where
  "no_report = \<lparr>rs_requested = 0, rs_processed = 0, rs_attempted = 0, rs_refreshed = 0, rs_skipped = 0,
     rs_unsupported = 0, rs_fetched = 0, rs_inserted = 0, rs_errors = []\<rparr>"

definition add_error :: "string \<Rightarrow> refresh_report \<Rightarrow> refresh_report" where
  "add_error e r = r\<lparr>rs_errors := rs_errors r @ [e]\<rparr>"

definition leg_text :: "leg \<Rightarrow> string" where
  "leg_text leg = str_of_int (fst leg) @ '':'' @ snd leg"

text \<open>One leg that is due: the exchange is asked and new points are stored.\<close>

definition refresh_due_leg :: "refresh_env \<Rightarrow> real \<Rightarrow> leg \<Rightarrow> exchange_row \<Rightarrow> refresh_state \<Rightarrow> refresh_state" where
  "refresh_due_leg env days leg x st =
     (let rep = (rt_report st)\<lparr>rs_attempted := rs_attempted (rt_report st) + 1\<rparr>;
          cache = AList.update leg (re_now env) (rt_cache st);
          since = re_now env - days * 86400; until = re_now env;
          failed = (\<lambda>e. st\<lparr>rt_cache := AList.delete leg cache,
                           rt_report := add_error (ex_name x @ '':'' @ snd leg @ '':'' @ e) rep\<rparr>)
      in case fetch_exchange_funding_history (re_parsers env) (re_client env (fst leg)) (snd leg) (millis since) (millis until) of
           Unsupported \<Rightarrow> st\<lparr>rt_cache := cache, rt_report := rep\<lparr>rs_unsupported := rs_unsupported rep + 1\<rparr>\<rparr>
         | FetchError e \<Rightarrow> failed e
         | Raises e \<Rightarrow> failed e
         | Fetched records pages \<Rightarrow>
             let rep1 = rep\<lparr>rs_fetched := rs_fetched rep + length records\<rparr>;
                 new_rows = rows_to_insert (rt_db st) leg records since until
             in if new_rows = [] then st\<lparr>rt_cache := cache, rt_report := rep1\<rparr>
                else st\<lparr>rt_cache := cache, rt_db := rt_db st @ new_rows,
                        rt_stats := invalidate_leg (fst leg) (Some (snd leg)) (rt_stats st),
                        rt_report := rep1\<lparr>rs_refreshed := rs_refreshed rep1 + 1,
                          rs_inserted := rs_inserted rep1 + length new_rows\<rparr>\<rparr>)"

definition refresh_leg :: "refresh_env \<Rightarrow> real \<Rightarrow> int \<Rightarrow> bool \<Rightarrow> refresh_state \<Rightarrow> leg \<Rightarrow> refresh_state" where
  "refresh_leg env days ttl force st target =
     (let leg = (fst target, normalize_history_symbol (Some (snd target)));
          last_refresh = (case map_of (rt_cache st) leg of Some t \<Rightarrow> t | None \<Rightarrow> 0);
          st' =
            (if fst leg \<le> 0 \<or> snd leg = [] then st
             else if \<not> force \<and> ttl > 0 \<and> last_refresh > 0 \<and> re_now env - last_refresh < of_int ttl
             then st\<lparr>rt_report := (rt_report st)\<lparr>rs_skipped := rs_skipped (rt_report st) + 1\<rparr>\<rparr>
             else (case re_exchange env (fst leg) of
                 None \<Rightarrow> st\<lparr>rt_report := add_error (''exchange_not_found:'' @ leg_text leg) (rt_report st)\<rparr>
               | Some x \<Rightarrow> refresh_due_leg env days leg x st))
      in st'\<lparr>rt_report := (rt_report st')\<lparr>rs_processed := rs_processed (rt_report st') + 1\<rparr>\<rparr>)"

definition default_refresh_ttl :: int where "default_refresh_ttl = 10 * 60"

text \<open>A large refresh cache is pruned of entries eight times the time to live old.\<close>

definition prune_refresh_cache :: "real \<Rightarrow> int \<Rightarrow> (leg \<times> real) list \<Rightarrow> (leg \<times> real) list" where
  "prune_refresh_cache now ttl cache =
     (if length cache > 4000 then
        (let stale_before = now - of_int (max default_refresh_ttl (if ttl = 0 then default_refresh_ttl else ttl)) * 8
         in filter (\<lambda>e. \<not> snd e < stale_before) cache)
      else cache)"

definition refresh_funding_history_targets ::
    "refresh_env \<Rightarrow> leg list \<Rightarrow> int \<Rightarrow> int \<Rightarrow> bool \<Rightarrow> (leg \<times> real) list \<Rightarrow> funding_row list \<Rightarrow> stability_cache \<Rightarrow> refresh_state" where
  "refresh_funding_history_targets env targets history_days refresh_ttl force cache db stats =
     (let ttl = max 0 refresh_ttl;
          days = max 1 (min 15 (if history_days = 0 then 1 else history_days));
          max_legs = max 1 (min max_refresh_legs (length targets));
          st0 = \<lparr>rt_cache = prune_refresh_cache (re_now env) ttl cache, rt_db = db, rt_stats = stats,
                 rt_report = no_report\<lparr>rs_requested := min (length targets) max_legs\<rparr>\<rparr>
      in foldl (refresh_leg env (of_int days) ttl force) st0 (take max_legs targets))"

section \<open>What a download returns\<close>

definition sound_record :: "int \<Rightarrow> int \<Rightarrow> history_record \<Rightarrow> bool" where
  "sound_record since_ms until_ms r \<longleftrightarrow> \<bar>hr_rate r\<bar> < 5 \<and> in_download_window since_ms until_ms (hr_time r)"

text \<open>The bucketed records: keyed by their bucket, each once, each sound.\<close>

definition sound_buckets :: "int \<Rightarrow> int \<Rightarrow> (int \<times> history_record) list \<Rightarrow> bool" where
  "sound_buckets since_ms until_ms m \<longleftrightarrow>
     distinct (map fst m) \<and> (\<forall>(b, r) \<in> set m. b = bucket_15m (hr_time r) \<and> sound_record since_ms until_ms r)"

lemma sound_update:
  assumes "sound_buckets s u m" "sound_record s u r"
  shows "sound_buckets s u (AList.update (bucket_15m (hr_time r)) r m)"
proof -
  have "\<forall>(b, x) \<in> set (AList.update (bucket_15m (hr_time r)) r m). b = bucket_15m (hr_time x) \<and> sound_record s u x"
    using assms unfolding sound_buckets_def
  proof (induction m)
    case (Cons a m)
    then show ?case by (cases a) auto
  qed simp
  with assms show ?thesis by (simp add: sound_buckets_def distinct_update)
qed

lemma keep_latest_sound: "sound_buckets s u m \<Longrightarrow> sound_record s u r \<Longrightarrow> sound_buckets s u (keep_latest r m)"
  by (auto simp: keep_latest_def sound_update split: option.split)

lemma point_step_sound:
  "sound_buckets s u m \<Longrightarrow> sound_buckets s u (snd (point_step pr s u (pm, m) p)) \<and> pm \<le> fst (point_step pr s u (pm, m) p)"
  by (auto simp: point_step_def usable_point_def sound_record_def Let_def intro!: keep_latest_sound split: option.splits if_splits)

lemma points_sound:
  "sound_buckets s u m \<Longrightarrow>
   sound_buckets s u (snd (foldl (point_step pr s u) (pm, m) pts)) \<and> pm \<le> fst (foldl (point_step pr s u) (pm, m) pts)"
proof (induction pts arbitrary: pm m)
  case (Cons p pts)
  obtain pm1 m1 where s1: "point_step pr s u (pm, m) p = (pm1, m1)" by fastforce
  then have "sound_buckets s u m1" "pm \<le> pm1" using point_step_sound[OF Cons.prems, of pr pm p] by auto
  with Cons.IH[of m1 pm1] s1 show ?case by auto
qed simp

lemma fetch_pages_sound:
  "sound_buckets s u m \<Longrightarrow> fetch_pages pr client s u n cursor pages m = Inr (m', pages') \<Longrightarrow>
   sound_buckets s u m' \<and> pages' \<le> pages + n"
proof (induction n arbitrary: cursor pages m)
  case (Suc n)
  show ?case
  proof (cases "cursor > u \<or> (\<exists>e. client cursor = PageError e) \<or> client cursor = Page []")
    case True
    with Suc.prems show ?thesis by (auto split: if_splits)
  next
    case False
    then obtain pts where pts: "client cursor = Page pts" "pts \<noteq> []" by (cases "client cursor") auto
    obtain pm m1 where f: "foldl (point_step pr s u) (cursor, m) pts = (pm, m1)" by fastforce
    have "sound_buckets s u m1" using points_sound[OF Suc.prems(1), of pr cursor pts] f by simp
    with Suc.prems(2) Suc.IH[of m1 "pm + 1" "pages + 1"] False pts f show ?thesis by (auto split: if_splits)
  qed
qed auto

text \<open>The download only moves forward: what the client would answer before the cursor is never used.\<close>

lemma fetch_pages_forward:
  "(\<And>c. cursor \<le> c \<Longrightarrow> c \<le> u \<Longrightarrow> client c = client' c) \<Longrightarrow>
   fetch_pages pr client s u n cursor pages m = fetch_pages pr client' s u n cursor pages m"
proof (induction n arbitrary: cursor pages m)
  case (Suc n)
  show ?case
  proof (cases "cursor \<le> u")
    case True
    then have c: "client cursor = client' cursor" using Suc.prems by simp
    have "fetch_pages pr client s u n (pm + 1) (pages + 1) m1 = fetch_pages pr client' s u n (pm + 1) (pages + 1) m1"
      if "cursor < pm" for pm m1
      by (rule Suc.IH, rule Suc.prems) (use that in auto)
    with c show ?thesis by (auto split: page.splits prod.splits)
  qed simp
qed simp

text \<open>
  A download is bounded and clean. It asks for at most 20 pages, and what it returns is
  in the order of time, has at most one record per 15-minute bucket, no rate of 500 percent
  or more, and nothing further than one bucket outside the window that was asked for,
  whatever the exchange answers.
\<close>

theorem fetched_history_sound:
  assumes "fetch_exchange_funding_history pr client symbol since_ms until_ms = Fetched records pages"
  shows "pages \<le> max_pages \<and> sorted (map hr_time records)
    \<and> distinct (map (\<lambda>r. bucket_15m (hr_time r)) records)
    \<and> (\<forall>r \<in> set records. \<bar>hr_rate r\<bar> < 5 \<and> since_ms - bucket_ms \<le> millis (hr_time r)
         \<and> millis (hr_time r) \<le> until_ms + bucket_ms)"
proof -
  from assms obtain c :: history_client and m where m: "fetch_pages pr (hc_page c symbol) since_ms until_ms max_pages (max 0 since_ms) 0 [] = Inr (m, pages)"
    "records = sort_key hr_time (map snd m)"
    by (auto simp: fetch_exchange_funding_history_def split: option.splits if_splits sum.splits prod.splits)
  have s: "sound_buckets since_ms until_ms m \<and> pages \<le> 0 + max_pages"
    by (rule fetch_pages_sound[OF _ m(1)]) (simp add: sound_buckets_def)
  then have "map (\<lambda>r. bucket_15m (hr_time r)) (map snd m) = map fst m"
    by (auto simp: sound_buckets_def)
  with s have "distinct (map (\<lambda>r. bucket_15m (hr_time r)) (map snd m))" unfolding sound_buckets_def by metis
  moreover have "mset (map (\<lambda>r. bucket_15m (hr_time r)) records) = mset (map (\<lambda>r. bucket_15m (hr_time r)) (map snd m))"
    unfolding m(2) mset_map mset_sort ..
  ultimately have "distinct (map (\<lambda>r. bucket_15m (hr_time r)) records)" by (metis mset_eq_imp_distinct_iff)
  with s show ?thesis unfolding m(2)
    by (force simp: sound_buckets_def sound_record_def in_download_window_def)
qed

definition sample_point :: raw_point where
  "sample_point = \<lparr>rp_field = (\<lambda>k. if k = ''fundingRate'' then Some (RNum (1 / 1000)) else if k = ''timestamp'' then Some (RNum 1000) else None),
     rp_info = (\<lambda>_. None)\<rparr>"

definition plain_parsers :: parsers where
  "plain_parsers = \<lparr>pr_float = (\<lambda>_. None), pr_iso = (\<lambda>_. None)\<rparr>"

definition one_page_client :: history_client where
  "one_page_client = \<lparr>hc_supported = True, hc_page = (\<lambda>_ _. Page [sample_point])\<rparr>"

lemma sample_download:
  "fetch_exchange_funding_history plain_parsers (Some one_page_client) ''X'' 0 2000000
     = Fetched [\<lparr>hr_time = 1000, hr_rate = 1 / 1000, hr_next = None\<rparr>] 1"
  by (simp add: fetch_exchange_funding_history_def one_page_client_def max_pages_def eval_nat_numeral page_limit_def
      point_step_def usable_point_def point_rate_def point_time_def point_next_def sample_point_def or_else_def
      number_of_def parse_any_datetime_def epoch_secs_def in_download_window_def millis_def py_trunc_def bucket_ms_def
      bucket_secs_def keep_latest_def Let_def)

theorem fetched_history_sound_witness:
  "\<exists>records pages. fetch_exchange_funding_history plain_parsers (Some one_page_client) ''X'' 0 2000000 = Fetched records pages
     \<and> pages \<le> max_pages \<and> records \<noteq> [] \<and> sorted (map hr_time records)"
  using fetched_history_sound[OF sample_download] sample_download by blast

section \<open>Storing history twice\<close>

lemma insert_step_known:
  "bucket_15m (hr_time r) \<in> set existing \<Longrightarrow> insert_step leg (existing, rows) r = (existing, rows)"
  by (simp add: insert_step_def)

lemma insert_known:
  "(\<And>r. r \<in> set records \<Longrightarrow> bucket_15m (hr_time r) \<in> set existing) \<Longrightarrow>
   foldl (insert_step leg) (existing, rows) records = (existing, rows)"
  by (induction records) (auto simp: insert_step_known)

lemma insert_covers:
  "foldl (insert_step leg) (existing, rows) records = (existing', rows') \<Longrightarrow>
   set existing \<subseteq> set existing' \<and> (\<forall>r \<in> set records. bucket_15m (hr_time r) \<in> set existing')"
proof (induction records arbitrary: existing rows)
  case (Cons r records)
  obtain e1 r1 where s: "insert_step leg (existing, rows) r = (e1, r1)" by fastforce
  then have "set existing \<subseteq> set e1" "bucket_15m (hr_time r) \<in> set e1"
    by (auto simp: insert_step_def Let_def split: if_splits)
  with Cons.IH[of e1 r1] Cons.prems s show ?case by auto
qed simp

text \<open>The inserted rows belong to the leg, come from the records, and fall into new buckets, each once.\<close>

definition new_rows_ok :: "leg \<Rightarrow> history_record list \<Rightarrow> int list \<Rightarrow> funding_row list \<Rightarrow> bool" where
  "new_rows_ok leg records existing rows \<longleftrightarrow>
     (\<forall>x \<in> set rows. of_leg (fst leg) (snd leg) x
        \<and> (\<exists>r \<in> set records. fr_time x = Some (hr_time r) \<and> fr_rate x = Some (hr_rate r))
        \<and> bucket_15m (row_time x) \<notin> set existing)
     \<and> distinct (map (\<lambda>x. bucket_15m (row_time x)) rows)"

lemma insert_rows_ok:
  assumes "foldl (insert_step leg) (e, rows) rs = (e', rows')" "set rs \<subseteq> set records"
    "new_rows_ok leg records existing rows" "set e = set existing \<union> set (map (\<lambda>x. bucket_15m (row_time x)) rows)"
  shows "new_rows_ok leg records existing rows'
    \<and> set e' = set existing \<union> set (map (\<lambda>x. bucket_15m (row_time x)) rows')"
  using assms
proof (induction rs arbitrary: e rows)
  case (Cons r rs)
  show ?case
  proof (cases "bucket_15m (hr_time r) \<in> set e")
    case True
    with Cons show ?thesis by (simp add: insert_step_known)
  next
    case False
    let ?x = "\<lparr>fr_exchange = Some (fst leg), fr_symbol = Some (snd leg), fr_rate = Some (hr_rate r), fr_time = Some (hr_time r)\<rparr>"
    have s: "insert_step leg (e, rows) r = (bucket_15m (hr_time r) # e, rows @ [?x])"
      using False by (simp add: insert_step_def Let_def)
    have t: "bucket_15m (row_time ?x) = bucket_15m (hr_time r)" by (simp add: row_time_def)
    have "new_rows_ok leg records existing (rows @ [?x])"
      using Cons.prems(2,3,4) False t by (auto simp: new_rows_ok_def of_leg_def)
    with Cons.IH[of "bucket_15m (hr_time r) # e" "rows @ [?x]"] Cons.prems(1,2,4) s t show ?thesis by auto
  qed
qed auto

lemma rows_to_insert_ok: "new_rows_ok leg records (existing_buckets db leg since until) (rows_to_insert db leg records since until)"
proof (cases "snd leg = []")
  case False
  obtain e rows where f: "foldl (insert_step leg) (existing_buckets db leg since until, []) records = (e, rows)" by fastforce
  from insert_rows_ok[OF f, of records "existing_buckets db leg since until"] f False show ?thesis
    by (simp add: rows_to_insert_def new_rows_ok_def)
qed (simp add: rows_to_insert_def new_rows_ok_def)

lemma existing_after_insert:
  assumes "foldl (insert_step leg) (existing_buckets db leg since until, []) records = (e, rows)"
    "\<And>r. r \<in> set records \<Longrightarrow> since \<le> hr_time r \<and> hr_time r \<le> until"
  shows "set (existing_buckets (db @ rows) leg since until) = set e"
proof -
  have ok: "new_rows_ok leg records (existing_buckets db leg since until) rows"
    "set e = set (existing_buckets db leg since until) \<union> set (map (\<lambda>x. bucket_15m (row_time x)) rows)"
    using insert_rows_ok[OF assms(1), of records "existing_buckets db leg since until"] by (simp_all add: new_rows_ok_def)
  have "x \<in> set rows \<Longrightarrow> of_leg (fst leg) (snd leg) x \<and> fr_time x \<noteq> None \<and> since \<le> row_time x \<and> row_time x \<le> until" for x
    using ok(1) assms(2) by (force simp: new_rows_ok_def row_time_def)
  then have "filter (\<lambda>r. of_leg (fst leg) (snd leg) r \<and> fr_time r \<noteq> None \<and> since \<le> row_time r \<and> row_time r \<le> until) rows = rows"
    by (simp add: filter_id_conv)
  then show ?thesis using ok(2) by (simp add: existing_buckets_def)
qed

text \<open>
  Storing the same history twice stores it once. Records inside the window go in at most
  once per bucket, into buckets that had no row; a second insertion of the same records adds
  nothing.
\<close>

theorem history_insert_idempotent:
  assumes "\<And>r. r \<in> set records \<Longrightarrow> since \<le> hr_time r \<and> hr_time r \<le> until"
  shows "rows_to_insert (db @ rows_to_insert db leg records since until) leg records since until = []
    \<and> distinct (map (\<lambda>x. bucket_15m (row_time x)) (rows_to_insert db leg records since until))
    \<and> (\<forall>x \<in> set (rows_to_insert db leg records since until).
         bucket_15m (row_time x) \<notin> set (existing_buckets db leg since until))"
proof -
  have "rows_to_insert (db @ rows_to_insert db leg records since until) leg records since until = []"
  proof (cases "snd leg = []")
    case False
    obtain e rows where f: "foldl (insert_step leg) (existing_buckets db leg since until, []) records = (e, rows)" by fastforce
    have "foldl (insert_step leg) (existing_buckets (db @ rows) leg since until, []) records
        = (existing_buckets (db @ rows) leg since until, [])"
      using insert_covers[OF f] existing_after_insert[OF f assms] by (intro insert_known) auto
    with f False show ?thesis by (simp add: rows_to_insert_def)
  qed (simp add: rows_to_insert_def)
  with rows_to_insert_ok[of leg records db since until] show ?thesis by (auto simp: new_rows_ok_def)
qed

theorem history_insert_idempotent_witness:
  "rows_to_insert [] (1, ''A'') [\<lparr>hr_time = 1000, hr_rate = 1, hr_next = None\<rparr>] 0 2000 \<noteq> []
   \<and> rows_to_insert ([] @ rows_to_insert [] (1, ''A'') [\<lparr>hr_time = 1000, hr_rate = 1, hr_next = None\<rparr>] 0 2000)
      (1, ''A'') [\<lparr>hr_time = 1000, hr_rate = 1, hr_next = None\<rparr>] 0 2000 = []"
proof -
  define r :: history_record where "r = \<lparr>hr_time = 1000, hr_rate = 1, hr_next = None\<rparr>"
  have "\<And>x. x \<in> set [r] \<Longrightarrow> 0 \<le> hr_time x \<and> hr_time x \<le> 2000" by (simp add: r_def)
  from history_insert_idempotent[OF this, where db = "[]" and leg = "(1, ''A'')"]
  have "rows_to_insert ([] @ rows_to_insert [] (1, ''A'') [r] 0 2000) (1, ''A'') [r] 0 2000 = []" by (rule conjunct1)
  moreover have "rows_to_insert [] (1, ''A'') [r] 0 2000 \<noteq> []"
    by (simp add: rows_to_insert_def existing_buckets_def insert_step_def Let_def)
  ultimately show ?thesis unfolding r_def by (rule conjI[rotated])
qed

text \<open>
  A point just before the window is stored again by every refresh. The download keeps
  points up to a bucket outside the window, but the existing rows are looked up inside it only:
  a record before the window is inserted although it is already there.
\<close>

theorem history_insert_duplicates_outside:
  assumes "snd leg \<noteq> []" "hr_time r < since" "bucket_15m (hr_time r) \<notin> set (existing_buckets db leg since until)"
  shows "length (rows_to_insert db leg [r] since until) = 1
    \<and> rows_to_insert (db @ rows_to_insert db leg [r] since until) leg [r] since until = rows_to_insert db leg [r] since until"
proof -
  have i: "rows_to_insert d leg [r] since until =
      [\<lparr>fr_exchange = Some (fst leg), fr_symbol = Some (snd leg), fr_rate = Some (hr_rate r), fr_time = Some (hr_time r)\<rparr>]"
    if "bucket_15m (hr_time r) \<notin> set (existing_buckets d leg since until)" for d
    using that assms(1) by (simp add: rows_to_insert_def insert_step_def Let_def)
  have "existing_buckets (db @ rows_to_insert db leg [r] since until) leg since until = existing_buckets db leg since until"
    using assms(2) by (simp add: i[OF assms(3)] existing_buckets_def row_time_def)
  with i[OF assms(3)] i assms(3) show ?thesis by simp
qed

theorem history_insert_duplicates_outside_witness:
  "length (rows_to_insert [] (1, ''A'') [\<lparr>hr_time = 950, hr_rate = 1, hr_next = None\<rparr>] 1000 2000) = 1
   \<and> in_download_window (millis 1000) (millis 2000) 950"
proof -
  have "length (rows_to_insert [] (1, ''A'') [\<lparr>hr_time = 950, hr_rate = 1, hr_next = None\<rparr>] 1000 2000) = 1"
    using history_insert_duplicates_outside[of "(1, ''A'')" "\<lparr>hr_time = 950, hr_rate = 1, hr_next = None\<rparr>" 1000 "[]" 2000]
    by (simp add: existing_buckets_def)
  then show ?thesis by (simp add: in_download_window_def millis_def py_trunc_def bucket_ms_def bucket_secs_def)
qed

section \<open>The report of a refresh\<close>

text \<open>Each processed leg has one outcome; the report counts them, the table grows by what it says.\<close>

definition report_sound :: "funding_row list \<Rightarrow> refresh_state \<Rightarrow> bool" where
  "report_sound db0 st \<longleftrightarrow>
     (let r = rt_report st in
      (\<exists>extra. rt_db st = db0 @ extra \<and> length extra = rs_inserted r)
      \<and> rs_refreshed r + rs_unsupported r \<le> rs_attempted r
      \<and> rs_attempted r + rs_skipped r \<le> rs_processed r
      \<and> length (rs_errors r) + rs_refreshed r + rs_unsupported r + rs_skipped r \<le> rs_processed r
      \<and> rs_refreshed r \<le> rs_inserted r)"

lemma report_sound_sels [simp]: "rt_report (st\<lparr>rt_report := r\<rparr>) = r" by simp

lemma report_step:
  assumes "report_sound db0 st"
  shows "report_sound db0 (refresh_leg env days ttl force st t)"
proof -
  obtain extra where e: "rt_db st = db0 @ extra" "length extra = rs_inserted (rt_report st)"
    using assms by (auto simp: report_sound_def Let_def)
  have due: "report_sound db0 (let st' = refresh_due_leg env days leg x st
      in st'\<lparr>rt_report := (rt_report st')\<lparr>rs_processed := rs_processed (rt_report st') + 1\<rparr>\<rparr>)" for leg x
  proof (cases "fetch_exchange_funding_history (re_parsers env) (re_client env (fst leg)) (snd leg)
      (millis (re_now env - days * 86400)) (millis (re_now env))")
    case (Fetched records pages)
    have pos: "rows \<noteq> [] \<Longrightarrow> a \<le> b \<Longrightarrow> a < b + length rows" for rows :: "funding_row list" and a b
      by (cases rows) auto
    show ?thesis
      using Fetched assms e by (auto simp: report_sound_def refresh_due_leg_def Let_def Suc_le_eq intro: pos)
  qed (use assms e in \<open>simp_all add: report_sound_def refresh_due_leg_def add_error_def Let_def\<close>)
  show ?thesis
  proof (cases "fst t \<le> 0 \<or> normalize_history_symbol (Some (snd t)) = []")
    case True
    with assms show ?thesis by (auto simp: report_sound_def refresh_leg_def Let_def)
  next
    case False
    with assms due[of "(fst t, normalize_history_symbol (Some (snd t)))"] show ?thesis
      by (auto simp: refresh_leg_def report_sound_def add_error_def Let_def split: option.split)
  qed
qed

lemma processed_step: "rs_processed (rt_report (refresh_leg env days ttl force st t)) = rs_processed (rt_report st) + 1
    \<and> rs_requested (rt_report (refresh_leg env days ttl force st t)) = rs_requested (rt_report st)"
proof -
  have "rs_processed (rt_report (refresh_due_leg env days leg x st)) = rs_processed (rt_report st)
      \<and> rs_requested (rt_report (refresh_due_leg env days leg x st)) = rs_requested (rt_report st)" for leg x
    by (simp add: refresh_due_leg_def add_error_def Let_def split: fetched.split)
  then show ?thesis by (simp add: refresh_leg_def add_error_def Let_def split: option.split)
qed

lemma processed_all:
  "rs_processed (rt_report (foldl (refresh_leg env days ttl force) st ts)) = rs_processed (rt_report st) + length ts
   \<and> rs_requested (rt_report (foldl (refresh_leg env days ttl force) st ts)) = rs_requested (rt_report st)"
  by (induction ts arbitrary: st) (simp_all add: processed_step)

lemma report_all: "report_sound db0 st \<Longrightarrow> report_sound db0 (foldl (refresh_leg env days ttl force) st ts)"
  by (induction ts arbitrary: st) (simp_all add: report_step)

text \<open>
  The refresh report is true. Every requested leg is processed once and has at most one
  outcome (skipped, unsupported, refreshed or an error); the stored table is the old one with
  exactly the reported number of new rows behind it, and a leg counts as refreshed only if it
  brought a row.
\<close>

theorem refresh_report_sound:
  "let st = refresh_funding_history_targets env targets days ttl force cache db stats; r = rt_report st in
    rs_requested r = min (length targets) max_refresh_legs \<and> rs_processed r = rs_requested r
    \<and> length (rs_errors r) + rs_refreshed r + rs_unsupported r + rs_skipped r \<le> rs_processed r
    \<and> rs_attempted r + rs_skipped r \<le> rs_processed r \<and> rs_refreshed r \<le> rs_inserted r
    \<and> length (rt_db st) = length db + rs_inserted r \<and> take (length db) (rt_db st) = db"
proof -
  define max_legs where "max_legs = max 1 (min max_refresh_legs (length targets))"
  define st0 where "st0 = \<lparr>rt_cache = prune_refresh_cache (re_now env) (max 0 ttl) cache, rt_db = db, rt_stats = stats,
     rt_report = no_report\<lparr>rs_requested := min (length targets) max_legs\<rparr>\<rparr>"
  define days' where "days' = max 1 (min 15 (if days = 0 then 1 else days))"
  define st where "st = foldl (refresh_leg env (of_int days') (max 0 ttl) force) st0 (take max_legs targets)"
  have run: "refresh_funding_history_targets env targets days ttl force cache db stats = st"
    by (simp add: refresh_funding_history_targets_def st_def st0_def max_legs_def days'_def Let_def)
  have "report_sound db st0" by (simp add: report_sound_def st0_def no_report_def)
  then have rep: "report_sound db st" unfolding st_def by (rule report_all)
  have "rs_processed (rt_report st) = length (take max_legs targets) \<and> rs_requested (rt_report st) = min (length targets) max_legs"
    using processed_all[of env "of_int days'" "max 0 ttl" force st0 "take max_legs targets"]
    unfolding st_def[symmetric] by (auto simp: st0_def no_report_def)
  moreover have "min (length targets) max_legs = min (length targets) max_refresh_legs"
    by (auto simp: max_legs_def max_refresh_legs_def)
  ultimately show ?thesis unfolding run using rep by (auto simp: report_sound_def Let_def)
qed

end
