(* ===== verification/Scanner.thy ===== *)
theory Scanner
  imports FundingHistory OpenCycle
begin

text \<open>
  The opportunity scan (\<open>_scan_spot_basis_opportunities\<close> of \<open>core/spot_basis_runtime/scanner.py\<close>)
  and the call of it by the cycle (\<open>_build_open_scan_for_auto\<close> of \<open>cycle_context.py\<close>): the net
  asset value with its age, the symbols that are scanned, the rows of each symbol, and the
  order in which they are reported. \<open>_MANDATORY_REALTIME_FUNDING_REFRESH\<close> is off. The scan
  metadata that only the user interface shows is left out.
\<close>

section \<open>Inputs\<close>

text \<open>\<open>_parse_ids\<close> (\<open>base.py\<close>): the numbers in a comma-separated list.\<close>

fun split_commas :: "string \<Rightarrow> string \<Rightarrow> string list" where
  "split_commas acc [] = [acc]"
| "split_commas acc (c # s) = (if c = CHR '','' then acc # split_commas [] s else split_commas (acc @ [c]) s)"

definition is_digits :: "string \<Rightarrow> bool" where
  "is_digits s \<longleftrightarrow> s \<noteq> [] \<and> list_all is_digit_char s"

definition parse_ids :: "string \<Rightarrow> int list" where
  "parse_ids csv =
     (if csv = [] then []
      else map (\<lambda>s. int (digits_value s)) (filter is_digits (map py_strip (split_commas [] csv))))"

text \<open>
  \<open>_latest_nav_snapshot\<close> (\<open>history_logic.py\<close>): value, staleness and age of the last equity
  snapshot; snapshots always have a time here.
\<close>

definition latest_nav_snapshot :: "equity_row list \<Rightarrow> int \<Rightarrow> real \<Rightarrow> real \<times> bool \<times> int option" where
  "latest_nav_snapshot rows stale_after now =
     (case latest_equity rows of
        None \<Rightarrow> (0, True, None)
      | Some r \<Rightarrow>
          let age = max 0 (py_trunc (now - eq_time r))
          in (pos_part (to_float (eq_total r) 0), age > max 30 stale_after, Some age))"

record scan_request =
  qr_symbol :: string
  qr_min_rate :: real
  qr_min_perp_volume :: real
  qr_min_spot_volume :: real
  qr_min_basis_pct :: real
  qr_perp_ids :: string
  qr_spot_ids :: string
  qr_cross :: bool
  qr_mode :: string
  qr_sort_by :: string
  qr_limit :: "nat option"
  qr_refresh :: bool
  qr_refresh_days :: int
  qr_refresh_limit :: nat
  qr_refresh_ttl :: int
  qr_refresh_force :: bool

text \<open>What the scan reads: configuration, market data, equity, holds, clients.\<close>

record scan_source =
  so_cfg :: auto_cfg
  so_market :: market_data
  so_equity :: "equity_row list"
  so_client :: "exchange_row \<Rightarrow> string \<Rightarrow> fee_client option"
  so_holds :: "hold list"
  so_now :: real
  so_parsers :: parsers
  so_history :: "int \<Rightarrow> history_client option"

text \<open>The state the scan threads: the caches of the runtime and the stored funding history.\<close>

record scan_state =
  sst_caches :: scan_caches
  sst_refresh :: "(leg \<times> real) list"
  sst_funding :: "funding_row list"

definition no_scan_errors :: scan_errors where
  "no_scan_errors = \<lparr>rf_errors = [], rf_error = None, rf_error_count = 0\<rparr>"

section \<open>The symbols of a scan\<close>

definition max_of :: "real list \<Rightarrow> real" where
  "max_of xs = fold max (tl xs) (hd xs)"

definition coarse_symbol_rank :: "perp_entry list \<Rightarrow> real" where
  "coarse_symbol_rank entries =
     (if entries = [] then - 1000000000
      else max_of (map pe_annualized_pct entries) + max_of (map pe_rate_pct entries) * 120
        + clampr (max_of (map pe_volume entries) / 100000000) 0 3)"

definition scan_cap :: "nat option \<Rightarrow> nat" where
  "scan_cap limit = max 80 (min 140 (max 1 (case limit of None \<Rightarrow> 200 | Some n \<Rightarrow> if n = 0 then 200 else n)))"

text \<open>A switch scan keeps the symbols of the current holds.\<close>

fun add_held_symbols ::
    "(string \<times> perp_entry list) list \<Rightarrow> (string \<times> perp_entry list) list \<Rightarrow> hold list \<Rightarrow> (string \<times> perp_entry list) list" where
  "add_held_symbols ranked selected [] = selected"
| "add_held_symbols ranked selected (h # hs) =
     (let s = normalize_symbol_key (hd_symbol h) in
      add_held_symbols ranked
        (case map_of ranked s of
           None \<Rightarrow> selected
         | Some es \<Rightarrow> if s = [] \<or> s \<in> fst ` set selected then selected else selected @ [(s, es)]) hs)"

definition select_symbols ::
    "string \<Rightarrow> string \<Rightarrow> nat option \<Rightarrow> hold list \<Rightarrow> (string \<times> perp_entry list) list \<Rightarrow> (string \<times> perp_entry list) list" where
  "select_symbols symbol_like mode limit holds items =
     (if symbol_like = [] \<and> items \<noteq> [] \<and> length items > scan_cap limit then
        (let ranked = sort_desc (\<lambda>it. coarse_symbol_rank (snd it)) items;
             selected = take (scan_cap limit) ranked
         in if mode = ''switch'' then add_held_symbols ranked selected holds else selected)
      else items)"

section \<open>The scan\<close>

definition sort_value :: "string \<Rightarrow> opportunity \<Rightarrow> real" where
  "sort_value sort_by op =
     (if sort_by = ''basis_abs'' then to_float (sr_basis_abs_usd (op_row op)) 0
      else if sort_by = ''basis_pct'' then to_float (sr_basis_pct (op_row op)) 0
      else if sort_by = ''score'' then op_legacy_score op
      else if sort_by = ''score_strict'' then to_float (sr_score (op_row op)) (op_legacy_score op)
      else op_annualized op)"

definition limit_rows :: "nat option \<Rightarrow> 'a list \<Rightarrow> 'a list" where
  "limit_rows limit rows = (case limit of None \<Rightarrow> rows | Some n \<Rightarrow> take n rows)"

definition filter_of_request :: "scan_request \<Rightarrow> scan_filter" where
  "filter_of_request rq =
     \<lparr>sf_mode = normalize_action_mode (Some (qr_mode rq)), sf_min_rate = qr_min_rate rq,
      sf_min_perp_volume = qr_min_perp_volume rq, sf_min_spot_volume = qr_min_spot_volume rq,
      sf_min_basis_pct = qr_min_basis_pct rq, sf_perp_ids = parse_ids (qr_perp_ids rq),
      sf_spot_ids = parse_ids (qr_spot_ids rq), sf_cross = qr_cross rq\<rparr>"

definition nav_ttl :: "auto_cfg \<Rightarrow> int" where
  "nav_ttl cfg = max 30 (int_or 20 (cfg_data_stale_threshold_seconds cfg) * 3)"

definition env_of_source :: "scan_source \<Rightarrow> funding_row list \<Rightarrow> real \<Rightarrow> bool \<Rightarrow> scan_env" where
  "env_of_source src funding nav stale =
     \<lparr>sv_now = so_now src, sv_market = so_market src, sv_funding_db = funding, sv_client = so_client src,
      sv_cfg = so_cfg src, sv_nav = nav, sv_nav_stale = stale\<rparr>"

definition symbol_step ::
    "scan_env \<Rightarrow> scan_filter \<Rightarrow> opportunity list \<times> scan_caches \<Rightarrow> string \<times> perp_entry list \<Rightarrow> opportunity list \<times> scan_caches" where
  "symbol_step env flt st it =
     (case st of (rows, c) \<Rightarrow>
       case collect_symbol_rows env flt (fst it) (snd it) c of (found, c') \<Rightarrow> (rows @ found, c'))"

definition scan_items :: "scan_source \<Rightarrow> scan_request \<Rightarrow> (string \<times> perp_entry list) list" where
  "scan_items src rq =
     (let symbol_like = py_strip (py_upper (qr_symbol rq)) in
      select_symbols symbol_like (normalize_action_mode (Some (qr_mode rq))) (qr_limit rq) (so_holds src)
        (build_perp_symbol_entries (so_market src) (so_now src) symbol_like))"

text \<open>The refresh of the legs of the scanned symbols, when it is asked for.\<close>

definition scan_errors_of :: "refresh_report \<Rightarrow> scan_errors" where
  "scan_errors_of r = \<lparr>rf_errors = take 20 (rs_errors r), rf_error = None, rf_error_count = int (length (rs_errors r))\<rparr>"

definition scan_refresh ::
    "scan_source \<Rightarrow> scan_request \<Rightarrow> (string \<times> perp_entry list) list \<Rightarrow> scan_state \<Rightarrow> scan_errors \<times> scan_state" where
  "scan_refresh src rq items st =
     (if \<not> qr_refresh rq \<or> items = [] then (no_scan_errors, st)
      else
        let ids = parse_ids (qr_perp_ids rq);
            targets = filter (\<lambda>t. allowed_id ids (fst t)) (map fst (build_funding_refresh_targets items (qr_refresh_limit rq)));
            env = \<lparr>re_parsers = so_parsers src, re_client = so_history src, re_exchange = md_exchanges (so_market src),
                   re_now = so_now src\<rparr>;
            days = max 1 (if qr_refresh_days rq = 0 then 3 else qr_refresh_days rq);
            out = refresh_funding_history_targets env targets days (max 0 (qr_refresh_ttl rq)) (qr_refresh_force rq)
              (sst_refresh st) (sst_funding st) (sc_stats (sst_caches st))
        in (scan_errors_of (rt_report out),
            \<lparr>sst_caches = (sst_caches st)\<lparr>sc_stats := rt_stats out\<rparr>, sst_refresh = rt_cache out, sst_funding = rt_db out\<rparr>))"

definition scan_spot_basis_opportunities :: "scan_source \<Rightarrow> scan_request \<Rightarrow> scan_state \<Rightarrow> scan_result \<times> scan_state" where
  "scan_spot_basis_opportunities src rq st =
     (let (nav_total, stale, age) = latest_nav_snapshot (so_equity src) (nav_ttl (so_cfg src)) (so_now src);
          nav_used = (if stale then 0 else nav_total);
          flt = filter_of_request rq;
          items = scan_items src rq;
          (errors, st1) = scan_refresh src rq items st;
          (rows, c) = foldl (symbol_step (env_of_source src (sst_funding st1) nav_used stale) flt) ([], sst_caches st1) items;
          reported = limit_rows (qr_limit rq) (sort_desc (sort_value (qr_sort_by rq)) rows)
      in (\<lparr>sn_rows = map op_row reported,
           sn_nav = \<lparr>nm_used_usd = Some (py_round nav_used 2), nm_total_usd = Some (py_round nav_total 2), nm_is_stale = stale\<rparr>,
           sn_errors = errors\<rparr>, st1\<lparr>sst_caches := c\<rparr>))"

text \<open>\<open>_build_open_scan_for_auto\<close>.\<close>

definition auto_request :: scan_request where
  "auto_request =
     \<lparr>qr_symbol = [], qr_min_rate = 1 / 100, qr_min_perp_volume = 0, qr_min_spot_volume = 0, qr_min_basis_pct = 0,
      qr_perp_ids = [], qr_spot_ids = [], qr_cross = False, qr_mode = ''open'', qr_sort_by = ''score_strict'',
      qr_limit = None, qr_refresh = False, qr_refresh_days = 3, qr_refresh_limit = 40, qr_refresh_ttl = 600,
      qr_refresh_force = False\<rparr>"

definition build_open_scan_for_auto :: "scan_source \<Rightarrow> scan_state \<Rightarrow> scan_result \<times> scan_state" where
  "build_open_scan_for_auto src st = scan_spot_basis_opportunities src auto_request st"

end
