(* ===== verification/ScanLaws.thy ===== *)
theory ScanLaws
  imports Scanner
begin

text \<open>
  What the scan promises to the engine: rows that passed the gates, in the order of the score,
  within the limit; no entries on a stale net asset value; and which symbols a wide market
  drops. A switch scan keeps the symbols that are held, the open scan of the cycle does not.
\<close>

section \<open>Identifier lists\<close>

definition join_ids :: "nat list \<Rightarrow> string" where
  "join_ids ns = (case ns of [] \<Rightarrow> [] | n # rest \<Rightarrow> digits_of n @ concat (map (\<lambda>m. CHR '','' # digits_of m) rest))"

lemma split_commas_plain: "CHR '','' \<notin> set s \<Longrightarrow> split_commas acc s = [acc @ s]"
  by (induction s arbitrary: acc) auto

lemma split_commas_append:
  "CHR '','' \<notin> set s \<Longrightarrow> split_commas acc (s @ CHR '','' # t) = (acc @ s) # split_commas [] t"
  by (induction s arbitrary: acc) auto

lemma comma_not_digit: "CHR '','' \<notin> set (digits_of n)"
  by (rule not_digit_notin) (simp add: is_digit_char_def)

lemma split_join: "split_commas [] (join_ids (n # ns)) = map digits_of (n # ns)"
proof (induction ns arbitrary: n)
  case Nil
  then show ?case by (simp add: join_ids_def split_commas_plain comma_not_digit)
next
  case (Cons m ns)
  have "split_commas [] (join_ids (n # m # ns)) = digits_of n # split_commas [] (join_ids (m # ns))"
    using split_commas_append[OF comma_not_digit, of "[]"] by (simp add: join_ids_def)
  with Cons show ?case by simp
qed

lemma strip_no_space: "(\<And>c. c \<in> set s \<Longrightarrow> \<not> is_space c) \<Longrightarrow> py_strip s = s"
proof -
  assume ns: "\<And>c. c \<in> set s \<Longrightarrow> \<not> is_space c"
  have drop: "dropWhile is_space t = t" if "set t \<subseteq> set s" for t
    using that ns by (cases t) auto
  show ?thesis by (simp add: py_strip_def drop)
qed

lemma digit_not_space: "is_digit_char c \<Longrightarrow> \<not> is_space c"
  by (auto simp: is_digit_char_def is_space_def Let_def)

lemma digits_is_digits: "is_digits (digits_of n)"
  using digits_of_digits by (auto simp: is_digits_def list_all_iff)

text \<open>
  An identifier list that was printed is read back: joining exchange ids with commas and
  parsing the text gives the ids.
\<close>

theorem parse_ids_roundtrip: "parse_ids (join_ids ns) = map int ns"
proof (cases ns)
  case (Cons n rest)
  have strip: "py_strip (digits_of m) = digits_of m" for m
    by (rule strip_no_space) (auto dest: digits_of_digits digit_not_space)
  have "join_ids ns \<noteq> []" by (simp add: Cons join_ids_def)
  then show ?thesis
    by (simp add: parse_ids_def Cons split_join strip digits_is_digits comp_def)
qed (simp add: parse_ids_def join_ids_def)

section \<open>The rows of a scan\<close>

text \<open>The intermediate results of a scan, by name.\<close>

definition scan_nav :: "scan_source \<Rightarrow> real \<times> bool \<times> int option" where
  "scan_nav src = latest_nav_snapshot (so_equity src) (nav_ttl (so_cfg src)) (so_now src)"

definition scan_nav_used :: "scan_source \<Rightarrow> real" where
  "scan_nav_used src = (if fst (snd (scan_nav src)) then 0 else fst (scan_nav src))"

definition scan_env_of :: "scan_source \<Rightarrow> scan_request \<Rightarrow> scan_state \<Rightarrow> scan_env" where
  "scan_env_of src rq st =
     env_of_source src (sst_funding (snd (scan_refresh src rq (scan_items src rq) st))) (scan_nav_used src) (fst (snd (scan_nav src)))"

definition scanned_rows :: "scan_source \<Rightarrow> scan_request \<Rightarrow> scan_state \<Rightarrow> opportunity list" where
  "scanned_rows src rq st =
     fst (foldl (symbol_step (scan_env_of src rq st) (filter_of_request rq))
       ([], sst_caches (snd (scan_refresh src rq (scan_items src rq) st))) (scan_items src rq))"

lemma scan_result_fields:
  "sn_rows (fst (scan_spot_basis_opportunities src rq st)) =
     map op_row (limit_rows (qr_limit rq) (sort_desc (sort_value (qr_sort_by rq)) (scanned_rows src rq st)))"
  "nm_is_stale (sn_nav (fst (scan_spot_basis_opportunities src rq st))) = fst (snd (scan_nav src))"
  "nm_used_usd (sn_nav (fst (scan_spot_basis_opportunities src rq st))) = Some (py_round (scan_nav_used src) 2)"
  unfolding scan_spot_basis_opportunities_def scanned_rows_def scan_env_of_def scan_nav_used_def scan_nav_def
  by (simp_all add: Let_def case_prod_beta)

lemma symbol_step_rows:
  "fst (symbol_step env flt (rows, c) it) = rows @ fst (collect_symbol_rows env flt (fst it) (snd it) c)"
  by (simp add: symbol_step_def case_prod_beta)

text \<open>A row of the scan comes from a sound candidate of one of the scanned symbols.\<close>

definition scan_row_ok :: "scan_env \<Rightarrow> scan_filter \<Rightarrow> (string \<times> perp_entry list) list \<Rightarrow> opportunity \<Rightarrow> bool" where
  "scan_row_ok env flt items op \<longleftrightarrow>
     (\<exists>it \<in> set items. \<exists>d. sound_candidate env flt (snd it) d \<and> op = row_of_candidate (fst it) d)"

lemma symbol_fold_ok:
  "set xs \<subseteq> set items \<Longrightarrow> \<forall>op \<in> set rows. scan_row_ok env flt items op \<Longrightarrow>
   \<forall>op \<in> set (fst (foldl (symbol_step env flt) (rows, c) xs)). scan_row_ok env flt items op"
proof (induction xs arbitrary: rows c)
  case (Cons it xs)
  obtain rows1 c1 where s: "symbol_step env flt (rows, c) it = (rows1, c1)" by fastforce
  then have r: "rows1 = rows @ fst (collect_symbol_rows env flt (fst it) (snd it) c)"
    using symbol_step_rows[of env flt rows c it] by simp
  have "\<forall>op \<in> set rows1. scan_row_ok env flt items op"
  proof
    fix op assume "op \<in> set rows1"
    then consider "op \<in> set rows" | "op \<in> set (fst (collect_symbol_rows env flt (fst it) (snd it) c))" using r by auto
    then show "scan_row_ok env flt items op"
    proof cases
      case 1
      with Cons.prems(2) show ?thesis by simp
    next
      case 2
      then obtain d where "sound_candidate env flt (snd it) d" "op = row_of_candidate (fst it) d"
        using collected_candidate[OF surjective_pairing] by blast
      with Cons.prems(1) show ?thesis unfolding scan_row_ok_def by auto
    qed
  qed
  with Cons.IH[of rows1 c1] Cons.prems(1) s show ?case by simp
qed simp

lemma scanned_rows_ok:
  "op \<in> set (scanned_rows src rq st) \<Longrightarrow> scan_row_ok (scan_env_of src rq st) (filter_of_request rq) (scan_items src rq) op"
  using symbol_fold_ok[of "scan_items src rq" "scan_items src rq" "[]"] unfolding scanned_rows_def by auto

lemma limit_rows_set: "set (limit_rows limit rows) \<subseteq> set rows"
  by (auto simp: limit_rows_def dest: in_set_takeD split: option.splits)

lemma sorted_limit_rows: "sorted (map f xs) \<Longrightarrow> sorted (map f (limit_rows limit xs))"
  by (auto simp: limit_rows_def take_map[symmetric] sorted_wrt_take split: option.split)

lemma length_limit_rows: "limit = Some n \<Longrightarrow> length (limit_rows limit xs) \<le> n"
  by (simp add: limit_rows_def)

lemma strict_sort_value: "scan_row_ok env flt items op \<Longrightarrow> sort_value ''score_strict'' op = to_float (sr_score (op_row op)) 0"
  by (auto simp: scan_row_ok_def sort_value_def row_of_candidate_def Let_def)

lemma scan_sorted_by_score:
  assumes "qr_sort_by rq = ''score_strict''"
  shows "sorted (map (\<lambda>r. - to_float (sr_score r) 0) (sn_rows (fst (scan_spot_basis_opportunities src rq st))))"
proof -
  let ?ops = "limit_rows (qr_limit rq) (sort_desc (sort_value ''score_strict'') (scanned_rows src rq st))"
  have "scan_row_ok (scan_env_of src rq st) (filter_of_request rq) (scan_items src rq) op" if "op \<in> set ?ops" for op
    using that limit_rows_set scanned_rows_ok by fastforce
  then have eq: "map (\<lambda>op. - sort_value ''score_strict'' op) ?ops = map (\<lambda>r. - to_float (sr_score r) 0) (map op_row ?ops)"
    by (auto dest!: strict_sort_value)
  have "sorted (map (\<lambda>op. - sort_value ''score_strict'' op) ?ops)"
    by (auto intro!: sorted_limit_rows simp: sort_desc_def)
  then show ?thesis unfolding eq scan_result_fields assms .
qed

text \<open>
  C20: the scan reports sound rows in the order of the score. Every reported row belongs to a
  perpetual leg and a cheaper spot leg that pass the thresholds of the request; a row's score
  never exceeds an earlier row's; and no more rows are reported than the limit allows.
\<close>

theorem scan_reports_sound_rows:
  "let rows = sn_rows (fst (scan_spot_basis_opportunities src rq st)); flt = filter_of_request rq;
       by_score = sn_rows (fst (scan_spot_basis_opportunities src (rq\<lparr>qr_sort_by := ''score_strict''\<rparr>) st))
   in set rows \<subseteq> {r. \<exists>s entries d.
        (s, entries) \<in> set (scan_items src rq) \<and> sr_symbol r = Some (normalize_symbol_key (Some s))
        \<and> sound_candidate (scan_env_of src rq st) flt entries d
        \<and> sr_perp_ex r = Some (pe_exchange (cd_perp d)) \<and> sr_spot_ex r = Some (sq_exchange (cd_spot d))
        \<and> sq_price (cd_spot d) < pe_price (cd_perp d) \<and> qr_min_rate rq \<le> pe_rate_pct (cd_perp d)}
    \<and> sorted (map (\<lambda>r. - to_float (sr_score r) 0) by_score)
    \<and> (case qr_limit rq of None \<Rightarrow> True | Some n \<Rightarrow> length rows \<le> n)"
proof -
  let ?ops = "limit_rows (qr_limit rq) (sort_desc (sort_value (qr_sort_by rq)) (scanned_rows src rq st))"
  have ok: "op \<in> set ?ops \<Longrightarrow> scan_row_ok (scan_env_of src rq st) (filter_of_request rq) (scan_items src rq) op" for op
    using limit_rows_set scanned_rows_ok by fastforce
  have "\<exists>s entries d. (s, entries) \<in> set (scan_items src rq) \<and> sr_symbol r = Some (normalize_symbol_key (Some s))
        \<and> sound_candidate (scan_env_of src rq st) (filter_of_request rq) entries d
        \<and> sr_perp_ex r = Some (pe_exchange (cd_perp d)) \<and> sr_spot_ex r = Some (sq_exchange (cd_spot d))
        \<and> sq_price (cd_spot d) < pe_price (cd_perp d) \<and> qr_min_rate rq \<le> pe_rate_pct (cd_perp d)"
    if "r \<in> set (map op_row ?ops)" for r
  proof -
    from that obtain op where "op \<in> set ?ops" "r = op_row op" by auto
    with ok[of op] obtain it d where d: "it \<in> set (scan_items src rq)"
      "sound_candidate (scan_env_of src rq st) (filter_of_request rq) (snd it) d" "r = op_row (row_of_candidate (fst it) d)" unfolding scan_row_ok_def by blast
    then show ?thesis
      by (intro exI[of _ "fst it"] exI[of _ "snd it"] exI[of _ d])
        (auto simp: row_of_candidate_def sound_candidate_def spot_eligible_def perp_eligible_def filter_of_request_def Let_def)
  qed
  moreover have "sorted (map (\<lambda>r. - to_float (sr_score r) 0)
      (sn_rows (fst (scan_spot_basis_opportunities src (rq\<lparr>qr_sort_by := ''score_strict''\<rparr>) st))))"
    by (rule scan_sorted_by_score) simp
  ultimately show ?thesis unfolding scan_result_fields Let_def by (auto simp: length_limit_rows split: option.split)
qed

section \<open>A stale net asset value\<close>

lemma stale_rejects: "nm_is_stale nav \<Longrightarrow> eligible_of p nav caps ids rows = []"
  by (simp add: eligible_of_def reject_reasons_def)

lemma select_rows_Nil: "ss_selected (select_rows p caps a d [] st) = ss_selected st"
  by simp

lemma stale_preview: "nm_is_stale nav \<Longrightarrow> pv_selected (build_preview rows holds cfg nav capital) = []"
  by (simp add: build_preview_run preview_run_def stale_rejects rank_rows_def Let_def)

text \<open>
  No entries on a stale net asset value. When the last equity snapshot is missing or
  older than three times the configured staleness (at least 30 seconds), the scan reports a
  used net asset value of 0, the target portfolio is empty and the rebalance plan opens
  nothing, whatever rows, accounts and current portfolio it is given.
\<close>

theorem stale_nav_opens_nothing:
  assumes "case latest_equity (so_equity src) of None \<Rightarrow> True
      | Some r \<Rightarrow> max 0 (py_trunc (so_now src - eq_time r)) > nav_ttl (so_cfg src)"
  shows "nm_used_usd (sn_nav (fst (scan_spot_basis_opportunities src rq st))) = Some 0
    \<and> ts_rows (build_target_state rows cfg (sn_nav (fst (scan_spot_basis_opportunities src rq st))) capital) = []
    \<and> dp_open (build_rebalance_delta_plan current
        (ts_rows (build_target_state rows cfg (sn_nav (fst (scan_spot_basis_opportunities src rq st))) capital)) cfg) = []"
proof -
  have "30 \<le> nav_ttl (so_cfg src)" by (simp add: nav_ttl_def)
  with assms have stale: "fst (snd (scan_nav src))"
    by (auto simp: scan_nav_def latest_nav_snapshot_def Let_def split: option.splits)
  then have "nm_is_stale (sn_nav (fst (scan_spot_basis_opportunities src rq st)))"
    by (simp add: scan_result_fields)
  then have t: "ts_rows (build_target_state rows cfg (sn_nav (fst (scan_spot_basis_opportunities src rq st))) capital) = []"
    by (simp add: build_target_state_def Let_def stale_preview)
  have "nm_used_usd (sn_nav (fst (scan_spot_basis_opportunities src rq st))) = Some 0"
    using stale by (simp add: scan_result_fields scan_nav_used_def)
  with t show ?thesis by (simp add: build_rebalance_delta_plan_def delta_loop_def Let_def)
qed

definition empty_market :: market_data where
  "empty_market = \<lparr>md_funding = [], md_perp_price = (\<lambda>_ _. None), md_perp_volume = (\<lambda>_ _. None), md_spot_price = [],
     md_spot_volume = (\<lambda>_ _. None), md_meta = (\<lambda>_. None), md_exchanges = (\<lambda>_. None)\<rparr>"

definition source_of :: "market_data \<Rightarrow> equity_row list \<Rightarrow> real \<Rightarrow> scan_source" where
  "source_of md equity now = \<lparr>so_cfg = default_cfg, so_market = md, so_equity = equity, so_client = (\<lambda>_ _. None),
     so_holds = [], so_now = now, so_parsers = plain_parsers, so_history = (\<lambda>_. None)\<rparr>"

definition no_scan_state :: scan_state where
  "no_scan_state = \<lparr>sst_caches = \<lparr>sc_stats = (\<lambda>_. None), sc_fees = (\<lambda>_. None)\<rparr>, sst_refresh = [], sst_funding = []\<rparr>"

theorem stale_nav_opens_nothing_witness:
  "nm_used_usd (sn_nav (fst (scan_spot_basis_opportunities (source_of empty_market [\<lparr>eq_total = Some 500, eq_time = 0\<rparr>] 61)
     auto_request no_scan_state))) = Some 0"
proof -
  have "case latest_equity (so_equity (source_of empty_market [\<lparr>eq_total = Some 500, eq_time = 0\<rparr>] 61)) of None \<Rightarrow> True
      | Some r \<Rightarrow> max 0 (py_trunc (so_now (source_of empty_market [\<lparr>eq_total = Some 500, eq_time = 0\<rparr>] 61) - eq_time r))
          > nav_ttl (so_cfg (source_of empty_market [\<lparr>eq_total = Some 500, eq_time = 0\<rparr>] 61))"
    by (simp add: source_of_def latest_equity_def sort_desc_def nav_ttl_def default_cfg_def py_trunc_def)
  from conjunct1[OF stale_nav_opens_nothing[OF this]] show ?thesis .
qed

section \<open>Which symbols a wide scan drops\<close>

lemma add_entry_keys: "fst ` set (add_entry s e m) = insert s (fst ` set m)"
  by (induction s e m rule: add_entry.induct) auto

lemma add_entry_distinct: "distinct (map fst m) \<Longrightarrow> distinct (map fst (add_entry s e m))"
proof (induction s e m rule: add_entry.induct)
  case (2 s e k es m)
  then show ?case using add_entry_keys[of s e m] by auto
qed simp

lemma exchange_entries_distinct: "distinct (map fst m) \<Longrightarrow> distinct (map fst (exchange_entries md now like m x))"
proof -
  have "distinct (map fst (foldl (\<lambda>m (s, data).
      if \<not> symbol_match s like then m
      else (case perp_entry_of md now ex meta s data of None \<Rightarrow> m | Some e \<Rightarrow> add_entry s e m)) m symbols))"
    if "distinct (map fst m)" for ex meta m symbols
    using that by (induction symbols arbitrary: m) (auto simp: add_entry_distinct split: option.split)
  then show "distinct (map fst m) \<Longrightarrow> distinct (map fst (exchange_entries md now like m x))"
    by (auto simp: exchange_entries_def split: prod.split option.split)
qed

lemma symbol_entries_distinct: "distinct (map fst (build_perp_symbol_entries md now like))"
  unfolding build_perp_symbol_entries_def
  by (rule foldl_invariant[where P = "\<lambda>m. distinct (map fst m)"]) (simp_all add: exchange_entries_distinct)

text \<open>An element below at least \<open>n\<close> others is not among the first \<open>n\<close>.\<close>

lemma not_in_top:
  assumes "n \<le> length (filter (\<lambda>y. k y > k x) xs)" shows "x \<notin> set (take n (sort_desc k xs))"
proof
  let ?s = "sort_desc k xs" and ?P = "\<lambda>y. k y > k x"
  assume "x \<in> set (take n ?s)"
  then obtain i where i: "i < n" "i < length ?s" "?s ! i = x" by (auto simp: in_set_conv_nth)
  have "k y \<le> k x" if "y \<in> set (drop i ?s)" for y
  proof -
    from that obtain j where j: "j < length (drop i ?s)" "drop i ?s ! j = y" by (metis in_set_conv_nth)
    then have b: "i + j < length ?s" by simp
    with sorted_nth_mono[OF sort_desc_sorted, of i "i + j" k xs] j i show ?thesis by simp
  qed
  then have tail: "filter ?P (drop i ?s) = []" by (auto simp: filter_empty_conv not_less)
  have "mset (filter ?P ?s) = mset (filter ?P xs)" by simp
  then have "length (filter ?P xs) = length (filter ?P ?s)" by (metis size_mset)
  also have "filter ?P ?s = filter ?P (take i ?s) @ filter ?P (drop i ?s)"
    by (metis append_take_drop_id filter_append)
  also have "length \<dots> \<le> i" unfolding tail using length_filter_le[of ?P "take i ?s"] by simp
  finally show False using assms i by simp
qed

text \<open>The symbol can be read off a row id: the exchange ids contain no separator.\<close>

lemma row_id_symbol:
  assumes "build_row_id s p q = build_row_id s' p' q'" shows "normalize_symbol_key s = normalize_symbol_key s'"
proof -
  have "(normalize_symbol_key s @ CHR ''|'' # str_of_int (int_or_zero p)) @ CHR ''|'' # str_of_int (int_or_zero q)
      = (normalize_symbol_key s' @ CHR ''|'' # str_of_int (int_or_zero p')) @ CHR ''|'' # str_of_int (int_or_zero q')"
    using assms by (simp add: build_row_id_def)
  from split_at_last[OF this] bar_not_in_number
  have "normalize_symbol_key s @ CHR ''|'' # str_of_int (int_or_zero p)
      = normalize_symbol_key s' @ CHR ''|'' # str_of_int (int_or_zero p')" by blast
  from split_at_last[OF this] bar_not_in_number show ?thesis by blast
qed

lemma row_from_item:
  assumes "r \<in> set (sn_rows (fst (scan_spot_basis_opportunities src rq st)))"
  shows "\<exists>it \<in> set (scan_items src rq). \<exists>p q. sr_row_id r = Some (build_row_id (Some (fst it)) p q)
    \<and> sr_symbol r = Some (normalize_symbol_key (Some (fst it)))"
proof -
  from assms obtain op where "op \<in> set (scanned_rows src rq st)" "r = op_row op"
    unfolding scan_result_fields using limit_rows_set by fastforce
  with scanned_rows_ok[of op src rq st] show ?thesis
    unfolding scan_row_ok_def by (force simp: row_of_candidate_def Let_def)
qed

lemma unscanned_hold_unmatched:
  assumes items: "\<And>it. it \<in> set (scan_items src rq) \<Longrightarrow> normalize_symbol_key (Some (fst it)) = fst it \<and> fst it \<noteq> K"
    and h: "normalize_symbol_key (hd_symbol h) = K" "hd_row_id h = Some (build_row_id (hd_symbol h) p q)"
  shows "matched_row h (sn_rows (fst (scan_spot_basis_opportunities src rq st))) = None"
proof -
  let ?rows = "sn_rows (fst (scan_spot_basis_opportunities src rq st))"
  have r: "str_or_empty (sr_row_id r) \<noteq> str_or_empty (hd_row_id h) \<and> normalize_symbol_key (sr_symbol r) \<noteq> K"
    if "r \<in> set ?rows" for r
  proof -
    obtain it p' q' where it: "it \<in> set (scan_items src rq)" "sr_row_id r = Some (build_row_id (Some (fst it)) p' q')"
      "sr_symbol r = Some (normalize_symbol_key (Some (fst it)))"
      using row_from_item[of r src rq st] \<open>r \<in> set ?rows\<close> by blast
    then show ?thesis
      using items[OF it(1)] h row_id_symbol[of "Some (fst it)" p' q' "hd_symbol h" p q] by auto
  qed
  then have "rows_by_id ?rows (str_or_empty (hd_row_id h)) = None"
    by (auto simp: rows_by_id_def first_where_None)
  moreover from this have "match_current_switch_row h ?rows (rows_by_id ?rows) = None"
    using r h(1) by (auto simp: match_current_switch_row_def first_where_None)
  ultimately show ?thesis by (simp add: matched_row_def)
qed

lemma held_added:
  "h \<in> set holds \<Longrightarrow> normalize_symbol_key (hd_symbol h) = K \<Longrightarrow> K \<noteq> [] \<Longrightarrow> K \<in> fst ` set ranked \<Longrightarrow>
   K \<in> fst ` set (add_held_symbols ranked selected holds)"
proof (induction holds arbitrary: selected)
  case (Cons h' hs)
  have keep: "K \<in> fst ` set sel \<Longrightarrow> K \<in> fst ` set (add_held_symbols ranked sel hs')" for sel hs'
    by (induction hs' arbitrary: sel) (auto simp: Let_def split: option.split)
  show ?case
  proof (cases "h = h'")
    case True
    from Cons.prems(4) obtain es where "map_of ranked K = Some es"
      by (metis domIff dom_map_of_conv_image_fst option.exhaust)
    with True Cons.prems(2,3) show ?thesis
      using keep[of selected hs] keep[of "selected @ [(K, es)]" hs] by (auto simp: Let_def)
  next
    case False
    with Cons show ?thesis by (simp add: Let_def)
  qed
qed simp

text \<open>The two modes over the same market, when it holds more symbols than the cap.\<close>

lemma scan_items_wide:
  assumes "py_strip (py_upper (qr_symbol rq)) = []"
    and "scan_cap (qr_limit rq) < length (build_perp_symbol_entries (so_market src) (so_now src) [])"
  shows "scan_items src rq =
    (let ranked = sort_desc (\<lambda>it. coarse_symbol_rank (snd it)) (build_perp_symbol_entries (so_market src) (so_now src) []);
         selected = take (scan_cap (qr_limit rq)) ranked
     in if normalize_action_mode (Some (qr_mode rq)) = ''switch'' then add_held_symbols ranked selected (so_holds src) else selected)"
proof -
  have "build_perp_symbol_entries (so_market src) (so_now src) [] \<noteq> []" using assms(2) by auto
  with assms show ?thesis by (simp add: scan_items_def select_symbols_def Let_def)
qed

lemma auto_request_inputs [simp]:
  "normalize_action_mode (Some ''open'') = ''open''" "py_strip (py_upper []) = []"
  by code_simp+

lemma scan_items_keys:
  assumes "it \<in> set (scan_items src auto_request)"
  shows "it \<in> set (build_perp_symbol_entries (so_market src) (so_now src) [])"
  using assms
  by (auto simp: scan_items_def select_symbols_def auto_request_def Let_def
      dest: in_set_takeD split: if_splits)

text \<open>
  The scan of the cycle drops held symbols. With more than 140 symbols on the market, a
  held pair whose symbol ranks below 140 others gets no row, whatever its own rate: the current
  portfolio shows it as unmatched, and the risk reduction of a soft drawdown or a stale cycle
  closes it for that reason.
\<close>

theorem open_scan_drops_held_pair:
  fixes src :: scan_source
  defines "items \<equiv> build_perp_symbol_entries (so_market src) (so_now src) []"
    and "rows \<equiv> \<lambda>st. sn_rows (fst (build_open_scan_for_auto src st))"
  assumes "h \<in> set holds" "hd_row_id h = Some (build_row_id (hd_symbol h) p q)"
    and "(normalize_symbol_key (hd_symbol h), es) \<in> set items"
    and "140 \<le> length (filter (\<lambda>it. coarse_symbol_rank (snd it) > coarse_symbol_rank es) items)"
    and "\<forall>it \<in> set items. normalize_symbol_key (Some (fst it)) = fst it"
  shows "\<not> cr_matched (current_row_of (rows st) h)
    \<and> close_of_row [''unmatched_under_stale_data''] (current_row_of (rows st) h)
        \<in> set (build_risk_reduce_close_plan (build_current_state holds (rows st)) conf)"
proof -
  let ?K = "normalize_symbol_key (hd_symbol h)" and ?rank = "\<lambda>it. coarse_symbol_rank (snd it)"
  have "length (filter (\<lambda>it. ?rank it > coarse_symbol_rank es) items) < length items"
    using assms(5) by (intro length_filter_less) auto
  with assms(6) have "140 < length items" by linarith
  then have sel: "scan_items src auto_request = take 140 (sort_desc ?rank items)"
    by (subst scan_items_wide)
      (simp_all add: items_def auto_request_def scan_cap_def Let_def)
  have "normalize_symbol_key (Some (fst it)) = fst it \<and> fst it \<noteq> ?K" if it: "it \<in> set (scan_items src auto_request)" for it
  proof
    have mem: "it \<in> set items" using scan_items_keys[OF it] by (simp add: items_def)
    with assms(7) show "normalize_symbol_key (Some (fst it)) = fst it" by blast
    show "fst it \<noteq> ?K"
    proof
      assume "fst it = ?K"
      moreover have "distinct (map fst items)" by (simp add: items_def symbol_entries_distinct)
      ultimately have "it = (?K, es)" using mem assms(5) by (metis eq_key_imp_eq_value prod.collapse)
      moreover have "(?K, es) \<notin> set (take 140 (sort_desc ?rank items))"
        using assms(6) by (intro not_in_top) simp
      ultimately show False using it sel by simp
    qed
  qed
  then have "matched_row h (rows st) = None"
    unfolding rows_def build_open_scan_for_auto_def
    by (rule unscanned_hold_unmatched) (use assms(4) in auto)
  then have un: "\<not> cr_matched (current_row_of (rows st) h)" by (simp add: current_row_of_def Let_def)
  then show ?thesis
    using assms(3) by (auto simp: build_risk_reduce_close_plan_def build_current_state_def risk_reasons_def)
qed

text \<open>
  A switch scan keeps the held symbols. Whatever their rank, the symbols of the current
  holds that the market lists are among the scanned ones.
\<close>

theorem switch_scan_keeps_held_symbols:
  assumes "normalize_action_mode (Some (qr_mode rq)) = ''switch''" "py_strip (py_upper (qr_symbol rq)) = []"
    and "h \<in> set (so_holds src)" "normalize_symbol_key (hd_symbol h) \<noteq> []"
    and "normalize_symbol_key (hd_symbol h) \<in> fst ` set (build_perp_symbol_entries (so_market src) (so_now src) [])"
  shows "normalize_symbol_key (hd_symbol h) \<in> fst ` set (scan_items src rq)"
proof (cases "scan_cap (qr_limit rq) < length (build_perp_symbol_entries (so_market src) (so_now src) [])")
  case True
  with assms show ?thesis by (simp add: scan_items_wide Let_def held_added)
next
  case False
  with assms show ?thesis by (simp add: scan_items_def select_symbols_def Let_def)
qed

section \<open>A market with 141 symbols\<close>

definition wide_symbol :: "nat \<Rightarrow> string" where
  "wide_symbol n = replicate (Suc n) (CHR ''A'') @ '':U''"

definition wide_quote :: "real \<Rightarrow> funding_quote" where
  "wide_quote rate = \<lparr>fq_rate = Some rate, fq_mark_price = Some 10, fq_interval_hours = Some 8, fq_next = None\<rparr>"

definition wide_market :: market_data where
  "wide_market = empty_market\<lparr>
     md_funding := [(1, (wide_symbol 0, wide_quote (1 / 100)) # map (\<lambda>n. (wide_symbol n, wide_quote (1 / 50))) [1..<141])],
     md_meta := (\<lambda>_. Some \<lparr>em_name = Some ''x'', em_display = None\<rparr>)\<rparr>"

lemma wide_symbol_inj: "wide_symbol m = wide_symbol n \<longleftrightarrow> m = n"
  by (auto simp: wide_symbol_def replicate_append_same dest: arg_cong[of _ _ length])

lemma wide_symbol_normal: "normalize_symbol_key (Some (wide_symbol n)) = wide_symbol n"
proof -
  have strip: "py_strip (wide_symbol n) = wide_symbol n"
    by (rule strip_no_space) (auto simp: wide_symbol_def is_space_def Let_def)
  have up: "py_upper (wide_symbol n) = wide_symbol n"
    by (simp add: py_upper_def wide_symbol_def char_upper_def Let_def)
  have "py_replace_char (CHR '' '') (wide_symbol n) = wide_symbol n"
    by (auto simp: py_replace_char_def wide_symbol_def intro!: filter_True)
  then have "py_replace_char (CHR '' '') (py_upper (py_strip (str_or_empty (Some (wide_symbol n))))) = wide_symbol n"
    by (simp add: strip up)
  moreover have "CHR '':'' \<in> set (wide_symbol n)" "wide_symbol n \<noteq> []" by (simp_all add: wide_symbol_def)
  ultimately show ?thesis by (simp only: normalize_symbol_key_def Let_def) simp
qed

lemma add_entry_fresh: "s \<notin> fst ` set m \<Longrightarrow> add_entry s e m = m @ [(s, [e])]"
  by (induction s e m rule: add_entry.induct) auto

definition wide_entry :: "real \<Rightarrow> nat \<Rightarrow> perp_entry" where
  "wide_entry pct n = \<lparr>pe_exchange = 1, pe_name = ''x'', pe_spot_symbol = spot_symbol_of (wide_symbol n), pe_price = 10,
     pe_rate_pct = pct, pe_annualized_pct = pct * 1095, pe_periods = 3, pe_interval_hours = Some 8,
     pe_periods_inferred = False, pe_next_funding = None, pe_secs_to_funding = None, pe_volume = 0\<rparr>"

lemma whole_periods_eight [simp]: "whole_periods 8 = Some 3"
proof -
  have "round_half_even (3 :: real) = 3" using round_half_even_of_int[of 3] by simp
  then show ?thesis by (simp add: whole_periods_def)
qed

lemma wide_perp_entry:
  "perp_entry_of wide_market now 1 \<lparr>em_name = Some ''x'', em_display = None\<rparr> (wide_symbol n) (wide_quote (1 / 100))
    = Some (wide_entry 1 n)"
  "perp_entry_of wide_market now 1 \<lparr>em_name = Some ''x'', em_display = None\<rparr> (wide_symbol n) (wide_quote (1 / 50))
    = Some (wide_entry 2 n)"
  by (simp_all add: perp_entry_of_def wide_market_def empty_market_def wide_quote_def wide_entry_def display_of_def
      py_or_str_def normalize_interval_hours_def funding_periods_per_day_def secs_to_funding_def Let_def)

lemma wide_rank: "coarse_symbol_rank [wide_entry pct n] = pct * 1215"
  by (simp add: coarse_symbol_rank_def max_of_def wide_entry_def clampr_def)

lemma wide_fold:
  "distinct ns \<Longrightarrow> \<forall>n \<in> set ns. wide_symbol n \<notin> fst ` set m \<Longrightarrow>
   foldl (\<lambda>m (s, data).
      if \<not> symbol_match s [] then m
      else (case perp_entry_of wide_market now 1 \<lparr>em_name = Some ''x'', em_display = None\<rparr> s data of
              None \<Rightarrow> m | Some e \<Rightarrow> add_entry s e m)) m (map (\<lambda>n. (wide_symbol n, wide_quote (1 / 50))) ns)
    = m @ map (\<lambda>n. (wide_symbol n, [wide_entry 2 n])) ns"
proof (induction ns arbitrary: m)
  case (Cons n ns)
  have q: "normalize_symbol_query [] = []" by code_simp
  have "\<forall>k \<in> set ns. wide_symbol k \<notin> fst ` set (m @ [(wide_symbol n, [wide_entry 2 n])])"
    using Cons.prems by (auto simp: wide_symbol_inj)
  with Cons.prems Cons.IH[of "m @ [(wide_symbol n, [wide_entry 2 n])]"] show ?case
    by (simp add: empty_query[OF q] wide_perp_entry add_entry_fresh)
qed simp

lemma wide_entries:
  "build_perp_symbol_entries wide_market now [] =
     (wide_symbol 0, [wide_entry 1 0]) # map (\<lambda>n. (wide_symbol n, [wide_entry 2 n])) [1..<141]"
proof -
  have q: "normalize_symbol_query [] = []" by code_simp
  have md: "md_funding wide_market = [(1, (wide_symbol 0, wide_quote (1 / 100)) # map (\<lambda>n. (wide_symbol n, wide_quote (1 / 50))) [1..<141])]"
    "md_meta wide_market 1 = Some \<lparr>em_name = Some ''x'', em_display = None\<rparr>"
    by (simp_all add: wide_market_def)
  have "foldl (\<lambda>m (s, data).
      if \<not> symbol_match s [] then m
      else (case perp_entry_of wide_market now 1 \<lparr>em_name = Some ''x'', em_display = None\<rparr> s data of
              None \<Rightarrow> m | Some e \<Rightarrow> add_entry s e m)) [(wide_symbol 0, [wide_entry 1 0])]
        (map (\<lambda>n. (wide_symbol n, wide_quote (1 / 50))) [1..<141])
    = [(wide_symbol 0, [wide_entry 1 0])] @ map (\<lambda>n. (wide_symbol n, [wide_entry 2 n])) [1..<141]"
    by (rule wide_fold) (auto simp: wide_symbol_inj)
  then show ?thesis
    unfolding build_perp_symbol_entries_def md exchange_entries_def
    by (simp add: md empty_query[OF q] wide_perp_entry del: upt_rec_numeral)
qed

definition wide_hold :: hold where
  "wide_hold = \<lparr>hd_strategy_id = Some 7, hd_symbol = Some (wide_symbol 0), hd_perp_ex = Some 1, hd_spot_ex = Some 2,
     hd_pair_notional = Some 100, hd_row_id = Some (build_row_id (Some (wide_symbol 0)) (Some 1) (Some 2))\<rparr>"

theorem open_scan_drops_held_pair_witness:
  "close_of_row [''unmatched_under_stale_data'']
      (current_row_of (sn_rows (fst (build_open_scan_for_auto (source_of wide_market [] 0) no_scan_state))) wide_hold)
    \<in> set (build_risk_reduce_close_plan
        (build_current_state [wide_hold] (sn_rows (fst (build_open_scan_for_auto (source_of wide_market [] 0) no_scan_state)))) (1 / 2))"
proof -
  let ?src = "source_of wide_market [] 0"
  have src: "so_market ?src = wide_market" "so_now ?src = 0" by (simp_all add: source_of_def)
  have 1: "wide_hold \<in> set [wide_hold]" by simp
  have 2: "hd_row_id wide_hold = Some (build_row_id (hd_symbol wide_hold) (Some 1) (Some 2))"
    by (simp add: wide_hold_def)
  have 3: "(normalize_symbol_key (hd_symbol wide_hold), [wide_entry 1 0])
      \<in> set (build_perp_symbol_entries (so_market ?src) (so_now ?src) [])"
    by (simp add: src wide_entries wide_hold_def wide_symbol_normal del: upt_rec_numeral)
  have 4: "140 \<le> length (filter (\<lambda>it. coarse_symbol_rank (snd it) > coarse_symbol_rank [wide_entry 1 0])
      (build_perp_symbol_entries (so_market ?src) (so_now ?src) []))"
    by (simp add: src wide_entries wide_rank filter_map comp_def del: upt_rec_numeral)
  have 5: "\<forall>it \<in> set (build_perp_symbol_entries (so_market ?src) (so_now ?src) []). normalize_symbol_key (Some (fst it)) = fst it"
    by (auto simp: src wide_entries wide_symbol_normal simp del: upt_rec_numeral)
  from conjunct2[OF open_scan_drops_held_pair[OF 1 2 3 4 5]] show ?thesis .
qed

theorem switch_scan_keeps_held_symbols_witness:
  "wide_symbol 0 \<in> fst ` set (scan_items ((source_of wide_market [] 0)\<lparr>so_holds := [wide_hold]\<rparr>) (auto_request\<lparr>qr_mode := ''switch''\<rparr>))"
proof -
  let ?src = "(source_of wide_market [] 0)\<lparr>so_holds := [wide_hold]\<rparr>" and ?rq = "auto_request\<lparr>qr_mode := ''switch''\<rparr>"
  have 1: "normalize_action_mode (Some (qr_mode ?rq)) = ''switch''" by simp code_simp
  have 2: "py_strip (py_upper (qr_symbol ?rq)) = []" by (simp add: auto_request_def)
  have 3: "wide_hold \<in> set (so_holds ?src)" by simp
  have key: "normalize_symbol_key (hd_symbol wide_hold) = wide_symbol 0" by (simp add: wide_hold_def wide_symbol_normal)
  have 4: "normalize_symbol_key (hd_symbol wide_hold) \<noteq> []" by (simp add: key wide_symbol_def)
  have 5: "normalize_symbol_key (hd_symbol wide_hold) \<in> fst ` set (build_perp_symbol_entries (so_market ?src) (so_now ?src) [])"
    by (simp add: key source_of_def wide_entries del: upt_rec_numeral)
  from switch_scan_keeps_held_symbols[OF 1 2 3 4 5] show ?thesis by (simp add: key)
qed

end
