(* ===== verification/RefreshJob.thy ===== *)
theory RefreshJob
  imports FundingHistory
begin

text \<open>
  The background refresh of the funding history: the shared job record with its lock, the
  start of a job, the worker thread and its progress reports
  (\<open>_start_funding_history_refresh_job\<close> of \<open>funding_history_refresh.py\<close>), and the gate that
  asks whether the history is ready (\<open>refresh_gate.py\<close>). The threads interleave at the critical
  sections of the lock; one section is one step. The id of a job is a number here, and a job
  keeps the report it was given last: a progress report carries the counters and the number of
  errors, the last one the first 20 errors too.
\<close>

section \<open>The job\<close>

record job_meta =
  jm_error :: "string option"
  jm_report :: "refresh_report option"

record job =
  jb_id :: "nat option"
  jb_running :: bool
  jb_started :: "int option"
  jb_finished :: "int option"
  jb_updated :: "int option"
  jb_candidates :: nat
  jb_requested :: nat
  jb_processed :: nat
  jb_progress :: real
  jb_days :: int
  jb_force :: bool
  jb_meta :: job_meta

definition no_meta :: job_meta where "no_meta = \<lparr>jm_error = None, jm_report = None\<rparr>"

definition idle_job :: job where
  "idle_job = \<lparr>jb_id = None, jb_running = False, jb_started = None, jb_finished = None, jb_updated = None,
     jb_candidates = 0, jb_requested = 0, jb_processed = 0, jb_progress = 0, jb_days = 3, jb_force = False,
     jb_meta = no_meta\<rparr>"

text \<open>What a start has computed before it takes the lock again.\<close>

record refresh_plan =
  pn_id :: nat
  pn_candidates :: nat
  pn_targets :: "leg list"
  pn_days :: int
  pn_ttl :: int
  pn_force :: bool

definition plan_refresh ::
    "market_data \<Rightarrow> real \<Rightarrow> string \<Rightarrow> int list \<Rightarrow> int \<Rightarrow> nat \<Rightarrow> int \<Rightarrow> bool \<Rightarrow> nat \<Rightarrow> refresh_plan" where
  "plan_refresh md now symbol_like allow days limit ttl force jid =
     (let items = build_perp_symbol_entries md now symbol_like;
          targets = map fst (build_funding_refresh_targets items (max 1 limit))
      in \<lparr>pn_id = jid, pn_candidates = length items, pn_targets = filter (\<lambda>t. allowed_id allow (fst t)) targets,
          pn_days = max 1 (if days = 0 then 3 else days), pn_ttl = max 0 ttl, pn_force = force\<rparr>)"

definition claim_job :: "real \<Rightarrow> refresh_plan \<Rightarrow> job \<Rightarrow> bool \<times> job" where
  "claim_job now p j =
     (if jb_running j then (False, j)
      else (True, j\<lparr>jb_id := Some (pn_id p), jb_running := True, jb_started := Some (py_trunc now), jb_finished := None,
                    jb_candidates := pn_candidates p, jb_requested := length (pn_targets p), jb_processed := 0,
                    jb_progress := 0, jb_days := pn_days p, jb_force := pn_force p, jb_meta := no_meta,
                    jb_updated := Some (py_trunc now)\<rparr>))"

section \<open>The worker\<close>

definition progress_pct :: "nat \<Rightarrow> refresh_report \<Rightarrow> real" where
  "progress_pct n r =
     (let req = max 1 (if rs_requested r \<noteq> 0 then rs_requested r else if n \<noteq> 0 then n else 1)
      in py_round (min 100 (real (rs_processed r) / real req * 100)) 2)"

definition job_progress :: "real \<Rightarrow> nat \<Rightarrow> refresh_report \<Rightarrow> job \<Rightarrow> job" where
  "job_progress now n r j =
     j\<lparr>jb_processed := rs_processed r, jb_progress := progress_pct n r, jb_meta := (jb_meta j)\<lparr>jm_report := Some r\<rparr>,
       jb_updated := Some (py_trunc now)\<rparr>"

definition job_finish :: "real \<Rightarrow> nat \<Rightarrow> refresh_report \<Rightarrow> job \<Rightarrow> job" where
  "job_finish now n r j =
     j\<lparr>jb_running := False, jb_finished := Some (py_trunc now),
       jb_processed := (if rs_processed r \<noteq> 0 then rs_processed r else n), jb_progress := 100,
       jb_meta := \<lparr>jm_error = None, jm_report = Some (r\<lparr>rs_errors := take 20 (rs_errors r)\<rparr>)\<rparr>,
       jb_updated := Some (py_trunc now)\<rparr>"

definition job_fail :: "real \<Rightarrow> string \<Rightarrow> job \<Rightarrow> job" where
  "job_fail now err j =
     j\<lparr>jb_running := False, jb_finished := Some (py_trunc now), jb_meta := \<lparr>jm_error = Some err, jm_report = None\<rparr>,
       jb_updated := Some (py_trunc now)\<rparr>"

text \<open>
  A whole run of the worker of plan \<open>p\<close>: a report before the first leg and one after each,
  then the final one. The function \<open>clock\<close> gives the time of the \<open>k\<close>-th update.
\<close>

definition progress_reports ::
    "refresh_env \<Rightarrow> refresh_plan \<Rightarrow> (leg \<times> real) list \<Rightarrow> funding_row list \<Rightarrow> stability_cache \<Rightarrow> refresh_report list" where
  "progress_reports env p cache db stats =
     (let days = max 1 (min 15 (if pn_days p = 0 then 1 else pn_days p));
          max_legs = max 1 (min max_refresh_legs (length (pn_targets p)));
          legs = take max_legs (pn_targets p);
          st0 = \<lparr>rt_cache = prune_refresh_cache (re_now env) (max 0 (pn_ttl p)) cache, rt_db = db, rt_stats = stats,
                 rt_report = no_report\<lparr>rs_requested := min (length (pn_targets p)) max_legs\<rparr>\<rparr>
      in map (\<lambda>k. rt_report (foldl (refresh_leg env (of_int days) (max 0 (pn_ttl p)) (pn_force p)) st0 (take k legs)))
           [0..<Suc (length legs)])"

fun apply_progress :: "(nat \<Rightarrow> real) \<Rightarrow> nat \<Rightarrow> nat \<Rightarrow> refresh_report list \<Rightarrow> job \<Rightarrow> job" where
  "apply_progress clock k n [] j = j"
| "apply_progress clock k n (r # rs) j = apply_progress clock (Suc k) n rs (job_progress (clock k) n r j)"

definition run_worker ::
    "(nat \<Rightarrow> real) \<Rightarrow> refresh_env \<Rightarrow> refresh_plan \<Rightarrow> (leg \<times> real) list \<Rightarrow> funding_row list \<Rightarrow> stability_cache \<Rightarrow> job
      \<Rightarrow> refresh_state \<times> job" where
  "run_worker clock env p cache db stats j =
     (let n = length (pn_targets p);
          rs = progress_reports env p cache db stats;
          st = refresh_funding_history_targets env (pn_targets p) (pn_days p) (pn_ttl p) (pn_force p) cache db stats
      in (st, job_finish (clock (length rs)) n (rt_report st) (apply_progress clock 0 n rs j)))"

section \<open>The gate\<close>

record gate_answer =
  ga_ready :: bool
  ga_running :: bool
  ga_reason :: string
  ga_progress :: real

definition has_error :: "job \<Rightarrow> bool" where
  "has_error j \<longleftrightarrow> str_or_empty (jm_error (jb_meta j)) \<noteq> []"

definition retry_cooldown :: int where "retry_cooldown = 60"

definition shown_progress :: "job \<Rightarrow> real" where
  "shown_progress j = py_round (min 100 (max 0 (jb_progress j))) 2"

definition funding_history_refresh_gate :: "bool \<Rightarrow> real \<Rightarrow> refresh_plan \<Rightarrow> job \<Rightarrow> gate_answer \<times> job" where
  "funding_history_refresh_gate auto_start now p j =
     (if jb_running j then
        (\<lparr>ga_ready = False, ga_running = True, ga_reason = ''refresh_running'', ga_progress = shown_progress j\<rparr>, j)
      else if int_or_zero (jb_finished j) \<noteq> 0 \<and> \<not> has_error j then
        (\<lparr>ga_ready = True, ga_running = False, ga_reason = ''ready'', ga_progress = 100\<rparr>, j)
      else if has_error j \<and> int_or_zero (jb_updated j) > 0 \<and> py_trunc now - int_or_zero (jb_updated j) < retry_cooldown then
        (\<lparr>ga_ready = False, ga_running = False, ga_reason = ''refresh_failed_recently'', ga_progress = shown_progress j\<rparr>, j)
      else if \<not> auto_start then
        (\<lparr>ga_ready = False, ga_running = False, ga_reason = ''refresh_not_started'', ga_progress = shown_progress j\<rparr>, j)
      else
        (case claim_job now p j of (started, j') \<Rightarrow>
          (\<lparr>ga_ready = False, ga_running = jb_running j',
            ga_reason = (if started then ''refresh_bootstrap_started''
                         else if jb_running j' then ''refresh_running'' else ''refresh_wait''),
            ga_progress = shown_progress j'\<rparr>, j')))"

section \<open>Interleaved threads\<close>

text \<open>
  Starters have found no job running and are computing their plans; workers run. A worker whose
  exception handler raises again, in the rollback, ends without an update of the job.
\<close>

record job_state =
  js_job :: job
  js_starters :: "refresh_plan list"
  js_workers :: "refresh_plan list"
  js_broken :: nat

definition job_init :: job_state where
  "job_init = \<lparr>js_job = idle_job, js_starters = [], js_workers = [], js_broken = 0\<rparr>"

inductive job_step :: "job_state \<Rightarrow> job_state \<Rightarrow> bool" where
  check: "\<not> jb_running (js_job s) \<Longrightarrow> job_step s (s\<lparr>js_starters := p # js_starters s\<rparr>)"
| claim: "p \<in> set (js_starters s) \<Longrightarrow> claim_job now p (js_job s) = (True, j) \<Longrightarrow>
    job_step s (s\<lparr>js_job := j, js_starters := remove1 p (js_starters s), js_workers := p # js_workers s\<rparr>)"
| lost: "p \<in> set (js_starters s) \<Longrightarrow> claim_job now p (js_job s) = (False, j) \<Longrightarrow>
    job_step s (s\<lparr>js_starters := remove1 p (js_starters s)\<rparr>)"
| progress: "w \<in> set (js_workers s) \<Longrightarrow>
    job_step s (s\<lparr>js_job := job_progress now (length (pn_targets w)) r (js_job s)\<rparr>)"
| finish: "w \<in> set (js_workers s) \<Longrightarrow>
    job_step s (s\<lparr>js_job := job_finish now (length (pn_targets w)) r (js_job s), js_workers := remove1 w (js_workers s)\<rparr>)"
| fail: "w \<in> set (js_workers s) \<Longrightarrow>
    job_step s (s\<lparr>js_job := job_fail now err (js_job s), js_workers := remove1 w (js_workers s)\<rparr>)"
| break: "w \<in> set (js_workers s) \<Longrightarrow>
    job_step s (s\<lparr>js_workers := remove1 w (js_workers s), js_broken := js_broken s + 1\<rparr>)"

inductive_cases job_stepE: "job_step s s'"

section \<open>One worker at a time\<close>

definition job_inv :: "job_state \<Rightarrow> bool" where
  "job_inv s \<longleftrightarrow>
     (js_workers s = [] \<or> (\<exists>w. js_workers s = [w] \<and> jb_running (js_job s) \<and> jb_id (js_job s) = Some (pn_id w)))
     \<and> (jb_running (js_job s) \<longrightarrow> js_workers s \<noteq> [] \<or> js_broken s > 0)
     \<and> (js_broken s > 0 \<longrightarrow> js_workers s = [] \<and> jb_running (js_job s))"

lemma claim_job_cases:
  "claim_job now p j = (True, j') \<Longrightarrow> \<not> jb_running j \<and> jb_running j' \<and> jb_id j' = Some (pn_id p)"
  "claim_job now p j = (False, j') \<Longrightarrow> jb_running j \<and> j' = j"
  by (auto simp: claim_job_def split: if_splits)

lemma job_update_fields [simp]:
  "jb_running (job_progress now n r j) = jb_running j" "jb_id (job_progress now n r j) = jb_id j"
  "\<not> jb_running (job_finish now n r j)" "\<not> jb_running (job_fail now err j)"
  by (simp_all add: job_progress_def job_finish_def job_fail_def)

lemma job_step_inv: "job_step s s' \<Longrightarrow> job_inv s \<Longrightarrow> job_inv s'"
proof (induction rule: job_step.induct)
  case (claim p s now j)
  then show ?case using claim_job_cases(1)[OF claim.hyps(2)] by (auto simp: job_inv_def)
qed (auto simp: job_inv_def)

lemma job_reach_inv: "job_step\<^sup>*\<^sup>* job_init s \<Longrightarrow> job_inv s"
proof (induction rule: rtranclp_induct)
  case base
  show ?case by (simp add: job_init_def job_inv_def idle_job_def)
next
  case (step t u)
  show ?case using job_step_inv[OF step(2) step(3)] .
qed

text \<open>
  C28: at most one refresh runs. In every interleaving of starters and workers there is at most
  one worker, it is the one whose id the job shows, and as long as no worker was cut off in its
  exception handler the job is marked as running exactly while it runs.
\<close>

theorem one_refresh_worker:
  assumes "job_step\<^sup>*\<^sup>* job_init s"
  shows "length (js_workers s) \<le> 1
    \<and> (\<forall>w \<in> set (js_workers s). jb_running (js_job s) \<and> jb_id (js_job s) = Some (pn_id w))
    \<and> (js_broken s = 0 \<longrightarrow> (jb_running (js_job s) \<longleftrightarrow> js_workers s \<noteq> []))"
  using job_reach_inv[OF assms] by (auto simp: job_inv_def)

definition sample_plan :: "nat \<Rightarrow> refresh_plan" where
  "sample_plan i = \<lparr>pn_id = i, pn_candidates = 1, pn_targets = [(1, ''A'')], pn_days = 3, pn_ttl = 0, pn_force = True\<rparr>"

text \<open>Two starters pass the first check, one of them gets the job.\<close>

definition contested :: job_state where
  "contested = \<lparr>js_job = snd (claim_job 100 (sample_plan 2) idle_job), js_starters = [sample_plan 1],
     js_workers = [sample_plan 2], js_broken = 0\<rparr>"

lemma contested_reachable: "job_step\<^sup>*\<^sup>* job_init contested"
proof -
  let ?s1 = "job_init\<lparr>js_starters := [sample_plan 1]\<rparr>" and ?s2 = "job_init\<lparr>js_starters := [sample_plan 2, sample_plan 1]\<rparr>"
  have 1: "job_step job_init ?s1"
    using job_step.check[of job_init "sample_plan 1"] by (simp add: job_init_def idle_job_def)
  have 2: "job_step ?s1 ?s2"
    using job_step.check[of ?s1 "sample_plan 2"] by (simp add: job_init_def idle_job_def)
  have "claim_job 100 (sample_plan 2) (js_job ?s2) = (True, snd (claim_job 100 (sample_plan 2) idle_job))"
    by (simp add: claim_job_def job_init_def idle_job_def)
  from job_step.claim[OF _ this] have "job_step ?s2 contested" by (simp add: contested_def job_init_def)
  with 1 2 show ?thesis by (meson converse_rtranclp_into_rtranclp r_into_rtranclp)
qed

theorem one_refresh_worker_witness:
  "js_workers contested = [sample_plan 2] \<and> js_starters contested = [sample_plan 1]
   \<and> length (js_workers contested) \<le> 1 \<and> jb_running (js_job contested)"
  using one_refresh_worker[OF contested_reachable] by (simp add: contested_def)

text \<open>
  A worker that is cut off blocks the refresh for good. When the rollback in the exception
  handler raises, the job stays marked as running with no worker behind it, and no later start
  gets the job, whatever the other threads do.
\<close>

theorem broken_worker_blocks_refresh:
  assumes "job_step\<^sup>*\<^sup>* job_init s" "js_broken s > 0" "job_step\<^sup>*\<^sup>* s s'"
  shows "js_workers s' = [] \<and> jb_running (js_job s') \<and> js_job s' = js_job s \<and> (\<forall>now p. \<not> fst (claim_job now p (js_job s')))"
proof -
  have "js_broken s' > 0 \<and> js_job s' = js_job s \<and> job_inv s'"
    using assms(3)
  proof (induction rule: rtranclp_induct)
    case base
    then show ?case using assms job_reach_inv by auto
  next
    case (step t u)
    then have no: "js_workers t = []" "jb_running (js_job t)" by (auto simp: job_inv_def)
    from step(2) have "js_broken u \<ge> js_broken t \<and> js_job u = js_job t"
      by cases (use no in \<open>auto dest: claim_job_cases\<close>)
    with step job_step_inv show ?case by auto
  qed
  then show ?thesis by (auto simp: job_inv_def claim_job_def)
qed

definition cut_off :: job_state where
  "cut_off = contested\<lparr>js_workers := [], js_broken := 1\<rparr>"

lemma cut_off_reachable: "job_step\<^sup>*\<^sup>* job_init cut_off"
proof -
  have "job_step contested cut_off"
    using job_step.break[of "sample_plan 2" contested] by (simp add: cut_off_def contested_def)
  with contested_reachable show ?thesis by (rule rtranclp.rtrancl_into_rtrancl)
qed

theorem broken_worker_blocks_refresh_witness: "\<not> fst (claim_job 1000000 (sample_plan 3) (js_job cut_off))"
  using broken_worker_blocks_refresh[OF cut_off_reachable _ rtranclp.rtrancl_refl] by (simp add: cut_off_def)

section \<open>A run of the worker\<close>

lemma apply_progress_fields:
  "jb_running (apply_progress clock k n rs j) = jb_running j \<and> jb_id (apply_progress clock k n rs j) = jb_id j"
  by (induction rs arbitrary: k j) simp_all

text \<open>The start of the loop over the legs, shared by the loop and its progress reports.\<close>

definition loop_start :: "refresh_env \<Rightarrow> refresh_plan \<Rightarrow> (leg \<times> real) list \<Rightarrow> funding_row list \<Rightarrow> stability_cache \<Rightarrow> refresh_state" where
  "loop_start env p cache db stats =
     \<lparr>rt_cache = prune_refresh_cache (re_now env) (max 0 (pn_ttl p)) cache, rt_db = db, rt_stats = stats,
      rt_report = no_report\<lparr>rs_requested := min (length (pn_targets p)) max_refresh_legs\<rparr>\<rparr>"

definition loop_legs :: "refresh_plan \<Rightarrow> leg list" where
  "loop_legs p = take max_refresh_legs (pn_targets p)"

definition loop_days :: "refresh_plan \<Rightarrow> real" where
  "loop_days p = of_int (max 1 (min 15 (if pn_days p = 0 then 1 else pn_days p)))"

lemma min_max_legs: "min n (max 1 (min max_refresh_legs n)) = min n max_refresh_legs"
  by (auto simp: max_refresh_legs_def)

lemma take_max_legs: "take (max 1 (min max_refresh_legs (length xs))) xs = take max_refresh_legs xs"
proof -
  have "take m xs = take (min (length xs) m) xs" for m by (simp add: min_def)
  then show ?thesis by (metis min_max_legs)
qed

lemma progress_reports_loop:
  "progress_reports env p cache db stats =
     map (\<lambda>k. rt_report (foldl (refresh_leg env (loop_days p) (max 0 (pn_ttl p)) (pn_force p)) (loop_start env p cache db stats)
            (take k (loop_legs p)))) [0..<Suc (length (loop_legs p))]"
  unfolding progress_reports_def Let_def take_max_legs min_max_legs loop_legs_def loop_start_def loop_days_def ..

lemma refresh_loop:
  "refresh_funding_history_targets env (pn_targets p) (pn_days p) (pn_ttl p) (pn_force p) cache db stats =
     foldl (refresh_leg env (loop_days p) (max 0 (pn_ttl p)) (pn_force p)) (loop_start env p cache db stats) (loop_legs p)"
  unfolding refresh_funding_history_targets_def Let_def take_max_legs min_max_legs loop_legs_def loop_start_def loop_days_def ..

lemma length_progress_reports: "length (progress_reports env p cache db stats) = Suc (length (loop_legs p))"
  by (simp add: progress_reports_loop)

lemma loop_start_report: "rs_processed (rt_report (loop_start env p cache db stats)) = 0"
  "rs_requested (rt_report (loop_start env p cache db stats)) = length (loop_legs p)"
  by (simp_all add: loop_start_def no_report_def loop_legs_def)

lemma progress_report_counts:
  assumes "k \<le> length (loop_legs p)"
  shows "rs_processed (progress_reports env p cache db stats ! k) = k
    \<and> rs_requested (progress_reports env p cache db stats ! k) = length (loop_legs p)"
proof -
  have "progress_reports env p cache db stats ! k =
      rt_report (foldl (refresh_leg env (loop_days p) (max 0 (pn_ttl p)) (pn_force p)) (loop_start env p cache db stats)
        (take k (loop_legs p)))"
    unfolding progress_reports_loop using assms by (subst nth_map) (simp_all del: upt_Suc)
  moreover have "length (take k (loop_legs p)) = k" using assms by simp
  ultimately show ?thesis by (simp add: processed_all loop_start_report)
qed

lemma final_report_counts:
  "rs_processed (rt_report (refresh_funding_history_targets env (pn_targets p) (pn_days p) (pn_ttl p) (pn_force p) cache db stats))
     = length (loop_legs p)"
  by (simp add: refresh_loop processed_all loop_start_report)

text \<open>
  The progress a worker reports grows from 0 to 100. It reports before the first leg and
  after every leg, the reported percentages never fall and never exceed 100, and the last one
  before the end is 100 when there was anything to refresh.
\<close>

theorem refresh_progress_monotone:
  "let pcts = map (progress_pct (length (pn_targets p))) (progress_reports env p cache db stats) in
    length pcts = Suc (min (length (pn_targets p)) max_refresh_legs) \<and> sorted pcts
    \<and> set pcts \<subseteq> {0..100} \<and> hd pcts = 0 \<and> (pn_targets p \<noteq> [] \<longrightarrow> last pcts = 100)"
proof -
  let ?R = "progress_reports env p cache db stats" and ?n = "length (loop_legs p)"
  define req where "req = max 1 (if ?n \<noteq> 0 then ?n else if length (pn_targets p) \<noteq> 0 then length (pn_targets p) else 1)"
  define pct where "pct = (\<lambda>k. py_round (min 100 (real k / real req * 100)) 2)"
  have R: "?R = map (\<lambda>k. ?R ! k) [0..<Suc ?n]"
    using map_nth[of ?R] by (simp add: length_progress_reports)
  have at: "progress_pct (length (pn_targets p)) (?R ! k) = pct k" if "k \<le> ?n" for k
    using progress_report_counts[OF that, of env cache db stats] by (simp add: progress_pct_def pct_def req_def Let_def)
  have "map (progress_pct (length (pn_targets p))) ?R = map (\<lambda>k. progress_pct (length (pn_targets p)) (?R ! k)) [0..<Suc ?n]"
    by (subst R) (simp add: comp_def del: upt_Suc)
  also have "\<dots> = map pct [0..<Suc ?n]" by (rule map_cong[OF refl], rule at) auto
  finally have pcts: "map (progress_pct (length (pn_targets p))) ?R = map pct [0..<Suc ?n]" .
  have mono: "pct i \<le> pct k" if "i \<le> k" for i k
    unfolding pct_def using that by (intro py_round_mono min.mono mult_right_mono divide_right_mono) auto
  have bounds: "0 \<le> pct k" "pct k \<le> 100" for k
    unfolding pct_def using py_round_mono[of _ 100 2] by (auto intro!: py_round_nonneg)
  have "sorted (map pct [0..<Suc ?n])" by (intro sorted_map_mono mono_onI mono sorted_upt)
  moreover have "last (map pct [0..<Suc ?n]) = 100" if "pn_targets p \<noteq> []"
  proof -
    have "0 < ?n" using that by (simp add: loop_legs_def max_refresh_legs_def)
    then have "req = ?n" unfolding req_def by (cases "loop_legs p") auto
    with \<open>0 < ?n\<close> show ?thesis by (simp add: pct_def)
  qed
  moreover have "hd (map pct [0..<Suc ?n]) = 0" by (simp add: hd_map pct_def del: upt_Suc)
  moreover have "length (map pct [0..<Suc ?n]) = Suc (min (length (pn_targets p)) max_refresh_legs)"
    by (simp add: loop_legs_def)
  moreover have "set (map pct [0..<Suc ?n]) \<subseteq> {0..100}" using bounds by (simp add: image_subset_iff del: upt_Suc)
  ultimately show ?thesis unfolding Let_def pcts by (intro conjI impI)
qed



text \<open>
  A failed refresh is retried after the cooldown. While the failure of a job with an error
  text is less than 60 seconds old, the gate starts nothing; from then on an automatic gate
  starts a new job, which clears the error.
\<close>

theorem gate_retries_after_cooldown:
  assumes "1 \<le> t" "err \<noteq> []" "j' = job_fail t err j"
  shows "(py_trunc now - py_trunc t < retry_cooldown \<longrightarrow>
        \<not> ga_ready (fst (funding_history_refresh_gate auto_start now p j')) \<and> snd (funding_history_refresh_gate auto_start now p j') = j')
    \<and> (py_trunc now - py_trunc t \<ge> retry_cooldown \<longrightarrow>
        jb_running (snd (funding_history_refresh_gate True now p j'))
        \<and> jb_id (snd (funding_history_refresh_gate True now p j')) = Some (pn_id p)
        \<and> \<not> has_error (snd (funding_history_refresh_gate True now p j')))"
proof -
  have "1 \<le> py_trunc t" using assms(1) by (simp add: py_trunc_def le_floor_iff)
  then show ?thesis
    using assms(2,3)
    by (simp add: funding_history_refresh_gate_def job_fail_def has_error_def int_or_zero_def claim_job_def no_meta_def)
qed

theorem gate_retries_after_cooldown_witness:
  "jb_running (snd (funding_history_refresh_gate True 160 (sample_plan 2) (job_fail 100 ''timeout'' idle_job)))"
  using gate_retries_after_cooldown[of 100 "''timeout''" _ idle_job 160 True "sample_plan 2", OF _ _ refl]
  by (simp add: py_trunc_def retry_cooldown_def)

text \<open>
  A failure without a text opens the gate. When the exception of a job prints as the empty
  text, the gate takes the failed job for a finished one and reports the history as ready.
\<close>

theorem silent_failure_opens_gate:
  assumes "1 \<le> t"
  shows "ga_ready (fst (funding_history_refresh_gate auto_start now p (job_fail t [] j)))"
proof -
  have "1 \<le> py_trunc t" using assms by (simp add: py_trunc_def le_floor_iff)
  then show ?thesis by (simp add: funding_history_refresh_gate_def job_fail_def has_error_def int_or_zero_def)
qed

theorem silent_failure_opens_gate_witness:
  "ga_ready (fst (funding_history_refresh_gate True 200 (sample_plan 2) (job_fail 100 [] (snd (claim_job 90 (sample_plan 1) idle_job)))))"
  by (rule silent_failure_opens_gate) simp

end
