(* ===== verification/FundingLedger.thy ===== *)
theory FundingLedger
  imports Database "HOL-Library.AList" "HOL-Library.Sublist" "HOL-Library.Product_Lexorder"
begin

text \<open>
  The funding ledger (\<open>core/funding_ledger\<close>): normalised symbols and amounts, the rows an
  exchange reports, their deduplication, the insertion into the ledger, the split of a payment
  over the strategies (\<open>resolve_assignment_allocations\<close> of \<open>core/pnl_v2_logic.py\<close>), and the
  ingestion run with its cursor. Times are whole milliseconds. What an exchange answers is an
  argument, in rows whose numbers have been read; the digest of an event and the ISO form of
  a time are arguments too. Raw payloads are left out.
\<close>

section \<open>Symbols\<close>

fun split_on :: "char \<Rightarrow> string \<Rightarrow> string list" where
  "split_on c [] = [[]]"
| "split_on c (x # s) =
     (if x = c then [] # split_on c s
      else (case split_on c s of [] \<Rightarrow> [[x]] | p # ps \<Rightarrow> (x # p) # ps))"

definition ends_with :: "string \<Rightarrow> string \<Rightarrow> bool" where
  "ends_with s t \<longleftrightarrow> drop (length s - length t) s = t"

definition pair_symbol :: "string \<Rightarrow> string \<Rightarrow> string" where
  "pair_symbol base quote = base @ ''/'' @ quote @ '':'' @ quote"

definition normalize_symbol :: "string option \<Rightarrow> string" where
  "normalize_symbol v =
     (let s = py_strip (py_upper (str_or_empty v)) in
      if str_or_empty v = [] then []
      else if CHR ''/'' \<in> set s \<and> CHR '':'' \<in> set s then s
      else if ends_with s ''-SWAP'' then
        pair_symbol (split_on (CHR ''-'') s ! 0) (split_on (CHR ''-'') s ! 1)
      else if CHR ''_'' \<in> set s \<and> CHR ''/'' \<notin> set s
          \<and> split_on (CHR ''_'') s ! 0 \<noteq> [] \<and> split_on (CHR ''_'') s ! 1 \<noteq> [] then
        pair_symbol (split_on (CHR ''_'') s ! 0) (split_on (CHR ''_'') s ! 1)
      else if ends_with s ''USDT'' \<and> CHR ''/'' \<notin> set s \<and> length s > 4 then
        take (length s - 4) s @ ''/USDT:USDT''
      else if CHR ''/'' \<in> set s \<and> CHR '':'' \<notin> set s then
        pair_symbol (split_head (CHR ''/'') s) (split_head (CHR '':'') (split_tail (CHR ''/'') s))
      else s)"

definition symbol_base :: "string \<Rightarrow> string" where
  "symbol_base k = split_on (CHR ''/'') k ! 0"

definition symbol_quote :: "string \<Rightarrow> string" where
  "symbol_quote k = split_on (CHR '':'') (split_on (CHR ''/'') k ! 1) ! 0"

definition normalized_to_binance_symbol :: "string option \<Rightarrow> string" where
  "normalized_to_binance_symbol symbol =
     (let k = normalize_symbol symbol in
      if k = [] then []
      else if CHR ''/'' \<in> set k \<and> symbol_base k \<noteq> [] \<and> symbol_quote k \<noteq> [] then symbol_base k @ symbol_quote k
      else filter (\<lambda>c. c \<noteq> CHR ''/'' \<and> c \<noteq> CHR '':'' \<and> c \<noteq> CHR ''-'') k)"

definition normalized_to_okx_inst_id :: "string option \<Rightarrow> string" where
  "normalized_to_okx_inst_id symbol =
     (let k = normalize_symbol symbol in
      if k = [] then []
      else if ends_with k ''-SWAP'' then k
      else if CHR ''/'' \<in> set k \<and> symbol_base k \<noteq> [] \<and> symbol_quote k \<noteq> []
      then symbol_base k @ ''-'' @ symbol_quote k @ ''-SWAP'' else k)"

section \<open>Amounts and times\<close>

text \<open>\<open>quantize\<close> to twelve decimals, half away from zero, and the printed form.\<close>

definition amount_units :: "real \<Rightarrow> nat" where
  "amount_units x = nat \<lfloor>\<bar>x\<bar> * 10 ^ 12 + 1 / 2\<rfloor>"

definition amount_text :: "real \<Rightarrow> string" where
  "amount_text x =
     (if x < 0 then ''-'' else []) @ digits_of (amount_units x div 10 ^ 12) @ ''.''
       @ pad_digits 12 (digits_of (amount_units x mod 10 ^ 12))"

definition amount_value :: "real \<Rightarrow> real" where
  "amount_value x = (if x < 0 then - 1 else 1) * real (amount_units x) / 10 ^ 12"

definition normalize_amount :: "fopt \<Rightarrow> real \<times> string" where
  "normalize_amount v = (amount_value (to_float v 0), amount_text (to_float v 0))"

definition to_utc_datetime :: "int option \<Rightarrow> int option" where
  "to_utc_datetime ts = (case ts of None \<Rightarrow> None | Some ms \<Rightarrow> if ms \<le> 0 then None else Some ms)"

section \<open>Reported rows\<close>

record event =
  ev_symbol :: string
  ev_time :: int
  ev_amount :: real
  ev_norm :: string
  ev_source :: string
  ev_ref :: string

definition event_key :: "event \<Rightarrow> string \<times> int \<times> string" where
  "event_key e = (ev_symbol e, ev_time e, ev_norm e)"

definition is_fallback :: "event \<Rightarrow> bool" where
  "is_fallback e \<longleftrightarrow> sublist ''fallback'' (py_lower (ev_source e))"

text \<open>A later row replaces an earlier one of the same key for a stable reference or a primary source.\<close>

definition prefers :: "event \<Rightarrow> event \<Rightarrow> bool" where
  "prefers prev row \<longleftrightarrow> (ev_ref prev = [] \<and> ev_ref row \<noteq> []) \<or> (is_fallback prev \<and> \<not> is_fallback row)"

definition dedupe_step :: "((string \<times> int \<times> string) \<times> event) list \<Rightarrow> event \<Rightarrow> ((string \<times> int \<times> string) \<times> event) list" where
  "dedupe_step m row =
     (let s = normalize_symbol (Some (ev_symbol row)); r = row\<lparr>ev_symbol := s\<rparr>; key = event_key r in
      if s = [] then m
      else (case map_of m key of
          None \<Rightarrow> AList.update key r m
        | Some prev \<Rightarrow> if prefers prev row then AList.update key r m else m))"

definition dedupe_funding_rows :: "event list \<Rightarrow> event list" where
  "dedupe_funding_rows rows = sort_key ev_time (map snd (foldl dedupe_step [] rows))"

section \<open>What the exchanges report\<close>

text \<open>
  A raw row: its type, time, symbol, the amount fields in the order they are tried, and the
  reference fields in the order they are tried.
\<close>

record raw_row =
  rw_type :: string
  rw_times :: "int option list"
  rw_symbol :: "string option"
  rw_amounts :: "fopt list"
  rw_refs :: "string option list"
  rw_bill :: string

definition make_source_ref :: "string option list \<Rightarrow> string" where
  "make_source_ref refs =
     (case first_where (\<lambda>v. v \<noteq> None \<and> py_strip (str_or_empty v) \<noteq> []) refs of
        Some (Some s) \<Rightarrow> s | _ \<Rightarrow> [])"

fun first_time :: "int option list \<Rightarrow> int option" where
  "first_time [] = None"
| "first_time (t # ts) = (case to_utc_datetime t of Some ms \<Rightarrow> Some ms | None \<Rightarrow> first_time ts)"

fun first_amount :: "fopt list \<Rightarrow> fopt" where
  "first_amount [] = None"
| "first_amount (a # as) = (case a of Some x \<Rightarrow> Some x | None \<Rightarrow> first_amount as)"

text \<open>A row becomes an event when it has a time and passes the symbol filter.\<close>

definition event_of_row :: "string \<Rightarrow> string \<Rightarrow> raw_row \<Rightarrow> event option" where
  "event_of_row source flt r =
     (case first_time (rw_times r) of
        None \<Rightarrow> None
      | Some t \<Rightarrow>
          let s = normalize_symbol (rw_symbol r); (amount, ntext) = normalize_amount (first_amount (rw_amounts r)) in
          if flt \<noteq> [] \<and> s \<noteq> flt then None
          else Some \<lparr>ev_symbol = s, ev_time = t, ev_amount = amount, ev_norm = ntext, ev_source = source,
                 ev_ref = make_source_ref (rw_refs r)\<rparr>)"

definition events_of :: "string \<Rightarrow> string \<Rightarrow> raw_row list \<Rightarrow> event list" where
  "events_of source flt rows = List.map_filter (event_of_row source flt) rows"

definition funding_type :: "raw_row \<Rightarrow> bool" where
  "funding_type r \<longleftrightarrow>
     (let t = py_lower (rw_type r) in t = [] \<or> t \<in> {''funding'', ''fundingfee'', ''fee'', ''fund''})"

definition rows_from_ccxt_funding_history :: "raw_row list \<Rightarrow> string \<Rightarrow> string \<Rightarrow> bool \<Rightarrow> event list" where
  "rows_from_ccxt_funding_history rows flt source funding_only =
     sort_key ev_time (events_of source flt (filter (\<lambda>r. \<not> funding_only \<or> funding_type r) rows))"

text \<open>Binance: pages of 1000 from a time on, at most 50; only income of type \<open>FUNDING_FEE\<close> counts.\<close>

definition is_funding_income :: "raw_row \<Rightarrow> bool" where
  "is_funding_income r \<longleftrightarrow> py_upper (rw_type r) = ''FUNDING_FEE''"

definition page_max_time :: "string \<Rightarrow> raw_row list \<Rightarrow> int" where
  "page_max_time flt rows =
     fold max (map ev_time (events_of ''binance_income'' flt (filter is_funding_income rows))) 0"

definition binance_limit :: nat where "binance_limit = 1000"

fun fetch_binance :: "(int \<Rightarrow> raw_row list) \<Rightarrow> string \<Rightarrow> nat \<Rightarrow> int \<Rightarrow> event list" where
  "fetch_binance client flt 0 cursor = []"
| "fetch_binance client flt (Suc n) cursor =
     (let raw = client cursor in
      if raw = [] then []
      else events_of ''binance_income'' flt (filter is_funding_income raw)
        @ (if length raw < binance_limit \<or> page_max_time flt raw \<le> cursor then []
           else fetch_binance client flt n (page_max_time flt raw + 1)))"

text \<open>OKX: pages of 100 bills, newest first, each older than the last bill of the page before.\<close>

definition okx_limit :: nat where "okx_limit = 100"

fun fetch_okx :: "(string \<Rightarrow> raw_row list) \<Rightarrow> string \<Rightarrow> nat \<Rightarrow> string \<Rightarrow> event list" where
  "fetch_okx client flt 0 after = []"
| "fetch_okx client flt (Suc n) after =
     (let raw = client after in
      if raw = [] then []
      else events_of ''okx_bills'' flt raw
        @ (if length raw < okx_limit \<or> rw_bill (last raw) = [] \<or> rw_bill (last raw) = after then []
           else fetch_okx client flt n (rw_bill (last raw))))"

text \<open>Bybit: one request.\<close>

definition fetch_bybit :: "raw_row list \<Rightarrow> string \<Rightarrow> event list" where
  "fetch_bybit raw flt = events_of ''bybit_transaction'' flt raw"

text \<open>Gate: the funding history, else the account book; \<open>None\<close> where the client raises.\<close>

definition fetch_gate_funding_rows :: "raw_row list option \<Rightarrow> raw_row list option \<Rightarrow> string \<Rightarrow> event list" where
  "fetch_gate_funding_rows history book flt =
     (let rows = (case history of None \<Rightarrow> [] | Some raw \<Rightarrow> rows_from_ccxt_funding_history raw flt ''gate_funding_history'' False)
      in if rows = [] then
           (case book of None \<Rightarrow> [] | Some raw \<Rightarrow> sort_key ev_time (events_of ''gate_account_book'' flt raw))
         else rows)"

text \<open>MEXC: pages of the funding history, then pages of the position records; an exception ends a part.\<close>

fun mexc_history :: "(int \<Rightarrow> raw_row list option) \<Rightarrow> string \<Rightarrow> nat \<Rightarrow> int \<Rightarrow> event list" where
  "mexc_history client flt 0 cursor = []"
| "mexc_history client flt (Suc n) cursor =
     (case client cursor of
        None \<Rightarrow> []
      | Some raw \<Rightarrow>
          let parsed = rows_from_ccxt_funding_history raw flt ''mexc_funding_history'' False in
          if parsed = [] then []
          else
            let top = fold max (map ev_time parsed) 0
            in parsed @ (if length raw < 100 \<or> (cursor \<noteq> 0 \<and> top < cursor) then []
                         else mexc_history client flt n (top + 1)))"

fun mexc_records :: "(nat \<Rightarrow> (raw_row list \<times> nat) option) \<Rightarrow> string \<Rightarrow> int \<Rightarrow> nat \<Rightarrow> nat \<Rightarrow> event list" where
  "mexc_records client flt since 0 page = []"
| "mexc_records client flt since (Suc n) page =
     (case client page of
        None \<Rightarrow> []
      | Some (raw, pages) \<Rightarrow>
          if raw = [] then []
          else filter (\<lambda>e. since = 0 \<or> since \<le> ev_time e) (events_of ''mexc_position_funding_records'' flt raw)
            @ (if (pages \<noteq> 0 \<and> pages \<le> page) \<or> length raw < 100 then [] else mexc_records client flt since n (page + 1)))"

definition fetch_mexc_funding_rows ::
    "(int \<Rightarrow> raw_row list option) \<Rightarrow> (nat \<Rightarrow> (raw_row list \<times> nat) option) \<Rightarrow> string \<Rightarrow> int \<Rightarrow> event list" where
  "fetch_mexc_funding_rows history records flt since =
     dedupe_funding_rows (mexc_history history flt 30 since @ mexc_records records flt since 50 1)"

text \<open>The clients, and the rows of an exchange; \<open>None\<close> where a request raises.\<close>

record ledger_client =
  lc_binance :: "int \<Rightarrow> raw_row list"
  lc_okx :: "string \<Rightarrow> raw_row list"
  lc_bybit :: "raw_row list"
  lc_gate_history :: "raw_row list option"
  lc_gate_book :: "raw_row list option"
  lc_mexc_history :: "int \<Rightarrow> raw_row list option"
  lc_mexc_records :: "nat \<Rightarrow> (raw_row list \<times> nat) option"
  lc_has_ledger :: bool
  lc_ledger :: "raw_row list"

definition ledger_fallback :: "ledger_client \<Rightarrow> string \<Rightarrow> string \<Rightarrow> event list" where
  "ledger_fallback c flt source =
     (if lc_has_ledger c then rows_from_ccxt_funding_history (lc_ledger c) flt source True else [])"

definition or_fallback :: "event list \<Rightarrow> ledger_client \<Rightarrow> string \<Rightarrow> string \<Rightarrow> event list" where
  "or_fallback rows c flt source = (if rows = [] then ledger_fallback c flt source else rows)"

definition fetch_exchange_funding_rows :: "string \<Rightarrow> ledger_client option \<Rightarrow> int \<Rightarrow> string option \<Rightarrow> event list" where
  "fetch_exchange_funding_rows exchange_name client since symbol =
     (case client of
        None \<Rightarrow> []
      | Some c \<Rightarrow>
          let name = py_lower exchange_name;
              flt = (if str_or_empty symbol = [] then [] else normalize_symbol symbol);
              rows = (if name = ''binance'' then fetch_binance (lc_binance c) flt 50 (max 0 since)
                else if name = ''okx'' then fetch_okx (lc_okx c) flt 50 []
                else if name = ''bybit'' then fetch_bybit (lc_bybit c) flt
                else if name = ''gate'' \<or> name = ''gateio'' then
                  or_fallback (fetch_gate_funding_rows (lc_gate_history c) (lc_gate_book c) flt) c flt ''gate_ledger_fallback''
                else if name = ''mexc'' then
                  or_fallback (fetch_mexc_funding_rows (lc_mexc_history c) (lc_mexc_records c) flt since) c flt ''mexc_ledger_fallback''
                else ledger_fallback c flt ''ccxt_ledger_fallback'')
          in dedupe_funding_rows rows)"

section \<open>The ledger\<close>

record ledger_row =
  lg_id :: int
  lg_exchange :: int
  lg_account :: string
  lg_symbol :: string
  lg_side :: string
  lg_time :: int
  lg_amount :: real
  lg_norm :: string
  lg_source :: string
  lg_ref :: string
  lg_hash :: string

record assignment =
  as_ledger :: int
  as_strategy :: int
  as_position :: "int option"
  as_amount :: real
  as_ratio :: real

record cursor_row =
  cu_exchange :: int
  cu_account :: string
  cu_symbol :: string
  cu_value :: string
  cu_success :: "int option"
  cu_error :: string
  cu_retry :: int

record ledger_tables =
  lt_rows :: "ledger_row list"
  lt_assigned :: "assignment list"
  lt_cursors :: "cursor_row list"

text \<open>
  A session on the ledger: the tables as of the last commit, the tables the connection sees,
  and the assignments that wait for the next flush (\<open>autoflush\<close> is off).
\<close>

record ledger_session =
  le_committed :: ledger_tables
  le_now :: ledger_tables
  le_pending :: "assignment list"

definition le_flush :: "ledger_session \<Rightarrow> ledger_session" where
  "le_flush s = s\<lparr>le_now := (le_now s)\<lparr>lt_assigned := lt_assigned (le_now s) @ le_pending s\<rparr>, le_pending := []\<rparr>"

text \<open>The digest and the ISO form of a time.\<close>

record digests =
  dg_hash :: "string \<Rightarrow> string"
  dg_iso :: "int \<Rightarrow> string"

definition key_payload :: "digests \<Rightarrow> int \<Rightarrow> string \<Rightarrow> string \<Rightarrow> int \<Rightarrow> string \<Rightarrow> string \<Rightarrow> string" where
  "key_payload dg ex account symbol time side ntext =
     str_of_int ex @ ''|'' @ account @ ''|'' @ symbol @ ''|'' @ dg_iso dg time @ ''|''
       @ (if side = [] then ''unknown'' else side) @ ''|'' @ ntext"

definition build_event_hash :: "digests \<Rightarrow> int \<Rightarrow> string \<Rightarrow> string \<Rightarrow> int \<Rightarrow> string \<Rightarrow> string \<Rightarrow> string" where
  "build_event_hash dg ex account symbol time side ntext = dg_hash dg (key_payload dg ex account symbol time side ntext)"

definition row_key :: "ledger_row \<Rightarrow> int \<times> string \<times> string \<times> int \<times> string \<times> string" where
  "row_key r = (lg_exchange r, lg_account r, lg_symbol r, lg_time r, lg_side r, lg_norm r)"

definition side_of :: "real \<Rightarrow> string" where
  "side_of amount = (if amount \<ge> 0 then ''receive'' else ''pay'')"

definition default_ref :: "int \<Rightarrow> string \<Rightarrow> string \<Rightarrow> string \<Rightarrow> string" where
  "default_ref time ntext symbol side = str_of_int time @ '':'' @ ntext @ '':'' @ symbol @ '':'' @ side"

definition next_ledger_id :: "ledger_row list \<Rightarrow> int" where
  "next_ledger_id rows = next_id (map lg_id rows)"

definition ledger_row_of :: "digests \<Rightarrow> int \<Rightarrow> string \<Rightarrow> event \<Rightarrow> ledger_row" where
  "ledger_row_of dg ex account e =
     (let symbol = normalize_symbol (Some (ev_symbol e)); side = side_of (ev_amount e);
          (amount, ntext) = normalize_amount (Some (ev_amount e))
      in \<lparr>lg_id = 0, lg_exchange = ex, lg_account = account, lg_symbol = symbol, lg_side = side, lg_time = ev_time e,
          lg_amount = amount, lg_norm = ntext, lg_source = (if ev_source e = [] then ''unknown'' else ev_source e),
          lg_ref = (if ev_ref e = [] then default_ref (ev_time e) ntext symbol side else ev_ref e),
          lg_hash = build_event_hash dg ex account symbol (ev_time e) side ntext\<rparr>)"

text \<open>An event that is known already completes the source and the reference of its row.\<close>

definition complete_row :: "ledger_row \<Rightarrow> ledger_row \<Rightarrow> ledger_row" where
  "complete_row new r =
     r\<lparr>lg_source := (if lg_source r = [] \<or> lg_source r = ''unknown'' then lg_source new else lg_source r),
       lg_ref := (if lg_ref r = [] then lg_ref new else lg_ref r)\<rparr>"

definition update_row :: "int \<Rightarrow> (ledger_row \<Rightarrow> ledger_row) \<Rightarrow> ledger_row list \<Rightarrow> ledger_row list" where
  "update_row i f rows = map (\<lambda>r. if lg_id r = i then f r else r) rows"

definition find_row :: "ledger_row \<Rightarrow> ledger_row list \<Rightarrow> ledger_row option" where
  "find_row new rows =
     (case first_where (\<lambda>r. lg_hash r = lg_hash new) rows of
        Some r \<Rightarrow> Some r
      | None \<Rightarrow> first_where (\<lambda>r. row_key r = row_key new) rows)"

text \<open>A flush fails on two assignments of one payment to the same position.\<close>

definition assignment_clash :: "assignment list \<Rightarrow> bool" where
  "assignment_clash as \<longleftrightarrow>
     \<not> distinct (map (\<lambda>a. (as_ledger a, as_strategy a, as_position a)) (filter (\<lambda>a. as_position a \<noteq> None) as))"

definition upsert_failure :: string where
  "upsert_failure = ''failed to upsert funding ledger row after integrity fallback''"

datatype upsert_result = Upserted ledger_row bool | UpsertFailed string

text \<open>
  \<open>upsert_funding_event\<close>: the row and whether it was created. The rows \<open>others\<close> were
  written and committed by other workers after the look-up and before the insertion.
\<close>

definition upsert_funding_event ::
    "digests \<Rightarrow> int \<Rightarrow> string \<Rightarrow> ledger_row list \<Rightarrow> event \<Rightarrow> ledger_session \<Rightarrow> upsert_result \<times> ledger_session" where
  "upsert_funding_event dg ex account others e s =
     (let new = ledger_row_of dg ex account e; rows = lt_rows (le_now s) in
      case find_row new rows of
        Some r \<Rightarrow> (Upserted (complete_row new r) False,
          s\<lparr>le_now := (le_now s)\<lparr>lt_rows := update_row (lg_id r) (complete_row new) rows\<rparr>\<rparr>)
      | None \<Rightarrow>
          let s1 = le_flush s; rows1 = lt_rows (le_now s1) @ others;
              s2 = s1\<lparr>le_committed := (le_committed s1)\<lparr>lt_rows := lt_rows (le_committed s1) @ others\<rparr>,
                      le_now := (le_now s1)\<lparr>lt_rows := rows1\<rparr>\<rparr>;
              i = next_ledger_id rows1
          in if assignment_clash (lt_assigned (le_now s1)) then (UpsertFailed upsert_failure, s)
             else if \<exists>r \<in> set rows1. lg_hash r = lg_hash new \<or> row_key r = row_key new then
               (case find_row new rows1 of
                  Some r \<Rightarrow> (Upserted r False, s2)
                | None \<Rightarrow> (UpsertFailed upsert_failure, s2))
             else (Upserted (new\<lparr>lg_id := i\<rparr>) True, s2\<lparr>le_now := (le_now s2)\<lparr>lt_rows := rows1 @ [new\<lparr>lg_id := i\<rparr>]\<rparr>\<rparr>))"

section \<open>Attribution to strategies\<close>

text \<open>A position joined with its strategy; times in milliseconds.\<close>

record attribution_row =
  ar_position :: "int option"
  ar_strategy :: int
  ar_exchange :: int
  ar_symbol :: "string option"
  ar_type :: "string option"
  ar_size :: fopt
  ar_current_price :: fopt
  ar_entry_price :: fopt
  ar_position_created :: "int option"
  ar_position_closed :: "int option"
  ar_strategy_created :: "int option"
  ar_strategy_closed :: "int option"

record attribution =
  at_strategy :: int
  at_position :: "int option"
  at_notional :: real
  at_created :: int

definition first_some :: "'a option \<Rightarrow> 'a option \<Rightarrow> 'a option" where
  "first_some a b = (case a of Some x \<Rightarrow> Some x | None \<Rightarrow> b)"

definition is_perp_type :: "string option \<Rightarrow> bool" where
  "is_perp_type t \<longleftrightarrow> py_lower (str_or_empty t) \<in> {''swap'', ''futures'', ''future'', ''perp'', ''perpetual''}"

definition candidate_of :: "int \<Rightarrow> ledger_row \<Rightarrow> attribution_row \<Rightarrow> attribution option" where
  "candidate_of now l a =
     (if ar_exchange a \<noteq> lg_exchange l \<or> normalize_symbol (ar_symbol a) \<noteq> normalize_symbol (Some (lg_symbol l))
         \<or> \<not> is_perp_type (ar_type a) then None
      else
        let start = first_some (ar_position_created a) (ar_strategy_created a);
            end' = (case first_some (ar_position_closed a) (ar_strategy_closed a) of Some t \<Rightarrow> t | None \<Rightarrow> now)
        in case start of
             None \<Rightarrow> None
           | Some st \<Rightarrow>
               if st \<le> lg_time l \<and> lg_time l \<le> end' then
                 Some \<lparr>at_strategy = ar_strategy a, at_position = ar_position a,
                   at_notional = \<bar>to_float (ar_size a) 0 * to_float (py_or_num (ar_current_price a) (ar_entry_price a)) 0\<bar>,
                   at_created = (case ar_strategy_created a of Some t \<Rightarrow> t | None \<Rightarrow> st)\<rparr>
               else None)"

definition build_assignment_candidates :: "int \<Rightarrow> attribution_row list \<Rightarrow> ledger_row \<Rightarrow> attribution list" where
  "build_assignment_candidates now spans l = List.map_filter (candidate_of now l) spans"

text \<open>\<open>resolve_assignment_allocations\<close>: merge by strategy, sort, split by notional.\<close>

definition merge_step :: "(int \<times> attribution) list \<Rightarrow> attribution \<Rightarrow> (int \<times> attribution) list" where
  "merge_step m c =
     (let row = (case map_of m (at_strategy c) of Some r \<Rightarrow> r | None \<Rightarrow> c\<lparr>at_notional := 0\<rparr>) in
      AList.update (at_strategy c)
        (row\<lparr>at_notional := at_notional row + pos_part (at_notional c), at_position := first_some (at_position row) (at_position c),
             at_created := min (at_created row) (at_created c)\<rparr>) m)"

definition allocation_key :: "attribution \<Rightarrow> real \<times> int \<times> int" where
  "allocation_key r = (- at_notional r, at_created r, at_strategy r)"

definition merged_rows :: "attribution list \<Rightarrow> attribution list" where
  "merged_rows cands = sort_key allocation_key (map snd (foldl merge_step [] cands))"

definition resolve_assignment_allocations :: "attribution list \<Rightarrow> (int \<times> int option \<times> real) list" where
  "resolve_assignment_allocations cands =
     (if cands = [] then []
      else
        let rows = merged_rows cands; total_notional = sum_list (map at_notional rows)
        in if total_notional \<le> 0 then (case rows of [] \<Rightarrow> [] | w # _ \<Rightarrow> [(at_strategy w, at_position w, 1)])
           else map (\<lambda>r. (at_strategy r, at_position r, at_notional r / total_notional)) rows)"

definition assignment_of :: "ledger_row \<Rightarrow> int \<times> int option \<times> real \<Rightarrow> assignment" where
  "assignment_of l x =
     (case x of (sid, pid, ratio) \<Rightarrow>
       \<lparr>as_ledger = lg_id l, as_strategy = sid, as_position = pid, as_amount = amount_value (lg_amount l * ratio), as_ratio = ratio\<rparr>)"

definition assign_funding_event :: "int \<Rightarrow> attribution_row list \<Rightarrow> ledger_row \<Rightarrow> ledger_session \<Rightarrow> nat \<times> ledger_session" where
  "assign_funding_event now spans l s =
     (let allocations = resolve_assignment_allocations (build_assignment_candidates now spans l);
          s1 = s\<lparr>le_now := (le_now s)\<lparr>lt_assigned := filter (\<lambda>a. as_ledger a \<noteq> lg_id l) (lt_assigned (le_now s))\<rparr>\<rparr>
      in (length allocations, s1\<lparr>le_pending := le_pending s1 @ map (assignment_of l) allocations\<rparr>))"

section \<open>Ingestion\<close>

definition cursor_key :: "string option \<Rightarrow> string" where
  "cursor_key symbol = (if str_or_empty symbol = [] then ''*'' else normalize_symbol symbol)"

definition same_cursor :: "int \<Rightarrow> string \<Rightarrow> string option \<Rightarrow> cursor_row \<Rightarrow> bool" where
  "same_cursor ex account symbol c \<longleftrightarrow> cu_exchange c = ex \<and> cu_account c = account \<and> cu_symbol c = cursor_key symbol"

definition get_cursor :: "int \<Rightarrow> string \<Rightarrow> string option \<Rightarrow> ledger_session \<Rightarrow> cursor_row option" where
  "get_cursor ex account symbol s = first_where (same_cursor ex account symbol) (lt_cursors (le_now s))"

definition upsert_cursor :: "cursor_row \<Rightarrow> cursor_row list \<Rightarrow> cursor_row list" where
  "upsert_cursor new cs =
     (if \<exists>c \<in> set cs. cu_exchange c = cu_exchange new \<and> cu_account c = cu_account new \<and> cu_symbol c = cu_symbol new
      then map (\<lambda>c. if cu_exchange c = cu_exchange new \<and> cu_account c = cu_account new \<and> cu_symbol c = cu_symbol new
                    then new else c) cs
      else cs @ [new])"

definition put_cursor :: "cursor_row \<Rightarrow> ledger_session \<Rightarrow> ledger_session" where
  "put_cursor c s = s\<lparr>le_now := (le_now s)\<lparr>lt_cursors := upsert_cursor c (lt_cursors (le_now s))\<rparr>\<rparr>"

definition le_commit :: "ledger_session \<Rightarrow> ledger_session option" where
  "le_commit s =
     (let s1 = le_flush s in if assignment_clash (lt_assigned (le_now s1)) then None else Some (s1\<lparr>le_committed := le_now s1\<rparr>))"

definition le_rollback :: "ledger_session \<Rightarrow> ledger_session" where
  "le_rollback s = s\<lparr>le_now := le_committed s, le_pending := []\<rparr>"

record ingest_report =
  ig_status :: string
  ig_fetched :: nat
  ig_inserted :: nat
  ig_updated :: nat
  ig_assigned :: nat
  ig_cursor :: "int option"
  ig_error :: string

record ingest_counts =
  ic_inserted :: nat
  ic_updated :: nat
  ic_assigned :: nat
  ic_max :: int

text \<open>The loop over the events; \<open>others i\<close> is what other workers write during the \<open>i\<close>-th insertion.\<close>

fun ingest_loop ::
    "digests \<Rightarrow> int \<Rightarrow> attribution_row list \<Rightarrow> int \<Rightarrow> string \<Rightarrow> (nat \<Rightarrow> ledger_row list) \<Rightarrow> nat \<Rightarrow> event list
      \<Rightarrow> ingest_counts \<Rightarrow> ledger_session \<Rightarrow> string option \<times> ingest_counts \<times> ledger_session" where
  "ingest_loop dg now spans ex account others i [] c s = (None, c, s)"
| "ingest_loop dg now spans ex account others i (e # es) c s =
     (case upsert_funding_event dg ex account (others i) e s of
        (UpsertFailed err, s1) \<Rightarrow> (Some err, c, s1)
      | (Upserted l created, s1) \<Rightarrow>
          let c1 = (if created then c\<lparr>ic_inserted := ic_inserted c + 1\<rparr> else c\<lparr>ic_updated := ic_updated c + 1\<rparr>);
              (n, s2) = assign_funding_event now spans l s1
          in ingest_loop dg now spans ex account others (Suc i) es
               (c1\<lparr>ic_assigned := ic_assigned c1 + n, ic_max := max (ic_max c1) (lg_time l)\<rparr>) s2)"

text \<open>What a run is given besides the session.\<close>

record ingest_env =
  ie_digests :: digests
  ie_now :: int
  ie_spans :: "attribution_row list"
  ie_others :: "nat \<Rightarrow> ledger_row list"
  ie_banned :: "int \<Rightarrow> bool"
  ie_rows :: "exchange_row \<Rightarrow> int \<Rightarrow> string + event list"

definition account_key :: "int \<Rightarrow> string" where
  "account_key ex = ''exchange:'' @ str_of_int ex"

definition all_digit_text :: "string \<Rightarrow> bool" where
  "all_digit_text s \<longleftrightarrow> s \<noteq> [] \<and> list_all is_digit_char s"

definition since_of :: "int \<Rightarrow> int \<Rightarrow> cursor_row option \<Rightarrow> int" where
  "since_of now lookback_hours cursor =
     (case cursor of
        Some c \<Rightarrow> if all_digit_text (cu_value c) then int (digits_value (cu_value c)) else now - max 1 lookback_hours * 3600000
      | None \<Rightarrow> now - max 1 lookback_hours * 3600000)"

definition report_of :: "string \<Rightarrow> nat \<Rightarrow> ingest_counts \<Rightarrow> int option \<Rightarrow> string \<Rightarrow> ingest_report" where
  "report_of status fetched c cursor err =
     \<lparr>ig_status = status, ig_fetched = fetched, ig_inserted = ic_inserted c, ig_updated = ic_updated c,
      ig_assigned = ic_assigned c, ig_cursor = cursor, ig_error = err\<rparr>"

definition no_counts :: "int \<Rightarrow> ingest_counts" where
  "no_counts since = \<lparr>ic_inserted = 0, ic_updated = 0, ic_assigned = 0, ic_max = since\<rparr>"

definition cursor_of :: "int \<Rightarrow> string option \<Rightarrow> int \<Rightarrow> int option \<Rightarrow> string \<Rightarrow> int \<Rightarrow> cursor_row" where
  "cursor_of ex symbol v success err retries =
     \<lparr>cu_exchange = ex, cu_account = account_key ex, cu_symbol = cursor_key symbol, cu_value = str_of_int v,
      cu_success = success, cu_error = take 500 err, cu_retry = retries\<rparr>"

text \<open>\<open>Inl\<close> where the fetch raises: the exception leaves the function.\<close>

definition ingest_exchange_funding_events ::
    "ingest_env \<Rightarrow> exchange_row \<Rightarrow> string option \<Rightarrow> int \<Rightarrow> ledger_session \<Rightarrow> (string + ingest_report) \<times> ledger_session" where
  "ingest_exchange_funding_events env x symbol lookback s =
     (let ex = ex_id x; now = ie_now env in
      if ie_banned env ex then (Inr (report_of ''skipped_banned'' 0 (no_counts 0) None []), s)
      else
        let cursor = get_cursor ex (account_key ex) symbol s; since = since_of now lookback cursor in
        case ie_rows env x since of
          Inl err \<Rightarrow> (Inl err, s)
        | Inr rows \<Rightarrow>
            let (failed, c, s1) = ingest_loop (ie_digests env) now (ie_spans env) ex (account_key ex) (ie_others env) 0 rows (no_counts since) s;
                next_ms = (if rows = [] then since else ic_max c + 1);
                fail = (\<lambda>err.
                  let s' = le_rollback s1;
                      c' = cursor_of ex symbol since (case cursor of Some k \<Rightarrow> cu_success k | None \<Rightarrow> None) err
                             ((case cursor of Some k \<Rightarrow> cu_retry k | None \<Rightarrow> 0) + 1);
                      s'' = (case le_commit (put_cursor c' s') of Some t \<Rightarrow> t | None \<Rightarrow> s')
                  in (Inr (report_of ''error'' (length rows) c (Some since) err), s''))
            in (case failed of
                  Some err \<Rightarrow> fail err
                | None \<Rightarrow>
                    (case le_commit (put_cursor (cursor_of ex symbol next_ms (Some now) [] 0) s1) of
                       None \<Rightarrow> fail ''IntegrityError''
                     | Some s2 \<Rightarrow> (Inr (report_of ''ok'' (length rows) c (Some next_ms) []), s2))))"

fun ingest_all :: "ingest_env \<Rightarrow> string option \<Rightarrow> int \<Rightarrow> exchange_row list \<Rightarrow> ledger_session \<Rightarrow> ingest_report list \<times> ledger_session" where
  "ingest_all env symbol lookback [] s = ([], s)"
| "ingest_all env symbol lookback (x # xs) s =
     (case ingest_exchange_funding_events env x symbol lookback s of
        (out, s1) \<Rightarrow>
          let one = (case out of Inr r \<Rightarrow> r | Inl err \<Rightarrow> report_of ''error'' 0 (no_counts 0) None err)
          in (case ingest_all env symbol lookback xs s1 of (rs, s2) \<Rightarrow> (one # rs, s2)))"

definition ingest_all_active_exchanges ::
    "ingest_env \<Rightarrow> (int \<Rightarrow> bool) \<Rightarrow> string option \<Rightarrow> int \<Rightarrow> exchange_row list \<Rightarrow> ledger_session
      \<Rightarrow> ingest_report list \<times> ledger_session" where
  "ingest_all_active_exchanges env active symbol lookback xs s =
     ingest_all env symbol lookback (filter (\<lambda>x. active (ex_id x)) xs) s"

end
