(* ===== verification/LedgerLaws.thy ===== *)
theory LedgerLaws
  imports FundingLedger
begin

text \<open>
  What the funding ledger guarantees: printed amounts and event keys determine the event, an
  event is booked once, also when another worker books it at the same time, a payment is split
  completely over the strategies that held the leg, and what a run of the ingestion can lose.
\<close>

section \<open>Printed amounts\<close>

lemma dot_not_digit: "CHR ''.'' \<notin> set (digits_of n)" "CHR ''-'' \<notin> set (digits_of n)"
  by (rule not_digit_notin, simp add: is_digit_char_def)+

lemma units_text_inj:
  assumes "digits_of (m div 10 ^ 12) @ ''.'' @ pad_digits 12 (digits_of (m mod 10 ^ 12))
    = digits_of (n div 10 ^ 12) @ ''.'' @ pad_digits 12 (digits_of (n mod 10 ^ 12))"
  shows "m = n"
proof -
  have "digits_of (m div 10 ^ 12) = digits_of (n div 10 ^ 12)
      \<and> pad_digits 12 (digits_of (m mod 10 ^ 12)) = pad_digits 12 (digits_of (n mod 10 ^ 12))"
    using split_at_first[of "digits_of (m div 10 ^ 12)" "CHR ''.''"] assms dot_not_digit(1) by simp
  then have "m div 10 ^ 12 = n div 10 ^ 12" "m mod 10 ^ 12 = n mod 10 ^ 12"
    using digits_of_inj pad_digits_value by metis+
  then show ?thesis by (metis div_mult_mod_eq)
qed

text \<open>The printed form of an amount determines its rounded value.\<close>

lemma amount_text_sign: "hd (amount_text x) = CHR ''-'' \<longleftrightarrow> x < 0"
proof -
  have "hd (digits_of n @ t) = hd (digits_of n)" for n t by (simp add: hd_append)
  moreover have "hd (digits_of n) \<noteq> CHR ''-''" for n by (metis digits_of_nonempty dot_not_digit(2) hd_in_set)
  ultimately show ?thesis by (simp add: amount_text_def)
qed

lemma amount_text_inj:
  assumes "amount_text x = amount_text y" shows "amount_units x = amount_units y \<and> (x < 0 \<longleftrightarrow> y < 0)"
proof -
  have s: "x < 0 \<longleftrightarrow> y < 0" using assms amount_text_sign by metis
  from assms have "digits_of (amount_units x div 10 ^ 12) @ ''.'' @ pad_digits 12 (digits_of (amount_units x mod 10 ^ 12))
      = digits_of (amount_units y div 10 ^ 12) @ ''.'' @ pad_digits 12 (digits_of (amount_units y mod 10 ^ 12))"
    unfolding amount_text_def s by (rule same_append_eq[THEN iffD1])
  with s units_text_inj show ?thesis by blast
qed

lemma amount_text_value: "amount_text x = amount_text y \<Longrightarrow> amount_value x = amount_value y"
  by (auto dest: amount_text_inj simp: amount_value_def)

lemma amount_text_chars: "CHR ''|'' \<notin> set (amount_text x)"
  using not_digit_notin[of "CHR ''|''"] by (auto simp: amount_text_def pad_digits_def is_digit_char_def)

lemma amount_value_error: "\<bar>amount_value x - x\<bar> \<le> 1 / (2 * 10 ^ 12)"
proof -
  define u where "u = \<lfloor>\<bar>x\<bar> * 10 ^ 12 + 1 / 2\<rfloor>"
  have "0 \<le> u" by (simp add: u_def)
  have "\<bar>of_int u - \<bar>x\<bar> * 10 ^ 12\<bar> \<le> 1 / 2"
    using of_int_floor_le[of "\<bar>x\<bar> * 10 ^ 12 + 1 / 2"] real_of_int_floor_add_one_gt[of "\<bar>x\<bar> * 10 ^ 12 + 1 / 2"]
    unfolding u_def by linarith
  moreover define e where "e = of_int u / (10 ^ 12 :: real)"
  ultimately have "\<bar>e * 10 ^ 12 - \<bar>x\<bar> * 10 ^ 12\<bar> \<le> 1 / 2" by simp
  then have "\<bar>e - \<bar>x\<bar>\<bar> * 10 ^ 12 \<le> 1 / 2"
    by (simp only: left_diff_distrib[symmetric] abs_mult) simp
  then have "\<bar>e - \<bar>x\<bar>\<bar> \<le> 1 / (2 * 10 ^ 12)" by (simp add: field_simps)
  moreover have "amount_value x = (if x < 0 then - e else e)"
    using \<open>0 \<le> u\<close> by (simp add: amount_value_def amount_units_def u_def e_def)
  ultimately show ?thesis by (simp add: abs_real_def split: if_splits)
qed

section \<open>Keys and digests\<close>

text \<open>A digest without collisions and a printed time without separators that determines the time.\<close>

definition good_digests :: "digests \<Rightarrow> bool" where
  "good_digests dg \<longleftrightarrow> inj (dg_hash dg) \<and> inj (dg_iso dg) \<and> (\<forall>t. CHR ''|'' \<notin> set (dg_iso dg t))"

definition good_row :: "digests \<Rightarrow> ledger_row \<Rightarrow> bool" where
  "good_row dg r \<longleftrightarrow>
     CHR ''|'' \<notin> set (lg_account r) \<and> lg_side r \<in> {''receive'', ''pay''} \<and> CHR ''|'' \<notin> set (lg_norm r)
     \<and> lg_hash r = build_event_hash dg (lg_exchange r) (lg_account r) (lg_symbol r) (lg_time r) (lg_side r) (lg_norm r)"

lemma row_key_inj:
  assumes dg: "good_digests dg" and r: "good_row dg r" and r': "good_row dg r'" and h: "lg_hash r = lg_hash r'"
  shows "row_key r = row_key r'"
proof -
  let ?b = "CHR ''|''"
  have side: "?b \<notin> set (lg_side x)" "lg_side x \<noteq> []" if "good_row dg x" for x
    using that by (auto simp: good_row_def)
  have p: "str_of_int (lg_exchange r) @ ?b # lg_account r @ ?b # (lg_symbol r @ ?b # dg_iso dg (lg_time r) @ ?b # lg_side r @ ?b # lg_norm r)
    = str_of_int (lg_exchange r') @ ?b # lg_account r' @ ?b # (lg_symbol r' @ ?b # dg_iso dg (lg_time r') @ ?b # lg_side r' @ ?b # lg_norm r')"
    using assms side(2)[OF r] side(2)[OF r'] by (auto simp: good_row_def good_digests_def build_event_hash_def key_payload_def dest: injD)
  from split_at_first[OF p bar_not_in_number bar_not_in_number]
  have ex: "lg_exchange r = lg_exchange r'"
    and p1: "lg_account r @ ?b # (lg_symbol r @ ?b # dg_iso dg (lg_time r) @ ?b # lg_side r @ ?b # lg_norm r)
      = lg_account r' @ ?b # (lg_symbol r' @ ?b # dg_iso dg (lg_time r') @ ?b # lg_side r' @ ?b # lg_norm r')"
    by (auto simp: str_of_int_inj)
  from split_at_first[OF p1] r r' have acc: "lg_account r = lg_account r'"
    and p2: "((lg_symbol r @ ?b # dg_iso dg (lg_time r)) @ ?b # lg_side r) @ ?b # lg_norm r
      = ((lg_symbol r' @ ?b # dg_iso dg (lg_time r')) @ ?b # lg_side r') @ ?b # lg_norm r'"
    by (auto simp: good_row_def)
  from split_at_last[OF p2] r r' have nt: "lg_norm r = lg_norm r'"
    and p3: "(lg_symbol r @ ?b # dg_iso dg (lg_time r)) @ ?b # lg_side r = (lg_symbol r' @ ?b # dg_iso dg (lg_time r')) @ ?b # lg_side r'"
    by (auto simp: good_row_def)
  from split_at_last[OF p3] side(1)[OF r] side(1)[OF r'] have sd: "lg_side r = lg_side r'"
    and p4: "lg_symbol r @ ?b # dg_iso dg (lg_time r) = lg_symbol r' @ ?b # dg_iso dg (lg_time r')" by auto
  from split_at_last[OF p4] dg have "lg_symbol r = lg_symbol r'" "dg_iso dg (lg_time r) = dg_iso dg (lg_time r')"
    by (auto simp: good_digests_def)
  with dg ex acc nt sd show ?thesis by (auto simp: row_key_def good_digests_def dest: injD)
qed

lemma same_key_same_hash: "good_row dg r \<Longrightarrow> good_row dg r' \<Longrightarrow> row_key r = row_key r' \<Longrightarrow> lg_hash r = lg_hash r'"
  by (simp add: good_row_def row_key_def)

lemma find_row_key:
  assumes dg: "good_digests dg" and new: "good_row dg new" and rows: "\<And>r. r \<in> set rows \<Longrightarrow> good_row dg r"
  shows "case find_row new rows of None \<Rightarrow> row_key new \<notin> row_key ` set rows
    | Some r \<Rightarrow> r \<in> set rows \<and> row_key r = row_key new"
proof (cases "first_where (\<lambda>r. lg_hash r = lg_hash new) rows")
  case None
  have "row_key new \<noteq> row_key r" if "r \<in> set rows" for r
    using None that same_key_same_hash[OF new rows[OF that]] unfolding first_where_None by metis
  then have "first_where (\<lambda>r. row_key r = row_key new) rows = None" "row_key new \<notin> row_key ` set rows"
    unfolding first_where_None by (metis, blast)
  with None show ?thesis by (simp add: find_row_def)
next
  case (Some r)
  then have "r \<in> set rows" "lg_hash r = lg_hash new" by (auto dest: first_where_Some)
  with row_key_inj[OF dg rows[of r] new] Some show ?thesis by (simp add: find_row_def)
qed

lemma ledger_row_good: "CHR ''|'' \<notin> set account \<Longrightarrow> good_row dg (ledger_row_of dg ex account e)"
  by (simp add: good_row_def ledger_row_of_def side_of_def normalize_amount_def amount_text_chars Let_def)

lemma account_key_plain: "CHR ''|'' \<notin> set (account_key ex)"
  using bar_not_in_number by (simp add: account_key_def)

section \<open>The ledger books an event once\<close>

definition ledger_ok :: "digests \<Rightarrow> ledger_row list \<Rightarrow> bool" where
  "ledger_ok dg rows \<longleftrightarrow>
     distinct (map lg_id rows) \<and> distinct (map row_key rows) \<and> (\<forall>r \<in> set rows. good_row dg r)"

lemma next_ledger_id_fresh: "next_ledger_id rows \<notin> lg_id ` set rows"
  using next_id_notin[of "map lg_id rows"] by (simp add: next_ledger_id_def)

text \<open>The id and the key of a row.\<close>

definition id_key :: "ledger_row \<Rightarrow> int \<times> int \<times> string \<times> string \<times> int \<times> string \<times> string" where
  "id_key r = (lg_id r, row_key r)"

lemma complete_row_sels [simp]:
  "lg_id (complete_row new r) = lg_id r" "row_key (complete_row new r) = row_key r"
  "good_row dg (complete_row new r) = good_row dg r"
  by (simp_all add: complete_row_def row_key_def good_row_def)

lemma update_row_maps:
  "map id_key (update_row i (complete_row new) rows) = map id_key rows"
  "map lg_id (update_row i (complete_row new) rows) = map lg_id rows"
  "map row_key (update_row i (complete_row new) rows) = map row_key rows"
  "(\<forall>r \<in> set (update_row i (complete_row new) rows). good_row dg r) \<longleftrightarrow> (\<forall>r \<in> set rows. good_row dg r)"
  by (induction rows) (auto simp: update_row_def id_key_def)

lemma update_row_images:
  "id_key ` set (update_row i (complete_row new) rows) = id_key ` set rows"
  "lg_id ` set (update_row i (complete_row new) rows) = lg_id ` set rows"
  "row_key ` set (update_row i (complete_row new) rows) = row_key ` set rows"
  unfolding set_map[symmetric] update_row_maps by (rule refl)+

lemma ledger_ok_update: "ledger_ok dg (update_row i (complete_row new) rows) = ledger_ok dg rows"
  by (simp add: ledger_ok_def update_row_maps)

lemma ledger_ok_append:
  "ledger_ok dg rows \<Longrightarrow> good_row dg new \<Longrightarrow> row_key new \<notin> row_key ` set rows \<Longrightarrow>
   ledger_ok dg (rows @ [new\<lparr>lg_id := next_ledger_id rows\<rparr>])"
  using next_ledger_id_fresh by (fastforce simp: ledger_ok_def row_key_def good_row_def)

lemma le_flush_rows [simp]: "lt_rows (le_now (le_flush s)) = lt_rows (le_now s)" "le_committed (le_flush s) = le_committed s"
  by (simp_all add: le_flush_def)

text \<open>
  An upsert without a pending conflict, in the presence of rows written by others: the row it
  returns has the key of the event, and it is created only if nobody had written the key.
\<close>

definition upserted ::
    "digests \<Rightarrow> ledger_row \<Rightarrow> ledger_row list \<Rightarrow> ledger_session \<Rightarrow> upsert_result \<times> ledger_session \<Rightarrow> bool" where
  "upserted dg new others s out \<longleftrightarrow>
     (case out of
        (UpsertFailed e, s') \<Rightarrow> False
      | (Upserted l created, s') \<Rightarrow>
          row_key l = row_key new \<and> ledger_ok dg (lt_rows (le_now s'))
          \<and> (created \<longleftrightarrow> row_key new \<notin> row_key ` set (lt_rows (le_now s) @ others))
          \<and> id_key ` set (lt_rows (le_now s)) \<subseteq> id_key ` set (lt_rows (le_now s'))
          \<and> id_key l \<in> id_key ` set (lt_rows (le_now s'))
          \<and> row_key ` set (lt_rows (le_now s')) \<subseteq> insert (row_key new) (row_key ` set (lt_rows (le_now s) @ others))
          \<and> lt_assigned (le_now s') @ le_pending s' = lt_assigned (le_now s) @ le_pending s
          \<and> set (le_pending s') \<subseteq> set (le_pending s)
          \<and> (others = [] \<longrightarrow> le_committed s' = le_committed s) \<and> lt_cursors (le_now s') = lt_cursors (le_now s))"

definition with_rows :: "ledger_row list \<Rightarrow> ledger_session \<Rightarrow> ledger_session" where
  "with_rows rows s = s\<lparr>le_now := (le_now s)\<lparr>lt_rows := rows\<rparr>\<rparr>"

lemma with_rows_sels [simp]:
  "lt_rows (le_now (with_rows rows s)) = rows" "lt_assigned (le_now (with_rows rows s)) = lt_assigned (le_now s)"
  "lt_cursors (le_now (with_rows rows s)) = lt_cursors (le_now s)" "le_pending (with_rows rows s) = le_pending s"
  "le_committed (with_rows rows s) = le_committed s"
  by (simp_all add: with_rows_def)

lemma le_flush_sels [simp]:
  "lt_assigned (le_now (le_flush s)) = lt_assigned (le_now s) @ le_pending s" "le_pending (le_flush s) = []"
  "lt_cursors (le_now (le_flush s)) = lt_cursors (le_now s)"
  by (simp_all add: le_flush_def)

definition with_others :: "ledger_row list \<Rightarrow> ledger_session \<Rightarrow> ledger_session" where
  "with_others others s = s\<lparr>le_committed := (le_committed s)\<lparr>lt_rows := lt_rows (le_committed s) @ others\<rparr>\<rparr>"

lemma with_others_sels [simp]:
  "le_now (with_others others s) = le_now s" "le_pending (with_others others s) = le_pending s"
  "le_committed (with_others [] s) = le_committed s"
  by (simp_all add: with_others_def)

lemma upsert_known:
  "find_row (ledger_row_of dg ex account e) (lt_rows (le_now s)) = Some r \<Longrightarrow>
   upsert_funding_event dg ex account others e s =
     (Upserted (complete_row (ledger_row_of dg ex account e) r) False,
      with_rows (update_row (lg_id r) (complete_row (ledger_row_of dg ex account e)) (lt_rows (le_now s))) s)"
  by (simp add: upsert_funding_event_def with_rows_def Let_def)

lemma upsert_raced:
  assumes "find_row (ledger_row_of dg ex account e) (lt_rows (le_now s)) = None"
    "\<not> assignment_clash (lt_assigned (le_now s) @ le_pending s)"
    "find_row (ledger_row_of dg ex account e) (lt_rows (le_now s) @ others) = Some r"
    "\<exists>r \<in> set (lt_rows (le_now s) @ others). lg_hash r = lg_hash (ledger_row_of dg ex account e)
      \<or> row_key r = row_key (ledger_row_of dg ex account e)"
  shows "upsert_funding_event dg ex account others e s =
    (Upserted r False, with_rows (lt_rows (le_now s) @ others) (with_others others (le_flush s)))"
  using assms by (simp add: upsert_funding_event_def with_rows_def with_others_def Let_def del: set_append bex_Un)

lemma upsert_new:
  assumes "find_row (ledger_row_of dg ex account e) (lt_rows (le_now s)) = None"
    "\<not> assignment_clash (lt_assigned (le_now s) @ le_pending s)"
    "\<not> (\<exists>r \<in> set (lt_rows (le_now s) @ others). lg_hash r = lg_hash (ledger_row_of dg ex account e)
      \<or> row_key r = row_key (ledger_row_of dg ex account e))"
    "added = (ledger_row_of dg ex account e)\<lparr>lg_id := next_ledger_id (lt_rows (le_now s) @ others)\<rparr>"
  shows "upsert_funding_event dg ex account others e s =
    (Upserted added True, with_rows ((lt_rows (le_now s) @ others) @ [added]) (with_others others (le_flush s)))"
  using assms by (simp add: upsert_funding_event_def with_rows_def with_others_def Let_def del: set_append bex_Un)

lemma upsert_ok:
  assumes dg: "good_digests dg" and acc: "CHR ''|'' \<notin> set account"
    and ok: "ledger_ok dg (lt_rows (le_now s) @ others)"
    and clash: "\<not> assignment_clash (lt_assigned (le_now s) @ le_pending s)"
  shows "upserted dg (ledger_row_of dg ex account e) others s (upsert_funding_event dg ex account others e s)"
proof -
  let ?new = "ledger_row_of dg ex account e" and ?rows = "lt_rows (le_now s)"
  have new: "good_row dg ?new" using acc by (rule ledger_row_good)
  have good: "\<And>r. r \<in> set (?rows @ others) \<Longrightarrow> good_row dg r" using ok by (auto simp: ledger_ok_def)
  have okr: "ledger_ok dg ?rows" using ok by (auto simp: ledger_ok_def)
  show ?thesis
  proof (cases "find_row ?new ?rows")
    case (Some r)
    then have r: "r \<in> set ?rows" "row_key r = row_key ?new"
      using find_row_key[OF dg new, of ?rows] good by auto
    have "row_key ?new \<in> row_key ` set ?rows" "id_key (complete_row ?new r) \<in> id_key ` set ?rows"
      using r by (metis imageI) (metis (mono_tags) id_key_def complete_row_sels(1,2) imageI r(1))
    with r okr show ?thesis
      unfolding upsert_known[OF Some]
      by (simp add: upserted_def ledger_ok_update update_row_images image_Un subset_insertI2)
  next
    case None
    show ?thesis
    proof (cases "find_row ?new (?rows @ others)")
      case (Some r)
      then have r: "r \<in> set (?rows @ others)" "row_key r = row_key ?new"
        using find_row_key[OF dg new, of "?rows @ others"] good by auto
      then have hit: "\<exists>r \<in> set (?rows @ others). lg_hash r = lg_hash ?new \<or> row_key r = row_key ?new" by blast
      have "row_key ?new \<in> row_key ` set (?rows @ others)" "id_key r \<in> id_key ` set (?rows @ others)"
        using r by (metis imageI) (metis imageI r(1))
      with r ok show ?thesis
        unfolding upsert_raced[OF None clash Some hit] by (auto simp: upserted_def)
    next
      case n2: None
      then have k: "row_key ?new \<notin> row_key ` set (?rows @ others)"
        using find_row_key[OF dg new, of "?rows @ others"] good by auto
      then have no: "\<not> (\<exists>r \<in> set (?rows @ others). lg_hash r = lg_hash ?new \<or> row_key r = row_key ?new)"
        using row_key_inj[OF dg good new] by (metis image_eqI)
      define added where "added = ?new\<lparr>lg_id := next_ledger_id (?rows @ others)\<rparr>"
      have "ledger_ok dg ((?rows @ others) @ [added])"
        unfolding added_def by (rule ledger_ok_append[OF ok new k])
      moreover have "row_key added = row_key ?new" by (simp add: added_def row_key_def)
      ultimately show ?thesis
        unfolding upsert_new[OF None clash no added_def] using k by (auto simp: upserted_def)
    qed
  qed
qed

section \<open>A payment is split completely\<close>

definition strategy_notional :: "attribution list \<Rightarrow> int \<Rightarrow> real" where
  "strategy_notional cands k = sum_list (map (\<lambda>c. pos_part (at_notional c)) (filter (\<lambda>c. at_strategy c = k) cands))"

definition merge_ok :: "attribution list \<Rightarrow> (int \<times> attribution) list \<Rightarrow> bool" where
  "merge_ok cands m \<longleftrightarrow>
     distinct (map fst m) \<and> set (map fst m) = at_strategy ` set cands
     \<and> (\<forall>kv \<in> set m. at_strategy (snd kv) = fst kv \<and> at_notional (snd kv) = strategy_notional cands (fst kv))"

lemma strategy_notional_snoc:
  "strategy_notional (cands @ [c]) k = strategy_notional cands k + (if at_strategy c = k then pos_part (at_notional c) else 0)"
  by (simp add: strategy_notional_def)

lemma strategy_notional_none: "k \<notin> at_strategy ` set cands \<Longrightarrow> strategy_notional cands k = 0"
  by (induction cands) (auto simp: strategy_notional_def)

lemma merge_step_ok:
  assumes "merge_ok cands m" shows "merge_ok (cands @ [c]) (merge_step m c)"
proof -
  define row where "row = (case map_of m (at_strategy c) of Some r \<Rightarrow> r | None \<Rightarrow> c\<lparr>at_notional := 0\<rparr>)"
  have row: "at_strategy row = at_strategy c \<and> at_notional row = strategy_notional cands (at_strategy c)"
  proof (cases "map_of m (at_strategy c)")
    case None
    then have "at_strategy c \<notin> at_strategy ` set cands" using assms by (auto simp: merge_ok_def map_of_eq_None_iff)
    with None show ?thesis by (simp add: row_def strategy_notional_none)
  next
    case (Some r)
    with assms show ?thesis by (force simp: row_def merge_ok_def dest: map_of_SomeD)
  qed
  define row' where "row' = row\<lparr>at_notional := at_notional row + pos_part (at_notional c),
    at_position := first_some (at_position row) (at_position c), at_created := min (at_created row) (at_created c)\<rparr>"
  have step: "merge_step m c = AList.update (at_strategy c) row' m"
    by (simp add: merge_step_def row'_def row_def Let_def)
  have d: "distinct (map fst (merge_step m c))" using assms by (simp add: step merge_ok_def distinct_update)
  have "fst ` set (merge_step m c) = insert (at_strategy c) (fst ` set m)"
    using update_conv'[of "at_strategy c" row' m] unfolding step by (metis dom_fun_upd dom_map_of_conv_image_fst option.distinct(1))
  moreover have "at_strategy v = k \<and> at_notional v = strategy_notional (cands @ [c]) k"
    if "(k, v) \<in> set (merge_step m c)" for k v
  proof (cases "k = at_strategy c")
    case True
    with that d have "v = row'"
      unfolding step by (metis map_of_eq_Some_iff update_Some_unfold)
    with True row show ?thesis by (simp add: row'_def strategy_notional_snoc)
  next
    case False
    with that d have "(k, v) \<in> set m"
      unfolding step using assms by (metis map_of_eq_Some_iff update_Some_unfold map_of_SomeD)
    with assms False show ?thesis by (force simp: merge_ok_def strategy_notional_snoc)
  qed
  ultimately show ?thesis using assms d by (fastforce simp: merge_ok_def)
qed

lemma merge_fold_ok: "merge_ok cands (foldl merge_step [] cands)"
  by (induction cands rule: rev_induct) (simp_all add: merge_step_ok, simp add: merge_ok_def)

lemma sum_strategy_notional:
  assumes "distinct ks" "at_strategy ` set cands \<subseteq> set ks"
  shows "sum_list (map (strategy_notional cands) ks) = sum_list (map (\<lambda>c. pos_part (at_notional c)) cands)"
  using assms(2)
proof (induction cands rule: rev_induct)
  case Nil
  show ?case by (simp add: strategy_notional_def)
next
  case (snoc c cands)
  have "sum_list (map (\<lambda>k. if at_strategy c = k then v else 0) ks) = v" for v :: real
    using assms(1) snoc.prems by (simp add: sum_list_distinct_conv_sum_set)
  with snoc show ?case by (simp add: strategy_notional_snoc sum_list_addf)
qed

lemma merged_rows_facts:
  "distinct (map at_strategy (merged_rows cands))" "at_strategy ` set (merged_rows cands) = at_strategy ` set cands"
  "r \<in> set (merged_rows cands) \<Longrightarrow> at_notional r = strategy_notional cands (at_strategy r)"
  "sum_list (map at_notional (merged_rows cands)) = sum_list (map (\<lambda>c. pos_part (at_notional c)) cands)"
proof -
  let ?m = "foldl merge_step [] cands"
  have ok: "merge_ok cands ?m" by (rule merge_fold_ok)
  then have "map at_strategy (map snd ?m) = map fst ?m" by (auto simp: merge_ok_def)
  moreover have ms: "mset (merged_rows cands) = mset (map snd ?m)" by (simp add: merged_rows_def)
  ultimately have k: "mset (map at_strategy (merged_rows cands)) = mset (map fst ?m)" by (metis mset_map)
  from k ok show d: "distinct (map at_strategy (merged_rows cands))" by (metis merge_ok_def mset_eq_imp_distinct_iff)
  from k ok show s: "at_strategy ` set (merged_rows cands) = at_strategy ` set cands"
    by (metis merge_ok_def mset_eq_setD set_map)
  show n: "at_notional r = strategy_notional cands (at_strategy r)" if "r \<in> set (merged_rows cands)" for r
    using that ok ms by (fastforce simp: merge_ok_def dest: mset_eq_setD)
  have "sum_list (map at_notional (merged_rows cands)) = sum_list (map (strategy_notional cands) (map at_strategy (merged_rows cands)))"
    using n by (auto intro!: arg_cong[where f = sum_list])
  also have "\<dots> = sum_list (map (\<lambda>c. pos_part (at_notional c)) cands)"
    by (rule sum_strategy_notional[OF d]) (simp add: s)
  finally show "sum_list (map at_notional (merged_rows cands)) = sum_list (map (\<lambda>c. pos_part (at_notional c)) cands)" .
qed

lemma sum_list_divide: "sum_list (map (\<lambda>x. f x / t) xs) = sum_list (map f xs) / (t :: real)"
  by (induction xs) (simp_all add: add_divide_distrib)

lemma allocations_exact:
  assumes "cands \<noteq> []"
  shows "distinct (map fst (resolve_assignment_allocations cands))"
    "set (map fst (resolve_assignment_allocations cands)) \<subseteq> at_strategy ` set cands"
    "sum_list (map (\<lambda>x. snd (snd x)) (resolve_assignment_allocations cands)) = 1"
    "(sid, pid, ratio) \<in> set (resolve_assignment_allocations cands) \<Longrightarrow>
       0 \<le> ratio \<and> ratio * sum_list (map (\<lambda>c. pos_part (at_notional c)) cands) = strategy_notional cands sid"
proof -
  let ?rows = "merged_rows cands" and ?t = "sum_list (map (\<lambda>c. pos_part (at_notional c)) cands)"
  have ne: "?rows \<noteq> []" using assms merged_rows_facts(2)[of cands] by auto
  have nonneg: "0 \<le> strategy_notional cands k" for k
    unfolding strategy_notional_def by (rule sum_list_nonneg) auto
  consider (zero) w rest where "?t \<le> 0" "?rows = w # rest" "resolve_assignment_allocations cands = [(at_strategy w, at_position w, 1)]"
    | (pos) "0 < ?t" "resolve_assignment_allocations cands = map (\<lambda>r. (at_strategy r, at_position r, at_notional r / ?t)) ?rows"
    using assms ne merged_rows_facts(4)[of cands]
    by (cases ?rows; cases "?t \<le> 0") (auto simp: resolve_assignment_allocations_def Let_def)
  then have "distinct (map fst (resolve_assignment_allocations cands))
    \<and> set (map fst (resolve_assignment_allocations cands)) \<subseteq> at_strategy ` set cands
    \<and> sum_list (map (\<lambda>x. snd (snd x)) (resolve_assignment_allocations cands)) = 1
    \<and> ((sid, pid, ratio) \<in> set (resolve_assignment_allocations cands) \<longrightarrow>
       0 \<le> ratio \<and> ratio * ?t = strategy_notional cands sid)"
  proof cases
    case zero
    have "?t = 0" using zero(1) sum_list_nonneg_map[of cands "\<lambda>c. pos_part (at_notional c)"] by simp
    moreover have "sum_list (map at_notional ?rows) = 0" using merged_rows_facts(4)[of cands] calculation by simp
    then have "at_notional w = 0"
      using zero(2) merged_rows_facts(3)[of _ cands] nonneg sum_list_nonneg_map[of rest at_notional]
      by (metis add_nonneg_eq_0_iff list.set_intros(1,2) list.simps(9) sum_list.Cons)
    then have "strategy_notional cands (at_strategy w) = 0" using zero(2) merged_rows_facts(3)[of w cands] by simp
    moreover have "at_strategy w \<in> at_strategy ` set cands"
      using zero(2) merged_rows_facts(2)[of cands] by (metis imageI list.set_intros(1))
    ultimately show ?thesis using zero(3) by auto
  next
    case pos
    have "sum_list (map (\<lambda>r. at_notional r / ?t) ?rows) = sum_list (map at_notional ?rows) / ?t"
      by (rule sum_list_divide)
    with pos merged_rows_facts(1,2,4)[of cands] merged_rows_facts(3)[of _ cands] nonneg show ?thesis
      by (auto simp: comp_def)
  qed
  then show "distinct (map fst (resolve_assignment_allocations cands))"
    "set (map fst (resolve_assignment_allocations cands)) \<subseteq> at_strategy ` set cands"
    "sum_list (map (\<lambda>x. snd (snd x)) (resolve_assignment_allocations cands)) = 1"
    "(sid, pid, ratio) \<in> set (resolve_assignment_allocations cands) \<Longrightarrow>
       0 \<le> ratio \<and> ratio * ?t = strategy_notional cands sid" by blast+
qed

section \<open>A run books every event once\<close>

definition shares :: "assignment list \<Rightarrow> (int \<times> int) list" where
  "shares as = map (\<lambda>a. (as_ledger a, as_strategy a)) as"

text \<open>
  Between two events of a run: the ledger is sound, every payment has at most one share per
  strategy, and the shares that wait for a flush belong to events already booked in this run.
\<close>

definition run_ok :: "digests \<Rightarrow> (int \<times> string \<times> string \<times> int \<times> string \<times> string) set \<Rightarrow> ledger_session \<Rightarrow> bool" where
  "run_ok dg done_keys s \<longleftrightarrow>
     ledger_ok dg (lt_rows (le_now s)) \<and> distinct (shares (lt_assigned (le_now s) @ le_pending s))
     \<and> (\<forall>a \<in> set (le_pending s). \<exists>k \<in> done_keys. (as_ledger a, k) \<in> id_key ` set (lt_rows (le_now s)))"

lemma no_clash: "distinct (shares as) \<Longrightarrow> \<not> assignment_clash as"
  by (induction as) (auto simp: shares_def assignment_clash_def)

lemma ledger_ids_unique:
  "ledger_ok dg rows \<Longrightarrow> (i, k) \<in> id_key ` set rows \<Longrightarrow> (i, k') \<in> id_key ` set rows \<Longrightarrow> k = k'"
  by (auto simp: ledger_ok_def id_key_def distinct_map inj_on_def)

lemma allocations_distinct: "distinct (map fst (resolve_assignment_allocations cands))"
  by (cases "cands = []") (simp add: resolve_assignment_allocations_def, rule allocations_exact(1))

lemma assign_shares:
  "shares (map (assignment_of l) xs) = map (\<lambda>x. (lg_id l, fst x)) xs"
  by (auto simp: shares_def assignment_of_def split: prod.splits)

lemma assign_ok:
  assumes ok: "run_ok dg done_keys s" and l: "id_key l \<in> id_key ` set (lt_rows (le_now s))"
    and k: "row_key l \<notin> done_keys" and a: "assign_funding_event now spans l s = (n, s')"
  shows "run_ok dg (insert (row_key l) done_keys) s' \<and> lt_rows (le_now s') = lt_rows (le_now s) \<and> le_committed s' = le_committed s"
proof -
  let ?al = "resolve_assignment_allocations (build_assignment_candidates now spans l)"
  let ?kept = "filter (\<lambda>a. as_ledger a \<noteq> lg_id l) (lt_assigned (le_now s))"
  have s': "lt_rows (le_now s') = lt_rows (le_now s)" "lt_assigned (le_now s') = ?kept"
    "le_pending s' = le_pending s @ map (assignment_of l) ?al" "le_committed s' = le_committed s"
    using a by (auto simp: assign_funding_event_def Let_def)
  have led: "ledger_ok dg (lt_rows (le_now s))" using ok by (simp add: run_ok_def)
  have pend: "as_ledger a \<noteq> lg_id l" if "a \<in> set (le_pending s)" for a
  proof
    assume eq: "as_ledger a = lg_id l"
    obtain k' where k': "k' \<in> done_keys" "(as_ledger a, k') \<in> id_key ` set (lt_rows (le_now s))"
      using ok \<open>a \<in> set (le_pending s)\<close> by (auto simp: run_ok_def)
    have "(lg_id l, row_key l) \<in> id_key ` set (lt_rows (le_now s))" using l by (simp add: id_key_def)
    from ledger_ids_unique[OF led this] k' eq k show False by auto
  qed
  have "distinct (shares (?kept @ le_pending s))"
    using ok by (auto simp: run_ok_def shares_def distinct_map_filter intro: inj_on_subset)
  moreover have "lg_id l \<notin> fst ` set (shares (?kept @ le_pending s))" using pend by (fastforce simp: shares_def)
  moreover have "distinct (shares (map (assignment_of l) ?al))"
    using allocations_distinct[of "build_assignment_candidates now spans l"]
    unfolding assign_shares by (simp add: distinct_map inj_on_def)
  moreover have "shares (lt_assigned (le_now s') @ le_pending s')
      = shares (?kept @ le_pending s) @ shares (map (assignment_of l) ?al)"
    by (simp add: s' shares_def)
  ultimately have d: "distinct (shares (lt_assigned (le_now s') @ le_pending s'))"
    unfolding assign_shares by (force simp del: filter_append)
  moreover have "\<exists>k' \<in> insert (row_key l) done_keys. (as_ledger a, k') \<in> id_key ` set (lt_rows (le_now s))"
    if "a \<in> set (le_pending s')" for a
  proof (cases "a \<in> set (le_pending s)")
    case True
    with ok show ?thesis by (auto simp: run_ok_def)
  next
    case False
    with that have "as_ledger a = lg_id l" by (auto simp: s' assignment_of_def split: prod.splits)
    with l show ?thesis by (simp add: id_key_def)
  qed
  ultimately show ?thesis using led s' by (simp add: run_ok_def)
qed

abbreviation event_row :: "digests \<Rightarrow> int \<Rightarrow> event \<Rightarrow> int \<times> string \<times> string \<times> int \<times> string \<times> string" where
  "event_row dg ex e \<equiv> row_key (ledger_row_of dg ex (account_key ex) e)"

lemma loop_step:
  assumes dg: "good_digests dg" and ok: "run_ok dg done_keys s" and k: "event_row dg ex e \<notin> done_keys"
    and up: "upsert_funding_event dg ex (account_key ex) [] e s = (res, s1)"
  obtains l created where "res = Upserted l created" "row_key l = event_row dg ex e"
    "created \<longleftrightarrow> event_row dg ex e \<notin> row_key ` set (lt_rows (le_now s))"
    "\<And>n s2. assign_funding_event now spans l s1 = (n, s2) \<Longrightarrow>
       run_ok dg (insert (event_row dg ex e) done_keys) s2 \<and> le_committed s2 = le_committed s
       \<and> row_key ` set (lt_rows (le_now s2)) = insert (event_row dg ex e) (row_key ` set (lt_rows (le_now s)))"
proof -
  let ?new = "ledger_row_of dg ex (account_key ex) e"
  have led: "ledger_ok dg (lt_rows (le_now s) @ [])" using ok by (simp add: run_ok_def)
  have "\<not> assignment_clash (lt_assigned (le_now s) @ le_pending s)" using ok by (intro no_clash) (simp add: run_ok_def)
  then have "upserted dg ?new [] s (res, s1)"
    unfolding up[symmetric] by (rule upsert_ok[OF dg account_key_plain led])
  then obtain l created where l: "res = Upserted l created" "row_key l = row_key ?new" "ledger_ok dg (lt_rows (le_now s1))"
    "created \<longleftrightarrow> row_key ?new \<notin> row_key ` set (lt_rows (le_now s))"
    "id_key ` set (lt_rows (le_now s)) \<subseteq> id_key ` set (lt_rows (le_now s1))"
    "id_key l \<in> id_key ` set (lt_rows (le_now s1))"
    "row_key ` set (lt_rows (le_now s1)) \<subseteq> insert (row_key ?new) (row_key ` set (lt_rows (le_now s)))"
    "lt_assigned (le_now s1) @ le_pending s1 = lt_assigned (le_now s) @ le_pending s"
    "set (le_pending s1) \<subseteq> set (le_pending s)" "le_committed s1 = le_committed s"
    by (auto simp: upserted_def split: upsert_result.splits)
  have keys: "row_key ` set (lt_rows (le_now s1)) = insert (row_key ?new) (row_key ` set (lt_rows (le_now s)))"
  proof -
    have "snd ` id_key ` set rows = row_key ` set rows" for rows by (simp add: image_image id_key_def)
    then have "row_key ` set (lt_rows (le_now s)) \<subseteq> row_key ` set (lt_rows (le_now s1))" "row_key l \<in> row_key ` set (lt_rows (le_now s1))"
      using image_mono[OF l(5), of snd] imageI[OF l(6), of snd] by (simp_all add: id_key_def)
    with l(2,7) show ?thesis by auto
  qed
  have "\<exists>k \<in> done_keys. (as_ledger a, k) \<in> id_key ` set (lt_rows (le_now s1))" if "a \<in> set (le_pending s1)" for a
    using ok that l(5,9) unfolding run_ok_def by blast
  then have ok1: "run_ok dg done_keys s1" using ok l(3,8) by (simp add: run_ok_def)
  have "row_key l \<notin> done_keys" using k l(2) by simp
  from assign_ok[OF ok1 l(6) this] l(2,4,10) keys that[of l created] l(1) show ?thesis by auto
qed

lemma ingest_loop_ok:
  assumes "good_digests dg" "run_ok dg done_keys s" "distinct (map (event_row dg ex) es)"
    "event_row dg ex ` set es \<inter> done_keys = {}"
  shows "\<exists>c' s'. ingest_loop dg now spans ex (account_key ex) (\<lambda>_. []) i es c s = (None, c', s')
    \<and> (\<exists>done'. run_ok dg done' s') \<and> le_committed s' = le_committed s
    \<and> row_key ` set (lt_rows (le_now s')) = row_key ` set (lt_rows (le_now s)) \<union> event_row dg ex ` set es
    \<and> ic_inserted c' = ic_inserted c + length (filter (\<lambda>e. event_row dg ex e \<notin> row_key ` set (lt_rows (le_now s))) es)
    \<and> ic_inserted c' + ic_updated c' = ic_inserted c + ic_updated c + length es
    \<and> ic_max c' = fold max (map ev_time es) (ic_max c)"
  using assms
proof (induction es arbitrary: i c s done_keys)
  case Nil
  then show ?case by auto
next
  case (Cons e es)
  let ?k = "event_row dg ex e"
  obtain res s1 where up: "upsert_funding_event dg ex (account_key ex) [] e s = (res, s1)" by fastforce
  have "?k \<notin> done_keys" using Cons.prems by auto
  from loop_step[OF Cons.prems(1,2) this up] obtain l created where l: "res = Upserted l created"
    "created \<longleftrightarrow> ?k \<notin> row_key ` set (lt_rows (le_now s))" and key: "row_key l = ?k"
    and as: "\<And>n s2. assign_funding_event now spans l s1 = (n, s2) \<Longrightarrow> run_ok dg (insert ?k done_keys) s2
      \<and> le_committed s2 = le_committed s
      \<and> row_key ` set (lt_rows (le_now s2)) = insert ?k (row_key ` set (lt_rows (le_now s)))" by metis
  obtain n s2 where n: "assign_funding_event now spans l s1 = (n, s2)" by fastforce
  define c1 where "c1 = (if created then c\<lparr>ic_inserted := ic_inserted c + 1\<rparr> else c\<lparr>ic_updated := ic_updated c + 1\<rparr>)"
  define c2 where "c2 = c1\<lparr>ic_assigned := ic_assigned c1 + n, ic_max := max (ic_max c1) (lg_time l)\<rparr>"
  have step: "ingest_loop dg now spans ex (account_key ex) (\<lambda>_. []) i (e # es) c s
      = ingest_loop dg now spans ex (account_key ex) (\<lambda>_. []) (Suc i) es c2 s2"
    by (simp add: up l(1) n c1_def c2_def)
  have cnt: "ic_inserted c2 = ic_inserted c + (if created then 1 else 0)"
    "ic_inserted c2 + ic_updated c2 = ic_inserted c + ic_updated c + 1" "ic_max c2 = max (ev_time e) (ic_max c)"
    using key by (simp_all add: c2_def c1_def row_key_def ledger_row_of_def Let_def split_beta max.commute)
  have ne: "event_row dg ex e' \<noteq> ?k" if "e' \<in> set es" for e'
    using Cons.prems(3) imageI[OF that, of "event_row dg ex"] by auto
  have new: "filter (\<lambda>e'. event_row dg ex e' \<notin> row_key ` set (lt_rows (le_now s2))) es
      = filter (\<lambda>e'. event_row dg ex e' \<notin> row_key ` set (lt_rows (le_now s))) es"
    using ne as[OF n] by (intro filter_cong) auto
  have "distinct (map (event_row dg ex) es)" "event_row dg ex ` set es \<inter> insert ?k done_keys = {}"
    using Cons.prems(3,4) by auto
  from Cons.IH[OF Cons.prems(1) conjunct1[OF as[OF n]] this, of "Suc i" c2] obtain c' s' where
    r: "ingest_loop dg now spans ex (account_key ex) (\<lambda>_. []) (Suc i) es c2 s2 = (None, c', s')"
      "\<exists>done'. run_ok dg done' s'" "le_committed s' = le_committed s2"
      "row_key ` set (lt_rows (le_now s')) = row_key ` set (lt_rows (le_now s2)) \<union> event_row dg ex ` set es"
      "ic_inserted c' = ic_inserted c2 + length (filter (\<lambda>e'. event_row dg ex e' \<notin> row_key ` set (lt_rows (le_now s2))) es)"
      "ic_inserted c' + ic_updated c' = ic_inserted c2 + ic_updated c2 + length es"
      "ic_max c' = fold max (map ev_time es) (ic_max c2)" by blast
  show ?case
    unfolding step r(1) using r(2-7) cnt l(2) as[OF n] unfolding new by auto
qed

section \<open>A whole run\<close>

text \<open>A session with nothing uncommitted, on sound tables.\<close>

definition settled :: "digests \<Rightarrow> ledger_session \<Rightarrow> bool" where
  "settled dg s \<longleftrightarrow>
     le_pending s = [] \<and> le_now s = le_committed s \<and> ledger_ok dg (lt_rows (le_now s)) \<and> distinct (shares (lt_assigned (le_now s)))"

abbreviation booked :: "ledger_session \<Rightarrow> (int \<times> string \<times> string \<times> int \<times> string \<times> string) set" where
  "booked s \<equiv> row_key ` set (lt_rows (le_committed s))"

lemma put_cursor_sels [simp]:
  "lt_rows (le_now (put_cursor c s)) = lt_rows (le_now s)" "lt_assigned (le_now (put_cursor c s)) = lt_assigned (le_now s)"
  "le_pending (put_cursor c s) = le_pending s" "le_committed (put_cursor c s) = le_committed s"
  by (simp_all add: put_cursor_def)

lemma commit_run_ok:
  assumes "run_ok dg done_keys s"
  shows "\<exists>s'. le_commit (put_cursor c s) = Some s' \<and> settled dg s' \<and> booked s' = row_key ` set (lt_rows (le_now s))"
proof -
  have "\<not> assignment_clash (lt_assigned (le_now s) @ le_pending s)"
    using assms by (intro no_clash) (simp add: run_ok_def)
  then show ?thesis using assms by (simp add: le_commit_def Let_def settled_def run_ok_def)
qed

lemma upsert_cursor_found:
  assumes "\<And>k. P k \<longleftrightarrow> cu_exchange k = cu_exchange c \<and> cu_account k = cu_account c \<and> cu_symbol k = cu_symbol c"
  shows "first_where P (upsert_cursor c cs) = Some c"
proof -
  have "first_where P (map (\<lambda>k. if P k then c else k) cs) = Some c" if "\<exists>k \<in> set cs. P k"
    using that assms[of c] by (induction cs) auto
  moreover have "first_where P (cs @ [c]) = Some c" if "\<forall>k \<in> set cs. \<not> P k"
    using that assms[of c] by (induction cs) auto
  ultimately show ?thesis unfolding upsert_cursor_def assms[symmetric] by auto
qed

lemma committed_cursor:
  assumes "le_commit (put_cursor c s) = Some s'" "cu_exchange c = ex" "cu_account c = account" "cu_symbol c = cursor_key symbol"
  shows "get_cursor ex account symbol s' = Some c"
proof -
  have "lt_cursors (le_now s') = upsert_cursor c (lt_cursors (le_now s))"
    using assms(1) by (auto simp: le_commit_def Let_def put_cursor_def split: if_splits)
  then show ?thesis
    using assms(2-4) unfolding get_cursor_def by (simp add: upsert_cursor_found same_cursor_def)
qed

lemma ingest_run:
  assumes "good_digests (ie_digests env)" "settled (ie_digests env) s" "\<not> ie_banned env (ex_id x)" "ie_others env = (\<lambda>_. [])"
    and rows: "\<And>since. ie_rows env x since = Inr es"
    and d: "distinct (map (event_row (ie_digests env) (ex_id x)) es)"
  shows "\<exists>r s'. ingest_exchange_funding_events env x symbol lookback s = (Inr r, s') \<and> settled (ie_digests env) s'
    \<and> ig_status r = ''ok'' \<and> booked s' = booked s \<union> event_row (ie_digests env) (ex_id x) ` set es
    \<and> ig_inserted r = length (filter (\<lambda>e. event_row (ie_digests env) (ex_id x) e \<notin> booked s) es)
    \<and> ig_inserted r + ig_updated r = length es
    \<and> (\<exists>start. es \<noteq> [] \<longrightarrow> (\<exists>c. get_cursor (ex_id x) (account_key (ex_id x)) symbol s' = Some c
          \<and> cu_value c = str_of_int (fold max (map ev_time es) start + 1)))"
proof -
  let ?ex = "ex_id x" and ?dg = "ie_digests env"
  define since where "since = since_of (ie_now env) lookback (get_cursor ?ex (account_key ?ex) symbol s)"
  have ok: "run_ok ?dg {} s" and now: "le_now s = le_committed s"
    using assms(2) by (auto simp: settled_def run_ok_def)
  from ingest_loop_ok[OF assms(1) ok d, of "ie_now env" "ie_spans env" 0 "no_counts since"] obtain c s1 dk where
    l: "ingest_loop ?dg (ie_now env) (ie_spans env) ?ex (account_key ?ex) (\<lambda>_. []) 0 es (no_counts since) s = (None, c, s1)"
    and dk: "run_ok ?dg dk s1"
    and keys: "row_key ` set (lt_rows (le_now s1)) = booked s \<union> event_row ?dg ?ex ` set es"
    and ins: "ic_inserted c = length (filter (\<lambda>e. event_row ?dg ?ex e \<notin> booked s) es)"
    and all: "ic_inserted c + ic_updated c = length es" and top: "ic_max c = fold max (map ev_time es) since"
    by (auto simp: no_counts_def now)
  define nxt where "nxt = (if es = [] then since else ic_max c + 1)"
  from commit_run_ok[OF dk] obtain s2 where
    com: "le_commit (put_cursor (cursor_of ?ex symbol nxt (Some (ie_now env)) [] 0) s1) = Some s2"
    "settled ?dg s2" "booked s2 = row_key ` set (lt_rows (le_now s1))" by metis
  have "ingest_exchange_funding_events env x symbol lookback s = (Inr (report_of ''ok'' (length es) c (Some nxt) []), s2)"
    using assms(3) unfolding ingest_exchange_funding_events_def assms(4)
    by (simp only: Let_def rows since_def[symmetric] l nxt_def[symmetric] com(1) prod.case sum.case option.case if_False)
  moreover have "get_cursor ?ex (account_key ?ex) symbol s2 = Some (cursor_of ?ex symbol nxt (Some (ie_now env)) [] 0)"
    by (rule committed_cursor[OF com(1)]) (simp_all add: cursor_of_def)
  ultimately show ?thesis using com(2,3) keys ins all top by (auto simp: report_of_def cursor_of_def nxt_def)
qed

section \<open>Properties\<close>

text \<open>Sample data: a digest and a printed time that are injective, an event, a payment split over two strategies.\<close>

definition plain_digests :: digests where
  "plain_digests = \<lparr>dg_hash = (\<lambda>s. s), dg_iso = str_of_int\<rparr>"

lemma plain_digests_good: "good_digests plain_digests"
  using bar_not_in_number by (auto simp: good_digests_def plain_digests_def inj_def str_of_int_inj)

definition empty_tables :: ledger_tables where
  "empty_tables = \<lparr>lt_rows = [], lt_assigned = [], lt_cursors = []\<rparr>"

definition empty_session :: ledger_session where
  "empty_session = \<lparr>le_committed = empty_tables, le_now = empty_tables, le_pending = []\<rparr>"

definition sample_event :: "int \<Rightarrow> event" where
  "sample_event t = \<lparr>ev_symbol = ''BTC/USDT:USDT'', ev_time = t, ev_amount = 1, ev_norm = ''1.000000000000'',
     ev_source = ''okx_bills'', ev_ref = ''b1''\<rparr>"

text \<open>
  An event is booked once: an upsert, also one that another worker overtakes, returns the row
  with the key of the event, creates it exactly if nobody had booked that key, and leaves every
  id and every key of the ledger unique.
\<close>

theorem upsert_books_event_once:
  assumes "good_digests dg" "CHR ''|'' \<notin> set account" "ledger_ok dg (lt_rows (le_now s) @ others)"
    "\<not> assignment_clash (lt_assigned (le_now s) @ le_pending s)"
  shows "\<exists>l created s'. upsert_funding_event dg ex account others e s = (Upserted l created, s')
    \<and> row_key l = row_key (ledger_row_of dg ex account e)
    \<and> (created \<longleftrightarrow> row_key (ledger_row_of dg ex account e) \<notin> row_key ` set (lt_rows (le_now s) @ others))
    \<and> ledger_ok dg (lt_rows (le_now s'))"
  using upsert_ok[OF assms(1-4), of ex e]
  by (cases "upsert_funding_event dg ex account others e s") (auto simp: upserted_def split: upsert_result.splits)

theorem upsert_books_event_once_witness:
  "\<exists>l created s'. upsert_funding_event plain_digests 1 ''exchange:1'' [] (sample_event 7) empty_session = (Upserted l created, s')
    \<and> row_key l = row_key (ledger_row_of plain_digests 1 ''exchange:1'' (sample_event 7))
    \<and> (created \<longleftrightarrow> row_key (ledger_row_of plain_digests 1 ''exchange:1'' (sample_event 7))
         \<notin> row_key ` set (lt_rows (le_now empty_session) @ []))
    \<and> ledger_ok plain_digests (lt_rows (le_now s'))"
  by (rule upsert_books_event_once[OF plain_digests_good])
     (simp_all add: empty_session_def empty_tables_def ledger_ok_def assignment_clash_def)

text \<open>
  C30: a run books every reported event, each once, and is idempotent: on settled tables and distinct
  events it succeeds, the ledger then holds exactly the earlier keys and those of the events, the
  report counts the new ones, and a second run over the same events inserts nothing.
\<close>

theorem ingest_books_every_event_once:
  assumes "good_digests (ie_digests env)" "settled (ie_digests env) s" "\<not> ie_banned env (ex_id x)" "ie_others env = (\<lambda>_. [])"
    "\<And>since. ie_rows env x since = Inr es"
    "distinct (map (event_row (ie_digests env) (ex_id x)) es)"
  shows "\<exists>r s' r2 s2. ingest_exchange_funding_events env x symbol lookback s = (Inr r, s')
    \<and> ig_status r = ''ok'' \<and> settled (ie_digests env) s'
    \<and> booked s' = booked s \<union> event_row (ie_digests env) (ex_id x) ` set es
    \<and> ig_inserted r = length (filter (\<lambda>e. event_row (ie_digests env) (ex_id x) e \<notin> booked s) es)
    \<and> ingest_exchange_funding_events env x symbol lookback s' = (Inr r2, s2)
    \<and> ig_status r2 = ''ok'' \<and> ig_inserted r2 = 0 \<and> booked s2 = booked s'"
proof -
  from ingest_run[OF assms] obtain r s' where
    a: "ingest_exchange_funding_events env x symbol lookback s = (Inr r, s')" "settled (ie_digests env) s'"
    "ig_status r = ''ok''" "booked s' = booked s \<union> event_row (ie_digests env) (ex_id x) ` set es"
    "ig_inserted r = length (filter (\<lambda>e. event_row (ie_digests env) (ex_id x) e \<notin> booked s) es)" by metis
  from ingest_run[OF assms(1) a(2) assms(3-6)] obtain r2 s2 where
    b: "ingest_exchange_funding_events env x symbol lookback s' = (Inr r2, s2)"
    "ig_status r2 = ''ok''" "booked s2 = booked s' \<union> event_row (ie_digests env) (ex_id x) ` set es"
    "ig_inserted r2 = length (filter (\<lambda>e. event_row (ie_digests env) (ex_id x) e \<notin> booked s') es)" by metis
  from a(4) b(4) have "ig_inserted r2 = 0" by simp
  with a b show ?thesis by auto
qed

definition sample_ingest :: ingest_env where
  "sample_ingest = \<lparr>ie_digests = plain_digests, ie_now = 0, ie_spans = [], ie_others = (\<lambda>_. []), ie_banned = (\<lambda>_. False),
     ie_rows = (\<lambda>_ _. Inr [sample_event 5, sample_event 7])\<rparr>"

definition sample_exchange :: exchange_row where
  "sample_exchange = \<lparr>ex_id = 1, ex_name = ''okx'', ex_display_name = None, ex_is_unified = None\<rparr>"

theorem ingest_books_every_event_once_witness:
  "\<exists>r s' r2 s2. ingest_exchange_funding_events sample_ingest sample_exchange None 24 empty_session = (Inr r, s')
    \<and> ig_status r = ''ok'' \<and> settled plain_digests s'
    \<and> booked s' = booked empty_session \<union> event_row plain_digests 1 ` set [sample_event 5, sample_event 7]
    \<and> ig_inserted r = length (filter (\<lambda>e. event_row plain_digests 1 e \<notin> booked empty_session) [sample_event 5, sample_event 7])
    \<and> ingest_exchange_funding_events sample_ingest sample_exchange None 24 s' = (Inr r2, s2)
    \<and> ig_status r2 = ''ok'' \<and> ig_inserted r2 = 0 \<and> booked s2 = booked s'"
proof -
  have d: "distinct (map (event_row (ie_digests sample_ingest) (ex_id sample_exchange)) [sample_event 5, sample_event 7])"
    by (simp add: row_key_def ledger_row_of_def sample_event_def Let_def split_beta)
  show ?thesis
    using ingest_books_every_event_once[of sample_ingest empty_session sample_exchange "[sample_event 5, sample_event 7]" None 24,
      OF _ _ _ _ _ d]
    by (simp add: sample_ingest_def sample_exchange_def plain_digests_good settled_def empty_session_def empty_tables_def
        ledger_ok_def shares_def)
qed

text \<open>
  C31: a payment is split completely. Where some strategy held the leg at the time of the payment, the
  old shares of the payment go and the new ones belong to distinct strategies of the candidates,
  in nonnegative ratios that add up to one; the amounts add up to the payment up to the rounding
  of each share to twelve decimals.
\<close>

lemma shares_sum_error:
  "\<bar>sum_list (map (\<lambda>x. as_amount (assignment_of l x)) xs) - lg_amount l * sum_list (map (\<lambda>x. snd (snd x)) xs)\<bar>
     \<le> real (length xs) / (2 * 10 ^ 12)"
proof -
  define eps :: real where "eps = 1 / (2 * 10 ^ 12)"
  have "\<bar>sum_list (map (\<lambda>x. as_amount (assignment_of l x)) xs) - lg_amount l * sum_list (map (\<lambda>x. snd (snd x)) xs)\<bar>
      \<le> real (length xs) * eps"
  proof (induction xs)
    case (Cons x xs)
    have "as_amount (assignment_of l x) = amount_value (lg_amount l * snd (snd x))"
      by (simp add: assignment_of_def split_beta)
    moreover have "\<bar>amount_value (lg_amount l * snd (snd x)) - lg_amount l * snd (snd x)\<bar> \<le> eps"
      unfolding eps_def by (rule amount_value_error)
    ultimately show ?case using Cons by (simp add: algebra_simps)
  qed simp
  then show ?thesis by (simp add: eps_def)
qed

theorem payment_split_completely:
  assumes "build_assignment_candidates now spans l \<noteq> []"
  shows "\<exists>n s' new. assign_funding_event now spans l s = (n, s') \<and> n = length new
    \<and> le_pending s' = le_pending s @ new
    \<and> lt_assigned (le_now s') = filter (\<lambda>a. as_ledger a \<noteq> lg_id l) (lt_assigned (le_now s))
    \<and> distinct (map as_strategy new) \<and> sum_list (map as_ratio new) = 1
    \<and> (\<forall>a \<in> set new. as_ledger a = lg_id l \<and> 0 \<le> as_ratio a
          \<and> as_strategy a \<in> at_strategy ` set (build_assignment_candidates now spans l))
    \<and> \<bar>sum_list (map as_amount new) - lg_amount l\<bar> \<le> real n / (2 * 10 ^ 12)"
proof -
  let ?c = "build_assignment_candidates now spans l"
  let ?al = "resolve_assignment_allocations ?c"
  let ?new = "map (assignment_of l) ?al"
  have a: "as_strategy (assignment_of l x) = fst x" "as_ratio (assignment_of l x) = snd (snd x)"
    "as_ledger (assignment_of l x) = lg_id l" for x
    by (simp_all add: assignment_of_def split_beta)
  have d: "distinct (map as_strategy ?new)" and r: "sum_list (map as_ratio ?new) = 1"
    using allocations_exact(1,3)[OF assms] by (simp_all add: a comp_def)
  have fair: "0 \<le> as_ratio (assignment_of l x) \<and> fst x \<in> at_strategy ` set ?c" if "x \<in> set ?al" for x
  proof -
    obtain sid pid ratio where x: "x = (sid, pid, ratio)" by (cases x)
    have "fst x \<in> set (map fst ?al)" using that by simp
    then show ?thesis using allocations_exact(4)[OF assms that[unfolded x]] allocations_exact(2)[OF assms] by (auto simp: a x)
  qed
  have all: "\<forall>b \<in> set ?new. as_ledger b = lg_id l \<and> 0 \<le> as_ratio b \<and> as_strategy b \<in> at_strategy ` set ?c"
  proof
    fix b assume "b \<in> set ?new"
    then obtain x where "x \<in> set ?al" "b = assignment_of l x" by auto
    with fair show "as_ledger b = lg_id l \<and> 0 \<le> as_ratio b \<and> as_strategy b \<in> at_strategy ` set ?c" by (simp add: a)
  qed
  have err: "\<bar>sum_list (map as_amount ?new) - lg_amount l\<bar> \<le> real (length ?new) / (2 * 10 ^ 12)"
    using shares_sum_error[of l ?al] allocations_exact(3)[OF assms] by (simp add: comp_def)
  define s' where "s' = s\<lparr>le_now := (le_now s)\<lparr>lt_assigned := filter (\<lambda>a. as_ledger a \<noteq> lg_id l) (lt_assigned (le_now s))\<rparr>,
      le_pending := le_pending s @ ?new\<rparr>"
  have step: "assign_funding_event now spans l s = (length ?new, s')"
    by (simp add: assign_funding_event_def Let_def s'_def)
  have "le_pending s' = le_pending s @ ?new"
    "lt_assigned (le_now s') = filter (\<lambda>a. as_ledger a \<noteq> lg_id l) (lt_assigned (le_now s))"
    by (simp_all add: s'_def)
  with step d r all err show ?thesis by blast
qed

definition sample_span :: "int \<Rightarrow> real \<Rightarrow> attribution_row" where
  "sample_span k sz = \<lparr>ar_position = Some k, ar_strategy = k, ar_exchange = 1, ar_symbol = Some ''BTC/USDT:USDT'',
     ar_type = Some ''swap'', ar_size = Some sz, ar_current_price = Some 10, ar_entry_price = Some 9,
     ar_position_created = Some 1, ar_position_closed = None, ar_strategy_created = Some 1, ar_strategy_closed = None\<rparr>"

lemma sample_symbol: "normalize_symbol (Some ''BTC/USDT:USDT'') = ''BTC/USDT:USDT''"
  by code_simp

lemma sample_perp: "is_perp_type (Some ''swap'')"
  by code_simp

theorem payment_split_completely_witness:
  "\<exists>n s' new. assign_funding_event 9 [sample_span 1 2, sample_span 2 6]
      (ledger_row_of plain_digests 1 ''exchange:1'' (sample_event 7)) empty_session = (n, s') \<and> n = length new
    \<and> le_pending s' = le_pending empty_session @ new \<and> sum_list (map as_ratio new) = 1
    \<and> \<bar>sum_list (map as_amount new) - lg_amount (ledger_row_of plain_digests 1 ''exchange:1'' (sample_event 7))\<bar> \<le> real n / (2 * 10 ^ 12)"
proof -
  have "build_assignment_candidates 9 [sample_span 1 2, sample_span 2 6]
      (ledger_row_of plain_digests 1 ''exchange:1'' (sample_event 7)) \<noteq> []"
    by (simp add: build_assignment_candidates_def List.map_filter_def candidate_of_def sample_span_def ledger_row_of_def
        sample_event_def Let_def split_beta sample_symbol sample_perp first_some_def)
  from payment_split_completely[OF this, of empty_session] show ?thesis by blast
qed

text \<open>
  Two payments of one symbol, time and amount are taken for one, whatever their references: the
  deduplication keeps a single row, and so only one reaches the ledger.
\<close>

lemma equal_payments_booked_once:
  "dedupe_funding_rows [sample_event 7, (sample_event 7)\<lparr>ev_ref := ''b2''\<rparr>] = [sample_event 7]"
  by (simp add: dedupe_funding_rows_def dedupe_step_def sample_event_def sample_symbol event_key_def prefers_def is_fallback_def Let_def)

text \<open>
  After a run over some events the next one asks only for what is newer than the newest event
  booked: an older payment the exchange had not reported by then is never asked for again.
\<close>

lemma all_digits_str_of_int: "0 \<le> i \<Longrightarrow> all_digit_text (str_of_int i) \<and> int (digits_value (str_of_int i)) = i"
  by (simp add: all_digit_text_def str_of_int_def list_all_iff digits_of_digits)

lemma fold_max_ge: "b \<le> fold max xs b" "x \<in> set xs \<Longrightarrow> x \<le> fold max xs (b :: int)"
proof -
  show le: "b \<le> fold max xs b" for b :: int and xs by (induction xs arbitrary: b) (simp, metis fold_simps(2) max.bounded_iff)
  show "x \<in> set xs \<Longrightarrow> x \<le> fold max xs b" by (induction xs arbitrary: b) (auto intro: order_trans[OF max.cobounded1 le])
qed

lemma next_run_starts_after_newest:
  assumes "good_digests (ie_digests env)" "settled (ie_digests env) s" "\<not> ie_banned env (ex_id x)" "ie_others env = (\<lambda>_. [])"
    "\<And>since. ie_rows env x since = Inr es" "distinct (map (event_row (ie_digests env) (ex_id x)) es)"
    and e: "e \<in> set es" "0 \<le> ev_time e"
  shows "\<exists>r s'. ingest_exchange_funding_events env x symbol lookback s = (Inr r, s')
    \<and> ev_time e < since_of now' lookback' (get_cursor (ex_id x) (account_key (ex_id x)) symbol s')"
proof -
  from ingest_run[OF assms(1-6)] e(1) obtain r s' start c where
    "ingest_exchange_funding_events env x symbol lookback s = (Inr r, s')"
    "get_cursor (ex_id x) (account_key (ex_id x)) symbol s' = Some c"
    "cu_value c = str_of_int (fold max (map ev_time es) start + 1)"
    by (metis empty_iff list.set(1))
  moreover have "ev_time e \<le> fold max (map ev_time es) start" using e(1) by (intro fold_max_ge(2)) simp
  ultimately show ?thesis
    using e(2) all_digits_str_of_int[of "fold max (map ev_time es) start + 1"] by (simp add: since_of_def)
qed

section \<open>Symbols\<close>

text \<open>The name of a coin: upper case, without spaces and separators.\<close>

definition coin_name :: "string \<Rightarrow> bool" where
  "coin_name s \<longleftrightarrow> s \<noteq> [] \<and> (\<forall>c \<in> set s. char_upper c = c \<and> \<not> is_space c \<and> c \<notin> set ''/:-_'')"

lemma coin_not_in: "coin_name s \<Longrightarrow> c \<in> set ''/:-_'' \<Longrightarrow> c \<notin> set s"
  by (auto simp: coin_name_def)

lemma split_on_simps:
  "c \<notin> set a \<Longrightarrow> split_on c a = [a]" "c \<notin> set a \<Longrightarrow> split_on c (a @ c # t) = a # split_on c t"
  by (induction a) auto

lemma ends_with_append [simp]: "ends_with (s @ t) t"
  by (simp add: ends_with_def)

lemma ends_with_chars: "ends_with s t \<Longrightarrow> set t \<subseteq> set s"
  unfolding ends_with_def by (metis set_drop_subset)

lemma strip_id: "s \<noteq> [] \<Longrightarrow> \<not> is_space (hd s) \<Longrightarrow> \<not> is_space (last s) \<Longrightarrow> py_strip s = s"
  using dropWhile_eq_self_iff[of is_space s] dropWhile_eq_self_iff[of is_space "rev s"]
  by (simp add: py_strip_def hd_rev)

lemma clean_text:
  assumes "s \<noteq> []" "\<forall>c \<in> set s. char_upper c = c \<and> \<not> is_space c" shows "py_strip (py_upper s) = s"
proof -
  have "py_upper s = s" using assms(2) by (simp add: py_upper_def map_idI)
  with assms strip_id[of s] show ?thesis by (simp add: hd_in_set last_in_set)
qed

lemma separators_clean: "\<forall>c \<in> set ''/:-_SWAPUSDT''. char_upper c = c \<and> \<not> is_space c"
  by code_simp

lemma normalize_pair:
  assumes "coin_name b" "coin_name q" shows "normalize_symbol (Some (pair_symbol b q)) = pair_symbol b q"
proof -
  have "py_strip (py_upper (pair_symbol b q)) = pair_symbol b q"
    using assms separators_clean by (intro clean_text) (auto simp: pair_symbol_def coin_name_def)
  then show ?thesis by (simp add: normalize_symbol_def pair_symbol_def)
qed

lemma pair_parts:
  assumes "coin_name b" "coin_name q" shows "symbol_base (pair_symbol b q) = b" "symbol_quote (pair_symbol b q) = q"
proof -
  have "split_on (CHR ''/'') (pair_symbol b q) = [b, q @ '':'' @ q]"
    using coin_not_in[OF assms(1), of "CHR ''/''"] coin_not_in[OF assms(2), of "CHR ''/''"]
    by (simp add: pair_symbol_def split_on_simps)
  moreover have "split_on (CHR '':'') (q @ '':'' @ q) = [q, q]"
    using coin_not_in[OF assms(2), of "CHR '':''"] by (simp add: split_on_simps)
  ultimately show "symbol_base (pair_symbol b q) = b" "symbol_quote (pair_symbol b q) = q"
    by (simp_all add: symbol_base_def symbol_quote_def)
qed



end
