(* ===== verification/SpreadMonitor.thy ===== *)
theory SpreadMonitor
  imports Candidates FundingStats
begin

text \<open>
  The spread monitor: the statistics of a price spread (\<open>core/spread_stats.py\<close>), and the groups
  and opportunities computed from the market-data caches (\<open>domains/spread_monitor/service.py\<close>).
  The caches are those of \<open>market_data\<close>; the cache of statistics is a map from the key of a pair.
  What \<open>fetch_ohlcv\<close> returns is an argument (\<open>None\<close> where it raises). The statistics of the
  chosen pairs are computed one after the other, where the code uses a pool of threads; they
  have different keys.
\<close>

section \<open>Statistics of a spread\<close>

type_synonym candle = "int \<times> fopt"

record pair_stats =
  px_mean :: real
  px_std :: real
  px_p90 :: real
  px_n :: nat

definition min_candles :: nat where "min_candles = 30"

definition max_pairs :: nat where "max_pairs = 100"

definition pair_key :: "string \<Rightarrow> int \<Rightarrow> int \<Rightarrow> string" where
  "pair_key symbol a b = symbol @ ''|'' @ str_of_int (min a b) @ ''|'' @ str_of_int (max a b)"

text \<open>The closing prices by time; a later candle of a time replaces an earlier one.\<close>

definition closes :: "candle list \<Rightarrow> (int \<times> real) list" where
  "closes cs = foldl (\<lambda>m (t, c). case c of Some x \<Rightarrow> if x = 0 then m else AList.update t x m | None \<Rightarrow> m) [] cs"

definition spread_pct :: "real \<Rightarrow> real \<Rightarrow> real" where
  "spread_pct a b = \<bar>a - b\<bar> / min a b * 100"

definition common_spreads :: "(int \<times> real) list \<Rightarrow> (int \<times> real) list \<Rightarrow> real list" where
  "common_spreads ma mb =
     List.map_filter
       (\<lambda>(t, a). case map_of mb t of
            None \<Rightarrow> None | Some b \<Rightarrow> if a > 0 \<and> b > 0 then Some (spread_pct a b) else None) ma"

definition mean_of :: "real list \<Rightarrow> real" where
  "mean_of xs = sum_list xs / real (length xs)"

definition stdev_of :: "real list \<Rightarrow> real" where
  "stdev_of xs = sqrt (sum_list (map (\<lambda>x. (x - mean_of xs)\<^sup>2) xs) / (real (length xs) - 1))"

definition stats_of_spreads :: "real list \<Rightarrow> pair_stats option" where
  "stats_of_spreads xs =
     (if length xs < min_candles then None
      else Some \<lparr>px_mean = py_round (mean_of xs) 4,
                 px_std = py_round (if length xs > 1 then stdev_of xs else 0) 4,
                 px_p90 = py_round (sort xs ! nat (py_trunc (real (length xs) * (9 / 10)))) 4,
                 px_n = length xs\<rparr>)"

definition compute_pair_stats ::
    "(int \<Rightarrow> exchange_row option) \<Rightarrow> (exchange_row \<Rightarrow> string \<Rightarrow> candle list option) \<Rightarrow> int \<Rightarrow> int \<Rightarrow> string \<Rightarrow> pair_stats option" where
  "compute_pair_stats exchanges ohlcv a b symbol =
     (case (exchanges a, exchanges b) of
        (Some ea, Some eb) \<Rightarrow>
          (case (ohlcv ea symbol, ohlcv eb symbol) of
             (Some ca, Some cb) \<Rightarrow>
               if ca = [] \<or> cb = [] then None else stats_of_spreads (common_spreads (closes ca) (closes cb))
           | _ \<Rightarrow> None)
      | _ \<Rightarrow> None)"

text \<open>
  \<open>refresh_spread_stats\<close>: for every symbol the exchanges with the highest and the lowest price,
  the hundred widest pairs, and their statistics. The code takes the outer keys of the funding
  cache for symbols and the inner ones for exchange ids; the keys are kept as Python has them,
  whole numbers or texts. The least volume, which is computed and not used, is left out.
\<close>

datatype dict_key = KInt int | KStr string

type_synonym rate_cache = "(dict_key \<times> (dict_key \<times> funding_quote) list) list"

text \<open>The cache as the collector builds it: by exchange id, then by symbol.\<close>

definition funding_rate_cache :: "market_data \<Rightarrow> rate_cache" where
  "funding_rate_cache md = map (\<lambda>(ex, rows). (KInt ex, map (\<lambda>(s, q). (KStr s, q)) rows)) (md_funding md)"

fun key_text :: "dict_key \<Rightarrow> string" where
  "key_text (KInt i) = str_of_int i"
| "key_text (KStr s) = s"

definition known_exchange :: "market_data \<Rightarrow> dict_key \<Rightarrow> int option" where
  "known_exchange md k = (case k of KInt i \<Rightarrow> if md_meta md i \<noteq> None then Some i else None | KStr _ \<Rightarrow> None)"

definition fast_price :: "market_data \<Rightarrow> int \<Rightarrow> dict_key \<Rightarrow> real" where
  "fast_price md ex k = (case k of KStr s \<Rightarrow> to_float (md_perp_price md ex s) 0 | KInt _ \<Rightarrow> 0)"

record pair_candidate =
  pc_symbol :: dict_key
  pc_high :: int
  pc_low :: int
  pc_spread :: real

definition symbol_candidate :: "market_data \<Rightarrow> dict_key \<times> (dict_key \<times> funding_quote) list \<Rightarrow> pair_candidate option" where
  "symbol_candidate md x =
     (case x of (symbol, data) \<Rightarrow>
        let ids = List.map_filter (\<lambda>kq. known_exchange md (fst kq)) data;
            priced = filter (\<lambda>(i, p). p > 0) (map (\<lambda>i. (i, fast_price md i symbol)) ids);
            ranked = sort_desc snd priced
        in if length priced < 2 then None
           else
             let (a, p_high) = hd ranked; (b, p_low) = last ranked
             in Some \<lparr>pc_symbol = symbol, pc_high = a, pc_low = b,
                  pc_spread = (if p_low > 0 then (p_high - p_low) / p_low * 100 else 0)\<rparr>)"

definition refresh_candidates :: "market_data \<Rightarrow> rate_cache \<Rightarrow> pair_candidate list" where
  "refresh_candidates md cache =
     take max_pairs (sort_desc pc_spread (List.map_filter (symbol_candidate md) cache))"

type_synonym stats_cache = "string \<Rightarrow> pair_stats option"

definition store_stats :: "(int \<Rightarrow> int \<Rightarrow> string \<Rightarrow> pair_stats option) \<Rightarrow> stats_cache \<Rightarrow> pair_candidate \<Rightarrow> stats_cache" where
  "store_stats stats cache c =
     (case stats (pc_high c) (pc_low c) (key_text (pc_symbol c)) of
        None \<Rightarrow> cache
      | Some r \<Rightarrow> cache(pair_key (key_text (pc_symbol c)) (pc_high c) (pc_low c) := Some r))"

definition refresh_spread_stats ::
    "(int \<Rightarrow> int \<Rightarrow> string \<Rightarrow> pair_stats option) \<Rightarrow> market_data \<Rightarrow> stats_cache \<Rightarrow> stats_cache" where
  "refresh_spread_stats stats md cache =
     foldl (store_stats stats) cache (refresh_candidates md (funding_rate_cache md))"

section \<open>Groups\<close>

record spread_entry =
  en_exchange :: int
  en_name :: string
  en_price :: fopt
  en_rate_pct :: real
  en_periods :: real
  en_fee_pct :: real
  en_secs :: "int option"
  en_volume24 :: real
  en_highest_freq :: bool
  en_vs_min :: fopt

record spread_stats =
  gs_mean :: real
  gs_std :: real
  gs_z :: fopt

record spread_group =
  gp_symbol :: string
  gp_spread :: real
  gp_volume :: real
  gp_count :: nat
  gp_entries :: "spread_entry list"
  gp_stats :: "spread_stats option"

definition entry_of :: "market_data \<Rightarrow> real \<Rightarrow> int \<Rightarrow> exchange_meta \<Rightarrow> string \<Rightarrow> funding_quote \<Rightarrow> spread_entry" where
  "entry_of md now ex meta symbol q =
     (let fast = to_float (md_perp_price md ex symbol) 0;
          price = (if fast \<le> 0 then to_float (fq_mark_price q) 0 else fast)
      in \<lparr>en_exchange = ex, en_name = str_or_empty (py_or_str (em_display meta) (em_name meta)),
          en_price = (if price > 0 then Some price else None), en_rate_pct = py_round (to_float (fq_rate q) 0 * 100) 6,
          en_periods = funding_periods_per_day (fq_interval_hours q),
          en_fee_pct = py_round (get_vip0_taker_fee (em_name meta) * 100) 4,
          en_secs = secs_to_funding now (fq_next q), en_volume24 = to_float (md_perp_volume md ex symbol) 0,
          en_highest_freq = False, en_vs_min = None\<rparr>)"

fun append_at :: "'k \<Rightarrow> 'v \<Rightarrow> ('k \<times> 'v list) list \<Rightarrow> ('k \<times> 'v list) list" where
  "append_at k v [] = [(k, [v])]"
| "append_at k v ((j, vs) # m) = (if j = k then (j, vs @ [v]) # m else (j, vs) # append_at k v m)"

definition collect_exchange ::
    "market_data \<Rightarrow> real \<Rightarrow> (string \<times> spread_entry list) list \<Rightarrow> int \<times> (string \<times> funding_quote) list
      \<Rightarrow> (string \<times> spread_entry list) list" where
  "collect_exchange md now m x =
     (case x of (ex, symbols) \<Rightarrow>
        case md_meta md ex of
          None \<Rightarrow> m
        | Some meta \<Rightarrow> foldl (\<lambda>m (s, q). append_at s (entry_of md now ex meta s q) m) m symbols)"

definition by_symbol_entries :: "market_data \<Rightarrow> real \<Rightarrow> (string \<times> spread_entry list) list" where
  "by_symbol_entries md now = foldl (collect_exchange md now) [] (md_funding md)"

definition valid_prices :: "spread_entry list \<Rightarrow> real list" where
  "valid_prices es = List.map_filter en_price es"

definition price_or_zero :: "spread_entry \<Rightarrow> real" where
  "price_or_zero e = to_float (en_price e) 0"

definition decorate :: "spread_entry list \<Rightarrow> spread_entry \<Rightarrow> spread_entry" where
  "decorate es e =
     (let top = Max (set (map en_periods es)); ps = valid_prices es in
      e\<lparr>en_highest_freq := (en_periods e = top),
        en_vs_min := (if length ps \<ge> 2 then map_option (\<lambda>p. py_round ((p - Min (set ps)) / Min (set ps) * 100) 4) (en_price e)
                      else None)\<rparr>)"

definition max_spread_pct :: "spread_entry list \<Rightarrow> real" where
  "max_spread_pct es =
     (let ps = valid_prices es in
      if length ps \<ge> 2 then py_round ((Max (set ps) - Min (set ps)) / Min (set ps) * 100) 4 else 0)"

text \<open>The first cheapest entry; entries without a price count as infinitely dear.\<close>

fun cheapest :: "spread_entry \<Rightarrow> spread_entry list \<Rightarrow> spread_entry" where
  "cheapest e [] = e"
| "cheapest e (x # xs) =
     cheapest (case (en_price x, en_price e) of
        (Some p, Some q) \<Rightarrow> if p < q then x else e
      | (Some p, None) \<Rightarrow> x
      | (None, _) \<Rightarrow> e) xs"

definition group_stats :: "stats_cache \<Rightarrow> string \<Rightarrow> spread_entry list \<Rightarrow> spread_stats option" where
  "group_stats stats symbol es =
     (if length (valid_prices es) \<ge> 2 then
        (case stats (pair_key symbol (en_exchange (hd es)) (en_exchange (cheapest (hd es) (tl es)))) of
           None \<Rightarrow> None
         | Some c \<Rightarrow> Some \<lparr>gs_mean = px_mean c, gs_std = px_std c,
             gs_z = (if px_std c > 0 then Some (py_round ((max_spread_pct es - px_mean c) / px_std c) 2) else None)\<rparr>)
      else None)"

definition group_of :: "stats_cache \<Rightarrow> string \<times> spread_entry list \<Rightarrow> spread_group option" where
  "group_of stats x =
     (case x of (symbol, raw) \<Rightarrow>
        if length raw < 2 then None
        else
          let es = sort_desc price_or_zero (map (decorate raw) raw)
          in Some \<lparr>gp_symbol = symbol, gp_spread = max_spread_pct es, gp_volume = Min (set (map en_volume24 es)),
               gp_count = length es, gp_entries = es, gp_stats = group_stats stats symbol es\<rparr>)"

definition compute_spread_groups :: "market_data \<Rightarrow> stats_cache \<Rightarrow> real \<Rightarrow> spread_group list" where
  "compute_spread_groups md stats now =
     sort_desc gp_spread (List.map_filter (group_of stats) (by_symbol_entries md now))"

section \<open>Opportunities\<close>

record opportunity =
  ox_symbol :: string
  ox_spread :: real
  ox_mean :: real
  ox_std :: real
  ox_z :: real
  ox_fee_pct :: real
  ox_min_spread :: real
  ox_net_pct :: real
  ox_high :: spread_entry
  ox_low :: spread_entry
  ox_aligned :: bool
  ox_count :: nat
  ox_volume :: real

definition round_trip_fee_pct :: "spread_entry \<Rightarrow> spread_entry \<Rightarrow> real" where
  "round_trip_fee_pct high low = (en_fee_pct high / 100 + en_fee_pct low / 100) * 2 * 100"

definition opportunity_of :: "real \<Rightarrow> real \<Rightarrow> spread_group \<Rightarrow> opportunity option" where
  "opportunity_of exit_z tp_delta g =
     (case gp_stats g of
        None \<Rightarrow> None
      | Some st \<Rightarrow>
          (case gs_z st of
             None \<Rightarrow> None
           | Some z \<Rightarrow>
               let valid = filter (\<lambda>e. en_price e \<noteq> None) (gp_entries g) in
               if z < 3 / 2 \<or> length valid < 2 then None
               else
                 let high = hd valid; low = last valid; fee = round_trip_fee_pct high low in
                 if gp_spread g < fee + 1 / 10 then None
                 else Some \<lparr>ox_symbol = gp_symbol g, ox_spread = gp_spread g, ox_mean = gs_mean st, ox_std = gs_std st,
                   ox_z = z, ox_fee_pct = py_round fee 4, ox_min_spread = py_round (fee + 1 / 10) 4,
                   ox_net_pct = py_round (gp_spread g - (gs_mean st + max exit_z (z - tp_delta) * gs_std st) - fee) 4,
                   ox_high = high, ox_low = low,
                   ox_aligned = (en_rate_pct (hd (gp_entries g)) \<ge> en_rate_pct (last (gp_entries g))),
                   ox_count = gp_count g, ox_volume = gp_volume g\<rparr>))"

definition compute_opportunities :: "real \<Rightarrow> real \<Rightarrow> spread_group list \<Rightarrow> opportunity list" where
  "compute_opportunities exit_z tp_delta groups =
     sort_desc ox_z (List.map_filter (opportunity_of exit_z tp_delta) groups)"

end
