(* ===== verification/SpreadArb.thy ===== *)
theory SpreadArb
  imports SpreadMonitor SpotHedge "HOL-Library.Sublist"
begin

text \<open>
  The cross-exchange spread engine (\<open>core/spread_arb_engine\<close>): opening a pair of legs on an
  opportunity, the exit rules, closing with retries, the recovery of half-closed positions and
  the triggers. The exchanges, their prices and the caches are functions of a world that orders
  change. Every change of a position is committed before the table is queried again, so one list
  of rows stands for the table. Texts are sequences of UTF-8 bytes; waiting between attempts and
  logging are left out, and so are the two helpers that nothing calls
  (\<open>_calc_available_balance\<close>, \<open>_ensure_hedge_modes\<close>).
\<close>

section \<open>Data\<close>

record spread_position =
  xp_id :: int
  xp_symbol :: string
  xp_high :: int
  xp_low :: int
  xp_entry_spread :: real
  xp_entry_z :: real
  xp_tp_z :: fopt
  xp_size_usd :: real
  xp_order_type :: string
  xp_short_size :: real
  xp_long_size :: real
  xp_short_order :: string
  xp_long_order :: string
  xp_short_entry :: real
  xp_long_entry :: real
  xp_short_now :: real
  xp_long_now :: real
  xp_unrealized :: real
  xp_realized :: real
  xp_status :: string
  xp_reason :: string
  xp_short_closed :: bool
  xp_long_closed :: bool
  xp_closed_at :: fopt

record spread_cfg =
  sc_enabled :: bool
  sc_hedge_mode :: bool
  sc_entry_z :: fopt
  sc_exit_z :: real
  sc_stop_z :: fopt
  sc_stop_delta :: fopt
  sc_tp_delta :: fopt
  sc_pct :: real
  sc_max_spread :: int
  sc_max_open :: int
  sc_order_type :: "string option"
  sc_pre_settle :: int
  sc_min_volume :: fopt
  sc_cooldown :: "int option"

text \<open>
  The world: prices, statistics, next settlements, the clock, orders, the positions an exchange
  reports (\<open>None\<close> where both requests fail) and the USDT balance (free, total).
\<close>

record 'w spread_env =
  sx_price :: "'w \<Rightarrow> int \<Rightarrow> string \<Rightarrow> real"
  sx_stats :: "'w \<Rightarrow> stats_cache"
  sx_next :: "'w \<Rightarrow> int \<Rightarrow> string \<Rightarrow> fopt"
  sx_clock :: "'w \<Rightarrow> real"
  sx_place :: "'w \<Rightarrow> exchange_row \<Rightarrow> string \<Rightarrow> string \<Rightarrow> real \<Rightarrow> string \<Rightarrow> order option \<times> 'w"
  sx_close :: "'w \<Rightarrow> exchange_row \<Rightarrow> string \<Rightarrow> string \<Rightarrow> real \<Rightarrow> order option \<times> 'w"
  sx_positions :: "'w \<Rightarrow> exchange_row \<Rightarrow> string \<Rightarrow> (string \<times> string \<times> real) list option"
  sx_balance :: "'w \<Rightarrow> exchange_row \<Rightarrow> (fopt \<times> fopt) option"

record spread_state =
  sr_rows :: "spread_position list"
  sr_attempts :: "int \<Rightarrow> real"

definition recover_cooldown :: real where "recover_cooldown = 300"

definition min_notional_usd :: real where "min_notional_usd = 6"

definition max_entry_retries :: nat where "max_entry_retries = 3"

definition set_row :: "int \<Rightarrow> (spread_position \<Rightarrow> spread_position) \<Rightarrow> spread_state \<Rightarrow> spread_state" where
  "set_row i f s = s\<lparr>sr_rows := map (\<lambda>p. if xp_id p = i then f p else p) (sr_rows s)\<rparr>"

definition get_row :: "int \<Rightarrow> spread_state \<Rightarrow> spread_position option" where
  "get_row i s = first_where (\<lambda>p. xp_id p = i) (sr_rows s)"

section \<open>Signals\<close>

definition get_stats :: "stats_cache \<Rightarrow> string \<Rightarrow> int \<Rightarrow> int \<Rightarrow> pair_stats option" where
  "get_stats cache symbol a b = cache (pair_key symbol a b)"

definition compute_z :: "real \<Rightarrow> pair_stats \<Rightarrow> fopt" where
  "compute_z current st = (if px_std st \<le> 0 then None else Some ((current - px_mean st) / px_std st))"

definition secs_until_funding :: "real \<Rightarrow> fopt \<Rightarrow> fopt" where
  "secs_until_funding now next =
     (case next of None \<Rightarrow> None | Some t \<Rightarrow> if t - now \<ge> 0 then Some (max 0 (t - now)) else None)"

definition get_exchange_free_usdt :: "(fopt \<times> fopt) option \<Rightarrow> real" where
  "get_exchange_free_usdt b = (case b of None \<Rightarrow> 0 | Some (free, tot) \<Rightarrow> to_float (py_or_num free tot) 0)"

definition count_active :: "session \<Rightarrow> spread_state \<Rightarrow> nat \<times> nat" where
  "count_active db s =
     (length (filter (\<lambda>r. st_status r = Some ''active'') (tb_strategies (sql_view db))),
      length (filter (\<lambda>p. xp_status p = ''open'') (sr_rows s)))"

fun place_with_retry ::
    "'w spread_env \<Rightarrow> exchange_row \<Rightarrow> string \<Rightarrow> string \<Rightarrow> real \<Rightarrow> string \<Rightarrow> nat \<Rightarrow> 'w \<Rightarrow> order option \<times> 'w" where
  "place_with_retry env ex symbol side amount ot 0 w = (None, w)"
| "place_with_retry env ex symbol side amount ot (Suc n) w =
     (case sx_place env w ex symbol side amount ot of
        (Some ord, w') \<Rightarrow> (Some ord, w')
      | (None, w') \<Rightarrow> place_with_retry env ex symbol side amount ot n w')"

definition extract_fill :: "order \<Rightarrow> real \<Rightarrow> real \<Rightarrow> real \<times> real" where
  "extract_fill ord fallback amount =
     (let price = to_float (py_or_num (or_average ord) (py_or_num (or_price ord) (Some fallback))) 0;
          filled = to_float (py_or_num (or_filled ord) (or_amount ord)) 0
      in (if price \<le> 0 then fallback else price, if filled \<le> 0 then amount else filled))"

text \<open>The bytes of the two characters the cooldown looks for in the reason of a close.\<close>

definition stop_loss_mark :: string where
  "stop_loss_mark = [CHR 0xE6, CHR 0xAD, CHR 0xA2, CHR 0xE6, CHR 0x8D, CHR 0x9F]"

definition in_cooldown :: "real \<Rightarrow> spread_state \<Rightarrow> string \<Rightarrow> int \<Rightarrow> int \<Rightarrow> int \<Rightarrow> bool" where
  "in_cooldown now s symbol high low mins \<longleftrightarrow>
     mins > 0 \<and>
     (\<exists>p \<in> set (sr_rows s). xp_symbol p = symbol \<and> xp_high p = high \<and> xp_low p = low
        \<and> xp_status p \<in> {''closed'', ''error''} \<and> sublist stop_loss_mark (xp_reason p)
        \<and> (case xp_closed_at p of None \<Rightarrow> False | Some t \<Rightarrow> t \<ge> now - 60 * of_int mins))"

section \<open>Opening\<close>

definition or_default :: "fopt \<Rightarrow> real \<Rightarrow> real" where
  "or_default v d = (case v of None \<Rightarrow> d | Some x \<Rightarrow> if x = 0 then d else x)"

text \<open>A funding strategy holds the opposite side of one of the legs.\<close>

definition direction_conflict :: "session \<Rightarrow> string \<Rightarrow> int \<Rightarrow> int \<Rightarrow> bool" where
  "direction_conflict db symbol high low =
     (\<exists>p \<in> set (tb_positions (sql_view db)).
        (\<exists>r \<in> set (tb_strategies (sql_view db)). ps_strategy_id p = Some (st_id r) \<and> st_status r = Some ''active'')
        \<and> ps_symbol p = Some symbol \<and> ps_status p = Some ''open''
        \<and> ((ps_exchange_id p = Some high \<and> ps_side p = Some ''long'')
           \<or> (ps_exchange_id p = Some low \<and> ps_side p = Some ''short'')))"

definition at_cap :: "spread_cfg \<Rightarrow> session \<Rightarrow> spread_state \<Rightarrow> bool" where
  "at_cap cfg db s =
     (case count_active db s of (funding, spread) \<Rightarrow>
        int (funding + spread) \<ge> sc_max_open cfg \<or> int spread \<ge> sc_max_spread cfg)"

text \<open>The checks before the balances are read; \<open>True\<close> where the opportunity is skipped.\<close>

definition entry_skipped :: "spread_cfg \<Rightarrow> session \<Rightarrow> real \<Rightarrow> spread_state \<Rightarrow> opportunity \<Rightarrow> bool" where
  "entry_skipped cfg db now s opp \<longleftrightarrow>
     (let symbol = ox_symbol opp; high = en_exchange (ox_high opp); low = en_exchange (ox_low opp);
          min_vol = or_default (sc_min_volume cfg) 0
      in ox_z opp < or_default (sc_entry_z cfg) (3 / 2)
         \<or> ox_net_pct opp \<le> 0
         \<or> (min_vol > 0 \<and> ox_volume opp < min_vol)
         \<or> in_cooldown now s symbol high low (int_or_zero (sc_cooldown cfg))
         \<or> (\<not> sc_hedge_mode cfg \<and> direction_conflict db symbol high low)
         \<or> (\<exists>p \<in> set (sr_rows s). xp_symbol p = symbol \<and> xp_status p = ''open'')
         \<or> at_cap cfg db s)"

definition new_position ::
    "int \<Rightarrow> spread_cfg \<Rightarrow> opportunity \<Rightarrow> real \<Rightarrow> string \<Rightarrow> order \<Rightarrow> order \<Rightarrow> real \<times> real \<Rightarrow> real \<times> real \<Rightarrow> spread_position" where
  "new_position i cfg opp size_usd ot short_order long_order short_fill long_fill =
     \<lparr>xp_id = i, xp_symbol = ox_symbol opp, xp_high = en_exchange (ox_high opp), xp_low = en_exchange (ox_low opp),
      xp_entry_spread = ox_spread opp, xp_entry_z = ox_z opp,
      xp_tp_z = Some (py_round (ox_z opp - or_default (sc_tp_delta cfg) 3) 4), xp_size_usd = size_usd, xp_order_type = ot,
      xp_short_size = snd short_fill, xp_long_size = snd long_fill,
      xp_short_order = str_or_empty (or_id short_order), xp_long_order = str_or_empty (or_id long_order),
      xp_short_entry = fst short_fill, xp_long_entry = fst long_fill, xp_short_now = fst short_fill,
      xp_long_now = fst long_fill, xp_unrealized = 0, xp_realized = 0, xp_status = ''open'', xp_reason = [],
      xp_short_closed = False, xp_long_closed = False, xp_closed_at = None\<rparr>"

definition open_legs ::
    "'w spread_env \<Rightarrow> spread_cfg \<Rightarrow> opportunity \<Rightarrow> exchange_row \<Rightarrow> exchange_row \<Rightarrow> real \<Rightarrow> real \<Rightarrow> real
      \<Rightarrow> spread_state \<Rightarrow> 'w \<Rightarrow> spread_state \<times> 'w" where
  "open_legs env cfg opp high low size_usd short_price long_price s w =
     (let symbol = ox_symbol opp; ot = str_or_empty (py_or_str (sc_order_type cfg) (Some ''market''));
          short_base = size_usd / short_price; long_base = size_usd / long_price
      in case place_with_retry env high symbol ''sell'' short_base ot max_entry_retries w of
           (None, w1) \<Rightarrow> (s, w1)
         | (Some short_order, w1) \<Rightarrow>
             let short_fill = extract_fill short_order short_price short_base in
             (case place_with_retry env low symbol ''buy'' long_base ot max_entry_retries w1 of
                (None, w2) \<Rightarrow> (s, snd (sx_close env w2 high symbol ''short'' (snd short_fill)))
              | (Some long_order, w2) \<Rightarrow>
                  let pos = new_position (next_id (map xp_id (sr_rows s))) cfg opp size_usd ot short_order long_order
                    short_fill (extract_fill long_order long_price long_base)
                  in (s\<lparr>sr_rows := sr_rows s @ [pos]\<rparr>, w2)))"

definition try_open_position ::
    "'w spread_env \<Rightarrow> spread_cfg \<Rightarrow> session \<Rightarrow> opportunity \<Rightarrow> spread_state \<Rightarrow> 'w \<Rightarrow> spread_state \<times> 'w" where
  "try_open_position env cfg db opp s w =
     (if entry_skipped cfg db (sx_clock env w) s opp then (s, w)
      else
        let high_id = en_exchange (ox_high opp); low_id = en_exchange (ox_low opp); symbol = ox_symbol opp in
        case (query_exchange high_id db, query_exchange low_id db) of
          (Some high, Some low) \<Rightarrow>
            let min_free = min (get_exchange_free_usdt (sx_balance env w high)) (get_exchange_free_usdt (sx_balance env w low));
                size_usd = py_round (min_free * sc_pct cfg / 100) 4;
                short_price = sx_price env w high_id symbol; long_price = sx_price env w low_id symbol
            in if size_usd < min_notional_usd then (s, w)
               else if short_price \<le> 0 \<or> long_price \<le> 0 then (s, w)
               else open_legs env cfg opp high low size_usd short_price long_price s w
        | _ \<Rightarrow> (s, w))"

section \<open>Closing\<close>

definition verify_leg_closed :: "'w spread_env \<Rightarrow> exchange_row \<Rightarrow> string \<Rightarrow> string \<Rightarrow> 'w \<Rightarrow> bool" where
  "verify_leg_closed env ex symbol side w =
     (case sx_positions env w ex symbol of
        None \<Rightarrow> False
      | Some ps \<Rightarrow> \<not> (\<exists>(sy, sd, contracts) \<in> set ps. sy = symbol \<and> sd = side \<and> contracts > 0))"

fun close_leg_with_retry :: "'w spread_env \<Rightarrow> exchange_row \<Rightarrow> string \<Rightarrow> string \<Rightarrow> real \<Rightarrow> nat \<Rightarrow> 'w \<Rightarrow> bool \<times> 'w" where
  "close_leg_with_retry env ex symbol side amount 0 w = (False, w)"
| "close_leg_with_retry env ex symbol side amount (Suc n) w =
     (case sx_close env w ex symbol side amount of
        (Some _, w') \<Rightarrow>
          if verify_leg_closed env ex symbol side w' then (True, w')
          else close_leg_with_retry env ex symbol side amount n w'
      | (None, w') \<Rightarrow> close_leg_with_retry env ex symbol side amount n w')"

definition close_retries :: nat where "close_retries = 3"

text \<open>The flag of a leg after a close; a leg without an exchange row or a size counts as closed.\<close>

definition close_flag ::
    "'w spread_env \<Rightarrow> exchange_row option \<Rightarrow> string \<Rightarrow> string \<Rightarrow> real \<Rightarrow> bool \<Rightarrow> 'w \<Rightarrow> bool \<times> 'w" where
  "close_flag env ex symbol side amount flag w =
     (if flag then (True, w)
      else case ex of
          None \<Rightarrow> (True, w)
        | Some e \<Rightarrow> if amount > 0 then close_leg_with_retry env e symbol side amount close_retries w else (True, w))"

definition or_else :: "real \<Rightarrow> real \<Rightarrow> real" where
  "or_else a b = (if a = 0 then b else a)"

definition taker_rate :: real where "taker_rate = 5 / 10000"

definition realized_pnl :: "spread_position \<Rightarrow> real \<Rightarrow> real \<Rightarrow> real" where
  "realized_pnl p sp lp =
     (let gross = (if sp > 0 then (xp_short_entry p - sp) * xp_short_size p else 0)
                + (if lp > 0 then (lp - xp_long_entry p) * xp_long_size p else 0);
          fees = xp_short_entry p * xp_short_size p * taker_rate + xp_long_entry p * xp_long_size p * taker_rate
               + or_else sp (xp_short_entry p) * xp_short_size p * taker_rate
               + or_else lp (xp_long_entry p) * xp_long_size p * taker_rate
      in py_round (gross - fees) 6)"

definition closed_row :: "bool \<Rightarrow> bool \<Rightarrow> real \<Rightarrow> string \<Rightarrow> real \<Rightarrow> spread_position \<Rightarrow> spread_position" where
  "closed_row short long pnl reason now p =
     p\<lparr>xp_short_closed := short, xp_long_closed := long, xp_realized := pnl,
       xp_status := (if short \<and> long then ''closed'' else ''error''), xp_reason := reason, xp_closed_at := Some now\<rparr>"

definition close_spread_position ::
    "'w spread_env \<Rightarrow> session \<Rightarrow> spread_position \<Rightarrow> string \<Rightarrow> spread_state \<Rightarrow> 'w \<Rightarrow> spread_state \<times> 'w" where
  "close_spread_position env db p reason s w =
     (let s0 = set_row (xp_id p) (\<lambda>q. q\<lparr>xp_status := ''closing''\<rparr>) s;
          (short, w1) = close_flag env (query_exchange (xp_high p) db) (xp_symbol p) ''short'' (xp_short_size p) (xp_short_closed p) w;
          (long, w2) = close_flag env (query_exchange (xp_low p) db) (xp_symbol p) ''long'' (xp_long_size p) (xp_long_closed p) w1;
          sp = or_else (sx_price env w2 (xp_high p) (xp_symbol p)) (xp_short_now p);
          lp = or_else (sx_price env w2 (xp_low p) (xp_symbol p)) (xp_long_now p)
      in (set_row (xp_id p) (closed_row short long (realized_pnl p sp lp) reason (sx_clock env w2)) s0, w2))"

section \<open>Recovery\<close>

definition recover_flag ::
    "'w spread_env \<Rightarrow> exchange_row option \<Rightarrow> string \<Rightarrow> string \<Rightarrow> real \<Rightarrow> bool \<Rightarrow> 'w \<Rightarrow> bool \<times> 'w" where
  "recover_flag env ex symbol side amount flag w =
     (if flag then (True, w)
      else case ex of
          None \<Rightarrow> (False, w)
        | Some e \<Rightarrow> if amount > 0 then close_leg_with_retry env e symbol side amount close_retries w else (False, w))"

definition mark_closed :: "real \<Rightarrow> spread_position \<Rightarrow> spread_position" where
  "mark_closed now p =
     (if xp_short_closed p \<and> xp_long_closed p
      then p\<lparr>xp_status := ''closed'', xp_closed_at := (case xp_closed_at p of None \<Rightarrow> Some now | Some t \<Rightarrow> Some t)\<rparr> else p)"

definition recover_one ::
    "'w spread_env \<Rightarrow> session \<Rightarrow> spread_position \<Rightarrow> spread_state \<Rightarrow> 'w \<Rightarrow> spread_state \<times> 'w" where
  "recover_one env db p s w =
     (if xp_short_closed p \<and> xp_long_closed p then (set_row (xp_id p) (mark_closed (sx_clock env w)) s, w)
      else if sx_clock env w - sr_attempts s (xp_id p) < recover_cooldown then (s, w)
      else
        let s1 = s\<lparr>sr_attempts := (sr_attempts s)(xp_id p := sx_clock env w)\<rparr>;
            (short, w1) = recover_flag env (query_exchange (xp_high p) db) (xp_symbol p) ''short'' (xp_short_size p) (xp_short_closed p) w;
            (long, w2) = recover_flag env (query_exchange (xp_low p) db) (xp_symbol p) ''long'' (xp_long_size p) (xp_long_closed p) w1
        in (set_row (xp_id p) (\<lambda>q. mark_closed (sx_clock env w2) (q\<lparr>xp_short_closed := short, xp_long_closed := long\<rparr>)) s1, w2))"

fun recover_all :: "'w spread_env \<Rightarrow> session \<Rightarrow> spread_position list \<Rightarrow> spread_state \<Rightarrow> 'w \<Rightarrow> spread_state \<times> 'w" where
  "recover_all env db [] s w = (s, w)"
| "recover_all env db (p # ps) s w = (case recover_one env db p s w of (s1, w1) \<Rightarrow> recover_all env db ps s1 w1)"

definition recover_half_closed_positions :: "'w spread_env \<Rightarrow> session \<Rightarrow> spread_state \<Rightarrow> 'w \<Rightarrow> spread_state \<times> 'w" where
  "recover_half_closed_positions env db s w =
     recover_all env db (filter (\<lambda>p. xp_status p \<in> {''error'', ''closing''}) (sr_rows s)) s w"

section \<open>Exit rules\<close>

definition take_profit_reason :: "spread_position \<Rightarrow> real \<Rightarrow> real \<Rightarrow> string" where
  "take_profit_reason p abs_z tp =
     ''floating_take_profit: |z|='' @ fixed_text 2 abs_z @ '' <= tp='' @ fixed_text 2 tp
       @ '' (entry_z='' @ fixed_text 2 (xp_entry_z p) @ '', delta='' @ fixed_text 1 (xp_entry_z p - tp) @ '')''"

definition reversion_reason :: "real \<Rightarrow> real \<Rightarrow> string" where
  "reversion_reason abs_z exit_z = ''mean_reversion: |z|='' @ fixed_text 2 abs_z @ '' <= exit_z='' @ fixed_text 2 exit_z"

definition stop_reason :: "real \<Rightarrow> real \<Rightarrow> real \<Rightarrow> real \<Rightarrow> string" where
  "stop_reason signed_z stop_z entry_z delta =
     ''stop_loss: signed_z='' @ fixed_text 2 signed_z @ '' >= stop_z='' @ fixed_text 2 stop_z
       @ '' (entry_z='' @ fixed_text 2 entry_z @ '', delta='' @ fixed_text 1 delta @ '')''"

definition settle_reason :: "int \<Rightarrow> real \<Rightarrow> string" where
  "settle_reason mins secs =
     ''pre_settlement_close: within '' @ str_of_int mins @ '' min (remaining='' @ str_of_int (py_trunc secs) @ ''s)''"

definition stop_z_of :: "spread_cfg \<Rightarrow> spread_position \<Rightarrow> real" where
  "stop_z_of cfg p =
     (if xp_entry_z p > 0 then xp_entry_z p + or_default (sc_stop_delta cfg) (3 / 2) else or_default (sc_stop_z cfg) 3)"

definition within_secs :: "real \<Rightarrow> fopt \<Rightarrow> bool" where
  "within_secs limit v = (case v of None \<Rightarrow> False | Some x \<Rightarrow> 0 < x \<and> x \<le> limit)"

definition exit_reason ::
    "spread_cfg \<Rightarrow> spread_position \<Rightarrow> fopt \<Rightarrow> fopt \<Rightarrow> fopt \<Rightarrow> fopt \<Rightarrow> string option" where
  "exit_reason cfg p abs_z signed_z secs_h secs_l =
     (let tp = (case (abs_z, xp_tp_z p) of (Some z, Some t) \<Rightarrow> if z \<le> t then Some (take_profit_reason p z t) else None | _ \<Rightarrow> None);
          rev = (case abs_z of Some z \<Rightarrow> if z \<le> sc_exit_z cfg then Some (reversion_reason z (sc_exit_z cfg)) else None | None \<Rightarrow> None);
          stop = (case signed_z of
              Some z \<Rightarrow> if z \<ge> stop_z_of cfg p
                then Some (stop_reason z (stop_z_of cfg p) (xp_entry_z p) (or_default (sc_stop_delta cfg) (3 / 2))) else None
            | None \<Rightarrow> None);
          limit = of_int (sc_pre_settle cfg) * 60;
          settle = (if within_secs limit secs_h \<or> within_secs limit secs_l
            then Some (settle_reason (sc_pre_settle cfg) (case (secs_h, secs_l) of
                (Some a, Some b) \<Rightarrow> min a b | (Some a, None) \<Rightarrow> a | (None, Some b) \<Rightarrow> b | (None, None) \<Rightarrow> 0)) else None)
      in case tp of Some r \<Rightarrow> Some r | None \<Rightarrow>
         (case rev of Some r \<Rightarrow> Some r | None \<Rightarrow>
         (case stop of Some r \<Rightarrow> Some r | None \<Rightarrow> settle)))"

definition live_row :: "real \<Rightarrow> real \<Rightarrow> spread_position \<Rightarrow> spread_position" where
  "live_row short long p =
     p\<lparr>xp_short_now := short, xp_long_now := long,
       xp_unrealized := py_round ((if xp_short_entry p > 0 then (xp_short_entry p - short) * xp_short_size p else 0)
         + (if xp_long_entry p > 0 then (long - xp_long_entry p) * xp_long_size p else 0)) 6\<rparr>"

definition check_exit ::
    "'w spread_env \<Rightarrow> session \<Rightarrow> spread_cfg \<Rightarrow> spread_position \<Rightarrow> spread_state \<Rightarrow> 'w \<Rightarrow> spread_state \<times> 'w" where
  "check_exit env db cfg p s w =
     (let symbol = xp_symbol p; short = sx_price env w (xp_high p) symbol; long = sx_price env w (xp_low p) symbol in
      if short \<le> 0 \<or> long \<le> 0 then (s, w)
      else
        let p1 = live_row short long p; s1 = set_row (xp_id p) (live_row short long) s;
            st = get_stats (sx_stats env w) symbol (xp_high p) (xp_low p);
            abs_z = (case st of None \<Rightarrow> None | Some x \<Rightarrow> compute_z (\<bar>short - long\<bar> / min short long * 100) x);
            signed_z = (case st of None \<Rightarrow> None | Some x \<Rightarrow> compute_z ((short - long) / long * 100) x);
            secs = (\<lambda>ex. secs_until_funding (sx_clock env w) (sx_next env w ex symbol))
        in case exit_reason cfg p1 abs_z signed_z (secs (xp_high p)) (secs (xp_low p)) of
             None \<Rightarrow> (s1, w)
           | Some reason \<Rightarrow> close_spread_position env db p1 reason s1 w)"

fun check_all :: "'w spread_env \<Rightarrow> session \<Rightarrow> spread_cfg \<Rightarrow> spread_position list \<Rightarrow> spread_state \<Rightarrow> 'w \<Rightarrow> spread_state \<times> 'w" where
  "check_all env db cfg [] s w = (s, w)"
| "check_all env db cfg (p # ps) s w = (case check_exit env db cfg p s w of (s1, w1) \<Rightarrow> check_all env db cfg ps s1 w1)"

definition check_exits :: "'w spread_env \<Rightarrow> session \<Rightarrow> spread_cfg \<Rightarrow> spread_state \<Rightarrow> 'w \<Rightarrow> spread_state \<times> 'w" where
  "check_exits env db cfg s w =
     (case recover_half_closed_positions env db s w of (s1, w1) \<Rightarrow>
        check_all env db cfg (filter (\<lambda>p. xp_status p = ''open'') (sr_rows s1)) s1 w1)"

section \<open>Triggers\<close>

fun open_loop :: "'w spread_env \<Rightarrow> session \<Rightarrow> spread_cfg \<Rightarrow> opportunity list \<Rightarrow> spread_state \<Rightarrow> 'w \<Rightarrow> spread_state \<times> 'w" where
  "open_loop env db cfg [] s w = (s, w)"
| "open_loop env db cfg (opp # opps) s w =
     (if at_cap cfg db s then (s, w)
      else case try_open_position env cfg db opp s w of (s1, w1) \<Rightarrow> open_loop env db cfg opps s1 w1)"

text \<open>The opportunities of the moment, with the engine's exit threshold and profit distance.\<close>

definition current_opportunities :: "'w spread_env \<Rightarrow> market_data \<Rightarrow> spread_cfg \<Rightarrow> 'w \<Rightarrow> opportunity list" where
  "current_opportunities env md cfg w =
     compute_opportunities (or_else (sc_exit_z cfg) (1 / 2)) (or_default (sc_tp_delta cfg) 3)
       (compute_spread_groups md (sx_stats env w) (sx_clock env w))"

definition trigger_spread_entries ::
    "'w spread_env \<Rightarrow> session \<Rightarrow> market_data \<Rightarrow> spread_cfg option \<Rightarrow> bool \<Rightarrow> spread_state \<Rightarrow> 'w \<Rightarrow> spread_state \<times> 'w" where
  "trigger_spread_entries env db md cfg lock_held s w =
     (case cfg of
        None \<Rightarrow> (s, w)
      | Some c \<Rightarrow>
          if \<not> sc_enabled c \<or> lock_held then (s, w)
          else open_loop env db c (current_opportunities env md c w) s w)"

text \<open>The same loop as an operation of its own (\<open>_scan_opportunities\<close>).\<close>

definition scan_opportunities ::
    "'w spread_env \<Rightarrow> session \<Rightarrow> market_data \<Rightarrow> spread_cfg \<Rightarrow> spread_state \<Rightarrow> 'w \<Rightarrow> spread_state \<times> 'w" where
  "scan_opportunities env db md cfg s w =
     (let opps = current_opportunities env md cfg w in
      if opps = [] \<or> at_cap cfg db s then (s, w) else open_loop env db cfg opps s w)"

definition run_spread_arb ::
    "'w spread_env \<Rightarrow> session \<Rightarrow> spread_cfg option \<Rightarrow> spread_state \<Rightarrow> 'w \<Rightarrow> spread_state \<times> 'w" where
  "run_spread_arb env db cfg s w =
     (case cfg of None \<Rightarrow> (s, w) | Some c \<Rightarrow> if sc_enabled c then check_exits env db c s w else (s, w))"

definition trigger_spread_exits ::
    "'w spread_env \<Rightarrow> session \<Rightarrow> spread_cfg option \<Rightarrow> bool \<Rightarrow> spread_state \<Rightarrow> 'w \<Rightarrow> spread_state \<times> 'w" where
  "trigger_spread_exits env db cfg lock_held s w =
     (case cfg of
        None \<Rightarrow> (s, w)
      | Some c \<Rightarrow>
          if \<not> sc_enabled c \<or> lock_held then (s, w)
          else case recover_half_closed_positions env db s w of (s1, w1) \<Rightarrow> check_exits env db c s1 w1)"

definition priced_row :: "(int \<Rightarrow> string \<Rightarrow> real) \<Rightarrow> spread_position \<Rightarrow> spread_position" where
  "priced_row price p =
     (if xp_status p \<noteq> ''open'' then p
      else
        let sp = price (xp_high p) (xp_symbol p); lp = price (xp_low p) (xp_symbol p);
            p1 = (if sp > 0 then p\<lparr>xp_short_now := sp\<rparr> else p);
            p2 = (if lp > 0 then p1\<lparr>xp_long_now := lp\<rparr> else p1)
        in if sp > 0 \<and> lp > 0 \<and> xp_short_entry p > 0 \<and> xp_long_entry p > 0
           then p2\<lparr>xp_unrealized := py_round ((xp_short_entry p - sp) * xp_short_size p + (lp - xp_long_entry p) * xp_long_size p) 6\<rparr>
           else p2)"

definition update_spread_position_prices :: "'w spread_env \<Rightarrow> spread_state \<Rightarrow> 'w \<Rightarrow> spread_state" where
  "update_spread_position_prices env s w = s\<lparr>sr_rows := map (priced_row (sx_price env w)) (sr_rows s)\<rparr>"

text \<open>The manual close of \<open>domains/spread_arb/router.py\<close>; the answer names the status.\<close>

definition manual_reason :: string where
  "manual_reason = [CHR 0xE6, CHR 0x89, CHR 0x8B, CHR 0xE5, CHR 0x8A, CHR 0xA8, CHR 0xE5, CHR 0xB9, CHR 0xB3, CHR 0xE4, CHR 0xBB, CHR 0x93]"

definition manual_close :: "'w spread_env \<Rightarrow> session \<Rightarrow> int \<Rightarrow> spread_state \<Rightarrow> 'w \<Rightarrow> string option \<times> spread_state \<times> 'w" where
  "manual_close env db i s w =
     (case get_row i s of
        None \<Rightarrow> (None, s, w)
      | Some p \<Rightarrow>
          if xp_status p \<noteq> ''open'' then (Some ''already_closed'', s, w)
          else case close_spread_position env db p manual_reason s w of (s1, w1) \<Rightarrow> (Some ''closed'', s1, w1))"

section \<open>Interruptions\<close>

text \<open>
  What is on disk, with the world, when the process dies during a close: after the row was
  marked, after an order was sent but its flag not committed, and after each committed flag.
\<close>

definition ordered_leg :: "exchange_row option \<Rightarrow> real \<Rightarrow> bool \<Rightarrow> bool" where
  "ordered_leg ex amount flag \<longleftrightarrow> \<not> flag \<and> ex \<noteq> None \<and> amount > 0"

definition interrupted_close :: "'w spread_env \<Rightarrow> session \<Rightarrow> spread_position \<Rightarrow> spread_state \<Rightarrow> 'w \<Rightarrow> (spread_state \<times> 'w) list" where
  "interrupted_close env db p s w =
     (let high = query_exchange (xp_high p) db; low = query_exchange (xp_low p) db;
          s0 = set_row (xp_id p) (\<lambda>q. q\<lparr>xp_status := ''closing''\<rparr>) s;
          (short, w1) = close_flag env high (xp_symbol p) ''short'' (xp_short_size p) (xp_short_closed p) w;
          s1 = (if ordered_leg high (xp_short_size p) (xp_short_closed p) \<and> short
                then set_row (xp_id p) (\<lambda>q. q\<lparr>xp_short_closed := True\<rparr>) s0 else s0);
          (long, w2) = close_flag env low (xp_symbol p) ''long'' (xp_long_size p) (xp_long_closed p) w1;
          s2 = (if ordered_leg low (xp_long_size p) (xp_long_closed p) \<and> long
                then set_row (xp_id p) (\<lambda>q. q\<lparr>xp_short_closed := short, xp_long_closed := True\<rparr>) s0 else s1)
      in [(s0, w), (s0, w1), (s1, w1), (s1, w2), (s2, w2)])"

text \<open>
  The life of the engine: any operation, with any configuration, caches and strategies of the
  moment, an interruption during a close of an open position, and any change of the world.
\<close>

inductive engine_step :: "'w spread_env \<Rightarrow> spread_state \<times> 'w \<Rightarrow> spread_state \<times> 'w \<Rightarrow> bool" for env where
  entries: "engine_step env (s, w) (trigger_spread_entries env db md cfg held s w)"
| exits: "engine_step env (s, w) (trigger_spread_exits env db cfg held s w)"
| scheduled: "engine_step env (s, w) (run_spread_arb env db cfg s w)"
| manual: "engine_step env (s, w) (snd (manual_close env db i s w))"
| prices: "engine_step env (s, w) (update_spread_position_prices env s w, w)"
| crash: "p \<in> set (sr_rows s) \<Longrightarrow> xp_status p = ''open'' \<Longrightarrow> (s', w') \<in> set (interrupted_close env db p s w) \<Longrightarrow>
    engine_step env (s, w) (s', w')"
| market: "engine_step env (s, w) (s, w')"

end
