(* ===== verification/SpreadLaws.thy ===== *)
theory SpreadLaws
  imports SpreadMonitor
begin

text \<open>
  What the spread monitor guarantees: an opportunity is a real price gap that covers its fees,
  the statistics lie within the observed spreads, and the background refresh never finds a pair.
\<close>

section \<open>Groups\<close>

lemma append_at_keys: "fst ` set (append_at k v m) = insert k (fst ` set m)"
  by (induction k v m rule: append_at.induct) auto

lemma append_at_values:
  "(j, vs) \<in> set (append_at k v m) \<Longrightarrow> (j, vs) \<in> set m \<or> (j = k \<and> (vs = [v] \<or> (\<exists>us. (k, us) \<in> set m \<and> vs = us @ [v])))"
  by (induction k v m rule: append_at.induct) (auto split: if_splits)

lemma map_filter_set: "y \<in> set (List.map_filter f xs) \<longleftrightarrow> (\<exists>x \<in> set xs. f x = Some y)"
  by (induction xs) (auto simp: List.map_filter_def split: option.splits)

lemma valid_prices_cong: "valid_prices (map (decorate raw) es) = valid_prices es"
  by (induction es) (simp_all add: valid_prices_def List.map_filter_def decorate_def Let_def)

lemma valid_prices_mset: "mset es = mset es' \<Longrightarrow> mset (valid_prices es) = mset (valid_prices es')"
  unfolding valid_prices_def List.map_filter_def by (simp only: mset_map mset_filter)

lemma decorate_sels [simp]:
  "en_exchange (decorate raw e) = en_exchange e" "en_price (decorate raw e) = en_price e"
  "en_fee_pct (decorate raw e) = en_fee_pct e"
  by (simp_all add: decorate_def Let_def)

text \<open>The prices of an exchange's entry are positive, and the fees nonnegative.\<close>

definition entry_ok :: "spread_entry \<Rightarrow> bool" where
  "entry_ok e \<longleftrightarrow> (\<forall>p. en_price e = Some p \<longrightarrow> p > 0)"

lemma entry_of_ok: "entry_ok (entry_of md now ex meta s q)"
  by (simp add: entry_ok_def entry_of_def Let_def)

lemma by_symbol_all:
  assumes P: "\<And>ex meta s q. P (entry_of md now ex meta s q)"
    and "(s, es) \<in> set (by_symbol_entries md now)" "e \<in> set es" shows "P e"
proof -
  let ?all = "\<lambda>m. \<forall>k es. (k, es) \<in> set m \<longrightarrow> (\<forall>e \<in> set es. P e)"
  have inner: "?all (foldl (\<lambda>m (s, q). append_at s (entry_of md now ex meta s q) m) m xs)" if "?all m" for ex meta m xs
    using that
  proof (induction xs arbitrary: m)
    case (Cons x xs)
    obtain s q where x: "x = (s, q)" by (cases x)
    have "?all (append_at s (entry_of md now ex meta s q) m)"
      using Cons.prems P by (auto dest!: append_at_values)
    from Cons.IH[OF this] show ?case by (simp add: x)
  qed simp
  have "?all (foldl (collect_exchange md now) m xs)" if "?all m" for m xs
    using that
  proof (induction xs arbitrary: m)
    case (Cons x xs)
    obtain ex symbols where x: "x = (ex, symbols)" by (cases x)
    have "?all (collect_exchange md now m x)"
      using Cons.prems inner by (cases "md_meta md ex") (simp_all add: collect_exchange_def x)
    from Cons.IH[OF this] show ?case by simp
  qed simp
  from this[of "[]" "md_funding md"] assms(2,3) show ?thesis by (simp add: by_symbol_entries_def)
qed

lemma entry_of_fee: "0 \<le> en_fee_pct (entry_of md now ex meta s q)"
  using vip0_positive[of "em_name meta"] by (simp add: entry_of_def Let_def py_round_nonneg)

text \<open>The entries of a symbol come from different exchanges.\<close>

definition exchanges_in :: "int set \<Rightarrow> (string \<times> spread_entry list) list \<Rightarrow> bool" where
  "exchanges_in seen m \<longleftrightarrow> (\<forall>k es. (k, es) \<in> set m \<longrightarrow> distinct (map en_exchange es) \<and> en_exchange ` set es \<subseteq> seen)"

lemma entry_of_exchange [simp]: "en_exchange (entry_of md now ex meta s q) = ex"
  by (simp add: entry_of_def Let_def)

lemma append_at_exchanges:
  assumes "exchanges_in seen m" "\<And>us. (s, us) \<in> set m \<Longrightarrow> en_exchange e \<notin> en_exchange ` set us" "en_exchange e \<in> seen"
  shows "exchanges_in seen (append_at s e m)"
  unfolding exchanges_in_def
proof (intro allI impI)
  fix k vs assume "(k, vs) \<in> set (append_at s e m)"
  from append_at_values[OF this] consider "(k, vs) \<in> set m" | "vs = [e]" | us where "(s, us) \<in> set m" "vs = us @ [e]" by blast
  then show "distinct (map en_exchange vs) \<and> en_exchange ` set vs \<subseteq> seen"
  proof cases
    case 3
    with assms(1) have "distinct (map en_exchange us)" "en_exchange ` set us \<subseteq> seen" by (auto simp: exchanges_in_def)
    with 3 assms(2,3) show ?thesis by auto
  qed (use assms(1,3) in \<open>auto simp: exchanges_in_def\<close>)
qed

lemma collect_inner_distinct:
  assumes "distinct (map fst xs)" "exchanges_in seen m" "ex \<in> seen"
    "\<And>k es. (k, es) \<in> set m \<Longrightarrow> k \<in> fst ` set xs \<Longrightarrow> ex \<notin> en_exchange ` set es"
  shows "exchanges_in seen (foldl (\<lambda>m (s, q). append_at s (entry_of md now ex meta s q) m) m xs)"
  using assms
proof (induction xs arbitrary: m)
  case (Cons x xs)
  obtain s q where x: "x = (s, q)" by (cases x)
  let ?m = "append_at s (entry_of md now ex meta s q) m"
  have "exchanges_in seen ?m"
    using Cons.prems(2-4) by (intro append_at_exchanges) (auto simp: x)
  moreover have "ex \<notin> en_exchange ` set es" if "(k, es) \<in> set ?m" "k \<in> fst ` set xs" for k es
  proof -
    have "k \<noteq> s" using Cons.prems(1) that(2) by (auto simp: x)
    with append_at_values[OF that(1)] have "(k, es) \<in> set m" by blast
    with Cons.prems(4)[OF this] that(2) show ?thesis by auto
  qed
  moreover have "distinct (map fst xs)" using Cons.prems(1) by simp
  ultimately show ?case using Cons.IH[of ?m] Cons.prems(3) by (simp add: x)
qed simp

lemma collect_exchange_distinct:
  assumes "distinct (map fst symbols)" "exchanges_in seen m" "ex \<notin> seen"
  shows "exchanges_in (insert ex seen) (collect_exchange md now m (ex, symbols))"
proof -
  have ok: "exchanges_in (insert ex seen) m" and new: "\<And>k es. (k, es) \<in> set m \<Longrightarrow> ex \<notin> en_exchange ` set es"
    using assms(2,3) unfolding exchanges_in_def by blast+
  show ?thesis
  proof (cases "md_meta md ex")
    case None
    with ok show ?thesis by (simp add: collect_exchange_def)
  next
    case (Some meta)
    have "exchanges_in (insert ex seen) (foldl (\<lambda>m (s, q). append_at s (entry_of md now ex meta s q) m) m symbols)"
      by (rule collect_inner_distinct[OF assms(1) ok]) (use new in auto)
    with Some show ?thesis by (simp add: collect_exchange_def)
  qed
qed

definition proper_cache :: "market_data \<Rightarrow> bool" where
  "proper_cache md \<longleftrightarrow> distinct (map fst (md_funding md)) \<and> (\<forall>(ex, rows) \<in> set (md_funding md). distinct (map fst rows))"

lemma by_symbol_distinct:
  assumes "proper_cache md" "(s, es) \<in> set (by_symbol_entries md now)" shows "distinct (map en_exchange es)"
proof -
  have "exchanges_in (seen \<union> fst ` set xs) (foldl (collect_exchange md now) m xs)"
    if "exchanges_in seen m" "distinct (map fst xs)" "\<forall>(ex, rows) \<in> set xs. distinct (map fst rows)" "fst ` set xs \<inter> seen = {}"
    for m xs seen using that
  proof (induction xs arbitrary: m seen)
    case (Cons x xs)
    obtain ex rows where x: "x = (ex, rows)" by (cases x)
    have "exchanges_in (insert ex seen) (collect_exchange md now m x)"
      using Cons.prems collect_exchange_distinct[of rows seen m ex] by (simp add: x)
    from Cons.IH[OF this] Cons.prems show ?case by (simp add: x)
  qed simp
  from this[of "{}" "[]" "md_funding md"] assms show ?thesis
    by (fastforce simp: proper_cache_def by_symbol_entries_def exchanges_in_def)
qed

section \<open>Opportunities\<close>

lemma sorted_desc_ends:
  assumes "sorted (map (\<lambda>x. - k x) xs)" "xs \<noteq> []"
  shows "Max ((k :: 'a \<Rightarrow> real) ` set xs) = k (hd xs)" "Min (k ` set xs) = k (last xs)"
proof -
  have le: "k y \<le> k (hd xs)" if "y \<in> set xs" for y
    using assms that by (cases xs) auto
  have ge: "k (last xs) \<le> k y" if "y \<in> set xs" for y
    using assms that by (cases xs rule: rev_cases) (auto simp: sorted_append)
  show "Max (k ` set xs) = k (hd xs)" using le assms(2) by (intro Max_eqI) auto
  show "Min (k ` set xs) = k (last xs)" using ge assms(2) by (intro Min_eqI) auto
qed

lemma valid_prices_alt: "valid_prices es = map price_or_zero (filter (\<lambda>e. en_price e \<noteq> None) es)"
  by (induction es) (auto simp: valid_prices_def List.map_filter_def price_or_zero_def to_float_def)

text \<open>The widest spread of sorted entries is the gap between the first and the last priced one.\<close>

lemma max_spread_ends:
  assumes "sorted (map (\<lambda>x. - price_or_zero x) es)" "length (filter (\<lambda>e. en_price e \<noteq> None) es) \<ge> 2"
  defines "v \<equiv> filter (\<lambda>e. en_price e \<noteq> None) es"
  shows "max_spread_pct es = py_round ((price_or_zero (hd v) - price_or_zero (last v)) / price_or_zero (last v) * 100) 4"
proof -
  have "sorted (map (\<lambda>x. - price_or_zero x) v)" unfolding v_def by (rule sorted_filter[OF assms(1)])
  moreover have "v \<noteq> []" using assms(2) by (auto simp: v_def)
  ultimately have "Max (price_or_zero ` set v) = price_or_zero (hd v)" "Min (price_or_zero ` set v) = price_or_zero (last v)"
    by (rule sorted_desc_ends)+
  then show ?thesis using assms(2) by (simp add: max_spread_pct_def valid_prices_alt v_def Let_def image_image)
qed

text \<open>A group of the monitor: sorted, its entries sound and, in a proper cache, from different exchanges.\<close>

lemma group_facts:
  assumes "g \<in> set (compute_spread_groups md stats now)"
  shows "sorted (map (\<lambda>x. - price_or_zero x) (gp_entries g))" "gp_spread g = max_spread_pct (gp_entries g)"
    "e \<in> set (gp_entries g) \<Longrightarrow> entry_ok e" "e \<in> set (gp_entries g) \<Longrightarrow> 0 \<le> en_fee_pct e"
    "proper_cache md \<Longrightarrow> distinct (map en_exchange (gp_entries g))"
proof -
  obtain symbol raw where raw: "(symbol, raw) \<in> set (by_symbol_entries md now)"
    and g: "gp_entries g = sort_desc price_or_zero (map (decorate raw) raw)" "gp_spread g = max_spread_pct (gp_entries g)"
    using assms by (auto simp: compute_spread_groups_def map_filter_set group_of_def Let_def split: if_splits)
  show "sorted (map (\<lambda>x. - price_or_zero x) (gp_entries g))" unfolding g(1) by (rule sort_desc_sorted)
  show "gp_spread g = max_spread_pct (gp_entries g)" by (rule g(2))
  show "entry_ok e" if "e \<in> set (gp_entries g)"
    using that by_symbol_all[of entry_ok, OF entry_of_ok raw] by (auto simp: g(1) entry_ok_def)
  show "0 \<le> en_fee_pct e" if "e \<in> set (gp_entries g)"
    using that by_symbol_all[of "\<lambda>e. 0 \<le> en_fee_pct e", OF entry_of_fee raw] by (auto simp: g(1))
  show "distinct (map en_exchange (gp_entries g))" if "proper_cache md"
    using by_symbol_distinct[OF that raw] by (simp add: g(1) distinct_map_sort_desc comp_def)
qed

lemma opportunity_facts:
  assumes "opportunity_of exit_z tp_delta g = Some o'"
  defines "v \<equiv> filter (\<lambda>e. en_price e \<noteq> None) (gp_entries g)"
  shows "length v \<ge> 2" "ox_high o' = hd v" "ox_low o' = last v" "ox_spread o' = gp_spread g" "3 / 2 \<le> ox_z o'"
    "round_trip_fee_pct (ox_high o') (ox_low o') + 1 / 10 \<le> ox_spread o'" "ox_symbol o' = gp_symbol g"
    "ox_net_pct o' = py_round (ox_spread o' - (ox_mean o' + max exit_z (ox_z o' - tp_delta) * ox_std o')
       - round_trip_fee_pct (ox_high o') (ox_low o')) 4"
  using assms(1) unfolding v_def opportunity_of_def
  by (auto simp: Let_def not_less split: option.splits if_splits)

text \<open>
  Every opportunity the engine is offered is a price gap on two different exchanges: the high
  leg is quoted above the low leg at positive prices, the gap is the stated spread, it covers
  the four taker fees with a tenth of a percent to spare, and its z-score is at least 1.5. The
  opportunities come in the order of their z-scores.
\<close>

theorem opportunities_cover_fees:
  assumes "proper_cache md" "o' \<in> set (compute_opportunities exit_z tp_delta (compute_spread_groups md stats now))"
  shows "\<exists>p q. en_price (ox_high o') = Some p \<and> en_price (ox_low o') = Some q \<and> 0 < q \<and> q < p
    \<and> en_exchange (ox_high o') \<noteq> en_exchange (ox_low o')
    \<and> ox_spread o' = py_round ((p - q) / q * 100) 4
    \<and> round_trip_fee_pct (ox_high o') (ox_low o') + 1 / 10 \<le> ox_spread o' \<and> 3 / 2 \<le> ox_z o'
    \<and> sorted (map (\<lambda>x. - ox_z x) (compute_opportunities exit_z tp_delta (compute_spread_groups md stats now)))"
proof -
  obtain g where g: "g \<in> set (compute_spread_groups md stats now)" "opportunity_of exit_z tp_delta g = Some o'"
    using assms(2) by (auto simp: compute_opportunities_def map_filter_set)
  define v where "v = filter (\<lambda>e. en_price e \<noteq> None) (gp_entries g)"
  note o = opportunity_facts[OF g(2), folded v_def] and gf = group_facts[OF g(1)]
  have "v \<noteq> []" "set v \<subseteq> set (gp_entries g)" using o(1) by (auto simp: v_def)
  then have v: "hd v \<in> set (gp_entries g)" "last v \<in> set (gp_entries g)" "hd v \<in> set v" "last v \<in> set v"
    using hd_in_set last_in_set by blast+
  obtain p q where pq: "en_price (hd v) = Some p" "en_price (last v) = Some q"
    using v(3,4) by (auto simp: v_def)
  have pos: "0 < p" "0 < q" using pq gf(3)[OF v(1)] gf(3)[OF v(2)] by (auto simp: entry_ok_def)
  have spread: "ox_spread o' = py_round ((p - q) / q * 100) 4"
    using max_spread_ends[OF gf(1)] o(1,4) gf(2) pq by (simp add: v_def price_or_zero_def to_float_def)
  have "0 \<le> round_trip_fee_pct (ox_high o') (ox_low o')"
    using gf(4)[OF v(1)] gf(4)[OF v(2)] o(2,3) by (simp add: round_trip_fee_pct_def)
  then have "0 < py_round ((p - q) / q * 100) 4" using o(6) spread by simp
  then have "\<not> (p - q) / q * 100 \<le> 0" using py_round_nonpos by (metis not_less)
  then have "q < p" using pos by (simp add: field_simps)
  then have "hd v \<noteq> last v" using pq by auto
  then have "en_exchange (hd v) \<noteq> en_exchange (last v)"
    using gf(5)[OF assms(1)] v(1,2) by (auto simp: distinct_map inj_on_def)
  with pq pos spread \<open>q < p\<close> o(2,3,5,6) show ?thesis
    by (intro exI[of _ p] exI[of _ q]) (simp add: compute_opportunities_def sort_desc_sorted)
qed

definition two_prices :: market_data where
  "two_prices = \<lparr>md_funding = (let q = \<lparr>fq_rate = Some 0, fq_mark_price = None, fq_interval_hours = None, fq_next = None\<rparr>
       in [(1, [(''BTC'', q)]), (2, [(''BTC'', q)])]),
     md_perp_price = (\<lambda>ex s. if ex = 1 then Some 102 else Some 100), md_perp_volume = (\<lambda>_ _. None), md_spot_price = [],
     md_spot_volume = (\<lambda>_ _. None), md_meta = (\<lambda>_. Some \<lparr>em_name = Some ''okx'', em_display = None\<rparr>), md_exchanges = (\<lambda>_. None)\<rparr>"

definition flat_pair :: pair_stats where
  "flat_pair = \<lparr>px_mean = 0, px_std = 1, px_p90 = 0, px_n = 30\<rparr>"

definition sample_entry :: "int \<Rightarrow> real \<Rightarrow> real \<Rightarrow> spread_entry" where
  "sample_entry i p d = \<lparr>en_exchange = i, en_name = ''okx'', en_price = Some p, en_rate_pct = 0, en_periods = 3, en_fee_pct = 5 / 100,
     en_secs = None, en_volume24 = 0, en_highest_freq = True, en_vs_min = Some d\<rparr>"

lemma two_prices_entries:
  "by_symbol_entries two_prices 0 =
     [(''BTC'', [(sample_entry 1 102 2)\<lparr>en_highest_freq := False, en_vs_min := None\<rparr>,
                (sample_entry 2 100 0)\<lparr>en_highest_freq := False, en_vs_min := None\<rparr>])]"
proof -
  have fee: "get_vip0_taker_fee (Some ''okx'') = 5 / 10000" by code_simp
  have "py_round (5 / 100) 4 = 5 / 100" by code_simp
  then show ?thesis
    by (simp add: by_symbol_entries_def collect_exchange_def two_prices_def entry_of_def sample_entry_def Let_def to_float_def fee
        py_or_str_def str_or_empty_def funding_periods_per_day_def whole_periods_def secs_to_funding_def)
qed

lemma two_prices_group:
  "compute_spread_groups two_prices (\<lambda>_. Some flat_pair) 0 =
     [\<lparr>gp_symbol = ''BTC'', gp_spread = 2, gp_volume = 0, gp_count = 2, gp_entries = [sample_entry 1 102 2, sample_entry 2 100 0],
       gp_stats = Some \<lparr>gs_mean = 0, gs_std = 1, gs_z = Some 2\<rparr>\<rparr>]"
  by (simp add: compute_spread_groups_def two_prices_entries List.map_filter_def group_of_def decorate_def sample_entry_def
      valid_prices_def sort_desc_def Let_def max_spread_pct_def group_stats_def flat_pair_def price_or_zero_def to_float_def)

theorem opportunities_cover_fees_witness:
  "\<exists>o' \<in> set (compute_opportunities (1 / 2) 3 (compute_spread_groups two_prices (\<lambda>_. Some flat_pair) 0)).
    en_exchange (ox_high o') \<noteq> en_exchange (ox_low o') \<and> round_trip_fee_pct (ox_high o') (ox_low o') + 1 / 10 \<le> ox_spread o'"
proof -
  let ?os = "compute_opportunities (1 / 2) 3 (compute_spread_groups two_prices (\<lambda>_. Some flat_pair) 0)"
  have "?os \<noteq> []"
    by (simp add: compute_opportunities_def two_prices_group opportunity_of_def List.map_filter_def sample_entry_def
        round_trip_fee_pct_def sort_desc_def Let_def)
  then obtain o' where o': "o' \<in> set ?os" by (meson last_in_set)
  have "proper_cache two_prices" by (simp add: proper_cache_def two_prices_def Let_def)
  from opportunities_cover_fees[OF this o'] o' show ?thesis by blast
qed

section \<open>The refresh of the statistics\<close>

text \<open>No inner key of the collector's cache is an exchange id.\<close>

lemma no_candidates: "refresh_candidates md (funding_rate_cache md) = []"
proof -
  have "symbol_candidate md (KInt ex, map (\<lambda>(s, q). (KStr s, q)) rows) = None" for ex rows
  proof -
    have "List.map_filter (\<lambda>kq. known_exchange md (fst kq)) (map (\<lambda>(s, q). (KStr s, q)) rows) = []"
      by (induction rows) (auto simp: List.map_filter_def known_exchange_def)
    then show ?thesis by (simp add: symbol_candidate_def)
  qed
  then have "symbol_candidate md x = None" if "x \<in> set (funding_rate_cache md)" for x
    using that by (auto simp: funding_rate_cache_def)
  then have "List.map_filter (symbol_candidate md) (funding_rate_cache md) = []"
    by (simp add: List.map_filter_def filter_empty_conv)
  then show ?thesis by (simp add: refresh_candidates_def sort_desc_def)
qed

lemma refresh_is_idle: "refresh_spread_stats stats md cache = cache"
  by (simp add: refresh_spread_stats_def no_candidates)

lemma no_stats_no_opportunity: "compute_opportunities exit_z tp_delta (compute_spread_groups md (\<lambda>_. None) now) = []"
proof -
  have "gp_stats g = None" if "g \<in> set (compute_spread_groups md (\<lambda>_. None) now)" for g
    using that by (auto simp: compute_spread_groups_def map_filter_set group_of_def group_stats_def Let_def split: if_splits)
  then have "List.map_filter (opportunity_of exit_z tp_delta) (compute_spread_groups md (\<lambda>_. None) now) = []"
    by (auto simp: List.map_filter_def filter_empty_conv opportunity_of_def)
  then show ?thesis by (simp add: compute_opportunities_def sort_desc_def)
qed

text \<open>
  The background refresh never computes statistics: it looks for exchange ids among the symbols
  of the funding cache, so it leaves the cache of statistics as it is. However often it runs from
  an empty cache, on whatever market data, the engine is offered no opportunity.
\<close>

lemma spread_refresh_finds_nothing:
  "refresh_spread_stats stats md cache = cache
   \<and> compute_opportunities exit_z tp_delta
       (compute_spread_groups md' (fold (\<lambda>(f, d). refresh_spread_stats f d) runs (\<lambda>_. None)) now) = []"
proof -
  have "fold (\<lambda>(f, d). refresh_spread_stats f d) runs c = c" for c
    by (induction runs arbitrary: c) (simp_all add: refresh_is_idle split_beta)
  then show ?thesis by (simp add: refresh_is_idle no_stats_no_opportunity)
qed

end
