(* ===== verification/SpreadArbLaws.thy ===== *)
theory SpreadArbLaws
  imports SpreadArb SpreadLaws
begin

text \<open>
  What the spread engine guarantees: a position is only booked as closed when both exchanges
  confirmed it, no position is lost, entries respect their limits; and what it does not: the
  cooldown after a stop-loss, and legs the engine does not know of.
\<close>

section \<open>Closing a leg\<close>

text \<open>A leg is reported closed in a world in which the exchange shows no such position.\<close>

lemma close_leg_confirmed: "close_leg_with_retry env ex symbol side amount n w = (True, w') \<Longrightarrow> verify_leg_closed env ex symbol side w'"
  by (induction env ex symbol side amount n w rule: close_leg_with_retry.induct) (auto split: prod.splits option.splits if_splits)

lemma close_flag_confirmed:
  "close_flag env (Some e) symbol side amount flag w = (True, w') \<Longrightarrow> flag \<or> amount \<le> 0 \<or> verify_leg_closed env e symbol side w'"
  by (auto simp: close_flag_def not_less dest: close_leg_confirmed split: if_splits)

lemma recover_flag_confirmed:
  "recover_flag env ex symbol side amount flag w = (True, w') \<Longrightarrow>
   flag \<or> (\<exists>e. ex = Some e \<and> amount > 0 \<and> verify_leg_closed env e symbol side w')"
  by (auto simp: recover_flag_def dest: close_leg_confirmed split: if_splits option.splits)

section \<open>Reasons\<close>

lemma number_bytes: "c \<in> set (fixed_text n x) \<union> set (str_of_int i) \<Longrightarrow> c \<noteq> CHR 0xAD"
  by (auto dest!: fixed_text_chars str_of_int_chars simp: is_digit_char_def)

lemma marked_needs_byte: "sublist stop_loss_mark s \<Longrightarrow> CHR 0xAD \<in> set s"
  by (auto simp: sublist_def stop_loss_mark_def)

definition unmarked :: "string \<Rightarrow> bool" where
  "unmarked s \<longleftrightarrow> \<not> sublist stop_loss_mark s"

lemma unmarked_byte: "CHR 0xAD \<notin> set s \<Longrightarrow> unmarked s"
  using marked_needs_byte by (auto simp: unmarked_def)

lemma exit_reason_unmarked: "exit_reason cfg p a b c d = Some r \<Longrightarrow> unmarked r"
proof (rule unmarked_byte)
  have n: "CHR 0xAD \<notin> set (fixed_text k x)" "CHR 0xAD \<notin> set (str_of_int i)" for k x i
    using number_bytes by blast+
  assume "exit_reason cfg p a b c d = Some r"
  then consider z t where "r = take_profit_reason p z t" | z t where "r = reversion_reason z t"
    | z t e d where "r = stop_reason z t e d" | m t where "r = settle_reason m t"
    by (auto simp: exit_reason_def Let_def split: option.splits if_splits)
  then show "CHR 0xAD \<notin> set r"
    by cases (simp_all add: n take_profit_reason_def reversion_reason_def stop_reason_def settle_reason_def)
qed

lemma manual_reason_unmarked: "unmarked manual_reason"
  by (rule unmarked_byte) (simp add: manual_reason_def)

section \<open>The rows of the engine\<close>

text \<open>What identifies a position and its legs; it never changes.\<close>

definition row_core :: "spread_position \<Rightarrow> int \<times> string \<times> (int \<times> int) \<times> (real \<times> real) \<times> real \<times> real" where
  "row_core p = (xp_id p, xp_symbol p, (xp_high p, xp_low p), (xp_short_size p, xp_long_size p), xp_short_entry p, xp_long_entry p)"

definition row_ok :: "spread_position \<Rightarrow> bool" where
  "row_ok p \<longleftrightarrow>
     xp_status p \<in> {''open'', ''closing'', ''closed'', ''error''} \<and> unmarked (xp_reason p)
     \<and> (xp_status p = ''closed'' \<longrightarrow> xp_short_closed p \<and> xp_long_closed p)
     \<and> (xp_status p = ''error'' \<longrightarrow> \<not> (xp_short_closed p \<and> xp_long_closed p))
     \<and> (xp_status p = ''open'' \<longrightarrow> \<not> xp_short_closed p \<and> \<not> xp_long_closed p)"

definition rows_ok :: "spread_state \<Rightarrow> bool" where
  "rows_ok s \<longleftrightarrow> distinct (map xp_id (sr_rows s)) \<and> (\<forall>p \<in> set (sr_rows s). row_ok p)"

abbreviation cores :: "spread_state \<Rightarrow> (int \<times> string \<times> (int \<times> int) \<times> (real \<times> real) \<times> real \<times> real) list" where
  "cores s \<equiv> map row_core (sr_rows s)"

text \<open>A change that keeps the rows sound and only appends.\<close>

definition keeps :: "spread_state \<Rightarrow> spread_state \<Rightarrow> bool" where
  "keeps s s' \<longleftrightarrow> (rows_ok s \<longrightarrow> rows_ok s') \<and> prefix (cores s) (cores s')"

lemma keeps_refl [simp]: "keeps s s"
  by (simp add: keeps_def)

lemma keeps_trans: "keeps s s' \<Longrightarrow> keeps s' s'' \<Longrightarrow> keeps s s''"
  unfolding keeps_def using prefix_order.trans by blast

lemma core_id: "map xp_id ps = map fst (map row_core ps)"
  by (simp add: row_core_def comp_def)

lemma keeps_map:
  assumes "sr_rows s' = map f (sr_rows s)"
    "\<And>p. p \<in> set (sr_rows s) \<Longrightarrow> row_core (f p) = row_core p \<and> (row_ok p \<longrightarrow> row_ok (f p))"
  shows "keeps s s'"
proof -
  have c: "cores s' = cores s" using assms by simp
  then have ids: "map xp_id (sr_rows s') = map xp_id (sr_rows s)" unfolding core_id by simp
  have "(\<forall>p \<in> set (sr_rows s). row_ok p) \<longrightarrow> (\<forall>p \<in> set (sr_rows s'). row_ok p)" using assms by auto
  then show ?thesis unfolding keeps_def rows_ok_def ids c by simp
qed

lemma keeps_set_row:
  assumes "\<And>p. p \<in> set (sr_rows s) \<Longrightarrow> xp_id p = i \<Longrightarrow> row_core (f p) = row_core p \<and> (row_ok p \<longrightarrow> row_ok (f p))"
  shows "keeps s (set_row i f s)"
  by (rule keeps_map[where f = "\<lambda>p. if xp_id p = i then f p else p"]) (use assms in \<open>auto simp: set_row_def\<close>)

lemma set_row_twice: "(\<And>p. xp_id (f p) = xp_id p) \<Longrightarrow> set_row i g (set_row i f s) = set_row i (\<lambda>p. g (f p)) s"
  by (simp add: set_row_def)

lemma keeps_close_row: "unmarked reason \<Longrightarrow> keeps s (fst (close_spread_position env db p reason s w))"
  by (auto simp: close_spread_position_def Let_def split_beta set_row_twice intro!: keeps_set_row)
     (auto simp: closed_row_def row_core_def row_ok_def)

lemma mark_closed_ok: "row_core (mark_closed t p) = row_core p" "row_ok p \<Longrightarrow> row_ok (mark_closed t p)"
  by (simp_all add: mark_closed_def row_core_def row_ok_def)

lemma keeps_attempts [simp]: "keeps s (s\<lparr>sr_attempts := f\<rparr>)"
  by (simp add: keeps_def rows_ok_def)

text \<open>A row that is not open may take any flags, with the status set right.\<close>

lemma reflag_ok:
  "row_ok p \<Longrightarrow> xp_status p \<in> {''error'', ''closing''} \<Longrightarrow>
   row_ok (mark_closed t (p\<lparr>xp_short_closed := a, xp_long_closed := b\<rparr>))"
  by (auto simp: mark_closed_def row_ok_def)

lemma keeps_new_row:
  assumes "row_ok p" "xp_id p = next_id (map xp_id (sr_rows s))"
  shows "keeps s (s\<lparr>sr_rows := sr_rows s @ [p]\<rparr>)"
  using assms next_id_notin[of "map xp_id (sr_rows s)"] by (auto simp: keeps_def rows_ok_def)

lemma new_position_ok: "row_ok (new_position i cfg opp usd ot o1 o2 f1 f2)"
  using unmarked_byte[of "[]"] by (simp add: row_ok_def new_position_def)

lemma keeps_open_row: "keeps s (fst (try_open_position env cfg db opp s w))"
  by (auto simp: try_open_position_def open_legs_def Let_def split: option.split prod.split
      intro!: keeps_new_row new_position_ok) (simp_all add: new_position_def)

lemma keeps_open_loop: "keeps s (fst (open_loop env db cfg opps s w))"
proof (induction opps arbitrary: s w)
  case (Cons opp opps)
  obtain s1 w1 where o1: "try_open_position env cfg db opp s w = (s1, w1)" by fastforce
  with keeps_open_row[of s env cfg db opp w] have "keeps s s1" by simp
  with Cons[of s1 w1] show ?case by (auto simp: o1 intro: keeps_trans)
qed simp

lemma reflag_core: "row_core (mark_closed t (q\<lparr>xp_short_closed := a, xp_long_closed := b\<rparr>)) = row_core q"
  by (simp add: mark_closed_def row_core_def)

text \<open>A recovered row is one that was not open, and it is still as it was queried.\<close>

definition stuck :: "spread_position \<Rightarrow> bool" where
  "stuck p \<longleftrightarrow> xp_status p \<in> {''error'', ''closing''}"

lemma keeps_recover_one:
  assumes "\<And>q. q \<in> set (sr_rows s) \<Longrightarrow> xp_id q = xp_id p \<Longrightarrow> stuck q"
  shows "keeps s (fst (recover_one env db p s w))"
proof -
  have "keeps s (set_row (xp_id p) (mark_closed t) s)" for t
    by (rule keeps_set_row) (simp add: mark_closed_ok)
  moreover have "keeps s (set_row (xp_id p) (\<lambda>q. mark_closed t (q\<lparr>xp_short_closed := a, xp_long_closed := b\<rparr>)) (s\<lparr>sr_attempts := f\<rparr>))" for t a b f
  proof (rule keeps_map[where f = "\<lambda>q. if xp_id q = xp_id p then mark_closed t (q\<lparr>xp_short_closed := a, xp_long_closed := b\<rparr>) else q"])
    fix q assume q: "q \<in> set (sr_rows s)"
    show "row_core (if xp_id q = xp_id p then mark_closed t (q\<lparr>xp_short_closed := a, xp_long_closed := b\<rparr>) else q) = row_core q \<and>
      (row_ok q \<longrightarrow> row_ok (if xp_id q = xp_id p then mark_closed t (q\<lparr>xp_short_closed := a, xp_long_closed := b\<rparr>) else q))"
      using assms[OF q] reflag_ok[where p = q and t = t and a = a and b = b] by (auto simp: reflag_core stuck_def)
  qed (simp add: set_row_def)
  ultimately show ?thesis by (auto simp: recover_one_def Let_def split_beta)
qed

text \<open>Other rows are left alone by the recovery of one.\<close>

lemma recover_one_others:
  assumes "q \<in> set (sr_rows (fst (recover_one env db p s w)))" "xp_id q \<noteq> xp_id p"
  shows "q \<in> set (sr_rows s)"
  using assms by (auto simp: recover_one_def Let_def split_beta set_row_def mark_closed_def split: if_splits)

lemma keeps_recover_all:
  assumes "distinct (map xp_id ps)" "\<And>p q. p \<in> set ps \<Longrightarrow> q \<in> set (sr_rows s) \<Longrightarrow> xp_id q = xp_id p \<Longrightarrow> stuck q"
  shows "keeps s (fst (recover_all env db ps s w))"
  using assms
proof (induction ps arbitrary: s w)
  case (Cons p ps)
  obtain s1 w1 where r: "recover_one env db p s w = (s1, w1)" by fastforce
  have "keeps s (fst (recover_one env db p s w))"
    by (rule keeps_recover_one) (use Cons.prems(2)[of p] in simp)
  then have "keeps s s1" by (simp add: r)
  moreover have "stuck q" if "p' \<in> set ps" "q \<in> set (sr_rows s1)" "xp_id q = xp_id p'" for p' q
  proof -
    have "xp_id q \<noteq> xp_id p" using Cons.prems(1) that(1,3) by (auto simp: image_iff)
    with recover_one_others[of q env db p s w] that r have "q \<in> set (sr_rows s)" by simp
    with Cons.prems(2)[of p' q] that show ?thesis by simp
  qed
  with Cons.IH[of s1 w1] Cons.prems(1) have "keeps s1 (fst (recover_all env db ps s1 w1))" by simp
  ultimately show ?case by (auto simp: r intro: keeps_trans)
qed simp

lemma rows_unique: "distinct (map xp_id ps) \<Longrightarrow> p \<in> set ps \<Longrightarrow> q \<in> set ps \<Longrightarrow> xp_id p = xp_id q \<Longrightarrow> p = q"
  by (auto simp: distinct_map inj_on_def)

lemma keeps_recover: 
  assumes "rows_ok s" shows "keeps s (fst (recover_half_closed_positions env db s w))"
  unfolding recover_half_closed_positions_def
proof (rule keeps_recover_all)
  show "distinct (map xp_id (filter (\<lambda>p. xp_status p \<in> {''error'', ''closing''}) (sr_rows s)))"
    using assms by (auto simp: rows_ok_def distinct_map_filter)
  fix p q assume "p \<in> set (filter (\<lambda>p. xp_status p \<in> {''error'', ''closing''}) (sr_rows s))" "q \<in> set (sr_rows s)" "xp_id q = xp_id p"
  with assms have "q = p" "stuck p" by (auto simp: rows_ok_def stuck_def dest: rows_unique)
  then show "stuck q" by simp
qed

lemma live_row_ok: "row_core (live_row a b p) = row_core p" "row_ok (live_row a b p) = row_ok p"
  by (simp_all add: live_row_def row_core_def row_ok_def)

lemma keeps_check_exit: "keeps s (fst (check_exit env db cfg p s w))"
proof -
  have k: "keeps s (set_row (xp_id p) (live_row a b) s)" for a b
    by (rule keeps_set_row) (simp add: live_row_ok)
  show ?thesis
    by (auto simp: check_exit_def Let_def k split: option.split
        intro: keeps_trans[OF k] keeps_close_row exit_reason_unmarked)
qed

lemma keeps_check_all: "keeps s (fst (check_all env db cfg ps s w))"
proof (induction ps arbitrary: s w)
  case (Cons p ps)
  obtain s1 w1 where o1: "check_exit env db cfg p s w = (s1, w1)" by fastforce
  with keeps_check_exit[of s env db cfg p w] have "keeps s s1" by simp
  with Cons[of s1 w1] show ?case by (auto simp: o1 intro: keeps_trans)
qed simp

lemma keeps_check_exits: "rows_ok s \<Longrightarrow> keeps s (fst (check_exits env db cfg s w))"
  using keeps_recover[of s env db w] by (auto simp: check_exits_def split_beta intro: keeps_trans keeps_check_all)

lemma keeps_prices: "keeps s (update_spread_position_prices env s w)"
proof (rule keeps_map)
  show "sr_rows (update_spread_position_prices env s w) = map (priced_row (sx_price env w)) (sr_rows s)"
    by (simp add: update_spread_position_prices_def)
  show "row_core (priced_row (sx_price env w) p) = row_core p \<and> (row_ok p \<longrightarrow> row_ok (priced_row (sx_price env w) p))" for p
    by (simp add: priced_row_def row_core_def row_ok_def Let_def)
qed

text \<open>On disk during a close, too: the row is marked as closing.\<close>

lemma keeps_crash:
  assumes "(s', w') \<in> set (interrupted_close env db p s w)" shows "keeps s s'"
proof -
  let ?c = "\<lambda>q. q\<lparr>xp_status := ''closing''\<rparr>"
  have "keeps s (set_row (xp_id p) (\<lambda>q. f (?c q)) s)" if "\<And>q. row_core (f q) = row_core q \<and> xp_status (f q) = xp_status q \<and> xp_reason (f q) = xp_reason q" for f
    by (rule keeps_set_row) (use that in \<open>auto simp: row_core_def row_ok_def\<close>)
  note k = this
  have "keeps s (set_row (xp_id p) ?c s)" using k[of "\<lambda>q. q"] by simp
  moreover have "keeps s (set_row (xp_id p) (\<lambda>q. q\<lparr>xp_short_closed := True\<rparr>) (set_row (xp_id p) ?c s))"
    using k[of "\<lambda>q. q\<lparr>xp_short_closed := True\<rparr>"] by (simp add: set_row_twice row_core_def)
  moreover have "keeps s (set_row (xp_id p) (\<lambda>q. q\<lparr>xp_short_closed := b, xp_long_closed := True\<rparr>) (set_row (xp_id p) ?c s))" for b
    using k[of "\<lambda>q. q\<lparr>xp_short_closed := b, xp_long_closed := True\<rparr>"] by (simp add: set_row_twice row_core_def)
  ultimately show ?thesis using assms by (auto simp: interrupted_close_def Let_def split_beta split: if_splits)
qed

lemma keeps_step:
  assumes "engine_step env x y" "rows_ok (fst x)" shows "keeps (fst x) (fst y)"
  using assms
proof (cases rule: engine_step.cases)
  case (entries s w db md cfg held)
  then show ?thesis using keeps_open_loop by (auto simp: trigger_spread_entries_def split: option.split)
next
  case (exits s w db cfg held)
  have "keeps s (fst (check_exits env db c (fst (recover_half_closed_positions env db s w)) (snd (recover_half_closed_positions env db s w))))" for c
  proof -
    have k: "keeps s (fst (recover_half_closed_positions env db s w))" using assms(2) exits by (simp add: keeps_recover)
    then have "rows_ok (fst (recover_half_closed_positions env db s w))" using assms(2) exits by (simp add: keeps_def)
    from keeps_trans[OF k keeps_check_exits[OF this]] show ?thesis .
  qed
  with exits show ?thesis by (auto simp: trigger_spread_exits_def split_beta split: option.split)
next
  case (scheduled s w db cfg)
  then show ?thesis using assms(2) keeps_check_exits by (auto simp: run_spread_arb_def split: option.split)
next
  case (manual s w db i)
  then show ?thesis
    using keeps_close_row[OF manual_reason_unmarked] by (auto simp: manual_close_def split_beta split: option.split)
next
  case (crash p s s' w' db w)
  then show ?thesis using keeps_crash by auto
qed (simp_all add: keeps_prices)

lemma engine_run:
  assumes "(engine_step env)\<^sup>*\<^sup>* x y" "rows_ok (fst x)" shows "rows_ok (fst y) \<and> prefix (cores (fst x)) (cores (fst y))"
  using assms
proof (induction rule: rtranclp_induct)
  case (step y z)
  then have "rows_ok (fst y)" "prefix (cores (fst x)) (cores (fst y))" by auto
  with keeps_step[OF step.hyps(2)] show ?case by (auto simp: keeps_def intro: prefix_order.trans)
qed simp

section \<open>Properties\<close>


text \<open>
  The cooldown after a stop-loss never holds: the reasons the engine and the manual close write
  do not contain the mark the cooldown looks for, so after any history no pair is in cooldown,
  however long the configured pause.
\<close>

theorem cooldown_never_holds:
  assumes "(engine_step env)\<^sup>*\<^sup>* (s, w) (s', w')" "rows_ok s"
  shows "\<not> in_cooldown now s' symbol high low mins"
proof -
  have "rows_ok s'" using engine_run[OF assms(1)] assms(2) by simp
  then have "\<not> sublist stop_loss_mark (xp_reason p)" if "p \<in> set (sr_rows s')" for p
    using that unfolding rows_ok_def row_ok_def unmarked_def by blast
  then show ?thesis unfolding in_cooldown_def by blast
qed

text \<open>Sample data: a cooperative exchange, and one position.\<close>

definition calm_env :: "unit spread_env" where
  "calm_env = \<lparr>sx_price = (\<lambda>_ _ _. 10), sx_stats = (\<lambda>_ _. None), sx_next = (\<lambda>_ _ _. None), sx_clock = (\<lambda>_. 1000),
     sx_place = (\<lambda>w _ _ _ _ _. (None, w)), sx_close = (\<lambda>w _ _ _ _. (Some \<lparr>or_id = None, or_status = None, or_average = None,
       or_price = None, or_filled = None, or_amount = None\<rparr>, w)),
     sx_positions = (\<lambda>_ _ _. Some []), sx_balance = (\<lambda>_ _. None)\<rparr>"

definition sample_row :: "string \<Rightarrow> spread_position" where
  "sample_row st = \<lparr>xp_id = 1, xp_symbol = ''BTC'', xp_high = 1, xp_low = 2, xp_entry_spread = 1, xp_entry_z = 2, xp_tp_z = None,
     xp_size_usd = 20, xp_order_type = ''market'', xp_short_size = 2, xp_long_size = 2, xp_short_order = [], xp_long_order = [],
     xp_short_entry = 10, xp_long_entry = 10, xp_short_now = 10, xp_long_now = 10, xp_unrealized = 0, xp_realized = 0,
     xp_status = st, xp_reason = [], xp_short_closed = False, xp_long_closed = False, xp_closed_at = None\<rparr>"

definition sample_rows :: "string \<Rightarrow> spread_state" where
  "sample_rows st = \<lparr>sr_rows = [sample_row st], sr_attempts = (\<lambda>_. 0)\<rparr>"

lemma sample_rows_ok: "st \<in> {''open'', ''closing'', ''error''} \<Longrightarrow> rows_ok (sample_rows st)"
  using unmarked_byte[of "[]"] by (auto simp: rows_ok_def row_ok_def sample_rows_def sample_row_def)

lemma quiet_run: "(engine_step calm_env)\<^sup>*\<^sup>* (sample_rows ''open'', ()) (sample_rows ''open'', ())"
  by (rule r_into_rtranclp) (rule engine_step.market)


theorem cooldown_never_holds_witness: "\<not> in_cooldown 0 (sample_rows ''open'') ''BTC'' 1 2 30"
  by (rule cooldown_never_holds[OF quiet_run sample_rows_ok]) simp


definition two_exchanges :: session where
  "two_exchanges = open_session session_local_autoflush
     [\<lparr>ex_id = 1, ex_name = ''okx'', ex_display_name = None, ex_is_unified = None\<rparr>,
      \<lparr>ex_id = 2, ex_name = ''gate'', ex_display_name = None, ex_is_unified = None\<rparr>]
     \<lparr>tb_strategies = [], tb_positions = [], tb_logs = []\<rparr>"

lemma two_exchanges_found: "\<exists>h l. query_exchange 1 two_exchanges = Some h \<and> query_exchange 2 two_exchanges = Some l"
  by (simp add: query_exchange_def two_exchanges_def open_session_def)


text \<open>
  A position whose exchange rows are gone is booked as closed without any order: the legs are
  flagged although nothing was sent and the exchanges were not asked.
\<close>

lemma missing_exchange_counts_as_closed:
  assumes "p \<in> set (sr_rows s)" "query_exchange (xp_high p) db = None" "query_exchange (xp_low p) db = None"
  shows "\<exists>s'. close_spread_position env db p reason s w = (s', w)
    \<and> (\<exists>q \<in> set (sr_rows s'). row_core q = row_core p \<and> xp_status q = ''closed'')"
proof -
  define f where "f = closed_row True True (realized_pnl p (or_else (sx_price env w (xp_high p) (xp_symbol p)) (xp_short_now p))
    (or_else (sx_price env w (xp_low p) (xp_symbol p)) (xp_long_now p))) reason (sx_clock env w)"
  have "close_spread_position env db p reason s w = (set_row (xp_id p) (\<lambda>q. f (q\<lparr>xp_status := ''closing''\<rparr>)) s, w)"
    using assms(2,3) by (simp add: close_spread_position_def close_flag_def Let_def set_row_twice f_def)
  moreover have "f (p\<lparr>xp_status := ''closing''\<rparr>) \<in> set (sr_rows (set_row (xp_id p) (\<lambda>q. f (q\<lparr>xp_status := ''closing''\<rparr>)) s))"
    using assms(1) by (auto simp: set_row_def)
  moreover have "row_core (f (p\<lparr>xp_status := ''closing''\<rparr>)) = row_core p" "xp_status (f (p\<lparr>xp_status := ''closing''\<rparr>)) = ''closed''"
    by (simp_all add: f_def closed_row_def row_core_def)
  ultimately show ?thesis by metis
qed

text \<open>
  When the long leg of an entry fails, the short leg that was filled is sent back once and the
  answer is not looked at: no row is written, so a short leg that stays on the exchange is not
  known to the engine afterwards.
\<close>

lemma failed_unwind_is_forgotten:
  assumes "place_with_retry env high (ox_symbol opp) ''sell'' (size_usd / short_price)
      (str_or_empty (py_or_str (sc_order_type cfg) (Some ''market''))) max_entry_retries w = (Some short_order, w1)"
    "place_with_retry env low (ox_symbol opp) ''buy'' (size_usd / long_price)
      (str_or_empty (py_or_str (sc_order_type cfg) (Some ''market''))) max_entry_retries w1 = (None, w2)"
    "sx_close env w2 high (ox_symbol opp) ''short''
      (snd (extract_fill short_order short_price (size_usd / short_price))) = (None, w3)"
  shows "open_legs env cfg opp high low size_usd short_price long_price s w = (s, w3)"
  using assms by (simp add: open_legs_def Let_def)

section \<open>Entries\<close>

definition open_rows :: "spread_state \<Rightarrow> spread_position list" where
  "open_rows s = filter (\<lambda>p. xp_status p = ''open'') (sr_rows s)"

lemma try_open_outcome:
  assumes "try_open_position env cfg db opp s w = (s', w')"
  shows "s' = s \<or> (\<exists>p. s' = s\<lparr>sr_rows := sr_rows s @ [p]\<rparr> \<and> \<not> entry_skipped cfg db (sx_clock env w) s opp
     \<and> xp_status p = ''open'' \<and> xp_symbol p = ox_symbol opp \<and> xp_entry_z p = ox_z opp \<and> min_notional_usd \<le> xp_size_usd p)"
proof -
  have legs: "fst (open_legs env cfg opp high low usd sp lp s w) = s \<or>
      (\<exists>p. fst (open_legs env cfg opp high low usd sp lp s w) = s\<lparr>sr_rows := sr_rows s @ [p]\<rparr>
        \<and> xp_status p = ''open'' \<and> xp_symbol p = ox_symbol opp \<and> xp_entry_z p = ox_z opp \<and> xp_size_usd p = usd)" for high low usd sp lp
    by (auto simp: open_legs_def Let_def new_position_def split: option.split prod.split)
  show ?thesis
  proof (cases "s' = s")
    case False
    with assms obtain high low usd sp lp where o1: "\<not> entry_skipped cfg db (sx_clock env w) s opp" "min_notional_usd \<le> usd"
      "open_legs env cfg opp high low usd sp lp s w = (s', w')"
      by (auto simp: try_open_position_def Let_def not_less split: option.splits if_splits)
    from legs[of high low usd sp lp] o1(3) False o1(1,2) show ?thesis by auto
  qed simp
qed

lemma open_rows_append: "open_rows (s\<lparr>sr_rows := sr_rows s @ [p]\<rparr>) = open_rows s @ (if xp_status p = ''open'' then [p] else [])"
  by (simp add: open_rows_def)

text \<open>The limits of the configuration: one open position per symbol, and the two caps.\<close>

definition funding_count :: "session \<Rightarrow> nat" where
  "funding_count db = length (filter (\<lambda>r. st_status r = Some ''active'') (tb_strategies (sql_view db)))"

definition within_caps :: "spread_cfg \<Rightarrow> session \<Rightarrow> nat \<Rightarrow> spread_state \<Rightarrow> bool" where
  "within_caps cfg db before s \<longleftrightarrow>
     length (open_rows s) \<le> before
     \<or> (int (length (open_rows s)) \<le> sc_max_spread cfg \<and> int (funding_count db + length (open_rows s)) \<le> sc_max_open cfg)"

definition entry_row_ok :: "spread_cfg \<Rightarrow> opportunity list \<Rightarrow> spread_position \<Rightarrow> bool" where
  "entry_row_ok cfg opps p \<longleftrightarrow>
     min_notional_usd \<le> xp_size_usd p
     \<and> (\<exists>opp \<in> set opps. xp_symbol p = ox_symbol opp \<and> xp_entry_z p = ox_z opp
          \<and> or_default (sc_entry_z cfg) (3 / 2) \<le> ox_z opp \<and> 0 < ox_net_pct opp)"

definition entries_ok :: "spread_cfg \<Rightarrow> session \<Rightarrow> opportunity list \<Rightarrow> spread_state \<Rightarrow> spread_state \<Rightarrow> bool" where
  "entries_ok cfg db opps s s' \<longleftrightarrow>
     (\<exists>new. sr_rows s' = sr_rows s @ new \<and> (\<forall>p \<in> set new. entry_row_ok cfg opps p))
     \<and> (distinct (map xp_symbol (open_rows s)) \<longrightarrow> distinct (map xp_symbol (open_rows s')))
     \<and> within_caps cfg db (length (open_rows s)) s'"

lemma entry_not_skipped:
  assumes "\<not> entry_skipped cfg db now s opp"
  shows "or_default (sc_entry_z cfg) (3 / 2) \<le> ox_z opp" "0 < ox_net_pct opp"
    "ox_symbol opp \<notin> xp_symbol ` set (open_rows s)" "\<not> at_cap cfg db s"
  using assms by (auto simp: entry_skipped_def Let_def open_rows_def not_less not_le)

lemma try_open_entries:
  assumes "try_open_position env cfg db opp s w = (s', w')" "opp \<in> set opps"
  shows "entries_ok cfg db opps s s'"
proof (cases "s' = s")
  case True
  then show ?thesis by (simp add: entries_ok_def within_caps_def)
next
  case False
  with try_open_outcome[OF assms(1)] obtain p where p: "s' = s\<lparr>sr_rows := sr_rows s @ [p]\<rparr>"
    "\<not> entry_skipped cfg db (sx_clock env w) s opp" "xp_status p = ''open''" "xp_symbol p = ox_symbol opp"
    "xp_entry_z p = ox_z opp" "min_notional_usd \<le> xp_size_usd p" by auto
  note o = entry_not_skipped[OF p(2)]
  have "entry_row_ok cfg opps p" using p o assms(2) by (auto simp: entry_row_ok_def)
  moreover have "open_rows s' = open_rows s @ [p]" using p(1,3) by (simp add: open_rows_append)
  moreover have "int (length (open_rows s)) < sc_max_spread cfg \<and> int (funding_count db + length (open_rows s)) < sc_max_open cfg"
    using o(4) by (auto simp: at_cap_def count_active_def open_rows_def funding_count_def)
  ultimately show ?thesis using p(1,4) o(3) by (auto simp: entries_ok_def within_caps_def)
qed

lemma entries_ok_trans:
  assumes "entries_ok cfg db opps s s1" "entries_ok cfg db opps s1 s2" shows "entries_ok cfg db opps s s2"
proof -
  obtain a where a: "sr_rows s1 = sr_rows s @ a" "\<forall>p \<in> set a. entry_row_ok cfg opps p"
    using assms(1) unfolding entries_ok_def by blast
  obtain b where b: "sr_rows s2 = sr_rows s1 @ b" "\<forall>p \<in> set b. entry_row_ok cfg opps p"
    using assms(2) unfolding entries_ok_def by blast
  have "sr_rows s2 = sr_rows s @ (a @ b)" "\<forall>p \<in> set (a @ b). entry_row_ok cfg opps p" using a b by auto
  moreover have "within_caps cfg db (length (open_rows s)) s2"
    using assms unfolding entries_ok_def within_caps_def by linarith
  moreover have "distinct (map xp_symbol (open_rows s)) \<longrightarrow> distinct (map xp_symbol (open_rows s2))"
    using assms unfolding entries_ok_def by blast
  ultimately show ?thesis unfolding entries_ok_def by blast
qed

lemma open_loop_entries:
  assumes "open_loop env db cfg todo s w = (s', w')" "set todo \<subseteq> set opps"
  shows "entries_ok cfg db opps s s'"
  using assms
proof (induction todo arbitrary: s w)
  case Nil
  then show ?case by (simp add: entries_ok_def within_caps_def)
next
  case (Cons opp todo)
  show ?case
  proof (cases "at_cap cfg db s")
    case True
    with Cons.prems show ?thesis by (simp add: entries_ok_def within_caps_def)
  next
    case False
    obtain s1 w1 where o1: "try_open_position env cfg db opp s w = (s1, w1)" by (metis surj_pair)
    have "entries_ok cfg db opps s s1" using try_open_entries[OF o1] Cons.prems(2) by simp
    moreover have "entries_ok cfg db opps s1 s'" using Cons.IH[of s1 w1] Cons.prems False o1 by simp
    ultimately show ?thesis by (rule entries_ok_trans)
  qed
qed

text \<open>
  C16: entries respect their limits. Whatever the exchanges answer, a trigger only appends positions:
  each is worth at least six dollars and belongs to an opportunity of the moment with the entry
  score and a positive net profit; a symbol that has an open position gets no second one; and the
  number of open positions stays within the spread cap and, with the funding strategies, within
  the shared cap, unless it was above before.
\<close>

theorem entries_respect_limits:
  assumes "trigger_spread_entries env db md (Some cfg) held s w = (s', w')"
  shows "(\<exists>new. sr_rows s' = sr_rows s @ new \<and> (\<forall>p \<in> set new. min_notional_usd \<le> xp_size_usd p
        \<and> (\<exists>opp \<in> set (current_opportunities env md cfg w). xp_symbol p = ox_symbol opp
             \<and> or_default (sc_entry_z cfg) (3 / 2) \<le> ox_z opp \<and> 0 < ox_net_pct opp)))
    \<and> (distinct (map xp_symbol (open_rows s)) \<longrightarrow> distinct (map xp_symbol (open_rows s')))
    \<and> (length (open_rows s') \<le> length (open_rows s)
       \<or> int (length (open_rows s')) \<le> sc_max_spread cfg \<and> int (funding_count db + length (open_rows s')) \<le> sc_max_open cfg)"
proof -
  have "entries_ok cfg db (current_opportunities env md cfg w) s s'"
  proof (cases "\<not> sc_enabled cfg \<or> held")
    case True
    with assms have "s' = s" by (auto simp: trigger_spread_entries_def)
    then show ?thesis by (simp add: entries_ok_def within_caps_def)
  next
    case False
    with assms have "open_loop env db cfg (current_opportunities env md cfg w) s w = (s', w')"
      by (simp add: trigger_spread_entries_def)
    then show ?thesis by (rule open_loop_entries) simp
  qed
  then show ?thesis unfolding entries_ok_def within_caps_def entry_row_ok_def by blast
qed

text \<open>
  Only open positions block an entry: in a sound table, positions in error or closing, whose legs
  may still be on the exchange, count neither for the caps nor as a position of the symbol.
\<close>

lemma stuck_legs_block_nothing:
  assumes "rows_ok s"
  shows "entry_skipped cfg db now s opp \<longleftrightarrow> entry_skipped cfg db now (s\<lparr>sr_rows := open_rows s\<rparr>) opp"
proof -
  have "\<not> sublist stop_loss_mark (xp_reason p)" if "p \<in> set (sr_rows s)" for p
    using assms that unfolding rows_ok_def row_ok_def unmarked_def by blast
  then have "\<not> in_cooldown now s a b c d" "\<not> in_cooldown now (s\<lparr>sr_rows := open_rows s\<rparr>) a b c d" for a b c d
    by (auto simp: in_cooldown_def open_rows_def)
  moreover have "at_cap cfg db (s\<lparr>sr_rows := open_rows s\<rparr>) = at_cap cfg db s"
    by (simp add: at_cap_def count_active_def open_rows_def)
  ultimately show ?thesis unfolding entry_skipped_def Let_def by (auto simp: open_rows_def)
qed

section \<open>Recovery\<close>

text \<open>An exchange that takes a close order and then shows the leg as closed.\<close>

definition closes_legs :: "'w spread_env \<Rightarrow> bool" where
  "closes_legs env \<longleftrightarrow>
     (\<forall>w ex symbol side amount. \<exists>ord w'. sx_close env w ex symbol side amount = (Some ord, w') \<and> verify_leg_closed env ex symbol side w')"

lemma closes_legs_at_once: "closes_legs env \<Longrightarrow> fst (close_leg_with_retry env ex symbol side amount (Suc n) w)"
proof -
  assume "closes_legs env"
  then obtain ord w' where "sx_close env w ex symbol side amount = (Some ord, w')" "verify_leg_closed env ex symbol side w'"
    unfolding closes_legs_def by blast
  then show ?thesis by simp
qed

text \<open>A stuck position with legs on known exchanges.\<close>

definition recoverable :: "session \<Rightarrow> spread_position \<Rightarrow> bool" where
  "recoverable db p \<longleftrightarrow>
     stuck p \<and> query_exchange (xp_high p) db \<noteq> None \<and> query_exchange (xp_low p) db \<noteq> None
     \<and> 0 < xp_short_size p \<and> 0 < xp_long_size p"

lemma recover_one_closes:
  assumes "closes_legs env" "recoverable db p" "p \<in> set (sr_rows s)" "sr_attempts s (xp_id p) + recover_cooldown \<le> sx_clock env w"
  shows "\<exists>q \<in> set (sr_rows (fst (recover_one env db p s w))). row_core q = row_core p \<and> xp_status q = ''closed''"
proof (cases "xp_short_closed p \<and> xp_long_closed p")
  case True
  have "mark_closed (sx_clock env w) p \<in> set (sr_rows (fst (recover_one env db p s w)))"
    using assms(3) True by (auto simp: recover_one_def set_row_def)
  then show ?thesis using True by (intro bexI) (auto simp: mark_closed_def row_core_def)
next
  case False
  have fl: "fst (recover_flag env (query_exchange i db) sy sd amt flag v)" if "query_exchange i db \<noteq> None" "0 < amt" for i sy sd amt flag v
    using that closes_legs_at_once[OF assms(1), where n = 2] by (auto simp: recover_flag_def close_retries_def eval_nat_numeral split: option.split)
  obtain short w1 where a: "recover_flag env (query_exchange (xp_high p) db) (xp_symbol p) ''short'' (xp_short_size p) (xp_short_closed p) w = (short, w1)"
    by (metis surj_pair)
  obtain long w2 where b: "recover_flag env (query_exchange (xp_low p) db) (xp_symbol p) ''long'' (xp_long_size p) (xp_long_closed p) w1 = (long, w2)"
    by (metis surj_pair)
  have sl: "short" "long" using fl assms(2) a b unfolding recoverable_def by (metis fst_conv)+
  have "mark_closed (sx_clock env w2) (p\<lparr>xp_short_closed := True, xp_long_closed := True\<rparr>) \<in> set (sr_rows (fst (recover_one env db p s w)))"
    using assms(3,4) False a b sl by (auto simp: recover_one_def Let_def set_row_def)
  then show ?thesis by (intro bexI) (auto simp: mark_closed_def row_core_def)
qed

lemma recover_one_elsewhere:
  "q \<in> set (sr_rows s) \<Longrightarrow> xp_id q \<noteq> xp_id p \<Longrightarrow> q \<in> set (sr_rows (fst (recover_one env db p s w)))"
  "i \<noteq> xp_id p \<Longrightarrow> sr_attempts (fst (recover_one env db p s w)) i = sr_attempts s i"
  by (force simp: recover_one_def Let_def split_beta set_row_def)+

lemma recover_all_elsewhere:
  "q \<in> set (sr_rows s) \<Longrightarrow> xp_id q \<notin> xp_id ` set ps \<Longrightarrow> q \<in> set (sr_rows (fst (recover_all env db ps s w)))"
proof (induction ps arbitrary: s w)
  case (Cons p ps)
  obtain s1 w1 where r: "recover_one env db p s w = (s1, w1)" by (metis surj_pair)
  have "q \<in> set (sr_rows s1)" using recover_one_elsewhere(1)[of q s p env db w] Cons.prems r by simp
  with Cons r show ?case by simp
qed simp

lemma recover_all_closes:
  assumes "closes_legs env" "recoverable db p" "distinct (map xp_id ps)" "p \<in> set ps" "p \<in> set (sr_rows s)"
    "\<And>w. sr_attempts s (xp_id p) + recover_cooldown \<le> sx_clock env w"
  shows "\<exists>q \<in> set (sr_rows (fst (recover_all env db ps s w))). row_core q = row_core p \<and> xp_status q = ''closed''"
  using assms(3-6)
proof (induction ps arbitrary: s w)
  case (Cons x ps)
  obtain s1 w1 where r: "recover_one env db x s w = (s1, w1)" by (metis surj_pair)
  show ?case
  proof (cases "p = x")
    case True
    obtain q where q: "q \<in> set (sr_rows s1)" "row_core q = row_core p" "xp_status q = ''closed''"
      using recover_one_closes[OF assms(1,2) Cons.prems(3,4), of w] r True by auto
    have "xp_id q = xp_id p" using q(2) by (simp add: row_core_def)
    then have "xp_id q \<notin> xp_id ` set ps" using Cons.prems(1) True by simp
    from recover_all_elsewhere[OF q(1) this, of env db w1] have "q \<in> set (sr_rows (fst (recover_all env db ps s1 w1)))" .
    with q(2,3) show ?thesis unfolding recover_all.simps r prod.case by blast
  next
    case False
    then have p: "p \<in> set ps" "xp_id p \<noteq> xp_id x" using Cons.prems(1,2) by (auto simp: image_iff)
    have "p \<in> set (sr_rows s1)" "sr_attempts s1 (xp_id p) = sr_attempts s (xp_id p)"
      using recover_one_elsewhere(1)[of p s x env db w] recover_one_elsewhere(2)[of "xp_id p" x env db s w] Cons.prems(3) p(2) r by auto
    with Cons.IH[of s1 w1] Cons.prems p(1) r show ?thesis by simp
  qed
qed simp

text \<open>
  Recovery ends a stuck close. When a position is in error or still closing, its exchanges are
  known, they carry out close orders, and the last attempt is five minutes old, then the next
  recovery books the position as closed.
\<close>

theorem recovery_closes_stuck_position:
  assumes "closes_legs env" "rows_ok s" "p \<in> set (sr_rows s)" "recoverable db p"
    "\<And>w. sr_attempts s (xp_id p) + recover_cooldown \<le> sx_clock env w"
  shows "\<exists>q \<in> set (sr_rows (fst (recover_half_closed_positions env db s w))). row_core q = row_core p \<and> xp_status q = ''closed''"
proof -
  have "distinct (map xp_id (filter (\<lambda>p. xp_status p \<in> {''error'', ''closing''}) (sr_rows s)))"
    using assms(2) by (auto simp: rows_ok_def distinct_map_filter)
  moreover have "p \<in> set (filter (\<lambda>p. xp_status p \<in> {''error'', ''closing''}) (sr_rows s))"
    using assms(3,4) by (auto simp: recoverable_def stuck_def)
  ultimately show ?thesis
    unfolding recover_half_closed_positions_def by (rule recover_all_closes[OF assms(1,4) _ _ assms(3,5)])
qed

theorem recovery_closes_stuck_position_witness:
  "\<exists>q \<in> set (sr_rows (fst (recover_half_closed_positions calm_env two_exchanges (sample_rows ''error'') ()))).
     row_core q = row_core (sample_row ''error'') \<and> xp_status q = ''closed''"
proof (rule recovery_closes_stuck_position)
  show "closes_legs calm_env" by (auto simp: closes_legs_def calm_env_def verify_leg_closed_def)
  show "recoverable two_exchanges (sample_row ''error'')"
    using two_exchanges_found by (auto simp: recoverable_def stuck_def sample_row_def)
qed (simp_all add: sample_rows_ok, simp_all add: sample_rows_def calm_env_def recover_cooldown_def)

section \<open>Without statistics\<close>

text \<open>
  The engine never enters on its own statistics: however often the background job has refreshed
  the cache of spread statistics, on whatever market data, a trigger finds no opportunity and
  changes nothing, because the refresh looks for exchange ids among the symbols of the cache.
\<close>

theorem spread_engine_idle_without_stats:
  assumes "sx_stats env w = fold (\<lambda>(stats, md). refresh_spread_stats stats md) runs (\<lambda>_. None)"
  shows "trigger_spread_entries env db md cfg held s w = (s, w)"
proof -
  have "current_opportunities env md c w = []" for c
    unfolding current_opportunities_def assms using spread_refresh_finds_nothing by blast
  then show ?thesis by (simp add: trigger_spread_entries_def split: option.split)
qed

theorem spread_engine_idle_without_stats_witness:
  "trigger_spread_entries calm_env two_exchanges two_prices None False (sample_rows ''open'') () = (sample_rows ''open'', ())"
  by (rule spread_engine_idle_without_stats[where runs = "[(\<lambda>_ _ _. Some flat_pair, two_prices)]"])
     (simp add: calm_env_def refresh_is_idle)

definition sample_spread_cfg :: spread_cfg where
  "sample_spread_cfg = \<lparr>sc_enabled = True, sc_hedge_mode = True, sc_entry_z = None, sc_exit_z = 1 / 2, sc_stop_z = None, sc_stop_delta = None,
     sc_tp_delta = None, sc_pct = 10, sc_max_spread = 3, sc_max_open = 5, sc_order_type = None, sc_pre_settle = 10,
     sc_min_volume = None, sc_cooldown = None\<rparr>"

text \<open>An environment that fills every order, with the statistics of one pair.\<close>

definition filling_env :: "unit spread_env" where
  "filling_env = calm_env\<lparr>sx_stats := (\<lambda>_ _. Some flat_pair), sx_balance := (\<lambda>_ _. Some (Some 100, None)),
     sx_place := (\<lambda>w _ _ _ _ _. (Some \<lparr>or_id = None, or_status = None, or_average = None, or_price = None, or_filled = None,
       or_amount = None\<rparr>, w))\<rparr>"

theorem entries_respect_limits_witness:
  "\<exists>s' w'. trigger_spread_entries filling_env two_exchanges two_prices (Some sample_spread_cfg) False (sample_rows ''open'') () = (s', w')
    \<and> (length (open_rows s') \<le> length (open_rows (sample_rows ''open'')) \<or> int (length (open_rows s')) \<le> 3)"
proof -
  obtain s' w' where t: "trigger_spread_entries filling_env two_exchanges two_prices (Some sample_spread_cfg) False (sample_rows ''open'') ()
      = (s', w')" by (metis surj_pair)
  from entries_respect_limits[OF t] t show ?thesis by (auto simp: sample_spread_cfg_def)
qed

end
