(* ===== verification/RiskManager.thy ===== *)
theory RiskManager
  imports Orchestrator
begin

text \<open>
  The risk manager (\<open>core/risk_manager.py\<close>): the profit of a strategy, the five kinds of rules,
  the emergency close and the periodic check. Orders, the clock, the funding rates and the alert
  e-mail belong to the world; numbers of a position or a rule are taken to be there, where the
  code would raise on a missing one. Texts are sequences of UTF-8 bytes.
\<close>

record risk_rule =
  rr_name :: string
  rr_type :: string
  rr_threshold :: real
  rr_action :: string
  rr_email :: bool
  rr_enabled :: bool

record 'w risk_env =
  ri_close_spot :: "'w \<Rightarrow> exchange_row \<Rightarrow> string option \<Rightarrow> fopt \<Rightarrow> order option \<times> 'w"
  ri_close :: "'w \<Rightarrow> exchange_row \<Rightarrow> string option \<Rightarrow> string option \<Rightarrow> fopt \<Rightarrow> order option \<times> 'w"
  ri_clock :: "'w \<Rightarrow> real"
  ri_rate :: "'w \<Rightarrow> int option \<Rightarrow> string option \<Rightarrow> fopt"
  ri_alert :: "'w \<Rightarrow> string \<Rightarrow> int \<Rightarrow> real \<Rightarrow> 'w"

section \<open>Measures of a strategy\<close>

definition risk_value :: "position_row \<Rightarrow> real" where
  "risk_value p = to_float (py_or_num (ps_current_price p) (ps_entry_price p)) 0 * to_float (ps_size p) 0"

definition entry_value :: "position_row \<Rightarrow> real" where
  "entry_value p = to_float (ps_entry_price p) 0 * to_float (ps_size p) 0"

definition calc_strategy_pnl_pct :: "session \<Rightarrow> int \<Rightarrow> real" where
  "calc_strategy_pnl_pct s sid =
     (let ps = open_positions_of sid s; entry = sum_list (map entry_value ps) in
      if ps = [] \<or> entry = 0 then 0 else sum_list (map (\<lambda>p. to_float (ps_unrealized p) 0) ps) / entry * 100)"

definition total_exposure :: "session \<Rightarrow> int \<Rightarrow> real" where
  "total_exposure s sid = sum_list (map risk_value (open_positions_of sid s))"

definition rule_triggered :: "'w risk_env \<Rightarrow> session \<Rightarrow> 'w \<Rightarrow> strategy_row \<Rightarrow> real \<Rightarrow> risk_rule \<Rightarrow> bool" where
  "rule_triggered env s w st pnl rule =
     (let sid = st_id st; t = rr_threshold rule in
      if rr_type rule = ''loss_pct'' then pnl \<le> - \<bar>t\<bar>
      else if rr_type rule = ''max_position_usd'' then \<exists>p \<in> set (open_positions_of sid s). risk_value p \<ge> t
      else if rr_type rule = ''max_exposure_usd'' then total_exposure s sid \<ge> t
      else if rr_type rule = ''min_rate_diff'' then
        (to_float (ri_rate env w (st_short_ex st) (st_symbol st)) 0
           - to_float (ri_rate env w (st_long_ex st) (st_symbol st)) 0) * 100 < t
      else if rr_type rule = ''max_leverage'' then
        to_float (st_initial_margin st) 0 > 0 \<and> total_exposure s sid / to_float (st_initial_margin st) 0 \<ge> t
      else False)"

section \<open>The emergency close\<close>

text \<open>The bytes of the two Chinese phrases in the reasons.\<close>

definition risk_phrase :: string where
  "risk_phrase = [CHR 0xE9, CHR 0xA3, CHR 0x8E, CHR 0xE6, CHR 0x8E, CHR 0xA7, CHR 0xE8, CHR 0xA7, CHR 0xA6, CHR 0xE5, CHR 0x8F, CHR 0x91]"

definition loss_phrase :: string where
  "loss_phrase = [CHR 0xE4, CHR 0xBA, CHR 0x8F, CHR 0xE6, CHR 0x8D, CHR 0x9F]"

definition risk_reason :: "risk_rule \<Rightarrow> string" where
  "risk_reason rule = risk_phrase @ '': '' @ rr_name rule"

definition emergency_log :: "int \<Rightarrow> string \<Rightarrow> exchange_row \<Rightarrow> position_row \<Rightarrow> trade_log" where
  "emergency_log sid reason e p =
     \<lparr>tl_strategy_id = sid, tl_position_id = Some (ps_id p), tl_action = ''emergency_close'', tl_exchange = ex_name e,
      tl_symbol = ps_symbol p, tl_side = (if ps_side p = Some ''long'' then ''sell'' else ''buy''),
      tl_price = ps_current_price p, tl_size = ps_size p, tl_reason = reason\<rparr>"

text \<open>One position: a missing exchange row is passed over.\<close>

definition close_one :: "'w risk_env \<Rightarrow> int \<Rightarrow> string \<Rightarrow> position_row \<Rightarrow> bool \<times> session \<times> 'w \<Rightarrow> bool \<times> session \<times> 'w" where
  "close_one env sid reason p x =
     (case x of (ok, s, w) \<Rightarrow>
        case (case ps_exchange_id p of None \<Rightarrow> None | Some i \<Rightarrow> query_exchange i s) of
          None \<Rightarrow> (ok, s, w)
        | Some e \<Rightarrow>
            let (result, w1) = (if ps_type p = Some ''spot'' then ri_close_spot env w e (ps_symbol p) (ps_size p)
                                else ri_close env w e (ps_symbol p) (ps_side p) (ps_size p));
                s1 = set_position (ps_id p)
                  (\<lambda>r. r\<lparr>ps_status := Some (if result \<noteq> None then ''closed'' else ''error''), ps_closed_at := Some (ri_clock env w1)\<rparr>) s
            in (ok \<and> result \<noteq> None, add_log (emergency_log sid reason e p) s1, w1))"

definition close_strategy_now ::
    "'w risk_env \<Rightarrow> strategy_row \<Rightarrow> risk_rule \<Rightarrow> real \<Rightarrow> session \<Rightarrow> 'w \<Rightarrow> session \<times> 'w" where
  "close_strategy_now env st rule pnl s w =
     (let sid = st_id st;
          s1 = db_commit (set_strategy sid (\<lambda>r. r\<lparr>st_status := Some ''closing''\<rparr>) s);
          reason = risk_reason rule @ '' | '' @ loss_phrase @ '' '' @ fixed_text 2 pnl @ ''%'';
          (ok, s2, w2) = fold (close_one env sid reason) (open_positions_of sid s1) (True, s1, w);
          s3 = db_commit (set_strategy sid (\<lambda>r. r\<lparr>st_status := Some (if ok then ''closed'' else ''error''),
                 st_close_reason := risk_reason rule, st_closed_at := Some (ri_clock env w2)\<rparr>) s2)
      in (s3, if rr_email rule then ri_alert env w2 (rr_name rule) sid pnl else w2))"

section \<open>The check\<close>

fun apply_rules :: "'w risk_env \<Rightarrow> strategy_row \<Rightarrow> real \<Rightarrow> risk_rule list \<Rightarrow> session \<Rightarrow> 'w \<Rightarrow> session \<times> 'w" where
  "apply_rules env st pnl [] s w = (s, w)"
| "apply_rules env st pnl (rule # rules) s w =
     (if \<not> rule_triggered env s w st pnl rule then apply_rules env st pnl rules s w
      else if rr_action rule = ''close_position'' then close_strategy_now env st rule pnl s w
      else if rr_action rule = ''alert_only'' \<and> rr_email rule
      then apply_rules env st pnl rules s (ri_alert env w (rr_name rule) (st_id st) pnl)
      else apply_rules env st pnl rules s w)"

fun check_strategies :: "'w risk_env \<Rightarrow> risk_rule list \<Rightarrow> strategy_row list \<Rightarrow> session \<Rightarrow> 'w \<Rightarrow> session \<times> 'w" where
  "check_strategies env rules [] s w = (s, w)"
| "check_strategies env rules (st # sts) s w =
     (case apply_rules env st (calc_strategy_pnl_pct s (st_id st)) rules s w of
        (s1, w1) \<Rightarrow> check_strategies env rules sts s1 w1)"

definition active_strategies :: "session \<Rightarrow> strategy_row list" where
  "active_strategies s = map (obj_strategy s) (filter (\<lambda>r. st_status r = Some ''active'') (tb_strategies (sql_view s)))"

definition run_risk_checks :: "'w risk_env \<Rightarrow> risk_rule list \<Rightarrow> session \<Rightarrow> 'w \<Rightarrow> session \<times> 'w" where
  "run_risk_checks env rules s w =
     (let enabled = filter rr_enabled rules in
      if enabled = [] then (s, w) else check_strategies env enabled (active_strategies s) s w)"

section \<open>What a close leaves alone\<close>

text \<open>Two sessions agree on the strategies of the ids in a set: their rows and their positions.\<close>

definition agree_on :: "int set \<Rightarrow> session \<Rightarrow> session \<Rightarrow> bool" where
  "agree_on ids s s' \<longleftrightarrow>
     filter (\<lambda>r. st_id r \<in> ids) (tb_strategies (se_obj s')) = filter (\<lambda>r. st_id r \<in> ids) (tb_strategies (se_obj s))
     \<and> filter (\<lambda>p. ps_strategy_id p \<in> Some ` ids) (tb_positions (se_obj s')) = filter (\<lambda>p. ps_strategy_id p \<in> Some ` ids) (tb_positions (se_obj s))
     \<and> map st_id (tb_strategies (se_obj s')) = map st_id (tb_strategies (se_obj s))
     \<and> map ps_id (tb_positions (se_obj s')) = map ps_id (tb_positions (se_obj s))
     \<and> map ps_strategy_id (tb_positions (se_obj s')) = map ps_strategy_id (tb_positions (se_obj s))
     \<and> se_exchanges s' = se_exchanges s"

lemma agree_refl [simp]: "agree_on ids s s"
  by (simp add: agree_on_def)

lemma agree_trans: "agree_on ids s s' \<Longrightarrow> agree_on ids s' s'' \<Longrightarrow> agree_on ids s s''"
  by (simp add: agree_on_def)

lemma filter_map_other:
  "(\<And>x. P (f x) = P x) \<Longrightarrow> (\<And>x. x \<in> set xs \<Longrightarrow> P x \<Longrightarrow> f x = x) \<Longrightarrow> filter P (map f xs) = filter P xs"
  by (induction xs) auto

lemma agree_set_strategy:
  assumes "sid \<notin> ids" "\<And>r. st_id (f r) = st_id r" shows "agree_on ids s (set_strategy sid f s)"
proof -
  have "filter (\<lambda>r. st_id r \<in> ids) (map (\<lambda>r. if st_id r = sid then f r else r) xs) = filter (\<lambda>r. st_id r \<in> ids) xs" for xs
    by (rule filter_map_other) (use assms in auto)
  then show ?thesis using assms(2) by (simp add: agree_on_def set_strategy_def comp_def if_distrib cong: if_cong)
qed

lemma agree_set_position:
  assumes "\<And>p. p \<in> set (tb_positions (se_obj s)) \<Longrightarrow> ps_id p = pid \<Longrightarrow> ps_strategy_id p \<notin> Some ` ids"
    "\<And>p. ps_id (f p) = ps_id p \<and> ps_strategy_id (f p) = ps_strategy_id p"
  shows "agree_on ids s (set_position pid f s)"
proof -
  have "filter (\<lambda>p. ps_strategy_id p \<in> Some ` ids) (map (\<lambda>p. if ps_id p = pid then f p else p) (tb_positions (se_obj s)))
      = filter (\<lambda>p. ps_strategy_id p \<in> Some ` ids) (tb_positions (se_obj s))"
    by (rule filter_map_other) (use assms in auto)
  then show ?thesis using assms(2) by (simp add: agree_on_def set_position_def comp_def if_distrib cong: if_cong)
qed

lemma agree_commit [simp]: "agree_on ids s (db_commit s') = agree_on ids s s'" "agree_on ids s (add_log l s') = agree_on ids s s'"
  by (simp_all add: agree_on_def session_simps)

text \<open>All rows with an id belong to one strategy; a close of another strategy keeps that.\<close>

definition owned :: "int \<Rightarrow> session \<Rightarrow> int \<Rightarrow> bool" where
  "owned sid s pid \<longleftrightarrow> (\<forall>q \<in> set (tb_positions (se_obj s)). ps_id q = pid \<longrightarrow> ps_strategy_id q = Some sid)"

lemma owned_agree: assumes "agree_on ids s s'" shows "owned sid s' pid = owned sid s pid"
proof -
  have z: "(\<lambda>q. (ps_id q, ps_strategy_id q)) ` set xs = set (zip (map ps_id xs) (map ps_strategy_id xs))" for xs
    by (induction xs) auto
  have "(\<lambda>q. (ps_id q, ps_strategy_id q)) ` set (tb_positions (se_obj s')) = (\<lambda>q. (ps_id q, ps_strategy_id q)) ` set (tb_positions (se_obj s))"
    using assms unfolding z agree_on_def by simp
  then have "(\<forall>x \<in> (\<lambda>q. (ps_id q, ps_strategy_id q)) ` set (tb_positions (se_obj s')). fst x = pid \<longrightarrow> snd x = Some sid)
      = (\<forall>x \<in> (\<lambda>q. (ps_id q, ps_strategy_id q)) ` set (tb_positions (se_obj s)). fst x = pid \<longrightarrow> snd x = Some sid)" by simp
  then show ?thesis by (simp add: owned_def)
qed

lemma ids_ok_agree: "agree_on ids s s' \<Longrightarrow> ids_ok (se_obj s') = ids_ok (se_obj s)"
  by (simp add: agree_on_def ids_ok_def)

lemma close_one_agree:
  assumes "close_one env sid reason p (ok, s, w) = (ok', s', w')" "owned sid s (ps_id p)"
  shows "agree_on (- {sid}) s s'"
proof -
  have "agree_on (- {sid}) s (set_position (ps_id p) (\<lambda>r. r\<lparr>ps_status := st, ps_closed_at := t\<rparr>) s)" for st t
    by (rule agree_set_position) (use assms(2) in \<open>auto simp: owned_def\<close>)
  with assms(1) show ?thesis by (auto simp: close_one_def Let_def split: option.splits prod.splits)
qed

lemma close_fold_agree:
  assumes "fold (close_one env sid reason) ps (ok, s, w) = (ok', s', w')" "\<And>p. p \<in> set ps \<Longrightarrow> owned sid s (ps_id p)"
  shows "agree_on (- {sid}) s s'"
  using assms
proof (induction ps arbitrary: ok s w)
  case (Cons p ps)
  obtain ok1 s1 w1 where c: "close_one env sid reason p (ok, s, w) = (ok1, s1, w1)" by (metis prod_cases3)
  have a: "agree_on (- {sid}) s s1" using close_one_agree[OF c] Cons.prems(2) by simp
  have "agree_on (- {sid}) s1 s'"
    by (rule Cons.IH) (use Cons.prems c owned_agree[OF a] in auto)
  with a show ?case by (rule agree_trans)
qed simp

lemma open_positions_clean: "clean s \<Longrightarrow> ids_ok (se_obj s) \<Longrightarrow> open_positions_of sid s = filter (is_open_of sid) (tb_positions (se_obj s))"
  unfolding open_positions_of_def by (rule query_positions_flushed) (simp_all add: clean_def sql_view_def)

lemma close_strategy_now_frame:
  assumes "close_strategy_now env st rule pnl s w = (s', w')" "clean s" "ids_ok (se_obj s)"
  shows "agree_on (- {st_id st}) s s'" "clean s'"
    "r \<in> set (tb_strategies (se_obj s')) \<Longrightarrow> st_id r = st_id st \<Longrightarrow> st_status r \<in> {Some ''closed'', Some ''error''}"
proof -
  let ?sid = "st_id st"
  let ?s1 = "db_commit (set_strategy ?sid (\<lambda>r. r\<lparr>st_status := Some ''closing''\<rparr>) s)"
  define reason where "reason = risk_reason rule @ '' | '' @ loss_phrase @ '' '' @ fixed_text 2 pnl @ ''%''"
  obtain ok s2 w2 where f: "fold (close_one env ?sid reason) (open_positions_of ?sid ?s1) (True, ?s1, w) = (ok, s2, w2)"
    by (metis prod_cases3)
  let ?s3 = "set_strategy ?sid (\<lambda>r. r\<lparr>st_status := Some (if ok then ''closed'' else ''error''),
                 st_close_reason := risk_reason rule, st_closed_at := Some (ri_clock env w2)\<rparr>) s2"
  have s': "s' = db_commit ?s3" using assms(1) f unfolding close_strategy_now_def by (auto simp: Let_def reason_def)
  have a1: "agree_on (- {?sid}) s ?s1" by (simp add: agree_set_strategy)
  have "owned ?sid ?s1 (ps_id p)" if "p \<in> set (open_positions_of ?sid ?s1)" for p
  proof -
    have ids: "ids_ok (se_obj ?s1)" using ids_ok_agree[OF a1] assms(3) by simp
    have "p \<in> set (tb_positions (se_obj ?s1))" "ps_strategy_id p = Some ?sid"
      using that open_positions_clean[OF _ ids, of ?sid] by (auto simp: is_open_of_def)
    with ids show ?thesis by (auto simp: owned_def ids_ok_def distinct_map dest: inj_onD)
  qed
  from close_fold_agree[OF f this] have a2: "agree_on (- {?sid}) ?s1 s2" by simp
  have a3: "agree_on (- {?sid}) s2 ?s3" by (rule agree_set_strategy) auto
  from agree_trans[OF agree_trans[OF a1 a2] a3] show "agree_on (- {?sid}) s s'" unfolding s' by simp
  show "clean s'" by (simp add: s')
  show "st_status r \<in> {Some ''closed'', Some ''error''}" if "r \<in> set (tb_strategies (se_obj s'))" "st_id r = ?sid"
    using that unfolding s' by (cases ok) (auto simp: session_simps set_strategy_def split: if_splits)
qed

text \<open>The rules of one strategy either close it or change nothing in the tables.\<close>

lemma apply_rules_frame:
  assumes "apply_rules env st pnl rules s w = (s', w')" "clean s" "ids_ok (se_obj s)"
  shows "agree_on (- {st_id st}) s s' \<and> clean s'"
  using assms
proof (induction rules arbitrary: w)
  case (Cons rule rules)
  then show ?case by (auto split: if_splits dest: close_strategy_now_frame(1,2))
qed simp

lemma apply_rules_closed:
  assumes "apply_rules env st pnl rules s w = (s', w')" "clean s" "ids_ok (se_obj s)"
    "rule \<in> set rules" "rr_action rule = ''close_position''" "\<And>w. rule_triggered env s w st pnl rule"
  shows "\<forall>r \<in> set (tb_strategies (se_obj s')). st_id r = st_id st \<longrightarrow> st_status r \<in> {Some ''closed'', Some ''error''}"
  using assms
proof (induction rules arbitrary: w)
  case (Cons x rules)
  show ?case
  proof (cases "rule_triggered env s w st pnl x \<and> rr_action x = ''close_position''")
    case True
    with Cons.prems(1) have "close_strategy_now env st x pnl s w = (s', w')" by simp
    from close_strategy_now_frame(3)[OF this Cons.prems(2,3)] show ?thesis by blast
  next
    case False
    with Cons.prems have "rule \<in> set rules" by auto
    with Cons False show ?thesis by (auto split: if_splits)
  qed
qed simp

section \<open>The whole check\<close>

lemma agree_subset: "agree_on ids s s' \<Longrightarrow> ids' \<subseteq> ids \<Longrightarrow> agree_on ids' s s'"
proof -
  assume a: "agree_on ids s s'" and sub: "ids' \<subseteq> ids"
  have f: "filter (\<lambda>x. k x \<in> A') xs = filter (\<lambda>x. k x \<in> A') (filter (\<lambda>x. k x \<in> A) xs)" if "A' \<subseteq> A" for k A A' and xs :: "'x list"
    using that by (induction xs) auto
  show "agree_on ids' s s'"
    using a f[OF sub, of st_id] f[of "Some ` ids'" "Some ` ids" ps_strategy_id] sub unfolding agree_on_def by (metis image_mono)
qed

text \<open>What the rules read of a strategy is its row and its open positions.\<close>

lemma agree_open_positions:
  assumes "agree_on {sid} s s'" "clean s" "clean s'" "ids_ok (se_obj s)"
  shows "open_positions_of sid s' = open_positions_of sid s"
proof -
  have f: "filter (is_open_of sid) xs = filter (is_open_of sid) (filter (\<lambda>p. ps_strategy_id p \<in> Some ` {sid}) xs)" for xs
    by (induction xs) (auto simp: is_open_of_def)
  have "filter (is_open_of sid) (tb_positions (se_obj s')) = filter (is_open_of sid) (tb_positions (se_obj s))"
    using assms(1) unfolding agree_on_def by (metis f)
  moreover have "ids_ok (se_obj s')" using assms(1,4) ids_ok_agree by blast
  ultimately show ?thesis using assms(2-4) by (simp add: open_positions_clean)
qed

lemma agree_triggered:
  assumes "agree_on {st_id st} s s'" "clean s" "clean s'" "ids_ok (se_obj s)"
  shows "calc_strategy_pnl_pct s' (st_id st) = calc_strategy_pnl_pct s (st_id st)"
    "rule_triggered env s' w st pnl rule = rule_triggered env s w st pnl rule"
  using agree_open_positions[OF assms] by (simp_all add: calc_strategy_pnl_pct_def rule_triggered_def total_exposure_def)

lemma agree_rows:
  "agree_on {sid} s s' \<Longrightarrow> r \<in> set (tb_strategies (se_obj s')) \<Longrightarrow> st_id r = sid \<Longrightarrow> r \<in> set (tb_strategies (se_obj s))"
proof -
  assume a: "agree_on {sid} s s'" and r: "r \<in> set (tb_strategies (se_obj s'))" "st_id r = sid"
  have "r \<in> set (filter (\<lambda>r. st_id r \<in> {sid}) (tb_strategies (se_obj s')))" using r by simp
  with a show ?thesis unfolding agree_on_def by (metis filter_is_subset subsetD)
qed

lemma check_strategies_frame:
  assumes "check_strategies env rules sts s w = (s', w')" "clean s" "ids_ok (se_obj s)"
  shows "agree_on (- st_id ` set sts) s s' \<and> clean s'"
  using assms
proof (induction sts arbitrary: s w)
  case (Cons st sts)
  obtain s1 w1 where o1: "apply_rules env st (calc_strategy_pnl_pct s (st_id st)) rules s w = (s1, w1)" by (metis surj_pair)
  from apply_rules_frame[OF o1 Cons.prems(2,3)] have a: "agree_on (- {st_id st}) s s1" "clean s1" by auto
  have "check_strategies env rules sts s1 w1 = (s', w')" using Cons.prems(1) o1 by simp
  from Cons.IH[OF this a(2)] ids_ok_agree[OF a(1)] Cons.prems(3) have b: "agree_on (- st_id ` set sts) s1 s'" "clean s'" by auto
  have "agree_on (- st_id ` set (st # sts)) s s1" by (rule agree_subset[OF a(1)]) auto
  moreover have "agree_on (- st_id ` set (st # sts)) s1 s'" by (rule agree_subset[OF b(1)]) auto
  ultimately show ?case using b(2) by (blast intro: agree_trans)
qed simp

lemma check_strategies_closed:
  assumes "check_strategies env rules sts s w = (s', w')" "clean s" "ids_ok (se_obj s)" "distinct (map st_id sts)" "st \<in> set sts"
    "rule \<in> set rules" "rr_action rule = ''close_position''"
    "\<And>w. rule_triggered env s w st (calc_strategy_pnl_pct s (st_id st)) rule"
  shows "\<forall>r \<in> set (tb_strategies (se_obj s')). st_id r = st_id st \<longrightarrow> st_status r \<in> {Some ''closed'', Some ''error''}"
  using assms
proof (induction sts arbitrary: s w)
  case (Cons x sts)
  obtain s1 w1 where o1: "apply_rules env x (calc_strategy_pnl_pct s (st_id x)) rules s w = (s1, w1)" by (metis surj_pair)
  from apply_rules_frame[OF o1 Cons.prems(2,3)] have a: "agree_on (- {st_id x}) s s1" "clean s1" by auto
  have ids1: "ids_ok (se_obj s1)" using ids_ok_agree[OF a(1)] Cons.prems(3) by simp
  have rest: "check_strategies env rules sts s1 w1 = (s', w')" using Cons.prems(1) o1 by simp
  show ?case
  proof (cases "st = x")
    case True
    have now: "\<forall>r \<in> set (tb_strategies (se_obj s1)). st_id r = st_id st \<longrightarrow> st_status r \<in> {Some ''closed'', Some ''error''}"
      using apply_rules_closed[OF o1 Cons.prems(2,3,6,7)] Cons.prems(8) unfolding True by blast
    have "agree_on {st_id st} s1 s'"
      using check_strategies_frame[OF rest a(2) ids1] Cons.prems(4) True by (auto intro: agree_subset)
    with now show ?thesis using agree_rows by blast
  next
    case False
    then have st: "st \<in> set sts" "st_id st \<noteq> st_id x" using Cons.prems(4,5) by (auto simp: image_iff)
    have ag: "agree_on {st_id st} s s1" using a(1) st(2) by (auto intro: agree_subset)
    have "rule_triggered env s1 w st (calc_strategy_pnl_pct s1 (st_id st)) rule" for w
      unfolding agree_triggered[OF ag Cons.prems(2) a(2) Cons.prems(3)] by (rule Cons.prems(8))
    from Cons.IH[OF rest a(2) ids1 _ st(1) Cons.prems(6,7) this] Cons.prems(4) show ?thesis by simp
  qed
qed simp

lemma active_strategies_clean:
  "clean s \<Longrightarrow> ids_ok (se_obj s) \<Longrightarrow> active_strategies s = filter (\<lambda>r. st_status r = Some ''active'') (tb_strategies (se_obj s))"
  unfolding active_strategies_def
  by (auto simp: clean_def sql_view_def ids_ok_def obj_strategy_def first_where_id intro!: map_idI)


definition loss_rule :: risk_rule where
  "loss_rule = \<lparr>rr_name = ''max loss'', rr_type = ''loss_pct'', rr_threshold = 5, rr_action = ''close_position'', rr_email = False,
     rr_enabled = True\<rparr>"

definition losing_tables :: tables where
  "losing_tables = sample_tables\<lparr>tb_positions := map (\<lambda>p. p\<lparr>ps_unrealized := Some (- 1000)\<rparr>) (tb_positions sample_tables)\<rparr>"

definition refusing_env :: "unit risk_env" where
  "refusing_env = \<lparr>ri_close_spot = (\<lambda>w _ _ _. (None, w)), ri_close = (\<lambda>w _ _ _ _. (None, w)), ri_clock = (\<lambda>_. 0),
     ri_rate = (\<lambda>_ _ _. None), ri_alert = (\<lambda>w _ _ _. w)\<rparr>"

lemma losing_session:
  defines "s \<equiv> open_session session_local_autoflush sample_exchanges losing_tables"
  shows "clean s" "ids_ok (se_obj s)" "tb_strategies (se_obj s) = tb_strategies sample_tables"
    "calc_strategy_pnl_pct s 7 \<le> - 5"
proof -
  show c: "clean s" and i: "ids_ok (se_obj s)" and "tb_strategies (se_obj s) = tb_strategies sample_tables"
    by (simp_all add: s_def clean_def open_session_def ids_ok_def losing_tables_def sample_tables_def)
  have "open_positions_of 7 s = filter (is_open_of 7) (tb_positions losing_tables)"
    using open_positions_clean[OF c i] by (simp add: s_def open_session_def)
  then show "calc_strategy_pnl_pct s 7 \<le> - 5"
    by (simp add: calc_strategy_pnl_pct_def losing_tables_def sample_tables_def is_open_of_def entry_value_def Let_def to_float_def)
qed


text \<open>
  A position whose exchange row is missing stays open while its strategy is booked as closed.
\<close>

lemma orphan_position_left_open:
  assumes "clean s" "ids_ok (se_obj s)"
    "\<And>p. p \<in> set (open_positions_of (st_id st) s) \<Longrightarrow> (case ps_exchange_id p of None \<Rightarrow> None | Some i \<Rightarrow> query_exchange i s) = None"
    "close_strategy_now env st rule pnl s w = (s', w')"
  shows "tb_positions (se_obj s') = tb_positions (se_obj s)
    \<and> (\<forall>r \<in> set (tb_strategies (se_obj s')). st_id r = st_id st \<longrightarrow> st_status r = Some ''closed'')"
proof -
  let ?s1 = "db_commit (set_strategy (st_id st) (\<lambda>r. r\<lparr>st_status := Some ''closing''\<rparr>) s)"
  have q: "query_exchange i ?s1 = query_exchange i s" for i by (simp add: query_exchange_def session_simps)
  have "ids_ok (se_obj ?s1)" using ids_ok_agree[OF agree_set_strategy[of "st_id st" "{}"], of "\<lambda>r. r\<lparr>st_status := Some ''closing''\<rparr>" s] assms(2)
    by (simp add: session_simps)
  then have ps: "open_positions_of (st_id st) ?s1 = open_positions_of (st_id st) s"
    using assms(1,2) by (simp add: open_positions_clean session_simps)
  have "fold (close_one env (st_id st) reason) ps (True, ?s1, v) = (True, ?s1, v)"
    if "\<And>p. p \<in> set ps \<Longrightarrow> (case ps_exchange_id p of None \<Rightarrow> None | Some i \<Rightarrow> query_exchange i s) = None" for reason ps v
    using that
  proof (induction ps)
    case (Cons p ps)
    have "close_one env (st_id st) reason p (True, ?s1, v) = (True, ?s1, v)"
      using Cons.prems[of p] unfolding close_one_def prod.case q by simp
    with Cons show ?case by simp
  qed simp
  from this[of "open_positions_of (st_id st) s", OF assms(3)]
  have "s' = db_commit (set_strategy (st_id st) (\<lambda>r. r\<lparr>st_status := Some ''closed'',
      st_close_reason := risk_reason rule, st_closed_at := Some (ri_clock env w)\<rparr>) ?s1)"
    using assms(4) unfolding close_strategy_now_def Let_def ps by simp
  then show ?thesis by (auto simp: session_simps) (auto simp: set_strategy_def session_simps split: if_splits)
qed

text \<open>
  A failed emergency close is not repeated: the check leaves a strategy that is not active, and
  its positions, as they are.
\<close>

lemma failed_close_is_not_retried:
  assumes "run_risk_checks env rules s w = (s', w')" "clean s" "ids_ok (se_obj s)"
    "st \<in> set (tb_strategies (se_obj s))" "st_status st \<noteq> Some ''active''"
  shows "agree_on {st_id st} s s'"
proof (cases "filter rr_enabled rules = []")
  case True
  with assms(1) show ?thesis by (simp add: run_risk_checks_def)
next
  case False
  have act: "active_strategies s = filter (\<lambda>r. st_status r = Some ''active'') (tb_strategies (se_obj s))"
    by (rule active_strategies_clean[OF assms(2,3)])
  have c: "check_strategies env (filter rr_enabled rules) (active_strategies s) s w = (s', w')"
    using assms(1) False by (simp add: run_risk_checks_def Let_def)
  have "st_id st \<notin> st_id ` set (active_strategies s)"
    using assms(3-5) by (auto simp: act ids_ok_def distinct_map dest: inj_onD)
  then show ?thesis using check_strategies_frame[OF c assms(2,3)] by (auto intro: agree_subset)
qed

end
