(* ===== verification/Reconciler.thy ===== *)
theory Reconciler
  imports SpotHedge "HOL-Library.AList" "HOL-Library.Product_Lexorder"
begin

text \<open>
  The reconciliation of the database with the exchanges (\<open>core/spot_basis_reconciler\<close>:
  \<open>common.py\<close>, \<open>sync_ops.py\<close>, \<open>runner.py\<close>): strategies without open legs are closed, short
  perpetual positions and spot balances that no strategy accounts for are matched and booked as
  recovered strategies. Answers of the exchanges, the clock and failing commits belong to the
  world; an answer that is missing also stands for a request that raised. The lock of a run is
  not modelled: a run is one step.
\<close>

record exchange_position =
  xp_symbol :: "string option"
  xp_side :: "string option"
  xp_contracts :: fopt
  xp_size :: fopt
  xp_amount :: fopt
  xp_notional :: fopt
  xp_mark :: fopt
  xp_last :: fopt
  xp_entry :: fopt
  xp_entry_alt :: fopt
  xp_info_entry :: fopt
  xp_info_avg_entry :: fopt

record price_ticker =
  pt_last :: fopt
  pt_close :: fopt
  pt_bid :: fopt
  pt_ask :: fopt

text \<open>A balance: the table \<open>total\<close>, if it is one, and the entries of the assets.\<close>

record spot_balance =
  ba_total :: "(string \<times> fopt) list option"
  ba_assets :: "(string \<times> fopt \<times> fopt) list"

text \<open>The positions of an exchange with the contract sizes of its markets.\<close>

record 'w recon_env =
  rc_active :: "exchange_row \<Rightarrow> bool"
  rc_positions :: "'w \<Rightarrow> exchange_row \<Rightarrow> (exchange_position list \<times> (string \<Rightarrow> fopt)) option \<times> 'w"
  rc_ticker :: "'w \<Rightarrow> exchange_row \<Rightarrow> string \<Rightarrow> price_ticker option \<times> 'w"
  rc_spot_ticker :: "'w \<Rightarrow> exchange_row \<Rightarrow> string \<Rightarrow> price_ticker option \<times> 'w"
  rc_balance :: "'w \<Rightarrow> exchange_row \<Rightarrow> spot_balance option \<times> 'w"
  rc_commit_fails :: "'w \<Rightarrow> string option \<times> 'w"
  rc_clock :: "'w \<Rightarrow> real"

section \<open>Helpers\<close>

definition recon_interval :: real where "recon_interval = 20"
definition min_recover_notional :: real where "min_recover_notional = 8"
definition min_recover_base :: real where "min_recover_base = 1 / 10 ^ 9"
definition size_ratio_min :: real where "size_ratio_min = 60 / 100"
definition size_ratio_max :: real where "size_ratio_max = 140 / 100"
definition entry_sync_rel_diff :: real where "entry_sync_rel_diff = 3 / 1000"

definition stable_assets :: "string list" where
  "stable_assets = [''USDT'', ''USDC'', ''BUSD'', ''FDUSD'', ''TUSD'', ''USDE'', ''USD'', ''DAI'']"

definition extract_base_asset :: "string \<Rightarrow> string" where
  "extract_base_asset name =
     (if CHR ''/'' \<in> set name then py_upper (split_head (CHR ''/'') name)
      else if CHR '':'' \<in> set name then py_upper (split_head (CHR '':'') name)
      else py_upper name)"

definition reserved_keys :: "string list" where
  "reserved_keys = [''info'', ''free'', ''used'', ''total'', ''debt'']"

definition put_total :: "(string \<times> real) list \<Rightarrow> string \<times> fopt \<Rightarrow> (string \<times> real) list" where
  "put_total out e =
     (let q = pos_part (to_float (snd e) 0) in if q > 0 then AList.update (py_upper (fst e)) q out else out)"

definition put_asset :: "(string \<times> real) list \<Rightarrow> string \<times> fopt \<times> fopt \<Rightarrow> (string \<times> real) list" where
  "put_asset out e =
     (case e of (asset, total_qty, free_qty) \<Rightarrow>
        if asset \<in> set reserved_keys then out
        else let q = pos_part (to_float total_qty (to_float free_qty 0)) in
             if q > 0 \<and> map_of out (py_upper asset) = None then AList.update (py_upper asset) q out else out)"

definition extract_balance_totals :: "spot_balance \<Rightarrow> (string \<times> real) list" where
  "extract_balance_totals b =
     foldl put_asset (foldl put_total [] (case ba_total b of None \<Rightarrow> [] | Some t \<Rightarrow> t)) (ba_assets b)"

definition rel_diff :: "fopt \<Rightarrow> real \<Rightarrow> real" where
  "rel_diff a b =
     (let aa = pos_part (to_float a 0); bb = pos_part b in if aa \<le> 0 \<or> bb \<le> 0 then 1 else \<bar>aa - bb\<bar> / bb)"

text \<open>\<open>tk.get("last") or tk.get("close") or tk.get("bid") or tk.get("ask")\<close>.\<close>

definition pt_price :: "price_ticker \<Rightarrow> real" where
  "pt_price t = to_float (py_or_num (pt_last t) (py_or_num (pt_close t) (py_or_num (pt_bid t) (pt_ask t)))) 0"

type_synonym leg_key = "int \<times> string"

definition spot_asset_usdt_price ::
    "'w recon_env \<Rightarrow> exchange_row \<Rightarrow> string \<Rightarrow> (leg_key \<times> real) list \<Rightarrow> 'w \<Rightarrow> real \<times> (leg_key \<times> real) list \<times> 'w" where
  "spot_asset_usdt_price env ex asset cache w =
     (let token = py_strip (py_upper asset); k = (ex_id ex, token) in
      if token = [] then (0, cache, w)
      else if token \<in> set stable_assets then (1, cache, w)
      else case map_of cache k of
        Some p \<Rightarrow> (p, cache, w)
      | None \<Rightarrow>
          let (t1, w1) = rc_spot_ticker env w ex (token @ ''/USDT'');
              p1 = (case t1 of None \<Rightarrow> 0 | Some t \<Rightarrow> pt_price t);
              (p, w2) = (if p1 \<le> 0 then
                           (case rc_ticker env w1 ex (token @ ''/USDT:USDT'') of
                              (t2, w2) \<Rightarrow> (case t2 of None \<Rightarrow> p1 | Some t \<Rightarrow> pt_price t, w2))
                         else (p1, w1))
          in (pos_part p, if p > 0 then AList.update k p cache else cache, w2))"

section \<open>Live perpetual shorts\<close>

record live_perp =
  lp_exchange_id :: int
  lp_exchange_name :: string
  lp_symbol :: string
  lp_base_asset :: string
  lp_base_size :: real
  lp_notional :: real
  lp_mark :: real
  lp_entry :: real

definition abs_float :: "fopt \<Rightarrow> real" where
  "abs_float v = \<bar>to_float v 0\<bar>"

text \<open>The size of a position in units of the base asset.\<close>

definition live_base :: "exchange_position \<Rightarrow> fopt \<Rightarrow> real" where
  "live_base p contract_size =
     (let contracts = abs_float (xp_contracts p); base = max (abs_float (xp_size p)) (abs_float (xp_amount p)) in
      if contracts > 0 then
        let from_contract = contracts * max (1 / 10 ^ 12) (to_float contract_size 1) in
        if base \<le> 0 then from_contract
        else let notional = abs_float (xp_notional p);
                 mark = abs_float (py_or_num (xp_mark p) (py_or_num (xp_last p) (xp_entry p))) in
             if notional > 0 \<and> mark > 0 then
               (if \<bar>base - notional / mark\<bar> \<le> \<bar>from_contract - notional / mark\<bar> then base else from_contract)
             else max base from_contract
      else base)"

definition live_entry_price :: "exchange_position \<Rightarrow> real" where
  "live_entry_price p =
     abs_float (py_or_num (xp_entry p) (py_or_num (xp_entry_alt p) (py_or_num (xp_info_entry p) (xp_info_avg_entry p))))"

definition live_mark_price ::
    "'w recon_env \<Rightarrow> exchange_row \<Rightarrow> string \<Rightarrow> exchange_position \<Rightarrow> 'w \<Rightarrow> real \<times> 'w" where
  "live_mark_price env ex symbol p w =
     (let mark = abs_float (py_or_num (xp_mark p) (py_or_num (xp_last p) (xp_entry p))) in
      if mark \<le> 0 then
        (case rc_ticker env w ex symbol of
           (t, w1) \<Rightarrow> (case t of None \<Rightarrow> mark | Some t \<Rightarrow> \<bar>pt_price t\<bar>, w1))
      else (mark, w))"

definition put_short ::
    "exchange_row \<Rightarrow> string \<Rightarrow> real \<Rightarrow> real \<Rightarrow> real \<Rightarrow> real \<Rightarrow> (leg_key \<times> live_perp) list \<Rightarrow> (leg_key \<times> live_perp) list" where
  "put_short ex symbol base notional mark entry agg =
     (let k = (ex_id ex, symbol) in
      case map_of agg k of
        None \<Rightarrow> AList.update k
          \<lparr>lp_exchange_id = ex_id ex,
           lp_exchange_name = str_or_empty (py_or_str (ex_display_name ex) (Some (ex_name ex))),
           lp_symbol = symbol, lp_base_asset = extract_base_asset symbol, lp_base_size = base,
           lp_notional = pos_part notional, lp_mark = mark, lp_entry = entry\<rparr> agg
      | Some cur \<Rightarrow> AList.update k
          (cur\<lparr>lp_base_size := lp_base_size cur + base, lp_notional := lp_notional cur + pos_part notional,
               lp_mark := (if lp_mark cur \<le> 0 \<and> mark > 0 then mark else lp_mark cur),
               lp_entry := (if lp_entry cur \<le> 0 \<and> entry > 0 then entry else lp_entry cur)\<rparr>) agg)"

definition add_live_position ::
    "'w recon_env \<Rightarrow> exchange_row \<Rightarrow> (string \<Rightarrow> fopt) \<Rightarrow> (leg_key \<times> live_perp) list \<times> 'w \<Rightarrow> exchange_position
      \<Rightarrow> (leg_key \<times> live_perp) list \<times> 'w" where
  "add_live_position env ex sizes st p =
     (case st of (agg, w) \<Rightarrow>
        let symbol = str_or_empty (xp_symbol p); side = py_lower (str_or_empty (xp_side p));
            base = live_base p (sizes symbol) in
        if symbol = [] \<or> side \<notin> {''short'', ''sell''} \<or> base \<le> min_recover_base then (agg, w)
        else let (mark, w1) = live_mark_price env ex symbol p w;
                 raw = abs_float (xp_notional p);
                 notional = (if raw \<le> 0 \<and> mark > 0 then base * mark else raw)
             in (put_short ex symbol base notional mark (live_entry_price p) agg, w1))"

definition collect_exchange_shorts ::
    "'w recon_env \<Rightarrow> (leg_key \<times> live_perp) list \<times> 'w \<Rightarrow> exchange_row \<Rightarrow> (leg_key \<times> live_perp) list \<times> 'w" where
  "collect_exchange_shorts env st ex =
     (case st of (agg, w) \<Rightarrow>
        (case rc_positions env w ex of
           (None, w1) \<Rightarrow> (agg, w1)
         | (Some (ps, sizes), w1) \<Rightarrow> foldl (add_live_position env ex sizes) (agg, w1) ps))"

definition collect_live_perp_shorts ::
    "'w recon_env \<Rightarrow> exchange_row list \<Rightarrow> 'w \<Rightarrow> (leg_key \<times> live_perp) list \<times> 'w" where
  "collect_live_perp_shorts env exs w = foldl (collect_exchange_shorts env) ([], w) exs"

section \<open>Live spot balances\<close>

record live_spot =
  ls_exchange_id :: int
  ls_exchange_name :: string
  ls_asset :: string
  ls_symbol :: string
  ls_qty :: real
  ls_price :: real
  ls_notional :: real

type_synonym 'w spot_scan = "(leg_key \<times> live_spot) list \<times> (leg_key \<times> real) list \<times> 'w"

definition put_spot ::
    "exchange_row \<Rightarrow> string \<Rightarrow> real \<Rightarrow> real \<Rightarrow> (leg_key \<times> live_spot) list \<Rightarrow> (leg_key \<times> live_spot) list" where
  "put_spot ex token qty px agg =
     (let k = (ex_id ex, token); notional = qty * px in
      case map_of agg k of
        None \<Rightarrow> AList.update k
          \<lparr>ls_exchange_id = ex_id ex,
           ls_exchange_name = str_or_empty (py_or_str (ex_display_name ex) (Some (ex_name ex))),
           ls_asset = token, ls_symbol = token @ ''/USDT'', ls_qty = qty, ls_price = px, ls_notional = notional\<rparr> agg
      | Some cur \<Rightarrow> AList.update k
          (cur\<lparr>ls_qty := ls_qty cur + qty, ls_notional := ls_notional cur + notional,
               ls_price := (if ls_price cur \<le> 0 then px else ls_price cur)\<rparr>) agg)"

definition add_live_spot :: "'w recon_env \<Rightarrow> exchange_row \<Rightarrow> 'w spot_scan \<Rightarrow> string \<times> real \<Rightarrow> 'w spot_scan" where
  "add_live_spot env ex st e =
     (case st of (agg, cache, w) \<Rightarrow>
        let token = py_upper (fst e); qty = snd e in
        if token \<in> set stable_assets \<or> qty \<le> min_recover_base then (agg, cache, w)
        else let (px, cache1, w1) = spot_asset_usdt_price env ex token cache w in
             if px \<le> 0 \<or> qty * px < min_recover_notional then (agg, cache1, w1)
             else (put_spot ex token qty px agg, cache1, w1))"

definition collect_exchange_spot :: "'w recon_env \<Rightarrow> 'w spot_scan \<Rightarrow> exchange_row \<Rightarrow> 'w spot_scan" where
  "collect_exchange_spot env st ex =
     (case st of (agg, cache, w) \<Rightarrow>
        (case rc_balance env w ex of
           (None, w1) \<Rightarrow> (agg, cache, w1)
         | (Some b, w1) \<Rightarrow> foldl (add_live_spot env ex) (agg, cache, w1) (extract_balance_totals b)))"

definition collect_live_spot_assets ::
    "'w recon_env \<Rightarrow> exchange_row list \<Rightarrow> 'w \<Rightarrow> (leg_key \<times> live_spot) list \<times> 'w" where
  "collect_live_spot_assets env exs w =
     (case foldl (collect_exchange_spot env) ([], [], w) exs of (agg, _, w1) \<Rightarrow> (agg, w1))"


section \<open>The rows in the database\<close>

definition query_strategies :: "(strategy_row \<Rightarrow> bool) \<Rightarrow> session \<Rightarrow> strategy_row list" where
  "query_strategies P s = map (obj_strategy s) (filter P (tb_strategies (sql_view s)))"

definition hedge_in :: "string list \<Rightarrow> strategy_row \<Rightarrow> bool" where
  "hedge_in sts r \<longleftrightarrow> st_type r = Some ''spot_hedge'' \<and> st_status r \<in> Some ` set sts"

definition tracked_states :: "string list" where
  "tracked_states = [''active'', ''closing'', ''error'']"

definition recovered_reasons :: "string list" where
  "recovered_reasons = [''recovered_untracked_open_from_exchange'', ''recovered_untracked_open_from_exchange_auto'']"

definition is_spot_leg :: "position_row \<Rightarrow> bool" where
  "is_spot_leg p \<longleftrightarrow> py_lower (str_or_empty (ps_type p)) = ''spot''"

definition leg_side_in :: "string list \<Rightarrow> position_row \<Rightarrow> bool" where
  "leg_side_in sides p \<longleftrightarrow> py_lower (str_or_empty (ps_side p)) \<in> set sides"

text \<open>A commit, which may raise; the exception carries its text.\<close>

definition try_commit :: "'w recon_env \<Rightarrow> session \<Rightarrow> 'w \<Rightarrow> (string \<times> session \<times> 'w) + (session \<times> 'w)" where
  "try_commit env s w = (case rc_commit_fails env w of
     (Some e, w1) \<Rightarrow> Inl (e, s, w1) | (None, w1) \<Rightarrow> Inr (db_commit s, w1))"

text \<open>One strategy of \<open>_sync_recovered_strategy_entry_prices\<close>: session and number of changes.\<close>

definition sync_entry ::
    "(leg_key \<times> live_perp) list \<Rightarrow> session \<times> nat \<Rightarrow> strategy_row \<Rightarrow> session \<times> nat" where
  "sync_entry live st r =
     (case st of (s, updated) \<Rightarrow>
        let legs = open_positions_of (st_id r) s in
        case (first_where (\<lambda>p. \<not> is_spot_leg p \<and> leg_side_in [''short'', ''sell''] p) legs,
              first_where (\<lambda>p. is_spot_leg p \<and> leg_side_in [''long'', ''buy''] p) legs) of
          (Some perp, Some spot) \<Rightarrow>
            let live_entry = (case map_of live (int_or_zero (ps_exchange_id perp), str_or_empty (ps_symbol perp)) of
                  None \<Rightarrow> 0 | Some row \<Rightarrow> pos_part (lp_entry row));
                fix_perp = (live_entry > 0 \<and>
                  (to_float (ps_entry_price perp) 0 \<le> 0 \<or> rel_diff (ps_entry_price perp) live_entry \<ge> entry_sync_rel_diff));
                s1 = (if fix_perp then set_position (ps_id perp) (\<lambda>p. p\<lparr>ps_entry_price := Some live_entry\<rparr>) s else s);
                anchor = (if live_entry > 0 then live_entry else pos_part (to_float (ps_entry_price perp) 0));
                fix_spot = (anchor > 0 \<and>
                  (to_float (ps_entry_price spot) 0 \<le> 0 \<or> rel_diff (ps_entry_price spot) anchor \<ge> entry_sync_rel_diff));
                s2 = (if fix_spot then set_position (ps_id spot) (\<lambda>p. p\<lparr>ps_entry_price := Some anchor\<rparr>) s1 else s1);
                spot_size = pos_part (to_float (ps_size spot) 0);
                spot_entry = (if fix_spot then anchor else pos_part (to_float (ps_entry_price spot) 0))
            in if fix_perp \<or> fix_spot then
                 (if spot_size > 0
                  then set_strategy (st_id r) (\<lambda>x. x\<lparr>st_initial_margin := Some (spot_size * spot_entry)\<rparr>) s2 else s2,
                  updated + 1)
               else (s, updated)
        | _ \<Rightarrow> (s, updated))"

definition sync_recovered_entry_prices ::
    "'w recon_env \<Rightarrow> (leg_key \<times> live_perp) list \<Rightarrow> session \<Rightarrow> 'w \<Rightarrow> (string \<times> session \<times> 'w) + (nat \<times> session \<times> 'w)" where
  "sync_recovered_entry_prices env live s w =
     (let rows = query_strategies (\<lambda>r. hedge_in tracked_states r \<and> st_close_reason r \<in> set recovered_reasons) s;
          (s1, updated) = foldl (sync_entry live) (s, 0) rows in
      if updated > 0 then (case try_commit env s1 w of Inl x \<Rightarrow> Inl x | Inr (s2, w1) \<Rightarrow> Inr (updated, s2, w1))
      else Inr (updated, s1, w))"

text \<open>
  What the strategies account for: per exchange and symbol of a short leg, and per exchange and
  base asset of a spot leg.
\<close>

definition bump :: "leg_key \<Rightarrow> real \<Rightarrow> (leg_key \<times> real) list \<Rightarrow> (leg_key \<times> real) list" where
  "bump k x m = AList.update k ((case map_of m k of None \<Rightarrow> 0 | Some y \<Rightarrow> y) + x) m"

definition track_leg ::
    "(leg_key \<times> real) list \<times> (leg_key \<times> real) list \<Rightarrow> position_row
      \<Rightarrow> (leg_key \<times> real) list \<times> (leg_key \<times> real) list" where
  "track_leg st p =
     (case st of (perp, spot) \<Rightarrow>
        let ex = int_or_zero (ps_exchange_id p); qty = pos_part (to_float (ps_size p) 0) in
        if ex \<le> 0 \<or> qty \<le> 0 then (perp, spot)
        else if is_spot_leg p then
          (let asset = extract_base_asset (str_or_empty (ps_symbol p)) in
           if asset = [] then (perp, spot) else (perp, bump (ex, asset) qty spot))
        else if leg_side_in [''short'', ''sell''] p then (bump (ex, str_or_empty (ps_symbol p)) qty perp, spot)
        else (perp, spot))"

definition tracked_row :: "session \<Rightarrow> position_row \<Rightarrow> bool" where
  "tracked_row s p \<longleftrightarrow> ps_status p = Some ''open'' \<and>
     (\<exists>r \<in> set (tb_strategies (sql_view s)). ps_strategy_id p = Some (st_id r) \<and> hedge_in tracked_states r)"

definition load_tracked_open_legs :: "session \<Rightarrow> (leg_key \<times> real) list \<times> (leg_key \<times> real) list" where
  "load_tracked_open_legs s = foldl track_leg ([], []) (query_positions (tracked_row s) s)"

text \<open>Active and closing strategies without an open leg are closed.\<close>

definition has_open_leg :: "session \<Rightarrow> int \<Rightarrow> bool" where
  "has_open_leg s sid \<longleftrightarrow> (\<exists>p \<in> set (tb_positions (sql_view s)). is_open_of sid p)"

definition empty_strategies :: "session \<Rightarrow> strategy_row list" where
  "empty_strategies s =
     filter (\<lambda>r. st_id r > 0 \<and> \<not> has_open_leg s (st_id r)) (query_strategies (hedge_in [''active'', ''closing'']) s)"

definition close_empty :: "real \<Rightarrow> session \<Rightarrow> strategy_row \<Rightarrow> session" where
  "close_empty now s r =
     set_strategy (st_id r)
       (\<lambda>x. x\<lparr>st_status := Some ''closed'',
              st_closed_at := (if st_closed_at x = None then Some now else st_closed_at x),
              st_close_reason := (if py_strip (st_close_reason x) = [] then ''auto_closed_no_open_legs_reconcile''
                                  else st_close_reason x)\<rparr>) s"

definition close_without_open_legs ::
    "'w recon_env \<Rightarrow> session \<Rightarrow> 'w \<Rightarrow> (string \<times> session \<times> 'w) + (int list \<times> session \<times> 'w)" where
  "close_without_open_legs env s w =
     (let rows = empty_strategies s; touched = map st_id rows; s1 = foldl (close_empty (rc_clock env w)) s rows in
      if touched = [] then Inr ([], s, w)
      else (case try_commit env s1 w of Inl x \<Rightarrow> Inl x | Inr (s2, w1) \<Rightarrow> Inr (touched, s2, w1)))"


section \<open>Matching\<close>

record untracked_perp =
  up_row :: live_perp
  up_base :: real
  up_notional :: real

record spot_slot =
  sl_row :: live_spot
  sl_qty :: real
  sl_notional :: real

definition lookup_qty :: "(leg_key \<times> real) list \<Rightarrow> leg_key \<Rightarrow> real" where
  "lookup_qty m k = (case map_of m k of None \<Rightarrow> 0 | Some x \<Rightarrow> x)"

definition untracked_of :: "(leg_key \<times> real) list \<Rightarrow> leg_key \<times> live_perp \<Rightarrow> untracked_perp option" where
  "untracked_of tracked e =
     (case e of (k, row) \<Rightarrow>
        let residual = pos_part (lp_base_size row - pos_part (lookup_qty tracked k));
            price = pos_part (lp_mark row);
            notional = (if price > 0 then residual * price else pos_part (lp_notional row)) in
        if residual \<le> min_recover_base \<or> notional < min_recover_notional then None
        else Some \<lparr>up_row = row, up_base = residual, up_notional = notional\<rparr>)"

definition untracked_perps :: "(leg_key \<times> live_perp) list \<Rightarrow> (leg_key \<times> real) list \<Rightarrow> untracked_perp list" where
  "untracked_perps live tracked = sort_desc up_notional (List.map_filter (untracked_of tracked) live)"

definition slot_of :: "(leg_key \<times> real) list \<Rightarrow> leg_key \<times> live_spot \<Rightarrow> (leg_key \<times> spot_slot) option" where
  "slot_of tracked e =
     (case e of (k, row) \<Rightarrow>
        let residual = pos_part (ls_qty row - pos_part (lookup_qty tracked k)); notional = residual * pos_part (ls_price row) in
        if residual \<le> min_recover_base \<or> notional < min_recover_notional then None
        else Some (k, \<lparr>sl_row = row, sl_qty = residual, sl_notional = notional\<rparr>))"

definition spot_pool :: "(leg_key \<times> live_spot) list \<Rightarrow> (leg_key \<times> real) list \<Rightarrow> (leg_key \<times> spot_slot) list" where
  "spot_pool live tracked = List.map_filter (slot_of tracked) live"

definition spot_candidate :: "string \<Rightarrow> real \<Rightarrow> leg_key \<times> spot_slot \<Rightarrow> bool" where
  "spot_candidate base_asset perp_qty e =
     (case e of ((ex, asset), slot) \<Rightarrow>
        let qty = pos_part (sl_qty slot); ratio = (if perp_qty > 0 then qty / perp_qty else 0) in
        asset = base_asset \<and> qty > min_recover_base \<and> size_ratio_min \<le> ratio \<and> ratio \<le> size_ratio_max)"

text \<open>The candidate closest in size, the larger one of equals.\<close>

definition best_slot :: "(leg_key \<times> spot_slot) list \<Rightarrow> string \<Rightarrow> real \<Rightarrow> spot_slot option" where
  "best_slot pool base_asset perp_qty =
     (case sort_key (\<lambda>x. (\<bar>sl_qty x / perp_qty - 1\<bar>, - sl_notional x))
             (map snd (filter (spot_candidate base_asset perp_qty) pool)) of
        [] \<Rightarrow> None | x # _ \<Rightarrow> Some x)"

definition live_pair :: "string \<Rightarrow> int \<Rightarrow> int \<Rightarrow> session \<Rightarrow> strategy_row option" where
  "live_pair symbol long_ex short_ex s =
     first_where (\<lambda>r. hedge_in tracked_states r \<and> st_symbol r = Some symbol \<and> st_long_ex r = Some long_ex
        \<and> st_short_ex r = Some short_ex \<and> has_open_leg s (st_id r)) (tb_strategies (sql_view s))"

record recovery_plan =
  yp_long_ex :: int
  yp_short_ex :: int
  yp_symbol :: string
  yp_asset :: string
  yp_spot_symbol :: string
  yp_base :: real
  yp_spot_px :: real
  yp_perp_px :: real
  yp_spot_entry :: real
  yp_perp_entry :: real

text \<open>The checks before a recovery, in the order of the code: a reason to skip, or the plan.\<close>

definition plan_recovery ::
    "session \<Rightarrow> (leg_key \<times> spot_slot) list \<Rightarrow> untracked_perp \<Rightarrow> (string \<times> int option) + recovery_plan" where
  "plan_recovery s pool perp =
     (let row = up_row perp; symbol = lp_symbol row; short_ex = lp_exchange_id row; base_asset = py_upper (lp_base_asset row);
          perp_qty = pos_part (up_base perp); perp_entry = pos_part (lp_entry row); perp_px = pos_part (lp_mark row) in
      if short_ex \<le> 0 \<or> symbol = [] \<or> base_asset = [] \<or> perp_qty \<le> min_recover_base then Inl (''invalid_perp_row'', None)
      else case best_slot pool base_asset perp_qty of
        None \<Rightarrow> Inl (''no_spot_candidate'', None)
      | Some best \<Rightarrow>
          let long_ex = ls_exchange_id (sl_row best) in
          if long_ex \<le> 0 then Inl (''invalid_spot_candidate'', None)
          else case live_pair symbol long_ex short_ex s of
            Some r \<Rightarrow> Inl (''already_tracked'', Some (st_id r))
          | None \<Rightarrow>
              let matched = min perp_qty (pos_part (sl_qty best));
                  px = pos_part (ls_price (sl_row best));
                  spot_px = (if px \<le> 0 \<and> perp_px > 0 then perp_px else px) in
              if matched \<le> min_recover_base then Inl (''matched_size_zero'', None)
              else if spot_px \<le> 0 then Inl (''missing_price'', None)
              else if query_exchange long_ex s = None \<or> query_exchange short_ex s = None then Inl (''exchange_not_found'', None)
              else Inr \<lparr>yp_long_ex = long_ex, yp_short_ex = short_ex, yp_symbol = symbol, yp_asset = base_asset,
                     yp_spot_symbol = (if ls_symbol (sl_row best) = [] then base_asset @ ''/USDT'' else ls_symbol (sl_row best)),
                     yp_base = matched, yp_spot_px = spot_px, yp_perp_px = (if perp_px > 0 then perp_px else spot_px),
                     yp_spot_entry = (if perp_entry > 0 then perp_entry else spot_px),
                     yp_perp_entry = (if perp_entry > 0 then perp_entry else if perp_px > 0 then perp_px else spot_px)\<rparr>)"

definition recovered_strategy :: "int \<Rightarrow> recovery_plan \<Rightarrow> strategy_row" where
  "recovered_strategy sid p =
     \<lparr>st_id = sid, st_type = Some ''spot_hedge'', st_symbol = Some (yp_symbol p), st_long_ex = Some (yp_long_ex p),
      st_short_ex = Some (yp_short_ex p), st_initial_margin = Some (yp_base p * yp_spot_entry p),
      st_status = Some ''active'', st_close_reason = ''recovered_untracked_open_from_exchange_auto'',
      st_entry_e24 = Some 0, st_entry_open_fee = Some 0, st_entry_spot_base = Some 0, st_entry_perp_base = Some 0,
      st_entry_delta_base = Some 0, st_closed_at = None\<rparr>"

definition recovered_leg :: "int \<Rightarrow> int \<Rightarrow> int \<Rightarrow> string \<Rightarrow> string \<Rightarrow> string \<Rightarrow> real \<Rightarrow> real \<Rightarrow> real \<Rightarrow> position_row" where
  "recovered_leg pid sid ex symbol side typ qty entry current =
     \<lparr>ps_id = pid, ps_strategy_id = Some sid, ps_exchange_id = Some ex, ps_symbol = Some symbol, ps_side = Some side,
      ps_type = Some typ, ps_size = Some qty, ps_entry_price = Some entry, ps_current_price = Some current,
      ps_unrealized = Some 0, ps_status = Some ''open'', ps_closed_at = None\<rparr>"

definition book_recovery :: "recovery_plan \<Rightarrow> session \<Rightarrow> session" where
  "book_recovery p s =
     (let sid = next_strategy_id s;
          s1 = db_flush (add_strategy (recovered_strategy sid p) s);
          s2 = add_position (recovered_leg (next_position_id s1) sid (yp_long_ex p) (yp_spot_symbol p) ''long'' ''spot''
                 (yp_base p) (yp_spot_entry p) (yp_spot_px p)) s1
      in add_position (recovered_leg (next_position_id s2) sid (yp_short_ex p) (yp_symbol p) ''short'' ''swap''
                 (yp_base p) (yp_perp_entry p) (yp_perp_px p)) s2)"

definition consume_slot :: "leg_key \<Rightarrow> real \<Rightarrow> (leg_key \<times> spot_slot) list \<Rightarrow> (leg_key \<times> spot_slot) list" where
  "consume_slot k matched pool =
     (case map_of pool k of
        None \<Rightarrow> pool
      | Some slot \<Rightarrow>
          let qty = pos_part (sl_qty slot - matched) in
          AList.update k (slot\<lparr>sl_qty := qty, sl_notional := pos_part (qty * pos_part (ls_price (sl_row slot)))\<rparr>) pool)"

record recovered_pair =
  rv_strategy_id :: int
  rv_symbol :: string
  rv_long_ex :: int
  rv_short_ex :: int
  rv_base :: real
  rv_spot_px :: real
  rv_perp_px :: real
  rv_perp_entry :: real

definition recovered_of :: "int \<Rightarrow> recovery_plan \<Rightarrow> recovered_pair" where
  "recovered_of sid p =
     \<lparr>rv_strategy_id = sid, rv_symbol = yp_symbol p, rv_long_ex = yp_long_ex p, rv_short_ex = yp_short_ex p,
      rv_base = py_round (yp_base p) 10, rv_spot_px = py_round (yp_spot_px p) 10,
      rv_perp_px = py_round (yp_perp_px p) 10, rv_perp_entry = py_round (yp_perp_entry p) 10\<rparr>"

record recovery_state =
  ry_session :: session
  ry_pool :: "(leg_key \<times> spot_slot) list"
  ry_recovered :: "recovered_pair list"
  ry_skipped :: "(untracked_perp \<times> string \<times> int option) list"

fun recover_perps ::
    "'w recon_env \<Rightarrow> untracked_perp list \<Rightarrow> recovery_state \<Rightarrow> 'w \<Rightarrow> (string \<times> session \<times> 'w) + (recovery_state \<times> 'w)" where
  "recover_perps env [] st w = Inr (st, w)"
| "recover_perps env (perp # perps) st w =
     (let s = ry_session st in
      case plan_recovery s (ry_pool st) perp of
        Inl (reason, sid) \<Rightarrow> recover_perps env perps (st\<lparr>ry_skipped := ry_skipped st @ [(perp, reason, sid)]\<rparr>) w
      | Inr p \<Rightarrow>
          (case try_commit env (book_recovery p s) w of
             Inl x \<Rightarrow> Inl x
           | Inr (s1, w1) \<Rightarrow>
               recover_perps env perps
                 (st\<lparr>ry_session := s1, ry_pool := consume_slot (yp_long_ex p, yp_asset p) (yp_base p) (ry_pool st),
                     ry_recovered := ry_recovered st @ [recovered_of (next_strategy_id s) p]\<rparr>) w1))"

section \<open>The cycle\<close>

text \<open>
  A summary. \<open>_LAST_SUMMARY\<close> is bound twice: \<open>common.py\<close> rebinds its own name in
  \<open>_set_last_summary\<close>, the runner returns the dictionary that it imported.
\<close>

record recon_summary =
  sm_ok :: bool
  sm_ts :: "int option"
  sm_status :: string
  sm_error :: "string option"
  sm_next_in :: "int option"
  sm_recovered_pairs :: "nat option"
  sm_counts :: "(nat \<times> nat \<times> nat \<times> nat) option"
  sm_closed_ids :: "int list"
  sm_recovered :: "recovered_pair list"
  sm_skipped :: "(untracked_perp \<times> string \<times> int option) list"

definition plain_summary :: "int option \<Rightarrow> string \<Rightarrow> recon_summary" where
  "plain_summary ts status =
     \<lparr>sm_ok = True, sm_ts = ts, sm_status = status, sm_error = None, sm_next_in = None, sm_recovered_pairs = None,
      sm_counts = None, sm_closed_ids = [], sm_recovered = [], sm_skipped = []\<rparr>"

record recon_module =
  rm_last_ts :: real
  rm_common :: recon_summary
  rm_runner :: recon_summary
  rm_shared :: bool

definition initial_module :: recon_module where
  "initial_module = \<lparr>rm_last_ts = 0, rm_common = plain_summary None ''init'', rm_runner = plain_summary None ''init'', rm_shared = True\<rparr>"

definition set_reconcile_summary :: "recon_summary \<Rightarrow> recon_module \<Rightarrow> recon_module" where
  "set_reconcile_summary sm m = m\<lparr>rm_common := sm\<lparr>sm_ok := True\<rparr>, rm_shared := False\<rparr>"

definition merge_error :: "int \<Rightarrow> string \<Rightarrow> recon_summary \<Rightarrow> recon_summary" where
  "merge_error ts e sm = sm\<lparr>sm_ok := False, sm_ts := Some ts, sm_status := ''error'', sm_error := Some e\<rparr>"

definition record_error :: "int \<Rightarrow> string \<Rightarrow> recon_module \<Rightarrow> recon_module" where
  "record_error ts e m =
     m\<lparr>rm_runner := merge_error ts e (rm_runner m),
       rm_common := (if rm_shared m then merge_error ts e (rm_runner m) else rm_common m)\<rparr>"

definition get_last_reconcile_summary :: "recon_module \<Rightarrow> recon_summary" where
  "get_last_reconcile_summary m = rm_common m"

text \<open>The body of the \<open>try\<close>: an exception with the session it left, or the summary.\<close>

definition reconcile_body ::
    "'w recon_env \<Rightarrow> int \<Rightarrow> session \<Rightarrow> 'w \<Rightarrow> (string \<times> session \<times> 'w) + (recon_summary \<times> session \<times> 'w)" where
  "reconcile_body env ts s w =
     (let exs = filter (rc_active env) (se_exchanges s) in
      if exs = [] then Inr ((plain_summary (Some ts) ''no_active_exchange'')\<lparr>sm_recovered_pairs := Some 0\<rparr>, s, w)
      else case close_without_open_legs env s w of
        Inl x \<Rightarrow> Inl x
      | Inr (closed_ids, s1, w1) \<Rightarrow>
          let (tracked_perp, tracked_spot) = load_tracked_open_legs s1;
              (live_perp, w2) = collect_live_perp_shorts env exs w1;
              (live_spot, w3) = collect_live_spot_assets env exs w2 in
          case sync_recovered_entry_prices env live_perp s1 w3 of
            Inl x \<Rightarrow> Inl x
          | Inr (synced, s2, w4) \<Rightarrow>
              let perps = untracked_perps live_perp tracked_perp in
              (case recover_perps env perps
                      \<lparr>ry_session = s2, ry_pool = spot_pool live_spot tracked_spot, ry_recovered = [], ry_skipped = []\<rparr> w4 of
                 Inl x \<Rightarrow> Inl x
               | Inr (st, w5) \<Rightarrow>
                   Inr ((plain_summary (Some ts) ''ok'')
                          \<lparr>sm_recovered_pairs := Some (length (ry_recovered st)),
                           sm_counts := Some (length perps, length (ry_pool st), synced, length closed_ids),
                           sm_closed_ids := take 20 closed_ids, sm_recovered := ry_recovered st,
                           sm_skipped := take 30 (ry_skipped st)\<rparr>, ry_session st, w5)))"

definition run_reconcile_cycle ::
    "'w recon_env \<Rightarrow> bool \<Rightarrow> exchange_row list \<Rightarrow> recon_module \<times> tables \<times> 'w
      \<Rightarrow> recon_summary \<times> recon_module \<times> tables \<times> 'w" where
  "run_reconcile_cycle env force exs st =
     (case st of (m, t, w) \<Rightarrow>
        let now = rc_clock env w; ts = py_trunc now in
        if \<not> force \<and> now - rm_last_ts m < recon_interval then
          (let m1 = set_reconcile_summary ((plain_summary (Some ts) ''throttled'')
                 \<lparr>sm_next_in := Some (max 0 (py_trunc (recon_interval - (now - rm_last_ts m))))\<rparr>) m
           in (rm_runner m1, m1, t, w))
        else
          (let m1 = m\<lparr>rm_last_ts := now\<rparr> in
           case reconcile_body env ts (open_session session_local_autoflush exs t) w of
             Inl (e, s, w1) \<Rightarrow>
               (let m2 = record_error ts e m1 in (rm_runner m2, m2, se_committed (db_rollback s), w1))
           | Inr (sm, s, w1) \<Rightarrow>
               (let m2 = set_reconcile_summary sm m1 in (rm_runner m2, m2, se_committed s, w1))))"

end
