(* ===== verification/ReconcilerLaws.thy ===== *)
theory ReconcilerLaws
  imports Reconciler Orchestrator
begin

text \<open>
  What a reconciliation guarantees: it never books more than the exchanges hold, a recovered
  strategy is a hedged pair, no running strategy is left without a leg, and a close that the
  production session reports as failed is repaired. What it does not: the summary it returns is
  never the summary of the run.
\<close>

section \<open>What the strategies account for\<close>

definition tracked_in :: "tables \<Rightarrow> position_row \<Rightarrow> bool" where
  "tracked_in t p \<longleftrightarrow> ps_status p = Some ''open'' \<and>
     (\<exists>r \<in> set (tb_strategies t). ps_strategy_id p = Some (st_id r) \<and> hedge_in tracked_states r)"

definition leg_qty :: "position_row \<Rightarrow> real" where
  "leg_qty p = (if int_or_zero (ps_exchange_id p) \<le> 0 then 0 else pos_part (to_float (ps_size p) 0))"

definition perp_part :: "leg_key \<Rightarrow> position_row \<Rightarrow> real" where
  "perp_part k p =
     (if \<not> is_spot_leg p \<and> leg_side_in [''short'', ''sell''] p \<and> k = (int_or_zero (ps_exchange_id p), str_or_empty (ps_symbol p))
      then leg_qty p else 0)"

definition spot_part :: "leg_key \<Rightarrow> position_row \<Rightarrow> real" where
  "spot_part k p =
     (let asset = extract_base_asset (str_or_empty (ps_symbol p)) in
      if is_spot_leg p \<and> asset \<noteq> [] \<and> k = (int_or_zero (ps_exchange_id p), asset) then leg_qty p else 0)"

text \<open>The booked size of a short or of a spot holding, read off the tables.\<close>

definition booked :: "(position_row \<Rightarrow> real) \<Rightarrow> tables \<Rightarrow> real" where
  "booked part t = sum_list (map (\<lambda>p. if tracked_in t p then part p else 0) (tb_positions t))"

lemma lookup_bump: "lookup_qty (bump k x m) k' = lookup_qty m k' + (if k = k' then x else 0)"
  by (simp add: lookup_qty_def bump_def update_conv')

lemma lookup_track_leg:
  "lookup_qty (fst (track_leg st p)) k = lookup_qty (fst st) k + perp_part k p"
  "lookup_qty (snd (track_leg st p)) k = lookup_qty (snd st) k + spot_part k p"
  by (auto simp: track_leg_def perp_part_def spot_part_def leg_qty_def lookup_bump Let_def split: prod.split)

lemma lookup_track_perp:
  "lookup_qty (fst (foldl track_leg st ps)) k = lookup_qty (fst st) k + sum_list (map (perp_part k) ps)"
  by (induction ps arbitrary: st) (simp_all add: lookup_track_leg)

lemma lookup_track_spot:
  "lookup_qty (snd (foldl track_leg st ps)) k = lookup_qty (snd st) k + sum_list (map (spot_part k) ps)"
  by (induction ps arbitrary: st) (simp_all add: lookup_track_leg)

lemma sum_if_filter: "sum_list (map f (filter P xs)) = (sum_list (map (\<lambda>x. if P x then f x else 0) xs) :: real)"
  by (induction xs) auto

lemma load_tracked:
  assumes "ids_ok (se_obj s)" "sql_view s = se_obj s"
  shows "lookup_qty (fst (load_tracked_open_legs s)) k = booked (perp_part k) (se_obj s)"
    "lookup_qty (snd (load_tracked_open_legs s)) k = booked (spot_part k) (se_obj s)"
proof -
  have q: "query_positions (tracked_row s) s = filter (tracked_in (se_obj s)) (tb_positions (se_obj s))"
  proof -
    have "tracked_row s = tracked_in (se_obj s)"
      by (rule ext) (simp add: tracked_row_def tracked_in_def assms(2))
    then show ?thesis using query_positions_flushed[OF assms, of "tracked_row s"] by simp
  qed
  have e: "lookup_qty [] k = 0" by (simp add: lookup_qty_def)
  show "lookup_qty (fst (load_tracked_open_legs s)) k = booked (perp_part k) (se_obj s)"
    unfolding load_tracked_open_legs_def lookup_track_perp lookup_track_spot q booked_def sum_if_filter using e by simp
  show "lookup_qty (snd (load_tracked_open_legs s)) k = booked (spot_part k) (se_obj s)"
    unfolding load_tracked_open_legs_def lookup_track_perp lookup_track_spot q booked_def sum_if_filter using e by simp
qed

lemma part_nonneg [simp]: "0 \<le> perp_part k p" "0 \<le> spot_part k p"
  by (simp_all add: perp_part_def spot_part_def leg_qty_def Let_def)

lemma booked_nonneg: "(\<And>p. 0 \<le> part p) \<Longrightarrow> 0 \<le> booked part t"
  unfolding booked_def by (rule sum_list_nonneg_map) simp

text \<open>What of a row the bookkeeping depends on.\<close>

definition leg_view :: "position_row \<Rightarrow> int \<times> int option \<times> int option \<times> string option \<times> string option \<times> string option \<times> fopt \<times> string option" where
  "leg_view p = (ps_id p, ps_strategy_id p, ps_exchange_id p, ps_symbol p, ps_side p, ps_type p, ps_size p, ps_status p)"

definition strategy_view :: "strategy_row \<Rightarrow> int \<times> string option \<times> string option" where
  "strategy_view r = (st_id r, st_type r, st_status r)"

definition same_books :: "tables \<Rightarrow> tables \<Rightarrow> bool" where
  "same_books t t' \<longleftrightarrow> map leg_view (tb_positions t) = map leg_view (tb_positions t')
     \<and> map strategy_view (tb_strategies t) = map strategy_view (tb_strategies t')"

lemma same_books_trans: "same_books t t' \<Longrightarrow> same_books t' t'' \<Longrightarrow> same_books t t''"
  by (simp add: same_books_def)

lemma same_books_refl [simp]: "same_books t t"
  by (simp add: same_books_def)

lemma map_eq_transfer:
  assumes "map v xs = map v ys" "\<And>x y. v x = v y \<Longrightarrow> f x = g y" shows "map f xs = map g ys"
  using assms(1)
proof (induction xs arbitrary: ys)
  case (Cons x xs)
  then obtain y ys' where "ys = y # ys'" "v x = v y" "map v xs = map v ys'" by (cases ys) auto
  then show ?case using Cons.IH[of ys'] assms(2)[of x y] by simp
qed simp

lemma tracked_in_view:
  "tracked_in t p \<longleftrightarrow> ps_status p = Some ''open'' \<and>
     (\<exists>(i, ty, st) \<in> strategy_view ` set (tb_strategies t). ps_strategy_id p = Some i \<and> ty = Some ''spot_hedge'' \<and> st \<in> Some ` set tracked_states)"
  by (simp add: tracked_in_def strategy_view_def hedge_in_def)

definition view_only :: "(position_row \<Rightarrow> real) \<Rightarrow> bool" where
  "view_only part \<longleftrightarrow> (\<forall>p q. leg_view p = leg_view q \<longrightarrow> part p = part q)"

lemma parts_view_only [simp]: "view_only (perp_part k)" "view_only (spot_part k)"
proof -
  have "perp_part k p = perp_part k q \<and> spot_part k p = spot_part k q" if "leg_view p = leg_view q" for p q
  proof -
    from that have "ps_exchange_id p = ps_exchange_id q" "ps_symbol p = ps_symbol q" "ps_side p = ps_side q"
      "ps_type p = ps_type q" "ps_size p = ps_size q" by (simp_all add: leg_view_def)
    then show ?thesis by (simp add: perp_part_def spot_part_def leg_qty_def is_spot_leg_def leg_side_in_def Let_def)
  qed
  then show "view_only (perp_part k)" "view_only (spot_part k)" unfolding view_only_def by blast+
qed

lemma booked_same:
  assumes "same_books t t'" "view_only part" shows "booked part t = booked part t'"
proof -
  have s: "strategy_view ` set (tb_strategies t) = strategy_view ` set (tb_strategies t')"
    using assms(1) unfolding same_books_def by (metis set_map)
  have "map (\<lambda>p. if tracked_in t p then part p else 0) (tb_positions t)
      = map (\<lambda>p. if tracked_in t' p then part p else 0) (tb_positions t')"
  proof (rule map_eq_transfer[where v = leg_view])
    show "map leg_view (tb_positions t) = map leg_view (tb_positions t')" using assms(1) by (simp add: same_books_def)
    fix p q assume v: "leg_view p = leg_view q"
    then have "tracked_in t p = tracked_in t' q" by (simp add: tracked_in_view s leg_view_def)
    moreover have "part p = part q" using assms(2) v unfolding view_only_def by blast
    ultimately show "(if tracked_in t p then part p else 0) = (if tracked_in t' q then part q else 0)"
      by simp
  qed
  then show ?thesis by (simp add: booked_def)
qed

text \<open>The tables: ids identify rows, positions belong to strategies.\<close>

definition refs_ok :: "tables \<Rightarrow> bool" where
  "refs_ok t \<longleftrightarrow> ids_ok t \<and> (\<forall>p \<in> set (tb_positions t). \<forall>i. ps_strategy_id p = Some i \<longrightarrow> i \<in> st_id ` set (tb_strategies t))"

lemma refs_ok_lists:
  "refs_ok t \<longleftrightarrow> distinct (map ps_id (tb_positions t)) \<and> distinct (map st_id (tb_strategies t))
     \<and> (\<forall>x \<in> set (map ps_strategy_id (tb_positions t)). \<forall>i. x = Some i \<longrightarrow> i \<in> set (map st_id (tb_strategies t)))"
  by (simp add: refs_ok_def ids_ok_def)

lemma same_books_refs: assumes "same_books t t'" shows "refs_ok t' = refs_ok t"
proof -
  have "map ps_id (tb_positions t) = map ps_id (tb_positions t')"
    by (rule map_eq_transfer[where v = leg_view]) (use assms in \<open>auto simp: same_books_def leg_view_def\<close>)
  moreover have "map ps_strategy_id (tb_positions t) = map ps_strategy_id (tb_positions t')"
    by (rule map_eq_transfer[where v = leg_view]) (use assms in \<open>auto simp: same_books_def leg_view_def\<close>)
  moreover have "map st_id (tb_strategies t) = map st_id (tb_strategies t')"
    by (rule map_eq_transfer[where v = strategy_view]) (use assms in \<open>auto simp: same_books_def strategy_view_def\<close>)
  ultimately show ?thesis by (simp only: refs_ok_lists)
qed


section \<open>Strategies without legs\<close>

definition mark_empty_closed :: "real \<Rightarrow> strategy_row \<Rightarrow> strategy_row" where
  "mark_empty_closed now x =
     x\<lparr>st_status := Some ''closed'',
       st_closed_at := (if st_closed_at x = None then Some now else st_closed_at x),
       st_close_reason := (if py_strip (st_close_reason x) = [] then ''auto_closed_no_open_legs_reconcile'' else st_close_reason x)\<rparr>"

lemma mark_empty_closed_sels [simp]:
  "st_id (mark_empty_closed now x) = st_id x" "st_type (mark_empty_closed now x) = st_type x" "st_status (mark_empty_closed now x) = Some ''closed''"
  by (simp_all add: mark_empty_closed_def)

lemma close_empty_mark: "close_empty now s r = set_strategy (st_id r) (mark_empty_closed now) s"
  by (simp add: close_empty_def mark_empty_closed_def[abs_def])

lemma close_empty_loop:
  assumes "distinct (map st_id rows)"
  shows "tb_strategies (se_obj (foldl (close_empty now) s rows))
      = map (\<lambda>x. if st_id x \<in> st_id ` set rows then mark_empty_closed now x else x) (tb_strategies (se_obj s))"
    and "tb_positions (se_obj (foldl (close_empty now) s rows)) = tb_positions (se_obj s)"
    and "se_committed (foldl (close_empty now) s rows) = se_committed s"
    and "se_exchanges (foldl (close_empty now) s rows) = se_exchanges s"
proof -
  show "tb_strategies (se_obj (foldl (close_empty now) s rows))
      = map (\<lambda>x. if st_id x \<in> st_id ` set rows then mark_empty_closed now x else x) (tb_strategies (se_obj s))"
    using assms
  proof (induction rows arbitrary: s)
    case (Cons r rows)
    then show ?case by (auto simp: close_empty_mark set_strategy_def)
  qed simp
  show "tb_positions (se_obj (foldl (close_empty now) s rows)) = tb_positions (se_obj s)"
    by (rule foldl_frame) (simp add: close_empty_mark session_simps)
  show "se_committed (foldl (close_empty now) s rows) = se_committed s"
    by (rule foldl_frame) (simp add: close_empty_mark session_simps)
  show "se_exchanges (foldl (close_empty now) s rows) = se_exchanges s"
    by (rule foldl_frame) (simp add: close_empty_mark session_simps)
qed

lemma clean_view: "clean s \<Longrightarrow> sql_view s = se_obj s"
  by (simp add: clean_def sql_view_def)

lemma query_strategies_clean:
  assumes "clean s" "refs_ok (se_obj s)"
  shows "query_strategies P s = filter P (tb_strategies (se_obj s))"
proof -
  have "obj_strategy s r = r" if "r \<in> set (tb_strategies (se_obj s))" for r
    using that assms(2) by (simp add: obj_strategy_def first_where_id refs_ok_def ids_ok_def)
  then show ?thesis using clean_view[OF assms(1)] by (auto simp: query_strategies_def intro: map_idI)
qed

lemma empty_strategies_clean:
  assumes "clean s" "refs_ok (se_obj s)"
  shows "set (empty_strategies s) = {r \<in> set (tb_strategies (se_obj s)). hedge_in [''active'', ''closing''] r \<and> st_id r > 0
      \<and> (\<forall>p \<in> set (tb_positions (se_obj s)). \<not> is_open_of (st_id r) p)}"
    and "distinct (map st_id (empty_strategies s))"
proof -
  have e: "empty_strategies s = filter (\<lambda>r. st_id r > 0 \<and> \<not> has_open_leg s (st_id r))
      (filter (hedge_in [''active'', ''closing'']) (tb_strategies (se_obj s)))"
    unfolding empty_strategies_def query_strategies_clean[OF assms] ..
  show "set (empty_strategies s) = {r \<in> set (tb_strategies (se_obj s)). hedge_in [''active'', ''closing''] r \<and> st_id r > 0
      \<and> (\<forall>p \<in> set (tb_positions (se_obj s)). \<not> is_open_of (st_id r) p)}"
    unfolding e has_open_leg_def clean_view[OF assms(1)] by auto
  show "distinct (map st_id (empty_strategies s))"
    unfolding e using assms(2) by (simp add: refs_ok_def ids_ok_def distinct_map_filter)
qed

definition no_empty :: "tables \<Rightarrow> bool" where
  "no_empty t \<longleftrightarrow> (\<forall>r \<in> set (tb_strategies t). hedge_in [''active'', ''closing''] r \<and> st_id r > 0 \<longrightarrow>
     (\<exists>p \<in> set (tb_positions t). is_open_of (st_id r) p))"

lemma same_books_no_empty:
  assumes "same_books t t'" shows "no_empty t' = no_empty t"
proof -
  have v: "no_empty u \<longleftrightarrow> (\<forall>x \<in> set (map strategy_view (tb_strategies u)).
      fst (snd x) = Some ''spot_hedge'' \<and> snd (snd x) \<in> {Some ''active'', Some ''closing''} \<and> fst x > 0 \<longrightarrow>
      (\<exists>y \<in> set (map (\<lambda>p. (ps_strategy_id p, ps_status p)) (tb_positions u)). y = (Some (fst x), Some ''open'')))" for u
    by (simp add: no_empty_def strategy_view_def hedge_in_def is_open_of_def image_iff) (simp add: eq_commute)
  have "map (\<lambda>p. (ps_strategy_id p, ps_status p)) (tb_positions t) = map (\<lambda>p. (ps_strategy_id p, ps_status p)) (tb_positions t')"
    by (rule map_eq_transfer[where v = leg_view]) (use assms in \<open>simp_all add: same_books_def leg_view_def\<close>)
  with assms show ?thesis unfolding v same_books_def by simp
qed

text \<open>Closing the strategies without legs changes no booked size.\<close>

lemma booked_close_empty:
  assumes "tb_positions t' = tb_positions t"
    "tb_strategies t' = map (\<lambda>x. if st_id x \<in> ids then mark_empty_closed now x else x) (tb_strategies t)"
    "\<And>p i. p \<in> set (tb_positions t) \<Longrightarrow> i \<in> ids \<Longrightarrow> \<not> is_open_of i p"
  shows "booked part t' = booked part t"
proof -
  have "tracked_in t' p = tracked_in t p" if "p \<in> set (tb_positions t)" for p
    using assms(3)[OF that] by (auto simp: tracked_in_def assms(2) is_open_of_def hedge_in_def tracked_states_def)
  then show ?thesis unfolding booked_def assms(1) by (intro arg_cong[of _ _ sum_list] map_cong) simp_all
qed

lemma close_without_open_legs_facts:
  assumes "close_without_open_legs env s w = x" "clean s" "refs_ok (se_obj s)"
  shows "case x of Inl (e, s', w') \<Rightarrow> se_committed s' = se_committed s
    | Inr (ids, s', w') \<Rightarrow> clean s' \<and> refs_ok (se_obj s') \<and> no_empty (se_obj s') \<and> se_exchanges s' = se_exchanges s
        \<and> (\<forall>part. booked part (se_obj s') = booked part (se_obj s))
        \<and> map st_id (tb_strategies (se_obj s')) = map st_id (tb_strategies (se_obj s))
        \<and> tb_positions (se_obj s') = tb_positions (se_obj s)
        \<and> (\<forall>r \<in> set (empty_strategies s). \<forall>r' \<in> set (tb_strategies (se_obj s')). st_id r' = st_id r \<longrightarrow> st_status r' = Some ''closed'')"
proof -
  note es = empty_strategies_clean[OF assms(2,3)]
  let ?s1 = "foldl (close_empty (rc_clock env w)) s (empty_strategies s)"
  note l = close_empty_loop[OF es(2), of "rc_clock env w" s]
  have r1: "refs_ok (se_obj ?s1)"
    using assms(3) unfolding refs_ok_lists l(1,2) by (simp add: comp_def if_distrib cong: if_cong)
  have n1: "no_empty (se_obj ?s1)"
    unfolding no_empty_def l(1,2) using es(1) by (auto simp: hedge_in_def)
  have b1: "booked part (se_obj ?s1) = booked part (se_obj s)" for part
    by (rule booked_close_empty[OF l(2,1)]) (use es(1) in auto)
  have i1: "map st_id (tb_strategies (se_obj ?s1)) = map st_id (tb_strategies (se_obj s))"
    unfolding l(1) by (simp add: comp_def if_distrib cong: if_cong)
  have c1: "\<forall>r \<in> set (empty_strategies s). \<forall>r' \<in> set (tb_strategies (se_obj ?s1)). st_id r' = st_id r \<longrightarrow> st_status r' = Some ''closed''"
    unfolding l(1) by auto
  show ?thesis
  proof (cases "map st_id (empty_strategies s) = []")
    case True
    then have "x = Inr ([], s, w)" "?s1 = s" using assms(1) by (simp_all add: close_without_open_legs_def)
    then show ?thesis using n1 assms(2,3) True by simp
  next
    case False
    obtain f w1 where f: "rc_commit_fails env w = (f, w1)" by (metis surj_pair)
    show ?thesis
    proof (cases f)
      case None
      then have "x = Inr (map st_id (empty_strategies s), db_commit ?s1, w1)"
        using assms(1) False f by (simp add: close_without_open_legs_def try_commit_def Let_def)
      then show ?thesis using r1 n1 b1 i1 c1 l(2,4) by (simp add: session_simps)
    next
      case (Some e)
      then have "x = Inl (e, ?s1, w1)"
        using assms(1) False f by (simp add: close_without_open_legs_def try_commit_def Let_def)
      then show ?thesis using l(3) by simp
    qed
  qed
qed


section \<open>Synchronised entry prices\<close>

lemma same_books_price: "same_books (se_obj s) (se_obj (set_position pid (\<lambda>p. p\<lparr>ps_entry_price := v\<rparr>) s))"
  by (simp add: same_books_def session_simps leg_view_def comp_def if_distrib cong: if_cong)

lemma same_books_margin: "same_books (se_obj s) (se_obj (set_strategy sid (\<lambda>x. x\<lparr>st_initial_margin := v\<rparr>) s))"
  by (simp add: same_books_def set_strategy_def strategy_view_def comp_def if_distrib cong: if_cong)

lemma sync_entry_step:
  assumes "sync_entry live (s, n) r = (s', n')"
  shows "same_books (se_obj s) (se_obj s') \<and> se_committed s' = se_committed s \<and> se_exchanges s' = se_exchanges s
    \<and> n \<le> n' \<and> (n' = n \<longrightarrow> s' = s)"
proof -
  note b = same_books_trans[OF same_books_price same_books_price] same_books_price same_books_margin
    same_books_trans[OF same_books_trans[OF same_books_price same_books_price] same_books_margin]
    same_books_trans[OF same_books_price same_books_margin]
  show ?thesis
    using assms b by (auto simp: sync_entry_def Let_def session_simps split: option.splits if_splits)
qed

lemma sync_loop:
  assumes "foldl (sync_entry live) (s, n) rows = (s', n')"
  shows "same_books (se_obj s) (se_obj s') \<and> se_committed s' = se_committed s \<and> se_exchanges s' = se_exchanges s
    \<and> n \<le> n' \<and> (n' = n \<longrightarrow> s' = s)"
  using assms
proof (induction rows arbitrary: s n)
  case (Cons r rows)
  obtain s1 n1 where e: "sync_entry live (s, n) r = (s1, n1)" by (metis surj_pair)
  have "foldl (sync_entry live) (s1, n1) rows = (s', n')" using Cons.prems e by simp
  from sync_entry_step[OF e] Cons.IH[OF this] show ?case
    using same_books_trans[of "se_obj s" "se_obj s1" "se_obj s'"] by auto
qed simp

lemma sync_recovered_facts:
  assumes "sync_recovered_entry_prices env live s w = x" "clean s"
  shows "case x of Inl (e, s', w') \<Rightarrow> se_committed s' = se_committed s
    | Inr (n, s', w') \<Rightarrow> clean s' \<and> same_books (se_obj s) (se_obj s') \<and> se_exchanges s' = se_exchanges s"
proof -
  obtain s1 n where l: "foldl (sync_entry live) (s, 0)
      (query_strategies (\<lambda>r. hedge_in tracked_states r \<and> st_close_reason r \<in> set recovered_reasons) s) = (s1, n)"
    by (metis surj_pair)
  obtain f w1 where f: "rc_commit_fails env w = (f, w1)" by (metis surj_pair)
  have x: "x = (if n > 0 then (case f of None \<Rightarrow> Inr (n, db_commit s1, w1) | Some e \<Rightarrow> Inl (e, s1, w1)) else Inr (n, s1, w))"
    unfolding assms(1)[symmetric] using l f by (cases f) (simp_all add: sync_recovered_entry_prices_def try_commit_def)
  from sync_loop[OF l] show ?thesis
    unfolding x using assms(2) by (cases "n > 0"; cases f) (simp_all add: session_simps)
qed

section \<open>What the exchanges hold\<close>

definition shorts_ok :: "(leg_key \<times> live_perp) list \<Rightarrow> bool" where
  "shorts_ok m \<longleftrightarrow> distinct (map fst m) \<and> (\<forall>k row. (k, row) \<in> set m \<longrightarrow>
     k = (lp_exchange_id row, lp_symbol row) \<and> lp_base_asset row = extract_base_asset (lp_symbol row))"

definition spots_ok :: "(leg_key \<times> live_spot) list \<Rightarrow> bool" where
  "spots_ok m \<longleftrightarrow> distinct (map fst m) \<and> (\<forall>k row. (k, row) \<in> set m \<longrightarrow>
     k = (ls_exchange_id row, ls_asset row) \<and> ls_symbol row = ls_asset row @ ''/USDT'')"

lemma set_update_cases: "(k', v') \<in> set (AList.update k v m) \<Longrightarrow> distinct (map fst m) \<Longrightarrow> (k', v') = (k, v) \<or> ((k', v') \<in> set m \<and> k' \<noteq> k)"
proof -
  assume a: "(k', v') \<in> set (AList.update k v m)" "distinct (map fst m)"
  then have d: "distinct (map fst (AList.update k v m))" by (simp add: distinct_update)
  then have "map_of (AList.update k v m) k' = Some v'" using a(1) by (rule map_of_is_SomeI)
  then have "((map_of m)(k \<mapsto> v)) k' = Some v'" by (simp add: update_conv')
  then show ?thesis by (auto split: if_splits dest: map_of_SomeD)
qed

lemma put_short_ok: "shorts_ok m \<Longrightarrow> shorts_ok (put_short ex symbol base notional mark entry m)"
  unfolding shorts_ok_def put_short_def Let_def
  by (auto split: option.splits simp: distinct_update dest!: set_update_cases map_of_SomeD)

lemma put_spot_ok: "spots_ok m \<Longrightarrow> spots_ok (put_spot ex token qty px m)"
  unfolding spots_ok_def put_spot_def Let_def
  by (auto split: option.splits simp: distinct_update dest!: set_update_cases map_of_SomeD)

lemma add_live_position_ok: "shorts_ok (fst st) \<Longrightarrow> shorts_ok (fst (add_live_position env ex sizes st p))"
  by (cases st) (auto simp: add_live_position_def Let_def put_short_ok split: prod.split)

lemma collect_shorts_ok: "shorts_ok (fst (collect_live_perp_shorts env exs w))"
proof -
  have e: "shorts_ok (fst (collect_exchange_shorts env st ex))" if "shorts_ok (fst st)" for st ex
  proof -
    obtain agg w0 where st: "st = (agg, w0)" by (metis surj_pair)
    obtain r w1 where r: "rc_positions env w0 ex = (r, w1)" by (metis surj_pair)
    have "shorts_ok (fst (foldl (add_live_position env ex sizes) (agg, w1) ps))" for sizes ps
      by (rule foldl_invariant) (use that st in \<open>auto intro: add_live_position_ok\<close>)
    then show ?thesis using that st r by (auto simp: collect_exchange_shorts_def split: option.split)
  qed
  show ?thesis unfolding collect_live_perp_shorts_def
    by (rule foldl_invariant) (simp add: shorts_ok_def, rule e)
qed

lemma add_live_spot_ok: "spots_ok (fst st) \<Longrightarrow> spots_ok (fst (add_live_spot env ex st e))"
  by (cases st) (auto simp: add_live_spot_def Let_def put_spot_ok split: prod.split)

lemma collect_spots_ok: "spots_ok (fst (collect_live_spot_assets env exs w))"
proof -
  have e: "spots_ok (fst (collect_exchange_spot env st ex))" if "spots_ok (fst st)" for st ex
  proof -
    obtain agg cache w0 where st: "st = (agg, cache, w0)" by (metis prod_cases3)
    obtain r w1 where r: "rc_balance env w0 ex = (r, w1)" by (metis surj_pair)
    have "spots_ok (fst (foldl (add_live_spot env ex) (agg, cache, w1) xs))" for xs
      by (rule foldl_invariant) (use that st in \<open>auto intro: add_live_spot_ok\<close>)
    then show ?thesis using that st r by (auto simp: collect_exchange_spot_def split: option.split)
  qed
  have "spots_ok (fst (foldl (collect_exchange_spot env) ([], [], w) exs))"
    by (rule foldl_invariant) (simp add: spots_ok_def, rule e)
  then show ?thesis by (cases "foldl (collect_exchange_spot env) ([], [], w) exs") (simp add: collect_live_spot_assets_def)
qed

text \<open>The held quantity of a key; nothing when the exchange does not report it.\<close>

definition held_short :: "(leg_key \<times> live_perp) list \<Rightarrow> leg_key \<Rightarrow> real" where
  "held_short m k = (case map_of m k of None \<Rightarrow> 0 | Some row \<Rightarrow> lp_base_size row)"

definition held_spot :: "(leg_key \<times> live_spot) list \<Rightarrow> leg_key \<Rightarrow> real" where
  "held_spot m k = (case map_of m k of None \<Rightarrow> 0 | Some row \<Rightarrow> ls_qty row)"


section \<open>Booking a recovery\<close>

lemma char_upper_slash: "char_upper c = CHR ''/'' \<longleftrightarrow> c = CHR ''/''"
proof -
  have "char_upper c = CHR ''/'' \<longleftrightarrow> (of_char (char_upper c) :: nat) = of_char CHR ''/''" unfolding of_char_eq_iff ..
  also have "\<dots> \<longleftrightarrow> (of_char c :: nat) = of_char CHR ''/''" unfolding char_upper_code by (auto simp: Let_def)
  finally show ?thesis unfolding of_char_eq_iff .
qed

lemma base_asset_upper [simp]: "py_upper (extract_base_asset x) = extract_base_asset x"
  by (simp add: extract_base_asset_def)

lemma base_asset_no_slash [simp]: "CHR ''/'' \<notin> set (extract_base_asset x)"
proof -
  have "CHR ''/'' \<notin> set (py_upper y)" if "CHR ''/'' \<notin> set y" for y
    using that unfolding py_upper_def set_map image_iff by (metis char_upper_slash)
  moreover have "CHR ''/'' \<notin> set (split_head c y)" if "CHR ''/'' \<notin> set y" for c y
    using that by (auto simp: split_head_def dest: set_takeWhileD)
  ultimately show ?thesis unfolding extract_base_asset_def using split_head_notin[of "CHR ''/''" x] by simp
qed

lemma base_asset_of_pair: "CHR ''/'' \<notin> set a \<Longrightarrow> extract_base_asset (a @ ''/USDT'') = py_upper a"
proof -
  assume a: "CHR ''/'' \<notin> set a"
  then have "split_head (CHR ''/'') (a @ ''/USDT'') = a"
    unfolding split_head_def by (subst takeWhile_append2) auto
  then show ?thesis by (simp add: extract_base_asset_def)
qed


definition spot_leg :: "recovery_plan \<Rightarrow> int \<Rightarrow> int \<Rightarrow> position_row" where
  "spot_leg p pid sid = recovered_leg pid sid (yp_long_ex p) (yp_spot_symbol p) ''long'' ''spot'' (yp_base p) (yp_spot_entry p) (yp_spot_px p)"

definition perp_leg :: "recovery_plan \<Rightarrow> int \<Rightarrow> int \<Rightarrow> position_row" where
  "perp_leg p pid sid = recovered_leg pid sid (yp_short_ex p) (yp_symbol p) ''short'' ''swap'' (yp_base p) (yp_perp_entry p) (yp_perp_px p)"

lemma book_recovery_tables:
  obtains a b where
    "se_obj (book_recovery p s) = (se_obj s)\<lparr>tb_strategies := tb_strategies (se_obj s) @ [recovered_strategy (next_strategy_id s) p],
       tb_positions := tb_positions (se_obj s) @ [spot_leg p a (next_strategy_id s), perp_leg p b (next_strategy_id s)]\<rparr>"
    "a \<notin> ps_id ` set (tb_positions (se_obj s))" "b \<notin> ps_id ` set (tb_positions (se_obj s))" "a \<noteq> b"
    "se_committed (book_recovery p s) = se_committed s" "se_exchanges (book_recovery p s) = se_exchanges s"
proof -
  let ?sid = "next_strategy_id s"
  let ?s1 = "db_flush (add_strategy (recovered_strategy ?sid p) s)"
  let ?a = "next_position_id ?s1"
  let ?s2 = "add_position (spot_leg p ?a ?sid) ?s1"
  let ?b = "next_position_id ?s2"
  have b: "book_recovery p s = add_position (perp_leg p ?b ?sid) ?s2"
    by (simp add: book_recovery_def spot_leg_def perp_leg_def Let_def)
  have o: "se_obj (book_recovery p s) = (se_obj s)\<lparr>tb_strategies := tb_strategies (se_obj s) @ [recovered_strategy ?sid p],
       tb_positions := tb_positions (se_obj s) @ [spot_leg p ?a ?sid, perp_leg p ?b ?sid]\<rparr>"
    unfolding b by (simp add: add_position_def add_strategy_def db_flush_def)
  have f: "?a \<notin> ps_id ` set (tb_positions (se_obj s))" "?b \<notin> ps_id ` set (tb_positions (se_obj s))" "?a \<noteq> ?b"
    using next_position_id_notin[of ?s1] next_position_id_notin[of ?s2]
    by (auto simp: session_simps spot_leg_def recovered_leg_def)
  show ?thesis by (rule that[OF o f]) (simp_all add: b session_simps)
qed

lemma leg_sels [simp]:
  "ps_id (spot_leg p a i) = a" "ps_id (perp_leg p a i) = a" "ps_strategy_id (spot_leg p a i) = Some i" "ps_strategy_id (perp_leg p a i) = Some i"
  "ps_status (spot_leg p a i) = Some ''open''" "ps_status (perp_leg p a i) = Some ''open''"
  "ps_side (spot_leg p a i) = Some ''long''" "ps_side (perp_leg p a i) = Some ''short''"
  "ps_type (spot_leg p a i) = Some ''spot''" "ps_type (perp_leg p a i) = Some ''swap''"
  "ps_size (spot_leg p a i) = Some (yp_base p)" "ps_size (perp_leg p a i) = Some (yp_base p)"
  "ps_symbol (spot_leg p a i) = Some (yp_spot_symbol p)" "ps_symbol (perp_leg p a i) = Some (yp_symbol p)"
  "ps_exchange_id (spot_leg p a i) = Some (yp_long_ex p)" "ps_exchange_id (perp_leg p a i) = Some (yp_short_ex p)"
  by (simp_all add: spot_leg_def perp_leg_def recovered_leg_def)

lemma leg_kinds [simp]:
  "is_spot_leg (spot_leg p a i)" "\<not> is_spot_leg (perp_leg p a i)" "leg_side_in [''short'', ''sell''] (perp_leg p a i)"
  by (simp_all add: is_spot_leg_def leg_side_in_def py_lower_def char_lower_def Let_def)

lemma recovered_strategy_sels [simp]:
  "st_id (recovered_strategy i p) = i" "st_type (recovered_strategy i p) = Some ''spot_hedge''" "st_status (recovered_strategy i p) = Some ''active''"
  by (simp_all add: recovered_strategy_def)

lemma book_recovery_refs:
  assumes "refs_ok (se_obj s)" shows "refs_ok (se_obj (book_recovery p s))"
proof -
  obtain a b where o: "se_obj (book_recovery p s) = (se_obj s)\<lparr>tb_strategies := tb_strategies (se_obj s) @ [recovered_strategy (next_strategy_id s) p],
       tb_positions := tb_positions (se_obj s) @ [spot_leg p a (next_strategy_id s), perp_leg p b (next_strategy_id s)]\<rparr>"
    and f: "a \<notin> ps_id ` set (tb_positions (se_obj s))" "b \<notin> ps_id ` set (tb_positions (se_obj s))" "a \<noteq> b"
    by (rule book_recovery_tables[of p s])
  show ?thesis
    unfolding o refs_ok_def ids_ok_def using assms f next_strategy_id_notin[of s]
    by (auto simp: refs_ok_def ids_ok_def)
qed

lemma booked_book:
  assumes "refs_ok (se_obj s)"
  obtains a b where "booked part (se_obj (book_recovery p s))
      = booked part (se_obj s) + part (spot_leg p a (next_strategy_id s)) + part (perp_leg p b (next_strategy_id s))"
proof -
  obtain a b where o: "se_obj (book_recovery p s) = (se_obj s)\<lparr>tb_strategies := tb_strategies (se_obj s) @ [recovered_strategy (next_strategy_id s) p],
       tb_positions := tb_positions (se_obj s) @ [spot_leg p a (next_strategy_id s), perp_leg p b (next_strategy_id s)]\<rparr>"
    by (rule book_recovery_tables[of p s])
  define t' where "t' = se_obj (book_recovery p s)"
  have tp: "tb_positions t' = tb_positions (se_obj s) @ [spot_leg p a (next_strategy_id s), perp_leg p b (next_strategy_id s)]"
    and ts: "tb_strategies t' = tb_strategies (se_obj s) @ [recovered_strategy (next_strategy_id s) p]"
    by (simp_all add: t'_def o)
  have "tracked_in t' q = tracked_in (se_obj s) q" if "q \<in> set (tb_positions (se_obj s))" for q
    using that assms next_strategy_id_notin[of s] by (auto simp: ts tracked_in_def refs_ok_def)
  then have m: "map (\<lambda>q. if tracked_in t' q then part q else 0) (tb_positions (se_obj s))
      = map (\<lambda>q. if tracked_in (se_obj s) q then part q else 0) (tb_positions (se_obj s))" by (intro map_cong) simp_all
  have n: "tracked_in t' (spot_leg p a (next_strategy_id s))" "tracked_in t' (perp_leg p b (next_strategy_id s))"
    by (auto simp: ts tracked_in_def hedge_in_def tracked_states_def)
  have "booked part (se_obj (book_recovery p s))
      = booked part (se_obj s) + part (spot_leg p a (next_strategy_id s)) + part (perp_leg p b (next_strategy_id s))"
    unfolding t'_def[symmetric] booked_def tp map_append sum_list_append m by (simp add: n)
  then show ?thesis by (rule that)
qed


section \<open>The recovery loop\<close>

definition pool_ok :: "(leg_key \<times> spot_slot) list \<Rightarrow> bool" where
  "pool_ok pool \<longleftrightarrow> distinct (map fst pool) \<and> (\<forall>k slot. (k, slot) \<in> set pool \<longrightarrow>
     k = (ls_exchange_id (sl_row slot), ls_asset (sl_row slot)) \<and> ls_symbol (sl_row slot) = ls_asset (sl_row slot) @ ''/USDT'')"

definition perp_key :: "untracked_perp \<Rightarrow> leg_key" where
  "perp_key u = (lp_exchange_id (up_row u), lp_symbol (up_row u))"

lemma best_slot_some:
  assumes "best_slot pool asset q = Some x"
  obtains k where "(k, x) \<in> set pool" "spot_candidate asset q (k, x)"
proof -
  let ?xs = "sort_key (\<lambda>x. (\<bar>sl_qty x / q - 1\<bar>, - sl_notional x)) (map snd (filter (spot_candidate asset q) pool))"
  have "\<exists>ys. ?xs = x # ys" using assms by (auto simp: best_slot_def split: list.splits)
  then have "x \<in> set ?xs" by (metis list.set_intros(1))
  then show ?thesis using that by auto
qed

text \<open>What a plan promises: it fits the position and the balance it was made for.\<close>

lemma plan_recovery_facts:
  assumes "plan_recovery s pool perp = Inr p" "pool_ok pool" "lp_base_asset (up_row perp) = extract_base_asset (lp_symbol (up_row perp))"
  obtains slot where "((yp_long_ex p, yp_asset p), slot) \<in> set pool"
    "(yp_short_ex p, yp_symbol p) = perp_key perp" "yp_short_ex p > 0" "yp_long_ex p > 0"
    "yp_asset p = extract_base_asset (yp_symbol p)" "yp_asset p \<noteq> []" "yp_spot_symbol p = yp_asset p @ ''/USDT''"
    "min_recover_base < yp_base p" "yp_base p \<le> up_base perp" "yp_base p \<le> sl_qty slot"
    "size_ratio_min * up_base perp \<le> sl_qty slot" "sl_qty slot \<le> size_ratio_max * up_base perp"
proof -
  have m0: "0 < min_recover_base" by (simp add: min_recover_base_def)
  obtain best where b: "best_slot pool (py_upper (lp_base_asset (up_row perp))) (pos_part (up_base perp)) = Some best"
    using assms(1) unfolding plan_recovery_def Let_def by (fastforce split: if_splits option.splits)
  obtain k where k: "(k, best) \<in> set pool" "spot_candidate (py_upper (lp_base_asset (up_row perp))) (pos_part (up_base perp)) (k, best)"
    by (rule best_slot_some[OF b])
  have key: "k = (ls_exchange_id (sl_row best), ls_asset (sl_row best))" "ls_symbol (sl_row best) = ls_asset (sl_row best) @ ''/USDT''"
    using assms(2) k(1) unfolding pool_ok_def by blast+
  note d = assms(1)[unfolded plan_recovery_def Let_def b option.case]
  have f: "0 < lp_exchange_id (up_row perp)" "py_upper (lp_base_asset (up_row perp)) \<noteq> []" "min_recover_base < pos_part (up_base perp)"
    "0 < ls_exchange_id (sl_row best)" "min_recover_base < min (pos_part (up_base perp)) (pos_part (sl_qty best))"
    using d by (auto split: if_splits option.splits)
  have p: "yp_long_ex p = ls_exchange_id (sl_row best)" "yp_short_ex p = lp_exchange_id (up_row perp)" "yp_symbol p = lp_symbol (up_row perp)"
    "yp_asset p = py_upper (lp_base_asset (up_row perp))" "yp_base p = min (pos_part (up_base perp)) (pos_part (sl_qty best))"
    "yp_spot_symbol p = (if ls_symbol (sl_row best) = [] then py_upper (lp_base_asset (up_row perp)) @ ''/USDT'' else ls_symbol (sl_row best))"
    using d by (auto split: if_splits option.splits)
  have pos: "pos_part (up_base perp) = up_base perp" "0 < up_base perp" using f(3) m0 by (auto simp: pos_part_def max_def split: if_splits)
  have c: "ls_asset (sl_row best) = py_upper (lp_base_asset (up_row perp))" "min_recover_base < pos_part (sl_qty best)"
    "size_ratio_min \<le> pos_part (sl_qty best) / up_base perp" "pos_part (sl_qty best) / up_base perp \<le> size_ratio_max"
    using k(2) key(1) pos by (auto simp: spot_candidate_def Let_def)
  have q: "pos_part (sl_qty best) = sl_qty best" using c(2) m0 by (auto simp: pos_part_def max_def split: if_splits)
  show ?thesis
  proof (rule that)
    show "((yp_long_ex p, yp_asset p), best) \<in> set pool" using k(1) key(1) c(1) p(1,4) by simp
    show "(yp_short_ex p, yp_symbol p) = perp_key perp" by (simp add: perp_key_def p)
    show "yp_short_ex p > 0" "yp_long_ex p > 0" using f p by simp_all
    show "yp_asset p = extract_base_asset (yp_symbol p)" "yp_asset p \<noteq> []" using f(2) by (simp_all add: p assms(3))
    show "yp_spot_symbol p = yp_asset p @ ''/USDT''" using key(2) c(1) by (simp add: p)
    show "min_recover_base < yp_base p" "yp_base p \<le> up_base perp" "yp_base p \<le> sl_qty best" using f(5) pos q by (simp_all add: p)
    show "size_ratio_min * up_base perp \<le> sl_qty best" "sl_qty best \<le> size_ratio_max * up_base perp"
      using c(3,4) pos(2) q by (simp_all add: field_simps)
  qed
qed

text \<open>A hedged recovery: two open legs of one size on one asset, long in spot and short in the contract.\<close>

definition hedged :: "tables \<Rightarrow> int \<Rightarrow> bool" where
  "hedged t sid \<longleftrightarrow> (\<exists>a b q. filter (is_open_of sid) (tb_positions t) = [a, b]
     \<and> ps_type a = Some ''spot'' \<and> ps_side a = Some ''long'' \<and> ps_type b = Some ''swap'' \<and> ps_side b = Some ''short''
     \<and> ps_size a = Some q \<and> ps_size b = Some q \<and> min_recover_base < q
     \<and> extract_base_asset (str_or_empty (ps_symbol a)) = extract_base_asset (str_or_empty (ps_symbol b)))"

definition in_limits :: "(leg_key \<Rightarrow> real) \<Rightarrow> (leg_key \<Rightarrow> real) \<Rightarrow> tables \<Rightarrow> bool" where
  "in_limits bp bs t \<longleftrightarrow> (\<forall>k. booked (perp_part k) t \<le> bp k \<and> booked (spot_part k) t \<le> bs k)"

definition new_hedged :: "int set \<Rightarrow> tables \<Rightarrow> bool" where
  "new_hedged old t \<longleftrightarrow> (\<forall>r \<in> set (tb_strategies t). st_id r \<notin> old \<longrightarrow> hedged t (st_id r))"

definition sound_tables :: "(leg_key \<Rightarrow> real) \<Rightarrow> (leg_key \<Rightarrow> real) \<Rightarrow> int set \<Rightarrow> tables \<Rightarrow> bool" where
  "sound_tables bp bs old t \<longleftrightarrow> refs_ok t \<and> in_limits bp bs t \<and> new_hedged old t \<and> no_empty t"

definition recovery_inv ::
    "(leg_key \<Rightarrow> real) \<Rightarrow> (leg_key \<Rightarrow> real) \<Rightarrow> int set \<Rightarrow> untracked_perp list \<Rightarrow> session \<Rightarrow> (leg_key \<times> spot_slot) list \<Rightarrow> bool" where
  "recovery_inv bp bs old perps s pool \<longleftrightarrow> clean s \<and> sound_tables bp bs old (se_obj s) \<and> pool_ok pool
     \<and> (\<forall>k slot. (k, slot) \<in> set pool \<longrightarrow> 0 \<le> sl_qty slot \<and> booked (spot_part k) (se_obj s) + sl_qty slot \<le> bs k)
     \<and> distinct (map perp_key perps)
     \<and> (\<forall>u \<in> set perps. booked (perp_part (perp_key u)) (se_obj s) + up_base u \<le> bp (perp_key u)
          \<and> lp_base_asset (up_row u) = extract_base_asset (lp_symbol (up_row u)))"

lemma leg_parts:
  assumes "yp_short_ex p > 0" "yp_long_ex p > 0" "0 \<le> yp_base p"
    "yp_asset p = extract_base_asset (yp_symbol p)" "yp_asset p \<noteq> []" "yp_spot_symbol p = yp_asset p @ ''/USDT''"
  shows "perp_part k (spot_leg p a i) = 0" "spot_part k (perp_leg p b i) = 0"
    "perp_part k (perp_leg p b i) = (if k = (yp_short_ex p, yp_symbol p) then yp_base p else 0)"
    "spot_part k (spot_leg p a i) = (if k = (yp_long_ex p, yp_asset p) then yp_base p else 0)"
proof -
  have "extract_base_asset (yp_spot_symbol p) = yp_asset p"
    unfolding assms(6) by (subst base_asset_of_pair) (simp_all add: assms(4))
  then show "perp_part k (spot_leg p a i) = 0" "spot_part k (perp_leg p b i) = 0"
    "perp_part k (perp_leg p b i) = (if k = (yp_short_ex p, yp_symbol p) then yp_base p else 0)"
    "spot_part k (spot_leg p a i) = (if k = (yp_long_ex p, yp_asset p) then yp_base p else 0)"
    using assms(1-3,5) by (simp_all add: perp_part_def spot_part_def leg_qty_def Let_def)
qed


lemma is_open_of_leg: "is_open_of sid (spot_leg p a i) = (sid = i)" "is_open_of sid (perp_leg p a i) = (sid = i)"
  by (auto simp: is_open_of_def)

lemma hedged_book:
  assumes "refs_ok (se_obj s)" "new_hedged old (se_obj s)" "no_empty (se_obj s)" "min_recover_base < yp_base p"
    "yp_asset p = extract_base_asset (yp_symbol p)" "yp_spot_symbol p = yp_asset p @ ''/USDT''"
  shows "new_hedged old (se_obj (book_recovery p s))" "no_empty (se_obj (book_recovery p s))"
proof -
  let ?i = "next_strategy_id s"
  obtain a b where o: "se_obj (book_recovery p s) = (se_obj s)\<lparr>tb_strategies := tb_strategies (se_obj s) @ [recovered_strategy ?i p],
       tb_positions := tb_positions (se_obj s) @ [spot_leg p a ?i, perp_leg p b ?i]\<rparr>"
    by (rule book_recovery_tables[of p s])
  have asset: "extract_base_asset (yp_spot_symbol p) = extract_base_asset (yp_symbol p)"
    unfolding assms(6) by (subst base_asset_of_pair) (simp_all add: assms(5))
  have none: "filter (is_open_of ?i) (tb_positions (se_obj s)) = []"
    using assms(1) next_strategy_id_notin[of s] by (auto simp: filter_empty_conv is_open_of_def refs_ok_def)
  have "hedged (se_obj (book_recovery p s)) ?i"
    unfolding hedged_def using assms(4) asset by (simp add: o none is_open_of_leg)
  moreover have "hedged (se_obj (book_recovery p s)) j = hedged (se_obj s) j" if "j \<noteq> ?i" for j
    using that by (simp add: hedged_def o is_open_of_leg)
  moreover have "st_id r \<noteq> ?i" if "r \<in> set (tb_strategies (se_obj s))" for r
    using that next_strategy_id_notin[of s] by (metis image_eqI)
  ultimately show "new_hedged old (se_obj (book_recovery p s))"
    using assms(2) by (auto simp: new_hedged_def o)
  show "no_empty (se_obj (book_recovery p s))"
    using assms(3) by (auto simp: no_empty_def o is_open_of_leg)
qed

lemma recovery_step:
  assumes inv: "recovery_inv bp bs old (perp # perps) s pool" and plan: "plan_recovery s pool perp = Inr p"
  shows "recovery_inv bp bs old perps (db_commit (book_recovery p s)) (consume_slot (yp_long_ex p, yp_asset p) (yp_base p) pool)"
proof -
  let ?i = "next_strategy_id s" and ?t = "se_obj (book_recovery p s)" and ?k = "(yp_long_ex p, yp_asset p)"
  note I = inv[unfolded recovery_inv_def sound_tables_def in_limits_def]
  have refs: "refs_ok (se_obj s)" and pool: "pool_ok pool" and base: "lp_base_asset (up_row perp) = extract_base_asset (lp_symbol (up_row perp))"
    and hedge: "new_hedged old (se_obj s)" "no_empty (se_obj s)"
    using I by auto
  obtain slot where slot: "(?k, slot) \<in> set pool" and pk: "(yp_short_ex p, yp_symbol p) = perp_key perp"
    and ex: "yp_short_ex p > 0" "yp_long_ex p > 0"
    and asset: "yp_asset p = extract_base_asset (yp_symbol p)" "yp_asset p \<noteq> []" "yp_spot_symbol p = yp_asset p @ ''/USDT''"
    and qty: "min_recover_base < yp_base p" "yp_base p \<le> up_base perp" "yp_base p \<le> sl_qty slot"
    by (rule plan_recovery_facts[OF plan pool base])
  have q0: "0 \<le> yp_base p" using qty(1) by (simp add: min_recover_base_def)
  note parts = leg_parts[OF ex q0 asset]
  have bp: "booked (perp_part k) ?t = booked (perp_part k) (se_obj s) + (if k = perp_key perp then yp_base p else 0)" for k
    by (rule booked_book[OF refs, of "perp_part k" p]) (simp add: parts pk)
  have bs: "booked (spot_part k) ?t = booked (spot_part k) (se_obj s) + (if k = ?k then yp_base p else 0)" for k
    by (rule booked_book[OF refs, of "spot_part k" p]) (simp add: parts)
  have found: "map_of pool ?k = Some slot" using pool slot by (simp add: pool_ok_def)
  define slot' where "slot' = slot\<lparr>sl_qty := pos_part (sl_qty slot - yp_base p),
      sl_notional := pos_part (pos_part (sl_qty slot - yp_base p) * pos_part (ls_price (sl_row slot)))\<rparr>"
  have c: "consume_slot ?k (yp_base p) pool = AList.update ?k slot' pool"
    by (simp add: consume_slot_def found slot'_def Let_def)
  have sl: "sl_row slot' = sl_row slot" "sl_qty slot' = sl_qty slot - yp_base p" using qty(3) by (simp_all add: slot'_def)
  have dp: "distinct (map fst pool)" using pool by (simp add: pool_ok_def)
  have mem: "(k, x) = (?k, slot') \<or> ((k, x) \<in> set pool \<and> k \<noteq> ?k)" if "(k, x) \<in> set (AList.update ?k slot' pool)" for k x
    using set_update_cases[OF that dp] .
  have pool': "pool_ok (AList.update ?k slot' pool)"
  proof -
    have "k = (ls_exchange_id (sl_row x), ls_asset (sl_row x)) \<and> ls_symbol (sl_row x) = ls_asset (sl_row x) @ ''/USDT''"
      if "(k, x) \<in> set (AList.update ?k slot' pool)" for k x
      using mem[OF that] pool slot sl(1) unfolding pool_ok_def by (metis prod.inject)
    then show ?thesis using dp by (simp add: pool_ok_def distinct_update)
  qed
  have slots: "0 \<le> sl_qty x \<and> booked (spot_part k) ?t + sl_qty x \<le> bs k" if "(k, x) \<in> set (AList.update ?k slot' pool)" for k x
  proof -
    have o: "0 \<le> sl_qty y \<and> booked (spot_part j) (se_obj s) + sl_qty y \<le> bs j" if "(j, y) \<in> set pool" for j y
      using I that by blast
    from mem[OF that] show ?thesis
    proof
      assume "(k, x) = (?k, slot')" then show ?thesis using o[OF slot] qty(3) sl(2) unfolding bs by simp
    next
      assume "(k, x) \<in> set pool \<and> k \<noteq> ?k" then show ?thesis using o[of k x] unfolding bs by simp
    qed
  qed
  have lim: "booked (perp_part k) ?t \<le> bp k \<and> booked (spot_part k) ?t \<le> bs k" for k
  proof
    have "perp \<in> set (perp # perps)" by simp
    then have "booked (perp_part (perp_key perp)) (se_obj s) + up_base perp \<le> bp (perp_key perp)" "booked (perp_part k) (se_obj s) \<le> bp k"
      using I by blast+
    then show "booked (perp_part k) ?t \<le> bp k" using qty(2) unfolding bp by auto
    have "booked (spot_part ?k) (se_obj s) + sl_qty slot \<le> bs ?k" "booked (spot_part k) (se_obj s) \<le> bs k"
      using I slot by blast+
    then show "booked (spot_part k) ?t \<le> bs k" using qty(3) unfolding bs by auto
  qed
  have rest: "booked (perp_part (perp_key u)) ?t + up_base u \<le> bp (perp_key u)" if "u \<in> set perps" for u
  proof -
    have "perp_key perp \<notin> perp_key ` set perps" using inv unfolding recovery_inv_def by simp
    then have "perp_key u \<noteq> perp_key perp" using that by (metis image_eqI)
    moreover have "u \<in> set (perp # perps)" using that by simp
    then have "booked (perp_part (perp_key u)) (se_obj s) + up_base u \<le> bp (perp_key u)" using I by blast
    ultimately show ?thesis unfolding bp by simp
  qed
  have h: "new_hedged old ?t" "no_empty ?t" using hedged_book[OF refs hedge qty(1) asset(1,3)] .
  have cl: "clean (db_commit (book_recovery p s))" by simp
  have "distinct (map perp_key perps)" "\<forall>u \<in> set perps. lp_base_asset (up_row u) = extract_base_asset (lp_symbol (up_row u))"
    using I by simp_all
  with cl pool' slots lim rest h book_recovery_refs[OF refs, of p] show ?thesis
    unfolding recovery_inv_def sound_tables_def in_limits_def c db_commit_views(1) by blast
qed


lemma recovery_loop:
  assumes "recovery_inv bp bs old perps (ry_session st) (ry_pool st)" "recover_perps env perps st w = x"
  shows "case x of Inl (e, s', w') \<Rightarrow> sound_tables bp bs old (se_committed s')
    | Inr (st', w') \<Rightarrow> clean (ry_session st') \<and> sound_tables bp bs old (se_obj (ry_session st'))"
  using assms
proof (induction perps arbitrary: st w)
  case Nil
  then show ?case by (auto simp: recovery_inv_def)
next
  case (Cons perp perps)
  show ?case
  proof (cases "plan_recovery (ry_session st) (ry_pool st) perp")
    case (Inl e)
    obtain reason sid where e: "e = (reason, sid)" by (metis surj_pair)
    have "recovery_inv bp bs old perps (ry_session st) (ry_pool st)" using Cons.prems(1) by (simp add: recovery_inv_def)
    then show ?thesis
      using Cons.prems(2) Inl e by (intro Cons.IH[of "st\<lparr>ry_skipped := ry_skipped st @ [(perp, reason, sid)]\<rparr>" w]) simp_all
  next
    case (Inr p)
    note step = recovery_step[OF Cons.prems(1) Inr]
    obtain f w1 where f: "rc_commit_fails env w = (f, w1)" by (metis surj_pair)
    show ?thesis
    proof (cases f)
      case None
      let ?st = "st\<lparr>ry_session := db_commit (book_recovery p (ry_session st)),
          ry_pool := consume_slot (yp_long_ex p, yp_asset p) (yp_base p) (ry_pool st),
          ry_recovered := ry_recovered st @ [recovered_of (next_strategy_id (ry_session st)) p]\<rparr>"
      have "recover_perps env perps ?st w1 = x" using Cons.prems(2) Inr f None by (simp add: try_commit_def Let_def)
      then show ?thesis using step by (intro Cons.IH[of ?st w1]) simp_all
    next
      case (Some e)
      have "x = Inl (e, book_recovery p (ry_session st), w1)" using Cons.prems(2) Inr f Some by (simp add: try_commit_def Let_def)
      moreover have "se_committed (book_recovery p (ry_session st)) = se_committed (ry_session st)"
        by (rule book_recovery_tables[of p "ry_session st"])
      ultimately show ?thesis using Cons.prems(1) by (simp add: recovery_inv_def clean_def)
    qed
  qed
qed

text \<open>The loop starts within the limits: what is booked already or what the exchange holds.\<close>

lemma untracked_of_some:
  assumes "untracked_of tracked (k, row) = Some u"
  shows "up_row u = row" "up_base u = pos_part (lp_base_size row - pos_part (lookup_qty tracked k))"
  using assms by (auto simp: untracked_of_def Let_def split: if_splits)

lemma slot_of_some:
  assumes "slot_of tracked (k, row) = Some e"
  shows "fst e = k" "sl_row (snd e) = row" "sl_qty (snd e) = pos_part (ls_qty row - pos_part (lookup_qty tracked k))"
  using assms by (auto simp: slot_of_def Let_def split: if_splits)

lemma set_map_filter: "set (List.map_filter f xs) = {y. \<exists>x \<in> set xs. f x = Some y}"
  by (induction xs) (auto simp: List.map_filter_simps split: option.splits)

lemma distinct_map_filter_key:
  assumes "distinct (map fst xs)" "\<And>x y. x \<in> set xs \<Longrightarrow> f x = Some y \<Longrightarrow> g y = fst x"
  shows "distinct (map g (List.map_filter f xs))"
  using assms
proof (induction xs)
  case (Cons x xs)
  have "g y \<noteq> fst x" if "y \<in> set (List.map_filter f xs)" for y
  proof -
    obtain z where "z \<in> set xs" "f z = Some y" using \<open>y \<in> set _\<close> by (auto simp: set_map_filter)
    then have "g y = fst z" "fst z \<in> fst ` set xs" using Cons.prems(2)[of z y] by simp_all
    moreover have "fst x \<notin> fst ` set xs" using Cons.prems(1) by simp
    ultimately show ?thesis by metis
  qed
  then have "g y \<notin> g ` set (List.map_filter f xs)" if "f x = Some y" for y
    using Cons.prems(2)[of x y] that by (metis imageE list.set_intros(1))
  moreover have "distinct (map g (List.map_filter f xs))"
    by (rule Cons.IH) (use Cons.prems in auto)
  ultimately show ?case by (simp add: List.map_filter_simps split: option.split)
qed (simp add: List.map_filter_simps)

lemma pos_part_gap: "0 \<le> a \<Longrightarrow> a + pos_part (b - pos_part a) = max a b"
  by (auto simp: pos_part_def)

lemma recovery_start:
  assumes "clean s" "refs_ok (se_obj s)" "no_empty (se_obj s)" "shorts_ok perps" "spots_ok spots"
    "\<And>k. lookup_qty tp k = booked (perp_part k) (se_obj s)" "\<And>k. lookup_qty ts k = booked (spot_part k) (se_obj s)"
    "old = st_id ` set (tb_strategies (se_obj s))"
  shows "recovery_inv (\<lambda>k. max (booked (perp_part k) (se_obj s)) (held_short perps k))
      (\<lambda>k. max (booked (spot_part k) (se_obj s)) (held_spot spots k)) old
      (untracked_perps perps tp) s (spot_pool spots ts)"
proof -
  have u: "perp_key u = k \<and> lp_base_asset (up_row u) = extract_base_asset (lp_symbol (up_row u)) \<and> held_short perps k = lp_base_size row
      \<and> booked (perp_part k) (se_obj s) + up_base u = max (booked (perp_part k) (se_obj s)) (held_short perps k)"
    if "(k, row) \<in> set perps" "untracked_of tp (k, row) = Some u" for k row u
  proof -
    have "k = (lp_exchange_id row, lp_symbol row)" "lp_base_asset row = extract_base_asset (lp_symbol row)" "distinct (map fst perps)"
      using assms(4) that(1) unfolding shorts_ok_def by blast+
    moreover have "held_short perps k = lp_base_size row" using that(1) calculation(3) by (simp add: held_short_def)
    ultimately show ?thesis using untracked_of_some[OF that(2)] pos_part_gap[OF booked_nonneg[of "perp_part k" "se_obj s"]]
      by (simp add: perp_key_def assms(6))
  qed
  have set_u: "\<exists>k row. (k, row) \<in> set perps \<and> untracked_of tp (k, row) = Some v" if "v \<in> set (untracked_perps perps tp)" for v
    using that by (auto simp: untracked_perps_def set_map_filter)
  have d: "distinct (map perp_key (untracked_perps perps tp))"
    unfolding untracked_perps_def distinct_map_sort_desc
  proof (rule distinct_map_filter_key)
    show "distinct (map fst perps)" using assms(4) by (simp add: shorts_ok_def)
    show "perp_key y = fst x" if "x \<in> set perps" "untracked_of tp x = Some y" for x y
      using u[of "fst x" "snd x" y] that by simp
  qed
  have e: "fst x = k \<and> k = (ls_exchange_id (sl_row (snd x)), ls_asset (sl_row (snd x))) \<and> ls_symbol (sl_row (snd x)) = ls_asset (sl_row (snd x)) @ ''/USDT''
      \<and> 0 \<le> sl_qty (snd x) \<and> booked (spot_part k) (se_obj s) + sl_qty (snd x) = max (booked (spot_part k) (se_obj s)) (held_spot spots k)"
    if "(k, row) \<in> set spots" "slot_of ts (k, row) = Some x" for k row x
  proof -
    have "k = (ls_exchange_id row, ls_asset row)" "ls_symbol row = ls_asset row @ ''/USDT''" "distinct (map fst spots)"
      using assms(5) that(1) unfolding spots_ok_def by blast+
    moreover have "held_spot spots k = ls_qty row" using that(1) calculation(3) by (simp add: held_spot_def)
    ultimately show ?thesis using slot_of_some[OF that(2)] pos_part_gap[OF booked_nonneg[of "spot_part k" "se_obj s"]]
      by (simp add: assms(7))
  qed
  have set_e: "\<exists>k row. (k, row) \<in> set spots \<and> slot_of ts (k, row) = Some x" if "x \<in> set (spot_pool spots ts)" for x
    using that by (auto simp: spot_pool_def set_map_filter)
  have dp: "distinct (map fst (spot_pool spots ts))"
    unfolding spot_pool_def
  proof (rule distinct_map_filter_key)
    show "distinct (map fst spots)" using assms(5) by (simp add: spots_ok_def)
    show "fst y = fst x" if "x \<in> set spots" "slot_of ts x = Some y" for x y
      using e[of "fst x" "snd x" y] that by simp
  qed
  have pool: "pool_ok (spot_pool spots ts)"
  proof -
    have "k = (ls_exchange_id (sl_row x), ls_asset (sl_row x)) \<and> ls_symbol (sl_row x) = ls_asset (sl_row x) @ ''/USDT''"
      if "(k, x) \<in> set (spot_pool spots ts)" for k x
    proof -
      obtain k' row where "(k', row) \<in> set spots" "slot_of ts (k', row) = Some (k, x)" using set_e[OF \<open>(k, x) \<in> _\<close>] by blast
      from e[OF this] show ?thesis by simp
    qed
    then show ?thesis unfolding pool_ok_def using dp by blast
  qed
  have slots: "0 \<le> sl_qty x \<and> booked (spot_part k) (se_obj s) + sl_qty x \<le> max (booked (spot_part k) (se_obj s)) (held_spot spots k)"
    if "(k, x) \<in> set (spot_pool spots ts)" for k x
  proof -
    obtain k' row where "(k', row) \<in> set spots" "slot_of ts (k', row) = Some (k, x)" using set_e[OF \<open>(k, x) \<in> _\<close>] by blast
    from e[OF this] show ?thesis by (metis fst_conv order_refl snd_conv)
  qed
  have perps: "booked (perp_part (perp_key v)) (se_obj s) + up_base v \<le> max (booked (perp_part (perp_key v)) (se_obj s)) (held_short perps (perp_key v))
      \<and> lp_base_asset (up_row v) = extract_base_asset (lp_symbol (up_row v))" if "v \<in> set (untracked_perps perps tp)" for v
  proof -
    obtain k row where "(k, row) \<in> set perps" "untracked_of tp (k, row) = Some v" using set_u[OF \<open>v \<in> _\<close>] by blast
    from u[OF this] show ?thesis by simp
  qed
  have "new_hedged old (se_obj s)" by (auto simp: new_hedged_def assms(8))
  then have "sound_tables (\<lambda>k. max (booked (perp_part k) (se_obj s)) (held_short perps k))
      (\<lambda>k. max (booked (spot_part k) (se_obj s)) (held_spot spots k)) old (se_obj s)"
    using assms(2,3) by (simp add: sound_tables_def in_limits_def)
  then show ?thesis unfolding recovery_inv_def using assms(1) pool slots d perps by blast
qed


text \<open>The loop only adds strategies.\<close>

lemma recovery_loop_adds:
  assumes "recover_perps env perps st w = Inr (st', w')"
  shows "\<exists>new. tb_strategies (se_obj (ry_session st')) = tb_strategies (se_obj (ry_session st)) @ new"
  using assms
proof (induction perps arbitrary: st w)
  case (Cons perp perps)
  show ?case
  proof (cases "plan_recovery (ry_session st) (ry_pool st) perp")
    case (Inl e)
    obtain reason sid where e: "e = (reason, sid)" by (metis surj_pair)
    show ?thesis using Cons.IH[of "st\<lparr>ry_skipped := ry_skipped st @ [(perp, reason, sid)]\<rparr>" w] Cons.prems Inl e by simp
  next
    case (Inr p)
    obtain f w1 where f: "rc_commit_fails env w = (f, w1)" by (metis surj_pair)
    have n: "f = None" using Cons.prems Inr f by (auto simp: try_commit_def Let_def split: option.splits)
    let ?st = "st\<lparr>ry_session := db_commit (book_recovery p (ry_session st)),
          ry_pool := consume_slot (yp_long_ex p, yp_asset p) (yp_base p) (ry_pool st),
          ry_recovered := ry_recovered st @ [recovered_of (next_strategy_id (ry_session st)) p]\<rparr>"
    have "recover_perps env perps ?st w1 = Inr (st', w')" using Cons.prems Inr f n by (simp add: try_commit_def Let_def)
    from Cons.IH[OF this] obtain new where "tb_strategies (se_obj (ry_session st')) = tb_strategies (se_obj (book_recovery p (ry_session st))) @ new"
      by (auto simp: session_simps)
    moreover have "\<exists>r. tb_strategies (se_obj (book_recovery p (ry_session st))) = tb_strategies (se_obj (ry_session st)) @ [r]"
      by (rule book_recovery_tables[of p "ry_session st"]) simp
    ultimately show ?thesis by auto
  qed
qed simp

section \<open>A run\<close>

text \<open>What the exchanges report in a run.\<close>

definition reconcile_live :: "'w recon_env \<Rightarrow> session \<Rightarrow> 'w \<Rightarrow> (leg_key \<times> live_perp) list \<times> (leg_key \<times> live_spot) list" where
  "reconcile_live env s w =
     (let exs = filter (rc_active env) (se_exchanges s) in
      case close_without_open_legs env s w of
        Inl _ \<Rightarrow> ([], [])
      | Inr (_, s1, w1) \<Rightarrow>
          (case collect_live_perp_shorts env exs w1 of (shorts, w2) \<Rightarrow> (shorts, fst (collect_live_spot_assets env exs w2))))"

definition within_holdings :: "tables \<Rightarrow> (leg_key \<times> live_perp) list \<times> (leg_key \<times> live_spot) list \<Rightarrow> tables \<Rightarrow> bool" where
  "within_holdings t live t' \<longleftrightarrow>
     in_limits (\<lambda>k. max (booked (perp_part k) t) (held_short (fst live) k))
       (\<lambda>k. max (booked (spot_part k) t) (held_spot (snd live) k)) t'"

definition sound_run :: "tables \<Rightarrow> (leg_key \<times> live_perp) list \<times> (leg_key \<times> live_spot) list \<Rightarrow> tables \<Rightarrow> bool" where
  "sound_run t live t' \<longleftrightarrow> refs_ok t' \<and> within_holdings t live t' \<and> new_hedged (st_id ` set (tb_strategies t)) t'"

lemma sound_run_same:
  assumes "refs_ok t'" "\<And>part. booked part t' = booked part t" "map st_id (tb_strategies t') = map st_id (tb_strategies t)"
  shows "sound_run t live t'"
proof -
  have "st_id ` set (tb_strategies t') = st_id ` set (tb_strategies t)" using assms(3) by (metis set_map)
  then have "new_hedged (st_id ` set (tb_strategies t)) t'" unfolding new_hedged_def by (metis image_eqI)
  then show ?thesis using assms(1,2) by (simp add: sound_run_def within_holdings_def in_limits_def)
qed

lemma same_books_ids: "same_books t t' \<Longrightarrow> map st_id (tb_strategies t') = map st_id (tb_strategies t)"
  unfolding same_books_def
  by (rule map_eq_transfer[where v = strategy_view]) (auto simp: strategy_view_def)

lemma reconcile_body_facts:
  assumes "reconcile_body env ts s w = x" "clean s" "refs_ok (se_obj s)"
  shows "case x of Inl (e, s', w') \<Rightarrow> sound_run (se_obj s) (reconcile_live env s w) (se_committed s')
    | Inr (sm, s', w') \<Rightarrow> clean s' \<and> sound_run (se_obj s) (reconcile_live env s w) (se_obj s')
        \<and> (sm_status sm = ''ok'' \<longrightarrow> no_empty (se_obj s') \<and>
            (\<forall>r \<in> set (empty_strategies s). \<forall>r' \<in> set (tb_strategies (se_obj s')). st_id r' = st_id r \<longrightarrow> st_status r' = Some ''closed''))"
proof -
  let ?live = "reconcile_live env s w" and ?exs = "filter (rc_active env) (se_exchanges s)"
  have t0: "se_committed s = se_obj s" using assms(2) by (simp add: clean_def)
  have self: "sound_run (se_obj s) ?live (se_obj s)" by (rule sound_run_same) (simp_all add: assms(3))
  show ?thesis
  proof (cases "?exs = []")
    case True
    then have "x = Inr ((plain_summary (Some ts) ''no_active_exchange'')\<lparr>sm_recovered_pairs := Some 0\<rparr>, s, w)"
      using assms(1) by (simp add: reconcile_body_def)
    then show ?thesis using self assms(2) by (simp add: plain_summary_def)
  next
    case ne: False
    note A = close_without_open_legs_facts[OF refl assms(2,3), of env w]
    show ?thesis
    proof (cases "close_without_open_legs env s w")
      case (Inl y)
      then have "x = Inl y" using assms(1) ne by (simp add: reconcile_body_def)
      then show ?thesis using A Inl self t0 by (cases y) simp
    next
      case (Inr y)
      obtain ids s1 w1 where y: "y = (ids, s1, w1)" by (metis prod_cases3)
      have c1: "clean s1" "refs_ok (se_obj s1)" "no_empty (se_obj s1)" "map st_id (tb_strategies (se_obj s1)) = map st_id (tb_strategies (se_obj s))"
        and b1: "\<And>part. booked part (se_obj s1) = booked part (se_obj s)"
        and cl: "\<forall>r \<in> set (empty_strategies s). \<forall>r' \<in> set (tb_strategies (se_obj s1)). st_id r' = st_id r \<longrightarrow> st_status r' = Some ''closed''"
        using A unfolding Inr y by auto
      obtain tp tq where tr: "load_tracked_open_legs s1 = (tp, tq)" by (metis surj_pair)
      obtain shorts w2 where sh: "collect_live_perp_shorts env ?exs w1 = (shorts, w2)" by (metis surj_pair)
      obtain spots w3 where sp: "collect_live_spot_assets env ?exs w2 = (spots, w3)" by (metis surj_pair)
      have live: "?live = (shorts, spots)" using Inr y sh sp by (simp add: reconcile_live_def)
      note B = sync_recovered_facts[OF refl c1(1), of env shorts w3]
      show ?thesis
      proof (cases "sync_recovered_entry_prices env shorts s1 w3")
        case Inl2: (Inl z)
        then have "x = Inl z" using assms(1) ne Inr y tr sh sp by (simp add: reconcile_body_def)
        moreover have "sound_run (se_obj s) ?live (se_obj s1)" by (rule sound_run_same) (simp_all add: c1 b1)
        ultimately show ?thesis using B Inl2 c1(1) by (cases z) (simp add: clean_def)
      next
        case Inr2: (Inr z)
        obtain n s2 w4 where z: "z = (n, s2, w4)" by (metis prod_cases3)
        have c2: "clean s2" "same_books (se_obj s1) (se_obj s2)" using B unfolding Inr2 z by auto
        have r2: "refs_ok (se_obj s2)" using same_books_refs[OF c2(2)] c1(2) by simp
        have n2: "no_empty (se_obj s2)" using same_books_no_empty[OF c2(2)] c1(3) by simp
        have b2: "booked (perp_part k) (se_obj s2) = booked (perp_part k) (se_obj s)" "booked (spot_part k) (se_obj s2) = booked (spot_part k) (se_obj s)" for k
          using booked_same[OF c2(2)] b1 by simp_all
        have i2: "st_id ` set (tb_strategies (se_obj s2)) = st_id ` set (tb_strategies (se_obj s))"
          using same_books_ids[OF c2(2)] c1(4) by (metis set_map)
        have ids1: "ids_ok (se_obj s1)" using c1(2) by (simp add: refs_ok_def)
        have lt: "lookup_qty tp k = booked (perp_part k) (se_obj s2)" "lookup_qty tq k = booked (spot_part k) (se_obj s2)" for k
          using load_tracked[OF ids1 clean_view[OF c1(1)], of k] unfolding tr by (simp_all add: b1 b2)
        have so: "shorts_ok shorts" "spots_ok spots" using collect_shorts_ok[of env ?exs w1] collect_spots_ok[of env ?exs w2] sh sp by simp_all
        let ?st = "\<lparr>ry_session = s2, ry_pool = spot_pool spots tq, ry_recovered = [], ry_skipped = []\<rparr>"
        let ?old = "st_id ` set (tb_strategies (se_obj s))"
        have start: "recovery_inv (\<lambda>k. max (booked (perp_part k) (se_obj s)) (held_short shorts k))
            (\<lambda>k. max (booked (spot_part k) (se_obj s)) (held_spot spots k)) ?old (untracked_perps shorts tp) (ry_session ?st) (ry_pool ?st)"
          using recovery_start[OF c2(1) r2 n2 so lt i2[symmetric]] unfolding b2 by simp
        note C = recovery_loop[OF start refl, of env w4]
        have sound: "sound_run (se_obj s) ?live t'" if "sound_tables (\<lambda>k. max (booked (perp_part k) (se_obj s)) (held_short shorts k))
            (\<lambda>k. max (booked (spot_part k) (se_obj s)) (held_spot spots k)) ?old t'" for t'
          using that by (simp add: sound_run_def sound_tables_def within_holdings_def live)
        show ?thesis
        proof (cases "recover_perps env (untracked_perps shorts tp) ?st w4")
          case Inl3: (Inl u)
          then have "x = Inl u" using assms(1) ne Inr y tr sh sp Inr2 z by (simp add: reconcile_body_def)
          then show ?thesis using C Inl3 sound by (cases u) simp
        next
          case Inr3: (Inr u)
          obtain st' w5 where u: "u = (st', w5)" by (metis surj_pair)
          have x: "\<exists>sm. x = Inr (sm, ry_session st', w5) \<and> sm_status sm = ''ok''"
            unfolding assms(1)[symmetric] using ne Inr y tr sh sp Inr2 z Inr3 u by (simp add: reconcile_body_def plain_summary_def Let_def)
          have D: "clean (ry_session st')" "sound_tables (\<lambda>k. max (booked (perp_part k) (se_obj s)) (held_short shorts k))
            (\<lambda>k. max (booked (spot_part k) (se_obj s)) (held_spot spots k)) ?old (se_obj (ry_session st'))"
            using C unfolding Inr3 u by auto
          obtain new where new: "tb_strategies (se_obj (ry_session st')) = tb_strategies (se_obj s2) @ new"
            using recovery_loop_adds[of env _ ?st w4 st' w5] Inr3 u by auto
          have "st_status r' = Some ''closed''"
            if "r \<in> set (empty_strategies s)" "r' \<in> set (tb_strategies (se_obj (ry_session st')))" "st_id r' = st_id r" for r r'
          proof -
            have "st_id r \<in> st_id ` set (tb_strategies (se_obj s))"
              using that(1) empty_strategies_clean(1)[OF assms(2,3)] by auto
            then have "st_id r \<in> st_id ` set (tb_strategies (se_obj s2))" unfolding i2 .
            moreover have "distinct (map st_id (tb_strategies (se_obj s2) @ new))"
              using D(2) new by (simp add: sound_tables_def refs_ok_def ids_ok_def)
            ultimately have "st_id r \<notin> st_id ` set new" by auto
            then have "r' \<notin> set new" using that(3) by (metis image_eqI)
            then have "r' \<in> set (tb_strategies (se_obj s2))" using that(2) new by auto
            then have "strategy_view r' \<in> set (map strategy_view (tb_strategies (se_obj s1)))"
              using c2(2) unfolding same_books_def by auto
            then obtain r1 where "r1 \<in> set (tb_strategies (se_obj s1))" "strategy_view r' = strategy_view r1" by auto
            then show ?thesis using cl that(1,3) by (auto simp: strategy_view_def)
          qed
          then show ?thesis using x D sound by (auto simp: sound_tables_def)
        qed
      qed
    qed
  qed
qed


section \<open>Properties\<close>

lemma run_reconcile_sound:
  assumes "refs_ok t" "run_reconcile_cycle env force exs (m, t, w) = (sm, m', t', w')"
  shows "t' = t \<or> sound_run t (reconcile_live env (open_session session_local_autoflush exs t) w) t'"
proof -
  let ?s = "open_session session_local_autoflush exs t"
  have s: "clean ?s" "se_obj ?s = t" by (simp_all add: clean_def open_session_def)
  show ?thesis
  proof (cases "\<not> force \<and> rc_clock env w - rm_last_ts m < recon_interval")
    case True
    then show ?thesis using assms(2) by (simp add: run_reconcile_cycle_def Let_def)
  next
    case False
    define x where "x = reconcile_body env (py_trunc (rc_clock env w)) ?s w"
    have f: "case x of Inl (e, s', w') \<Rightarrow> sound_run t (reconcile_live env ?s w) (se_committed s')
      | Inr (sm, s', w') \<Rightarrow> clean s' \<and> sound_run t (reconcile_live env ?s w) (se_obj s')"
      using reconcile_body_facts[OF x_def[symmetric] s(1)] assms(1) s(2) by (auto split: sum.splits)
    have "t' = (case x of Inl (e, s', w') \<Rightarrow> se_committed s' | Inr (sm, s', w') \<Rightarrow> se_committed s')"
      using assms(2) False unfolding run_reconcile_cycle_def
      by (auto simp: x_def[symmetric] Let_def session_simps split: sum.splits)
    then show ?thesis using f by (auto simp: clean_def split: sum.splits)
  qed
qed

text \<open>
  C33: the reconciliation never books more than there is: after a run, whether it succeeded, was
  throttled or was rolled back after a failing commit, the size that the strategies account for on
  an exchange is at most what they accounted for before or what the exchange reported in this run,
  for every short contract and for every spot asset.
\<close>

theorem reconcile_books_within_holdings:
  assumes "refs_ok t" "run_reconcile_cycle env force exs (m, t, w) = (sm, m', t', w')"
  shows "within_holdings t (reconcile_live env (open_session session_local_autoflush exs t) w) t'"
  using run_reconcile_sound[OF assms]
  by (auto simp: sound_run_def within_holdings_def in_limits_def)

text \<open>
  C35: every strategy that a run adds is a hedged pair: it has exactly two open legs, a long spot leg
  and a short contract leg of the same size on the same asset.
\<close>

theorem recovered_strategies_hedged:
  assumes "refs_ok t" "run_reconcile_cycle env force exs (m, t, w) = (sm, m', t', w')"
    "r \<in> set (tb_strategies t')" "st_id r \<notin> st_id ` set (tb_strategies t)"
  shows "hedged t' (st_id r)"
  using run_reconcile_sound[OF assms(1,2)] assms(3,4) by (auto simp: sound_run_def new_hedged_def)

text \<open>What a close of the production session leaves when every order was executed.\<close>

lemma close_loop_row_ids:
  fixes st :: "session \<times> 'w \<times> string list"
  shows "map (\<lambda>p. (ps_id p, ps_strategy_id p)) (tb_positions (se_obj (fst (foldl (close_leg v sid reason now) st ps))))
     = map (\<lambda>p. (ps_id p, ps_strategy_id p)) (tb_positions (se_obj (fst st)))"
proof (rule foldl_frame)
  fix st :: "session \<times> 'w \<times> string list" and p
  obtain s w errs where st: "st = (s, w, errs)" by (metis prod_cases3)
  show "map (\<lambda>p. (ps_id p, ps_strategy_id p)) (tb_positions (se_obj (fst (close_leg v sid reason now st p))))
     = map (\<lambda>p. (ps_id p, ps_strategy_id p)) (tb_positions (se_obj (fst st)))"
    unfolding st
    by (cases rule: close_leg_cases[of v sid reason now s w errs p])
      (simp_all add: comp_def if_distrib closed_row_def cong: if_cong)
qed

lemma failed_close_leaves:
  assumes "clean s" "refs_ok (se_obj s)" "\<not> se_autoflush s" "query_strategy sid s = Some st"
    "\<exists>p \<in> set (tb_positions (se_obj s)). is_open_of sid p"
    "close_strategy v sid reason now s w = (r, s1, w1)" "cl_errors r = []"
  shows "clean s1" "refs_ok (se_obj s1)" "\<forall>p \<in> set (tb_positions (se_obj s1)). \<not> is_open_of sid p"
    "\<exists>x \<in> set (tb_strategies (se_obj s1)). st_id x = sid \<and> st_type x = st_type st \<and> st_status x = Some ''active''"
proof -
  let ?f = "\<lambda>r. r\<lparr>st_status := Some ''closing''\<rparr>"
  let ?s0 = "db_commit (set_strategy sid ?f s)"
  let ?ps = "open_positions_of sid ?s0"
  obtain s2 w2 errors where l: "foldl (close_leg v sid reason now) (?s0, w, []) ?ps = (s2, w2, errors)" by (metis prod_cases3)
  have fin: "close_finish sid reason now errors s2 = (r, s1)" by (rule close_strategy_unfold[OF assms(4) l assms(6)])
  note u = close_finish_facts[OF fin]
  have err: "errors = []" using u(2) assms(7) by simp
  have act: "remaining_open_positions sid s2 > 0"
    using close_without_flush_fails[OF assms(3-6)] u(4) by (auto split: if_splits)
  have p0: "tb_positions (se_obj ?s0) = tb_positions (se_obj s)" by (simp add: session_simps)
  have v0: "sql_view ?s0 = se_obj ?s0" by (simp add: session_simps)
  have i0: "map st_id (tb_strategies (se_obj ?s0)) = map st_id (tb_strategies (se_obj s))"
    by (simp add: session_simps set_strategy_def comp_def if_distrib cong: if_cong)
  have ids0: "ids_ok (se_obj ?s0)" using assms(2) unfolding ids_ok_def p0 i0 by (simp add: refs_ok_def ids_ok_def)
  have d: "distinct (map ps_id (tb_positions (se_obj ?s0)))" using ids0 by (simp add: ids_ok_def)
  have ps: "?ps = filter (is_open_of sid) (tb_positions (se_obj ?s0))"
    unfolding open_positions_of_def by (rule query_positions_flushed[OF ids0 v0])
  have "length (filter (is_open_of sid) (tb_positions (se_obj s2))) + length ?ps + length ([] :: string list)
      = length (filter (is_open_of sid) (tb_positions (se_obj ?s0))) + length errors"
    by (rule close_loop_count[OF d _ _ l]) (use d in \<open>auto simp: ps distinct_map_filter\<close>)
  then have "filter (is_open_of sid) (tb_positions (se_obj s2)) = []" using ps err by simp
  then show "\<forall>p \<in> set (tb_positions (se_obj s1)). \<not> is_open_of sid p" using u(5) by (simp add: filter_empty_conv)
  let ?g = "\<lambda>r. r\<lparr>st_status := Some ''active'', st_close_reason := (if errors \<noteq> [] then reason @ ''; close_failed='' @ repr_list errors else reason), st_closed_at := None\<rparr>"
  have s1: "s1 = db_commit (set_strategy sid ?g s2)" using fin act by (simp add: close_finish_def Let_def)
  have st2: "tb_strategies (se_obj s2) = tb_strategies (se_obj ?s0)" using close_loop_frame(3)[of v sid reason now "(?s0, w, [])" ?ps] l by simp
  have st1: "tb_strategies (se_obj s1) = map (\<lambda>r. if st_id r = sid then ?g (?f r) else r) (tb_strategies (se_obj s))"
    by (simp add: s1 session_simps set_strategy_def st2 comp_def if_distrib cong: if_cong)
  show "clean s1" by (simp add: s1)
  have m: "map (\<lambda>p. (ps_id p, ps_strategy_id p)) (tb_positions (se_obj s1)) = map (\<lambda>p. (ps_id p, ps_strategy_id p)) (tb_positions (se_obj s))"
    using close_loop_row_ids[of v sid reason now "(?s0, w, [])" ?ps] l u(5) p0 by simp
  have "map ps_id (tb_positions (se_obj s1)) = map ps_id (tb_positions (se_obj s))"
    "map ps_strategy_id (tb_positions (se_obj s1)) = map ps_strategy_id (tb_positions (se_obj s))"
    by (rule map_eq_transfer[OF m], simp)+
  moreover have "map st_id (tb_strategies (se_obj s1)) = map st_id (tb_strategies (se_obj s))"
    unfolding st1 by (simp add: comp_def if_distrib cong: if_cong)
  ultimately show "refs_ok (se_obj s1)" using assms(2) unfolding refs_ok_lists by simp
  obtain row where row: "first_where (\<lambda>r. st_id r = sid) (tb_strategies (se_obj s)) = Some row" "st = obj_strategy s row"
    using assms(4) clean_view[OF assms(1)] by (auto simp: query_strategy_def)
  have in_row: "row \<in> set (tb_strategies (se_obj s))" "st_id row = sid" using first_where_Some[OF row(1)] by simp_all
  then have "st = row" using row by (simp add: obj_strategy_def)
  then have "?g (?f row) \<in> set (tb_strategies (se_obj s1))" "st_type (?g (?f row)) = st_type st"
    using in_row unfolding st1 by (auto simp: image_iff intro!: bexI[of _ row])
  then show "\<exists>x \<in> set (tb_strategies (se_obj s1)). st_id x = sid \<and> st_type x = st_type st \<and> st_status x = Some ''active''"
    using in_row(2) by (intro bexI[of _ "?g (?f row)"]) simp_all
qed


text \<open>
  A run never returns its own summary: the runner returns the dictionary it imported, which
  \<open>_set_last_summary\<close> rebinds in \<open>common.py\<close> only. Whatever the runs do, each of them reports the
  initial status or, from the first exception on, an error.
\<close>

fun reconcile_runs ::
    "'w recon_env \<Rightarrow> exchange_row list \<Rightarrow> bool list \<Rightarrow> recon_module \<times> tables \<times> 'w \<Rightarrow> recon_summary list \<times> recon_module \<times> tables \<times> 'w" where
  "reconcile_runs env exs [] st = ([], st)"
| "reconcile_runs env exs (force # forces) st =
     (let (sm, st1) = run_reconcile_cycle env force exs st; (sms, st2) = reconcile_runs env exs forces st1 in (sm # sms, st2))"

definition stale :: "recon_summary \<Rightarrow> bool" where
  "stale sm \<longleftrightarrow> sm_status sm \<in> {''init'', ''error''} \<and> sm_recovered_pairs sm = None \<and> sm_recovered sm = []"

lemma run_reconcile_stale:
  assumes "stale (rm_runner m)" "run_reconcile_cycle env force exs (m, t, w) = (sm, m', t', w')"
  shows "stale sm \<and> stale (rm_runner m')"
proof -
  have "stale (merge_error ts e x)" if "stale x" for ts e x using that by (simp add: stale_def merge_error_def)
  then show ?thesis using assms
    by (auto simp: run_reconcile_cycle_def set_reconcile_summary_def record_error_def Let_def split: if_splits sum.splits)
qed

lemma reconcile_runs_stale:
  assumes "stale (rm_runner (fst st))" shows "list_all stale (fst (reconcile_runs env exs forces st))"
  using assms
proof (induction forces arbitrary: st)
  case (Cons force forces)
  obtain m t w where st: "st = (m, t, w)" by (metis prod_cases3)
  obtain sm m' t' w' where r: "run_reconcile_cycle env force exs (m, t, w) = (sm, m', t', w')" by (metis prod_cases4)
  have "stale sm" "stale (rm_runner m')" using run_reconcile_stale[OF _ r] Cons.prems st by simp_all
  moreover have "list_all stale (fst (reconcile_runs env exs forces (m', t', w')))" by (rule Cons.IH) (simp add: calculation)
  ultimately show ?case using r by (cases "reconcile_runs env exs forces (m', t', w')") (simp add: st)
qed simp

theorem reconcile_reports_stale_summary:
  "list_all stale (fst (reconcile_runs env exs forces (initial_module, t, w)))"
  by (rule reconcile_runs_stale) (simp add: stale_def initial_module_def plain_summary_def)


section \<open>A sample run\<close>

text \<open>A run that meets no failing commit ends with status ok.\<close>

lemma try_commit_ok: "fst (rc_commit_fails env w) = None \<Longrightarrow> \<exists>w'. try_commit env s w = Inr (db_commit s, w')"
  by (cases "rc_commit_fails env w") (simp add: try_commit_def)

lemma recover_perps_ok:
  assumes "\<And>w. fst (rc_commit_fails env w) = None" shows "\<exists>st' w'. recover_perps env perps st w = Inr (st', w')"
proof (induction perps arbitrary: st w)
  case (Cons perp perps)
  show ?case
  proof (cases "plan_recovery (ry_session st) (ry_pool st) perp")
    case (Inl e) then show ?thesis using Cons.IH by (cases e) simp
  next
    case (Inr p)
    obtain w' where "try_commit env (book_recovery p (ry_session st)) w = Inr (db_commit (book_recovery p (ry_session st)), w')"
      using try_commit_ok[OF assms] by blast
    then show ?thesis using Inr Cons.IH by (simp add: Let_def)
  qed
qed simp

lemma reconcile_body_ok:
  assumes "\<And>w. fst (rc_commit_fails env w) = None" "filter (rc_active env) (se_exchanges s) \<noteq> []"
  shows "\<exists>sm s' w'. reconcile_body env ts s w = Inr (sm, s', w') \<and> sm_status sm = ''ok''"
proof -
  let ?exs = "filter (rc_active env) (se_exchanges s)"
  note c = try_commit_ok[OF assms(1)]
  have "\<exists>ids s1 w1. close_without_open_legs env s w = Inr (ids, s1, w1)"
    using c[of "foldl (close_empty (rc_clock env w)) s (empty_strategies s)" w] by (auto simp: close_without_open_legs_def Let_def)
  then obtain ids s1 w1 where a: "close_without_open_legs env s w = Inr (ids, s1, w1)" by blast
  obtain tp tq where tr: "load_tracked_open_legs s1 = (tp, tq)" by (metis surj_pair)
  obtain shorts w2 where sh: "collect_live_perp_shorts env ?exs w1 = (shorts, w2)" by (metis surj_pair)
  obtain spots w3 where sp: "collect_live_spot_assets env ?exs w2 = (spots, w3)" by (metis surj_pair)
  obtain n s2 w4 where b: "sync_recovered_entry_prices env shorts s1 w3 = Inr (n, s2, w4)"
  proof -
    obtain sx nx where "foldl (sync_entry shorts) (s1, 0)
      (query_strategies (\<lambda>r. hedge_in tracked_states r \<and> st_close_reason r \<in> set recovered_reasons) s1) = (sx, nx)"
      by (metis surj_pair)
    then have "\<exists>n s2 w4. sync_recovered_entry_prices env shorts s1 w3 = Inr (n, s2, w4)"
      using c[of sx w3] by (auto simp: sync_recovered_entry_prices_def)
    then show ?thesis using that by blast
  qed
  obtain st' w5 where d: "recover_perps env (untracked_perps shorts tp)
      \<lparr>ry_session = s2, ry_pool = spot_pool spots tq, ry_recovered = [], ry_skipped = []\<rparr> w4 = Inr (st', w5)"
    using recover_perps_ok[OF assms(1)] by blast
  show ?thesis using assms(2) by (simp add: reconcile_body_def a tr sh sp b d plain_summary_def)
qed

definition sample_short :: exchange_position where
  "sample_short = \<lparr>xp_symbol = Some ''BTC/USDT:USDT'', xp_side = Some ''short'', xp_contracts = Some 1, xp_size = None,
     xp_amount = None, xp_notional = None, xp_mark = Some 100, xp_last = None, xp_entry = Some 100, xp_entry_alt = None,
     xp_info_entry = None, xp_info_avg_entry = None\<rparr>"

definition sample_recon :: "nat recon_env" where
  "sample_recon = \<lparr>rc_active = (\<lambda>e. True),
     rc_positions = (\<lambda>w e. (if ex_id e = 2 then Some ([sample_short], \<lambda>s. Some 1) else None, w)),
     rc_ticker = (\<lambda>w e s. (None, w)),
     rc_spot_ticker = (\<lambda>w e s. (Some \<lparr>pt_last = Some 100, pt_close = None, pt_bid = None, pt_ask = None\<rparr>, w)),
     rc_balance = (\<lambda>w e. (if ex_id e = 1 then Some \<lparr>ba_total = Some [(''btc'', Some 1)], ba_assets = []\<rparr> else None, w)),
     rc_commit_fails = (\<lambda>w. (None, w)), rc_clock = (\<lambda>w. 100)\<rparr>"

definition recon_tables :: tables where
  "recon_tables = \<lparr>tb_strategies = [], tb_positions = [], tb_logs = []\<rparr>"

lemma sample_texts:
  "extract_base_asset ''BTC/USDT:USDT'' = ''BTC''" "py_lower ''short'' = ''short''" "py_upper ''btc'' = ''BTC''"
  "py_upper ''BTC'' = ''BTC''" "py_strip ''BTC'' = ''BTC''" "extract_base_asset ''BTC/USDT'' = ''BTC''" "py_lower ''spot'' = ''spot''"
  by code_simp+

lemma sample_shorts: "collect_live_perp_shorts sample_recon sample_exchanges w =
   ([((2, ''BTC/USDT:USDT''), \<lparr>lp_exchange_id = 2, lp_exchange_name = ''binance'', lp_symbol = ''BTC/USDT:USDT'',
        lp_base_asset = ''BTC'', lp_base_size = 1, lp_notional = 100, lp_mark = 100, lp_entry = 100\<rparr>)], w)"
  by (simp add: collect_live_perp_shorts_def collect_exchange_shorts_def sample_recon_def sample_exchanges_def sample_short_def
      add_live_position_def live_base_def live_mark_price_def live_entry_price_def put_short_def abs_float_def min_recover_base_def
      sample_texts[simplified] Let_def)

lemma sample_spots: "collect_live_spot_assets sample_recon sample_exchanges w =
   ([((1, ''BTC''), \<lparr>ls_exchange_id = 1, ls_exchange_name = ''okx'', ls_asset = ''BTC'', ls_symbol = ''BTC/USDT'',
        ls_qty = 1, ls_price = 100, ls_notional = 100\<rparr>)], w)"
  by (simp add: collect_live_spot_assets_def collect_exchange_spot_def sample_recon_def sample_exchanges_def
      extract_balance_totals_def put_total_def put_asset_def add_live_spot_def spot_asset_usdt_price_def pt_price_def put_spot_def
      stable_assets_def min_recover_base_def min_recover_notional_def sample_texts[simplified] Let_def)


definition sample_session :: session where
  "sample_session = open_session session_local_autoflush sample_exchanges recon_tables"

lemmas sample_session_defs = sample_session_def open_session_def session_local_autoflush_def recon_tables_def

lemma sample_session_facts:
  "close_without_open_legs sample_recon sample_session w = Inr ([], sample_session, w)"
  "load_tracked_open_legs sample_session = ([], [])"
  "sync_recovered_entry_prices sample_recon live sample_session w = Inr (0, sample_session, w)"
  by (simp_all add: close_without_open_legs_def empty_strategies_def query_strategies_def sql_view_def load_tracked_open_legs_def
      query_positions_def sync_recovered_entry_prices_def sample_session_defs)

definition sample_untracked :: untracked_perp where
  "sample_untracked = \<lparr>up_row = \<lparr>lp_exchange_id = 2, lp_exchange_name = ''binance'', lp_symbol = ''BTC/USDT:USDT'',
        lp_base_asset = ''BTC'', lp_base_size = 1, lp_notional = 100, lp_mark = 100, lp_entry = 100\<rparr>, up_base = 1, up_notional = 100\<rparr>"

definition sample_slot :: spot_slot where
  "sample_slot = \<lparr>sl_row = \<lparr>ls_exchange_id = 1, ls_exchange_name = ''okx'', ls_asset = ''BTC'', ls_symbol = ''BTC/USDT'',
        ls_qty = 1, ls_price = 100, ls_notional = 100\<rparr>, sl_qty = 1, sl_notional = 100\<rparr>"

definition sample_recovery :: recovery_plan where
  "sample_recovery = \<lparr>yp_long_ex = 1, yp_short_ex = 2, yp_symbol = ''BTC/USDT:USDT'', yp_asset = ''BTC'', yp_spot_symbol = ''BTC/USDT'',
     yp_base = 1, yp_spot_px = 100, yp_perp_px = 100, yp_spot_entry = 100, yp_perp_entry = 100\<rparr>"

lemma sample_matching:
  "untracked_perps (fst (collect_live_perp_shorts sample_recon sample_exchanges w)) [] = [sample_untracked]"
  "spot_pool (fst (collect_live_spot_assets sample_recon sample_exchanges w)) [] = [((1, ''BTC''), sample_slot)]"
  by (simp_all add: sample_shorts[simplified] sample_spots[simplified] untracked_perps_def untracked_of_def spot_pool_def slot_of_def
      lookup_qty_def min_recover_base_def min_recover_notional_def sort_desc_def List.map_filter_simps
      sample_untracked_def sample_slot_def Let_def)

lemma sample_plan_recovery: "plan_recovery sample_session [((1, ''BTC''), sample_slot)] sample_untracked = Inr sample_recovery"
  by (simp add: plan_recovery_def best_slot_def spot_candidate_def sample_untracked_def sample_slot_def sample_recovery_def
      min_recover_base_def size_ratio_min_def size_ratio_max_def live_pair_def sql_view_def query_exchange_def sample_session_defs
      sample_exchanges_def sample_texts[simplified] Let_def)

lemma sample_body:
  "\<exists>sm. reconcile_body sample_recon 100 sample_session 0 = Inr (sm, db_commit (book_recovery sample_recovery sample_session), 0)"
proof -
  have x: "filter (rc_active sample_recon) (se_exchanges sample_session) = sample_exchanges" "sample_exchanges \<noteq> []"
    by (simp_all add: sample_recon_def sample_session_defs sample_exchanges_def)
  obtain shorts where sh: "collect_live_perp_shorts sample_recon sample_exchanges 0 = (shorts, 0)" "untracked_perps shorts [] = [sample_untracked]"
    using sample_matching(1)[of 0] sample_shorts[of 0] by (metis fst_conv)
  obtain spots where sp: "collect_live_spot_assets sample_recon sample_exchanges 0 = (spots, 0)" "spot_pool spots [] = [((1, ''BTC''), sample_slot)]"
    using sample_matching(2)[of 0] sample_spots[of 0] by (metis fst_conv)
  have c: "try_commit sample_recon s 0 = Inr (db_commit s, 0)" for s by (simp add: try_commit_def sample_recon_def)
  show ?thesis
    unfolding reconcile_body_def x(1) using x(2)
    by (simp add: sample_session_facts sh sp(1) sp(2)[simplified] sample_plan_recovery[simplified] c)
qed

text \<open>The sample run books one strategy; it is the only one.\<close>

lemma sample_cycle:
  "\<exists>sm m' t' w' r. run_reconcile_cycle sample_recon True sample_exchanges (initial_module, recon_tables, 0) = (sm, m', t', w')
     \<and> tb_strategies t' = [r]"
proof -
  obtain sm where b: "reconcile_body sample_recon 100 sample_session 0 = Inr (sm, db_commit (book_recovery sample_recovery sample_session), 0)"
    using sample_body by blast
  have "py_trunc (rc_clock sample_recon 0) = 100" by (simp add: sample_recon_def py_trunc_def)
  moreover have "tb_strategies (se_committed (db_commit (book_recovery sample_recovery sample_session))) = [recovered_strategy (next_strategy_id sample_session) sample_recovery]"
    by (rule book_recovery_tables[of sample_recovery sample_session]) (simp add: session_simps, simp add: sample_session_defs)
  ultimately show ?thesis
    using b by (simp add: run_reconcile_cycle_def sample_session_def Let_def)
qed

theorem reconcile_books_within_holdings_witness:
  "\<exists>sm m' t' w'. run_reconcile_cycle sample_recon True sample_exchanges (initial_module, recon_tables, 0) = (sm, m', t', w')
     \<and> t' \<noteq> recon_tables
     \<and> within_holdings recon_tables (reconcile_live sample_recon (open_session session_local_autoflush sample_exchanges recon_tables) 0) t'"
proof -
  obtain sm m' t' w' r where c: "run_reconcile_cycle sample_recon True sample_exchanges (initial_module, recon_tables, 0) = (sm, m', t', w')"
    "tb_strategies t' = [r]" using sample_cycle by blast
  have "refs_ok recon_tables" by (simp add: refs_ok_def ids_ok_def recon_tables_def)
  from reconcile_books_within_holdings[OF this c(1)] show ?thesis using c by (auto simp: recon_tables_def)
qed

theorem recovered_strategies_hedged_witness:
  "\<exists>sm m' t' w' r. run_reconcile_cycle sample_recon True sample_exchanges (initial_module, recon_tables, 0) = (sm, m', t', w')
     \<and> tb_strategies t' = [r] \<and> hedged t' (st_id r)"
proof -
  obtain sm m' t' w' r where c: "run_reconcile_cycle sample_recon True sample_exchanges (initial_module, recon_tables, 0) = (sm, m', t', w')"
    "tb_strategies t' = [r]" using sample_cycle by blast
  have "refs_ok recon_tables" by (simp add: refs_ok_def ids_ok_def recon_tables_def)
  then have "hedged t' (st_id r)"
    by (rule recovered_strategies_hedged[OF _ c(1)]) (simp_all add: c(2) recon_tables_def)
  then show ?thesis using c by blast
qed


lemma sample_close_errors:
  assumes "close_strategy good_venue 7 ''manual'' 50 (open_session session_local_autoflush sample_exchanges sample_tables) 0 = (r, s1, w1)"
  shows "cl_errors r = []" "se_exchanges s1 = sample_exchanges"
  using assms
  by (auto simp: close_strategy_def close_finish_def close_leg_def query_strategy_def open_positions_of_def query_positions_def
      sql_view_def obj_strategy_def obj_position_def is_open_of_def db_commit_def set_strategy_def set_position_def add_log_def
      query_exchange_def session_local_autoflush_def sample_defs Let_def split: if_splits)


end
