(* ===== verification/ExchangeOrders.thy ===== *)
theory ExchangeOrders
  imports SpotHedge Machines
begin

text \<open>
  The order functions of the exchange manager (\<open>core/exchange_manager\<close>: \<open>hedge_orders.py\<close>,
  \<open>order_close.py\<close>, \<open>leverage_margin.py\<close>, \<open>gate_margin.py\<close>, \<open>place_order\<close> of
  \<open>funding_data.py\<close>). The third-party client is a record of functions: each call answers, or
  raises an exception with a text, and moves the world. The model keeps the orders that were
  sent, with the acknowledgement, and the cache of maximum leverages.
\<close>

section \<open>The client\<close>

datatype param_value = PText string | PInt int | PBool bool

type_synonym params = "(string \<times> param_value) list"

datatype amount_kind = Units real | Cost real

record order_request =
  oq_symbol :: string
  oq_type :: string
  oq_side :: string
  oq_amount :: amount_kind
  oq_params :: params

text \<open>What the leverage and position endpoints of Gate return: any JSON value.\<close>

datatype json = JNull | JBool bool | JNum real | JText string | JList "json list" | JObj "(string \<times> json) list"

record contract_position =
  cp_symbol :: "string option"
  cp_side :: "string option"
  cp_contracts :: fopt
  cp_contract_size :: fopt

datatype mode_request = DualSide | LongShortMode | SwitchMode | PositionMode

record 'w ccxt =
  cx_has :: "string \<Rightarrow> bool"
  cx_has_cost_order :: bool
  cx_ensure_markets :: "'w \<Rightarrow> string option \<times> 'w"
  cx_contract_size :: "'w \<Rightarrow> string \<Rightarrow> fopt"
  cx_min_lot :: "'w \<Rightarrow> string \<Rightarrow> fopt"
  cx_leverage_limit :: "'w \<Rightarrow> string \<Rightarrow> fopt"
  cx_amount_precision :: "'w \<Rightarrow> string \<Rightarrow> real \<Rightarrow> string + real"
  cx_cost_precision :: "'w \<Rightarrow> string \<Rightarrow> real \<Rightarrow> string + real"
  cx_create_order :: "'w \<Rightarrow> order_request \<Rightarrow> (string + order) \<times> 'w"
  cx_set_leverage :: "'w \<Rightarrow> int \<Rightarrow> string \<Rightarrow> params \<Rightarrow> (string + json) \<times> 'w"
  cx_set_margin_mode :: "'w \<Rightarrow> string \<Rightarrow> string option \<times> 'w"
  cx_margin_type :: "'w \<Rightarrow> string \<Rightarrow> string option \<times> 'w"
  cx_brackets :: "'w \<Rightarrow> string \<Rightarrow> (string + fopt list list) \<times> 'w"
  cx_sync_time :: "'w \<Rightarrow> string option \<times> 'w"
  cx_positions :: "'w \<Rightarrow> string \<Rightarrow> (string + contract_position list) \<times> 'w"
  cx_position_json :: "'w \<Rightarrow> string \<Rightarrow> (string + json) \<times> 'w"
  cx_positions_json :: "'w \<Rightarrow> string \<Rightarrow> (string + json list) \<times> 'w"
  cx_price :: "'w \<Rightarrow> string \<Rightarrow> (string + fopt) \<times> 'w"
  cx_free_balance :: "'w \<Rightarrow> string \<Rightarrow> (string + fopt) \<times> 'w"
  cx_set_mode :: "'w \<Rightarrow> mode_request \<Rightarrow> string option \<times> 'w"
  cx_float :: "string \<Rightarrow> fopt"

record 'w api =
  ap_world :: 'w
  ap_sent :: "(order_request \<times> bool) list"
  ap_max_leverage :: "int \<times> string \<Rightarrow> int option"

definition call :: "('w \<Rightarrow> 'a \<times> 'w) \<Rightarrow> 'w api \<Rightarrow> 'a \<times> 'w api" where
  "call f st = (case f (ap_world st) of (r, w) \<Rightarrow> (r, st\<lparr>ap_world := w\<rparr>))"

text \<open>\<open>create_order\<close>: the request is sent; an exception means that it was not acknowledged.\<close>

definition send_order :: "'w ccxt \<Rightarrow> order_request \<Rightarrow> 'w api \<Rightarrow> (string + order) \<times> 'w api" where
  "send_order c q st =
     (case cx_create_order c (ap_world st) q of
        (Inl e, w) \<Rightarrow> (Inl e, st\<lparr>ap_world := w, ap_sent := ap_sent st @ [(q, False)]\<rparr>)
      | (Inr ord, w) \<Rightarrow> (Inr ord, st\<lparr>ap_world := w, ap_sent := ap_sent st @ [(q, True)]\<rparr>))"

text \<open>What a wrapper returns: nothing, the order, or the record of a virtual close.\<close>

datatype placed = Nothing | Placed order | AlreadyClosed string

section \<open>Texts\<close>

fun has_prefix :: "string \<Rightarrow> string \<Rightarrow> bool" where
  "has_prefix [] ys = True"
| "has_prefix (x # xs) [] = False"
| "has_prefix (x # xs) (y # ys) = (x = y \<and> has_prefix xs ys)"

fun in_text :: "string \<Rightarrow> string \<Rightarrow> bool" where
  "in_text needle [] = (needle = [])"
| "in_text needle (c # cs) = (has_prefix needle (c # cs) \<or> in_text needle cs)"

definition is_timestamp_error :: "string \<Rightarrow> bool" where
  "is_timestamp_error e =
     (let msg = py_lower e in
      in_text ''-1021'' msg \<or> in_text ''timestamp'' msg \<and> in_text ''ahead'' msg \<or> in_text ''timestamp for this request'' msg)"

definition exchange_in :: "string list \<Rightarrow> exchange_row \<Rightarrow> bool" where
  "exchange_in names ex \<longleftrightarrow> py_lower (ex_name ex) \<in> set names"

definition binance_native_symbol :: "string \<Rightarrow> string" where
  "binance_native_symbol symbol =
     (let raw = py_upper (py_strip symbol) in py_replace_char (CHR ''/'') (split_head (CHR '':'') raw))"

section \<open>Sizes, leverage and margin\<close>

definition base_to_contracts :: "'w ccxt \<Rightarrow> string \<Rightarrow> real \<Rightarrow> 'w api \<Rightarrow> real \<times> 'w api" where
  "base_to_contracts c symbol amount st =
     (case call (cx_ensure_markets c) st of
        (Some e, st1) \<Rightarrow> (amount, st1)
      | (None, st1) \<Rightarrow>
          let cs = to_float (py_or_num (cx_contract_size c (ap_world st1) symbol) (Some 1)) 1
          in (amount / (if cs \<le> 0 then 1 else cs), st1))"

text \<open>\<open>float(inst.amount_to_precision(symbol, contracts))\<close> after the conversion.\<close>

definition order_amount :: "'w ccxt \<Rightarrow> string \<Rightarrow> real \<Rightarrow> 'w api \<Rightarrow> (string + real) \<times> 'w api" where
  "order_amount c symbol amount st =
     (case base_to_contracts c symbol amount st of
        (contracts, st1) \<Rightarrow> (cx_amount_precision c (ap_world st1) symbol contracts, st1))"

definition int_of :: "fopt \<Rightarrow> int" where
  "int_of v = py_trunc (to_float v 0)"

definition bracket_leverage :: "fopt list list \<Rightarrow> int" where
  "bracket_leverage rows = foldl (\<lambda>best v. if int_of v > best then int_of v else best) 0 (concat rows)"

definition remember_leverage :: "exchange_row \<Rightarrow> string \<Rightarrow> int \<Rightarrow> 'w api \<Rightarrow> int \<times> 'w api" where
  "remember_leverage ex symbol lev st =
     (lev, st\<lparr>ap_max_leverage := (ap_max_leverage st)((ex_id ex, symbol) \<mapsto> lev)\<rparr>)"

definition fetch_max_leverage :: "'w ccxt \<Rightarrow> exchange_row \<Rightarrow> string \<Rightarrow> 'w api \<Rightarrow> int \<times> 'w api" where
  "fetch_max_leverage c ex symbol st =
     (case ap_max_leverage st (ex_id ex, symbol) of
        Some lev \<Rightarrow> (lev, st)
      | None \<Rightarrow>
          (case call (cx_ensure_markets c) st of
             (Some e, st1) \<Rightarrow> remember_leverage ex symbol 1 st1
           | (None, st1) \<Rightarrow>
               let lev = int_of (cx_leverage_limit c (ap_world st1) symbol); native = binance_native_symbol symbol;
                   (lev1, st2) = (if lev < 1 \<and> exchange_in [''binance''] ex \<and> native \<noteq> [] then
                       (case call (\<lambda>w. cx_brackets c w native) st1 of
                          (Inl e, st2) \<Rightarrow> (lev, st2)
                        | (Inr rows, st2) \<Rightarrow> (if bracket_leverage rows > 0 then bracket_leverage rows else lev, st2))
                     else (lev, st1))
               in remember_leverage ex symbol (if lev1 < 1 then 1 else lev1) st2))"

definition set_leverage_for_symbol :: "'w ccxt \<Rightarrow> string \<Rightarrow> int \<Rightarrow> 'w api \<Rightarrow> bool \<times> 'w api" where
  "set_leverage_for_symbol c symbol lev st =
     (if \<not> cx_has c ''setLeverage'' then (False, st)
      else (case call (\<lambda>w. cx_set_leverage c w lev symbol []) st of
              (Inl e, st1) \<Rightarrow> (False, st1) | (Inr _, st1) \<Rightarrow> (True, st1)))"

definition any_in :: "string list \<Rightarrow> string \<Rightarrow> bool" where
  "any_in needles msg \<longleftrightarrow> list_ex (\<lambda>n. in_text n msg) needles"

definition margin_mode_kept :: "string \<Rightarrow> bool" where
  "margin_mode_kept e = any_in [''no need to change margin type'', ''margin type cannot be changed'', ''already cross'',
     ''same margin mode'', ''not modified''] (py_lower e)"

definition ensure_cross_margin_mode :: "'w ccxt \<Rightarrow> exchange_row \<Rightarrow> string \<Rightarrow> 'w api \<Rightarrow> bool \<times> 'w api" where
  "ensure_cross_margin_mode c ex symbol st =
     (if exchange_in [''gate'', ''gateio''] ex then
        (if cx_has c ''setMarginMode'' then (True, snd (call (\<lambda>w. cx_set_margin_mode c w symbol) st)) else (True, st))
      else
        let (done, st1) = (if cx_has c ''setMarginMode'' then
              (case call (\<lambda>w. cx_set_margin_mode c w symbol) st of
                 (None, st1) \<Rightarrow> (True, st1) | (Some e, st1) \<Rightarrow> (margin_mode_kept e, st1))
            else (False, st));
            native = binance_native_symbol symbol in
        if done then (True, st1)
        else if exchange_in [''binance''] ex \<and> native \<noteq> [] then
          (case call (\<lambda>w. cx_margin_type c w native) st1 of
             (None, st2) \<Rightarrow> (True, st2)
           | (Some e, st2) \<Rightarrow> (any_in [''-4046'', ''no need to change margin type''] (py_lower e), st2))
        else (False, st1))"


section \<open>The margin check of Gate\<close>

fun json_weight :: "json \<Rightarrow> nat" where
  "json_weight (JList xs) = Suc (sum_list (map json_weight xs))"
| "json_weight (JObj kvs) = Suc (sum_list (map (\<lambda>kv. json_weight (snd kv)) kvs))"
| "json_weight _ = 1"

fun is_container :: "json \<Rightarrow> bool" where
  "is_container (JList xs) = True"
| "is_container (JObj kvs) = True"
| "is_container _ = False"

text \<open>\<open>_iter_gate_dicts\<close>: the dictionaries of a payload, with an explicit stack (top first).\<close>

lemma weight_containers: "sum_list (map json_weight (rev (filter is_container xs))) \<le> sum_list (map json_weight xs)"
proof -
  have "sum_list (map json_weight (filter is_container xs)) \<le> sum_list (map json_weight xs)" by (induction xs) auto
  then show ?thesis by (simp add: rev_map[symmetric] sum_list_rev)
qed

function iter_dicts :: "json list \<Rightarrow> (string \<times> json) list list" where
  "iter_dicts [] = []"
| "iter_dicts (item # stack) =
     (case item of
        JObj kvs \<Rightarrow> kvs # iter_dicts (rev (filter is_container (map snd kvs)) @ stack)
      | JList xs \<Rightarrow> iter_dicts (rev (filter is_container xs) @ stack)
      | _ \<Rightarrow> iter_dicts stack)"
  by pat_completeness auto

termination
proof (relation "measure (\<lambda>stack. sum_list (map json_weight stack))")
  fix item stack kvs assume "item = JObj kvs"
  moreover have "sum_list (map json_weight (rev (filter is_container (map snd kvs)))) \<le> sum_list (map (\<lambda>kv. json_weight (snd kv)) kvs)"
    using weight_containers[of "map snd kvs"] by (simp add: comp_def)
  ultimately show "(rev (filter is_container (map snd kvs)) @ stack, item # stack) \<in> measure (\<lambda>stack. sum_list (map json_weight stack))"
    by simp
next
  fix item stack xs assume "item = JList xs"
  then show "(rev (filter is_container xs) @ stack, item # stack) \<in> measure (\<lambda>stack. sum_list (map json_weight stack))"
    using weight_containers[of xs] by simp
qed simp_all

text \<open>\<open>row.get(key)\<close>: an absent key and \<open>null\<close> are the same.\<close>

definition json_get :: "string \<Rightarrow> (string \<times> json) list \<Rightarrow> json option" where
  "json_get k row = (case map_of row k of None \<Rightarrow> None | Some JNull \<Rightarrow> None | Some v \<Rightarrow> Some v)"

definition json_true :: "json \<Rightarrow> bool" where
  "json_true v = (case v of JNull \<Rightarrow> False | JBool b \<Rightarrow> b | JNum x \<Rightarrow> x \<noteq> 0 | JText s \<Rightarrow> s \<noteq> [] | JList xs \<Rightarrow> xs \<noteq> [] | JObj kvs \<Rightarrow> kvs \<noteq> [])"

text \<open>
  The mode a row names. Only texts matter: the text of a number, a truth value or a container is
  none of the four words the check looks for; they are kept as the empty text.
\<close>

definition mode_text :: "json \<Rightarrow> string" where
  "mode_text v = (case v of JText s \<Rightarrow> py_lower (py_strip s) | _ \<Rightarrow> [])"

definition flag_mode :: "json \<Rightarrow> json" where
  "flag_mode v = JText (if json_true v then ''cross'' else ''isolated'')"

definition first_present :: "'a option list \<Rightarrow> 'a option" where
  "first_present xs = (case List.map_filter id xs of [] \<Rightarrow> None | x # _ \<Rightarrow> Some x)"

definition row_mode :: "(string \<times> json) list \<Rightarrow> string option" where
  "row_mode row = map_option mode_text (first_present
     [json_get ''marginMode'' row, json_get ''margin_mode'' row, json_get ''mode'' row,
      map_option flag_mode (json_get ''cross_mode'' row), map_option flag_mode (json_get ''crossMode'' row)])"

record cross_fields =
  cf_leverage :: "json option"
  cf_limit :: "json option"
  cf_mode :: "string option"

definition extract_cross_fields :: "json \<Rightarrow> cross_fields" where
  "extract_cross_fields payload =
     (let rows = iter_dicts [payload] in
      \<lparr>cf_leverage = first_present (map (json_get ''leverage'') rows),
       cf_limit = first_present (map (json_get ''cross_leverage_limit'') rows),
       cf_mode = first_present (map row_mode rows)\<rparr>)"

text \<open>\<open>float(str(v).strip())\<close>; texts are read by the interpreter's \<open>float\<close>.\<close>

definition json_number :: "'w ccxt \<Rightarrow> json option \<Rightarrow> fopt" where
  "json_number c v = (case v of Some (JNum x) \<Rightarrow> Some x | Some (JText s) \<Rightarrow> cx_float c (py_strip s) | _ \<Rightarrow> None)"

definition near :: "fopt \<Rightarrow> real \<Rightarrow> bool" where
  "near v x \<longleftrightarrow> (case v of None \<Rightarrow> False | Some y \<Rightarrow> \<bar>y - x\<bar> < 1 / 10 ^ 9)"

definition is_cross_signal :: "'w ccxt \<Rightarrow> int \<Rightarrow> cross_fields \<Rightarrow> bool" where
  "is_cross_signal c lev f \<longleftrightarrow> cf_mode f \<in> {Some ''cross'', Some ''crossed''}
     \<or> near (json_number c (cf_leverage f)) 0 \<or> near (json_number c (cf_limit f)) (of_int lev)"

definition isolated_signal :: "cross_fields \<Rightarrow> bool" where
  "isolated_signal f \<longleftrightarrow> cf_mode f \<in> {Some ''isolated'', Some ''fixed''}"

text \<open>
  The set-leverage attempts, in order, until one is answered; an answer \<open>null\<close> ends its loop only.
  The result says whether an attempt raised.
\<close>

fun try_leverage :: "'w ccxt \<Rightarrow> string \<Rightarrow> (int \<times> params) list \<Rightarrow> bool \<Rightarrow> 'w api \<Rightarrow> json \<times> bool \<times> 'w api" where
  "try_leverage c symbol [] raised st = (JNull, raised, st)"
| "try_leverage c symbol ((lev, ps) # rest) raised st =
     (case call (\<lambda>w. cx_set_leverage c w lev symbol ps) st of
        (Inr resp, st1) \<Rightarrow>
          (if resp = JNull \<and> lev = 0 then try_leverage c symbol (filter (\<lambda>x. fst x \<noteq> 0) rest) raised st1 else (resp, raised, st1))
      | (Inl e, st1) \<Rightarrow> try_leverage c symbol rest True st1)"

definition gate_attempts :: "int \<Rightarrow> (int \<times> params) list" where
  "gate_attempts lev =
     (let l = (''cross_leverage_limit'', PText (str_of_int lev)) in
      [(0, [l]), (0, [(''margin_mode'', PText ''cross''), l]), (0, [(''marginMode'', PText ''cross''), l]), (0, [(''mode'', PText ''cross''), l]),
       (lev, [l]), (lev, [(''marginMode'', PText ''cross''), l]), (lev, [(''margin_mode'', PText ''cross''), l])])"


text \<open>The verification: the answer, then the position, then the positions of the symbol.\<close>

definition verify_position :: "'w ccxt \<Rightarrow> int \<Rightarrow> string \<Rightarrow> bool \<times> bool \<Rightarrow> 'w api \<Rightarrow> (bool \<times> bool) \<times> 'w api" where
  "verify_position c lev symbol x st =
     (case x of (cross_ok, saw) \<Rightarrow>
        if cross_ok \<or> \<not> cx_has c ''fetchPosition'' then (x, st)
        else (case call (\<lambda>w. cx_position_json c w symbol) st of
                (Inl e, st1) \<Rightarrow> (x, st1)
              | (Inr pos, st1) \<Rightarrow>
                  let f = extract_cross_fields pos in ((is_cross_signal c lev f, saw \<or> isolated_signal f), st1)))"

fun scan_positions :: "'w ccxt \<Rightarrow> int \<Rightarrow> json list \<Rightarrow> bool \<Rightarrow> bool \<times> bool" where
  "scan_positions c lev [] saw = (False, saw)"
| "scan_positions c lev (pos # ps) saw =
     (let f = extract_cross_fields pos; saw1 = (saw \<or> isolated_signal f) in
      if is_cross_signal c lev f then (True, saw1) else scan_positions c lev ps saw1)"

definition verify_positions :: "'w ccxt \<Rightarrow> int \<Rightarrow> string \<Rightarrow> bool \<times> bool \<Rightarrow> 'w api \<Rightarrow> (bool \<times> bool) \<times> 'w api" where
  "verify_positions c lev symbol x st =
     (case x of (cross_ok, saw) \<Rightarrow>
        if cross_ok \<or> \<not> cx_has c ''fetchPositions'' then (x, st)
        else (case call (\<lambda>w. cx_positions_json c w symbol) st of
                (Inl e, st1) \<Rightarrow> (x, st1)
              | (Inr ps, st1) \<Rightarrow> (scan_positions c lev ps saw, st1)))"

definition ensure_gate_cross_margin_mode_strict :: "'w ccxt \<Rightarrow> string \<Rightarrow> int \<Rightarrow> 'w api \<Rightarrow> bool \<times> 'w api" where
  "ensure_gate_cross_margin_mode_strict c symbol target_lev st =
     (let lev = (if target_lev > 0 then target_lev else 1) in
      case try_leverage c symbol (gate_attempts lev) False st of
        (resp, raised, st1) \<Rightarrow>
          if resp = JNull \<and> raised then (False, st1)
          else let f = extract_cross_fields resp;
                   (x1, st2) = verify_position c lev symbol (is_cross_signal c lev f, isolated_signal f) st1;
                   ((cross_ok, saw), st3) = verify_positions c lev symbol x1 st2
               in (cross_ok \<or> \<not> saw, st3))"

section \<open>Orders\<close>

definition hedge_order_params :: "exchange_row \<Rightarrow> string \<Rightarrow> params" where
  "hedge_order_params ex side =
     (if exchange_in [''binance''] ex then [(''positionSide'', PText (if side = ''buy'' then ''LONG'' else ''SHORT''))]
      else if exchange_in [''okx''] ex then [(''posSide'', PText (if side = ''buy'' then ''long'' else ''short'')), (''tdMode'', PText ''cross'')]
      else if exchange_in [''bybit''] ex then [(''positionIdx'', PInt (if side = ''buy'' then 1 else 2))]
      else [])"

definition order_of :: "string \<Rightarrow> string \<Rightarrow> string \<Rightarrow> real \<Rightarrow> params \<Rightarrow> order_request" where
  "order_of symbol typ side amount ps =
     \<lparr>oq_symbol = symbol, oq_type = typ, oq_side = side, oq_amount = Units amount, oq_params = ps\<rparr>"

text \<open>A further \<open>create_order\<close> of an exception handler; without an amount the handler itself raises.\<close>

definition resend :: "'w ccxt \<Rightarrow> (real \<Rightarrow> order_request) \<Rightarrow> real option \<Rightarrow> 'w api \<Rightarrow> placed \<times> 'w api" where
  "resend c q amount st =
     (case amount of
        None \<Rightarrow> (Nothing, st)
      | Some a \<Rightarrow> (case send_order c (q a) st of (Inl e, st1) \<Rightarrow> (Nothing, st1) | (Inr ord, st1) \<Rightarrow> (Placed ord, st1)))"

text \<open>The leverage of a new hedge order; the result says whether the order may be sent.\<close>

definition prepare_leverage :: "'w ccxt \<Rightarrow> exchange_row \<Rightarrow> string \<Rightarrow> string \<Rightarrow> int \<Rightarrow> 'w api \<Rightarrow> bool \<times> 'w api" where
  "prepare_leverage c ex symbol side target st =
     (if exchange_in [''gate'', ''gateio''] ex then ensure_gate_cross_margin_mode_strict c symbol target st
      else if exchange_in [''binance''] ex then
        (True, snd (set_leverage_for_symbol c symbol (max 1 (if target = 0 then 1 else target)) st))
      else if exchange_in [''okx''] ex then
        (case call (\<lambda>w. cx_set_leverage c w target symbol
                [(''mgnMode'', PText ''cross''), (''posSide'', PText (if side = ''buy'' then ''long'' else ''short''))]) st of
           (Inr _, st1) \<Rightarrow> (True, st1)
         | (Inl e, st1) \<Rightarrow> (True, if target > 1 then snd (set_leverage_for_symbol c symbol target st1) else st1))
      else (True, if target > 1 then snd (set_leverage_for_symbol c symbol target st) else st))"

text \<open>The exception handler of \<open>place_hedge_order\<close>.\<close>

fun recover_leverage ::
    "'w ccxt \<Rightarrow> string \<Rightarrow> (real \<Rightarrow> order_request) \<Rightarrow> real option \<Rightarrow> int list \<Rightarrow> 'w api \<Rightarrow> placed \<times> 'w api" where
  "recover_leverage c symbol q amount [] st = (Nothing, st)"
| "recover_leverage c symbol q amount (lev # levs) st =
     (case resend c q amount (snd (set_leverage_for_symbol c symbol lev st)) of
        (Nothing, st1) \<Rightarrow> recover_leverage c symbol q amount levs st1
      | (r, st1) \<Rightarrow> (r, st1))"

definition handle_order_error ::
    "'w ccxt \<Rightarrow> exchange_row \<Rightarrow> string \<Rightarrow> string \<Rightarrow> string \<Rightarrow> int \<Rightarrow> real option \<Rightarrow> string \<Rightarrow> 'w api \<Rightarrow> placed \<times> 'w api" where
  "handle_order_error c ex symbol side typ target amount e st =
     (let q = (\<lambda>ps a. order_of symbol typ side a ps); hp = hedge_order_params ex side;
          (r1, st1) = (if in_text ''-2027'' e \<and> exchange_in [''binance''] ex
             then recover_leverage c symbol (q hp) amount [max 1 (min (if target = 0 then 1 else target) 2), 1] st
             else (Nothing, st)) in
      if r1 \<noteq> Nothing then (r1, st1)
      else if is_timestamp_error e then
        (case call (cx_sync_time c) st1 of (Some e2, st2) \<Rightarrow> (Nothing, st2) | (None, st2) \<Rightarrow> resend c (q hp) amount st2)
      else if in_text ''-4061'' e \<and> exchange_in [''binance''] ex then resend c (q []) amount st1
      else if in_text ''51000'' e \<and> exchange_in [''okx''] ex then resend c (q [(''tdMode'', PText ''cross'')]) amount st1
      else (Nothing, st1))"

definition target_leverage :: "int \<Rightarrow> int option \<Rightarrow> int" where
  "target_leverage max_lev user = (case user of None \<Rightarrow> max_lev | Some u \<Rightarrow> if u = 0 then max_lev else min max_lev u)"

definition place_hedge_order ::
    "'w ccxt option \<Rightarrow> exchange_row \<Rightarrow> string \<Rightarrow> string \<Rightarrow> real \<Rightarrow> string \<Rightarrow> int option \<Rightarrow> 'w api \<Rightarrow> placed \<times> 'w api" where
  "place_hedge_order inst ex symbol side amount_base typ user_leverage st =
     (case inst of
        None \<Rightarrow> (Nothing, st)
      | Some c \<Rightarrow>
          (case call (cx_ensure_markets c) st of
             (Some e, st1) \<Rightarrow> handle_order_error c ex symbol side typ 1 None e st1
           | (None, st1) \<Rightarrow>
               let (_, st2) = ensure_cross_margin_mode c ex symbol st1;
                   (max_lev, st3) = fetch_max_leverage c ex symbol st2;
                   target = target_leverage max_lev user_leverage;
                   (allowed, st4) = prepare_leverage c ex symbol side target st3 in
               if \<not> allowed then (Nothing, st4)
               else (case order_amount c symbol amount_base st4 of
                       (Inl e, st5) \<Rightarrow> handle_order_error c ex symbol side typ target None e st5
                     | (Inr amount, st5) \<Rightarrow>
                         if amount \<le> 0 then (Nothing, st5)
                         else (case send_order c (order_of symbol typ side amount (hedge_order_params ex side)) st5 of
                                 (Inr ord, st6) \<Rightarrow> (Placed ord, st6)
                               | (Inl e, st6) \<Rightarrow> handle_order_error c ex symbol side typ target (Some amount) e st6))))"


definition place_order ::
    "'w ccxt option \<Rightarrow> exchange_row \<Rightarrow> string \<Rightarrow> string \<Rightarrow> real \<Rightarrow> string \<Rightarrow> int option \<Rightarrow> 'w api \<Rightarrow> placed \<times> 'w api" where
  "place_order inst ex symbol side amount_base typ user_leverage st =
     (case inst of
        None \<Rightarrow> (Nothing, st)
      | Some c \<Rightarrow>
          let q = (\<lambda>a. order_of symbol typ side a []);
              retry = (\<lambda>e amount st. if is_timestamp_error e then
                  (case call (cx_sync_time c) st of (Some e2, st2) \<Rightarrow> (Nothing, st2) | (None, st2) \<Rightarrow> resend c q amount st2)
                else (Nothing, st)) in
          (case call (cx_ensure_markets c) st of
             (Some e, st1) \<Rightarrow> retry e None st1
           | (None, st1) \<Rightarrow>
               let (max_lev, st2) = fetch_max_leverage c ex symbol st1;
                   target = target_leverage max_lev user_leverage;
                   st3 = (if target > 1 then snd (set_leverage_for_symbol c symbol target st2) else st2) in
               (case order_amount c symbol amount_base st3 of
                  (Inl e, st4) \<Rightarrow> retry e None st4
                | (Inr amount, st4) \<Rightarrow>
                    if amount \<le> 0 then (Nothing, st4)
                    else (case send_order c (q amount) st4 of
                            (Inr ord, st5) \<Rightarrow> (Placed ord, st5)
                          | (Inl e, st5) \<Rightarrow> retry e (Some amount) st5))))"

text \<open>One attempt to close: \<open>_try_close\<close> and \<open>_attempt\<close>.\<close>

definition try_close :: "'w ccxt \<Rightarrow> string \<Rightarrow> string \<Rightarrow> real \<Rightarrow> params \<Rightarrow> 'w api \<Rightarrow> placed \<times> 'w api" where
  "try_close c symbol close_side size_base ps st =
     (let failed = (\<lambda>e st. (Nothing, if is_timestamp_error e then snd (call (cx_sync_time c) st) else st)) in
      case call (cx_ensure_markets c) st of
        (Some e, st1) \<Rightarrow> failed e st1
      | (None, st1) \<Rightarrow>
          (case order_amount c symbol size_base st1 of
             (Inl e, st2) \<Rightarrow> failed e st2
           | (Inr amount, st2) \<Rightarrow>
               if amount \<le> 0 then (Nothing, st2)
               else (case send_order c (order_of symbol ''market'' close_side amount ps) st2 of
                       (Inr ord, st3) \<Rightarrow> (Placed ord, st3)
                     | (Inl e, st3) \<Rightarrow> failed e st3)))"

definition reduce_only :: params where
  "reduce_only = [(''reduceOnly'', PBool True)]"

definition close_params :: "exchange_row \<Rightarrow> string \<Rightarrow> params" where
  "close_params ex pos_side =
     (if exchange_in [''binance''] ex then [(''positionSide'', PText (py_upper pos_side))]
      else if exchange_in [''okx''] ex then [(''posSide'', PText pos_side), (''tdMode'', PText ''cross'')]
      else if exchange_in [''bybit''] ex then [(''positionIdx'', PInt (if pos_side = ''long'' then 1 else 2)), (''reduceOnly'', PBool True)]
      else reduce_only)"

definition close_side_of :: "string \<Rightarrow> string" where
  "close_side_of pos_side = (if pos_side = ''long'' then ''sell'' else ''buy'')"

definition position_found :: "string \<Rightarrow> string \<Rightarrow> contract_position \<Rightarrow> bool" where
  "position_found symbol pos_side p \<longleftrightarrow>
     cp_symbol p = Some symbol \<and> cp_side p = Some pos_side \<and> to_float (py_or_num (cp_contracts p) (Some 0)) 0 > 0"

definition close_hedge_position ::
    "'w ccxt option \<Rightarrow> exchange_row \<Rightarrow> string \<Rightarrow> string \<Rightarrow> real \<Rightarrow> 'w api \<Rightarrow> placed \<times> 'w api" where
  "close_hedge_position inst ex symbol pos_side size_base st =
     (case inst of
        None \<Rightarrow> (Nothing, st)
      | Some c \<Rightarrow>
          let attempt = try_close c symbol (close_side_of pos_side) size_base;
              (r1, st1) = attempt (close_params ex pos_side) st in
          if r1 \<noteq> Nothing then (r1, st1)
          else let (r2, st2) = attempt reduce_only st1 in
          if r2 \<noteq> Nothing then (r2, st2)
          else let (r3, st3) = attempt [] st2 in
          if r3 \<noteq> Nothing then (r3, st3)
          else (case call (\<lambda>w. cx_positions c w symbol) st3 of
                  (Inl e, st4) \<Rightarrow> (Nothing, st4)
                | (Inr ps, st4) \<Rightarrow>
                    if filter (position_found symbol pos_side) ps = [] then (AlreadyClosed ''virtual_already_closed'', st4)
                    else (Nothing, st4)))"

text \<open>The second attempt of \<open>close_position\<close> takes the size from the exchange.\<close>

definition actual_base :: "'w ccxt \<Rightarrow> 'w \<Rightarrow> string \<Rightarrow> contract_position \<Rightarrow> real" where
  "actual_base c w symbol p =
     to_float (py_or_num (cp_contracts p) (py_or_num (cp_contract_size p) (Some 0))) 0
       * to_float (py_or_num (cx_contract_size c w symbol) (Some 1)) 1"

definition close_position ::
    "'w ccxt option \<Rightarrow> exchange_row \<Rightarrow> string \<Rightarrow> string \<Rightarrow> real \<Rightarrow> 'w api \<Rightarrow> placed \<times> 'w api" where
  "close_position inst ex symbol side qty st =
     (case inst of
        None \<Rightarrow> (Nothing, st)
      | Some c \<Rightarrow>
          let attempt = (\<lambda>q. try_close c symbol (close_side_of side) q reduce_only); (r1, st1) = attempt qty st in
          if r1 \<noteq> Nothing then (r1, st1)
          else (case call (\<lambda>w. cx_positions c w symbol) st1 of
                  (Inl e, st2) \<Rightarrow> (Nothing, st2)
                | (Inr ps, st2) \<Rightarrow>
                    (case first_where (\<lambda>p. cp_symbol p = Some symbol \<and> side \<in> {''long'', ''short''} \<and> cp_side p = Some side
                           \<or> cp_symbol p = Some symbol \<and> side \<notin> {''long'', ''short''} \<and> cp_side p = None) ps of
                       None \<Rightarrow> (Nothing, st2)
                     | Some p \<Rightarrow>
                         let q = actual_base c (ap_world st2) symbol p in if q > 0 then attempt q st2 else (Nothing, st2))))"

definition sell_amount :: "'w ccxt \<Rightarrow> string \<Rightarrow> real \<Rightarrow> 'w api \<Rightarrow> placed \<times> 'w api" where
  "sell_amount c symbol amount st =
     (case call (cx_ensure_markets c) st of
        (Some e, st1) \<Rightarrow> (Nothing, st1)
      | (None, st1) \<Rightarrow>
          (case cx_amount_precision c (ap_world st1) symbol amount of
             Inl e \<Rightarrow> (Nothing, st1)
           | Inr rounded \<Rightarrow> if rounded \<le> 0 then (Nothing, st1)
                             else resend c (\<lambda>a. order_of symbol ''market'' ''sell'' a []) (Some rounded) st1))"

definition dust_of :: "'w ccxt \<Rightarrow> 'w \<Rightarrow> string \<Rightarrow> real" where
  "dust_of c w symbol = max (1 / 10 ^ 8) (to_float (py_or_num (cx_min_lot c w symbol) (Some 0)) 0 * (1 / 2))"

definition close_spot_position :: "'w ccxt option \<Rightarrow> string \<Rightarrow> real \<Rightarrow> 'w api \<Rightarrow> placed \<times> 'w api" where
  "close_spot_position inst symbol qty st =
     (case inst of
        None \<Rightarrow> (Nothing, st)
      | Some c \<Rightarrow>
          let (r1, st1) = sell_amount c symbol qty st in
          if r1 \<noteq> Nothing then (r1, st1)
          else (case call (cx_ensure_markets c) st1 of
                  (Some e, st2) \<Rightarrow> (Nothing, st2)
                | (None, st2) \<Rightarrow>
                    (case call (\<lambda>w. cx_free_balance c w (py_upper (py_strip (split_head (CHR ''/'') symbol)))) st2 of
                       (Inl e, st3) \<Rightarrow> (Nothing, st3)
                     | (Inr free, st3) \<Rightarrow>
                         let amt = to_float (py_or_num free (Some 0)) 0 in
                         if amt \<le> dust_of c (ap_world st3) symbol then (AlreadyClosed ''virtual_already_closed_spot'', st3)
                         else sell_amount c symbol amt st3)))"

text \<open>
  A spot order. A market purchase on Gate is sent with its cost; when the method for it raises, a
  second order with the same cost is sent.
\<close>

definition gate_cost_params :: params where
  "gate_cost_params = [(''createMarketBuyOrderRequiresPrice'', PBool False)]"

definition cost_order :: "string \<Rightarrow> string \<Rightarrow> string \<Rightarrow> real \<Rightarrow> order_request" where
  "cost_order symbol typ side cost =
     \<lparr>oq_symbol = symbol, oq_type = typ, oq_side = side, oq_amount = Cost cost, oq_params = gate_cost_params\<rparr>"

definition place_spot_order ::
    "'w ccxt option \<Rightarrow> exchange_row \<Rightarrow> string \<Rightarrow> string \<Rightarrow> real \<Rightarrow> string \<Rightarrow> 'w api \<Rightarrow> placed \<times> 'w api" where
  "place_spot_order inst ex symbol side amount typ st =
     (case inst of
        None \<Rightarrow> (Nothing, st)
      | Some c \<Rightarrow>
          let plain = resend c (\<lambda>a. order_of symbol typ side a []) (Some amount) in
          if exchange_in [''gate'', ''gateio''] ex \<and> typ = ''market'' \<and> py_lower side = ''buy'' then
            (let (answer, st1) = call (\<lambda>w. cx_price c w symbol) st;
                 ref = (case answer of Inl e \<Rightarrow> 0 | Inr v \<Rightarrow> to_float v 0) in
             if ref > 0 then
               (let cost0 = amount * ref;
                    cost = (case cx_cost_precision c (ap_world st1) symbol cost0 of Inl e \<Rightarrow> cost0 | Inr x \<Rightarrow> x);
                    q = cost_order symbol ''market'' ''buy'' cost;
                    (r1, st2) = (if cx_has_cost_order c then resend c (\<lambda>_. q) (Some cost) st1 else (Nothing, st1)) in
                if r1 \<noteq> Nothing then (r1, st2)
                else resend c (\<lambda>_. cost_order symbol typ side cost) (Some cost) st2)
             else plain st1)
          else plain st)"

definition mode_kept :: "string \<Rightarrow> bool" where
  "mode_kept e = any_in [''already'', ''no change'', ''same'', ''position mode''] (py_lower e)"

definition setup_hedge_mode :: "'w ccxt option \<Rightarrow> exchange_row \<Rightarrow> 'w api \<Rightarrow> bool \<times> 'w api" where
  "setup_hedge_mode inst ex st =
     (case inst of
        None \<Rightarrow> (False, st)
      | Some c \<Rightarrow>
          let m = (if exchange_in [''binance''] ex then DualSide else if exchange_in [''okx''] ex then LongShortMode
                   else if exchange_in [''bybit''] ex then SwitchMode else PositionMode) in
          (case call (\<lambda>w. cx_set_mode c w m) st of (None, st1) \<Rightarrow> (True, st1) | (Some e, st1) \<Rightarrow> (mode_kept e, st1)))"

end
