(* ===== verification/ExchangeOrderLaws.thy ===== *)
theory ExchangeOrderLaws
  imports ExchangeOrders
begin

text \<open>
  What the order functions guarantee about the orders they send: how many are acknowledged, on
  which side, with which parameters; and where they send more than is meant.
\<close>

section \<open>The requests a call adds\<close>

definition placed_count :: "placed \<Rightarrow> nat" where
  "placed_count r = (case r of Placed _ \<Rightarrow> 1 | _ \<Rightarrow> 0)"

lemma placed_count_simps [simp]: "placed_count Nothing = 0" "placed_count (Placed ord) = 1" "placed_count (AlreadyClosed i) = 0"
  by (simp_all add: placed_count_def)

text \<open>From one state to another, requests with a property are added, one acknowledged per order returned.\<close>

definition sends :: "(order_request \<Rightarrow> bool) \<Rightarrow> 'w api \<Rightarrow> placed \<times> 'w api \<Rightarrow> bool" where
  "sends P st x \<longleftrightarrow> (\<exists>new. ap_sent (snd x) = ap_sent st @ new \<and> list_all P (map fst new) \<and> length (filter snd new) = placed_count (fst x))"

definition silent :: "'w api \<Rightarrow> 'a \<times> 'w api \<Rightarrow> bool" where
  "silent st x \<longleftrightarrow> ap_sent (snd x) = ap_sent st"

named_theorems silent_intros "calls that send no order"

lemma call_silent [silent_intros]: "silent st (call f st)"
  by (simp add: silent_def call_def split: prod.split)

lemma silent_trans: "silent st (a, st1) \<Longrightarrow> silent st1 x \<Longrightarrow> silent st x"
  by (simp add: silent_def)

lemma silent_eq: "silent st x \<Longrightarrow> x = (a, st1) \<Longrightarrow> ap_sent st1 = ap_sent st"
  by (simp add: silent_def)

lemma call_sent: "call f st = (r, st1) \<Longrightarrow> ap_sent st1 = ap_sent st"
  using call_silent[of st f] by (simp add: silent_def)

lemma base_to_contracts_silent [silent_intros]: "silent st (base_to_contracts c symbol q st)"
proof -
  obtain r st1 where c1: "call (cx_ensure_markets c) st = (r, st1)" by (metis surj_pair)
  then show ?thesis using call_sent[OF c1] by (cases r) (simp_all add: base_to_contracts_def silent_def Let_def)
qed

lemma order_amount_silent [silent_intros]: "silent st (order_amount c symbol q st)"
  using base_to_contracts_silent[of st c symbol q]
  by (cases "base_to_contracts c symbol q st") (simp add: order_amount_def silent_def)

lemma set_leverage_silent [silent_intros]: "silent st (set_leverage_for_symbol c symbol lev st)"
proof -
  obtain r st1 where c1: "call (\<lambda>w. cx_set_leverage c w lev symbol []) st = (r, st1)" by (metis surj_pair)
  then show ?thesis using call_sent[OF c1] by (cases r) (simp_all add: set_leverage_for_symbol_def silent_def)
qed

lemma fetch_max_leverage_silent [silent_intros]: "silent st (fetch_max_leverage c ex symbol st)"
proof (cases "ap_max_leverage st (ex_id ex, symbol)")
  case None
  obtain r st1 where c1: "call (cx_ensure_markets c) st = (r, st1)" by (metis surj_pair)
  have s1: "ap_sent st1 = ap_sent st" using call_sent[OF c1] .
  obtain b st2 where c2: "call (\<lambda>w. cx_brackets c w (binance_native_symbol symbol)) st1 = (b, st2)" by (metis surj_pair)
  have s2: "ap_sent st2 = ap_sent st1" using call_sent[OF c2] .
  show ?thesis
    using None c1 c2 s1 s2
    by (cases r; cases b) (simp_all add: fetch_max_leverage_def silent_def remember_leverage_def Let_def)
qed (simp add: fetch_max_leverage_def silent_def)

lemma ensure_cross_silent [silent_intros]: "silent st (ensure_cross_margin_mode c ex symbol st)"
proof -
  obtain r st1 where c1: "call (\<lambda>w. cx_set_margin_mode c w symbol) st = (r, st1)" by (metis surj_pair)
  define st2 where "st2 = (if cx_has c ''setMarginMode'' then st1 else st)"
  obtain b st3 where c2: "call (\<lambda>w. cx_margin_type c w (binance_native_symbol symbol)) st2 = (b, st3)" by (metis surj_pair)
  have s: "ap_sent st1 = ap_sent st" "ap_sent st2 = ap_sent st" "ap_sent st3 = ap_sent st2"
    using call_sent[OF c1] call_sent[OF c2] by (simp_all add: st2_def)
  show ?thesis
    using c1 c2 s by (cases r; cases b) (auto simp: ensure_cross_margin_mode_def silent_def st2_def Let_def split: if_splits)
qed

lemma try_leverage_silent: "try_leverage c symbol xs raised st = (r, raised', st') \<Longrightarrow> ap_sent st' = ap_sent st"
proof (induction c symbol xs raised st arbitrary: r raised' st' rule: try_leverage.induct)
  case (2 c symbol lev ps rest raised st)
  obtain a st1 where c1: "call (\<lambda>w. cx_set_leverage c w lev symbol ps) st = (a, st1)" by (metis surj_pair)
  note s1 = call_sent[OF c1]
  show ?case
  proof (cases a)
    case (Inl e)
    with "2.prems" c1 have "try_leverage c symbol rest True st1 = (r, raised', st')" by simp
    from "2.IH"(1)[OF c1[symmetric] Inl this] s1 show ?thesis by simp
  next
    case (Inr resp)
    show ?thesis
    proof (cases "resp = JNull \<and> lev = 0")
      case True
      with "2.prems" c1 Inr have "try_leverage c symbol (filter (\<lambda>x. fst x \<noteq> 0) rest) raised st1 = (r, raised', st')" by simp
      from "2.IH"(2)[OF c1[symmetric] Inr True this] s1 show ?thesis by simp
    next
      case False
      then show ?thesis using "2.prems" c1 Inr s1 by (auto split: if_splits)
    qed
  qed
qed simp

lemma verify_silent:
  "verify_position c lev symbol x st = (y, st') \<Longrightarrow> ap_sent st' = ap_sent st"
  "verify_positions c lev symbol x st = (y, st') \<Longrightarrow> ap_sent st' = ap_sent st"
proof -
  obtain r st1 where c1: "call (\<lambda>w. cx_position_json c w symbol) st = (r, st1)" by (metis surj_pair)
  obtain b st2 where c2: "call (\<lambda>w. cx_positions_json c w symbol) st = (b, st2)" by (metis surj_pair)
  show "verify_position c lev symbol x st = (y, st') \<Longrightarrow> ap_sent st' = ap_sent st"
    using c1 call_sent[OF c1] by (cases x; cases r) (auto simp: verify_position_def Let_def split: if_splits)
  show "verify_positions c lev symbol x st = (y, st') \<Longrightarrow> ap_sent st' = ap_sent st"
    using c2 call_sent[OF c2] by (cases x; cases b) (auto simp: verify_positions_def Let_def split: if_splits)
qed

lemma gate_check_silent [silent_intros]: "silent st (ensure_gate_cross_margin_mode_strict c symbol lev st)"
proof -
  let ?lev = "if lev > 0 then lev else 1"
  obtain resp raised st1 where t: "try_leverage c symbol (gate_attempts ?lev) False st = (resp, raised, st1)" by (metis prod_cases3)
  obtain x1 st2 where v: "verify_position c ?lev symbol (is_cross_signal c ?lev (extract_cross_fields resp), isolated_signal (extract_cross_fields resp)) st1 = (x1, st2)"
    by (metis surj_pair)
  obtain ok saw st3 where u: "verify_positions c ?lev symbol x1 st2 = ((ok, saw), st3)" by (metis surj_pair)
  have "ap_sent st3 = ap_sent st" "ap_sent st1 = ap_sent st"
    using try_leverage_silent[OF t] verify_silent(1)[OF v] verify_silent(2)[OF u] by simp_all
  then show ?thesis
    by (simp only: ensure_gate_cross_margin_mode_strict_def Let_def t v u prod.case) (simp add: silent_def)
qed

lemma prepare_leverage_silent [silent_intros]: "silent st (prepare_leverage c ex symbol side target st)"
proof -
  have s: "ap_sent (snd (set_leverage_for_symbol c symbol lev st')) = ap_sent st'" for lev st'
    using set_leverage_silent[of st' c symbol lev] by (simp add: silent_def)
  obtain a st1 where c1: "call (\<lambda>w. cx_set_leverage c w target symbol
                [(''mgnMode'', PText ''cross''), (''posSide'', PText (if side = ''buy'' then ''long'' else ''short''))]) st = (a, st1)"
    by (metis surj_pair)
  have s1: "ap_sent st1 = ap_sent st" using call_sent[OF c1] .
  show ?thesis
  proof (cases "exchange_in [''gate'', ''gateio''] ex")
    case True then show ?thesis by (simp add: prepare_leverage_def gate_check_silent)
  next
    case False
    then show ?thesis using c1 s1 s by (cases a) (simp_all add: prepare_leverage_def silent_def)
  qed
qed

section \<open>Composing calls\<close>

lemma sends_nothing: "silent st (a, st1) \<Longrightarrow> sends P st (Nothing, st1)" "silent st (a, st1) \<Longrightarrow> sends P st (AlreadyClosed i, st1)"
  by (simp_all add: silent_def sends_def)

lemma sends_refl [simp]: "sends P st (Nothing, st)"
  by (simp add: sends_def)

lemma sends_comp: "silent st (a, st1) \<Longrightarrow> sends P st1 x \<Longrightarrow> sends P st x"
  by (simp add: silent_def sends_def)

lemma sends_seq:
  assumes "sends P st (Nothing, st1)" "sends P st1 x" shows "sends P st x"
proof -
  obtain new where n: "ap_sent st1 = ap_sent st @ new" "list_all P (map fst new)" "length (filter snd new) = 0"
    using assms(1) by (auto simp: sends_def)
  obtain new' where "ap_sent (snd x) = ap_sent st1 @ new'" "list_all P (map fst new')" "length (filter snd new') = placed_count (fst x)"
    using assms(2) by (auto simp: sends_def)
  then show ?thesis using n unfolding sends_def by (intro exI[of _ "new @ new'"]) simp
qed

lemma sends_after: "sends P st (r, st1) \<Longrightarrow> silent st1 (a, st2) \<Longrightarrow> sends P st (r, st2)"
  by (simp add: silent_def sends_def)

lemma send_order_sends:
  assumes "send_order c q st = (r, st1)" "P q"
  shows "case r of Inl e \<Rightarrow> sends P st (Nothing, st1) | Inr ord \<Rightarrow> sends P st (Placed ord, st1)"
  using assms by (auto simp: send_order_def sends_def split: prod.splits sum.splits)

lemma resend_sends: "(\<And>a. P (q a)) \<Longrightarrow> sends P st (resend c q amount st)"
proof (cases amount)
  case (Some a)
  assume P: "\<And>a. P (q a)"
  obtain r st1 where s: "send_order c (q a) st = (r, st1)" by (metis surj_pair)
  then show ?thesis using send_order_sends[OF s, of P] P Some by (cases r) (simp_all add: resend_def)
qed (simp add: resend_def)

lemma recover_sends: "(\<And>a. P (q a)) \<Longrightarrow> sends P st (recover_leverage c symbol q amount levs st)"
proof (induction levs arbitrary: st)
  case (Cons lev levs)
  let ?st = "snd (set_leverage_for_symbol c symbol lev st)"
  obtain r st1 where s: "resend c q amount ?st = (r, st1)" by (metis surj_pair)
  have "sends P ?st (r, st1)" using resend_sends[of P q ?st c amount] Cons.prems s by simp
  moreover have l: "silent st ((), ?st)" using set_leverage_silent[of st c symbol lev] by (simp add: silent_def)
  ultimately have a: "sends P st (r, st1)" by (rule sends_comp[rotated])
  show ?case
  proof (cases r)
    case Nothing
    then show ?thesis using s a sends_seq[OF _ Cons.IH[OF Cons.prems], of st st1] by simp
  qed (use s a in simp_all)
qed simp


lemma handle_error_sends:
  assumes "\<And>a ps. P (order_of symbol typ side a ps)"
  shows "sends P st (handle_order_error c ex symbol side typ target amount e st)"
proof -
  let ?q = "\<lambda>ps a. order_of symbol typ side a ps"
  let ?hp = "hedge_order_params ex side"
  obtain r1 st1 where r: "(if in_text ''-2027'' e \<and> exchange_in [''binance''] ex
             then recover_leverage c symbol (?q ?hp) amount [max 1 (min (if target = 0 then 1 else target) 2), 1] st
             else (Nothing, st)) = (r1, st1)" by (metis surj_pair)
  have a: "sends P st (r1, st1)" unfolding r[symmetric] by (simp del: recover_leverage.simps add: recover_sends assms)
  have b: "sends P st2 (resend c (?q ps) amount st2)" for ps st2 by (rule resend_sends) (rule assms)
  obtain y st2 where c: "call (cx_sync_time c) st1 = (y, st2)" by (metis surj_pair)
  have s: "silent st1 (y, st2)" using call_silent[of st1 "cx_sync_time c"] c by simp
  have later: "sends P st x" if "r1 = Nothing" "sends P st1 x" for x
    using sends_seq[of P st st1 x] a that by simp
  show ?thesis
  proof (cases "r1 = Nothing")
    case False
    then show ?thesis using a by (simp only: handle_order_error_def Let_def r prod.case if_True not_False_eq_True)
  next
    case True
    have t1: "sends P st1 (case y of None \<Rightarrow> resend c (?q ?hp) amount st2 | Some e2 \<Rightarrow> (Nothing, st2))"
      using sends_comp[OF s b] sends_nothing(1)[OF s] by (cases y) simp_all
    show ?thesis
      unfolding handle_order_error_def Let_def r prod.case
      using True later[OF True] t1 b[of st1] c by (cases y) simp_all
  qed
qed

lemma place_hedge_sends:
  assumes "\<And>a ps. P (order_of symbol typ side a ps)"
  shows "sends P st (place_hedge_order inst ex symbol side q typ lev st)"
proof (cases inst)
  case None then show ?thesis by (simp add: place_hedge_order_def)
next
  case (Some c)
  obtain r st1 where c1: "call (cx_ensure_markets c) st = (r, st1)" by (metis surj_pair)
  have s1: "silent st (r, st1)" using call_silent[of st "cx_ensure_markets c"] c1 by simp
  note h = handle_error_sends[of P symbol "typ" side, OF assms]
  show ?thesis
  proof (cases r)
    case (Some e)
    then show ?thesis using \<open>inst = _\<close> c1 sends_comp[OF s1 h] by (simp add: place_hedge_order_def)
  next
    case None
    obtain x st2 where c2: "ensure_cross_margin_mode c ex symbol st1 = (x, st2)" by (metis surj_pair)
    obtain m st3 where c3: "fetch_max_leverage c ex symbol st2 = (m, st3)" by (metis surj_pair)
    let ?t = "target_leverage m lev"
    obtain ok st4 where c4: "prepare_leverage c ex symbol side ?t st3 = (ok, st4)" by (metis surj_pair)
    obtain a st5 where c5: "order_amount c symbol q st4 = (a, st5)" by (metis surj_pair)
    have s4: "silent st (ok, st4)"
      using s1 ensure_cross_silent[of st1 c ex symbol] fetch_max_leverage_silent[of st2 c ex symbol] prepare_leverage_silent[of st3 c ex symbol side ?t]
      unfolding c2 c3 c4 by (simp add: silent_def)
    have s5: "silent st (a, st5)" using s4 order_amount_silent[of st4 c symbol q] unfolding c5 by (simp add: silent_def)
    have body: "place_hedge_order inst ex symbol side q typ lev st =
      (if \<not> ok then (Nothing, st4)
       else (case a of
                       Inl e \<Rightarrow> handle_order_error c ex symbol side typ ?t None e st5
                     | Inr amount \<Rightarrow>
                         if amount \<le> 0 then (Nothing, st5)
                         else (case send_order c (order_of symbol typ side amount (hedge_order_params ex side)) st5 of
                                 (Inr ord, st6) \<Rightarrow> (Placed ord, st6)
                               | (Inl e, st6) \<Rightarrow> handle_order_error c ex symbol side typ ?t (Some amount) e st6)))"
      using \<open>inst = _\<close> None c1 c2 c3 c4 c5 by (cases a) (simp_all add: place_hedge_order_def Let_def)
    show ?thesis
    proof (cases "ok \<and> (\<exists>amount. a = Inr amount \<and> \<not> amount \<le> 0)")
      case True
      then obtain amount where am: "a = Inr amount" "\<not> amount \<le> 0" and ok by blast
      obtain b st6 where c6: "send_order c (order_of symbol typ side amount (hedge_order_params ex side)) st5 = (b, st6)" by (metis surj_pair)
      note s6 = send_order_sends[OF c6, of P, OF assms]
      have "sends P st5 (place_hedge_order inst ex symbol side q typ lev st)"
        using s6 sends_seq[OF _ h] am \<open>ok\<close> c6 unfolding body by (cases b) simp_all
      then show ?thesis by (rule sends_comp[OF s5])
    next
      case False
      then show ?thesis unfolding body using sends_nothing(1)[OF s4] sends_nothing(1)[OF s5] sends_comp[OF s5 h] by (cases a) auto
    qed
  qed
qed


lemma place_order_sends:
  assumes "\<And>a. P (order_of symbol typ side a [])"
  shows "sends P st (place_order inst ex symbol side q typ lev st)"
proof (cases inst)
  case None then show ?thesis by (simp add: place_order_def)
next
  case (Some c)
  obtain r st1 where c1: "call (cx_ensure_markets c) st = (r, st1)" by (metis surj_pair)
  have s1: "silent st (r, st1)" using call_silent[of st "cx_ensure_markets c"] c1 by simp
  let ?q = "\<lambda>a. order_of symbol typ side a []"
  have h: "sends P s (if is_timestamp_error e then
                  (case call (cx_sync_time c) s of (Some e2, st2) \<Rightarrow> (Nothing, st2) | (None, st2) \<Rightarrow> resend c ?q amount st2)
                else (Nothing, s))" for e amount s
  proof -
    obtain y st2 where c2: "call (cx_sync_time c) s = (y, st2)" by (metis surj_pair)
    have s2: "silent s (y, st2)" using call_silent[of s "cx_sync_time c"] c2 by simp
    have "sends P st2 (resend c ?q amount st2)" by (rule resend_sends) (rule assms)
    then show ?thesis using c2 sends_comp[OF s2] sends_nothing(1)[OF s2] by (cases y) simp_all
  qed
  show ?thesis
  proof (cases r)
    case (Some e)
    then show ?thesis using \<open>inst = _\<close> c1 sends_comp[OF s1 h[of st1 e None]] by (simp add: place_order_def Let_def)
  next
    case None
    obtain m st2 where c3: "fetch_max_leverage c ex symbol st1 = (m, st2)" by (metis surj_pair)
    define st3 where "st3 = (if target_leverage m lev > 1 then snd (set_leverage_for_symbol c symbol (target_leverage m lev) st2) else st2)"
    obtain a st4 where c5: "order_amount c symbol q st3 = (a, st4)" by (metis surj_pair)
    have "ap_sent st3 = ap_sent st2"
      using set_leverage_silent[of st2 c symbol "target_leverage m lev"] by (simp add: st3_def silent_def)
    then have s4: "silent st (a, st4)"
      using s1 fetch_max_leverage_silent[of st1 c ex symbol] order_amount_silent[of st3 c symbol q] unfolding c3 c5 by (simp add: silent_def)
    show ?thesis
    proof (cases "\<exists>amount. a = Inr amount \<and> \<not> amount \<le> 0")
      case True
      then obtain amount where am: "a = Inr amount" "\<not> amount \<le> 0" by blast
      obtain b st5 where c6: "send_order c (?q amount) st4 = (b, st5)" by (metis surj_pair)
      note s6 = send_order_sends[OF c6, of P, OF assms]
      have "sends P st4 (place_order inst ex symbol side q typ lev st)"
        using s6 sends_seq[OF _ h, of st4] am c6 \<open>inst = _\<close> None c1 c3 c5 st3_def[symmetric]
        by (cases b) (simp_all add: place_order_def Let_def)
      then show ?thesis by (rule sends_comp[OF s4])
    next
      case False
      then show ?thesis
        using \<open>inst = _\<close> None c1 c3 c5 st3_def[symmetric] sends_nothing(1)[OF s4] sends_comp[OF s4 h]
        by (cases a) (simp_all add: place_order_def Let_def)
    qed
  qed
qed

lemma try_close_sends:
  assumes "\<And>a. 0 < a \<Longrightarrow> P (order_of symbol ''market'' close_side a ps)"
  shows "sends P st (try_close c symbol close_side q ps st)"
proof -
  obtain r st1 where c1: "call (cx_ensure_markets c) st = (r, st1)" by (metis surj_pair)
  obtain a st2 where c2: "order_amount c symbol q st1 = (a, st2)" by (metis surj_pair)
  have s1: "silent st (r, st1)" using call_silent[of st "cx_ensure_markets c"] c1 by simp
  have s2: "silent st (a, st2)" using s1 order_amount_silent[of st1 c symbol q] unfolding c2 by (simp add: silent_def)
  have f: "sends P s (Nothing, if is_timestamp_error e then snd (call (cx_sync_time c) s') else s')" if "sends P s (Nothing, s')" for e s s'
    using that call_silent[of s' "cx_sync_time c"] by (simp add: sends_def silent_def)
  show ?thesis
  proof (cases "r = None \<and> (\<exists>amount. a = Inr amount \<and> \<not> amount \<le> 0)")
    case True
    then obtain amount where am: "r = None" "a = Inr amount" "0 < amount" by auto
    obtain b st3 where c3: "send_order c (order_of symbol ''market'' close_side amount ps) st2 = (b, st3)" by (metis surj_pair)
    note s3 = send_order_sends[OF c3, of P, OF assms[OF am(3)]]
    have "sends P st2 (try_close c symbol close_side q ps st)"
      using s3 f[of st2 st3] am c1 c2 c3 by (cases b) (simp_all add: try_close_def Let_def)
    then show ?thesis by (rule sends_comp[OF s2])
  next
    case False
    then show ?thesis
      using c1 c2 f[OF sends_nothing(1)[OF s1]] f[OF sends_nothing(1)[OF s2]] sends_nothing(1)[OF s2]
      by (cases r; cases a) (simp_all add: try_close_def Let_def)
  qed
qed

lemma close_hedge_sends:
  assumes "\<And>a ps. 0 < a \<Longrightarrow> P (order_of symbol ''market'' (close_side_of pos_side) a ps)"
  shows "sends P st (close_hedge_position inst ex symbol pos_side q st)"
proof (cases inst)
  case None then show ?thesis by (simp add: close_hedge_position_def)
next
  case (Some c)
  let ?attempt = "try_close c symbol (close_side_of pos_side) q"
  have t: "sends P s (?attempt ps s)" for ps s by (rule try_close_sends) (rule assms)
  obtain r1 st1 where c1: "?attempt (close_params ex pos_side) st = (r1, st1)" by (metis surj_pair)
  obtain r2 st2 where c2: "?attempt reduce_only st1 = (r2, st2)" by (metis surj_pair)
  obtain r3 st3 where c3: "?attempt [] st2 = (r3, st3)" by (metis surj_pair)
  obtain y st4 where c4: "call (\<lambda>w. cx_positions c w symbol) st3 = (y, st4)" by (metis surj_pair)
  have s1: "sends P st (r1, st1)" using t[of st] c1 by metis
  have s2: "sends P st (r2, st2)" if "r1 = Nothing" using sends_seq[of P st st1 "(r2, st2)"] s1 t[of st1 reduce_only] c2 that by simp
  have s3: "sends P st (r3, st3)" if "r1 = Nothing" "r2 = Nothing" using sends_seq[of P st st2 "(r3, st3)"] s2 t[of st2 "[]"] c3 that by simp
  have s4: "sends P st (r, st4)" if "r1 = Nothing" "r2 = Nothing" "r3 = Nothing" "r = Nothing \<or> r = AlreadyClosed i" for r i
    using s3 that call_silent[of st3 "\<lambda>w. cx_positions c w symbol"] c4 by (auto simp: sends_def silent_def)
  show ?thesis
    using Some c1 c2 c3 c4 s1 s2 s3 s4 by (cases y) (simp_all add: close_hedge_position_def Let_def)
qed

lemma close_position_sends:
  assumes "\<And>a. 0 < a \<Longrightarrow> P (order_of symbol ''market'' (close_side_of side) a reduce_only)"
  shows "sends P st (close_position inst ex symbol side q st)"
proof (cases inst)
  case None then show ?thesis by (simp add: close_position_def)
next
  case (Some c)
  let ?attempt = "\<lambda>q. try_close c symbol (close_side_of side) q reduce_only"
  have t: "sends P s (?attempt x s)" for x s by (rule try_close_sends) (rule assms)
  obtain r1 st1 where c1: "?attempt q st = (r1, st1)" by (metis surj_pair)
  obtain y st2 where c2: "call (\<lambda>w. cx_positions c w symbol) st1 = (y, st2)" by (metis surj_pair)
  have s1: "sends P st (r1, st1)" using t[of st q] c1 by simp
  have s2: "sends P st (Nothing, st2)" if "r1 = Nothing"
    using s1 that call_silent[of st1 "\<lambda>w. cx_positions c w symbol"] c2 by (simp add: sends_def silent_def)
  have s3: "sends P st (?attempt x st2)" if "r1 = Nothing" for x using sends_seq[OF s2[OF that] t] .
  show ?thesis
    using Some c1 c2 s1 s2 s3 by (cases y) (simp_all add: close_position_def Let_def split: option.split)
qed

lemma sell_sends:
  assumes "\<And>a. P (order_of symbol ''market'' ''sell'' a [])" shows "sends P st (sell_amount c symbol q st)"
proof -
  obtain r st1 where c1: "call (cx_ensure_markets c) st = (r, st1)" by (metis surj_pair)
  have s1: "silent st (r, st1)" using call_silent[of st "cx_ensure_markets c"] c1 by simp
  have t: "sends P st1 (resend c (\<lambda>a. order_of symbol ''market'' ''sell'' a []) x st1)" for x by (rule resend_sends) (rule assms)
  show ?thesis
    using c1 sends_nothing(1)[OF s1] sends_comp[OF s1 t] by (cases r) (auto simp: sell_amount_def split: sum.split)
qed

lemma close_spot_sends:
  assumes "\<And>a. P (order_of symbol ''market'' ''sell'' a [])" shows "sends P st (close_spot_position inst symbol q st)"
proof (cases inst)
  case None then show ?thesis by (simp add: close_spot_position_def)
next
  case (Some c)
  note t = sell_sends[of P symbol, OF assms]
  let ?b = "py_upper (py_strip (split_head (CHR ''/'') symbol))"
  obtain r1 st1 where c1: "sell_amount c symbol q st = (r1, st1)" by (metis surj_pair)
  obtain y st2 where c2: "call (cx_ensure_markets c) st1 = (y, st2)" by (metis surj_pair)
  obtain z st3 where c3: "call (\<lambda>w. cx_free_balance c w ?b) st2 = (z, st3)" by (metis surj_pair)
  have s1: "sends P st (r1, st1)" using t[of st c q] c1 by simp
  have e: "ap_sent st2 = ap_sent st1" "ap_sent st3 = ap_sent st1" using call_sent[OF c2] call_sent[OF c3] by simp_all
  have s2: "sends P st (r, st2)" "sends P st (r, st3)" if "r1 = Nothing" "r = Nothing \<or> r = AlreadyClosed i" for r i
    using s1 that e by (auto simp: sends_def)
  have s3: "sends P st (sell_amount c symbol x st3)" if "r1 = Nothing" for x
    using sends_seq[OF s2(2)[OF that, of Nothing] t] by simp
  show ?thesis
    using Some c1 c2 c3 s1 s2 s3 by (cases y; cases z) (simp_all add: close_spot_position_def Let_def)
qed

lemma place_spot_sends:
  assumes "\<And>a. P (order_of symbol typ side a [])" "\<And>x. P (cost_order symbol ''market'' ''buy'' x)" "\<And>x. P (cost_order symbol typ side x)"
  shows "sends P st (place_spot_order inst ex symbol side q typ st)"
proof (cases inst)
  case None then show ?thesis by (simp add: place_spot_order_def)
next
  case (Some c)
  have plain: "sends P s (resend c (\<lambda>a. order_of symbol typ side a []) x s)" for x s by (rule resend_sends) (rule assms)
  obtain y st1 where c1: "call (\<lambda>w. cx_price c w symbol) st = (y, st1)" by (metis surj_pair)
  have s1: "silent st (y, st1)" using call_silent[of st "\<lambda>w. cx_price c w symbol"] c1 by simp
  show ?thesis
  proof (cases "exchange_in [''gate'', ''gateio''] ex \<and> typ = ''market'' \<and> py_lower side = ''buy''")
    case False
    then show ?thesis using Some plain[of st] by (auto simp: place_spot_order_def)
  next
    case True
    define ref where "ref = (case y of Inl e \<Rightarrow> 0 | Inr v \<Rightarrow> to_float v 0)"
    define cost where "cost = (case cx_cost_precision c (ap_world st1) symbol (q * ref) of Inl e \<Rightarrow> q * ref | Inr x \<Rightarrow> x)"
    obtain r1 st2 where c2: "(if cx_has_cost_order c then resend c (\<lambda>_. cost_order symbol ''market'' ''buy'' cost) (Some cost) st1 else (Nothing, st1)) = (r1, st2)"
      by (metis surj_pair)
    have s2: "sends P st1 (r1, st2)" unfolding c2[symmetric] by (simp add: resend_sends assms(2))
    have s3: "sends P st2 (resend c (\<lambda>_. cost_order symbol typ side cost) (Some cost) st2)" by (rule resend_sends) (rule assms(3))
    have "place_spot_order inst ex symbol side q typ st =
      (if ref > 0 then (if r1 \<noteq> Nothing then (r1, st2) else resend c (\<lambda>_. cost_order symbol typ side cost) (Some cost) st2)
       else resend c (\<lambda>a. order_of symbol typ side a []) (Some q) st1)"
      unfolding place_spot_order_def Some option.case if_P[OF True] Let_def c1 prod.case ref_def[symmetric] cost_def[symmetric] c2 ..
    moreover have "sends P st1 (if r1 \<noteq> Nothing then (r1, st2) else resend c (\<lambda>_. cost_order symbol typ side cost) (Some cost) st2)"
      using s2 sends_seq[OF _ s3, of st1] by auto
    ultimately show ?thesis using sends_comp[OF s1] plain[of st1] by simp
  qed
qed


section \<open>The contract of an order function\<close>

text \<open>
  An order function adds requests with a property and one acknowledgement per order it returns.
  Callers that try again until they get an answer (the closing loops of the engines) inherit both.
\<close>

fun retry_order :: "nat \<Rightarrow> ('w api \<Rightarrow> placed \<times> 'w api) \<Rightarrow> 'w api \<Rightarrow> placed \<times> 'w api" where
  "retry_order 0 run st = (Nothing, st)"
| "retry_order (Suc n) run st = (case run st of (Nothing, st1) \<Rightarrow> retry_order n run st1 | (r, st1) \<Rightarrow> (r, st1))"

locale order_wrapper =
  fixes run :: "'w api \<Rightarrow> placed \<times> 'w api" and P :: "order_request \<Rightarrow> bool"
  assumes sends_run: "sends P st (run st)"
begin

lemma sends_retry: "sends P st (retry_order n run st)"
proof (induction n arbitrary: st)
  case (Suc n)
  obtain r st1 where r: "run st = (r, st1)" by (metis surj_pair)
  have "sends P st (r, st1)" using sends_run[of st] r by simp
  then show ?case using r sends_seq[OF _ Suc, of st st1] by (cases r) simp_all
qed simp

end

definition for_symbol :: "string \<Rightarrow> string \<Rightarrow> string \<Rightarrow> order_request \<Rightarrow> bool" where
  "for_symbol symbol side typ q \<longleftrightarrow> oq_symbol q = symbol \<and> oq_side q = side \<and> oq_type q = typ"

definition closing :: "string \<Rightarrow> string \<Rightarrow> order_request \<Rightarrow> bool" where
  "closing symbol pos_side q \<longleftrightarrow> for_symbol symbol (close_side_of pos_side) ''market'' q \<and> (\<exists>a > 0. oq_amount q = Units a)"

definition reducing :: "string \<Rightarrow> string \<Rightarrow> order_request \<Rightarrow> bool" where
  "reducing symbol pos_side q \<longleftrightarrow> closing symbol pos_side q \<and> oq_params q = reduce_only"

interpretation hedge_order: order_wrapper "place_hedge_order inst ex symbol side q typ lev" "for_symbol symbol side typ"
  for inst :: "'w ccxt option" and ex symbol side q "typ" lev
  by unfold_locales (rule place_hedge_sends, simp add: for_symbol_def order_of_def)

interpretation plain_order: order_wrapper "place_order inst ex symbol side q typ lev" "for_symbol symbol side typ"
  for inst :: "'w ccxt option" and ex symbol side q "typ" lev
  by unfold_locales (rule place_order_sends, simp add: for_symbol_def order_of_def)

interpretation hedge_close: order_wrapper "close_hedge_position inst ex symbol pos_side q" "closing symbol pos_side"
  for inst :: "'w ccxt option" and ex symbol pos_side q
  by unfold_locales (rule close_hedge_sends, simp add: closing_def for_symbol_def order_of_def)

interpretation reduce_close: order_wrapper "close_position inst ex symbol side q" "reducing symbol side"
  for inst :: "'w ccxt option" and ex symbol side q
  by unfold_locales (rule close_position_sends, simp add: reducing_def closing_def for_symbol_def order_of_def)

interpretation spot_close: order_wrapper "close_spot_position inst symbol q" "for_symbol symbol ''sell'' ''market''"
  for inst :: "'w ccxt option" and symbol q
  by unfold_locales (rule close_spot_sends, simp add: for_symbol_def order_of_def)

interpretation spot_order: order_wrapper "place_spot_order inst ex symbol side q typ" "\<lambda>r. oq_symbol r = symbol"
  for inst :: "'w ccxt option" and ex symbol side q "typ"
  by unfold_locales (rule place_spot_sends, simp_all add: order_of_def cost_order_def)

section \<open>Properties\<close>

definition one_order :: "'w api \<Rightarrow> placed \<times> 'w api \<Rightarrow> bool" where
  "one_order st x \<longleftrightarrow> (\<exists>new. ap_sent (snd x) = ap_sent st @ new \<and> length (filter snd new) = placed_count (fst x))"

lemma sends_one_order: "sends P st x \<Longrightarrow> one_order st x"
  by (auto simp: sends_def one_order_def)


definition new_orders :: "'w api \<Rightarrow> placed \<times> 'w api \<Rightarrow> order_request list" where
  "new_orders st x = map fst (drop (length (ap_sent st)) (ap_sent (snd x)))"

lemma sends_new_orders: "sends P st x \<Longrightarrow> list_all P (new_orders st x)"
  by (auto simp: sends_def new_orders_def)

text \<open>
  \<open>close_position\<close> can only reduce a position: every order it sends, the retry with the size of the
  exchange included, is a market order of positive amount on the opposite side with \<open>reduceOnly\<close>.
\<close>

theorem close_position_only_reduces:
  "list_all (reducing symbol side) (new_orders st (close_position inst ex symbol side q st))"
  by (rule sends_new_orders[OF reduce_close.sends_run])

text \<open>
  \<open>close_hedge_position\<close> can open the opposite position: when the exchange refuses the orders that
  carry a position side or \<open>reduceOnly\<close> (as it does when there is nothing to close) and takes plain
  ones, the third attempt is a plain market order of the full size, sent before the position is
  looked up.
\<close>

theorem close_hedge_sends_plain_order:
  assumes "\<And>w. fst (cx_ensure_markets c w) = None" "\<And>w. cx_amount_precision c w symbol = Inr" "\<And>w. cx_contract_size c w symbol = Some 1"
    "0 < q" "\<And>w r. oq_params r \<noteq> [] \<Longrightarrow> \<exists>e. cx_create_order c w r = (Inl e, w) \<and> \<not> is_timestamp_error e"
    "\<And>w r. oq_params r = [] \<Longrightarrow> \<exists>ord. cx_create_order c w r = (Inr ord, w)"
  shows "\<exists>ord st'. close_hedge_position (Some c) ex symbol pos_side q st = (Placed ord, st')
    \<and> (order_of symbol ''market'' (close_side_of pos_side) q [], True) \<in> set (ap_sent st')"
proof -
  have amount: "\<exists>s'. call (cx_ensure_markets c) s = (None, s')" for s
    using assms(1)[of "ap_world s"] by (cases "cx_ensure_markets c (ap_world s)") (simp add: call_def)
  have conv: "\<exists>s'. order_amount c symbol q s = (Inr q, s')" for s
    using amount[of s] assms(2,3) by (auto simp: order_amount_def base_to_contracts_def Let_def)
  have refused: "\<exists>s'. try_close c symbol (close_side_of pos_side) q ps s = (Nothing, s')" if ne: "ps \<noteq> []" for ps s
  proof -
    obtain s1 where s1: "call (cx_ensure_markets c) s = (None, s1)" using amount by blast
    obtain s2 where s2: "order_amount c symbol q s1 = (Inr q, s2)" using conv by blast
    have "oq_params (order_of symbol ''market'' (close_side_of pos_side) q ps) \<noteq> []" using ne by (simp add: order_of_def)
    from assms(5)[OF this, of "ap_world s2"] obtain e where
      "cx_create_order c (ap_world s2) (order_of symbol ''market'' (close_side_of pos_side) q ps) = (Inl e, ap_world s2)" by blast
    then show ?thesis using s1 s2 assms(4) by (simp add: try_close_def Let_def send_order_def)
  qed
  have taken: "\<exists>ord s'. try_close c symbol (close_side_of pos_side) q [] s = (Placed ord, s')
      \<and> (order_of symbol ''market'' (close_side_of pos_side) q [], True) \<in> set (ap_sent s')" for s
  proof -
    obtain s1 where s1: "call (cx_ensure_markets c) s = (None, s1)" using amount by blast
    obtain s2 where s2: "order_amount c symbol q s1 = (Inr q, s2)" using conv by blast
    have "oq_params (order_of symbol ''market'' (close_side_of pos_side) q []) = []" by (simp add: order_of_def)
    from assms(6)[OF this, of "ap_world s2"] obtain ord where
      "cx_create_order c (ap_world s2) (order_of symbol ''market'' (close_side_of pos_side) q []) = (Inr ord, ap_world s2)" by blast
    then show ?thesis using s1 s2 assms(4) by (simp add: try_close_def Let_def send_order_def)
  qed
  have p: "close_params ex pos_side \<noteq> []" "reduce_only \<noteq> []" by (simp_all add: close_params_def reduce_only_def)
  obtain s1 where s1: "try_close c symbol (close_side_of pos_side) q (close_params ex pos_side) st = (Nothing, s1)" using refused[OF p(1)] by blast
  obtain s2 where s2: "try_close c symbol (close_side_of pos_side) q reduce_only s1 = (Nothing, s2)" using refused[OF p(2)] by blast
  show ?thesis using s1 s2 taken[of s2] by (auto simp: close_hedge_position_def Let_def)
qed


definition refusing_client :: "nat ccxt" where
  "refusing_client =
     \<lparr>cx_has = (\<lambda>f. False), cx_has_cost_order = True, cx_ensure_markets = (\<lambda>w. (None, w)), cx_contract_size = (\<lambda>w s. Some 1),
      cx_min_lot = (\<lambda>w s. None), cx_leverage_limit = (\<lambda>w s. None), cx_amount_precision = (\<lambda>w s. Inr), cx_cost_precision = (\<lambda>w s. Inr),
      cx_create_order = (\<lambda>w r. (if oq_params r = [] then Inr sample_order else Inl ''ReduceOnly Order is rejected'', w)),
      cx_set_leverage = (\<lambda>w l s ps. (Inr (JObj []), w)), cx_set_margin_mode = (\<lambda>w s. (None, w)), cx_margin_type = (\<lambda>w s. (None, w)),
      cx_brackets = (\<lambda>w s. (Inr [], w)), cx_sync_time = (\<lambda>w. (None, w)), cx_positions = (\<lambda>w s. (Inr [], w)),
      cx_position_json = (\<lambda>w s. (Inr JNull, w)), cx_positions_json = (\<lambda>w s. (Inr [], w)), cx_price = (\<lambda>w s. (Inr (Some 100), w)),
      cx_free_balance = (\<lambda>w s. (Inr None, w)), cx_set_mode = (\<lambda>w m. (None, w)), cx_float = (\<lambda>s. None)\<rparr>"

definition idle_api :: "nat api" where
  "idle_api = \<lparr>ap_world = 0, ap_sent = [], ap_max_leverage = (\<lambda>k. None)\<rparr>"

definition binance_row :: exchange_row where
  "binance_row = \<lparr>ex_id = 2, ex_name = ''binance'', ex_display_name = None, ex_is_unified = Some False\<rparr>"

lemma refused_text: "\<not> is_timestamp_error ''ReduceOnly Order is rejected''"
  by code_simp

text \<open>The exchange reports no position, and still the plain order is sent.\<close>

theorem close_hedge_sends_plain_order_witness:
  "cx_positions refusing_client 0 ''BTC/USDT:USDT'' = (Inr [], 0) \<and>
   (\<exists>ord st'. close_hedge_position (Some refusing_client) binance_row ''BTC/USDT:USDT'' ''short'' 1 idle_api = (Placed ord, st')
    \<and> (order_of ''BTC/USDT:USDT'' ''market'' ''buy'' 1 [], True) \<in> set (ap_sent st'))"
proof -
  have "\<exists>ord st'. close_hedge_position (Some refusing_client) binance_row ''BTC/USDT:USDT'' ''short'' 1 idle_api = (Placed ord, st')
    \<and> (order_of ''BTC/USDT:USDT'' ''market'' (close_side_of ''short'') 1 [], True) \<in> set (ap_sent st')"
    by (rule close_hedge_sends_plain_order) (auto simp: refusing_client_def refused_text[simplified])
  then show ?thesis by (simp add: refusing_client_def close_side_of_def)
qed

text \<open>
  A market purchase on Gate can be made twice: whenever the call with the cost raises, also when the
  exchange has executed the order and only the answer was lost, a second order with the same cost
  follows.
\<close>

theorem gate_spot_purchase_repeated:
  assumes "py_lower (ex_name ex) = ''gate''" "cx_has_cost_order c"
    "cx_price c (ap_world st) symbol = (Inr (Some px), wa)" "0 < px" "cx_cost_precision c wa symbol (q * px) = Inr cost"
    "cx_create_order c wa (cost_order symbol ''market'' ''buy'' cost) = (Inl e, wb)"
  shows "\<exists>acked. ap_sent (snd (place_spot_order (Some c) ex symbol ''buy'' q ''market'' st))
    = ap_sent st @ [(cost_order symbol ''market'' ''buy'' cost, False), (cost_order symbol ''market'' ''buy'' cost, acked)]"
proof -
  have b: "py_lower ''buy'' = ''buy''" by code_simp
  obtain r w3 where c2: "cx_create_order c wb (cost_order symbol ''market'' ''buy'' cost) = (r, w3)" by (metis surj_pair)
  have g: "exchange_in [''gate'', ''gateio''] ex" using assms(1) by (simp add: exchange_in_def)
  show ?thesis
    using g assms(2-6) b[simplified] c2
    by (cases r) (auto simp: place_spot_order_def call_def resend_def send_order_def Let_def)
qed

theorem gate_spot_purchase_repeated_witness:
  "\<exists>acked. ap_sent (snd (place_spot_order (Some refusing_client) (binance_row\<lparr>ex_name := ''gate''\<rparr>) ''BTC/USDT'' ''buy'' 2 ''market'' idle_api))
    = [(cost_order ''BTC/USDT'' ''market'' ''buy'' 200, False), (cost_order ''BTC/USDT'' ''market'' ''buy'' 200, acked)]"
proof -
  have g: "py_lower ''gate'' = ''gate''" by code_simp
  have "\<exists>acked. ap_sent (snd (place_spot_order (Some refusing_client) (binance_row\<lparr>ex_name := ''gate''\<rparr>) ''BTC/USDT'' ''buy'' 2 ''market'' idle_api))
    = ap_sent idle_api @ [(cost_order ''BTC/USDT'' ''market'' ''buy'' 200, False), (cost_order ''BTC/USDT'' ''market'' ''buy'' 200, acked)]"
    by (rule gate_spot_purchase_repeated[where px = 100 and wa = 0 and wb = 0 and e = "''ReduceOnly Order is rejected''"])
      (use g in \<open>simp_all add: refusing_client_def idle_api_def cost_order_def gate_cost_params_def\<close>)
  then show ?thesis by (simp add: idle_api_def)
qed

text \<open>
  The margin check of Gate lets an order pass when nothing confirms the cross margin: an empty answer
  to the leverage request and no way to read the position are enough.
\<close>

lemma gate_check_passes_unconfirmed:
  assumes "\<not> cx_has c ''fetchPosition''" "\<not> cx_has c ''fetchPositions''" "\<And>w l ps. cx_set_leverage c w l symbol ps = (Inr (JObj []), w)"
  shows "fst (ensure_gate_cross_margin_mode_strict c symbol lev st)"
proof -
  define l where "l = (if lev > 0 then lev else 1)"
  obtain ps rest where g: "gate_attempts l = (0, ps) # rest" by (simp add: gate_attempts_def Let_def)
  have "try_leverage c symbol (gate_attempts l) False st = (JObj [], False, st)"
    unfolding g using assms(3) by (simp add: call_def)
  moreover have "extract_cross_fields (JObj []) = \<lparr>cf_leverage = None, cf_limit = None, cf_mode = None\<rparr>"
    by (simp add: extract_cross_fields_def json_get_def row_mode_def first_present_def List.map_filter_simps)
  ultimately show ?thesis
    using assms(1,2)
    by (simp add: ensure_gate_cross_margin_mode_strict_def l_def[symmetric] verify_position_def verify_positions_def isolated_signal_def Let_def)
qed

text \<open>A lookup of the maximum leverage that fails once is remembered as one.\<close>

lemma failed_leverage_lookup_sticks:
  assumes "ap_max_leverage st (ex_id ex, symbol) = None" "cx_ensure_markets c (ap_world st) = (Some e, w)"
  shows "fetch_max_leverage c' ex symbol (snd (fetch_max_leverage c ex symbol st)) = (1, snd (fetch_max_leverage c ex symbol st))"
  using assms by (simp add: fetch_max_leverage_def call_def remember_leverage_def)

end
