(* ===== verification/ClientRegistry.thy ===== *)
theory ClientRegistry
  imports ExchangeOrders
begin

text \<open>
  The cached clients of the exchanges and the tracker of bans (\<open>core/exchange_manager/registry.py\<close>,
  \<open>invalidate_instance\<close> of \<open>market_data.py\<close>). A client is known by what it was built from and a
  serial number; whether the third-party constructor succeeds belongs to the world.
\<close>

record client_row =
  cr_exchange :: exchange_row
  cr_key :: "string option"
  cr_secret :: "string option"
  cr_passphrase :: "string option"
  cr_testnet :: "bool option"

type_synonym signature = "string \<times> string \<times> string \<times> bool"

definition credential_signature :: "client_row \<Rightarrow> signature" where
  "credential_signature r =
     (str_or_empty (cr_key r), str_or_empty (cr_secret r), str_or_empty (cr_passphrase r), cr_testnet r = Some True)"

datatype market_kind = Swap | Spot

record client =
  ct_exchange :: string
  ct_kind :: market_kind
  ct_credentials :: signature
  ct_serial :: nat

record 'w factory =
  fa_new :: "'w \<Rightarrow> string \<Rightarrow> market_kind \<Rightarrow> signature \<Rightarrow> nat option \<times> 'w"
  fa_sync_time :: "'w \<Rightarrow> client \<Rightarrow> bool \<times> 'w"

record registry =
  rg_swap :: "int \<Rightarrow> client option"
  rg_swap_sig :: "int \<Rightarrow> signature option"
  rg_spot :: "int \<Rightarrow> client option"
  rg_spot_sig :: "int \<Rightarrow> signature option"

definition empty_registry :: registry where
  "empty_registry = \<lparr>rg_swap = (\<lambda>i. None), rg_swap_sig = (\<lambda>i. None), rg_spot = (\<lambda>i. None), rg_spot_sig = (\<lambda>i. None)\<rparr>"

text \<open>The clock is synchronised up to three times; a failure is passed over.\<close>

fun sync_clock :: "'w factory \<Rightarrow> client \<Rightarrow> nat \<Rightarrow> 'w \<Rightarrow> 'w" where
  "sync_clock f c 0 w = w"
| "sync_clock f c (Suc n) w = (case fa_sync_time f w c of (True, w1) \<Rightarrow> w1 | (False, w1) \<Rightarrow> sync_clock f c n w1)"

definition new_client :: "'w factory \<Rightarrow> market_kind \<Rightarrow> nat \<Rightarrow> client_row \<Rightarrow> 'w \<Rightarrow> client option \<times> 'w" where
  "new_client f kind attempts r w =
     (let ex_name = ex_name (cr_exchange r); credentials = credential_signature r in
      case fa_new f w ex_name kind credentials of
        (None, w1) \<Rightarrow> (None, w1)
      | (Some n, w1) \<Rightarrow>
          let c = \<lparr>ct_exchange = ex_name, ct_kind = kind, ct_credentials = credentials, ct_serial = n\<rparr>
          in (Some c, sync_clock f c attempts w1))"

definition build_ccxt_instance :: "'w factory \<Rightarrow> client_row \<Rightarrow> 'w \<Rightarrow> client option \<times> 'w" where
  "build_ccxt_instance f r w = new_client f Swap 3 r w"

definition get_instance :: "'w factory \<Rightarrow> client_row \<Rightarrow> registry \<Rightarrow> 'w \<Rightarrow> client option \<times> registry \<times> 'w" where
  "get_instance f r g w =
     (let i = ex_id (cr_exchange r); sg = credential_signature r;
          (g1, w1) = (if rg_swap g i = None \<or> rg_swap_sig g i \<noteq> Some sg then
              (case build_ccxt_instance f r w of
                 (Some c, w1) \<Rightarrow> (g\<lparr>rg_swap := (rg_swap g)(i \<mapsto> c), rg_swap_sig := (rg_swap_sig g)(i \<mapsto> sg)\<rparr>, w1)
               | (None, w1) \<Rightarrow> (g, w1))
            else (g, w))
      in (rg_swap g1 i, g1, w1))"

definition get_spot_instance :: "'w factory \<Rightarrow> client_row \<Rightarrow> registry \<Rightarrow> 'w \<Rightarrow> client option \<times> registry \<times> 'w" where
  "get_spot_instance f r g w =
     (let i = ex_id (cr_exchange r); sg = credential_signature r in
      if rg_spot g i = None \<or> rg_spot_sig g i \<noteq> Some sg then
        (case new_client f Spot 1 r w of
           (Some c, w1) \<Rightarrow> (Some c, g\<lparr>rg_spot := (rg_spot g)(i \<mapsto> c), rg_spot_sig := (rg_spot_sig g)(i \<mapsto> sg)\<rparr>, w1)
         | (None, w1) \<Rightarrow> (None, g, w1))
      else (rg_spot g i, g, w))"

definition invalidate_instance :: "int \<Rightarrow> registry \<Rightarrow> registry" where
  "invalidate_instance i g =
     \<lparr>rg_swap = (rg_swap g)(i := None), rg_swap_sig = (rg_swap_sig g)(i := None),
      rg_spot = (rg_spot g)(i := None), rg_spot_sig = (rg_spot_sig g)(i := None)\<rparr>"

section \<open>Bans\<close>

type_synonym bans = "int \<Rightarrow> real option"

definition mark_exchange_banned :: "int \<Rightarrow> int \<Rightarrow> bans \<Rightarrow> bans" where
  "mark_exchange_banned i until_ms b = b(i \<mapsto> of_int until_ms / 1000)"

definition is_exchange_banned :: "real \<Rightarrow> int \<Rightarrow> bans \<Rightarrow> bool \<times> bans" where
  "is_exchange_banned now i b =
     (let expiry = to_float (b i) 0 in if now < expiry then (True, b) else (False, if expiry > 0 then b(i := None) else b))"

text \<open>\<open>re.search(r"banned until (\d{10,13})", text)\<close>.\<close>

fun banned_until :: "string \<Rightarrow> nat option" where
  "banned_until [] = None"
| "banned_until (c # cs) =
     (let d = takeWhile is_digit_char (take 13 (drop 13 (c # cs))) in
      if has_prefix ''banned until '' (c # cs) \<and> 10 \<le> length d then Some (digits_value d) else banned_until cs)"

definition check_and_mark_ban :: "real \<Rightarrow> int \<Rightarrow> string \<Rightarrow> bans \<Rightarrow> bans" where
  "check_and_mark_ban now i e b =
     (if \<not> any_in [''-1003'', ''418'', ''429''] e \<and> \<not> in_text ''teapot'' (py_lower e) then b
      else case banned_until e of
        Some n \<Rightarrow> mark_exchange_banned i (int (if n < 10 ^ 12 then n * 1000 else n)) b
      | None \<Rightarrow>
          if in_text ''429'' e \<or> in_text ''too many requests'' (py_lower e)
          then mark_exchange_banned i (py_trunc ((now + 90) * 1000)) b else b)"

section \<open>Which client is used\<close>

text \<open>The registry keeps each client with the credentials it was built from.\<close>

definition registry_ok :: "registry \<Rightarrow> bool" where
  "registry_ok g \<longleftrightarrow> (\<forall>i. rg_swap_sig g i = map_option ct_credentials (rg_swap g i) \<and> rg_spot_sig g i = map_option ct_credentials (rg_spot g i))"

lemma new_client_credentials: "new_client f kind n r w = (Some c, w1) \<Longrightarrow> ct_credentials c = credential_signature r"
  by (auto simp: new_client_def Let_def split: prod.splits option.splits)

datatype registry_event = GetSwap client_row | GetSpot client_row | Invalidate int

definition registry_step :: "'w factory \<Rightarrow> registry \<times> 'w \<Rightarrow> registry_event \<Rightarrow> registry \<times> 'w" where
  "registry_step f st ev =
     (case ev of
        GetSwap r \<Rightarrow> snd (get_instance f r (fst st) (snd st))
      | GetSpot r \<Rightarrow> snd (get_spot_instance f r (fst st) (snd st))
      | Invalidate i \<Rightarrow> (invalidate_instance i (fst st), snd st))"

lemma get_instance_ok:
  assumes "registry_ok g" "get_instance f r g w = (c, g1, w1)"
  shows "registry_ok g1"
proof -
  obtain b w2 where b: "build_ccxt_instance f r w = (b, w2)" by (metis surj_pair)
  have "ct_credentials x = credential_signature r" if "b = Some x" for x
    using b that new_client_credentials by (simp add: build_ccxt_instance_def)
  then show ?thesis
    using assms b by (cases b) (auto simp: get_instance_def registry_ok_def Let_def split: if_splits)
qed

lemma get_spot_instance_ok:
  assumes "registry_ok g" "get_spot_instance f r g w = (c, g1, w1)"
  shows "registry_ok g1 \<and> (\<forall>x. c = Some x \<longrightarrow> ct_credentials x = credential_signature r)"
proof -
  obtain b w2 where b: "new_client f Spot 1 r w = (b, w2)" by (metis surj_pair)
  have "ct_credentials x = credential_signature r" if "b = Some x" for x
    using b that new_client_credentials by simp
  then show ?thesis
    using assms b by (cases b) (auto simp: get_spot_instance_def registry_ok_def Let_def split: if_splits)
qed

interpretation client_registry: machine "(empty_registry, w)" "registry_step f" "\<lambda>st. registry_ok (fst st)"
  for f :: "'w factory" and w :: 'w
proof
  show "registry_ok (fst (empty_registry, w))" by (simp add: registry_ok_def empty_registry_def)
  fix s :: "registry \<times> 'w" and e assume ok: "registry_ok (fst s)"
  show "registry_ok (fst (registry_step f s e))"
  proof (cases e)
    case (GetSwap r)
    then show ?thesis using get_instance_ok[OF ok, of f r "snd s"] by (cases "get_instance f r (fst s) (snd s)") (simp add: registry_step_def)
  next
    case (GetSpot r)
    then show ?thesis using get_spot_instance_ok[OF ok, of f r "snd s"] by (cases "get_spot_instance f r (fst s) (snd s)") (simp add: registry_step_def)
  next
    case (Invalidate i)
    then show ?thesis using ok by (simp add: registry_step_def registry_ok_def invalidate_instance_def)
  qed
qed

text \<open>
  After any sequence of uses, a spot client that is handed out carries the credentials of the row it
  is asked for.
\<close>

lemma spot_client_has_current_credentials:
  assumes "get_spot_instance f r (fst st) (snd st) = (Some c, g1, w1)" "st = foldl (registry_step f) (empty_registry, w) events"
  shows "ct_credentials c = credential_signature r"
  using get_spot_instance_ok[OF _ assms(1)] client_registry.reachable_inv[of f w events] assms(2) by simp

text \<open>
  The client for derivatives is not safe in this way: when the credentials of an exchange have
  changed and the new client cannot be built, \<open>get_instance\<close> hands out the old client, and orders go
  to the account of the old credentials.
\<close>

theorem swap_client_can_be_stale:
  assumes "st = foldl (registry_step f) (empty_registry, w) events"
    "rg_swap (fst st) (ex_id (cr_exchange r)) = Some old" "ct_credentials old \<noteq> credential_signature r"
    "fst (build_ccxt_instance f r (snd st)) = None"
  shows "fst (get_instance f r (fst st) (snd st)) = Some old"
proof -
  have "registry_ok (fst st)" using client_registry.reachable_inv[of f w events] assms(1) by simp
  then have "rg_swap_sig (fst st) (ex_id (cr_exchange r)) \<noteq> Some (credential_signature r)"
    using assms(2,3) by (simp add: registry_ok_def)
  then show ?thesis
    using assms(2,4) by (cases "build_ccxt_instance f r (snd st)") (simp add: get_instance_def Let_def)
qed

definition sample_row_key :: "string \<Rightarrow> client_row" where
  "sample_row_key k = \<lparr>cr_exchange = \<lparr>ex_id = 1, ex_name = ''okx'', ex_display_name = None, ex_is_unified = None\<rparr>,
     cr_key = Some k, cr_secret = Some ''s'', cr_passphrase = None, cr_testnet = None\<rparr>"

definition failing_factory :: "nat factory" where
  "failing_factory = \<lparr>fa_new = (\<lambda>w n k sg. (if w = 0 then Some 7 else None, Suc w)), fa_sync_time = (\<lambda>w c. (True, w))\<rparr>"

definition old_client :: client where
  "old_client = \<lparr>ct_exchange = ''okx'', ct_kind = Swap, ct_credentials = (''old'', ''s'', [], False), ct_serial = 7\<rparr>"

lemma sample_registry:
  "foldl (registry_step failing_factory) (empty_registry, 0) [GetSwap (sample_row_key ''old'')]
   = (empty_registry\<lparr>rg_swap := (\<lambda>i. None)(1 \<mapsto> old_client), rg_swap_sig := (\<lambda>i. None)(1 \<mapsto> (''old'', ''s'', [], False))\<rparr>, 1)"
  by (simp add: registry_step_def get_instance_def build_ccxt_instance_def new_client_def failing_factory_def sample_row_key_def
      credential_signature_def empty_registry_def old_client_def Let_def eval_nat_numeral)

theorem swap_client_can_be_stale_witness:
  "fst (get_instance failing_factory (sample_row_key ''new'')
        (fst (foldl (registry_step failing_factory) (empty_registry, 0) [GetSwap (sample_row_key ''old'')]))
        (snd (foldl (registry_step failing_factory) (empty_registry, 0) [GetSwap (sample_row_key ''old'')]))) = Some old_client
     \<and> ct_credentials old_client \<noteq> credential_signature (sample_row_key ''new'')"
proof -
  have n: "ct_credentials old_client \<noteq> credential_signature (sample_row_key ''new'')"
    by (simp add: old_client_def credential_signature_def sample_row_key_def)
  have "fst (get_instance failing_factory (sample_row_key ''new'')
        (fst (foldl (registry_step failing_factory) (empty_registry, 0) [GetSwap (sample_row_key ''old'')]))
        (snd (foldl (registry_step failing_factory) (empty_registry, 0) [GetSwap (sample_row_key ''old'')]))) = Some old_client"
  proof (rule swap_client_can_be_stale[OF refl _ n])
    show "rg_swap (fst (foldl (registry_step failing_factory) (empty_registry, 0) [GetSwap (sample_row_key ''old'')]))
        (ex_id (cr_exchange (sample_row_key ''new''))) = Some old_client"
      unfolding sample_registry by (simp add: sample_row_key_def)
    show "fst (build_ccxt_instance failing_factory (sample_row_key ''new'')
        (snd (foldl (registry_step failing_factory) (empty_registry, 0) [GetSwap (sample_row_key ''old'')]))) = None"
      unfolding sample_registry by (simp add: build_ccxt_instance_def new_client_def failing_factory_def)
  qed
  with n show ?thesis by simp
qed

text \<open>
  A soft rate limit that arrives during a hard ban shortens it: the end of the ban is replaced by the
  ninetieth second from now.
\<close>

lemma soft_ban_shortens:
  assumes "in_text ''429'' e" "banned_until e = None" "b i = Some expiry" "now + 90 < expiry" "0 \<le> now"
  shows "\<exists>x. check_and_mark_ban now i e b i = Some x \<and> x < expiry"
proof -
  have "of_int (py_trunc ((now + 90) * 1000)) \<le> (now + 90) * 1000" using assms(5) by (simp add: py_trunc_def)
  then have "of_int (py_trunc ((now + 90) * 1000)) / 1000 < expiry" using assms(4) by simp
  moreover have "check_and_mark_ban now i e b i = Some (of_int (py_trunc ((now + 90) * 1000)) / 1000)"
    using assms(1,2) by (simp add: check_and_mark_ban_def any_in_def mark_exchange_banned_def)
  ultimately show ?thesis by blast
qed

text \<open>A ban that is reported has not ended, and an ended ban is forgotten.\<close>

lemma ban_holds: "fst (is_exchange_banned now i b) \<longleftrightarrow> now < to_float (b i) 0"
  by (simp add: is_exchange_banned_def Let_def)

lemma ended_ban_forgotten: "b i = Some x \<Longrightarrow> 0 < x \<Longrightarrow> x \<le> now \<Longrightarrow> snd (is_exchange_banned now i b) i = None"
  by (simp add: is_exchange_banned_def Let_def)

end
