(* ===== verification/Backtest.thy ===== *)
theory Backtest
  imports Candidates DeltaPlan
begin

text \<open>
  The replay of a stored period (\<open>core/spot_basis_backtest\<close>): the parameters, the price and
  funding series of the loaded snapshots, and \<open>run_event_backtest\<close>, which steps through the
  15-minute buckets with the scoring, the target portfolio and the delta plan of the live engine.
  A date is its day number (days since 1970-01-01, UTC), a time is in UTC seconds. The progress
  call-back and the echo of the parameters in the result are left out.
\<close>

section \<open>Parameters\<close>

record backtest_params =
  bq_start :: "int option"
  bq_end :: "int option"
  bq_top_n :: int
  bq_initial_nav :: real
  bq_min_rate :: real
  bq_min_perp_volume :: real
  bq_min_spot_volume :: real
  bq_min_basis :: real
  bq_cross_exchange :: bool
  bq_enter_score :: real
  bq_entry_conf :: real
  bq_hold_conf :: real
  bq_max_open_pairs :: int
  bq_utilization :: real
  bq_min_pair :: real
  bq_max_exchange_utilization :: real
  bq_max_symbol_utilization :: real
  bq_min_capacity :: real
  bq_max_impact :: real
  bq_switch_advantage :: real
  bq_confirm_rounds :: int
  bq_relative_adv :: real
  bq_absolute_adv :: real
  bq_dd_hard :: real
  bq_stale_buckets :: int

text \<open>The defaults of the class \<open>BacktestParams\<close>.\<close>

definition default_backtest_params :: "int option \<Rightarrow> int option \<Rightarrow> backtest_params" where
  "default_backtest_params d0 d1 =
     \<lparr>bq_start = d0, bq_end = d1, bq_top_n = 120, bq_initial_nav = 10000, bq_min_rate = 1 / 100,
      bq_min_perp_volume = 0, bq_min_spot_volume = 0, bq_min_basis = 0, bq_cross_exchange = False,
      bq_enter_score = 0, bq_entry_conf = 55 / 100, bq_hold_conf = 45 / 100, bq_max_open_pairs = 5,
      bq_utilization = 60, bq_min_pair = 300, bq_max_exchange_utilization = 35, bq_max_symbol_utilization = 10,
      bq_min_capacity = 12, bq_max_impact = 30 / 100, bq_switch_advantage = 5, bq_confirm_rounds = 3,
      bq_relative_adv = 5, bq_absolute_adv = 1 / 2, bq_dd_hard = - 4, bq_stale_buckets = 3\<rparr>"

text \<open>
  \<open>_build_runtime_cfg\<close>: a namespace with some of the columns of the configuration row; the
  readers take their default for an attribute that is not there, as they do for NULL.
\<close>

definition build_runtime_cfg :: "backtest_params \<Rightarrow> auto_cfg" where
  "build_runtime_cfg p =
     \<lparr>cfg_is_enabled = True, cfg_dry_run = True, cfg_refresh_interval_secs = None,
      cfg_enter_score_threshold = Some (bq_enter_score p), cfg_switch_min_advantage = Some (bq_switch_advantage p),
      cfg_switch_confirm_rounds = Some (max 1 (bq_confirm_rounds p)), cfg_entry_conf_min = Some (bq_entry_conf p),
      cfg_hold_conf_min = Some (bq_hold_conf p), cfg_max_total_utilization_pct = None,
      cfg_target_utilization_pct = Some (bq_utilization p),
      cfg_max_open_pairs = Some (max 1 (bq_max_open_pairs p)), cfg_min_pair_notional_usd = Some (bq_min_pair p),
      cfg_max_pair_notional_usd = None, cfg_reserve_floor_pct = None, cfg_fee_buffer_pct = None,
      cfg_slippage_buffer_pct = None, cfg_margin_buffer_pct = None,
      cfg_min_capacity_pct = Some (bq_min_capacity p), cfg_max_impact_pct = Some (bq_max_impact p),
      cfg_rebalance_min_relative_adv_pct = Some (bq_relative_adv p),
      cfg_rebalance_min_absolute_adv_usd_day = Some (bq_absolute_adv p),
      cfg_execution_retry_max_rounds = None, cfg_execution_retry_backoff_secs = None,
      cfg_delta_epsilon_abs_usd = None, cfg_delta_epsilon_nav_pct = None, cfg_repair_timeout_secs = None,
      cfg_repair_retry_rounds = None, cfg_circuit_breaker_on_repair_fail = False,
      cfg_data_stale_threshold_seconds = None, cfg_api_fail_circuit_count = None, cfg_basis_shock_exit_z = None,
      cfg_portfolio_dd_soft_pct = None, cfg_portfolio_dd_hard_pct = Some (bq_dd_hard p),
      cfg_drawdown_peak_nav_usdt = None, cfg_drawdown_peak_reset_at = None\<rparr>"

section \<open>Searching a sorted list\<close>

text \<open>
  \<open>bisect.bisect_right\<close> and \<open>bisect.bisect_left\<close>: the same halving with another test for going
  right.
\<close>

function bisect_loop :: "(int \<Rightarrow> bool) \<Rightarrow> int list \<Rightarrow> nat \<Rightarrow> nat \<Rightarrow> nat" where
  "bisect_loop right a lo hi =
     (if lo < hi then
        let mid = (lo + hi) div 2 in
        if right (a ! mid) then bisect_loop right a (mid + 1) hi else bisect_loop right a lo mid
      else lo)"
  by pat_completeness auto
termination by (relation "measure (\<lambda>(right, a, lo, hi). hi - lo)") auto

declare bisect_loop.simps [simp del]

definition bisect_right :: "int list \<Rightarrow> int \<Rightarrow> nat" where
  "bisect_right a x = bisect_loop (\<lambda>t. t \<le> x) a 0 (length a)"

definition bisect_left :: "int list \<Rightarrow> int \<Rightarrow> nat" where
  "bisect_left a x = bisect_loop (\<lambda>t. t < x) a 0 (length a)"

section \<open>Price series\<close>

record price_series =
  px_times :: "int list"
  px_prices :: "real list"

type_synonym market_key = "int \<times> string \<times> string"

text \<open>A row of \<open>market_snapshots_15m\<close>.\<close>

record market_snapshot =
  ms_exchange :: int
  ms_symbol :: string
  ms_market :: string
  ms_bucket :: fopt
  ms_close :: fopt

definition day_start :: "int \<Rightarrow> real" where
  "day_start d = of_int (d * 86400)"

definition in_period :: "real \<Rightarrow> int \<Rightarrow> fopt \<Rightarrow> bool" where
  "in_period from d1 t \<longleftrightarrow> t \<noteq> None \<and> from \<le> to_float t 0 \<and> to_float t 0 \<le> day_start (d1 + 1) - 1"

definition snapshot_key :: "market_snapshot \<Rightarrow> market_key" where
  "snapshot_key r = (ms_exchange r, py_upper (ms_symbol r), ms_market r)"

definition snapshot_rows :: "market_snapshot list \<Rightarrow> int \<Rightarrow> int \<Rightarrow> market_key set \<Rightarrow> market_snapshot list" where
  "snapshot_rows db d0 d1 keyset =
     sort_key (\<lambda>r. to_float (ms_bucket r) 0)
       (filter (\<lambda>r. ms_exchange r \<in> fst ` keyset \<and> ms_symbol r \<in> (fst \<circ> snd) ` keyset
            \<and> in_period (day_start d0) d1 (ms_bucket r)) db)"

definition price_series_of :: "(int \<times> real) list \<Rightarrow> price_series" where
  "price_series_of vals =
     (let s = sort_key fst vals in \<lparr>px_times = map fst s, px_prices = map snd s\<rparr>)"

definition load_price_indices ::
    "market_snapshot list \<Rightarrow> int \<Rightarrow> int \<Rightarrow> market_key set \<Rightarrow> market_key \<Rightarrow> price_series option" where
  "load_price_indices db d0 d1 keyset k =
     (let vals = map (\<lambda>r. (py_trunc (to_float (ms_bucket r) 0), to_float (ms_close r) 0))
            (filter (\<lambda>r. snapshot_key r = k) (snapshot_rows db d0 d1 keyset))
      in if k \<notin> keyset \<or> vals = [] then None else Some (price_series_of vals))"

definition latest_price :: "price_series option \<Rightarrow> int \<Rightarrow> int \<Rightarrow> real option" where
  "latest_price series ts max_age =
     (case series of
        None \<Rightarrow> None
      | Some s \<Rightarrow>
          if px_times s = [] then None
          else
            let n = bisect_right (px_times s) ts in
            if n = 0 then None
            else if ts - px_times s ! (n - 1) > max_age then None
            else (let px = px_prices s ! (n - 1) in if px > 0 then Some px else None))"

section \<open>Funding series\<close>

record funding_series =
  fx_times :: "int list"
  fx_rates :: "real list"
  fx_next :: "int option list"
  fx_intervals :: "real option list"

text \<open>A row of \<open>funding_rates\<close> with its next settlement.\<close>

record funding_point =
  fp_exchange :: int
  fp_symbol :: string
  fp_time :: fopt
  fp_rate :: fopt
  fp_next :: fopt

definition funding_points :: "funding_point list \<Rightarrow> int \<Rightarrow> int \<Rightarrow> (int \<times> string) set \<Rightarrow> funding_point list" where
  "funding_points db d0 d1 keys =
     sort_key (\<lambda>r. to_float (fp_time r) 0)
       (filter (\<lambda>r. fp_exchange r \<in> fst ` keys \<and> fp_symbol r \<in> snd ` keys
            \<and> in_period (day_start d0 - 3 * 86400) d1 (fp_time r)) db)"

text \<open>The settlement interval in force after each point: the last plausible step between announcements.\<close>

definition interval_step :: "int option \<times> real option \<Rightarrow> int option \<Rightarrow> int option \<times> real option" where
  "interval_step st nxt =
     (case st of (prev, known) \<Rightarrow>
       (if nxt = None then prev else nxt,
        (case (nxt, prev) of
           (Some n, Some p) \<Rightarrow>
             (let hours = of_int (n - p) / 3600 in
              if n \<noteq> p \<and> 1 / 2 \<le> hours \<and> hours \<le> 24 then Some hours else known)
         | _ \<Rightarrow> known)))"

fun intervals_from :: "int option \<times> real option \<Rightarrow> int option list \<Rightarrow> real option list" where
  "intervals_from st [] = []"
| "intervals_from st (n # ns) = (let st' = interval_step st n in snd st' # intervals_from st' ns)"

definition funding_series_of :: "(int \<times> real \<times> int option) list \<Rightarrow> funding_series" where
  "funding_series_of vals =
     (let s = sort_key fst vals; nexts = map (snd \<circ> snd) s in
      \<lparr>fx_times = map fst s, fx_rates = map (fst \<circ> snd) s, fx_next = nexts,
       fx_intervals = intervals_from (None, None) nexts\<rparr>)"

definition perp_keys :: "market_key set \<Rightarrow> (int \<times> string) set" where
  "perp_keys keyset = (\<lambda>k. (fst k, fst (snd k))) ` {k \<in> keyset. snd (snd k) = ''perp''}"

definition load_funding_indices ::
    "funding_point list \<Rightarrow> int \<Rightarrow> int \<Rightarrow> market_key set \<Rightarrow> int \<times> string \<Rightarrow> funding_series option" where
  "load_funding_indices db d0 d1 keyset k =
     (let keys = perp_keys keyset;
          vals = map (\<lambda>r. (py_trunc (to_float (fp_time r) 0), to_float (fp_rate r) 0 * 100, map_option py_trunc (fp_next r)))
            (filter (\<lambda>r. (fp_exchange r, py_upper (fp_symbol r)) = k) (funding_points db d0 d1 keys))
      in if k \<notin> keys \<or> vals = [] then None else Some (funding_series_of vals))"

definition infer_interval_hours :: "funding_series \<Rightarrow> nat \<Rightarrow> real \<times> bool" where
  "infer_interval_hours fs i =
     (let direct = to_float (fx_intervals fs ! i) 0;
          sample = filter (\<lambda>h. h > 0) (map (\<lambda>x. to_float x 0) (drop (i - 16) (take (i + 1) (fx_intervals fs))));
          med = median sample
      in if direct > 0 then (direct, False)
         else if sample \<noteq> [] \<and> med > 0 then (med, True) else (8, True))"

record funding_view =
  fv_rate :: real
  fv_interval :: real
  fv_periods :: real
  fv_inferred :: bool
  fv_secs :: "int option"
  fv_stats :: funding_stats

definition no_funding :: funding_view where
  "no_funding =
     \<lparr>fv_rate = 0, fv_interval = 8, fv_periods = 3, fv_inferred = True, fv_secs = None,
      fv_stats = compute_funding_stability [] None\<rparr>"

definition stability_window :: int where "stability_window = 3 * 24 * 3600"

definition window_by_bucket :: "funding_series \<Rightarrow> nat \<Rightarrow> nat \<Rightarrow> (int \<times> real) list" where
  "window_by_bucket fs left right =
     foldl (\<lambda>m i. AList.update (fx_times fs ! i - fx_times fs ! i mod bucket_secs) (fx_rates fs ! i) m) [] [left..<right]"

definition funding_snapshot :: "funding_series option \<Rightarrow> int \<Rightarrow> funding_view" where
  "funding_snapshot series ts =
     (case series of
        None \<Rightarrow> no_funding
      | Some fs \<Rightarrow>
          let n = bisect_right (fx_times fs) ts in
          if fx_times fs = [] \<or> n = 0 then no_funding
          else
            let idx = n - 1; rate = fx_rates fs ! idx;
                (interval, inferred) = infer_interval_hours fs idx;
                periods = 24 / max interval (1 / 10 ^ 9);
                plausible = (1 \<le> periods \<and> periods \<le> 24);
                secs = (case fx_next fs ! idx of Some t \<Rightarrow> if t > ts then Some (t - ts) else None | None \<Rightarrow> None);
                rates = observed_rates (window_by_bucket fs (bisect_left (fx_times fs) (ts - stability_window)) (idx + 1))
            in \<lparr>fv_rate = rate, fv_interval = interval, fv_periods = (if plausible then periods else 3),
                fv_inferred = (if plausible then inferred else True), fv_secs = secs,
                fv_stats = compute_funding_stability (if rates = [] then [rate] else rates) None\<rparr>)"

section \<open>The universe of a day\<close>

text \<open>A row of \<open>pair_universe_daily\<close>.\<close>

record universe_row =
  ur_date :: int
  ur_symbol :: string
  ur_spot_symbol :: string
  ur_perp_ex :: int
  ur_spot_ex :: int
  ur_perp_name :: "string option"
  ur_spot_name :: "string option"
  ur_perp_volume :: fopt
  ur_spot_volume :: fopt
  ur_rank :: fopt

definition universe_upper :: "universe_row \<Rightarrow> universe_row" where
  "universe_upper r = r\<lparr>ur_symbol := py_upper (ur_symbol r), ur_spot_symbol := py_upper (ur_spot_symbol r)\<rparr>"

definition universe_rank :: "universe_row \<Rightarrow> real" where
  "universe_rank r = to_float (ur_rank r) 0"

definition universe_of_day :: "universe_row list \<Rightarrow> int \<Rightarrow> int \<Rightarrow> int \<Rightarrow> int \<Rightarrow> universe_row list" where
  "universe_of_day db d0 d1 top_n d =
     take (nat (max 1 top_n))
       (sort_desc universe_rank
         (map universe_upper (filter (\<lambda>r. ur_date r = d)
           (sort_key ur_date (sort_desc universe_rank (filter (\<lambda>r. d0 \<le> ur_date r \<and> ur_date r \<le> d1) db))))))"

definition universe_keys :: "universe_row \<Rightarrow> market_key set" where
  "universe_keys r =
     {(ur_perp_ex r, py_upper (ur_symbol r), ''perp''), (ur_spot_ex r, py_upper (ur_spot_symbol r), ''spot'')}"

definition load_daily_universe ::
    "universe_row list \<Rightarrow> int \<Rightarrow> int \<Rightarrow> int \<Rightarrow> (int \<Rightarrow> universe_row list) \<times> market_key set" where
  "load_daily_universe db d0 d1 top_n =
     (let by_date = universe_of_day db d0 d1 top_n in
      (by_date, \<Union> (universe_keys ` \<Union> (set ` by_date ` ur_date ` set db))))"

section \<open>State of a run\<close>

record bt_position =
  bp_id :: int
  bp_row_id :: string
  bp_symbol :: string
  bp_spot_symbol :: string
  bp_perp_ex :: int
  bp_spot_ex :: int
  bp_notional :: real
  bp_fee_pct :: real
  bp_last_basis :: real
  bp_stale :: int

record bt_event =
  bv_ts :: int
  bv_action :: string
  bv_id :: int
  bv_row_id :: string
  bv_symbol :: string
  bv_size :: real
  bv_fee :: real
  bv_reasons :: "string list"

record bt_curve_point =
  bc_ts :: int
  bc_equity :: real
  bc_pairs :: nat
  bc_notional :: real
  bc_candidates :: nat
  bc_targets :: nat
  bc_dd :: real
  bc_halted :: bool

record bt_state =
  bt_equity :: real
  bt_peak :: real
  bt_max_dd :: real
  bt_halted :: bool
  bt_positions :: "(int \<times> bt_position) list"
  bt_next_id :: int
  bt_confirm_fp :: string
  bt_confirm_count :: int
  bt_funding :: real
  bt_basis :: real
  bt_fees :: real
  bt_opened :: nat
  bt_closed :: nat
  bt_rebalanced :: nat
  bt_stale_closed :: nat
  bt_hard_stops :: nat
  bt_target_nonzero :: nat
  bt_blocked :: nat
  bt_block_reasons :: "(string \<times> nat) list"
  bt_events :: "bt_event list"
  bt_curve :: "bt_curve_point list"

definition initial_nav :: "backtest_params \<Rightarrow> real" where
  "initial_nav p = max 100 (bq_initial_nav p)"

definition initial_state :: "backtest_params \<Rightarrow> bt_state" where
  "initial_state p =
     \<lparr>bt_equity = initial_nav p, bt_peak = initial_nav p, bt_max_dd = 0, bt_halted = False, bt_positions = [],
      bt_next_id = 1, bt_confirm_fp = [], bt_confirm_count = 0, bt_funding = 0, bt_basis = 0, bt_fees = 0,
      bt_opened = 0, bt_closed = 0, bt_rebalanced = 0, bt_stale_closed = 0, bt_hard_stops = 0,
      bt_target_nonzero = 0, bt_blocked = 0, bt_block_reasons = [], bt_events = [], bt_curve = []\<rparr>"

text \<open>What a run reads: the parameters, the loaded indices and the exchange rows.\<close>

record bt_env =
  be_params :: backtest_params
  be_details :: bool
  be_universe :: "int \<Rightarrow> universe_row list"
  be_price :: "market_key \<Rightarrow> price_series option"
  be_funding :: "int \<times> string \<Rightarrow> funding_series option"
  be_exchange :: "int \<Rightarrow> exchange_row option"

section \<open>Closing a position\<close>

definition close_position_with_fee ::
    "(int \<times> bt_position) list \<Rightarrow> int \<Rightarrow> (real \<times> bt_position option) \<times> (int \<times> bt_position) list" where
  "close_position_with_fee positions i =
     (case map_of positions i of
        None \<Rightarrow> ((0, None), positions)
      | Some p \<Rightarrow> ((pos_part (bp_notional p) * pos_part (bp_fee_pct p) / 100, Some p), AList.delete i positions))"

definition add_event :: "bt_env \<Rightarrow> bt_event \<Rightarrow> bt_state \<Rightarrow> bt_state" where
  "add_event env e st = (if be_details env \<and> length (bt_events st) < 3000 then st\<lparr>bt_events := bt_events st @ [e]\<rparr> else st)"

text \<open>
  The body of the four closing loops. They differ in the action they record, in the reason
  codes, and in the counter of the stale positions.
\<close>

definition bt_close :: "bt_env \<Rightarrow> int \<Rightarrow> string \<Rightarrow> string list \<Rightarrow> bt_state \<Rightarrow> int \<Rightarrow> bt_state" where
  "bt_close env ts act reasons st i =
     (case close_position_with_fee (bt_positions st) i of
        ((fee, None), _) \<Rightarrow> st
      | ((fee, Some p), rest) \<Rightarrow>
          add_event env
            \<lparr>bv_ts = ts, bv_action = act, bv_id = i, bv_row_id = bp_row_id p, bv_symbol = bp_symbol p,
             bv_size = py_round (bp_notional p) 2, bv_fee = py_round fee 6, bv_reasons = reasons\<rparr>
            (st\<lparr>bt_positions := rest, bt_closed := bt_closed st + 1, bt_fees := bt_fees st + fee,
               bt_equity := bt_equity st - fee,
               bt_stale_closed := (if act = ''force_close_stale'' then bt_stale_closed st + 1 else bt_stale_closed st)\<rparr>))"

definition close_list :: "bt_env \<Rightarrow> int \<Rightarrow> string \<Rightarrow> int list \<Rightarrow> bt_state \<Rightarrow> bt_state" where
  "close_list env ts act ids st = foldl (bt_close env ts act []) st ids"

section \<open>The steps of a bucket\<close>

text \<open>Marking the open positions to the market; the ids whose prices have been missing too long.\<close>

definition perp_market :: "int \<Rightarrow> string \<Rightarrow> market_key" where
  "perp_market ex symbol = (ex, py_upper symbol, ''perp'')"

definition spot_market :: "int \<Rightarrow> string \<Rightarrow> market_key" where
  "spot_market ex symbol = (ex, py_upper symbol, ''spot'')"

definition basis_of :: "real \<Rightarrow> real \<Rightarrow> real" where
  "basis_of perp_px spot_px = (perp_px - spot_px) / spot_px * 100"

definition mark_position :: "bt_env \<Rightarrow> int \<Rightarrow> bt_state \<times> int list \<Rightarrow> int \<times> bt_position \<Rightarrow> bt_state \<times> int list" where
  "mark_position env ts x sp =
     (case x of (st, stale) \<Rightarrow> (case sp of (i, p) \<Rightarrow>
       case (latest_price (be_price env (perp_market (bp_perp_ex p) (bp_symbol p))) ts (bucket_secs * 4),
             latest_price (be_price env (spot_market (bp_spot_ex p) (bp_spot_symbol p))) ts (bucket_secs * 4)) of
         (Some perp_px, Some spot_px) \<Rightarrow>
           let basis = basis_of perp_px spot_px;
               notional = pos_part (bp_notional p);
               basis_pnl = notional * (- ((basis - bp_last_basis p) / 100));
               f = funding_snapshot (be_funding env (bp_perp_ex p, py_upper (bp_symbol p))) ts;
               funding_pnl = notional * (fv_rate f * fv_periods f / 100) / (24 * 3600 / of_int bucket_secs)
           in (st\<lparr>bt_equity := bt_equity st + (basis_pnl + funding_pnl), bt_basis := bt_basis st + basis_pnl,
                 bt_funding := bt_funding st + funding_pnl,
                 bt_positions := AList.update i (p\<lparr>bp_stale := 0, bp_last_basis := basis\<rparr>) (bt_positions st)\<rparr>, stale)
       | _ \<Rightarrow>
           (st\<lparr>bt_positions := AList.update i (p\<lparr>bp_stale := bp_stale p + 1\<rparr>) (bt_positions st)\<rparr>,
            if bp_stale p + 1 > max 0 (bq_stale_buckets (be_params env)) then stale @ [i] else stale)))"

definition mark_to_market :: "bt_env \<Rightarrow> int \<Rightarrow> bt_state \<Rightarrow> bt_state" where
  "mark_to_market env ts st =
     (case foldl (mark_position env ts) (st, []) (bt_positions st) of
        (st1, stale) \<Rightarrow> close_list env ts ''force_close_stale'' stale st1)"

text \<open>A candidate row: the scored row with the keys that only the backtest reads.\<close>

record bt_row =
  br_scan :: scan_row
  br_spot_symbol :: string
  br_rate :: real
  br_perp_volume :: real
  br_spot_volume :: real
  br_basis :: real
  br_fee :: real

definition universe_fee :: "bt_env \<Rightarrow> int \<Rightarrow> string option \<Rightarrow> real" where
  "universe_fee env ex name =
     get_vip0_taker_fee (case be_exchange env ex of Some r \<Rightarrow> Some (ex_name r) | None \<Rightarrow> Some (str_or_empty name))"

definition candidate_row :: "bt_env \<Rightarrow> int \<Rightarrow> real \<Rightarrow> universe_row \<Rightarrow> bt_row option" where
  "candidate_row env ts equity u =
     (let symbol = py_upper (ur_symbol u); spot_symbol = py_upper (ur_spot_symbol u) in
      case (latest_price (be_price env (perp_market (ur_perp_ex u) symbol)) ts (bucket_secs * 3),
            latest_price (be_price env (spot_market (ur_spot_ex u) spot_symbol)) ts (bucket_secs * 3)) of
        (Some perp_px, Some spot_px) \<Rightarrow>
          let f = funding_snapshot (be_funding env (ur_perp_ex u, symbol)) ts;
              basis = basis_of perp_px spot_px;
              fee = (pos_part (universe_fee env (ur_perp_ex u) (ur_perp_name u))
                     + pos_part (universe_fee env (ur_spot_ex u) (ur_spot_name u))) * 2 * 100;
              perp = \<lparr>pe_exchange = ur_perp_ex u, pe_name = str_or_empty (ur_perp_name u), pe_spot_symbol = spot_symbol,
                 pe_price = perp_px, pe_rate_pct = fv_rate f, pe_annualized_pct = 0, pe_periods = fv_periods f,
                 pe_interval_hours = Some (fv_interval f), pe_periods_inferred = fv_inferred f, pe_next_funding = None,
                 pe_secs_to_funding = fv_secs f, pe_volume = to_float (ur_perp_volume u) 0\<rparr>;
              spot = \<lparr>sq_exchange = ur_spot_ex u, sq_name = str_or_empty (ur_spot_name u), sq_price = spot_px,
                 sq_volume = to_float (ur_spot_volume u) 0, sq_basis_abs = perp_px - spot_px, sq_basis_pct = basis,
                 sq_fee_pct = fee, sq_cycle_net_pct = 0\<rparr>;
              stats = \<lparr>ls_obs = fv_stats f, ls_fill = fv_stats f, ls_fill_enabled = False, ls_seed_fresh = False,
                 ls_seed_gap = None\<rparr>;
              x = strict_metrics_for_row perp spot ''open'' stats (build_runtime_cfg (be_params env)) (pos_part equity) False
          in Some
            \<lparr>br_scan =
               \<lparr>sr_row_id = Some (build_row_id (Some symbol) (Some (ur_perp_ex u)) (Some (ur_spot_ex u))),
                sr_symbol = Some symbol, sr_perp_ex = Some (ur_perp_ex u), sr_spot_ex = Some (ur_spot_ex u),
                sr_perp_name = Some (str_or_empty (ur_perp_name u)), sr_spot_name = Some (str_or_empty (ur_spot_name u)),
                sr_basis_abs_usd = None, sr_basis_pct = Some basis, sr_fee_round_trip_pct = Some fee,
                sr_e24 = Some (sx_e24 x), sr_confidence = Some (sx_confidence x), sr_capacity = Some (sx_capacity x),
                sr_score = Some (sx_score x), sr_hold_days = Some (sx_hold_days x), sr_leg_risk = Some (sx_leg_risk x),
                sr_impact_pct = Some (sx_impact x), sr_target_notional = Some (sx_target_notional x)\<rparr>,
             br_spot_symbol = spot_symbol, br_rate = fv_rate f, br_perp_volume = to_float (ur_perp_volume u) 0,
             br_spot_volume = to_float (ur_spot_volume u) 0, br_basis = basis, br_fee = fee\<rparr>
      | _ \<Rightarrow> None)"

definition candidate_rows :: "bt_env \<Rightarrow> int \<Rightarrow> real \<Rightarrow> bt_row list" where
  "candidate_rows env ts equity = List.map_filter (candidate_row env ts equity) (be_universe env (ts div 86400))"

definition select_target_rows :: "backtest_params \<Rightarrow> bt_row list \<Rightarrow> bt_row list" where
  "select_target_rows p rows =
     filter (\<lambda>r. \<not> br_rate r < bq_min_rate p \<and> \<not> br_perp_volume r < bq_min_perp_volume p
        \<and> \<not> br_spot_volume r < bq_min_spot_volume p \<and> \<not> br_basis r < bq_min_basis p
        \<and> \<not> (bq_cross_exchange p \<and> int_or_zero (sr_perp_ex (br_scan r)) = int_or_zero (sr_spot_ex (br_scan r)))) rows"

definition hold_of_position :: "bt_position \<Rightarrow> hold" where
  "hold_of_position p =
     \<lparr>hd_strategy_id = Some (bp_id p), hd_symbol = Some (bp_symbol p), hd_perp_ex = Some (bp_perp_ex p),
      hd_spot_ex = Some (bp_spot_ex p), hd_pair_notional = Some (bp_notional p), hd_row_id = Some (bp_row_id p)\<rparr>"

text \<open>The plan of a bucket, with the keys the loop reads.\<close>

record bt_plan =
  bl_targets :: nat
  bl_open :: "plan_item list"
  bl_close :: "plan_item list"
  bl_raw_signal :: bool
  bl_has_delta :: bool
  bl_fingerprint :: string
  bl_reasons :: "string list"

definition halted_plan :: bt_plan where
  "halted_plan = \<lparr>bl_targets = 0, bl_open = [], bl_close = [], bl_raw_signal = False, bl_has_delta = False,
     bl_fingerprint = [], bl_reasons = [''halted_by_risk'']\<rparr>"

definition plan_bucket :: "bt_env \<Rightarrow> bt_row list \<Rightarrow> bt_state \<Rightarrow> bt_plan" where
  "plan_bucket env rows st =
     (if bt_halted st then halted_plan
      else
        let cfg = build_runtime_cfg (be_params env);
            nav = \<lparr>nm_used_usd = Some (pos_part (bt_equity st)), nm_total_usd = Some (pos_part (bt_equity st)), nm_is_stale = False\<rparr>;
            current = build_current_state (map (hold_of_position \<circ> snd) (bt_positions st)) (map br_scan rows);
            target = build_target_state (map br_scan (select_target_rows (be_params env) rows)) cfg nav [];
            d = build_rebalance_delta_plan current (ts_rows target) cfg
        in \<lparr>bl_targets = ts_pairs target, bl_open = dp_open d, bl_close = dp_close d, bl_raw_signal = dp_raw_signal d,
            bl_has_delta = dp_has_delta d, bl_fingerprint = dp_fingerprint d, bl_reasons = dp_reason_codes d\<rparr>)"

definition count_reason :: "(string \<times> nat) list \<Rightarrow> string \<Rightarrow> (string \<times> nat) list" where
  "count_reason m code =
     (let k = py_strip code in
      if k = [] then m else AList.update k ((case map_of m k of Some n \<Rightarrow> n | None \<Rightarrow> 0) + 1) m)"

definition note_plan :: "bt_plan \<Rightarrow> bt_state \<Rightarrow> bt_state" where
  "note_plan plan st =
     (let blocked = bl_has_delta plan \<and> \<not> bl_raw_signal plan;
          signal = bl_raw_signal plan \<and> bl_fingerprint plan \<noteq> [] in
      st\<lparr>bt_target_nonzero := (if bl_targets plan > 0 then bt_target_nonzero st + 1 else bt_target_nonzero st),
         bt_blocked := (if blocked then bt_blocked st + 1 else bt_blocked st),
         bt_block_reasons := (if blocked then foldl count_reason (bt_block_reasons st) (bl_reasons plan) else bt_block_reasons st),
         bt_confirm_count := (if signal then if bl_fingerprint plan = bt_confirm_fp st then bt_confirm_count st + 1 else 1 else 0),
         bt_confirm_fp := (if signal then bl_fingerprint plan else [])\<rparr>)"

definition rebalance_allowed :: "bt_env \<Rightarrow> bt_plan \<Rightarrow> bt_state \<Rightarrow> bool" where
  "rebalance_allowed env plan st \<longleftrightarrow>
     bl_raw_signal plan \<and> bt_confirm_count st \<ge> max 1 (max 1 (bq_confirm_rounds (be_params env))) \<and> \<not> bt_halted st"

text \<open>\<open>all_rows_by_id\<close>: a later row with the same id replaces an earlier one.\<close>

definition find_bt_row :: "bt_row list \<Rightarrow> string \<Rightarrow> bt_row option" where
  "find_bt_row rows k = first_where (\<lambda>r. str_or_empty (sr_row_id (br_scan r)) = k) (rev rows)"

definition open_one :: "bt_env \<Rightarrow> int \<Rightarrow> bt_row list \<Rightarrow> bt_state \<Rightarrow> plan_item \<Rightarrow> bt_state" where
  "open_one env ts rows st item =
     (case find_bt_row rows (str_or_empty (pi_row_id item)) of
        None \<Rightarrow> st
      | Some src \<Rightarrow>
          if item_size item \<le> 0 then st
          else
            let fee = item_size item * pos_part (to_float (pi_open_fee item) 0) / 100;
                i = bt_next_id st;
                p = \<lparr>bp_id = i, bp_row_id = str_or_empty (pi_row_id item),
                   bp_symbol = py_upper (str_or_empty (sr_symbol (br_scan src))),
                   bp_spot_symbol = py_upper (br_spot_symbol src),
                   bp_perp_ex = int_or_zero (sr_perp_ex (br_scan src)), bp_spot_ex = int_or_zero (sr_spot_ex (br_scan src)),
                   bp_notional = py_round (item_size item) 2, bp_fee_pct = pos_part (br_fee src / 2),
                   bp_last_basis = br_basis src, bp_stale = 0\<rparr>
            in add_event env
                 \<lparr>bv_ts = ts, bv_action = ''open'', bv_id = i, bv_row_id = str_or_empty (pi_row_id item),
                  bv_symbol = str_or_empty (sr_symbol (br_scan src)), bv_size = py_round (item_size item) 2,
                  bv_fee = py_round fee 6, bv_reasons = pi_reason_codes item\<rparr>
                 (st\<lparr>bt_equity := bt_equity st - fee, bt_fees := bt_fees st + fee, bt_next_id := i + 1,
                    bt_positions := AList.update i p (bt_positions st), bt_opened := bt_opened st + 1\<rparr>))"

definition rebalance_bucket :: "bt_env \<Rightarrow> int \<Rightarrow> bt_row list \<Rightarrow> bt_plan \<Rightarrow> bt_state \<Rightarrow> bt_state" where
  "rebalance_bucket env ts rows plan st =
     (if rebalance_allowed env plan st then
        let st1 = st\<lparr>bt_rebalanced := bt_rebalanced st + 1\<rparr>;
            st2 = foldl (\<lambda>s c. bt_close env ts ''close'' (pi_reason_codes c) s (item_sid c)) st1 (bl_close plan)
        in foldl (open_one env ts rows) st2 (bl_open plan)
      else st)"

definition drawdown_of :: "bt_state \<Rightarrow> real" where
  "drawdown_of st = (if bt_peak st > 0 then (bt_equity st / bt_peak st - 1) * 100 else 0)"

definition risk_bucket :: "bt_env \<Rightarrow> int \<Rightarrow> bt_state \<Rightarrow> bt_state" where
  "risk_bucket env ts st =
     (let st1 = st\<lparr>bt_peak := max (bt_peak st) (bt_equity st)\<rparr>;
          dd = drawdown_of st1;
          st2 = st1\<lparr>bt_max_dd := min (bt_max_dd st1) dd\<rparr>
      in if \<not> bt_halted st2 \<and> dd \<le> bq_dd_hard (be_params env) then
           close_list env ts ''force_close_drawdown'' (map fst (bt_positions st2))
             (st2\<lparr>bt_halted := True, bt_hard_stops := bt_hard_stops st2 + 1\<rparr>)
         else st2)"

definition sum_notional :: "(int \<times> bt_position) list \<Rightarrow> real" where
  "sum_notional positions = sum_list (map (\<lambda>x. pos_part (bp_notional (snd x))) positions)"

definition curve_point :: "int \<Rightarrow> bt_row list \<Rightarrow> bt_plan \<Rightarrow> real \<Rightarrow> bt_state \<Rightarrow> bt_curve_point" where
  "curve_point ts rows plan dd st =
     \<lparr>bc_ts = ts, bc_equity = py_round (bt_equity st) 6, bc_pairs = length (bt_positions st),
      bc_notional = py_round (sum_notional (bt_positions st)) 2, bc_candidates = length rows,
      bc_targets = bl_targets plan, bc_dd = py_round dd 6, bc_halted = bt_halted st\<rparr>"

text \<open>The body of the loop over the buckets.\<close>

definition bucket_step :: "bt_env \<Rightarrow> bt_state \<Rightarrow> int \<Rightarrow> bt_state" where
  "bucket_step env st ts =
     (let st1 = mark_to_market env ts st;
          rows = candidate_rows env ts (bt_equity st1);
          plan = plan_bucket env rows st1;
          st3 = rebalance_bucket env ts rows plan (note_plan plan st1);
          dd = drawdown_of (st3\<lparr>bt_peak := max (bt_peak st3) (bt_equity st3)\<rparr>);
          st4 = risk_bucket env ts st3
      in if be_details env then st4\<lparr>bt_curve := bt_curve st4 @ [curve_point ts rows plan dd st4]\<rparr> else st4)"

section \<open>The run\<close>

text \<open>\<open>_iter_bucket_epochs\<close>: the buckets from the first day to the end of the last.\<close>

definition iter_bucket_epochs :: "int \<Rightarrow> int \<Rightarrow> int list" where
  "iter_bucket_epochs d0 d1 = map (\<lambda>i. d0 * 86400 + bucket_secs * int i) [0..<nat ((d1 + 1 - d0) * 96)]"

definition run_buckets :: "bt_env \<Rightarrow> int list \<Rightarrow> bt_state \<Rightarrow> bt_state" where
  "run_buckets env bs st = foldl (bucket_step env) st bs"

definition close_end :: "bt_env \<Rightarrow> int list \<Rightarrow> int \<Rightarrow> bt_state \<Rightarrow> bt_state" where
  "close_end env bs now st =
     close_list env (if bs = [] then now else last bs) ''close_end'' (map fst (bt_positions st)) st"

record bt_summary =
  bs_start :: int
  bs_end :: int
  bs_initial_nav :: real
  bs_end_nav :: real
  bs_return_pct :: real
  bs_max_drawdown :: real
  bs_funding :: real
  bs_basis :: real
  bs_fees :: real
  bs_opened :: nat
  bs_closed :: nat
  bs_rebalanced :: nat
  bs_stale_closed :: nat
  bs_hard_stops :: nat
  bs_halted :: bool
  bs_buckets :: nat
  bs_target_nonzero :: nat
  bs_blocked :: nat
  bs_block_reasons :: "(string \<times> nat) list"

datatype bt_result = Universe_empty int int | Finished bt_summary "bt_curve_point list" "bt_event list"

definition top_reasons :: "(string \<times> nat) list \<Rightarrow> (string \<times> nat) list" where
  "top_reasons m = take 10 (sort_key (\<lambda>x. - int (snd x)) (sort_key fst m))"

definition build_backtest_result :: "int \<Rightarrow> int \<Rightarrow> nat \<Rightarrow> bt_state \<Rightarrow> backtest_params \<Rightarrow> bool \<Rightarrow> bt_result" where
  "build_backtest_result d0 d1 total_buckets st p details =
     (let start_nav = max (1 / 10 ^ 9) (bq_initial_nav p) in
      Finished
        \<lparr>bs_start = d0, bs_end = d1, bs_initial_nav = py_round start_nav 6, bs_end_nav = py_round (bt_equity st) 6,
         bs_return_pct = py_round ((bt_equity st / start_nav - 1) * 100) 6, bs_max_drawdown = py_round (bt_max_dd st) 6,
         bs_funding = py_round (bt_funding st) 6, bs_basis = py_round (bt_basis st) 6, bs_fees = py_round (bt_fees st) 6,
         bs_opened = bt_opened st, bs_closed = bt_closed st, bs_rebalanced = bt_rebalanced st,
         bs_stale_closed = bt_stale_closed st, bs_hard_stops = bt_hard_stops st, bs_halted = bt_halted st,
         bs_buckets = total_buckets, bs_target_nonzero = bt_target_nonzero st, bs_blocked = bt_blocked st,
         bs_block_reasons = top_reasons (bt_block_reasons st)\<rparr>
        (if details then bt_curve st else []) (if details then bt_events st else []))"

record bt_database =
  bd_universe :: "universe_row list"
  bd_snapshots :: "market_snapshot list"
  bd_funding :: "funding_point list"
  bd_exchanges :: "exchange_row list"

definition backtest_env :: "bt_database \<Rightarrow> backtest_params \<Rightarrow> bool \<Rightarrow> int \<Rightarrow> int \<Rightarrow> bt_env" where
  "backtest_env db p details d0 d1 =
     (case load_daily_universe (bd_universe db) d0 d1 (bq_top_n p) of (by_date, keyset) \<Rightarrow>
       \<lparr>be_params = p, be_details = details, be_universe = by_date,
        be_price = load_price_indices (bd_snapshots db) d0 d1 keyset,
        be_funding = load_funding_indices (bd_funding db) d0 d1 keyset,
        be_exchange = (\<lambda>i. if i \<in> fst ` keyset then first_where (\<lambda>r. ex_id r = i) (bd_exchanges db) else None)\<rparr>)"

definition run_event_backtest :: "bt_database \<Rightarrow> backtest_params \<Rightarrow> bool \<Rightarrow> int \<Rightarrow> string + bt_result" where
  "run_event_backtest db p details today =
     (let d0 = (case bq_start p of Some d \<Rightarrow> d | None \<Rightarrow> today - 14);
          d1 = (case bq_end p of Some d \<Rightarrow> d | None \<Rightarrow> today) in
      if d1 < d0 then Inl ''end_date must be >= start_date''
      else if snd (load_daily_universe (bd_universe db) d0 d1 (bq_top_n p)) = {} then Inr (Universe_empty d0 d1)
      else
        let env = backtest_env db p details d0 d1; bs = iter_bucket_epochs d0 d1;
            st = close_end env bs (today * 86400) (run_buckets env bs (initial_state p))
        in Inr (build_backtest_result d0 d1 (max 1 (length bs)) st p details))"

end
