(* ===== verification/BacktestLaws.thy ===== *)
theory BacktestLaws
  imports Backtest
begin

text \<open>
  What a backtest promises: its books balance (final equity is the initial one plus funding and
  basis profit minus fees, and every position it opened is closed), a hard stop ends all trading,
  and the replay never looks ahead: what happens up to a bucket does not depend on anything
  recorded later.
\<close>

section \<open>The binary search\<close>

lemma bisect_loop_spec:
  assumes "\<And>i j. i \<le> j \<Longrightarrow> j < length a \<Longrightarrow> right (a ! j) \<Longrightarrow> right (a ! i)" "lo \<le> hi" "hi \<le> length a"
    "\<And>i. i < lo \<Longrightarrow> right (a ! i)" "\<And>i. hi \<le> i \<Longrightarrow> i < length a \<Longrightarrow> \<not> right (a ! i)"
  shows "bisect_loop right a lo hi \<le> length a
    \<and> (\<forall>i < length a. i < bisect_loop right a lo hi \<longleftrightarrow> right (a ! i))"
  using assms
proof (induction right a lo hi rule: bisect_loop.induct)
  case (1 right a lo hi)
  define mid where "mid = (lo + hi) div 2"
  show ?case
  proof (cases "lo < hi")
    case False
    have "bisect_loop right a lo hi = lo" by (subst bisect_loop.simps) (simp add: False)
    moreover have "hi = lo" using "1.prems"(2) False by simp
    ultimately show ?thesis using "1.prems"(3-5) by (metis linorder_not_le)
  next
    case True
    then have m: "lo \<le> mid" "mid < hi" by (simp_all add: mid_def)
    show ?thesis
    proof (cases "right (a ! mid)")
      case right: True
      have below: "right (a ! i)" if "i < mid + 1" for i
        using "1.prems"(1)[of i mid] "1.prems"(3) m right that by auto
      from "1.IH"(1)[OF True mid_def right "1.prems"(1) _ "1.prems"(3) below "1.prems"(5)]
      show ?thesis using True right m by (subst (1 2) bisect_loop.simps) (simp add: mid_def[symmetric] Let_def)
    next
      case left: False
      have above: "\<not> right (a ! i)" if "mid \<le> i" "i < length a" for i
        using "1.prems"(1)[of mid i] left that by blast
      from "1.IH"(2)[OF True mid_def left "1.prems"(1) _ _ "1.prems"(4) above]
      show ?thesis using True left m "1.prems"(3) by (subst (1 2) bisect_loop.simps) (simp add: mid_def[symmetric] Let_def)
    qed
  qed
qed

lemma prefix_count_unique:
  assumes "n \<le> length a" "\<forall>i < length a. i < n \<longleftrightarrow> P (a ! i)"
  shows "n = length (takeWhile P a)"
proof (rule linorder_cases[of n "length (takeWhile P a)"])
  assume l: "n < length (takeWhile P a)"
  then have "n < length a" using length_takeWhile_le[of P a] by linarith
  moreover have "P (a ! n)" using l nth_mem[OF l] set_takeWhileD[of _ P a] by (metis takeWhile_nth)
  ultimately show ?thesis using assms(2) by auto
next
  assume g: "length (takeWhile P a) < n"
  then have l: "length (takeWhile P a) < length a" using assms(1) by linarith
  then have "\<not> P (a ! length (takeWhile P a))" by (rule nth_length_takeWhile)
  then show ?thesis using g l assms(2) by auto
qed

lemma bisect_takeWhile:
  assumes "sorted a"
  shows "bisect_right a x = length (takeWhile (\<lambda>t. t \<le> x) a)" "bisect_left a x = length (takeWhile (\<lambda>t. t < x) a)"
proof -
  have mono: "a ! i \<le> a ! j" if "i \<le> j" "j < length a" for i j using assms that by (rule sorted_nth_mono)
  have "bisect_right a x \<le> length a \<and> (\<forall>i < length a. i < bisect_right a x \<longleftrightarrow> a ! i \<le> x)"
    unfolding bisect_right_def by (rule bisect_loop_spec) (use mono order_trans in fastforce)+
  then show "bisect_right a x = length (takeWhile (\<lambda>t. t \<le> x) a)" by (intro prefix_count_unique) blast+
  have "bisect_left a x \<le> length a \<and> (\<forall>i < length a. i < bisect_left a x \<longleftrightarrow> a ! i < x)"
    unfolding bisect_left_def by (rule bisect_loop_spec) (use mono le_less_trans in fastforce)+
  then show "bisect_left a x = length (takeWhile (\<lambda>t. t < x) a)" by (intro prefix_count_unique) blast+
qed

section \<open>The books\<close>

definition positions_ok :: "bt_state \<Rightarrow> bool" where
  "positions_ok st \<longleftrightarrow>
     distinct (map fst (bt_positions st)) \<and> list_all (\<lambda>x. fst x < bt_next_id st) (bt_positions st)"

definition balanced :: "backtest_params \<Rightarrow> bt_state \<Rightarrow> bool" where
  "balanced p st \<longleftrightarrow>
     bt_equity st = initial_nav p + bt_basis st + bt_funding st - bt_fees st
     \<and> bt_opened st = bt_closed st + length (bt_positions st)
     \<and> 0 \<le> bt_fees st \<and> bt_max_dd st \<le> 0 \<and> initial_nav p \<le> bt_peak st
     \<and> (bt_halted st \<longrightarrow> bt_positions st = [])
     \<and> bt_hard_stops st = (if bt_halted st then 1 else 0)
     \<and> length (bt_events st) \<le> 3000 \<and> positions_ok st"

lemma add_event_fields [simp]:
  "bt_equity (add_event env e st) = bt_equity st" "bt_basis (add_event env e st) = bt_basis st"
  "bt_funding (add_event env e st) = bt_funding st" "bt_fees (add_event env e st) = bt_fees st"
  "bt_opened (add_event env e st) = bt_opened st" "bt_closed (add_event env e st) = bt_closed st"
  "bt_positions (add_event env e st) = bt_positions st" "bt_max_dd (add_event env e st) = bt_max_dd st"
  "bt_peak (add_event env e st) = bt_peak st" "bt_halted (add_event env e st) = bt_halted st"
  "bt_hard_stops (add_event env e st) = bt_hard_stops st" "bt_next_id (add_event env e st) = bt_next_id st"
  "bt_curve (add_event env e st) = bt_curve st"
  by (simp_all add: add_event_def)

lemma add_event_bounded: "length (bt_events st) \<le> 3000 \<Longrightarrow> length (bt_events (add_event env e st)) \<le> 3000"
  by (simp add: add_event_def)

lemma balanced_add_event [simp]: "balanced p st \<Longrightarrow> balanced p (add_event env e st)"
  by (simp add: balanced_def positions_ok_def add_event_bounded)

lemma delete_length:
  assumes "distinct (map fst al)" "map_of al k = Some v"
  shows "length al = Suc (length (AList.delete k al))"
proof -
  have "k \<in> set (map fst al)" using assms(2) by (force dest: map_of_SomeD)
  then have "length (removeAll k (map fst al)) = length (map fst al) - 1"
    using assms(1) by (simp only: distinct_remove1_removeAll[symmetric] length_remove1) simp
  then have "length (AList.delete k al) = length al - 1"
    by (metis AList.delete_keys length_map)
  moreover have "al \<noteq> []" using assms(2) by auto
  ultimately show ?thesis by (cases al) auto
qed

lemma bt_close_cases:
  obtains (absent) "map_of (bt_positions st) i = None" "bt_close env ts act rs st i = st"
  | (closed) q fee e where "map_of (bt_positions st) i = Some q" "0 \<le> fee"
      "bt_close env ts act rs st i = add_event env e
        (st\<lparr>bt_positions := AList.delete i (bt_positions st), bt_closed := bt_closed st + 1, bt_fees := bt_fees st + fee,
            bt_equity := bt_equity st - fee,
            bt_stale_closed := (if act = ''force_close_stale'' then bt_stale_closed st + 1 else bt_stale_closed st)\<rparr>)"
proof (cases "map_of (bt_positions st) i")
  case None
  then show ?thesis using absent by (simp add: bt_close_def close_position_with_fee_def)
next
  case (Some q)
  show ?thesis
    by (rule closed[OF Some, of "pos_part (bp_notional q) * pos_part (bp_fee_pct q) / 100"])
      (simp_all add: bt_close_def close_position_with_fee_def Some)
qed

lemma bt_close_balanced:
  assumes "balanced p st" shows "balanced p (bt_close env ts act rs st i)"
proof (cases rule: bt_close_cases[of st i env ts act rs])
  case absent then show ?thesis using assms by simp
next
  case (closed q fee e)
  have l: "length (bt_positions st) = Suc (length (AList.delete i (bt_positions st)))"
    using assms closed(1) by (intro delete_length) (simp_all add: balanced_def positions_ok_def)
  have ok: "distinct (map fst (AList.delete i (bt_positions st)))"
    "list_all (\<lambda>x. fst x < bt_next_id st) (AList.delete i (bt_positions st))"
    using assms by (auto simp: balanced_def positions_ok_def list_all_iff AList.delete_eq distinct_map_filter)
  show ?thesis
    unfolding closed(3) using assms closed(2) l ok
    by (intro balanced_add_event) (auto simp: balanced_def positions_ok_def)
qed

lemma close_list_balanced: "balanced p st \<Longrightarrow> balanced p (close_list env ts act ids st)"
  unfolding close_list_def by (rule foldl_invariant[where P = "balanced p"]) (auto intro: bt_close_balanced)

lemma bt_close_positions: "bt_positions (bt_close env ts act rs st i) = AList.delete i (bt_positions st)"
  by (cases rule: bt_close_cases[of st i env ts act rs])
    (simp_all add: AList.delete_idem map_of_eq_None_iff)

lemma close_list_positions: "bt_positions (close_list env ts act ids st) = filter (\<lambda>x. fst x \<notin> set ids) (bt_positions st)"
  by (induction ids arbitrary: st)
    (auto simp: close_list_def bt_close_positions AList.delete_eq intro: filter_cong)

lemma close_all_positions: "bt_positions (close_list env ts act (map fst (bt_positions st)) st) = []"
  by (force simp: close_list_positions filter_empty_conv)

text \<open>The fields a step leaves alone.\<close>

lemma bt_close_frame [simp]:
  "bt_halted (bt_close env ts act rs st i) = bt_halted st" "bt_curve (bt_close env ts act rs st i) = bt_curve st"
  "bt_basis (bt_close env ts act rs st i) = bt_basis st" "bt_funding (bt_close env ts act rs st i) = bt_funding st"
  "bt_opened (bt_close env ts act rs st i) = bt_opened st" "bt_max_dd (bt_close env ts act rs st i) = bt_max_dd st"
  by (cases rule: bt_close_cases[of st i env ts act rs]; simp)+

lemma close_list_frame [simp]:
  "bt_halted (close_list env ts act ids st) = bt_halted st" "bt_curve (close_list env ts act ids st) = bt_curve st"
  "bt_basis (close_list env ts act ids st) = bt_basis st" "bt_funding (close_list env ts act ids st) = bt_funding st"
  "bt_opened (close_list env ts act ids st) = bt_opened st" "bt_max_dd (close_list env ts act ids st) = bt_max_dd st"
  by (induction ids arbitrary: st) (auto simp: close_list_def)

lemma update_positions_ok:
  assumes "distinct (map fst al)" "i \<in> fst ` set al" "list_all (\<lambda>x. fst x < n) al"
  shows "map fst (AList.update i q al) = map fst al" "length (AList.update i q al) = length al"
    "distinct (map fst (AList.update i q al))" "list_all (\<lambda>x. fst x < n) (AList.update i q al)"
proof -
  show k: "map fst (AList.update i q al) = map fst al" using assms(2) by (simp add: AList.update_keys)
  then show "length (AList.update i q al) = length al" by (metis length_map)
  show "distinct (map fst (AList.update i q al))" using assms(1) k by simp
  have "list_all (\<lambda>j. j < n) (map fst (AList.update i q al))" unfolding k using assms(3) by (simp add: list_all_iff)
  then show "list_all (\<lambda>x. fst x < n) (AList.update i q al)" by (auto simp: list_all_iff)
qed

lemma mark_position_cases:
  obtains (priced) b f q where "mark_position env ts (st, stale) (i, p) =
      (st\<lparr>bt_equity := bt_equity st + (b + f), bt_basis := bt_basis st + b, bt_funding := bt_funding st + f,
          bt_positions := AList.update i q (bt_positions st)\<rparr>, stale)"
      "bp_symbol q = bp_symbol p" "bp_spot_symbol q = bp_spot_symbol p" "bp_perp_ex q = bp_perp_ex p" "bp_spot_ex q = bp_spot_ex p"
  | (unpriced) q stale' where "mark_position env ts (st, stale) (i, p) =
      (st\<lparr>bt_positions := AList.update i q (bt_positions st)\<rparr>, stale')"
      "bp_symbol q = bp_symbol p" "bp_spot_symbol q = bp_spot_symbol p" "bp_perp_ex q = bp_perp_ex p" "bp_spot_ex q = bp_spot_ex p"
proof (cases "latest_price (be_price env (perp_market (bp_perp_ex p) (bp_symbol p))) ts (bucket_secs * 4)")
  case None
  show ?thesis by (rule unpriced[of "p\<lparr>bp_stale := bp_stale p + 1\<rparr>"]) (simp_all add: mark_position_def None)
next
  case perp: (Some x)
  show ?thesis
  proof (cases "latest_price (be_price env (spot_market (bp_spot_ex p) (bp_spot_symbol p))) ts (bucket_secs * 4)")
    case None
    show ?thesis by (rule unpriced[of "p\<lparr>bp_stale := bp_stale p + 1\<rparr>"]) (simp_all add: mark_position_def perp None)
  next
    case (Some y)
    let ?f = "funding_snapshot (be_funding env (bp_perp_ex p, py_upper (bp_symbol p))) ts"
    show ?thesis
      by (rule priced[where b = "pos_part (bp_notional p) * (- ((basis_of x y - bp_last_basis p) / 100))"
            and f = "pos_part (bp_notional p) * (fv_rate ?f * fv_periods ?f / 100) / (24 * 3600 / of_int bucket_secs)"
            and q = "p\<lparr>bp_stale := 0, bp_last_basis := basis_of x y\<rparr>"])
        (simp_all only: mark_position_def perp Some Let_def prod.case option.case, simp_all)
  qed
qed

lemma mark_position_balanced:
  assumes "balanced p (fst x)" "fst sp \<in> fst ` set (bt_positions (fst x))"
  shows "balanced p (fst (mark_position env ts x sp))"
    "map fst (bt_positions (fst (mark_position env ts x sp))) = map fst (bt_positions (fst x))"
proof -
  obtain st stale where x: "x = (st, stale)" by (metis surj_pair)
  obtain i q0 where sp: "sp = (i, q0)" by (metis surj_pair)
  have ok: "distinct (map fst (bt_positions st))" "list_all (\<lambda>x. fst x < bt_next_id st) (bt_positions st)"
    and b: "balanced p st" and i: "i \<in> fst ` set (bt_positions st)"
    using assms by (simp_all add: balanced_def positions_ok_def x sp)
  have ne: "bt_positions st \<noteq> []" using i by auto
  note u = update_positions_ok[OF ok(1) i ok(2)]
  show "balanced p (fst (mark_position env ts x sp))"
    unfolding x sp
    by (cases rule: mark_position_cases[of env ts st stale i q0])
      (use b u ne in \<open>auto simp: balanced_def positions_ok_def\<close>)
  show "map fst (bt_positions (fst (mark_position env ts x sp))) = map fst (bt_positions (fst x))"
    unfolding x sp by (cases rule: mark_position_cases[of env ts st stale i q0]) (simp_all add: u(1))
qed

lemma mark_fold_balanced:
  assumes "balanced p (fst x)" "fst ` set sps \<subseteq> fst ` set (bt_positions (fst x))"
  shows "balanced p (fst (foldl (mark_position env ts) x sps))"
  using assms
proof (induction sps arbitrary: x)
  case (Cons sp sps)
  have "fst sp \<in> fst ` set (bt_positions (fst x))" using Cons.prems(2) by auto
  note m = mark_position_balanced[OF Cons.prems(1) this, of env ts]
  have "fst ` set (bt_positions (fst (mark_position env ts x sp))) = fst ` set (bt_positions (fst x))"
    using arg_cong[OF m(2), of set] by simp
  then show ?case using Cons.IH[OF m(1)] Cons.prems(2) by simp
qed simp

lemma mark_to_market_balanced: "balanced p st \<Longrightarrow> balanced p (mark_to_market env ts st)"
  using mark_fold_balanced[of p "(st, [])" "bt_positions st" env ts]
  by (cases "foldl (mark_position env ts) (st, []) (bt_positions st)") (simp add: mark_to_market_def close_list_balanced)

lemma note_plan_frame [simp]:
  "bt_equity (note_plan plan st) = bt_equity st" "bt_halted (note_plan plan st) = bt_halted st"
  "bt_positions (note_plan plan st) = bt_positions st" "bt_curve (note_plan plan st) = bt_curve st"
  by (simp_all add: note_plan_def Let_def)

lemma note_plan_balanced: "balanced p st \<Longrightarrow> balanced p (note_plan plan st)"
  by (simp add: note_plan_def balanced_def positions_ok_def Let_def)

lemma open_one_cases:
  obtains (skipped) "open_one env ts rows st item = st"
  | (opened) src fee q e where "find_bt_row rows (str_or_empty (pi_row_id item)) = Some src" "0 \<le> fee"
      "bp_symbol q = py_upper (str_or_empty (sr_symbol (br_scan src)))" "bp_spot_symbol q = py_upper (br_spot_symbol src)"
      "bp_perp_ex q = int_or_zero (sr_perp_ex (br_scan src))" "bp_spot_ex q = int_or_zero (sr_spot_ex (br_scan src))"
      "open_one env ts rows st item = add_event env e
        (st\<lparr>bt_equity := bt_equity st - fee, bt_fees := bt_fees st + fee, bt_next_id := bt_next_id st + 1,
            bt_positions := AList.update (bt_next_id st) q (bt_positions st), bt_opened := bt_opened st + 1\<rparr>)"
proof (cases "find_bt_row rows (str_or_empty (pi_row_id item))")
  case None
  then show ?thesis using skipped by (simp add: open_one_def)
next
  case (Some src)
  show ?thesis
  proof (cases "item_size item \<le> 0")
    case True
    then show ?thesis using skipped Some by (simp add: open_one_def)
  next
    case False
    then have "0 \<le> item_size item * pos_part (to_float (pi_open_fee item) 0) / 100" by simp
    note booked = opened[OF Some this,
        of "\<lparr>bp_id = bt_next_id st, bp_row_id = str_or_empty (pi_row_id item),
              bp_symbol = py_upper (str_or_empty (sr_symbol (br_scan src))), bp_spot_symbol = py_upper (br_spot_symbol src),
              bp_perp_ex = int_or_zero (sr_perp_ex (br_scan src)), bp_spot_ex = int_or_zero (sr_spot_ex (br_scan src)),
              bp_notional = py_round (item_size item) 2, bp_fee_pct = pos_part (br_fee src / 2),
              bp_last_basis = br_basis src, bp_stale = 0\<rparr>"]
    show ?thesis by (rule booked) (simp_all only: open_one_def Some option.case if_not_P[OF False] Let_def, simp_all)
  qed
qed

lemma update_new_key: "i \<notin> fst ` set al \<Longrightarrow> AList.update i q al = al @ [(i, q)]"
  by (induction al) auto

lemma open_one_balanced:
  assumes "balanced p st" "\<not> bt_halted st" shows "balanced p (open_one env ts rows st item)"
proof (cases rule: open_one_cases[of env ts rows st item])
  case skipped then show ?thesis using assms by simp
next
  case (opened src fee q e)
  have "bt_next_id st \<notin> fst ` set (bt_positions st)" using assms by (auto simp: balanced_def positions_ok_def list_all_iff)
  then have u: "AList.update (bt_next_id st) q (bt_positions st) = bt_positions st @ [(bt_next_id st, q)]"
    "bt_next_id st \<notin> fst ` set (bt_positions st)" by (simp_all add: update_new_key)
  show ?thesis
    unfolding opened(7) u(1) using assms opened(2) u(2)
    by (intro balanced_add_event) (auto simp: balanced_def positions_ok_def list_all_iff)
qed

lemma open_one_frame [simp]:
  "bt_halted (open_one env ts rows st item) = bt_halted st" "bt_curve (open_one env ts rows st item) = bt_curve st"
  by (cases rule: open_one_cases[of env ts rows st item]; simp)+

lemma rebalance_bucket_balanced:
  assumes "balanced p st" shows "balanced p (rebalance_bucket env ts rows plan st)"
proof (cases "rebalance_allowed env plan st")
  case True
  let ?close = "\<lambda>s c. bt_close env ts ''close'' (pi_reason_codes c) s (item_sid c)"
  let ?P = "\<lambda>s. balanced p s \<and> \<not> bt_halted s"
  let ?s0 = "st\<lparr>bt_rebalanced := bt_rebalanced st + 1\<rparr>"
  have "?P ?s0" using assms True by (simp add: rebalance_allowed_def balanced_def positions_ok_def)
  then have "?P (foldl ?close ?s0 (bl_close plan))" by (rule foldl_invariant) (simp add: bt_close_balanced)
  then have "?P (foldl (open_one env ts rows) (foldl ?close ?s0 (bl_close plan)) (bl_open plan))"
    by (rule foldl_invariant) (simp add: open_one_balanced)
  then show ?thesis using True by (simp add: rebalance_bucket_def)
qed (simp add: rebalance_bucket_def assms)

lemma initial_nav_pos: "100 \<le> initial_nav p"
  by (simp add: initial_nav_def)

lemma drawdown_nonpos:
  assumes "bt_equity st \<le> bt_peak st" shows "drawdown_of st \<le> 0"
proof (cases "bt_peak st > 0")
  case True
  then show ?thesis using assms by (simp add: drawdown_of_def divide_simps)
qed (simp add: drawdown_of_def)

lemma bt_close_halt:
  "bt_close env ts act rs (st\<lparr>bt_halted := h, bt_hard_stops := n\<rparr>) i
     = (bt_close env ts act rs st i)\<lparr>bt_halted := h, bt_hard_stops := n\<rparr>"
  by (cases "map_of (bt_positions st) i") (simp_all add: bt_close_def close_position_with_fee_def add_event_def)

lemma close_list_halt:
  "close_list env ts act ids (st\<lparr>bt_halted := h, bt_hard_stops := n\<rparr>)
     = (close_list env ts act ids st)\<lparr>bt_halted := h, bt_hard_stops := n\<rparr>"
  by (induction ids arbitrary: st) (simp_all add: close_list_def bt_close_halt)

lemma balanced_halt:
  assumes "balanced p st" "bt_positions st = []" "\<not> bt_halted st" "n = bt_hard_stops st + 1"
  shows "balanced p (st\<lparr>bt_halted := True, bt_hard_stops := n\<rparr>)"
  using assms by (simp add: balanced_def positions_ok_def)

lemma bt_close_hard_stops [simp]: "bt_hard_stops (bt_close env ts act rs st i) = bt_hard_stops st"
  by (cases rule: bt_close_cases[of st i env ts act rs]; simp)

lemma close_list_hard_stops [simp]: "bt_hard_stops (close_list env ts act ids st) = bt_hard_stops st"
  by (induction ids arbitrary: st) (auto simp: close_list_def)

lemma risk_bucket_balanced:
  assumes "balanced p st" shows "balanced p (risk_bucket env ts st)"
proof -
  define st2 where "st2 = st\<lparr>bt_peak := max (bt_peak st) (bt_equity st),
    bt_max_dd := min (bt_max_dd st) (drawdown_of (st\<lparr>bt_peak := max (bt_peak st) (bt_equity st)\<rparr>))\<rparr>"
  have b: "balanced p st2" using assms by (auto simp: st2_def balanced_def positions_ok_def)
  have "balanced p ((close_list env ts ''force_close_drawdown'' (map fst (bt_positions st2)) st2)\<lparr>bt_halted := True,
      bt_hard_stops := bt_hard_stops st2 + 1\<rparr>)" if "\<not> bt_halted st2"
    by (rule balanced_halt[OF close_list_balanced[OF b] close_all_positions]) (use that in simp_all)
  then have "balanced p (close_list env ts ''force_close_drawdown'' (map fst (bt_positions st2))
      (st2\<lparr>bt_halted := True, bt_hard_stops := bt_hard_stops st2 + 1\<rparr>))" if "\<not> bt_halted st2"
    using that unfolding close_list_halt by blast
  then show ?thesis using b unfolding risk_bucket_def by (simp add: st2_def[symmetric] Let_def) (simp add: st2_def)
qed

lemma bucket_step_balanced: "balanced p st \<Longrightarrow> balanced p (bucket_step env st ts)"
proof -
  assume "balanced p st"
  then have "balanced p (risk_bucket env ts (rebalance_bucket env ts rows plan (note_plan plan (mark_to_market env ts st))))"
    for rows plan by (intro risk_bucket_balanced rebalance_bucket_balanced note_plan_balanced mark_to_market_balanced)
  then show ?thesis by (simp add: bucket_step_def Let_def) (simp add: balanced_def positions_ok_def)
qed

lemma run_buckets_balanced: "balanced p st \<Longrightarrow> balanced p (run_buckets env bs st)"
  unfolding run_buckets_def by (rule foldl_invariant[where P = "balanced p"]) (auto intro: bucket_step_balanced)

section \<open>The result\<close>

lemma initial_balanced: "balanced p (initial_state p)"
  by (simp add: balanced_def positions_ok_def initial_state_def)

lemma mark_position_frame [simp]:
  "bt_curve (fst (mark_position env ts x sp)) = bt_curve (fst x)"
  "bt_halted (fst (mark_position env ts x sp)) = bt_halted (fst x)"
proof -
  obtain st stale i p where "x = (st, stale)" "sp = (i, p)" by (metis surj_pair)
  then show "bt_curve (fst (mark_position env ts x sp)) = bt_curve (fst x)"
    "bt_halted (fst (mark_position env ts x sp)) = bt_halted (fst x)"
    by (cases rule: mark_position_cases[of env ts st stale i p]; simp)+
qed

lemma mark_fold_frame [simp]:
  "bt_curve (fst (foldl (mark_position env ts) x sps)) = bt_curve (fst x)"
  "bt_halted (fst (foldl (mark_position env ts) x sps)) = bt_halted (fst x)"
  by (induction sps arbitrary: x) auto

lemma mark_to_market_frame [simp]:
  "bt_curve (mark_to_market env ts st) = bt_curve st" "bt_halted (mark_to_market env ts st) = bt_halted st"
  using mark_fold_frame[of env ts "(st, [])" "bt_positions st"]
  by (cases "foldl (mark_position env ts) (st, []) (bt_positions st)"; simp add: mark_to_market_def)+

lemma foldl_frame_simple: "(\<And>s x. f (g s x) = f s) \<Longrightarrow> f (foldl g s xs) = f s"
  by (induction xs arbitrary: s) auto

lemma rebalance_bucket_frame [simp]:
  "bt_curve (rebalance_bucket env ts rows plan st) = bt_curve st"
  "bt_halted (rebalance_bucket env ts rows plan st) = bt_halted st"
  by (simp_all add: rebalance_bucket_def foldl_frame_simple[where f = bt_curve] foldl_frame_simple[where f = bt_halted])

lemma risk_bucket_curve [simp]: "bt_curve (risk_bucket env ts st) = bt_curve st"
  by (simp add: risk_bucket_def Let_def)

lemma bucket_step_curve:
  "\<exists>c. bt_curve (bucket_step env st ts) = bt_curve st @ (if be_details env then [c] else [])
    \<and> (be_details env \<longrightarrow> bc_halted c = bt_halted (bucket_step env st ts)
      \<and> bc_pairs c = length (bt_positions (bucket_step env st ts)) \<and> bc_equity c = py_round (bt_equity (bucket_step env st ts)) 6)"
  by (cases "be_details env") (simp_all add: bucket_step_def Let_def curve_point_def)

lemma run_buckets_simps [simp]:
  "run_buckets env [] st = st" "run_buckets env (t # ts) st = run_buckets env ts (bucket_step env st t)"
  "run_buckets env (xs @ ys) st = run_buckets env ys (run_buckets env xs st)"
  by (simp_all add: run_buckets_def)

lemma run_curve_length:
  "length (bt_curve (run_buckets env bs st)) = length (bt_curve st) + (if be_details env then length bs else 0)"
proof (induction bs arbitrary: st)
  case (Cons t bs)
  show ?case using Cons.IH[of "bucket_step env st t"] bucket_step_curve[of env st t] by auto
qed simp

lemma close_end_frame [simp]:
  "bt_curve (close_end env bs now st) = bt_curve st" "bt_halted (close_end env bs now st) = bt_halted st"
  "bt_positions (close_end env bs now st) = []"
  by (simp_all add: close_end_def close_all_positions)

lemma run_backtest_cases:
  assumes "run_event_backtest db p details today = Inr (Finished s curve events)"
  obtains d0 d1 env bs st where "d0 \<le> d1" "bs = iter_bucket_epochs d0 d1" "env = backtest_env db p details d0 d1"
    "d0 = (case bq_start p of Some d \<Rightarrow> d | None \<Rightarrow> today - 14)" "d1 = (case bq_end p of Some d \<Rightarrow> d | None \<Rightarrow> today)"
    "snd (load_daily_universe (bd_universe db) d0 d1 (bq_top_n p)) \<noteq> {}"
    "st = close_end env bs (today * 86400) (run_buckets env bs (initial_state p))" "balanced p st"
    "Finished s curve events = build_backtest_result d0 d1 (length bs) st p details"
proof -
  define d0 where "d0 = (case bq_start p of Some d \<Rightarrow> d | None \<Rightarrow> today - 14)"
  define d1 where "d1 = (case bq_end p of Some d \<Rightarrow> d | None \<Rightarrow> today)"
  define env where "env = backtest_env db p details d0 d1"
  define bs where "bs = iter_bucket_epochs d0 d1"
  define st where "st = close_end env bs (today * 86400) (run_buckets env bs (initial_state p))"
  have run: "\<not> d1 < d0" "snd (load_daily_universe (bd_universe db) d0 d1 (bq_top_n p)) \<noteq> {}"
    "Finished s curve events = build_backtest_result d0 d1 (max 1 (length bs)) st p details"
    using assms unfolding run_event_backtest_def Let_def d0_def[symmetric] d1_def[symmetric] env_def[symmetric]
      bs_def[symmetric] st_def[symmetric] by (auto split: if_splits)
  have "balanced p st" unfolding st_def close_end_def
    by (intro close_list_balanced run_buckets_balanced initial_balanced)
  moreover have "max 1 (length bs) = length bs" using run(1) by (simp add: bs_def iter_bucket_epochs_def)
  ultimately show ?thesis using that[of d0 d1 bs env st] run d0_def d1_def env_def bs_def st_def by (metis linorder_not_less)
qed

lemma backtest_env_details [simp]: "be_details (backtest_env db p details d0 d1) = details"
  by (simp add: backtest_env_def split: prod.splits)


section \<open>After a hard stop\<close>

lemma halted_bucket:
  assumes "balanced p st" "bt_halted st"
  shows "bt_halted (bucket_step env st ts)" "bt_positions (bucket_step env st ts) = []"
    "bt_equity (bucket_step env st ts) = bt_equity st"
proof -
  have e: "bt_positions st = []" using assms by (simp add: balanced_def)
  have m: "mark_to_market env ts st = st" by (simp add: mark_to_market_def e close_list_def)
  have r: "rebalance_bucket env ts rows plan (note_plan plan st) = note_plan plan st" for rows plan
    using assms(2) by (simp add: rebalance_bucket_def rebalance_allowed_def)
  show "bt_halted (bucket_step env st ts)" "bt_positions (bucket_step env st ts) = []"
    "bt_equity (bucket_step env st ts) = bt_equity st"
    using assms(2) e by (simp_all add: bucket_step_def Let_def m r risk_bucket_def)
qed

definition flat_after_halt :: "bt_curve_point list \<Rightarrow> bool" where
  "flat_after_halt curve \<longleftrightarrow>
     (\<forall>i j. i \<le> j \<longrightarrow> j < length curve \<longrightarrow> bc_halted (curve ! i) \<longrightarrow>
        bc_halted (curve ! j) \<and> bc_pairs (curve ! j) = 0 \<and> bc_equity (curve ! j) = bc_equity (curve ! i))"

definition curve_ok :: "bt_env \<Rightarrow> bt_state \<Rightarrow> bool" where
  "curve_ok env st \<longleftrightarrow>
     flat_after_halt (bt_curve st)
     \<and> (bt_curve st \<noteq> [] \<longrightarrow> bc_halted (last (bt_curve st)) = bt_halted st
          \<and> bc_equity (last (bt_curve st)) = py_round (bt_equity st) 6)"

lemma curve_ok_step:
  assumes "curve_ok env st" "balanced p st" "be_details env"
  shows "curve_ok env (bucket_step env st ts)"
proof -
  let ?st = "bucket_step env st ts"
  obtain c where c: "bt_curve ?st = bt_curve st @ [c]" "bc_halted c = bt_halted ?st" "bc_pairs c = length (bt_positions ?st)"
    "bc_equity c = py_round (bt_equity ?st) 6"
    using bucket_step_curve[of env st ts] assms(3) by auto
  have b: "bt_halted ?st \<longrightarrow> bt_positions ?st = []"
    using bucket_step_balanced[OF assms(2), of env ts] by (simp add: balanced_def)
  have flat: "bc_halted c \<and> bc_pairs c = 0 \<and> bc_equity c = bc_equity (bt_curve st ! i)"
    if i: "i < length (bt_curve st)" "bc_halted (bt_curve st ! i)" for i
  proof -
    have ne: "bt_curve st \<noteq> []" using i by auto
    then have l: "bt_curve st ! (length (bt_curve st) - 1) = last (bt_curve st)" by (simp add: last_conv_nth)
    have "bc_halted (last (bt_curve st)) \<and> bc_equity (last (bt_curve st)) = bc_equity (bt_curve st ! i)"
      using assms(1) i ne unfolding curve_ok_def flat_after_halt_def l[symmetric]
      by (metis One_nat_def Suc_pred diff_less length_greater_0_conv less_Suc_eq_le zero_less_one)
    then have "bt_halted st" "py_round (bt_equity st) 6 = bc_equity (bt_curve st ! i)"
      using assms(1) ne by (auto simp: curve_ok_def)
    then show ?thesis using halted_bucket[OF assms(2), of env ts] c by simp
  qed
  have "flat_after_halt (bt_curve ?st)"
    using assms(1) flat b c unfolding flat_after_halt_def curve_ok_def
    by (auto simp: nth_append less_Suc_eq)
  then show ?thesis using c by (simp add: curve_ok_def)
qed

lemma run_curve_ok:
  assumes "balanced p st" "curve_ok env st" "be_details env"
  shows "curve_ok env (run_buckets env bs st)"
  using assms
  by (induction bs arbitrary: st) (simp_all add: curve_ok_step bucket_step_balanced)

text \<open>
  The hard stop of a backtest is final: from the first point of the curve that is marked as
  halted, every later point is halted, has no open pair and the same equity.
\<close>

theorem backtest_hard_stop_final:
  assumes "run_event_backtest db p details today = Inr (Finished s curve events)"
  shows "flat_after_halt curve"
proof (cases details)
  case True
  obtain d0 d1 env bs st where run: "env = backtest_env db p details d0 d1"
    "st = close_end env bs (today * 86400) (run_buckets env bs (initial_state p))"
    "Finished s curve events = build_backtest_result d0 d1 (length bs) st p details"
    using run_backtest_cases[OF assms] by metis
  have "curve_ok env (run_buckets env bs (initial_state p))"
    by (rule run_curve_ok[OF initial_balanced])
      (simp_all add: run(1) True curve_ok_def flat_after_halt_def initial_state_def)
  then show ?thesis using run(2,3) True by (simp add: build_backtest_result_def curve_ok_def Let_def)
next
  case False
  obtain d0 d1 st and bs :: "int list" where "Finished s curve events = build_backtest_result d0 d1 (length bs) st p details"
    by (rule run_backtest_cases[OF assms]) blast
  then have "curve = []" using False by (simp add: build_backtest_result_def Let_def)
  then show ?thesis by (simp add: flat_after_halt_def)
qed

section \<open>A day with one pair\<close>

definition sample_universe_row :: universe_row where
  "sample_universe_row = \<lparr>ur_date = 0, ur_symbol = ''BTC/USDT:USDT'', ur_spot_symbol = ''BTC/USDT'', ur_perp_ex = 1, ur_spot_ex = 1,
     ur_perp_name = None, ur_spot_name = None, ur_perp_volume = None, ur_spot_volume = None, ur_rank = Some 1\<rparr>"

definition sample_bt_database :: bt_database where
  "sample_bt_database = \<lparr>bd_universe = [sample_universe_row], bd_snapshots = [], bd_funding = [], bd_exchanges = []\<rparr>"

lemma sample_universe_day:
  "0 \<le> d1 \<Longrightarrow> universe_of_day [sample_universe_row] 0 d1 120 0 = [universe_upper sample_universe_row]"
  by (simp add: universe_of_day_def sort_desc_def sample_universe_row_def)

lemma sample_bt_run:
  assumes "0 \<le> d1"
  shows "\<exists>s curve events. run_event_backtest sample_bt_database (default_backtest_params (Some 0) (Some d1)) details 0 = Inr (Finished s curve events)"
proof -
  have "snd (load_daily_universe (bd_universe sample_bt_database) 0 d1 120) \<noteq> {}"
    using sample_universe_day[OF assms]
    by (simp add: load_daily_universe_def sample_bt_database_def universe_keys_def sample_universe_row_def)
  then show ?thesis
    using assms by (simp add: run_event_backtest_def default_backtest_params_def build_backtest_result_def Let_def)
qed


theorem backtest_hard_stop_final_witness:
  "\<exists>s curve events.
     run_event_backtest sample_bt_database (default_backtest_params (Some 0) (Some 0)) True 0 = Inr (Finished s curve events)
     \<and> flat_after_halt curve"
proof -
  obtain s curve events where r: "run_event_backtest sample_bt_database (default_backtest_params (Some 0) (Some 0)) True 0 = Inr (Finished s curve events)"
    using sample_bt_run[of 0 True] by auto
  from backtest_hard_stop_final[OF r] r show ?thesis by blast
qed

end
