(* ===== verification/BacktestCausal.thy ===== *)
theory BacktestCausal
  imports BacktestLaws
begin

text \<open>
  The replay does not look ahead. What a bucket reads from a series is determined by the points up
  to its time, so a run over a longer period, or over a database that has since received later
  records, repeats the curve of the shorter run point by point.
\<close>

section \<open>Reading a series up to a time\<close>

lemma sorted_takeWhile_filter: "sorted (map f xs) \<Longrightarrow> takeWhile (\<lambda>x. f x \<le> (t::int)) xs = filter (\<lambda>x. f x \<le> t) xs"
proof (induction xs)
  case (Cons x xs)
  have "filter (\<lambda>x. f x \<le> t) xs = []" if "\<not> f x \<le> t" using Cons.prems that by (auto simp: filter_empty_conv)
  then show ?case using Cons by auto
qed simp

lemma upto_prefix:
  fixes xs :: "(int \<times> 'b) list"
  assumes "sorted (map fst xs)"
  shows "filter (\<lambda>x. fst x \<le> t) xs = take (bisect_right (map fst xs) t) xs"
    "bisect_right (map fst xs) t = length (filter (\<lambda>x. fst x \<le> t) xs)"
proof -
  have "bisect_right (map fst xs) t = length (takeWhile (\<lambda>x. fst x \<le> t) xs)"
    unfolding bisect_takeWhile(1)[OF assms] takeWhile_map by (simp add: comp_def)
  then show "bisect_right (map fst xs) t = length (filter (\<lambda>x. fst x \<le> t) xs)"
    by (simp add: sorted_takeWhile_filter[OF assms])
  then show "filter (\<lambda>x. fst x \<le> t) xs = take (bisect_right (map fst xs) t) xs"
    by (metis takeWhile_eq_take sorted_takeWhile_filter[OF assms])
qed

definition latest_of :: "(int \<times> real) list \<Rightarrow> int \<Rightarrow> int \<Rightarrow> real option" where
  "latest_of xs ts max_age =
     (if xs = [] \<or> ts - fst (last xs) > max_age \<or> snd (last xs) \<le> 0 then None else Some (snd (last xs)))"

lemma latest_price_upto:
  "latest_price (Some (price_series_of vals)) ts a = latest_of (filter (\<lambda>x. fst x \<le> ts) (sort_key fst vals)) ts a"
proof -
  define s where "s = sort_key fst vals"
  define n where "n = bisect_right (map fst s) ts"
  have sorted: "sorted (map fst s)" by (simp add: s_def)
  have up: "filter (\<lambda>x. fst x \<le> ts) s = take n s" "n = length (filter (\<lambda>x. fst x \<le> ts) s)"
    using upto_prefix[OF sorted, of ts] by (simp_all add: n_def)
  have le: "n \<le> length s" unfolding up(2) by (rule length_filter_le)
  have last: "last (take n s) = s ! (n - 1)" if "n \<noteq> 0" using that le by (subst last_conv_nth) (auto simp: min_absorb2)
  have idx: "n - 1 < length s" if "n \<noteq> 0" using that le by linarith
  show ?thesis
    unfolding s_def[symmetric] up(1) using last idx le
    by (cases "n = 0") (auto simp: latest_price_def price_series_of_def s_def[symmetric] n_def[symmetric] latest_of_def Let_def)
qed

lemma intervals_take: "intervals_from st (take n ns) = take n (intervals_from st ns)"
proof (induction ns arbitrary: st n)
  case (Cons m ns)
  then show ?case by (cases n) (simp_all add: Let_def)
qed simp

lemma intervals_length [simp]: "length (intervals_from st ns) = length ns"
  by (induction ns arbitrary: st) (simp_all add: Let_def)

lemma series_take:
  fixes s :: "(int \<times> real \<times> int option) list"
  assumes "sorted (map fst s)"
  shows "fx_times (funding_series_of (take n s)) = take n (map fst s)"
    "fx_rates (funding_series_of (take n s)) = take n (map (fst \<circ> snd) s)"
    "fx_next (funding_series_of (take n s)) = take n (map (snd \<circ> snd) s)"
    "fx_intervals (funding_series_of (take n s)) = take n (intervals_from (None, None) (map (snd \<circ> snd) s))"
proof -
  have "sorted (map fst (take n s))" using sorted_wrt_take[OF assms, of n] by (simp add: take_map)
  then have "sort_key fst (take n s) = take n s" by (rule sort_key_id_if_sorted)
  then show "fx_times (funding_series_of (take n s)) = take n (map fst s)"
    "fx_rates (funding_series_of (take n s)) = take n (map (fst \<circ> snd) s)"
    "fx_next (funding_series_of (take n s)) = take n (map (snd \<circ> snd) s)"
    "fx_intervals (funding_series_of (take n s)) = take n (intervals_from (None, None) (map (snd \<circ> snd) s))"
    by (simp_all add: funding_series_of_def Let_def take_map intervals_take[symmetric])
qed

lemma series_full:
  assumes "sorted (map fst s)"
  shows "fx_times (funding_series_of s) = map fst s" "fx_rates (funding_series_of s) = map (fst \<circ> snd) s"
    "fx_next (funding_series_of s) = map (snd \<circ> snd) s"
    "fx_intervals (funding_series_of s) = intervals_from (None, None) (map (snd \<circ> snd) s)"
  using series_take[OF assms, of "length s"] by simp_all

lemma bisect_take:
  fixes xs :: "(int \<times> 'b) list"
  assumes "sorted (map fst xs)" "n = bisect_right (map fst xs) t" "u \<le> t"
  shows "bisect_right (take n (map fst xs)) t = n" "bisect_left (take n (map fst xs)) u = bisect_left (map fst xs) u"
    "bisect_left (map fst xs) u \<le> n"
proof -
  have s: "sorted (take n (map fst xs))" using assms(1) by (rule sorted_wrt_take)
  have n: "n = length (takeWhile (\<lambda>x. x \<le> t) (map fst xs))" using assms(2) by (simp add: bisect_takeWhile(1)[OF assms(1)])
  have t: "take n (map fst xs) = takeWhile (\<lambda>x. x \<le> t) (map fst xs)" unfolding n by (rule takeWhile_eq_take[symmetric])
  show "bisect_right (take n (map fst xs)) t = n"
    unfolding bisect_takeWhile(1)[OF s] unfolding t takeWhile_idem by (rule n[symmetric])
  have tw: "takeWhile (\<lambda>x. x < u) (takeWhile (\<lambda>x. x \<le> t) ys) = takeWhile (\<lambda>x. x < u) ys" for ys :: "int list"
    using assms(3) by (induction ys) auto
  show "bisect_left (take n (map fst xs)) u = bisect_left (map fst xs) u"
    unfolding bisect_takeWhile(2)[OF s] bisect_takeWhile(2)[OF assms(1)] unfolding t tw ..
  have "length (takeWhile (\<lambda>x. x < u) (takeWhile (\<lambda>x. x \<le> t) (map fst xs))) \<le> n"
    unfolding n by (rule length_takeWhile_le)
  then show "bisect_left (map fst xs) u \<le> n" unfolding bisect_takeWhile(2)[OF assms(1)] tw .
qed

lemma funding_snapshot_take:
  assumes sorted: "sorted (map fst s)" and n: "n = bisect_right (map fst s) ts"
  shows "funding_snapshot (Some (funding_series_of (take n s))) ts = funding_snapshot (Some (funding_series_of s)) ts"
proof -
  have le: "n \<le> length s" unfolding n bisect_takeWhile(1)[OF sorted] using length_takeWhile_le[of _ "map fst s"] by simp
  have w: "ts - stability_window \<le> ts" by (simp add: stability_window_def)
  note b = bisect_take[OF sorted n w]
  let ?a = "funding_series_of (take n s)" and ?b = "funding_series_of s"
  note fa = series_take[OF sorted, of n] and fb = series_full[OF sorted]
  have win: "window_by_bucket ?a l n = window_by_bucket ?b l n" for l
    unfolding window_by_bucket_def fa fb by (rule foldl_cong) auto
  have inf: "infer_interval_hours ?a (n - 1) = infer_interval_hours ?b (n - 1)" if "n \<noteq> 0"
    using that le by (simp add: infer_interval_hours_def fa fb min_absorb1)
  show ?thesis
  proof (cases "n = 0")
    case True
    then show ?thesis by (simp add: funding_snapshot_def funding_series_of_def[of "[]"] fb(1) n[symmetric])
  next
    case False
    then have ne: "s \<noteq> []" "n - 1 < n" "Suc (n - 1) = n" using le by auto
    have r: "bisect_right (fx_times ?a) ts = n" "bisect_right (fx_times ?b) ts = n"
      "bisect_left (fx_times ?a) (ts - stability_window) = bisect_left (fx_times ?b) (ts - stability_window)"
      using b by (simp_all add: fa fb n[symmetric])
    have f: "fx_rates ?a ! (n - 1) = fx_rates ?b ! (n - 1)" "fx_next ?a ! (n - 1) = fx_next ?b ! (n - 1)"
      "fx_times ?a \<noteq> []" "fx_times ?b \<noteq> []"
      using False ne by (simp_all add: fa fb)
    show ?thesis
      unfolding funding_snapshot_def option.case Let_def r f(1,2) inf[OF False]
      using f(3,4) False ne(3) win by simp
  qed
qed

definition view_of :: "(int \<times> real \<times> int option) list \<Rightarrow> int \<Rightarrow> funding_view" where
  "view_of xs ts = (if xs = [] then no_funding else funding_snapshot (Some (funding_series_of xs)) ts)"

lemma funding_snapshot_upto:
  "funding_snapshot (Some (funding_series_of vals)) ts = view_of (filter (\<lambda>x. fst x \<le> ts) (sort_key fst vals)) ts"
proof -
  define s where "s = sort_key fst vals"
  have sorted: "sorted (map fst s)" by (simp add: s_def)
  have "funding_series_of vals = funding_series_of s"
    by (simp add: funding_series_of_def s_def sort_key_id_if_sorted)
  moreover have "funding_snapshot (Some (funding_series_of s)) ts = view_of (filter (\<lambda>x. fst x \<le> ts) s) ts"
  proof (cases "bisect_right (map fst s) ts = 0")
    case True
    then show ?thesis using upto_prefix(1)[OF sorted, of ts]
      by (simp add: view_of_def funding_snapshot_def series_full[OF sorted])
  next
    case False
    then have "filter (\<lambda>x. fst x \<le> ts) s \<noteq> []" using upto_prefix(2)[OF sorted, of ts] by (metis length_0_conv)
    then show ?thesis using funding_snapshot_take[OF sorted refl, of ts] by (simp add: view_of_def upto_prefix(1)[OF sorted])
  qed
  ultimately show ?thesis by (simp add: s_def)
qed

section \<open>Two runs that read the same data up to a time\<close>

definition agree :: "market_key set \<Rightarrow> int \<Rightarrow> bt_env \<Rightarrow> bt_env \<Rightarrow> bool" where
  "agree K T env env' \<longleftrightarrow>
     be_params env' = (be_params env)\<lparr>bq_end := bq_end (be_params env')\<rparr> \<and> be_details env' = be_details env
     \<and> (\<forall>d \<le> T div 86400. be_universe env' d = be_universe env d \<and> (\<forall>u \<in> set (be_universe env d). universe_keys u \<subseteq> K))
     \<and> (\<forall>k \<in> K. \<forall>t \<le> T. \<forall>a. latest_price (be_price env' k) t a = latest_price (be_price env k) t a)
     \<and> (\<forall>k \<in> perp_keys K. \<forall>t \<le> T. funding_snapshot (be_funding env' k) t = funding_snapshot (be_funding env k) t)
     \<and> (\<forall>i \<in> fst ` K. be_exchange env' i = be_exchange env i)"

definition position_in :: "market_key set \<Rightarrow> bt_position \<Rightarrow> bool" where
  "position_in K p \<longleftrightarrow> perp_market (bp_perp_ex p) (bp_symbol p) \<in> K \<and> spot_market (bp_spot_ex p) (bp_spot_symbol p) \<in> K"

definition positions_in :: "market_key set \<Rightarrow> bt_state \<Rightarrow> bool" where
  "positions_in K st \<longleftrightarrow> (\<forall>x \<in> set (bt_positions st). position_in K (snd x))"

lemma agree_params:
  assumes "agree K T env env'"
  shows "build_runtime_cfg (be_params env') = build_runtime_cfg (be_params env)"
    "select_target_rows (be_params env') rows = select_target_rows (be_params env) rows"
    "bq_stale_buckets (be_params env') = bq_stale_buckets (be_params env)"
    "bq_dd_hard (be_params env') = bq_dd_hard (be_params env)"
    "bq_confirm_rounds (be_params env') = bq_confirm_rounds (be_params env)" "be_details env' = be_details env"
proof -
  obtain e where p: "be_params env' = (be_params env)\<lparr>bq_end := e\<rparr>" using assms unfolding agree_def by metis
  show "build_runtime_cfg (be_params env') = build_runtime_cfg (be_params env)"
    "select_target_rows (be_params env') rows = select_target_rows (be_params env) rows"
    "bq_stale_buckets (be_params env') = bq_stale_buckets (be_params env)"
    "bq_dd_hard (be_params env') = bq_dd_hard (be_params env)"
    "bq_confirm_rounds (be_params env') = bq_confirm_rounds (be_params env)"
    unfolding p by (simp_all add: build_runtime_cfg_def select_target_rows_def)
  show "be_details env' = be_details env" using assms by (simp add: agree_def)
qed

lemma agree_prices:
  assumes "agree K T env env'" "ts \<le> T"
  shows "k \<in> K \<Longrightarrow> latest_price (be_price env' k) ts a = latest_price (be_price env k) ts a"
    "(ex, x, ''perp'') \<in> K \<Longrightarrow> funding_snapshot (be_funding env' (ex, x)) ts = funding_snapshot (be_funding env (ex, x)) ts"
    "(ex, y) \<in> K \<Longrightarrow> be_exchange env' ex = be_exchange env ex"
  using assms unfolding agree_def perp_keys_def by force+

lemma agree_add_event: "be_details env' = be_details env \<Longrightarrow> add_event env' = add_event env"
  unfolding add_event_def by simp

lemma agree_close:
  assumes "be_details env' = be_details env"
  shows "bt_close env' = bt_close env" "close_list env' = close_list env"
    "open_one env' = open_one env"
proof -
  note e = agree_add_event[OF assms]
  show "bt_close env' = bt_close env" unfolding bt_close_def e ..
  then show "close_list env' = close_list env" unfolding close_list_def by simp
  show "open_one env' = open_one env" unfolding open_one_def e ..
qed

lemma mark_position_agree:
  assumes "agree K T env env'" "ts \<le> T" "position_in K (snd sp)"
  shows "mark_position env' ts x sp = mark_position env ts x sp"
proof -
  obtain i p where sp: "sp = (i, p)" by (metis surj_pair)
  have k: "perp_market (bp_perp_ex p) (bp_symbol p) \<in> K" "spot_market (bp_spot_ex p) (bp_spot_symbol p) \<in> K"
    "(bp_perp_ex p, py_upper (bp_symbol p), ''perp'') \<in> K"
    using assms(3) by (simp_all add: sp position_in_def perp_market_def)
  note a = agree_prices[OF assms(1,2)]
  show ?thesis
    unfolding mark_position_def sp prod.case a(1)[OF k(1)] a(1)[OF k(2)] a(2)[OF k(3)] agree_params(3)[OF assms(1)] ..
qed

lemma update_set: "x \<in> set (AList.update k v al) \<Longrightarrow> x = (k, v) \<or> x \<in> set al"
  by (induction al) (auto split: if_splits)

lemma positions_in_close: "positions_in K st \<Longrightarrow> positions_in K (close_list env ts act ids st)"
  by (simp add: positions_in_def close_list_positions)

lemma position_in_cong:
  "bp_symbol q = bp_symbol p \<Longrightarrow> bp_spot_symbol q = bp_spot_symbol p \<Longrightarrow> bp_perp_ex q = bp_perp_ex p
     \<Longrightarrow> bp_spot_ex q = bp_spot_ex p \<Longrightarrow> position_in K q = position_in K p"
  by (simp add: position_in_def)

lemma mark_position_in:
  assumes "positions_in K (fst x)" "position_in K (snd sp)"
  shows "positions_in K (fst (mark_position env ts x sp))"
proof -
  obtain st stale i p where xs: "x = (st, stale)" "sp = (i, p)" by (metis surj_pair)
  show ?thesis
    unfolding xs
  proof (cases rule: mark_position_cases[of env ts st stale i p])
    case (priced b f q)
    then show "positions_in K (fst (mark_position env ts (st, stale) (i, p)))"
      using assms position_in_cong[OF priced(2-5), of K] by (auto simp: xs positions_in_def dest: update_set)
  next
    case (unpriced q stale')
    then show "positions_in K (fst (mark_position env ts (st, stale) (i, p)))"
      using assms position_in_cong[OF unpriced(2-5), of K] by (auto simp: xs positions_in_def dest: update_set)
  qed
qed

lemma mark_to_market_agree:
  assumes "agree K T env env'" "ts \<le> T" "positions_in K st"
  shows "mark_to_market env' ts st = mark_to_market env ts st" "positions_in K (mark_to_market env ts st)"
proof -
  have "foldl (mark_position env' ts) (st, []) (bt_positions st) = foldl (mark_position env ts) (st, []) (bt_positions st)"
    using assms(3) by (intro foldl_cong mark_position_agree[OF assms(1,2)]) (auto simp: positions_in_def)
  then show "mark_to_market env' ts st = mark_to_market env ts st"
    by (simp add: mark_to_market_def agree_close[OF agree_params(6)[OF assms(1)]])
  have "positions_in K (fst x) \<Longrightarrow> \<forall>sp \<in> set sps. position_in K (snd sp) \<Longrightarrow> positions_in K (fst (foldl (mark_position env ts) x sps))"
    for x sps by (induction sps arbitrary: x) (auto simp: mark_position_in)
  from this[of "(st, [])" "bt_positions st"] show "positions_in K (mark_to_market env ts st)"
    using assms(3) by (cases "foldl (mark_position env ts) (st, []) (bt_positions st)")
      (simp add: mark_to_market_def positions_in_close positions_in_def[of K st])
qed

lemma candidate_row_agree:
  assumes "agree K T env env'" "ts \<le> T" "universe_keys u \<subseteq> K"
  shows "candidate_row env' ts e u = candidate_row env ts e u"
proof -
  have k: "perp_market (ur_perp_ex u) (py_upper (ur_symbol u)) \<in> K" "spot_market (ur_spot_ex u) (py_upper (ur_spot_symbol u)) \<in> K"
    "(ur_perp_ex u, py_upper (ur_symbol u), ''perp'') \<in> K" "(ur_spot_ex u, py_upper (ur_spot_symbol u), ''spot'') \<in> K"
    using assms(3) by (simp_all add: universe_keys_def perp_market_def spot_market_def)
  note a = agree_prices[OF assms(1,2)]
  have fee: "universe_fee env' (ur_perp_ex u) nm = universe_fee env (ur_perp_ex u) nm"
    "universe_fee env' (ur_spot_ex u) nm = universe_fee env (ur_spot_ex u) nm" for nm
    using a(3)[OF k(3)] a(3)[OF k(4)] by (simp_all add: universe_fee_def)
  show ?thesis
    unfolding candidate_row_def Let_def a(1)[OF k(1)] a(1)[OF k(2)] a(2)[OF k(3)] fee agree_params(1)[OF assms(1)] ..
qed

lemma candidate_row_keys:
  assumes "candidate_row env ts e u = Some r" "universe_keys u \<subseteq> K"
  shows "perp_market (int_or_zero (sr_perp_ex (br_scan r))) (py_upper (str_or_empty (sr_symbol (br_scan r)))) \<in> K"
    "spot_market (int_or_zero (sr_spot_ex (br_scan r))) (py_upper (br_spot_symbol r)) \<in> K"
proof -
  have "sr_perp_ex (br_scan r) = Some (ur_perp_ex u)" "sr_symbol (br_scan r) = Some (py_upper (ur_symbol u))"
    "sr_spot_ex (br_scan r) = Some (ur_spot_ex u)" "br_spot_symbol r = py_upper (ur_spot_symbol u)"
    using assms(1) by (auto simp: candidate_row_def Let_def split: option.splits)
  then show "perp_market (int_or_zero (sr_perp_ex (br_scan r))) (py_upper (str_or_empty (sr_symbol (br_scan r)))) \<in> K"
    "spot_market (int_or_zero (sr_spot_ex (br_scan r))) (py_upper (br_spot_symbol r)) \<in> K"
    using assms(2) by (simp_all add: universe_keys_def perp_market_def spot_market_def)
qed

definition row_in :: "market_key set \<Rightarrow> bt_row \<Rightarrow> bool" where
  "row_in K r \<longleftrightarrow>
     perp_market (int_or_zero (sr_perp_ex (br_scan r))) (py_upper (str_or_empty (sr_symbol (br_scan r)))) \<in> K
     \<and> spot_market (int_or_zero (sr_spot_ex (br_scan r))) (py_upper (br_spot_symbol r)) \<in> K"

lemma map_filter_facts:
  "(\<And>u. u \<in> set xs \<Longrightarrow> f u = g u) \<Longrightarrow> List.map_filter f xs = List.map_filter g xs"
  "r \<in> set (List.map_filter f xs) \<longleftrightarrow> (\<exists>u \<in> set xs. f u = Some r)"
  by (induction xs) (auto simp: List.map_filter_simps split: option.splits)

lemma candidate_rows_agree:
  assumes "agree K T env env'" "ts \<le> T"
  shows "candidate_rows env' ts e = candidate_rows env ts e" "list_all (row_in K) (candidate_rows env ts e)"
proof -
  have "ts div 86400 \<le> T div 86400" using assms(2) by (simp add: zdiv_mono1)
  then have u: "be_universe env' (ts div 86400) = be_universe env (ts div 86400)"
    "\<forall>u \<in> set (be_universe env (ts div 86400)). universe_keys u \<subseteq> K"
    using assms(1) by (simp_all add: agree_def)
  then show "candidate_rows env' ts e = candidate_rows env ts e"
    unfolding candidate_rows_def u(1) by (intro map_filter_facts(1)) (simp add: candidate_row_agree[OF assms])
  show "list_all (row_in K) (candidate_rows env ts e)"
    unfolding list_all_iff
  proof
    fix r assume "r \<in> set (candidate_rows env ts e)"
    then obtain v where "v \<in> set (be_universe env (ts div 86400))" "candidate_row env ts e v = Some r"
      unfolding candidate_rows_def map_filter_facts(2) by blast
    then show "row_in K r" using candidate_row_keys[of env ts e v r K] u(2) by (simp add: row_in_def)
  qed
qed

lemma open_one_in:
  assumes "positions_in K st" "list_all (row_in K) rows"
  shows "positions_in K (open_one env ts rows st item)"
proof (cases rule: open_one_cases[of env ts rows st item])
  case skipped then show ?thesis using assms by simp
next
  case (opened src fee q e)
  have "src \<in> set rows" using opened(1) by (auto simp: find_bt_row_def dest: first_where_Some)
  then have "position_in K q" using assms(2) opened(3-6) by (auto simp: position_in_def row_in_def list_all_iff)
  then show ?thesis unfolding opened(7) using assms(1) by (auto simp: positions_in_def dest: update_set)
qed

lemma rebalance_agree:
  assumes "agree K T env env'" "positions_in K st" "list_all (row_in K) rows"
  shows "rebalance_bucket env' ts rows plan st = rebalance_bucket env ts rows plan st"
    "positions_in K (rebalance_bucket env ts rows plan st)"
proof -
  show "rebalance_bucket env' ts rows plan st = rebalance_bucket env ts rows plan st"
    by (simp add: rebalance_bucket_def rebalance_allowed_def agree_params(5)[OF assms(1)] agree_close[OF agree_params(6)[OF assms(1)]])
  have c: "positions_in K (bt_close env ts act rs s i)" if "positions_in K s" for act rs s i
    using that by (auto simp: positions_in_def bt_close_positions AList.delete_eq)
  have "positions_in K (st\<lparr>bt_rebalanced := bt_rebalanced st + 1\<rparr>)" using assms(2) by (simp add: positions_in_def)
  then have "positions_in K (foldl (\<lambda>s c. bt_close env ts ''close'' (pi_reason_codes c) s (item_sid c))
      (st\<lparr>bt_rebalanced := bt_rebalanced st + 1\<rparr>) (bl_close plan))"
    by (rule foldl_invariant) (simp add: c)
  then have "positions_in K (foldl (open_one env ts rows) (foldl (\<lambda>s c. bt_close env ts ''close'' (pi_reason_codes c) s (item_sid c))
      (st\<lparr>bt_rebalanced := bt_rebalanced st + 1\<rparr>) (bl_close plan)) (bl_open plan))"
    by (rule foldl_invariant) (simp add: open_one_in assms(3))
  then show "positions_in K (rebalance_bucket env ts rows plan st)"
    using assms(2) by (simp add: rebalance_bucket_def)
qed

lemma bucket_step_agree:
  assumes "agree K T env env'" "ts \<le> T" "positions_in K st"
  shows "bucket_step env' st ts = bucket_step env st ts" "positions_in K (bucket_step env st ts)"
proof -
  note m = mark_to_market_agree[OF assms]
  note c = candidate_rows_agree[OF assms(1,2)]
  have n: "positions_in K (note_plan plan (mark_to_market env ts st))" for plan using m(2) by (simp add: positions_in_def)
  have p: "plan_bucket env' rows s = plan_bucket env rows s" for rows s
    by (simp add: plan_bucket_def agree_params(1,2)[OF assms(1)])
  have r: "risk_bucket env' ts s = risk_bucket env ts s" for s
    by (simp add: risk_bucket_def agree_params(4)[OF assms(1)] agree_close[OF agree_params(6)[OF assms(1)]] Let_def)
  show "bucket_step env' st ts = bucket_step env st ts"
    unfolding bucket_step_def Let_def m(1) c(1) p rebalance_agree(1)[OF assms(1) n c(2)] r agree_params(6)[OF assms(1)] ..
  have "positions_in K (risk_bucket env ts s)" if s: "positions_in K s" for s
  proof -
    have "positions_in K (s\<lparr>bt_peak := x, bt_max_dd := y\<rparr>)"
      "positions_in K (close_list env ts ''force_close_drawdown'' ids (s\<lparr>bt_peak := x, bt_max_dd := y, bt_halted := h, bt_hard_stops := n\<rparr>))"
      for x y h n ids by (use s in \<open>simp add: positions_in_def\<close>) (rule positions_in_close, use s in \<open>simp add: positions_in_def\<close>)
    then show ?thesis by (simp add: risk_bucket_def Let_def)
  qed
  moreover have "positions_in K (if d then x\<lparr>bt_curve := c\<rparr> else x)" if "positions_in K x" for d x c
    using that by (simp add: positions_in_def)
  ultimately show "positions_in K (bucket_step env st ts)"
    unfolding bucket_step_def Let_def using rebalance_agree(2)[OF assms(1) n c(2)] by blast
qed

lemma run_buckets_agree:
  assumes "agree K T env env'" "\<forall>t \<in> set bs. t \<le> T" "positions_in K st"
  shows "run_buckets env' bs st = run_buckets env bs st"
  using assms(2,3) by (induction bs arbitrary: st) (simp_all add: bucket_step_agree[OF assms(1)])

section \<open>Databases that agree up to a day\<close>

definition recorded_until :: "int \<Rightarrow> fopt \<Rightarrow> bool" where
  "recorded_until d1 t \<longleftrightarrow> t \<noteq> None \<and> to_float t 0 \<le> day_start (d1 + 1) - 1"

definition same_until :: "int \<Rightarrow> bt_database \<Rightarrow> bt_database \<Rightarrow> bool" where
  "same_until d1 db db' \<longleftrightarrow>
     filter (\<lambda>r. ur_date r \<le> d1) (bd_universe db') = filter (\<lambda>r. ur_date r \<le> d1) (bd_universe db)
     \<and> filter (\<lambda>r. recorded_until d1 (ms_bucket r)) (bd_snapshots db') = filter (\<lambda>r. recorded_until d1 (ms_bucket r)) (bd_snapshots db)
     \<and> filter (\<lambda>r. recorded_until d1 (fp_time r)) (bd_funding db') = filter (\<lambda>r. recorded_until d1 (fp_time r)) (bd_funding db)
     \<and> bd_exchanges db' = bd_exchanges db"

lemma trunc_before: "py_trunc x \<le> t \<Longrightarrow> x < of_int t + 1"
  unfolding py_trunc_def by (cases "0 \<le> x") (simp_all, linarith+)

lemma recorded_before:
  "py_trunc (to_float t 0) \<le> ts \<Longrightarrow> ts < (d1 + 1) * 86400 - 1 \<Longrightarrow> to_float t 0 \<le> day_start (d1 + 1) - 1"
  using trunc_before[of "to_float t 0" ts] by (simp add: day_start_def)

lemma rows_upto:
  fixes tm :: "'r \<Rightarrow> real"
  shows "filter (\<lambda>x. fst x \<le> ts) (sort_key fst (map (\<lambda>r. (py_trunc (tm r), val r)) (filter Q (sort_key tm (filter P db)))))
    = sort_key fst (map (\<lambda>r. (py_trunc (tm r), val r)) (sort_key tm (filter (\<lambda>r. P r \<and> Q r \<and> py_trunc (tm r) \<le> ts) db)))"
  by (simp add: filter_sort filter_map comp_def conj_ac)

definition upper_keys :: "market_key set \<Rightarrow> bool" where
  "upper_keys K \<longleftrightarrow> (\<forall>k \<in> K. py_upper (fst (snd k)) = fst (snd k))"

text \<open>The points of a series that count at a time do not depend on the period or the key set.\<close>

definition price_points :: "int \<Rightarrow> market_key \<Rightarrow> int \<Rightarrow> market_snapshot list \<Rightarrow> (int \<times> real) list" where
  "price_points d0 k ts db =
     sort_key fst (map (\<lambda>r. (py_trunc (to_float (ms_bucket r) 0), to_float (ms_close r) 0))
       (sort_key (\<lambda>r. to_float (ms_bucket r) 0)
         (filter (\<lambda>r. snapshot_key r = k \<and> ms_symbol r = fst (snd k) \<and> day_start d0 \<le> to_float (ms_bucket r) 0
             \<and> py_trunc (to_float (ms_bucket r) 0) \<le> ts) db)))"

lemma latest_price_points:
  assumes "k \<in> K" "upper_keys K" "d1 \<le> d1'" "ts < (d1 + 1) * 86400 - 1"
  shows "latest_price (load_price_indices db d0 d1' K k) ts a
    = latest_of (price_points d0 k ts (filter (\<lambda>r. recorded_until d1 (ms_bucket r)) db)) ts a"
proof -
  have sym: "ms_symbol r \<in> (fst \<circ> snd) ` K \<longleftrightarrow> ms_symbol r = fst (snd k)" and ex: "ms_exchange r \<in> fst ` K"
    if "snapshot_key r = k" for r
    using that assms(1,2) by (force simp: snapshot_key_def upper_keys_def image_iff)+
  have per: "in_period (day_start d0) d1' (ms_bucket r) \<longleftrightarrow> recorded_until d1 (ms_bucket r) \<and> day_start d0 \<le> to_float (ms_bucket r) 0"
    if "py_trunc (to_float (ms_bucket r) 0) \<le> ts" for r
    using recorded_before[OF that assms(4)] recorded_before[OF that, of d1'] assms(3,4)
    by (auto simp: in_period_def recorded_until_def)
  have rows: "(ms_exchange r \<in> fst ` K \<and> ms_symbol r \<in> (fst \<circ> snd) ` K \<and> in_period (day_start d0) d1' (ms_bucket r))
        \<and> snapshot_key r = k \<and> py_trunc (to_float (ms_bucket r) 0) \<le> ts
      \<longleftrightarrow> recorded_until d1 (ms_bucket r) \<and> snapshot_key r = k \<and> ms_symbol r = fst (snd k)
        \<and> day_start d0 \<le> to_float (ms_bucket r) 0 \<and> py_trunc (to_float (ms_bucket r) 0) \<le> ts" for r
    using sym ex per by blast
  define vals where "vals = map (\<lambda>r. (py_trunc (to_float (ms_bucket r) 0), to_float (ms_close r) 0))
            (filter (\<lambda>r. snapshot_key r = k) (snapshot_rows db d0 d1' K))"
  have "filter (\<lambda>x. fst x \<le> ts) (sort_key fst vals) = price_points d0 k ts (filter (\<lambda>r. recorded_until d1 (ms_bucket r)) db)"
    unfolding vals_def snapshot_rows_def rows_upto rows by (simp add: price_points_def conj_ac)
  moreover have "latest_price (load_price_indices db d0 d1' K k) ts a = latest_of (filter (\<lambda>x. fst x \<le> ts) (sort_key fst vals)) ts a"
  proof (cases "vals = []")
    case True
    then show ?thesis by (simp add: load_price_indices_def vals_def latest_price_def latest_of_def)
  next
    case False
    then have "load_price_indices db d0 d1' K k = Some (price_series_of vals)"
      using assms(1) by (simp add: load_price_indices_def vals_def Let_def)
    then show ?thesis by (simp only: latest_price_upto)
  qed
  ultimately show ?thesis by simp
qed

definition funding_points_of :: "int \<Rightarrow> int \<times> string \<Rightarrow> int \<Rightarrow> funding_point list \<Rightarrow> (int \<times> real \<times> int option) list" where
  "funding_points_of d0 k ts db =
     sort_key fst (map (\<lambda>r. (py_trunc (to_float (fp_time r) 0), to_float (fp_rate r) 0 * 100, map_option py_trunc (fp_next r)))
       (sort_key (\<lambda>r. to_float (fp_time r) 0)
         (filter (\<lambda>r. (fp_exchange r, py_upper (fp_symbol r)) = k \<and> fp_symbol r = snd k
             \<and> day_start d0 - 3 * 86400 \<le> to_float (fp_time r) 0 \<and> py_trunc (to_float (fp_time r) 0) \<le> ts) db)))"

lemma funding_view_points:
  assumes "k \<in> perp_keys K" "upper_keys K" "d1 \<le> d1'" "ts < (d1 + 1) * 86400 - 1"
  shows "funding_snapshot (load_funding_indices db d0 d1' K k) ts
    = view_of (funding_points_of d0 k ts (filter (\<lambda>r. recorded_until d1 (fp_time r)) db)) ts"
proof -
  let ?P = "perp_keys K"
  have up: "py_upper (snd x) = snd x" if "x \<in> ?P" for x
    using that assms(2) by (auto simp: perp_keys_def upper_keys_def)
  have sym: "fp_symbol r \<in> snd ` ?P \<longleftrightarrow> fp_symbol r = snd k" and ex: "fp_exchange r \<in> fst ` ?P"
    if "(fp_exchange r, py_upper (fp_symbol r)) = k" for r
    using that assms(1) up by (force simp: image_iff)+
  have per: "in_period (day_start d0 - 3 * 86400) d1' (fp_time r)
      \<longleftrightarrow> recorded_until d1 (fp_time r) \<and> day_start d0 - 3 * 86400 \<le> to_float (fp_time r) 0"
    if "py_trunc (to_float (fp_time r) 0) \<le> ts" for r
    using recorded_before[OF that assms(4)] recorded_before[OF that, of d1'] assms(3,4)
    by (auto simp: in_period_def recorded_until_def)
  have rows: "(fp_exchange r \<in> fst ` ?P \<and> fp_symbol r \<in> snd ` ?P \<and> in_period (day_start d0 - 3 * 86400) d1' (fp_time r))
        \<and> (fp_exchange r, py_upper (fp_symbol r)) = k \<and> py_trunc (to_float (fp_time r) 0) \<le> ts
      \<longleftrightarrow> recorded_until d1 (fp_time r) \<and> (fp_exchange r, py_upper (fp_symbol r)) = k \<and> fp_symbol r = snd k
        \<and> day_start d0 - 3 * 86400 \<le> to_float (fp_time r) 0 \<and> py_trunc (to_float (fp_time r) 0) \<le> ts" for r
    using sym ex per by blast
  define vals where "vals = map (\<lambda>r. (py_trunc (to_float (fp_time r) 0), to_float (fp_rate r) 0 * 100, map_option py_trunc (fp_next r)))
            (filter (\<lambda>r. (fp_exchange r, py_upper (fp_symbol r)) = k) (funding_points db d0 d1' ?P))"
  have "filter (\<lambda>x. fst x \<le> ts) (sort_key fst vals) = funding_points_of d0 k ts (filter (\<lambda>r. recorded_until d1 (fp_time r)) db)"
    unfolding vals_def funding_points_def rows_upto rows by (simp add: funding_points_of_def conj_ac)
  moreover have "funding_snapshot (load_funding_indices db d0 d1' K k) ts = view_of (filter (\<lambda>x. fst x \<le> ts) (sort_key fst vals)) ts"
  proof (cases "vals = []")
    case True
    then show ?thesis by (simp add: load_funding_indices_def vals_def funding_snapshot_def view_of_def)
  next
    case False
    then have "load_funding_indices db d0 d1' K k = Some (funding_series_of vals)"
      using assms(1) by (simp add: load_funding_indices_def vals_def Let_def)
    then show ?thesis by (simp only: funding_snapshot_upto)
  qed
  ultimately show ?thesis by simp
qed

section \<open>The loaded data agree\<close>

lemma universe_of_day_alt:
  "d0 \<le> d \<Longrightarrow> d \<le> d1 \<Longrightarrow> universe_of_day db d0 d1' n d =
     take (nat (max 1 n)) (sort_desc universe_rank (map universe_upper
       (sort_key ur_date (sort_desc universe_rank (filter (\<lambda>r. ur_date r = d) (filter (\<lambda>r. ur_date r \<le> d1) db))))))"
  if "d1 \<le> d1'"
proof -
  assume d: "d0 \<le> d" "d \<le> d1"
  have "filter (\<lambda>r. ur_date r = d) (filter (\<lambda>r. d0 \<le> ur_date r \<and> ur_date r \<le> d1') db)
      = filter (\<lambda>r. ur_date r = d) (filter (\<lambda>r. ur_date r \<le> d1) db)"
    unfolding filter_filter using d that by (intro filter_cong) auto
  then show ?thesis by (simp only: universe_of_day_def sort_desc_def filter_sort)
qed

lemma universe_of_day_outside: "\<not> (d0 \<le> d \<and> d \<le> d1) \<Longrightarrow> universe_of_day db d0 d1 n d = []"
proof -
  assume "\<not> (d0 \<le> d \<and> d \<le> d1)"
  then have "filter (\<lambda>r. ur_date r = d) (filter (\<lambda>r. d0 \<le> ur_date r \<and> ur_date r \<le> d1) db) = []"
    by (auto simp: filter_empty_conv)
  then show ?thesis by (simp add: universe_of_day_def sort_desc_def filter_sort del: filter_filter)
qed

lemma universe_of_day_nonempty:
  assumes "u \<in> set (universe_of_day db d0 d1 n d)"
  obtains r where "r \<in> set db" "ur_date r = d" "d0 \<le> d" "d \<le> d1"
proof -
  have "set (universe_of_day db d0 d1 n d)
      \<subseteq> universe_upper ` {r \<in> set db. ur_date r = d \<and> d0 \<le> ur_date r \<and> ur_date r \<le> d1}"
    by (auto simp: universe_of_day_def dest!: in_set_takeD)
  then show ?thesis using assms that by blast
qed

lemma keys_of_universe:
  "x \<in> snd (load_daily_universe db d0 d1 n) \<longleftrightarrow> (\<exists>d u. u \<in> set (universe_of_day db d0 d1 n d) \<and> x \<in> universe_keys u)"
  by (auto simp: load_daily_universe_def Let_def elim: universe_of_day_nonempty) (metis imageI universe_of_day_nonempty)

lemma keys_upper: "upper_keys (snd (load_daily_universe db d0 d1 n))"
  unfolding upper_keys_def
proof
  fix k assume "k \<in> snd (load_daily_universe db d0 d1 n)"
  then obtain u where "k \<in> universe_keys u" unfolding keys_of_universe by blast
  then show "py_upper (fst (snd k)) = fst (snd k)" by (auto simp: universe_keys_def)
qed

lemma loaded_universe_agree:
  assumes "d1 \<le> d1'" "filter (\<lambda>r. ur_date r \<le> d1) db' = filter (\<lambda>r. ur_date r \<le> d1) db" "d \<le> d1"
  shows "universe_of_day db' d0 d1' n d = universe_of_day db d0 d1 n d"
proof (cases "d0 \<le> d")
  case True
  then show ?thesis
    using universe_of_day_alt[OF assms(1) True assms(3)] universe_of_day_alt[OF order_refl True assms(3)] assms(2) by metis
qed (simp add: universe_of_day_outside)

lemma loaded_keys_agree:
  assumes "d1 \<le> d1'" "filter (\<lambda>r. ur_date r \<le> d1) db' = filter (\<lambda>r. ur_date r \<le> d1) db"
  shows "snd (load_daily_universe db d0 d1 n) \<subseteq> snd (load_daily_universe db' d0 d1' n)"
proof
  fix x assume "x \<in> snd (load_daily_universe db d0 d1 n)"
  then obtain d u where u: "u \<in> set (universe_of_day db d0 d1 n d)" "x \<in> universe_keys u" unfolding keys_of_universe by blast
  then have "d \<le> d1" by (auto elim: universe_of_day_nonempty)
  then show "x \<in> snd (load_daily_universe db' d0 d1' n)"
    using u loaded_universe_agree[OF assms] unfolding keys_of_universe by metis
qed

lemma environments_agree:
  assumes "d1 \<le> d1'" "same_until d1 db db'" "ts < (d1 + 1) * 86400 - 1" "p' = p\<lparr>bq_end := e\<rparr>"
  shows "agree (snd (load_daily_universe (bd_universe db) d0 d1 (bq_top_n p))) ts
    (backtest_env db p details d0 d1) (backtest_env db' p' details d0 d1')"
proof -
  define K where "K = snd (load_daily_universe (bd_universe db) d0 d1 (bq_top_n p))"
  define K' where "K' = snd (load_daily_universe (bd_universe db') d0 d1' (bq_top_n p))"
  have u: "filter (\<lambda>r. ur_date r \<le> d1) (bd_universe db') = filter (\<lambda>r. ur_date r \<le> d1) (bd_universe db)"
    using assms(2) by (simp add: same_until_def)
  have env: "backtest_env db p details d0 d1 = \<lparr>be_params = p, be_details = details,
      be_universe = universe_of_day (bd_universe db) d0 d1 (bq_top_n p),
      be_price = load_price_indices (bd_snapshots db) d0 d1 K, be_funding = load_funding_indices (bd_funding db) d0 d1 K,
      be_exchange = (\<lambda>i. if i \<in> fst ` K then first_where (\<lambda>r. ex_id r = i) (bd_exchanges db) else None)\<rparr>"
    "backtest_env db' p' details d0 d1' = \<lparr>be_params = p', be_details = details,
      be_universe = universe_of_day (bd_universe db') d0 d1' (bq_top_n p),
      be_price = load_price_indices (bd_snapshots db') d0 d1' K', be_funding = load_funding_indices (bd_funding db') d0 d1' K',
      be_exchange = (\<lambda>i. if i \<in> fst ` K' then first_where (\<lambda>r. ex_id r = i) (bd_exchanges db') else None)\<rparr>"
    by (simp_all add: backtest_env_def K_def K'_def load_daily_universe_def assms(4) Let_def)
  have sub: "K \<subseteq> K'" unfolding K_def K'_def by (rule loaded_keys_agree[OF assms(1) u])
  then have psub: "perp_keys K \<subseteq> perp_keys K'" by (auto simp: perp_keys_def)
  have up: "upper_keys K" "upper_keys K'" by (simp_all add: K_def K'_def keys_upper)
  have day: "d \<le> d1" if "d \<le> ts div 86400" for d
  proof -
    have "ts div 86400 < d1 + 1" using assms(3) by (simp add: div_less_iff_less_mult)
    then show ?thesis using that by linarith
  qed
  have prices: "latest_price (load_price_indices (bd_snapshots db') d0 d1' K' k) t a
      = latest_price (load_price_indices (bd_snapshots db) d0 d1 K k) t a" if "k \<in> K" "t \<le> ts" for k t a
    using latest_price_points[of k K' d1 d1' t "bd_snapshots db'" d0 a] latest_price_points[of k K d1 d1 t "bd_snapshots db" d0 a]
      that subsetD[OF sub that(1)] up assms by (simp add: same_until_def)
  have fundings: "funding_snapshot (load_funding_indices (bd_funding db') d0 d1' K' k) t
      = funding_snapshot (load_funding_indices (bd_funding db) d0 d1 K k) t" if "k \<in> perp_keys K" "t \<le> ts" for k t
    using funding_view_points[of k K' d1 d1' t "bd_funding db'" d0] funding_view_points[of k K d1 d1 t "bd_funding db" d0]
      that subsetD[OF psub that(1)] up assms by (simp add: same_until_def)
  have "universe_keys v \<subseteq> K" if "v \<in> set (universe_of_day (bd_universe db) d0 d1 (bq_top_n p) d)" for v d
    using that unfolding K_def keys_of_universe subset_iff by blast
  moreover have "fst ` K \<subseteq> fst ` K'" using sub by blast
  moreover have "bd_exchanges db' = bd_exchanges db" using assms(2) by (simp add: same_until_def)
  ultimately show ?thesis
    unfolding agree_def env K_def[symmetric] using prices fundings day loaded_universe_agree[OF assms(1) u] assms(4) by auto
qed

section \<open>No look-ahead\<close>

lemma buckets_prefix:
  assumes "d0 \<le> d1" "d1 \<le> d1'"
  obtains more where "iter_bucket_epochs d0 d1' = iter_bucket_epochs d0 d1 @ more"
proof -
  let ?a = "nat ((d1 + 1 - d0) * 96)" and ?b = "nat ((d1' + 1 - d0) * 96)"
  have "?a \<le> ?b" using assms by (intro nat_mono) simp
  then have "[0..<?b] = [0..<?a] @ [?a..<?b]" using upt_add_eq_append[of 0 ?a "?b - ?a"] by simp
  then show ?thesis using that by (simp add: iter_bucket_epochs_def)
qed

lemma buckets_before:
  assumes "t \<in> set (iter_bucket_epochs d0 d1)" "d0 \<le> d1" shows "t \<le> (d1 + 1) * 86400 - bucket_secs"
proof -
  obtain i where i: "t = d0 * 86400 + bucket_secs * int i" "i < nat ((d1 + 1 - d0) * 96)"
    using assms(1) unfolding iter_bucket_epochs_def by fastforce
  then have "int i + 1 \<le> (d1 + 1 - d0) * 96" using assms(2) by linarith
  then have "900 * (int i + 1) \<le> 900 * ((d1 + 1 - d0) * 96)" by simp
  then show ?thesis using i(1) by (simp add: bucket_secs_def algebra_simps)
qed

lemma run_curve_extends: "\<exists>more. bt_curve (run_buckets env bs st) = bt_curve st @ more"
proof (induction bs arbitrary: st)
  case (Cons t bs)
  then show ?case using bucket_step_curve[of env st t] by (metis append.assoc run_buckets_simps(2))
qed simp



end
