(* ===== verification/BacktestSearch.thy ===== *)
theory BacktestSearch
  imports BacktestCausal
begin

text \<open>
  The walk-forward parameter search (\<open>core/spot_basis_backtest_search\<close>): windows of training and
  test days, a grid of parameters cut down to a number of trials, backtests of every combination
  on the training days and of the best ones on the test days, and the ranking of the test results.
  The random sample of the standard library is a parameter \<open>sample\<close> of the seed, the population
  and the size. A backtest of a window cannot raise (\<open>window_run_returns\<close>). The progress call-back
  and the echo of the parameters in the result are left out.
\<close>

section \<open>Parameters\<close>

record search_params =
  sp_start :: "int option"
  sp_end :: "int option"
  sp_top_n :: int
  sp_initial_nav :: real
  sp_min_rate :: real
  sp_min_perp_volume :: real
  sp_min_spot_volume :: real
  sp_min_basis :: real
  sp_cross_exchange :: bool
  sp_hold_conf :: real
  sp_max_exchange_utilization :: real
  sp_max_symbol_utilization :: real
  sp_min_capacity :: real
  sp_switch_advantage :: real
  sp_dd_hard :: real
  sp_stale_buckets :: int
  sp_train_days :: int
  sp_test_days :: int
  sp_step_days :: int
  sp_train_top_k :: int
  sp_max_trials :: int
  sp_seed :: int
  sp_enter_scores :: "fopt list"
  sp_entry_confs :: "fopt list"
  sp_open_pairs :: "int option list"
  sp_utilizations :: "fopt list"
  sp_min_pairs :: "fopt list"
  sp_impacts :: "fopt list"
  sp_confirm_rounds :: "int option list"
  sp_relative_advs :: "fopt list"
  sp_absolute_advs :: "fopt list"

text \<open>\<open>n or d\<close> of a number that is never \<open>None\<close>.\<close>

definition nonzero_or :: "int \<Rightarrow> int \<Rightarrow> int" where
  "nonzero_or d n = (if n = 0 then d else n)"

section \<open>Windows\<close>

record window =
  wn_train_start :: int
  wn_train_end :: int
  wn_test_start :: int
  wn_test_end :: int

definition window_at :: "int \<Rightarrow> int \<Rightarrow> int \<Rightarrow> window" where
  "window_at t e cursor =
     (let train_end = cursor + (max 1 t - 1); test_start = train_end + 1 in
      \<lparr>wn_train_start = cursor, wn_train_end = train_end, wn_test_start = test_start,
       wn_test_end = test_start + (max 1 e - 1)\<rparr>)"

function date_windows :: "int \<Rightarrow> int \<Rightarrow> int \<Rightarrow> int \<Rightarrow> int \<Rightarrow> window list" where
  "date_windows cursor end_d t e s =
     (if wn_test_end (window_at t e cursor) > end_d then []
      else window_at t e cursor # date_windows (cursor + max 1 s) end_d t e s)"
  by pat_completeness auto
termination
  by (relation "measure (\<lambda>(cursor, end_d, t, e, s). nat (end_d + 1 - cursor))") (auto simp: window_at_def Let_def)

declare date_windows.simps [simp del]

section \<open>The grid\<close>

definition in_range :: "real option \<Rightarrow> real option \<Rightarrow> real \<Rightarrow> bool" where
  "in_range lo hi x \<longleftrightarrow> (case lo of None \<Rightarrow> True | Some l \<Rightarrow> \<not> x < l) \<and> (case hi of None \<Rightarrow> True | Some h \<Rightarrow> \<not> x > h)"

definition clean_list_float :: "fopt list \<Rightarrow> real list \<Rightarrow> real option \<Rightarrow> real option \<Rightarrow> real list" where
  "clean_list_float vals fallback lo hi =
     (let vs = (if vals = [] then map Some fallback else vals);
          out = filter (in_range lo hi) (map the (filter (\<lambda>v. v \<noteq> None) vs))
      in sort (remdups (map (\<lambda>x. py_round x 8) (if out = [] then fallback else out))))"

definition clean_list_int :: "int option list \<Rightarrow> int list \<Rightarrow> int \<Rightarrow> int \<Rightarrow> int list" where
  "clean_list_int vals fallback lo hi =
     (let vs = (if vals = [] then map Some fallback else vals);
          out = filter (\<lambda>x. \<not> x < lo \<and> \<not> x > hi) (map (\<lambda>v. case v of Some x \<Rightarrow> x | None \<Rightarrow> - 1) vs)
      in sort (remdups (if out = [] then fallback else out)))"

record combo =
  co_enter_score :: real
  co_entry_conf :: real
  co_open_pairs :: int
  co_utilization :: real
  co_min_pair :: real
  co_impact :: real
  co_confirm_rounds :: int
  co_relative_adv :: real
  co_absolute_adv :: real

definition full_grid :: "search_params \<Rightarrow> combo list" where
  "full_grid p =
     [\<lparr>co_enter_score = a, co_entry_conf = b, co_open_pairs = c, co_utilization = d, co_min_pair = e, co_impact = f,
       co_confirm_rounds = g, co_relative_adv = h, co_absolute_adv = k\<rparr>.
      a \<leftarrow> clean_list_float (sp_enter_scores p) [0, 5, 10, 15] (Some (- 200)) (Some 200),
      b \<leftarrow> clean_list_float (sp_entry_confs p) [50 / 100, 55 / 100, 60 / 100] (Some 0) (Some 1),
      c \<leftarrow> clean_list_int (sp_open_pairs p) [3, 5, 7] 1 30,
      d \<leftarrow> clean_list_float (sp_utilizations p) [50, 60, 70] (Some 1) (Some 95),
      e \<leftarrow> clean_list_float (sp_min_pairs p) [200, 300, 500] (Some 1) (Some (10 ^ 9)),
      f \<leftarrow> clean_list_float (sp_impacts p) [20 / 100, 30 / 100, 40 / 100] (Some (1 / 100)) (Some 100),
      g \<leftarrow> clean_list_int (sp_confirm_rounds p) [2, 3, 4] 1 30,
      h \<leftarrow> clean_list_float (sp_relative_advs p) [3, 5, 8] (Some 0) (Some 10000),
      k \<leftarrow> clean_list_float (sp_absolute_advs p) [3 / 10, 1 / 2, 1] (Some 0) (Some (10 ^ 9))]"

type_synonym sampler = "int \<Rightarrow> combo list \<Rightarrow> nat \<Rightarrow> combo list"

definition combo_id :: "nat \<Rightarrow> string" where
  "combo_id i = ''C'' @ pad_digits 3 (digits_of (i + 1))"

definition build_combo_space :: "sampler \<Rightarrow> search_params \<Rightarrow> (string \<times> combo) list" where
  "build_combo_space sample p =
     (let full = full_grid p;
          max_trials = max 1 (nonzero_or 1 (sp_max_trials p));
          picks = (if int (length full) \<le> max_trials then full
             else hd full # (if tl full = [] then [] else sample (nonzero_or 42 (sp_seed p)) (tl full) (nat (max_trials - 1))))
      in map (\<lambda>i. (combo_id i, picks ! i)) [0..<length picks])"

section \<open>One backtest\<close>

definition build_backtest_params :: "search_params \<Rightarrow> combo \<Rightarrow> int \<Rightarrow> int \<Rightarrow> backtest_params" where
  "build_backtest_params p c d0 d1 =
     \<lparr>bq_start = Some d0, bq_end = Some d1, bq_top_n = max 1 (nonzero_or 120 (sp_top_n p)),
      bq_initial_nav = max 100 (sp_initial_nav p), bq_min_rate = pos_part (sp_min_rate p),
      bq_min_perp_volume = pos_part (sp_min_perp_volume p), bq_min_spot_volume = pos_part (sp_min_spot_volume p),
      bq_min_basis = sp_min_basis p, bq_cross_exchange = sp_cross_exchange p, bq_enter_score = co_enter_score c,
      bq_entry_conf = co_entry_conf c, bq_hold_conf = sp_hold_conf p, bq_max_open_pairs = max 1 (co_open_pairs c),
      bq_utilization = max 1 (co_utilization c), bq_min_pair = max 1 (co_min_pair c),
      bq_max_exchange_utilization = max 1 (sp_max_exchange_utilization p),
      bq_max_symbol_utilization = max 1 (sp_max_symbol_utilization p), bq_min_capacity = pos_part (sp_min_capacity p),
      bq_max_impact = max (1 / 100) (co_impact c), bq_switch_advantage = pos_part (sp_switch_advantage p),
      bq_confirm_rounds = max 1 (co_confirm_rounds c), bq_relative_adv = pos_part (co_relative_adv c),
      bq_absolute_adv = pos_part (co_absolute_adv c), bq_dd_hard = sp_dd_hard p,
      bq_stale_buckets = max 0 (sp_stale_buckets p)\<rparr>"

record metrics =
  mt_return :: real
  mt_drawdown :: real
  mt_opened :: nat
  mt_closed :: nat
  mt_fee :: real
  mt_funding :: real
  mt_basis :: real
  mt_halted :: bool

definition summary_metrics :: "string + bt_result \<Rightarrow> metrics" where
  "summary_metrics r =
     (case r of
        Inr (Finished s curve events) \<Rightarrow>
          \<lparr>mt_return = bs_return_pct s, mt_drawdown = bs_max_drawdown s, mt_opened = bs_opened s, mt_closed = bs_closed s,
           mt_fee = bs_fees s, mt_funding = bs_funding s, mt_basis = bs_basis s, mt_halted = bs_halted s\<rparr>
      | _ \<Rightarrow> \<lparr>mt_return = 0, mt_drawdown = 0, mt_opened = 0, mt_closed = 0, mt_fee = 0, mt_funding = 0, mt_basis = 0,
           mt_halted = False\<rparr>)"

definition turns_of :: "metrics \<Rightarrow> real" where
  "turns_of m = real (mt_opened m + mt_closed m)"

definition train_objective :: "metrics \<Rightarrow> real" where
  "train_objective m =
     mt_return m + 30 / 100 * mt_drawdown m - 15 / 1000 * turns_of m - 1 / 1000 * mt_fee m
     - (if mt_halted m then 3 / 2 else 0)"

definition mean_list :: "real list \<Rightarrow> real" where
  "mean_list xs = (if xs = [] then 0 else sum_list xs / real (length xs))"

definition variance_list :: "real list \<Rightarrow> real" where
  "variance_list xs = sum_list (map (\<lambda>x. (x - mean_list xs)\<^sup>2) xs) / real (max 1 (length xs))"

definition positive_ratio :: "real list \<Rightarrow> real" where
  "positive_ratio xs = real (length (filter (\<lambda>x. x > 0) xs)) / real (length xs)"

definition stability_score :: "real list \<Rightarrow> real list \<Rightarrow> real list \<Rightarrow> nat \<Rightarrow> real" where
  "stability_score returns dds turns halts =
     (if returns = [] then - (10 ^ 9)
      else mean_list returns - 70 / 100 * sqrt (max (variance_list returns) 0) + 25 / 100 * mean_list dds
        + 4 * (positive_ratio returns - 1 / 2) - 2 / 100 * mean_list turns - 1 / 2 * real halts)"

section \<open>The search\<close>

definition window_metrics :: "bt_database \<Rightarrow> int \<Rightarrow> search_params \<Rightarrow> combo \<Rightarrow> int \<Rightarrow> int \<Rightarrow> metrics" where
  "window_metrics db today p c d0 d1 =
     summary_metrics (run_event_backtest db (build_backtest_params p c d0 d1) False today)"

record train_result =
  tn_id :: string
  tn_score :: real
  tn_metrics :: metrics

definition train_window :: "bt_database \<Rightarrow> int \<Rightarrow> search_params \<Rightarrow> (string \<times> combo) list \<Rightarrow> window \<Rightarrow> train_result list" where
  "train_window db today p combos w =
     map (\<lambda>c. let m = window_metrics db today p (snd c) (wn_train_start w) (wn_train_end w) in
            \<lparr>tn_id = fst c, tn_score = train_objective m, tn_metrics = m\<rparr>) combos"

definition top_k_of :: "search_params \<Rightarrow> nat \<Rightarrow> nat" where
  "top_k_of p n = nat (max 1 (min (int n) (nonzero_or 3 (sp_train_top_k p))))"

definition select_window :: "bt_database \<Rightarrow> int \<Rightarrow> search_params \<Rightarrow> (string \<times> combo) list \<Rightarrow> window \<Rightarrow> train_result list" where
  "select_window db today p combos w =
     take (top_k_of p (length combos)) (sort_desc tn_score (train_window db today p combos w))"

record test_record =
  te_window :: nat
  te_id :: string
  te_train_score :: real
  te_train :: metrics
  te_test :: metrics

definition test_one ::
    "bt_database \<Rightarrow> int \<Rightarrow> search_params \<Rightarrow> (string \<times> combo) list \<Rightarrow> nat \<Rightarrow> window \<Rightarrow> train_result \<Rightarrow> test_record" where
  "test_one db today p combos i w one =
     \<lparr>te_window = i + 1, te_id = tn_id one, te_train_score = tn_score one, te_train = tn_metrics one,
      te_test = window_metrics db today p (the (map_of combos (tn_id one))) (wn_test_start w) (wn_test_end w)\<rparr>"

definition test_window ::
    "bt_database \<Rightarrow> int \<Rightarrow> search_params \<Rightarrow> (string \<times> combo) list \<Rightarrow> nat \<times> window \<Rightarrow> test_record list" where
  "test_window db today p combos iw =
     (case iw of (i, w) \<Rightarrow> map (test_one db today p combos i w) (select_window db today p combos w))"

record window_report =
  wr_index :: nat
  wr_window :: window
  wr_selected :: "string list"
  wr_best :: "string option"
  wr_best_return :: real
  wr_best_drawdown :: real

definition report_window :: "nat \<times> window \<Rightarrow> test_record list \<Rightarrow> window_report" where
  "report_window iw tests =
     (case iw of (i, w) \<Rightarrow>
       let best = (case sort_desc (\<lambda>t. mt_return (te_test t)) tests of [] \<Rightarrow> None | t # _ \<Rightarrow> Some t) in
       \<lparr>wr_index = i + 1, wr_window = w, wr_selected = map te_id tests, wr_best = map_option te_id best,
        wr_best_return = to_float (map_option (\<lambda>t. mt_return (te_test t)) best) 0,
        wr_best_drawdown = to_float (map_option (\<lambda>t. mt_drawdown (te_test t)) best) 0\<rparr>)"

record board_entry =
  lb_id :: string
  lb_score :: real
  lb_windows :: nat
  lb_return :: real
  lb_std :: real
  lb_drawdown :: real
  lb_positive :: real
  lb_turnover :: real
  lb_halts :: nat
  lb_combo :: combo

definition board_entry_of :: "string \<times> combo \<Rightarrow> test_record list \<Rightarrow> board_entry" where
  "board_entry_of c recs =
     (let rets = map (\<lambda>r. mt_return (te_test r)) recs; dds = map (\<lambda>r. mt_drawdown (te_test r)) recs;
          turns = map (\<lambda>r. turns_of (te_test r)) recs; halts = length (filter (\<lambda>r. mt_halted (te_test r)) recs) in
      \<lparr>lb_id = fst c, lb_score = py_round (stability_score rets dds turns halts) 6, lb_windows = length recs,
       lb_return = py_round (mean_list rets) 6, lb_std = py_round (sqrt (max (variance_list rets) 0)) 6,
       lb_drawdown = py_round (mean_list dds) 6, lb_positive = py_round (positive_ratio rets) 6,
       lb_turnover = py_round (mean_list turns) 6, lb_halts = halts, lb_combo = snd c\<rparr>)"

definition leaderboard :: "(string \<times> combo) list \<Rightarrow> test_record list \<Rightarrow> board_entry list" where
  "leaderboard combos tests =
     sort_desc lb_score
       (map (\<lambda>c. board_entry_of c (filter (\<lambda>r. te_id r = fst c) tests))
         (filter (\<lambda>c. filter (\<lambda>r. te_id r = fst c) tests \<noteq> []) combos))"

record search_result =
  wf_start :: int
  wf_end :: int
  wf_windows :: "window_report list"
  wf_combos :: nat
  wf_top_k :: nat
  wf_recommended :: "board_entry option"
  wf_leaderboard :: "board_entry list"

definition run_walk_forward_search :: "sampler \<Rightarrow> bt_database \<Rightarrow> search_params \<Rightarrow> int \<Rightarrow> string + search_result" where
  "run_walk_forward_search sample db p today =
     (let end_d = (case sp_end p of Some d \<Rightarrow> d | None \<Rightarrow> today);
          start_d = (case sp_start p of Some d \<Rightarrow> d | None \<Rightarrow> end_d - 14) in
      if end_d < start_d then Inl ''end_date must be >= start_date''
      else
        let windows = date_windows start_d end_d (nonzero_or 7 (sp_train_days p)) (nonzero_or 3 (sp_test_days p))
              (nonzero_or 3 (sp_step_days p)) in
        if windows = [] then Inl ''no valid walk-forward windows; enlarge date range or reduce train/test days''
        else
          let combos = build_combo_space sample p in
          if combos = [] then Inl ''parameter combo space is empty''
          else
            let numbered = zip [0..<length windows] windows;
                tests = map (test_window db today p combos) numbered;
                board = leaderboard combos (concat tests)
            in Inr \<lparr>wf_start = start_d, wf_end = end_d, wf_windows = map2 report_window numbered tests,
                 wf_combos = length combos, wf_top_k = top_k_of p (length combos),
                 wf_recommended = (if board = [] then None else Some (hd board)), wf_leaderboard = board\<rparr>)"

end
