(* ===== verification/BacktestSearchLaws.thy ===== *)
theory BacktestSearchLaws
  imports BacktestSearch
begin

text \<open>
  What the walk-forward search promises: its windows test on days that follow the training days
  and stay inside the period, the choice of a window does not depend on anything recorded after its
  training days, and the ranking accounts for every test and recommends the best entry.
\<close>

section \<open>Windows\<close>

lemma date_windows_spec:
  "w \<in> set (date_windows c end_d t e s) \<Longrightarrow>
     c \<le> wn_train_start w \<and> wn_train_end w = wn_train_start w + max 1 t - 1 \<and> wn_test_start w = wn_train_end w + 1
     \<and> wn_test_end w = wn_test_start w + max 1 e - 1 \<and> wn_test_end w \<le> end_d"
proof (induction c end_d t e s rule: date_windows.induct)
  case (1 c end_d t e s)
  show ?case
  proof (cases "wn_test_end (window_at t e c) > end_d")
    case True
    then show ?thesis using "1.prems" by (simp add: date_windows.simps[of c])
  next
    case False
    then have "w = window_at t e c \<or> w \<in> set (date_windows (c + max 1 s) end_d t e s)"
      using "1.prems" by (simp add: date_windows.simps[of c])
    then show ?thesis
    proof
      assume "w = window_at t e c"
      then show ?thesis using False by (simp add: window_at_def Let_def)
    next
      assume "w \<in> set (date_windows (c + max 1 s) end_d t e s)"
      from "1.IH"[OF False this] show ?thesis using max.cobounded1[of 1 s] by linarith
    qed
  qed
qed

lemma date_windows_steps:
  "i < length (date_windows c end_d t e s) \<Longrightarrow> wn_train_start (date_windows c end_d t e s ! i) = c + int i * max 1 s"
proof (induction i arbitrary: c)
  case 0
  then have "\<not> wn_test_end (window_at t e c) > end_d" by (auto simp: date_windows.simps[of c] split: if_splits)
  then show ?case by (simp add: date_windows.simps[of c] window_at_def Let_def)
next
  case (Suc i)
  then have "\<not> wn_test_end (window_at t e c) > end_d" by (auto simp: date_windows.simps[of c] split: if_splits)
  then have d: "date_windows c end_d t e s = window_at t e c # date_windows (c + max 1 s) end_d t e s"
    by (simp add: date_windows.simps[of c])
  have "i < length (date_windows (c + max 1 s) end_d t e s)" using Suc.prems by (simp add: d)
  from Suc.IH[OF this] show ?case by (simp add: d algebra_simps)
qed

lemma window_run_returns:
  "d0 \<le> d1 \<Longrightarrow> \<exists>r. run_event_backtest db (build_backtest_params p c d0 d1) details today = Inr r"
  by (simp add: run_event_backtest_def build_backtest_params_def Let_def)

section \<open>No leakage\<close>

lemma same_until_sym: "same_until d db db' \<Longrightarrow> same_until d db' db"
  by (simp add: same_until_def)

lemma backtest_same_data:
  assumes "same_until d1 db db'" "bq_start p = Some d0" "bq_end p = Some d1"
  shows "run_event_backtest db' p details today' = run_event_backtest db p details today"
proof (cases "d1 < d0")
  case True
  then show ?thesis using assms by (simp add: run_event_backtest_def)
next
  case False
  define K where "K = snd (load_daily_universe (bd_universe db) d0 d1 (bq_top_n p))"
  have u: "filter (\<lambda>r. ur_date r \<le> d1) (bd_universe db') = filter (\<lambda>r. ur_date r \<le> d1) (bd_universe db)"
    using assms(1) by (simp add: same_until_def)
  have K: "snd (load_daily_universe (bd_universe db') d0 d1 (bq_top_n p)) = K"
    unfolding K_def by (intro equalityI loaded_keys_agree u u[symmetric] order_refl)
  define env where "env = backtest_env db p details d0 d1"
  define env' where "env' = backtest_env db' p details d0 d1"
  define bs where "bs = iter_bucket_epochs d0 d1"
  have ne: "bs \<noteq> []" using False by (simp add: bs_def iter_bucket_epochs_def)
  have "(d1 + 1) * 86400 - bucket_secs < (d1 + 1) * 86400 - 1" by (simp add: bucket_secs_def)
  moreover have "p = p\<lparr>bq_end := bq_end p\<rparr>" by simp
  ultimately have a: "agree K ((d1 + 1) * 86400 - bucket_secs) env env'"
    unfolding env_def env'_def K_def by (rule environments_agree[OF order_refl assms(1)])
  have "run_buckets env' bs (initial_state p) = run_buckets env bs (initial_state p)"
    by (rule run_buckets_agree[OF a]) (use buckets_before[of _ d0 d1] False in \<open>simp_all add: bs_def positions_in_def initial_state_def\<close>)
  moreover have "close_list env' = close_list env" by (rule agree_close(2)) (simp add: env_def env'_def)
  ultimately have "close_end env' bs n' (run_buckets env' bs (initial_state p)) = close_end env bs n (run_buckets env bs (initial_state p))" for n n'
    using ne by (simp add: close_end_def)
  from this[of "today' * 86400" "today * 86400"] show ?thesis
    unfolding run_event_backtest_def assms(2,3) option.case Let_def K K_def[symmetric] env_def[symmetric] env'_def[symmetric] bs_def[symmetric]
    by simp
qed

lemma select_same_data:
  assumes "same_until (wn_train_end w) db db'"
  shows "select_window db' today p combos w = select_window db today p combos w"
proof -
  have "run_event_backtest db' (build_backtest_params p c (wn_train_start w) (wn_train_end w)) False today
      = run_event_backtest db (build_backtest_params p c (wn_train_start w) (wn_train_end w)) False today" for c
    by (rule backtest_same_data[OF assms]) (simp_all add: build_backtest_params_def)
  then show ?thesis by (simp add: select_window_def train_window_def window_metrics_def)
qed

lemma search_cases:
  assumes "run_walk_forward_search sample db p today = Inr r"
  obtains windows combos tests where
    "windows = date_windows (wf_start r) (wf_end r) (nonzero_or 7 (sp_train_days p)) (nonzero_or 3 (sp_test_days p)) (nonzero_or 3 (sp_step_days p))"
    "wf_end r = (case sp_end p of Some d \<Rightarrow> d | None \<Rightarrow> today)"
    "wf_start r = (case sp_start p of Some d \<Rightarrow> d | None \<Rightarrow> wf_end r - 14)"
    "windows \<noteq> []" "combos = build_combo_space sample p" "combos \<noteq> []"
    "tests = map (test_window db today p combos) (zip [0..<length windows] windows)"
    "wf_windows r = map2 report_window (zip [0..<length windows] windows) tests"
    "wf_leaderboard r = leaderboard combos (concat tests)" "wf_top_k r = top_k_of p (length combos)"
    "wf_recommended r = (if wf_leaderboard r = [] then None else Some (hd (wf_leaderboard r)))"
proof -
  define e where "e = (case sp_end p of Some d \<Rightarrow> d | None \<Rightarrow> today)"
  define b where "b = (case sp_start p of Some d \<Rightarrow> d | None \<Rightarrow> e - 14)"
  define windows where "windows = date_windows b e (nonzero_or 7 (sp_train_days p)) (nonzero_or 3 (sp_test_days p)) (nonzero_or 3 (sp_step_days p))"
  define combos where "combos = build_combo_space sample p"
  define tests where "tests = map (test_window db today p combos) (zip [0..<length windows] windows)"
  have ne: "windows \<noteq> []" "combos \<noteq> []" and r: "r = \<lparr>wf_start = b, wf_end = e,
      wf_windows = map2 report_window (zip [0..<length windows] windows) tests, wf_combos = length combos,
      wf_top_k = top_k_of p (length combos),
      wf_recommended = (if leaderboard combos (concat tests) = [] then None else Some (hd (leaderboard combos (concat tests)))),
      wf_leaderboard = leaderboard combos (concat tests)\<rparr>"
    using assms unfolding run_walk_forward_search_def Let_def e_def[symmetric] b_def[symmetric] windows_def[symmetric]
      combos_def[symmetric] tests_def[symmetric] by (simp_all split: if_splits)
  have f: "wf_end r = e" "wf_start r = b" "wf_top_k r = top_k_of p (length combos)"
    "wf_windows r = map2 report_window (zip [0..<length windows] windows) tests"
    "wf_leaderboard r = leaderboard combos (concat tests)"
    "wf_recommended r = (if wf_leaderboard r = [] then None else Some (hd (wf_leaderboard r)))"
    by (simp_all add: r)
  show ?thesis
    by (rule that[OF _ _ _ ne(1) combos_def ne(2) tests_def f(4,5,3,6)]) (simp_all add: f(1,2) windows_def e_def b_def split: option.splits)
qed

lemma test_window_ids: "map te_id (test_window db today p combos iw) = map tn_id (select_window db today p combos (snd iw))"
  by (cases iw) (simp add: test_window_def test_one_def comp_def)

lemma report_fields:
  "wr_window (report_window iw tests) = snd iw" "wr_selected (report_window iw tests) = map te_id tests"
  by (cases iw; simp add: report_window_def Let_def)+


section \<open>The ranking\<close>

lemma combo_id_inj: "combo_id i = combo_id j \<Longrightarrow> i = j"
  by (metis append_Cons append_Nil combo_id_def list.inject pad_digits_value add_right_cancel)

lemma combos_distinct: "distinct (map fst (build_combo_space sample p))"
  by (auto simp: build_combo_space_def Let_def distinct_map comp_def intro!: inj_onI dest: combo_id_inj)

lemma map_tn_id: "map tn_id (train_window db today p combos w) = map fst combos"
  by (simp add: train_window_def comp_def Let_def)

lemma selected_facts:
  assumes "distinct (map fst combos)" "combos \<noteq> []"
  shows "distinct (map te_id (test_window db today p combos iw))"
    "te_id ` set (test_window db today p combos iw) \<subseteq> fst ` set combos"
    "length (test_window db today p combos iw) = top_k_of p (length combos)"
proof -
  let ?T = "train_window db today p combos (snd iw)"
  have l: "length ?T = length combos" by (simp add: train_window_def)
  have d: "distinct (map tn_id (sort_desc tn_score ?T))" using assms(1) by (simp add: distinct_map_sort_desc map_tn_id)
  then show "distinct (map te_id (test_window db today p combos iw))"
    unfolding test_window_ids select_window_def take_map[symmetric] by (rule distinct_take)
  have "set (map te_id (test_window db today p combos iw)) \<subseteq> set (map tn_id ?T)"
    unfolding test_window_ids select_window_def take_map[symmetric]
    using set_take_subset[of _ "map tn_id (sort_desc tn_score ?T)"] by simp
  then show "te_id ` set (test_window db today p combos iw) \<subseteq> fst ` set combos" by (simp add: map_tn_id)
  have "1 \<le> length combos" using assms(2) by (cases combos) simp_all
  then have "top_k_of p (length combos) \<le> length combos" by (simp add: top_k_of_def nat_le_iff)
  then have "length (map te_id (test_window db today p combos iw)) = top_k_of p (length combos)"
    unfolding test_window_ids by (simp add: select_window_def l)
  then show "length (test_window db today p combos iw) = top_k_of p (length combos)" by simp
qed

lemma sum_single:
  "distinct (map fst cs) \<Longrightarrow> sum_list (map (\<lambda>c. if k = fst c then 1 else 0 :: nat) cs) = (if k \<in> fst ` set cs then 1 else 0)"
  by (induction cs) auto

lemma count_by_id:
  assumes "distinct (map fst combos)" "f ` set xs \<subseteq> fst ` set combos"
  shows "sum_list (map (\<lambda>c. length (filter (\<lambda>r. f r = fst c) xs)) combos) = length xs"
  using assms(2)
proof (induction xs)
  case (Cons x xs)
  have "sum_list (map (\<lambda>c. if f x = fst c then 1 else 0 :: nat) combos) = 1"
    using assms(1) Cons.prems by (simp add: sum_single)
  moreover have "sum_list (map (\<lambda>c. length (filter (\<lambda>r. f r = fst c) (x # xs))) combos)
      = sum_list (map (\<lambda>c. if f x = fst c then 1 else 0 :: nat) combos)
        + sum_list (map (\<lambda>c. length (filter (\<lambda>r. f r = fst c) xs)) combos)"
    by (induction combos) auto
  ultimately show ?case using Cons by simp
qed simp

lemma sum_list_drop_zero: "sum_list (map g (filter (\<lambda>c. h c \<noteq> []) cs)) = sum_list (map g cs)"
  if "\<And>c. h c = [] \<Longrightarrow> g c = (0 :: nat)"
  by (induction cs) (auto simp: that)

lemma length_filter_distinct: "distinct (map f xs) \<Longrightarrow> length (filter (\<lambda>x. f x = k) xs) \<le> 1"
proof (induction xs)
  case (Cons x xs)
  have "\<forall>y \<in> set xs. f y \<noteq> k" if "f x = k" using Cons.prems that by (metis distinct.simps(2) image_eqI list.set_map list.simps(9))
  then have "filter (\<lambda>y. f y = k) xs = []" if "f x = k" using that by (simp add: filter_empty_conv)
  then show ?case using Cons by auto
qed simp

lemma count_in_tests:
  assumes "\<And>t. t \<in> set tests \<Longrightarrow> distinct (map f t)"
  shows "length (filter (\<lambda>x. f x = k) (concat tests)) \<le> length tests"
  using assms
proof (induction tests)
  case (Cons t tests)
  have "length (filter (\<lambda>x. f x = k) t) \<le> 1" by (rule length_filter_distinct, rule Cons.prems) simp
  then show ?case using Cons by simp
qed simp

lemma sum_list_sort_desc_nat: "sum_list (map f (sort_desc k xs)) = sum_list (map (f :: 'a \<Rightarrow> nat) xs)"
  by (metis mset_map mset_sort_desc sum_mset_sum_list)

text \<open>
  The recommendation of the search is the best of its ranking, and the ranking accounts for every
  test: each combination appears at most once, was tested in as many windows as its entry says (at
  least one and at most all), and the entries add up to all tests, the selected ones of every window.
\<close>

theorem walk_forward_ranks_all_tests:
  assumes "run_walk_forward_search sample db p today = Inr r"
  shows "\<exists>best. wf_recommended r = Some best \<and> best \<in> set (wf_leaderboard r)
    \<and> list_all (\<lambda>x. lb_score x \<le> lb_score best \<and> 1 \<le> lb_windows x \<and> lb_windows x \<le> length (wf_windows r)) (wf_leaderboard r)
    \<and> distinct (map lb_id (wf_leaderboard r))
    \<and> sum_list (map lb_windows (wf_leaderboard r)) = length (wf_windows r) * wf_top_k r"
proof -
  obtain windows combos tests where r: "windows \<noteq> []" "combos = build_combo_space sample p" "combos \<noteq> []"
    "tests = map (test_window db today p combos) (zip [0..<length windows] windows)"
    "wf_windows r = map2 report_window (zip [0..<length windows] windows) tests"
    "wf_leaderboard r = leaderboard combos (concat tests)" "wf_top_k r = top_k_of p (length combos)"
    "wf_recommended r = (if wf_leaderboard r = [] then None else Some (hd (wf_leaderboard r)))"
    by (rule search_cases[OF assms]) blast
  let ?all = "concat tests" and ?of = "\<lambda>c. filter (\<lambda>t. te_id t = fst c) (concat tests)"
  let ?tested = "filter (\<lambda>c. ?of c \<noteq> []) combos"
  have dist: "distinct (map fst combos)" using combos_distinct r(2) by simp
  note sel = selected_facts[OF dist r(3), of db today p]
  have ids: "te_id ` set ?all \<subseteq> fst ` set combos" using sel(2) by (fastforce simp: r(4))
  have board: "wf_leaderboard r = sort_desc lb_score (map (\<lambda>c. board_entry_of c (?of c)) ?tested)"
    by (simp add: r(6) leaderboard_def)
  have win: "lb_windows (board_entry_of c (?of c)) = length (?of c)" "lb_id (board_entry_of c (?of c)) = fst c" for c
    by (simp_all add: board_entry_of_def Let_def)
  have lw: "length (wf_windows r) = length windows" "length tests = length windows" by (simp_all add: r(4,5))
  have "sum_list (map lb_windows (wf_leaderboard r)) = sum_list (map (\<lambda>c. length (?of c)) ?tested)"
    unfolding board sum_list_sort_desc_nat by (simp add: win comp_def)
  also have "\<dots> = sum_list (map (\<lambda>c. length (?of c)) combos)" by (rule sum_list_drop_zero) simp
  also have "\<dots> = length ?all" by (rule count_by_id[OF dist ids])
  also have "\<dots> = length windows * top_k_of p (length combos)"
    by (simp add: r(4) length_concat comp_def sel(3) sum_list_triv)
  finally have total: "sum_list (map lb_windows (wf_leaderboard r)) = length (wf_windows r) * wf_top_k r"
    by (simp add: lw r(7))
  have "length ?all > 0"
    using r(1,3) by (simp add: r(4) length_concat comp_def sel(3) sum_list_triv top_k_of_def)
  then have ne: "wf_leaderboard r \<noteq> []" using total lw(1) r(1,7) by (auto simp: top_k_of_def)
  have entries: "1 \<le> lb_windows x \<and> lb_windows x \<le> length windows" if entry: "x \<in> set (wf_leaderboard r)" for x
  proof -
    obtain c where c: "x = board_entry_of c (?of c)" "?of c \<noteq> []"
      using entry unfolding board set_sort_desc set_map set_filter by blast
    have "length (?of c) \<le> length tests" by (rule count_in_tests) (auto simp: r(4) sel(1))
    then show ?thesis using c(2) lw(2) unfolding c(1) win by (cases "?of c") simp_all
  qed
  have best: "lb_score x \<le> lb_score (hd (wf_leaderboard r))" if "x \<in> set (wf_leaderboard r)" for x
  proof -
    obtain y ys where y: "wf_leaderboard r = y # ys" using ne by (cases "wf_leaderboard r") auto
    have "sorted (map (\<lambda>x. - lb_score x) (wf_leaderboard r))" unfolding board by (rule sort_desc_sorted)
    then show ?thesis using that y by auto
  qed
  have "distinct (map lb_id (wf_leaderboard r))"
    unfolding board by (simp add: distinct_map_sort_desc comp_def win distinct_map_filter[OF dist])
  then show ?thesis
    using ne best entries total by (intro exI[of _ "hd (wf_leaderboard r)"]) (simp add: r(8) list_all_iff lw(1))
qed

section \<open>A search over two days\<close>

definition sample_search :: search_params where
  "sample_search =
     \<lparr>sp_start = Some 0, sp_end = Some 1, sp_top_n = 120, sp_initial_nav = 10000, sp_min_rate = 1 / 100, sp_min_perp_volume = 0,
      sp_min_spot_volume = 0, sp_min_basis = 0, sp_cross_exchange = False, sp_hold_conf = 45 / 100,
      sp_max_exchange_utilization = 35, sp_max_symbol_utilization = 10, sp_min_capacity = 12, sp_switch_advantage = 5,
      sp_dd_hard = - 4, sp_stale_buckets = 3, sp_train_days = 1, sp_test_days = 1, sp_step_days = 1, sp_train_top_k = 1,
      sp_max_trials = 1, sp_seed = 42, sp_enter_scores = [Some 0], sp_entry_confs = [Some 0], sp_open_pairs = [Some 1],
      sp_utilizations = [Some 50], sp_min_pairs = [Some 100], sp_impacts = [Some 1], sp_confirm_rounds = [Some 1],
      sp_relative_advs = [Some 0], sp_absolute_advs = [Some 0]\<rparr>"

definition first_of :: sampler where
  "first_of seed xs n = take n xs"

lemma sample_windows: "date_windows 0 1 1 1 1 = [window_at 1 1 0]"
  by (simp add: date_windows.simps window_at_def Let_def)

lemma clean_lists_nonempty: "clean_list_float vals (x # xs) lo hi \<noteq> []" "clean_list_int ints (k # ks) l h \<noteq> []"
  by (simp_all add: clean_list_float_def clean_list_int_def Let_def flip: set_empty)

lemma grid_nonempty: "full_grid p \<noteq> []"
  by (simp add: full_grid_def clean_lists_nonempty concat_eq_Nil_conv flip: set_empty) (simp add: clean_lists_nonempty ex_in_conv)

lemma sample_search_runs: "\<exists>r. run_walk_forward_search first_of db sample_search 0 = Inr r \<and> length (wf_windows r) = 1
     \<and> wr_window (wf_windows r ! 0) = window_at 1 1 0"
proof -
  have "build_combo_space first_of sample_search \<noteq> []"
    using grid_nonempty[of sample_search] by (simp add: build_combo_space_def Let_def)
  then show ?thesis
    by (simp add: run_walk_forward_search_def sample_search_def nonzero_or_def sample_windows report_fields Let_def)
qed

text \<open>The same database after the test day has been recorded.\<close>

definition later_database :: bt_database where
  "later_database = sample_bt_database\<lparr>bd_universe := [sample_universe_row, sample_universe_row\<lparr>ur_date := 1\<rparr>]\<rparr>"


theorem walk_forward_ranks_all_tests_witness:
  "\<exists>r best. run_walk_forward_search first_of sample_bt_database sample_search 0 = Inr r \<and> wf_recommended r = Some best
     \<and> lb_windows best = 1"
proof -
  obtain r where r: "run_walk_forward_search first_of sample_bt_database sample_search 0 = Inr r" "length (wf_windows r) = 1"
    using sample_search_runs by blast
  from walk_forward_ranks_all_tests[OF r(1)] obtain best where "wf_recommended r = Some best" "best \<in> set (wf_leaderboard r)"
    "list_all (\<lambda>x. lb_score x \<le> lb_score best \<and> 1 \<le> lb_windows x \<and> lb_windows x \<le> length (wf_windows r)) (wf_leaderboard r)"
    by blast
  then show ?thesis using r by (auto simp: list_all_iff)
qed

end
