(* ===== verification/Collector.thy ===== *)
theory Collector
  imports Candidates Machines
begin

text \<open>
  The market-data caches of the process (\<open>core/data_collector\<close>) and their feed from the market-data
  service (\<open>infra/market/read_provider.py\<close>): the active exchanges, the funding, volume and price
  syncs, the flat list of rates, the price update of the open positions, and the counters of the
  reads. A cache is a dictionary of dictionaries, an association list of association lists. The
  answer of the service is \<open>None\<close> when the read raises. Left out: the symbol cache of the client registry, and the two functions that nothing
  calls (\<open>_collect_one_exchange\<close>, \<open>_fetch_one_position_price\<close>).
\<close>

section \<open>Caches\<close>

text \<open>A value of \<open>funding_rate_cache\<close>.\<close>

record cached_rate =
  rt_rate :: real
  rt_next :: fopt
  rt_mark_price :: real
  rt_exchange :: int
  rt_name :: string
  rt_interval :: fopt

type_synonym 'a by_exchange = "(int \<times> (string \<times> 'a) list) list"

record market_caches =
  mc_funding :: "cached_rate by_exchange"
  mc_volume :: "real by_exchange"
  mc_fast :: "real by_exchange"
  mc_spot_fast :: "real by_exchange"
  mc_spot_volume :: "real by_exchange"
  mc_exchanges :: "(int \<times> exchange_meta) list"

definition initial_caches :: market_caches where
  "initial_caches = \<lparr>mc_funding = [], mc_volume = [], mc_fast = [], mc_spot_fast = [], mc_spot_volume = [], mc_exchanges = []\<rparr>"

text \<open>\<open>cache.get(exchange_id, {}).get(symbol)\<close> and \<open>cache.setdefault(exchange_id, {})[symbol] = v\<close>.\<close>

definition cached :: "'a by_exchange \<Rightarrow> int \<Rightarrow> string \<Rightarrow> 'a option" where
  "cached m i s = (case map_of m i of None \<Rightarrow> None | Some inner \<Rightarrow> map_of inner s)"

definition put_cached :: "int \<Rightarrow> string \<Rightarrow> 'a \<Rightarrow> 'a by_exchange \<Rightarrow> 'a by_exchange" where
  "put_cached i s v m = AList.update i (AList.update s v (case map_of m i of None \<Rightarrow> [] | Some inner \<Rightarrow> inner)) m"

text \<open>
  \<open>_load_active_exchange_context\<close>, for the rows of the active exchanges: the map of names, and the
  caches without the exchanges that are no longer active.
\<close>

definition exchange_key :: "string \<Rightarrow> string" where
  "exchange_key name = py_strip (py_lower name)"

definition name_map :: "exchange_row list \<Rightarrow> (string \<times> int \<times> string) list" where
  "name_map exs =
     foldl (\<lambda>m e. AList.update (exchange_key (ex_name e))
         (ex_id e, py_strip (case py_or_str (ex_display_name e) (Some (ex_name e)) of Some n \<Rightarrow> n | None \<Rightarrow> [])) m)
       [] (filter (\<lambda>e. ex_id e \<noteq> 0 \<and> ex_name e \<noteq> []) exs)"

definition load_active_exchange_context :: "exchange_row list \<Rightarrow> market_caches \<Rightarrow> market_caches" where
  "load_active_exchange_context exs c =
     (let stale = filter (\<lambda>i. i \<notin> ex_id ` set exs) (map fst (mc_funding c)) in
      c\<lparr>mc_exchanges := foldl (\<lambda>m e. AList.update (ex_id e) \<lparr>em_name = Some (ex_name e), em_display = ex_display_name e\<rparr> m) [] exs,
        mc_funding := filter (\<lambda>x. fst x \<notin> set stale) (mc_funding c),
        mc_volume := filter (\<lambda>x. fst x \<notin> set stale) (mc_volume c),
        mc_spot_volume := filter (\<lambda>x. fst x \<notin> set stale) (mc_spot_volume c),
        mc_fast := filter (\<lambda>x. fst x \<notin> set stale) (mc_fast c),
        mc_spot_fast := filter (\<lambda>x. fst x \<notin> set stale) (mc_spot_fast c)\<rparr>)"

section \<open>Rows of the service\<close>

text \<open>
  A row of an answer. The two keys of the next settlement are \<open>None\<close> when absent and \<open>Some None\<close> when
  they hold no number; \<open>mr_next_text\<close> is the time that the ISO text denotes, if it denotes one.
\<close>

record market_row_in =
  mr_exchange :: "string option"
  mr_symbol :: "string option"
  mr_market :: "string option"
  mr_funding_rate :: fopt
  mr_next_ms :: "fopt option"
  mr_next_alt :: "fopt option"
  mr_next_text :: fopt
  mr_volume :: fopt
  mr_mid :: fopt
  mr_bid :: fopt
  mr_ask :: fopt

definition parse_next_funding_time :: "market_row_in \<Rightarrow> fopt" where
  "parse_next_funding_time r =
     (let val = (case mr_next_ms r of Some v \<Rightarrow> Some v | None \<Rightarrow> mr_next_alt r);
          ms = (case val of Some (Some x) \<Rightarrow> py_trunc x | _ \<Rightarrow> 0)
      in if ms > 0 then Some (of_int ms / 1000) else mr_next_text r)"

text \<open>The exchange and the symbol of a row, when the row can be used.\<close>

definition row_target :: "(string \<times> 'x) list \<Rightarrow> market_row_in \<Rightarrow> ('x \<times> string) option" where
  "row_target names r =
     (case map_of names (exchange_key (str_or_empty (mr_exchange r))) of
        None \<Rightarrow> None
      | Some x \<Rightarrow> (let symbol = py_strip (str_or_empty (mr_symbol r)) in if symbol = [] then None else Some (x, symbol)))"

section \<open>The syncs\<close>

definition funding_entry :: "market_caches \<Rightarrow> int \<Rightarrow> string \<Rightarrow> string \<Rightarrow> real \<Rightarrow> market_row_in \<Rightarrow> cached_rate" where
  "funding_entry c i display symbol rate r =
     \<lparr>rt_rate = rate, rt_next = parse_next_funding_time r, rt_mark_price = to_float (cached (mc_fast c) i symbol) 0,
      rt_exchange = i, rt_name = display, rt_interval = None\<rparr>"

definition funding_step ::
    "market_caches \<Rightarrow> (string \<times> int \<times> string) list \<Rightarrow> real \<Rightarrow> cached_rate by_exchange \<times> funding_row list \<Rightarrow> market_row_in
      \<Rightarrow> cached_rate by_exchange \<times> funding_row list" where
  "funding_step c names now x r =
     (case x of (next_cache, rows) \<Rightarrow>
       case (row_target names r, mr_funding_rate r) of
         (Some ((i, display), symbol), Some rate) \<Rightarrow>
           (put_cached i symbol (funding_entry c i display symbol rate r) next_cache,
            rows @ [\<lparr>fr_exchange = Some i, fr_symbol = Some symbol, fr_rate = Some rate, fr_time = Some now\<rparr>])
       | _ \<Rightarrow> (next_cache, rows))"

definition cache_size :: "'a by_exchange \<Rightarrow> nat" where
  "cache_size m = sum_list (map (\<lambda>x. length (snd x)) m)"

definition empty_inner :: "exchange_row list \<Rightarrow> 'a by_exchange" where
  "empty_inner exs = foldl (\<lambda>m e. AList.update (ex_id e) [] m) [] exs"

text \<open>
  The commit of the new funding rows may fail; the cache has been replaced by then. The result is
  the returned count, the caches and the rows of the database.
\<close>

definition sync_market_funding_cache ::
    "exchange_row list \<Rightarrow> market_row_in list option \<Rightarrow> bool \<Rightarrow> bool \<Rightarrow> real \<Rightarrow> market_caches \<times> funding_row list
      \<Rightarrow> nat \<times> market_caches \<times> funding_row list" where
  "sync_market_funding_cache exs answer persist_db commit_ok now x =
     (case x of (c, db) \<Rightarrow>
       let c1 = load_active_exchange_context exs c in
       if exs = [] then (0, c1, db)
       else case answer of
         None \<Rightarrow> (0, c1, db)
       | Some rows \<Rightarrow>
           let (next_cache, added) = foldl (funding_step c1 (name_map exs) now) (empty_inner exs, []) rows;
               c2 = c1\<lparr>mc_funding := next_cache\<rparr>
           in if \<not> persist_db then (cache_size next_cache, c2, db)
              else if commit_ok then (cache_size next_cache, c2, db @ added)
              else (0, c2, db))"

definition volume_step ::
    "(string \<times> int \<times> string) list \<Rightarrow> real by_exchange \<times> real by_exchange \<Rightarrow> market_row_in
      \<Rightarrow> real by_exchange \<times> real by_exchange" where
  "volume_step names x r =
     (case x of (fut, spot) \<Rightarrow>
       case (row_target names r, mr_volume r) of
         (Some ((i, display), symbol), Some vol) \<Rightarrow>
           let market = py_strip (py_lower (str_or_empty (mr_market r))) in
           if market = ''futures'' \<or> market = ''swap'' then (put_cached i symbol vol fut, spot)
           else if market = ''spot'' then (fut, put_cached i symbol vol spot)
           else (fut, spot)
       | _ \<Rightarrow> (fut, spot))"

definition sync_market_volume_cache ::
    "exchange_row list \<Rightarrow> market_row_in list option \<Rightarrow> market_caches \<Rightarrow> nat \<times> market_caches" where
  "sync_market_volume_cache exs answer c =
     (let c1 = load_active_exchange_context exs c in
      if exs = [] then (0, c1)
      else case answer of
        None \<Rightarrow> (0, c1)
      | Some rows \<Rightarrow>
          let (fut, spot) = foldl (volume_step (name_map exs)) (empty_inner exs, empty_inner exs) rows
          in (cache_size fut + cache_size spot, c1\<lparr>mc_volume := fut, mc_spot_volume := spot\<rparr>))"

text \<open>\<open>sync_market_opportunity_inputs\<close>: the copy of the service's own opportunity rows, kept for diagnosis.\<close>

definition sync_market_opportunity_inputs :: "market_row_in list option \<Rightarrow> market_row_in list \<Rightarrow> nat \<times> market_row_in list" where
  "sync_market_opportunity_inputs answer cache = (case answer of None \<Rightarrow> (0, cache) | Some rows \<Rightarrow> (length rows, rows))"

definition normalize_market :: "string \<Rightarrow> string" where
  "normalize_market raw =
     (let m = py_lower (py_strip raw) in
      if m \<in> {''futures'', ''future'', ''swap''} then ''swap'' else m)"

definition extract_price :: "market_row_in \<Rightarrow> real" where
  "extract_price r =
     (let mid = to_float (mr_mid r) 0; bid = to_float (mr_bid r) 0; ask = to_float (mr_ask r) 0 in
      if mid > 0 then mid else if bid > 0 \<and> ask > 0 then (bid + ask) / 2 else if bid > 0 then bid else ask)"

definition price_step ::
    "(string \<times> int) list \<Rightarrow> (real by_exchange \<times> real by_exchange) \<times> nat \<Rightarrow> market_row_in
      \<Rightarrow> (real by_exchange \<times> real by_exchange) \<times> nat" where
  "price_step ids x r =
     (case x of ((fast, spot), used) \<Rightarrow>
       case row_target (filter (\<lambda>n. snd n \<noteq> 0) ids) r of
         None \<Rightarrow> ((fast, spot), used)
       | Some (i, symbol) \<Rightarrow>
           let market = normalize_market (str_or_empty (mr_market r)); price = extract_price r in
           if price \<le> 0 then ((fast, spot), used)
           else if market = ''spot'' then ((fast, put_cached i symbol price spot), used + 1)
           else if market = ''swap'' then ((put_cached i symbol price fast, spot), used + 1)
           else ((fast, spot), used))"

definition apply_rows_to_caches :: "market_row_in list \<Rightarrow> (string \<times> int) list \<Rightarrow> market_caches \<Rightarrow> nat \<times> market_caches" where
  "apply_rows_to_caches rows ids c =
     (case foldl (price_step ids) (([], []), 0) rows of
        ((fast, spot), used) \<Rightarrow> (used, c\<lparr>mc_fast := fast, mc_spot_fast := spot\<rparr>))"

text \<open>\<open>_load_exchange_id_map\<close>: cached for a minute unless it is empty.\<close>

record id_map_cache =
  im_map :: "(string \<times> int) list"
  im_ms :: int

definition load_exchange_id_map :: "int \<Rightarrow> exchange_row list \<Rightarrow> id_map_cache \<Rightarrow> (string \<times> int) list \<times> id_map_cache" where
  "load_exchange_id_map now_ms exs m =
     (if im_map m \<noteq> [] \<and> now_ms - im_ms m < 60000 then (im_map m, m)
      else
        let ids = foldl (\<lambda>a e. AList.update (exchange_key (ex_name e)) (ex_id e) a) []
              (filter (\<lambda>e. ex_name e \<noteq> [] \<and> ex_id e \<noteq> 0) exs)
        in (ids, \<lparr>im_map = ids, im_ms = now_ms\<rparr>))"

section \<open>The state of the reads\<close>

datatype read_kind = Latest | Funding_rows | Volume_rows | Opportunity_rows

record read_state =
  rs_last_pull :: int
  rs_errors :: nat
  rs_last_error :: string
  rs_last_rows :: nat

definition initial_read_state :: "read_kind \<Rightarrow> read_state" where
  "initial_read_state k = \<lparr>rs_last_pull = 0, rs_errors = 0, rs_last_error = [], rs_last_rows = 0\<rparr>"

definition record_success :: "read_kind \<Rightarrow> nat \<Rightarrow> int \<Rightarrow> (read_kind \<Rightarrow> read_state) \<Rightarrow> read_kind \<Rightarrow> read_state" where
  "record_success k n now_ms st = st(k := (st k)\<lparr>rs_last_pull := now_ms, rs_last_rows := n, rs_last_error := []\<rparr>)"

definition record_failure :: "read_kind \<Rightarrow> string \<Rightarrow> (read_kind \<Rightarrow> read_state) \<Rightarrow> read_kind \<Rightarrow> read_state" where
  "record_failure k e st = st(k := (st k)\<lparr>rs_errors := rs_errors (st k) + 1, rs_last_error := e\<rparr>)"

definition mark_market_read_error :: "string \<Rightarrow> (read_kind \<Rightarrow> read_state) \<Rightarrow> read_kind \<Rightarrow> read_state" where
  "mark_market_read_error e st = record_failure Latest e st"

text \<open>\<open>fetch_funding_rows\<close> and its siblings: the answer or the text of the exception is recorded.\<close>

definition fetch_rows ::
    "read_kind \<Rightarrow> string + market_row_in list \<Rightarrow> int \<Rightarrow> (read_kind \<Rightarrow> read_state)
      \<Rightarrow> market_row_in list option \<times> (read_kind \<Rightarrow> read_state)" where
  "fetch_rows k answer now_ms st =
     (case answer of
        Inr rows \<Rightarrow> (Some rows, record_success k (length rows) now_ms st)
      | Inl e \<Rightarrow> (None, record_failure k e st))"

definition staleness_sec :: "int \<Rightarrow> int \<Rightarrow> real option" where
  "staleness_sec now_ms last_ms = (if last_ms \<le> 0 then None else Some (py_round (pos_part (of_int (now_ms - last_ms) / 1000)) 3))"

text \<open>\<open>refresh_price_caches\<close>: a failing read keeps the caches.\<close>

definition refresh_price_caches ::
    "string + market_row_in list \<Rightarrow> int \<Rightarrow> exchange_row list \<Rightarrow> market_caches \<times> id_map_cache \<times> (read_kind \<Rightarrow> read_state)
      \<Rightarrow> nat option \<times> market_caches \<times> id_map_cache \<times> (read_kind \<Rightarrow> read_state)" where
  "refresh_price_caches answer now_ms exs x =
     (case x of (c, m, st) \<Rightarrow>
       case answer of
         Inl e \<Rightarrow> (None, c, m, record_failure Latest e st)
       | Inr rows \<Rightarrow>
           let (ids, m1) = load_exchange_id_map now_ms exs m; (used, c1) = apply_rows_to_caches rows ids c
           in (Some used, c1, m1, record_success Latest (length rows) now_ms st))"

text \<open>\<open>update_fast_prices\<close>: a failure is recorded a second time. The spread triggers that follow a good
  refresh are in \<open>SpreadArb\<close>.\<close>

definition update_fast_prices ::
    "string + market_row_in list \<Rightarrow> int \<Rightarrow> exchange_row list \<Rightarrow> market_caches \<times> id_map_cache \<times> (read_kind \<Rightarrow> read_state)
      \<Rightarrow> nat option \<times> market_caches \<times> id_map_cache \<times> (read_kind \<Rightarrow> read_state)" where
  "update_fast_prices answer now_ms exs x =
     (case refresh_price_caches answer now_ms exs x of
        (used, c, m, st) \<Rightarrow> (used, c, m, (case answer of Inl e \<Rightarrow> mark_market_read_error e st | Inr _ \<Rightarrow> st)))"

section \<open>Readers of the caches\<close>

record flat_rate =
  ft_exchange :: int
  ft_name :: string
  ft_symbol :: string
  ft_rate :: real
  ft_rate_pct :: real
  ft_next :: fopt
  ft_mark_price :: real
  ft_volume :: real
  ft_spot_volume :: real
  ft_interval :: fopt

definition flat_rate_of :: "market_caches \<Rightarrow> int \<Rightarrow> string \<Rightarrow> cached_rate \<Rightarrow> flat_rate" where
  "flat_rate_of c i symbol d =
     \<lparr>ft_exchange = i, ft_name = rt_name d, ft_symbol = symbol, ft_rate = rt_rate d, ft_rate_pct = py_round (rt_rate d * 100) 6,
      ft_next = rt_next d,
      ft_mark_price = (if rt_mark_price d = 0 then to_float (cached (mc_fast c) i symbol) 0 else rt_mark_price d),
      ft_volume = to_float (cached (mc_volume c) i symbol) 0,
      ft_spot_volume = to_float (cached (mc_spot_volume c) i (split_head (CHR '':'') symbol)) 0,
      ft_interval = rt_interval d\<rparr>"

definition get_latest_rates_flat :: "market_caches \<Rightarrow> flat_rate list" where
  "get_latest_rates_flat c = [flat_rate_of c i symbol d. (i, symbols) \<leftarrow> mc_funding c, (symbol, d) \<leftarrow> symbols]"

definition resolve_cached_price :: "market_caches \<Rightarrow> int \<Rightarrow> string \<Rightarrow> string \<Rightarrow> fopt \<Rightarrow> real option" where
  "resolve_cached_price c i symbol typ current =
     (if typ = ''spot'' then
        let p0 = to_float (cached (mc_spot_fast c) i symbol) 0;
            price = (if p0 \<le> 0 \<and> CHR '':'' \<in> set symbol
              then to_float (cached (mc_spot_fast c) i (split_head (CHR '':'') symbol)) 0 else p0)
        in if price > 0 then Some price else None
      else
        let p0 = to_float (cached (mc_fast c) i symbol) 0;
            price = (if p0 \<le> 0 \<and> CHR '':'' \<notin> set symbol
              then to_float (cached (mc_fast c) i (symbol @ '':USDT'')) 0 else p0)
        in if price \<le> 0 \<and> to_float current 0 > 0 then current else if price > 0 then Some price else None)"

text \<open>
  \<open>update_position_prices\<close>. The rows are read in one session and written in another; the position
  is looked up again by its id. The column \<open>unrealized_pnl_pct\<close> is not part of the modelled row. A failing commit
  leaves the table as it was.
\<close>

definition marked_position :: "real \<Rightarrow> position_row \<Rightarrow> position_row \<Rightarrow> position_row" where
  "marked_position price snap p =
     (let p1 = p\<lparr>ps_current_price := Some price\<rparr>; entry = to_float (ps_entry_price snap) 0; qty = to_float (ps_size snap) 0 in
      if entry > 0
      then p1\<lparr>ps_unrealized := Some (if ps_side snap = Some ''long'' then (price - entry) * qty else (entry - price) * qty)\<rparr>
      else p1)"

definition position_price :: "market_caches \<Rightarrow> position_row \<Rightarrow> real option" where
  "position_price c p =
     resolve_cached_price c (int_or_zero (ps_exchange_id p)) (str_or_empty (ps_symbol p)) (str_or_empty (ps_type p)) (ps_current_price p)"

definition update_position_prices :: "market_caches \<Rightarrow> bool \<Rightarrow> position_row list \<Rightarrow> position_row list" where
  "update_position_prices c commit_ok table =
     (let snaps = filter (\<lambda>p. ps_status p = Some ''open'') table in
      if \<not> commit_ok then table
      else foldl (\<lambda>t snap. case position_price c snap of
            None \<Rightarrow> t
          | Some price \<Rightarrow> map (\<lambda>p. if ps_id p = ps_id snap then marked_position price snap p else p) t) table snaps)"

text \<open>What the spot-basis scan reads of the caches.\<close>

definition cached_quote :: "cached_rate \<Rightarrow> funding_quote" where
  "cached_quote d = \<lparr>fq_rate = Some (rt_rate d), fq_mark_price = Some (rt_mark_price d), fq_interval_hours = rt_interval d, fq_next = rt_next d\<rparr>"

definition market_view :: "market_caches \<Rightarrow> (int \<Rightarrow> exchange_row option) \<Rightarrow> market_data" where
  "market_view c exchanges =
     \<lparr>md_funding = map (\<lambda>(i, m). (i, map (\<lambda>(s, d). (s, cached_quote d)) m)) (mc_funding c),
      md_perp_price = cached (mc_fast c), md_perp_volume = cached (mc_volume c),
      md_spot_price = map (\<lambda>(i, m). (i, map_of m)) (mc_spot_fast c), md_spot_volume = cached (mc_spot_volume c),
      md_meta = map_of (mc_exchanges c), md_exchanges = exchanges\<rparr>"

end
