(* ===== verification/CollectorLaws.thy ===== *)
theory CollectorLaws
  imports Collector
begin

text \<open>
  The syncs of \<open>Collector\<close> as a machine: the jobs of the scheduler in any order, with any answers of
  the market-data service, keep every cached rate under the exchange and the symbol it belongs to,
  each key once, and none of them ever carries a settlement interval.
\<close>

section \<open>The jobs\<close>

datatype collector_event =
    Funding_job "exchange_row list" "string + market_row_in list" bool bool real
  | Volume_job "exchange_row list" "string + market_row_in list" int
  | Price_job "string + market_row_in list" int "exchange_row list"

record collector_state =
  cs_caches :: market_caches
  cs_ids :: id_map_cache
  cs_reads :: "read_kind \<Rightarrow> read_state"
  cs_rates_db :: "funding_row list"

definition initial_collector :: collector_state where
  "initial_collector =
     \<lparr>cs_caches = initial_caches, cs_ids = \<lparr>im_map = [], im_ms = 0\<rparr>, cs_reads = initial_read_state, cs_rates_db = []\<rparr>"

text \<open>
  A read inside a sync: nothing is read when no exchange is active; a failure is recorded by the
  read and again by the sync.
\<close>

definition sync_read ::
    "read_kind \<Rightarrow> exchange_row list \<Rightarrow> string + market_row_in list \<Rightarrow> int \<Rightarrow> (read_kind \<Rightarrow> read_state)
      \<Rightarrow> market_row_in list option \<times> (read_kind \<Rightarrow> read_state)" where
  "sync_read k exs answer now_ms st =
     (if exs = [] then (None, st)
      else case fetch_rows k answer now_ms st of
        (Some rows, st1) \<Rightarrow> (Some rows, st1)
      | (None, st1) \<Rightarrow> (None, mark_market_read_error (case answer of Inl e \<Rightarrow> e | Inr _ \<Rightarrow> []) st1))"

definition collector_step :: "collector_state \<Rightarrow> collector_event \<Rightarrow> collector_state" where
  "collector_step s e =
     (case e of
        Funding_job exs answer persist ok now \<Rightarrow>
          let (rows, reads) = sync_read Funding_rows exs answer (py_trunc (now * 1000)) (cs_reads s);
              (n, c, db) = sync_market_funding_cache exs rows persist ok now (cs_caches s, cs_rates_db s)
          in s\<lparr>cs_caches := c, cs_rates_db := db, cs_reads := reads\<rparr>
      | Volume_job exs answer now_ms \<Rightarrow>
          let (rows, reads) = sync_read Volume_rows exs answer now_ms (cs_reads s)
          in s\<lparr>cs_caches := snd (sync_market_volume_cache exs rows (cs_caches s)), cs_reads := reads\<rparr>
      | Price_job answer now_ms exs \<Rightarrow>
          (case update_fast_prices answer now_ms exs (cs_caches s, cs_ids s, cs_reads s) of
             (used, c, ids, reads) \<Rightarrow> s\<lparr>cs_caches := c, cs_ids := ids, cs_reads := reads\<rparr>))"

section \<open>The invariant\<close>

definition own_rates :: "int \<times> (string \<times> cached_rate) list \<Rightarrow> bool" where
  "own_rates x = (distinct (map fst (snd x)) \<and> (\<forall>(s, d) \<in> set (snd x). rt_exchange d = fst x \<and> rt_interval d = None \<and> s \<noteq> []))"

definition funding_ok :: "cached_rate by_exchange \<Rightarrow> bool" where
  "funding_ok m = (distinct (map fst m) \<and> (\<forall>x \<in> set m. own_rates x))"

lemma funding_okD: "funding_ok m \<Longrightarrow> (i, inner) \<in> set m \<Longrightarrow> own_rates (i, inner)"
  by (auto simp: funding_ok_def)

lemma funding_ok_Nil [simp]: "funding_ok []"
  by (simp add: funding_ok_def)

lemma funding_ok_filter: "funding_ok m \<Longrightarrow> funding_ok (filter P m)"
  by (auto simp: funding_ok_def distinct_map_filter)

lemma set_update_keyed: "x \<in> set (AList.update k v m) \<Longrightarrow> x = (k, v) \<or> x \<in> set m"
  by (induction m) (auto split: if_splits)

lemma funding_ok_update: "funding_ok m \<Longrightarrow> own_rates (i, inner) \<Longrightarrow> funding_ok (AList.update i inner m)"
  unfolding funding_ok_def by (auto simp: distinct_update dest: set_update_keyed)

lemma own_rates_update:
  assumes "own_rates (i, inner)" and "rt_exchange d = i" and "rt_interval d = None" and "s \<noteq> []"
  shows "own_rates (i, AList.update s d inner)"
  unfolding own_rates_def
  using assms by (auto simp: own_rates_def distinct_update dest!: set_update_keyed)

lemma funding_ok_put:
  assumes "funding_ok m" and "rt_exchange d = i" and "rt_interval d = None" and "s \<noteq> []"
  shows "funding_ok (put_cached i s d m)"
proof -
  have "own_rates (i, case map_of m i of None \<Rightarrow> [] | Some inner \<Rightarrow> inner)"
    using funding_okD[OF assms(1) map_of_SomeD] by (cases "map_of m i") (auto simp: own_rates_def)
  then show ?thesis unfolding put_cached_def by (intro funding_ok_update assms(1) own_rates_update assms(2,3,4))
qed

lemma row_target_symbol: "row_target names r = Some (x, symbol) \<Longrightarrow> symbol \<noteq> []"
  by (auto simp: row_target_def Let_def split: option.splits if_splits)

lemma funding_step_ok: "funding_ok (fst x) \<Longrightarrow> funding_ok (fst (funding_step c names now x r))"
  by (auto simp: funding_step_def funding_entry_def split: prod.splits option.splits
      intro!: funding_ok_put dest: row_target_symbol)

lemma empty_inner_fold: "funding_ok m \<Longrightarrow> funding_ok (foldl (\<lambda>m e. AList.update (ex_id e) [] m) m exs)"
proof (induction exs arbitrary: m)
  case (Cons e exs)
  then show ?case using Cons.IH[OF funding_ok_update[OF Cons.prems, of "ex_id e" "[]"]] by (simp add: own_rates_def)
qed simp

lemma empty_inner_ok: "funding_ok (empty_inner exs)"
  unfolding empty_inner_def by (rule empty_inner_fold) simp

lemma load_context_ok: "funding_ok (mc_funding c) \<Longrightarrow> funding_ok (mc_funding (load_active_exchange_context exs c))"
  by (simp add: load_active_exchange_context_def Let_def funding_ok_filter)

lemma funding_sync_ok:
  assumes "funding_ok (mc_funding c)" and "sync_market_funding_cache exs answer persist ok now (c, db) = (n, c1, db1)"
  shows "funding_ok (mc_funding c1)"
proof -
  have f: "funding_ok (fst (foldl (funding_step c0 names now) (empty_inner exs, []) rows))" for c0 names rows
    by (rule foldl_invariant[where P = "\<lambda>x. funding_ok (fst x)"]) (simp_all add: empty_inner_ok funding_step_ok)
  show ?thesis
  proof (cases "exs = [] \<or> answer = None")
    case True
    then show ?thesis using assms load_context_ok[OF assms(1), of exs]
      by (auto simp: sync_market_funding_cache_def Let_def split: if_splits)
  next
    case False
    then obtain rows where a: "exs \<noteq> []" "answer = Some rows" by auto
    show ?thesis using assms(2) a f[of "load_active_exchange_context exs c" "name_map exs" rows]
      by (auto simp: sync_market_funding_cache_def Let_def split: prod.splits if_splits)
  qed
qed

lemma collector_step_ok: "funding_ok (mc_funding (cs_caches s)) \<Longrightarrow> funding_ok (mc_funding (cs_caches (collector_step s e)))"
proof (cases e)
  case (Funding_job exs answer persist ok now)
  assume *: "funding_ok (mc_funding (cs_caches s))"
  show ?thesis using funding_sync_ok[OF *] by (simp add: Funding_job collector_step_def split: prod.splits)
next
  case (Volume_job exs answer now_ms)
  assume *: "funding_ok (mc_funding (cs_caches s))"
  show ?thesis using load_context_ok[OF *, of exs]
    by (auto simp: Volume_job collector_step_def sync_market_volume_cache_def Let_def split: prod.splits option.splits)
next
  case (Price_job answer now_ms exs)
  assume *: "funding_ok (mc_funding (cs_caches s))"
  then show ?thesis
    by (auto simp: Price_job collector_step_def update_fast_prices_def refresh_price_caches_def apply_rows_to_caches_def split: prod.splits sum.splits)
qed

interpretation collector: machine initial_collector collector_step "\<lambda>s. funding_ok (mc_funding (cs_caches s))"
  by unfold_locales (auto simp: initial_collector_def initial_caches_def collector_step_ok)

section \<open>What the readers see\<close>

lemma flat_rates_no_interval:
  assumes "funding_ok (mc_funding c)" and "r \<in> set (get_latest_rates_flat c)"
  shows "ft_interval r = None" and "ft_symbol r \<noteq> []"
proof -
  obtain i inner where m: "(i, inner) \<in> set (mc_funding c)" and r: "r \<in> (\<lambda>(s, d). flat_rate_of c i s d) ` set inner"
    using assms(2) by (auto simp: get_latest_rates_flat_def)
  show "ft_interval r = None" and "ft_symbol r \<noteq> []"
    using r funding_okD[OF assms(1) m] by (auto simp: flat_rate_of_def own_rates_def)
qed

lemma flat_rates_distinct:
  assumes "funding_ok (mc_funding c)"
  shows "distinct (map (\<lambda>r. (ft_exchange r, ft_symbol r)) (get_latest_rates_flat c))"
proof -
  have inner: "distinct (map fst m) \<Longrightarrow> distinct (map (\<lambda>(s, d). (i, s)) m)" for i :: int and m :: "(string \<times> cached_rate) list"
    by (induction m) (force simp: image_iff)+
  have "funding_ok m \<Longrightarrow> distinct (concat (map (\<lambda>(i, symbols). map (\<lambda>(s, d). (i, s)) symbols) m))" for m
  proof (induction m)
    case (Cons x m)
    obtain i symbols where x: "x = (i, symbols)" by (cases x)
    have "funding_ok m" using Cons.prems by (simp add: funding_ok_def)
    moreover have "i \<notin> fst ` set m" using Cons.prems by (simp add: funding_ok_def x)
    moreover have "distinct (map fst symbols)" using Cons.prems by (simp add: funding_ok_def own_rates_def x)
    ultimately show ?case using Cons.IH inner[of symbols i] by (force simp: x)
  qed simp
  moreover have "map (\<lambda>r. (ft_exchange r, ft_symbol r)) (get_latest_rates_flat c)
      = concat (map (\<lambda>(i, symbols). map (\<lambda>(s, d). (i, s)) symbols) (mc_funding c))"
    by (simp add: get_latest_rates_flat_def flat_rate_of_def map_concat comp_def case_prod_unfold)
  ultimately show ?thesis using assms by simp
qed

section \<open>The price update of the positions\<close>

definition mark_row :: "market_caches \<Rightarrow> position_row \<Rightarrow> position_row \<Rightarrow> position_row" where
  "mark_row c snap p = (case position_price c snap of None \<Rightarrow> p | Some price \<Rightarrow> marked_position price snap p)"

lemma mark_row_id [simp]: "ps_id (mark_row c snap p) = ps_id p"
  by (simp add: mark_row_def marked_position_def Let_def split: option.split)

lemma mark_fold:
  "distinct (map ps_id snaps) \<Longrightarrow>
     foldl (\<lambda>t snap. case position_price c snap of
          None \<Rightarrow> t
        | Some price \<Rightarrow> map (\<lambda>p. if ps_id p = ps_id snap then marked_position price snap p else p) t) table snaps
     = map (\<lambda>p. case first_where (\<lambda>s. ps_id s = ps_id p) snaps of None \<Rightarrow> p | Some s \<Rightarrow> mark_row c s p) table"
proof (induction snaps arbitrary: table)
  case (Cons s snaps)
  have one: "(case position_price c s of
        None \<Rightarrow> table
      | Some price \<Rightarrow> map (\<lambda>p. if ps_id p = ps_id s then marked_position price s p else p) table)
      = map (\<lambda>p. if ps_id p = ps_id s then mark_row c s p else p) table"
    by (auto simp: mark_row_def map_idI split: option.split)
  have "ps_id s \<notin> ps_id ` set snaps" using Cons.prems by simp
  then have none: "first_where (\<lambda>q. ps_id q = ps_id s) snaps = None" unfolding first_where_None by (metis image_eqI)
  show ?case unfolding foldl_Cons one using Cons.prems none by (subst Cons.IH) (auto simp: comp_def)
qed simp

text \<open>The price update is exact: every open position with a price in the caches is marked with it
  (the profit of a long is \<open>(price - entry) * size\<close>, of any other side the negative of it, and left
  alone without a positive entry price); a position that is not open, or without a price, keeps every
  column, and nothing changes when the commit fails.\<close>

theorem position_prices_exact:
  assumes "distinct (map ps_id table)"
  shows "update_position_prices c commit_ok table =
    map (\<lambda>p. if commit_ok \<and> ps_status p = Some ''open''
        then (case position_price c p of None \<Rightarrow> p | Some price \<Rightarrow> marked_position price p p) else p) table"
proof (cases commit_ok)
  case True
  let ?snaps = "filter (\<lambda>p. ps_status p = Some ''open'') table"
  have found: "first_where (\<lambda>s. ps_id s = ps_id p) ?snaps = (if ps_status p = Some ''open'' then Some p else None)"
    if p: "p \<in> set table" for p
  proof -
    have same: "s = p" if "s \<in> set table" "ps_id s = ps_id p" for s
      using inj_onD[OF conjunct2[OF iffD1[OF distinct_map assms]] that(2,1) p] .
    show ?thesis
    proof (cases "first_where (\<lambda>s. ps_id s = ps_id p) ?snaps")
      case None
      then show ?thesis using p by (auto simp: first_where_None)
    next
      case (Some s)
      then have "s \<in> set table" "ps_id s = ps_id p" "ps_status s = Some ''open''" by (auto dest: first_where_Some)
      moreover then have "s = p" by (intro same)
      ultimately show ?thesis using Some by simp
    qed
  qed
  have "distinct (map ps_id ?snaps)" using assms by (rule distinct_map_filter)
  from mark_fold[OF this, of c table] show ?thesis
    using True by (simp add: update_position_prices_def found mark_row_def cong: map_cong)
qed (simp add: update_position_prices_def)

text \<open>A short swap of two coins opened at 10 and now at 9 has a profit of 2; a closed row is not touched.\<close>

definition sample_position :: "int \<Rightarrow> string \<Rightarrow> position_row" where
  "sample_position i status =
     \<lparr>ps_id = i, ps_strategy_id = Some 1, ps_exchange_id = Some 1, ps_symbol = Some ''X'', ps_side = Some ''short'',
      ps_type = Some ''swap'', ps_size = Some 2, ps_entry_price = Some 10, ps_current_price = Some 10, ps_unrealized = None,
      ps_status = Some status, ps_closed_at = None\<rparr>"

definition sample_prices :: market_caches where
  "sample_prices = initial_caches\<lparr>mc_fast := [(1, [(''X'', 9)])]\<rparr>"

theorem position_prices_exact_witness:
  "map ps_unrealized (update_position_prices sample_prices True [sample_position 1 ''open'', sample_position 2 ''closed'']) = [Some 2, None]"
  by (subst position_prices_exact)
    (simp_all add: sample_position_def sample_prices_def position_price_def resolve_cached_price_def cached_def Let_def
      marked_position_def)

end
