(* ===== verification/ArbitrageEngine.thy ===== *)
theory ArbitrageEngine
  imports CollectorLaws
begin

text \<open>
  The two opportunity lists of the dashboard (\<open>core/arbitrage_engine.py\<close>): pairs of perpetuals with
  different funding, and perpetuals with positive funding against the cheapest spot. Both read the
  caches of \<open>Collector\<close> and nothing else. Sorting by a pair of keys is written as two stable sorts.
\<close>

section \<open>Perpetual against perpetual\<close>

text \<open>\<open>by_symbol.setdefault(r["symbol"], []).append(r)\<close>.\<close>

fun append_rate :: "flat_rate \<Rightarrow> (string \<times> flat_rate list) list \<Rightarrow> (string \<times> flat_rate list) list" where
  "append_rate r [] = [(ft_symbol r, [r])]"
| "append_rate r ((s, rs) # m) = (if s = ft_symbol r then (s, rs @ [r]) # m else (s, rs) # append_rate r m)"

definition by_symbol :: "flat_rate list \<Rightarrow> (string \<times> flat_rate list) list" where
  "by_symbol rates = foldl (\<lambda>m r. append_rate r m) [] rates"

text \<open>Python's \<open>max\<close> and \<open>min\<close>: the first of several extreme entries.\<close>

fun highest :: "flat_rate \<Rightarrow> flat_rate list \<Rightarrow> flat_rate" where
  "highest e [] = e"
| "highest e (x # xs) = (if ft_rate_pct x > ft_rate_pct e then highest x xs else highest e xs)"

fun lowest :: "flat_rate \<Rightarrow> flat_rate list \<Rightarrow> flat_rate" where
  "lowest e [] = e"
| "lowest e (x # xs) = (if ft_rate_pct x < ft_rate_pct e then lowest x xs else lowest e xs)"

record pair_opportunity =
  op_symbol :: string
  op_long_id :: int
  op_long_name :: string
  op_long_rate :: real
  op_long_periods :: real
  op_long_next :: fopt
  op_long_price :: "real option"
  op_short_id :: int
  op_short_name :: string
  op_short_rate :: real
  op_short_periods :: real
  op_short_next :: fopt
  op_short_price :: "real option"
  op_price_diff :: "real option"
  op_rate_diff :: real
  op_net_daily :: real
  op_annualized :: real
  op_min_volume :: real
  op_next :: fopt

definition net_daily_pct :: "flat_rate \<Rightarrow> flat_rate \<Rightarrow> real" where
  "net_daily_pct short long =
     ft_rate_pct short * funding_periods_per_day (ft_interval short) - ft_rate_pct long * funding_periods_per_day (ft_interval long)"

definition price_diff_pct :: "real \<Rightarrow> real \<Rightarrow> real option" where
  "price_diff_pct long_price short_price =
     (if long_price > 0 \<and> short_price > 0
      then Some (py_round ((short_price - long_price) / ((long_price + short_price) / 2) * 100) 4) else None)"

definition shown_price :: "real \<Rightarrow> real option" where
  "shown_price p = (if p = 0 then None else Some (py_round p 4))"

definition pair_opportunity_of :: "string \<Rightarrow> flat_rate list \<Rightarrow> flat_rate \<Rightarrow> flat_rate \<Rightarrow> pair_opportunity" where
  "pair_opportunity_of symbol entries short long =
     \<lparr>op_symbol = symbol,
      op_long_id = ft_exchange long, op_long_name = ft_name long, op_long_rate = ft_rate_pct long,
      op_long_periods = funding_periods_per_day (ft_interval long), op_long_next = ft_next long,
      op_long_price = shown_price (ft_mark_price long),
      op_short_id = ft_exchange short, op_short_name = ft_name short, op_short_rate = ft_rate_pct short,
      op_short_periods = funding_periods_per_day (ft_interval short), op_short_next = ft_next short,
      op_short_price = shown_price (ft_mark_price short),
      op_price_diff = price_diff_pct (ft_mark_price long) (ft_mark_price short),
      op_rate_diff = py_round (ft_rate_pct short - ft_rate_pct long) 6,
      op_net_daily = py_round (net_daily_pct short long) 6,
      op_annualized = py_round (net_daily_pct short long * 365) 2,
      op_min_volume = Min (ft_volume ` set entries),
      op_next = (case ft_next short of Some t \<Rightarrow> Some t | None \<Rightarrow> ft_next long)\<rparr>"

definition symbol_opportunity :: "real \<Rightarrow> real \<Rightarrow> string \<times> flat_rate list \<Rightarrow> pair_opportunity option" where
  "symbol_opportunity min_diff min_vol x =
     (case x of
        (symbol, e # f # es) \<Rightarrow>
          let entries = e # f # es; short = highest e (f # es); long = lowest e (f # es) in
          if min_vol > 0 \<and> (\<exists>r \<in> set entries. ft_volume r < min_vol) then None
          else if ft_rate_pct short - ft_rate_pct long < min_diff then None
          else if net_daily_pct short long * 365 \<le> 0 then None
          else Some (pair_opportunity_of symbol entries short long)
      | _ \<Rightarrow> None)"

definition find_opportunities :: "real \<Rightarrow> real \<Rightarrow> market_caches \<Rightarrow> pair_opportunity list" where
  "find_opportunities min_diff min_vol c =
     sort_desc op_annualized
       (List.map_filter (symbol_opportunity min_diff min_vol) (by_symbol (get_latest_rates_flat c)))"

section \<open>Spot against perpetual\<close>

record spot_choice =
  sh_exchange :: int
  sh_name :: string
  sh_price :: real
  sh_volume :: real
  sh_basis_abs :: real
  sh_basis_pct :: real

record hedge_filter =
  hf_min_rate :: real
  hf_min_volume :: real
  hf_min_spot_volume :: real
  hf_min_basis :: real
  hf_cross :: bool

definition default_hedge_filter :: hedge_filter where
  "default_hedge_filter =
     \<lparr>hf_min_rate = 5 / 100, hf_min_volume = 0, hf_min_spot_volume = 0, hf_min_basis = 0, hf_cross = True\<rparr>"

text \<open>The spot leg on one exchange, when it passes the filters.\<close>

definition spot_choice_of :: "market_caches \<Rightarrow> hedge_filter \<Rightarrow> flat_rate \<Rightarrow> int \<times> (string \<times> real) list \<Rightarrow> spot_choice option" where
  "spot_choice_of c f r x =
     (case x of (i, prices) \<Rightarrow>
       let spot = spot_symbol_of (ft_symbol r); price = to_float (map_of prices spot) 0;
           volume = to_float (cached (mc_spot_volume c) i spot) 0; basis = ft_mark_price r - price; pct = basis / price * 100
       in if hf_cross f \<and> i = ft_exchange r then None
          else if price \<le> 0 then None
          else if hf_min_spot_volume f > 0 \<and> volume < hf_min_spot_volume f then None
          else if basis \<le> 0 then None
          else if pct < hf_min_basis f then None
          else Some \<lparr>sh_exchange = i, sh_name = display_of i (map_of (mc_exchanges c) i), sh_price = price, sh_volume = volume,
            sh_basis_abs = basis, sh_basis_pct = pct\<rparr>)"

definition better_spot :: "spot_choice option \<Rightarrow> spot_choice option \<Rightarrow> spot_choice option" where
  "better_spot best cand =
     (case (best, cand) of
        (_, None) \<Rightarrow> best
      | (None, Some s) \<Rightarrow> Some s
      | (Some b, Some s) \<Rightarrow> if sh_basis_abs s > sh_basis_abs b then Some s else Some b)"

definition best_spot_choice :: "market_caches \<Rightarrow> hedge_filter \<Rightarrow> flat_rate \<Rightarrow> spot_choice option" where
  "best_spot_choice c f r = foldl (\<lambda>best x. better_spot best (spot_choice_of c f r x)) None (mc_spot_fast c)"

record hedge_opportunity =
  ho_symbol :: string
  ho_spot_symbol :: string
  ho_perp_exchange :: int
  ho_perp_name :: string
  ho_spot_exchange :: int
  ho_spot_name :: string
  ho_rate_pct :: real
  ho_periods :: real
  ho_annualized :: real
  ho_volume :: real
  ho_spot_volume :: real
  ho_next :: fopt
  ho_interval :: fopt
  ho_perp_price :: real
  ho_spot_price :: real
  ho_basis_abs :: real
  ho_basis_pct :: real

definition hedge_opportunity_of :: "flat_rate \<Rightarrow> spot_choice \<Rightarrow> hedge_opportunity" where
  "hedge_opportunity_of r s =
     (let periods = funding_periods_per_day (ft_interval r) in
      \<lparr>ho_symbol = ft_symbol r, ho_spot_symbol = spot_symbol_of (ft_symbol r),
       ho_perp_exchange = ft_exchange r, ho_perp_name = ft_name r, ho_spot_exchange = sh_exchange s, ho_spot_name = sh_name s,
       ho_rate_pct = py_round (ft_rate_pct r) 6, ho_periods = periods,
       ho_annualized = py_round (ft_rate_pct r * periods * 365) 2,
       ho_volume = ft_volume r, ho_spot_volume = py_round (sh_volume s) 4, ho_next = ft_next r, ho_interval = ft_interval r,
       ho_perp_price = py_round (ft_mark_price r) 8, ho_spot_price = py_round (sh_price s) 8,
       ho_basis_abs = py_round (sh_basis_abs s) 8, ho_basis_pct = py_round (sh_basis_pct s) 6\<rparr>)"

definition perp_candidate :: "hedge_filter \<Rightarrow> flat_rate \<Rightarrow> bool" where
  "perp_candidate f r =
     (ft_rate_pct r > 0 \<and> ft_rate_pct r \<ge> hf_min_rate f \<and> \<not> (hf_min_volume f > 0 \<and> ft_volume r < hf_min_volume f)
      \<and> ft_exchange r \<noteq> 0 \<and> ft_symbol r \<noteq> [] \<and> ft_mark_price r > 0)"

definition find_spot_hedge_opportunities :: "hedge_filter \<Rightarrow> market_caches \<Rightarrow> hedge_opportunity list" where
  "find_spot_hedge_opportunities f c =
     sort_desc ho_annualized (sort_desc ho_basis_pct
       (List.map_filter (\<lambda>r. if perp_candidate f r then map_option (hedge_opportunity_of r) (best_spot_choice c f r) else None)
         (get_latest_rates_flat c)))"

section \<open>Grouping and extremes\<close>

lemma append_rate_keys: "map fst (append_rate r m) = (if ft_symbol r \<in> fst ` set m then map fst m else map fst m @ [ft_symbol r])"
  by (induction r m rule: append_rate.induct) auto

lemma append_rate_lookup:
  "map_of (append_rate r m) s =
     (if s = ft_symbol r then Some ((case map_of m s of None \<Rightarrow> [] | Some rs \<Rightarrow> rs) @ [r]) else map_of m s)"
  by (induction r m rule: append_rate.induct) auto

lemma by_symbol_fold:
  "distinct (map fst m) \<Longrightarrow>
     distinct (map fst (foldl (\<lambda>m r. append_rate r m) m rates))
     \<and> (\<forall>s. map_of (foldl (\<lambda>m r. append_rate r m) m rates) s =
          (let old = (case map_of m s of None \<Rightarrow> [] | Some rs \<Rightarrow> rs); new = filter (\<lambda>r. ft_symbol r = s) rates in
           if map_of m s = None \<and> new = [] then None else Some (old @ new)))"
proof (induction rates arbitrary: m)
  case Nil
  show ?case using Nil by (auto simp: Let_def split: option.splits)
next
  case (Cons r rates)
  have d: "distinct (map fst (append_rate r m))" using Cons.prems by (auto simp: append_rate_keys)
  show ?case using Cons.IH[OF d] by (auto simp: append_rate_lookup Let_def split: option.splits)
qed

lemma rates_by_symbol_distinct: "distinct (map fst (by_symbol rates))"
  unfolding by_symbol_def using by_symbol_fold[of "[]" rates] by simp

lemma by_symbol_lookup:
  "map_of (by_symbol rates) s =
     (let rs = filter (\<lambda>r. ft_symbol r = s) rates in if rs = [] then None else Some rs)"
  unfolding by_symbol_def using by_symbol_fold[of "[]" rates] by (auto simp: Let_def)

lemma by_symbol_mem: "(s, rs) \<in> set (by_symbol rates) \<longleftrightarrow> rs = filter (\<lambda>r. ft_symbol r = s) rates \<and> rs \<noteq> []"
proof -
  have "(s, rs) \<in> set (by_symbol rates) \<longleftrightarrow> map_of (by_symbol rates) s = Some rs"
    using rates_by_symbol_distinct[of rates] by simp
  then show ?thesis by (auto simp: by_symbol_lookup Let_def)
qed

lemma highest_in: "highest e es \<in> set (e # es)"
  by (induction e es rule: highest.induct) auto

lemma highest_ge: "\<forall>r \<in> set (e # es). ft_rate_pct r \<le> ft_rate_pct (highest e es)"
proof (induction es arbitrary: e)
  case (Cons x xs)
  show ?case using Cons[of e] Cons[of x] by auto
qed simp

lemma lowest_in: "lowest e es \<in> set (e # es)"
  by (induction e es rule: lowest.induct) auto

lemma lowest_le: "\<forall>r \<in> set (e # es). ft_rate_pct (lowest e es) \<le> ft_rate_pct r"
proof (induction es arbitrary: e)
  case (Cons x xs)
  show ?case using Cons[of e] Cons[of x] by auto
qed simp

section \<open>One symbol\<close>

definition symbol_rates :: "market_caches \<Rightarrow> string \<Rightarrow> flat_rate list" where
  "symbol_rates c s = filter (\<lambda>r. ft_symbol r = s) (get_latest_rates_flat c)"

lemma periods_without_interval: "funding_periods_per_day None = 3"
  by (simp add: funding_periods_per_day_def whole_periods_def)

lemma symbol_opportunity_sound:
  assumes "symbol_opportunity d v (s, rs) = Some p"
  shows "\<exists>short \<in> set rs. \<exists>long \<in> set rs. p = pair_opportunity_of s rs short long \<and> d \<le> ft_rate_pct short - ft_rate_pct long
    \<and> 0 < net_daily_pct short long
    \<and> (\<forall>r \<in> set rs. ft_rate_pct long \<le> ft_rate_pct r \<and> ft_rate_pct r \<le> ft_rate_pct short \<and> (0 < v \<longrightarrow> v \<le> ft_volume r))"
proof -
  obtain e f es where rs: "rs = e # f # es" using assms by (auto simp: symbol_opportunity_def split: list.splits)
  let ?h = "highest e (f # es)" and ?l = "lowest e (f # es)"
  have p: "p = pair_opportunity_of s rs ?h ?l" "d \<le> ft_rate_pct ?h - ft_rate_pct ?l" "0 < net_daily_pct ?h ?l"
      "\<forall>r \<in> set rs. 0 < v \<longrightarrow> v \<le> ft_volume r"
    using assms unfolding rs by (auto simp: symbol_opportunity_def Let_def not_less simp del: highest.simps lowest.simps split: if_splits)
  show ?thesis
    using p highest_in[of e "f # es"] lowest_in[of e "f # es"] highest_ge[of e "f # es"] lowest_le[of e "f # es"] unfolding rs by blast
qed

lemma symbol_opportunity_complete:
  assumes "r1 \<in> set rs" and "r2 \<in> set rs" and "ft_rate_pct r2 < ft_rate_pct r1" and "d \<le> ft_rate_pct r1 - ft_rate_pct r2"
    and "\<forall>r \<in> set rs. ft_interval r = None \<and> (0 < v \<longrightarrow> v \<le> ft_volume r)"
  shows "\<exists>p. symbol_opportunity d v (s, rs) = Some p"
proof -
  obtain e es0 where rs0: "rs = e # es0" using assms(1) by (cases rs) auto
  obtain f es where rs: "rs = e # f # es" using assms(1,2,3) rs0 by (cases es0) auto
  let ?h = "highest e (f # es)" and ?l = "lowest e (f # es)"
  have spread: "ft_rate_pct r1 - ft_rate_pct r2 \<le> ft_rate_pct ?h - ft_rate_pct ?l"
    using highest_ge[of e "f # es"] lowest_le[of e "f # es"] assms(1,2) unfolding rs by (meson diff_mono)
  have "ft_interval ?h = None" "ft_interval ?l = None"
    using assms(5) highest_in[of e "f # es"] lowest_in[of e "f # es"] unfolding rs by blast+
  then have "net_daily_pct ?h ?l = 3 * (ft_rate_pct ?h - ft_rate_pct ?l)"
    by (simp add: net_daily_pct_def periods_without_interval)
  moreover have "0 < ft_rate_pct ?h - ft_rate_pct ?l" by (rule less_le_trans[OF _ spread]) (simp add: assms(3))
  ultimately have "0 < net_daily_pct ?h ?l" by (simp del: highest.simps lowest.simps)
  moreover have "d \<le> ft_rate_pct ?h - ft_rate_pct ?l" by (rule order_trans[OF assms(4) spread])
  moreover have "\<not> (0 < v \<and> (\<exists>r \<in> set (e # f # es). ft_volume r < v))" using assms(5) unfolding rs by fastforce
  ultimately show ?thesis unfolding rs symbol_opportunity_def Let_def by (simp del: highest.simps lowest.simps)
qed

lemma find_opportunities_mem:
  "p \<in> set (find_opportunities d v c) \<longleftrightarrow>
     (\<exists>s. symbol_rates c s \<noteq> [] \<and> symbol_opportunity d v (s, symbol_rates c s) = Some p)"
proof -
  have "p \<in> set (find_opportunities d v c) \<longleftrightarrow>
      (\<exists>x \<in> set (by_symbol (get_latest_rates_flat c)). symbol_opportunity d v x = Some p)"
    by (auto simp: find_opportunities_def List.map_filter_def image_iff) force
  then show ?thesis by (auto simp: by_symbol_mem symbol_rates_def)
qed

lemma opportunity_symbol: "symbol_opportunity d v (s, rs) = Some p \<Longrightarrow> op_symbol p = s"
  using symbol_opportunity_sound[of d v s rs p] by (auto simp: pair_opportunity_of_def)

lemma map_filter_symbols:
  "distinct (map fst m) \<Longrightarrow> distinct (map op_symbol (List.map_filter (symbol_opportunity d v) m))"
proof (induction m)
  case (Cons x m)
  have "op_symbol p \<in> fst ` set m" if "p \<in> set (List.map_filter (symbol_opportunity d v) m)" for p
    using that opportunity_symbol by (force simp: List.map_filter_def)
  moreover obtain s rs where x: "x = (s, rs)" by (cases x)
  ultimately show ?case using Cons opportunity_symbol[of d v s rs] by (auto simp: map_filter_simps x split: option.splits)
qed (simp add: map_filter_simps)

section \<open>The opportunity list is exact\<close>

definition opportunity_pair :: "real \<Rightarrow> real \<Rightarrow> flat_rate list \<Rightarrow> pair_opportunity \<Rightarrow> flat_rate \<Rightarrow> flat_rate \<Rightarrow> bool" where
  "opportunity_pair d v rates p short long =
     (short \<in> set rates \<and> long \<in> set rates \<and> p = pair_opportunity_of (op_symbol p) rates short long
      \<and> ft_exchange short \<noteq> ft_exchange long \<and> d \<le> ft_rate_pct short - ft_rate_pct long
      \<and> op_annualized p = py_round ((ft_rate_pct short - ft_rate_pct long) * 3 * 365) 2
      \<and> (\<forall>r \<in> set rates. ft_rate_pct long \<le> ft_rate_pct r \<and> ft_rate_pct r \<le> ft_rate_pct short \<and> (0 < v \<longrightarrow> v \<le> ft_volume r)))"

definition spread_offered :: "real \<Rightarrow> real \<Rightarrow> flat_rate list \<Rightarrow> bool" where
  "spread_offered d v rates =
     ((\<exists>r1 \<in> set rates. \<exists>r2 \<in> set rates. ft_rate_pct r2 < ft_rate_pct r1 \<and> d \<le> ft_rate_pct r1 - ft_rate_pct r2)
      \<and> (\<forall>r \<in> set rates. 0 < v \<longrightarrow> v \<le> ft_volume r))"

lemma opportunity_pair_exists:
  assumes "funding_ok (mc_funding c)" and "p \<in> set (find_opportunities d v c)"
  shows "\<exists>short long. opportunity_pair d v (symbol_rates c (op_symbol p)) p short long"
    and "spread_offered d v (symbol_rates c (op_symbol p))"
proof -
  obtain s where s: "symbol_opportunity d v (s, symbol_rates c s) = Some p" using assms(2) by (auto simp: find_opportunities_mem)
  obtain short long where sl: "short \<in> set (symbol_rates c s)" "long \<in> set (symbol_rates c s)"
      "p = pair_opportunity_of s (symbol_rates c s) short long" "d \<le> ft_rate_pct short - ft_rate_pct long" "0 < net_daily_pct short long"
      "\<forall>r \<in> set (symbol_rates c s). ft_rate_pct long \<le> ft_rate_pct r \<and> ft_rate_pct r \<le> ft_rate_pct short \<and> (0 < v \<longrightarrow> v \<le> ft_volume r)"
    using symbol_opportunity_sound[OF s] by blast
  have sym: "op_symbol p = s" by (rule opportunity_symbol[OF s])
  have mem: "short \<in> set (get_latest_rates_flat c)" "long \<in> set (get_latest_rates_flat c)" "ft_symbol short = s" "ft_symbol long = s"
    using sl(1,2) by (auto simp: symbol_rates_def)
  have none: "ft_interval short = None" "ft_interval long = None" by (rule flat_rates_no_interval(1)[OF assms(1)], fact mem)+
  then have net: "net_daily_pct short long = (ft_rate_pct short - ft_rate_pct long) * 3"
    by (simp add: net_daily_pct_def periods_without_interval algebra_simps)
  have pos: "ft_rate_pct long < ft_rate_pct short" using sl(5) net by simp
  then have "short \<noteq> long" by auto
  then have ex: "ft_exchange short \<noteq> ft_exchange long"
    using inj_onD[OF conjunct2[OF iffD1[OF distinct_map flat_rates_distinct[OF assms(1)]]], of short long] mem by auto
  have "opportunity_pair d v (symbol_rates c s) p short long"
    unfolding opportunity_pair_def sym using sl ex net by (auto simp: pair_opportunity_of_def)
  then show "\<exists>short long. opportunity_pair d v (symbol_rates c (op_symbol p)) p short long" unfolding sym by blast
  show "spread_offered d v (symbol_rates c (op_symbol p))" unfolding sym spread_offered_def using sl pos by blast
qed

lemma opportunity_complete:
  assumes "funding_ok (mc_funding c)" and "spread_offered d v (symbol_rates c s)"
  shows "\<exists>p \<in> set (find_opportunities d v c). op_symbol p = s"
proof -
  obtain r1 r2 where r: "r1 \<in> set (symbol_rates c s)" "r2 \<in> set (symbol_rates c s)" "ft_rate_pct r2 < ft_rate_pct r1"
      "d \<le> ft_rate_pct r1 - ft_rate_pct r2" and v: "\<forall>r \<in> set (symbol_rates c s). 0 < v \<longrightarrow> v \<le> ft_volume r"
    using assms(2) unfolding spread_offered_def by blast
  have "\<forall>r \<in> set (symbol_rates c s). ft_interval r = None \<and> (0 < v \<longrightarrow> v \<le> ft_volume r)"
    using v flat_rates_no_interval(1)[OF assms(1)] by (auto simp: symbol_rates_def)
  from symbol_opportunity_complete[OF r this] obtain p where "symbol_opportunity d v (s, symbol_rates c s) = Some p" by blast
  then have "p \<in> set (find_opportunities d v c)" "op_symbol p = s"
    using r(1) unfolding find_opportunities_mem by (auto simp: opportunity_symbol intro!: exI[of _ s])
  then show ?thesis by blast
qed

text \<open>C24: In every state of the caches that the collector's jobs reach, the list of funding opportunities
  is exact: it is sorted by the annualised spread, has at most one entry per symbol, and names a symbol
  if and only if two quoted rates of that symbol differ by at least the wanted difference (and every
  quote of the symbol has the wanted volume); the entry is the pair with the lowest and the highest
  rate of the symbol, on two different exchanges, annualised with three settlements a day.\<close>

theorem find_opportunities_exact:
  "let c = cs_caches (foldl collector_step initial_collector es); found = find_opportunities d v c
   in sorted (map (\<lambda>p. - op_annualized p) found) \<and> distinct (map op_symbol found)
      \<and> (\<forall>p \<in> set found. \<exists>short long. opportunity_pair d v (symbol_rates c (op_symbol p)) p short long)
      \<and> (\<forall>s. s \<in> op_symbol ` set found \<longleftrightarrow> spread_offered d v (symbol_rates c s))"
proof -
  let ?c = "cs_caches (foldl collector_step initial_collector es)"
  have ok: "funding_ok (mc_funding ?c)" by (rule collector.reachable_inv)
  have "sorted (map (\<lambda>p. - op_annualized p) (find_opportunities d v ?c))"
    unfolding find_opportunities_def by (rule sort_desc_sorted)
  moreover have "distinct (map op_symbol (find_opportunities d v ?c))"
    unfolding find_opportunities_def distinct_map_sort_desc by (rule map_filter_symbols[OF rates_by_symbol_distinct])
  moreover have "s \<in> op_symbol ` set (find_opportunities d v ?c) \<longleftrightarrow> spread_offered d v (symbol_rates ?c s)" for s
    using opportunity_pair_exists(2)[OF ok] opportunity_complete[OF ok] by blast
  ultimately show ?thesis using opportunity_pair_exists(1)[OF ok] unfolding Let_def by blast
qed

text \<open>Two exchanges that quote one perpetual: 0.1% against 0.01%.\<close>

definition sample_quote :: "string \<Rightarrow> real \<Rightarrow> market_row_in" where
  "sample_quote exchange rate =
     \<lparr>mr_exchange = Some exchange, mr_symbol = Some ''X'', mr_market = Some ''swap'', mr_funding_rate = Some rate,
      mr_next_ms = None, mr_next_alt = None, mr_next_text = None, mr_volume = None, mr_mid = None, mr_bid = None, mr_ask = None\<rparr>"

definition sample_jobs :: "collector_event list" where
  "sample_jobs =
     [Funding_job
        [\<lparr>ex_id = 1, ex_name = ''okx'', ex_display_name = None, ex_is_unified = None\<rparr>,
         \<lparr>ex_id = 2, ex_name = ''gate'', ex_display_name = None, ex_is_unified = None\<rparr>]
        (Inr [sample_quote ''okx'' (1 / 1000), sample_quote ''gate'' (1 / 10000)]) False True 0]"

lemma sample_funding:
  "map (\<lambda>r. (ft_exchange r, ft_symbol r, ft_rate_pct r))
     (get_latest_rates_flat (cs_caches (foldl collector_step initial_collector sample_jobs))) = [(1, ''X'', 1 / 10), (2, ''X'', 1 / 100)]"
  by (simp add: sample_jobs_def collector_step_def sync_read_def fetch_rows_def record_success_def sync_market_funding_cache_def
      initial_collector_def initial_caches_def load_active_exchange_context_def funding_step_def row_target_def sample_quote_def
      name_map_def exchange_key_def py_lower_def char_lower_def py_strip_def is_space_def put_cached_def empty_inner_def
      funding_entry_def parse_next_funding_time_def get_latest_rates_flat_def flat_rate_of_def Let_def cached_def
      py_or_str_def str_or_empty_def py_round_def round_half_even_def)

lemma sample_spread:
  "spread_offered (5 / 100) 0 (symbol_rates (cs_caches (foldl collector_step initial_collector sample_jobs)) ''X'')"
proof -
  let ?c = "cs_caches (foldl collector_step initial_collector sample_jobs)"
  have "(1, ''X'', 1 / 10) \<in> set (map (\<lambda>r. (ft_exchange r, ft_symbol r, ft_rate_pct r)) (get_latest_rates_flat ?c))"
      and "(2, ''X'', 1 / 100) \<in> set (map (\<lambda>r. (ft_exchange r, ft_symbol r, ft_rate_pct r)) (get_latest_rates_flat ?c))"
    by (simp_all only: sample_funding) simp_all
  then obtain r1 r2 where "r1 \<in> set (get_latest_rates_flat ?c)" "ft_symbol r1 = ''X''" "ft_rate_pct r1 = 1 / 10"
      and "r2 \<in> set (get_latest_rates_flat ?c)" "ft_symbol r2 = ''X''" "ft_rate_pct r2 = 1 / 100"
    by auto
  then show ?thesis
    unfolding spread_offered_def symbol_rates_def by (intro conjI bexI[of _ r1] bexI[of _ r2]) simp_all
qed

lemma sample_opportunity:
  "\<exists>p \<in> set (find_opportunities (5 / 100) 0 (cs_caches (foldl collector_step initial_collector sample_jobs))). op_symbol p = ''X''"
  by (rule opportunity_complete[OF collector.reachable_inv sample_spread])

theorem find_opportunities_exact_witness:
  "''X'' \<in> op_symbol ` set (find_opportunities (5 / 100) 0 (cs_caches (foldl collector_step initial_collector sample_jobs)))"
  using find_opportunities_exact[of sample_jobs "5 / 100" 0] sample_spread unfolding Let_def by blast

section \<open>No settlement interval survives\<close>

definition three_settlements :: "perp_entry \<Rightarrow> bool" where
  "three_settlements e = (pe_periods e = 3 \<and> pe_periods_inferred e \<and> inferred_penalty e = 2 / 100)"

definition entries_all :: "(perp_entry \<Rightarrow> bool) \<Rightarrow> (string \<times> perp_entry list) list \<Rightarrow> bool" where
  "entries_all P m = (\<forall>x \<in> set m. \<forall>e \<in> set (snd x). P e)"

lemma add_entry_all: "entries_all P m \<Longrightarrow> P e \<Longrightarrow> entries_all P (add_entry s e m)"
  unfolding entries_all_def by (induction s e m rule: add_entry.induct) auto

lemma perp_entry_three: "perp_entry_of md now ex meta s (cached_quote d) = Some e \<Longrightarrow> rt_interval d = None \<Longrightarrow> three_settlements e"
  by (auto simp: perp_entry_of_def cached_quote_def Let_def three_settlements_def inferred_penalty_def periods_without_interval
      normalize_interval_hours_def whole_periods_def split: if_splits)

lemma exchange_entries_three:
  assumes "entries_all three_settlements m" and "own_rates (i, symbols)"
  shows "entries_all three_settlements (exchange_entries md now like m (i, map (\<lambda>(s, d). (s, cached_quote d)) symbols))"
proof (cases "md_meta md i")
  case None
  then show ?thesis using assms(1) by (simp add: exchange_entries_def)
next
  case (Some meta)
  have d: "rt_interval d = None" if "(s, d) \<in> set symbols" for s d using assms(2) that by (auto simp: own_rates_def)
  have "entries_all three_settlements
      (foldl (\<lambda>m (s, data). if \<not> symbol_match s like then m
          else (case perp_entry_of md now i meta s data of None \<Rightarrow> m | Some e \<Rightarrow> add_entry s e m))
        m (map (\<lambda>(s, d). (s, cached_quote d)) symbols))"
    using assms(1)
    by (intro foldl_invariant[where P = "entries_all three_settlements"])
      (auto intro!: add_entry_all perp_entry_three[OF _ d] split: option.split)
  then show ?thesis by (simp add: exchange_entries_def Some)
qed

lemma perp_entries_three:
  assumes "funding_ok (mc_funding c)"
  shows "entries_all three_settlements (build_perp_symbol_entries (market_view c exchanges) now like)"
proof -
  have "entries_all three_settlements
      (foldl (exchange_entries md now like) m (map (\<lambda>(i, m). (i, map (\<lambda>(s, d). (s, cached_quote d)) m)) f))"
    if "\<forall>x \<in> set f. own_rates x" and "entries_all three_settlements m" for md m f
    using that by (induction f arbitrary: m) (auto intro!: exchange_entries_three)
  from this[of "mc_funding c" "[]" "market_view c exchanges"] assms show ?thesis
    by (simp add: build_perp_symbol_entries_def market_view_def funding_ok_def entries_all_def)
qed

lemma hedge_three:
  assumes "funding_ok (mc_funding c)" and "h \<in> set (find_spot_hedge_opportunities f c)"
  shows "ho_periods h = 3" and "ho_interval h = None"
proof -
  obtain r s where "r \<in> set (get_latest_rates_flat c)" "h = hedge_opportunity_of r s"
    using assms(2) by (auto simp: find_spot_hedge_opportunities_def List.map_filter_def split: if_splits)
  then show "ho_periods h = 3" "ho_interval h = None"
    using flat_rates_no_interval(1)[OF assms(1)] by (auto simp: hedge_opportunity_of_def Let_def periods_without_interval)
qed

text \<open>C25: The sync of the funding rates never stores a settlement interval, so whatever the exchanges quote,
  in every reachable state of the caches both opportunity lists annualise with three settlements a day,
  and the spot-basis scan takes every perpetual as settled three times a day, marks the period as
  inferred and charges the penalty for it: an hourly or four-hourly contract is undervalued, and a
  known eight-hour one is penalised.\<close>

theorem collector_drops_intervals:
  "let c = cs_caches (foldl collector_step initial_collector es)
   in (\<forall>p \<in> set (find_opportunities d v c). op_long_periods p = 3 \<and> op_short_periods p = 3)
      \<and> (\<forall>h \<in> set (find_spot_hedge_opportunities f c). ho_periods h = 3 \<and> ho_interval h = None)
      \<and> entries_all three_settlements (build_perp_symbol_entries (market_view c exchanges) now like)"
proof -
  let ?c = "cs_caches (foldl collector_step initial_collector es)"
  have ok: "funding_ok (mc_funding ?c)" by (rule collector.reachable_inv)
  have "op_long_periods p = 3 \<and> op_short_periods p = 3" if p: "p \<in> set (find_opportunities d v ?c)" for p
  proof -
    obtain short long where sl: "opportunity_pair d v (symbol_rates ?c (op_symbol p)) p short long"
      using opportunity_pair_exists(1)[OF ok p] by blast
    then have "ft_interval short = None" "ft_interval long = None"
      using flat_rates_no_interval(1)[OF ok] by (auto simp: opportunity_pair_def symbol_rates_def)
    moreover have "p = pair_opportunity_of (op_symbol p) (symbol_rates ?c (op_symbol p)) short long"
      using sl by (simp add: opportunity_pair_def)
    then have "op_long_periods p = funding_periods_per_day (ft_interval long)"
        "op_short_periods p = funding_periods_per_day (ft_interval short)"
      by (metis pair_opportunity_of_def pair_opportunity.select_convs(5), metis pair_opportunity_of_def pair_opportunity.select_convs(11))
    ultimately show ?thesis by (simp add: periods_without_interval)
  qed
  then show ?thesis using hedge_three[OF ok] perp_entries_three[OF ok] unfolding Let_def by blast
qed

theorem collector_drops_intervals_witness:
  "\<exists>p \<in> set (find_opportunities (5 / 100) 0 (cs_caches (foldl collector_step initial_collector sample_jobs))).
     op_long_periods p = 3 \<and> op_short_periods p = 3"
proof -
  let ?c = "cs_caches (foldl collector_step initial_collector sample_jobs)"
  have "\<exists>p. p \<in> set (find_opportunities (5 / 100) 0 ?c)" using sample_opportunity by blast
  then show ?thesis using collector_drops_intervals[of sample_jobs "5 / 100" 0] unfolding Let_def by blast
qed

end
