(* ===== verification/CrossExchange.thy ===== *)
theory CrossExchange
  imports SpotHedge
begin

text \<open>
  Perpetual against perpetual: \<open>strategies/cross_exchange.py\<close> and the two trading requests of
  \<open>domains/trading/router.py\<close>. The strategy uses the \<open>venue\<close> of \<open>SpotHedge\<close>. A request runs on a
  session of its own that \<open>get_db\<close> closes afterwards: what has not been committed by then is gone.
  Left out: log messages, the e-mail alert, the display name of the strategy, and the fields of the
  answer that only repeat the request.
\<close>

section \<open>Opening\<close>

definition first_price :: "order \<Rightarrow> fopt \<Rightarrow> fopt" where
  "first_price ord last_price = py_or_num (or_average ord) (py_or_num (or_price ord) last_price)"

text \<open>One leg: the hedge order, its position row and, if it was placed, its log.\<close>

definition cross_leg ::
    "'w venue \<Rightarrow> exchange_row \<Rightarrow> string \<Rightarrow> int \<Rightarrow> int \<Rightarrow> string \<Rightarrow> string \<Rightarrow> string \<Rightarrow> real \<Rightarrow> real \<Rightarrow> int
      \<Rightarrow> session \<Rightarrow> 'w \<Rightarrow> order option \<times> fopt \<times> int \<times> session \<times> 'w" where
  "cross_leg v ex symbol sid eid side order_side reason qty price lev s w =
     (let (ord, w1) = v_place_hedge v w ex symbol order_side qty lev;
          fill = (case ord of Some x \<Rightarrow> py_or_num (or_average x) (Some price) | None \<Rightarrow> Some price);
          pid = next_position_id s;
          s1 = add_position (hedge_position pid sid eid symbol side ''swap'' qty fill (ord \<noteq> None)) s;
          s2 = (if ord = None then s1 else add_log
            \<lparr>tl_strategy_id = sid, tl_position_id = None, tl_action = ''open'', tl_exchange = ex_name ex,
             tl_symbol = Some symbol, tl_side = order_side, tl_price = fill, tl_size = Some qty, tl_reason = reason\<rparr> s1)
      in (ord, fill, pid, s2, w1))"

text \<open>The emergency close of the leg that was placed alone.\<close>

definition cross_unwind ::
    "'w venue \<Rightarrow> exchange_row \<Rightarrow> string \<Rightarrow> int \<Rightarrow> int \<Rightarrow> string \<Rightarrow> string \<Rightarrow> string \<Rightarrow> real \<Rightarrow> fopt \<Rightarrow> real
      \<Rightarrow> session \<Rightarrow> 'w \<Rightarrow> session \<times> 'w" where
  "cross_unwind v ex symbol sid pid side order_side reason qty fill now s w =
     (case v_close_hedge v w ex (Some symbol) (Some side) (Some qty) of
        (None, w1) \<Rightarrow> (s, w1)
      | (Some u, w1) \<Rightarrow>
          (add_log
             \<lparr>tl_strategy_id = sid, tl_position_id = None, tl_action = ''emergency_close'', tl_exchange = ex_name ex,
              tl_symbol = Some symbol, tl_side = order_side, tl_price = first_price u fill, tl_size = Some qty, tl_reason = reason\<rparr>
             (set_position pid (closed_row now) s), w1))"

definition cross_open_failed ::
    "'w venue \<Rightarrow> int \<Rightarrow> string list \<Rightarrow> string \<Rightarrow> real \<Rightarrow> real
      \<Rightarrow> exchange_row \<times> order option \<times> fopt \<times> int \<Rightarrow> exchange_row \<times> order option \<times> fopt \<times> int \<Rightarrow> session \<Rightarrow> 'w \<Rightarrow> session \<times> 'w" where
  "cross_open_failed v sid errors symbol qty now long short s w =
     (case (long, short) of ((long_ex, long_order, long_fill, long_pid), (short_ex, short_order, short_fill, short_pid)) \<Rightarrow>
       let failed = (\<lambda>p. p\<lparr>ps_status := Some ''error''\<rparr>);
           s0 = set_strategy sid (\<lambda>r. r\<lparr>st_status := Some ''error''\<rparr>) s;
           s1 = (if long_order = None then set_position long_pid failed s0 else s0);
           s2 = db_commit (if short_order = None then set_position short_pid failed s1 else s1);
           (s3, w1) =
             (if long_order \<noteq> None \<and> short_order = None
              then cross_unwind v long_ex symbol sid long_pid ''long'' ''sell'' ''emergency unwind: short leg failed'' qty long_fill now s2 w
              else if short_order \<noteq> None \<and> long_order = None
              then cross_unwind v short_ex symbol sid short_pid ''short'' ''buy'' ''emergency unwind: long leg failed'' qty short_fill now s2 w
              else (s2, w))
       in (db_commit (set_strategy sid (\<lambda>r. r\<lparr>st_close_reason := ''open failed: '' @ repr_list errors, st_closed_at := Some now\<rparr>) s3), w1))"

text \<open>
  Both legs are placed, whatever the first one answers. Only the failing branch commits.
\<close>

definition cross_open_legs ::
    "'w venue \<Rightarrow> exchange_row \<Rightarrow> exchange_row \<Rightarrow> string \<Rightarrow> int \<Rightarrow> int \<Rightarrow> real \<Rightarrow> real \<Rightarrow> real \<Rightarrow> real \<Rightarrow> session \<Rightarrow> 'w
      \<Rightarrow> open_result \<times> session \<times> 'w" where
  "cross_open_legs v long_ex short_ex symbol long_id short_id size_usd leverage price now s w =
     (let qty = size_usd * leverage / price; lev = py_trunc leverage; sid = next_strategy_id s;
          s1 = db_flush (add_strategy
            \<lparr>st_id = sid, st_type = Some ''cross_exchange'', st_symbol = Some symbol, st_long_ex = Some long_id,
             st_short_ex = Some short_id, st_initial_margin = Some size_usd, st_status = Some ''active'', st_close_reason = [],
             st_entry_e24 = Some 0, st_entry_open_fee = Some 0, st_entry_spot_base = Some 0, st_entry_perp_base = Some 0,
             st_entry_delta_base = Some 0, st_closed_at = None\<rparr> s);
          (long_order, long_fill, long_pid, s2, w1) =
            cross_leg v long_ex symbol sid long_id ''long'' ''buy'' ''cross_exchange open long'' qty price lev s1 w;
          (short_order, short_fill, short_pid, s3, w2) =
            cross_leg v short_ex symbol sid short_id ''short'' ''sell'' ''cross_exchange open short'' qty price lev s2 w1;
          errors = (if long_order = None then [''long order failed''] else []) @ (if short_order = None then [''short order failed''] else []);
          (s4, w3) =
            (if errors \<noteq> []
             then cross_open_failed v sid errors symbol qty now (long_ex, long_order, long_fill, long_pid)
                    (short_ex, short_order, short_fill, short_pid) s3 w2
             else (s3, w2))
      in (\<lparr>op_success = (errors = []), op_strategy_id = Some sid, op_error = None, op_errors = errors\<rparr>, s4, w3))"

definition cross_open ::
    "'w venue \<Rightarrow> string \<Rightarrow> int \<Rightarrow> int \<Rightarrow> real \<Rightarrow> real \<Rightarrow> real \<Rightarrow> session \<Rightarrow> 'w \<Rightarrow> open_result \<times> session \<times> 'w" where
  "cross_open v symbol long_id short_id size_usd leverage now s w =
     (case (query_exchange long_id s, query_exchange short_id s) of
        (Some long_ex, Some short_ex) \<Rightarrow>
          (case v_ticker v w long_ex symbol of
             (None, w1) \<Rightarrow> (open_error (''Cannot fetch ticker for '' @ symbol), s, w1)
           | (Some t, w1) \<Rightarrow>
               (case truthy_price t of
                  None \<Rightarrow> (open_error ''Invalid ticker price'', s, w1)
                | Some price \<Rightarrow> cross_open_legs v long_ex short_ex symbol long_id short_id size_usd leverage price now s w1))
      | _ \<Rightarrow> (open_error ''Exchange not found'', s, w))"

section \<open>Closing\<close>

text \<open>
  An exchange that is gone is handed to the wrapper as \<open>None\<close>, which raises: the loop stops there
  (\<open>Inl\<close>), with the session and the world as they are at that moment.
\<close>

definition cross_close_leg ::
    "'w venue \<Rightarrow> int \<Rightarrow> string \<Rightarrow> real \<Rightarrow> position_row \<Rightarrow> session \<times> 'w \<times> string list
      \<Rightarrow> (session \<times> 'w) + (session \<times> 'w \<times> string list)" where
  "cross_close_leg v sid reason now pos st =
     (case st of (s, w, errors) \<Rightarrow>
       case query_exchange (int_or_zero (ps_exchange_id pos)) s of
         None \<Rightarrow> Inl (s, w)
       | Some ex \<Rightarrow>
           (case v_close_hedge v w ex (ps_symbol pos) (ps_side pos) (ps_size pos) of
              (None, w1) \<Rightarrow> Inr (s, w1, errors @ [ex_name ex @ '' close failed''])
            | (Some r, w1) \<Rightarrow>
                Inr (add_log
                  \<lparr>tl_strategy_id = sid, tl_position_id = Some (ps_id pos), tl_action = ''close'', tl_exchange = ex_name ex,
                   tl_symbol = ps_symbol pos, tl_side = (if ps_side pos = Some ''long'' then ''sell'' else ''buy''),
                   tl_price = first_price r (ps_current_price pos), tl_size = ps_size pos, tl_reason = reason\<rparr>
                  (set_position (ps_id pos) (closed_row now) s), w1, errors)))"

fun cross_close_loop ::
    "'w venue \<Rightarrow> int \<Rightarrow> string \<Rightarrow> real \<Rightarrow> position_row list \<Rightarrow> session \<times> 'w \<times> string list
      \<Rightarrow> (session \<times> 'w) + (session \<times> 'w \<times> string list)" where
  "cross_close_loop v sid reason now [] st = Inr st"
| "cross_close_loop v sid reason now (p # ps) st =
     (case cross_close_leg v sid reason now p st of
        Inl x \<Rightarrow> Inl x
      | Inr st1 \<Rightarrow> cross_close_loop v sid reason now ps st1)"

record cross_close_result =
  cx_success :: bool
  cx_error :: "string option"
  cx_errors :: "string list"

text \<open>\<open>close\<close>: the answer is \<open>None\<close> when an exception leaves it.\<close>

definition cross_close ::
    "'w venue \<Rightarrow> int \<Rightarrow> string \<Rightarrow> real \<Rightarrow> session \<Rightarrow> 'w \<Rightarrow> cross_close_result option \<times> session \<times> 'w" where
  "cross_close v sid reason now s w =
     (case query_strategy sid s of
        None \<Rightarrow> (Some \<lparr>cx_success = False, cx_error = Some ''Strategy not found'', cx_errors = []\<rparr>, s, w)
      | Some strategy \<Rightarrow>
          let s1 = db_commit (set_strategy sid (\<lambda>r. r\<lparr>st_status := Some ''closing''\<rparr>) s)
          in case cross_close_loop v sid reason now (open_positions_of sid s1) (s1, w, []) of
               Inl (s2, w2) \<Rightarrow> (None, s2, w2)
             | Inr (s2, w2, errors) \<Rightarrow>
                 (Some \<lparr>cx_success = (errors = []), cx_error = None, cx_errors = errors\<rparr>,
                  db_commit (set_strategy sid
                    (\<lambda>r. r\<lparr>st_status := Some (if errors = [] then ''closed'' else ''error''), st_close_reason := reason,
                           st_closed_at := Some now\<rparr>) s2), w2))"

section \<open>The requests\<close>

text \<open>\<open>get_db\<close>: a session on the committed tables, closed at the end of the request.\<close>

definition request_session :: "exchange_row list \<Rightarrow> tables \<Rightarrow> session" where
  "request_session exs t = open_session session_local_autoflush exs t"

definition end_request :: "session \<Rightarrow> tables" where
  "end_request s = se_committed s"

datatype open_answer = Opened open_result | Open_refused int string

definition open_answer_of :: "open_result \<Rightarrow> open_answer" where
  "open_answer_of r =
     (if op_success r then Opened r
      else Open_refused 500 (if op_error r = None then repr_list (op_errors r) else ''None''))"

definition open_request ::
    "'w venue \<Rightarrow> string \<Rightarrow> string \<Rightarrow> int \<Rightarrow> int \<Rightarrow> real \<Rightarrow> real \<Rightarrow> real \<Rightarrow> exchange_row list \<Rightarrow> tables \<times> 'w
      \<Rightarrow> open_answer \<times> tables \<times> 'w" where
  "open_request v typ symbol long_id short_id size_usd leverage now exs x =
     (case x of (t, w) \<Rightarrow>
       if typ = ''cross_exchange'' then
         (case cross_open v symbol long_id short_id size_usd leverage now (request_session exs t) w of
            (r, s, w1) \<Rightarrow> (open_answer_of r, end_request s, w1))
       else if typ = ''spot_hedge'' then
         (case open_strategy v symbol long_id short_id size_usd leverage None None 1 now (request_session exs t) w of
            (r, s, w1) \<Rightarrow> (open_answer_of r, end_request s, w1))
       else (Open_refused 400 (''Unknown strategy type: '' @ typ), t, w))"

datatype close_answer = Cross_closed cross_close_result | Hedge_closed close_result | Close_refused int string | Server_error

definition close_request ::
    "'w venue \<Rightarrow> int \<Rightarrow> string \<Rightarrow> real \<Rightarrow> exchange_row list \<Rightarrow> tables \<times> 'w \<Rightarrow> close_answer \<times> tables \<times> 'w" where
  "close_request v sid reason now exs x =
     (case x of (t, w) \<Rightarrow>
       let s = request_session exs t in
       case query_strategy sid s of
         None \<Rightarrow> (Close_refused 404 ''Strategy not found'', t, w)
       | Some r \<Rightarrow>
           if st_status r \<noteq> Some ''active'' \<and> st_status r \<noteq> Some ''error''
           then (Close_refused 400 (''Strategy is already '' @ (case st_status r of Some z \<Rightarrow> z | None \<Rightarrow> ''None'')), t, w)
           else if st_type r = Some ''cross_exchange'' then
             (case cross_close v sid reason now s w of
                (Some a, s1, w1) \<Rightarrow> (Cross_closed a, end_request s1, w1)
              | (None, s1, w1) \<Rightarrow> (Server_error, end_request s1, w1))
           else (case close_strategy v sid reason now s w of (a, s1, w1) \<Rightarrow> (Hedge_closed a, end_request s1, w1)))"

end
