(* ===== verification/CrossExchangeLaws.thy ===== *)
theory CrossExchangeLaws
  imports CrossExchange RiskManager
begin

text \<open>
  What a trading request leaves behind. A successful open of a cross-exchange pair never commits, so
  both orders are on the exchanges and the tables know nothing of them; a close books exactly the
  legs that were closed, but a strategy with a leg left open drops out of the risk check; and a close
  that meets a deleted exchange loses what it has booked and cannot be repeated.
\<close>

section \<open>Frames\<close>

lemma cross_leg_committed [session_simps]:
  assumes "cross_leg v ex symbol sid eid side order_side reason qty price lev s w = (ord, fill, pid, s', w')"
  shows "se_committed s' = se_committed s" and "tb_strategies (se_obj s') = tb_strategies (se_obj s)"
    and "v_place_hedge v w ex symbol order_side qty lev = (ord, w')"
  using assms by (auto simp: cross_leg_def Let_def session_simps split: prod.splits if_splits)

section \<open>A successful open is lost\<close>

lemma cross_open_legs_success:
  assumes "cross_open_legs v long_ex short_ex symbol lid shid usd leverage price now s w = (r, s', w')" and "op_success r"
  shows "se_committed s' = se_committed s" and "op_strategy_id r = Some (next_strategy_id s)"
    and "\<exists>w1 a b. v_place_hedge v w long_ex symbol ''buy'' (usd * leverage / price) (py_trunc leverage) = (Some a, w1)
           \<and> v_place_hedge v w1 short_ex symbol ''sell'' (usd * leverage / price) (py_trunc leverage) = (Some b, w')"
proof -
  let ?q = "usd * leverage / price" and ?l = "py_trunc leverage" and ?sid = "next_strategy_id s"
  define s1 where "s1 = db_flush (add_strategy
            \<lparr>st_id = ?sid, st_type = Some ''cross_exchange'', st_symbol = Some symbol, st_long_ex = Some lid,
             st_short_ex = Some shid, st_initial_margin = Some usd, st_status = Some ''active'', st_close_reason = [],
             st_entry_e24 = Some 0, st_entry_open_fee = Some 0, st_entry_spot_base = Some 0, st_entry_perp_base = Some 0,
             st_entry_delta_base = Some 0, st_closed_at = None\<rparr> s)"
  obtain a fa pa s2 w1 where l: "cross_leg v long_ex symbol ?sid lid ''long'' ''buy'' ''cross_exchange open long'' ?q price ?l s1 w
      = (a, fa, pa, s2, w1)" by (metis prod.exhaust)
  obtain b fb pb s3 w2 where h: "cross_leg v short_ex symbol ?sid shid ''short'' ''sell'' ''cross_exchange open short'' ?q price ?l s2 w1
      = (b, fb, pb, s3, w2)" by (metis prod.exhaust)
  have r: "a \<noteq> None" "b \<noteq> None" "s' = s3" "w' = w2" "op_strategy_id r = Some ?sid"
    using assms l h unfolding cross_open_legs_def Let_def s1_def[symmetric] by (auto split: prod.splits if_splits)
  show "se_committed s' = se_committed s"
    using cross_leg_committed(1)[OF l] cross_leg_committed(1)[OF h] by (simp add: r(3) s1_def session_simps)
  show "op_strategy_id r = Some ?sid" by (rule r(5))
  show "\<exists>w1 a b. v_place_hedge v w long_ex symbol ''buy'' ?q ?l = (Some a, w1) \<and> v_place_hedge v w1 short_ex symbol ''sell'' ?q ?l = (Some b, w')"
    using cross_leg_committed(3)[OF l] cross_leg_committed(3)[OF h] r by auto
qed

lemma cross_open_success:
  assumes "cross_open v symbol lid shid usd leverage now s w = (r, s', w')" and "op_success r"
  obtains long_ex short_ex t price w0 where "query_exchange lid s = Some long_ex" "query_exchange shid s = Some short_ex"
    "v_ticker v w long_ex symbol = (Some t, w0)" "truthy_price t = Some price"
    "cross_open_legs v long_ex short_ex symbol lid shid usd leverage price now s w0 = (r, s', w')"
  using assms by (auto simp: cross_open_def open_error_def split: option.splits prod.splits)

text \<open>C6: A successful open of a cross-exchange pair is lost: the request answers with success and the id of the new
  strategy after both exchanges have accepted their orders, but nothing was committed, so the tables
  after the request are the tables before it: no strategy, no positions and no log of two live legs.\<close>

theorem cross_open_success_lost:
  assumes "open_request v ''cross_exchange'' symbol lid shid usd leverage now exs (t, w) = (Opened r, t', w')"
  shows "t' = t \<and> (\<exists>sid. op_strategy_id r = Some sid \<and> sid \<notin> st_id ` set (tb_strategies t'))
    \<and> (\<exists>long_ex short_ex qty w0 w1 a b. ex_id long_ex = lid \<and> ex_id short_ex = shid
          \<and> v_place_hedge v w0 long_ex symbol ''buy'' qty (py_trunc leverage) = (Some a, w1)
          \<and> v_place_hedge v w1 short_ex symbol ''sell'' qty (py_trunc leverage) = (Some b, w'))"
proof -
  let ?s = "request_session exs t"
  obtain s1 where o1: "cross_open v symbol lid shid usd leverage now ?s w = (r, s1, w')" and s: "op_success r" "t' = se_committed s1"
    using assms by (auto simp: open_request_def open_answer_of_def end_request_def split: prod.splits if_splits)
  obtain le se tick price w0 where c: "query_exchange lid ?s = Some le" "query_exchange shid ?s = Some se"
      "cross_open_legs v le se symbol lid shid usd leverage price now ?s w0 = (r, s1, w')"
    by (rule cross_open_success[OF o1 s(1)]) blast
  note f = cross_open_legs_success[OF c(3) s(1)]
  have "t' = t" using f(1) s(2) by (simp add: request_session_def open_session_def)
  moreover have "next_strategy_id ?s \<notin> st_id ` set (tb_strategies t)"
    using next_strategy_id_notin[of ?s] by (simp add: request_session_def open_session_def)
  moreover have "ex_id le = lid" "ex_id se = shid"
    using c(1,2) by (auto simp: query_exchange_def dest: first_where_Some)
  ultimately show ?thesis using f(2,3) by blast
qed

theorem cross_open_success_lost_witness:
  "\<exists>r. open_request good_venue ''cross_exchange'' ''X'' 1 2 100 1 50 sample_exchanges (sample_tables, 0) = (Opened r, sample_tables, 2)"
proof -
  have "\<exists>r t' w'. open_request good_venue ''cross_exchange'' ''X'' 1 2 100 1 50 sample_exchanges (sample_tables, 0) = (Opened r, t', w') \<and> w' = 2"
    by (simp add: open_request_def cross_open_def request_session_def session_local_autoflush_def query_exchange_def truthy_price_def
        cross_open_legs_def cross_leg_def open_answer_of_def Let_def sample_defs)
  then obtain r t' where "open_request good_venue ''cross_exchange'' ''X'' 1 2 100 1 50 sample_exchanges (sample_tables, 0) = (Opened r, t', 2)"
    by blast
  with cross_open_success_lost[OF this] show ?thesis by auto
qed

section \<open>The close loop against the spot-hedge loop\<close>

text \<open>
  With its exchange in place, a leg of a swap is closed exactly as \<open>SpotHedge\<close> closes it, so the laws of
  that loop carry over.
\<close>

definition known_swap :: "session \<Rightarrow> position_row \<Rightarrow> bool" where
  "known_swap s p = (query_exchange (int_or_zero (ps_exchange_id p)) s \<noteq> None \<and> ps_type p \<noteq> Some ''spot'')"

lemma cross_close_leg_refines:
  "known_swap s p \<Longrightarrow> cross_close_leg v sid reason now p (s, w, errs) = Inr (close_leg v sid reason now (s, w, errs) p)"
  by (auto simp: known_swap_def cross_close_leg_def close_leg_def first_price_def closed_row_def[abs_def] Let_def
      split: prod.splits option.splits)

lemma close_leg_exchanges: "close_leg v sid reason now (s, w, errs) p = (s', w', errs') \<Longrightarrow> se_exchanges s' = se_exchanges s"
  using close_leg_frame(3)[of v sid reason now "(s, w, errs)" p] by simp

lemma known_swap_exchanges: "se_exchanges s' = se_exchanges s \<Longrightarrow> known_swap s' p = known_swap s p"
  by (simp add: known_swap_def query_exchange_def)

lemma cross_close_loop_refines:
  "(\<And>p. p \<in> set ps \<Longrightarrow> known_swap s p) \<Longrightarrow>
     cross_close_loop v sid reason now ps (s, w, errs) = Inr (foldl (close_leg v sid reason now) (s, w, errs) ps)"
proof (induction ps arbitrary: s w errs)
  case (Cons p ps)
  obtain s1 w1 e1 where o1: "close_leg v sid reason now (s, w, errs) p = (s1, w1, e1)" by (metis prod_cases3)
  have "known_swap s1 q" if "q \<in> set ps" for q
    using Cons.prems[of q] that known_swap_exchanges[OF close_leg_exchanges[OF o1]] by simp
  from Cons.IH[OF this] show ?case using cross_close_leg_refines[of s p v sid reason now w errs] Cons.prems[of p] o1 by simp
qed simp

text \<open>A row whose exchange is gone stops the loop; nothing is committed on the way.\<close>

lemma cross_close_leg_committed:
  assumes "cross_close_leg v sid reason now p (s, w, errs) = Inr (s', w', errs')"
  shows "se_committed s' = se_committed s" and "se_exchanges s' = se_exchanges s"
  using assms by (auto simp: cross_close_leg_def session_simps split: prod.splits option.splits)

lemma cross_close_loop_stops:
  "p \<in> set ps \<Longrightarrow> query_exchange (int_or_zero (ps_exchange_id p)) s = None \<Longrightarrow>
     \<exists>s' w'. cross_close_loop v sid reason now ps (s, w, errs) = Inl (s', w') \<and> se_committed s' = se_committed s"
proof (induction ps arbitrary: s w errs)
  case (Cons q ps)
  show ?case
  proof (cases "cross_close_leg v sid reason now q (s, w, errs)")
    case (Inl x)
    then have "x = (s, w)" by (auto simp: cross_close_leg_def split: prod.splits option.splits)
    with Inl show ?thesis by simp
  next
    case (Inr y)
    obtain s1 w1 e1 where y: "y = (s1, w1, e1)" by (cases y)
    note f = cross_close_leg_committed[OF Inr[unfolded y]]
    have "p \<noteq> q" using Inr Cons.prems(2) by (auto simp: cross_close_leg_def)
    with Cons.prems have "p \<in> set ps" "query_exchange (int_or_zero (ps_exchange_id p)) s1 = None"
      by (auto simp: query_exchange_def f(2))
    from Cons.IH[OF this, of w1 e1] show ?thesis by (auto simp: Inr y f(1))
  qed
qed simp

section \<open>The close request\<close>

text \<open>A strategy the request accepts, on tables with unique ids.\<close>

definition closable :: "tables \<Rightarrow> int \<Rightarrow> bool" where
  "closable t sid =
     (ids_ok t \<and> (\<exists>r \<in> set (tb_strategies t). st_id r = sid \<and> st_type r = Some ''cross_exchange''
        \<and> st_status r \<in> {Some ''active'', Some ''error''}))"

definition marked_closing :: "int \<Rightarrow> tables \<Rightarrow> tables" where
  "marked_closing sid t =
     t\<lparr>tb_strategies := map (\<lambda>r. if st_id r = sid then r\<lparr>st_status := Some ''closing''\<rparr> else r) (tb_strategies t)\<rparr>"

lemma request_views [simp]:
  "se_obj (request_session exs t) = t" "se_db (request_session exs t) = t" "se_committed (request_session exs t) = t"
  "se_exchanges (request_session exs t) = exs" "sql_view (request_session exs t) = t"
  by (simp_all add: request_session_def open_session_def sql_view_def)

lemma request_strategy:
  assumes "distinct (map st_id (tb_strategies t))" and "r \<in> set (tb_strategies t)"
  shows "query_strategy (st_id r) (request_session exs t) = Some r"
  using first_where_id[OF assms] by (simp add: query_strategy_def obj_strategy_def)

lemma closing_session:
  "se_obj (db_commit (set_strategy sid (\<lambda>r. r\<lparr>st_status := Some ''closing''\<rparr>) (request_session exs t))) = marked_closing sid t"
  by (simp add: session_simps set_strategy_def marked_closing_def)

lemma close_request_unfold:
  assumes "closable t sid"
  shows "close_request v sid reason now exs (t, w) =
     (case cross_close v sid reason now (request_session exs t) w of
        (Some a, s1, w1) \<Rightarrow> (Cross_closed a, end_request s1, w1)
      | (None, s1, w1) \<Rightarrow> (Server_error, end_request s1, w1))"
proof -
  obtain r where r: "r \<in> set (tb_strategies t)" "st_id r = sid" "st_type r = Some ''cross_exchange''"
      "st_status r \<in> {Some ''active'', Some ''error''}" and d: "distinct (map st_id (tb_strategies t))"
    using assms by (auto simp: closable_def ids_ok_def)
  show ?thesis using request_strategy[OF d r(1), of exs] r(2,3,4) by (auto simp: close_request_def Let_def)
qed

text \<open>The rows the loop works on.\<close>

lemma closing_rows:
  assumes "ids_ok t"
  shows "open_positions_of sid (db_commit (set_strategy sid (\<lambda>r. r\<lparr>st_status := Some ''closing''\<rparr>) (request_session exs t)))
    = filter (is_open_of sid) (tb_positions t)"
proof -
  let ?s = "db_commit (set_strategy sid (\<lambda>r. r\<lparr>st_status := Some ''closing''\<rparr>) (request_session exs t))"
  have "ids_ok (se_obj ?s)" using assms unfolding closing_session
    by (simp add: ids_ok_def marked_closing_def comp_def if_distrib cong: if_cong)
  then show ?thesis unfolding open_positions_of_def
    by (subst query_positions_flushed) (simp_all add: session_simps)
qed

lemma cross_close_closed:
  assumes "closable t sid"
    and "\<And>p. p \<in> set (tb_positions t) \<Longrightarrow> is_open_of sid p \<Longrightarrow> known_swap (request_session exs t) p"
    and "close_request v sid reason now exs (t, w) = (c, t', w')"
  obtains a s2 where "c = Cross_closed a" "cx_success a = (cx_errors a = [])" "tb_positions t' = tb_positions (se_obj s2)"
    "foldl (close_leg v sid reason now)
       (db_commit (set_strategy sid (\<lambda>r. r\<lparr>st_status := Some ''closing''\<rparr>) (request_session exs t)), w, [])
       (filter (is_open_of sid) (tb_positions t)) = (s2, w', cx_errors a)"
    "tb_strategies t' = map (\<lambda>r. if st_id r = sid
       then r\<lparr>st_status := Some (if cx_errors a = [] then ''closed'' else ''error''), st_close_reason := reason, st_closed_at := Some now\<rparr>
       else r) (tb_strategies (se_obj s2))"
proof -
  let ?s1 = "db_commit (set_strategy sid (\<lambda>r. r\<lparr>st_status := Some ''closing''\<rparr>) (request_session exs t))"
  let ?ps = "filter (is_open_of sid) (tb_positions t)"
  obtain s2 w2 errs where f: "foldl (close_leg v sid reason now) (?s1, w, []) ?ps = (s2, w2, errs)" by (metis prod_cases3)
  have ids: "ids_ok t" using assms(1) by (simp add: closable_def)
  have k: "known_swap ?s1 p" if "p \<in> set ?ps" for p
    using assms(2)[of p] that by (subst known_swap_exchanges[of _ "request_session exs t"]) (auto simp: session_simps)
  have loop: "cross_close_loop v sid reason now (open_positions_of sid ?s1) (?s1, w, []) = Inr (s2, w2, errs)"
    unfolding closing_rows[OF ids] by (subst cross_close_loop_refines) (use k f in auto)
  obtain r where r: "r \<in> set (tb_strategies t)" "st_id r = sid" using assms(1) by (auto simp: closable_def)
  have q: "query_strategy sid (request_session exs t) = Some r"
    using request_strategy[of t r exs] r ids by (simp add: ids_ok_def)
  have res: "c = Cross_closed \<lparr>cx_success = (errs = []), cx_error = None, cx_errors = errs\<rparr>" "w' = w2"
      "t' = se_obj (set_strategy sid (\<lambda>r. r\<lparr>st_status := Some (if errs = [] then ''closed'' else ''error''),
         st_close_reason := reason, st_closed_at := Some now\<rparr>) s2)"
    using assms(3) unfolding close_request_unfold[OF assms(1)]
    by (simp_all add: cross_close_def q loop end_request_def Let_def session_simps)
  show thesis
    by (rule that[of "\<lparr>cx_success = (errs = []), cx_error = None, cx_errors = errs\<rparr>" s2])
      (use res f in \<open>simp_all add: set_strategy_def\<close>)
qed

lemma close_leg_row_ids:
  "map ps_id (tb_positions (se_obj (fst (close_leg v sid reason now st p)))) = map ps_id (tb_positions (se_obj (fst st)))"
proof -
  obtain s w errs where st: "st = (s, w, errs)" by (cases st)
  show ?thesis unfolding st
    by (rule close_leg_cases[of v sid reason now s w errs p]) (auto simp: comp_def if_distrib cong: if_cong)
qed

lemma cross_close_facts:
  assumes "closable t sid"
    and "\<And>p. p \<in> set (tb_positions t) \<Longrightarrow> is_open_of sid p \<Longrightarrow> known_swap (request_session exs t) p"
    and "close_request v sid reason now exs (t, w) = (c, t', w')"
  obtains a where "c = Cross_closed a" "cx_success a = (cx_errors a = [])" "ids_ok t'"
    "length (filter (is_open_of sid) (tb_positions t')) = length (cx_errors a)"
    "\<forall>r \<in> set (tb_strategies t'). st_id r = sid \<longrightarrow> st_closed_at r = Some now
       \<and> st_status r = Some (if cx_errors a = [] then ''closed'' else ''error'')"
    "map (\<lambda>r. (st_id r, st_type r)) (tb_strategies t') = map (\<lambda>r. (st_id r, st_type r)) (tb_strategies t)"
proof -
  let ?s1 = "db_commit (set_strategy sid (\<lambda>r. r\<lparr>st_status := Some ''closing''\<rparr>) (request_session exs t))"
  let ?ps = "filter (is_open_of sid) (tb_positions t)"
  obtain a s2 where a: "c = Cross_closed a" "cx_success a = (cx_errors a = [])" "tb_positions t' = tb_positions (se_obj s2)"
      "foldl (close_leg v sid reason now) (?s1, w, []) ?ps = (s2, w', cx_errors a)"
      "tb_strategies t' = map (\<lambda>r. if st_id r = sid
         then r\<lparr>st_status := Some (if cx_errors a = [] then ''closed'' else ''error''), st_close_reason := reason, st_closed_at := Some now\<rparr>
         else r) (tb_strategies (se_obj s2))"
    by (rule cross_close_closed[OF assms]) blast
  have ids: "ids_ok t" using assms(1) by (simp add: closable_def)
  have s1: "tb_positions (se_obj ?s1) = tb_positions t" by (simp add: session_simps)
  have d: "distinct (map ps_id (tb_positions t))" using ids by (simp add: ids_ok_def)
  have "length (filter (is_open_of sid) (tb_positions (se_obj s2))) + length ?ps + length ([] :: string list)
      = length (filter (is_open_of sid) (tb_positions (se_obj ?s1))) + length (cx_errors a)"
    by (rule close_loop_count[OF _ _ _ a(4)]) (use d in \<open>auto simp: s1 distinct_map_filter\<close>)
  then have n: "length (filter (is_open_of sid) (tb_positions t')) = length (cx_errors a)" by (simp add: s1 a(3))
  have "map ps_id (tb_positions (se_obj (fst (foldl (close_leg v sid reason now) (?s1, w, []) ?ps)))) = map ps_id (tb_positions (se_obj ?s1))"
    by (rule foldl_frame[where g = "\<lambda>st. map ps_id (tb_positions (se_obj (fst st)))", of _ "(?s1, w, [])", simplified])
      (simp add: close_leg_row_ids)
  then have pid: "map ps_id (tb_positions t') = map ps_id (tb_positions t)" by (simp add: a(3,4) s1)
  have "tb_strategies (se_obj s2) = tb_strategies (se_obj ?s1)"
    using close_loop_frame(3)[of v sid reason now "(?s1, w, [])" ?ps] by (simp add: a(4))
  then have st: "tb_strategies (se_obj s2) = tb_strategies (marked_closing sid t)" by (simp add: closing_session)
  have keys: "map (\<lambda>r. (st_id r, st_type r)) (tb_strategies t') = map (\<lambda>r. (st_id r, st_type r)) (tb_strategies t)"
    unfolding a(5) st by (simp add: marked_closing_def comp_def if_distrib cong: if_cong)
  then have "map fst (map (\<lambda>r. (st_id r, st_type r)) (tb_strategies t')) = map fst (map (\<lambda>r. (st_id r, st_type r)) (tb_strategies t))" by simp
  then have idst: "ids_ok t'" using ids pid by (simp add: ids_ok_def comp_def)
  let ?f = "\<lambda>r. r\<lparr>st_status := Some (if cx_errors a = [] then ''closed'' else ''error''), st_close_reason := reason, st_closed_at := Some now\<rparr>"
  have "st_closed_at r = Some now \<and> st_status r = Some (if cx_errors a = [] then ''closed'' else ''error'')"
    if r: "r \<in> set (tb_strategies t')" "st_id r = sid" for r
  proof -
    obtain y where "r = ?f y" using map_update_hit[of r st_id sid ?f, OF r(1)[unfolded a(5)] r(2)] by auto
    then show ?thesis by simp
  qed
  then have "\<forall>r \<in> set (tb_strategies t'). st_id r = sid \<longrightarrow> st_closed_at r = Some now
      \<and> st_status r = Some (if cx_errors a = [] then ''closed'' else ''error'')" by blast
  from that[OF a(1,2) idst n this keys] show thesis .
qed


text \<open>C7: The comment of the code says that a leg that could not be closed stays open "so risk manager continues
  monitoring": it does not. After a close with a failed leg the strategy is in error and carries a
  closing time while at least one position is still open, and no later risk check, whatever its rules,
  the prices and the exchanges, looks at it: its row and its positions stay as they are.\<close>

theorem failed_cross_close_unmonitored:
  assumes "closable t sid"
    and "\<And>p. p \<in> set (tb_positions t) \<Longrightarrow> is_open_of sid p \<Longrightarrow> known_swap (request_session exs t) p"
    and "close_request v sid reason now exs (t, w) = (Cross_closed a, t', w')" and "cx_errors a \<noteq> []"
    and "run_risk_checks env rules (request_session exs t') w1 = (s', w2)"
  shows "(\<exists>p \<in> set (tb_positions t'). is_open_of sid p)
    \<and> (\<forall>r \<in> set (tb_strategies t'). st_id r = sid \<longrightarrow> st_status r = Some ''error'' \<and> st_closed_at r = Some now)
    \<and> filter (\<lambda>r. st_id r = sid) (tb_strategies (se_obj s')) = filter (\<lambda>r. st_id r = sid) (tb_strategies t')
    \<and> filter (\<lambda>p. ps_strategy_id p = Some sid) (tb_positions (se_obj s')) = filter (\<lambda>p. ps_strategy_id p = Some sid) (tb_positions t')"
proof -
  obtain a' where a': "Cross_closed a = Cross_closed a'" "ids_ok t'"
      "length (filter (is_open_of sid) (tb_positions t')) = length (cx_errors a')"
      "\<forall>r \<in> set (tb_strategies t'). st_id r = sid \<longrightarrow> st_closed_at r = Some now
         \<and> st_status r = Some (if cx_errors a' = [] then ''closed'' else ''error'')"
    by (rule cross_close_facts[OF assms(1-3)]) blast
  let ?s = "request_session exs t'"
  have cl: "clean ?s" by (simp add: clean_def)
  have open_left: "\<exists>p \<in> set (tb_positions t'). is_open_of sid p"
  proof -
    have "filter (is_open_of sid) (tb_positions t') \<noteq> []" using a'(1,3) assms(4) by auto
    then show ?thesis by (simp add: filter_empty_conv)
  qed
  have st: "st_status r = Some ''error'' \<and> st_closed_at r = Some now" if "r \<in> set (tb_strategies t')" "st_id r = sid" for r
    using a'(4) that a'(1) assms(4) by auto
  have act: "sid \<notin> st_id ` set (active_strategies ?s)"
    using active_strategies_clean[OF cl] a'(2) st by auto
  have "agree_on {sid} ?s s'"
  proof (cases "filter rr_enabled rules = []")
    case True
    then show ?thesis using assms(5) by (simp add: run_risk_checks_def)
  next
    case False
    then have "check_strategies env (filter rr_enabled rules) (active_strategies ?s) ?s w1 = (s', w2)"
      using assms(5) by (simp add: run_risk_checks_def)
    from check_strategies_frame[OF this cl] a'(2) act show ?thesis by (auto intro: agree_subset)
  qed
  then have "filter (\<lambda>r. st_id r = sid) (tb_strategies (se_obj s')) = filter (\<lambda>r. st_id r = sid) (tb_strategies t')"
      "filter (\<lambda>p. ps_strategy_id p = Some sid) (tb_positions (se_obj s')) = filter (\<lambda>p. ps_strategy_id p = Some sid) (tb_positions t')"
    by (simp_all add: agree_on_def)
  then show ?thesis using open_left st by blast
qed

text \<open>A close that meets an open position of an exchange that has been deleted dies: the legs closed before
  it are not booked (no position changes), the strategy is left in "closing", and from then on every
  close request for it is refused without an order, whatever the exchanges answer.\<close>

theorem vanished_exchange_blocks_close:
  assumes "closable t sid" and "p \<in> set (tb_positions t)" and "is_open_of sid p"
    and "int_or_zero (ps_exchange_id p) \<notin> ex_id ` set exs"
  shows "\<exists>w'. close_request v sid reason now exs (t, w) = (Server_error, marked_closing sid t, w')
    \<and> (\<forall>v' reason' now' exs'. close_request v' sid reason' now' exs' (marked_closing sid t, w')
          = (Close_refused 400 ''Strategy is already closing'', marked_closing sid t, w'))"
proof -
  let ?s1 = "db_commit (set_strategy sid (\<lambda>r. r\<lparr>st_status := Some ''closing''\<rparr>) (request_session exs t))"
  have ids: "ids_ok t" using assms(1) by (simp add: closable_def)
  obtain r where r: "r \<in> set (tb_strategies t)" "st_id r = sid" using assms(1) by (auto simp: closable_def)
  have d: "distinct (map st_id (tb_strategies t))" using ids by (simp add: ids_ok_def)
  have q: "query_strategy sid (request_session exs t) = Some r" using request_strategy[OF d r(1)] r(2) by simp
  have none: "query_exchange (int_or_zero (ps_exchange_id p)) ?s1 = None"
    using assms(4) by (force simp: query_exchange_def session_simps first_where_None)
  have "p \<in> set (open_positions_of sid ?s1)" unfolding closing_rows[OF ids] using assms(2,3) by simp
  from cross_close_loop_stops[OF this none, of v sid reason now w "[]"] obtain s2 w2 where
    l: "cross_close_loop v sid reason now (open_positions_of sid ?s1) (?s1, w, []) = Inl (s2, w2)" "se_committed s2 = se_committed ?s1"
    by blast
  have c: "se_committed ?s1 = marked_closing sid t" by (simp add: session_simps set_strategy_def marked_closing_def)
  have "close_request v sid reason now exs (t, w) = (Server_error, marked_closing sid t, w2)"
    unfolding close_request_unfold[OF assms(1)] by (simp add: cross_close_def q Let_def l c end_request_def)
  moreover have "close_request v' sid reason' now' exs' (marked_closing sid t, w')
      = (Close_refused 400 ''Strategy is already closing'', marked_closing sid t, w')" for v' :: "'a venue" and reason' now' exs' w'
  proof -
    let ?r = "r\<lparr>st_status := Some ''closing''\<rparr>"
    have m: "?r \<in> set (tb_strategies (marked_closing sid t))" using r by (force simp: marked_closing_def)
    have "distinct (map st_id (tb_strategies (marked_closing sid t)))"
      using d by (simp add: marked_closing_def comp_def if_distrib cong: if_cong)
    from request_strategy[OF this m, of exs'] show ?thesis using r(2) by (simp add: close_request_def)
  qed
  ultimately show ?thesis by blast
qed

text \<open>A cross-exchange strategy with its short leg on the second exchange, which refuses every close.\<close>

definition cross_tables :: tables where
  "cross_tables =
     \<lparr>tb_strategies = map (\<lambda>r. r\<lparr>st_type := Some ''cross_exchange''\<rparr>) (tb_strategies sample_tables),
      tb_positions = map (\<lambda>p. p\<lparr>ps_type := Some ''swap'', ps_exchange_id := Some 2, ps_side := Some ''short''\<rparr>) (tb_positions sample_tables),
      tb_logs = []\<rparr>"

definition refusing_venue :: "nat venue" where
  "refusing_venue = good_venue\<lparr>v_close_hedge := (\<lambda>w e s d q. (None, Suc w))\<rparr>"

lemmas cross_sample_defs = cross_tables_def refusing_venue_def sample_defs

lemma cross_sample:
  "closable cross_tables 7"
  "p \<in> set (tb_positions cross_tables) \<Longrightarrow> is_open_of 7 p \<Longrightarrow> known_swap (request_session sample_exchanges cross_tables) p"
  by (auto simp: closable_def ids_ok_def known_swap_def query_exchange_def request_session_def cross_sample_defs)

lemma cross_sample_request:
  "\<exists>a t'. close_request refusing_venue 7 ''manual'' 50 sample_exchanges (cross_tables, 0) = (Cross_closed a, t', 1) \<and> cx_errors a \<noteq> []"
  by (simp add: close_request_def cross_close_def request_session_def query_strategy_def sql_view_def obj_strategy_def
      open_positions_of_def query_positions_def obj_position_def cross_close_leg_def query_exchange_def is_open_of_def
      db_commit_def set_strategy_def Let_def cross_sample_defs)


theorem failed_cross_close_unmonitored_witness:
  "\<exists>a t' s' w2. close_request refusing_venue 7 ''manual'' 50 sample_exchanges (cross_tables, 0) = (Cross_closed a, t', 1)
    \<and> run_risk_checks refusing_env [loss_rule] (request_session sample_exchanges t') () = (s', w2)
    \<and> (\<exists>p \<in> set (tb_positions t'). is_open_of 7 p)
    \<and> filter (\<lambda>p. ps_strategy_id p = Some 7) (tb_positions (se_obj s')) = filter (\<lambda>p. ps_strategy_id p = Some 7) (tb_positions t')"
proof -
  obtain a t' where c: "close_request refusing_venue 7 ''manual'' 50 sample_exchanges (cross_tables, 0) = (Cross_closed a, t', 1)"
      and e: "cx_errors a \<noteq> []"
    using cross_sample_request by blast
  obtain s' w2 where r: "run_risk_checks refusing_env [loss_rule] (request_session sample_exchanges t') () = (s', w2)"
    by (metis surj_pair)
  from failed_cross_close_unmonitored[OF cross_sample c e r] c r show ?thesis by blast
qed

theorem vanished_exchange_blocks_close_witness:
  "\<exists>w'. close_request refusing_venue 7 ''manual'' 50 [] (cross_tables, 0) = (Server_error, marked_closing 7 cross_tables, w')"
proof -
  obtain p where "p \<in> set (tb_positions cross_tables)" "is_open_of 7 p" by (auto simp: is_open_of_def cross_sample_defs)
  from vanished_exchange_blocks_close[OF cross_sample(1) this, of "[]" refusing_venue "''manual''" 50 0] show ?thesis by auto
qed

end
