(* ===== verification/Pnl.thy ===== *)
theory Pnl
  imports FundingLedger TakerFee Collector
begin

text \<open>
  The profit report (\<open>core/pnl_v2_logic.py\<close>, \<open>infra/pnl_v2/runtime\<close>): windows in Shanghai time,
  expected and captured funding payments and their quality, and the row of a strategy. Times are
  seconds since the epoch, a calendar day is the number of days since the epoch; a date text has been
  parsed. The time columns that the other parts do not need extend their rows. Left out: the names of
  strategies.
\<close>

section \<open>Windows\<close>

definition day_secs :: real where
  "day_secs = 86400"

definition utc8_offset :: real where
  "utc8_offset = 8 * 3600"

text \<open>The Shanghai day of a time, and the UTC time at which a Shanghai day begins.\<close>

definition cn_day :: "real \<Rightarrow> int" where
  "cn_day t = \<lfloor>(t + utc8_offset) / day_secs\<rfloor>"

definition cn_midnight :: "int \<Rightarrow> real" where
  "cn_midnight d = of_int d * day_secs - utc8_offset"

definition datetime_min :: real where
  "datetime_min = - 62135596800"

definition utc8_window_days :: "int \<Rightarrow> real \<Rightarrow> real \<times> real" where
  "utc8_window_days days now =
     (if days \<le> 0 then (datetime_min, now) else (cn_midnight (cn_day now - (days - 1)), now))"

text \<open>A date argument: missing (or empty), not a date, or a day.\<close>

datatype date_arg = No_date | Bad_date | Day int

definition microsecond :: real where
  "microsecond = 1 / 1000000"

definition resolve_window :: "int \<Rightarrow> date_arg \<Rightarrow> date_arg \<Rightarrow> real \<Rightarrow> string + real \<times> real" where
  "resolve_window days start_date end_date now =
     (if start_date = No_date \<and> end_date = No_date then Inr (utc8_window_days days now)
      else if start_date = Bad_date then Inl ''invalid start_date, expected YYYY-MM-DD''
      else if end_date = Bad_date then Inl ''invalid end_date, expected YYYY-MM-DD''
      else
        let s = (case start_date of Day d \<Rightarrow> d | _ \<Rightarrow> (case end_date of Day d \<Rightarrow> d | _ \<Rightarrow> 0));
            e = (case end_date of Day d \<Rightarrow> d | _ \<Rightarrow> s)
        in if s > e then Inl ''start_date must be <= end_date''
           else Inr (cn_midnight s, min (cn_midnight (e + 1) - microsecond) now))"

section \<open>Funding payments\<close>

text \<open>The loop over the settlement times up to the end.\<close>

function count_settlements :: "real \<Rightarrow> real \<Rightarrow> real \<Rightarrow> nat" where
  "count_settlements period current finish =
     (if period \<le> 0 \<or> finish < current then 0 else Suc (count_settlements period (current + period) finish))"
  by pat_completeness auto

termination
proof (relation "measure (\<lambda>(period, current, finish). nat (\<lfloor>(finish - current) / period\<rfloor> + 1))", simp)
  fix period current finish :: real
  assume a: "\<not> (period \<le> 0 \<or> finish < current)"
  then have "(finish - (current + period)) / period = (finish - current) / period - 1" by (simp add: field_simps)
  moreover have "0 \<le> (finish - current) / period" using a by simp
  ultimately show "((period, current + period, finish), period, current, finish)
      \<in> measure (\<lambda>(period, current, finish). nat (\<lfloor>(finish - current) / period\<rfloor> + 1))"
    by simp
qed

declare count_settlements.simps [simp del]

text \<open>The default anchor is the epoch, time 0.\<close>

definition count_expected_funding_events :: "real \<Rightarrow> real \<Rightarrow> int \<Rightarrow> nat" where
  "count_expected_funding_events start finish hours =
     (if hours \<le> 0 \<or> finish \<le> start then 0
      else
        let period = of_int hours * 3600;
            steps = max 0 \<lceil>start / period\<rceil>;
            first0 = of_int steps * period;
            first = (if first0 < start then first0 + period else first0)
        in count_settlements period first finish)"

definition settlement_interval_hours :: "string option \<Rightarrow> int" where
  "settlement_interval_hours name =
     (case map_of [(''binance'', 8), (''okx'', 8), (''bybit'', 8), (''gate'', 8), (''mexc'', 8)] (py_lower (str_or_empty name)) of
        Some h \<Rightarrow> h | None \<Rightarrow> 8)"

definition classify_quality :: "nat \<Rightarrow> nat \<Rightarrow> fopt \<Rightarrow> real \<Rightarrow> real \<Rightarrow> string" where
  "classify_quality expected captured last_success now stale_after =
     (if expected = 0 then ''na''
      else if captured = 0 then ''missing''
      else if (case last_success of None \<Rightarrow> False | Some t \<Rightarrow> stale_after > 0 \<and> now - t > stale_after) then ''stale''
      else if captured < expected then ''partial''
      else ''ok'')"

definition quality_rank :: "string \<Rightarrow> nat" where
  "quality_rank q = (if q = ''partial'' then 1 else if q = ''stale'' then 2 else if q = ''missing'' then 3 else 0)"

definition combine_quality :: "string list \<Rightarrow> string" where
  "combine_quality qs =
     (let vals = map (\<lambda>q. if q = [] then ''ok'' else q) qs in
      if vals = [] then ''ok''
      else if list_all (\<lambda>v. v = ''na'') vals then ''na''
      else foldl (\<lambda>best q. if quality_rank q > quality_rank best then q else best) ''ok'' vals)"

definition quality_reason_of :: "string \<Rightarrow> string option" where
  "quality_reason_of q = map_of [(''missing'', ''funding_api_no_data''), (''stale'', ''funding_data_stale''), (''partial'', ''cursor_gap_detected'')] q"

definition build_quality_metadata :: "nat \<Rightarrow> nat \<Rightarrow> fopt \<Rightarrow> string \<Rightarrow> real \<Rightarrow> string \<times> real option \<times> string option \<times> string list" where
  "build_quality_metadata expected captured last_success last_error now =
     (let q = classify_quality expected captured last_success now 3600 in
      (q, (if expected = 0 then None else Some (py_round (real captured / real expected) 6)), quality_reason_of q,
       (if expected > 0 \<and> captured < expected
        then [''funding_coverage='' @ digits_of captured @ ''/'' @ digits_of expected] else [])
       @ (if last_error \<noteq> [] then [''last_cursor_error='' @ take 160 last_error] else [])))"

section \<open>Cash flows\<close>

definition cashflow_actions :: "string list" where
  "cashflow_actions = [''open'', ''close'', ''emergency_close'', ''repair_reduce'']"

definition log_flow :: "'a trade_log_scheme \<Rightarrow> real" where
  "log_flow l = to_float (tl_price l) 0 * to_float (tl_size l) 0"

definition signed_flow :: "'a trade_log_scheme \<Rightarrow> real" where
  "signed_flow l = (if tl_action l \<in> set cashflow_actions then (if tl_side l = ''sell'' then log_flow l else - log_flow l) else 0)"

definition calc_spread_pnl :: "'a trade_log_scheme list \<Rightarrow> real" where
  "calc_spread_pnl logs = sum_list (map signed_flow logs)"

definition calc_fees :: "'a trade_log_scheme list \<Rightarrow> real" where
  "calc_fees logs = sum_list (map (\<lambda>l. log_flow l * get_vip0_taker_fee (Some (tl_exchange l))) logs)"

definition should_include_current_unrealized :: "real \<Rightarrow> real \<Rightarrow> bool" where
  "should_include_current_unrealized finish now = (\<bar>now - finish\<bar> \<le> 120)"

section \<open>Rows of the database\<close>

record timed_log = trade_log +
  tl_time :: real

record timed_position = position_row +
  ps_created :: "real option"

record timed_strategy = strategy_row +
  st_created :: real
  st_funding_pnl :: fopt

record timed_cursor = cursor_row +
  cu_updated :: real

record daily_row =
  dy_date :: int
  dy_start :: real
  dy_end :: real
  dy_as_of :: real
  dy_strategy_total :: real
  dy_legacy_total :: real
  dy_abs_diff :: real
  dy_pct_diff :: real
  dy_passed :: bool
  dy_count :: nat
  dy_missing :: nat

record pnl_db =
  pd_strategies :: "timed_strategy list"
  pd_positions :: "timed_position list"
  pd_logs :: "timed_log list"
  pd_exchanges :: "(exchange_row \<times> bool) list"
  pd_rows :: "ledger_row list"
  pd_assigned :: "assignment list"
  pd_cursors :: "timed_cursor list"
  pd_daily :: "daily_row list"

definition logs_between :: "pnl_db \<Rightarrow> int \<Rightarrow> real \<Rightarrow> real \<Rightarrow> timed_log list" where
  "logs_between db sid start finish =
     filter (\<lambda>l. tl_strategy_id l = sid \<and> start \<le> tl_time l \<and> tl_time l \<le> finish) (pd_logs db)"

definition positions_of :: "pnl_db \<Rightarrow> int \<Rightarrow> timed_position list" where
  "positions_of db sid = filter (\<lambda>p. ps_strategy_id p = Some sid) (pd_positions db)"

definition open_unrealized :: "timed_position list \<Rightarrow> real" where
  "open_unrealized ps = sum_list (map (\<lambda>p. to_float (ps_unrealized p) 0) (filter (\<lambda>p. ps_status p = Some ''open'') ps))"

text \<open>The join of the assignments with their ledger rows.\<close>

definition funding_time :: "ledger_row \<Rightarrow> real" where
  "funding_time r = of_int (lg_time r) / 1000"

definition assigned_between :: "pnl_db \<Rightarrow> int \<Rightarrow> real \<Rightarrow> real \<Rightarrow> (assignment \<times> ledger_row) list" where
  "assigned_between db sid start finish =
     [(a, r). a \<leftarrow> pd_assigned db, as_strategy a = sid,
        r \<leftarrow> pd_rows db, lg_id r = as_ledger a \<and> start \<le> funding_time r \<and> funding_time r \<le> finish]"

definition funding_sum :: "pnl_db \<Rightarrow> int \<Rightarrow> real \<Rightarrow> real \<Rightarrow> real" where
  "funding_sum db sid start finish = sum_list (map (\<lambda>(a, r). as_amount a) (assigned_between db sid start finish))"

definition captured_count :: "pnl_db \<Rightarrow> int \<Rightarrow> real \<Rightarrow> real \<Rightarrow> nat" where
  "captured_count db sid start finish = length (remdups (map (\<lambda>(a, r). as_ledger a) (assigned_between db sid start finish)))"

text \<open>The oldest of the last successes, and the newest recorded error, of the cursors of some exchanges.\<close>

definition cursor_last_success :: "pnl_db \<Rightarrow> int list \<Rightarrow> fopt" where
  "cursor_last_success db ids =
     (let ts = List.map_filter cu_success (filter (\<lambda>c. cu_exchange c \<in> set ids) (pd_cursors db)) in
      if ts = [] then None else Some (of_int (Min (set ts)) / 1000))"

definition cursor_last_error :: "pnl_db \<Rightarrow> int list \<Rightarrow> string" where
  "cursor_last_error db ids =
     (case sort_desc cu_updated (filter (\<lambda>c. cu_exchange c \<in> set ids \<and> cu_error c \<noteq> []) (pd_cursors db)) of
        [] \<Rightarrow> [] | c # _ \<Rightarrow> cu_error c)"

section \<open>The row of a strategy\<close>

definition perp_types :: "string list" where
  "perp_types = [''swap'', ''futures'', ''future'', ''perp'', ''perpetual'']"

definition is_perp :: "'a position_row_scheme \<Rightarrow> bool" where
  "is_perp p = (py_lower (str_or_empty (ps_type p)) \<in> set perp_types)"

text \<open>The payments expected of one position in the part of the window in which it was held.\<close>

definition position_expected :: "(int \<Rightarrow> string option) \<Rightarrow> timed_strategy \<Rightarrow> real \<Rightarrow> real \<Rightarrow> timed_position \<Rightarrow> nat" where
  "position_expected names s start finish p =
     (let from = max start (case ps_created p of Some t \<Rightarrow> t | None \<Rightarrow> st_created s);
          until = min finish (case ps_closed_at p of Some t \<Rightarrow> t | None \<Rightarrow> (case st_closed_at s of Some t \<Rightarrow> t | None \<Rightarrow> finish))
      in if \<not> is_perp p \<or> until \<le> from then 0
         else count_expected_funding_events from until (settlement_interval_hours (names (int_or_zero (ps_exchange_id p)))))"

definition strategy_funding_scope ::
    "timed_strategy \<Rightarrow> timed_position list \<Rightarrow> (int \<Rightarrow> string option) \<Rightarrow> real \<Rightarrow> real \<Rightarrow> nat \<times> int list" where
  "strategy_funding_scope s ps names start finish =
     (sum_list (map (position_expected names s start finish) ps),
      sort (remdups (map (\<lambda>p. int_or_zero (ps_exchange_id p)) (filter (\<lambda>p. position_expected names s start finish p > 0) ps))))"

text \<open>The annualised funding of the caches; the intervals of the quotes are not looked at.\<close>

definition calc_current_annualized_pct :: "market_caches \<Rightarrow> timed_strategy \<Rightarrow> real option" where
  "calc_current_annualized_pct c s =
     (let rate = (\<lambda>i. cached (mc_funding c) (int_or_zero i) (str_or_empty (st_symbol s)));
          daily = (\<lambda>d. rt_rate d * 100 * funding_periods_per_day None)
      in if st_type s = Some ''cross_exchange'' then
           (case (rate (st_long_ex s), rate (st_short_ex s)) of
              (Some l, Some h) \<Rightarrow> Some (py_round ((daily h - daily l) * 365) 2)
            | _ \<Rightarrow> None)
         else if st_type s = Some ''spot_hedge'' then
           (case rate (st_short_ex s) of
              Some h \<Rightarrow> Some (py_round (daily h * 365) 2)
            | None \<Rightarrow> None)
         else None)"

record pnl_row =
  pr_id :: int
  pr_type :: "string option"
  pr_symbol :: "string option"
  pr_status :: "string option"
  pr_margin :: real
  pr_long_name :: string
  pr_short_name :: string
  pr_spread :: real
  pr_funding :: "real option"
  pr_fee :: real
  pr_total :: "real option"
  pr_pct :: "real option"
  pr_annualized :: "real option"
  pr_expected :: nat
  pr_captured :: nat
  pr_coverage :: "real option"
  pr_quality :: string
  pr_reason :: "string option"
  pr_warnings :: "string list"
  pr_last_success :: fopt
  pr_last_error :: "string option"
  pr_as_of :: real
  pr_created :: real
  pr_closed :: fopt
  pr_close_reason :: string

definition exchange_names :: "pnl_db \<Rightarrow> int \<Rightarrow> string option" where
  "exchange_names db i = map_option (\<lambda>x. py_lower (ex_name (fst x))) (first_where (\<lambda>x. ex_id (fst x) = i) (pd_exchanges db))"

definition exchange_label :: "pnl_db \<Rightarrow> int option \<Rightarrow> string" where
  "exchange_label db i =
     (case i of
        None \<Rightarrow> ''None''
      | Some k \<Rightarrow>
          (case first_where (\<lambda>x. ex_id (fst x) = k) (pd_exchanges db) of
             None \<Rightarrow> str_of_int k
           | Some (e, _) \<Rightarrow>
               (case py_or_str (ex_display_name e) (py_or_str (Some (ex_name e)) None) of Some n \<Rightarrow> n | None \<Rightarrow> str_of_int (ex_id e))))"

definition spread_between :: "pnl_db \<Rightarrow> timed_strategy \<Rightarrow> real \<Rightarrow> real \<Rightarrow> real \<Rightarrow> real" where
  "spread_between db s start finish now =
     calc_spread_pnl (logs_between db (st_id s) start finish)
       + (if st_status s = Some ''active'' \<and> should_include_current_unrealized finish now
          then open_unrealized (positions_of db (st_id s)) else 0)"

definition fees_between :: "pnl_db \<Rightarrow> timed_strategy \<Rightarrow> real \<Rightarrow> real \<Rightarrow> real" where
  "fees_between db s start finish = calc_fees (logs_between db (st_id s) start finish)"

text \<open>The exchanges whose cursors count: those that owe payments, else the two of the strategy.\<close>

definition cursor_scope :: "timed_strategy \<Rightarrow> int list \<Rightarrow> int list" where
  "cursor_scope s ids =
     (if ids \<noteq> [] then ids else sort (remdups (List.map_filter id [st_long_ex s, st_short_ex s])))"

definition serialize_strategy_row :: "pnl_db \<Rightarrow> market_caches \<Rightarrow> timed_strategy \<Rightarrow> real \<Rightarrow> real \<Rightarrow> real \<Rightarrow> pnl_row" where
  "serialize_strategy_row db c s start finish now =
     (let spread = spread_between db s start finish now;
          fees = fees_between db s start finish;
          captured = captured_count db (st_id s) start finish;
          (expected, ids0) = strategy_funding_scope s (positions_of db (st_id s)) (exchange_names db) start finish;
          ids = cursor_scope s ids0;
          last_success = cursor_last_success db ids;
          last_error = cursor_last_error db ids;
          (quality, coverage, reason, warnings) = build_quality_metadata expected captured last_success last_error finish;
          funding = (if quality = ''missing'' then None else Some (py_round (funding_sum db (st_id s) start finish) 6));
          total = map_option (\<lambda>f. py_round (spread - fees + f) 6) funding;
          margin = to_float (st_initial_margin s) 0
      in \<lparr>pr_id = st_id s, pr_type = st_type s, pr_symbol = st_symbol s, pr_status = st_status s, pr_margin = py_round margin 6,
          pr_long_name = exchange_label db (st_long_ex s), pr_short_name = exchange_label db (st_short_ex s),
          pr_spread = py_round spread 6, pr_funding = funding, pr_fee = py_round fees 6, pr_total = total,
          pr_pct = (if margin \<le> 0 then None else map_option (\<lambda>t. py_round (t / margin * 100) 6) total),
          pr_annualized = calc_current_annualized_pct c s, pr_expected = expected, pr_captured = captured, pr_coverage = coverage,
          pr_quality = quality, pr_reason = reason, pr_warnings = warnings, pr_last_success = last_success,
          pr_last_error = (if last_error = [] then None else Some last_error), pr_as_of = finish, pr_created = st_created s,
          pr_closed = st_closed_at s, pr_close_reason = st_close_reason s\<rparr>)"

text \<open>The older path: the same spread and fees, with the accumulated funding column of the strategy.\<close>

definition legacy_total :: "pnl_db \<Rightarrow> timed_strategy \<Rightarrow> real \<Rightarrow> real \<Rightarrow> real \<Rightarrow> real" where
  "legacy_total db s start finish now =
     py_round (spread_between db s start finish now - fees_between db s start finish + to_float (st_funding_pnl s) 0) 6"

text \<open>The strategies of a window, newest first.\<close>

definition window_strategies :: "pnl_db \<Rightarrow> real \<Rightarrow> real \<Rightarrow> string option \<Rightarrow> timed_strategy list" where
  "window_strategies db start finish status =
     sort_desc st_created
       (filter (\<lambda>s. st_created s \<le> finish \<and> (case st_closed_at s of None \<Rightarrow> True | Some t \<Rightarrow> start \<le> t)
            \<and> (status \<noteq> None \<longrightarrow> st_status s = status))
         (pd_strategies db))"

definition build_strategy_rows ::
    "pnl_db \<Rightarrow> market_caches \<Rightarrow> real \<Rightarrow> real \<Rightarrow> string option \<Rightarrow> string option \<Rightarrow> real \<Rightarrow> pnl_row list" where
  "build_strategy_rows db c start finish status quality now =
     filter (\<lambda>r. quality \<noteq> None \<longrightarrow> Some (pr_quality r) = quality)
       (map (\<lambda>s. serialize_strategy_row db c s start finish now) (window_strategies db start finish status))"

end
