(* ===== verification/PnlApi.thy ===== *)
theory PnlApi
  imports Pnl
begin

text \<open>
  The endpoints of the profit report (\<open>infra/pnl_v2/runtime\<close>): the paged list, the summary with its
  attribution and the comparison with the older path, the daily reconciliation, the funding events and
  the entry prices of the detail page. A request that is refused is \<open>Inl\<close> its detail. Left out: the
  echo of the request in the answers and the printing of the CSV file.
\<close>

section \<open>Pages\<close>

text \<open>\<open>rows[idx: idx + page_size]\<close> and the number of pages; both arguments are positive.\<close>

definition page_of :: "nat \<Rightarrow> nat \<Rightarrow> 'a list \<Rightarrow> 'a list" where
  "page_of page size_of_page rows = take size_of_page (drop ((page - 1) * size_of_page) rows)"

definition total_pages :: "nat \<Rightarrow> 'a list \<Rightarrow> nat" where
  "total_pages size_of_page rows =
     (if length rows > 0 then (length rows + size_of_page - 1) div size_of_page else 0)"

record page_answer =
  pg_rows :: "pnl_row list"
  pg_total :: nat
  pg_pages :: nat

definition page_bounds :: "int \<Rightarrow> int \<Rightarrow> nat \<times> nat" where
  "page_bounds page page_size = (nat (max 1 page), nat (max 1 (min 500 page_size)))"

definition get_strategy_pnl ::
    "pnl_db \<Rightarrow> market_caches \<Rightarrow> int \<Rightarrow> date_arg \<Rightarrow> date_arg \<Rightarrow> string option \<Rightarrow> string option \<Rightarrow> int \<Rightarrow> int \<Rightarrow> real
      \<Rightarrow> string + page_answer" where
  "get_strategy_pnl db c days start_date end_date status quality page page_size now =
     (case resolve_window days start_date end_date now of
        Inl e \<Rightarrow> Inl e
      | Inr (start, finish) \<Rightarrow>
          let rows = build_strategy_rows db c start finish status quality now; (p, n) = page_bounds page page_size
          in Inr \<lparr>pg_rows = page_of p n rows, pg_total = length rows, pg_pages = total_pages n rows\<rparr>)"

section \<open>Attribution\<close>

record bucket_entry =
  be_id :: int
  be_pnl :: real

record bucket =
  bk_count :: nat
  bk_pnl :: real
  bk_members :: "bucket_entry list"

fun add_to_bucket :: "string \<Rightarrow> int \<Rightarrow> real \<Rightarrow> (string \<times> bucket) list \<Rightarrow> (string \<times> bucket) list" where
  "add_to_bucket t i x [] = [(t, \<lparr>bk_count = 1, bk_pnl = x, bk_members = [\<lparr>be_id = i, be_pnl = py_round x 6\<rparr>]\<rparr>)]"
| "add_to_bucket t i x ((k, b) # m) =
     (if k = t then (k, \<lparr>bk_count = bk_count b + 1, bk_pnl = bk_pnl b + x, bk_members = bk_members b @ [\<lparr>be_id = i, be_pnl = py_round x 6\<rparr>]\<rparr>) # m
      else (k, b) # add_to_bucket t i x m)"

record attribution_state =
  ab_profit_total :: real
  ab_loss_total :: real
  ab_profit :: "(string \<times> bucket) list"
  ab_loss :: "(string \<times> bucket) list"

definition bucket_name :: "pnl_row \<Rightarrow> string" where
  "bucket_name r = (case pr_type r of None \<Rightarrow> ''unknown'' | Some t \<Rightarrow> if t = [] then ''unknown'' else t)"

definition attribution_step :: "attribution_state \<Rightarrow> pnl_row \<Rightarrow> attribution_state" where
  "attribution_step a r =
     (case pr_total r of
        None \<Rightarrow> a
      | Some x \<Rightarrow>
          if x > 0 then a\<lparr>ab_profit_total := ab_profit_total a + x, ab_profit := add_to_bucket (bucket_name r) (pr_id r) x (ab_profit a)\<rparr>
          else if x < 0 then a\<lparr>ab_loss_total := ab_loss_total a + \<bar>x\<bar>, ab_loss := add_to_bucket (bucket_name r) (pr_id r) x (ab_loss a)\<rparr>
          else a)"

record attribution_entry =
  ae_type :: string
  ae_count :: nat
  ae_pnl :: real
  ae_ratio :: "real option"
  ae_members :: "bucket_entry list"

definition emit_entry :: "real \<Rightarrow> bool \<Rightarrow> string \<times> bucket \<Rightarrow> attribution_entry" where
  "emit_entry denom abs_ratio x =
     (case x of (t, b) \<Rightarrow>
       \<lparr>ae_type = t, ae_count = bk_count b, ae_pnl = py_round (bk_pnl b) 6,
        ae_ratio = (if denom \<le> 0 then None else Some (py_round ((if abs_ratio then \<bar>bk_pnl b\<bar> else bk_pnl b) / denom) 6)),
        ae_members = take 20 (sort_desc (\<lambda>e. \<bar>be_pnl e\<bar>) (bk_members b))\<rparr>)"

definition emit_side :: "(string \<times> bucket) list \<Rightarrow> real \<Rightarrow> bool \<Rightarrow> attribution_entry list" where
  "emit_side m denom abs_ratio = sort_desc (\<lambda>e. \<bar>ae_pnl e\<bar>) (map (emit_entry denom abs_ratio) m)"

definition attribution_fold :: "pnl_row list \<Rightarrow> attribution_state" where
  "attribution_fold rows = foldl attribution_step \<lparr>ab_profit_total = 0, ab_loss_total = 0, ab_profit = [], ab_loss = []\<rparr> rows"

definition compute_attribution :: "pnl_row list \<Rightarrow> attribution_entry list \<times> attribution_entry list" where
  "compute_attribution rows =
     (let a = attribution_fold rows in (emit_side (ab_profit a) (ab_profit_total a) False, emit_side (ab_loss a) (ab_loss_total a) True))"

text \<open>Started, closed and continued strategies of a window.\<close>

definition compute_status_overview :: "pnl_row list \<Rightarrow> real \<Rightarrow> real \<Rightarrow> nat \<times> nat \<times> nat" where
  "compute_status_overview rows start finish =
     (length (filter (\<lambda>r. start \<le> pr_created r \<and> pr_created r \<le> finish) rows),
      length (filter (\<lambda>r. case pr_closed r of None \<Rightarrow> False | Some t \<Rightarrow> start \<le> t \<and> t \<le> finish) rows),
      length (filter (\<lambda>r. pr_created r < start \<and> (case pr_closed r of None \<Rightarrow> True | Some t \<Rightarrow> start \<le> t)) rows))"

section \<open>The two tracks\<close>

record reconciliation =
  rc_passed :: bool
  rc_abs_diff :: real
  rc_pct_diff :: real

definition tolerance_abs :: real where
  "tolerance_abs = 5"

definition tolerance_pct :: real where
  "tolerance_pct = 1 / 1000"

definition reconcile_daily_totals :: "real \<Rightarrow> real \<Rightarrow> reconciliation" where
  "reconcile_daily_totals strategy_total dashboard_total =
     (let abs_diff = \<bar>strategy_total - dashboard_total\<bar>; pct_diff = abs_diff / max \<bar>dashboard_total\<bar> 1
      in \<lparr>rc_passed = (abs_diff \<le> tolerance_abs \<or> pct_diff \<le> tolerance_pct),
          rc_abs_diff = py_round abs_diff 8, rc_pct_diff = py_round pct_diff 8\<rparr>)"

definition comparable_rows :: "pnl_row list \<Rightarrow> pnl_row list" where
  "comparable_rows rows = filter (\<lambda>r. pr_total r \<noteq> None) rows"

definition strategy_total_of :: "pnl_row list \<Rightarrow> real" where
  "strategy_total_of rows = sum_list (map (\<lambda>r. to_float (pr_total r) 0) (comparable_rows rows))"

text \<open>The older totals by id, of the strategies that the query finds.\<close>

definition legacy_map :: "pnl_db \<Rightarrow> real \<Rightarrow> real \<Rightarrow> string option \<Rightarrow> real \<Rightarrow> int \<Rightarrow> real option" where
  "legacy_map db start finish status now i =
     map_option (\<lambda>s. legacy_total db s start finish now) (first_where (\<lambda>s. st_id s = i) (window_strategies db start finish status))"

definition legacy_total_of :: "pnl_db \<Rightarrow> real \<Rightarrow> real \<Rightarrow> string option \<Rightarrow> real \<Rightarrow> pnl_row list \<Rightarrow> real" where
  "legacy_total_of db start finish status now rows =
     py_round (sum_list (map (\<lambda>r. to_float (legacy_map db start finish status now (pr_id r)) 0) (comparable_rows rows))) 6"

section \<open>The summary\<close>

record pnl_summary =
  sm_capital :: real
  sm_spread :: real
  sm_funding :: "real option"
  sm_fee :: real
  sm_total :: "real option"
  sm_pct :: "real option"
  sm_expected :: nat
  sm_captured :: nat
  sm_coverage :: "real option"
  sm_quality :: string
  sm_reason :: "string option"
  sm_warnings :: "string list"
  sm_reconciliation :: reconciliation
  sm_new_total :: real
  sm_old_total :: real
  sm_comparable :: nat
  sm_excluded :: nat
  sm_count :: nat
  sm_anomalies :: nat
  sm_closed :: nat
  sm_closed_with_total :: nat
  sm_wins :: nat
  sm_losses :: nat
  sm_win_rate :: "real option"
  sm_overview :: "nat \<times> nat \<times> nat"
  sm_attribution :: "attribution_entry list \<times> attribution_entry list"

definition summary_of_rows :: "pnl_row list \<Rightarrow> real \<Rightarrow> real \<Rightarrow> real \<Rightarrow> pnl_summary" where
  "summary_of_rows rows start finish old_total =
     (let spread = sum_list (map pr_spread rows); fee = sum_list (map pr_fee rows); capital = sum_list (map pr_margin rows);
          expected = sum_list (map pr_expected rows); captured = sum_list (map pr_captured rows);
          funding = (if \<exists>r \<in> set rows. pr_funding r = None then None
                     else Some (py_round (sum_list (map (\<lambda>r. to_float (pr_funding r) 0) rows)) 6));
          total = map_option (\<lambda>f. py_round (spread - fee + f) 6) funding;
          quality = combine_quality (if rows = [] then [''ok''] else map pr_quality rows);
          closed_rows = filter (\<lambda>r. pr_status r = Some ''closed'' \<or> pr_status r = Some ''closing'') rows;
          with_total = comparable_rows closed_rows;
          wins = length (filter (\<lambda>r. to_float (pr_total r) 0 > 0) with_total);
          new_total = strategy_total_of rows
      in \<lparr>sm_capital = py_round capital 6, sm_spread = py_round spread 6, sm_funding = funding, sm_fee = py_round fee 6,
          sm_total = total, sm_pct = (if capital \<le> 0 then None else map_option (\<lambda>t. py_round (t / capital * 100) 6) total),
          sm_expected = expected, sm_captured = captured,
          sm_coverage = (if expected = 0 then None else Some (py_round (real captured / real expected) 6)),
          sm_quality = quality, sm_reason = quality_reason_of quality,
          sm_warnings = foldl (\<lambda>ws w. if w \<in> set ws then ws else ws @ [w]) [] (concat (map pr_warnings rows)),
          sm_reconciliation = reconcile_daily_totals new_total old_total, sm_new_total = py_round new_total 6, sm_old_total = old_total,
          sm_comparable = length (comparable_rows rows), sm_excluded = length rows - length (comparable_rows rows),
          sm_count = length rows,
          sm_anomalies = length (filter (\<lambda>r. pr_quality r \<notin> {''ok'', ''na''} \<or> pr_total r = None) rows),
          sm_closed = length closed_rows, sm_closed_with_total = length with_total, sm_wins = wins,
          sm_losses = length (filter (\<lambda>r. to_float (pr_total r) 0 \<le> 0) with_total),
          sm_win_rate = (if with_total = [] then None else Some (py_round (real wins / real (length with_total)) 6)),
          sm_overview = compute_status_overview rows start finish, sm_attribution = compute_attribution rows\<rparr>)"

record operational =
  om_active :: nat
  om_open :: nat
  om_trades :: nat
  om_exchanges :: nat

definition dashboard_operational_metrics :: "pnl_db \<Rightarrow> real \<Rightarrow> operational" where
  "dashboard_operational_metrics db as_of =
     \<lparr>om_active = length (filter (\<lambda>s. st_status s = Some ''active'') (pd_strategies db)),
      om_open = length (filter (\<lambda>p. ps_status p = Some ''open'') (pd_positions db)),
      om_trades = length (filter (\<lambda>l. cn_midnight (cn_day as_of) \<le> tl_time l \<and> tl_time l \<le> as_of) (pd_logs db)),
      om_exchanges = length (filter snd (pd_exchanges db))\<rparr>"

definition get_pnl_summary ::
    "pnl_db \<Rightarrow> market_caches \<Rightarrow> int \<Rightarrow> date_arg \<Rightarrow> date_arg \<Rightarrow> string option \<Rightarrow> string option \<Rightarrow> real
      \<Rightarrow> string + pnl_summary \<times> operational" where
  "get_pnl_summary db c days start_date end_date status quality now =
     (case resolve_window days start_date end_date now of
        Inl e \<Rightarrow> Inl e
      | Inr (start, finish) \<Rightarrow>
          let rows = build_strategy_rows db c start finish status quality now
          in Inr (summary_of_rows rows start finish (legacy_total_of db start finish status now rows),
                  dashboard_operational_metrics db finish))"

section \<open>The daily reconciliation\<close>

definition normalize_reconcile_trade_date :: "date_arg \<Rightarrow> real \<Rightarrow> string + int" where
  "normalize_reconcile_trade_date d now =
     (case d of Day k \<Rightarrow> Inr k | Bad_date \<Rightarrow> Inl ''invalid trade_date, expected YYYY-MM-DD'' | No_date \<Rightarrow> Inr (cn_day now - 1))"

text \<open>One row per date: an existing row is overwritten.\<close>

definition put_daily :: "daily_row \<Rightarrow> daily_row list \<Rightarrow> daily_row list" where
  "put_daily r rows =
     (if \<exists>x \<in> set rows. dy_date x = dy_date r then map (\<lambda>x. if dy_date x = dy_date r then r else x) rows else rows @ [r])"

definition daily_row_of :: "pnl_db \<Rightarrow> market_caches \<Rightarrow> int \<Rightarrow> real \<Rightarrow> real \<Rightarrow> real \<Rightarrow> daily_row" where
  "daily_row_of db c day start finish now =
     (let rows = build_strategy_rows db c start finish None None now;
          new_total = strategy_total_of rows; old_total = legacy_total_of db start finish None now rows;
          r = reconcile_daily_totals new_total old_total
      in \<lparr>dy_date = day, dy_start = start, dy_end = finish, dy_as_of = now, dy_strategy_total = new_total, dy_legacy_total = old_total,
          dy_abs_diff = rc_abs_diff r, dy_pct_diff = rc_pct_diff r, dy_passed = rc_passed r, dy_count = length rows,
          dy_missing = length (filter (\<lambda>r. pr_funding r = None) rows)\<rparr>)"

definition run_daily_reconcile :: "market_caches \<Rightarrow> date_arg \<Rightarrow> real \<Rightarrow> pnl_db \<Rightarrow> string + daily_row \<times> pnl_db" where
  "run_daily_reconcile c d now db =
     (case normalize_reconcile_trade_date d now of
        Inl e \<Rightarrow> Inl e
      | Inr day \<Rightarrow>
          (case resolve_window 0 (Day day) (Day day) now of
             Inl e \<Rightarrow> Inl e
           | Inr (start, finish) \<Rightarrow>
               let r = daily_row_of db c day start finish now in Inr (r, db\<lparr>pd_daily := put_daily r (pd_daily db)\<rparr>)))"

definition get_reconcile_latest :: "int \<Rightarrow> pnl_db \<Rightarrow> daily_row list" where
  "get_reconcile_latest limit db = take (nat (max 1 (min 90 limit))) (sort_desc (\<lambda>r. of_int (dy_date r)) (pd_daily db))"

section \<open>The detail page\<close>

text \<open>The same text as \<open>normalize_symbol\<close> of the funding ledger.\<close>

definition normalize_symbol_for_match :: "string option \<Rightarrow> string" where
  "normalize_symbol_for_match symbol = normalize_symbol symbol"

definition normalize_side_for_match :: "string option \<Rightarrow> string" where
  "normalize_side_for_match side =
     (let s = py_lower (str_or_empty side) in
      if s \<in> {''buy'', ''long''} then ''long'' else if s \<in> {''sell'', ''short''} then ''short'' else s)"

definition strategy_scope_pairs :: "timed_position list \<Rightarrow> (int \<times> string) set" where
  "strategy_scope_pairs ps =
     (\<lambda>p. (int_or_zero (ps_exchange_id p), normalize_symbol_for_match (ps_symbol p)))
       ` {p \<in> set ps. is_perp p \<and> normalize_symbol_for_match (ps_symbol p) \<noteq> []}"

definition unassigned_rows :: "pnl_db \<Rightarrow> timed_position list \<Rightarrow> real \<Rightarrow> real \<Rightarrow> ledger_row list" where
  "unassigned_rows db ps start finish =
     filter (\<lambda>r. (\<forall>a \<in> set (pd_assigned db). as_ledger a \<noteq> lg_id r) \<and> start \<le> funding_time r \<and> funding_time r \<le> finish
         \<and> (lg_exchange r, lg_symbol r) \<in> strategy_scope_pairs ps) (pd_rows db)"

record funding_event =
  fe_ledger :: int
  fe_time :: real
  fe_amount :: real
  fe_assigned :: "real option"
  fe_ratio :: real
  fe_unassigned :: bool

text \<open>\<open>ORDER BY funding_time DESC, id DESC\<close>, and the same order of the merged events.\<close>

definition newest_first :: "('a \<Rightarrow> real) \<Rightarrow> ('a \<Rightarrow> int) \<Rightarrow> 'a list \<Rightarrow> 'a list" where
  "newest_first time_of id_of xs = sort_desc time_of (sort_desc (\<lambda>x. of_int (id_of x)) xs)"

definition assigned_events :: "pnl_db \<Rightarrow> int \<Rightarrow> real \<Rightarrow> real \<Rightarrow> nat \<Rightarrow> funding_event list" where
  "assigned_events db sid start finish limit =
     map (\<lambda>(a, r). \<lparr>fe_ledger = lg_id r, fe_time = funding_time r, fe_amount = lg_amount r, fe_assigned = Some (as_amount a),
            fe_ratio = as_ratio a, fe_unassigned = False\<rparr>)
       (take limit (newest_first (\<lambda>x. funding_time (snd x)) (\<lambda>x. lg_id (snd x)) (assigned_between db sid start finish)))"

definition unassigned_events :: "pnl_db \<Rightarrow> timed_position list \<Rightarrow> real \<Rightarrow> real \<Rightarrow> nat \<Rightarrow> funding_event list" where
  "unassigned_events db ps start finish limit =
     map (\<lambda>r. \<lparr>fe_ledger = lg_id r, fe_time = funding_time r, fe_amount = lg_amount r, fe_assigned = None, fe_ratio = 0, fe_unassigned = True\<rparr>)
       (take limit (newest_first funding_time lg_id (unassigned_rows db ps start finish)))"

datatype event_filter = All_events | Assigned_only | Unassigned_only

definition detail_events :: "pnl_db \<Rightarrow> int \<Rightarrow> event_filter \<Rightarrow> int \<Rightarrow> real \<Rightarrow> real \<Rightarrow> funding_event list" where
  "detail_events db sid flt event_limit start finish =
     (let limit = nat (max 1 (min 2000 event_limit));
          assigned = assigned_events db sid start finish limit;
          unassigned = unassigned_events db (positions_of db sid) start finish limit
      in case flt of
           Assigned_only \<Rightarrow> take limit assigned
         | Unassigned_only \<Rightarrow> take limit unassigned
         | All_events \<Rightarrow> take limit (newest_first fe_time fe_ledger (assigned @ unassigned)))"

text \<open>The window of the detail page: the life of the strategy, or the requested one.\<close>

definition detail_window :: "bool \<Rightarrow> timed_strategy \<Rightarrow> real \<times> real \<Rightarrow> real \<times> real" where
  "detail_window lifecycle s req =
     (let start = (if lifecycle then st_created s else fst req);
          finish = (if lifecycle then (case st_closed_at s of Some t \<Rightarrow> t | None \<Rightarrow> snd req) else snd req)
      in (start, if finish < start then start else finish))"

text \<open>What an exchange reports of a position, and the entry price that is taken from it.\<close>

record raw_position =
  rp_symbols :: "string option list"
  rp_sides :: "string option list"
  rp_entries :: "fopt list"

definition first_text :: "string option list \<Rightarrow> string option" where
  "first_text xs = (case first_where (\<lambda>v. str_or_empty v \<noteq> []) xs of Some v \<Rightarrow> v | None \<Rightarrow> None)"

definition extract_exchange_entry_price :: "raw_position \<Rightarrow> real option" where
  "extract_exchange_entry_price rp = map_option (\<lambda>v. to_float v 0) (first_where (\<lambda>v. to_float v 0 > 0) (rp_entries rp))"

definition matches_position :: "timed_position \<Rightarrow> raw_position \<Rightarrow> bool" where
  "matches_position p rp =
     (let ts = normalize_symbol_for_match (ps_symbol p); rs = normalize_symbol_for_match (first_text (rp_symbols rp));
          td = normalize_side_for_match (ps_side p); rd = normalize_side_for_match (first_text (rp_sides rp))
      in \<not> (ts \<noteq> [] \<and> rs \<noteq> [] \<and> rs \<noteq> ts) \<and> \<not> (td \<noteq> [] \<and> rd \<noteq> [] \<and> rd \<noteq> td))"

text \<open>\<open>None\<close> for the answer of an exchange that cannot be asked or that raises twice.\<close>

definition fetch_exchange_entry :: "raw_position list option \<Rightarrow> timed_position \<Rightarrow> real option" where
  "fetch_exchange_entry answer p =
     (if \<not> is_perp p then None
      else case answer of
        None \<Rightarrow> None
      | Some raws \<Rightarrow>
          (case List.map_filter extract_exchange_entry_price (filter (matches_position p) raws) of
             [] \<Rightarrow> None | e # _ \<Rightarrow> Some e))"

definition entry_deviation :: "fopt \<Rightarrow> real option \<Rightarrow> real option \<times> bool" where
  "entry_deviation local exch =
     (case (local, exch) of
        (Some l, Some e) \<Rightarrow>
          if l > 0 \<and> e > 0 then (let d = py_round (\<bar>l - e\<bar> / e * 100) 6 in (Some d, d \<ge> 5 / 100)) else (None, False)
      | _ \<Rightarrow> (None, False))"

section \<open>Detail and export\<close>

record position_detail =
  pt_id :: int
  pt_entry_local :: fopt
  pt_entry_exchange :: "real option"
  pt_deviation :: "real option"
  pt_warn :: bool

record pnl_detail =
  dt_start :: real
  dt_end :: real
  dt_overview :: pnl_row
  dt_unassigned_count :: nat
  dt_events :: "funding_event list"
  dt_positions :: "position_detail list"

definition position_detail_of :: "(timed_position \<Rightarrow> raw_position list option) \<Rightarrow> timed_position \<Rightarrow> position_detail" where
  "position_detail_of ask p =
     (let e = fetch_exchange_entry (ask p) p; (dev, warn) = entry_deviation (ps_entry_price p) e
      in \<lparr>pt_id = ps_id p, pt_entry_local = ps_entry_price p, pt_entry_exchange = e, pt_deviation = dev, pt_warn = warn\<rparr>)"

definition event_filter_of :: "string \<Rightarrow> event_filter option" where
  "event_filter_of s = map_of [(''all'', All_events), (''assigned'', Assigned_only), (''unassigned'', Unassigned_only)] s"

text \<open>\<open>ask\<close> is what the exchange of a position answers, \<open>None\<close> when it cannot be asked.\<close>

definition get_strategy_pnl_detail ::
    "pnl_db \<Rightarrow> market_caches \<Rightarrow> (timed_position \<Rightarrow> raw_position list option) \<Rightarrow> int \<Rightarrow> int \<Rightarrow> date_arg \<Rightarrow> date_arg
      \<Rightarrow> string option \<Rightarrow> string option \<Rightarrow> int \<Rightarrow> real \<Rightarrow> string + pnl_detail" where
  "get_strategy_pnl_detail db c ask sid days start_date end_date window_mode event_filter event_limit now =
     (let mode = py_lower (case window_mode of None \<Rightarrow> ''lifecycle'' | Some m \<Rightarrow> m);
          flt = event_filter_of (py_lower (case event_filter of None \<Rightarrow> ''all'' | Some f \<Rightarrow> f))
      in if mode \<noteq> ''lifecycle'' \<and> mode \<noteq> ''window'' then Inl ''invalid window_mode, expected lifecycle|window''
         else case flt of
           None \<Rightarrow> Inl ''invalid event_filter, expected all|assigned|unassigned''
         | Some f \<Rightarrow>
             (case resolve_window days start_date end_date now of
                Inl e \<Rightarrow> Inl e
              | Inr req \<Rightarrow>
                  (case first_where (\<lambda>s. st_id s = sid) (pd_strategies db) of
                     None \<Rightarrow> Inl (''strategy '' @ str_of_int sid @ '' not found'')
                   | Some s \<Rightarrow>
                       let (start, finish) = detail_window (mode = ''lifecycle'') s req; ps = positions_of db sid
                       in Inr \<lparr>dt_start = start, dt_end = finish, dt_overview = serialize_strategy_row db c s start finish now,
                            dt_unassigned_count = length (unassigned_rows db ps start finish),
                            dt_events = detail_events db sid f event_limit start finish,
                            dt_positions = map (position_detail_of ask) ps\<rparr>)))"

definition get_pnl_export ::
    "pnl_db \<Rightarrow> market_caches \<Rightarrow> int \<Rightarrow> date_arg \<Rightarrow> date_arg \<Rightarrow> string option \<Rightarrow> string option \<Rightarrow> real \<Rightarrow> string + pnl_row list" where
  "get_pnl_export db c days start_date end_date status quality now =
     (case resolve_window days start_date end_date now of
        Inl e \<Rightarrow> Inl e
      | Inr (start, finish) \<Rightarrow> Inr (build_strategy_rows db c start finish status quality now))"

end
