(* ===== verification/PnlLaws.thy ===== *)
theory PnlLaws
  imports PnlApi
begin

text \<open>
  Laws of the profit report: the settlement count against a set, the daily windows that tile the time,
  pages that lose no row, and what the comparison of the two tracks really measures.
\<close>

section \<open>Expected payments\<close>

lemma count_settlements_closed:
  "0 < period \<Longrightarrow> count_settlements period current finish = nat (\<lfloor>(finish - current) / period\<rfloor> + 1)"
proof (induction period current finish rule: count_settlements.induct)
  case (1 period current finish)
  show ?case
  proof (cases "finish < current")
    case True
    then have "(finish - current) / period < 0" using 1(2) by (simp add: field_simps)
    then have "\<lfloor>(finish - current) / period\<rfloor> + 1 \<le> 0" by linarith
    then show ?thesis using True by (simp add: count_settlements.simps)
  next
    case False
    then have c: "\<not> (period \<le> 0 \<or> finish < current)" using 1(2) by simp
    have shift: "(finish - (current + period)) / period = (finish - current) / period - 1" using 1(2) by (simp add: field_simps)
    have "0 \<le> (finish - current) / period" using False 1(2) by simp
    then have "0 \<le> \<lfloor>(finish - current) / period\<rfloor>" by simp
    then show ?thesis using 1(1)[OF c 1(2)] c by (subst count_settlements.simps) (simp add: shift Suc_nat_eq_nat_zadd1)
  qed
qed

text \<open>
  C37: the number of expected funding payments is exact: it is the number of settlement times, whole
  multiples of the interval since the epoch, from the start to the end of the window, both included.
\<close>

theorem expected_events_exact:
  assumes "0 < hours" and "start < finish"
  shows "count_expected_funding_events start finish hours
    = card {k :: nat. start \<le> real k * (of_int hours * 3600) \<and> real k * (of_int hours * 3600) \<le> finish}"
proof -
  define p where "p = real_of_int hours * 3600"
  define m where "m = max 0 \<lceil>start / p\<rceil>"
  define n where "n = \<lfloor>finish / p\<rfloor>"
  have p: "0 < p" using assms(1) by (simp add: p_def)
  have "start / p \<le> of_int m" unfolding m_def by linarith
  then have first: "\<not> of_int m * p < start" using p by (simp add: field_simps)
  have "(finish - of_int m * p) / p = finish / p - of_int m" using p by (simp add: field_simps)
  then have count: "count_expected_funding_events start finish hours = nat (n - m + 1)"
    using assms first p unfolding count_expected_funding_events_def Let_def p_def[symmetric] m_def[symmetric] n_def
    by (simp add: count_settlements_closed)
  have k: "start \<le> real k * p \<and> real k * p \<le> finish \<longleftrightarrow> nat m \<le> k \<and> int k \<le> n" for k
  proof -
    have "start \<le> real k * p \<longleftrightarrow> \<lceil>start / p\<rceil> \<le> int k"
      using p by (simp add: ceiling_le_iff pos_divide_le_eq)
    moreover have "real k * p \<le> finish \<longleftrightarrow> int k \<le> n"
      using p by (simp add: n_def le_floor_iff pos_le_divide_eq)
    ultimately show ?thesis by (simp add: m_def nat_le_iff)
  qed
  have "{k. nat m \<le> k \<and> int k \<le> n} = {nat m ..< nat (n + 1)}" by (auto simp: zless_nat_eq_int_zless)
  then have "{k :: nat. start \<le> real k * p \<and> real k * p \<le> finish} = {nat m ..< nat (n + 1)}" by (simp only: k)
  moreover have "nat (n + 1) - nat m = nat (n - m + 1)" unfolding m_def by linarith
  ultimately show ?thesis unfolding p_def[symmetric] by (simp add: count)
qed

theorem expected_events_exact_witness:
  "count_expected_funding_events 0 86400 8 = 4"
proof -
  have "{k :: nat. (0 :: real) \<le> real k * (of_int 8 * 3600) \<and> real k * (of_int 8 * 3600) \<le> 86400} = {0 ..< 4}" by auto
  then show ?thesis using expected_events_exact[of 8 0 86400] by simp
qed

section \<open>Pages\<close>

lemma page_of_Suc: "page_of (Suc p) n rows = take n (drop (p * n) rows)"
  by (simp add: page_of_def)

lemma pages_prefix: "concat (map (\<lambda>p. page_of p n rows) [1 ..< Suc k]) = take (k * n) rows"
proof (induction k)
  case (Suc k)
  have "concat (map (\<lambda>p. page_of p n rows) [1 ..< Suc (Suc k)])
      = concat (map (\<lambda>p. page_of p n rows) [1 ..< Suc k]) @ page_of (Suc k) n rows" by simp
  then show ?case using take_add[of "k * n" n rows] by (simp only: Suc.IH page_of_Suc) (simp add: add.commute)
qed simp

lemma pages_cover: "0 < n \<Longrightarrow> concat (map (\<lambda>p. page_of p n rows) [1 ..< Suc (total_pages n rows)]) = rows"
proof -
  assume n: "0 < n"
  have "length rows \<le> total_pages n rows * n"
  proof (cases "length rows > 0")
    case True
    define k where "k = length rows + n - 1"
    have "k = k div n * n + k mod n" by simp
    moreover have "k mod n < n" using n by simp
    ultimately have "length rows \<le> k div n * n" using n unfolding k_def by linarith
    then show ?thesis using True by (simp add: total_pages_def k_def)
  qed simp
  then show ?thesis unfolding pages_prefix by simp
qed

text \<open>
  The pages of the list are a partition of it: for every page size, the pages from the first to the
  reported last one, put together, are all rows of the window in their order, and every answer reports
  the same number of rows and pages.
\<close>

theorem pages_partition_rows:
  assumes "resolve_window days start_date end_date now = Inr (start, finish)"
  shows "\<exists>pages. (\<forall>p. \<exists>a. get_strategy_pnl db c days start_date end_date status quality p page_size now = Inr a \<and> pg_pages a = pages
            \<and> pg_total a = length (build_strategy_rows db c start finish status quality now))
    \<and> concat (map (\<lambda>p. case get_strategy_pnl db c days start_date end_date status quality (int p) page_size now of
            Inr a \<Rightarrow> pg_rows a | Inl _ \<Rightarrow> []) [1 ..< Suc pages])
        = build_strategy_rows db c start finish status quality now"
proof -
  let ?rows = "build_strategy_rows db c start finish status quality now"
  let ?n = "nat (max 1 (min 500 page_size))"
  have g: "get_strategy_pnl db c days start_date end_date status quality p page_size now
      = Inr \<lparr>pg_rows = page_of (nat (max 1 p)) ?n ?rows, pg_total = length ?rows, pg_pages = total_pages ?n ?rows\<rparr>" for p
    by (simp add: get_strategy_pnl_def assms page_bounds_def Let_def)
  have m: "map (\<lambda>p. case get_strategy_pnl db c days start_date end_date status quality (int p) page_size now of
            Inr a \<Rightarrow> pg_rows a | Inl _ \<Rightarrow> []) [1 ..< Suc (total_pages ?n ?rows)]
      = map (\<lambda>p. page_of p ?n ?rows) [1 ..< Suc (total_pages ?n ?rows)]"
    by (rule map_cong[OF refl]) (auto simp: g simp del: upt_Suc)
  have "concat (map (\<lambda>p. case get_strategy_pnl db c days start_date end_date status quality (int p) page_size now of
            Inr a \<Rightarrow> pg_rows a | Inl _ \<Rightarrow> []) [1 ..< Suc (total_pages ?n ?rows)]) = ?rows"
    unfolding m by (rule pages_cover) simp
  then show ?thesis by (intro exI[of _ "total_pages ?n ?rows"]) (simp add: g del: upt_Suc)
qed

section \<open>Attribution\<close>

definition bucket_sum :: "(string \<times> bucket) list \<Rightarrow> real" where
  "bucket_sum m = sum_list (map (\<lambda>x. bk_pnl (snd x)) m)"

definition bucket_members :: "(string \<times> bucket) list \<Rightarrow> nat" where
  "bucket_members m = sum_list (map (\<lambda>x. bk_count (snd x)) m)"

lemma add_to_bucket_sums:
  "bucket_sum (add_to_bucket t i x m) = x + bucket_sum m"
  "bucket_members (add_to_bucket t i x m) = Suc (bucket_members m)"
  by (induction t i x m rule: add_to_bucket.induct) (simp_all add: bucket_sum_def bucket_members_def)

text \<open>The buckets of both sides account for the total of all rows, and for every row with a result.\<close>

definition attribution_ok :: "attribution_state \<Rightarrow> pnl_row list \<Rightarrow> bool" where
  "attribution_ok a rows =
     (bucket_sum (ab_profit a) = ab_profit_total a \<and> bucket_sum (ab_loss a) = - ab_loss_total a
      \<and> ab_profit_total a - ab_loss_total a = strategy_total_of rows
      \<and> bucket_members (ab_profit a) + bucket_members (ab_loss a) = length (filter (\<lambda>r. to_float (pr_total r) 0 \<noteq> 0) (comparable_rows rows)))"

lemma attribution_step_ok: "attribution_ok a rows \<Longrightarrow> attribution_ok (attribution_step a r) (rows @ [r])"
  by (auto simp: attribution_ok_def attribution_step_def add_to_bucket_sums strategy_total_of_def comparable_rows_def split: option.split)

lemma attribution_complete: "attribution_ok (attribution_fold rows) rows"
proof (induction rows rule: rev_induct)
  case Nil
  show ?case
    by (simp add: attribution_ok_def attribution_fold_def bucket_sum_def bucket_members_def strategy_total_of_def comparable_rows_def)
next
  case (snoc r rows)
  then show ?case using attribution_step_ok[of "attribution_fold rows" rows r] by (simp add: attribution_fold_def)
qed

section \<open>Windows that tile the time\<close>

text \<open>Stored times are whole microseconds.\<close>

definition on_grid :: "real \<Rightarrow> bool" where
  "on_grid t = (t * 1000000 = of_int \<lfloor>t * 1000000\<rfloor>)"

lemma funding_time_grid: "on_grid (funding_time r)"
proof -
  have "funding_time r * 1000000 = of_int (lg_time r * 1000)" by (simp add: funding_time_def)
  then show ?thesis unfolding on_grid_def by (metis floor_of_int)
qed

lemma before_midnight:
  assumes "on_grid t"
  shows "t \<le> cn_midnight d - microsecond \<longleftrightarrow> t < cn_midnight d"
proof -
  obtain k where k: "t * 1000000 = of_int k" using assms unfolding on_grid_def by blast
  have m: "cn_midnight d * 1000000 = of_int ((d * 86400 - 28800) * 1000000)" by (simp add: cn_midnight_def day_secs_def utc8_offset_def)
  have "t \<le> cn_midnight d - microsecond \<longleftrightarrow> t * 1000000 \<le> cn_midnight d * 1000000 - 1" by (simp add: microsecond_def field_simps)
  also have "\<dots> \<longleftrightarrow> k \<le> (d * 86400 - 28800) * 1000000 - 1" unfolding k m by (metis of_int_1 of_int_diff of_int_le_iff)
  also have "\<dots> \<longleftrightarrow> t * 1000000 < cn_midnight d * 1000000" unfolding k m by (simp only: of_int_less_iff zle_diff1_eq)
  finally show ?thesis by simp
qed

lemma midnight_le: "cn_midnight d \<le> t \<longleftrightarrow> d \<le> cn_day t"
  by (simp add: cn_midnight_def cn_day_def le_floor_iff day_secs_def utc8_offset_def field_simps)

lemma day_window_iff:
  assumes "on_grid t"
  shows "cn_midnight d \<le> t \<and> t \<le> cn_midnight (e + 1) - microsecond \<longleftrightarrow> cn_day t \<in> {d..e}"
  unfolding before_midnight[OF assms] using midnight_le[of d t] midnight_le[of "e + 1" t] by auto

lemma past_window:
  assumes "d \<le> e" and "cn_midnight (e + 1) \<le> now"
  shows "resolve_window days (Day d) (Day e) now = Inr (cn_midnight d, cn_midnight (e + 1) - microsecond)"
  using assms by (simp add: resolve_window_def Let_def microsecond_def)

lemma sum_over_days:
  fixes f :: "'a \<Rightarrow> real" and g :: "'a \<Rightarrow> int"
  shows "(\<Sum>day = d..e. sum_list (map f (filter (\<lambda>x. g x = day) xs))) = sum_list (map f (filter (\<lambda>x. g x \<in> {d..e}) xs))"
proof (induction xs)
  case (Cons x xs)
  have "(\<Sum>day = d..e. sum_list (map f (filter (\<lambda>x. g x = day) (x # xs))))
      = (\<Sum>day = d..e. (if g x = day then f x else 0) + sum_list (map f (filter (\<lambda>x. g x = day) xs)))"
    by (rule sum.cong[OF refl]) simp
  also have "\<dots> = (\<Sum>day = d..e. if g x = day then f x else 0) + (\<Sum>day = d..e. sum_list (map f (filter (\<lambda>x. g x = day) xs)))"
    by (rule sum.distrib)
  also have "(\<Sum>day = d..e. if g x = day then f x else 0) = (if g x \<in> {d..e} then f x else 0)"
    by (simp add: sum.delta')
  finally show ?case by (simp add: Cons.IH)
qed simp

text \<open>Realised cash flow, fees and funding of a strategy in a window.\<close>

definition window_cash :: "pnl_db \<Rightarrow> int \<Rightarrow> string + real \<times> real \<Rightarrow> real" where
  "window_cash db sid w =
     (case w of
        Inl _ \<Rightarrow> 0
      | Inr (start, finish) \<Rightarrow>
          calc_spread_pnl (logs_between db sid start finish) - calc_fees (logs_between db sid start finish) + funding_sum db sid start finish)"

definition log_cash :: "timed_log \<Rightarrow> real" where
  "log_cash l = signed_flow l - log_flow l * get_vip0_taker_fee (Some (tl_exchange l))"

lemma logs_cash: "calc_spread_pnl ls - calc_fees ls = sum_list (map log_cash ls)"
  by (induction ls) (simp_all add: calc_spread_pnl_def calc_fees_def log_cash_def)

lemma logs_in_days:
  assumes "\<And>l. l \<in> set (pd_logs db) \<Longrightarrow> on_grid (tl_time l)"
  shows "logs_between db sid (cn_midnight d) (cn_midnight (e + 1) - microsecond)
    = filter (\<lambda>l. cn_day (tl_time l) \<in> {d..e}) (filter (\<lambda>l. tl_strategy_id l = sid) (pd_logs db))"
  unfolding logs_between_def filter_filter using day_window_iff[OF assms, of _ d e] by (intro filter_cong) auto

definition joined :: "pnl_db \<Rightarrow> int \<Rightarrow> (assignment \<times> ledger_row) list" where
  "joined db sid = [(a, r). a \<leftarrow> pd_assigned db, as_strategy a = sid, r \<leftarrow> pd_rows db, lg_id r = as_ledger a]"

lemma filter_concat_map: "filter P (concat (map f xs)) = concat (map (\<lambda>x. filter P (f x)) xs)"
  by (induction xs) simp_all

lemma assigned_in_days:
  "assigned_between db sid (cn_midnight d) (cn_midnight (e + 1) - microsecond)
    = filter (\<lambda>x. cn_day (funding_time (snd x)) \<in> {d..e}) (joined db sid)"
proof -
  have one: "concat (map (\<lambda>r. if lg_id r = as_ledger a \<and> cn_midnight d \<le> funding_time r \<and> funding_time r \<le> cn_midnight (e + 1) - microsecond
        then [(a, r)] else []) rs)
      = filter (\<lambda>x. cn_day (funding_time (snd x)) \<in> {d..e}) (concat (map (\<lambda>r. if lg_id r = as_ledger a then [(a, r)] else []) rs))"
    for a :: assignment and rs
    by (induction rs) (use day_window_iff[OF funding_time_grid] in auto)
  show ?thesis unfolding assigned_between_def joined_def filter_concat_map
    by (intro arg_cong[where f = concat] map_cong refl) (simp add: one)
qed

lemma window_cash_days:
  assumes "\<And>l. l \<in> set (pd_logs db) \<Longrightarrow> on_grid (tl_time l)" and "d \<le> e" and "cn_midnight (e + 1) \<le> now"
  shows "window_cash db sid (resolve_window days (Day d) (Day e) now)
    = sum_list (map log_cash (filter (\<lambda>l. cn_day (tl_time l) \<in> {d..e}) (filter (\<lambda>l. tl_strategy_id l = sid) (pd_logs db))))
      + sum_list (map (\<lambda>(a, r). as_amount a) (filter (\<lambda>x. cn_day (funding_time (snd x)) \<in> {d..e}) (joined db sid)))"
  unfolding window_cash_def past_window[OF assms(2,3)]
  by (simp add: logs_cash logs_in_days[OF assms(1)] assigned_in_days funding_sum_def)

text \<open>
  C38: daily results add up: for days that are over, the realised cash flow minus fees plus funding of
  the single days, each in its own Shanghai-time window, sum to that of the whole range; every log and
  every payment falls into exactly one day, also at midnight.
\<close>

theorem daily_pnl_adds_up:
  assumes "\<And>l. l \<in> set (pd_logs db) \<Longrightarrow> on_grid (tl_time l)" and "d \<le> e" and "cn_midnight (e + 1) \<le> now"
  shows "(\<Sum>day = d..e. window_cash db sid (resolve_window 0 (Day day) (Day day) now))
    = window_cash db sid (resolve_window 0 (Day d) (Day e) now)"
proof -
  let ?L = "filter (\<lambda>l. tl_strategy_id l = sid) (pd_logs db)" and ?J = "joined db sid"
  have day: "window_cash db sid (resolve_window 0 (Day x) (Day x) now)
      = sum_list (map log_cash (filter (\<lambda>l. cn_day (tl_time l) = x) ?L))
        + sum_list (map (\<lambda>(a, r). as_amount a) (filter (\<lambda>y. cn_day (funding_time (snd y)) = x) ?J))" if "x \<in> {d..e}" for x
  proof -
    have "cn_midnight (x + 1) \<le> cn_midnight (e + 1)" using that by (simp add: cn_midnight_def day_secs_def)
    with assms(3) have "cn_midnight (x + 1) \<le> now" by simp
    from window_cash_days[OF assms(1) order_refl this, where db = db and sid = sid and days = 0] show ?thesis by simp
  qed
  have "(\<Sum>x = d..e. window_cash db sid (resolve_window 0 (Day x) (Day x) now))
      = (\<Sum>x = d..e. sum_list (map log_cash (filter (\<lambda>l. cn_day (tl_time l) = x) ?L))
        + sum_list (map (\<lambda>(a, r). as_amount a) (filter (\<lambda>y. cn_day (funding_time (snd y)) = x) ?J)))"
    by (rule sum.cong[OF refl day])
  also have "\<dots> = sum_list (map log_cash (filter (\<lambda>l. cn_day (tl_time l) \<in> {d..e}) ?L))
      + sum_list (map (\<lambda>(a, r). as_amount a) (filter (\<lambda>y. cn_day (funding_time (snd y)) \<in> {d..e}) ?J))"
    by (simp only: sum.distrib sum_over_days)
  also have "\<dots> = window_cash db sid (resolve_window 0 (Day d) (Day e) now)"
    by (rule window_cash_days[OF assms, symmetric])
  finally show ?thesis .
qed

text \<open>Two logs, each exactly at the beginning of a day.\<close>

definition midnight_log :: "int \<Rightarrow> timed_log" where
  "midnight_log d =
     \<lparr>tl_strategy_id = 7, tl_position_id = None, tl_action = ''open'', tl_exchange = ''okx'', tl_symbol = None, tl_side = ''sell'',
      tl_price = Some 1, tl_size = Some 1, tl_reason = [], tl_time = cn_midnight d\<rparr>"

definition midnight_db :: pnl_db where
  "midnight_db =
     \<lparr>pd_strategies = [], pd_positions = [], pd_logs = [midnight_log 10, midnight_log 11], pd_exchanges = [], pd_rows = [], pd_assigned = [],
      pd_cursors = [], pd_daily = []\<rparr>"

lemma midnight_grid: "on_grid (cn_midnight d)"
proof -
  have "cn_midnight d * 1000000 = of_int ((d * 86400 - 28800) * 1000000)" by (simp add: cn_midnight_def day_secs_def utc8_offset_def)
  then show ?thesis unfolding on_grid_def by (metis floor_of_int)
qed

theorem daily_pnl_adds_up_witness:
  "window_cash midnight_db 7 (resolve_window 0 (Day 10) (Day 10) (cn_midnight 12))
     + window_cash midnight_db 7 (resolve_window 0 (Day 11) (Day 11) (cn_midnight 12))
   = window_cash midnight_db 7 (resolve_window 0 (Day 10) (Day 11) (cn_midnight 12))"
proof -
  have "on_grid (tl_time l)" if "l \<in> set (pd_logs midnight_db)" for l
    using that by (auto simp: midnight_db_def midnight_log_def midnight_grid)
  from daily_pnl_adds_up[of midnight_db 10 11 "cn_midnight 12" 7, OF this] have
    "(\<Sum>day = 10..11. window_cash midnight_db 7 (resolve_window 0 (Day day) (Day day) (cn_midnight 12)))
      = window_cash midnight_db 7 (resolve_window 0 (Day 10) (Day 11) (cn_midnight 12))" by simp
  moreover have "{10..11 :: int} = {10, 11}" by auto
  ultimately show ?thesis by simp
qed

theorem pages_partition_rows_witness:
  "\<exists>pages. concat (map (\<lambda>p. case get_strategy_pnl midnight_db initial_caches 7 No_date No_date None None (int p) 2 0 of
        Inr a \<Rightarrow> pg_rows a | Inl _ \<Rightarrow> []) [1 ..< Suc pages])
     = build_strategy_rows midnight_db initial_caches (fst (utc8_window_days 7 0)) (snd (utc8_window_days 7 0)) None None 0"
proof -
  have "resolve_window 7 No_date No_date 0 = Inr (fst (utc8_window_days 7 0), snd (utc8_window_days 7 0))"
    by (simp add: resolve_window_def)
  from pages_partition_rows[OF this, of midnight_db initial_caches None None 2] show ?thesis by blast
qed

end
