(* ===== verification/PnlTracks.thy ===== *)
theory PnlTracks
  imports PnlLaws SpotHedge
begin

text \<open>
  The daily reconciliation of the profit report: both tracks read the same logs and positions, and the
  older one adds a funding column that nothing writes, so the difference of the two totals is the
  funding of the day.
\<close>

section \<open>Rows\<close>

lemma serialize_facts:
  defines "row db c s start finish now \<equiv> serialize_strategy_row db c s start finish now"
  shows "pr_id (row db c s start finish now) = st_id s"
    and "pr_total (row db c s start finish now)
      = map_option (\<lambda>f. py_round (spread_between db s start finish now - fees_between db s start finish + f) 6) (pr_funding (row db c s start finish now))"
  by (simp_all add: row_def serialize_strategy_row_def Let_def split: prod.splits)

lemma window_strategies_distinct:
  "distinct (map st_id (pd_strategies db)) \<Longrightarrow> distinct (map st_id (window_strategies db start finish status))"
  unfolding window_strategies_def distinct_map_sort_desc by (rule distinct_map_filter)

lemma window_strategies_subset: "set (window_strategies db start finish status) \<subseteq> set (pd_strategies db)"
  by (auto simp: window_strategies_def)

lemma unfiltered_rows:
  "build_strategy_rows db c start finish status None now
     = map (\<lambda>s. serialize_strategy_row db c s start finish now) (window_strategies db start finish status)"
  by (simp add: build_strategy_rows_def)

lemma legacy_map_row:
  assumes "distinct (map st_id (pd_strategies db))" and "s \<in> set (window_strategies db start finish status)"
  shows "legacy_map db start finish status now (st_id s) = Some (legacy_total db s start finish now)"
  using first_where_id[OF window_strategies_distinct[OF assms(1)] assms(2)] by (simp add: legacy_map_def)

lemma two_roundings: "\<bar>a' - (b + f)\<bar> \<le> e \<Longrightarrow> \<bar>b' - b\<bar> \<le> e \<Longrightarrow> \<bar>a' - b' - f\<bar> \<le> 2 * (e :: real)"
  by linarith

text \<open>One strategy: the two totals differ by the funding, up to two roundings.\<close>

lemma row_difference:
  assumes "to_float (st_funding_pnl s) 0 = 0" and "pr_total (serialize_strategy_row db c s start finish now) = Some x"
  shows "\<bar>x - legacy_total db s start finish now - to_float (pr_funding (serialize_strategy_row db c s start finish now)) 0\<bar> \<le> 1 / 10 ^ 6"
proof -
  obtain f where f: "pr_funding (serialize_strategy_row db c s start finish now) = Some f"
      and x: "x = py_round (spread_between db s start finish now - fees_between db s start finish + f) 6"
    using assms(2) unfolding serialize_facts(2) by auto
  let ?b = "spread_between db s start finish now - fees_between db s start finish"
  have "\<bar>py_round (?b + f) 6 - (?b + f)\<bar> \<le> 1 / (2 * 10 ^ 6)" and "\<bar>py_round ?b 6 - ?b\<bar> \<le> 1 / (2 * 10 ^ 6)"
    by (rule py_round_error)+
  from two_roundings[OF this] show ?thesis unfolding x f legacy_total_def assms(1) by simp
qed

lemma sum_difference:
  fixes f g h :: "'a \<Rightarrow> real"
  assumes "\<And>x. x \<in> set xs \<Longrightarrow> \<bar>f x - g x - h x\<bar> \<le> e"
  shows "\<bar>sum_list (map f xs) - sum_list (map g xs) - sum_list (map h xs)\<bar> \<le> real (length xs) * e"
  using assms
proof (induction xs)
  case (Cons x xs)
  have "\<bar>f x - g x - h x\<bar> \<le> e" using Cons.prems by simp
  moreover have "\<bar>sum_list (map f xs) - sum_list (map g xs) - sum_list (map h xs)\<bar> \<le> real (length xs) * e"
    using Cons by simp
  ultimately show ?case by (simp add: algebra_simps abs_le_iff)
qed simp

lemma rounded_total:
  fixes a b b' f n m :: real
  assumes "\<bar>a - b - f\<bar> \<le> n * (1 / 10 ^ 6)" and "\<bar>b' - b\<bar> \<le> 1 / (2 * 10 ^ 6)" and "n \<le> m"
  shows "\<bar>a - b' - f\<bar> \<le> (m + 1) / 10 ^ 6"
proof -
  have "\<bar>a - b' - f\<bar> \<le> n * (1 / 10 ^ 6) + 1 / (2 * 10 ^ 6)" using assms(1,2) by linarith
  also have "\<dots> \<le> (m + 1) / 10 ^ 6" using assms(3) by (simp add: field_simps)
  finally show ?thesis .
qed

lemma totals_difference:
  assumes "distinct (map st_id (pd_strategies db))" and "\<And>s. s \<in> set (pd_strategies db) \<Longrightarrow> to_float (st_funding_pnl s) 0 = 0"
    and rows_def: "rows = build_strategy_rows db c start finish status None now"
  shows "\<bar>strategy_total_of rows - legacy_total_of db start finish status now rows
      - sum_list (map (\<lambda>r. to_float (pr_funding r) 0) (comparable_rows rows))\<bar> \<le> (real (length rows) + 1) / 10 ^ 6"
proof -
  let ?cmp = "comparable_rows rows"
  let ?old = "\<lambda>r. to_float (legacy_map db start finish status now (pr_id r)) 0"
  have one: "\<bar>to_float (pr_total r) 0 - ?old r - to_float (pr_funding r) 0\<bar> \<le> 1 / 10 ^ 6" if r: "r \<in> set ?cmp" for r
  proof -
    obtain s where s: "s \<in> set (window_strategies db start finish status)" "r = serialize_strategy_row db c s start finish now"
      using r by (auto simp: comparable_rows_def rows_def unfiltered_rows)
    obtain x where x: "pr_total r = Some x" using r by (auto simp: comparable_rows_def)
    have "s \<in> set (pd_strategies db)" using s(1) window_strategies_subset by blast
    from row_difference[OF assms(2)[OF this] x[unfolded s(2)]] show ?thesis
      using x by (simp add: s(2) serialize_facts(1) legacy_map_row[OF assms(1) s(1)])
  qed
  have a: "\<bar>sum_list (map (\<lambda>r. to_float (pr_total r) 0) ?cmp) - sum_list (map ?old ?cmp)
      - sum_list (map (\<lambda>r. to_float (pr_funding r) 0) ?cmp)\<bar> \<le> real (length ?cmp) * (1 / 10 ^ 6)"
    by (rule sum_difference[OF one])
  have b: "\<bar>py_round (sum_list (map ?old ?cmp)) 6 - sum_list (map ?old ?cmp)\<bar> \<le> 1 / (2 * 10 ^ 6)" by (rule py_round_error)
  have "length ?cmp \<le> length rows" by (simp add: comparable_rows_def)
  then have n: "real (length ?cmp) \<le> real (length rows)" by simp
  show ?thesis unfolding strategy_total_of_def legacy_total_of_def
    by (rule rounded_total[OF a b n])
qed

section \<open>The reconciliation\<close>

lemma reconcile_passed:
  "rc_passed (reconcile_daily_totals a b) \<longleftrightarrow> \<bar>a - b\<bar> \<le> 5 \<or> \<bar>a - b\<bar> \<le> max \<bar>b\<bar> 1 / 1000"
proof -
  have "0 < max \<bar>b\<bar> 1" by simp
  then show ?thesis by (simp add: reconcile_daily_totals_def Let_def tolerance_abs_def tolerance_pct_def pos_divide_le_eq)
qed

lemma run_daily_row:
  assumes "run_daily_reconcile c d now db = Inr (r, db')"
  shows "r = daily_row_of db c (dy_date r) (dy_start r) (dy_end r) now"
    and "db' = db\<lparr>pd_daily := put_daily r (pd_daily db)\<rparr>"
  using assms by (auto simp: run_daily_reconcile_def Let_def daily_row_of_def split: sum.splits)

lemma daily_row_fields:
  "dy_strategy_total (daily_row_of db c day start finish now) = strategy_total_of (build_strategy_rows db c start finish None None now)"
  "dy_legacy_total (daily_row_of db c day start finish now)
     = legacy_total_of db start finish None now (build_strategy_rows db c start finish None None now)"
  "dy_passed (daily_row_of db c day start finish now)
     = rc_passed (reconcile_daily_totals (strategy_total_of (build_strategy_rows db c start finish None None now))
         (legacy_total_of db start finish None now (build_strategy_rows db c start finish None None now)))"
  by (simp_all add: daily_row_of_def Let_def)

text \<open>
  C39: the daily reconciliation measures the wrong thing. As long as no strategy has a value in the
  old funding column (no code writes it), the difference of the two totals is, up to rounding, the
  funding that the ledger attributed on that day, so spread and fees are never compared, and the check
  fails on every day on which the correctly booked funding exceeds five dollars and 0.1 per cent of
  the old total.
\<close>

theorem reconcile_measures_funding:
  assumes "run_daily_reconcile c d now db = Inr (r, db')" and "distinct (map st_id (pd_strategies db))"
    and "\<And>s. s \<in> set (pd_strategies db) \<Longrightarrow> to_float (st_funding_pnl s) 0 = 0"
  shows "let rows = build_strategy_rows db c (dy_start r) (dy_end r) None None now;
             funding = sum_list (map (\<lambda>x. to_float (pr_funding x) 0) (comparable_rows rows));
             slack = (real (length rows) + 1) / 10 ^ 6
         in \<bar>dy_strategy_total r - dy_legacy_total r - funding\<bar> \<le> slack
            \<and> (\<bar>funding\<bar> > 5 + slack \<and> \<bar>funding\<bar> > max \<bar>dy_legacy_total r\<bar> 1 / 1000 + slack \<longrightarrow> \<not> dy_passed r)"
proof -
  let ?rows = "build_strategy_rows db c (dy_start r) (dy_end r) None None now"
  let ?f = "sum_list (map (\<lambda>x. to_float (pr_funding x) 0) (comparable_rows ?rows))"
  let ?e = "(real (length ?rows) + 1) / 10 ^ 6"
  note row = run_daily_row(1)[OF assms(1)]
  have r1: "dy_strategy_total r = strategy_total_of ?rows" by (rule trans[OF arg_cong[OF row]]) (rule daily_row_fields)
  have r2: "dy_legacy_total r = legacy_total_of db (dy_start r) (dy_end r) None now ?rows"
    by (rule trans[OF arg_cong[OF row]]) (rule daily_row_fields)
  have r3: "dy_passed r = rc_passed (reconcile_daily_totals (dy_strategy_total r) (dy_legacy_total r))"
    unfolding r1 r2 by (rule trans[OF arg_cong[OF row]]) (rule daily_row_fields)
  have d: "\<bar>dy_strategy_total r - dy_legacy_total r - ?f\<bar> \<le> ?e"
    unfolding r1 r2 by (rule totals_difference[OF assms(2,3) refl])
  moreover have "\<not> dy_passed r" if "\<bar>?f\<bar> > 5 + ?e" "\<bar>?f\<bar> > max \<bar>dy_legacy_total r\<bar> 1 / 1000 + ?e"
    using d that unfolding r3 reconcile_passed by linarith
  ultimately show ?thesis unfolding Let_def by blast
qed

text \<open>A strategy with one payment of ten dollars on day 10.\<close>

definition sample_pnl_strategy :: timed_strategy where
  "sample_pnl_strategy =
     \<lparr>st_id = 7, st_type = Some ''spot_hedge'', st_symbol = Some ''X'', st_long_ex = Some 1, st_short_ex = Some 1,
      st_initial_margin = Some 100, st_status = Some ''active'', st_close_reason = [], st_entry_e24 = None, st_entry_open_fee = None,
      st_entry_spot_base = None, st_entry_perp_base = None, st_entry_delta_base = None, st_closed_at = None,
      st_created = 0, st_funding_pnl = Some 0\<rparr>"

definition sample_payment :: ledger_row where
  "sample_payment =
     \<lparr>lg_id = 1, lg_exchange = 1, lg_account = [], lg_symbol = ''X'', lg_side = [], lg_time = 864000000, lg_amount = 10, lg_norm = [],
      lg_source = [], lg_ref = [], lg_hash = []\<rparr>"

definition sample_pnl_db :: pnl_db where
  "sample_pnl_db =
     \<lparr>pd_strategies = [sample_pnl_strategy], pd_positions = [], pd_logs = [], pd_exchanges = [], pd_rows = [sample_payment],
      pd_assigned = [\<lparr>as_ledger = 1, as_strategy = 7, as_position = None, as_amount = 10, as_ratio = 1\<rparr>], pd_cursors = [], pd_daily = []\<rparr>"

lemmas sample_pnl_defs = sample_pnl_db_def sample_pnl_strategy_def sample_payment_def

lemma sample_day: "resolve_window 0 (Day 10) (Day 10) (cn_midnight 12) = Inr (835200, 921599999999 / 1000000)"
  by (simp add: resolve_window_def cn_midnight_def day_secs_def utc8_offset_def microsecond_def min_def)

lemma sample_pnl_row:
  "pr_funding (serialize_strategy_row sample_pnl_db c sample_pnl_strategy 835200 (921599999999 / 1000000) (cn_midnight 12)) = Some 10"
  by (simp add: serialize_strategy_row_def sample_pnl_defs captured_count_def assigned_between_def funding_time_def positions_of_def
      strategy_funding_scope_def build_quality_metadata_def classify_quality_def funding_sum_def Let_def)

lemma sample_pnl_rows:
  "build_strategy_rows sample_pnl_db c 835200 (921599999999 / 1000000) None None (cn_midnight 12)
    = [serialize_strategy_row sample_pnl_db c sample_pnl_strategy 835200 (921599999999 / 1000000) (cn_midnight 12)]"
  by (simp add: unfiltered_rows window_strategies_def sample_pnl_defs sort_desc_def)

lemma sample_legacy: "legacy_total sample_pnl_db sample_pnl_strategy 835200 (921599999999 / 1000000) (cn_midnight 12) = 0"
  by (simp add: legacy_total_def spread_between_def fees_between_def logs_between_def calc_spread_pnl_def calc_fees_def
      should_include_current_unrealized_def cn_midnight_def day_secs_def utc8_offset_def sample_pnl_defs)

theorem reconcile_measures_funding_witness:
  "\<exists>r db'. run_daily_reconcile initial_caches (Day 10) (cn_midnight 12) sample_pnl_db = Inr (r, db') \<and> \<not> dy_passed r"
proof -
  let ?e = "921599999999 / 1000000 :: real"
  let ?row = "serialize_strategy_row sample_pnl_db initial_caches sample_pnl_strategy 835200 ?e (cn_midnight 12)"
  have dist: "distinct (map st_id (pd_strategies sample_pnl_db))" and col: "\<forall>s \<in> set (pd_strategies sample_pnl_db). to_float (st_funding_pnl s) 0 = 0"
    by (simp_all add: sample_pnl_defs)
  have "sample_pnl_strategy \<in> set (window_strategies sample_pnl_db 835200 ?e None)"
    by (simp add: window_strategies_def sample_pnl_defs sort_desc_def)
  from legacy_map_row[OF dist this] have "legacy_map sample_pnl_db 835200 ?e None (cn_midnight 12) (st_id sample_pnl_strategy) = Some 0"
    by (simp only: sample_legacy)
  then have old: "legacy_total_of sample_pnl_db 835200 ?e None (cn_midnight 12) [?row] = 0"
    by (simp add: legacy_total_of_def comparable_rows_def serialize_facts(1))
  have cmp: "comparable_rows [?row] = [?row]" unfolding comparable_rows_def by (simp add: serialize_facts(2) sample_pnl_row)
  obtain r db' where r: "run_daily_reconcile initial_caches (Day 10) (cn_midnight 12) sample_pnl_db = Inr (r, db')"
      "r = daily_row_of sample_pnl_db initial_caches 10 835200 ?e (cn_midnight 12)"
    by (simp add: run_daily_reconcile_def normalize_reconcile_trade_date_def sample_day Let_def)
  have f: "dy_start r = 835200" "dy_end r = ?e" "dy_legacy_total r = 0"
    unfolding r(2) by (simp_all only: daily_row_fields sample_pnl_rows old) (simp_all add: daily_row_of_def Let_def)
  have "\<not> dy_passed r"
    using reconcile_measures_funding[OF r(1) dist] col unfolding f sample_pnl_rows cmp Let_def by (simp add: sample_pnl_row)
  with r(1) show ?thesis by blast
qed

section \<open>A fresh hedge\<close>

definition entry_notional :: "position_row \<Rightarrow> real" where
  "entry_notional p = to_float (ps_entry_price p) 0 * to_float (ps_size p) 0"

definition own_logs :: "int \<Rightarrow> trade_log list \<Rightarrow> trade_log list" where
  "own_logs sid logs = filter (\<lambda>l. tl_strategy_id l = sid) logs"

lemma open_perp_leg_logs:
  assumes "open_perp_leg v ex sy sid eid price q lev s w = (ord, fill, pid, s', w')" and "ord \<noteq> None"
  shows "\<exists>l. tb_logs (se_obj s') = tb_logs (se_obj s) @ [l] \<and> tl_strategy_id l = sid \<and> signed_flow l = to_float fill 0 * q"
    and "tb_strategies (se_obj s') = tb_strategies (se_obj s)"
  using assms by (auto simp: open_perp_leg_def Let_def session_simps signed_flow_def cashflow_actions_def log_flow_def split: prod.splits if_splits)

lemma open_spot_leg_logs:
  assumes "open_spot_leg v ex sy sid eid price q hp s w = (ord, fill, pid, s', w')" and "ord \<noteq> None"
  shows "\<exists>l. tb_logs (se_obj s') = tb_logs (se_obj s) @ [l] \<and> tl_strategy_id l = sid \<and> signed_flow l = - (to_float fill 0 * q)"
  using assms by (auto simp: open_spot_leg_def Let_def session_simps signed_flow_def cashflow_actions_def log_flow_def split: prod.splits if_splits)

lemma hedge_position_money:
  "ps_unrealized (hedge_position pid sid eid sy side typ q fill ok) = Some 0"
  "entry_notional (hedge_position pid sid eid sy side typ q fill ok) = to_float fill 0 * q"
  by (simp_all add: hedge_position_def entry_notional_def)

lemma open_pair_money:
  assumes "open_pair v se pe sy ss lid shid usd sp pp e24 fee ratio lev now s w = (r, s', w')" and "op_success r"
    and "\<And>l. l \<in> set (tb_logs (se_obj s)) \<Longrightarrow> tl_strategy_id l \<noteq> next_strategy_id s"
  shows "op_strategy_id r = Some (next_strategy_id s)
    \<and> (\<exists>a b. tb_positions (se_obj s') = tb_positions (se_obj s) @ [a, b] \<and> ps_side a = Some ''short'' \<and> ps_side b = Some ''long''
         \<and> ps_unrealized a = Some 0 \<and> ps_unrealized b = Some 0
         \<and> calc_spread_pnl (own_logs (next_strategy_id s) (tb_logs (se_obj s'))) = entry_notional a - entry_notional b)"
proof -
  let ?sid = "next_strategy_id s"
  define s1 where "s1 = db_flush (add_strategy
            \<lparr>st_id = ?sid, st_type = Some ''spot_hedge'', st_symbol = Some sy,
             st_long_ex = Some lid, st_short_ex = Some shid,
             st_initial_margin = Some usd, st_status = Some ''active'',
             st_close_reason = [], st_entry_e24 = Some (to_float e24 0),
             st_entry_open_fee = Some (pos_part (to_float fee 0)),
             st_entry_spot_base = Some (pos_part (usd / sp)),
             st_entry_perp_base = Some (pos_part (usd / sp * pos_part (if ratio = 0 then 1 else ratio))),
             st_entry_delta_base = Some (py_round (pos_part (usd / sp) - pos_part (usd / sp * pos_part (if ratio = 0 then 1 else ratio))) 12),
             st_closed_at = None\<rparr> s)"
  let ?q = "usd / sp * pos_part (if ratio = 0 then 1 else ratio)"
  let ?lev = "max 1 (py_trunc (if lev = 0 then 1 else lev))"
  obtain po pf ppid s2 w1 where p: "open_perp_leg v pe sy ?sid shid pp ?q ?lev s1 w = (po, pf, ppid, s2, w1)"
    by (metis prod.exhaust)
  obtain so sf spid s3 w2 where q: "open_spot_leg v se ss ?sid lid sp (usd / sp) (po \<noteq> None) s2 w1 = (so, sf, spid, s3, w2)"
    by (metis prod.exhaust)
  have ok: "po \<noteq> None" "so \<noteq> None" "op_strategy_id r = Some ?sid"
      "s' = db_commit (set_strategy ?sid (\<lambda>r. r\<lparr>st_status := Some ''active'', st_close_reason := [], st_closed_at := None\<rparr>) s3)"
    using assms(1,2) p q unfolding open_pair_def Let_def s1_def[symmetric] by (auto split: prod.splits if_splits)
  have base: "tb_positions (se_obj s1) = tb_positions (se_obj s)" "tb_logs (se_obj s1) = tb_logs (se_obj s)"
    by (simp_all add: s1_def session_simps)
  obtain l1 where l1: "tb_logs (se_obj s2) = tb_logs (se_obj s1) @ [l1]" "tl_strategy_id l1 = ?sid" "signed_flow l1 = to_float pf 0 * ?q"
    using open_perp_leg_logs(1)[OF p ok(1)] by blast
  obtain l2 where l2: "tb_logs (se_obj s3) = tb_logs (se_obj s2) @ [l2]" "tl_strategy_id l2 = ?sid"
      "signed_flow l2 = - (to_float sf 0 * (usd / sp))"
    using open_spot_leg_logs[OF q ok(2)] by blast
  have "own_logs ?sid (tb_logs (se_obj s')) = [l1, l2]"
    using assms(3) l1(2) l2(2) by (auto simp: own_logs_def ok(4) session_simps l1(1) l2(1) base filter_empty_conv)
  then have "calc_spread_pnl (own_logs ?sid (tb_logs (se_obj s'))) = to_float pf 0 * ?q - to_float sf 0 * (usd / sp)"
    by (simp add: calc_spread_pnl_def l1(3) l2(3))
  moreover have "tb_positions (se_obj s') = tb_positions (se_obj s)
      @ [hedge_position ppid ?sid shid sy ''short'' ''swap'' ?q pf True, hedge_position spid ?sid lid ss ''long'' ''spot'' (usd / sp) sf True]"
    using open_perp_leg_facts(1)[OF p] open_spot_leg_facts(1)[OF q] ok(1,2) by (simp add: ok(4) session_simps base)
  ultimately show ?thesis using ok(3) by (auto simp: hedge_position_money)
qed

text \<open>
  C40: the report books the basis of a hedge as profit when it is opened: right after a successful open
  both legs are marked at their entry prices with no unrealised result, but the spread of the report
  (cash flows of the logs plus unrealised results) is the entry value of the perpetual minus the entry
  value of the spot, whatever that is; it is a result only once both legs have been closed.
\<close>

theorem fresh_hedge_reports_basis:
  assumes "open_strategy v sy lid shid usd lev e24 fee ratio now s w = (r, s', w')" and "op_success r"
    and "\<And>l. l \<in> set (tb_logs (se_obj s)) \<Longrightarrow> tl_strategy_id l \<noteq> next_strategy_id s"
  shows "\<exists>sid a b. op_strategy_id r = Some sid \<and> tb_positions (se_obj s') = tb_positions (se_obj s) @ [a, b]
    \<and> ps_side a = Some ''short'' \<and> ps_side b = Some ''long'' \<and> ps_unrealized a = Some 0 \<and> ps_unrealized b = Some 0
    \<and> calc_spread_pnl (own_logs sid (tb_logs (se_obj s'))) + to_float (ps_unrealized a) 0 + to_float (ps_unrealized b) 0
        = entry_notional a - entry_notional b"
proof -
  obtain se pe ss sp pp w1 where "open_pair v se pe sy ss lid shid usd sp pp e24 fee ratio lev now s w1 = (r, s', w')"
    using assms(1,2) by (auto simp: open_strategy_def open_error_def Let_def split: option.splits prod.splits)
  from open_pair_money[OF this assms(2,3)] show ?thesis by auto
qed

text \<open>A perpetual that trades one dollar above the spot: one coin is opened, and one dollar is reported.\<close>

definition basis_venue :: "nat venue" where
  "basis_venue = good_venue\<lparr>v_place_hedge := (\<lambda>w e s d q l. (Some (sample_order\<lparr>or_average := Some 101\<rparr>), Suc w))\<rparr>"

theorem fresh_hedge_reports_basis_witness:
  "\<exists>s' w' r. open_strategy basis_venue ''X'' 1 2 100 1 None None 1 50 (open_session False sample_exchanges sample_tables) 0 = (r, s', w')
    \<and> calc_spread_pnl (own_logs 8 (tb_logs (se_obj s'))) = 1
    \<and> (\<exists>a b. entry_notional a - entry_notional b = 1 \<and> ps_unrealized a = Some 0 \<and> ps_unrealized b = Some 0
         \<and> tb_positions (se_obj s') = tb_positions sample_tables @ [a, b])"
proof -
  let ?s = "open_session False sample_exchanges sample_tables"
  obtain r s' w' where c: "open_strategy basis_venue ''X'' 1 2 100 1 None None 1 50 ?s 0 = (r, s', w')" by (metis prod.exhaust)
  have sid: "next_strategy_id ?s = 8" and nologs: "tb_logs (se_obj ?s) = []" and pos: "tb_positions (se_obj ?s) = tb_positions sample_tables"
    by (simp_all add: next_strategy_id_def next_id_def sample_defs)
  have "op_success (fst (open_strategy basis_venue ''X'' 1 2 100 1 None None 1 50 ?s 0))
      \<and> op_strategy_id (fst (open_strategy basis_venue ''X'' 1 2 100 1 None None 1 50 ?s 0)) = Some 8
      \<and> calc_spread_pnl (own_logs 8 (tb_logs (se_obj (fst (snd (open_strategy basis_venue ''X'' 1 2 100 1 None None 1 50 ?s 0)))))) = 1"
    by (simp add: open_strategy_def query_exchange_def truthy_price_def open_pair_def open_perp_leg_def open_spot_leg_def basis_venue_def
        sid[simplified] own_logs_def calc_spread_pnl_def signed_flow_def log_flow_def cashflow_actions_def session_simps sample_defs Let_def
        next_strategy_id_def next_id_def)
  then have ok: "op_success r" "op_strategy_id r = Some 8" "calc_spread_pnl (own_logs 8 (tb_logs (se_obj s'))) = 1"
    unfolding c by simp_all
  from fresh_hedge_reports_basis[OF c ok(1)] nologs obtain sid a b where
    "op_strategy_id r = Some sid" "tb_positions (se_obj s') = tb_positions (se_obj ?s) @ [a, b]"
    "ps_unrealized a = Some 0" "ps_unrealized b = Some 0"
    "calc_spread_pnl (own_logs sid (tb_logs (se_obj s'))) + to_float (ps_unrealized a) 0 + to_float (ps_unrealized b) 0
        = entry_notional a - entry_notional b"
    by auto
  with ok c show ?thesis unfolding pos by force
qed

end
